(* ===== verification/Js_Prelude.thy ===== *)
theory Js_Prelude
  imports Complex_Main "HOL-Library.Sublist" "HOL-Library.Code_Target_Numeral"
begin

text \<open>
  Shared ground of the development: JavaScript strings, the string and array routines the
  console's TypeScript uses, and the generic lemmas on them.

  A JavaScript string is a sequence of UTF-16 code units, so \<open>jstr\<close> is a list of code units
  (natural numbers; the library's facts hold for every number, hence for those below 65536).
  An ASCII literal of the source is written \<open>js ''literal''\<close>.  A value of the TypeScript type
  \<open>string | undefined\<close> is a \<open>jstr option\<close>.
\<close>

named_theorems jstr_eval \<open>evaluation of literals on concrete code units\<close>
named_theorems trim_facts \<open>what trim leaves of a string\<close>

section \<open>Strings\<close>

type_synonym code_unit = nat
type_synonym jstr = "code_unit list"

definition js :: "string \<Rightarrow> jstr" where
  "js s = map of_char s"

lemma js_Nil [simp]: "js [] = []"
  by (simp add: js_def)

lemma js_eq_Nil_iff [simp]: "js s = [] \<longleftrightarrow> s = []" "[] = js s \<longleftrightarrow> s = []"
  by (auto simp: js_def)

lemma js_eq_iff [simp]: "js s = js t \<longleftrightarrow> s = t"
  by (auto simp: js_def inj_map_eq_map inj_on_def)

lemma js_Cons [jstr_eval]: "js (c # s) = of_char c # js s"
  by (simp add: js_def)

lemma js_append [jstr_eval]: "js (s @ t) = js s @ js t"
  by (simp add: js_def)

lemma length_js [simp]: "length (js s) = length s"
  by (simp add: js_def)

text \<open>White space in the sense of \<open>String.prototype.trim\<close> and of \<open>\s\<close> in a regular expression:
  the WhiteSpace and LineTerminator productions of the language.\<close>

definition js_spaces :: "code_unit list" where
  "js_spaces = [9, 10, 11, 12, 13, 32, 160, 5760, 8192, 8193, 8194, 8195, 8196, 8197, 8198,
     8199, 8200, 8201, 8202, 8232, 8233, 8239, 8287, 12288, 65279]"

definition is_space :: "code_unit \<Rightarrow> bool" where
  "is_space c \<longleftrightarrow> c \<in> set js_spaces"

definition trim :: "jstr \<Rightarrow> jstr" where
  "trim s = rev (dropWhile is_space (rev (dropWhile is_space s)))"

lemma trim_Nil [simp]: "trim [] = []"
  by (simp add: trim_def)

lemma set_trim_subset [trim_facts]: "set (trim s) \<subseteq> set s"
  unfolding trim_def by (metis set_dropWhileD set_rev subsetI)

lemma trim_hd_not_space [trim_facts]: "trim s \<noteq> [] \<Longrightarrow> \<not> is_space (hd (trim s))"
proof -
  assume ne: "trim s \<noteq> []"
  let ?u = "dropWhile is_space s"
  obtain v w where uv: "rev ?u = v @ w" and w: "w = dropWhile is_space (rev ?u)"
    by (metis takeWhile_dropWhile_id)
  have wne: "w \<noteq> []" using ne w by (auto simp: trim_def)
  have "?u = rev w @ rev v" using uv by (metis rev_append rev_rev_ident)
  then have "hd (rev w) = hd ?u" "?u \<noteq> []" using wne by (auto simp: hd_append)
  then show ?thesis using hd_dropWhile[of is_space s] w by (simp add: trim_def)
qed

lemma trim_last_not_space [trim_facts]: "trim s \<noteq> [] \<Longrightarrow> \<not> is_space (last (trim s))"
  by (simp add: trim_def last_rev hd_dropWhile)

lemma dropWhile_hd: "xs = [] \<or> \<not> P (hd xs) \<Longrightarrow> dropWhile P xs = xs"
  by (cases xs) auto

lemma trim_fixed:
  assumes "s = [] \<or> (\<not> is_space (hd s) \<and> \<not> is_space (last s))"
  shows "trim s = s"
  using assms by (auto simp: trim_def dropWhile_hd hd_rev)

lemma trim_no_space: "(\<And>c. c \<in> set s \<Longrightarrow> \<not> is_space c) \<Longrightarrow> trim s = s"
  by (rule trim_fixed) auto

lemma trim_trim [simp]: "trim (trim s) = trim s"
  by (rule trim_fixed) (auto dest: trim_hd_not_space trim_last_not_space)

lemma trim_eq_Nil_iff: "trim s = [] \<longleftrightarrow> (\<forall>c \<in> set s. is_space c)"
proof
  assume "trim s = []"
  then have "\<forall>c \<in> set (dropWhile is_space s). is_space c"
    by (simp add: trim_def dropWhile_eq_Nil_conv)
  then show "\<forall>c \<in> set s. is_space c"
    by (metis UnE set_append set_takeWhileD takeWhile_dropWhile_id)
next
  assume "\<forall>c \<in> set s. is_space c"
  then show "trim s = []" by (auto simp: trim_def dest: set_dropWhileD)
qed

section \<open>Splitting and joining\<close>

text \<open>\<open>s.split(d)\<close> for a one-unit separator, and \<open>parts.join(sep)\<close>.\<close>

fun split_on :: "code_unit \<Rightarrow> jstr \<Rightarrow> jstr list" where
  "split_on d [] = [[]]"
| "split_on d (c # cs) =
     (if c = d then [] # split_on d cs
      else case split_on d cs of [] \<Rightarrow> [[c]] | p # ps \<Rightarrow> (c # p) # ps)"

fun join :: "jstr \<Rightarrow> jstr list \<Rightarrow> jstr" where
  "join sep [] = []"
| "join sep [p] = p"
| "join sep (p # q # ps) = p @ sep @ join sep (q # ps)"

lemma split_on_nonempty [simp]: "split_on d s \<noteq> []"
  by (cases s) (auto split: list.splits)

lemma join_Cons_Cons: "ps \<noteq> [] \<Longrightarrow> join sep (p # ps) = p @ sep @ join sep ps"
  by (cases ps) auto

lemma join_nonempty_head: "ps \<noteq> [] \<Longrightarrow> hd ps \<noteq> [] \<Longrightarrow> join sep ps \<noteq> []"
  by (cases ps; cases "tl ps") auto

lemma split_on_no_sep: "d \<notin> set p \<Longrightarrow> split_on d p = [p]"
  by (induction p) auto

lemma split_on_append:
  "d \<notin> set p \<Longrightarrow> split_on d (p @ d # s) = p # split_on d s"
  by (induction p) auto

lemma append_sep_inj: "p @ d # s = q @ d # t \<Longrightarrow> d \<notin> set p \<Longrightarrow> d \<notin> set q \<Longrightarrow> p = q \<and> s = t"
proof (induction p arbitrary: q)
  case Nil
  then show ?case by (cases q) auto
next
  case (Cons c p)
  then show ?case by (cases q) auto
qed

lemma split_join:
  "ps \<noteq> [] \<Longrightarrow> (\<And>p. p \<in> set ps \<Longrightarrow> d \<notin> set p) \<Longrightarrow> split_on d (join [d] ps) = ps"
proof (induction ps)
  case (Cons p ps)
  then show ?case
    by (cases ps) (auto simp: split_on_no_sep split_on_append)
qed simp

lemma join_hd_Cons: "join sep ((c # p) # ps) = c # join sep (p # ps)"
  by (cases ps) auto

lemma join_split: "join [d] (split_on d s) = s"
proof (induction s)
  case (Cons c cs)
  obtain p ps where "split_on d cs = p # ps" by (cases "split_on d cs") auto
  with Cons show ?case by (auto simp: join_hd_Cons)
qed simp

lemma split_on_parts: "p \<in> set (split_on d s) \<Longrightarrow> d \<notin> set p \<and> set p \<subseteq> set s"
  by (induction s arbitrary: p) (force split: if_splits list.splits)+

text \<open>A list of trimmed, non-empty parts without the separator survives being joined and split.\<close>

lemma split_trim_parts: "p \<in> set (filter (\<lambda>m. m \<noteq> []) (map trim (split_on d s))) \<Longrightarrow> p \<noteq> [] \<and> trim p = p \<and> d \<notin> set p"
  using split_on_parts[of _ d s] set_trim_subset by fastforce

lemma split_trim_join:
  assumes "\<And>p. p \<in> set ps \<Longrightarrow> p \<noteq> [] \<and> trim p = p \<and> d \<notin> set p"
  shows "filter (\<lambda>m. m \<noteq> []) (map trim (split_on d (join [d] ps))) = ps"
proof (cases "ps = []")
  case False
  then have "split_on d (join [d] ps) = ps" using assms by (intro split_join) auto
  moreover have "map trim ps = ps" using assms by (intro map_idI) auto
  ultimately show ?thesis using assms by simp
qed simp

lemma set_join: "set (join sep ps) \<subseteq> \<Union> (set (map set ps)) \<union> set sep"
  by (induction sep ps rule: join.induct) auto

text \<open>Position of the first occurrence of a substring, and \<open>s.includes(pat)\<close>.\<close>

fun find_sub :: "jstr \<Rightarrow> jstr \<Rightarrow> nat option" where
  "find_sub pat [] = (if pat = [] then Some 0 else None)"
| "find_sub pat (c # cs) =
     (if prefix pat (c # cs) then Some 0 else map_option Suc (find_sub pat cs))"

definition js_includes :: "jstr \<Rightarrow> jstr \<Rightarrow> bool" where
  "js_includes s pat \<longleftrightarrow> find_sub pat s \<noteq> None"

lemma find_sub_SomeD:
  "find_sub pat s = Some i \<Longrightarrow> i \<le> length s \<and> prefix pat (drop i s)"
  by (induction s arbitrary: i) (auto split: if_splits)

lemma find_sub_length:
  "find_sub pat s = Some i \<Longrightarrow> i + length pat \<le> length s"
  by (induction s arbitrary: i) (auto split: if_splits dest: prefix_length_le)

lemma find_sub_split:
  "find_sub pat s = Some i \<Longrightarrow> s = take i s @ pat @ drop (i + length pat) s"
proof -
  assume "find_sub pat s = Some i"
  from find_sub_SomeD[OF this] obtain r where "drop i s = pat @ r" by (auto simp: prefix_def)
  then show ?thesis
    by (metis append_take_drop_id append_eq_conv_conj drop_drop add.commute)
qed

lemma js_includes_iff_sublist: "js_includes s pat \<longleftrightarrow> sublist pat s"
  unfolding js_includes_def
  by (induction s) (auto simp: sublist_Cons_right split: if_splits)

text \<open>A pattern none of whose proper prefixes is also a suffix of it.\<close>

definition unbordered :: "jstr \<Rightarrow> bool" where
  "unbordered pat \<longleftrightarrow> (\<forall>k \<in> set [1..<length pat]. drop k pat \<noteq> take (length pat - k) pat)"

lemma unbordered_not_straddle:
  assumes "unbordered pat" "prefix pat (t @ pat @ rest)" "t \<noteq> []" "length t < length pat"
  shows False
proof -
  obtain zs where z: "t @ pat @ rest = pat @ zs" using assms(2) by (auto simp only: prefix_def)
  have "t @ take (length pat - length t) pat = pat"
    using arg_cong[OF z, of "take (length pat)"] assms(4) by simp
  then have "drop (length t) pat = take (length pat - length t) pat"
    by (metis append_eq_conv_conj)
  moreover have "length t \<in> set [1..<length pat]" using assms(3,4) by (cases t) auto
  ultimately show False using assms(1) unfolding unbordered_def by blast
qed

lemma find_sub_first:
  assumes "\<not> js_includes t pat" "unbordered pat"
  shows "find_sub pat (t @ pat @ rest) = Some (length t)"
  using assms(1)
proof (induction t)
  case Nil
  have "prefix pat (pat @ rest)" by simp
  then show ?case by (cases "pat @ rest") auto
next
  case (Cons c t)
  have "\<not> prefix pat ((c # t) @ pat @ rest)"
  proof
    assume p: "prefix pat ((c # t) @ pat @ rest)"
    show False
    proof (cases "length (c # t) < length pat")
      case True
      with unbordered_not_straddle[OF assms(2) p] show False by simp
    next
      case False
      with p have "prefix pat (c # t)" by (meson not_less prefixI prefix_length_prefix)
      with Cons.prems show False by (simp add: js_includes_def)
    qed
  qed
  moreover have "\<not> js_includes t pat" using Cons.prems by (auto simp: js_includes_iff_sublist sublist_Cons_right)
  ultimately show ?case using Cons.IH by simp
qed

section \<open>Decimal numerals\<close>

definition is_digit :: "code_unit \<Rightarrow> bool" where
  "is_digit c \<longleftrightarrow> 48 \<le> c \<and> c \<le> 57"

text \<open>\<open>Number.parseInt(s, 10)\<close> on a string of digits, and the decimal form of a number.\<close>

definition parse_digits :: "jstr \<Rightarrow> nat" where
  "parse_digits s = foldl (\<lambda>a c. 10 * a + (c - 48)) 0 s"

fun show_nat :: "nat \<Rightarrow> jstr" where
  "show_nat n = (if n < 10 then [48 + n] else show_nat (n div 10) @ [48 + n mod 10])"

declare show_nat.simps [simp del]

lemma show_nat_nonempty [simp]: "show_nat n \<noteq> []"
  by (subst show_nat.simps) simp

lemma show_nat_digits: "c \<in> set (show_nat n) \<Longrightarrow> is_digit c"
proof (induction n rule: show_nat.induct)
  case (1 n)
  then show ?case
    by (cases "n < 10") (auto simp: show_nat.simps[of n] is_digit_def)
qed

lemma parse_show_nat [simp]: "parse_digits (show_nat n) = n"
proof (induction n rule: show_nat.induct)
  case (1 n)
  then show ?case
    by (cases "n < 10") (auto simp: show_nat.simps[of n] parse_digits_def)
qed

lemma show_nat_inject [simp]: "show_nat m = show_nat n \<longleftrightarrow> m = n"
  by (metis parse_show_nat)

lemma is_digit_not_space: "is_digit c \<Longrightarrow> \<not> is_space c"
  by (auto simp: is_digit_def is_space_def js_spaces_def)

section \<open>Sets of seen keys\<close>

text \<open>
  The loop the sources write again and again: walk an array, skip an element whose key was
  seen, keep the others in order.  \<open>Array.from(new Set(xs))\<close> is the case where the key is the
  element.
\<close>

fun dedup_seen :: "('a \<Rightarrow> 'k) \<Rightarrow> 'k list \<Rightarrow> 'a list \<Rightarrow> 'a list" where
  "dedup_seen key seen [] = []"
| "dedup_seen key seen (x # xs) =
     (if key x \<in> set seen then dedup_seen key seen xs
      else x # dedup_seen key (key x # seen) xs)"

abbreviation dedup_by :: "('a \<Rightarrow> 'k) \<Rightarrow> 'a list \<Rightarrow> 'a list" where
  "dedup_by key \<equiv> dedup_seen key []"

abbreviation js_unique :: "'a list \<Rightarrow> 'a list" where
  "js_unique \<equiv> dedup_by (\<lambda>x. x)"

lemma dedup_seen_keys:
  "key ` set (dedup_seen key seen xs) = key ` set xs - set seen"
  by (induction xs arbitrary: seen) auto

lemma dedup_seen_distinct: "distinct (map key (dedup_seen key seen xs))"
proof (induction xs arbitrary: seen)
  case (Cons x xs)
  have "key x \<notin> key ` set (dedup_seen key (key x # seen) xs)"
    by (simp add: dedup_seen_keys)
  with Cons show ?case by simp
qed simp

lemma dedup_seen_subseq: "subseq (dedup_seen key seen xs) xs"
  by (induction xs arbitrary: seen) auto

lemma dedup_seen_fixed:
  "distinct (map key xs) \<Longrightarrow> key ` set xs \<inter> set seen = {} \<Longrightarrow> dedup_seen key seen xs = xs"
  by (induction xs arbitrary: seen) auto

lemma dedup_by_idem [simp]: "dedup_by key (dedup_by key xs) = dedup_by key xs"
  by (rule dedup_seen_fixed) (auto intro: dedup_seen_distinct)

lemma set_dedup_subset: "set (dedup_seen key seen xs) \<subseteq> set xs"
  by (induction xs arbitrary: seen) auto

lemma set_js_unique [simp]: "set (js_unique xs) = set xs"
  using dedup_seen_keys[of "\<lambda>x. x" "[]" xs] by simp

lemma distinct_js_unique [simp]: "distinct (js_unique xs)"
  using dedup_seen_distinct[of "\<lambda>x. x" "[]" xs] by simp

lemma js_unique_fixed [simp]: "distinct xs \<Longrightarrow> js_unique xs = xs"
  by (rule dedup_seen_fixed) auto

section \<open>Searching\<close>

lemma find_SomeD: "find P xs = Some x \<Longrightarrow> P x \<and> x \<in> set xs"
  by (induction xs) (auto split: if_splits)

end
