(* ===== verification/Range_Merge.thy ===== *)
theory Range_Merge
  imports Js_Prelude
begin

text \<open>
  The interface of a left-to-right range merger.  Two components of the console sort a list of
  ranges and fold it into a list of separated ranges: the HTTP status code rules (closed
  ranges, adjacent ones are fused, \<open>gap = 1\<close>) and the keyword highlighter (half-open ranges,
  touching ones are fused, \<open>gap = 0\<close>).  The locale states what one step of such a fold promises
  and proves once what the whole fold then delivers: it denotes the same points, its ranges are
  separated, and separated lists are canonical.
\<close>

locale range_merge =
  fixes lo :: "'r \<Rightarrow> nat"
    and hi :: "'r \<Rightarrow> nat"
    and mk :: "nat \<Rightarrow> nat \<Rightarrow> 'r"
    and gap :: nat
    and step :: "'r list \<Rightarrow> 'r \<Rightarrow> 'r list"
  assumes lo_mk [simp]: "lo (mk a b) = a"
    and hi_mk [simp]: "hi (mk a b) = b"
    and range_eqI: "lo r = lo s \<Longrightarrow> hi r = hi s \<Longrightarrow> r = s"
    and step_Nil: "step [] r = [r]"
    and step_new: "hi l + gap < lo r \<Longrightarrow> step (ms @ [l]) r = ms @ [l, r]"
    and step_extend: "\<not> hi l + gap < lo r \<Longrightarrow>
          step (ms @ [l]) r = ms @ [mk (lo l) (max (hi l) (hi r))]"
begin

definition points :: "'r \<Rightarrow> nat set" where
  "points r = {lo r ..< hi r + gap}"

definition all_points :: "'r list \<Rightarrow> nat set" where
  "all_points rs = \<Union> (points ` set rs)"

definition proper :: "'r \<Rightarrow> bool" where
  "proper r \<longleftrightarrow> lo r < hi r + gap"

definition separated :: "'r list \<Rightarrow> bool" where
  "separated rs \<longleftrightarrow> (\<forall>r \<in> set rs. proper r) \<and> sorted_wrt (\<lambda>a b. hi a + gap < lo b) rs"

lemma all_points_simps [simp]:
  "all_points [] = {}"
  "all_points (r # rs) = points r \<union> all_points rs"
  "all_points (rs @ ss) = all_points rs \<union> all_points ss"
  by (auto simp: all_points_def)

lemma separated_simps [simp]:
  "separated []"
  "separated [r] \<longleftrightarrow> proper r"
  by (auto simp: separated_def)

lemma separated_Cons:
  "separated (r # rs) \<longleftrightarrow> proper r \<and> separated rs \<and> (\<forall>s \<in> set rs. hi r + gap < lo s)"
  by (auto simp: separated_def)

lemma separated_snoc:
  "separated (rs @ [r]) \<longleftrightarrow> proper r \<and> separated rs \<and> (\<forall>s \<in> set rs. hi s + gap < lo r)"
  by (auto simp: separated_def sorted_wrt_append)

lemma points_extend:
  assumes "proper l" "proper r" "lo l \<le> lo r" "\<not> hi l + gap < lo r"
  shows "points (mk (lo l) (max (hi l) (hi r))) = points l \<union> points r"
  using assms by (auto simp: points_def proper_def)

lemma step_snoc_points:
  assumes "proper l" "proper r" "lo l \<le> lo r"
  shows "all_points (step (ms @ [l]) r) = all_points (ms @ [l]) \<union> points r"
  using assms points_extend[of l r]
  by (cases "hi l + gap < lo r") (auto simp: step_new step_extend)

lemma step_snoc_separated:
  assumes "separated (ms @ [l])" "proper r" "lo l \<le> lo r"
  shows "\<exists>ms' l'. step (ms @ [l]) r = ms' @ [l'] \<and> separated (ms' @ [l']) \<and> lo l' \<le> lo r"
proof (cases "hi l + gap < lo r")
  case True
  then have "step (ms @ [l]) r = (ms @ [l]) @ [r]" by (simp add: step_new)
  moreover have "separated ((ms @ [l]) @ [r])"
    using assms True unfolding separated_snoc by (auto simp: proper_def)
  ultimately show ?thesis by blast
next
  case False
  let ?l = "mk (lo l) (max (hi l) (hi r))"
  have "step (ms @ [l]) r = ms @ [?l]" using False by (simp add: step_extend)
  moreover have "separated (ms @ [?l])"
    using assms by (auto simp: separated_snoc proper_def)
  ultimately show ?thesis using assms(3) by (intro exI[of _ ms] exI[of _ ?l]) simp
qed

lemma fold_snoc:
  assumes "separated (ms @ [l])" "\<forall>r \<in> set rs. proper r" "sorted_wrt (\<lambda>a b. lo a \<le> lo b) (l # rs)"
  shows "separated (foldl step (ms @ [l]) rs)
    \<and> all_points (foldl step (ms @ [l]) rs) = all_points (ms @ [l]) \<union> all_points rs"
  using assms
proof (induction rs arbitrary: ms l)
  case (Cons r rs)
  from Cons.prems have l: "proper l" "proper r" "lo l \<le> lo r"
    by (auto simp: separated_snoc)
  obtain ms' l' where st: "step (ms @ [l]) r = ms' @ [l']" "separated (ms' @ [l'])" "lo l' \<le> lo r"
    using step_snoc_separated[OF Cons.prems(1) l(2,3)] by blast
  have "sorted_wrt (\<lambda>a b. lo a \<le> lo b) (l' # rs)" using Cons.prems(3) st(3) by fastforce
  with Cons.IH[OF st(2)] Cons.prems(2) st(1) step_snoc_points[OF l, of ms]
  show ?case by auto
qed simp

theorem fold_merge:
  assumes "\<forall>r \<in> set rs. proper r" "sorted_wrt (\<lambda>a b. lo a \<le> lo b) rs"
  shows "separated (foldl step [] rs)" "all_points (foldl step [] rs) = all_points rs"
proof -
  have "separated (foldl step [] rs) \<and> all_points (foldl step [] rs) = all_points rs"
  proof (cases rs)
    case (Cons r rs')
    with assms fold_snoc[of "[]" r rs'] show ?thesis by (auto simp: step_Nil)
  qed simp
  then show "separated (foldl step [] rs)" "all_points (foldl step [] rs) = all_points rs" by auto
qed

lemma separated_lower: "separated (r # rs) \<Longrightarrow> p \<in> all_points (r # rs) \<Longrightarrow> lo r \<le> p"
  by (auto simp: separated_Cons all_points_def points_def proper_def)

lemma separated_hole: "separated (r # rs) \<Longrightarrow> hi r + gap \<notin> all_points (r # rs)"
  by (auto simp: separated_Cons all_points_def points_def)

lemma separated_tail_points:
  "separated (r # rs) \<Longrightarrow> all_points rs = {p \<in> all_points (r # rs). hi r + gap < p}"
  by (auto simp: separated_Cons all_points_def points_def)

lemma separated_lo_mem: "separated (r # rs) \<Longrightarrow> lo r \<in> all_points (r # rs)"
  by (auto simp: separated_Cons points_def proper_def)

lemma separated_head_eq:
  assumes "separated (r # rs)" "separated (s # ss)" "all_points (r # rs) = all_points (s # ss)"
  shows "r = s"
proof -
  have lo: "lo r = lo s"
    using assms separated_lower separated_lo_mem by (metis le_antisym)
  have mem: "lo r \<le> p \<Longrightarrow> p < hi r + gap \<Longrightarrow> p \<in> all_points (r # rs)"
    and mem': "lo s \<le> p \<Longrightarrow> p < hi s + gap \<Longrightarrow> p \<in> all_points (s # ss)" for p
    by (auto simp: points_def)
  have "\<not> hi r < hi s"
    using mem'[of "hi r + gap"] separated_hole[OF assms(1)] assms lo
    by (auto simp: separated_Cons proper_def)
  moreover have "\<not> hi s < hi r"
    using mem[of "hi s + gap"] separated_hole[OF assms(2)] assms lo
    by (auto simp: separated_Cons proper_def)
  ultimately show "r = s" using lo by (intro range_eqI) auto
qed

theorem separated_canonical:
  "separated rs \<Longrightarrow> separated ss \<Longrightarrow> all_points rs = all_points ss \<Longrightarrow> rs = ss"
proof (induction rs arbitrary: ss)
  case Nil
  then show ?case using separated_lo_mem by (cases ss) fastforce+
next
  case (Cons r rs)
  then obtain s ss' where ss: "ss = s # ss'"
    using separated_lo_mem[of r rs] by (cases ss) auto
  with Cons.prems have "r = s" using separated_head_eq by blast
  moreover have "rs = ss'"
  proof (rule Cons.IH)
    show "separated rs" "separated ss'" using Cons.prems ss by (auto simp: separated_Cons)
    show "all_points rs = all_points ss'"
      unfolding separated_tail_points[OF Cons.prems(1)]
        separated_tail_points[OF Cons.prems(2)[unfolded ss]]
      using Cons.prems(3) ss \<open>r = s\<close> by (simp only:)
  qed
  ultimately show ?case using ss by simp
qed

end

end
