(* ===== verification/Status_Rules.thy ===== *)
theory Status_Rules
  imports Range_Merge
begin

text \<open>
  \<open>web/src/lib/http-status-code-rules.ts\<close>: the text field in which an administrator lists HTTP
  status codes and ranges (\<open>401,403,500-599\<close>).  The parser cuts the text at commas (the
  full-width comma too), parses each segment, reports the segments it cannot read, and
  otherwise returns the merged ranges with their printed form.  Callers pass the text of a form
  field or nothing, so the argument of type \<open>unknown\<close> is a \<open>jstr option\<close>.
\<close>

datatype StatusCodeRange = StatusCodeRange (sc_start: nat) (sc_end: nat)

record ParsedHttpStatusCodeRules =
  ok :: bool
  ranges :: "StatusCodeRange list"
  tokens :: "jstr list"
  normalized :: jstr
  invalidTokens :: "jstr list"

text \<open>The comparator of \<open>mergeRanges\<close>: by start, then by end.\<close>

instantiation StatusCodeRange :: linorder
begin

definition less_eq_StatusCodeRange :: "StatusCodeRange \<Rightarrow> StatusCodeRange \<Rightarrow> bool" where
  "a \<le> b \<longleftrightarrow> (if sc_start a \<noteq> sc_start b then sc_start a < sc_start b else sc_end a \<le> sc_end b)"

definition less_StatusCodeRange :: "StatusCodeRange \<Rightarrow> StatusCodeRange \<Rightarrow> bool" where
  "a < b \<longleftrightarrow> (if sc_start a \<noteq> sc_start b then sc_start a < sc_start b else sc_end a < sc_end b)"

instance
  by standard
    (auto simp: less_eq_StatusCodeRange_def less_StatusCodeRange_def
      intro: StatusCodeRange.expand split: if_splits)

end

definition isNumber :: "jstr \<Rightarrow> bool" where
  "isNumber s \<longleftrightarrow> s \<noteq> [] \<and> list_all is_digit s"

definition isValidCode :: "nat \<Rightarrow> bool" where
  "isValidCode code \<longleftrightarrow> 100 \<le> code \<and> code \<le> 599"

text \<open>\<open>parseToken\<close>; \<open>45\<close> is the hyphen.  The destructuring \<open>[a, b] = cleaned.split('-')\<close> reads
  the first two parts and drops any further one.\<close>

definition parseToken :: "jstr \<Rightarrow> StatusCodeRange option" where
  "parseToken token =
     (let cleaned = filter (\<lambda>c. \<not> is_space c) (trim token) in
      if cleaned = [] then None
      else if 45 \<in> set cleaned then
        (case split_on 45 cleaned of
           a # b # rest \<Rightarrow>
             if \<not> isNumber a \<or> \<not> isNumber b then None
             else let start = parse_digits a; end' = parse_digits b in
               if \<not> isValidCode start \<or> \<not> isValidCode end' \<or> end' < start then None
               else Some (StatusCodeRange start end')
         | _ \<Rightarrow> None)
      else if \<not> isNumber cleaned then None
      else let code = parse_digits cleaned in
        if \<not> isValidCode code then None else Some (StatusCodeRange code code))"

definition merge_range :: "StatusCodeRange list \<Rightarrow> StatusCodeRange \<Rightarrow> StatusCodeRange list" where
  "merge_range merged current =
     (if merged = [] \<or> sc_end (last merged) + 1 < sc_start current then merged @ [current]
      else butlast merged @
        [StatusCodeRange (sc_start (last merged)) (max (sc_end (last merged)) (sc_end current))])"

definition mergeRanges :: "StatusCodeRange list \<Rightarrow> StatusCodeRange list" where
  "mergeRanges rs = (if rs = [] then [] else foldl merge_range [] (sort rs))"

definition range_token :: "StatusCodeRange \<Rightarrow> jstr" where
  "range_token r =
     (if sc_start r = sc_end r then show_nat (sc_start r)
      else show_nat (sc_start r) @ 45 # show_nat (sc_end r))"

text \<open>The comma is \<open>44\<close>, the full-width comma \<open>65292\<close>.\<close>

definition rule_segments :: "jstr \<Rightarrow> jstr list" where
  "rule_segments raw =
     filter (\<lambda>s. s \<noteq> [])
       (map trim (split_on 44 (map (\<lambda>c. if c = 65292 then 44 else c) raw)))"

definition parseHttpStatusCodeRules :: "jstr option \<Rightarrow> ParsedHttpStatusCodeRules" where
  "parseHttpStatusCodeRules input =
     (let raw = trim (case input of None \<Rightarrow> [] | Some s \<Rightarrow> s) in
      if raw = [] then
        \<lparr>ok = True, ranges = [], tokens = [], normalized = [], invalidTokens = []\<rparr>
      else
        let segments = rule_segments raw;
            invalid = filter (\<lambda>s. parseToken s = None) segments;
            parsed = map (\<lambda>s. the (parseToken s)) (filter (\<lambda>s. parseToken s \<noteq> None) segments)
        in if invalid \<noteq> [] then
             \<lparr>ok = False, ranges = [], tokens = [], normalized = raw, invalidTokens = invalid\<rparr>
           else let merged = mergeRanges parsed; toks = map range_token merged in
             \<lparr>ok = True, ranges = merged, tokens = toks, normalized = join [44] toks,
              invalidTokens = []\<rparr>)"

text \<open>What a list of ranges means to the relay: the set of codes it names.\<close>

definition codes :: "StatusCodeRange list \<Rightarrow> nat set" where
  "codes rs = (\<Union>r \<in> set rs. {sc_start r .. sc_end r})"

definition canonical_ranges :: "StatusCodeRange list \<Rightarrow> bool" where
  "canonical_ranges rs \<longleftrightarrow> (\<forall>r \<in> set rs. sc_start r \<le> sc_end r)
     \<and> sorted_wrt (\<lambda>a b. sc_end a + 1 < sc_start b) rs"

definition valid_range :: "StatusCodeRange \<Rightarrow> bool" where
  "valid_range r \<longleftrightarrow> isValidCode (sc_start r) \<and> isValidCode (sc_end r) \<and> sc_start r \<le> sc_end r"

section \<open>Merging\<close>

interpretation status: range_merge sc_start sc_end StatusCodeRange "Suc 0" merge_range
  by unfold_locales (auto simp: merge_range_def intro: StatusCodeRange.expand)

lemma status_points: "status.all_points rs = codes rs"
  by (auto simp: status.all_points_def status.points_def codes_def)

lemma status_separated: "status.separated rs = canonical_ranges rs"
  by (auto simp: status.separated_def status.proper_def canonical_ranges_def)

lemma sort_start_sorted: "sorted_wrt (\<lambda>a b. sc_start a \<le> sc_start b) (sort (rs :: StatusCodeRange list))"
  by (rule sorted_wrt_mono_rel[OF _ sorted_sort])
    (auto simp: less_eq_StatusCodeRange_def split: if_splits)

lemma mergeRanges_alt: "mergeRanges rs = foldl merge_range [] (sort rs)"
  by (simp add: mergeRanges_def)

lemma codes_sort [simp]: "codes (sort rs) = codes rs"
  by (simp add: codes_def)

lemma mergeRanges_canonical:
  assumes "\<forall>r \<in> set rs. sc_start r \<le> sc_end r"
  shows "canonical_ranges (mergeRanges rs)" and "codes (mergeRanges rs) = codes rs"
proof -
  have "\<forall>r \<in> set (sort rs). status.proper r" using assms by (auto simp: status.proper_def)
  note fm = status.fold_merge[OF this sort_start_sorted]
  show "canonical_ranges (mergeRanges rs)"
    using fm(1) by (simp add: mergeRanges_alt status_separated)
  show "codes (mergeRanges rs) = codes rs"
    using fm(2) by (simp add: mergeRanges_alt status_points)
qed

lemmas canonical_unique = status.separated_canonical[unfolded status_separated status_points]

lemma mergeRanges_fixed: "canonical_ranges rs \<Longrightarrow> mergeRanges rs = rs"
  by (rule canonical_unique)
    (simp_all add: mergeRanges_canonical[of rs] canonical_ranges_def[of rs])

section \<open>Tokens\<close>

lemma parseToken_valid: "parseToken s = Some r \<Longrightarrow> valid_range r"
  by (auto simp: parseToken_def valid_range_def Let_def split: if_splits list.splits)

lemma isNumber_show [simp]: "isNumber (show_nat n)"
  by (simp add: isNumber_def list_all_iff show_nat_digits)

lemma show_nat_no [simp]:
  "\<not> is_digit c \<Longrightarrow> c \<notin> set (show_nat n)"
  using show_nat_digits by blast

lemma range_token_chars: "c \<in> set (range_token r) \<Longrightarrow> is_digit c \<or> c = 45"
  by (auto simp: range_token_def dest: show_nat_digits split: if_splits)

lemma range_token_clean:
  "c \<in> set (range_token r) \<Longrightarrow> \<not> is_space c" "44 \<notin> set (range_token r)" "65292 \<notin> set (range_token r)"
  using range_token_chars is_digit_not_space
  by (fastforce simp: is_digit_def is_space_def js_spaces_def)+

lemma range_token_nonempty [simp]: "range_token r \<noteq> []"
  by (simp add: range_token_def)

lemma cleaned_range_token:
  "filter (\<lambda>c. \<not> is_space c) (trim (range_token r)) = range_token r"
  by (simp add: trim_no_space range_token_clean filter_id_conv)

lemma parse_range_token: "valid_range r \<Longrightarrow> parseToken (range_token r) = Some r"
proof -
  assume v: "valid_range r"
  have nd: "45 \<notin> set (show_nat n)" for n by (simp add: is_digit_def)
  show ?thesis
    using v unfolding parseToken_def cleaned_range_token
    by (cases r)
      (auto simp: range_token_def nd split_on_append split_on_no_sep Let_def valid_range_def)
qed

section \<open>The printed form\<close>

definition print_ranges :: "StatusCodeRange list \<Rightarrow> jstr" where
  "print_ranges rs = join [44] (map range_token rs)"

lemma print_ranges_chars: "c \<in> set (print_ranges rs) \<Longrightarrow> \<not> is_space c \<and> c \<noteq> 65292"
proof -
  assume "c \<in> set (print_ranges rs)"
  then have "c = 44 \<or> (\<exists>r. c \<in> set (range_token r))"
    using set_join[of "[44]" "map range_token rs"] unfolding print_ranges_def by auto
  then show ?thesis using range_token_clean by (auto simp: is_space_def js_spaces_def)
qed

lemma print_ranges_eq_Nil [simp]: "print_ranges rs = [] \<longleftrightarrow> rs = []"
  by (cases rs; cases "tl rs") (auto simp: print_ranges_def)

lemma trim_print_ranges [simp]: "trim (print_ranges rs) = print_ranges rs"
  by (rule trim_no_space) (simp add: print_ranges_chars)

lemma rule_segments_print:
  assumes "rs \<noteq> []" shows "rule_segments (print_ranges rs) = map range_token rs"
proof -
  have "map (\<lambda>c. if c = 65292 then 44 else c) (print_ranges rs) = print_ranges rs"
    by (rule map_idI) (simp add: print_ranges_chars)
  moreover have "split_on 44 (print_ranges rs) = map range_token rs"
    unfolding print_ranges_def using assms by (intro split_join) (auto simp: range_token_clean)
  moreover have "map trim (map range_token rs) = map range_token rs"
    by (simp add: trim_no_space range_token_clean)
  ultimately show ?thesis by (simp add: rule_segments_def filter_id_conv del: map_map)
qed

lemma parse_print_ranges:
  assumes "\<forall>r \<in> set rs. valid_range r" "canonical_ranges rs"
  shows "parseHttpStatusCodeRules (Some (print_ranges rs)) =
    \<lparr>ok = True, ranges = rs, tokens = map range_token rs, normalized = print_ranges rs,
     invalidTokens = []\<rparr>"
proof (cases "rs = []")
  case True
  then show ?thesis by (simp add: parseHttpStatusCodeRules_def print_ranges_def)
next
  case False
  have "map (\<lambda>s. the (parseToken s)) (map range_token rs) = rs"
    using assms(1) by (simp add: map_idI parse_range_token)
  moreover have "\<forall>s \<in> set (map range_token rs). parseToken s \<noteq> None"
    using assms(1) by (auto simp: parse_range_token)
  ultimately show ?thesis
    using False assms(2)
    by (simp add: parseHttpStatusCodeRules_def rule_segments_print mergeRanges_fixed
      print_ranges_def[symmetric] Let_def filter_id_conv filter_empty_conv del: map_map)
qed

section \<open>What the parser returns\<close>

definition segments_of :: "jstr option \<Rightarrow> jstr list" where
  "segments_of input = rule_segments (trim (case input of None \<Rightarrow> [] | Some s \<Rightarrow> s))"

definition parsed_ranges :: "jstr list \<Rightarrow> StatusCodeRange list" where
  "parsed_ranges segs = map (\<lambda>s. the (parseToken s)) (filter (\<lambda>s. parseToken s \<noteq> None) segs)"

lemma rule_segments_Nil [simp]: "rule_segments [] = []"
  by (simp add: rule_segments_def)

lemma parse_ok_iff:
  "ok (parseHttpStatusCodeRules input) \<longleftrightarrow> (\<forall>s \<in> set (segments_of input). parseToken s \<noteq> None)"
  by (auto simp: parseHttpStatusCodeRules_def segments_of_def Let_def filter_empty_conv)

lemma parse_ok_ranges:
  "ok (parseHttpStatusCodeRules input) \<Longrightarrow>
     ranges (parseHttpStatusCodeRules input) = mergeRanges (parsed_ranges (segments_of input))"
  by (auto simp: parseHttpStatusCodeRules_def segments_of_def parsed_ranges_def Let_def
      mergeRanges_def split: if_splits)

lemma parse_ok_normalized:
  "ok (parseHttpStatusCodeRules input) \<Longrightarrow>
     normalized (parseHttpStatusCodeRules input) = print_ranges (ranges (parseHttpStatusCodeRules input))"
  by (auto simp: parseHttpStatusCodeRules_def print_ranges_def Let_def split: if_splits)

lemma parsed_ranges_valid: "r \<in> set (parsed_ranges segs) \<Longrightarrow> valid_range r"
  by (auto simp: parsed_ranges_def intro: parseToken_valid)

lemma parse_ok_canonical:
  assumes "ok (parseHttpStatusCodeRules input)"
  shows "canonical_ranges (ranges (parseHttpStatusCodeRules input))"
    and "codes (ranges (parseHttpStatusCodeRules input)) = codes (parsed_ranges (segments_of input))"
  using mergeRanges_canonical[of "parsed_ranges (segments_of input)"] parsed_ranges_valid
  by (auto simp: parse_ok_ranges[OF assms] valid_range_def)

lemma canonical_bounds:
  assumes "canonical_ranges rs" "codes rs \<subseteq> {100..599}" "r \<in> set rs"
  shows "valid_range r"
proof -
  have "sc_start r \<le> sc_end r" using assms by (auto simp: canonical_ranges_def)
  moreover have "{sc_start r .. sc_end r} \<subseteq> {100..599}"
    using assms(2,3) unfolding codes_def by blast
  ultimately show ?thesis by (auto simp: valid_range_def isValidCode_def)
qed

lemma parse_ok_bounds:
  assumes "ok (parseHttpStatusCodeRules input)"
  shows "codes (ranges (parseHttpStatusCodeRules input)) \<subseteq> {100..599}"
  unfolding parse_ok_canonical(2)[OF assms]
  by (auto simp: codes_def valid_range_def isValidCode_def dest!: parsed_ranges_valid)

section \<open>Properties\<close>

text \<open>Merging keeps the meaning of the rules and makes them canonical: the merged ranges
  name exactly the codes the given ranges name, each is a nonempty range, and between two
  consecutive ones at least one code is missing.\<close>

lemma mergeRanges_denotes:
  assumes "\<forall>r \<in> set rs. sc_start r \<le> sc_end r"
  shows "codes (mergeRanges rs) = codes rs \<and> canonical_ranges (mergeRanges rs)"
  using mergeRanges_canonical[OF assms] by simp

text \<open>C1. Round trip: the normalised text of an accepted input is accepted again and gives the
  same result, ranges, tokens and text, so normalising is idempotent.\<close>

theorem parse_normalized_roundtrip:
  assumes "ok (parseHttpStatusCodeRules input)"
  shows "parseHttpStatusCodeRules (Some (normalized (parseHttpStatusCodeRules input)))
    = parseHttpStatusCodeRules input"
proof -
  let ?p = "parseHttpStatusCodeRules input"
  have rt: "tokens ?p = map range_token (ranges ?p)" "invalidTokens ?p = []"
    using assms by (auto simp: parseHttpStatusCodeRules_def Let_def split: if_splits)
  have "\<forall>r \<in> set (ranges ?p). valid_range r"
    using canonical_bounds parse_ok_canonical(1) parse_ok_bounds assms by blast
  then show ?thesis
    using parse_print_ranges parse_ok_canonical(1)[OF assms] parse_ok_normalized[OF assms] rt assms
    by simp
qed

theorem parse_normalized_roundtrip_witness:
  "ok (parseHttpStatusCodeRules (Some (js '' 429 , 500-503,504'')))
   \<and> parseHttpStatusCodeRules
       (Some (normalized (parseHttpStatusCodeRules (Some (js '' 429 , 500-503,504'')))))
     = parseHttpStatusCodeRules (Some (js '' 429 , 500-503,504''))"
proof -
  have "ok (parseHttpStatusCodeRules (Some (js '' 429 , 500-503,504'')))" by code_simp
  with parse_normalized_roundtrip show ?thesis by blast
qed

text \<open>The normalised text is a canonical form: two accepted inputs normalise to the same text
  exactly when they name the same set of status codes.\<close>

lemma normalized_canonical:
  assumes "ok (parseHttpStatusCodeRules a)" "ok (parseHttpStatusCodeRules b)"
  shows "normalized (parseHttpStatusCodeRules a) = normalized (parseHttpStatusCodeRules b)
    \<longleftrightarrow> codes (ranges (parseHttpStatusCodeRules a)) = codes (ranges (parseHttpStatusCodeRules b))"
proof
  assume "normalized (parseHttpStatusCodeRules a) = normalized (parseHttpStatusCodeRules b)"
  then show "codes (ranges (parseHttpStatusCodeRules a)) = codes (ranges (parseHttpStatusCodeRules b))"
    using assms parse_print_ranges canonical_bounds parse_ok_canonical(1) parse_ok_bounds
    by (metis parse_ok_normalized ParsedHttpStatusCodeRules.select_convs(2))
next
  assume "codes (ranges (parseHttpStatusCodeRules a)) = codes (ranges (parseHttpStatusCodeRules b))"
  then show "normalized (parseHttpStatusCodeRules a) = normalized (parseHttpStatusCodeRules b)"
    using canonical_unique parse_ok_canonical(1) assms parse_ok_normalized by metis
qed

text \<open>Rejection, whatever the input: the result is not \<open>ok\<close> exactly when some segment cannot be
  read; then the invalid tokens are exactly the unreadable segments, in their order, no range is
  returned and the text is handed back unchanged but for the trimming; an accepted input reports no
  invalid token and only codes from 100 to 599.\<close>

lemma parse_rejection:
  "ok (parseHttpStatusCodeRules input) = list_all (\<lambda>s. parseToken s \<noteq> None) (segments_of input)
   \<and> invalidTokens (parseHttpStatusCodeRules input) = filter (\<lambda>s. parseToken s = None) (segments_of input)
   \<and> (if ok (parseHttpStatusCodeRules input)
      then codes (ranges (parseHttpStatusCodeRules input)) \<subseteq> {100..599}
      else ranges (parseHttpStatusCodeRules input) = []
        \<and> normalized (parseHttpStatusCodeRules input) = trim (the input))"
proof (intro conjI)
  show "ok (parseHttpStatusCodeRules input) = list_all (\<lambda>s. parseToken s \<noteq> None) (segments_of input)"
    by (simp only: parse_ok_iff list_all_iff)
  show "invalidTokens (parseHttpStatusCodeRules input) = filter (\<lambda>s. parseToken s = None) (segments_of input)"
    by (auto simp: parseHttpStatusCodeRules_def segments_of_def Let_def)
  show "if ok (parseHttpStatusCodeRules input)
    then codes (ranges (parseHttpStatusCodeRules input)) \<subseteq> {100..599}
    else ranges (parseHttpStatusCodeRules input) = []
      \<and> normalized (parseHttpStatusCodeRules input) = trim (the input)"
  proof (cases "ok (parseHttpStatusCodeRules input)")
    case True
    then show ?thesis using parse_ok_bounds by simp
  next
    case False
    then show ?thesis
      by (cases input) (auto simp: parseHttpStatusCodeRules_def Let_def split: if_splits)
  qed
qed

text \<open>The range form reads two parts and ignores what follows a second hyphen, so a malformed
  token is accepted as if it ended there.\<close>

lemma parseToken_ignores_third_part: "parseToken (js ''400-499-junk'') = Some (StatusCodeRange 400 499)"
  by code_simp

end
