(* ===== verification/Js_Value.thy ===== *)
theory Js_Value
  imports Js_Prelude
begin

text \<open>
  JavaScript values as the console receives them from \<open>JSON.parse\<close>, from HTTP responses and
  from other tabs (the TypeScript type \<open>unknown\<close>), with the run-time tests the sources apply to
  them.

  A number is a finite rational, an infinity or NaN.  Every finite binary64 value is a rational,
  so comparisons and integrality tests are exact; the sources modelled here do no arithmetic on
  such values that would round (they add timestamps, counters and quotas).  An object is its list
  of own properties, in order.
\<close>

datatype jnum = Fin rat | PosInf | NegInf | NaN

datatype jval =
    JUndefined
  | JNull
  | JBool bool
  | JNum jnum
  | JStr jstr
  | JArr "jval list"
  | JObj "(jstr \<times> jval) list"

section \<open>Numbers\<close>

fun is_finite :: "jnum \<Rightarrow> bool" where
  "is_finite (Fin q) = True"
| "is_finite _ = False"

text \<open>\<open>Number.isInteger\<close>.\<close>

fun is_integer :: "jnum \<Rightarrow> bool" where
  "is_integer (Fin q) \<longleftrightarrow> of_int \<lfloor>q\<rfloor> = q"
| "is_integer _ = False"

text \<open>\<open>a < b\<close> on numbers: false whenever an operand is NaN.\<close>

fun num_less :: "jnum \<Rightarrow> jnum \<Rightarrow> bool" where
  "num_less (Fin a) (Fin b) \<longleftrightarrow> a < b"
| "num_less NegInf (Fin b) = True"
| "num_less NegInf PosInf = True"
| "num_less (Fin a) PosInf = True"
| "num_less _ _ = False"

definition num_le :: "jnum \<Rightarrow> jnum \<Rightarrow> bool" where
  "num_le a b \<longleftrightarrow> num_less a b \<or> (a = b \<and> a \<noteq> NaN)"

definition num_truthy :: "jnum \<Rightarrow> bool" where
  "num_truthy n \<longleftrightarrow> n \<noteq> Fin 0 \<and> n \<noteq> NaN"

lemma num_less_irrefl [simp]: "\<not> num_less a a"
  by (cases a) auto

lemma num_less_trans: "num_less a b \<Longrightarrow> num_less b c \<Longrightarrow> num_less a c"
  by (cases a; cases b; cases c) auto

lemma num_not_le: "a \<noteq> NaN \<Longrightarrow> b \<noteq> NaN \<Longrightarrow> \<not> num_le a b \<longleftrightarrow> num_less b a"
  by (cases a; cases b) (auto simp: num_le_def)

section \<open>Run-time tests\<close>

fun is_string :: "jval \<Rightarrow> bool" where
  "is_string (JStr s) = True"
| "is_string _ = False"

fun is_boolean :: "jval \<Rightarrow> bool" where
  "is_boolean (JBool b) = True"
| "is_boolean _ = False"

fun is_number :: "jval \<Rightarrow> bool" where
  "is_number (JNum n) = True"
| "is_number _ = False"

fun is_array :: "jval \<Rightarrow> bool" where
  "is_array (JArr vs) = True"
| "is_array _ = False"

text \<open>\<open>Boolean(v) && typeof v === 'object'\<close>: objects and arrays, not \<open>null\<close>.\<close>

fun is_object :: "jval \<Rightarrow> bool" where
  "is_object (JObj ps) = True"
| "is_object (JArr vs) = True"
| "is_object _ = False"

fun truthy :: "jval \<Rightarrow> bool" where
  "truthy JUndefined = False"
| "truthy JNull = False"
| "truthy (JBool b) = b"
| "truthy (JNum n) = num_truthy n"
| "truthy (JStr s) = (s \<noteq> [])"
| "truthy (JArr vs) = True"
| "truthy (JObj ps) = True"

text \<open>\<open>v.k\<close>, which is \<open>undefined\<close> where \<open>v\<close> has no such property.  The sources guard it with a
  test or with \<open>?.\<close>, so the failure on \<open>null\<close> and \<open>undefined\<close> does not arise.\<close>

fun jget :: "jval \<Rightarrow> jstr \<Rightarrow> jval" where
  "jget (JObj ps) k = (case map_of ps k of None \<Rightarrow> JUndefined | Some v \<Rightarrow> v)"
| "jget _ k = JUndefined"

text \<open>Reading a value whose type a guard has established.\<close>

fun str_of :: "jval \<Rightarrow> jstr" where
  "str_of (JStr s) = s"
| "str_of _ = []"

fun num_of :: "jval \<Rightarrow> jnum" where
  "num_of (JNum n) = n"
| "num_of _ = NaN"

fun bool_of :: "jval \<Rightarrow> bool" where
  "bool_of (JBool b) = b"
| "bool_of _ = False"

fun props_of :: "jval \<Rightarrow> (jstr \<times> jval) list" where
  "props_of (JObj ps) = ps"
| "props_of _ = []"

lemma is_string_iff: "is_string v \<longleftrightarrow> v = JStr (str_of v)"
  by (cases v) auto

lemma is_number_iff: "is_number v \<longleftrightarrow> v = JNum (num_of v)"
  by (cases v) auto

lemma is_boolean_iff: "is_boolean v \<longleftrightarrow> v = JBool (bool_of v)"
  by (cases v) auto

lemmas typed_iffs = is_string_iff is_number_iff is_boolean_iff

text \<open>\<open>a ?? b\<close>.\<close>

definition nullish :: "jval \<Rightarrow> bool" where
  "nullish v \<longleftrightarrow> v = JUndefined \<or> v = JNull"

definition coalesce :: "jval \<Rightarrow> jval \<Rightarrow> jval" where
  "coalesce a b = (if nullish a then b else a)"

text \<open>A field that may be missing.\<close>

definition opt_is :: "(jval \<Rightarrow> bool) \<Rightarrow> jval \<Rightarrow> bool" where
  "opt_is P v \<longleftrightarrow> v = JUndefined \<or> P v"

text \<open>\<open>a || b\<close>.\<close>

definition js_or :: "jval \<Rightarrow> jval \<Rightarrow> jval" where
  "js_or a b = (if truthy a then a else b)"

text \<open>\<open>a || b\<close> on optional strings: \<open>undefined\<close>, \<open>null\<close> and the empty string fall through.\<close>

definition str_or :: "jstr option \<Rightarrow> jstr \<Rightarrow> jstr" where
  "str_or a b = (case a of Some s \<Rightarrow> if s = [] then b else s | None \<Rightarrow> b)"

definition str_truthy :: "jstr option \<Rightarrow> bool" where
  "str_truthy a \<longleftrightarrow> a \<noteq> None \<and> a \<noteq> Some []"

lemma str_or_simps [simp]:
  "str_or None b = b"
  "str_or (Some []) b = b"
  "str_or (Some (c # s)) b = c # s"
  "s \<noteq> [] \<Longrightarrow> str_or (Some s) b = s"
  by (auto simp: str_or_def)

section \<open>Code that may throw\<close>

text \<open>What the language throws when a method is called on a value without it, or a property of
  \<open>null\<close> or \<open>undefined\<close> is read.\<close>

datatype thrown = TypeError

text \<open>\<open>v.trim()\<close>, and \<open>xs.map(f)\<close> for an \<open>f\<close> that may throw.\<close>

fun trim_value :: "jval \<Rightarrow> thrown + jstr" where
  "trim_value (JStr s) = Inr (trim s)"
| "trim_value _ = Inl TypeError"

primrec map_throw :: "('a \<Rightarrow> 'e + 'b) \<Rightarrow> 'a list \<Rightarrow> 'e + 'b list" where
  "map_throw f [] = Inr []"
| "map_throw f (x # xs) =
     (case f x of Inl e \<Rightarrow> Inl e
      | Inr y \<Rightarrow> (case map_throw f xs of Inl e \<Rightarrow> Inl e | Inr ys \<Rightarrow> Inr (y # ys)))"

lemma trim_value_Inr_iff: "trim_value v = Inr s \<longleftrightarrow> (\<exists>u. v = JStr u \<and> s = trim u)"
  by (cases v) auto

lemma map_throw_Inr_iff: "map_throw f xs = Inr ys \<longleftrightarrow> list_all2 (\<lambda>x y. f x = Inr y) xs ys"
proof (induction xs arbitrary: ys)
  case (Cons x xs)
  show ?case by (cases ys) (auto simp flip: Cons.IH split: sum.splits)
qed auto

lemma map_throw_total: "(\<And>x. x \<in> set xs \<Longrightarrow> f x = Inr (g x)) \<Longrightarrow> map_throw f xs = Inr (map g xs)"
  by (induction xs) auto

lemma map_throw_in: "map_throw f xs = Inr ys \<Longrightarrow> y \<in> set ys \<Longrightarrow> \<exists>x \<in> set xs. f x = Inr y"
  by (induction xs arbitrary: ys) (auto split: sum.splits)

lemma map_throw_length: "map_throw f xs = Inr ys \<Longrightarrow> length ys = length xs"
  by (simp add: map_throw_Inr_iff list_all2_lengthD)

text \<open>A function that brings a value into its normal form, or throws: a list of such values is
  brought into its normal form element by element.\<close>

locale normaliser =
  fixes norm :: "'a \<Rightarrow> 'e + 'a"
  assumes norm_idem: "norm x = Inr y \<Longrightarrow> norm y = Inr y"
begin

lemma map_norm_elem: "map_throw norm xs = Inr ys \<Longrightarrow> y \<in> set ys \<Longrightarrow> norm y = Inr y"
  by (auto dest!: map_throw_in intro: norm_idem)

lemma map_norm_fixed: "(\<And>y. y \<in> set ys \<Longrightarrow> norm y = Inr y) \<Longrightarrow> map_throw norm ys = Inr ys"
  using map_throw_total[of ys norm "\<lambda>y. y"] by simp

lemma map_norm_idem: "map_throw norm xs = Inr ys \<Longrightarrow> map_throw norm ys = Inr ys"
  by (intro map_norm_fixed) (rule map_norm_elem)

end

section \<open>Objects as maps\<close>

text \<open>The properties an object literal inherits; reading one of them by its name gives a function
  or an object, which is neither \<open>undefined\<close> nor \<open>null\<close>.\<close>

definition object_prototype_names :: "jstr list" where
  "object_prototype_names = map js [''constructor'', ''toString'', ''toLocaleString'', ''valueOf'',
     ''hasOwnProperty'', ''isPrototypeOf'', ''propertyIsEnumerable'', ''__defineGetter__'',
     ''__defineSetter__'', ''__lookupGetter__'', ''__lookupSetter__'', ''__proto__'']"

text \<open>Writing a property of an object: in place if it is there, at the end if not.\<close>

fun obj_set :: "'k \<Rightarrow> 'v \<Rightarrow> ('k \<times> 'v) list \<Rightarrow> ('k \<times> 'v) list" where
  "obj_set k v [] = [(k, v)]"
| "obj_set k v ((k', v') # ps) = (if k' = k then (k, v) # ps else (k', v') # obj_set k v ps)"

lemma map_of_obj_set [simp]: "map_of (obj_set k v ps) = (map_of ps)(k \<mapsto> v)"
  by (induction ps) auto

lemma find_append_case:
  "find P (xs @ ys) = (case find P xs of None \<Rightarrow> find P ys | Some x \<Rightarrow> Some x)"
  by (induction xs) auto

lemma map_of_fold_set_fun:
  "map_of (fold (\<lambda>a acc. obj_set (k a) (f (k a)) acc) xs acc) x
     = (if x \<in> k ` set xs then Some (f x) else map_of acc x)"
  by (induction xs arbitrary: acc) auto

lemma map_of_fold_set_last:
  "map_of (fold (\<lambda>a acc. obj_set (k a) (f a) acc) xs acc) x
     = (case find (\<lambda>a. k a = x) (rev xs) of Some a \<Rightarrow> Some (f a) | None \<Rightarrow> map_of acc x)"
proof (induction xs arbitrary: acc)
  case (Cons a xs)
  then show ?case by (auto simp: find_append_case split: option.splits)
qed simp

end
