(* ===== verification/Auth_Sync.thy ===== *)
theory Auth_Sync
  imports Js_Value
begin

text \<open>
  \<open>web/src/lib/auth-session-sync.ts\<close>: the message a tab posts to the other tabs of the browser
  when its login session appears or goes, and what a receiving tab accepts.  The transport (a
  \<open>BroadcastChannel\<close>, or a \<open>storage\<close> event carrying the JSON text) hands the posted value over
  as an unknown value; the nonce and the time are supplied by the browser, so they are arguments.
\<close>

datatype AuthSyncKind = KAuthenticated | KSignedOut

record AuthSessionSyncEvent =
  ev_kind :: AuthSyncKind
  ev_sid :: jstr
  ev_source :: jstr
  ev_nonce :: jstr
  ev_timestamp :: jnum

fun kind_text :: "AuthSyncKind \<Rightarrow> jstr" where
  "kind_text KAuthenticated = js ''authenticated''"
| "kind_text KSignedOut = js ''signed_out''"

definition isAuthSessionSyncEvent :: "jval \<Rightarrow> bool" where
  "isAuthSessionSyncEvent value \<longleftrightarrow>
     is_object value
   \<and> (jget value (js ''kind'') = JStr (js ''authenticated'')
        \<or> jget value (js ''kind'') = JStr (js ''signed_out''))
   \<and> is_string (jget value (js ''sid''))
   \<and> str_of (jget value (js ''sid'')) \<noteq> []
   \<and> is_string (jget value (js ''source''))
   \<and> is_string (jget value (js ''nonce''))
   \<and> is_number (jget value (js ''timestamp''))"

text \<open>The object literal the publisher posts, and the typed reading of an accepted value.\<close>

definition event_value :: "AuthSessionSyncEvent \<Rightarrow> jval" where
  "event_value e = JObj
     [(js ''kind'', JStr (kind_text (ev_kind e))), (js ''sid'', JStr (ev_sid e)),
      (js ''source'', JStr (ev_source e)), (js ''nonce'', JStr (ev_nonce e)),
      (js ''timestamp'', JNum (ev_timestamp e))]"

definition event_of :: "jval \<Rightarrow> AuthSessionSyncEvent" where
  "event_of v = \<lparr>
     ev_kind = (if jget v (js ''kind'') = JStr (js ''authenticated'') then KAuthenticated else KSignedOut),
     ev_sid = str_of (jget v (js ''sid'')),
     ev_source = str_of (jget v (js ''source'')),
     ev_nonce = str_of (jget v (js ''nonce'')),
     ev_timestamp = num_of (jget v (js ''timestamp''))\<rparr>"

text \<open>\<open>publishAuthSessionEvent\<close>: nothing without a window or with an empty session id, otherwise
  one event posted on the tab's transport.\<close>

definition publishAuthSessionEvent ::
  "bool \<Rightarrow> jstr \<Rightarrow> jstr \<Rightarrow> jnum \<Rightarrow> AuthSyncKind \<Rightarrow> jstr \<Rightarrow> AuthSessionSyncEvent option" where
  "publishAuthSessionEvent window authSyncSource nonce now kind sid =
     (if \<not> window \<or> sid = [] then None
      else Some \<lparr>ev_kind = kind, ev_sid = sid, ev_source = authSyncSource, ev_nonce = nonce,
                 ev_timestamp = now\<rparr>)"

text \<open>\<open>Math.abs(Date.now() - t) < 60000\<close>.\<close>

fun within_minute :: "rat \<Rightarrow> jnum \<Rightarrow> bool" where
  "within_minute now (Fin t) \<longleftrightarrow> \<bar>now - t\<bar> < 60000"
| "within_minute now _ = False"

text \<open>\<open>deliver\<close> of \<open>subscribeAuthSessionEvents\<close>: the event the listener is called with, if any.\<close>

definition deliver :: "jstr \<Rightarrow> rat \<Rightarrow> jval \<Rightarrow> AuthSessionSyncEvent option" where
  "deliver authSyncSource now value =
     (if isAuthSessionSyncEvent value
        \<and> ev_source (event_of value) \<noteq> authSyncSource
        \<and> within_minute now (ev_timestamp (event_of value))
      then Some (event_of value) else None)"

lemma event_of_value [simp]: "event_of (event_value e) = e"
  by (cases "ev_kind e") (simp_all add: event_of_def event_value_def)

lemma event_value_valid: "ev_sid e \<noteq> [] \<Longrightarrow> isAuthSessionSyncEvent (event_value e)"
  by (cases "ev_kind e") (simp_all add: isAuthSessionSyncEvent_def event_value_def)

lemma deliver_iff:
  "deliver src now v = Some e \<longleftrightarrow>
     isAuthSessionSyncEvent v \<and> e = event_of v \<and> ev_source e \<noteq> src \<and> within_minute now (ev_timestamp e)"
  by (auto simp: deliver_def)

text \<open>A published event reaches every other tab and never its own: what one tab posts is, at
  any receiving tab, delivered unchanged exactly when the receiver has another source id and
  reads it within a minute.\<close>

lemma published_event_delivered:
  assumes "publishAuthSessionEvent window src nonce sent kind sid = Some e"
  shows "deliver receiver now (event_value e)
    = (if receiver \<noteq> src \<and> within_minute now sent then Some e else None)"
proof -
  from assms have e: "ev_sid e \<noteq> []" "ev_source e = src" "ev_timestamp e = sent"
    by (auto simp: publishAuthSessionEvent_def split: if_splits)
  then show ?thesis using event_value_valid[OF e(1)] by (auto simp: deliver_def)
qed

end
