(* ===== verification/Auth_Session.thy ===== *)
theory Auth_Session
  imports Auth_Sync
begin

text \<open>
  The login session of a browser tab: the store (\<open>web/src/stores/auth-store.ts\<close>), the operations
  that install, rotate and clear a session, and the refresh protocol with the server
  (\<open>web/src/lib/auth-session.ts\<close>).

  The module-level variables of the source (\<open>useAuthStore\<close>, \<open>authEpoch\<close>) and the events it
  publishes are the record \<open>AuthModule\<close>, passed explicitly.  The refresh runner is written, as in
  the source, over a record of callbacks (\<open>AuthRefreshRuntime\<close>); each callback passes the state
  of the world, so a callback the source awaits may also let other code of the tab run.
\<close>

section \<open>Data\<close>

text \<open>\<open>AuthUser\<close>: the three properties every reader relies on, and the optional ones by name.\<close>

record AuthUser =
  user_id :: jnum
  username :: jstr
  role :: jnum
  user_props :: "(jstr \<times> jval) list"

record LoginSession =
  sid :: jstr
  current :: bool
  login_method :: jstr
  ip :: jstr
  user_agent :: jstr
  created_at :: jnum
  last_active_at :: jnum
  expires_at :: jnum

record AuthBundle =
  access_token :: jstr
  token_type :: jstr
  access_expires_at :: jnum
  bundle_user :: AuthUser
  bundle_session :: LoginSession

datatype AuthBootstrapState = Idle | Checking | Complete

record AuthState =
  user :: "AuthUser option"
  accessToken :: "jstr option"
  accessExpiresAt :: "jnum option"
  session :: "LoginSession option"
  pending2FAFlowToken :: "jstr option"
  bootstrapState :: AuthBootstrapState

definition initialAuth :: AuthState where
  "initialAuth = \<lparr>user = None, accessToken = None, accessExpiresAt = None, session = None,
     pending2FAFlowToken = None, bootstrapState = Idle\<rparr>"

definition setBundle :: "AuthBundle \<Rightarrow> AuthState \<Rightarrow> AuthState" where
  "setBundle bundle auth = auth\<lparr>
     user := Some (bundle_user bundle),
     accessToken := Some (access_token bundle),
     accessExpiresAt := Some (access_expires_at bundle),
     session := Some (bundle_session bundle),
     pending2FAFlowToken := None,
     bootstrapState := Complete\<rparr>"

definition setUser :: "AuthUser option \<Rightarrow> AuthState \<Rightarrow> AuthState" where
  "setUser u auth = auth\<lparr>user := u\<rparr>"

definition setPending2FAFlowToken :: "jstr option \<Rightarrow> AuthState \<Rightarrow> AuthState" where
  "setPending2FAFlowToken t auth = auth\<lparr>pending2FAFlowToken := t\<rparr>"

definition setBootstrapState :: "AuthBootstrapState \<Rightarrow> AuthState \<Rightarrow> AuthState" where
  "setBootstrapState b auth = auth\<lparr>bootstrapState := b\<rparr>"

definition reset :: "AuthBootstrapState option \<Rightarrow> AuthState \<Rightarrow> AuthState" where
  "reset b auth = auth\<lparr>
     user := None, accessToken := None, accessExpiresAt := None, session := None,
     pending2FAFlowToken := None,
     bootstrapState := (case b of None \<Rightarrow> Complete | Some s \<Rightarrow> s)\<rparr>"

lemmas store_defs = setBundle_def setUser_def setPending2FAFlowToken_def setBootstrapState_def reset_def

section \<open>Validation of server values\<close>

definition isAuthUser :: "jval \<Rightarrow> bool" where
  "isAuthUser value \<longleftrightarrow> is_object value
     \<and> is_number (jget value (js ''id'')) \<and> is_integer (num_of (jget value (js ''id'')))
     \<and> num_less (Fin 0) (num_of (jget value (js ''id'')))
     \<and> is_string (jget value (js ''username''))
     \<and> is_number (jget value (js ''role''))"

definition isLoginSession :: "jval \<Rightarrow> bool" where
  "isLoginSession value \<longleftrightarrow> is_object value
     \<and> is_string (jget value (js ''sid'')) \<and> str_of (jget value (js ''sid'')) \<noteq> []
     \<and> is_boolean (jget value (js ''current''))
     \<and> is_string (jget value (js ''login_method''))
     \<and> is_string (jget value (js ''ip''))
     \<and> is_string (jget value (js ''user_agent''))
     \<and> is_number (jget value (js ''created_at''))
     \<and> is_number (jget value (js ''last_active_at''))
     \<and> is_number (jget value (js ''expires_at''))"

definition hasValidTokenFields :: "jval \<Rightarrow> bool" where
  "hasValidTokenFields value \<longleftrightarrow>
       is_string (jget value (js ''access_token'')) \<and> str_of (jget value (js ''access_token'')) \<noteq> []
     \<and> is_string (jget value (js ''token_type'')) \<and> str_of (jget value (js ''token_type'')) \<noteq> []
     \<and> is_number (jget value (js ''access_expires_at''))
     \<and> is_finite (num_of (jget value (js ''access_expires_at'')))
     \<and> num_less (Fin 0) (num_of (jget value (js ''access_expires_at'')))"

definition isAuthBundle :: "jval \<Rightarrow> bool" where
  "isAuthBundle value \<longleftrightarrow> is_object value \<and> hasValidTokenFields value
     \<and> isAuthUser (jget value (js ''user'')) \<and> isLoginSession (jget value (js ''session''))"

definition isAuthTokenRotation :: "jval \<Rightarrow> bool" where
  "isAuthTokenRotation value \<longleftrightarrow> is_object value \<and> hasValidTokenFields value
     \<and> jget value (js ''token_type'') = JStr (js ''Bearer'')
     \<and> isLoginSession (jget value (js ''session''))
     \<and> bool_of (jget (jget value (js ''session'')) (js ''current''))"

text \<open>The typed reading of a validated value.\<close>

definition user_of :: "jval \<Rightarrow> AuthUser" where
  "user_of v = \<lparr>user_id = num_of (jget v (js ''id'')), username = str_of (jget v (js ''username'')),
     role = num_of (jget v (js ''role'')),
     user_props = filter (\<lambda>p. fst p \<notin> {js ''id'', js ''username'', js ''role''}) (props_of v)\<rparr>"

definition session_of :: "jval \<Rightarrow> LoginSession" where
  "session_of v = \<lparr>sid = str_of (jget v (js ''sid'')), current = bool_of (jget v (js ''current'')),
     login_method = str_of (jget v (js ''login_method'')), ip = str_of (jget v (js ''ip'')),
     user_agent = str_of (jget v (js ''user_agent'')), created_at = num_of (jget v (js ''created_at'')),
     last_active_at = num_of (jget v (js ''last_active_at'')),
     expires_at = num_of (jget v (js ''expires_at''))\<rparr>"

definition bundle_of :: "jval \<Rightarrow> AuthBundle" where
  "bundle_of v = \<lparr>access_token = str_of (jget v (js ''access_token'')),
     token_type = str_of (jget v (js ''token_type'')),
     access_expires_at = num_of (jget v (js ''access_expires_at'')),
     bundle_user = user_of (jget v (js ''user'')), bundle_session = session_of (jget v (js ''session''))\<rparr>"

section \<open>The module: store, epoch, published events\<close>

text \<open>\<open>stamp n\<close> is the nonce and the time the browser gives the \<open>n\<close>-th published event.\<close>

record AuthModule =
  auth :: AuthState
  authEpoch :: nat
  authSyncSource :: jstr
  stamp :: "nat \<Rightarrow> jstr \<times> jnum"
  published :: "AuthSessionSyncEvent list"

definition publish :: "AuthSyncKind \<Rightarrow> jstr \<Rightarrow> AuthModule \<Rightarrow> AuthModule" where
  "publish kind s m =
     (let (nonce, now) = stamp m (length (published m)) in
      case publishAuthSessionEvent True (authSyncSource m) nonce now kind s of
        None \<Rightarrow> m | Some e \<Rightarrow> m\<lparr>published := published m @ [e]\<rparr>)"

definition session_sid :: "AuthState \<Rightarrow> jstr option" where
  "session_sid a = map_option sid (session a)"

definition applyAuthBundle :: "AuthBundle \<Rightarrow> bool \<Rightarrow> AuthModule \<Rightarrow> AuthModule" where
  "applyAuthBundle bundle synchronizeTabs m =
     (let previousSID = session_sid (auth m);
          m1 = m\<lparr>authEpoch := authEpoch m + 1\<rparr>;
          m2 = m1\<lparr>auth := setBundle bundle (auth m1)\<rparr>
      in if synchronizeTabs \<and> previousSID \<noteq> Some (sid (bundle_session bundle))
         then publish KAuthenticated (sid (bundle_session bundle)) m2 else m2)"

datatype AuthRotationError =
  InvalidRotationResponse | RotationHasNoActiveSession | RotationSessionMismatch

definition applyAuthRotation :: "jval \<Rightarrow> AuthModule \<Rightarrow> AuthRotationError + AuthModule" where
  "applyAuthRotation value m =
     (if \<not> isAuthTokenRotation value then Inl InvalidRotationResponse
      else case (user (auth m), session (auth m)) of
        (Some u, Some s) \<Rightarrow>
          (let new_session = session_of (jget value (js ''session'')) in
           if sid new_session \<noteq> sid s then Inl RotationSessionMismatch
           else Inr (applyAuthBundle
             \<lparr>access_token = str_of (jget value (js ''access_token'')),
              token_type = str_of (jget value (js ''token_type'')),
              access_expires_at = num_of (jget value (js ''access_expires_at'')),
              bundle_user = u, bundle_session = new_session\<rparr> False m))
      | _ \<Rightarrow> Inl RotationHasNoActiveSession)"

definition clearAuthentication :: "bool \<Rightarrow> AuthBootstrapState option \<Rightarrow> AuthModule \<Rightarrow> AuthModule" where
  "clearAuthentication synchronizeTabs b m =
     (let s = session_sid (auth m);
          m1 = m\<lparr>authEpoch := authEpoch m + 1\<rparr>;
          m2 = m1\<lparr>auth := reset (Some (case b of None \<Rightarrow> Complete | Some x \<Rightarrow> x)) (auth m1)\<rparr>
      in if synchronizeTabs \<and> str_truthy s then publish KSignedOut (the s) m2 else m2)"

text \<open>The listener the root route installs (\<open>web/src/routes/__root.tsx\<close>): on a foreign login it
  drops a session of its own and reloads, on a foreign sign-out of the same session it clears.
  The second component says whether the page is reloaded or sent to the sign-in page.\<close>

datatype SyncReaction = NoReaction | ReloadPage | GoToSignIn

definition onAuthSessionEvent :: "AuthSessionSyncEvent \<Rightarrow> AuthModule \<Rightarrow> AuthModule \<times> SyncReaction" where
  "onAuthSessionEvent event m =
     (let currentSID = session_sid (auth m) in
      if ev_kind event = KAuthenticated then
        if Some (ev_sid event) = currentSID then (m, NoReaction)
        else if str_truthy currentSID then (clearAuthentication False None m, ReloadPage)
        else (m, ReloadPage)
      else if str_truthy currentSID \<and> Some (ev_sid event) = currentSID
        then (clearAuthentication False None m, GoToSignIn)
      else (m, NoReaction))"

section \<open>The refresh runner\<close>

datatype RefreshError = SupersededError | ErrorValue jval

datatype RefreshOutcome =
    Authenticated AuthBundle
  | Anonymous
  | TransientError RefreshError
  | OutOfSync "jstr option"

record AuthRefreshHTTPResponse =
  status :: nat
  resp_data :: jval
  resp_error :: jval

record 's AuthRefreshRuntime =
  request :: "jstr option \<Rightarrow> 's \<Rightarrow> AuthRefreshHTTPResponse \<times> 's"
  getExpectedSID :: "'s \<Rightarrow> jstr option"
  parseBundle :: "jval \<Rightarrow> AuthBundle option"
  acceptBundle :: "AuthBundle \<Rightarrow> 's \<Rightarrow> 's"
  clear :: "bool \<Rightarrow> AuthBootstrapState option \<Rightarrow> 's \<Rightarrow> 's"
  markTransient :: "'s \<Rightarrow> 's"
  wait :: "nat \<Rightarrow> 's \<Rightarrow> 's"
  isCurrent :: "('s \<Rightarrow> bool) option"

definition refreshRaceDelays :: "nat list" where
  "refreshRaceDelays = [80, 200, 500]"

definition superseded :: "'s AuthRefreshRuntime \<Rightarrow> 's \<Rightarrow> bool" where
  "superseded rt s \<longleftrightarrow> (case isCurrent rt of None \<Rightarrow> False | Some f \<Rightarrow> \<not> f s)"

definition response_data :: "AuthRefreshHTTPResponse \<Rightarrow> jval" where
  "response_data r = (if is_object (resp_data r) then resp_data r else JUndefined)"

definition response_code :: "AuthRefreshHTTPResponse \<Rightarrow> jstr option" where
  "response_code r =
     (let c = jget (response_data r) (js ''code'') in if is_string c then Some (str_of c) else None)"

function run :: "'s AuthRefreshRuntime \<Rightarrow> nat \<Rightarrow> bool \<Rightarrow> 's \<Rightarrow> RefreshOutcome \<times> 's" where
  "run rt raceAttempt allowMismatchRetry s =
     (if superseded rt s then (TransientError SupersededError, s)
      else let response = fst (request rt (getExpectedSID rt s) s);
               s1 = snd (request rt (getExpectedSID rt s) s) in
      if superseded rt s1 then (TransientError SupersededError, s1)
      else let code = response_code response;
               bundle = parseBundle rt (jget (response_data response) (js ''data'')) in
      if jget (response_data response) (js ''success'') = JBool True \<and> bundle \<noteq> None
        then (Authenticated (the bundle), acceptBundle rt (the bundle) s1)
      else if status response = 409 \<and> code = Some (js ''AUTH_REFRESH_RACE'') then
        if raceAttempt < length refreshRaceDelays
        then run rt (Suc raceAttempt) allowMismatchRetry (wait rt (refreshRaceDelays ! raceAttempt) s1)
        else (OutOfSync code, clear rt False None s1)
      else if status response = 409 \<and> code = Some (js ''AUTH_SESSION_MISMATCH'') then
        if allowMismatchRetry then run rt 0 False (clear rt False (Some Idle) s1)
        else (OutOfSync code, clear rt False None s1)
      else if status response = 401 then (Anonymous, clear rt True None s1)
      else if status response = 0 \<or> 500 \<le> status response \<or> status response = 429 then
        (TransientError (ErrorValue (coalesce (resp_error response) (resp_data response))),
         markTransient rt s1)
      else (OutOfSync (Some (case code of None \<Rightarrow> js ''AUTH_INVALID_REFRESH_RESPONSE'' | Some c \<Rightarrow> c)),
            clear rt False None s1))"
  by pat_completeness auto
termination
  by (relation "measure (\<lambda>(rt, n, allow, s). (if allow then 4 else 0) + (3 - n))")
    (auto simp: refreshRaceDelays_def)

declare run.simps [simp del]

definition createRefreshRunner :: "'s AuthRefreshRuntime \<Rightarrow> 's \<Rightarrow> RefreshOutcome \<times> 's" where
  "createRefreshRunner rt s = run rt 0 True s"

text \<open>Induction along the retries: a race retry raises the attempt, a mismatch retry is spent once.\<close>

lemma run_induct:
  assumes step: "\<And>n allow. (\<And>s. n < 3 \<Longrightarrow> P (Suc n) allow s) \<Longrightarrow> (\<And>s. allow \<Longrightarrow> P 0 False s)
    \<Longrightarrow> (\<And>s. P n allow s)"
  shows "P n allow s"
proof (induction "(if allow then 4 else 0) + (3 - n)" arbitrary: n allow s rule: less_induct)
  case less
  show ?case
  proof (rule step)
    show "P (Suc n) allow t" if "n < 3" for t using that by (intro less) auto
    show "P 0 False t" if allow for t using that by (intro less) auto
  qed
qed

lemma length_refreshRaceDelays [simp]: "length refreshRaceDelays = 3"
  by (simp add: refreshRaceDelays_def)

text \<open>What one round of the runner can do: the eight ways a call ends or goes on.\<close>

datatype 's RefreshRound = Finish RefreshOutcome 's | Retry nat bool 's

definition refresh_answer ::
  "'s AuthRefreshRuntime \<Rightarrow> nat \<Rightarrow> bool \<Rightarrow> AuthRefreshHTTPResponse \<Rightarrow> 's \<Rightarrow> 's RefreshRound" where
  "refresh_answer rt n allow r s1 =
     (case (if jget (response_data r) (js ''success'') = JBool True
            then parseBundle rt (jget (response_data r) (js ''data'')) else None) of
        Some b \<Rightarrow> Finish (Authenticated b) (acceptBundle rt b s1)
      | None \<Rightarrow>
          if status r = 409 \<and> response_code r = Some (js ''AUTH_REFRESH_RACE'') then
            if n < 3 then Retry (Suc n) allow (wait rt (refreshRaceDelays ! n) s1)
            else Finish (OutOfSync (response_code r)) (clear rt False None s1)
          else if status r = 409 \<and> response_code r = Some (js ''AUTH_SESSION_MISMATCH'') then
            if allow then Retry 0 False (clear rt False (Some Idle) s1)
            else Finish (OutOfSync (response_code r)) (clear rt False None s1)
          else if status r = 401 then Finish Anonymous (clear rt True None s1)
          else if status r = 0 \<or> 500 \<le> status r \<or> status r = 429 then
            Finish (TransientError (ErrorValue (coalesce (resp_error r) (resp_data r)))) (markTransient rt s1)
          else Finish (OutOfSync (Some (case response_code r of
              None \<Rightarrow> js ''AUTH_INVALID_REFRESH_RESPONSE'' | Some c \<Rightarrow> c))) (clear rt False None s1))"

definition refresh_round ::
  "'s AuthRefreshRuntime \<Rightarrow> nat \<Rightarrow> bool \<Rightarrow> 's \<Rightarrow> 's RefreshRound" where
  "refresh_round rt n allow s =
     (if superseded rt s then Finish (TransientError SupersededError) s
      else let (r, s1) = request rt (getExpectedSID rt s) s in
        if superseded rt s1 then Finish (TransientError SupersededError) s1
        else refresh_answer rt n allow r s1)"

lemma run_round:
  "run rt n allow s =
     (case refresh_round rt n allow s of
        Finish out s' \<Rightarrow> (out, s') | Retry n' allow' s' \<Rightarrow> run rt n' allow' s')"
  by (subst run.simps)
    (simp add: refresh_round_def refresh_answer_def Let_def split_beta split: option.split)

lemma refresh_round_Retry:
  "refresh_round rt n allow s = Retry n' allow' s' \<Longrightarrow>
     (n < 3 \<and> n' = Suc n \<and> allow' = allow) \<or> (allow \<and> n' = 0 \<and> \<not> allow')"
  by (auto simp: refresh_round_def refresh_answer_def Let_def split: if_splits option.splits prod.splits)

text \<open>Induction over the rounds of a run.\<close>

lemma run_round_induct:
  assumes fin: "\<And>n allow s out s'. refresh_round rt n allow s = Finish out s' \<Longrightarrow> Q n allow s (out, s')"
    and retry: "\<And>n allow s n' allow' s'. refresh_round rt n allow s = Retry n' allow' s' \<Longrightarrow>
      Q n' allow' s' (run rt n' allow' s') \<Longrightarrow> Q n allow s (run rt n' allow' s')"
  shows "Q n allow s (run rt n allow s)"
proof (induction n allow s rule: run_induct)
  case (1 n allow s)
  show ?case
  proof (cases "refresh_round rt n allow s")
    case (Finish out s')
    then show ?thesis using fin by (subst run_round) simp
  next
    case (Retry n' allow' s')
    then have "Q n' allow' s' (run rt n' allow' s')" using refresh_round_Retry 1 by fastforce
    then show ?thesis using retry Retry by (subst run_round) simp
  qed
qed

end
