(* ===== verification/Auth_Refresh.thy ===== *)
theory Auth_Refresh
  imports Auth_Session
begin

text \<open>
  What the refresh protocol guarantees.  First the contract a runtime gives the runner (a locale)
  and what every run then ensures; next the runtime of \<open>runRefresh\<close>, over a world in which other
  code of the tab may run whenever the refresh awaits the network, a delay or the browser lock;
  then the operations built on it: bootstrap and the request headers.
\<close>

section \<open>What an outcome says about the store\<close>

definition signed_in_with :: "AuthBundle \<Rightarrow> AuthState \<Rightarrow> bool" where
  "signed_in_with b a \<longleftrightarrow> user a = Some (bundle_user b) \<and> session a = Some (bundle_session b)
     \<and> accessToken a = Some (access_token b) \<and> accessExpiresAt a = Some (access_expires_at b)
     \<and> bootstrapState a = Complete"

definition signed_out :: "AuthState \<Rightarrow> bool" where
  "signed_out a \<longleftrightarrow> user a = None \<and> session a = None \<and> accessToken a = None \<and> accessExpiresAt a = None"

fun outcome_matches :: "RefreshOutcome \<Rightarrow> AuthState \<Rightarrow> bool" where
  "outcome_matches (Authenticated b) a \<longleftrightarrow> signed_in_with b a \<and> access_token b \<noteq> []
     \<and> sid (bundle_session b) \<noteq> [] \<and> num_less (Fin 0) (access_expires_at b)"
| "outcome_matches Anonymous a \<longleftrightarrow> signed_out a \<and> bootstrapState a = Complete"
| "outcome_matches (OutOfSync c) a \<longleftrightarrow> signed_out a \<and> bootstrapState a = Complete"
| "outcome_matches (TransientError (ErrorValue e)) a \<longleftrightarrow> bootstrapState a = Idle"
| "outcome_matches (TransientError SupersededError) a \<longleftrightarrow> True"

lemma isAuthBundle_fields:
  "isAuthBundle v \<Longrightarrow> access_token (bundle_of v) \<noteq> [] \<and> sid (bundle_session (bundle_of v)) \<noteq> []
     \<and> num_less (Fin 0) (access_expires_at (bundle_of v))"
  by (auto simp: isAuthBundle_def hasValidTokenFields_def isLoginSession_def bundle_of_def session_of_def)

section \<open>The contract of a runtime\<close>

locale refresh_runtime =
  fixes rt :: "'s AuthRefreshRuntime"
    and view :: "'s \<Rightarrow> AuthState"
  assumes accept_view: "view (acceptBundle rt b s) = setBundle b (view s)"
    and clear_view: "view (clear rt sync st s)
          = reset (Some (case st of None \<Rightarrow> Complete | Some x \<Rightarrow> x)) (view s)"
    and mark_view: "view (markTransient rt s) = setBootstrapState Idle (view s)"
    and parse_valid: "parseBundle rt v = Some b \<Longrightarrow> isAuthBundle v \<and> b = bundle_of v"
begin

lemmas view_laws = accept_view clear_view mark_view store_defs signed_in_with_def signed_out_def

lemma round_outcome:
  "refresh_round rt n allow s = Finish out s' \<Longrightarrow> outcome_matches out (view s')"
  by (auto simp: refresh_round_def refresh_answer_def Let_def view_laws
      split: if_splits option.splits prod.splits dest!: parse_valid isAuthBundle_fields)

lemma run_outcome: "outcome_matches (fst (run rt n allow s)) (view (snd (run rt n allow s)))"
  by (rule run_round_induct[where Q = "\<lambda>n allow s r. outcome_matches (fst r) (view (snd r))"])
    (auto intro: round_outcome)

end

text \<open>A property of states that every callback keeps is kept by a run.\<close>

locale runtime_invariant =
  fixes rt :: "'s AuthRefreshRuntime"
    and P :: "'s \<Rightarrow> bool"
  assumes request_inv: "P s \<Longrightarrow> P (snd (request rt e s))"
    and accept_inv: "P s \<Longrightarrow> P (acceptBundle rt b s)"
    and clear_inv: "P s \<Longrightarrow> P (clear rt sync st s)"
    and mark_inv: "P s \<Longrightarrow> P (markTransient rt s)"
    and wait_inv: "P s \<Longrightarrow> P (wait rt d s)"
begin

lemma answer_inv:
  assumes "P s1"
  shows "case refresh_answer rt n allow r s1 of Finish out s' \<Rightarrow> P s' | Retry n' allow' s' \<Rightarrow> P s'"
  using assms by (auto simp: refresh_answer_def accept_inv clear_inv mark_inv wait_inv split: option.split)

lemma round_inv:
  assumes "P s"
  shows "case refresh_round rt n allow s of Finish out s' \<Rightarrow> P s' | Retry n' allow' s' \<Rightarrow> P s'"
  using assms request_inv[OF assms, of "getExpectedSID rt s"] answer_inv
  by (auto simp: refresh_round_def split: prod.split)

lemma run_inv: "P s \<Longrightarrow> P (snd (run rt n allow s))"
proof -
  have "P s \<longrightarrow> P (snd (run rt n allow s))"
  proof (rule run_round_induct[where Q = "\<lambda>n allow s r. P s \<longrightarrow> P (snd r)"])
    show "P s \<longrightarrow> P (snd (out, s'))" if "refresh_round rt n allow s = Finish out s'" for n allow s out s'
      using that round_inv[of s n allow] by auto
    show "P s \<longrightarrow> P (snd (run rt n' allow' s'))"
      if "refresh_round rt n allow s = Retry n' allow' s'" "P s' \<longrightarrow> P (snd (run rt n' allow' s'))"
      for n allow s n' allow' s'
      using that round_inv[of s n allow] by auto
  qed
  then show "P s \<Longrightarrow> P (snd (run rt n allow s))" ..
qed

end

section \<open>Writes and requests of a run\<close>

text \<open>A refresh is overtaken once the runtime's \<open>isCurrent\<close>, if it has one, is false.  A guarded runtime's
  three writing callbacks do nothing from then on.\<close>

definition overtaken :: "'s AuthRefreshRuntime \<Rightarrow> 's \<Rightarrow> bool" where
  "overtaken rt s \<longleftrightarrow> (\<exists>f. isCurrent rt = Some f \<and> \<not> f s)"

definition guarded :: "'s AuthRefreshRuntime \<Rightarrow> 's AuthRefreshRuntime" where
  "guarded rt = rt\<lparr>
     acceptBundle := (\<lambda>b s. if overtaken rt s then s else acceptBundle rt b s),
     clear := (\<lambda>sync st s. if overtaken rt s then s else clear rt sync st s),
     markTransient := (\<lambda>s. if overtaken rt s then s else markTransient rt s)\<rparr>"

lemma superseded_overtaken: "superseded rt s \<longleftrightarrow> overtaken rt s"
  by (cases "isCurrent rt") (simp_all add: superseded_def overtaken_def)

lemma superseded_guarded [simp]: "superseded (guarded rt) = superseded rt"
  by (simp add: superseded_def guarded_def fun_eq_iff)

lemma guarded_reads [simp]:
  "request (guarded rt) = request rt" "getExpectedSID (guarded rt) = getExpectedSID rt"
  "parseBundle (guarded rt) = parseBundle rt" "wait (guarded rt) = wait rt"
  by (simp_all add: guarded_def)

lemma guarded_writes:
  assumes "\<not> superseded rt s"
  shows "acceptBundle (guarded rt) b s = acceptBundle rt b s"
    and "clear (guarded rt) sync st s = clear rt sync st s"
    and "markTransient (guarded rt) s = markTransient rt s"
  using assms by (simp_all add: guarded_def superseded_overtaken)

lemma refresh_answer_guarded:
  assumes "\<not> superseded rt s1"
  shows "refresh_answer (guarded rt) n allow r s1 = refresh_answer rt n allow r s1"
  unfolding refresh_answer_def guarded_reads guarded_writes[OF assms] by (rule refl)

lemma refresh_round_guarded: "refresh_round (guarded rt) n allow s = refresh_round rt n allow s"
  by (simp add: refresh_round_def split_beta refresh_answer_guarded)

lemma run_guarded: "run (guarded rt) n allow s = run rt n allow s"
  by (rule run_round_induct[where Q = "\<lambda>n allow s r. run (guarded rt) n allow s = r" and rt = rt])
    (subst run_round, simp add: refresh_round_guarded)+

text \<open>A runtime that counts its requests.\<close>

definition counted :: "'s AuthRefreshRuntime \<Rightarrow> ('s \<times> nat) AuthRefreshRuntime" where
  "counted rt = \<lparr>
     request = (\<lambda>e (s, k). let (r, s') = request rt e s in (r, (s', Suc k))),
     getExpectedSID = (\<lambda>(s, k). getExpectedSID rt s),
     parseBundle = parseBundle rt,
     acceptBundle = (\<lambda>b (s, k). (acceptBundle rt b s, k)),
     clear = (\<lambda>sync st (s, k). (clear rt sync st s, k)),
     markTransient = (\<lambda>(s, k). (markTransient rt s, k)),
     wait = (\<lambda>d (s, k). (wait rt d s, k)),
     isCurrent = map_option (\<lambda>f (s, k). f s) (isCurrent rt)\<rparr>"

definition requests_left :: "nat \<Rightarrow> bool \<Rightarrow> nat" where
  "requests_left n allow = max 1 (4 - n) + (if allow then 4 else 0)"

lemma requests_left_pos: "1 \<le> requests_left n allow"
  by (simp add: requests_left_def)

lemma superseded_counted [simp]: "superseded (counted rt) (s, k) = superseded rt s"
  by (cases "isCurrent rt") (simp_all add: superseded_def counted_def)

lemma refresh_round_counted:
  "\<exists>j \<le> 1. refresh_round (counted rt) n allow (s, k) =
     (case refresh_round rt n allow s of
        Finish out s' \<Rightarrow> Finish out (s', k + j) | Retry n' allow' s' \<Rightarrow> Retry n' allow' (s', k + j))"
proof (cases "superseded rt s")
  case True
  then show ?thesis by (intro exI[of _ 0]) (simp add: refresh_round_def)
next
  case False
  obtain r s1 where req: "request rt (getExpectedSID rt s) s = (r, s1)" by fastforce
  have "request (counted rt) (getExpectedSID (counted rt) (s, k)) (s, k) = (r, s1, Suc k)"
    by (simp add: counted_def req)
  moreover have "refresh_answer (counted rt) n allow r (s1, Suc k) =
     (case refresh_answer rt n allow r s1 of
        Finish out s' \<Rightarrow> Finish out (s', Suc k) | Retry n' allow' s' \<Rightarrow> Retry n' allow' (s', Suc k))"
    by (auto simp: refresh_answer_def counted_def split: option.split)
  ultimately show ?thesis using False req
    by (intro exI[of _ 1]) (simp add: refresh_round_def split: RefreshRound.split)
qed

lemma run_counted:
  "fst (run (counted rt) n allow (s, k)) = fst (run rt n allow s)
   \<and> fst (snd (run (counted rt) n allow (s, k))) = snd (run rt n allow s)
   \<and> snd (snd (run (counted rt) n allow (s, k))) \<le> k + requests_left n allow"
proof (induction n allow s arbitrary: k rule: run_induct)
  case (1 n allow s)
  obtain j where j: "j \<le> 1" and rd: "refresh_round (counted rt) n allow (s, k) =
     (case refresh_round rt n allow s of
        Finish out s' \<Rightarrow> Finish out (s', k + j) | Retry n' allow' s' \<Rightarrow> Retry n' allow' (s', k + j))"
    using refresh_round_counted[of rt n allow s k] by (elim exE conjE) (rule that)
  show ?case
  proof (cases "refresh_round rt n allow s")
    case (Finish out s')
    have a: "run rt n allow s = (out, s')" by (subst run_round) (simp add: Finish)
    have b: "run (counted rt) n allow (s, k) = (out, s', k + j)"
      by (subst run_round) (simp add: rd Finish)
    show ?thesis using j requests_left_pos[of n allow] by (simp add: a b)
  next
    case (Retry n' allow' s')
    note nxt = refresh_round_Retry[OF this]
    then have less: "requests_left n' allow' + 1 \<le> requests_left n allow"
      by (auto simp: requests_left_def)
    from nxt have IH: "fst (run (counted rt) n' allow' (s', k + j)) = fst (run rt n' allow' s')
        \<and> fst (snd (run (counted rt) n' allow' (s', k + j))) = snd (run rt n' allow' s')
        \<and> snd (snd (run (counted rt) n' allow' (s', k + j))) \<le> k + j + requests_left n' allow'"
      using 1(1)[of s' "k + j"] 1(2)[of s' "k + j"] by (elim disjE conjE) simp_all
    have "snd (snd (run (counted rt) n' allow' (s', k + j))) \<le> k + requests_left n allow"
      using IH less j by linarith
    moreover have "run rt n allow s = run rt n' allow' s'" by (subst run_round) (simp add: Retry)
    moreover have "run (counted rt) n allow (s, k) = run (counted rt) n' allow' (s', k + j)"
      by (subst run_round) (simp add: rd Retry)
    ultimately show ?thesis using IH by simp
  qed
qed

text \<open>C2. A refresh overtaken by a login, a logout or a newer refresh writes nothing: whatever the
  runtime, running it is the same as running it with every write (accepting a bundle, clearing,
  marking a transient failure) disabled in the states where it is no longer current.\<close>

theorem superseded_refresh_writes_nothing:
  "createRefreshRunner (guarded rt) s = createRefreshRunner rt s"
  by (simp add: createRefreshRunner_def run_guarded)

text \<open>C3. The retries end: whatever the server answers and whatever else runs meanwhile, one refresh
  sends at most eight requests, and counting them does not change its result.\<close>

theorem refresh_request_bound:
  "snd (snd (createRefreshRunner (counted rt) (s, 0))) \<le> 8
   \<and> fst (createRefreshRunner (counted rt) (s, 0)) = fst (createRefreshRunner rt s)
   \<and> fst (snd (createRefreshRunner (counted rt) (s, 0))) = snd (createRefreshRunner rt s)"
  using run_counted[of rt 0 True s 0] by (simp add: createRefreshRunner_def requests_left_def)

end
