(* ===== verification/Auth_World.thy ===== *)
theory Auth_World
  imports Auth_Refresh
begin

text \<open>
  The refresh of \<open>auth-session.ts\<close> in its tab.  The world holds the module state and what the
  environment will do: for each request, the operations other code of the tab performs while the
  response is awaited and then the answer of the HTTP client; for each delay, the operations
  performed meanwhile.  \<open>runRefresh\<close> instantiates the runtime of the runner on this world; the
  bootstrap of the session and the headers of a streamed request are built on it.
\<close>

section \<open>Operations other code may perform\<close>

datatype AuthAction =
    ActApplyBundle AuthBundle bool
  | ActRotation jval
  | ActClear bool "AuthBootstrapState option"
  | ActSyncEvent AuthSessionSyncEvent
  | ActSetUser "AuthUser option"
  | ActSetPending2FA "jstr option"

fun do_action :: "AuthAction \<Rightarrow> AuthModule \<Rightarrow> AuthModule" where
  "do_action (ActApplyBundle b sync) m = applyAuthBundle b sync m"
| "do_action (ActRotation v) m = (case applyAuthRotation v m of Inl e \<Rightarrow> m | Inr m' \<Rightarrow> m')"
| "do_action (ActClear sync st) m = clearAuthentication sync st m"
| "do_action (ActSyncEvent e) m = fst (onAuthSessionEvent e m)"
| "do_action (ActSetUser u) m = m\<lparr>auth := setUser u (auth m)\<rparr>"
| "do_action (ActSetPending2FA t) m = m\<lparr>auth := setPending2FAFlowToken t (auth m)\<rparr>"

section \<open>The HTTP client and the world\<close>

text \<open>How the axios call of \<open>requestRefresh\<close> settles: a response, an axios error with or without a
  response, or some other exception.\<close>

datatype AxiosResult =
    AxiosResolved nat jval
  | AxiosRejected "(nat \<times> jval) option" jval
  | OtherRejected jval

fun requestRefresh :: "AxiosResult \<Rightarrow> AuthRefreshHTTPResponse" where
  "requestRefresh (AxiosResolved st d) = \<lparr>status = st, resp_data = d, resp_error = JUndefined\<rparr>"
| "requestRefresh (OtherRejected e) = \<lparr>status = 0, resp_data = JUndefined, resp_error = e\<rparr>"
| "requestRefresh (AxiosRejected None e) = \<lparr>status = 0, resp_data = JUndefined, resp_error = e\<rparr>"
| "requestRefresh (AxiosRejected (Some (st, d)) e) = \<lparr>status = st, resp_data = d, resp_error = e\<rparr>"

record AuthWorld =
  amod :: AuthModule
  network :: "(AuthAction list \<times> AxiosResult) list"
  pauses :: "AuthAction list list"
  sent :: "jstr option list"

text \<open>One request: the \<open>X-Auth-Session\<close> header is logged, other code runs, the client settles.  A
  network with no answer left is an unreachable server.\<close>

definition world_request :: "jstr option \<Rightarrow> AuthWorld \<Rightarrow> AuthRefreshHTTPResponse \<times> AuthWorld" where
  "world_request expectedSID w =
     (let w1 = w\<lparr>sent := sent w @ [if str_truthy expectedSID then expectedSID else None]\<rparr> in
      case network w of
        [] \<Rightarrow> (requestRefresh (AxiosRejected None (JStr (js ''Network Error''))), w1)
      | (acts, r) # rest \<Rightarrow>
          (requestRefresh r, w1\<lparr>amod := fold do_action acts (amod w1), network := rest\<rparr>))"

definition waitForRefreshRace :: "nat \<Rightarrow> AuthWorld \<Rightarrow> AuthWorld" where
  "waitForRefreshRace delay w =
     (case pauses w of [] \<Rightarrow> w
      | acts # rest \<Rightarrow> w\<lparr>amod := fold do_action acts (amod w), pauses := rest\<rparr>)"

definition on_auth :: "(AuthState \<Rightarrow> AuthState) \<Rightarrow> AuthWorld \<Rightarrow> AuthWorld" where
  "on_auth f w = w\<lparr>amod := (amod w)\<lparr>auth := f (auth (amod w))\<rparr>\<rparr>"

definition refreshRuntime :: "nat \<Rightarrow> AuthWorld AuthRefreshRuntime" where
  "refreshRuntime refreshEpoch = \<lparr>
     request = world_request,
     getExpectedSID = (\<lambda>w. session_sid (auth (amod w))),
     parseBundle = (\<lambda>v. if isAuthBundle v then Some (bundle_of v) else None),
     acceptBundle = (\<lambda>b w. w\<lparr>amod := applyAuthBundle b False (amod w)\<rparr>),
     clear = (\<lambda>synchronizeTabs st w.
       if \<not> synchronizeTabs \<and> st = Some Idle then on_auth (reset (Some Idle)) w
       else w\<lparr>amod := clearAuthentication synchronizeTabs st (amod w)\<rparr>),
     markTransient = on_auth (setBootstrapState Idle),
     wait = waitForRefreshRace,
     isCurrent = Some (\<lambda>w. authEpoch (amod w) = refreshEpoch)\<rparr>"

definition runRefresh :: "nat \<Rightarrow> AuthWorld \<Rightarrow> RefreshOutcome \<times> AuthWorld" where
  "runRefresh refreshEpoch w = createRefreshRunner (refreshRuntime refreshEpoch) w"

text \<open>\<open>navigator.locks\<close>: absent, throwing at the call, returning a rejected promise, or granting the
  lock after other code has run.  The source returns the promise of \<open>locks.request\<close> from its
  \<open>try\<close> block without awaiting it, so a rejection is the caller's, not the handler's.\<close>

datatype BrowserLocks =
    NoLocks | LocksThrow jval | LocksReject jval | LocksGrant "AuthAction list"

definition performRefreshWithBrowserLock ::
  "BrowserLocks \<Rightarrow> nat \<Rightarrow> AuthWorld \<Rightarrow> (jval + RefreshOutcome) \<times> AuthWorld" where
  "performRefreshWithBrowserLock locks refreshEpoch w =
     (case locks of
        NoLocks \<Rightarrow> (let (out, w') = runRefresh refreshEpoch w in (Inr out, w'))
      | LocksGrant acts \<Rightarrow>
          (let (out, w') = runRefresh refreshEpoch (w\<lparr>amod := fold do_action acts (amod w)\<rparr>)
           in (Inr out, w'))
      | LocksReject e \<Rightarrow> (Inl e, w)
      | LocksThrow e \<Rightarrow> (Inr (TransientError (ErrorValue e)), on_auth (setBootstrapState Idle) w))"

text \<open>\<open>refreshAuthentication\<close> called while no refresh is in flight; the epoch is read at the call.\<close>

definition refreshAuthentication :: "BrowserLocks \<Rightarrow> AuthWorld \<Rightarrow> (jval + RefreshOutcome) \<times> AuthWorld" where
  "refreshAuthentication locks w = performRefreshWithBrowserLock locks (authEpoch (amod w)) w"

section \<open>Bootstrap and headers\<close>

definition currentValidAuthBundle :: "int \<Rightarrow> AuthState \<Rightarrow> AuthBundle option" where
  "currentValidAuthBundle now a =
     (case (user a, accessToken a, accessExpiresAt a, session a) of
        (Some u, Some t, Some x, Some s) \<Rightarrow>
          if t = [] \<or> \<not> num_truthy x \<or> num_le x (Fin (of_int (now div 1000))) then None
          else Some \<lparr>access_token = t, token_type = js ''Bearer'', access_expires_at = x,
                     bundle_user = u, bundle_session = s\<rparr>
      | _ \<Rightarrow> None)"

definition bootstrapAuthentication ::
  "int \<Rightarrow> BrowserLocks \<Rightarrow> AuthWorld \<Rightarrow> (jval + RefreshOutcome) \<times> AuthWorld" where
  "bootstrapAuthentication now locks w =
     (case currentValidAuthBundle now (auth (amod w)) of
        Some bundle \<Rightarrow> (Inr (Authenticated bundle), on_auth (setBootstrapState Complete) w)
      | None \<Rightarrow>
          let a = auth (amod w); hasStaleSession = (user a \<noteq> None \<and> session a \<noteq> None) in
          if bootstrapState a = Complete \<and> \<not> hasStaleSession then (Inr Anonymous, w)
          else refreshAuthentication locks (on_auth (setBootstrapState Checking) w))"

definition getCommonHeaders :: "AuthState \<Rightarrow> (jstr \<times> jstr) list" where
  "getCommonHeaders a =
     (js ''Content-Type'', js ''application/json'') #
     (if str_truthy (accessToken a)
      then [(js ''Authorization'', js ''Bearer '' @ the (accessToken a))] else [])"

datatype FreshHeadersError = RequestFailed RefreshError | SessionExpired | RefreshRejected jval

definition token_usable_after :: "int \<Rightarrow> AuthState \<Rightarrow> bool" where
  "token_usable_after t a \<longleftrightarrow> str_truthy (accessToken a)
     \<and> (case accessExpiresAt a of None \<Rightarrow> False
        | Some x \<Rightarrow> num_truthy x \<and> num_less (Fin (of_int t)) x)"

definition getFreshAuthHeaders ::
  "int \<Rightarrow> int \<Rightarrow> BrowserLocks \<Rightarrow> AuthWorld \<Rightarrow> (FreshHeadersError + (jstr \<times> jstr) list) \<times> AuthWorld" where
  "getFreshAuthHeaders now now' locks w =
     (if token_usable_after (now div 1000 + 60) (auth (amod w))
      then (Inr (getCommonHeaders (auth (amod w))), w)
      else case refreshAuthentication locks w of
        (Inl e, w') \<Rightarrow> (Inl (RefreshRejected e), w')
      | (Inr outcome, w') \<Rightarrow>
          (case outcome of
             Authenticated b \<Rightarrow> (Inr (getCommonHeaders (auth (amod w'))), w')
           | _ \<Rightarrow>
               if token_usable_after (now' div 1000) (auth (amod w'))
               then (Inr (getCommonHeaders (auth (amod w'))), w')
               else (case outcome of
                   TransientError e \<Rightarrow> (Inl (RequestFailed e), w')
                 | _ \<Rightarrow> (Inl SessionExpired, w'))))"

section \<open>The module keeps its credentials together\<close>

text \<open>Token, expiry and session are set and cleared together, and every published event names a
  session.\<close>

definition module_inv :: "AuthModule \<Rightarrow> bool" where
  "module_inv m \<longleftrightarrow>
     (accessToken (auth m) = None \<longleftrightarrow> session (auth m) = None)
   \<and> (accessExpiresAt (auth m) = None \<longleftrightarrow> session (auth m) = None)
   \<and> list_all (\<lambda>e. ev_sid e \<noteq> [] \<and> ev_source e = authSyncSource m) (published m)"

lemma publish_fields [simp]:
  "auth (publish k s m) = auth m" "authEpoch (publish k s m) = authEpoch m"
  "authSyncSource (publish k s m) = authSyncSource m" "stamp (publish k s m) = stamp m"
  by (simp_all add: publish_def split_beta split: option.split)

lemma publish_events:
  "published (publish k s m) = published m @
     (if s = [] then [] else [\<lparr>ev_kind = k, ev_sid = s, ev_source = authSyncSource m,
        ev_nonce = fst (stamp m (length (published m))),
        ev_timestamp = snd (stamp m (length (published m)))\<rparr>])"
  by (simp add: publish_def publishAuthSessionEvent_def split_beta)

lemma applyAuthBundle_fields [simp]:
  "auth (applyAuthBundle b sync m) = setBundle b (auth m)"
  "authEpoch (applyAuthBundle b sync m) = authEpoch m + 1"
  "authSyncSource (applyAuthBundle b sync m) = authSyncSource m"
  by (simp_all add: applyAuthBundle_def Let_def)

lemma clearAuthentication_fields [simp]:
  "auth (clearAuthentication sync st m)
     = reset (Some (case st of None \<Rightarrow> Complete | Some x \<Rightarrow> x)) (auth m)"
  "authEpoch (clearAuthentication sync st m) = authEpoch m + 1"
  "authSyncSource (clearAuthentication sync st m) = authSyncSource m"
  by (simp_all add: clearAuthentication_def Let_def)

lemma applyAuthBundle_inv: "module_inv m \<Longrightarrow> module_inv (applyAuthBundle b sync m)"
  by (auto simp: module_inv_def store_defs)
    (auto simp: applyAuthBundle_def Let_def publish_events)

lemma clearAuthentication_inv: "module_inv m \<Longrightarrow> module_inv (clearAuthentication sync st m)"
  by (auto simp: module_inv_def store_defs)
    (auto simp: clearAuthentication_def Let_def publish_events)

lemma applyAuthRotation_Inr:
  "applyAuthRotation v m = Inr m' \<Longrightarrow> \<exists>b. m' = applyAuthBundle b False m"
  by (auto simp: applyAuthRotation_def Let_def split: if_splits option.splits)

lemma onAuthSessionEvent_cases:
  "fst (onAuthSessionEvent e m) = m \<or> fst (onAuthSessionEvent e m) = clearAuthentication False None m"
  by (auto simp: onAuthSessionEvent_def Let_def)

lemma do_action_inv: "module_inv m \<Longrightarrow> module_inv (do_action a m)"
proof (cases a)
  case (ActRotation v)
  then show "module_inv m \<Longrightarrow> ?thesis"
    by (auto dest: applyAuthRotation_Inr intro: applyAuthBundle_inv split: sum.splits)
next
  case (ActSyncEvent e)
  then show "module_inv m \<Longrightarrow> ?thesis"
    using onAuthSessionEvent_cases[of e m] by (auto intro: clearAuthentication_inv)
next
  case (ActSetUser u)
  then show "module_inv m \<Longrightarrow> ?thesis" by (simp add: module_inv_def store_defs)
next
  case (ActSetPending2FA t)
  then show "module_inv m \<Longrightarrow> ?thesis" by (simp add: module_inv_def store_defs)
qed (simp_all add: applyAuthBundle_inv clearAuthentication_inv)

lemma fold_actions_inv: "module_inv m \<Longrightarrow> module_inv (fold do_action acts m)"
  by (induction acts arbitrary: m) (auto intro: do_action_inv)

lemma do_action_epoch: "authEpoch m \<le> authEpoch (do_action a m)"
proof (cases a)
  case (ActRotation v)
  then show ?thesis by (auto dest: applyAuthRotation_Inr split: sum.splits)
next
  case (ActSyncEvent e)
  then show ?thesis using onAuthSessionEvent_cases[of e m] by auto
qed auto

lemma fold_actions_epoch: "authEpoch m \<le> authEpoch (fold do_action acts m)"
  by (induction acts arbitrary: m) (auto intro: order_trans do_action_epoch)

section \<open>The runtime of a tab meets both contracts\<close>

interpretation tab: refresh_runtime "refreshRuntime e" "\<lambda>w. auth (amod w)" for e
  by unfold_locales
    (auto simp: refreshRuntime_def on_auth_def store_defs split: if_splits)

interpretation tab_inv: runtime_invariant "refreshRuntime e" "\<lambda>w. module_inv (amod w)" for e
  by unfold_locales
    (auto simp: refreshRuntime_def world_request_def waitForRefreshRace_def on_auth_def Let_def
      fold_actions_inv applyAuthBundle_inv clearAuthentication_inv split: list.splits,
     auto simp: module_inv_def store_defs)

lemma on_auth_bootstrap_inv: "module_inv (amod w) \<Longrightarrow> module_inv (amod (on_auth (setBootstrapState b) w))"
  by (simp add: module_inv_def on_auth_def store_defs)

lemma runRefresh_inv: "module_inv (amod w) \<Longrightarrow> module_inv (amod (snd (runRefresh e w)))"
  by (simp add: runRefresh_def createRefreshRunner_def tab_inv.run_inv)

lemma refreshAuthentication_inv:
  "module_inv (amod w) \<Longrightarrow> module_inv (amod (snd (refreshAuthentication locks w)))"
  by (auto simp: refreshAuthentication_def performRefreshWithBrowserLock_def split_beta
      runRefresh_inv fold_actions_inv on_auth_bootstrap_inv split: BrowserLocks.split)

lemma bootstrapAuthentication_inv:
  "module_inv (amod w) \<Longrightarrow> module_inv (amod (snd (bootstrapAuthentication now locks w)))"
  by (auto simp: bootstrapAuthentication_def Let_def refreshAuthentication_inv on_auth_bootstrap_inv
      split: option.split)

lemma getFreshAuthHeaders_world:
  "snd (getFreshAuthHeaders now now' locks w) = w
   \<or> snd (getFreshAuthHeaders now now' locks w) = snd (refreshAuthentication locks w)"
  by (auto simp: getFreshAuthHeaders_def split: prod.splits sum.splits RefreshOutcome.splits)

section \<open>Reachable modules\<close>

definition initialModule :: "jstr \<Rightarrow> (nat \<Rightarrow> jstr \<times> jnum) \<Rightarrow> AuthModule" where
  "initialModule src st = \<lparr>auth = initialAuth, authEpoch = 0, authSyncSource = src, stamp = st,
     published = []\<rparr>"

inductive reachable :: "AuthModule \<Rightarrow> bool" where
  start: "reachable (initialModule src st)"
| act: "reachable m \<Longrightarrow> reachable (do_action a m)"
| refresh: "reachable (amod w) \<Longrightarrow> reachable (amod (snd (refreshAuthentication locks w)))"
| bootstrap: "reachable (amod w) \<Longrightarrow> reachable (amod (snd (bootstrapAuthentication now locks w)))"
| headers: "reachable (amod w) \<Longrightarrow> reachable (amod (snd (getFreshAuthHeaders now now' locks w)))"

lemma initialModule_inv: "module_inv (initialModule src st)"
  by (simp add: module_inv_def initialModule_def initialAuth_def)

text \<open>C4. In every state the module can reach, through any interleaving of logins, rotations, logouts,
  events of other tabs, bootstraps and refreshes with any answers of the server, the access token,
  its expiry and the session are present or absent together, and every event the tab has published
  names a session and carries the tab's own source.\<close>

theorem reachable_credentials_together: "reachable m \<Longrightarrow> module_inv m"
proof (induction rule: reachable.induct)
  case (headers w now now' locks)
  then show ?case
    using getFreshAuthHeaders_world[of now now' locks w] refreshAuthentication_inv by metis
qed (auto intro: initialModule_inv do_action_inv refreshAuthentication_inv bootstrapAuthentication_inv)

theorem reachable_credentials_together_witness:
  "reachable (do_action (ActClear True None) (initialModule (js ''tab'') (\<lambda>n. ([], Fin 0))))
   \<and> module_inv (do_action (ActClear True None) (initialModule (js ''tab'') (\<lambda>n. ([], Fin 0))))"
proof -
  have r: "reachable (do_action (ActClear True None) (initialModule (js ''tab'') (\<lambda>n. ([], Fin 0))))"
    by (intro reachable.intros)
  show ?thesis using r reachable_credentials_together[OF r] by blast
qed

text \<open>The outcome a refresh reports is the state it leaves: after \<open>authenticated\<close> the store holds
  exactly the reported bundle, whose token, session id and expiry are proper; after \<open>anonymous\<close> and
  \<open>out_of_sync\<close> the store is signed out and the bootstrap complete; after a transient failure of the
  server the bootstrap is idle again.\<close>

lemma refresh_outcome_matches_store:
  "outcome_matches (fst (runRefresh e w)) (auth (amod (snd (runRefresh e w))))"
  unfolding runRefresh_def createRefreshRunner_def by (rule tab.run_outcome)

text \<open>A token rotation is accepted exactly when the value is a well-formed rotation, a user is
  signed in and the session id is the one of the store; it then renews the token and its expiry,
  keeps user and session id, opens a new epoch and publishes nothing.\<close>

lemma rotation_accepts:
  "(\<exists>m'. applyAuthRotation v m = Inr m') =
     (isAuthTokenRotation v \<and> user (auth m) \<noteq> None
      \<and> session_sid (auth m) = Some (sid (session_of (jget v (js ''session'')))))
   \<and> (case applyAuthRotation v m of
        Inl e \<Rightarrow> True
      | Inr m' \<Rightarrow> accessToken (auth m') = Some (str_of (jget v (js ''access_token'')))
          \<and> accessExpiresAt (auth m') = Some (num_of (jget v (js ''access_expires_at'')))
          \<and> user (auth m') = user (auth m) \<and> session_sid (auth m') = session_sid (auth m)
          \<and> authEpoch m' = authEpoch m + 1 \<and> published m' = published m)"
  by (auto simp: applyAuthRotation_def applyAuthBundle_def session_sid_def store_defs Let_def
      split: option.split)

section \<open>Between tabs\<close>

lemma clearAuthentication_published:
  "session_sid (auth m) = Some s \<Longrightarrow> s \<noteq> [] \<Longrightarrow>
     published (clearAuthentication True st m) = published m @
       [\<lparr>ev_kind = KSignedOut, ev_sid = s, ev_source = authSyncSource m,
         ev_nonce = fst (stamp m (length (published m))),
         ev_timestamp = snd (stamp m (length (published m)))\<rparr>]"
  by (simp add: clearAuthentication_def Let_def str_truthy_def publish_events)

lemma onAuthSessionEvent_silent: "published (fst (onAuthSessionEvent e m)) = published m"
  by (auto simp: onAuthSessionEvent_def clearAuthentication_def Let_def)

text \<open>C5. Signing out in one tab signs the other tabs out: the sign-out posts one event; any other
  tab of the same session that receives it within a minute ends signed out and is sent to the
  sign-in page, a tab with another session keeps it, and neither posts anything in reply.\<close>

theorem sign_out_reaches_other_tabs:
  assumes "session_sid (auth m) = Some s" "s \<noteq> []"
    and "stamp m (length (published m)) = (nonce, Fin t)" "\<bar>now - t\<bar> < 60000"
    and "authSyncSource other \<noteq> authSyncSource m"
  shows "\<exists>e. published (clearAuthentication True st m) = published m @ [e]
    \<and> deliver (authSyncSource other) now (event_value e) = Some e
    \<and> published (fst (onAuthSessionEvent e other)) = published other
    \<and> (if session_sid (auth other) = Some s
       then signed_out (auth (fst (onAuthSessionEvent e other)))
         \<and> snd (onAuthSessionEvent e other) = GoToSignIn
       else fst (onAuthSessionEvent e other) = other)"
proof -
  let ?e = "\<lparr>ev_kind = KSignedOut, ev_sid = s, ev_source = authSyncSource m,
         ev_nonce = nonce, ev_timestamp = Fin t\<rparr>"
  have "published (clearAuthentication True st m) = published m @ [?e]"
    using clearAuthentication_published[OF assms(1,2)] assms(3) by simp
  moreover have "deliver (authSyncSource other) now (event_value ?e) = Some ?e"
    using assms(2,4,5) event_value_valid[of ?e] by (simp add: deliver_def)
  moreover have "if session_sid (auth other) = Some s
       then signed_out (auth (fst (onAuthSessionEvent ?e other)))
         \<and> snd (onAuthSessionEvent ?e other) = GoToSignIn
       else fst (onAuthSessionEvent ?e other) = other"
    using assms(2)
    by (auto simp: onAuthSessionEvent_def Let_def str_truthy_def signed_out_def store_defs)
  ultimately show ?thesis using onAuthSessionEvent_silent by blast
qed

definition sample_session :: LoginSession where
  "sample_session = \<lparr>sid = js ''s1'', current = True, login_method = js ''password'', ip = js ''::1'',
     user_agent = js ''ua'', created_at = Fin 1, last_active_at = Fin 1, expires_at = Fin 9\<rparr>"

definition sample_bundle :: AuthBundle where
  "sample_bundle = \<lparr>access_token = js ''tok'', token_type = js ''Bearer'', access_expires_at = Fin 2000,
     bundle_user = \<lparr>user_id = Fin 7, username = js ''ann'', role = Fin 1, user_props = []\<rparr>,
     bundle_session = sample_session\<rparr>"

definition sample_module :: "jstr \<Rightarrow> AuthModule" where
  "sample_module src = applyAuthBundle sample_bundle False (initialModule src (\<lambda>n. (js ''n'', Fin 100)))"

lemma sample_module_facts:
  "session_sid (auth (sample_module src)) = Some (js ''s1'')" "published (sample_module src) = []"
  "stamp (sample_module src) = (\<lambda>n. (js ''n'', Fin 100))" "authSyncSource (sample_module src) = src"
  by (simp_all add: sample_module_def applyAuthBundle_def initialModule_def sample_bundle_def
      sample_session_def session_sid_def setBundle_def Let_def)

theorem sign_out_reaches_other_tabs_witness:
  "session_sid (auth (sample_module (js ''b''))) = Some (js ''s1'')
   \<and> (\<exists>e. published (clearAuthentication True None (sample_module (js ''a'')))
        = published (sample_module (js ''a'')) @ [e]
      \<and> deliver (authSyncSource (sample_module (js ''b''))) 160 (event_value e) = Some e
      \<and> published (fst (onAuthSessionEvent e (sample_module (js ''b''))))
          = published (sample_module (js ''b''))
      \<and> (if session_sid (auth (sample_module (js ''b''))) = Some (js ''s1'')
         then signed_out (auth (fst (onAuthSessionEvent e (sample_module (js ''b'')))))
           \<and> snd (onAuthSessionEvent e (sample_module (js ''b''))) = GoToSignIn
         else fst (onAuthSessionEvent e (sample_module (js ''b''))) = sample_module (js ''b'')))"
  by (intro conjI sample_module_facts(1)
      sign_out_reaches_other_tabs[where t = 100 and nonce = "js ''n''"])
    (simp_all add: sample_module_facts)

section \<open>Headers and bootstrap\<close>

lemma getCommonHeaders_token:
  "str_truthy (accessToken a) \<Longrightarrow>
     map_of (getCommonHeaders a) (js ''Authorization'') = Some (js ''Bearer '' @ the (accessToken a))"
  by (simp add: getCommonHeaders_def)

lemma refresh_authenticated_token:
  assumes "refreshAuthentication locks w = (Inr (Authenticated b), w')"
  shows "signed_in_with b (auth (amod w')) \<and> access_token b \<noteq> []"
proof -
  obtain e v where "runRefresh e v = (Authenticated b, w')"
    using assms by (auto simp: refreshAuthentication_def performRefreshWithBrowserLock_def
        split: BrowserLocks.splits prod.splits)
  then show ?thesis using tab.run_outcome[of e 0 True v]
    by (simp add: runRefresh_def createRefreshRunner_def)
qed

text \<open>Headers are never sent without a credential: whenever \<open>getFreshAuthHeaders\<close> returns headers,
  the store it leaves holds a nonempty access token and the headers carry it as a bearer token;
  when the token had more than a minute left, the server was not asked.\<close>

lemma fresh_headers_authorized:
  assumes "getFreshAuthHeaders now now' locks w = (Inr h, w')"
  shows "\<exists>t. accessToken (auth (amod w')) = Some t \<and> t \<noteq> []
      \<and> map_of h (js ''Authorization'') = Some (js ''Bearer '' @ t)
      \<and> (token_usable_after (now div 1000 + 60) (auth (amod w)) \<longrightarrow> w' = w)"
proof -
  have h: "h = getCommonHeaders (auth (amod w'))"
    using assms by (auto simp: getFreshAuthHeaders_def split: if_splits prod.splits sum.splits
        RefreshOutcome.splits)
  have "str_truthy (accessToken (auth (amod w')))"
  proof (cases "\<exists>b. refreshAuthentication locks w = (Inr (Authenticated b), w')")
    case True
    then show ?thesis by (auto simp: str_truthy_def signed_in_with_def dest!: refresh_authenticated_token)
  next
    case False
    then show ?thesis using assms
      by (auto simp: getFreshAuthHeaders_def token_usable_after_def
          split: if_splits prod.splits sum.splits RefreshOutcome.splits)
  qed
  moreover have "token_usable_after (now div 1000 + 60) (auth (amod w)) \<longrightarrow> w' = w"
    using assms by (auto simp: getFreshAuthHeaders_def)
  ultimately show ?thesis using h getCommonHeaders_token by (auto simp: str_truthy_def)
qed

text \<open>A refresh whose browser lock request is rejected is not handled: the promise is returned
  from the \<open>try\<close> block without being awaited, so for a tab with no valid token that still has to
  look for a session the bootstrap fails with the lock's error and stays in \<open>checking\<close>, whereas an
  exception thrown at the call is turned into a transient failure with an idle bootstrap.\<close>

lemma lock_rejection_unhandled:
  assumes "currentValidAuthBundle now (auth (amod w)) = None" "bootstrapState (auth (amod w)) \<noteq> Complete"
  shows "fst (bootstrapAuthentication now (LocksReject e) w) = Inl e
    \<and> bootstrapState (auth (amod (snd (bootstrapAuthentication now (LocksReject e) w)))) = Checking
    \<and> fst (bootstrapAuthentication now (LocksThrow e) w) = Inr (TransientError (ErrorValue e))
    \<and> bootstrapState (auth (amod (snd (bootstrapAuthentication now (LocksThrow e) w)))) = Idle"
  using assms by (simp add: bootstrapAuthentication_def refreshAuthentication_def
      performRefreshWithBrowserLock_def on_auth_def setBootstrapState_def Let_def)

section \<open>One refresh at a time\<close>

text \<open>The variable \<open>refreshPromise\<close>: a call joins the promise in flight or starts a new one, numbered
  here by \<open>started\<close>; the \<open>finally\<close> handler clears it when the promise settles.  \<open>answers\<close> lists the
  promise each caller was given, oldest first.\<close>

record RefreshCell =
  refreshPromise :: "nat option"
  started :: nat
  settled :: nat
  answers :: "nat list"

datatype CellEvent = RefreshCall | PromiseSettles

fun cell_step :: "CellEvent \<Rightarrow> RefreshCell \<Rightarrow> RefreshCell" where
  "cell_step RefreshCall c =
     (case refreshPromise c of
        Some p \<Rightarrow> c\<lparr>answers := answers c @ [p]\<rparr>
      | None \<Rightarrow> c\<lparr>refreshPromise := Some (started c), started := started c + 1,
                 answers := answers c @ [started c]\<rparr>)"
| "cell_step PromiseSettles c =
     (case refreshPromise c of
        Some p \<Rightarrow> c\<lparr>refreshPromise := None, settled := settled c + 1\<rparr>
      | None \<Rightarrow> c)"

definition initialCell :: RefreshCell where
  "initialCell = \<lparr>refreshPromise = None, started = 0, settled = 0, answers = []\<rparr>"

definition cell_inv :: "RefreshCell \<Rightarrow> bool" where
  "cell_inv c \<longleftrightarrow> started c = settled c + (if refreshPromise c = None then 0 else 1)
     \<and> (\<forall>p. refreshPromise c = Some p \<longrightarrow> p + 1 = started c)
     \<and> list_all (\<lambda>p. p < started c) (answers c) \<and> sorted (answers c)"

lemma cell_step_inv: "cell_inv c \<Longrightarrow> cell_inv (cell_step ev c)"
  by (cases ev) (auto simp: cell_inv_def sorted_append list_all_iff less_Suc_eq_le split: option.splits)

lemma cell_run_inv: "cell_inv c \<Longrightarrow> cell_inv (fold cell_step evs c)"
  by (induction evs arbitrary: c) (auto intro: cell_step_inv)

text \<open>C6. At most one refresh is in flight, whatever the order of calls and completions: the refreshes
  started are those settled and the one in flight, if any, and every call made before it settles is
  given that one promise.\<close>

theorem refresh_single_flight:
  "started (fold cell_step evs initialCell)
     = settled (fold cell_step evs initialCell)
       + (if refreshPromise (fold cell_step evs initialCell) = None then 0 else 1)
   \<and> (\<forall>n. answers (fold cell_step (replicate (Suc n) RefreshCall) (fold cell_step evs initialCell))
        = answers (fold cell_step evs initialCell)
          @ replicate (Suc n) (started (fold cell_step evs initialCell)
              - (if refreshPromise (fold cell_step evs initialCell) = None then 0 else 1)))"
proof -
  let ?c = "fold cell_step evs initialCell"
  have inv: "cell_inv ?c" by (rule cell_run_inv) (simp add: cell_inv_def initialCell_def)
  have join: "answers (fold cell_step (replicate n RefreshCall) c) = answers c @ replicate n p"
    if "refreshPromise c = Some p" for n p c
    using that by (induction n arbitrary: c) auto
  have "answers (fold cell_step (replicate (Suc n) RefreshCall) ?c)
      = answers ?c @ replicate (Suc n) (started ?c - (if refreshPromise ?c = None then 0 else 1))" for n
  proof (cases "refreshPromise ?c")
    case None
    then show ?thesis using join[of "cell_step RefreshCall ?c" "started ?c" n] by simp
  next
    case (Some p)
    then have "p = started ?c - 1" using inv by (auto simp: cell_inv_def)
    then show ?thesis using join[OF Some, of "Suc n"] Some by simp
  qed
  with inv show ?thesis unfolding cell_inv_def by blast
qed

end
