(* ===== verification/Http_Client.thy ===== *)
theory Http_Client
  imports Auth_World
begin

text \<open>
  The HTTP client of the console (\<open>web/src/lib/http-client.ts\<close>) and the texts of server errors
  (\<open>web/src/lib/server-error-message.ts\<close>).

  The client is an axios instance with a request interceptor (the access token), a response
  interceptor (token rotation, error messages, one refresh and retry after a 401) and a
  replacement of \<open>get\<close> that shares a request in flight.  Axios and i18next are arguments: the
  merge of a configuration with the defaults (\<open>mergeConfig\<close>), the answers of the transport and
  the translation \<open>t\<close>.  A request whose answer never comes is the value \<open>None\<close>.
\<close>

section \<open>Texts of server errors\<close>

definition serverErrorMessageKeys :: "(jstr \<times> jstr) list" where
  "serverErrorMessageKeys = [
     (js ''AUTH_SESSION_LIMIT'',
      js ''Too many active login sessions. On a device where you are already signed in, open Login sessions and use ''
      @ [8220] @ js ''Sign out other sessions'' @ [8221]
      @ js '' to revoke them. If you cannot access a signed-in device, reset your password to sign out all sessions.''),
     (js ''AUTH_SESSION_ISSUANCE_LIMIT'',
      js ''Too many login sessions were created recently. Please wait for the rolling window to pass, then try again.''),
     (js ''TELEGRAM_BIND_DISABLED'', js ''Telegram binding is disabled.''),
     (js ''TELEGRAM_BIND_INVALID_REQUEST'', js ''The Telegram authorization request is invalid or expired.''),
     (js ''TELEGRAM_BIND_FLOW_INVALID'', js ''This Telegram binding request has expired or has already been used.''),
     (js ''TELEGRAM_BIND_SESSION_INVALID'',
      js ''The login session that started this Telegram binding is no longer valid.''),
     (js ''TELEGRAM_BIND_ALREADY_BOUND'', js ''This Telegram account is already bound.''),
     (js ''TELEGRAM_BIND_USER_DELETED'', js ''This user account no longer exists.''),
     (js ''TELEGRAM_BIND_USER_DISABLED'', js ''This user account is disabled.''),
     (js ''TELEGRAM_BIND_INTERNAL_ERROR'', js ''Telegram binding failed. Please try again.'')]"

datatype MessageKey = KeyText jstr | InheritedMember jstr

definition serverErrorPayload :: "jval \<Rightarrow> jval option" where
  "serverErrorPayload value =
     (if \<not> is_object value then None
      else let response = jget value (js ''response'') in
        if is_object response \<and> is_object (jget response (js ''data'')) then Some (jget response (js ''data''))
        else Some value)"

definition getServerErrorMessageKey :: "jval \<Rightarrow> MessageKey option" where
  "getServerErrorMessageKey value =
     (case serverErrorPayload value of None \<Rightarrow> None
      | Some payload \<Rightarrow>
          let code = jget payload (js ''code'') in
          if \<not> is_string code then None
          else case map_of serverErrorMessageKeys (str_of code) of
            Some key \<Rightarrow> Some (KeyText key)
          | None \<Rightarrow> if str_of code \<in> set object_prototype_names
                     then Some (InheritedMember (str_of code)) else None)"

text \<open>A code that names a property every object inherits is taken for a known code.\<close>

lemma inherited_code_is_a_key:
  "getServerErrorMessageKey (JObj [(js ''code'', JStr (js ''toString''))]) = Some (InheritedMember (js ''toString''))"
  by (simp add: getServerErrorMessageKey_def serverErrorPayload_def serverErrorMessageKeys_def
      object_prototype_names_def Let_def)

section \<open>Requests\<close>

record ApiRequestConfig =
  req_url :: jstr
  authorization :: "jstr option"
  skipBusinessError :: bool
  skipErrorHandler :: bool
  skipAuthRefresh :: bool
  authRetry :: bool
  acceptAuthRotation :: bool

text \<open>How the transport answers: a response with a status axios accepts, by its data, or an error
  value, which carries the configuration of the request or not.\<close>

datatype HttpAnswer = HttpResolved jval | HttpRejected bool jval

datatype ApiError = AxiosFailure jval | RotationFailure AuthRotationError | RefreshFailure jval

text \<open>The tab, the messages shown, the page and the navigations asked for, the requests handed to
  the transport and the number of refreshes asked for.\<close>

record HttpWorld =
  auth_world :: AuthWorld
  toasts :: "jval list"
  pathname :: jstr
  navigations :: "jstr list"
  dispatched :: "ApiRequestConfig list"
  refreshes :: nat

type_synonym translation = "MessageKey \<Rightarrow> jval"

definition http_auth :: "HttpWorld \<Rightarrow> AuthState" where
  "http_auth w = auth (amod (auth_world w))"

definition on_module :: "(AuthModule \<Rightarrow> AuthModule) \<Rightarrow> HttpWorld \<Rightarrow> HttpWorld" where
  "on_module f w = w\<lparr>auth_world := (auth_world w)\<lparr>amod := f (amod (auth_world w))\<rparr>\<rparr>"

definition toast_error :: "jval \<Rightarrow> HttpWorld \<Rightarrow> HttpWorld" where
  "toast_error v w = w\<lparr>toasts := toasts w @ [v]\<rparr>"

definition redirectToSignIn :: "HttpWorld \<Rightarrow> HttpWorld" where
  "redirectToSignIn w =
     (if pathname w \<noteq> js ''/sign-in'' then w\<lparr>navigations := navigations w @ [js ''/sign-in'']\<rparr> else w)"

text \<open>The request interceptor.\<close>

definition bearer :: "jstr \<Rightarrow> jstr" where
  "bearer token = js ''Bearer '' @ token"

definition attach_token :: "AuthState \<Rightarrow> ApiRequestConfig \<Rightarrow> ApiRequestConfig" where
  "attach_token a config =
     (if str_truthy (accessToken a) then config\<lparr>authorization := Some (bearer (the (accessToken a)))\<rparr>
      else config)"

text \<open>The response interceptor on a response.\<close>

definition business_error :: "translation \<Rightarrow> ApiRequestConfig \<Rightarrow> jval \<Rightarrow> HttpWorld \<Rightarrow> HttpWorld" where
  "business_error t config data w =
     (if \<not> skipBusinessError config \<and> jget data (js ''success'') = JBool False
      then toast_error (case getServerErrorMessageKey data of
               Some key \<Rightarrow> t key
             | None \<Rightarrow> js_or (jget data (js ''message'')) (t (KeyText (js ''Request failed'')))) w
      else w)"

definition on_fulfilled ::
  "translation \<Rightarrow> ApiRequestConfig \<Rightarrow> jval \<Rightarrow> HttpWorld \<Rightarrow> (ApiError + jval) \<times> HttpWorld" where
  "on_fulfilled t config data w =
     (if acceptAuthRotation config \<and> jget data (js ''success'') = JBool True then
        case applyAuthRotation (jget data (js ''data'')) (amod (auth_world w)) of
          Inl e \<Rightarrow> (Inl (RotationFailure e), w)
        | Inr m \<Rightarrow> (Inr data, business_error t config data (on_module (\<lambda>_. m) w))
      else (Inr data, business_error t config data w))"

text \<open>The response interceptor on an error.  \<open>Inr config\<close> is \<open>return api.request(config)\<close>, \<open>Inl\<close> the
  error thrown.\<close>

definition error_status :: "jval \<Rightarrow> jval" where
  "error_status error = jget (jget error (js ''response'')) (js ''status'')"

definition session_expired :: "translation \<Rightarrow> bool \<Rightarrow> HttpWorld \<Rightarrow> HttpWorld" where
  "session_expired t skip w =
     (if skip then w else toast_error (t (KeyText (js ''Session expired!''))) w)"

text \<open>The awaited \<open>refreshAuthentication\<close>, called while no refresh is in flight; a call that joins one is
  given that refresh's outcome (\<open>RefreshCell\<close> in \<open>Auth_World\<close>).\<close>

definition refresh_call :: "BrowserLocks \<Rightarrow> HttpWorld \<Rightarrow> (jval + RefreshOutcome) \<times> HttpWorld" where
  "refresh_call locks w =
     (let (r, aw) = refreshAuthentication locks (auth_world w)
      in (r, w\<lparr>auth_world := aw, refreshes := refreshes w + 1\<rparr>))"

definition on_unauthorized ::
  "translation \<Rightarrow> BrowserLocks \<Rightarrow> ApiRequestConfig option \<Rightarrow> jval \<Rightarrow> HttpWorld
     \<Rightarrow> (ApiError + ApiRequestConfig) \<times> HttpWorld" where
  "on_unauthorized t locks config error w =
     (let skip = (case config of None \<Rightarrow> False | Some c \<Rightarrow> skipErrorHandler c) in
      case config of
        None \<Rightarrow> (Inl (AxiosFailure error), session_expired t skip w)
      | Some c \<Rightarrow>
          if \<not> skipAuthRefresh c \<and> \<not> authRetry c then
            let c' = c\<lparr>authRetry := True\<rparr> in
            case refresh_call locks w of
              (Inl e, w') \<Rightarrow> (Inl (RefreshFailure e), w')
            | (Inr outcome, w') \<Rightarrow>
                (case outcome of
                   Authenticated b \<Rightarrow> (Inr (attach_token (http_auth w') c'), w')
                 | TransientError e \<Rightarrow> (Inl (AxiosFailure error), w')
                 | _ \<Rightarrow> (Inl (AxiosFailure error), redirectToSignIn (session_expired t skip w')))
          else if authRetry c then
            (Inl (AxiosFailure error),
             redirectToSignIn (session_expired t skip (on_module (clearAuthentication False None) w)))
          else (Inl (AxiosFailure error), session_expired t skip w))"

definition failure_message :: "translation \<Rightarrow> jval \<Rightarrow> jval" where
  "failure_message t error =
     (case getServerErrorMessageKey error of
        Some key \<Rightarrow> t key
      | None \<Rightarrow>
          js_or (jget (jget (jget error (js ''response'')) (js ''data'')) (js ''message''))
            (js_or (jget error (js ''message'')) (t (KeyText (js ''Request failed'')))))"

definition on_rejected ::
  "translation \<Rightarrow> BrowserLocks \<Rightarrow> ApiRequestConfig option \<Rightarrow> jval \<Rightarrow> HttpWorld
     \<Rightarrow> (ApiError + ApiRequestConfig) \<times> HttpWorld" where
  "on_rejected t locks config error w =
     (if error_status error = JNum (Fin 401) then on_unauthorized t locks config error w
      else (Inl (AxiosFailure error),
            if (case config of None \<Rightarrow> False | Some c \<Rightarrow> skipErrorHandler c) then w
            else toast_error (failure_message t error) w))"

text \<open>A request: the configuration is merged with the defaults, the request interceptor runs, the
  request is handed to the transport, other code of the tab runs until it answers, and the
  response interceptor takes the answer.  The script gives for each request in turn the
  operations of other code, the state of the browser's lock manager and the answer.\<close>

type_synonym http_script = "(AuthAction list \<times> BrowserLocks \<times> HttpAnswer) list"

fun api_request ::
  "(ApiRequestConfig \<Rightarrow> ApiRequestConfig) \<Rightarrow> translation \<Rightarrow> http_script \<Rightarrow> ApiRequestConfig \<Rightarrow> HttpWorld
     \<Rightarrow> ((ApiError + jval) \<times> HttpWorld) option" where
  "api_request mergeConfig t [] config w = None"
| "api_request mergeConfig t ((acts, locks, answer) # script) config w =
     (let c = attach_token (http_auth w) (mergeConfig config);
          w1 = on_module (fold do_action acts) (w\<lparr>dispatched := dispatched w @ [c]\<rparr>) in
      case answer of
        HttpResolved data \<Rightarrow> Some (on_fulfilled t c data w1)
      | HttpRejected hasConfig error \<Rightarrow>
          (case on_rejected t locks (if hasConfig then Some c else None) error w1 of
             (Inl e, w2) \<Rightarrow> Some (Inl e, w2)
           | (Inr c', w2) \<Rightarrow> api_request mergeConfig t script c' w2))"

section \<open>Sharing of GET requests in flight\<close>

text \<open>A GET request handed to axios: its session and target, and the key it is shared under unless
  sharing is disabled.  \<open>inFlightGet\<close> is the map from keys to promises; a promise is the number of
  its request.\<close>

record GetRequest =
  get_session :: "jstr option"
  get_target :: jstr
  get_shared :: "jstr option"

record GetClient =
  issued :: "GetRequest list"
  finished :: "nat list"
  inFlightGet :: "jstr \<rightharpoonup> nat"

definition emptyGetClient :: GetClient where
  "emptyGetClient = \<lparr>issued = [], finished = [], inFlightGet = Map.empty\<rparr>"

text \<open>What follows the session in the key: url and parameters.  \<open>stringify\<close> is \<open>JSON.stringify\<close>.\<close>

definition request_target :: "(jval \<Rightarrow> jstr) \<Rightarrow> jstr \<Rightarrow> jval \<Rightarrow> jstr" where
  "request_target stringify url ps = url @ js ''?'' @ (if truthy ps then stringify ps else js ''{}'')"

definition request_key :: "jstr option \<Rightarrow> jstr \<Rightarrow> jstr" where
  "request_key s target = str_or s (js ''anonymous'') @ js '':'' @ target"

definition api_get ::
  "(jval \<Rightarrow> jstr) \<Rightarrow> AuthState \<Rightarrow> jstr \<Rightarrow> jval \<Rightarrow> bool \<Rightarrow> GetClient \<Rightarrow> nat \<times> GetClient" where
  "api_get stringify a url ps disableDuplicate c =
     (let target = request_target stringify url ps;
          originalGet = (\<lambda>k. (length (issued c),
            c\<lparr>issued := issued c @ [\<lparr>get_session = session_sid a, get_target = target, get_shared = k\<rparr>]\<rparr>)) in
      if disableDuplicate then originalGet None
      else let key = request_key (session_sid a) target in
        case inFlightGet c key of
          Some existingRequest \<Rightarrow> (existingRequest, c)
        | None \<Rightarrow> let (p, c') = originalGet (Some key) in (p, c'\<lparr>inFlightGet := (inFlightGet c')(key \<mapsto> p)\<rparr>))"

text \<open>The promise of a request settles, once; the \<open>finally\<close> of a shared one deletes its key.\<close>

definition get_settle :: "nat \<Rightarrow> GetClient \<Rightarrow> GetClient" where
  "get_settle p c =
     (if p \<in> set (finished c) \<or> length (issued c) \<le> p then c
      else c\<lparr>finished := finished c @ [p],
             inFlightGet := (case get_shared (issued c ! p) of None \<Rightarrow> inFlightGet c
               | Some key \<Rightarrow> (inFlightGet c)(key := None))\<rparr>)"

datatype GetEvent = GetCall AuthState jstr jval bool | GetSettle nat

fun get_step :: "(jval \<Rightarrow> jstr) \<Rightarrow> GetEvent \<Rightarrow> GetClient \<Rightarrow> GetClient" where
  "get_step stringify (GetCall a url ps off) c = snd (api_get stringify a url ps off c)"
| "get_step stringify (GetSettle p) c = get_settle p c"

definition get_run :: "(jval \<Rightarrow> jstr) \<Rightarrow> GetEvent list \<Rightarrow> GetClient" where
  "get_run stringify evs = fold (get_step stringify) evs emptyGetClient"

text \<open>The map holds exactly the shared requests that have not settled, each under its own key.\<close>

definition get_inv :: "GetClient \<Rightarrow> bool" where
  "get_inv c \<longleftrightarrow>
     (\<forall>key p. inFlightGet c key = Some p
        \<longleftrightarrow> p < length (issued c) \<and> p \<notin> set (finished c) \<and> get_shared (issued c ! p) = Some key)
   \<and> (\<forall>p < length (issued c). get_shared (issued c ! p)
        \<in> {None, Some (request_key (get_session (issued c ! p)) (get_target (issued c ! p)))})
   \<and> (\<forall>p \<in> set (finished c). p < length (issued c))"

lemma get_inv_empty: "get_inv emptyGetClient"
  by (simp add: get_inv_def emptyGetClient_def)

lemma get_inv_call: "get_inv c \<Longrightarrow> get_inv (snd (api_get stringify a url ps off c))"
  by (auto simp: get_inv_def api_get_def Let_def nth_append less_Suc_eq split: option.splits if_splits)
    (metis option.distinct(1))

lemma get_inv_settle:
  assumes inv: "get_inv c"
  shows "get_inv (get_settle p c)"
proof (cases "p \<in> set (finished c) \<or> length (issued c) \<le> p")
  case False
  let ?c = "get_settle p c"
  have same: "issued ?c = issued c" "set (finished ?c) = insert p (set (finished c))"
    using False by (auto simp: get_settle_def)
  have flight: "inFlightGet ?c key = (if get_shared (issued c ! p) = Some key then None else inFlightGet c key)" for key
    using False by (auto simp: get_settle_def split: option.split)
  have held: "inFlightGet c key = Some q
      \<longleftrightarrow> q < length (issued c) \<and> q \<notin> set (finished c) \<and> get_shared (issued c ! q) = Some key" for key q
    using inv by (simp add: get_inv_def)
  have "inFlightGet ?c key = Some q
      \<longleftrightarrow> q < length (issued ?c) \<and> q \<notin> set (finished ?c) \<and> get_shared (issued ?c ! q) = Some key" for key q
  proof (cases "get_shared (issued c ! p) = Some key")
    case True
    then have "inFlightGet c key = Some p" using False by (simp add: held)
    then have "q = p" if "q < length (issued c)" "q \<notin> set (finished c)" "get_shared (issued c ! q) = Some key"
      using that held[of key q] by simp
    with True show ?thesis by (auto simp: flight same)
  next
    case other: False
    then show ?thesis by (auto simp: flight same held)
  qed
  then show ?thesis using inv False same by (simp add: get_inv_def)
qed (simp add: get_settle_def inv)

lemma get_step_inv: "get_inv c \<Longrightarrow> get_inv (get_step stringify e c)"
  by (cases e) (simp_all add: get_inv_call get_inv_settle)

lemma get_run_inv: "get_inv (get_run stringify evs)"
proof -
  have "get_inv (fold (get_step stringify) evs c)" if "get_inv c" for c
    using that by (induction evs arbitrary: c) (auto intro: get_step_inv)
  then show ?thesis by (simp add: get_run_def get_inv_empty)
qed

text \<open>Session ids are opaque tokens of the server; the key separates them from the url with a colon.\<close>

definition colon_free :: "jstr option \<Rightarrow> bool" where
  "colon_free s \<longleftrightarrow> 58 \<notin> set (str_or s [])"

fun call_colon_free :: "GetEvent \<Rightarrow> bool" where
  "call_colon_free (GetCall a url ps off) = colon_free (session_sid a)"
| "call_colon_free (GetSettle p) = True"

lemma anonymous_colon_free: "58 \<notin> set (js ''anonymous'')"
  by (simp add: js_def)

lemma colon_free_session: "colon_free s \<Longrightarrow> 58 \<notin> set (str_or s (js ''anonymous''))"
  using anonymous_colon_free by (auto simp: colon_free_def str_or_def split: option.splits if_splits)

lemma request_key_inj:
  assumes "colon_free s" "colon_free s'" "request_key s g = request_key s' g'"
  shows "str_or s (js ''anonymous'') = str_or s' (js ''anonymous'') \<and> g = g'"
proof -
  have colon: "js '':'' = [58]" by (simp add: js_def)
  have "str_or s (js ''anonymous'') @ 58 # g = str_or s' (js ''anonymous'') @ 58 # g'"
    using assms(3) by (simp add: request_key_def colon)
  then show ?thesis
    using colon_free_session[OF assms(1)] colon_free_session[OF assms(2)]
    by (blast dest: append_sep_inj)
qed

lemma get_step_colon_free:
  "list_all (\<lambda>r. colon_free (get_session r)) (issued c) \<Longrightarrow> call_colon_free e
   \<Longrightarrow> list_all (\<lambda>r. colon_free (get_session r)) (issued (get_step stringify e c))"
  by (cases e) (auto simp: api_get_def get_settle_def Let_def split: option.split)

lemma get_run_colon_free:
  "list_all call_colon_free evs
   \<Longrightarrow> list_all (\<lambda>r. colon_free (get_session r)) (issued (get_run stringify evs))"
proof -
  have "list_all (\<lambda>r. colon_free (get_session r)) (issued (fold (get_step stringify) evs c))"
    if "list_all call_colon_free evs" "list_all (\<lambda>r. colon_free (get_session r)) (issued c)" for c
    using that by (induction evs arbitrary: c) (auto intro: get_step_colon_free)
  then show "list_all call_colon_free evs \<Longrightarrow> ?thesis" by (simp add: get_run_def emptyGetClient_def)
qed

text \<open>A shared call answers with the request now in flight under its key, and a call that finds
  one changes nothing.\<close>

lemma api_get_in_flight:
  "inFlightGet (snd (api_get stringify a url ps False c))
     (request_key (session_sid a) (request_target stringify url ps)) = Some (fst (api_get stringify a url ps False c))"
  by (auto simp: api_get_def Let_def split: option.split)

lemma api_get_joins:
  "inFlightGet c (request_key (session_sid a) (request_target stringify url ps)) = Some p
   \<Longrightarrow> api_get stringify a url ps False c = (p, c)"
  by (simp add: api_get_def Let_def)

text \<open>C8. A shared GET is answered only by a request that was made for the same url and parameters,
  under the same login session, and that has not settled; a second call before it settles is
  given the same request and sends nothing.  Session ids must not contain the colon that ends
  them in the key.\<close>

theorem shared_get_same_session:
  assumes evs: "list_all call_colon_free evs" and a: "colon_free (session_sid a)"
  shows "case api_get stringify a url ps False (get_run stringify evs) of (p, c) \<Rightarrow>
      p < length (issued c) \<and> p \<notin> set (finished c)
    \<and> get_target (issued c ! p) = request_target stringify url ps
    \<and> str_or (get_session (issued c ! p)) (js ''anonymous'') = str_or (session_sid a) (js ''anonymous'')
    \<and> api_get stringify a url ps False c = (p, c)"
proof -
  obtain p c where pc: "api_get stringify a url ps False (get_run stringify evs) = (p, c)" by fastforce
  let ?key = "request_key (session_sid a) (request_target stringify url ps)"
  have run: "c = get_run stringify (evs @ [GetCall a url ps False])" using pc by (simp add: get_run_def)
  have flight: "inFlightGet c ?key = Some p"
    using api_get_in_flight[of stringify a url ps "get_run stringify evs"] pc by simp
  have inv: "get_inv c" unfolding run by (rule get_run_inv)
  then have p: "p < length (issued c)" "p \<notin> set (finished c)" "get_shared (issued c ! p) = Some ?key"
    using flight by (simp_all add: get_inv_def)
  then have key: "request_key (get_session (issued c ! p)) (get_target (issued c ! p)) = ?key"
    using inv by (auto simp: get_inv_def)
  have "list_all (\<lambda>r. colon_free (get_session r)) (issued c)"
    unfolding run by (rule get_run_colon_free) (use evs a in simp)
  then have "colon_free (get_session (issued c ! p))" using p(1) by (simp add: list_all_length)
  then show ?thesis using request_key_inj[OF _ a key] p api_get_joins[OF flight] by (simp add: pc)
qed

theorem shared_get_same_session_witness:
  "list_all call_colon_free [GetCall initialAuth (js ''/api/status'') JUndefined False]
   \<and> fst (api_get (\<lambda>_. []) initialAuth (js ''/api/status'') JUndefined False
       (get_run (\<lambda>_. []) [GetCall initialAuth (js ''/api/status'') JUndefined False])) = 0
   \<and> 0 \<notin> set (finished (snd (api_get (\<lambda>_. []) initialAuth (js ''/api/status'') JUndefined False
       (get_run (\<lambda>_. []) [GetCall initialAuth (js ''/api/status'') JUndefined False]))))"
proof -
  let ?e = "[GetCall initialAuth (js ''/api/status'') JUndefined False]"
  have h: "list_all call_colon_free ?e" "colon_free (session_sid initialAuth)"
    by (simp_all add: colon_free_def session_sid_def initialAuth_def)
  have z: "fst (api_get (\<lambda>_. []) initialAuth (js ''/api/status'') JUndefined False (get_run (\<lambda>_. []) ?e)) = 0"
    by (simp add: get_run_def api_get_def emptyGetClient_def Let_def)
  show ?thesis
    using h z shared_get_same_session[OF h, of "\<lambda>_. []" "js ''/api/status''" JUndefined]
    by (simp add: split_beta)
qed

section \<open>Refresh and retry\<close>

text \<open>What the client relies on in axios: merging a configuration with the defaults keeps the url
  and the client's own flags.\<close>

definition keeps_config :: "(ApiRequestConfig \<Rightarrow> ApiRequestConfig) \<Rightarrow> bool" where
  "keeps_config mergeConfig \<longleftrightarrow> (\<forall>c. req_url (mergeConfig c) = req_url c
     \<and> skipBusinessError (mergeConfig c) = skipBusinessError c
     \<and> skipErrorHandler (mergeConfig c) = skipErrorHandler c
     \<and> skipAuthRefresh (mergeConfig c) = skipAuthRefresh c
     \<and> authRetry (mergeConfig c) = authRetry c
     \<and> acceptAuthRotation (mergeConfig c) = acceptAuthRotation c)"

definition may_refresh :: "ApiRequestConfig \<Rightarrow> bool" where
  "may_refresh c \<longleftrightarrow> \<not> skipAuthRefresh c \<and> \<not> authRetry c"

lemma attach_token_keeps [simp]:
  "req_url (attach_token a c) = req_url c" "skipBusinessError (attach_token a c) = skipBusinessError c"
  "skipErrorHandler (attach_token a c) = skipErrorHandler c"
  "skipAuthRefresh (attach_token a c) = skipAuthRefresh c" "authRetry (attach_token a c) = authRetry c"
  "acceptAuthRotation (attach_token a c) = acceptAuthRotation c"
  by (simp_all add: attach_token_def)

lemmas http_effects = on_module_def toast_error_def redirectToSignIn_def session_expired_def business_error_def

lemma effects_keep_log [simp]:
  "dispatched (on_module f w) = dispatched w" "refreshes (on_module f w) = refreshes w"
  "dispatched (toast_error v w) = dispatched w" "refreshes (toast_error v w) = refreshes w"
  "dispatched (redirectToSignIn w) = dispatched w" "refreshes (redirectToSignIn w) = refreshes w"
  "dispatched (session_expired t b w) = dispatched w" "refreshes (session_expired t b w) = refreshes w"
  "dispatched (business_error t c d w) = dispatched w" "refreshes (business_error t c d w) = refreshes w"
  by (simp_all add: http_effects)

lemma effects_keep_world [simp]:
  "auth_world (toast_error v w) = auth_world w" "auth_world (redirectToSignIn w) = auth_world w"
  "auth_world (session_expired t b w) = auth_world w" "auth_world (business_error t c d w) = auth_world w"
  "amod (auth_world (on_module f w)) = f (amod (auth_world w))"
  by (simp_all add: http_effects)

lemma refresh_call_log:
  "dispatched (snd (refresh_call locks w)) = dispatched w"
  "refreshes (snd (refresh_call locks w)) = refreshes w + 1"
  "auth_world (snd (refresh_call locks w)) = snd (refreshAuthentication locks (auth_world w))"
  by (simp_all add: refresh_call_def split_beta)

lemma on_fulfilled_log [simp]:
  "dispatched (snd (on_fulfilled t c d w)) = dispatched w" "refreshes (snd (on_fulfilled t c d w)) = refreshes w"
  by (simp_all add: on_fulfilled_def split: sum.split)

lemma on_fulfilled_inv:
  "module_inv (amod (auth_world w)) \<Longrightarrow> module_inv (amod (auth_world (snd (on_fulfilled t c d w))))"
  by (auto simp: on_fulfilled_def dest!: applyAuthRotation_Inr intro: applyAuthBundle_inv split: sum.split)

lemma on_rejected_log:
  "dispatched (snd (on_rejected t locks config e w)) = dispatched w"
  "refreshes (snd (on_rejected t locks config e w))
     = refreshes w + (if error_status e = JNum (Fin 401) \<and> (\<exists>c. config = Some c \<and> may_refresh c) then 1 else 0)"
  using refresh_call_log[of locks w]
  by (auto simp: on_rejected_def on_unauthorized_def may_refresh_def Let_def
      split: option.splits prod.splits sum.splits RefreshOutcome.splits)

lemma on_rejected_inv:
  "module_inv (amod (auth_world w)) \<Longrightarrow> module_inv (amod (auth_world (snd (on_rejected t locks config e w))))"
  using refresh_call_log(3)[of locks w] refreshAuthentication_inv[of "auth_world w" locks]
  by (auto simp: on_rejected_def on_unauthorized_def Let_def clearAuthentication_inv
      split: option.splits prod.splits sum.splits RefreshOutcome.splits)

lemma on_rejected_retry:
  "on_rejected t locks config e w = (Inr c', w') \<Longrightarrow>
     authRetry c' \<and> (\<exists>c b. config = Some c \<and> may_refresh c \<and> refresh_call locks w = (Inr (Authenticated b), w'))"
  by (auto simp: on_rejected_def on_unauthorized_def may_refresh_def Let_def
      split: option.splits prod.splits sum.splits RefreshOutcome.splits if_splits)

text \<open>One request on its own: it is logged, and unless it ends in a retry the call settles.\<close>

lemma api_request_marked:
  assumes "keeps_config mergeConfig" "\<not> may_refresh c" "script \<noteq> []"
  shows "\<exists>r w'. api_request mergeConfig t script c w = Some (r, w')
    \<and> dispatched w' = dispatched w @ [attach_token (http_auth w) (mergeConfig c)]
    \<and> refreshes w' = refreshes w
    \<and> (module_inv (amod (auth_world w)) \<longrightarrow> module_inv (amod (auth_world w')))"
proof -
  obtain acts locks answer rest where s: "script = (acts, locks, answer) # rest"
    using assms(3) by (metis list.exhaust prod_cases3)
  let ?c = "attach_token (http_auth w) (mergeConfig c)"
  let ?w = "on_module (fold do_action acts) (w\<lparr>dispatched := dispatched w @ [?c]\<rparr>)"
  have nm: "\<not> may_refresh ?c" using assms(1,2) by (simp add: keeps_config_def may_refresh_def)
  have inv: "module_inv (amod (auth_world w)) \<longrightarrow> module_inv (amod (auth_world ?w))"
    by (simp add: fold_actions_inv)
  show ?thesis
  proof (cases answer)
    case (HttpResolved d)
    then show ?thesis using inv on_fulfilled_inv[of ?w t ?c d] on_fulfilled_log[of t ?c d ?w]
      by (cases "on_fulfilled t ?c d ?w") (simp add: s Let_def)
  next
    case (HttpRejected h e)
    let ?config = "if h then Some ?c else None"
    obtain r w' where r: "on_rejected t locks ?config e ?w = (r, w')" by fastforce
    obtain err where err: "r = Inl err" using on_rejected_retry[of t locks ?config e ?w] r nm
      by (cases r) (auto split: if_splits)
    have log: "dispatched w' = dispatched w @ [?c]" "refreshes w' = refreshes w"
      using on_rejected_log[of t locks ?config e ?w] nm r by (auto split: if_splits)
    have "module_inv (amod (auth_world w)) \<longrightarrow> module_inv (amod (auth_world w'))"
      using on_rejected_inv[of ?w t locks ?config e] inv r by simp
    with log show ?thesis by (simp add: s Let_def HttpRejected r err)
  qed
qed

lemma api_settles:
  assumes keeps: "keeps_config mergeConfig" and script: "2 \<le> length script"
  shows "\<exists>r w'. api_request mergeConfig t script config w = Some (r, w')
    \<and> (\<exists>cs. dispatched w' = dispatched w @ cs \<and> cs \<noteq> [] \<and> length cs \<le> (if may_refresh config then 2 else 1))
    \<and> refreshes w' \<le> refreshes w + (if may_refresh config then 1 else 0)
    \<and> (module_inv (amod (auth_world w)) \<longrightarrow> module_inv (amod (auth_world w')))"
proof (cases "may_refresh config")
  case False
  then show ?thesis using api_request_marked[OF keeps False, of script t w] script by fastforce
next
  case True
  obtain acts locks answer rest where s: "script = (acts, locks, answer) # rest" and rest: "rest \<noteq> []"
    using script by (cases script; cases "tl script") auto
  let ?c = "attach_token (http_auth w) (mergeConfig config)"
  let ?w = "on_module (fold do_action acts) (w\<lparr>dispatched := dispatched w @ [?c]\<rparr>)"
  have inv: "module_inv (amod (auth_world w)) \<longrightarrow> module_inv (amod (auth_world ?w))"
    by (simp add: fold_actions_inv)
  show ?thesis
  proof (cases answer)
    case (HttpResolved d)
    then show ?thesis using True inv on_fulfilled_inv[of ?w t ?c d] on_fulfilled_log[of t ?c d ?w]
      by (cases "on_fulfilled t ?c d ?w") (simp add: s Let_def)
  next
    case (HttpRejected h e)
    let ?config = "if h then Some ?c else None"
    obtain r w1 where r: "on_rejected t locks ?config e ?w = (r, w1)" by fastforce
    have log: "dispatched w1 = dispatched w @ [?c]" "refreshes w1 \<le> refreshes w + 1"
      using on_rejected_log[of t locks ?config e ?w] r by auto
    have inv1: "module_inv (amod (auth_world w)) \<longrightarrow> module_inv (amod (auth_world w1))"
      using on_rejected_inv[of ?w t locks ?config e] inv r by simp
    show ?thesis
    proof (cases r)
      case (Inl err)
      then show ?thesis using log inv1 True by (simp add: s Let_def HttpRejected r)
    next
      case (Inr c')
      then have "\<not> may_refresh c'"
        using on_rejected_retry[of t locks ?config e ?w c' w1] r by (simp add: may_refresh_def)
      from api_request_marked[OF keeps this rest, of t w1] obtain res w2 where
        "api_request mergeConfig t rest c' w1 = Some (res, w2)"
        "dispatched w2 = dispatched w1 @ [attach_token (http_auth w1) (mergeConfig c')]"
        "refreshes w2 = refreshes w1"
        "module_inv (amod (auth_world w1)) \<longrightarrow> module_inv (amod (auth_world w2))" by blast
      then show ?thesis using log inv1 True by (simp add: s Let_def HttpRejected r Inr)
    qed
  qed
qed

text \<open>C7. Every request settles after at most one refresh of the session and one retry: with axios
  keeping the client's flags and the transport answering each request, the call returns; it
  hands at most two requests to the transport and asks for at most one refresh, and for a
  request that is itself a retry or opts out, one request and no refresh.  The credentials of
  the store stay together throughout.\<close>

theorem request_settles_with_one_retry:
  assumes "keeps_config mergeConfig" "2 \<le> length script"
  shows "\<exists>r w'. api_request mergeConfig t script config w = Some (r, w')
    \<and> (\<exists>cs. dispatched w' = dispatched w @ cs \<and> cs \<noteq> [] \<and> length cs \<le> (if may_refresh config then 2 else 1))
    \<and> refreshes w' \<le> refreshes w + (if may_refresh config then 1 else 0)
    \<and> (module_inv (amod (auth_world w)) \<longrightarrow> module_inv (amod (auth_world w')))"
  using assms by (rule api_settles)

lemma attach_token_signed_in:
  "signed_in_with b a \<Longrightarrow> access_token b \<noteq> [] \<Longrightarrow> authorization (attach_token a c) = Some (bearer (access_token b))"
  by (simp add: attach_token_def signed_in_with_def str_truthy_def)

definition unauthorized :: "HttpAnswer \<Rightarrow> bool" where
  "unauthorized answer \<longleftrightarrow> (case answer of HttpRejected h e \<Rightarrow> h \<and> error_status e = JNum (Fin 401) | _ \<Rightarrow> False)"

text \<open>When a request is answered with 401 and the session is refreshed, the same url is
  requested once more, with the access token of the refreshed session.  If that is refused with
  401 too, the error goes to the caller and the tab is signed out and sent to the sign-in page,
  without an event for the other tabs; any other response is the caller's response.\<close>

lemma retry_after_refresh:
  assumes keeps: "keeps_config mergeConfig" and may: "may_refresh config"
    and first: "unauthorized answer1"
    and fresh: "refresh_call locks1 (on_module (fold do_action acts1)
        (w\<lparr>dispatched := dispatched w @ [attach_token (http_auth w) (mergeConfig config)]\<rparr>))
        = (Inr (Authenticated b), w1)"
    and result: "api_request mergeConfig t ((acts1, locks1, answer1) # (acts2, locks2, answer2) # script) config w
        = Some (r, w')"
  shows "\<exists>c. dispatched w' = dispatched w @ [attach_token (http_auth w) (mergeConfig config), c]
    \<and> req_url c = req_url config \<and> authorization c = Some (bearer (access_token b)) \<and> authRetry c
    \<and> (\<forall>data. answer2 = HttpResolved data \<and> \<not> acceptAuthRotation config \<longrightarrow> r = Inr data)
    \<and> (\<forall>e. unauthorized answer2 \<and> answer2 = HttpRejected True e \<longrightarrow>
         r = Inl (AxiosFailure e) \<and> signed_out (http_auth w')
         \<and> published (amod (auth_world w')) = published (fold do_action acts2 (amod (auth_world w1)))
         \<and> navigations w' = navigations w1 @ (if pathname w1 = js ''/sign-in'' then [] else [js ''/sign-in'']))"
proof -
  let ?c1 = "attach_token (http_auth w) (mergeConfig config)"
  let ?v = "on_module (fold do_action acts1) (w\<lparr>dispatched := dispatched w @ [?c1]\<rparr>)"
  let ?c = "attach_token (http_auth w1) (?c1\<lparr>authRetry := True\<rparr>)"
  let ?c2 = "attach_token (http_auth w1) (mergeConfig ?c)"
  let ?v2 = "on_module (fold do_action acts2) (w1\<lparr>dispatched := dispatched w1 @ [?c2]\<rparr>)"
  obtain e1 where a1: "answer1 = HttpRejected True e1" "error_status e1 = JNum (Fin 401)"
    using first by (auto simp: unauthorized_def split: HttpAnswer.splits)
  have "may_refresh ?c1" using keeps may by (simp add: keeps_config_def may_refresh_def)
  then have rej: "on_rejected t locks1 (Some ?c1) e1 ?v = (Inr ?c, w1)"
    using fresh by (simp add: on_rejected_def a1 on_unauthorized_def may_refresh_def Let_def)
  have run: "api_request mergeConfig t ((acts2, locks2, answer2) # script) ?c w1 = Some (r, w')"
    using result by (simp add: a1 Let_def rej)
  have store: "signed_in_with b (http_auth w1)" "access_token b \<noteq> []"
    using fresh refresh_authenticated_token[of locks1 "auth_world ?v" b "auth_world w1"]
    by (auto simp: refresh_call_def http_auth_def split: prod.splits)
  have c2: "req_url ?c2 = req_url config" "authRetry ?c2" "acceptAuthRotation ?c2 = acceptAuthRotation config"
    using keeps by (simp_all add: keeps_config_def)
  have tok: "authorization ?c2 = Some (bearer (access_token b))"
    using store by (simp add: attach_token_signed_in)
  have log: "dispatched w' = dispatched w @ [?c1, ?c2]"
    using api_request_marked[OF keeps, of ?c "(acts2, locks2, answer2) # script" t w1] run
      refresh_call_log(1)[of locks1 ?v] fresh by (auto simp: may_refresh_def)
  have ok: "r = Inr data" if "answer2 = HttpResolved data" "\<not> acceptAuthRotation config" for data
    using run that c2(3) by (auto simp: Let_def on_fulfilled_def)
  have refused: "r = Inl (AxiosFailure e) \<and> w' = redirectToSignIn (session_expired t (skipErrorHandler ?c2)
      (on_module (clearAuthentication False None) ?v2))"
    if "answer2 = HttpRejected True e" "error_status e = JNum (Fin 401)" for e
    using run that c2(2) by (auto simp: Let_def on_rejected_def on_unauthorized_def)
  have out: "signed_out (http_auth w')
      \<and> published (amod (auth_world w')) = published (fold do_action acts2 (amod (auth_world w1)))
      \<and> navigations w' = navigations w1 @ (if pathname w1 = js ''/sign-in'' then [] else [js ''/sign-in''])"
    if "w' = redirectToSignIn (session_expired t k (on_module (clearAuthentication False None) ?v2))" for k
    unfolding that
    by (simp add: http_auth_def signed_out_def reset_def http_effects) (simp add: clearAuthentication_def Let_def)
  show ?thesis
    using log c2 tok ok refused out by (auto simp: unauthorized_def intro!: exI[of _ ?c2])
qed

text \<open>A tab whose token the server refuses, and the answer that renews its session.\<close>

definition renewal :: jval where
  "renewal = JObj [(js ''success'', JBool True), (js ''data'', JObj [
     (js ''access_token'', JStr (js ''tok2'')), (js ''token_type'', JStr (js ''Bearer'')),
     (js ''access_expires_at'', JNum (Fin 3000)),
     (js ''user'', JObj [(js ''id'', JNum (Fin 1)), (js ''username'', JStr (js ''root'')), (js ''role'', JNum (Fin 100))]),
     (js ''session'', JObj [(js ''sid'', JStr (js ''s1'')), (js ''current'', JBool True),
       (js ''login_method'', JStr (js ''password'')), (js ''ip'', JStr (js ''::1'')), (js ''user_agent'', JStr []),
       (js ''created_at'', JNum (Fin 1)), (js ''last_active_at'', JNum (Fin 1)), (js ''expires_at'', JNum (Fin 9))])])]"

definition refused_answer :: jval where
  "refused_answer = JObj [(js ''response'', JObj [(js ''status'', JNum (Fin 401))])]"

definition sample_config :: ApiRequestConfig where
  "sample_config = \<lparr>req_url = js ''/api/user/self'', authorization = None, skipBusinessError = False,
     skipErrorHandler = False, skipAuthRefresh = False, authRetry = False, acceptAuthRotation = False\<rparr>"

definition sample_http :: HttpWorld where
  "sample_http = \<lparr>auth_world = \<lparr>amod = sample_module (js ''a''), network = [([], AxiosResolved 200 renewal)],
       pauses = [], sent = []\<rparr>,
     toasts = [], pathname = js ''/console'', navigations = [], dispatched = [], refreshes = 0\<rparr>"

lemma renewal_valid: "isAuthBundle (jget renewal (js ''data''))"
  by (simp add: renewal_def isAuthBundle_def hasValidTokenFields_def isAuthUser_def isLoginSession_def)

lemma sample_refresh:
  "fst (refresh_call NoLocks (sample_http\<lparr>dispatched := cs\<rparr>))
     = Inr (Authenticated (bundle_of (jget renewal (js ''data''))))"
proof -
  have r: "response_data \<lparr>status = 200, resp_data = renewal, resp_error = JUndefined\<rparr> = renewal"
    "jget renewal (js ''success'') = JBool True"
    by (simp_all add: response_data_def renewal_def)
  show ?thesis
    by (simp add: refresh_call_def sample_http_def refreshAuthentication_def performRefreshWithBrowserLock_def
        runRefresh_def createRefreshRunner_def run.simps superseded_def refreshRuntime_def world_request_def
        Let_def split_beta r renewal_valid)
qed

theorem request_settles_with_one_retry_witness:
  "keeps_config id \<and> (\<exists>r w'. api_request id (\<lambda>k. JNull) (replicate 2 ([], NoLocks, HttpRejected True refused_answer))
       sample_config sample_http = Some (r, w')
     \<and> (\<exists>cs. dispatched w' = dispatched sample_http @ cs \<and> cs \<noteq> []
          \<and> length cs \<le> (if may_refresh sample_config then 2 else 1)))"
proof -
  have k: "keeps_config id" by (simp add: keeps_config_def)
  show ?thesis
    using k request_settles_with_one_retry[OF k,
        of "replicate 2 ([], NoLocks, HttpRejected True refused_answer)" "\<lambda>k. JNull" sample_config sample_http]
    by auto
qed

end
