(* ===== verification/Js_Regex.thy ===== *)
theory Js_Regex
  imports Js_Prelude
begin

text \<open>
  Regular expressions of JavaScript, as far as the console uses them: an ordered backtracking matcher
  with captures and back references.  \<open>run inp r (s, c)\<close> lists the ways in which \<open>r\<close> matches at the
  beginning of the suffix \<open>s\<close> of the input \<open>inp\<close>, in the order in which the specification of the
  language tries them; each way is given by the rest of the input and the captures.  The first
  one is the match.  The lemmas compute the match of a pattern on a printed text: a class of
  characters is left exactly where the printed text leaves it, provided what follows in the
  pattern cannot begin with a character of the class.
\<close>

section \<open>Patterns and their matches\<close>

datatype regex =
    RLit jstr
  | RClass "code_unit \<Rightarrow> bool"
  | RSeq regex regex
  | RAlt regex regex
  | RStar regex
  | ROpt regex
  | RGroup nat regex
  | RBackref nat
  | RStart
  | REnd
  | RBoundary

type_synonym captures = "nat \<Rightarrow> jstr option"
type_synonym rstate = "jstr \<times> captures"

abbreviation RPlus :: "regex \<Rightarrow> regex" where
  "RPlus r \<equiv> RSeq r (RStar r)"

fun rseq :: "regex list \<Rightarrow> regex" where
  "rseq [] = RLit []"
| "rseq [r] = r"
| "rseq (r # s # rs) = RSeq r (rseq (s # rs))"

fun ralt :: "regex list \<Rightarrow> regex" where
  "ralt [] = RClass (\<lambda>_. False)"
| "ralt [r] = r"
| "ralt (r # s # rs) = RAlt r (ralt (s # rs))"

definition lit :: "string \<Rightarrow> regex" where
  "lit s = RLit (js s)"

text \<open>A repetition is greedy, and a round that consumes nothing is refused, so the length of the rest
  bounds the number of rounds.\<close>

primrec star_run :: "nat \<Rightarrow> (rstate \<Rightarrow> rstate list) \<Rightarrow> rstate \<Rightarrow> rstate list" where
  "star_run 0 f st = [st]"
| "star_run (Suc n) f st = concat (map (star_run n f) (filter (\<lambda>t. length (fst t) < length (fst st)) (f st))) @ [st]"

definition is_word :: "code_unit \<Rightarrow> bool" where
  "is_word x \<longleftrightarrow> is_digit x \<or> 65 \<le> x \<and> x \<le> 90 \<or> 97 \<le> x \<and> x \<le> 122 \<or> x = 95"

text \<open>At a suffix of the input: does exactly one of its two neighbours belong to a word?\<close>

definition at_boundary :: "jstr \<Rightarrow> jstr \<Rightarrow> bool" where
  "at_boundary inp s \<longleftrightarrow>
     (length s < length inp \<and> is_word (inp ! (length inp - length s - 1))) \<noteq> (s \<noteq> [] \<and> is_word (hd s))"

definition after_prefix :: "jstr \<Rightarrow> rstate \<Rightarrow> rstate list" where
  "after_prefix l st = (if take (length l) (fst st) = l then [(drop (length l) (fst st), snd st)] else [])"

primrec run :: "jstr \<Rightarrow> regex \<Rightarrow> rstate \<Rightarrow> rstate list" where
  "run inp (RLit l) st = after_prefix l st"
| "run inp (RClass P) st = (case fst st of [] \<Rightarrow> [] | x # s \<Rightarrow> if P x then [(s, snd st)] else [])"
| "run inp (RSeq a b) st = concat (map (run inp b) (run inp a st))"
| "run inp (RAlt a b) st = run inp a st @ run inp b st"
| "run inp (RStar a) st = star_run (length (fst st)) (run inp a) st"
| "run inp (ROpt a) st = filter (\<lambda>t. length (fst t) < length (fst st)) (run inp a st) @ [st]"
| "run inp (RGroup n a) st =
     map (\<lambda>t. (fst t, (snd t)(n \<mapsto> take (length (fst st) - length (fst t)) (fst st)))) (run inp a st)"
| "run inp (RBackref n) st = (case snd st n of None \<Rightarrow> [st] | Some l \<Rightarrow> after_prefix l st)"
| "run inp RStart st = (if length (fst st) = length inp then [st] else [])"
| "run inp REnd st = (if fst st = [] then [st] else [])"
| "run inp RBoundary st = (if at_boundary inp (fst st) then [st] else [])"

text \<open>The match at a suffix, the first match at or after it, and the matches of a global pattern, one after
  the other.  A match carries its text, the rest of the input and its captures; a pattern that matches
  the empty text does not occur.\<close>

record rmatch =
  matched_text :: jstr
  match_rest :: jstr
  match_caps :: captures

definition match_at :: "jstr \<Rightarrow> regex \<Rightarrow> jstr \<Rightarrow> rmatch option" where
  "match_at inp r s = (case run inp r (s, Map.empty) of [] \<Rightarrow> None
     | (t, c) # _ \<Rightarrow> Some \<lparr>matched_text = take (length s - length t) s, match_rest = t, match_caps = c\<rparr>)"

fun exec_from :: "jstr \<Rightarrow> regex \<Rightarrow> jstr \<Rightarrow> rmatch option" where
  "exec_from inp r [] = match_at inp r []"
| "exec_from inp r (x # s) = (case match_at inp r (x # s) of Some m \<Rightarrow> Some m | None \<Rightarrow> exec_from inp r s)"

function match_all :: "jstr \<Rightarrow> regex \<Rightarrow> jstr \<Rightarrow> rmatch list" where
  "match_all inp r s = (case exec_from inp r s of None \<Rightarrow> []
     | Some m \<Rightarrow> if length (match_rest m) < length s then m # match_all inp r (match_rest m) else [m])"
  by pat_completeness auto
termination by (relation "measure (\<lambda>(inp, r, s). length s)") auto

definition regex_match :: "regex \<Rightarrow> jstr \<Rightarrow> captures option" where
  "regex_match r s = map_option match_caps (exec_from s r s)"

definition regex_test :: "regex \<Rightarrow> jstr \<Rightarrow> bool" where
  "regex_test r s \<longleftrightarrow> exec_from s r s \<noteq> None"

text \<open>The text of a capture, which is the empty text where the source writes \<open>m[i] || ''\<close>.\<close>

definition cap :: "captures \<Rightarrow> nat \<Rightarrow> jstr" where
  "cap c n = (case c n of None \<Rightarrow> [] | Some t \<Rightarrow> t)"

declare match_all.simps [simp del]

section \<open>What a match consumes\<close>

lemma after_prefix_hit [simp]: "after_prefix l (l @ s, c) = [(s, c)]"
  by (simp add: after_prefix_def)

lemma run_lit_hit [simp]: "run inp (RSeq (RLit l) r) (l @ s, c) = run inp r (s, c)"
  by simp

lemma star_run_split:
  assumes "\<And>st t. t \<in> set (f st) \<Longrightarrow> \<exists>m. fst st = m @ fst t \<and> list_all P m"
  shows "t \<in> set (star_run n f st) \<Longrightarrow> \<exists>m. fst st = m @ fst t \<and> list_all P m"
proof (induction n arbitrary: st)
  case (Suc n)
  show ?case
  proof (cases "t = st")
    case False
    with Suc.prems obtain u where u: "u \<in> set (f st)" "t \<in> set (star_run n f u)" by auto
    obtain m where "fst st = m @ fst u" "list_all P m" using assms[OF u(1)] by blast
    moreover obtain m' where "fst u = m' @ fst t" "list_all P m'" using Suc.IH[OF u(2)] by blast
    ultimately show ?thesis by (intro exI[of _ "m @ m'"]) simp
  qed (auto intro: exI[of _ "[]"])
qed (auto intro: exI[of _ "[]"])

text \<open>The characters a pattern can consume.\<close>

primrec chars_in :: "(code_unit \<Rightarrow> bool) \<Rightarrow> regex \<Rightarrow> bool" where
  "chars_in P (RLit l) = list_all P l"
| "chars_in P (RClass Q) = (\<forall>x. Q x \<longrightarrow> P x)"
| "chars_in P (RSeq a b) = (chars_in P a \<and> chars_in P b)"
| "chars_in P (RAlt a b) = (chars_in P a \<and> chars_in P b)"
| "chars_in P (RStar a) = chars_in P a"
| "chars_in P (ROpt a) = chars_in P a"
| "chars_in P (RGroup n a) = chars_in P a"
| "chars_in P (RBackref n) = (\<forall>x. P x)"
| "chars_in P RStart = True"
| "chars_in P REnd = True"
| "chars_in P RBoundary = True"

lemma after_prefix_split: "t \<in> set (after_prefix l st) \<Longrightarrow> fst st = l @ fst t"
  by (auto simp: after_prefix_def split: if_splits) (metis append_take_drop_id)

lemma run_consumes:
  "chars_in P r \<Longrightarrow> t \<in> set (run inp r st) \<Longrightarrow> \<exists>m. fst st = m @ fst t \<and> list_all P m"
proof (induction r arbitrary: st t)
  case (RSeq a b)
  then obtain u where u: "u \<in> set (run inp a st)" "t \<in> set (run inp b u)" by auto
  obtain m where "fst st = m @ fst u" "list_all P m" using RSeq.IH(1)[OF _ u(1)] RSeq.prems by auto
  moreover obtain m' where "fst u = m' @ fst t" "list_all P m'" using RSeq.IH(2)[OF _ u(2)] RSeq.prems by auto
  ultimately show ?case by (intro exI[of _ "m @ m'"]) simp
next
  case (RStar a)
  then show ?case using star_run_split[of "run inp a" P t] by (metis chars_in.simps(5) run.simps(5))
next
  case (RClass Q)
  then show ?case by (cases "fst st") (auto split: if_splits intro: exI[of _ "[x]" for x])
next
  case (RLit l)
  then show ?case by (auto dest: after_prefix_split)
next
  case (RGroup n a)
  then obtain u where "u \<in> set (run inp a st)" "fst t = fst u" by auto
  with RGroup show ?case by auto
next
  case (RBackref n)
  then show ?case by (auto split: option.splits dest: after_prefix_split simp: list_all_iff)
qed (auto split: if_splits)

section \<open>Classes of characters\<close>

text \<open>A pattern that fails wherever the next character is in a class.\<close>

definition fails_on :: "(code_unit \<Rightarrow> bool) \<Rightarrow> regex \<Rightarrow> bool" where
  "fails_on P r \<longleftrightarrow> (\<forall>inp x s c. P x \<longrightarrow> run inp r (x # s, c) = [])"

named_theorems regex_fail \<open>where a pattern cannot begin\<close>

lemma fails_on_lit [regex_fail]: "l \<noteq> [] \<Longrightarrow> \<not> P (hd l) \<Longrightarrow> fails_on P (RLit l)"
  by (cases l) (auto simp: fails_on_def after_prefix_def)

lemma fails_on_class [regex_fail]: "(\<And>x. P x \<Longrightarrow> \<not> Q x) \<Longrightarrow> fails_on P (RClass Q)"
  by (simp add: fails_on_def)

lemma fails_on_seq [regex_fail]: "fails_on P a \<Longrightarrow> fails_on P (RSeq a b)"
  by (simp add: fails_on_def)

lemma fails_on_alt [regex_fail]: "fails_on P a \<Longrightarrow> fails_on P b \<Longrightarrow> fails_on P (RAlt a b)"
  by (simp add: fails_on_def)

lemma fails_on_group [regex_fail]: "fails_on P a \<Longrightarrow> fails_on P (RGroup n a)"
  by (simp add: fails_on_def)

lemma fails_on_end [regex_fail]: "fails_on P REnd"
  by (simp add: fails_on_def)

lemma fails_on_opt_seq [regex_fail]: "fails_on P a \<Longrightarrow> fails_on P b \<Longrightarrow> fails_on P (RSeq (ROpt a) b)"
  by (simp add: fails_on_def)

lemma fails_on_star_seq [regex_fail]: "fails_on P a \<Longrightarrow> fails_on P b \<Longrightarrow> fails_on P (RSeq (RStar a) b)"
  by (simp add: fails_on_def)

lemma fails_onD: "fails_on P r \<Longrightarrow> P x \<Longrightarrow> run inp r (x # s, c) = []"
  by (simp add: fails_on_def)

text \<open>A greedy repetition of a class tries the longest run of the class first and then gives back
  one character after the other.\<close>

lemma star_class_step:
  assumes "length s < n"
  shows "star_run n (run inp (RClass P)) (x # s, c)
    = (if P x then star_run (n - 1) (run inp (RClass P)) (s, c) else []) @ [(x # s, c)]"
  using assms by (cases n) auto

primrec give_back :: "jstr \<Rightarrow> jstr \<Rightarrow> jstr list" where
  "give_back [] u = [u]"
| "give_back (x # m) u = give_back m u @ [x # m @ u]"

lemma star_class_append:
  "list_all P m \<Longrightarrow> length (m @ u) \<le> n \<Longrightarrow> u = [] \<or> \<not> P (hd u) \<Longrightarrow>
     star_run n (run inp (RClass P)) (m @ u, c) = map (\<lambda>s. (s, c)) (give_back m u)"
proof (induction m arbitrary: n)
  case Nil
  then show ?case by (cases n; cases u) auto
next
  case (Cons x m)
  then have "star_run n (run inp (RClass P)) ((x # m) @ u, c)
      = star_run (n - 1) (run inp (RClass P)) (m @ u, c) @ [(x # m @ u, c)]"
    using star_class_step[of "m @ u" n inp P x c] by simp
  also have "star_run (n - 1) (run inp (RClass P)) (m @ u, c) = map (\<lambda>s. (s, c)) (give_back m u)"
    using Cons by (intro Cons.IH) auto
  finally show ?case by simp
qed

lemma give_back_first:
  obtains rest where "give_back m u = u # rest" "\<And>s. s \<in> set rest \<Longrightarrow> \<exists>x v. s = x # v \<and> x \<in> set m"
proof -
  have "\<exists>rest. give_back m u = u # rest \<and> (\<forall>s \<in> set rest. \<exists>x \<in> set m. \<exists>v. s = x # v)"
  proof (induction m)
    case (Cons a m)
    then obtain rest where "give_back m u = u # rest" "\<forall>s \<in> set rest. \<exists>x \<in> set m. \<exists>v. s = x # v" by blast
    then show ?case by (intro exI[of _ "rest @ [a # m @ u]"]) auto
  qed simp
  then show thesis using that by metis
qed

text \<open>Leaving a class: what follows cannot begin with a character of the class, so only the longest
  run counts.\<close>

lemma concat_map_only_first:
  assumes "\<And>y. y \<in> set ys \<Longrightarrow> f y = []"
  shows "concat (map f (x # ys)) = f x"
  using assms by simp

definition stops :: "(code_unit \<Rightarrow> bool) \<Rightarrow> jstr \<Rightarrow> bool" where
  "stops P u \<longleftrightarrow> u = [] \<or> \<not> P (hd u)"

lemma stops_simps [simp]: "stops P []" "stops P (x # u) \<longleftrightarrow> \<not> P x" "a \<noteq> [] \<Longrightarrow> stops P (a @ u) \<longleftrightarrow> \<not> P (hd a)"
  by (auto simp: stops_def)

lemma star_class_run:
  assumes "list_all P m" "stops P u"
  shows "run inp (RStar (RClass P)) (m @ u, c) = map (\<lambda>s. (s, c)) (give_back m u)"
  using star_class_append[OF assms(1) order_refl, of u inp c] assms(2) by (simp add: stops_def del: run.simps(2))

lemma skip_star:
  assumes "list_all P m" "stops P u" "fails_on P r"
  shows "run inp (RSeq (RStar (RClass P)) r) (m @ u, c) = run inp r (u, c)"
proof -
  obtain rest where g: "give_back m u = u # rest" and r: "\<And>s. s \<in> set rest \<Longrightarrow> \<exists>x v. s = x # v \<and> x \<in> set m"
    using give_back_first by blast
  have "run inp r (s, c) = []" if "s \<in> set rest" for s
    using r[OF that] assms(1,3) by (auto simp: list_all_iff dest: fails_onD)
  then show ?thesis using star_class_run[OF assms(1,2), of inp c] g by (simp del: run.simps(5))
qed

lemma cap_star:
  assumes "list_all P m" "stops P u" "fails_on P r"
  shows "run inp (RSeq (RGroup n (RStar (RClass P))) r) (m @ u, c) = run inp r (u, c(n \<mapsto> m))"
proof -
  obtain rest where g: "give_back m u = u # rest" and r: "\<And>s. s \<in> set rest \<Longrightarrow> \<exists>x v. s = x # v \<and> x \<in> set m"
    using give_back_first by blast
  have "run inp r (s, d) = []" if "s \<in> set rest" for s d
    using r[OF that] assms(1,3) by (auto simp: list_all_iff dest: fails_onD)
  then show ?thesis using star_class_run[OF assms(1,2), of inp c] g by (simp add: comp_def del: run.simps(5))
qed

lemma plus_class_run:
  assumes "list_all P m" "m \<noteq> []"
  shows "run inp (RPlus (RClass P)) (m @ u, c) = run inp (RStar (RClass P)) (tl m @ u, c)"
  using assms by (cases m) (simp_all del: run.simps(5))

lemma cap_plus:
  assumes "list_all P m" "m \<noteq> []" "stops P u" "fails_on P r"
  shows "run inp (RSeq (RGroup n (RPlus (RClass P))) r) (m @ u, c) = run inp r (u, c(n \<mapsto> m))"
proof -
  have t: "list_all P (tl m)" using assms(1) by (cases m) auto
  obtain rest where g: "give_back (tl m) u = u # rest" and r: "\<And>s. s \<in> set rest \<Longrightarrow> \<exists>x v. s = x # v \<and> x \<in> set (tl m)"
    using give_back_first by blast
  have "run inp r (s, d) = []" if "s \<in> set rest" for s d
    using r[OF that] t assms(4) by (auto simp: list_all_iff dest: fails_onD)
  moreover have "run inp (RGroup n (RPlus (RClass P))) (m @ u, c)
      = map (\<lambda>s. (s, c(n \<mapsto> take (length (m @ u) - length s) (m @ u)))) (u # rest)"
    using plus_class_run[OF assms(1,2), of inp u c] star_class_run[OF t assms(3), of inp c] g
    by (simp add: comp_def del: run.simps(3,5))
  ultimately show ?thesis by (simp del: run.simps(7))
qed

section \<open>The greedy wild card\<close>

lemma give_back_suffix: "s \<in> set (give_back m u) \<Longrightarrow> suffix s (m @ u)"
  by (induction m) (auto simp: suffix_Cons)

lemma give_back_at:
  obtains front rest where "give_back (a @ u) [] = front @ u # rest" "\<And>s. s \<in> set front \<Longrightarrow> strict_suffix s u"
proof -
  have "\<exists>front rest. give_back (a @ u) [] = front @ u # rest \<and> (\<forall>s \<in> set front. strict_suffix s u)"
  proof (induction a)
    case Nil
    show ?case
    proof (cases u)
      case (Cons x v)
      then have "\<forall>s \<in> set (give_back v []). strict_suffix s u"
        by (auto dest!: give_back_suffix simp: strict_suffix_def suffix_def)
      then show ?thesis using Cons by (intro exI[of _ "give_back v []"] exI[of _ "[]"]) simp
    qed simp
  next
    case (Cons x a)
    then obtain front rest where "give_back (a @ u) [] = front @ u # rest" "\<forall>s \<in> set front. strict_suffix s u" by blast
    then show ?case by (intro exI[of _ front] exI[of _ "rest @ [x # a @ u]"]) simp
  qed
  then show thesis using that by metis
qed

text \<open>\<open>(.+)\<close> with the flag \<open>s\<close>: the capture ends at the last place where the rest of the pattern matches.\<close>

abbreviation any_char :: "code_unit \<Rightarrow> bool" where
  "any_char \<equiv> \<lambda>_. True"

lemma greedy_cap:
  assumes "m \<noteq> []" "\<And>v d. strict_suffix v u \<Longrightarrow> run inp r (v, d) = []"
  obtains more where "run inp (RSeq (RGroup n (RPlus (RClass any_char))) r) (m @ u, c) = run inp r (u, c(n \<mapsto> m)) @ more"
proof -
  obtain front rest where g: "give_back (tl m @ u) [] = front @ u # rest"
    and f: "\<And>s. s \<in> set front \<Longrightarrow> strict_suffix s u" using give_back_at by blast
  let ?st = "\<lambda>s. (s, c(n \<mapsto> take (length (m @ u) - length s) (m @ u)))"
  have all: "list_all any_char x" for x by (simp add: list_all_iff)
  have "run inp (RGroup n (RPlus (RClass any_char))) (m @ u, c) = map ?st (front @ u # rest)"
    using plus_class_run[OF all, of m inp u c] star_class_run[OF all, where m = "tl m @ u" and u = "[]" and inp = inp and c = c]
      g assms(1) by (simp add: comp_def del: run.simps(3,5))
  moreover have "concat (map (run inp r) (map ?st front)) = []"
    using assms(2) f by (auto simp: concat_eq_Nil_conv)
  ultimately have "run inp (RSeq (RGroup n (RPlus (RClass any_char))) r) (m @ u, c)
      = run inp r (u, c(n \<mapsto> m)) @ concat (map (run inp r) (map ?st rest))" by (simp del: run.simps(7))
  then show thesis by (rule that)
qed

section \<open>Quoted texts\<close>

text \<open>The pattern of a JSON string: quotes around characters other than the quote and the backslash, or
  a backslash and a character.  On a text without backslashes the second case is idle.\<close>

definition line_end :: "code_unit \<Rightarrow> bool" where
  "line_end x \<longleftrightarrow> x \<in> {10, 13, 8232, 8233}"

abbreviation plain_char :: "code_unit \<Rightarrow> bool" where
  "plain_char \<equiv> \<lambda>x. x \<noteq> 34 \<and> x \<noteq> 92"

definition json_string :: regex where
  "json_string = rseq [RLit [34],
     RStar (RAlt (RClass plain_char) (RSeq (RLit [92]) (RClass (\<lambda>x. \<not> line_end x)))), RLit [34]]"

lemma star_run_cong:
  assumes "\<And>st. K (fst st) \<Longrightarrow> f st = g st" "\<And>st t. K (fst st) \<Longrightarrow> t \<in> set (g st) \<Longrightarrow> K (fst t)"
  shows "K (fst st) \<Longrightarrow> star_run n f st = star_run n g st"
proof (induction n arbitrary: st)
  case (Suc n)
  have "map (star_run n f) (filter (\<lambda>t. length (fst t) < length (fst st)) (g st))
      = map (star_run n g) (filter (\<lambda>t. length (fst t) < length (fst st)) (g st))"
    using Suc assms(2) by (intro map_cong) auto
  then show ?case unfolding star_run.simps assms(1)[OF Suc.prems] by (rule arg_cong)
qed simp

lemma string_body_run:
  assumes "92 \<notin> set s"
  shows "run inp (RStar (RAlt (RClass plain_char) (RSeq (RLit [92]) r))) (s, c) = run inp (RStar (RClass plain_char)) (s, c)"
proof -
  have "star_run n (run inp (RAlt (RClass plain_char) (RSeq (RLit [92]) r))) (s, c)
      = star_run n (run inp (RClass plain_char)) (s, c)" for n
  proof (rule star_run_cong[where K = "\<lambda>s. 92 \<notin> set s"])
    show "run inp (RAlt (RClass plain_char) (RSeq (RLit [92]) r)) st = run inp (RClass plain_char) st"
      if "92 \<notin> set (fst st)" for st
      using that by (cases "fst st") (auto simp: after_prefix_def)
    show "92 \<notin> set (fst t)" if "92 \<notin> set (fst st)" "t \<in> set (run inp (RClass plain_char) st)" for st t
      using that by (cases "fst st") (auto split: if_splits)
  qed (use assms in simp)
  then show ?thesis by (simp del: run.simps(2,4))
qed

lemma cap_json_string:
  assumes "list_all plain_char m" "92 \<notin> set u"
  shows "run inp (RSeq (RGroup n json_string) r) (34 # m @ 34 # u, c) = run inp r (u, c(n \<mapsto> 34 # m @ [34]))"
proof -
  have 92: "92 \<notin> set (m @ 34 # u)" using assms by (auto simp: list_all_iff)
  have "fails_on plain_char (RLit [34])" by (intro regex_fail) auto
  from skip_star[OF assms(1) _ this, of "34 # u" inp c]
  have "run inp (RSeq (RStar (RClass plain_char)) (RLit [34])) (m @ 34 # u, c) = [(u, c)]"
    by (simp add: after_prefix_def del: run.simps(2,3,5))
  then have "run inp json_string (34 # m @ 34 # u, c) = [(u, c)]"
    using string_body_run[OF 92] by (simp add: json_string_def after_prefix_def del: run.simps(2,5))
  then show ?thesis by simp
qed

section \<open>Anchored patterns\<close>

lemma anchored_nowhere_else: "length s < length inp \<Longrightarrow> exec_from inp (RSeq RStart r) s = None"
  by (induction s) (simp_all add: match_at_def)

lemma anchored_exec: "exec_from s (RSeq RStart r) s = match_at s (RSeq RStart r) s"
  by (cases s) (auto simp: anchored_nowhere_else split: option.split)

lemma regex_match_anchored:
  "regex_match (RSeq RStart r) s = (case run s r (s, Map.empty) of [] \<Rightarrow> None | st # _ \<Rightarrow> Some (snd st))"
  by (auto simp: regex_match_def anchored_exec match_at_def split: list.split prod.split)

lemma regex_match_hit: "run s r (s, Map.empty) = st # sts \<Longrightarrow> regex_match (RSeq RStart r) s = Some (snd st)"
  by (simp add: regex_match_anchored)

lemma regex_match_miss: "run s r (s, Map.empty) = [] \<Longrightarrow> regex_match (RSeq RStart r) s = None"
  by (simp add: regex_match_anchored)

lemma regex_test_anchored: "regex_test (RSeq RStart r) s \<longleftrightarrow> run s r (s, Map.empty) \<noteq> []"
proof -
  have "run s (RSeq RStart r) (s, Map.empty) = run s r (s, Map.empty)" by simp
  then show ?thesis by (auto simp: regex_test_def anchored_exec match_at_def simp del: run.simps split: list.split)
qed

text \<open>A text that passes an anchored test consists of characters the pattern can consume.\<close>

lemma anchored_test_chars:
  assumes "regex_test (RSeq RStart (RSeq r REnd)) s" "chars_in P r"
  shows "list_all P s"
proof -
  from assms(1) obtain t where t: "t \<in> set (run s r (s, Map.empty))" "run s REnd t \<noteq> []"
    by (auto simp: regex_test_anchored simp del: run.simps(10))
  then have "fst t = []" by (simp split: if_splits)
  with t run_consumes[OF assms(2), of t s "(s, Map.empty)"] show ?thesis by auto
qed

lemma anchored_test_nonempty:
  assumes "regex_test (RSeq RStart (RSeq r REnd)) s" "run [] r ([], Map.empty) = []"
  shows "s \<noteq> []"
  using assms by (auto simp: regex_test_anchored)

section \<open>The first way to match\<close>

text \<open>\<open>leads inp r st st'\<close>: of the ways in which \<open>r\<close> matches at \<open>st\<close>, the first one ends at \<open>st'\<close>.  A pattern whose
  parts lead from state to state leads from the first state to the last one, whatever the later
  ways of the parts are.\<close>

definition leads :: "jstr \<Rightarrow> regex \<Rightarrow> rstate \<Rightarrow> rstate \<Rightarrow> bool" where
  "leads inp r st st' \<longleftrightarrow> (\<exists>others. run inp r st = st' # others)"

named_theorems regex_leads \<open>the first way to match\<close>

lemma leadsI: "run inp r st = st' # others \<Longrightarrow> leads inp r st st'"
  by (auto simp: leads_def)

lemma leads_seq: "leads inp a st st' \<Longrightarrow> leads inp b st' st'' \<Longrightarrow> leads inp (RSeq a b) st st''"
  by (auto simp: leads_def)

lemma leads_seq_late:
  assumes "run inp a st = early @ st' # others" "\<And>t. t \<in> set early \<Longrightarrow> run inp b t = []" "leads inp b st' st''"
  shows "leads inp (RSeq a b) st st''"
proof -
  obtain others' where b: "run inp b st' = st'' # others'" using assms(3) by (auto simp: leads_def)
  have "concat (map (run inp b) early) = []" using assms(2) by (simp add: concat_eq_Nil_conv)
  then have "run inp (RSeq a b) st = st'' # others' @ concat (map (run inp b) others)" using assms(1) b
    by (simp del: concat_eq_Nil_conv)
  then show ?thesis by (rule leadsI)
qed

lemma leads_lit [regex_leads]: "leads inp (RLit l) (l @ s, c) (s, c)"
  by (simp add: leads_def)

lemma leads_star_class: "list_all P m \<Longrightarrow> stops P u \<Longrightarrow> leads inp (RStar (RClass P)) (m @ u, c) (u, c)"
  by (rule give_back_first[of m u]) (auto simp: leads_def star_class_run simp del: run.simps)

lemma leads_plus_class: "list_all P m \<Longrightarrow> m \<noteq> [] \<Longrightarrow> stops P u \<Longrightarrow> leads inp (RPlus (RClass P)) (m @ u, c) (u, c)"
  using leads_star_class[of P "tl m" u inp c] plus_class_run[of P m inp u c]
  by (auto simp: leads_def list_all_iff dest: list.set_sel(2) simp del: run.simps)

lemma leads_group: "leads inp a (m @ u, c) (u, d) \<Longrightarrow> leads inp (RGroup n a) (m @ u, c) (u, d(n \<mapsto> m))"
  by (auto simp: leads_def)

lemma leads_opt: "leads inp a (s, c) (u, d) \<Longrightarrow> length u < length s \<Longrightarrow> leads inp (ROpt a) (s, c) (u, d)"
  by (auto simp: leads_def)

lemma leads_opt_skip: "run inp a st = [] \<Longrightarrow> leads inp (ROpt a) st st"
  by (simp add: leads_def)

lemma leads_end: "leads inp REnd ([], c) ([], c)"
  by (simp add: leads_def)

text \<open>A repetition has as many rounds as it needs.\<close>

lemma star_run_enough: "length (fst st) \<le> n \<Longrightarrow> star_run n f st = star_run (length (fst st)) f st"
proof (induction "length (fst st)" arbitrary: st n rule: less_induct)
  case less
  show ?case
  proof (cases "length (fst st)")
    case 0
    then show ?thesis by (cases n) auto
  next
    case (Suc k)
    then obtain m where m: "n = Suc m" "k \<le> m" using less(2) by (cases n) auto
    have "map (star_run m f) (filter (\<lambda>t. length (fst t) < length (fst st)) (f st))
        = map (star_run k f) (filter (\<lambda>t. length (fst t) < length (fst st)) (f st))"
    proof (rule map_cong)
      fix t assume t: "t \<in> set (filter (\<lambda>t. length (fst t) < length (fst st)) (f st))"
      then have "length (fst t) \<le> k" using Suc by auto
      moreover have "length (fst t) < length (fst st)" using t by simp
      ultimately show "star_run m f t = star_run k f t" using less(1)[of t m] less(1)[of t k] m(2) by simp
    qed simp
    then show ?thesis unfolding Suc m(1) star_run.simps by (simp add: Suc del: map_eq_conv)
  qed
qed

lemma leads_star_stop: "run inp a st = [] \<Longrightarrow> leads inp (RStar a) st st"
  by (cases "length (fst st)") (simp_all add: leads_def)

lemma leads_star_step:
  assumes "leads inp a (s, c) (u, d)" "length u < length s" "leads inp (RStar a) (u, d) st"
  shows "leads inp (RStar a) (s, c) st"
proof -
  obtain others where a: "run inp a (s, c) = (u, d) # others" using assms(1) by (auto simp: leads_def)
  obtain k where k: "length s = Suc k" using assms(2) by (cases s) auto
  have "star_run k (run inp a) (u, d) = star_run (length u) (run inp a) (u, d)"
    using star_run_enough[of "(u, d)" k] assms(2) k by simp
  then show ?thesis using assms(2,3) a k by (auto simp: leads_def)
qed

lemma match_at_leads:
  "leads inp r (m @ u, Map.empty) (u, d) \<Longrightarrow> match_at inp r (m @ u) = Some \<lparr>matched_text = m, match_rest = u, match_caps = d\<rparr>"
  by (auto simp: leads_def match_at_def)

lemma regex_match_leads: "leads s r (s, Map.empty) (u, d) \<Longrightarrow> regex_match (RSeq RStart r) s = Some d"
  by (auto simp: leads_def regex_match_anchored)

lemma exec_from_here: "match_at inp r s = Some m \<Longrightarrow> exec_from inp r s = Some m"
  by (cases s) auto

text \<open>A match is found after a text at none of whose places the pattern matches.\<close>

lemma exec_from_skip:
  "(\<And>v w. m = v @ w \<Longrightarrow> w \<noteq> [] \<Longrightarrow> match_at inp r (w @ u) = None) \<Longrightarrow> exec_from inp r (m @ u) = exec_from inp r u"
proof (induction m)
  case (Cons x m)
  have "match_at inp r (x # m @ u) = None" using Cons.prems[of "[]" "x # m"] by simp
  moreover have "exec_from inp r (m @ u) = exec_from inp r u" using Cons.prems[of "x # v" for v] by (intro Cons.IH) auto
  ultimately show ?case by simp
qed simp

lemma match_all_hit:
  "exec_from inp r s = Some m \<Longrightarrow> length (match_rest m) < length s \<Longrightarrow> match_all inp r s = m # match_all inp r (match_rest m)"
  by (subst match_all.simps) simp

lemma match_all_miss: "exec_from inp r s = None \<Longrightarrow> match_all inp r s = []"
  by (subst match_all.simps) simp

end
