(* ===== verification/Auth_Entry.thy ===== *)
theory Auth_Entry
  imports Http_Client Js_Regex
begin

text \<open>
  Signing in (\<open>web/src/features/auth\<close>, the routes \<open>sign-in\<close>, \<open>oauth\<close> and \<open>oauth/$provider\<close>, and
  \<open>startSignIn\<close> of the public header): where a visitor goes after signing in, the target kept for the
  way through the sign-in page, and the invitation a visitor came with.  Every handler acts on a tab,
  which has its two storages, the session of \<open>Auth_Session\<close>, the language, and the list of the
  places it was sent to.

  The \<open>URL\<close> class of the browser, \<open>JSON.parse\<close>, the translations and the answers of the gateway are
  arguments.  A storage may be blocked, so that every access throws, or full, so that writing throws.
\<close>

section \<open>The tab\<close>

record WebStorage =
  stored :: "jstr \<rightharpoonup> jstr"
  storage_blocked :: bool
  storage_full :: bool

text \<open>Each operation of a storage gives \<open>None\<close> where it throws.\<close>

definition getItem :: "jstr \<Rightarrow> WebStorage \<Rightarrow> jstr option option" where
  "getItem k s = (if storage_blocked s then None else Some (stored s k))"

definition setItem :: "jstr \<Rightarrow> jstr \<Rightarrow> WebStorage \<Rightarrow> WebStorage option" where
  "setItem k v s = (if storage_blocked s \<or> storage_full s then None else Some (s\<lparr>stored := (stored s)(k \<mapsto> v)\<rparr>))"

definition removeItem :: "jstr \<Rightarrow> WebStorage \<Rightarrow> WebStorage option" where
  "removeItem k s = (if storage_blocked s then None else Some (s\<lparr>stored := (stored s)(k := None)\<rparr>))"

text \<open>The attributes of a \<open>URL\<close> object.\<close>

record URL =
  url_href :: jstr
  url_protocol :: jstr
  url_origin :: jstr
  url_pathname :: jstr
  url_search :: jstr
  url_hash :: jstr

datatype Departure = LocationAssign jstr | NavigateHref jstr | NavigateTo jstr "jstr option"

datatype Toast = ToastError jval | ToastSuccess jval

record SignInTab =
  sessionStore :: WebStorage
  localStore :: WebStorage
  tab_auth :: AuthModule
  tab_language :: jstr
  departures :: "Departure list"
  tab_toasts :: "Toast list"

text \<open>\<open>new URL(text)\<close> and \<open>new URL(text, base)\<close>, which give \<open>None\<close> where they throw; \<open>JSON.parse\<close>;
  the message of the error i18next fails with when it cannot change to a language; \<open>window.location.origin\<close>;
  the translations.\<close>

record SignInEnv =
  new_url :: "jstr \<Rightarrow> URL option"
  new_url_at :: "jstr \<Rightarrow> jstr \<Rightarrow> URL option"
  env_json :: "jstr \<Rightarrow> jval option"
  language_failure :: "jstr \<rightharpoonup> jval"
  page_origin :: jstr
  env_t :: translation

definition depart :: "Departure \<Rightarrow> SignInTab \<Rightarrow> SignInTab" where
  "depart d tab = tab\<lparr>departures := departures tab @ [d]\<rparr>"

definition toast :: "Toast \<Rightarrow> SignInTab \<Rightarrow> SignInTab" where
  "toast x tab = tab\<lparr>tab_toasts := tab_toasts tab @ [x]\<rparr>"

definition say :: "SignInEnv \<Rightarrow> string \<Rightarrow> jval" where
  "say env s = env_t env (KeyText (js s))"

section \<open>Redirect targets\<close>

definition allowedRedirectProtocols :: "jstr list" where
  "allowedRedirectProtocols = [js ''http:'', js ''https:'']"

definition EXTERNAL_AUTH_REDIRECT_STORAGE_KEY :: jstr where
  "EXTERNAL_AUTH_REDIRECT_STORAGE_KEY = js ''external-auth-redirect''"

text \<open>\<open>/^https?:\/\//i\<close>: a letter stands for itself and its other case.\<close>

definition letter :: "char \<Rightarrow> regex" where
  "letter c = RClass (\<lambda>x. x = of_char c \<or> x + 32 = of_char c)"

definition httpPattern :: regex where
  "httpPattern = rseq [RStart, letter CHR ''h'', letter CHR ''t'', letter CHR ''t'', letter CHR ''p'',
     ROpt (letter CHR ''s''), lit ''://'']"

definition sanitizeExternalAuthRedirect :: "SignInEnv \<Rightarrow> jval \<Rightarrow> jstr option" where
  "sanitizeExternalAuthRedirect env value =
     (case value of JStr v \<Rightarrow>
        (let target = trim v in
         if \<not> regex_test httpPattern target \<or> js_includes target [92] then None
         else case new_url env target of None \<Rightarrow> None
           | Some redirectURL \<Rightarrow> if url_protocol redirectURL \<in> set allowedRedirectProtocols
               then Some (url_href redirectURL) else None)
      | _ \<Rightarrow> None)"

definition try_session :: "(WebStorage \<Rightarrow> WebStorage option) \<Rightarrow> SignInTab \<Rightarrow> SignInTab" where
  "try_session f tab = (case f (sessionStore tab) of None \<Rightarrow> tab | Some s \<Rightarrow> tab\<lparr>sessionStore := s\<rparr>)"

definition clearExternalAuthRedirect :: "SignInTab \<Rightarrow> SignInTab" where
  "clearExternalAuthRedirect = try_session (removeItem EXTERNAL_AUTH_REDIRECT_STORAGE_KEY)"

definition saveExternalAuthRedirect :: "SignInEnv \<Rightarrow> jval \<Rightarrow> SignInTab \<Rightarrow> jstr option \<times> SignInTab" where
  "saveExternalAuthRedirect env value tab =
     (let target = sanitizeExternalAuthRedirect env value;
          tab1 = clearExternalAuthRedirect tab
      in if \<not> str_truthy target then (None, tab1)
         else case setItem EXTERNAL_AUTH_REDIRECT_STORAGE_KEY (the target) (sessionStore tab1) of
           Some s \<Rightarrow> (target, tab1\<lparr>sessionStore := s\<rparr>)
         | None \<Rightarrow> (None, clearExternalAuthRedirect tab1))"

definition or_null :: "jstr option \<Rightarrow> jval" where
  "or_null x = (case x of None \<Rightarrow> JNull | Some s \<Rightarrow> JStr s)"

definition consumeExternalAuthRedirect :: "SignInEnv \<Rightarrow> SignInTab \<Rightarrow> jstr option \<times> SignInTab" where
  "consumeExternalAuthRedirect env tab =
     (case getItem EXTERNAL_AUTH_REDIRECT_STORAGE_KEY (sessionStore tab) of
        None \<Rightarrow> (None, clearExternalAuthRedirect tab)
      | Some target \<Rightarrow>
          (case removeItem EXTERNAL_AUTH_REDIRECT_STORAGE_KEY (sessionStore tab) of
             None \<Rightarrow> (None, clearExternalAuthRedirect tab)
           | Some s \<Rightarrow> (sanitizeExternalAuthRedirect env (or_null target), tab\<lparr>sessionStore := s\<rparr>)))"

definition user_field :: "AuthUser \<Rightarrow> string \<Rightarrow> jval" where
  "user_field u k = jget (JObj (user_props u)) (js k)"

definition string_or_none :: "jval \<Rightarrow> jstr option" where
  "string_or_none v = (case v of JStr s \<Rightarrow> Some s | _ \<Rightarrow> None)"

definition getSavedLanguage :: "SignInEnv \<Rightarrow> AuthUser \<Rightarrow> jstr option" where
  "getSavedLanguage env u =
     (if is_string (user_field u ''language'') then string_or_none (user_field u ''language'')
      else if is_object (user_field u ''setting'')
        then string_or_none (jget (user_field u ''setting'') (js ''language''))
      else case user_field u ''setting'' of
        JStr text \<Rightarrow> (case env_json env text of None \<Rightarrow> None
          | Some setting \<Rightarrow> string_or_none (jget setting (js ''language'')))
      | _ \<Rightarrow> None)"

definition sanitizeAuthRedirect :: "SignInEnv \<Rightarrow> jval \<Rightarrow> jstr \<Rightarrow> jstr option" where
  "sanitizeAuthRedirect env value origin =
     (case value of JStr v \<Rightarrow>
        (let target = trim v in
         if target = [] \<or> js_includes target [92] \<or> prefix (js ''//'') target then None
         else case new_url env origin of None \<Rightarrow> None
           | Some trustedOrigin \<Rightarrow>
               if url_protocol trustedOrigin \<notin> set allowedRedirectProtocols then None
               else (case (if prefix (js ''/'') target then new_url_at env target (url_origin trustedOrigin)
                           else new_url env target) of
                 None \<Rightarrow> None
               | Some redirectURL \<Rightarrow>
                   if url_protocol redirectURL \<notin> set allowedRedirectProtocols
                      \<or> url_origin redirectURL \<noteq> url_origin trustedOrigin then None
                   else Some (url_pathname redirectURL @ url_search redirectURL @ url_hash redirectURL)))
      | _ \<Rightarrow> None)"

definition safe_target :: "SignInEnv \<Rightarrow> jval \<Rightarrow> jstr" where
  "safe_target env value = (case sanitizeAuthRedirect env value (page_origin env) of
     Some href \<Rightarrow> href | None \<Rightarrow> js ''/dashboard'')"

section \<open>Invitations\<close>

definition try_local :: "(WebStorage \<Rightarrow> WebStorage option) \<Rightarrow> SignInTab \<Rightarrow> SignInTab" where
  "try_local f tab = (case f (localStore tab) of None \<Rightarrow> tab | Some s \<Rightarrow> tab\<lparr>localStore := s\<rparr>)"

definition remove_invitation :: "WebStorage \<Rightarrow> WebStorage option" where
  "remove_invitation s = Option.bind (removeItem (js ''aff'') s) (removeItem (js ''invite''))"

definition clearInvitationCredentials :: "SignInTab \<Rightarrow> SignInTab" where
  "clearInvitationCredentials tab = try_local remove_invitation (try_session remove_invitation tab)"

definition saveInvitationCredentials :: "jstr \<Rightarrow> SignInTab \<Rightarrow> jstr option \<times> SignInTab" where
  "saveInvitationCredentials aff tab =
     (let normalizedAff = trim aff; tab1 = clearInvitationCredentials tab in
      if normalizedAff = [] then (None, tab1)
      else case setItem (js ''aff'') normalizedAff (sessionStore tab1) of
        Some s \<Rightarrow> (Some normalizedAff, tab1\<lparr>sessionStore := s\<rparr>)
      | None \<Rightarrow> (None, clearInvitationCredentials tab1))"

definition getInvitationCredentials :: "SignInTab \<Rightarrow> jstr option \<times> SignInTab" where
  "getInvitationCredentials tab =
     (case getItem (js ''aff'') (sessionStore tab) of None \<Rightarrow> (None, clearInvitationCredentials tab)
      | Some value \<Rightarrow>
          (let aff = (case value of None \<Rightarrow> [] | Some v \<Rightarrow> trim v) in
           if aff = [] then (None, clearInvitationCredentials tab) else (Some aff, tab)))"

text \<open>The query of an entry address is its list of parameters; the address that replaces it keeps the
  parameters other than the invitation (second result, \<open>None\<close> when the history is left alone).\<close>

type_synonym query = "(jstr \<times> jstr) list"

definition syncInvitationCredentialsFromSearch ::
  "query \<Rightarrow> SignInTab \<Rightarrow> jstr option \<times> query option \<times> SignInTab" where
  "syncInvitationCredentialsFromSearch params tab =
     (let hasAffQuery = map_of params (js ''aff'') \<noteq> None;
          hasLegacyInviteQuery = map_of params (js ''invite'') \<noteq> None
      in if \<not> hasAffQuery \<and> \<not> hasLegacyInviteQuery
         then (let (credentials, tab1) = getInvitationCredentials tab in (credentials, None, tab1))
         else (let (credentials, tab1) =
                 (if hasAffQuery
                  then saveInvitationCredentials (case map_of params (js ''aff'') of Some a \<Rightarrow> a | None \<Rightarrow> []) tab
                  else getInvitationCredentials tab)
               in (credentials, Some (filter (\<lambda>p. fst p \<noteq> js ''aff'' \<and> fst p \<noteq> js ''invite'') params), tab1)))"

text \<open>\<open>createOAuthFlow\<close> of \<open>features/auth/api.ts\<close>, cut at its request: what is sent, and what an answer does.
  A token of the flow or the error thrown; \<open>sent_aff\<close> is \<open>None\<close> where the field is \<open>undefined\<close>.\<close>

datatype OAuthIntent = IntentLogin | IntentBind

definition createOAuthFlow_request :: "OAuthIntent \<Rightarrow> SignInTab \<Rightarrow> jstr option \<times> SignInTab" where
  "createOAuthFlow_request intent tab =
     (if intent = IntentLogin then getInvitationCredentials tab else (None, tab))"

definition flow_token_of :: "jval \<Rightarrow> jval" where
  "flow_token_of data = (if is_string data then data else jget data (js ''flow_token''))"

definition createOAuthFlow_answer :: "OAuthIntent \<Rightarrow> jval \<Rightarrow> SignInTab \<Rightarrow> (jval + jstr) \<times> SignInTab" where
  "createOAuthFlow_answer intent data tab =
     (let flowToken = flow_token_of (jget data (js ''data'')) in
      if truthy (jget data (js ''success'')) \<and> is_string flowToken \<and> truthy flowToken
      then (Inr (str_of flowToken), if intent = IntentLogin then clearInvitationCredentials tab else tab)
      else (Inl (js_or (jget data (js ''message'')) (JStr (js ''Failed to initialize OAuth''))), tab))"

text \<open>\<open>register\<close>: the invitation code that is sent, and the answer.\<close>

definition register_aff :: "jstr \<Rightarrow> SignInTab \<Rightarrow> jstr \<times> SignInTab" where
  "register_aff payload_aff tab =
     (let (invitation, tab1) = getInvitationCredentials tab
      in (case invitation of Some aff \<Rightarrow> aff | None \<Rightarrow> payload_aff, tab1))"

definition register_answer :: "jval \<Rightarrow> SignInTab \<Rightarrow> SignInTab" where
  "register_answer data tab = (if truthy (jget data (js ''success'')) then clearInvitationCredentials tab else tab)"

section \<open>The end of a sign-in\<close>

text \<open>\<open>handleLoginSuccess\<close> of \<open>use-auth-redirect.ts\<close>; the first result is the message of an error
  it threw, which it does when i18next cannot change the language.\<close>

definition with_auth :: "(AuthModule \<Rightarrow> AuthModule) \<Rightarrow> SignInTab \<Rightarrow> SignInTab" where
  "with_auth f tab = tab\<lparr>tab_auth := f (tab_auth tab)\<rparr>"

definition leave_sign_in :: "SignInEnv \<Rightarrow> jval \<Rightarrow> SignInTab \<Rightarrow> SignInTab" where
  "leave_sign_in env redirectTo tab =
     (let (externalTarget, tab1) = consumeExternalAuthRedirect env tab in
      if str_truthy externalTarget then depart (LocationAssign (the externalTarget)) tab1
      else depart (NavigateHref (safe_target env redirectTo)) tab1)"

definition handleLoginSuccess :: "SignInEnv \<Rightarrow> AuthBundle \<Rightarrow> jval \<Rightarrow> SignInTab \<Rightarrow> jval option \<times> SignInTab" where
  "handleLoginSuccess env bundle redirectTo tab =
     (let tab1 = with_auth (applyAuthBundle bundle True) (clearInvitationCredentials tab);
          savedLang = getSavedLanguage env (bundle_user bundle)
      in if str_truthy savedLang \<and> the savedLang \<noteq> tab_language tab1
         then case language_failure env (the savedLang) of
                Some message \<Rightarrow> (Some message, tab1)
              | None \<Rightarrow> (None, leave_sign_in env redirectTo (tab1\<lparr>tab_language := the savedLang\<rparr>))
         else (None, leave_sign_in env redirectTo tab1))"

definition redirectTo2FA :: "SignInTab \<Rightarrow> SignInTab" where
  "redirectTo2FA = depart (NavigateTo (js ''/otp'') None)"

definition redirectToLogin :: "SignInTab \<Rightarrow> SignInTab" where
  "redirectToLogin = depart (NavigateTo (js ''/sign-in'') None)"

text \<open>\<open>startSignIn\<close> of the public header, for a link that needs an account.\<close>

definition startSignIn :: "SignInEnv \<Rightarrow> jstr \<Rightarrow> bool \<Rightarrow> SignInTab \<Rightarrow> SignInTab" where
  "startSignIn env link_href external tab =
     (let (saved, tab1) = (if external then saveExternalAuthRedirect env (JStr link_href) tab else (None, tab)) in
      if external \<and> str_truthy saved
      then depart (NavigateTo (js ''/sign-in'') (Some (js ''/dashboard''))) tab1
      else depart (NavigateTo (js ''/sign-in'') (Some (safe_target env (JStr link_href)))) (clearExternalAuthRedirect tab1))"

text \<open>\<open>beforeLoad\<close> of the sign-in route: a visitor who is signed in is sent on.\<close>

definition sign_in_beforeLoad :: "SignInEnv \<Rightarrow> jval \<Rightarrow> SignInTab \<Rightarrow> Departure option" where
  "sign_in_beforeLoad env redirect tab =
     (case user (auth (tab_auth tab)) of None \<Rightarrow> None | Some u \<Rightarrow> Some (NavigateHref (safe_target env redirect)))"

text \<open>\<open>onSubmit\<close> of the password form, from the answer of \<open>login\<close> on: an axios error has been reported by
  the HTTP client.  An error thrown in the handler carries its message.  The data of an answer is an object
  or missing, as its type says.\<close>

datatype LoginAnswer = Answered jval | AxiosFailure | OtherFailure jval

definition thrown_toast :: "jval \<Rightarrow> SignInTab \<Rightarrow> SignInTab" where
  "thrown_toast message = toast (ToastError message)"

definition password_login_answer :: "SignInEnv \<Rightarrow> jval \<Rightarrow> LoginAnswer \<Rightarrow> SignInTab \<Rightarrow> SignInTab" where
  "password_login_answer env redirectTo answer tab =
     (case answer of
        AxiosFailure \<Rightarrow> tab
      | OtherFailure message \<Rightarrow> thrown_toast message tab
      | Answered res \<Rightarrow>
          let data = jget res (js ''data'') in
          if \<not> truthy (jget res (js ''success'')) then tab
          else if truthy data \<and> truthy (jget data (js ''require_2fa'')) then
            if \<not> truthy (jget data (js ''flow_token''))
            then thrown_toast (say env ''Login flow expired. Please sign in again.'') tab
            else redirectTo2FA (with_auth (\<lambda>m. m\<lparr>auth := setPending2FAFlowToken
                   (Some (str_of (jget data (js ''flow_token'')))) (auth m)\<rparr>) tab)
          else if \<not> isAuthBundle data then thrown_toast (say env ''Login failed'') tab
          else case handleLoginSuccess env (bundle_of data) redirectTo tab of
            (Some message, tab1) \<Rightarrow> thrown_toast message tab1
          | (None, tab1) \<Rightarrow> toast (ToastSuccess (say env ''Welcome back!'')) tab1)"

text \<open>The end of the OAuth callback in login mode (\<open>routes/oauth/$provider.tsx\<close>), and of the WeChat route
  (\<open>routes/(auth)/oauth.tsx\<close>): neither calls \<open>handleLoginSuccess\<close>.  An \<open>Error\<close> is a value with a message.\<close>

definition safeNavigate :: "SignInEnv \<Rightarrow> jval \<Rightarrow> string \<Rightarrow> SignInTab \<Rightarrow> SignInTab" where
  "safeNavigate env target fallback =
     depart (NavigateHref (case sanitizeAuthRedirect env target (page_origin env) of
       Some href \<Rightarrow> href | None \<Rightarrow> js fallback))"

definition callback_failed :: "SignInEnv \<Rightarrow> SignInTab \<Rightarrow> SignInTab" where
  "callback_failed env = safeNavigate env (JStr (js ''/sign-in'')) ''/sign-in''"

definition oauth_login_answer :: "SignInEnv \<Rightarrow> jval \<Rightarrow> jval + jval \<Rightarrow> SignInTab \<Rightarrow> SignInTab" where
  "oauth_login_answer env redirect answer tab =
     (case answer of
        Inr data \<Rightarrow>
          if truthy (jget data (js ''success'')) \<and> isAuthBundle (jget data (js ''data''))
          then toast (ToastSuccess (say env ''Signed in successfully!''))
                 (safeNavigate env redirect ''/dashboard''
                   (with_auth (applyAuthBundle (bundle_of (jget data (js ''data''))) True) tab))
          else callback_failed env (toast (ToastError (case getServerErrorMessageKey data of
                   Some messageKey \<Rightarrow> env_t env messageKey
                 | None \<Rightarrow> js_or (jget data (js ''message'')) (say env ''OAuth failed''))) tab)
      | Inl error \<Rightarrow>
          callback_failed env
            (case getServerErrorMessageKey error of Some messageKey \<Rightarrow> tab
             | None \<Rightarrow> toast (ToastError (js_or (jget (jget (jget error (js ''response'')) (js ''data'')) (js ''message''))
                 (if is_string (jget error (js ''message'')) then jget error (js ''message'')
                  else say env ''OAuth failed''))) tab))"

definition oauth_login_start :: "SignInEnv \<Rightarrow> jstr \<Rightarrow> jstr option \<Rightarrow> SignInTab \<Rightarrow> SignInTab option" where
  "oauth_login_start env code error tab =
     (if code = [] \<and> \<not> str_truthy error
      then Some (callback_failed env (toast (ToastError (say env ''Missing code'')) tab)) else None)"

definition wechat_route_answer :: "SignInEnv \<Rightarrow> jval \<Rightarrow> jval + jval \<Rightarrow> SignInTab \<Rightarrow> SignInTab" where
  "wechat_route_answer env redirect answer tab =
     (let failed = redirectToLogin (toast (ToastError (say env ''OAuth failed'')) tab) in
      case answer of
        Inr res \<Rightarrow>
          if truthy (jget res (js ''success'')) \<and> isAuthBundle (jget res (js ''data''))
          then depart (NavigateHref (safe_target env redirect))
                 (with_auth (applyAuthBundle (bundle_of (jget res (js ''data''))) True) tab)
          else if getServerErrorMessageKey res \<noteq> None then redirectToLogin tab
          else failed
      | Inl error \<Rightarrow> if getServerErrorMessageKey error \<noteq> None then redirectToLogin tab else failed)"

section \<open>What the storages keep\<close>

lemmas storage_defs = getItem_def setItem_def removeItem_def try_session_def try_local_def

lemma tab_simps [simp]:
  "sessionStore (depart d tab) = sessionStore tab" "localStore (depart d tab) = localStore tab"
  "tab_auth (depart d tab) = tab_auth tab" "departures (depart d tab) = departures tab @ [d]"
  "sessionStore (toast x tab) = sessionStore tab" "localStore (toast x tab) = localStore tab"
  "tab_auth (toast x tab) = tab_auth tab" "departures (toast x tab) = departures tab"
  "sessionStore (with_auth f tab) = sessionStore tab" "localStore (with_auth f tab) = localStore tab"
  "tab_auth (with_auth f tab) = f (tab_auth tab)" "departures (with_auth f tab) = departures tab"
  "tab_language (with_auth f tab) = tab_language tab"
  by (simp_all add: depart_def toast_def with_auth_def)

lemma try_session_simps [simp]:
  "departures (try_session f tab) = departures tab" "tab_auth (try_session f tab) = tab_auth tab"
  "localStore (try_session f tab) = localStore tab" "tab_language (try_session f tab) = tab_language tab"
  "departures (try_local f tab) = departures tab" "tab_auth (try_local f tab) = tab_auth tab"
  "sessionStore (try_local f tab) = sessionStore tab" "tab_language (try_local f tab) = tab_language tab"
  by (simp_all add: storage_defs split: option.split)

lemma clearInvitation_simps [simp]:
  "departures (clearInvitationCredentials tab) = departures tab"
  "tab_auth (clearInvitationCredentials tab) = tab_auth tab"
  "tab_language (clearInvitationCredentials tab) = tab_language tab"
  "storage_blocked (sessionStore (clearInvitationCredentials tab)) = storage_blocked (sessionStore tab)"
  "storage_full (sessionStore (clearInvitationCredentials tab)) = storage_full (sessionStore tab)"
  by (simp_all add: clearInvitationCredentials_def remove_invitation_def storage_defs)

lemma clearInvitation_stored:
  "stored (sessionStore (clearInvitationCredentials tab)) k
     = (if \<not> storage_blocked (sessionStore tab) \<and> (k = js ''aff'' \<or> k = js ''invite'') then None
        else stored (sessionStore tab) k)"
  by (simp add: clearInvitationCredentials_def remove_invitation_def storage_defs)

lemma clearInvitation_local:
  "stored (localStore (clearInvitationCredentials tab)) k
     = (if \<not> storage_blocked (localStore tab) \<and> (k = js ''aff'' \<or> k = js ''invite'') then None
        else stored (localStore tab) k)"
  by (simp add: clearInvitationCredentials_def remove_invitation_def storage_defs)

lemma clearExternal_simps [simp]:
  "departures (clearExternalAuthRedirect tab) = departures tab"
  "tab_auth (clearExternalAuthRedirect tab) = tab_auth tab"
  "storage_blocked (sessionStore (clearExternalAuthRedirect tab)) = storage_blocked (sessionStore tab)"
  "storage_full (sessionStore (clearExternalAuthRedirect tab)) = storage_full (sessionStore tab)"
  by (simp_all add: clearExternalAuthRedirect_def storage_defs)

lemma clearExternal_stored:
  "stored (sessionStore (clearExternalAuthRedirect tab)) k
     = (if \<not> storage_blocked (sessionStore tab) \<and> k = EXTERNAL_AUTH_REDIRECT_STORAGE_KEY then None
        else stored (sessionStore tab) k)"
  by (simp add: clearExternalAuthRedirect_def storage_defs)

lemma external_key_other [simp]:
  "EXTERNAL_AUTH_REDIRECT_STORAGE_KEY \<noteq> js ''aff''" "EXTERNAL_AUTH_REDIRECT_STORAGE_KEY \<noteq> js ''invite''"
  by (simp_all add: EXTERNAL_AUTH_REDIRECT_STORAGE_KEY_def)

text \<open>What consuming gives, in the two cases.\<close>

lemma consume_open:
  "\<not> storage_blocked (sessionStore tab) \<Longrightarrow> consumeExternalAuthRedirect env tab
     = (sanitizeExternalAuthRedirect env (or_null (stored (sessionStore tab) EXTERNAL_AUTH_REDIRECT_STORAGE_KEY)),
        clearExternalAuthRedirect tab)"
  by (simp add: consumeExternalAuthRedirect_def clearExternalAuthRedirect_def storage_defs)

lemma consume_blocked:
  "storage_blocked (sessionStore tab) \<Longrightarrow> consumeExternalAuthRedirect env tab = (None, tab)"
  by (simp add: consumeExternalAuthRedirect_def clearExternalAuthRedirect_def storage_defs)

lemma consume_tab [simp]: "snd (consumeExternalAuthRedirect env tab) = clearExternalAuthRedirect tab"
  by (cases "storage_blocked (sessionStore tab)")
    (simp_all add: consume_open consume_blocked clearExternalAuthRedirect_def storage_defs)

lemma leave_sign_in_eq:
  "leave_sign_in env r tab = depart
     (case fst (consumeExternalAuthRedirect env tab) of
        Some (c # cs) \<Rightarrow> LocationAssign (c # cs) | _ \<Rightarrow> NavigateHref (safe_target env r))
     (clearExternalAuthRedirect tab)"
proof -
  obtain x where "consumeExternalAuthRedirect env tab = (x, clearExternalAuthRedirect tab)"
    using consume_tab by (metis prod.collapse)
  then show ?thesis by (simp add: leave_sign_in_def str_truthy_def split: option.split list.split)
qed

section \<open>Where a sign-in ends\<close>

definition http_url :: "URL \<Rightarrow> bool" where
  "http_url u \<longleftrightarrow> url_protocol u \<in> set allowedRedirectProtocols"

lemma sanitizeExternal_SomeD:
  "sanitizeExternalAuthRedirect env v = Some h \<Longrightarrow> \<exists>text u. new_url env text = Some u \<and> http_url u \<and> h = url_href u"
  by (auto simp: sanitizeExternalAuthRedirect_def http_url_def Let_def split: jval.splits if_splits option.splits)

lemma sanitizeExternal_null [simp]: "sanitizeExternalAuthRedirect env JNull = None"
  by (simp add: sanitizeExternalAuthRedirect_def)

lemma sanitize_SomeD:
  "sanitizeAuthRedirect env v origin = Some h \<Longrightarrow> \<exists>page u. new_url env origin = Some page
     \<and> ((\<exists>text. new_url env text = Some u) \<or> (\<exists>text. new_url_at env text (url_origin page) = Some u))
     \<and> http_url u \<and> url_origin u = url_origin page \<and> h = url_pathname u @ url_search u @ url_hash u"
  by (auto simp: sanitizeAuthRedirect_def http_url_def Let_def split: jval.splits if_splits option.splits)

text \<open>A place a sign-in may send the tab to: an address with the scheme http or https, or the path of an address on the
  page's own origin.  Such a path may itself begin with two slashes, as that of \<open>/.//host\<close> does (\<open>dot_segment_target\<close>).\<close>

definition own_path :: "SignInEnv \<Rightarrow> jstr \<Rightarrow> bool" where
  "own_path env p \<longleftrightarrow> p = js ''/dashboard'' \<or> p = js ''/sign-in'' \<or>
     (\<exists>page u. new_url env (page_origin env) = Some page
        \<and> ((\<exists>text. new_url env text = Some u) \<or> (\<exists>text. new_url_at env text (url_origin page) = Some u))
        \<and> http_url u \<and> url_origin u = url_origin page
        \<and> p = url_pathname u @ url_search u @ url_hash u)"

fun safe_departure :: "SignInEnv \<Rightarrow> Departure \<Rightarrow> bool" where
  "safe_departure env (LocationAssign h) \<longleftrightarrow> (\<exists>text u. new_url env text = Some u \<and> http_url u \<and> h = url_href u)"
| "safe_departure env (NavigateHref p) \<longleftrightarrow> own_path env p"
| "safe_departure env (NavigateTo p r) \<longleftrightarrow> p \<in> {js ''/sign-in'', js ''/otp''} \<and> (\<forall>q. r = Some q \<longrightarrow> own_path env q)"

definition departs_safely :: "SignInEnv \<Rightarrow> SignInTab \<Rightarrow> SignInTab \<Rightarrow> bool" where
  "departs_safely env tab tab' \<longleftrightarrow>
     (\<exists>ds. departures tab' = departures tab @ ds \<and> length ds \<le> 1 \<and> list_all (safe_departure env) ds)"

lemma departs_none [intro]: "departures tab' = departures tab \<Longrightarrow> departs_safely env tab tab'"
  by (auto simp: departs_safely_def intro: exI[of _ "[]"])

lemma departs_one [intro]:
  "departures tab' = departures tab @ [d] \<Longrightarrow> safe_departure env d \<Longrightarrow> departs_safely env tab tab'"
  by (auto simp: departs_safely_def intro: exI[of _ "[d]"])

lemma own_path_sanitized: "sanitizeAuthRedirect env v (page_origin env) = Some h \<Longrightarrow> own_path env h"
  unfolding own_path_def using sanitize_SomeD by blast

lemma own_path_default [simp]: "own_path env (js ''/dashboard'')" "own_path env (js ''/sign-in'')"
  by (simp_all add: own_path_def)

lemma own_path_safe_target [simp]: "own_path env (safe_target env v)"
  by (simp add: safe_target_def own_path_sanitized split: option.split)

lemma safeNavigate_departs:
  "departures tab1 = departures tab \<Longrightarrow> own_path env (js f) \<Longrightarrow> departs_safely env tab (safeNavigate env v f tab1)"
  by (rule departs_one) (auto simp: safeNavigate_def own_path_sanitized split: option.split)

lemma departs_toast: "departs_safely env tab tab1 \<Longrightarrow> departs_safely env tab (toast x tab1)"
  by (simp add: departs_safely_def)

lemma callback_failed_departs: "departures tab1 = departures tab \<Longrightarrow> departs_safely env tab (callback_failed env tab1)"
  unfolding callback_failed_def by (rule safeNavigate_departs) simp_all

lemma leave_sign_in_departs: "departures tab1 = departures tab \<Longrightarrow> departs_safely env tab (leave_sign_in env r tab1)"
proof (cases "fst (consumeExternalAuthRedirect env tab1)")
  case (Some h)
  assume eq: "departures tab1 = departures tab"
  have "sanitizeExternalAuthRedirect env (or_null (stored (sessionStore tab1) EXTERNAL_AUTH_REDIRECT_STORAGE_KEY)) = Some h"
    using Some by (cases "storage_blocked (sessionStore tab1)") (simp_all add: consume_open consume_blocked)
  then have "safe_departure env (LocationAssign h)" using sanitizeExternal_SomeD by auto
  then show ?thesis using eq Some
    by (auto simp: leave_sign_in_eq simp del: safe_departure.simps(1) intro!: departs_one split: list.split)
qed (auto simp: leave_sign_in_eq)

lemma handleLoginSuccess_departs: "departs_safely env tab (snd (handleLoginSuccess env b r tab))"
  by (auto simp: handleLoginSuccess_def Let_def intro: leave_sign_in_departs split: option.split)

lemma oauth_login_departs: "departs_safely env tab (oauth_login_answer env r answer tab)"
  by (auto simp: oauth_login_answer_def intro!: departs_toast safeNavigate_departs callback_failed_departs
      split: sum.split option.split)

lemma wechat_route_departs: "departs_safely env tab (wechat_route_answer env r answer tab)"
  by (auto simp: wechat_route_answer_def Let_def redirectToLogin_def split: sum.split)

lemma password_login_departs: "departs_safely env tab (password_login_answer env r answer tab)"
proof -
  have "departs_safely env tab (case handleLoginSuccess env b r tab of
      (Some message, tab1) \<Rightarrow> thrown_toast message tab1 | (None, tab1) \<Rightarrow> toast (ToastSuccess y) tab1)" for b y
    using handleLoginSuccess_departs[of env tab b r]
    by (auto simp: thrown_toast_def departs_toast split: prod.split option.split)
  then show ?thesis
    by (auto simp: password_login_answer_def Let_def thrown_toast_def redirectTo2FA_def split: LoginAnswer.split)
qed

lemma saveExternal_departures [simp]:
  "departures (snd (saveExternalAuthRedirect env v tab)) = departures tab"
  by (simp add: saveExternalAuthRedirect_def Let_def split: option.split)

lemma startSignIn_departs: "departs_safely env tab (startSignIn env link x tab)"
proof -
  obtain saved tab1 where s: "(if x then saveExternalAuthRedirect env (JStr link) tab else (None, tab)) = (saved, tab1)"
    by fastforce
  then have "departures tab1 = departures tab" using saveExternal_departures[of env "JStr link" tab] by (cases x) simp_all
  then show ?thesis by (auto simp: startSignIn_def s)
qed

lemma own_path_slash:
  assumes "\<And>text u. new_url env text = Some u \<Longrightarrow> http_url u \<Longrightarrow> prefix (js ''/'') (url_pathname u)"
    and "\<And>text base u. new_url_at env text base = Some u \<Longrightarrow> http_url u \<Longrightarrow> prefix (js ''/'') (url_pathname u)"
    and "own_path env p"
  shows "prefix (js ''/'') p"
  using assms by (auto simp: own_path_def intro: prefix_prefix) (simp_all add: jstr_eval)

section \<open>A target on another site\<close>

text \<open>The pattern lets the two schemes through, however they are written.\<close>

lemma http_pattern_hit: "p \<in> set allowedRedirectProtocols \<Longrightarrow> regex_test httpPattern (p @ js ''//'' @ rest)"
  by (auto simp: allowedRedirectProtocols_def regex_test_def match_at_def httpPattern_def letter_def lit_def
      after_prefix_def jstr_eval)

lemma sanitizeExternal_link:
  assumes "trim link = text" "regex_test httpPattern text" "\<not> js_includes text [92]"
    and "new_url env text = Some u" "http_url u"
  shows "sanitizeExternalAuthRedirect env (JStr link) = Some (url_href u)"
  using assms by (simp add: sanitizeExternalAuthRedirect_def http_url_def)

text \<open>What the \<open>URL\<close> class promises of the text it writes for an address: the text is read as the same address, it begins with
  the scheme, and it has neither a backslash nor white space at its ends.\<close>

definition written_back :: "SignInEnv \<Rightarrow> URL \<Rightarrow> bool" where
  "written_back env u \<longleftrightarrow> new_url env (url_href u) = Some u \<and> prefix (url_protocol u @ js ''//'') (url_href u)
     \<and> \<not> js_includes (url_href u) [92] \<and> trim (url_href u) = url_href u"

lemma written_back_sanitized:
  assumes "written_back env u" "http_url u"
  shows "sanitizeExternalAuthRedirect env (JStr (url_href u)) = Some (url_href u)" "url_href u \<noteq> []"
proof -
  obtain rest where h: "url_href u = url_protocol u @ js ''//'' @ rest"
    using assms(1) by (auto simp: written_back_def prefix_def)
  then have "regex_test httpPattern (url_href u)" using assms(2) http_pattern_hit by (simp add: http_url_def)
  with assms show "sanitizeExternalAuthRedirect env (JStr (url_href u)) = Some (url_href u)"
    by (auto simp: written_back_def intro!: sanitizeExternal_link)
  show "url_href u \<noteq> []" using h by simp
qed

lemma save_external:
  assumes "sanitizeExternalAuthRedirect env v = Some h" "h \<noteq> []"
    and "\<not> storage_blocked (sessionStore tab)" "\<not> storage_full (sessionStore tab)"
  shows "fst (saveExternalAuthRedirect env v tab) = Some h"
    "stored (sessionStore (snd (saveExternalAuthRedirect env v tab))) EXTERNAL_AUTH_REDIRECT_STORAGE_KEY = Some h"
    "storage_blocked (sessionStore (snd (saveExternalAuthRedirect env v tab))) = False"
  using assms by (simp_all add: saveExternalAuthRedirect_def str_truthy_def setItem_def Let_def)

definition language_fine :: "SignInEnv \<Rightarrow> AuthBundle \<Rightarrow> bool" where
  "language_fine env b \<longleftrightarrow> (case getSavedLanguage env (bundle_user b) of None \<Rightarrow> True
     | Some l \<Rightarrow> language_failure env l = None)"

lemma handleLoginSuccess_fine:
  assumes "language_fine env b"
  obtains tab1 where "handleLoginSuccess env b r tab = (None, leave_sign_in env r tab1)"
    "sessionStore tab1 = sessionStore (clearInvitationCredentials tab)"
    "departures tab1 = departures tab" "tab_auth tab1 = applyAuthBundle b True (tab_auth tab)"
proof (cases "getSavedLanguage env (bundle_user b)")
  case None
  then show ?thesis
    by (intro that[of "with_auth (applyAuthBundle b True) (clearInvitationCredentials tab)"])
      (simp_all add: handleLoginSuccess_def str_truthy_def)
next
  case (Some l)
  let ?t = "with_auth (applyAuthBundle b True) (clearInvitationCredentials tab)"
  show ?thesis using Some assms
    by (intro that[of "if l \<noteq> [] \<and> l \<noteq> tab_language tab then ?t\<lparr>tab_language := l\<rparr> else ?t"])
      (auto simp: handleLoginSuccess_def language_fine_def str_truthy_def)
qed

text \<open>A sign-in in a tab with a stored target, and one in a tab without.\<close>

lemma sign_in_with_target:
  assumes "language_fine env b" "\<not> storage_blocked (sessionStore tab)"
    and "stored (sessionStore tab) EXTERNAL_AUTH_REDIRECT_STORAGE_KEY = Some (url_href u)"
    and "written_back env u" "http_url u"
  shows "\<exists>tab'. handleLoginSuccess env b r tab = (None, tab')
    \<and> departures tab' = departures tab @ [LocationAssign (url_href u)]
    \<and> stored (sessionStore tab') EXTERNAL_AUTH_REDIRECT_STORAGE_KEY = None
    \<and> auth (tab_auth tab') = setBundle b (auth (tab_auth tab))"
proof -
  obtain tab1 where t: "handleLoginSuccess env b r tab = (None, leave_sign_in env r tab1)"
    "sessionStore tab1 = sessionStore (clearInvitationCredentials tab)"
    "departures tab1 = departures tab" "tab_auth tab1 = applyAuthBundle b True (tab_auth tab)"
    using handleLoginSuccess_fine[OF assms(1)] by blast
  have "fst (consumeExternalAuthRedirect env tab1) = Some (url_href u)"
    using t(2) assms(2,3) written_back_sanitized[OF assms(4,5)]
    by (simp add: consume_open clearInvitation_stored or_null_def)
  then have "leave_sign_in env r tab1 = depart (LocationAssign (url_href u)) (clearExternalAuthRedirect tab1)"
    using written_back_sanitized(2)[OF assms(4,5)] by (simp add: leave_sign_in_eq split: list.split)
  then show ?thesis using t assms(2) by (simp add: clearExternal_stored)
qed

lemma sign_in_without_target:
  assumes "language_fine env b" "stored (sessionStore tab) EXTERNAL_AUTH_REDIRECT_STORAGE_KEY = None"
  shows "\<exists>tab'. handleLoginSuccess env b r tab = (None, tab')
    \<and> departures tab' = departures tab @ [NavigateHref (safe_target env r)]"
proof -
  obtain tab1 where t: "handleLoginSuccess env b r tab = (None, leave_sign_in env r tab1)"
    "sessionStore tab1 = sessionStore (clearInvitationCredentials tab)" "departures tab1 = departures tab"
    using handleLoginSuccess_fine[OF assms(1)] by blast
  have "fst (consumeExternalAuthRedirect env tab1) = None"
    using t(2) assms(2) by (cases "storage_blocked (sessionStore tab)")
      (simp_all add: consume_open consume_blocked clearInvitation_stored or_null_def)
  then show ?thesis using t by (simp add: leave_sign_in_eq)
qed

lemma start_external:
  assumes "trim link = text" "regex_test httpPattern text" "\<not> js_includes text [92]"
    and "new_url env text = Some u" "http_url u" "written_back env u"
    and "\<not> storage_blocked (sessionStore tab)" "\<not> storage_full (sessionStore tab)"
  shows "stored (sessionStore (startSignIn env link True tab)) EXTERNAL_AUTH_REDIRECT_STORAGE_KEY = Some (url_href u)"
proof -
  have "url_href u \<noteq> []" by (rule written_back_sanitized(2)[OF assms(6,5)])
  note saved = save_external[OF sanitizeExternal_link[OF assms(1-5)] this assms(7,8)]
  then obtain tab1 where "saveExternalAuthRedirect env (JStr link) tab = (Some (url_href u), tab1)"
    by (metis prod.collapse)
  then show ?thesis using saved \<open>url_href u \<noteq> []\<close> by (simp add: startSignIn_def str_truthy_def)
qed

text \<open>A concrete browser, in which two addresses are read.\<close>

definition app_url :: URL where
  "app_url = \<lparr>url_href = js ''https://app.example/'', url_protocol = js ''https:'', url_origin = js ''https://app.example'',
     url_pathname = js ''/'', url_search = [], url_hash = []\<rparr>"

definition docs_url :: URL where
  "docs_url = \<lparr>url_href = js ''https://docs.example/a'', url_protocol = js ''https:'', url_origin = js ''https://docs.example'',
     url_pathname = js ''/a'', url_search = [], url_hash = []\<rparr>"

definition sample_env :: SignInEnv where
  "sample_env = \<lparr>
     new_url = map_of [(js ''https://app.example'', app_url), (js ''https://docs.example/a'', docs_url)],
     new_url_at = (\<lambda>t b. map_of [(js ''/'', app_url)] t), env_json = Map.empty, language_failure = Map.empty,
     page_origin = js ''https://app.example'', env_t = (\<lambda>k. JUndefined)\<rparr>"

definition empty_storage :: WebStorage where
  "empty_storage = \<lparr>stored = Map.empty, storage_blocked = False, storage_full = False\<rparr>"

definition sample_tab :: SignInTab where
  "sample_tab = \<lparr>sessionStore = empty_storage, localStore = empty_storage, tab_auth = initialModule (js ''s'') (\<lambda>n. (js ''n'', Fin 100)),
     tab_language = js ''en'', departures = [], tab_toasts = []\<rparr>"

lemma sample_env_urls [simp]:
  "new_url sample_env t = Some u \<Longrightarrow> u = app_url \<or> u = docs_url"
  "new_url_at sample_env t b = Some u \<Longrightarrow> u = app_url"
  by (auto simp: sample_env_def split: if_splits)

lemma sample_paths: "u = app_url \<or> u = docs_url \<Longrightarrow> prefix (js ''/'') (url_pathname u)"
  by (auto simp: app_url_def docs_url_def jstr_eval)

lemma docs_link:
  "trim (js '' https://docs.example/a'') = js ''https://docs.example/a''"
  "regex_test httpPattern (js ''https://docs.example/a'')" "\<not> js_includes (js ''https://docs.example/a'') [92]"
  "new_url sample_env (js ''https://docs.example/a'') = Some docs_url" "http_url docs_url"
  "written_back sample_env docs_url"
proof -
  show r: "regex_test httpPattern (js ''https://docs.example/a'')"
    using http_pattern_hit[of "js ''https:''" "js ''docs.example/a''"] by (simp add: allowedRedirectProtocols_def js_def)
  show t: "trim (js '' https://docs.example/a'') = js ''https://docs.example/a''"
    by (simp add: jstr_eval trim_def is_space_def js_spaces_def)
  show b: "\<not> js_includes (js ''https://docs.example/a'') [92]"
    by (simp add: jstr_eval js_includes_def)
  show n: "new_url sample_env (js ''https://docs.example/a'') = Some docs_url" by (simp add: sample_env_def)
  show "http_url docs_url" by (simp add: http_url_def docs_url_def allowedRedirectProtocols_def)
  have "trim (js ''https://docs.example/a'') = js ''https://docs.example/a''" using t trim_trim by metis
  then show "written_back sample_env docs_url" using n b
    by (simp add: written_back_def docs_url_def) (simp add: jstr_eval)
qed

lemma sample_bundle_language: "language_fine sample_env sample_bundle"
  by (simp add: language_fine_def getSavedLanguage_def user_field_def sample_bundle_def)

lemma sample_save:
  "saveExternalAuthRedirect sample_env (JStr (js '' https://docs.example/a'')) sample_tab
      = (Some (js ''https://docs.example/a''), sample_tab\<lparr>sessionStore := empty_storage\<lparr>stored :=
          [EXTERNAL_AUTH_REDIRECT_STORAGE_KEY \<mapsto> js ''https://docs.example/a'']\<rparr>\<rparr>)"
    using sanitizeExternal_link[OF docs_link(1-5)]
    by (simp add: saveExternalAuthRedirect_def str_truthy_def clearExternalAuthRedirect_def storage_defs docs_url_def
        sample_tab_def empty_storage_def Let_def)

lemma sample_start_departures:
  "departures (startSignIn sample_env (js '' https://docs.example/a'') True sample_tab)
     = [NavigateTo (js ''/sign-in'') (Some (js ''/dashboard''))]"
  by (simp add: startSignIn_def sample_save str_truthy_def) (simp add: sample_tab_def)

lemma sample_start_open:
  "\<not> storage_blocked (sessionStore (startSignIn sample_env (js '' https://docs.example/a'') True sample_tab))"
  by (simp add: startSignIn_def sample_save str_truthy_def) (simp add: empty_storage_def)

section \<open>Properties\<close>

text \<open>C9. Whatever is stored in the tab, written in the address or answered by the gateway, a sign-in (by password, OAuth
  callback, WeChat route or any form that ends in \<open>handleLoginSuccess\<close>) sends the tab to at most one
  place, and this place is an http or https address read by the browser, or a path of an address on the page's
  own origin, which begins with a slash (perhaps with two).  The \<open>URL\<close> class is assumed to give an http address a path that
  begins with a slash.\<close>

theorem sign_in_destination_safe:
  assumes "\<And>text u. new_url env text = Some u \<Longrightarrow> http_url u \<Longrightarrow> prefix (js ''/'') (url_pathname u)"
    and "\<And>text base u. new_url_at env text base = Some u \<Longrightarrow> http_url u \<Longrightarrow> prefix (js ''/'') (url_pathname u)"
    and "tab' \<in> {snd (handleLoginSuccess env b r tab), oauth_login_answer env r answer tab,
      wechat_route_answer env r answer tab, password_login_answer env r login tab, startSignIn env link x tab}"
  shows "\<exists>ds. departures tab' = departures tab @ ds \<and> length ds \<le> 1
    \<and> (\<forall>d \<in> set ds. safe_departure env d \<and> (\<forall>p. d = NavigateHref p \<longrightarrow> prefix (js ''/'') p))"
proof -
  have "departs_safely env tab tab'"
    using assms(3) by (auto simp: handleLoginSuccess_departs oauth_login_departs wechat_route_departs
        password_login_departs startSignIn_departs)
  then obtain ds where ds: "departures tab' = departures tab @ ds" "length ds \<le> 1" "list_all (safe_departure env) ds"
    unfolding departs_safely_def by blast
  then have "\<forall>d \<in> set ds. safe_departure env d \<and> (\<forall>p. d = NavigateHref p \<longrightarrow> prefix (js ''/'') p)"
    using own_path_slash[OF assms(1,2)] by (auto simp: list_all_iff)
  with ds show ?thesis by blast
qed

theorem sign_in_destination_safe_witness:
  "\<exists>ds. departures (startSignIn sample_env (js '' https://docs.example/a'') True sample_tab) = departures sample_tab @ ds
     \<and> length ds \<le> 1 \<and> (\<forall>d \<in> set ds. safe_departure sample_env d \<and> (\<forall>p. d = NavigateHref p \<longrightarrow> prefix (js ''/'') p))"
  by (rule sign_in_destination_safe[where r = JNull and answer = "Inl JNull" and login = AxiosFailure
      and b = sample_bundle and link = "js '' https://docs.example/a''" and x = True])
    (use sample_env_urls sample_paths in blast)+

text \<open>A link to another site that needs an account leads there: \<open>startSignIn\<close> keeps the address for the
  tab, and the next sign-in of the tab leaves for it, however long it takes and whatever else the tab stores
  meanwhile, and only that one; a sign-in after it goes to the path it was asked for.  Assumed are an
  address the browser writes the way it reads it (\<open>written_back\<close>), a usable session storage, and a language
  i18next can change to.\<close>

lemma external_target_reached_once:
  assumes "trim link = text" "regex_test httpPattern text" "\<not> js_includes text [92]"
    and "new_url env text = Some u" "http_url u" "written_back env u"
    and "\<not> storage_blocked (sessionStore tab)" "\<not> storage_full (sessionStore tab)" "language_fine env b"
    and "\<not> storage_blocked (sessionStore tab1)"
      "stored (sessionStore tab1) EXTERNAL_AUTH_REDIRECT_STORAGE_KEY
         = stored (sessionStore (startSignIn env link True tab)) EXTERNAL_AUTH_REDIRECT_STORAGE_KEY"
  shows "\<exists>tab2. handleLoginSuccess env b r tab1 = (None, tab2)
    \<and> departures tab2 = departures tab1 @ [LocationAssign (url_href u)]
    \<and> auth (tab_auth tab2) = setBundle b (auth (tab_auth tab1))
    \<and> (\<forall>tab3 r'. sessionStore tab3 = sessionStore tab2 \<longrightarrow>
         departures (snd (handleLoginSuccess env b r' tab3)) = departures tab3 @ [NavigateHref (safe_target env r')])"
proof -
  have "stored (sessionStore tab1) EXTERNAL_AUTH_REDIRECT_STORAGE_KEY = Some (url_href u)"
    using start_external[OF assms(1-8)] assms(11) by simp
  from sign_in_with_target[OF assms(9,10) this assms(6,5)] obtain tab2 where
    t: "handleLoginSuccess env b r tab1 = (None, tab2)" "departures tab2 = departures tab1 @ [LocationAssign (url_href u)]"
    "stored (sessionStore tab2) EXTERNAL_AUTH_REDIRECT_STORAGE_KEY = None"
    "auth (tab_auth tab2) = setBundle b (auth (tab_auth tab1))" by blast
  have "departures (snd (handleLoginSuccess env b r' tab3)) = departures tab3 @ [NavigateHref (safe_target env r')]"
    if "sessionStore tab3 = sessionStore tab2" for tab3 r'
    using sign_in_without_target[OF assms(9), of tab3 r'] that t(3) by auto
  with t show ?thesis by blast
qed

text \<open>The OAuth callback does not know of the address another site is waiting under.  After a link that
  needs an account has led to a sign-in through OAuth, the tab is sent to its own path instead, the address
  stays in the tab, and the next sign-in through a form of the tab leaves for it unasked.\<close>

lemma oauth_sign_in_leaves_target_behind:
  assumes "trim link = text" "regex_test httpPattern text" "\<not> js_includes text [92]"
    and "new_url env text = Some u" "http_url u" "written_back env u"
    and "\<not> storage_blocked (sessionStore tab)" "\<not> storage_full (sessionStore tab)" "language_fine env b"
    and "\<not> storage_blocked (sessionStore tab1)"
      "stored (sessionStore tab1) EXTERNAL_AUTH_REDIRECT_STORAGE_KEY
         = stored (sessionStore (startSignIn env link True tab)) EXTERNAL_AUTH_REDIRECT_STORAGE_KEY"
    and "truthy (jget data (js ''success''))" "isAuthBundle (jget data (js ''data''))"
  shows "departures (oauth_login_answer env r (Inr data) tab1) = departures tab1 @ [NavigateHref (safe_target env r)]
    \<and> (\<forall>tab2 r'. sessionStore tab2 = sessionStore (oauth_login_answer env r (Inr data) tab1) \<longrightarrow>
         departures (snd (handleLoginSuccess env b r' tab2)) = departures tab2 @ [LocationAssign (url_href u)])"
proof -
  have kept: "sessionStore (oauth_login_answer env r (Inr data) tab1) = sessionStore tab1"
    using assms(12,13) by (simp add: oauth_login_answer_def safeNavigate_def)
  have "stored (sessionStore tab1) EXTERNAL_AUTH_REDIRECT_STORAGE_KEY = Some (url_href u)"
    using start_external[OF assms(1-8)] assms(11) by simp
  then have "departures (snd (handleLoginSuccess env b r' tab2)) = departures tab2 @ [LocationAssign (url_href u)]"
    if "sessionStore tab2 = sessionStore (oauth_login_answer env r (Inr data) tab1)" for tab2 r'
    using sign_in_with_target[OF assms(9) _ _ assms(6,5), of tab2 r'] that kept assms(10) by auto
  moreover have "departures (oauth_login_answer env r (Inr data) tab1) = departures tab1 @ [NavigateHref (safe_target env r)]"
    using assms(12,13) by (simp add: oauth_login_answer_def safeNavigate_def safe_target_def)
  ultimately show ?thesis by blast
qed

section \<open>Invitations and the limits of the redirect check\<close>

text \<open>An invitation in the entry address is kept in the tab, taken out of the address, sent with the
  registration, and gone from both storages once the registration has succeeded.\<close>

lemma invitation_sent_once:
  assumes "map_of params (js ''aff'') = Some code" "trim code \<noteq> []"
    and "\<not> storage_blocked (sessionStore tab)" "\<not> storage_full (sessionStore tab)" "\<not> storage_blocked (localStore tab)"
    and "syncInvitationCredentialsFromSearch params tab = (credentials, scrubbed, tab1)"
  shows "credentials = Some (trim code)" "\<exists>q. scrubbed = Some q \<and> js ''aff'' \<notin> fst ` set q"
    "register_aff aff tab1 = (trim code, tab1)"
    "truthy (jget data (js ''success'')) \<Longrightarrow> register_aff aff (register_answer data tab1) = (aff, register_answer data tab1)"
proof -
  have l: "storage_blocked (localStore (clearInvitationCredentials t)) = storage_blocked (localStore t)" for t
    by (simp add: clearInvitationCredentials_def remove_invitation_def storage_defs)
  let ?c = "clearInvitationCredentials tab"
  let ?s = "(sessionStore ?c)\<lparr>stored := (stored (sessionStore ?c))(js ''aff'' \<mapsto> trim code)\<rparr>"
  have "syncInvitationCredentialsFromSearch params tab = (Some (trim code),
      Some (filter (\<lambda>p. fst p \<noteq> js ''aff'' \<and> fst p \<noteq> js ''invite'') params), ?c\<lparr>sessionStore := ?s\<rparr>)"
    using assms(1-4) by (simp add: syncInvitationCredentialsFromSearch_def saveInvitationCredentials_def Let_def setItem_def)
  with assms(6) have eqs: "credentials = Some (trim code)" "tab1 = ?c\<lparr>sessionStore := ?s\<rparr>"
    "scrubbed = Some (filter (\<lambda>p. fst p \<noteq> js ''aff'' \<and> fst p \<noteq> js ''invite'') params)" by (auto simp only: prod.inject)
  then have t: "credentials = Some (trim code)" "stored (sessionStore tab1) (js ''aff'') = Some (trim code)"
      "\<not> storage_blocked (sessionStore tab1)" "\<not> storage_blocked (localStore tab1)"
    using assms(3,5) l by simp_all
  have s: "\<exists>q. scrubbed = Some q \<and> js ''aff'' \<notin> fst ` set q" using eqs(3) by auto
  show "credentials = Some (trim code)" by fact
  show "\<exists>q. scrubbed = Some q \<and> js ''aff'' \<notin> fst ` set q" by fact
  show "register_aff aff tab1 = (trim code, tab1)"
    using t assms(2) by (simp add: register_aff_def getInvitationCredentials_def getItem_def)
  have "clearInvitationCredentials (clearInvitationCredentials tab1) = clearInvitationCredentials tab1"
    using t(3,4) by (simp add: clearInvitationCredentials_def remove_invitation_def storage_defs fun_upd_idem_iff)
  then show "register_aff aff (register_answer data tab1) = (aff, register_answer data tab1)"
    if "truthy (jget data (js ''success''))"
    using that t(3) by (simp add: register_answer_def register_aff_def getInvitationCredentials_def getItem_def
        clearInvitation_stored)
qed

text \<open>Two slashes at the beginning are refused, but the check is made before the browser has removed the
  dot segments of the target: the path \<open>/.//host\<close> is given on as \<open>//host\<close>, which the check itself
  refuses.\<close>

lemma dot_segment_target:
  assumes "new_url env (page_origin env) = Some page" "http_url page"
    and "new_url_at env (js ''/.//evil.example'') (url_origin page) = Some u" "http_url u" "url_origin u = url_origin page"
    and "url_pathname u = js ''//evil.example''" "url_search u = []" "url_hash u = []"
  shows "sanitizeAuthRedirect env (JStr (js ''/.//evil.example'')) (page_origin env) = Some (js ''//evil.example'')"
    "sanitizeAuthRedirect env (JStr (js ''//evil.example'')) (page_origin env) = None"
proof -
  have t: "trim (js ''/.//evil.example'') = js ''/.//evil.example''" "trim (js ''//evil.example'') = js ''//evil.example''"
    by (simp_all add: jstr_eval trim_def is_space_def js_spaces_def)
  have "\<not> js_includes (js ''/.//evil.example'') [92]" by (simp add: jstr_eval js_includes_def)
  moreover have "prefix (js ''/'') (js ''/.//evil.example'')" "\<not> prefix (js ''//'') (js ''/.//evil.example'')"
    "prefix (js ''//'') (js ''//evil.example'')" by (simp_all add: jstr_eval)
  ultimately show "sanitizeAuthRedirect env (JStr (js ''/.//evil.example'')) (page_origin env) = Some (js ''//evil.example'')"
    "sanitizeAuthRedirect env (JStr (js ''//evil.example'')) (page_origin env) = None"
    using assms t by (simp_all add: sanitizeAuthRedirect_def http_url_def Let_def)
qed

end
