(* ===== verification/Oauth_Bind.thy ===== *)
theory Oauth_Bind
  imports Auth_Entry
begin

text \<open>
  Binding an account of an OAuth provider to the signed-in user: the profile tab
  (\<open>features/profile/components/tabs/account-bindings-tab.tsx\<close>) opens a popup, asks the gateway for the
  token of a flow, stamps the popup with it (\<open>features/auth/lib/oauth-callback-mode.ts\<close>) and sends it to
  the provider.  The popup comes back to the callback route (\<open>routes/oauth/$provider.tsx\<close>), recognises the
  flow by its stamp and posts the code to the tab that opened it; the tab exchanges the code and posts the
  result back, on which the popup closes (\<open>features/auth/lib/oauth-bind-window.ts\<close> has the two timers).

  The two windows are one state, the asynchronous functions are cut at their awaits, and everything
  between the cuts may happen in any order: messages arrive in any order, foreign windows send what
  they like, the user starts another binding, closes windows, or leaves the page, and the provider sends
  the popup to the callback route with any parameters.
\<close>

section \<open>Timers of the two windows\<close>

text \<open>\<open>startOAuthBindResponseDeadline\<close> and \<open>watchOAuthPopupClosed\<close>: the flag of the closure and whether the
  browser still has the timer.  A tick returns whether the callback is called.\<close>

record TimerCell =
  timer_active :: bool
  timer_scheduled :: bool

definition timer_start :: TimerCell where
  "timer_start = \<lparr>timer_active = True, timer_scheduled = True\<rparr>"

definition deadline_tick :: "TimerCell \<Rightarrow> bool \<times> TimerCell" where
  "deadline_tick c = (if \<not> timer_active c then (False, c\<lparr>timer_scheduled := False\<rparr>)
     else (True, c\<lparr>timer_active := False, timer_scheduled := False\<rparr>))"

definition watcher_tick :: "bool \<Rightarrow> TimerCell \<Rightarrow> bool \<times> TimerCell" where
  "watcher_tick gone c = (if \<not> timer_active c \<or> \<not> gone then (False, c)
     else (True, c\<lparr>timer_active := False, timer_scheduled := False\<rparr>))"

definition timer_cancel :: "TimerCell \<Rightarrow> TimerCell" where
  "timer_cancel c = (if \<not> timer_active c then c else c\<lparr>timer_active := False, timer_scheduled := False\<rparr>)"

lemma timer_facts [simp]:
  "\<not> timer_active (timer_cancel c)" "timer_active timer_start"
  "fst (deadline_tick c) = timer_active c" "\<not> timer_active (snd (deadline_tick c))"
  "fst (watcher_tick gone c) = (timer_active c \<and> gone)"
  by (simp_all add: timer_cancel_def timer_start_def deadline_tick_def watcher_tick_def)

section \<open>Which callback is a bind\<close>

definition OAUTH_BIND_FLOW_KEY_PREFIX :: jstr where
  "OAUTH_BIND_FLOW_KEY_PREFIX = js ''oauth_bind_flow:''"

datatype OAuthCallbackMode = LoginMode | BindMode

text \<open>\<open>sessionStorage\<close> of a window, \<open>null\<close> where the browser refuses it.\<close>

definition getOAuthSessionStorage :: "WebStorage \<Rightarrow> WebStorage option" where
  "getOAuthSessionStorage s = (if storage_blocked s then None else Some s)"

text \<open>The storage after the mark, and whether the mark could be read back.\<close>

definition markOAuthBindPopup :: "WebStorage option \<Rightarrow> jstr \<Rightarrow> jstr \<Rightarrow> bool \<times> WebStorage option" where
  "markOAuthBindPopup storage provider flow =
     (case storage of None \<Rightarrow> (False, storage)
      | Some s \<Rightarrow>
          if provider = [] \<or> flow = [] then (False, storage)
          else case setItem (OAUTH_BIND_FLOW_KEY_PREFIX @ provider) flow s of
            None \<Rightarrow> (False, storage)
          | Some s' \<Rightarrow> (getItem (OAUTH_BIND_FLOW_KEY_PREFIX @ provider) s' = Some (Some flow), Some s'))"

text \<open>\<open>opener\<close> is \<open>None\<close> where there is none, and otherwise tells whether it is closed.\<close>

definition resolveOAuthCallbackMode ::
  "jstr \<Rightarrow> jstr \<Rightarrow> bool option \<Rightarrow> WebStorage option \<Rightarrow> OAuthCallbackMode" where
  "resolveOAuthCallbackMode provider flow opener storage =
     (case (opener, storage) of
        (Some False, Some s) \<Rightarrow>
          if flow = [] then LoginMode
          else (case getItem (OAUTH_BIND_FLOW_KEY_PREFIX @ provider) s of
            None \<Rightarrow> LoginMode
          | Some markedState \<Rightarrow> if markedState = Some flow then BindMode else LoginMode)
      | _ \<Rightarrow> LoginMode)"

text \<open>The mark is what makes a callback a bind: the popup that was marked with the flow, and only for this
  provider and this flow.\<close>

lemma bind_mode_iff:
  "resolveOAuthCallbackMode provider flow opener storage = BindMode \<longleftrightarrow>
     opener = Some False \<and> flow \<noteq> [] \<and>
     (\<exists>s. storage = Some s \<and> \<not> storage_blocked s \<and> stored s (OAUTH_BIND_FLOW_KEY_PREFIX @ provider) = Some flow)"
  by (auto simp: resolveOAuthCallbackMode_def getItem_def split: option.splits bool.splits)

lemma marked_popup_binds:
  assumes "markOAuthBindPopup (Some s) provider flow = (True, s')"
  shows "resolveOAuthCallbackMode p f (Some False) s' = BindMode \<longleftrightarrow>
     f \<noteq> [] \<and> (if p = provider then f = flow else stored s (OAUTH_BIND_FLOW_KEY_PREFIX @ p) = Some f)"
  using assms by (auto simp: bind_mode_iff markOAuthBindPopup_def setItem_def getItem_def split: if_splits)

section \<open>The Telegram callback\<close>

record TelegramBindCallbackSearch =
  telegram_bind :: "jstr option"
  flow_token :: "jstr option"
  error_code :: "jstr option"

datatype TelegramBindCallback = TelegramResult jstr bool "jstr option" | TelegramInvalid

definition parseTelegramBindCallback :: "TelegramBindCallbackSearch \<Rightarrow> TelegramBindCallback option" where
  "parseTelegramBindCallback search =
     (if telegram_bind search \<noteq> Some (js ''success'') \<and> telegram_bind search \<noteq> Some (js ''error'') then None
      else if \<not> str_truthy (flow_token search) then Some TelegramInvalid
      else if telegram_bind search = Some (js ''success'') then Some (TelegramResult (the (flow_token search)) True None)
      else Some (TelegramResult (the (flow_token search)) False (error_code search)))"

section \<open>Messages and windows\<close>

datatype BindMessage =
    CallbackMsg jstr jstr jstr "jstr option" "jstr option"
  | ResultMsg jstr jstr bool jval
  | TelegramMsg jstr bool "jstr option"
  | OtherMsg jval

text \<open>The window a message comes from; the browser gives it, so it cannot be forged.\<close>

datatype Source = FromPopup nat | FromOpener | FromElsewhere

record Posting =
  post_origin :: jstr
  post_source :: Source
  post_data :: BindMessage

definition postTelegramBindResult :: "TelegramBindCallback \<Rightarrow> bool option \<Rightarrow> BindMessage option" where
  "postTelegramBindResult callback opener =
     (case (callback, opener) of
        (TelegramResult token success code, Some False) \<Rightarrow> Some (TelegramMsg token success code)
      | _ \<Rightarrow> None)"

record CallbackSearch =
  search_code :: "jstr option"
  search_state :: "jstr option"
  search_error :: "jstr option"
  search_description :: "jstr option"
  search_telegram :: TelegramBindCallbackSearch

text \<open>What a popup shows: still blank, somewhere else, the callback route in login mode, the route waiting for
  the result of a bind (with its deadline and whether closing is scheduled), or the route about to close.\<close>

datatype PopupPage =
    BlankPage
  | AwayPage
  | LoginPage jstr CallbackSearch
  | BindPage jstr jstr TimerCell bool
  | IdlePage bool

record Popup =
  popup_closed :: bool
  popup_store :: WebStorage
  popup_page :: PopupPage

text \<open>\<open>PendingOAuthBinding\<close>: the popup of the pending binding with number \<open>n\<close> is the \<open>n\<close>-th popup.\<close>

record PendingOAuthBinding =
  pending_provider :: jstr
  pending_state :: jstr
  pending_watcher :: TimerCell

record Exchange =
  ex_popup :: nat
  ex_provider :: jstr
  ex_state :: jstr
  ex_code :: "jstr option"
  ex_error :: "jstr option"
  ex_description :: "jstr option"

text \<open>The profile tab and its popups.  The last four fields are a history: the flows the gateway has granted,
  the callbacks the route has posted, the exchanges that were requested, and the number of calls of \<open>onUpdate\<close>.\<close>

record BindWorld =
  pendings :: "PendingOAuthBinding list"
  popups :: "Popup list"
  current_binding :: "nat option"
  flow_requests :: "nat list"
  to_opener :: "Posting list"
  to_popups :: "(nat \<times> Posting) list"
  exchanging :: "Exchange list"
  reloading :: "(Exchange \<times> jval) list"
  listening :: bool
  opener_closed :: bool
  custom_bindings :: jval
  bind_toasts :: "Toast list"
  popup_toasts :: "(nat \<times> Toast) list"
  granted :: "(nat \<times> jstr) list"
  called_back :: "(nat \<times> BindMessage) list"
  exchanged :: "Exchange list"
  updates :: nat

definition initial_world :: BindWorld where
  "initial_world = \<lparr>pendings = [], popups = [], current_binding = None, flow_requests = [], to_opener = [],
     to_popups = [], exchanging = [], reloading = [], listening = True, opener_closed = False,
     custom_bindings = JArr [], bind_toasts = [], popup_toasts = [], granted = [], called_back = [], exchanged = [], updates = 0\<rparr>"

section \<open>The profile tab\<close>

definition on_popup :: "nat \<Rightarrow> (Popup \<Rightarrow> Popup) \<Rightarrow> BindWorld \<Rightarrow> BindWorld" where
  "on_popup n f w = w\<lparr>popups := (popups w)[n := f (popups w ! n)]\<rparr>"

definition on_pending :: "nat \<Rightarrow> (PendingOAuthBinding \<Rightarrow> PendingOAuthBinding) \<Rightarrow> BindWorld \<Rightarrow> BindWorld" where
  "on_pending n f w = w\<lparr>pendings := (pendings w)[n := f (pendings w ! n)]\<rparr>"

definition close_popup :: "nat \<Rightarrow> BindWorld \<Rightarrow> BindWorld" where
  "close_popup n = on_popup n (\<lambda>p. p\<lparr>popup_closed := True\<rparr>)"

definition opener_toast :: "Toast \<Rightarrow> BindWorld \<Rightarrow> BindWorld" where
  "opener_toast x w = w\<lparr>bind_toasts := bind_toasts w @ [x]\<rparr>"

definition popup_toast :: "nat \<Rightarrow> Toast \<Rightarrow> BindWorld \<Rightarrow> BindWorld" where
  "popup_toast n x w = w\<lparr>popup_toasts := popup_toasts w @ [(n, x)]\<rparr>"

abbreviation say_key :: "translation \<Rightarrow> string \<Rightarrow> jval" where
  "say_key t s \<equiv> t (KeyText (js s))"

definition clearPendingOAuthBinding :: "nat option \<Rightarrow> BindWorld \<Rightarrow> BindWorld" where
  "clearPendingOAuthBinding expected w =
     (case current_binding w of None \<Rightarrow> w
      | Some n \<Rightarrow>
          if expected \<noteq> None \<and> expected \<noteq> Some n then w
          else (on_pending n (\<lambda>p. p\<lparr>pending_watcher := timer_cancel (pending_watcher p)\<rparr>) w)\<lparr>current_binding := None\<rparr>)"

text \<open>\<open>startOAuthBinding\<close> up to its await.  \<open>opened\<close> is what \<open>window.open\<close> gives: nothing when the popup is
  blocked, and otherwise the storage of the new window, which the browser may fill from the opener's.\<close>

definition startOAuthBinding :: "translation \<Rightarrow> jstr \<Rightarrow> WebStorage option \<Rightarrow> BindWorld \<Rightarrow> BindWorld" where
  "startOAuthBinding t provider opened w =
     (let w1 = (case current_binding w of None \<Rightarrow> w
                | Some n \<Rightarrow> close_popup n (clearPendingOAuthBinding (Some n) w))
      in case opened of None \<Rightarrow> opener_toast (ToastError (say_key t ''OAuth pop-up was blocked'')) w1
         | Some s \<Rightarrow> w1\<lparr>
             popups := popups w1 @ [\<lparr>popup_closed = False, popup_store = s, popup_page = BlankPage\<rparr>],
             pendings := pendings w1 @ [\<lparr>pending_provider = provider, pending_state = [], pending_watcher = timer_start\<rparr>],
             current_binding := Some (length (popups w1)),
             flow_requests := flow_requests w1 @ [length (popups w1)]\<rparr>)"

text \<open>The storage of a popup as the tab sees it: a window on another site gives no access.\<close>

definition popup_storage :: "Popup \<Rightarrow> WebStorage option" where
  "popup_storage p = (if popup_page p = AwayPage then None else getOAuthSessionStorage (popup_store p))"

definition binding_failed :: "translation \<Rightarrow> nat \<Rightarrow> BindWorld \<Rightarrow> BindWorld" where
  "binding_failed t n w =
     (let isCurrent = (current_binding w = Some n);
          w1 = close_popup n (clearPendingOAuthBinding (Some n) w)
      in if isCurrent then opener_toast (ToastError (say_key t ''Failed to initialize OAuth'')) w1 else w1)"

text \<open>\<open>startOAuthBinding\<close> after its await, with the token of the flow or the failure of the request; \<open>buildUrl\<close>
  gives \<open>None\<close> where it throws.\<close>

definition flow_answer ::
  "translation \<Rightarrow> nat \<Rightarrow> jstr option \<Rightarrow> (jstr \<Rightarrow> jstr option) \<Rightarrow> BindWorld \<Rightarrow> BindWorld" where
  "flow_answer t n answer buildUrl w0 =
     (let w = w0\<lparr>flow_requests := remove1 n (flow_requests w0)\<rparr> in
      case answer of None \<Rightarrow> binding_failed t n w
      | Some flow \<Rightarrow>
          if current_binding w \<noteq> Some n \<or> popup_closed (popups w ! n) then w
          else (let (marked, s) = markOAuthBindPopup (popup_storage (popups w ! n)) (pending_provider (pendings w ! n)) flow;
                    w1 = (case s of None \<Rightarrow> w | Some s' \<Rightarrow> on_popup n (\<lambda>p. p\<lparr>popup_store := s'\<rparr>) w)
                in if \<not> marked then binding_failed t n w1
                   else (let w2 = on_pending n (\<lambda>p. p\<lparr>pending_state := flow\<rparr>) (w1\<lparr>granted := granted w1 @ [(n, flow)]\<rparr>)
                         in case buildUrl flow of None \<Rightarrow> binding_failed t n w2
                            | Some url \<Rightarrow> on_popup n (\<lambda>p. p\<lparr>popup_page := AwayPage\<rparr>) w2)))"

definition post_result :: "jstr \<Rightarrow> Exchange \<Rightarrow> bool \<Rightarrow> jval \<Rightarrow> BindWorld \<Rightarrow> BindWorld" where
  "post_result org ex success message w = w\<lparr>to_popups := to_popups w @ [(ex_popup ex,
     \<lparr>post_origin = org, post_source = FromOpener,
      post_data = ResultMsg (ex_provider ex) (ex_state ex) success message\<rparr>)]\<rparr>"

definition nonempty :: "jstr \<Rightarrow> jstr option" where
  "nonempty s = (if s = [] then None else Some s)"

definition truthy_part :: "jstr option \<Rightarrow> jstr option" where
  "truthy_part x = Option.bind x nonempty"

text \<open>\<open>handleMessage\<close> up to its request.\<close>

definition handleMessage :: "translation \<Rightarrow> jstr \<Rightarrow> Posting \<Rightarrow> BindWorld \<Rightarrow> BindWorld" where
  "handleMessage t org event w =
     (if post_origin event \<noteq> org then w
      else case (post_data event, current_binding w) of
        (CallbackMsg provider flow code error description, Some n) \<Rightarrow>
          if provider \<noteq> pending_provider (pendings w ! n) \<or> flow \<noteq> pending_state (pendings w ! n)
             \<or> post_source event \<noteq> FromPopup n then w
          else (let w1 = clearPendingOAuthBinding (Some n) w;
                    ex = \<lparr>ex_popup = n, ex_provider = provider, ex_state = flow, ex_code = nonempty code,
                          ex_error = truthy_part error, ex_description = truthy_part description\<rparr>
                in if code = [] \<and> \<not> str_truthy error
                   then post_result org ex False (say_key t ''Missing code'')
                          (opener_toast (ToastError (say_key t ''Missing code'')) w1)
                   else w1\<lparr>exchanging := exchanging w1 @ [ex], exchanged := exchanged w1 @ [ex]\<rparr>)
      | _ \<Rightarrow> w)"

text \<open>The answer of the exchange: the data of the response, or the error thrown.  On success the list of
  bindings is fetched again before the popup is told.\<close>

definition exchange_answer :: "translation \<Rightarrow> jstr \<Rightarrow> Exchange \<Rightarrow> jval + jval \<Rightarrow> BindWorld \<Rightarrow> BindWorld" where
  "exchange_answer t org ex answer w0 =
     (let w = w0\<lparr>exchanging := remove1 ex (exchanging w0)\<rparr> in
      case answer of
        Inr data \<Rightarrow>
          (let resultMessage = js_or (jget data (js ''message'')) (say_key t ''OAuth failed'') in
           if truthy (jget data (js ''success''))
           then (opener_toast (ToastSuccess (say_key t ''Binding successful!'')) w)\<lparr>
                  updates := updates w + 1, reloading := reloading w @ [(ex, resultMessage)]\<rparr>
           else post_result org ex False resultMessage (opener_toast (ToastError resultMessage) w))
      | Inl error \<Rightarrow>
          (let resultMessage = js_or (jget (jget (jget error (js ''response'')) (js ''data'')) (js ''message''))
                 (if is_string (jget error (js ''message'')) then jget error (js ''message'') else say_key t ''OAuth failed'')
           in post_result org ex False resultMessage (opener_toast (ToastError resultMessage) w)))"

definition reload_done :: "jstr \<Rightarrow> Exchange \<times> jval \<Rightarrow> jval option \<Rightarrow> BindWorld \<Rightarrow> BindWorld" where
  "reload_done org job answer w0 =
     (let w = w0\<lparr>reloading := remove1 job (reloading w0)\<rparr>;
          w1 = (case answer of None \<Rightarrow> w | Some bindings \<Rightarrow> w\<lparr>custom_bindings := bindings\<rparr>)
      in post_result org (fst job) True (snd job) w1)"

definition watcher_fires :: "nat \<Rightarrow> BindWorld \<Rightarrow> BindWorld" where
  "watcher_fires n w =
     (let (fired, c) = watcher_tick (popup_closed (popups w ! n)) (pending_watcher (pendings w ! n));
          w1 = on_pending n (\<lambda>p. p\<lparr>pending_watcher := c\<rparr>) w
      in if fired then clearPendingOAuthBinding (Some n) w1 else w1)"

text \<open>Leaving the page: the cleanup of the two effects.\<close>

definition unmount_tab :: "BindWorld \<Rightarrow> BindWorld" where
  "unmount_tab w =
     (let w1 = clearPendingOAuthBinding (current_binding w) w;
          w2 = (case current_binding w of None \<Rightarrow> w1 | Some n \<Rightarrow> close_popup n w1)
      in w2\<lparr>listening := False\<rparr>)"

section \<open>The callback route in the popup\<close>

definition or_empty :: "jstr option \<Rightarrow> jstr" where
  "or_empty x = (case x of None \<Rightarrow> [] | Some s \<Rightarrow> s)"

definition show_page :: "nat \<Rightarrow> PopupPage \<Rightarrow> BindWorld \<Rightarrow> BindWorld" where
  "show_page n page = on_popup n (\<lambda>p. p\<lparr>popup_page := page\<rparr>)"

definition post_to_opener :: "jstr \<Rightarrow> nat \<Rightarrow> BindMessage \<Rightarrow> BindWorld \<Rightarrow> BindWorld" where
  "post_to_opener org n m w = w\<lparr>to_opener := to_opener w @ [\<lparr>post_origin = org, post_source = FromPopup n, post_data = m\<rparr>]\<rparr>"

text \<open>The popup is sent to \<open>/oauth/:provider\<close> with the parameters of the query, and the effect of the route runs.\<close>

definition popup_lands :: "translation \<Rightarrow> jstr \<Rightarrow> nat \<Rightarrow> jstr \<Rightarrow> CallbackSearch \<Rightarrow> BindWorld \<Rightarrow> BindWorld" where
  "popup_lands t org n provider search w =
     (let callbackState = or_empty (search_state search);
          telegramCallback = (if provider = js ''telegram'' then parseTelegramBindCallback (search_telegram search) else None)
      in case telegramCallback of
        Some callback \<Rightarrow>
          (case postTelegramBindResult callback (Some (opener_closed w)) of
             Some m \<Rightarrow> close_popup n (show_page n (IdlePage False) (post_to_opener org n m w))
           | None \<Rightarrow> show_page n (IdlePage True)
               (popup_toast n (ToastError (say_key t ''Telegram binding failed. Please try again.'')) w))
      | None \<Rightarrow>
          if resolveOAuthCallbackMode provider callbackState (Some (opener_closed w))
               (getOAuthSessionStorage (popup_store (popups w ! n))) = BindMode
          then (let m = CallbackMsg provider callbackState (or_empty (search_code search)) (search_error search)
                      (search_description search)
                in (post_to_opener org n m (show_page n (BindPage provider callbackState timer_start False) w))\<lparr>
                     called_back := called_back w @ [(n, m)]\<rparr>)
          else show_page n (LoginPage provider search) w)"

definition handleBindingResult :: "translation \<Rightarrow> jstr \<Rightarrow> nat \<Rightarrow> Posting \<Rightarrow> BindWorld \<Rightarrow> BindWorld" where
  "handleBindingResult t org n event w =
     (case popup_page (popups w ! n) of
        BindPage provider flow c closing \<Rightarrow>
          if post_origin event \<noteq> org \<or> post_source event \<noteq> FromOpener then w
          else (case post_data event of
            ResultMsg p f success message \<Rightarrow>
              if p \<noteq> provider \<or> f \<noteq> flow then w
              else if success
              then close_popup n (popup_toast n (ToastSuccess (say_key t ''Binding successful!''))
                     (show_page n (BindPage provider flow (timer_cancel c) closing) w))
              else popup_toast n (ToastError (js_or message (say_key t ''OAuth failed'')))
                     (show_page n (BindPage provider flow (timer_cancel c) True) w)
          | _ \<Rightarrow> w)
      | _ \<Rightarrow> w)"

definition deadline_fires :: "translation \<Rightarrow> nat \<Rightarrow> BindWorld \<Rightarrow> BindWorld" where
  "deadline_fires t n w =
     (case popup_page (popups w ! n) of
        BindPage provider flow c closing \<Rightarrow>
          (let (fired, c') = deadline_tick c in
           if fired
           then show_page n (BindPage provider flow c' True)
                  (popup_toast n (ToastError (say_key t ''OAuth binding timed out. Please try again.'')) w)
           else show_page n (BindPage provider flow c' closing) w)
      | _ \<Rightarrow> w)"

fun closes_itself :: "PopupPage \<Rightarrow> bool" where
  "closes_itself (BindPage provider flow c closing) = closing"
| "closes_itself (IdlePage closing) = closing"
| "closes_itself _ = False"

section \<open>Everything that can happen\<close>

definition popup_open :: "nat \<Rightarrow> BindWorld \<Rightarrow> bool" where
  "popup_open n w \<longleftrightarrow> n < length (popups w) \<and> \<not> popup_closed (popups w ! n)"

inductive bind_step :: "translation \<Rightarrow> jstr \<Rightarrow> BindWorld \<Rightarrow> BindWorld \<Rightarrow> bool" for t org where
  Click: "listening w \<Longrightarrow> bind_step t org w (startOAuthBinding t provider opened w)"
| Flow: "n \<in> set (flow_requests w) \<Longrightarrow> \<not> opener_closed w \<Longrightarrow> bind_step t org w (flow_answer t n answer buildUrl w)"
| Deliver: "p \<in> set (to_opener w) \<Longrightarrow> bind_step t org w
    ((if listening w then handleMessage t org p else (\<lambda>w. w)) (w\<lparr>to_opener := remove1 p (to_opener w)\<rparr>))"
| Exchanged: "ex \<in> set (exchanging w) \<Longrightarrow> \<not> opener_closed w \<Longrightarrow> bind_step t org w (exchange_answer t org ex answer w)"
| Reloaded: "job \<in> set (reloading w) \<Longrightarrow> \<not> opener_closed w \<Longrightarrow> bind_step t org w (reload_done org job bindings w)"
| Watch: "n < length (pendings w) \<Longrightarrow> timer_scheduled (pending_watcher (pendings w ! n)) \<Longrightarrow> \<not> opener_closed w \<Longrightarrow>
    bind_step t org w (watcher_fires n w)"
| Unmount: "listening w \<Longrightarrow> bind_step t org w (unmount_tab w)"
| Mount: "\<not> opener_closed w \<Longrightarrow> bind_step t org w (w\<lparr>listening := True\<rparr>)"
| OpenerCloses: "bind_step t org w (w\<lparr>listening := False, opener_closed := True\<rparr>)"
| Land: "popup_open n w \<Longrightarrow> bind_step t org w (popup_lands t org n provider search w)"
| Wander: "popup_open n w \<Longrightarrow> bind_step t org w (show_page n AwayPage w)"
| Result: "(n, p) \<in> set (to_popups w) \<Longrightarrow> bind_step t org w
    ((if popup_open n w then handleBindingResult t org n p else (\<lambda>w. w)) (w\<lparr>to_popups := remove1 (n, p) (to_popups w)\<rparr>))"
| Deadline: "popup_open n w \<Longrightarrow> popup_page (popups w ! n) = BindPage provider flow c closing \<Longrightarrow> timer_scheduled c \<Longrightarrow>
    bind_step t org w (deadline_fires t n w)"
| SelfClose: "popup_open n w \<Longrightarrow> closes_itself (popup_page (popups w ! n)) \<Longrightarrow> bind_step t org w (close_popup n w)"
| UserCloses: "popup_open n w \<Longrightarrow> bind_step t org w (close_popup n w)"
| ForeignToOpener: "post_source p = FromElsewhere \<or> post_origin p \<noteq> org \<Longrightarrow>
    bind_step t org w (w\<lparr>to_opener := to_opener w @ [p]\<rparr>)"
| ForeignToPopup: "post_source p \<noteq> FromOpener \<or> post_origin p \<noteq> org \<Longrightarrow>
    bind_step t org w (w\<lparr>to_popups := to_popups w @ [(n, p)]\<rparr>)"

inductive_cases bind_stepE: "bind_step t org w w'"

definition reachable_binding :: "translation \<Rightarrow> jstr \<Rightarrow> BindWorld \<Rightarrow> bool" where
  "reachable_binding t org w \<longleftrightarrow> (bind_step t org)\<^sup>*\<^sup>* initial_world w"

section \<open>The invariant\<close>

text \<open>What a binding asks for: its provider, and the flow once it is granted.\<close>

definition asked :: "BindWorld \<Rightarrow> (jstr \<times> jstr) list" where
  "asked w = map (\<lambda>p. (pending_provider p, pending_state p)) (pendings w)"

text \<open>An exchange agrees with its binding when it uses the provider the user chose, the flow the gateway has
  granted for this binding, and the code the callback route has posted from the popup opened for it.\<close>

definition agreed :: "BindWorld \<Rightarrow> Exchange \<Rightarrow> bool" where
  "agreed w ex \<longleftrightarrow> ex_popup ex < length (asked w) \<and> asked w ! ex_popup ex = (ex_provider ex, ex_state ex)
     \<and> (ex_popup ex, ex_state ex) \<in> set (granted w)
     \<and> (\<exists>code error description.
          (ex_popup ex, CallbackMsg (ex_provider ex) (ex_state ex) code error description) \<in> set (called_back w)
          \<and> ex_code ex = nonempty code \<and> ex_error ex = truthy_part error \<and> ex_description ex = truthy_part description)"

fun genuine :: "(nat \<times> BindMessage) list \<Rightarrow> nat \<Rightarrow> BindMessage \<Rightarrow> bool" where
  "genuine posted n (CallbackMsg provider flow code error description) \<longleftrightarrow>
     flow \<noteq> [] \<and> (n, CallbackMsg provider flow code error description) \<in> set posted"
| "genuine posted n _ \<longleftrightarrow> True"

definition bind_inv :: "jstr \<Rightarrow> BindWorld \<Rightarrow> bool" where
  "bind_inv org w \<longleftrightarrow> length (popups w) = length (asked w)
     \<and> (\<forall>n. current_binding w = Some n \<longrightarrow> n < length (asked w) \<and> n \<notin> ex_popup ` set (exchanged w))
     \<and> (\<forall>n < length (asked w). snd (asked w ! n) \<noteq> [] \<longrightarrow> (n, snd (asked w ! n)) \<in> set (granted w))
     \<and> (\<forall>p \<in> set (to_opener w). \<forall>n. post_origin p = org \<longrightarrow> post_source p = FromPopup n \<longrightarrow> genuine (called_back w) n (post_data p))
     \<and> (\<forall>ex \<in> set (exchanged w). agreed w ex) \<and> distinct (map ex_popup (exchanged w))"

text \<open>Which fields the primitives leave alone.\<close>

lemma asked_on_pending:
  "(\<And>p. pending_provider (f p) = pending_provider p) \<Longrightarrow> (\<And>p. pending_state (f p) = pending_state p) \<Longrightarrow>
     asked (on_pending n f w) = asked w"
  by (rule nth_equalityI; cases "n < length (pendings w)")
    (auto simp: asked_def on_pending_def nth_list_update list_update_beyond)

lemma asked_simps [simp]:
  "asked (on_popup n g w) = asked w" "asked (close_popup n w) = asked w" "asked (show_page n page w) = asked w"
  "asked (opener_toast x w) = asked w" "asked (popup_toast n x w) = asked w"
  "asked (post_result org ex ok m w) = asked w" "asked (post_to_opener org n m' w) = asked w"
  by (simp_all add: asked_def on_popup_def close_popup_def show_page_def opener_toast_def popup_toast_def
      post_result_def post_to_opener_def)

lemma asked_updates [simp]:
  "asked (w\<lparr>to_opener := a\<rparr>) = asked w" "asked (w\<lparr>to_popups := b\<rparr>) = asked w" "asked (w\<lparr>listening := l\<rparr>) = asked w"
  "asked (w\<lparr>opener_closed := l\<rparr>) = asked w" "asked (w\<lparr>current_binding := c\<rparr>) = asked w"
  "asked (w\<lparr>flow_requests := fs\<rparr>) = asked w" "asked (w\<lparr>exchanging := es\<rparr>) = asked w"
  "asked (w\<lparr>exchanged := es\<rparr>) = asked w" "asked (w\<lparr>reloading := js'\<rparr>) = asked w" "asked (w\<lparr>updates := k\<rparr>) = asked w"
  "asked (w\<lparr>custom_bindings := cb\<rparr>) = asked w" "asked (w\<lparr>granted := gs\<rparr>) = asked w"
  "asked (w\<lparr>called_back := cs\<rparr>) = asked w" "asked (w\<lparr>popups := ps\<rparr>) = asked w"
  by (simp_all add: asked_def)

lemmas primitive_defs = on_popup_def close_popup_def show_page_def opener_toast_def popup_toast_def post_result_def

text \<open>The part of the state the invariant speaks of.\<close>

definition bind_core where
  "bind_core w = (length (popups w), asked w, current_binding w, to_opener w, exchanged w, granted w, called_back w)"

lemma bind_inv_core: "bind_core w = bind_core w' \<Longrightarrow> bind_inv org w = bind_inv org w'"
  by (auto simp: bind_core_def bind_inv_def agreed_def)

lemma core_simps [simp]:
  "bind_core (on_popup n g w) = bind_core w" "bind_core (close_popup n w) = bind_core w"
  "bind_core (show_page n page w) = bind_core w" "bind_core (opener_toast x w) = bind_core w"
  "bind_core (popup_toast n x w) = bind_core w" "bind_core (post_result org ex ok m w) = bind_core w"
  by (simp_all add: bind_core_def primitive_defs asked_def)

lemma core_updates [simp]:
  "bind_core (w\<lparr>to_popups := b\<rparr>) = bind_core w" "bind_core (w\<lparr>listening := l\<rparr>) = bind_core w"
  "bind_core (w\<lparr>opener_closed := l\<rparr>) = bind_core w" "bind_core (w\<lparr>flow_requests := fs\<rparr>) = bind_core w"
  "bind_core (w\<lparr>exchanging := es\<rparr>) = bind_core w" "bind_core (w\<lparr>reloading := js'\<rparr>) = bind_core w"
  "bind_core (w\<lparr>updates := k\<rparr>) = bind_core w" "bind_core (w\<lparr>custom_bindings := cb\<rparr>) = bind_core w"
  by (simp_all add: bind_core_def)

text \<open>Forgetting the pending binding keeps the invariant.\<close>

lemma clearPending_fields [simp]:
  "asked (clearPendingOAuthBinding e w) = asked w" "popups (clearPendingOAuthBinding e w) = popups w"
  "to_opener (clearPendingOAuthBinding e w) = to_opener w" "exchanged (clearPendingOAuthBinding e w) = exchanged w"
  "granted (clearPendingOAuthBinding e w) = granted w" "called_back (clearPendingOAuthBinding e w) = called_back w"
  "exchanging (clearPendingOAuthBinding e w) = exchanging w"
  by (simp_all add: clearPendingOAuthBinding_def asked_on_pending split: option.split)
    (simp_all add: on_pending_def)

lemma clearPending_current:
  "current_binding (clearPendingOAuthBinding (Some n) w) = (if current_binding w = Some n then None else current_binding w)"
  by (simp add: clearPendingOAuthBinding_def split: option.split)

lemma clearPending_less: "current_binding (clearPendingOAuthBinding e w) \<in> {None, current_binding w}"
  by (simp add: clearPendingOAuthBinding_def split: option.split)

lemma forget_current:
  "bind_inv org w \<Longrightarrow> length (popups w') = length (popups w) \<Longrightarrow> asked w' = asked w \<Longrightarrow> to_opener w' = to_opener w \<Longrightarrow>
   exchanged w' = exchanged w \<Longrightarrow> granted w' = granted w \<Longrightarrow> called_back w' = called_back w \<Longrightarrow>
   current_binding w' \<in> {None, current_binding w} \<Longrightarrow> bind_inv org w'"
  by (auto simp: bind_inv_def agreed_def)

lemma clearPending_inv [intro]: "bind_inv org w \<Longrightarrow> bind_inv org (clearPendingOAuthBinding e w)"
  by (erule forget_current) (simp_all add: clearPending_less del: insert_iff)

section \<open>Every step keeps it\<close>

lemma start_inv: "bind_inv org w \<Longrightarrow> bind_inv org (startOAuthBinding t provider opened w)"
proof -
  assume inv: "bind_inv org w"
  define w1 where "w1 = (case current_binding w of None \<Rightarrow> w
    | Some n \<Rightarrow> close_popup n (clearPendingOAuthBinding (Some n) w))"
  have i1: "bind_inv org w1" using inv by (auto simp: w1_def bind_inv_core[OF core_simps(2)] split: option.split)
  show ?thesis
  proof (cases opened)
    case None
    then show ?thesis using i1 by (simp add: startOAuthBinding_def w1_def[symmetric] bind_inv_core[OF core_simps(4)])
  next
    case (Some s)
    have "asked (startOAuthBinding t provider opened w) = asked w1 @ [(provider, [])]"
      using Some by (simp add: startOAuthBinding_def w1_def[symmetric] asked_def)
    then show ?thesis using i1 Some
      by (auto simp: bind_inv_def startOAuthBinding_def w1_def[symmetric] agreed_def nth_append less_Suc_eq)
  qed
qed

lemma failed_inv: "bind_inv org w \<Longrightarrow> bind_inv org (binding_failed t n w)"
  by (auto simp: binding_failed_def Let_def bind_inv_core[OF core_simps(4)] bind_inv_core[OF core_simps(2)])
lemma core_inv:
  "bind_inv org (close_popup n w) = bind_inv org w" "bind_inv org (show_page n page w) = bind_inv org w"
  "bind_inv org (on_popup n g w) = bind_inv org w" "bind_inv org (opener_toast x w) = bind_inv org w"
  "bind_inv org (popup_toast n x w) = bind_inv org w" "bind_inv org (post_result o' ex ok m w) = bind_inv org w"
  "bind_inv org (w\<lparr>to_popups := b\<rparr>) = bind_inv org w" "bind_inv org (w\<lparr>listening := l\<rparr>) = bind_inv org w"
  "bind_inv org (w\<lparr>opener_closed := l\<rparr>) = bind_inv org w" "bind_inv org (w\<lparr>flow_requests := fs\<rparr>) = bind_inv org w"
  "bind_inv org (w\<lparr>exchanging := es\<rparr>) = bind_inv org w" "bind_inv org (w\<lparr>reloading := js'\<rparr>) = bind_inv org w"
  "bind_inv org (w\<lparr>updates := k\<rparr>) = bind_inv org w" "bind_inv org (w\<lparr>custom_bindings := cb\<rparr>) = bind_inv org w"
  by (rule bind_inv_core; simp)+

lemma watched_inv: "bind_inv org w \<Longrightarrow> bind_inv org (on_pending n (\<lambda>p. p\<lparr>pending_watcher := c\<rparr>) w)"
  by (erule forget_current) (simp_all add: asked_on_pending, simp_all add: on_pending_def)

lemma asked_granted:
  "n < length (asked w) \<Longrightarrow>
     asked (on_pending n (\<lambda>p. p\<lparr>pending_state := flow\<rparr>) w) = (asked w)[n := (fst (asked w ! n), flow)]"
  by (rule nth_equalityI) (auto simp: asked_def on_pending_def nth_list_update)

lemma granted_inv:
  assumes "bind_inv org w" "current_binding w = Some n"
  shows "bind_inv org (on_pending n (\<lambda>p. p\<lparr>pending_state := flow\<rparr>) (w\<lparr>granted := granted w @ [(n, flow)]\<rparr>))"
proof -
  let ?w = "on_pending n (\<lambda>p. p\<lparr>pending_state := flow\<rparr>) (w\<lparr>granted := granted w @ [(n, flow)]\<rparr>)"
  have n: "n < length (asked w)" "n \<notin> ex_popup ` set (exchanged w)" using assms by (auto simp: bind_inv_def)
  have a: "asked ?w = (asked w)[n := (fst (asked w ! n), flow)]" using asked_granted[of n "w\<lparr>granted := granted w @ [(n, flow)]\<rparr>"] n by simp
  have f: "popups ?w = popups w" "current_binding ?w = current_binding w" "to_opener ?w = to_opener w" "exchanged ?w = exchanged w"
    "granted ?w = granted w @ [(n, flow)]" "called_back ?w = called_back w" by (simp_all add: on_pending_def)
  have "agreed ?w ex" if "ex \<in> set (exchanged w)" for ex
  proof -
    have "agreed w ex" "ex_popup ex \<noteq> n" using assms(1) that n(2) by (auto simp: bind_inv_def)
    then show ?thesis by (auto simp: agreed_def a f)
  qed
  then show ?thesis using assms(1) unfolding bind_inv_def a f using n(1) by (auto simp: nth_list_update)
qed

lemma flow_inv: "bind_inv org w \<Longrightarrow> bind_inv org (flow_answer t n answer buildUrl w)"
proof -
  assume inv: "bind_inv org w"
  define w0 where "w0 = w\<lparr>flow_requests := remove1 n (flow_requests w)\<rparr>"
  have i0: "bind_inv org w0" using inv by (simp add: w0_def core_inv)
  show ?thesis
  proof (cases answer)
    case None
    then show ?thesis using failed_inv[OF i0] by (simp add: flow_answer_def w0_def)
  next
    case (Some flow)
    obtain marked s where m: "markOAuthBindPopup (popup_storage (popups w0 ! n)) (pending_provider (pendings w0 ! n)) flow = (marked, s)"
      by fastforce
    define w1 where "w1 = (case s of None \<Rightarrow> w0 | Some s' \<Rightarrow> on_popup n (\<lambda>p. p\<lparr>popup_store := s'\<rparr>) w0)"
    have i1: "bind_inv org w1" using i0 by (simp add: w1_def core_inv split: option.split)
    have c1: "current_binding w1 = current_binding w0" by (simp add: w1_def on_popup_def split: option.split)
    show ?thesis
      using i0 i1 c1 granted_inv[OF i1] failed_inv
      by (auto simp: flow_answer_def Some w0_def[symmetric] m w1_def[symmetric] Let_def core_inv split: option.split)
  qed
qed

lemma dropped_message_inv: "bind_inv org w \<Longrightarrow> bind_inv org (w\<lparr>to_opener := remove1 p (to_opener w)\<rparr>)"
  by (auto simp: bind_inv_def agreed_def dest: notin_set_remove1)

lemma exchange_inv:
  assumes "bind_inv org w" "current_binding w = Some n" "asked w ! n = (provider, flow)" "flow \<noteq> []"
    and "(n, CallbackMsg provider flow code error description) \<in> set (called_back w)"
    and "ex = \<lparr>ex_popup = n, ex_provider = provider, ex_state = flow, ex_code = nonempty code,
          ex_error = truthy_part error, ex_description = truthy_part description\<rparr>"
  shows "bind_inv org ((clearPendingOAuthBinding (Some n) w)\<lparr>exchanging := es, exchanged := exchanged w @ [ex]\<rparr>)"
proof -
  let ?w = "(clearPendingOAuthBinding (Some n) w)\<lparr>exchanging := es, exchanged := exchanged w @ [ex]\<rparr>"
  have n: "n < length (asked w)" "n \<notin> ex_popup ` set (exchanged w)" "(n, flow) \<in> set (granted w)"
    using assms(1-4) by (auto simp: bind_inv_def)
  have "agreed ?w e = agreed w e" for e by (simp add: agreed_def)
  moreover have "agreed w ex" using assms(3,5,6) n by (auto simp: agreed_def)
  moreover have "current_binding ?w = None" using assms(2) by (simp add: clearPending_current)
  ultimately show ?thesis using assms(1,6) n(2) by (auto simp: bind_inv_def)
qed

lemma message_inv:
  assumes inv: "bind_inv org w" and "\<And>n. post_origin p = org \<Longrightarrow> post_source p = FromPopup n \<Longrightarrow> genuine (called_back w) n (post_data p)"
  shows "bind_inv org (handleMessage t org p w)"
proof (cases "post_data p")
  case (CallbackMsg provider flow code error description)
  show ?thesis
  proof (cases "\<exists>n. post_origin p = org \<and> current_binding w = Some n \<and> provider = pending_provider (pendings w ! n)
      \<and> flow = pending_state (pendings w ! n) \<and> post_source p = FromPopup n")
    case True
    then obtain n where n: "post_origin p = org" "current_binding w = Some n" "provider = pending_provider (pendings w ! n)"
      "flow = pending_state (pendings w ! n)" "post_source p = FromPopup n" by blast
    have "n < length (asked w)" using inv n(2) by (simp add: bind_inv_def)
    then have "asked w ! n = (provider, flow)" using n(3,4) by (simp add: asked_def)
    moreover have "flow \<noteq> []" "(n, CallbackMsg provider flow code error description) \<in> set (called_back w)"
      using assms(2)[OF n(1,5)] CallbackMsg by simp_all
    ultimately show ?thesis using inv n CallbackMsg exchange_inv[OF inv n(2)]
      by (auto simp: handleMessage_def Let_def core_inv)
  qed (use inv CallbackMsg in \<open>auto simp: handleMessage_def split: option.split\<close>)
qed (use inv in \<open>simp_all add: handleMessage_def\<close>)

lemma telegram_result_message: "postTelegramBindResult cb opener = Some m \<Longrightarrow> \<exists>a b c. m = TelegramMsg a b c"
  by (auto simp: postTelegramBindResult_def split: TelegramBindCallback.splits option.splits bool.splits)

lemma landing_inv:
  assumes inv: "bind_inv org w"
  shows "bind_inv org (popup_lands t org n provider search w)"
proof -
  have post: "bind_inv org ((post_to_opener org n m v)\<lparr>called_back := called_back v @ cs\<rparr>)"
    if "bind_inv org v" "genuine (called_back v @ cs) n m" for m v cs
  proof -
    have g: "genuine (called_back v @ cs) k x" if "genuine (called_back v) k x" for k x using that by (cases x) auto
    moreover have "agreed ((post_to_opener org n m v)\<lparr>called_back := called_back v @ cs\<rparr>) ex" if "agreed v ex" for ex
      using that by (auto simp: agreed_def) (auto simp: post_to_opener_def)
    ultimately show ?thesis using that unfolding bind_inv_def by (auto simp: post_to_opener_def)
  qed
  have tele: "bind_inv org (post_to_opener org n (TelegramMsg a b c) w)" for a b c
    using post[of w "[]" "TelegramMsg a b c"] inv by (simp add: post_to_opener_def)
  let ?flow = "or_empty (search_state search)"
  let ?m = "CallbackMsg provider ?flow (or_empty (search_code search)) (search_error search) (search_description search)"
  let ?page = "show_page n (BindPage provider ?flow timer_start False) w"
  have "bind_inv org ((post_to_opener org n ?m ?page)\<lparr>called_back := called_back w @ [(n, ?m)]\<rparr>)" if "?flow \<noteq> []"
    using post[of ?page "[(n, ?m)]" ?m] inv that by (simp add: core_inv, simp add: show_page_def on_popup_def)
  then show ?thesis using inv tele
    by (auto simp: popup_lands_def Let_def core_inv bind_mode_iff dest!: telegram_result_message split: option.split)
qed

lemma gateway_answer_inv: "bind_inv org w \<Longrightarrow> bind_inv org (exchange_answer t org ex answer w)"
    "bind_inv org w \<Longrightarrow> bind_inv org (reload_done org job bindings w)"
  by (simp_all add: exchange_answer_def reload_done_def Let_def core_inv split: sum.split option.split)

lemma popup_inv: "bind_inv org w \<Longrightarrow> bind_inv org (handleBindingResult t org n p w)"
    "bind_inv org w \<Longrightarrow> bind_inv org (deadline_fires t n w)"
  by (simp_all add: handleBindingResult_def deadline_fires_def Let_def core_inv split: PopupPage.split BindMessage.split prod.split)

lemma watcher_inv: "bind_inv org w \<Longrightarrow> bind_inv org (watcher_fires n w)"
  by (auto simp: watcher_fires_def Let_def watched_inv split: prod.split)

lemma unmount_inv: "bind_inv org w \<Longrightarrow> bind_inv org (unmount_tab w)"
  by (auto simp: unmount_tab_def Let_def core_inv split: option.split)

lemma bind_step_inv: "bind_step t org w w' \<Longrightarrow> bind_inv org w \<Longrightarrow> bind_inv org w'"
proof (induction rule: bind_step.induct)
  case (Deliver p w)
  then have "bind_inv org (handleMessage t org p (w\<lparr>to_opener := remove1 p (to_opener w)\<rparr>))"
    by (intro message_inv dropped_message_inv) (auto simp: bind_inv_def)
  with Deliver show ?case by (simp add: dropped_message_inv)
next
  case (ForeignToOpener p w)
  then show ?case by (auto simp: bind_inv_def agreed_def)
next
  case (Result n p w)
  then show ?case by (auto simp: core_inv intro: popup_inv)
qed (simp_all add: start_inv flow_inv gateway_answer_inv watcher_inv unmount_inv landing_inv popup_inv core_inv)

lemma reachable_bind_inv: "reachable_binding t org w \<Longrightarrow> bind_inv org w"
proof (unfold reachable_binding_def, induction rule: rtranclp_induct)
  case base
  then show ?case by (simp add: bind_inv_def initial_world_def asked_def)
qed (rule bind_step_inv)
section \<open>Bindings that are no longer pending\<close>

definition bind_log where
  "bind_log w = (length (popups w), current_binding w, exchanged w)"

lemma log_primitives [simp]:
  "bind_log (on_popup n g w) = bind_log w" "bind_log (close_popup n w) = bind_log w"
  "bind_log (show_page n page w) = bind_log w" "bind_log (opener_toast x w) = bind_log w"
  "bind_log (popup_toast n x w) = bind_log w" "bind_log (post_result org ex ok m w) = bind_log w"
  "bind_log (post_to_opener org n m' w) = bind_log w" "bind_log (on_pending n h w) = bind_log w"
  by (simp_all add: bind_log_def primitive_defs post_to_opener_def on_pending_def)

lemma log_updates [simp]:
  "bind_log (w\<lparr>to_opener := a\<rparr>) = bind_log w" "bind_log (w\<lparr>to_popups := b\<rparr>) = bind_log w"
  "bind_log (w\<lparr>listening := l\<rparr>) = bind_log w" "bind_log (w\<lparr>opener_closed := l\<rparr>) = bind_log w"
  "bind_log (w\<lparr>flow_requests := fs\<rparr>) = bind_log w" "bind_log (w\<lparr>exchanging := es\<rparr>) = bind_log w"
  "bind_log (w\<lparr>reloading := js'\<rparr>) = bind_log w" "bind_log (w\<lparr>updates := k\<rparr>) = bind_log w"
  "bind_log (w\<lparr>custom_bindings := cb\<rparr>) = bind_log w" "bind_log (w\<lparr>granted := gs\<rparr>) = bind_log w"
  "bind_log (w\<lparr>called_back := cs\<rparr>) = bind_log w"
  by (simp_all add: bind_log_def)

lemma log_clear:
  "bind_log (clearPendingOAuthBinding e w) \<in> {bind_log w, (length (popups w), None, exchanged w)}"
  by (auto simp: bind_log_def clearPendingOAuthBinding_def on_pending_def split: option.split)

text \<open>What a step does to the pending binding and to the exchanges: a new binding has a fresh number, and only
  the pending binding is exchanged.\<close>

definition forgets :: "BindWorld \<Rightarrow> BindWorld \<Rightarrow> bool" where
  "forgets w w' \<longleftrightarrow> bind_log w' \<in> {bind_log w, (length (popups w), None, exchanged w)}"

lemma forgets_clear [simp]: "forgets w (clearPendingOAuthBinding e w)"
  by (simp only: forgets_def log_clear)

lemma forgets_via: "forgets v w' \<Longrightarrow> bind_log v = bind_log w \<Longrightarrow> forgets w w'"
  by (auto simp: forgets_def bind_log_def)

lemma forgets_refl [simp]: "bind_log w' = bind_log w \<Longrightarrow> forgets w w'"
  by (simp add: forgets_def)

lemma failed_forgets: "forgets w (binding_failed t n w)"
  using log_clear[of "Some n" w] by (simp add: binding_failed_def forgets_def Let_def)

lemma flow_forgets: "forgets w (flow_answer t n answer buildUrl w)"
proof -
  have f: "forgets w (binding_failed t n v)" if "bind_log v = bind_log w" for v
    by (rule forgets_via[OF failed_forgets that])
  show ?thesis by (auto simp: flow_answer_def Let_def f split: option.split prod.split)
qed

lemma other_forgets:
  "forgets w (exchange_answer t org ex answer w)" "forgets w (reload_done org job bindings w)"
  "forgets w (popup_lands t org n provider search w)" "forgets w (handleBindingResult t org n p w)"
  "forgets w (deadline_fires t n w)"
  by (auto simp: exchange_answer_def reload_done_def popup_lands_def handleBindingResult_def deadline_fires_def Let_def
      intro!: forgets_refl split: sum.split option.split PopupPage.split BindMessage.split prod.split)

lemma watcher_forgets: "forgets w (watcher_fires n w)"
proof -
  have "forgets w (clearPendingOAuthBinding (Some n) (on_pending n h w))" for h
    by (rule forgets_via[OF forgets_clear]) simp
  then show ?thesis by (simp add: watcher_fires_def Let_def split: prod.split)
qed

lemma unmount_forgets: "forgets w (unmount_tab w)"
  using log_clear[of "current_binding w" w]
  by (cases "current_binding w") (simp_all add: unmount_tab_def forgets_def Let_def)

lemma start_log:
  "forgets w (startOAuthBinding t provider opened w)
   \<or> bind_log (startOAuthBinding t provider opened w) = (Suc (length (popups w)), Some (length (popups w)), exchanged w)"
proof -
  define w1 where "w1 = (case current_binding w of None \<Rightarrow> w
    | Some n \<Rightarrow> close_popup n (clearPendingOAuthBinding (Some n) w))"
  have "forgets w w1" using log_clear by (simp add: w1_def forgets_def split: option.split)
  moreover from this have "length (popups w1) = length (popups w)" "exchanged w1 = exchanged w"
    by (auto simp: forgets_def bind_log_def)
  ultimately show ?thesis
    by (auto simp: startOAuthBinding_def w1_def[symmetric] forgets_def split: option.split) (simp_all add: bind_log_def)
qed

lemma message_log:
  "forgets w (handleMessage t org p w) \<or> (\<exists>ex. current_binding w = Some (ex_popup ex)
     \<and> bind_log (handleMessage t org p w) = (length (popups w), None, exchanged w @ [ex]))"
proof -
  have "bind_log ((clearPendingOAuthBinding (Some n) w)\<lparr>exchanging := es, exchanged := xs\<rparr>) = (length (popups w), None, xs)"
    if "current_binding w = Some n" for n es xs
    using that by (simp add: bind_log_def clearPending_current)
  then show ?thesis
    using log_clear[of _ w] by (auto simp: handleMessage_def Let_def forgets_def split: BindMessage.split option.split)
qed

lemma step_log:
  "bind_step t org w w' \<Longrightarrow> forgets w w'
   \<or> bind_log w' = (Suc (length (popups w)), Some (length (popups w)), exchanged w)
   \<or> (\<exists>ex. current_binding w = Some (ex_popup ex) \<and> bind_log w' = (length (popups w), None, exchanged w @ [ex]))"
proof (induction rule: bind_step.induct)
  case (Click w provider opened)
  show ?case using start_log by blast
next
  case (Deliver p w)
  show ?case using message_log[of "w\<lparr>to_opener := remove1 p (to_opener w)\<rparr>" t org p] forgets_via by auto
next
  case (Result n p w)
  show ?case using forgets_via[OF other_forgets(4)[of "w\<lparr>to_popups := remove1 (n, p) (to_popups w)\<rparr>" t org n p], of w] by auto
qed (simp_all add: flow_forgets other_forgets watcher_forgets unmount_forgets)

definition exchanges_of :: "nat \<Rightarrow> BindWorld \<Rightarrow> Exchange list" where
  "exchanges_of n w = filter (\<lambda>ex. ex_popup ex = n) (exchanged w)"

lemma not_pending_step:
  assumes "bind_step t org w w'" "n < length (popups w)" "current_binding w \<noteq> Some n"
  shows "n < length (popups w') \<and> current_binding w' \<noteq> Some n \<and> exchanges_of n w' = exchanges_of n w"
  using step_log[OF assms(1)] assms(2,3) by (auto simp: forgets_def bind_log_def exchanges_of_def)

lemma not_pending_run:
  assumes "(bind_step t org)\<^sup>*\<^sup>* w w'" "n < length (popups w)" "current_binding w \<noteq> Some n"
  shows "n < length (popups w') \<and> current_binding w' \<noteq> Some n \<and> exchanges_of n w' = exchanges_of n w"
  using assms(1)
proof (induction rule: rtranclp_induct)
  case (step v v')
  then show ?case using not_pending_step[OF step.hyps(2), of n] by auto
qed (use assms(2,3) in simp)
section \<open>A waiting popup ends\<close>

fun page_alive :: "PopupPage \<Rightarrow> bool" where
  "page_alive (BindPage provider flow c closing) \<longleftrightarrow> closing \<or> timer_active c \<and> timer_scheduled c"
| "page_alive _ = True"

definition popup_fine :: "Popup \<Rightarrow> bool" where
  "popup_fine p \<longleftrightarrow> popup_closed p \<or> page_alive (popup_page p)"

definition no_popup_stuck :: "BindWorld \<Rightarrow> bool" where
  "no_popup_stuck w \<longleftrightarrow> list_all popup_fine (popups w)"

lemma stuck_on_popup:
  "no_popup_stuck w \<Longrightarrow> (\<And>p. popup_fine p \<Longrightarrow> popup_fine (f p)) \<Longrightarrow> no_popup_stuck (on_popup n f w)"
  unfolding no_popup_stuck_def on_popup_def
  by (cases "n < length (popups w)") (auto simp: list_all_length nth_list_update)

lemma stuck_primitives [simp]:
  "no_popup_stuck w \<Longrightarrow> no_popup_stuck (close_popup n w)"
  "no_popup_stuck w \<Longrightarrow> page_alive page \<Longrightarrow> no_popup_stuck (show_page n page w)"
  "no_popup_stuck w \<Longrightarrow> no_popup_stuck (on_popup n (popup_store_update g) w)"
  unfolding close_popup_def show_page_def by (erule stuck_on_popup; simp add: popup_fine_def)+

lemma stuck_popups: "popups w' = popups w \<Longrightarrow> no_popup_stuck w' = no_popup_stuck w"
  by (simp add: no_popup_stuck_def)

lemma stuck_same [simp]:
  "no_popup_stuck (opener_toast x w) = no_popup_stuck w" "no_popup_stuck (popup_toast n x w) = no_popup_stuck w"
  "no_popup_stuck (post_result org ex ok m w) = no_popup_stuck w" "no_popup_stuck (post_to_opener org n m' w) = no_popup_stuck w"
  "no_popup_stuck (on_pending n h w) = no_popup_stuck w" "no_popup_stuck (clearPendingOAuthBinding e w) = no_popup_stuck w"
  "no_popup_stuck (w\<lparr>to_opener := a\<rparr>) = no_popup_stuck w" "no_popup_stuck (w\<lparr>to_popups := b\<rparr>) = no_popup_stuck w"
  "no_popup_stuck (w\<lparr>listening := l\<rparr>) = no_popup_stuck w" "no_popup_stuck (w\<lparr>opener_closed := l\<rparr>) = no_popup_stuck w"
  "no_popup_stuck (w\<lparr>flow_requests := fs\<rparr>) = no_popup_stuck w" "no_popup_stuck (w\<lparr>exchanging := es\<rparr>) = no_popup_stuck w"
  "no_popup_stuck (w\<lparr>reloading := js'\<rparr>) = no_popup_stuck w" "no_popup_stuck (w\<lparr>updates := k\<rparr>) = no_popup_stuck w"
  "no_popup_stuck (w\<lparr>custom_bindings := cb\<rparr>) = no_popup_stuck w" "no_popup_stuck (w\<lparr>granted := gs\<rparr>) = no_popup_stuck w"
  "no_popup_stuck (w\<lparr>called_back := cs\<rparr>) = no_popup_stuck w" "no_popup_stuck (w\<lparr>exchanged := xs\<rparr>) = no_popup_stuck w"
  by (rule stuck_popups; simp add: primitive_defs post_to_opener_def on_pending_def)+

lemma stuck_failed: "no_popup_stuck w \<Longrightarrow> no_popup_stuck (binding_failed t n w)"
  by (auto simp: binding_failed_def Let_def)

lemma stuck_start: "no_popup_stuck w \<Longrightarrow> no_popup_stuck (startOAuthBinding t provider opened w)"
proof -
  assume st: "no_popup_stuck w"
  define w1 where "w1 = (case current_binding w of None \<Rightarrow> w
    | Some n \<Rightarrow> close_popup n (clearPendingOAuthBinding (Some n) w))"
  have "no_popup_stuck w1" using st by (auto simp: w1_def split: option.split)
  then show ?thesis
    by (auto simp: startOAuthBinding_def w1_def[symmetric] split: option.split) (simp add: no_popup_stuck_def popup_fine_def)
qed

lemma stuck_flow: "no_popup_stuck w \<Longrightarrow> no_popup_stuck (flow_answer t n answer buildUrl w)"
  by (auto simp: flow_answer_def Let_def show_page_def[symmetric] intro!: stuck_failed split: option.split prod.split)

lemma stuck_landing: "no_popup_stuck w \<Longrightarrow> no_popup_stuck (popup_lands t org n provider search w)"
  by (auto simp: popup_lands_def Let_def timer_start_def split: option.split)

lemma stuck_tab:
  "no_popup_stuck w \<Longrightarrow> no_popup_stuck (handleMessage t org p w)"
  "no_popup_stuck w \<Longrightarrow> no_popup_stuck (exchange_answer t org ex answer w)"
  "no_popup_stuck w \<Longrightarrow> no_popup_stuck (reload_done org job bindings w)"
  "no_popup_stuck w \<Longrightarrow> no_popup_stuck (watcher_fires n w)"
  "no_popup_stuck w \<Longrightarrow> no_popup_stuck (unmount_tab w)"
  by (auto simp: handleMessage_def exchange_answer_def reload_done_def watcher_fires_def unmount_tab_def Let_def
      split: BindMessage.split option.split sum.split prod.split)

lemma stuck_popup:
  "no_popup_stuck w \<Longrightarrow> n < length (popups w) \<Longrightarrow> no_popup_stuck (handleBindingResult t org n p w)"
  "no_popup_stuck w \<Longrightarrow> popup_open n w \<Longrightarrow> no_popup_stuck (deadline_fires t n w)"
proof -
  assume st: "no_popup_stuck w"
  show "no_popup_stuck (handleBindingResult t org n p w)" if "n < length (popups w)"
  proof -
    have "no_popup_stuck (close_popup n (popup_toast n x (show_page n page w)))" for x page
      using st that by (auto simp: no_popup_stuck_def close_popup_def popup_toast_def show_page_def on_popup_def popup_fine_def
          list_all_length nth_list_update)
    then show ?thesis using st by (auto simp: handleBindingResult_def split: PopupPage.split BindMessage.split)
  qed
  show "no_popup_stuck (deadline_fires t n w)" if "popup_open n w"
  proof -
    have "page_alive (popup_page (popups w ! n))"
      using st that by (auto simp: no_popup_stuck_def list_all_length popup_open_def popup_fine_def)
    then show ?thesis using st by (auto simp: deadline_fires_def deadline_tick_def split: PopupPage.splits)
  qed
qed

lemma stuck_step: "bind_step t org w w' \<Longrightarrow> no_popup_stuck w \<Longrightarrow> no_popup_stuck w'"
proof (induction rule: bind_step.induct)
  case (Result n p w)
  then show ?case by (auto simp: popup_open_def intro: stuck_popup)
next
  case (Deliver p w)
  then show ?case by (auto intro: stuck_tab)
qed (simp_all add: stuck_start stuck_flow stuck_tab stuck_landing stuck_popup)

lemma reachable_no_stuck: "reachable_binding t org w \<Longrightarrow> no_popup_stuck w"
proof (unfold reachable_binding_def, induction rule: rtranclp_induct)
  case base
  then show ?case by (simp add: no_popup_stuck_def initial_world_def)
qed (rule stuck_step)

text \<open>A popup that waits for a result closes by itself: its deadline is running, or it is about to close.\<close>

lemma waiting_popup_closes:
  assumes "reachable_binding t org w" "popup_open n w" "popup_page (popups w ! n) = BindPage provider flow c closing"
  shows "\<exists>w'. (bind_step t org)\<^sup>*\<^sup>* w w' \<and> popup_closed (popups w' ! n)"
proof -
  have n: "n < length (popups w)" using assms(2) by (simp add: popup_open_def)
  have close: "popup_closed (popups (close_popup n v) ! n)" if "n < length (popups v)" for v
    using that by (simp add: close_popup_def on_popup_def)
  show ?thesis
  proof (cases closing)
    case True
    then have "bind_step t org w (close_popup n w)" using assms by (intro SelfClose) simp_all
    then show ?thesis using close[OF n] by blast
  next
    case False
    then have c: "timer_active c" "timer_scheduled c"
      using reachable_no_stuck[OF assms(1)] assms(2,3) by (auto simp: no_popup_stuck_def list_all_length popup_open_def popup_fine_def)
    define v where "v = deadline_fires t n w"
    have "bind_step t org w v" unfolding v_def using assms(2,3) c(2) by (rule Deadline)
    moreover have v: "popup_open n v" "closes_itself (popup_page (popups v ! n))"
      using assms(2,3) c n by (simp_all add: v_def deadline_fires_def deadline_tick_def popup_open_def show_page_def on_popup_def popup_toast_def)
    moreover from v have "bind_step t org v (close_popup n v)" by (rule SelfClose)
    moreover have "n < length (popups v)" using v(1) by (simp add: popup_open_def)
    ultimately show ?thesis using close by (meson converse_rtranclp_into_rtranclp r_into_rtranclp)
  qed
qed
section \<open>A binding from the click to the end\<close>

text \<open>What the steps of one binding need to know of the state.\<close>

record BindView =
  view_popup :: Popup
  view_asked :: "jstr \<times> jstr"
  view_pending :: "nat option"
  view_done :: "Exchange list"
  view_updates :: nat

definition bind_view :: "nat \<Rightarrow> BindWorld \<Rightarrow> BindView" where
  "bind_view n w = \<lparr>view_popup = popups w ! n, view_asked = (pending_provider (pendings w ! n), pending_state (pendings w ! n)),
     view_pending = current_binding w, view_done = exchanged w, view_updates = updates w\<rparr>"

definition in_use :: "nat \<Rightarrow> BindWorld \<Rightarrow> bool" where
  "in_use n w \<longleftrightarrow> n < length (popups w) \<and> n < length (pendings w) \<and> listening w \<and> \<not> opener_closed w"

lemmas view_defs = bind_view_def in_use_def primitive_defs on_pending_def

lemma clearPending_view:
  "in_use n (clearPendingOAuthBinding e w) = in_use n w"
  "updates (clearPendingOAuthBinding e w) = updates w" "listening (clearPendingOAuthBinding e w) = listening w"
  "opener_closed (clearPendingOAuthBinding e w) = opener_closed w" "length (pendings (clearPendingOAuthBinding e w)) = length (pendings w)"
  "flow_requests (clearPendingOAuthBinding e w) = flow_requests w" "reloading (clearPendingOAuthBinding e w) = reloading w"
  by (simp_all add: clearPendingOAuthBinding_def in_use_def on_pending_def split: option.split)

lemma started:
  assumes "length (pendings w) = length (popups w)" "listening w" "\<not> opener_closed w" "n = length (popups w)"
    and "w1 = startOAuthBinding t provider (Some s) w"
  shows "in_use n w1 \<and> n \<in> set (flow_requests w1) \<and> bind_view n w1 = \<lparr>
     view_popup = \<lparr>popup_closed = False, popup_store = s, popup_page = BlankPage\<rparr>, view_asked = (provider, []),
     view_pending = Some n, view_done = exchanged w, view_updates = updates w\<rparr>"
proof -
  define v where "v = (case current_binding w of None \<Rightarrow> w
    | Some n \<Rightarrow> close_popup n (clearPendingOAuthBinding (Some n) w))"
  have v: "length (popups v) = n" "length (pendings v) = n" "listening v" "\<not> opener_closed v" "exchanged v = exchanged w"
    "updates v = updates w"
    using assms(1-4) by (simp_all add: v_def clearPending_view close_popup_def on_popup_def split: option.split)
  have "w1 = v\<lparr>popups := popups v @ [\<lparr>popup_closed = False, popup_store = s, popup_page = BlankPage\<rparr>],
      pendings := pendings v @ [\<lparr>pending_provider = provider, pending_state = [], pending_watcher = timer_start\<rparr>],
      current_binding := Some n, flow_requests := flow_requests v @ [n]\<rparr>"
    using v(1) by (simp add: assms(5) startOAuthBinding_def v_def[symmetric])
  then show ?thesis using v by (simp add: bind_view_def in_use_def nth_append)
qed

lemma flow_granted:
  assumes "in_use n w" "view_pending (bind_view n w) = Some n" "view_asked (bind_view n w) = (provider, [])"
    and "view_popup (bind_view n w) = \<lparr>popup_closed = False, popup_store = s, popup_page = BlankPage\<rparr>"
    and "\<not> storage_blocked s" "\<not> storage_full s" "provider \<noteq> []" "flow \<noteq> []" "buildUrl flow = Some url"
    and "w1 = flow_answer t n (Some flow) buildUrl w"
  shows "in_use n w1 \<and> bind_view n w1 = (bind_view n w)\<lparr>
    view_popup := \<lparr>popup_closed = False, popup_store = s\<lparr>stored := (stored s)(OAUTH_BIND_FLOW_KEY_PREFIX @ provider \<mapsto> flow)\<rparr>,
      popup_page = AwayPage\<rparr>, view_asked := (provider, flow)\<rparr>"
proof -
  let ?s = "s\<lparr>stored := (stored s)(OAUTH_BIND_FLOW_KEY_PREFIX @ provider \<mapsto> flow)\<rparr>"
  have "markOAuthBindPopup (Some s) provider flow = (True, Some ?s)"
    using assms(5-8) by (simp add: markOAuthBindPopup_def setItem_def getItem_def)
  then show ?thesis using assms
    by (simp add: flow_answer_def popup_storage_def getOAuthSessionStorage_def view_defs Let_def)
qed

lemma landed:
  assumes "in_use n w" "view_popup (bind_view n w) = \<lparr>popup_closed = False, popup_store = s, popup_page = AwayPage\<rparr>"
    and "\<not> storage_blocked s" "stored s (OAUTH_BIND_FLOW_KEY_PREFIX @ provider) = Some flow" "flow \<noteq> []"
    and "provider \<noteq> js ''telegram''" "search_state search = Some flow" "search_code search = Some code"
    and "w1 = popup_lands t org n provider search w"
    and "m = CallbackMsg provider flow code (search_error search) (search_description search)"
  shows "in_use n w1 \<and> \<lparr>post_origin = org, post_source = FromPopup n, post_data = m\<rparr> \<in> set (to_opener w1)
    \<and> bind_view n w1 = (bind_view n w)\<lparr>view_popup :=
        \<lparr>popup_closed = False, popup_store = s, popup_page = BindPage provider flow timer_start False\<rparr>\<rparr>"
proof -
  have p: "popups w ! n = \<lparr>popup_closed = False, popup_store = s, popup_page = AwayPage\<rparr>"
    using assms(2) by (simp add: bind_view_def)
  have "resolveOAuthCallbackMode provider flow (Some (opener_closed w)) (getOAuthSessionStorage s) = BindMode"
    using assms(1,3-5) by (simp add: bind_mode_iff in_use_def getOAuthSessionStorage_def)
  then have "w1 = (post_to_opener org n m (show_page n (BindPage provider flow timer_start False) w))\<lparr>
      called_back := called_back w @ [(n, m)]\<rparr>"
    using assms(6-10) p by (simp add: popup_lands_def Let_def or_empty_def)
  then show ?thesis using assms(1) p by (simp add: view_defs post_to_opener_def)
qed
lemma message_taken:
  assumes "in_use n w" "view_pending (bind_view n w) = Some n" "view_asked (bind_view n w) = (provider, flow)" "code \<noteq> []"
    and "w1 = handleMessage t org \<lparr>post_origin = org, post_source = FromPopup n,
       post_data = CallbackMsg provider flow code error description\<rparr> w"
    and "ex = \<lparr>ex_popup = n, ex_provider = provider, ex_state = flow, ex_code = Some code,
       ex_error = truthy_part error, ex_description = truthy_part description\<rparr>"
  shows "in_use n w1 \<and> ex \<in> set (exchanging w1) \<and> view_pending (bind_view n w1) = None
    \<and> view_popup (bind_view n w1) = view_popup (bind_view n w)
    \<and> view_done (bind_view n w1) = view_done (bind_view n w) @ [ex] \<and> view_updates (bind_view n w1) = view_updates (bind_view n w)"
  using assms by (simp add: handleMessage_def Let_def nonempty_def bind_view_def clearPending_current)
    (simp add: in_use_def clearPending_view)

lemma exchange_granted:
  assumes "in_use n w" "truthy (jget data (js ''success''))" "w1 = exchange_answer t org ex (Inr data) w"
  shows "\<exists>message. in_use n w1 \<and> (ex, message) \<in> set (reloading w1)
    \<and> bind_view n w1 = (bind_view n w)\<lparr>view_updates := view_updates (bind_view n w) + 1\<rparr>"
  using assms by (simp add: exchange_answer_def Let_def view_defs) blast

lemma reloaded:
  assumes "in_use n w" "ex_popup ex = n" "w1 = reload_done org (ex, message) bindings w"
  shows "in_use n w1 \<and> bind_view n w1 = bind_view n w \<and> (n, \<lparr>post_origin = org, post_source = FromOpener,
      post_data = ResultMsg (ex_provider ex) (ex_state ex) True message\<rparr>) \<in> set (to_popups w1)"
  using assms by (cases bindings) (simp_all add: reload_done_def Let_def view_defs)

lemma result_heard:
  assumes "in_use n w" "popup_page (view_popup (bind_view n w)) = BindPage provider flow c closing"
    and "w1 = handleBindingResult t org n \<lparr>post_origin = org, post_source = FromOpener,
      post_data = ResultMsg provider flow True message\<rparr> w"
  shows "popup_closed (view_popup (bind_view n w1)) \<and> view_pending (bind_view n w1) = view_pending (bind_view n w)
    \<and> view_done (bind_view n w1) = view_done (bind_view n w) \<and> view_updates (bind_view n w1) = view_updates (bind_view n w)"
  using assms by (simp add: handleBindingResult_def view_defs)

lemma view_ignores_queues [simp]:
  "bind_view n (w\<lparr>to_opener := a\<rparr>) = bind_view n w" "bind_view n (w\<lparr>to_popups := b\<rparr>) = bind_view n w"
  "in_use n (w\<lparr>to_opener := a\<rparr>) = in_use n w" "in_use n (w\<lparr>to_popups := b\<rparr>) = in_use n w"
  by (simp_all add: bind_view_def in_use_def)

text \<open>The first half ends with the callback posted to the tab, the second begins there.\<close>

lemma binding_called_back:
  fixes s :: WebStorage and search :: CallbackSearch
  assumes inv: "bind_inv org w" and w: "listening w" "\<not> opener_closed w"
    and s: "\<not> storage_blocked s" "\<not> storage_full s"
    and flow: "provider \<noteq> []" "provider \<noteq> js ''telegram''" "flow \<noteq> []"
    and search: "search_state search = Some flow" "search_code search = Some code" and n: "n = length (popups w)"
  shows "\<exists>v c. (bind_step t org)\<^sup>*\<^sup>* w v \<and> in_use n v \<and> \<lparr>post_origin = org, post_source = FromPopup n,
      post_data = CallbackMsg provider flow code (search_error search) (search_description search)\<rparr> \<in> set (to_opener v)
    \<and> bind_view n v = \<lparr>view_popup = \<lparr>popup_closed = False, popup_store = c, popup_page = BindPage provider flow timer_start False\<rparr>,
        view_asked = (provider, flow), view_pending = Some n, view_done = exchanged w, view_updates = updates w\<rparr>"
proof -
  have len: "length (pendings w) = length (popups w)" using inv by (simp add: bind_inv_def asked_def)
  let ?s = "s\<lparr>stored := (stored s)(OAUTH_BIND_FLOW_KEY_PREFIX @ provider \<mapsto> flow)\<rparr>"
  define w1 where "w1 = startOAuthBinding t provider (Some s) w"
  note s1 = started[OF len w n w1_def]
  have r1: "bind_step t org w w1" unfolding w1_def using w(1) by (rule Click)
  define w2 where "w2 = flow_answer t n (Some flow) Some w1"
  have s2: "in_use n w2" "bind_view n w2 = (bind_view n w1)\<lparr>
      view_popup := \<lparr>popup_closed = False, popup_store = ?s, popup_page = AwayPage\<rparr>, view_asked := (provider, flow)\<rparr>"
    using flow_granted[OF _ _ _ _ s flow(1,3) refl w2_def] s1 by simp_all
  have r2: "bind_step t org w1 w2" unfolding w2_def using s1 by (intro Flow) (simp_all add: in_use_def)
  define w3 where "w3 = popup_lands t org n provider search w2"
  have s3: "in_use n w3 \<and> \<lparr>post_origin = org, post_source = FromPopup n,
      post_data = CallbackMsg provider flow code (search_error search) (search_description search)\<rparr> \<in> set (to_opener w3)
    \<and> bind_view n w3 = (bind_view n w2)\<lparr>view_popup :=
        \<lparr>popup_closed = False, popup_store = ?s, popup_page = BindPage provider flow timer_start False\<rparr>\<rparr>"
    using s2 s(1) by (intro landed[OF _ _ _ _ flow(3,2) search w3_def refl]) simp_all
  have "popup_open n w2" using s2 by (auto simp: popup_open_def in_use_def bind_view_def)
  then have r3: "bind_step t org w2 w3" unfolding w3_def by (rule Land)
  have "(bind_step t org)\<^sup>*\<^sup>* w w3" using r1 r2 r3 by (meson converse_rtranclp_into_rtranclp rtranclp.rtrancl_refl)
  then show ?thesis using s1 s2(2) s3 by auto
qed

lemma binding_answered:
  assumes v: "in_use n v" "ex \<in> set (exchanging v)" "ex_popup ex = n" "ex_provider ex = provider" "ex_state ex = flow"
    and page: "view_popup (bind_view n v)
      = \<lparr>popup_closed = False, popup_store = c, popup_page = BindPage provider flow timer_start False\<rparr>"
  shows "\<exists>w'. (bind_step t org)\<^sup>*\<^sup>* v w' \<and> popup_closed (popups w' ! n) \<and> current_binding w' = current_binding v
    \<and> exchanged w' = exchanged v \<and> updates w' = updates v + 1"
proof -
  define w5 where "w5 = exchange_answer t org ex (Inr (JObj [(js ''success'', JBool True)])) v"
  obtain message where s5: "in_use n w5" "(ex, message) \<in> set (reloading w5)"
      "bind_view n w5 = (bind_view n v)\<lparr>view_updates := view_updates (bind_view n v) + 1\<rparr>"
    using exchange_granted[OF v(1) _ w5_def] by auto
  have r5: "bind_step t org v w5" unfolding w5_def using v by (intro Exchanged) (simp_all add: in_use_def)
  define w6 where "w6 = reload_done org (ex, message) None w5"
  let ?r = "\<lparr>post_origin = org, post_source = FromOpener, post_data = ResultMsg provider flow True message\<rparr>"
  have s6: "in_use n w6" "bind_view n w6 = bind_view n w5" "(n, ?r) \<in> set (to_popups w6)"
    using reloaded[OF s5(1) v(3) w6_def] v(4,5) by simp_all
  have r6: "bind_step t org w5 w6" unfolding w6_def using s5 by (intro Reloaded) (simp_all add: in_use_def)
  define w7 where "w7 = handleBindingResult t org n ?r (w6\<lparr>to_popups := remove1 (n, ?r) (to_popups w6)\<rparr>)"
  have s7: "popup_closed (view_popup (bind_view n w7)) \<and> view_pending (bind_view n w7) = view_pending (bind_view n w6)
      \<and> view_done (bind_view n w7) = view_done (bind_view n w6) \<and> view_updates (bind_view n w7) = view_updates (bind_view n w6)"
    using result_heard[OF _ _ w7_def, of timer_start False] s6(1,2) s5(3) page by simp
  have "view_popup (bind_view n w6) = view_popup (bind_view n v)" using s6(2) s5(3) by simp
  then have "popup_open n w6" using s6(1) page by (simp add: popup_open_def in_use_def) (simp add: bind_view_def)
  then have r7: "bind_step t org w6 w7" using bind_step.Result[OF s6(3), of t org] by (simp add: w7_def)
  have "(bind_step t org)\<^sup>*\<^sup>* v w7" using r5 r6 r7 by (meson converse_rtranclp_into_rtranclp rtranclp.rtrancl_refl)
  then show ?thesis using s5(3) s6(2) s7 by (intro exI[of _ w7]) (simp add: bind_view_def)
qed

lemma filter_one_key: "distinct (map f xs) \<Longrightarrow> x \<in> set xs \<Longrightarrow> filter (\<lambda>y. f y = f x) xs = [x]"
proof (induction xs)
  case (Cons a xs)
  then show ?case
  proof (cases "a = x")
    case True
    with Cons.prems(1) show ?thesis by (auto simp: filter_empty_conv rev_image_eqI)
  next
    case False
    with Cons show ?thesis by (auto simp: image_iff)
  qed
qed simp

section \<open>Properties\<close>

definition sample_search :: CallbackSearch where
  "sample_search = \<lparr>search_code = Some (js ''code''), search_state = Some (js ''flow''), search_error = None,
     search_description = None, search_telegram = \<lparr>telegram_bind = None, flow_token = None, error_code = None\<rparr>\<rparr>"

lemma initial_reachable: "reachable_binding t org initial_world"
  by (simp add: reachable_binding_def)

text \<open>C10. Whatever happens between the windows, a code is exchanged only for a binding of this tab: the request
  carries the provider the user chose, the flow the gateway granted for this binding, and the code, error
  and description the callback route has posted from the very popup that was opened for it; and each
  binding is exchanged at most once.\<close>

theorem binding_exchange_agreed:
  assumes "reachable_binding t org w" "ex \<in> set (exchanged w)"
  shows "agreed w ex \<and> exchanges_of (ex_popup ex) w = [ex]"
proof -
  have inv: "\<forall>ex \<in> set (exchanged w). agreed w ex" "distinct (map ex_popup (exchanged w))"
    using reachable_bind_inv[OF assms(1)] by (simp_all add: bind_inv_def)
  then show ?thesis using assms(2) filter_one_key[OF inv(2) assms(2)] by (simp add: exchanges_of_def)
qed

theorem binding_exchange_agreed_witness:
  "\<exists>w ex. reachable_binding (\<lambda>k. JUndefined) (js ''https://app.example'') w \<and> exchanged w = [ex]
     \<and> ex_code ex = Some (js ''code'') \<and> agreed w ex \<and> exchanges_of (ex_popup ex) w = [ex]"
proof -
  obtain w v where "(bind_step (\<lambda>k. JUndefined) (js ''https://app.example''))\<^sup>*\<^sup>* initial_world v" "in_use 0 v"
    and w: "w = handleMessage (\<lambda>k. JUndefined) (js ''https://app.example'')
      \<lparr>post_origin = js ''https://app.example'', post_source = FromPopup 0,
       post_data = CallbackMsg (js ''github'') (js ''flow'') (js ''code'') None None\<rparr>
      (v\<lparr>to_opener := remove1 \<lparr>post_origin = js ''https://app.example'', post_source = FromPopup 0,
       post_data = CallbackMsg (js ''github'') (js ''flow'') (js ''code'') None None\<rparr> (to_opener v)\<rparr>)"
    and v: "\<lparr>post_origin = js ''https://app.example'', post_source = FromPopup 0,
       post_data = CallbackMsg (js ''github'') (js ''flow'') (js ''code'') None None\<rparr> \<in> set (to_opener v)"
      "view_pending (bind_view 0 v) = Some 0" "view_asked (bind_view 0 v) = (js ''github'', js ''flow'')"
      "view_done (bind_view 0 v) = []"
    using binding_called_back[OF reachable_bind_inv[OF initial_reachable], of empty_storage "js ''github''" "js ''flow''"
        sample_search "js ''code''" 0 "\<lambda>k. JUndefined" "js ''https://app.example''"]
    by (auto simp: initial_world_def empty_storage_def sample_search_def)
  moreover have "bind_step (\<lambda>k. JUndefined) (js ''https://app.example'') v w"
    using bind_step.Deliver[OF v(1), of "\<lambda>k. JUndefined" "js ''https://app.example''"] \<open>in_use 0 v\<close> by (simp add: w in_use_def)
  ultimately have r: "reachable_binding (\<lambda>k. JUndefined) (js ''https://app.example'') w"
    by (simp add: reachable_binding_def)
  obtain ex where "exchanged w = [ex]" "ex_code ex = Some (js ''code'')"
    using message_taken[OF _ _ _ _ w refl] \<open>in_use 0 v\<close> v(2-4) by (auto simp: bind_view_def)
  with r show ?thesis using binding_exchange_agreed[OF r, of ex] by auto
qed

lemma clear_other: "current_binding w \<noteq> Some n \<Longrightarrow> clearPendingOAuthBinding (Some n) w = w"
  by (auto simp: clearPendingOAuthBinding_def split: option.splits)

lemma failed_other: "current_binding w \<noteq> Some n \<Longrightarrow> binding_failed t n w = close_popup n w"
  by (simp add: binding_failed_def clear_other)

lemma message_accepted:
  assumes "handleMessage t org p w \<noteq> w"
  shows "\<exists>m code error description. current_binding w = Some m \<and> p = \<lparr>post_origin = org, post_source = FromPopup m,
     post_data = CallbackMsg (pending_provider (pendings w ! m)) (pending_state (pendings w ! m)) code error description\<rparr>"
  using assms by (cases p) (auto simp: handleMessage_def split: BindMessage.splits option.splits if_splits)

lemma late_flow:
  assumes "current_binding w \<noteq> Some n"
  shows "flow_answer t n (Some flow) buildUrl w = w\<lparr>flow_requests := remove1 n (flow_requests w)\<rparr>"
    and "flow_answer t n None buildUrl w = close_popup n (w\<lparr>flow_requests := remove1 n (flow_requests w)\<rparr>)"
  using assms by (simp_all add: flow_answer_def failed_other)

lemma late_watcher: "current_binding w \<noteq> Some n \<Longrightarrow> current_binding (watcher_fires n w) = current_binding w"
  by (simp add: watcher_fires_def clear_other on_pending_def Let_def split_beta)

text \<open>C11. A binding that is no longer the pending one, because another was started, its popup was closed, its
  flow failed, it was exchanged or the page was left, is inert for good: it never becomes pending again and
  causes no further exchange; a message changes anything only if it comes from the popup of another
  binding, the pending one, from the own origin and with that binding's provider and flow; and a late answer
  of its flow request or its watcher leaves the pending binding, and with a granted flow everything else, alone.\<close>

theorem ended_binding_inert:
  assumes "(bind_step t org)\<^sup>*\<^sup>* w w'" "n < length (popups w)" "current_binding w \<noteq> Some n"
  shows "current_binding w' \<noteq> Some n \<and> exchanges_of n w' = exchanges_of n w
    \<and> (\<forall>p. handleMessage t org p w' \<noteq> w' \<longrightarrow>
         (\<exists>m code error description. m \<noteq> n \<and> current_binding w' = Some m \<and> p = \<lparr>post_origin = org, post_source = FromPopup m,
            post_data = CallbackMsg (pending_provider (pendings w' ! m)) (pending_state (pendings w' ! m)) code error description\<rparr>))
    \<and> (\<forall>flow buildUrl. flow_answer t n (Some flow) buildUrl w' = w'\<lparr>flow_requests := remove1 n (flow_requests w')\<rparr>)
    \<and> (\<forall>buildUrl. flow_answer t n None buildUrl w' = close_popup n (w'\<lparr>flow_requests := remove1 n (flow_requests w')\<rparr>))
    \<and> current_binding (watcher_fires n w') = current_binding w'"
proof -
  have ended: "current_binding w' \<noteq> Some n" "exchanges_of n w' = exchanges_of n w" using not_pending_run[OF assms] by simp_all
  have "\<exists>m code error description. m \<noteq> n \<and> current_binding w' = Some m \<and> p = \<lparr>post_origin = org, post_source = FromPopup m,
      post_data = CallbackMsg (pending_provider (pendings w' ! m)) (pending_state (pendings w' ! m)) code error description\<rparr>"
    if "handleMessage t org p w' \<noteq> w'" for p
    using message_accepted[OF that] ended(1) by auto
  then show ?thesis using ended late_flow[OF ended(1)] late_watcher[OF ended(1)] by blast
qed

text \<open>Two bindings started one after the other: the first one's popup reports, and nothing happens.\<close>

definition second_binding :: BindWorld where
  "second_binding = startOAuthBinding (\<lambda>k. JUndefined) (js ''oidc'') (Some empty_storage)
     (startOAuthBinding (\<lambda>k. JUndefined) (js ''github'') (Some empty_storage) initial_world)"

theorem ended_binding_inert_witness:
  "current_binding second_binding = Some 1 \<and> exchanges_of 0 second_binding = []
   \<and> handleMessage (\<lambda>k. JUndefined) [] \<lparr>post_origin = [], post_source = FromPopup 0, post_data = CallbackMsg (js ''oidc'') [] (js ''code'') None None\<rparr>
       second_binding = second_binding
   \<and> flow_answer (\<lambda>k. JUndefined) 0 (Some (js ''flow'')) Some second_binding = second_binding\<lparr>flow_requests := [1]\<rparr>"
proof -
  let ?t = "\<lambda>k. JUndefined" and ?p = "\<lparr>post_origin = [], post_source = FromPopup 0, post_data = CallbackMsg (js ''oidc'') [] (js ''code'') None None\<rparr>"
  have w: "length (popups second_binding) = 2" "current_binding second_binding = Some 1" "flow_requests second_binding = [0, 1]"
      "exchanged second_binding = []"
    by (simp_all add: second_binding_def startOAuthBinding_def initial_world_def close_popup_def on_popup_def on_pending_def clearPendingOAuthBinding_def)
  have "handleMessage ?t [] ?p second_binding = second_binding"
    using ended_binding_inert[of ?t "[]" second_binding second_binding 0] w(1,2) by force
  moreover have "flow_answer ?t 0 (Some (js ''flow'')) Some second_binding = second_binding\<lparr>flow_requests := [1]\<rparr>"
    using ended_binding_inert[of ?t "[]" second_binding second_binding 0] w(1-3) by simp
  ultimately show ?thesis using w by (simp add: exchanges_of_def)
qed

text \<open>C12. A new binding can be completed from every state the tab can be in, whatever other bindings, messages
  and windows are under way: when the gateway grants a flow, the provider sends the popup back with the
  flow and a code, and the exchange succeeds, the code is exchanged once, the page is updated once, nothing
  stays pending and the popup closes.\<close>

theorem binding_can_complete:
  fixes s :: WebStorage and search :: CallbackSearch
  assumes "reachable_binding t org w" "listening w" "\<not> opener_closed w"
    and "\<not> storage_blocked s" "\<not> storage_full s" "provider \<noteq> []" "provider \<noteq> js ''telegram''" "flow \<noteq> []"
    and "search_state search = Some flow" "search_code search = Some code" "code \<noteq> []"
  shows "\<exists>w' ex. (bind_step t org)\<^sup>*\<^sup>* w w' \<and> popup_closed (popups w' ! length (popups w)) \<and> current_binding w' = None
    \<and> updates w' = updates w + 1 \<and> exchanged w' = exchanged w @ [ex]
    \<and> ex_provider ex = provider \<and> ex_state ex = flow \<and> ex_code ex = Some code"
proof -
  let ?n = "length (popups w)"
  let ?m = "CallbackMsg provider flow code (search_error search) (search_description search)"
  let ?p = "\<lparr>post_origin = org, post_source = FromPopup ?n, post_data = ?m\<rparr>"
  define ex where "ex = \<lparr>ex_popup = ?n, ex_provider = provider, ex_state = flow, ex_code = Some code,
    ex_error = truthy_part (search_error search), ex_description = truthy_part (search_description search)\<rparr>"
  obtain v c where r: "(bind_step t org)\<^sup>*\<^sup>* w v" and v: "in_use ?n v" "?p \<in> set (to_opener v)"
    "bind_view ?n v = \<lparr>view_popup = \<lparr>popup_closed = False, popup_store = c, popup_page = BindPage provider flow timer_start False\<rparr>,
        view_asked = (provider, flow), view_pending = Some ?n, view_done = exchanged w, view_updates = updates w\<rparr>"
    using binding_called_back[OF reachable_bind_inv[OF assms(1)] assms(2-10) refl, of t] by blast
  define u where "u = handleMessage t org ?p (v\<lparr>to_opener := remove1 ?p (to_opener v)\<rparr>)"
  have u: "in_use ?n u" "ex \<in> set (exchanging u)" "view_popup (bind_view ?n u) = view_popup (bind_view ?n v)"
      "view_pending (bind_view ?n u) = None" "view_done (bind_view ?n u) = exchanged w @ [ex]" "view_updates (bind_view ?n u) = updates w"
    using message_taken[OF _ _ _ assms(11) u_def ex_def] v by simp_all
  have "bind_step t org v u" using bind_step.Deliver[OF v(2), of t org] v(1) by (simp add: u_def in_use_def)
  moreover obtain w' where "(bind_step t org)\<^sup>*\<^sup>* u w'" "popup_closed (popups w' ! ?n)" "current_binding w' = current_binding u"
      "exchanged w' = exchanged u" "updates w' = updates u + 1"
    using binding_answered[OF u(1,2), of provider flow c t org] u(3) v(3) by (auto simp: ex_def)
  ultimately show ?thesis using r u(4-6)
    by (intro exI[of _ w'] exI[of _ ex]) (auto simp: bind_view_def ex_def)
qed

theorem binding_can_complete_witness:
  "\<exists>w' ex. (bind_step (\<lambda>k. JUndefined) (js ''https://app.example''))\<^sup>*\<^sup>* initial_world w'
     \<and> popup_closed (popups w' ! 0) \<and> exchanged w' = [ex] \<and> ex_code ex = Some (js ''code'')"
  using binding_can_complete[OF initial_reachable, of empty_storage "js ''github''" "js ''flow''" sample_search "js ''code''"
      "\<lambda>k. JUndefined" "js ''https://app.example''"]
  by (auto simp: initial_world_def empty_storage_def sample_search_def)

end
