(* ===== verification/Login_Codes.thy ===== *)
theory Login_Codes
  imports Auth_Entry
begin

text \<open>
  The smaller parts of signing in: verification and backup codes with the form of the second factor
  (\<open>features/auth/lib/validation.ts\<close>, \<open>features/auth/otp/components/otp-form.tsx\<close>), the authorisation a
  Telegram widget hands over (\<open>lib/telegram-login.ts\<close>), the list of OAuth providers (\<open>lib/oauth.ts\<close>), and the
  redirection of the addresses of the former console (\<open>web/src/lib/legacy-route.ts\<close>), which the root
  route applies before every navigation.  \<open>toUpperCase\<close> and the \<open>URL\<close> class are arguments.
\<close>

section \<open>Codes\<close>

definition is_upper_alnum :: "code_unit \<Rightarrow> bool" where
  "is_upper_alnum x \<longleftrightarrow> 65 \<le> x \<and> x \<le> 90 \<or> is_digit x"

text \<open>\<open>[A-Z0-9]\<close> under the flag \<open>i\<close>.\<close>

definition is_alnum :: "code_unit \<Rightarrow> bool" where
  "is_alnum x \<longleftrightarrow> is_upper_alnum x \<or> 97 \<le> x \<and> x \<le> 122"

text \<open>The character 45 is the hyphen.\<close>

definition OTP_LENGTH :: nat where "OTP_LENGTH = 6"

definition BACKUP_CODE_LENGTH :: nat where "BACKUP_CODE_LENGTH = 9"

definition BACKUP_CODE_REGEX :: regex where
  "BACKUP_CODE_REGEX = rseq (RStart # map RClass (replicate 4 is_alnum @ [\<lambda>x. x = 45] @ replicate 4 is_alnum) @ [REnd])"

definition OTP_REGEX :: regex where
  "OTP_REGEX = rseq (RStart # map RClass (replicate 6 is_digit) @ [REnd])"

definition isValidOTP :: "jstr \<Rightarrow> bool" where
  "isValidOTP code = regex_test OTP_REGEX code"

definition isValidBackupCode :: "jstr \<Rightarrow> bool" where
  "isValidBackupCode code = regex_test BACKUP_CODE_REGEX code"

definition formatBackupCode :: "(jstr \<Rightarrow> jstr) \<Rightarrow> jstr \<Rightarrow> jstr" where
  "formatBackupCode toUpper value =
     (let cleaned = filter is_upper_alnum (toUpper value);
          cleaned = (if length cleaned > 8 then take 8 cleaned else cleaned)
      in if length cleaned > 4 then take 4 cleaned @ js ''-'' @ drop 4 cleaned else cleaned)"

definition cleanBackupCode :: "jstr \<Rightarrow> jstr" where
  "cleanBackupCode code = filter (\<lambda>x. x \<noteq> 45) code"

definition emailRegex :: regex where
  "emailRegex = rseq [RStart, RPlus (RClass (\<lambda>x. \<not> is_space x \<and> x \<noteq> 64)), lit ''@'',
     RPlus (RClass (\<lambda>x. \<not> is_space x \<and> x \<noteq> 64)), lit ''.'', RPlus (RClass (\<lambda>x. \<not> is_space x \<and> x \<noteq> 64)), REnd]"

definition isValidEmail :: "jstr \<Rightarrow> bool" where
  "isValidEmail email = regex_test emailRegex email"

section \<open>The form of the second factor\<close>

record OtpForm =
  otp_loading :: bool
  otp_useBackupCode :: bool
  otp_value :: jstr

text \<open>Typing: the backup field formats what is typed; the other field takes at most six characters.\<close>

definition otp_type :: "(jstr \<Rightarrow> jstr) \<Rightarrow> jstr \<Rightarrow> OtpForm \<Rightarrow> OtpForm" where
  "otp_type toUpper typed f = f\<lparr>otp_value :=
     (if otp_useBackupCode f then formatBackupCode toUpper typed else take OTP_LENGTH typed)\<rparr>"

definition handleToggleMode :: "OtpForm \<Rightarrow> OtpForm" where
  "handleToggleMode f = f\<lparr>otp_useBackupCode := \<not> otp_useBackupCode f, otp_value := []\<rparr>"

definition isFormValid :: "OtpForm \<Rightarrow> bool" where
  "isFormValid f = (if otp_useBackupCode f then length (otp_value f) \<ge> BACKUP_CODE_LENGTH
     else length (otp_value f) \<ge> OTP_LENGTH)"

definition submit_enabled :: "OtpForm \<Rightarrow> bool" where
  "submit_enabled f \<longleftrightarrow> \<not> (\<not> isFormValid f \<or> otp_loading f)"

text \<open>\<open>onSubmit\<close> up to its request: a complaint, a lost flow, or the code and the flow token that are sent.\<close>

datatype OtpSubmission = OtpRefused | OtpExpired | OtpSent jstr jstr

definition otp_submit :: "SignInEnv \<Rightarrow> OtpForm \<Rightarrow> SignInTab \<Rightarrow> OtpSubmission \<times> OtpForm \<times> SignInTab" where
  "otp_submit env f tab =
     (if otp_useBackupCode f \<and> \<not> isValidBackupCode (otp_value f)
      then (OtpRefused, f, toast (ToastError (say env ''Backup code must be in format XXXX-XXXX'')) tab)
      else if \<not> otp_useBackupCode f \<and> \<not> isValidOTP (otp_value f)
      then (OtpRefused, f, toast (ToastError (say env ''Verification code must be 6 digits'')) tab)
      else (let code = (if otp_useBackupCode f then cleanBackupCode (otp_value f) else otp_value f);
                pending = pending2FAFlowToken (auth (tab_auth tab))
            in if \<not> str_truthy pending
               then (OtpExpired, f, redirectToLogin
                      (toast (ToastError (say env ''Login flow expired. Please sign in again.'')) tab))
               else (OtpSent code (the pending), f\<lparr>otp_loading := True\<rparr>, tab)))"

text \<open>The answer of \<open>login2fa\<close>, or the error thrown by the request, with its message.  The data is taken for a bundle without a test,
  so the result is \<open>None\<close> for data of another shape.\<close>

definition otp_answer :: "SignInEnv \<Rightarrow> jval + jval \<Rightarrow> SignInTab \<Rightarrow> SignInTab option" where
  "otp_answer env answer tab =
     (case answer of
        Inl error \<Rightarrow>
          Some (if getServerErrorMessageKey error \<noteq> None then tab
                else toast (ToastError (if is_string (jget error (js ''message'')) then jget error (js ''message'')
                                        else say env ''Verification failed'')) tab)
      | Inr res \<Rightarrow>
          let data = jget res (js ''data'') in
          if \<not> truthy (jget res (js ''success'')) then
            Some (if getServerErrorMessageKey res \<noteq> None then tab
                  else toast (ToastError (js_or (jget res (js ''message'')) (say env ''Invalid code''))) tab)
          else if \<not> truthy data then Some (toast (ToastError (say env ''Login failed'')) tab)
          else if \<not> isAuthBundle data then None
          else Some (case handleLoginSuccess env (bundle_of data) JUndefined tab of
            (Some message, tab1) \<Rightarrow> toast (ToastError message) tab1
          | (None, tab1) \<Rightarrow> toast (ToastSuccess (say env ''Signed in'')) tab1))"

section \<open>Telegram\<close>

record TelegramAuthorization =
  tg_id :: jval
  tg_auth_date :: jval
  tg_hash :: jstr
  tg_optional :: "(jstr \<times> jstr) list"

definition readTelegramNumber :: "jval \<Rightarrow> jval option" where
  "readTelegramNumber value =
     (if is_number value \<and> is_finite (num_of value) then Some value
      else if is_string value \<and> trim (str_of value) \<noteq> [] then Some value else None)"

definition telegramOptionalFields :: "jstr list" where
  "telegramOptionalFields = map js [''first_name'', ''last_name'', ''username'', ''photo_url'', ''lang'']"

definition pickTelegramAuthorization :: "jval \<Rightarrow> TelegramAuthorization option" where
  "pickTelegramAuthorization value =
     (if \<not> is_object value then None
      else let hash_text = (if is_string (jget value (js ''hash'')) then trim (str_of (jget value (js ''hash''))) else [])
           in case (readTelegramNumber (jget value (js ''id'')), readTelegramNumber (jget value (js ''auth_date''))) of
                (Some i, Some d) \<Rightarrow>
                  if hash_text = [] then None
                  else Some \<lparr>tg_id = i, tg_auth_date = d, tg_hash = hash_text,
                    tg_optional = map (\<lambda>field. (field, str_of (jget value field)))
                      (filter (\<lambda>field. is_string (jget value field) \<and> truthy (jget value field)) telegramOptionalFields)\<rparr>
              | _ \<Rightarrow> None)"

section \<open>Providers\<close>

record OAuthProvider =
  provider_name :: jstr
  provider_type :: jstr
  provider_enabled :: bool
  provider_clientId :: jval
  provider_endpoint :: jval

definition oauth_provider :: "string \<Rightarrow> string \<Rightarrow> jval \<Rightarrow> jval \<Rightarrow> OAuthProvider" where
  "oauth_provider name kind client endpoint =
     \<lparr>provider_name = js name, provider_type = js kind, provider_enabled = True, provider_clientId = client,
      provider_endpoint = endpoint\<rparr>"

definition enabled_in :: "jval \<Rightarrow> string \<Rightarrow> bool" where
  "enabled_in st key = truthy (jget st (js key))"

text \<open>The status is \<open>null\<close> or an object.\<close>

definition getAvailableOAuthProviders :: "jval \<Rightarrow> OAuthProvider list" where
  "getAvailableOAuthProviders st =
     (if \<not> truthy st then [] else
        (if enabled_in st ''github_oauth''
         then [oauth_provider ''GitHub'' ''github'' (jget st (js ''github_client_id'')) JUndefined] else [])
      @ (if enabled_in st ''discord_oauth''
         then [oauth_provider ''Discord'' ''discord'' (jget st (js ''discord_client_id'')) JUndefined] else [])
      @ (if enabled_in st ''oidc_enabled''
         then [oauth_provider ''OIDC'' ''oidc'' (jget st (js ''oidc_client_id''))
                (jget st (js ''oidc_authorization_endpoint''))] else [])
      @ (if enabled_in st ''linuxdo_oauth''
         then [oauth_provider ''LinuxDO'' ''linuxdo'' (jget st (js ''linuxdo_client_id'')) JUndefined] else [])
      @ (if enabled_in st ''telegram_oauth''
         then [oauth_provider ''Telegram'' ''telegram'' JUndefined JUndefined] else []))"

definition hasOAuthProviders :: "jval \<Rightarrow> bool" where
  "hasOAuthProviders st \<longleftrightarrow> truthy st \<and>
     (enabled_in st ''github_oauth'' \<or> enabled_in st ''discord_oauth'' \<or> enabled_in st ''oidc_enabled''
      \<or> enabled_in st ''linuxdo_oauth'' \<or> enabled_in st ''telegram_oauth'' \<or> enabled_in st ''wechat_login'')"

section \<open>Addresses of the former console\<close>

text \<open>An address read against the placeholder origin: its path, the parameters of its query and its fragment.\<close>

record LegacyURL =
  legacy_pathname :: jstr
  legacy_params :: query
  legacy_hash :: jstr

text \<open>\<open>new URL(text, legacyOrigin)\<close>, \<open>None\<close> where it throws; the query written from its parameters, with its question mark;
  the text of a member every object inherits.\<close>

record LegacyEnv =
  legacy_url :: "jstr \<Rightarrow> LegacyURL option"
  write_search :: "query \<Rightarrow> jstr"
  inherited_text :: "jstr \<Rightarrow> jstr"

definition legacyConsoleRoutes :: "(jstr \<times> jstr) list" where
  "legacyConsoleRoutes = map (\<lambda>(a, b). (js a, js b)) [
     (''/console'', ''/dashboard''),
     (''/console/models'', ''/models''),
     (''/console/deployment'', ''/models/deployments''),
     (''/console/subscription'', ''/subscriptions''),
     (''/console/channel'', ''/channels''),
     (''/console/token'', ''/keys''),
     (''/console/playground'', ''/playground''),
     (''/console/redemption'', ''/redemption-codes''),
     (''/console/user'', ''/users''),
     (''/console/personal'', ''/profile''),
     (''/console/log'', ''/usage-logs''),
     (''/console/midjourney'', ''/usage-logs/drawing''),
     (''/console/task'', ''/usage-logs/task'')]"

definition legacySettingsTabs :: "(jstr \<times> jstr) list" where
  "legacySettingsTabs = map (\<lambda>(a, b). (js a, js b)) [
     (''operation'', ''/system-settings/operations/behavior''),
     (''dashboard'', ''/system-settings/content/dashboard''),
     (''chats'', ''/system-settings/content/chat''),
     (''drawing'', ''/system-settings/content/drawing''),
     (''payment'', ''/system-settings/billing/payment''),
     (''ratio'', ''/system-settings/billing/model-pricing''),
     (''ratelimit'', ''/system-settings/security/rate-limit''),
     (''models'', ''/system-settings/models/global''),
     (''model-deployment'', ''/system-settings/models/model-deployment''),
     (''performance'', ''/system-settings/operations/performance''),
     (''system'', ''/system-settings/site/system-info''),
     (''other'', ''/system-settings/site/system-info'')]"

text \<open>\<open>pathname.replace(/\/+$/, '')\<close> removes the slashes at the end.\<close>

definition normalizeLegacyPath :: "jstr \<Rightarrow> jstr" where
  "normalizeLegacyPath path =
     (if path = js ''/'' then path else rev (dropWhile (\<lambda>x. x = 47) (rev path)))"

text \<open>The outer \<open>None\<close> is an error thrown.\<close>

definition buildTargetHref :: "LegacyEnv \<Rightarrow> jstr \<Rightarrow> LegacyURL \<Rightarrow> jstr option" where
  "buildTargetHref env targetPath source =
     map_option (\<lambda>target. legacy_pathname target @ write_search env (legacy_params target @ legacy_params source)
       @ legacy_hash source) (legacy_url env targetPath)"

definition settings_target :: "LegacyEnv \<Rightarrow> jstr \<Rightarrow> jstr" where
  "settings_target env tab =
     (case map_of legacySettingsTabs tab of Some target \<Rightarrow> target
      | None \<Rightarrow> if tab \<in> set object_prototype_names then inherited_text env tab else js ''/system-settings'')"

definition legacy_target :: "LegacyEnv \<Rightarrow> jstr \<Rightarrow> LegacyURL \<Rightarrow> jstr option" where
  "legacy_target env path source =
     (if path = js ''/login'' then Some (js ''/sign-in'')
      else if path = js ''/forbidden'' then Some (js ''/403'')
      else if path = js ''/console/topup'' then Some (js ''/wallet'')
      else if path = js ''/console/setting''
        then Some (settings_target env (case map_of (legacy_params source) (js ''tab'') of None \<Rightarrow> [] | Some tab \<Rightarrow> tab))
      else if path = js ''/console/chat'' then Some (js ''/dashboard'')
      else if prefix (js ''/console/chat/'') path
        then (let chatID = drop (length (js ''/console/chat/'')) path
              in Some (if chatID \<noteq> [] then js ''/chat/'' @ chatID else js ''/dashboard''))
      else case map_of legacyConsoleRoutes path of Some target \<Rightarrow> Some target
        | None \<Rightarrow> if prefix (js ''/console/'') path then Some (js ''/dashboard'') else None)"

definition resolveLegacyRoute :: "LegacyEnv \<Rightarrow> jstr \<Rightarrow> jstr option option" where
  "resolveLegacyRoute env rawHref =
     (case legacy_url env rawHref of None \<Rightarrow> Some None
      | Some source \<Rightarrow>
          (case legacy_target env (normalizeLegacyPath (legacy_pathname source)) source of None \<Rightarrow> Some None
           | Some targetPath \<Rightarrow> map_option Some (buildTargetHref env targetPath source)))"

section \<open>Codes that pass\<close>

text \<open>A pattern of single classes, anchored at both ends, is a test of each character.\<close>

lemma run_classes:
  "run inp (rseq (map RClass Ps @ [REnd])) (s, c)
     = (if length s = length Ps \<and> list_all2 (\<lambda>P x. P x) Ps s then [([], c)] else [])"
proof (induction Ps arbitrary: s)
  case Nil
  then show ?case by simp
next
  case (Cons P Ps)
  have "rseq (map RClass (P # Ps) @ [REnd]) = RSeq (RClass P) (rseq (map RClass Ps @ [REnd]))"
    by (cases Ps) simp_all
  then show ?case using Cons by (cases s) auto
qed

lemma regex_test_classes:
  "Ps \<noteq> [] \<Longrightarrow> regex_test (rseq (RStart # map RClass Ps @ [REnd])) s
     \<longleftrightarrow> length s = length Ps \<and> list_all2 (\<lambda>P x. P x) Ps s"
proof -
  assume "Ps \<noteq> []"
  then have "rseq (RStart # map RClass Ps @ [REnd]) = RSeq RStart (rseq (map RClass Ps @ [REnd]))"
    by (cases Ps) simp_all
  then show ?thesis by (simp only: regex_test_anchored run_classes) simp
qed

lemma list_all2_replicate_pred:
  "list_all2 (\<lambda>P x. P x) (replicate n Q) s \<longleftrightarrow> length s = n \<and> list_all Q s"
  by (auto simp: list_all2_conv_all_nth list_all_length)

lemma isValidOTP_iff: "isValidOTP code \<longleftrightarrow> length code = 6 \<and> list_all is_digit code"
  unfolding isValidOTP_def OTP_REGEX_def
  by (subst regex_test_classes) (auto simp: list_all2_replicate_pred)

lemma isValidBackupCode_iff:
  "isValidBackupCode code \<longleftrightarrow> (\<exists>a b. code = a @ 45 # b \<and> length a = 4 \<and> length b = 4 \<and> list_all is_alnum (a @ b))"
proof -
  let ?Ps = "replicate 4 is_alnum @ [\<lambda>x. x = 45] @ replicate 4 is_alnum"
  have "isValidBackupCode code \<longleftrightarrow> length code = 9 \<and> list_all2 (\<lambda>P x. P x) ?Ps code"
    unfolding isValidBackupCode_def BACKUP_CODE_REGEX_def by (subst regex_test_classes) simp_all
  moreover have "\<exists>a b. code = a @ 45 # b \<and> length a = 4 \<and> length b = 4 \<and> list_all is_alnum (a @ b)"
    if "list_all2 (\<lambda>P x. P x) ?Ps code"
    using that by (auto simp: list_all2_append1 list_all2_Cons1 list_all2_replicate_pred)
  moreover have "list_all2 (\<lambda>P x. P x) ?Ps (a @ 45 # b)" if "length a = 4" "length b = 4" "list_all is_alnum (a @ b)" for a b
    using that by (intro list_all2_appendI) (auto simp: list_all2_replicate_pred)
  ultimately show ?thesis by auto
qed

lemma formatted_cases:
  assumes "cleaned = filter is_upper_alnum (toUpper value)"
  shows "formatBackupCode toUpper value =
    (if length cleaned > 4 then take 4 cleaned @ 45 # drop 4 (take 8 cleaned) else cleaned)"
  using assms by (auto simp: formatBackupCode_def Let_def jstr_eval)

lemma upper_alnum_not_hyphen: "is_upper_alnum x \<Longrightarrow> x \<noteq> 45"
  by (auto simp: is_upper_alnum_def is_digit_def)

lemma clean_formatted: "cleanBackupCode (formatBackupCode toUpper value) = take 8 (filter is_upper_alnum (toUpper value))"
proof -
  define cleaned where "cleaned = filter is_upper_alnum (toUpper value)"
  have h: "filter (\<lambda>x. x \<noteq> 45) (take k cleaned) = take k cleaned" "filter (\<lambda>x. x \<noteq> 45) (drop k (take j cleaned)) = drop k (take j cleaned)" for k j
    by (auto simp: filter_id_conv cleaned_def dest!: in_set_takeD in_set_dropD upper_alnum_not_hyphen)
  have "filter (\<lambda>x. x \<noteq> 45) cleaned = cleaned" using h(1)[of "length cleaned"] by simp
  moreover have "take 4 cleaned @ drop 4 (take 8 cleaned) = take 8 cleaned"
    by (metis append_take_drop_id min.absorb1 numeral_le_iff semiring_norm(68,69,71) take_take)
  ultimately show ?thesis
    using formatted_cases[of cleaned toUpper "value", OF cleaned_def] h by (auto simp: cleanBackupCode_def cleaned_def[symmetric])
qed

text \<open>With the backup code field, the button that sends the code is enabled exactly when at least eight letters and digits have been
  typed; then the code passes the check of the form and, with the flow of the sign-in at hand, what is sent is
  the first eight of these letters and digits in upper case.\<close>

lemma enabled_backup_code_is_sent:
  assumes "otp_useBackupCode f" "\<not> otp_loading f" "pending2FAFlowToken (auth (tab_auth tab)) = Some token" "token \<noteq> []"
  shows "(submit_enabled (otp_type toUpper typed f) \<longleftrightarrow> 8 \<le> length (filter is_upper_alnum (toUpper typed)))
    \<and> (submit_enabled (otp_type toUpper typed f) \<longrightarrow>
      fst (otp_submit env (otp_type toUpper typed f) tab) = OtpSent (take 8 (filter is_upper_alnum (toUpper typed))) token)"
proof -
  define cleaned where "cleaned = filter is_upper_alnum (toUpper typed)"
  note f = formatted_cases[of cleaned toUpper typed, OF cleaned_def]
  have l: "length (formatBackupCode toUpper typed) \<ge> 9 \<longleftrightarrow> 8 \<le> length cleaned" using f by auto
  then have e: "submit_enabled (otp_type toUpper typed f) \<longleftrightarrow> 8 \<le> length (filter is_upper_alnum (toUpper typed))"
    using assms(1,2) by (simp add: submit_enabled_def isFormValid_def otp_type_def BACKUP_CODE_LENGTH_def cleaned_def)
  have up: "is_upper_alnum x \<Longrightarrow> is_alnum x" for x by (simp add: is_alnum_def)
  have "isValidBackupCode (formatBackupCode toUpper typed)" if "8 \<le> length cleaned"
    unfolding isValidBackupCode_iff using f that
    by (intro exI[of _ "take 4 cleaned"] exI[of _ "drop 4 (take 8 cleaned)"])
      (auto simp: list_all_iff cleaned_def up dest!: in_set_takeD in_set_dropD)
  then have "fst (otp_submit env (otp_type toUpper typed f) tab) = OtpSent (take 8 (filter is_upper_alnum (toUpper typed))) token"
    if "submit_enabled (otp_type toUpper typed f)"
    using that assms l by (simp add: submit_enabled_def isFormValid_def otp_type_def otp_submit_def BACKUP_CODE_LENGTH_def
        clean_formatted str_truthy_def Let_def)
  with e show ?thesis by blast
qed

text \<open>The second factor knows nothing of the path the sign-in page was asked for.\<close>

lemma second_factor_forgets_redirect:
  assumes "truthy (jget res (js ''success''))" "isAuthBundle (jget res (js ''data''))"
    and "language_fine env (bundle_of (jget res (js ''data'')))"
    and "stored (sessionStore tab) EXTERNAL_AUTH_REDIRECT_STORAGE_KEY = None"
  shows "\<exists>tab'. otp_answer env (Inr res) tab = Some tab'
    \<and> departures tab' = departures tab @ [NavigateHref (js ''/dashboard'')]"
proof -
  have "truthy (jget res (js ''data''))" using assms(2) by (cases "jget res (js ''data'')") (simp_all add: isAuthBundle_def)
  moreover obtain tab' where "handleLoginSuccess env (bundle_of (jget res (js ''data''))) JUndefined tab = (None, tab')"
    "departures tab' = departures tab @ [NavigateHref (safe_target env JUndefined)]"
    using sign_in_without_target[OF assms(3,4), of JUndefined] by blast
  moreover have "safe_target env JUndefined = js ''/dashboard''" by (simp add: safe_target_def sanitizeAuthRedirect_def)
  ultimately show ?thesis using assms(1,2) by (simp add: otp_answer_def)
qed

lemma telegram_authorization_typed:
  "pickTelegramAuthorization v = Some a \<Longrightarrow>
     (\<forall>x \<in> {tg_id a, tg_auth_date a}. is_number x \<and> is_finite (num_of x) \<or> is_string x \<and> trim (str_of x) \<noteq> [])
     \<and> tg_hash a \<noteq> [] \<and> trim (tg_hash a) = tg_hash a
     \<and> (\<forall>(k, x) \<in> set (tg_optional a). k \<in> set telegramOptionalFields \<and> x \<noteq> [])"
  by (auto simp: pickTelegramAuthorization_def readTelegramNumber_def Let_def is_string_iff split: if_splits option.splits)

lemma offered_providers:
  "getAvailableOAuthProviders st \<noteq> [] \<longleftrightarrow> hasOAuthProviders st \<and> (hasOAuthProviders st \<longrightarrow>
     enabled_in st ''github_oauth'' \<or> enabled_in st ''discord_oauth'' \<or> enabled_in st ''oidc_enabled''
     \<or> enabled_in st ''linuxdo_oauth'' \<or> enabled_in st ''telegram_oauth'')"
  by (auto simp: getAvailableOAuthProviders_def hasOAuthProviders_def)

section \<open>Redirections of the former console\<close>

lemma normalized_not_legacy:
  assumes "p \<noteq> js ''/login''" "p \<noteq> js ''/forbidden''" "p \<noteq> js ''/console''" "\<not> prefix (js ''/console/'') p"
  shows "legacy_target env p source = None"
proof -
  have "p \<noteq> a" if "a \<in> fst ` set legacyConsoleRoutes" for a
    using that assms(3,4) by (auto simp: legacyConsoleRoutes_def jstr_eval)
  then have "map_of legacyConsoleRoutes p = None" by (auto simp: map_of_eq_None_iff)
  moreover have "p \<noteq> js ''/console/topup''" "p \<noteq> js ''/console/setting''" "p \<noteq> js ''/console/chat''"
    using assms(4) by (auto simp: jstr_eval)
  moreover have "\<not> prefix (js ''/console/chat/'') p" using assms(4) by (auto simp: jstr_eval prefix_def)
  ultimately show ?thesis using assms by (simp add: legacy_target_def)
qed

text \<open>The paths of the present console a former address can lead to.\<close>

definition present_paths :: "jstr list" where
  "present_paths = map js [''/sign-in'', ''/403'', ''/wallet'', ''/system-settings'', ''/dashboard'']
     @ map snd legacyConsoleRoutes @ map snd legacySettingsTabs"

definition not_legacy :: "jstr \<Rightarrow> bool" where
  "not_legacy p \<longleftrightarrow> p \<noteq> js ''/login'' \<and> p \<noteq> js ''/forbidden'' \<and> p \<noteq> js ''/console'' \<and> \<not> prefix (js ''/console/'') p"

lemma present_paths_not_legacy: "list_all (\<lambda>p. not_legacy (normalizeLegacyPath p) \<and> prefix (js ''/'') p \<and> \<not> prefix (js ''//'') p) present_paths"
  by (simp add: present_paths_def legacyConsoleRoutes_def legacySettingsTabs_def not_legacy_def normalizeLegacyPath_def jstr_eval)

lemma strip_end: "x \<noteq> 47 \<Longrightarrow> \<exists>r. rev (dropWhile (\<lambda>x. x = 47) (rev (a @ x # rest))) = a @ x # r"
proof (induction rest rule: rev_induct)
  case (snoc y rest)
  then show ?case by auto
qed simp

lemma chat_not_legacy: "not_legacy (normalizeLegacyPath (js ''/chat/'' @ rest))"
proof -
  have "js ''/chat/'' @ rest = js ''/cha'' @ 116 # 47 # rest" by (simp add: jstr_eval)
  moreover obtain r where "rev (dropWhile (\<lambda>x. x = 47) (rev (js ''/cha'' @ 116 # 47 # rest))) = js ''/cha'' @ 116 # r"
    using strip_end[of 116 "js ''/cha''" "47 # rest"] by auto
  ultimately show ?thesis by (simp add: not_legacy_def normalizeLegacyPath_def) (simp add: jstr_eval)
qed

text \<open>Where a former address leads to: a present path, or the chat with the rest of the path.\<close>

lemma legacy_target_cases:
  assumes "legacy_target env p source = Some target"
    and "\<And>tab. map_of (legacy_params source) (js ''tab'') = Some tab \<Longrightarrow> tab \<notin> set object_prototype_names"
  shows "target \<in> set present_paths \<or> prefix (js ''/console/chat/'') p \<and> target = js ''/chat/'' @ drop (length (js ''/console/chat/'')) p"
proof -
  have tabs: "settings_target env tab \<in> set present_paths" if "tab \<notin> set object_prototype_names" for tab
    using that by (auto simp: settings_target_def present_paths_def split: option.split dest!: map_of_SomeD intro: rev_image_eqI)
  have "[] \<notin> set object_prototype_names" by (simp add: object_prototype_names_def)
  then have "settings_target env (case map_of (legacy_params source) (js ''tab'') of None \<Rightarrow> [] | Some tab \<Rightarrow> tab) \<in> set present_paths"
    using tabs assms(2) by (auto split: option.split)
  moreover have "map_of legacyConsoleRoutes p = Some t \<Longrightarrow> t \<in> set present_paths" for t
    by (auto simp: present_paths_def dest!: map_of_SomeD intro: rev_image_eqI)
  moreover have "{js ''/sign-in'', js ''/403'', js ''/wallet'', js ''/dashboard''} \<subseteq> set present_paths"
    by (simp add: present_paths_def)
  ultimately show ?thesis using assms(1) by (auto simp: legacy_target_def Let_def split: if_splits option.splits)
qed

text \<open>C13. The redirection of former addresses, which the root route applies before every navigation, comes to an
  end at once: the address it gives is not redirected again.  Of the \<open>URL\<close> class it is assumed that it
  reads the written paths unchanged, also the rest of a path it has read itself, and that a query and a
  fragment after a path do not change the path.  The \<open>tab\<close> parameter must not name a member every object
  inherits.\<close>

theorem legacy_redirect_once:
  assumes kept: "\<And>p u. p \<in> set present_paths \<Longrightarrow> legacy_url env p = Some u \<Longrightarrow> legacy_pathname u = p"
    and chat: "\<And>text v rest u. legacy_url env text = Some v \<Longrightarrow> normalizeLegacyPath (legacy_pathname v) = js ''/console/chat/'' @ rest \<Longrightarrow>
      legacy_url env (js ''/chat/'' @ rest) = Some u \<Longrightarrow> legacy_pathname u = js ''/chat/'' @ rest"
    and suffixed: "\<And>p u q h v. legacy_url env p = Some u \<Longrightarrow> legacy_pathname u = p \<Longrightarrow> \<not> prefix (js ''//'') p \<Longrightarrow>
      h = [] \<or> prefix (js ''#'') h \<Longrightarrow> legacy_url env (p @ write_search env q @ h) = Some v \<Longrightarrow> legacy_pathname v = p"
    and fragment: "\<And>text v. legacy_url env text = Some v \<Longrightarrow> legacy_hash v = [] \<or> prefix (js ''#'') (legacy_hash v)"
    and source: "legacy_url env rawHref = Some source" "resolveLegacyRoute env rawHref = Some (Some href)"
    and tab: "\<And>tab. map_of (legacy_params source) (js ''tab'') = Some tab \<Longrightarrow> tab \<notin> set object_prototype_names"
  shows "resolveLegacyRoute env href = Some None"
proof -
  obtain target u where t: "legacy_target env (normalizeLegacyPath (legacy_pathname source)) source = Some target"
    "legacy_url env target = Some u"
    "href = legacy_pathname u @ write_search env (legacy_params u @ legacy_params source) @ legacy_hash source"
    using source by (auto simp: resolveLegacyRoute_def buildTargetHref_def split: option.splits)
  have p: "legacy_pathname u = target \<and> not_legacy (normalizeLegacyPath target) \<and> \<not> prefix (js ''//'') target"
    using legacy_target_cases[OF t(1) tab]
  proof
    assume "target \<in> set present_paths"
    then show ?thesis using kept t(2) present_paths_not_legacy by (simp add: list_all_iff)
  next
    assume c: "prefix (js ''/console/chat/'') (normalizeLegacyPath (legacy_pathname source))
      \<and> target = js ''/chat/'' @ drop (length (js ''/console/chat/'')) (normalizeLegacyPath (legacy_pathname source))"
    then obtain rest where r: "normalizeLegacyPath (legacy_pathname source) = js ''/console/chat/'' @ rest" by (auto simp: prefix_def)
    with c have "target = js ''/chat/'' @ rest" by simp
    moreover have "\<not> prefix (js ''//'') (js ''/chat/'' @ rest)" by (simp add: jstr_eval)
    ultimately show ?thesis using chat[OF source(1) r] t(2) chat_not_legacy by simp
  qed
  show ?thesis
  proof (cases "legacy_url env href")
    case (Some v)
    then have "legacy_pathname v = target" using suffixed[of target u "legacy_hash source"] fragment[OF source(1)] t p by simp
    then have "legacy_target env (normalizeLegacyPath (legacy_pathname v)) v = None"
      using p normalized_not_legacy by (simp add: not_legacy_def)
    then show ?thesis using Some by (simp add: resolveLegacyRoute_def)
  qed (simp add: resolveLegacyRoute_def)
qed

definition plain_env :: LegacyEnv where
  "plain_env = \<lparr>legacy_url = (\<lambda>text. Some \<lparr>legacy_pathname = takeWhile (\<lambda>x. x \<noteq> 63 \<and> x \<noteq> 35) text, legacy_params = [], legacy_hash = []\<rparr>),
     write_search = (\<lambda>q. if q = [] then [] else js ''?''), inherited_text = id\<rparr>"

lemma takeWhile_all: "list_all P xs \<Longrightarrow> takeWhile P xs = xs"
  by (simp add: takeWhile_eq_all_conv list_all_iff)

lemma present_paths_plain: "p \<in> set present_paths \<Longrightarrow> list_all (\<lambda>x. x \<noteq> 63 \<and> x \<noteq> 35) p"
proof -
  have "list_all (list_all (\<lambda>x. x \<noteq> 63 \<and> x \<noteq> 35)) present_paths"
    by (simp add: present_paths_def legacyConsoleRoutes_def legacySettingsTabs_def jstr_eval)
  then show "p \<in> set present_paths \<Longrightarrow> list_all (\<lambda>x. x \<noteq> 63 \<and> x \<noteq> 35) p" by (simp add: list_all_iff)
qed

lemma plain_chat:
  assumes "normalizeLegacyPath (takeWhile (\<lambda>x. x \<noteq> 63 \<and> x \<noteq> 35) text) = js ''/console/chat/'' @ rest"
  shows "takeWhile (\<lambda>x. x \<noteq> 63 \<and> x \<noteq> 35) (js ''/chat/'' @ rest) = js ''/chat/'' @ rest"
proof -
  have "set (normalizeLegacyPath s) \<subseteq> set s" for s
    by (auto simp: normalizeLegacyPath_def dest: set_dropWhileD)
  then have "set (js ''/console/chat/'' @ rest) \<subseteq> set (takeWhile (\<lambda>x. x \<noteq> 63 \<and> x \<noteq> 35) text)" unfolding assms[symmetric] .
  then have "set rest \<subseteq> set (takeWhile (\<lambda>x. x \<noteq> 63 \<and> x \<noteq> 35) text)" by simp
  then have "list_all (\<lambda>x. x \<noteq> 63 \<and> x \<noteq> 35) rest" by (auto simp: list_all_iff dest: set_takeWhileD)
  then show ?thesis by (intro takeWhile_all) (simp add: jstr_eval)
qed

lemma plain_url:
  "legacy_url plain_env text = Some u \<Longrightarrow> legacy_pathname u = takeWhile (\<lambda>x. x \<noteq> 63 \<and> x \<noteq> 35) text \<and> legacy_hash u = [] \<and> legacy_params u = []"
  by (auto simp: plain_env_def)

theorem legacy_redirect_once_witness:
  "resolveLegacyRoute plain_env (js ''/console/chat/7'') = Some (Some (js ''/chat/7''))
   \<and> resolveLegacyRoute plain_env (js ''/chat/7'') = Some None"
proof -
  have r: "resolveLegacyRoute plain_env (js ''/console/chat/7'') = Some (Some (js ''/chat/7''))"
    by (simp add: resolveLegacyRoute_def buildTargetHref_def plain_env_def legacy_target_def normalizeLegacyPath_def jstr_eval)
  have "resolveLegacyRoute plain_env (js ''/chat/7'') = Some None"
  proof (rule legacy_redirect_once[where rawHref = "js ''/console/chat/7''", OF _ _ _ _ _ r])
    show "legacy_url plain_env (js ''/console/chat/7'') = Some \<lparr>legacy_pathname = js ''/console/chat/7'', legacy_params = [], legacy_hash = []\<rparr>"
      by (simp add: plain_env_def jstr_eval)
    show "legacy_pathname u = js ''/chat/'' @ rest" if "legacy_url plain_env s = Some v"
      "normalizeLegacyPath (legacy_pathname v) = js ''/console/chat/'' @ rest" "legacy_url plain_env (js ''/chat/'' @ rest) = Some u"
      for s v rest u
      unfolding plain_url[OF that(3), THEN conjunct1]
      by (rule plain_chat[OF that(2)[unfolded plain_url[OF that(1), THEN conjunct1]]])
    show "legacy_pathname v = p" if "legacy_url plain_env p = Some u" "legacy_pathname u = p" "h = [] \<or> prefix (js ''#'') h"
      "legacy_url plain_env (p @ write_search plain_env q @ h) = Some v" for p u q h v
      using that plain_url[OF that(1)] plain_url[OF that(4)]
      by (auto simp: plain_env_def takeWhile_append takeWhile_eq_all_conv prefix_def jstr_eval)
  qed (auto dest: plain_url simp: takeWhile_all present_paths_plain)
  with r show ?thesis by blast
qed

text \<open>A tab named after an inherited member is taken for an entry of the table.\<close>

lemma inherited_tab_target: "settings_target env (js ''constructor'') = inherited_text env (js ''constructor'')"
  by (simp add: settings_target_def legacySettingsTabs_def object_prototype_names_def)

section \<open>Addresses of mail\<close>

lemma set_give_back: "set (give_back m u) = {b @ u | a b. m = a @ b}"
proof (induction m)
  case (Cons x m)
  have "{b @ u | a b. x # m = a @ b} = insert (x # m @ u) {b @ u | a b. m = a @ b}"
    by (auto simp: Cons_eq_append_conv)
  with Cons show ?case by simp
qed simp

lemma star_class_mem:
  "t \<in> set (run inp (RStar (RClass P)) (s, c)) \<longleftrightarrow> (\<exists>m. s = m @ fst t \<and> list_all P m \<and> snd t = c)"
proof -
  have s: "s = takeWhile P s @ dropWhile P s" "list_all P (takeWhile P s)" "stops P (dropWhile P s)"
    using hd_dropWhile[of P s] by (auto simp: list_all_iff stops_def dest: set_takeWhileD)
  have run: "run inp (RStar (RClass P)) (s, c) = map (\<lambda>s. (s, c)) (give_back (takeWhile P s) (dropWhile P s))"
    using star_class_run[OF s(2,3)] s(1) by simp
  have "\<exists>a b. takeWhile P s = a @ b \<and> v = b @ dropWhile P s" if "s = m @ v" "list_all P m" for m v
  proof -
    have "takeWhile P s = m @ takeWhile P v" "dropWhile P s = dropWhile P v"
      using that by (simp_all add: list_all_iff takeWhile_append2 dropWhile_append2)
    then show ?thesis by (intro exI[of _ m] exI[of _ "takeWhile P v"]) simp
  qed
  moreover have "\<exists>m. s = m @ b @ dropWhile P s \<and> list_all P m" if "takeWhile P s = a @ b" for a b
    using s that by (intro exI[of _ a]) (metis append_assoc list_all_append)
  moreover have "t \<in> set (map (\<lambda>s. (s, c)) xs) \<longleftrightarrow> fst t \<in> set xs \<and> snd t = c" for xs by (cases t) auto
  ultimately show ?thesis unfolding run by (simp only: set_give_back mem_Collect_eq) metis
qed

lemma plus_class_mem:
  "t \<in> set (run inp (RPlus (RClass P)) (s, c)) \<longleftrightarrow> (\<exists>m. m \<noteq> [] \<and> s = m @ fst t \<and> list_all P m \<and> snd t = c)"
proof (cases s)
  case (Cons x s')
  have "t \<in> set (run inp (RPlus (RClass P)) (s, c)) \<longleftrightarrow> P x \<and> (\<exists>m. s' = m @ fst t \<and> list_all P m \<and> snd t = c)"
    using star_class_mem[of t inp P s' c] Cons by (simp del: run.simps(5))
  then show ?thesis using Cons by (auto simp: Cons_eq_append_conv intro: exI[of _ "x # m" for m])
qed (simp del: run.simps(5))

lemma seq_plus:
  "t \<in> set (run inp (RSeq (RPlus (RClass P)) r) (s, c)) \<longleftrightarrow>
     (\<exists>m u. m \<noteq> [] \<and> s = m @ u \<and> list_all P m \<and> t \<in> set (run inp r (u, c)))"
proof -
  have "t \<in> set (run inp (RSeq (RPlus (RClass P)) r) (s, c)) \<longleftrightarrow>
      (\<exists>v \<in> set (run inp (RPlus (RClass P)) (s, c)). t \<in> set (run inp r v))" by (simp del: run.simps(5))
  also have "\<dots> \<longleftrightarrow> (\<exists>m u. m \<noteq> [] \<and> s = m @ u \<and> list_all P m \<and> t \<in> set (run inp r (u, c)))"
    unfolding Bex_def plus_class_mem by (metis fst_conv snd_conv prod.collapse)
  finally show ?thesis .
qed

lemma seq_char: "t \<in> set (run inp (RSeq (RLit [x]) r) (s, c)) \<longleftrightarrow> (\<exists>u. s = x # u \<and> t \<in> set (run inp r (u, c)))"
  by (cases s) (auto simp: after_prefix_def)

abbreviation mail_char :: "code_unit \<Rightarrow> bool" where
  "mail_char x \<equiv> \<not> is_space x \<and> x \<noteq> 64"

lemma isValidEmail_iff:
  "isValidEmail e \<longleftrightarrow> (\<exists>a b d. e = a @ 64 # b @ 46 # d \<and> a \<noteq> [] \<and> b \<noteq> [] \<and> d \<noteq> [] \<and> list_all mail_char (a @ b @ d))"
proof -
  let ?w = "RPlus (RClass mail_char)"
  have r: "emailRegex = RSeq RStart (RSeq ?w (RSeq (RLit [64]) (RSeq ?w (RSeq (RLit [46]) (RSeq ?w REnd)))))"
    by (simp add: emailRegex_def lit_def jstr_eval)
  have "isValidEmail e \<longleftrightarrow> (\<exists>t. t \<in> set (run e (RSeq ?w (RSeq (RLit [64]) (RSeq ?w (RSeq (RLit [46]) (RSeq ?w REnd))))) (e, Map.empty)))"
    unfolding isValidEmail_def r regex_test_anchored by (simp only: ex_in_conv set_empty)
  also have "\<dots> \<longleftrightarrow> (\<exists>a b d. e = a @ 64 # b @ 46 # d \<and> a \<noteq> [] \<and> b \<noteq> [] \<and> d \<noteq> [] \<and> list_all mail_char (a @ b @ d))"
    unfolding seq_plus seq_char by (auto split: if_splits) blast
  finally show ?thesis .
qed

end
