(* ===== verification/Access_Control.thy ===== *)
theory Access_Control
  imports Auth_Session
begin

text \<open>
  What a signed-in user may do, as the console decides it: the administrator's permission matrix
  (\<open>web/src/lib/admin-permissions.ts\<close>, \<open>web/src/lib/roles.ts\<close>) and the groups of an API key
  (\<open>web/src/features/keys/lib/group-selection.ts\<close>).
\<close>

section \<open>Permissions\<close>

definition ROLE_GUEST :: jnum where "ROLE_GUEST = Fin 0"
definition ROLE_USER :: jnum where "ROLE_USER = Fin 1"
definition ROLE_ADMIN :: jnum where "ROLE_ADMIN = Fin 10"
definition ROLE_SUPER_ADMIN :: jnum where "ROLE_SUPER_ADMIN = Fin 100"

definition getRoleLabelKey :: "jnum option \<Rightarrow> jstr" where
  "getRoleLabelKey r =
     (if r = Some ROLE_SUPER_ADMIN then js ''Super Admin''
      else if r = Some ROLE_ADMIN then js ''Admin''
      else if r = Some ROLE_USER then js ''User''
      else js ''Guest'')"

text \<open>A matrix is an object of objects of booleans, in insertion order.\<close>

type_synonym AdminPermissionMatrix = "(jstr \<times> (jstr \<times> bool) list) list"

definition matrix_get :: "AdminPermissionMatrix \<Rightarrow> jstr \<Rightarrow> jstr \<Rightarrow> bool option" where
  "matrix_get mx resource action =
     (case map_of mx resource of None \<Rightarrow> None | Some row \<Rightarrow> map_of row action)"

record PermissionActionDef =
  pa_action :: jstr
  pa_label_key :: jstr
  pa_description_key :: jstr

record PermissionResourceDef =
  pr_resource :: jstr
  pr_label_key :: jstr
  pr_actions :: "PermissionActionDef list"

record PermissionRoleDef =
  role_key :: jstr
  role_name :: jstr
  built_in :: bool
  superuser :: bool
  grants :: AdminPermissionMatrix

record PermissionCatalog =
  resources :: "PermissionResourceDef list"
  roles :: "PermissionRoleDef list"

text \<open>The user's optional property \<open>permissions.admin_permissions\<close> is read from the raw value.\<close>

definition hasPermission :: "AuthUser option \<Rightarrow> jstr \<Rightarrow> jstr \<Rightarrow> bool" where
  "hasPermission u resource action =
     (case u of None \<Rightarrow> False
      | Some usr \<Rightarrow>
          role usr = ROLE_SUPER_ADMIN
          \<or> jget (jget (jget (jget (JObj (user_props usr)) (js ''permissions'')) (js ''admin_permissions''))
               resource) action = JBool True)"

definition roleGrants :: "PermissionCatalog \<Rightarrow> jstr \<Rightarrow> AdminPermissionMatrix" where
  "roleGrants catalog roleKey =
     (case find (\<lambda>r. role_key r = roleKey) (roles catalog) of None \<Rightarrow> [] | Some r \<Rightarrow> grants r)"

definition ADMIN_ROLE_KEY :: jstr where "ADMIN_ROLE_KEY = js ''admin''"

text \<open>One cell of the normalised matrix: the given value, else the baseline, else false.\<close>

definition permission_cell ::
  "AdminPermissionMatrix option \<Rightarrow> AdminPermissionMatrix \<Rightarrow> jstr \<Rightarrow> jstr \<Rightarrow> bool" where
  "permission_cell value baseline resource action =
     (case (case value of None \<Rightarrow> None | Some mx \<Rightarrow> matrix_get mx resource action) of
        Some b \<Rightarrow> b
      | None \<Rightarrow> (case matrix_get baseline resource action of Some b \<Rightarrow> b | None \<Rightarrow> False))"

definition permission_row ::
  "AdminPermissionMatrix option \<Rightarrow> AdminPermissionMatrix \<Rightarrow> PermissionResourceDef \<Rightarrow> (jstr \<times> bool) list" where
  "permission_row value baseline res =
     fold (\<lambda>a acts. obj_set (pa_action a) (permission_cell value baseline (pr_resource res) (pa_action a)) acts)
       (pr_actions res) []"

definition normalizeAdminPermissions ::
  "AdminPermissionMatrix option \<Rightarrow> PermissionCatalog \<Rightarrow> AdminPermissionMatrix" where
  "normalizeAdminPermissions value catalog =
     (let baseline = roleGrants catalog ADMIN_ROLE_KEY
      in fold (\<lambda>res normalized. obj_set (pr_resource res) (permission_row value baseline res) normalized)
           (resources catalog) [])"

lemma map_of_permission_row:
  "map_of (permission_row value baseline res) action =
     (if action \<in> pa_action ` set (pr_actions res)
      then Some (permission_cell value baseline (pr_resource res) action) else None)"
  unfolding permission_row_def by (subst map_of_fold_set_fun) simp

text \<open>The normalised permission matrix answers for the catalogue and nothing else: for the last
  definition of a resource in the catalogue it has an entry for exactly the actions listed there,
  the administrator's own value where there is one, else the baseline of the admin role, else no;
  for a resource outside the catalogue it has none.\<close>

lemma normalizeAdminPermissions_cell:
  "matrix_get (normalizeAdminPermissions value catalog) resource action =
     (case find (\<lambda>r. pr_resource r = resource) (rev (resources catalog)) of
        None \<Rightarrow> None
      | Some r \<Rightarrow>
          if action \<in> pa_action ` set (pr_actions r) then
            Some (case (case value of None \<Rightarrow> None | Some mx \<Rightarrow> matrix_get mx resource action) of
                Some b \<Rightarrow> b
              | None \<Rightarrow> (case matrix_get (roleGrants catalog ADMIN_ROLE_KEY) resource action of
                    Some b \<Rightarrow> b | None \<Rightarrow> False))
          else None)"
proof (cases "find (\<lambda>r. pr_resource r = resource) (rev (resources catalog))")
  case None
  then show ?thesis
    by (simp add: normalizeAdminPermissions_def matrix_get_def[of "fold _ _ _"] Let_def map_of_fold_set_last)
next
  case (Some r)
  then have "pr_resource r = resource" by (auto simp: find_Some_iff)
  with Some show ?thesis
    by (simp add: normalizeAdminPermissions_def matrix_get_def[of "fold _ _ _"] Let_def
        map_of_fold_set_last map_of_permission_row permission_cell_def)
qed

section \<open>Groups of an API key\<close>

datatype GroupMode = GInherit | GExplicit | GAuto

record GroupIdentity =
  gi_id :: "jnum option"
  gi_code :: jstr
  gi_name :: "jstr option"
  gi_exclusive :: "bool option"

record GroupInfo =
  info_desc :: "jstr option"
  info_ratio :: jval
  info_id :: "jnum option"
  info_code :: "jstr option"
  info_name :: "jstr option"
  info_exclusive :: "bool option"

record GroupSelectionOption =
  opt_value :: jstr
  opt_label :: jstr
  opt_desc :: "jstr option"
  opt_ratio :: jval
  opt_id :: "jnum option"
  opt_exclusive :: "bool option"

definition integer_id :: "jnum option \<Rightarrow> jnum option" where
  "integer_id i = (case i of None \<Rightarrow> None | Some n \<Rightarrow> if is_integer n then Some n else None)"

definition group_option :: "jstr \<times> GroupInfo \<Rightarrow> GroupSelectionOption" where
  "group_option = (\<lambda>(key, info). \<lparr>
     opt_value = str_or (info_code info) key,
     opt_label = str_or (info_name info) (str_or (info_code info) key),
     opt_desc = Some (str_or (info_desc info) (str_or (info_name info) (str_or (info_code info) key))),
     opt_ratio = info_ratio info,
     opt_id = integer_id (info_id info),
     opt_exclusive = Some (info_exclusive info = Some True)\<rparr>)"

definition retained_option :: "GroupIdentity \<Rightarrow> GroupSelectionOption" where
  "retained_option identity = \<lparr>
     opt_value = gi_code identity,
     opt_label = str_or (gi_name identity) (gi_code identity),
     opt_desc = Some (str_or (gi_name identity) (gi_code identity)),
     opt_ratio = JUndefined,
     opt_id = integer_id (gi_id identity),
     opt_exclusive = Some (gi_exclusive identity = Some True)\<rparr>"

definition createGroupSelectionOptions ::
  "(jstr \<times> GroupInfo) list \<Rightarrow> GroupIdentity list \<Rightarrow> GroupSelectionOption list" where
  "createGroupSelectionOptions groups retained =
     (let options = map group_option groups in
      options @ map retained_option
        (dedup_seen gi_code (map opt_value options) (filter (\<lambda>i. gi_code i \<noteq> []) retained)))"

definition option_exclusive :: "GroupSelectionOption list \<Rightarrow> jstr \<Rightarrow> bool" where
  "option_exclusive options value =
     (case find (\<lambda>c. opt_value c = value) options of
        None \<Rightarrow> False | Some c \<Rightarrow> opt_exclusive c = Some True)"

definition normalizeGroupSelection ::
  "jstr list \<Rightarrow> jstr list \<Rightarrow> GroupSelectionOption list \<Rightarrow> jstr list" where
  "normalizeGroupSelection previous next options =
     (let unique = js_unique (filter (\<lambda>v. v \<noteq> []) next);
          rest = filter (\<lambda>v. \<not> option_exclusive options v) (filter (\<lambda>v. v \<noteq> js ''auto'') unique)
      in case find (\<lambda>v. v \<notin> set previous) unique of
           Some newlySelected \<Rightarrow>
             if newlySelected = js ''auto'' \<or> option_exclusive options newlySelected
             then [newlySelected] else rest
         | None \<Rightarrow> rest)"

record ApiKeyGroups =
  key_group :: "jstr option"
  key_group_mode :: "GroupMode option"
  key_group_details :: "GroupIdentity list option"

definition resolveApiKeyGroups :: "ApiKeyGroups \<Rightarrow> jstr list" where
  "resolveApiKeyGroups apiKey =
     (if key_group_mode apiKey = Some GInherit then []
      else if key_group_mode apiKey = Some GAuto \<or> key_group apiKey = Some (js ''auto'')
        then [js ''auto'']
      else case key_group_details apiKey of
        Some (d # ds) \<Rightarrow> filter (\<lambda>c. c \<noteq> []) (map gi_code (d # ds))
      | _ \<Rightarrow> filter (\<lambda>c. c \<noteq> []) (map trim (split_on 44 (str_or (key_group apiKey) []))))"

record GroupSelectionPayload =
  pl_group :: jstr
  pl_group_ids :: "jnum list"
  pl_group_mode :: GroupMode

text \<open>\<open>new Map(options.map(...))\<close>: of two options with one value the later one is kept.\<close>

definition buildGroupSelectionPayload ::
  "jstr list \<Rightarrow> GroupSelectionOption list \<Rightarrow> GroupSelectionPayload" where
  "buildGroupSelectionPayload groups options =
     (if groups = [] then \<lparr>pl_group = [], pl_group_ids = [], pl_group_mode = GInherit\<rparr>
      else if groups = [js ''auto''] then \<lparr>pl_group = js ''auto'', pl_group_ids = [], pl_group_mode = GAuto\<rparr>
      else \<lparr>pl_group = join [44] groups,
            pl_group_ids = concat (map (\<lambda>code.
              case map_of (rev (map (\<lambda>o'. (opt_value o', o')) options)) code of
                None \<Rightarrow> []
              | Some o' \<Rightarrow> (case integer_id (opt_id o') of None \<Rightarrow> [] | Some i \<Rightarrow> [i])) groups),
            pl_group_mode = GExplicit\<rparr>)"

text \<open>A group code as the back end issues it: nonempty, no comma, no blank at either end.\<close>

definition plain_code :: "jstr \<Rightarrow> bool" where
  "plain_code c \<longleftrightarrow> c \<noteq> [] \<and> 44 \<notin> set c \<and> trim c = c"

definition selection_ok :: "GroupSelectionOption list \<Rightarrow> jstr list \<Rightarrow> bool" where
  "selection_ok options groups \<longleftrightarrow> distinct groups \<and> [] \<notin> set groups
     \<and> ((\<exists>g \<in> set groups. g = js ''auto'' \<or> option_exclusive options g) \<longrightarrow> length groups = 1)"

text \<open>Exclusive groups stay alone: whatever was selected before and whatever the selector reports,
  the normalised selection has no duplicate and no empty entry, and it holds \<open>auto\<close> or an exclusive
  group only as its single element; every element comes from the reported selection.\<close>

lemma normalizeGroupSelection_ok:
  "selection_ok options (normalizeGroupSelection previous next options)
   \<and> set (normalizeGroupSelection previous next options) \<subseteq> set next"
  by (auto simp: selection_ok_def normalizeGroupSelection_def Let_def
      intro!: distinct_filter split: option.split dest!: find_SomeD)

lemma split_join_plain:
  "groups \<noteq> [] \<Longrightarrow> list_all plain_code groups \<Longrightarrow> split_on 44 (join [44] groups) = groups"
  by (intro split_join) (auto simp: plain_code_def list_all_iff)

lemma split_join_codes:
  assumes "groups \<noteq> []" "list_all plain_code groups"
  shows "filter (\<lambda>c. c \<noteq> []) (map trim (split_on 44 (join [44] groups))) = groups"
  using assms(2)
  by (simp add: split_join_plain[OF assms] map_idI filter_id_conv list_all_iff plain_code_def)

lemma join_not_auto:
  assumes "groups \<noteq> []" "list_all plain_code groups" "groups \<noteq> [js ''auto'']"
  shows "join [44] groups \<noteq> js ''auto''"
proof
  assume "join [44] groups = js ''auto''"
  then have "groups = split_on 44 (js ''auto'')" using split_join_plain[OF assms(1,2)] by simp
  also have "\<dots> = [js ''auto'']" by (rule split_on_no_sep) code_simp
  finally show False using assms(3) by simp
qed

lemma join_nonempty: "groups \<noteq> [] \<Longrightarrow> list_all plain_code groups \<Longrightarrow> join sep groups \<noteq> []"
  by (cases groups; cases "tl groups") (auto simp: plain_code_def)

text \<open>Saving and loading a key's groups is a round trip: resolving a key whose stored fields are
  the payload built from a selection of plain group codes gives the selection back, in its order.\<close>

lemma group_payload_roundtrip:
  assumes "list_all plain_code groups"
  shows "resolveApiKeyGroups
    \<lparr>key_group = Some (pl_group (buildGroupSelectionPayload groups options)),
     key_group_mode = Some (pl_group_mode (buildGroupSelectionPayload groups options)),
     key_group_details = None\<rparr> = groups"
proof (cases "groups = [] \<or> groups = [js ''auto'']")
  case True
  then show ?thesis by (auto simp: resolveApiKeyGroups_def buildGroupSelectionPayload_def)
next
  case False
  then show ?thesis
    using join_not_auto[of groups] assms split_join_codes[of groups] join_nonempty[of groups "[44]"]
    by (simp add: resolveApiKeyGroups_def buildGroupSelectionPayload_def)
qed

end
