(* ===== verification/Playground_Messages.thy ===== *)
theory Playground_Messages
  imports Js_Value
begin

text \<open>
  The conversation of the playground: its messages (\<open>web/src/features/playground/types.ts\<close>) and the
  pure functions under \<open>web/src/features/playground/lib/message/\<close> and \<open>lib/streaming/\<close> that build,
  stream into, finish, edit and send them.

  Times and durations are the finite numbers of the source.  Each reading of the clock
  (\<open>Date.now()\<close>) is an argument of its own, as is each fresh identifier (\<open>nanoid()\<close>) and the
  translation function \<open>t\<close>.  The absent value and \<open>null\<close> of \<open>errorCode\<close> are both \<open>None\<close>: no reader
  tells them apart.
\<close>

section \<open>Data\<close>

datatype MessageRole = RoleUser | RoleAssistant | RoleSystem

datatype MessageStatus = StLoading | StStreaming | StComplete | StError

record MessageVersion =
  v_id :: jstr
  v_content :: jstr

record Reasoning =
  r_content :: jstr
  r_duration :: rat
  r_startedAt :: "rat option"
  r_completedAt :: "rat option"
  r_durationMs :: "rat option"

record Message =
  key :: jstr
  msg_from :: MessageRole
  versions :: "MessageVersion list"
  createdAt :: "rat option"
  startedAt :: "rat option"
  completedAt :: "rat option"
  durationMs :: "rat option"
  sources :: "(jstr \<times> jstr) list option"
  reasoning :: "Reasoning option"
  isReasoningStreaming :: "bool option"
  isReasoningComplete :: "bool option"
  isContentComplete :: "bool option"
  status :: "MessageStatus option"
  errorCode :: "jstr option"

definition API_REQUEST_ERROR :: jstr where "API_REQUEST_ERROR = js ''Request error occurred''"
definition INTERRUPTED :: jstr where "INTERRUPTED = js ''Generation was interrupted''"

section \<open>Versions and constructors\<close>

definition getCurrentVersion :: "Message \<Rightarrow> MessageVersion" where
  "getCurrentVersion message =
     (case versions message of [] \<Rightarrow> \<lparr>v_id = js ''default'', v_content = []\<rparr> | v # _ \<Rightarrow> v)"

definition getMessageContent :: "Message \<Rightarrow> jstr" where
  "getMessageContent message = v_content (getCurrentVersion message)"

definition hasMessageContent :: "Message \<Rightarrow> bool" where
  "hasMessageContent message \<longleftrightarrow> trim (getMessageContent message) \<noteq> []"

definition updateCurrentVersionContent :: "Message \<Rightarrow> jstr \<Rightarrow> Message" where
  "updateCurrentVersionContent message content =
     message\<lparr>versions := [(getCurrentVersion message)\<lparr>v_content := content\<rparr>]\<rparr>"

definition createMessageVersion :: "jstr \<Rightarrow> jstr \<Rightarrow> MessageVersion" where
  "createMessageVersion nanoid content = \<lparr>v_id = nanoid, v_content = content\<rparr>"

definition createUserMessage :: "jstr \<Rightarrow> jstr \<Rightarrow> jstr \<Rightarrow> rat \<Rightarrow> Message" where
  "createUserMessage nanoid nanoid' content created = \<lparr>
     key = nanoid, msg_from = RoleUser, versions = [createMessageVersion nanoid' content],
     createdAt = Some created, startedAt = None, completedAt = None, durationMs = None,
     sources = None, reasoning = None, isReasoningStreaming = None, isReasoningComplete = None,
     isContentComplete = None, status = None, errorCode = None\<rparr>"

definition createLoadingAssistantMessage :: "jstr \<Rightarrow> jstr \<Rightarrow> rat \<Rightarrow> Message" where
  "createLoadingAssistantMessage nanoid nanoid' started = \<lparr>
     key = nanoid, msg_from = RoleAssistant, versions = [createMessageVersion nanoid' []],
     createdAt = Some started, startedAt = Some started, completedAt = None, durationMs = None,
     sources = None, reasoning = None, isReasoningStreaming = Some False,
     isReasoningComplete = Some False, isContentComplete = Some False,
     status = Some StLoading, errorCode = None\<rparr>"

section \<open>Timing\<close>

definition first_some :: "'a option \<Rightarrow> 'a option \<Rightarrow> 'a option" where
  "first_some a b = (case a of None \<Rightarrow> b | Some x \<Rightarrow> Some x)"

definition completeAssistantTiming :: "Message \<Rightarrow> rat \<Rightarrow> Message" where
  "completeAssistantTiming message completed =
     (if msg_from message \<noteq> RoleAssistant then message
      else let started = the (first_some (startedAt message) (first_some (createdAt message) (Some completed)))
        in message\<lparr>startedAt := Some started, completedAt := Some completed,
                   durationMs := Some (max 0 (completed - started))\<rparr>)"

definition startReasoningTiming :: "Message \<Rightarrow> rat \<Rightarrow> Reasoning" where
  "startReasoningTiming message started =
     (case reasoning message of
        None \<Rightarrow> \<lparr>r_content = [], r_duration = 0, r_startedAt = Some started, r_completedAt = None,
                r_durationMs = None\<rparr>
      | Some r \<Rightarrow> \<lparr>r_content = r_content r, r_duration = r_duration r,
                  r_startedAt = first_some (r_startedAt r) (Some started),
                  r_completedAt = r_completedAt r, r_durationMs = r_durationMs r\<rparr>)"

definition completeReasoningTiming :: "Message \<Rightarrow> rat \<Rightarrow> Message" where
  "completeReasoningTiming message completed =
     (case reasoning message of
        None \<Rightarrow> message
      | Some r \<Rightarrow>
          if r_durationMs r \<noteq> None then message
          else let started = the (first_some (r_startedAt r) (first_some (startedAt message) (Some completed)));
                   ms = max 0 (completed - started)
            in message\<lparr>reasoning := Some (r\<lparr>r_startedAt := Some started, r_completedAt := Some completed,
                 r_durationMs := Some ms, r_duration := of_int \<lceil>ms / 1000\<rceil>\<rparr>)\<rparr>)"

section \<open>Think tags\<close>

definition OPEN_TAG :: jstr where "OPEN_TAG = js ''<think>''"
definition CLOSE_TAG :: jstr where "CLOSE_TAG = js ''</think>''"

lemma tag_lengths [simp]: "length OPEN_TAG = 7" "length CLOSE_TAG = 8"
  by (simp_all add: OPEN_TAG_def CLOSE_TAG_def)

text \<open>\<open>s.indexOf(pat, from)\<close> and \<open>s.slice(a, b)\<close> for positions inside the string.\<close>

definition index_from :: "jstr \<Rightarrow> jstr \<Rightarrow> nat \<Rightarrow> nat option" where
  "index_from s pat from = map_option (\<lambda>i. from + i) (find_sub pat (drop from s))"

definition slice :: "nat \<Rightarrow> nat \<Rightarrow> 'a list \<Rightarrow> 'a list" where
  "slice a b s = take (b - a) (drop a s)"

lemma index_from_bounds:
  "index_from s pat from = Some i \<Longrightarrow> from \<le> length s \<Longrightarrow> from \<le> i \<and> i + length pat \<le> length s"
  by (auto simp: index_from_def dest!: find_sub_length)

lemma index_from_nonempty:
  "index_from s pat from = Some i \<Longrightarrow> pat \<noteq> [] \<Longrightarrow> from < length s"
proof -
  assume "index_from s pat from = Some i" "pat \<noteq> []"
  then have "find_sub pat (drop from s) \<noteq> None" by (auto simp: index_from_def)
  with \<open>pat \<noteq> []\<close> have "drop from s \<noteq> []" by auto
  then show ?thesis by simp
qed

function think_loop :: "jstr \<Rightarrow> nat \<Rightarrow> jstr list \<Rightarrow> jstr list \<Rightarrow> jstr list \<times> jstr list \<times> bool" where
  "think_loop content currentPos visibleParts reasoningParts =
     (case index_from content OPEN_TAG currentPos of
        None \<Rightarrow> (if currentPos < length content then visibleParts @ [drop currentPos content]
                 else visibleParts, reasoningParts, False)
      | Some openPos \<Rightarrow>
          let vis = (if currentPos < openPos then visibleParts @ [slice currentPos openPos content]
                     else visibleParts) in
          (case index_from content CLOSE_TAG (openPos + 7) of
             None \<Rightarrow> (vis, reasoningParts @ [drop (openPos + 7) content], True)
           | Some closePos \<Rightarrow>
               think_loop content (closePos + 8) vis
                 (reasoningParts @ [slice (openPos + 7) closePos content])))"
  by pat_completeness auto
termination
proof (relation "measure (\<lambda>(content, pos, vis, reas). length content - pos)", goal_cases)
  case (2 content pos vis reas openPos x closePos)
  have o: "pos < length content" using index_from_nonempty[OF 2(1)] by (simp add: OPEN_TAG_def)
  then have "pos \<le> openPos" "openPos + 7 \<le> length content"
    using index_from_bounds[OF 2(1)] by auto
  with index_from_bounds[OF 2(3)] have "openPos + 7 \<le> closePos" "closePos + 8 \<le> length content"
    by auto
  with o \<open>pos \<le> openPos\<close> have "length content - (closePos + 8) < length content - pos" by linarith
  then show ?case by simp
qed simp

declare think_loop.simps [simp del]

record ParsedThinkTags =
  visibleContent :: jstr
  think_reasoning :: jstr
  hasUnclosedTag :: bool

definition parseThinkTags :: "jstr \<Rightarrow> ParsedThinkTags" where
  "parseThinkTags content =
     (if \<not> js_includes content OPEN_TAG then
        \<lparr>visibleContent = content, think_reasoning = [], hasUnclosedTag = False\<rparr>
      else let (visibleParts, reasoningParts, unclosed) = think_loop content 0 [] [] in
        \<lparr>visibleContent = trim (concat visibleParts),
         think_reasoning = trim (join [10, 10] reasoningParts), hasUnclosedTag = unclosed\<rparr>)"

section \<open>Streaming\<close>

datatype StreamChunkType = ChunkReasoning | ChunkContent

definition processStreamingContent :: "Message \<Rightarrow> jstr option \<Rightarrow> rat \<Rightarrow> Message" where
  "processStreamingContent message contentChunk now =
     (let current = getMessageContent message;
          fullContent = (if str_truthy contentChunk then current @ the contentChunk else current) in
      if reasoning message = None \<and> \<not> js_includes fullContent OPEN_TAG then
        (updateCurrentVersionContent message fullContent)\<lparr>isReasoningStreaming := Some False\<rparr>
      else let parsed = parseThinkTags fullContent;
               finalReasoning =
                 (if think_reasoning parsed \<noteq> []
                  then Some ((startReasoningTiming message now)\<lparr>r_content := think_reasoning parsed\<rparr>)
                  else reasoning message)
        in (updateCurrentVersionContent message fullContent)
             \<lparr>reasoning := finalReasoning, isReasoningStreaming := Some (hasUnclosedTag parsed)\<rparr>)"

definition getAppendableChunk :: "jstr \<Rightarrow> jstr \<Rightarrow> jstr" where
  "getAppendableChunk currentContent chunk =
     (if currentContent = [] \<or> \<not> prefix currentContent chunk then chunk
      else drop (length currentContent) chunk)"

definition applyStreamingChunk :: "Message \<Rightarrow> StreamChunkType \<Rightarrow> jstr \<Rightarrow> rat \<Rightarrow> rat \<Rightarrow> Message" where
  "applyStreamingChunk message type chunk now now' =
     (if status message = Some StError then message
      else case type of
        ChunkReasoning \<Rightarrow>
          (let r = startReasoningTiming message now;
               appendable = getAppendableChunk (r_content r) chunk
           in message\<lparr>reasoning := Some (r\<lparr>r_content := r_content r @ appendable\<rparr>),
                      isReasoningStreaming := Some True, status := Some StStreaming\<rparr>)
      | ChunkContent \<Rightarrow>
          (let appendable = getAppendableChunk (getMessageContent message) chunk;
               contentMessage = processStreamingContent message (Some appendable) now
           in (if isReasoningStreaming contentMessage = Some True then contentMessage
               else completeReasoningTiming contentMessage now')\<lparr>status := Some StStreaming\<rparr>))"

definition finalizeMessage :: "Message \<Rightarrow> jstr option \<Rightarrow> rat \<Rightarrow> rat \<Rightarrow> Message" where
  "finalizeMessage message apiReasoningContent now now' =
     (let content = getMessageContent message;
          parsed = (if js_includes content OPEN_TAG then Some (parseThinkTags content) else None);
          visible = (case parsed of None \<Rightarrow> content | Some p \<Rightarrow> visibleContent p);
          finalReasoning = str_or apiReasoningContent
            (str_or (map_option r_content (reasoning message))
              (str_or (map_option think_reasoning parsed) []))
      in completeReasoningTiming
           ((updateCurrentVersionContent message visible)\<lparr>
              reasoning := (if finalReasoning \<noteq> []
                then Some ((startReasoningTiming message now)\<lparr>r_content := finalReasoning\<rparr>) else None),
              isReasoningStreaming := Some False\<rparr>) now')"

definition completeAssistantMessage :: "Message \<Rightarrow> rat \<Rightarrow> rat \<Rightarrow> rat \<Rightarrow> Message" where
  "completeAssistantMessage message t1 t2 t3 =
     completeAssistantTiming ((finalizeMessage message None t1 t2)\<lparr>status := Some StComplete\<rparr>) t3"

definition isAssistantMessageFinal :: "Message \<Rightarrow> bool" where
  "isAssistantMessageFinal message \<longleftrightarrow> status message = Some StComplete \<or> status message = Some StError"

definition isAssistantMessagePending :: "Message \<Rightarrow> bool" where
  "isAssistantMessagePending message \<longleftrightarrow> status message = Some StLoading \<or> status message = Some StStreaming"

definition isPendingAssistantMessage :: "Message \<Rightarrow> bool" where
  "isPendingAssistantMessage message \<longleftrightarrow>
     msg_from message = RoleAssistant \<and> isAssistantMessagePending message"

text \<open>A choice of a chat completion: its content and its reasoning, each possibly absent.\<close>

record ChatCompletionChoice =
  choice_content :: "jstr option"
  choice_reasoning :: "jstr option"

definition applyChatCompletionChoice ::
  "Message \<Rightarrow> ChatCompletionChoice \<Rightarrow> rat \<Rightarrow> rat \<Rightarrow> rat \<Rightarrow> Message" where
  "applyChatCompletionChoice message choice t1 t2 t3 =
     completeAssistantTiming
       ((finalizeMessage (updateCurrentVersionContent message (str_or (choice_content choice) []))
          (choice_reasoning choice) t1 t2)\<lparr>status := Some StComplete\<rparr>) t3"

definition hasChatCompletionChoice :: "ChatCompletionChoice list option \<Rightarrow> bool" where
  "hasChatCompletionChoice choices \<longleftrightarrow> choices \<noteq> None \<and> choices \<noteq> Some []"

definition applyChatCompletionResponse ::
  "Message \<Rightarrow> ChatCompletionChoice list option \<Rightarrow> rat \<Rightarrow> rat \<Rightarrow> rat \<Rightarrow> Message option" where
  "applyChatCompletionResponse message choices t1 t2 t3 =
     (case choices of
        Some (choice # _) \<Rightarrow> Some (applyChatCompletionChoice message choice t1 t2 t3)
      | _ \<Rightarrow> None)"

text \<open>The loop of \<open>sanitizeMessagesOnLoad\<close> looks for the last pending assistant message.\<close>

fun last_pending :: "Message list \<Rightarrow> nat \<Rightarrow> nat option" where
  "last_pending messages 0 = None"
| "last_pending messages (Suc i) =
     (if isPendingAssistantMessage (messages ! i) then Some i else last_pending messages i)"

definition sanitizeMessagesOnLoad ::
  "(jstr \<Rightarrow> jstr) \<Rightarrow> rat \<Rightarrow> rat \<Rightarrow> rat \<Rightarrow> Message list \<Rightarrow> Message list" where
  "sanitizeMessagesOnLoad t t1 t2 t3 messages =
     (case last_pending messages (length messages) of
        None \<Rightarrow> messages
      | Some targetIndex \<Rightarrow>
          let finalized = finalizeMessage (messages ! targetIndex) None t1 t2;
              hasReasoning = (case reasoning finalized of None \<Rightarrow> False | Some r \<Rightarrow> trim (r_content r) \<noteq> []);
              sanitized =
                (if hasMessageContent finalized \<or> hasReasoning
                 then completeAssistantTiming
                   (finalized\<lparr>status := Some StComplete, isReasoningStreaming := Some False\<rparr>) t3
                 else completeAssistantTiming
                   ((updateCurrentVersionContent finalized (t API_REQUEST_ERROR @ js '': '' @ t INTERRUPTED))
                      \<lparr>status := Some StError, isReasoningStreaming := Some False\<rparr>) t3)
          in messages[targetIndex := sanitized])"

section \<open>What the think-tag parser computes\<close>

text \<open>
  A text read as the tags divide it: pairs of a visible text and a closed reasoning text, then a
  last visible text, then possibly a reasoning text whose tag is not closed.
\<close>

type_synonym think_doc = "(jstr \<times> jstr) list \<times> jstr \<times> jstr option"

definition render_pairs :: "(jstr \<times> jstr) list \<Rightarrow> jstr" where
  "render_pairs ps = concat (map (\<lambda>(t, r). t @ OPEN_TAG @ r @ CLOSE_TAG) ps)"

fun render_doc :: "think_doc \<Rightarrow> jstr" where
  "render_doc (ps, t, u) =
     render_pairs ps @ t @ (case u of None \<Rightarrow> [] | Some r \<Rightarrow> OPEN_TAG @ r)"

fun wf_doc :: "think_doc \<Rightarrow> bool" where
  "wf_doc (ps, t, u) \<longleftrightarrow>
     list_all (\<lambda>(t, r). \<not> js_includes t OPEN_TAG \<and> \<not> js_includes r CLOSE_TAG) ps
     \<and> \<not> js_includes t OPEN_TAG
     \<and> (case u of None \<Rightarrow> True | Some r \<Rightarrow> \<not> js_includes r CLOSE_TAG)"

fun doc_visible :: "think_doc \<Rightarrow> jstr" where
  "doc_visible (ps, t, u) = concat (map fst ps) @ t"

fun doc_reasoning :: "think_doc \<Rightarrow> jstr list" where
  "doc_reasoning (ps, t, u) = map snd ps @ (case u of None \<Rightarrow> [] | Some r \<Rightarrow> [r])"

fun doc_unclosed :: "think_doc \<Rightarrow> bool" where
  "doc_unclosed (ps, t, u) \<longleftrightarrow> u \<noteq> None"

lemma tags_unbordered [simp]: "unbordered OPEN_TAG" "unbordered CLOSE_TAG"
  by (simp_all add: OPEN_TAG_def CLOSE_TAG_def, code_simp+)

lemma tags_nonempty [simp]: "OPEN_TAG \<noteq> []" "CLOSE_TAG \<noteq> []"
  by (simp_all add: OPEN_TAG_def CLOSE_TAG_def)

lemma index_from_here:
  assumes "drop pos s = t @ pat @ rest" "\<not> js_includes t pat" "unbordered pat"
  shows "index_from s pat pos = Some (pos + length t)"
  using find_sub_first[OF assms(2,3)] assms(1) by (simp add: index_from_def)

lemma slice_here: "drop pos s = t @ rest \<Longrightarrow> slice pos (pos + length t) s = t"
  by (simp add: slice_def)

lemma drop_shift: "drop pos s = t @ rest \<Longrightarrow> drop (pos + length t) s = rest"
  by (metis append_eq_conv_conj drop_drop add.commute)

lemma think_loop_pair:
  assumes d: "drop pos s = t @ OPEN_TAG @ r @ CLOSE_TAG @ rest"
    and t: "\<not> js_includes t OPEN_TAG" and r: "\<not> js_includes r CLOSE_TAG"
  shows "\<exists>pos'. drop pos' s = rest \<and> think_loop s pos vis reas =
           think_loop s pos' (vis @ (if t = [] then [] else [t])) (reas @ [r])"
proof -
  let ?o = "pos + length t" and ?c = "pos + length t + 7 + length r"
  have o: "index_from s OPEN_TAG pos = Some ?o" using d t by (intro index_from_here) auto
  have d': "drop (?o + 7) s = r @ CLOSE_TAG @ rest"
    using drop_shift[of pos s "t @ OPEN_TAG" "r @ CLOSE_TAG @ rest"] d by (simp add: add.assoc)
  have c: "index_from s CLOSE_TAG (?o + 7) = Some ?c"
    using index_from_here[OF d' r] by simp
  have "drop (?c + 8) s = rest"
    using drop_shift[of "?o + 7" s "r @ CLOSE_TAG" rest] d' by (simp add: add.assoc)
  moreover have "slice pos ?o s = t" by (rule slice_here[OF d])
  moreover have "slice (?o + 7) ?c s = r" by (rule slice_here[OF d'])
  moreover have "pos < ?o \<longleftrightarrow> t \<noteq> []" by auto
  ultimately show ?thesis
    by (intro exI[of _ "?c + 8"]) (simp add: think_loop.simps[of s pos] o c)
qed

lemma index_from_none: "drop pos s = t \<Longrightarrow> \<not> js_includes t pat \<Longrightarrow> index_from s pat pos = None"
  by (simp add: index_from_def js_includes_def)

lemma think_loop_tail:
  assumes d: "drop pos s = t @ (case u of None \<Rightarrow> [] | Some r \<Rightarrow> OPEN_TAG @ r)"
    and t: "\<not> js_includes t OPEN_TAG"
    and u: "case u of None \<Rightarrow> True | Some r \<Rightarrow> \<not> js_includes r CLOSE_TAG"
  shows "think_loop s pos vis reas =
           (vis @ (if t = [] then [] else [t]), reas @ (case u of None \<Rightarrow> [] | Some r \<Rightarrow> [r]), u \<noteq> None)"
proof (cases u)
  case None
  with d have d: "drop pos s = t" by simp
  have "pos < length s \<longleftrightarrow> t \<noteq> []" using d by auto
  with None d index_from_none[OF d t] show ?thesis by (simp add: think_loop.simps[of s pos])
next
  case (Some r)
  let ?o = "pos + length t"
  from d Some have d: "drop pos s = t @ OPEN_TAG @ r" by simp
  have o: "index_from s OPEN_TAG pos = Some ?o" using d t by (intro index_from_here) auto
  have d': "drop (?o + 7) s = r"
    using drop_shift[of pos s "t @ OPEN_TAG" r] d by (simp add: add.assoc)
  have c: "index_from s CLOSE_TAG (?o + 7) = None" using index_from_none[OF d'] u Some by simp
  have "slice pos ?o s = t" by (rule slice_here[OF d])
  with Some o c d' show ?thesis by (auto simp: think_loop.simps[of s pos])
qed

lemma think_loop_doc:
  assumes "drop pos s = render_doc (ps, t, u)" "wf_doc (ps, t, u)"
  shows "\<exists>parts. concat parts = doc_visible (ps, t, u) \<and>
           think_loop s pos vis reas = (vis @ parts, reas @ doc_reasoning (ps, t, u), doc_unclosed (ps, t, u))"
  using assms
proof (induction ps arbitrary: pos vis reas)
  case Nil
  then have "think_loop s pos vis reas =
    (vis @ (if t = [] then [] else [t]), reas @ (case u of None \<Rightarrow> [] | Some r \<Rightarrow> [r]), u \<noteq> None)"
    by (intro think_loop_tail) (auto simp: render_pairs_def)
  then show ?case by (intro exI[of _ "if t = [] then [] else [t]"]) simp
next
  case (Cons p ps)
  obtain a r where p: "p = (a, r)" by (cases p)
  from Cons.prems(2) p have a: "\<not> js_includes a OPEN_TAG" "\<not> js_includes r CLOSE_TAG" by auto
  have "drop pos s = a @ OPEN_TAG @ r @ CLOSE_TAG @ render_doc (ps, t, u)"
    using Cons.prems(1) p by (simp add: render_pairs_def)
  from think_loop_pair[OF this a] obtain pos' where pos': "drop pos' s = render_doc (ps, t, u)"
    "think_loop s pos vis reas = think_loop s pos' (vis @ (if a = [] then [] else [a])) (reas @ [r])"
    by blast
  from Cons.IH[OF pos'(1), of "vis @ (if a = [] then [] else [a])" "reas @ [r]"] Cons.prems(2)
  obtain parts where "concat parts = doc_visible (ps, t, u)"
    "think_loop s pos vis reas = (vis @ ((if a = [] then [] else [a]) @ parts),
       reas @ doc_reasoning (p # ps, t, u), doc_unclosed (ps, t, u))"
    using p pos'(2) by auto
  then show ?case using p by (intro exI[of _ "(if a = [] then [] else [a]) @ parts"]) simp
qed

lemma includes_open_render:
  "wf_doc d \<Longrightarrow> \<not> js_includes (render_doc d) OPEN_TAG \<Longrightarrow> d = ([], render_doc d, None)"
proof (cases d)
  case (fields ps t u)
  assume "\<not> js_includes (render_doc d) OPEN_TAG"
  then have n: "\<not> sublist OPEN_TAG (render_pairs ps @ t @ (case u of None \<Rightarrow> [] | Some r \<Rightarrow> OPEN_TAG @ r))"
    using fields by (simp add: js_includes_iff_sublist)
  have "u = None"
  proof (cases u)
    case (Some r)
    have "sublist OPEN_TAG (render_pairs ps @ t @ OPEN_TAG @ r)"
      by (metis append_assoc sublist_appendI)
    with n Some show ?thesis by simp
  qed
  moreover have "ps = []"
  proof (cases ps)
    case (Cons p qs)
    then have "sublist OPEN_TAG (render_pairs ps @ t @ (case u of None \<Rightarrow> [] | Some r \<Rightarrow> OPEN_TAG @ r))"
      by (cases p) (auto simp: sublist_def render_pairs_def intro: exI)
    with n show ?thesis by blast
  qed simp
  ultimately show ?thesis using fields by (simp add: render_pairs_def)
qed

text \<open>Every text has such a reading: the text before the first opening tag, then what the tag holds.\<close>

lemma find_sub_before:
  "find_sub pat s = Some i \<Longrightarrow> unbordered pat \<Longrightarrow> pat \<noteq> [] \<Longrightarrow> \<not> js_includes (take i s) pat"
proof (induction s arbitrary: i)
  case (Cons c cs)
  then show ?case
  proof (cases "prefix pat (c # cs)")
    case False
    with Cons.prems obtain j where j: "i = Suc j" "find_sub pat cs = Some j" by auto
    then have "\<not> js_includes (take j cs) pat" using Cons by blast
    moreover have "\<not> prefix pat (c # take j cs)" using False
      by (metis prefix_order.trans take_Suc_Cons take_is_prefix)
    ultimately show ?thesis using j by (simp add: js_includes_def)
  qed (auto simp: js_includes_def)
qed (auto simp: js_includes_def)

lemma doc_exists: "\<exists>d. wf_doc d \<and> render_doc d = s"
proof (induction s rule: length_induct)
  case (1 s)
  show ?case
  proof (cases "find_sub OPEN_TAG s")
    case None
    then show ?thesis by (intro exI[of _ "([], s, None)"]) (simp add: js_includes_def render_pairs_def)
  next
    case (Some i)
    let ?t = "take i s" and ?r = "drop (i + 7) s"
    have s: "s = ?t @ OPEN_TAG @ ?r" using find_sub_split[OF Some] by simp
    have t: "\<not> js_includes ?t OPEN_TAG" using find_sub_before[OF Some] by simp
    show ?thesis
    proof (cases "find_sub CLOSE_TAG ?r")
      case None
      then show ?thesis using s t
        by (intro exI[of _ "([], ?t, Some ?r)"]) (simp add: js_includes_def render_pairs_def)
    next
      case (Some j)
      let ?a = "take j ?r" and ?b = "drop (j + 8) ?r"
      have r: "?r = ?a @ CLOSE_TAG @ ?b" using find_sub_split[OF Some] by simp
      have a: "\<not> js_includes ?a CLOSE_TAG" using find_sub_before[OF Some] by simp
      have "length s = length ?t + (7 + length ?r)" using arg_cong[OF s, of length] by simp
      moreover have "length ?b \<le> length ?r" by simp
      ultimately have "length ?b < length s" by linarith
      with 1 obtain ps u v where d: "wf_doc (ps, u, v)" "render_doc (ps, u, v) = ?b"
        by (metis prod_cases3)
      have "s = ?t @ OPEN_TAG @ ?a @ CLOSE_TAG @ render_doc (ps, u, v)" using s r d(2) by metis
      then show ?thesis using d(1) t a
        by (intro exI[of _ "((?t, ?a) # ps, u, v)"]) (simp add: render_pairs_def)
    qed
  qed
qed

lemma parseThinkTags_doc:
  assumes "wf_doc d"
  shows "parseThinkTags (render_doc d) =
    (if js_includes (render_doc d) OPEN_TAG
     then \<lparr>visibleContent = trim (doc_visible d), think_reasoning = trim (join [10, 10] (doc_reasoning d)),
           hasUnclosedTag = doc_unclosed d\<rparr>
     else \<lparr>visibleContent = doc_visible d, think_reasoning = [], hasUnclosedTag = False\<rparr>)"
proof (cases "js_includes (render_doc d) OPEN_TAG")
  case True
  obtain ps t u where d: "d = (ps, t, u)" by (cases d)
  from think_loop_doc[of 0 "render_doc d" ps t u "[]" "[]"] assms d
  obtain parts where "concat parts = doc_visible d"
    "think_loop (render_doc d) 0 [] [] = (parts, doc_reasoning d, doc_unclosed d)" by auto
  with True show ?thesis by (simp add: parseThinkTags_def)
next
  case False
  then have "doc_visible d = render_doc d"
    using includes_open_render[OF assms False] by (metis append_Nil concat.simps(1) doc_visible.simps list.simps(8))
  with False show ?thesis by (simp add: parseThinkTags_def)
qed

text \<open>C14. Every text divides into visible texts and reasoning texts, no visible text holding
  an opening tag and no reasoning text a closing one, and parseThinkTags on a text so divided returns
  the division: with a tag present, the visible texts in order and trimmed, the reasoning texts joined
  by a blank line and trimmed, and whether the last tag is left open; without one, the text itself.\<close>

theorem parseThinkTags_meaning:
  "(\<exists>d. wf_doc d \<and> render_doc d = content) \<and>
   (wf_doc d \<longrightarrow> parseThinkTags (render_doc d) =
     (if js_includes (render_doc d) OPEN_TAG
      then \<lparr>visibleContent = trim (doc_visible d), think_reasoning = trim (join [10, 10] (doc_reasoning d)),
            hasUnclosedTag = doc_unclosed d\<rparr>
      else \<lparr>visibleContent = doc_visible d, think_reasoning = [], hasUnclosedTag = False\<rparr>))"
  using doc_exists parseThinkTags_doc by blast

theorem parseThinkTags_meaning_witness:
  "parseThinkTags (js ''a<think>b</think>c<think>d'') =
     \<lparr>visibleContent = js ''ac'', think_reasoning = js ''b'' @ [10, 10] @ js ''d'', hasUnclosedTag = True\<rparr>"
proof -
  let ?s = "js ''a<think>b</think>c<think>d''" and ?d = "([(js ''a'', js ''b'')], js ''c'', Some (js ''d''))"
  have 1: "wf_doc ?d" and 2: "render_doc ?d = ?s" and 3: "js_includes ?s OPEN_TAG" by code_simp+
  have 4: "trim (doc_visible ?d) = js ''ac''"
    "trim (join [10, 10] (doc_reasoning ?d)) = js ''b'' @ [10, 10] @ js ''d''" "doc_unclosed ?d" by code_simp+
  show ?thesis
    using conjunct2[OF parseThinkTags_meaning[of "[]" ?d], rule_format, OF 1] unfolding 2 if_P[OF 3] 4 by simp
qed

section \<open>Streaming\<close>

text \<open>What a chunk does to the text received so far: a chunk that repeats the whole text and goes on
  is a snapshot and replaces it, any other chunk is appended.\<close>

definition absorb :: "jstr \<Rightarrow> jstr \<Rightarrow> jstr" where
  "absorb acc chunk = (if acc \<noteq> [] \<and> prefix acc chunk then chunk else acc @ chunk)"

lemma append_appendable: "acc @ getAppendableChunk acc chunk = absorb acc chunk"
  by (auto simp: getAppendableChunk_def absorb_def prefix_def)

lemma getMessageContent_update [simp]:
  "getMessageContent (updateCurrentVersionContent m c) = c"
  by (simp add: getMessageContent_def getCurrentVersion_def updateCurrentVersionContent_def)

lemma getMessageContent_cong:
  "versions m' = versions m \<Longrightarrow> getMessageContent m' = getMessageContent m"
  by (simp add: getMessageContent_def getCurrentVersion_def)

lemma timing_versions [simp]:
  "versions (completeReasoningTiming m t) = versions m"
  "versions (completeAssistantTiming m t) = versions m"
  by (auto simp: completeReasoningTiming_def completeAssistantTiming_def Let_def split: option.splits)

lemma timing_status [simp]:
  "status (completeReasoningTiming m t) = status m"
  "status (completeAssistantTiming m t) = status m"
  "msg_from (completeReasoningTiming m t) = msg_from m"
  "msg_from (completeAssistantTiming m t) = msg_from m"
  "key (completeReasoningTiming m t) = key m"
  "key (completeAssistantTiming m t) = key m"
  "isReasoningStreaming (completeReasoningTiming m t) = isReasoningStreaming m"
  "isReasoningStreaming (completeAssistantTiming m t) = isReasoningStreaming m"
  by (auto simp: completeReasoningTiming_def completeAssistantTiming_def Let_def split: option.splits)

lemma update_fields [simp]:
  "status (updateCurrentVersionContent m c) = status m"
  "msg_from (updateCurrentVersionContent m c) = msg_from m"
  "key (updateCurrentVersionContent m c) = key m"
  "reasoning (updateCurrentVersionContent m c) = reasoning m"
  by (simp_all add: updateCurrentVersionContent_def)

lemma versions_update [simp]:
  "versions (updateCurrentVersionContent m c) = [(getCurrentVersion m)\<lparr>v_content := c\<rparr>]"
  by (simp add: updateCurrentVersionContent_def)

lemma processStreamingContent_versions:
  "versions (processStreamingContent m (Some c) now)
     = [(getCurrentVersion m)\<lparr>v_content := getMessageContent m @ c\<rparr>]"
  by (simp add: processStreamingContent_def Let_def str_truthy_def)

lemma content_chunk_content:
  assumes "status m \<noteq> Some StError"
  shows "getMessageContent (applyStreamingChunk m ChunkContent c t1 t2) = absorb (getMessageContent m) c"
    and "status (applyStreamingChunk m ChunkContent c t1 t2) = Some StStreaming"
  using assms
  by (auto simp: applyStreamingChunk_def Let_def getMessageContent_def[of "_\<lparr>status := _\<rparr>"]
      getCurrentVersion_def[of "_\<lparr>status := _\<rparr>"] processStreamingContent_versions append_appendable)

definition apply_content_chunks :: "Message \<Rightarrow> (jstr \<times> rat \<times> rat) list \<Rightarrow> Message" where
  "apply_content_chunks m cs = foldl (\<lambda>m (c, t1, t2). applyStreamingChunk m ChunkContent c t1 t2) m cs"

lemma streamed_content:
  "status m \<noteq> Some StError \<Longrightarrow>
     getMessageContent (apply_content_chunks m cs) = foldl absorb (getMessageContent m) (map fst cs)"
proof (induction cs arbitrary: m)
  case (Cons c cs)
  obtain d t1 t2 where c: "c = (d, t1, t2)" by (cases c)
  from Cons.prems have "status (applyStreamingChunk m ChunkContent d t1 t2) \<noteq> Some StError"
    by (simp add: content_chunk_content)
  from Cons.IH[OF this] Cons.prems c show ?case
    by (simp add: apply_content_chunks_def content_chunk_content)
qed (simp add: apply_content_chunks_def)

lemma absorb_snapshots:
  "sorted_wrt prefix (c # cs) \<Longrightarrow> c \<noteq> [] \<Longrightarrow> foldl absorb c cs = last (c # cs)"
proof (induction cs arbitrary: c)
  case (Cons d cs)
  then have "absorb c d = d" "d \<noteq> []" by (auto simp: absorb_def)
  with Cons show ?case by (auto simp: absorb_def)
qed simp

lemma absorb_deltas:
  "(\<And>i. i < length cs \<Longrightarrow> acc @ concat (take i cs) = [] \<or> \<not> prefix (acc @ concat (take i cs)) (cs ! i))
   \<Longrightarrow> foldl absorb acc cs = acc @ concat cs"
proof (induction cs arbitrary: acc)
  case (Cons d cs)
  have "absorb acc d = acc @ d" using Cons.prems[of 0] by (auto simp: absorb_def)
  moreover have "foldl absorb (acc @ d) cs = (acc @ d) @ concat cs"
  proof (rule Cons.IH)
    fix i assume "i < length cs"
    then show "(acc @ d) @ concat (take i cs) = [] \<or> \<not> prefix ((acc @ d) @ concat (take i cs)) (cs ! i)"
      using Cons.prems[of "Suc i"] by simp
  qed
  ultimately show ?case by simp
qed simp

definition snapshots :: "jstr list \<Rightarrow> bool" where
  "snapshots cs \<longleftrightarrow> cs \<noteq> [] \<and> list_all (\<lambda>c. c \<noteq> []) cs \<and> sorted_wrt prefix cs"

definition deltas :: "jstr list \<Rightarrow> bool" where
  "deltas cs \<longleftrightarrow> list_all (\<lambda>i. concat (take i cs) = [] \<or> \<not> prefix (concat (take i cs)) (cs ! i)) [0..<length cs]"

text \<open>The text of an assistant message that streams: chunks that are growing snapshots of the
  answer leave the last snapshot, and chunks that are deltas leave their concatenation, provided no
  delta begins with the whole text received before it.\<close>

lemma streamed_text:
  assumes "status m \<noteq> Some StError" "getMessageContent m = []"
  shows "(snapshots (map fst cs) \<longrightarrow> getMessageContent (apply_content_chunks m cs) = fst (last cs))
    \<and> (deltas (map fst cs) \<longrightarrow> getMessageContent (apply_content_chunks m cs) = concat (map fst cs))"
proof (intro conjI impI)
  have c: "getMessageContent (apply_content_chunks m cs) = foldl absorb [] (map fst cs)"
    using streamed_content assms by metis
  show "getMessageContent (apply_content_chunks m cs) = fst (last cs)" if "snapshots (map fst cs)"
  proof (cases cs)
    case (Cons d ds)
    with that absorb_snapshots[of "fst d" "map fst ds"] c show ?thesis
      by (simp add: absorb_def snapshots_def last_map)
  qed (use that in \<open>simp add: snapshots_def\<close>)
  show "getMessageContent (apply_content_chunks m cs) = concat (map fst cs)" if "deltas (map fst cs)"
    using absorb_deltas[of "map fst cs" "[]"] that c by (simp add: deltas_def list_all_iff)
qed

text \<open>A delta that begins with the whole text received so far is taken for a snapshot, so the
  repeated text is not shown: of the two deltas ha, ha of the answer haha only one is kept.\<close>

lemma repeated_delta_lost:
  assumes "status m \<noteq> Some StError" "getMessageContent m = acc" "acc \<noteq> []"
  shows "getMessageContent (applyStreamingChunk m ChunkContent (acc @ rest) t1 t2) = acc @ rest
    \<and> acc @ rest \<noteq> acc @ (acc @ rest)"
  using assms by (simp add: content_chunk_content absorb_def)

end
