(* ===== verification/Playground_Conversation.thy ===== *)
theory Playground_Conversation
  imports Playground_Messages
begin

text \<open>
  The playground's conversation as a list of messages: sending, regenerating, editing and deleting
  (\<open>lib/message/conversation-message-utils.ts\<close>, \<open>message-update-utils.ts\<close>), the request built from it
  (\<open>lib/streaming/payload-builder.ts\<close>, the rest of \<open>message-utils.ts\<close>) and the display states derived
  from a message (\<open>message-content-utils.ts\<close>, \<open>message-error-utils.ts\<close>, \<open>message-action-utils.ts\<close>,
  \<open>message-editor-utils.ts\<close>, \<open>message-layout-utils.ts\<close>).

  A call of \<open>createLoadingAssistantMessage\<close> inside an operation takes two identifiers from
  \<open>nanoid\<close>; they are arguments.  \<open>lower\<close> stands for \<open>String.prototype.toLowerCase\<close>, the Unicode case
  mapping.
\<close>

section \<open>The conversation\<close>

definition appendUserMessagePair ::
  "jstr \<Rightarrow> jstr \<Rightarrow> jstr \<Rightarrow> jstr \<Rightarrow> rat \<Rightarrow> Message list \<Rightarrow> jstr \<Rightarrow> Message list" where
  "appendUserMessagePair id1 id2 id3 id4 submittedAt messages content =
     messages @ [createUserMessage id1 id2 content submittedAt,
                 createLoadingAssistantMessage id3 id4 submittedAt]"

text \<open>\<open>messages.findIndex((message) => message.key === messageKey)\<close>, with \<open>None\<close> for -1.\<close>

fun find_index :: "('a \<Rightarrow> bool) \<Rightarrow> 'a list \<Rightarrow> nat option" where
  "find_index P [] = None"
| "find_index P (x # xs) = (if P x then Some 0 else map_option Suc (find_index P xs))"

definition createRegeneratedMessages ::
  "jstr \<Rightarrow> jstr \<Rightarrow> rat \<Rightarrow> Message list \<Rightarrow> jstr \<Rightarrow> Message list option" where
  "createRegeneratedMessages id1 id2 now messages messageKey =
     (case find_index (\<lambda>m. key m = messageKey) messages of
        None \<Rightarrow> None
      | Some messageIndex \<Rightarrow>
          if msg_from (messages ! messageIndex) = RoleUser
          then Some (take (messageIndex + 1) messages @ [createLoadingAssistantMessage id1 id2 now])
          else Some (take messageIndex messages @ [createLoadingAssistantMessage id1 id2 now]))"

definition removeMessageByKey :: "Message list \<Rightarrow> jstr \<Rightarrow> Message list" where
  "removeMessageByKey messages messageKey = filter (\<lambda>m. key m \<noteq> messageKey) messages"

fun getPreviousUserMessage :: "Message list \<Rightarrow> nat \<Rightarrow> Message option" where
  "getPreviousUserMessage messages 0 = None"
| "getPreviousUserMessage messages (Suc index) =
     (if msg_from (messages ! index) = RoleUser then Some (messages ! index)
      else getPreviousUserMessage messages index)"

record ApplyMessageEditResult =
  edit_messages :: "Message list"
  shouldSend :: bool

definition edited_message :: "jstr \<Rightarrow> jstr \<Rightarrow> bool \<Rightarrow> rat \<Rightarrow> Message \<Rightarrow> Message" where
  "edited_message messageKey content shouldSubmit submittedAt message =
     (if key message = messageKey
      then (updateCurrentVersionContent message content)
             \<lparr>createdAt := (if shouldSubmit then Some submittedAt else createdAt message)\<rparr>
      else message)"

definition applyMessageEdit ::
  "jstr \<Rightarrow> jstr \<Rightarrow> rat \<Rightarrow> Message list \<Rightarrow> jstr \<Rightarrow> jstr \<Rightarrow> bool \<Rightarrow> ApplyMessageEditResult option" where
  "applyMessageEdit id1 id2 submittedAt messages messageKey content shouldSubmit =
     (case find_index (\<lambda>m. key m = messageKey) messages of
        None \<Rightarrow> None
      | Some messageIndex \<Rightarrow>
          let updatedMessages = map (edited_message messageKey content shouldSubmit submittedAt) messages in
          if \<not> shouldSubmit \<or> msg_from (updatedMessages ! messageIndex) \<noteq> RoleUser
          then Some \<lparr>edit_messages = updatedMessages, shouldSend = False\<rparr>
          else Some \<lparr>edit_messages = take (messageIndex + 1) updatedMessages
                       @ [createLoadingAssistantMessage id1 id2 submittedAt],
                     shouldSend = True\<rparr>)"

definition getEditingMessageContent :: "Message list \<Rightarrow> jstr option \<Rightarrow> jstr" where
  "getEditingMessageContent messages editingKey =
     (if \<not> str_truthy editingKey then []
      else case find (\<lambda>m. key m = the editingKey) messages of
        None \<Rightarrow> [] | Some message \<Rightarrow> getMessageContent message)"

record ChatMessageRenderState =
  alwaysShowActions :: bool
  rs_content :: jstr
  isEditing :: bool

definition getChatMessageRenderState ::
  "Message list \<Rightarrow> Message \<Rightarrow> nat \<Rightarrow> jstr option \<Rightarrow> ChatMessageRenderState" where
  "getChatMessageRenderState messages message messageIndex editingKey = \<lparr>
     alwaysShowActions = (Suc messageIndex = length messages \<and> msg_from message = RoleAssistant),
     rs_content = getMessageContent message,
     isEditing = (editingKey = Some (key message))\<rparr>"

section \<open>Updating the last assistant message\<close>

definition updateLastAssistantMessage :: "Message list \<Rightarrow> (Message \<Rightarrow> Message) \<Rightarrow> Message list" where
  "updateLastAssistantMessage messages updater =
     (if messages = [] then messages
      else if msg_from (last messages) \<noteq> RoleAssistant then messages
      else messages[length messages - 1 := updater (last messages)])"

definition error_message :: "jstr \<Rightarrow> jstr option \<Rightarrow> jstr \<Rightarrow> rat \<Rightarrow> Message \<Rightarrow> Message" where
  "error_message errorMessage code title now message =
     completeAssistantTiming
       ((updateCurrentVersionContent message (title @ js '': '' @ errorMessage))\<lparr>
          status := Some StError, isReasoningStreaming := Some False,
          errorCode := (if str_truthy code then code else None)\<rparr>) now"

definition updateAssistantMessageWithError ::
  "Message list \<Rightarrow> jstr \<Rightarrow> jstr option \<Rightarrow> jstr \<Rightarrow> rat \<Rightarrow> Message list" where
  "updateAssistantMessageWithError messages errorMessage code title now =
     updateLastAssistantMessage messages (error_message errorMessage code title now)"

section \<open>Content for the request\<close>

datatype PartType = PartText | PartImageUrl

record ContentPart =
  part_type :: PartType
  part_text :: "jstr option"
  part_image_url :: "jstr option"

datatype MessageContent = TextContent jstr | PartsContent "ContentPart list"

definition buildMessageContent :: "jstr \<Rightarrow> jstr list \<Rightarrow> MessageContent" where
  "buildMessageContent text imageUrls =
     (let validImages = filter (\<lambda>url. trim url \<noteq> []) imageUrls in
      if validImages = [] then TextContent text
      else PartsContent (\<lparr>part_type = PartText, part_text = Some text, part_image_url = None\<rparr>
        # map (\<lambda>url. \<lparr>part_type = PartImageUrl, part_text = None, part_image_url = Some (trim url)\<rparr>)
            validImages))"

fun getTextContent :: "MessageContent \<Rightarrow> jstr" where
  "getTextContent (TextContent content) = content"
| "getTextContent (PartsContent parts) =
     (case find (\<lambda>part. part_type part = PartText) parts of
        None \<Rightarrow> [] | Some textPart \<Rightarrow> str_or (part_text textPart) [])"

definition image_model_names :: "jstr list" where
  "image_model_names = map js [''grok-imagine-image'', ''grok-2-image-1212'', ''dall-e-2'', ''dall-e-3'',
     ''gpt-image-1'', ''gpt-image-2'', ''flux-'', ''flux.1-'']"

definition isImageGenerationModel :: "(jstr \<Rightarrow> jstr) \<Rightarrow> jstr \<Rightarrow> bool" where
  "isImageGenerationModel lower modelName =
     (let model = lower modelName in
      list_ex (\<lambda>name. js_includes model name) image_model_names \<or> prefix (js ''imagen-'') model)"

definition image_markdown :: "jval \<Rightarrow> jstr list" where
  "image_markdown item =
     (if \<not> is_object item then []
      else if is_string (jget item (js ''url'')) \<and> trim (str_of (jget item (js ''url''))) \<noteq> []
      then [js ''![Generated image]('' @ trim (str_of (jget item (js ''url''))) @ js '')'']
      else if is_string (jget item (js ''b64_json'')) \<and> trim (str_of (jget item (js ''b64_json''))) \<noteq> []
      then [js ''![Generated image](data:image/png;base64,''
              @ trim (str_of (jget item (js ''b64_json''))) @ js '')'']
      else [])"

definition getImageResponseContent :: "jval \<Rightarrow> jstr option" where
  "getImageResponseContent response =
     (if \<not> is_object response then None
      else case jget response (js ''data'') of
        JArr data \<Rightarrow> (let images = concat (map image_markdown data) in
                     if images \<noteq> [] then Some (join [10, 10] images) else None)
      | _ \<Rightarrow> None)"

definition formatMessageForAPI :: "Message \<Rightarrow> MessageRole \<times> MessageContent" where
  "formatMessageForAPI message = (msg_from message, TextContent (v_content (getCurrentVersion message)))"

definition isValidMessage :: "Message \<Rightarrow> bool" where
  "isValidMessage message \<longleftrightarrow>
     versions message \<noteq> [] \<and> \<not> (msg_from message = RoleAssistant \<and> \<not> hasMessageContent message)"

section \<open>The request payload\<close>

record PlaygroundConfig =
  cfg_model :: jstr
  cfg_group :: jstr
  cfg_temperature :: rat
  cfg_top_p :: rat
  cfg_max_tokens :: rat
  cfg_frequency_penalty :: rat
  cfg_presence_penalty :: rat
  cfg_seed :: "rat option"
  cfg_stream :: bool

record ParameterEnabled =
  on_temperature :: bool
  on_top_p :: bool
  on_max_tokens :: bool
  on_frequency_penalty :: bool
  on_presence_penalty :: bool
  on_seed :: bool

record ChatCompletionRequest =
  req_model :: jstr
  req_group :: "jstr option"
  req_messages :: "(MessageRole \<times> MessageContent) list"
  req_stream :: bool
  req_temperature :: "rat option"
  req_top_p :: "rat option"
  req_max_tokens :: "rat option"
  req_frequency_penalty :: "rat option"
  req_presence_penalty :: "rat option"
  req_seed :: "rat option"

definition buildChatCompletionPayload ::
  "(jstr \<Rightarrow> jstr) \<Rightarrow> Message list \<Rightarrow> PlaygroundConfig \<Rightarrow> ParameterEnabled \<Rightarrow> ChatCompletionRequest" where
  "buildChatCompletionPayload lower messages config parameterEnabled =
     (let processedMessages = map formatMessageForAPI (filter isValidMessage messages);
          p0 = \<lparr>req_model = cfg_model config, req_group = Some (cfg_group config),
                req_messages = processedMessages,
                req_stream = (cfg_stream config \<and> \<not> isImageGenerationModel lower (cfg_model config)),
                req_temperature = None, req_top_p = None, req_max_tokens = None,
                req_frequency_penalty = None, req_presence_penalty = None, req_seed = None\<rparr>;
          p1 = (if on_temperature parameterEnabled then p0\<lparr>req_temperature := Some (cfg_temperature config)\<rparr> else p0);
          p2 = (if on_top_p parameterEnabled then p1\<lparr>req_top_p := Some (cfg_top_p config)\<rparr> else p1);
          p3 = (if on_max_tokens parameterEnabled then p2\<lparr>req_max_tokens := Some (cfg_max_tokens config)\<rparr> else p2);
          p4 = (if on_frequency_penalty parameterEnabled
                then p3\<lparr>req_frequency_penalty := Some (cfg_frequency_penalty config)\<rparr> else p3);
          p5 = (if on_presence_penalty parameterEnabled
                then p4\<lparr>req_presence_penalty := Some (cfg_presence_penalty config)\<rparr> else p4)
      in if on_seed parameterEnabled \<and> cfg_seed config \<noteq> None then p5\<lparr>req_seed := cfg_seed config\<rparr> else p5)"

section \<open>Display states\<close>

record MessageContentState =
  displayContent :: jstr
  hasSources :: bool
  isAssistant :: bool
  showLoader :: bool
  showMessageContent :: bool
  cs_sources :: "(jstr \<times> jstr) list"
  hasReasoning :: bool
  reasoningContent :: "jstr option"

definition shouldShowMessageLoader :: "Message \<Rightarrow> bool \<Rightarrow> jstr \<Rightarrow> bool" where
  "shouldShowMessageLoader message is_assistant versionContent \<longleftrightarrow>
     is_assistant \<and> isReasoningStreaming message \<noteq> Some True
     \<and> (status message = Some StLoading \<or> (status message = Some StStreaming \<and> versionContent = []))"

definition shouldShowMessageContent :: "Message \<Rightarrow> jstr \<Rightarrow> bool" where
  "shouldShowMessageContent message versionContent \<longleftrightarrow>
     (msg_from message = RoleUser \<or> isReasoningStreaming message \<noteq> Some True) \<and> length versionContent > 0"

definition getDisplayContent :: "Message \<Rightarrow> jstr \<Rightarrow> jstr" where
  "getDisplayContent message versionContent =
     (if msg_from message \<noteq> RoleAssistant then versionContent
      else if \<not> js_includes versionContent OPEN_TAG then versionContent
      else visibleContent (parseThinkTags versionContent))"

definition getMessageContentState :: "Message \<Rightarrow> jstr \<Rightarrow> MessageContentState" where
  "getMessageContentState message versionContent =
     (let is_assistant = (msg_from message = RoleAssistant);
          srcs = (case sources message of None \<Rightarrow> [] | Some s \<Rightarrow> s);
          reasoning_content = (if is_assistant then map_option r_content (reasoning message) else None)
      in \<lparr>displayContent = getDisplayContent message versionContent, hasSources = (length srcs > 0),
          isAssistant = is_assistant,
          showLoader = shouldShowMessageLoader message is_assistant versionContent,
          showMessageContent = shouldShowMessageContent message versionContent, cs_sources = srcs,
          hasReasoning = str_truthy reasoning_content,
          reasoningContent = (if str_truthy reasoning_content then reasoning_content else None)\<rparr>)"

definition isAdminRole :: "rat option \<Rightarrow> bool" where
  "isAdminRole role \<longleftrightarrow> (case role of None \<Rightarrow> False | Some r \<Rightarrow> r \<ge> 10)"

definition isErrorMessage :: "Message \<Rightarrow> bool" where
  "isErrorMessage message \<longleftrightarrow> status message = Some StError"

datatype ErrorKind = GenericError | ModelPriceError

record MessageErrorState =
  err_content :: jstr
  err_kind :: ErrorKind
  showSettingsLink :: bool

definition FALLBACK_ERROR_CONTENT :: jstr where
  "FALLBACK_ERROR_CONTENT = js ''An unknown error occurred''"

definition getMessageErrorState :: "Message \<Rightarrow> bool \<Rightarrow> MessageErrorState option" where
  "getMessageErrorState message isAdmin =
     (if \<not> isErrorMessage message then None
      else let content = str_or (Some (getMessageContent message)) FALLBACK_ERROR_CONTENT;
               isModelPriceError = (errorCode message = Some (js ''model_price_error''))
        in Some \<lparr>err_content = content, err_kind = (if isModelPriceError then ModelPriceError else GenericError),
                 showSettingsLink = (isModelPriceError \<and> isAdmin)\<rparr>)"

record MessageActionState =
  as_content :: jstr
  as_hasContent :: bool
  as_isAssistant :: bool
  as_isLoading :: bool
  as_isUser :: bool

definition getMessageActionState :: "Message \<Rightarrow> MessageActionState" where
  "getMessageActionState message = \<lparr>
     as_content = getMessageContent message, as_hasContent = hasMessageContent message,
     as_isAssistant = (msg_from message = RoleAssistant),
     as_isLoading = (status message = Some StLoading \<or> status message = Some StStreaming),
     as_isUser = (msg_from message = RoleUser)\<rparr>"

record MessageEditorState =
  canSave :: bool
  hasChanged :: bool
  showSaveAndSubmit :: bool

definition getMessageEditorState :: "Message \<Rightarrow> jstr \<Rightarrow> jstr \<Rightarrow> MessageEditorState" where
  "getMessageEditorState message editText originalText =
     (let hasText = length (trim editText) > 0; changed = (editText \<noteq> originalText)
      in \<lparr>canSave = (hasText \<and> changed), hasChanged = changed,
          showSaveAndSubmit = (msg_from message = RoleUser)\<rparr>)"

datatype LayoutMode = Alternating | LayoutLeft
datatype MessageAlignment = AlignLeft | AlignRight

definition getMessageAlignment :: "Message \<Rightarrow> LayoutMode \<Rightarrow> MessageAlignment" where
  "getMessageAlignment message layoutMode =
     (if layoutMode = LayoutLeft then AlignLeft
      else if msg_from message = RoleUser then AlignRight else AlignLeft)"

section \<open>Properties\<close>

lemma find_index_SomeD:
  "find_index P xs = Some i \<Longrightarrow> i < length xs \<and> P (xs ! i) \<and> (\<forall>j < i. \<not> P (xs ! j))"
proof (induction xs arbitrary: i)
  case (Cons x xs)
  then show ?case by (auto split: if_splits simp: less_Suc_eq_0_disj)
qed simp

lemma find_index_None_iff: "find_index P xs = None \<longleftrightarrow> (\<forall>x \<in> set xs. \<not> P x)"
  by (induction xs) auto

lemma placeholder_not_sent [simp]: "\<not> isValidMessage (createLoadingAssistantMessage a b t)"
  by (simp add: isValidMessage_def createLoadingAssistantMessage_def hasMessageContent_def
      getMessageContent_def getCurrentVersion_def createMessageVersion_def)

lemma req_messages_payload:
  "req_messages (buildChatCompletionPayload lower ms c p) = map formatMessageForAPI (filter isValidMessage ms)"
  by (simp add: buildChatCompletionPayload_def Let_def)

lemma user_message_sent:
  "isValidMessage (createUserMessage a b content t)"
  "formatMessageForAPI (createUserMessage a b content t) = (RoleUser, TextContent content)"
  by (simp_all add: isValidMessage_def formatMessageForAPI_def createUserMessage_def
      getCurrentVersion_def createMessageVersion_def)

text \<open>Sending a text appends it and an empty loading answer to the conversation, and the request
  holds what the earlier conversation contributes followed by exactly that text as the user's
  message: the placeholder of the answer is never sent.\<close>

lemma send_request_messages:
  "let ms' = appendUserMessagePair a b c d now messages content in
     take (length messages) ms' = messages \<and> length ms' = length messages + 2
     \<and> isPendingAssistantMessage (last ms') \<and> getMessageContent (last ms') = []
     \<and> req_messages (buildChatCompletionPayload lower ms' config enabled)
       = req_messages (buildChatCompletionPayload lower messages config enabled) @ [(RoleUser, TextContent content)]"
proof -
  have "isPendingAssistantMessage (createLoadingAssistantMessage c d now)"
    "getMessageContent (createLoadingAssistantMessage c d now) = []"
    by (simp_all add: isPendingAssistantMessage_def isAssistantMessagePending_def getMessageContent_def
        createLoadingAssistantMessage_def getCurrentVersion_def createMessageVersion_def)
  then show ?thesis
    by (simp add: appendUserMessagePair_def req_messages_payload user_message_sent)
qed

text \<open>Regenerating cuts the conversation at the first message with the key, after it when it is the
  user's and before it otherwise, and adds an empty loading answer; the request then holds what
  the kept messages contribute.  It does nothing exactly when no message has the key.\<close>

lemma regenerate_cuts:
  "createRegeneratedMessages a b now messages k =
     (if \<exists>m \<in> set messages. key m = k then
        (let i = length (takeWhile (\<lambda>m. key m \<noteq> k) messages);
             kept = take (if msg_from (messages ! i) = RoleUser then i + 1 else i) messages
         in Some (kept @ [createLoadingAssistantMessage a b now]))
      else None)
   \<and> (createRegeneratedMessages a b now messages k = Some ms' \<longrightarrow>
        req_messages (buildChatCompletionPayload lower ms' config enabled)
          = req_messages (buildChatCompletionPayload lower (butlast ms') config enabled))"
proof -
  have i: "find_index (\<lambda>m. key m = k) messages =
    (if \<exists>m \<in> set messages. key m = k then Some (length (takeWhile (\<lambda>m. key m \<noteq> k) messages)) else None)"
    by (induction messages) auto
  show ?thesis
    unfolding createRegeneratedMessages_def i
    by (auto simp: Let_def req_messages_payload split: if_splits)
qed

lemma edited_fields [simp]:
  "key (edited_message k c s t m) = key m" "msg_from (edited_message k c s t m) = msg_from m"
  by (simp_all add: edited_message_def)

lemma edited_content:
  "getMessageContent (edited_message k c s t m) = (if key m = k then c else getMessageContent m)"
  by (auto simp: edited_message_def getMessageContent_def getCurrentVersion_def updateCurrentVersionContent_def)

text \<open>A successful edit gives every message with the key the new text, leaves the other messages as
  they were and keeps all keys and roles.  It asks for a request exactly when it was submitted and
  the first message with the key is the user's; then everything after that message is replaced
  by one empty loading answer.\<close>

lemma edit_result:
  assumes "applyMessageEdit a b now messages k content submit = Some r"
  shows "\<exists>i < length messages. key (messages ! i) = k \<and> (\<forall>j < i. key (messages ! j) \<noteq> k)
    \<and> shouldSend r = (submit \<and> msg_from (messages ! i) = RoleUser)
    \<and> length (edit_messages r) = (if shouldSend r then i + 2 else length messages)
    \<and> (shouldSend r \<longrightarrow> last (edit_messages r) = createLoadingAssistantMessage a b now)
    \<and> (\<forall>j < (if shouldSend r then i + 1 else length messages).
         let m = messages ! j; m' = edit_messages r ! j in
         key m' = key m \<and> msg_from m' = msg_from m
         \<and> getMessageContent m' = (if key m = k then content else getMessageContent m)
         \<and> (key m \<noteq> k \<longrightarrow> m' = m))"
proof -
  from assms obtain i where i: "find_index (\<lambda>m. key m = k) messages = Some i"
    by (auto simp: applyMessageEdit_def split: option.splits)
  note f = find_index_SomeD[OF i]
  let ?u = "map (edited_message k content submit now) messages"
  have r: "r = (if \<not> submit \<or> msg_from (messages ! i) \<noteq> RoleUser
      then \<lparr>edit_messages = ?u, shouldSend = False\<rparr>
      else \<lparr>edit_messages = take (i + 1) ?u @ [createLoadingAssistantMessage a b now], shouldSend = True\<rparr>)"
    using assms i f by (auto simp: applyMessageEdit_def Let_def split: if_splits)
  have u: "key (?u ! j) = key (messages ! j) \<and> msg_from (?u ! j) = msg_from (messages ! j)
       \<and> getMessageContent (?u ! j) = (if key (messages ! j) = k then content else getMessageContent (messages ! j))
       \<and> (key (messages ! j) \<noteq> k \<longrightarrow> ?u ! j = messages ! j)" if "j < length messages" for j
    using that by (simp add: edited_content) (simp add: edited_message_def)
  show ?thesis
  proof (cases "submit \<and> msg_from (messages ! i) = RoleUser")
    case True
    then have r: "r = \<lparr>edit_messages = take (i + 1) ?u @ [createLoadingAssistantMessage a b now], shouldSend = True\<rparr>"
      using r by simp
    have "edit_messages r ! j = ?u ! j" if "j < i + 1" for j
      using that f by (simp add: r nth_append del: nth_map)
    then show ?thesis using f True u by (intro exI[of _ i]) (simp add: r Let_def min_def)
  next
    case False
    then have "r = \<lparr>edit_messages = ?u, shouldSend = False\<rparr>" using r by auto
    then show ?thesis using f False u by (intro exI[of _ i]) (simp add: Let_def del: nth_map)
  qed
qed

end
