(* ===== verification/Playground_Storage.thy ===== *)
theory Playground_Storage
  imports Playground_Conversation "HOL-Library.Monad_Syntax"
begin

text \<open>
  What the playground keeps in \<open>localStorage\<close> (\<open>web/src/features/playground/lib/storage/storage.ts\<close>,
  \<open>storage-schema.ts\<close>, \<open>lib/state/playground-state-utils.ts\<close>): the limits applied on loading, the
  repair of interrupted messages, and saving and loading.

  \<open>localStorage\<close> is a map from keys to texts.  \<open>JSON.parse\<close> and \<open>JSON.stringify\<close> are arguments, as is
  the browser's decision whether a value still fits (\<open>setItem\<close> throws when it does not).  The
  schemas are read with the documented meaning of the zod combinators they are built from: a
  property that is absent passes an optional schema, unknown properties are dropped.
\<close>

section \<open>Schemas\<close>

definition z_string :: "jval \<Rightarrow> jstr option" where
  "z_string v = (case v of JStr s \<Rightarrow> Some s | _ \<Rightarrow> None)"

definition z_number :: "jval \<Rightarrow> rat option" where
  "z_number v = (case v of JNum (Fin q) \<Rightarrow> Some q | _ \<Rightarrow> None)"

definition z_boolean :: "jval \<Rightarrow> bool option" where
  "z_boolean v = (case v of JBool b \<Rightarrow> Some b | _ \<Rightarrow> None)"

definition z_optional :: "(jval \<Rightarrow> 'a option) \<Rightarrow> jval \<Rightarrow> 'a option option" where
  "z_optional z v = (if v = JUndefined then Some None else map_option Some (z v))"

definition z_nullish :: "(jval \<Rightarrow> 'a option) \<Rightarrow> jval \<Rightarrow> 'a option option" where
  "z_nullish z v = (if v = JUndefined \<or> v = JNull then Some None else map_option Some (z v))"

fun z_all :: "(jval \<Rightarrow> 'a option) \<Rightarrow> jval list \<Rightarrow> 'a list option" where
  "z_all z [] = Some []"
| "z_all z (v # vs) = (case z v of None \<Rightarrow> None | Some x \<Rightarrow> map_option (\<lambda>xs. x # xs) (z_all z vs))"

definition z_array :: "(jval \<Rightarrow> 'a option) \<Rightarrow> jval \<Rightarrow> 'a list option" where
  "z_array z v = (case v of JArr vs \<Rightarrow> z_all z vs | _ \<Rightarrow> None)"

fun is_plain_object :: "jval \<Rightarrow> bool" where
  "is_plain_object (JObj ps) = True"
| "is_plain_object _ = False"

definition messageRoleSchema :: "jval \<Rightarrow> MessageRole option" where
  "messageRoleSchema v =
     (if v = JStr (js ''user'') then Some RoleUser
      else if v = JStr (js ''assistant'') then Some RoleAssistant
      else if v = JStr (js ''system'') then Some RoleSystem else None)"

definition messageStatusSchema :: "jval \<Rightarrow> MessageStatus option" where
  "messageStatusSchema v =
     (if v = JStr (js ''loading'') then Some StLoading
      else if v = JStr (js ''streaming'') then Some StStreaming
      else if v = JStr (js ''complete'') then Some StComplete
      else if v = JStr (js ''error'') then Some StError else None)"

definition messageVersionSchema :: "jval \<Rightarrow> MessageVersion option" where
  "messageVersionSchema v =
     (if \<not> is_plain_object v then None
      else do {
           i \<leftarrow> z_string (jget v (js ''id''));
           c \<leftarrow> z_string (jget v (js ''content''));
           Some \<lparr>v_id = i, v_content = c\<rparr> })"

definition sourceSchema :: "jval \<Rightarrow> (jstr \<times> jstr) option" where
  "sourceSchema v =
     (if \<not> is_plain_object v then None
      else do {
           h \<leftarrow> z_string (jget v (js ''href''));
           t \<leftarrow> z_string (jget v (js ''title''));
           Some (h, t) })"

definition reasoningSchema :: "jval \<Rightarrow> Reasoning option" where
  "reasoningSchema v =
     (if \<not> is_plain_object v then None
      else do {
           c \<leftarrow> z_string (jget v (js ''content''));
           d \<leftarrow> z_number (jget v (js ''duration''));
           s \<leftarrow> z_optional z_number (jget v (js ''startedAt''));
           e \<leftarrow> z_optional z_number (jget v (js ''completedAt''));
           ms \<leftarrow> z_optional z_number (jget v (js ''durationMs''));
           Some \<lparr>r_content = c, r_duration = d, r_startedAt = s, r_completedAt = e, r_durationMs = ms\<rparr> })"

definition messageSchema :: "jval \<Rightarrow> Message option" where
  "messageSchema v =
     (if \<not> is_plain_object v then None
      else do {
           k \<leftarrow> z_string (jget v (js ''key''));
           f \<leftarrow> messageRoleSchema (jget v (js ''from''));
           vs \<leftarrow> z_array messageVersionSchema (jget v (js ''versions''));
           _ \<leftarrow> (if vs = [] then None else Some ());
           cr \<leftarrow> z_optional z_number (jget v (js ''createdAt''));
           st \<leftarrow> z_optional z_number (jget v (js ''startedAt''));
           co \<leftarrow> z_optional z_number (jget v (js ''completedAt''));
           du \<leftarrow> z_optional z_number (jget v (js ''durationMs''));
           so \<leftarrow> z_optional (z_array sourceSchema) (jget v (js ''sources''));
           re \<leftarrow> z_optional reasoningSchema (jget v (js ''reasoning''));
           rs \<leftarrow> z_optional z_boolean (jget v (js ''isReasoningStreaming''));
           rc \<leftarrow> z_optional z_boolean (jget v (js ''isReasoningComplete''));
           cc \<leftarrow> z_optional z_boolean (jget v (js ''isContentComplete''));
           stt \<leftarrow> z_optional messageStatusSchema (jget v (js ''status''));
           ec \<leftarrow> z_nullish z_string (jget v (js ''errorCode''));
           Some \<lparr>key = k, msg_from = f, versions = vs, createdAt = cr, startedAt = st, completedAt = co,
               durationMs = du, sources = so, reasoning = re, isReasoningStreaming = rs,
               isReasoningComplete = rc, isContentComplete = cc, status = stt, errorCode = ec\<rparr> })"

definition messagesSchema :: "jval \<Rightarrow> Message list option" where
  "messagesSchema = z_array messageSchema"

record PartialConfig =
  pc_model :: "jstr option"
  pc_group :: "jstr option"
  pc_temperature :: "rat option"
  pc_top_p :: "rat option"
  pc_max_tokens :: "rat option"
  pc_frequency_penalty :: "rat option"
  pc_presence_penalty :: "rat option"
  pc_seed :: "rat option"
  pc_stream :: "bool option"

definition emptyConfig :: PartialConfig where
  "emptyConfig = \<lparr>pc_model = None, pc_group = None, pc_temperature = None, pc_top_p = None,
     pc_max_tokens = None, pc_frequency_penalty = None, pc_presence_penalty = None, pc_seed = None,
     pc_stream = None\<rparr>"

definition playgroundConfigSchema :: "jval \<Rightarrow> PartialConfig option" where
  "playgroundConfigSchema v =
     (if \<not> is_plain_object v then None
      else do {
           m \<leftarrow> z_optional z_string (jget v (js ''model''));
           g \<leftarrow> z_optional z_string (jget v (js ''group''));
           te \<leftarrow> z_optional z_number (jget v (js ''temperature''));
           tp \<leftarrow> z_optional z_number (jget v (js ''top_p''));
           mt \<leftarrow> z_optional z_number (jget v (js ''max_tokens''));
           fp \<leftarrow> z_optional z_number (jget v (js ''frequency_penalty''));
           pp \<leftarrow> z_optional z_number (jget v (js ''presence_penalty''));
           se \<leftarrow> z_nullish z_number (jget v (js ''seed''));
           sm \<leftarrow> z_optional z_boolean (jget v (js ''stream''));
           Some \<lparr>pc_model = m, pc_group = g, pc_temperature = te, pc_top_p = tp, pc_max_tokens = mt,
               pc_frequency_penalty = fp, pc_presence_penalty = pp, pc_seed = se, pc_stream = sm\<rparr> })"

record PartialEnabled =
  pe_temperature :: "bool option"
  pe_top_p :: "bool option"
  pe_max_tokens :: "bool option"
  pe_frequency_penalty :: "bool option"
  pe_presence_penalty :: "bool option"
  pe_seed :: "bool option"

definition emptyEnabled :: PartialEnabled where
  "emptyEnabled = \<lparr>pe_temperature = None, pe_top_p = None, pe_max_tokens = None,
     pe_frequency_penalty = None, pe_presence_penalty = None, pe_seed = None\<rparr>"

definition parameterEnabledSchema :: "jval \<Rightarrow> PartialEnabled option" where
  "parameterEnabledSchema v =
     (if \<not> is_plain_object v then None
      else do {
           te \<leftarrow> z_optional z_boolean (jget v (js ''temperature''));
           tp \<leftarrow> z_optional z_boolean (jget v (js ''top_p''));
           mt \<leftarrow> z_optional z_boolean (jget v (js ''max_tokens''));
           fp \<leftarrow> z_optional z_boolean (jget v (js ''frequency_penalty''));
           pp \<leftarrow> z_optional z_boolean (jget v (js ''presence_penalty''));
           se \<leftarrow> z_optional z_boolean (jget v (js ''seed''));
           Some \<lparr>pe_temperature = te, pe_top_p = tp, pe_max_tokens = mt, pe_frequency_penalty = fp,
               pe_presence_penalty = pp, pe_seed = se\<rparr> })"

section \<open>The values written\<close>

text \<open>The objects the operations hand to \<open>JSON.stringify\<close>, without the properties that are
  \<open>undefined\<close>, which it leaves out.\<close>

definition json_object :: "(jstr \<times> jval) list \<Rightarrow> jval" where
  "json_object ps = JObj (filter (\<lambda>(k, v). v \<noteq> JUndefined) ps)"

definition opt :: "('a \<Rightarrow> jval) \<Rightarrow> 'a option \<Rightarrow> jval" where
  "opt f x = (case x of None \<Rightarrow> JUndefined | Some y \<Rightarrow> f y)"

definition num :: "rat \<Rightarrow> jval" where "num q = JNum (Fin q)"

fun role_value :: "MessageRole \<Rightarrow> jval" where
  "role_value RoleUser = JStr (js ''user'')"
| "role_value RoleAssistant = JStr (js ''assistant'')"
| "role_value RoleSystem = JStr (js ''system'')"

fun status_value :: "MessageStatus \<Rightarrow> jval" where
  "status_value StLoading = JStr (js ''loading'')"
| "status_value StStreaming = JStr (js ''streaming'')"
| "status_value StComplete = JStr (js ''complete'')"
| "status_value StError = JStr (js ''error'')"

definition version_value :: "MessageVersion \<Rightarrow> jval" where
  "version_value v = json_object [(js ''id'', JStr (v_id v)), (js ''content'', JStr (v_content v))]"

definition source_value :: "jstr \<times> jstr \<Rightarrow> jval" where
  "source_value s = json_object [(js ''href'', JStr (fst s)), (js ''title'', JStr (snd s))]"

definition reasoning_value :: "Reasoning \<Rightarrow> jval" where
  "reasoning_value r = json_object [(js ''content'', JStr (r_content r)), (js ''duration'', num (r_duration r)),
     (js ''startedAt'', opt num (r_startedAt r)), (js ''completedAt'', opt num (r_completedAt r)),
     (js ''durationMs'', opt num (r_durationMs r))]"

definition message_value :: "Message \<Rightarrow> jval" where
  "message_value m = json_object [(js ''key'', JStr (key m)), (js ''from'', role_value (msg_from m)),
     (js ''versions'', JArr (map version_value (versions m))), (js ''createdAt'', opt num (createdAt m)),
     (js ''startedAt'', opt num (startedAt m)), (js ''completedAt'', opt num (completedAt m)),
     (js ''durationMs'', opt num (durationMs m)),
     (js ''sources'', opt (\<lambda>ss. JArr (map source_value ss)) (sources m)),
     (js ''reasoning'', opt reasoning_value (reasoning m)),
     (js ''isReasoningStreaming'', opt JBool (isReasoningStreaming m)),
     (js ''isReasoningComplete'', opt JBool (isReasoningComplete m)),
     (js ''isContentComplete'', opt JBool (isContentComplete m)),
     (js ''status'', opt status_value (status m)), (js ''errorCode'', opt JStr (errorCode m))]"

definition config_value :: "PartialConfig \<Rightarrow> jval" where
  "config_value c = json_object [(js ''model'', opt JStr (pc_model c)), (js ''group'', opt JStr (pc_group c)),
     (js ''temperature'', opt num (pc_temperature c)), (js ''top_p'', opt num (pc_top_p c)),
     (js ''max_tokens'', opt num (pc_max_tokens c)),
     (js ''frequency_penalty'', opt num (pc_frequency_penalty c)),
     (js ''presence_penalty'', opt num (pc_presence_penalty c)), (js ''seed'', opt num (pc_seed c)),
     (js ''stream'', opt JBool (pc_stream c))]"

definition enabled_value :: "PartialEnabled \<Rightarrow> jval" where
  "enabled_value e = json_object [(js ''temperature'', opt JBool (pe_temperature e)),
     (js ''top_p'', opt JBool (pe_top_p e)), (js ''max_tokens'', opt JBool (pe_max_tokens e)),
     (js ''frequency_penalty'', opt JBool (pe_frequency_penalty e)),
     (js ''presence_penalty'', opt JBool (pe_presence_penalty e)), (js ''seed'', opt JBool (pe_seed e))]"

section \<open>Limits on loading\<close>

definition MAX_STORED_MESSAGES :: nat where "MAX_STORED_MESSAGES = 100"
definition MAX_STORED_MESSAGES_BYTES :: nat where "MAX_STORED_MESSAGES_BYTES = 1024 * 1024"
definition MAX_LOADED_MESSAGES_CHARS :: nat where "MAX_LOADED_MESSAGES_CHARS = 120000"
definition MAX_LOADED_MESSAGE_CHARS :: nat where "MAX_LOADED_MESSAGE_CHARS = 40000"
definition MIN_PREFIX_COLLAPSE_LENGTH :: nat where "MIN_PREFIX_COLLAPSE_LENGTH = 2000"
definition MIN_REPEATED_SECTION_COUNT :: nat where "MIN_REPEATED_SECTION_COUNT = 3"

definition TRUNCATED_CONTENT_SUFFIX :: jstr where
  "TRUNCATED_CONTENT_SUFFIX = [10, 10] @ js ''[...]''"

definition trimMessages :: "Message list \<Rightarrow> Message list" where
  "trimMessages messages =
     (if length messages \<le> MAX_STORED_MESSAGES then messages
      else drop (length messages - MAX_STORED_MESSAGES) messages)"

definition getMessageSize :: "Message \<Rightarrow> nat" where
  "getMessageSize message =
     foldl (\<lambda>total version. total + length (v_content version)) 0 (versions message)
     + (case reasoning message of None \<Rightarrow> 0 | Some r \<Rightarrow> length (r_content r))"

definition truncateText :: "jstr \<Rightarrow> nat \<Rightarrow> jstr" where
  "truncateText text maxLength =
     (if length text \<le> maxLength then text
      else if maxLength \<le> length TRUNCATED_CONTENT_SUFFIX then take maxLength text
      else take (maxLength - length TRUNCATED_CONTENT_SUFFIX) text @ TRUNCATED_CONTENT_SUFFIX)"

text \<open>The loop of \<open>trimMessagesByContentSize\<close> over the messages from the last to the first; the result
  is collected in reverse, as in the source.\<close>

fun trim_size_loop :: "Message list \<Rightarrow> nat \<Rightarrow> Message list \<Rightarrow> Message list" where
  "trim_size_loop [] totalSize result = result"
| "trim_size_loop (message # older) totalSize result =
     (if result \<noteq> [] \<and> totalSize + getMessageSize message > MAX_LOADED_MESSAGES_CHARS then result
      else trim_size_loop older (totalSize + getMessageSize message) (result @ [message]))"

definition trimMessagesByContentSize :: "Message list \<Rightarrow> Message list" where
  "trimMessagesByContentSize messages = rev (trim_size_loop (rev messages) 0 [])"

section \<open>Repeated sections\<close>

text \<open>
  The headings the pattern \<open>/^#{2,6}\s+\d+\.\s+.+$/gm\<close> finds.  At the start of a line it reads two to
  six hash signs, white space (line breaks included), digits, a full stop, white space and the rest
  of a line that is not empty.  The hash signs, the first white space and the digits are each
  followed by something they cannot match, so they are taken whole; the last white space gives back
  characters only when nothing but white space follows to the end of the text.
\<close>

definition is_line_end :: "code_unit \<Rightarrow> bool" where
  "is_line_end c \<longleftrightarrow> c \<in> set [10, 13, 8232, 8233]"

text \<open>The length \<open>\s+.+$\<close> matches at the start of a text.\<close>

definition rest_match :: "jstr \<Rightarrow> nat option" where
  "rest_match s =
     (let run = takeWhile is_space s; after = dropWhile is_space s in
      if run = [] then None
      else if after \<noteq> [] then Some (length run + length (takeWhile (\<lambda>c. \<not> is_line_end c) after))
      else case filter (\<lambda>j. \<not> is_line_end (run ! j)) [1..<length run] of
        [] \<Rightarrow> None | ks \<Rightarrow> Some (Suc (last ks)))"

definition heading_match :: "jstr \<Rightarrow> nat option" where
  "heading_match s =
     (let hashes = length (takeWhile (\<lambda>c. c = 35) s);
          s1 = drop hashes s; spaces = length (takeWhile is_space s1);
          s2 = drop spaces s1; digits = length (takeWhile is_digit s2);
          s3 = drop digits s2
      in if 2 \<le> hashes \<and> hashes \<le> 6 \<and> 0 < spaces \<and> 0 < digits \<and> s3 \<noteq> [] \<and> hd s3 = 46
         then map_option (\<lambda>n. hashes + spaces + digits + 1 + n) (rest_match (tl s3)) else None)"

record SectionOccurrence =
  heading :: jstr
  occ_index :: nat

function section_loop :: "jstr \<Rightarrow> nat \<Rightarrow> SectionOccurrence list" where
  "section_loop text i =
     (if length text \<le> i then []
      else if i \<noteq> 0 \<and> \<not> is_line_end (text ! (i - 1)) then section_loop text (Suc i)
      else case heading_match (drop i text) of
        None \<Rightarrow> section_loop text (Suc i)
      | Some n \<Rightarrow> \<lparr>heading = take n (drop i text), occ_index = i\<rparr> # section_loop text (i + max 1 n))"
  by pat_completeness auto
termination by (relation "measure (\<lambda>(text, i). length text - i)") auto

declare section_loop.simps [simp del]

definition getSectionOccurrences :: "jstr \<Rightarrow> SectionOccurrence list" where
  "getSectionOccurrences text = section_loop text 0"

definition getHeadingCounts :: "SectionOccurrence list \<Rightarrow> (jstr \<times> nat) list" where
  "getHeadingCounts occurrences =
     foldl (\<lambda>counts occurrence. obj_set (heading occurrence)
       ((case map_of counts (heading occurrence) of None \<Rightarrow> 0 | Some n \<Rightarrow> n) + 1) counts) [] occurrences"

fun repeated_loop ::
  "(jstr \<times> nat) list \<Rightarrow> SectionOccurrence list \<Rightarrow> jstr list \<Rightarrow> nat list \<Rightarrow> nat list" where
  "repeated_loop counts [] seen lastRepeatedIndexes = lastRepeatedIndexes"
| "repeated_loop counts (occurrence # earlier) seen lastRepeatedIndexes =
     (let count = (case map_of counts (heading occurrence) of None \<Rightarrow> 0 | Some n \<Rightarrow> n) in
      if count < MIN_REPEATED_SECTION_COUNT \<or> heading occurrence \<in> set seen
      then repeated_loop counts earlier seen lastRepeatedIndexes
      else repeated_loop counts earlier (heading occurrence # seen)
             (lastRepeatedIndexes @ [occ_index occurrence]))"

definition findLastRepeatedSectionRunStart :: "jstr \<Rightarrow> nat option" where
  "findLastRepeatedSectionRunStart text =
     (let occurrences = getSectionOccurrences text;
          lastRepeatedIndexes = repeated_loop (getHeadingCounts occurrences) (rev occurrences) [] []
      in if lastRepeatedIndexes = [] then None else Some (fold min (tl lastRepeatedIndexes) (hd lastRepeatedIndexes)))"

definition collapseRepeatedSectionSnapshots :: "jstr \<Rightarrow> jstr" where
  "collapseRepeatedSectionSnapshots text =
     (if length text < MIN_PREFIX_COLLAPSE_LENGTH then text
      else case findLastRepeatedSectionRunStart text of
        None \<Rightarrow> text | Some lastRepeatedRunStart \<Rightarrow> drop lastRepeatedRunStart text)"

section \<open>Repair of a loaded message\<close>

definition normalize_version :: "MessageVersion \<Rightarrow> MessageVersion" where
  "normalize_version version =
     (let collapsedContent = collapseRepeatedSectionSnapshots (v_content version);
          content = truncateText collapsedContent MAX_LOADED_MESSAGE_CHARS
      in if content = v_content version \<and> collapsedContent = v_content version then version
         else version\<lparr>v_content := content\<rparr>)"

definition normalize_reasoning :: "Reasoning option \<Rightarrow> Reasoning option" where
  "normalize_reasoning r =
     map_option (\<lambda>r. r\<lparr>r_content := truncateText (r_content r) MAX_LOADED_MESSAGE_CHARS\<rparr>) r"

text \<open>The source rebuilds the message only when a text changed; the value is the same either way.\<close>

definition normalizeStoredMessageForLoad :: "(nat \<Rightarrow> rat) \<Rightarrow> Message \<Rightarrow> Message" where
  "normalizeStoredMessageForLoad clock message =
     (let normalized = message\<lparr>versions := map normalize_version (versions message),
                               reasoning := normalize_reasoning (reasoning message)\<rparr> in
      if \<not> isAssistantMessagePending normalized then normalized
      else if \<not> hasMessageContent normalized
              \<and> (case reasoning normalized of None \<Rightarrow> True | Some r \<Rightarrow> trim (r_content r) = [])
      then normalized
      else let completed = the (first_some (completedAt normalized)
                 (first_some (case reasoning normalized of None \<Rightarrow> None | Some r \<Rightarrow> r_completedAt r)
                 (first_some (startedAt normalized) (first_some (createdAt normalized) (Some (clock 0))))))
        in completeAssistantTiming
             ((finalizeMessage normalized None (clock 1) (clock 2))
                \<lparr>status := Some StComplete, isReasoningStreaming := Some False\<rparr>) completed)"

section \<open>Reading and writing\<close>

type_synonym storage = "jstr \<rightharpoonup> jstr"

record StorageEnv =
  parse :: "jstr \<Rightarrow> jval option"
  stringify :: "jval \<Rightarrow> jstr"
  fits :: "storage \<Rightarrow> jstr \<Rightarrow> jstr \<Rightarrow> bool"
  translate :: "jstr \<Rightarrow> jstr"

definition KEY_CONFIG :: jstr where "KEY_CONFIG = js ''playground_config''"
definition KEY_MESSAGES :: jstr where "KEY_MESSAGES = js ''playground_messages''"
definition KEY_PARAMETER_ENABLED :: jstr where "KEY_PARAMETER_ENABLED = js ''playground_parameter_enabled''"

text \<open>\<open>Inl ()\<close> is an exception, which every caller catches; \<open>Inr None\<close> is the value \<open>null\<close>.\<close>

definition readStoredValue :: "StorageEnv \<Rightarrow> storage \<Rightarrow> jstr \<Rightarrow> unit + jval option" where
  "readStoredValue env ls k =
     (case ls k of
        None \<Rightarrow> Inr None
      | Some saved \<Rightarrow> if saved = [] then Inr None
          else case parse env saved of None \<Rightarrow> Inl () | Some v \<Rightarrow> Inr (Some v))"

definition readStoredMessagesValue :: "StorageEnv \<Rightarrow> storage \<Rightarrow> (unit + jval option) \<times> storage" where
  "readStoredMessagesValue env ls =
     (case ls KEY_MESSAGES of
        None \<Rightarrow> (Inr None, ls)
      | Some saved \<Rightarrow>
          if saved = [] then (Inr None, ls)
          else if length saved > MAX_STORED_MESSAGES_BYTES then (Inr None, ls(KEY_MESSAGES := None))
          else case parse env saved of None \<Rightarrow> (Inl (), ls) | Some v \<Rightarrow> (Inr (Some v), ls))"

fun has_key :: "jval \<Rightarrow> jstr \<Rightarrow> bool" where
  "has_key (JObj ps) k \<longleftrightarrow> map_of ps k \<noteq> None"
| "has_key _ k = False"

definition unwrapStoredValue :: "jval \<Rightarrow> jval" where
  "unwrapStoredValue v =
     (if \<not> is_object v then v
      else if has_key v (js ''version'') \<and> has_key v (js ''data'') then jget v (js ''data'') else v)"

text \<open>\<open>writeStoredValue\<close>: the new storage, or \<open>None\<close> when \<open>setItem\<close> throws.\<close>

definition writeStoredValue :: "StorageEnv \<Rightarrow> storage \<Rightarrow> jstr \<Rightarrow> jval \<Rightarrow> storage option" where
  "writeStoredValue env ls k data =
     (let payload = json_object [(js ''version'', num 1), (js ''data'', data)]; text = stringify env payload
      in if fits env ls k text then Some (ls(k \<mapsto> text)) else None)"

definition stored_value :: "(unit + jval option) \<Rightarrow> (jval \<Rightarrow> 'a option) \<Rightarrow> 'a option" where
  "stored_value saved schema =
     (case saved of
        Inr (Some v) \<Rightarrow> if truthy v then schema (unwrapStoredValue v) else None
      | _ \<Rightarrow> None)"

definition loadConfig :: "StorageEnv \<Rightarrow> storage \<Rightarrow> PartialConfig" where
  "loadConfig env ls =
     (case stored_value (readStoredValue env ls KEY_CONFIG) playgroundConfigSchema of
        None \<Rightarrow> emptyConfig | Some c \<Rightarrow> c)"

definition saveConfig :: "StorageEnv \<Rightarrow> storage \<Rightarrow> PartialConfig \<Rightarrow> storage" where
  "saveConfig env ls config =
     (case playgroundConfigSchema (config_value config) of
        None \<Rightarrow> ls
      | Some parsed \<Rightarrow> case writeStoredValue env ls KEY_CONFIG (config_value parsed) of
          None \<Rightarrow> ls | Some ls' \<Rightarrow> ls')"

definition loadParameterEnabled :: "StorageEnv \<Rightarrow> storage \<Rightarrow> PartialEnabled" where
  "loadParameterEnabled env ls =
     (case stored_value (readStoredValue env ls KEY_PARAMETER_ENABLED) parameterEnabledSchema of
        None \<Rightarrow> emptyEnabled | Some e \<Rightarrow> e)"

definition saveParameterEnabled :: "StorageEnv \<Rightarrow> storage \<Rightarrow> PartialEnabled \<Rightarrow> storage" where
  "saveParameterEnabled env ls enabled =
     (case parameterEnabledSchema (enabled_value enabled) of
        None \<Rightarrow> ls
      | Some parsed \<Rightarrow> case writeStoredValue env ls KEY_PARAMETER_ENABLED (enabled_value parsed) of
          None \<Rightarrow> ls | Some ls' \<Rightarrow> ls')"

definition saveMessages :: "StorageEnv \<Rightarrow> storage \<Rightarrow> Message list \<Rightarrow> storage" where
  "saveMessages env ls messages =
     (case messagesSchema (JArr (map message_value (trimMessages messages))) of
        None \<Rightarrow> ls
      | Some parsed \<Rightarrow> case writeStoredValue env ls KEY_MESSAGES (JArr (map message_value parsed)) of
          None \<Rightarrow> ls | Some ls' \<Rightarrow> ls')"

text \<open>
  The source saves the messages again when one of the passes returned a new array.
  \<open>trimMessagesByContentSize\<close> always returns a new array, so it always does.
  The clock readings of the i-th message are \<open>clock i\<close>; those of the repair of the last
  message are \<open>t1\<close>, \<open>t2\<close>, \<open>t3\<close>.
\<close>

definition loadMessages ::
  "StorageEnv \<Rightarrow> (nat \<Rightarrow> nat \<Rightarrow> rat) \<Rightarrow> rat \<Rightarrow> rat \<Rightarrow> rat \<Rightarrow> storage \<Rightarrow> Message list option \<times> storage" where
  "loadMessages env clock t1 t2 t3 ls =
     (let (saved, ls) = readStoredMessagesValue env ls in
      case stored_value saved messagesSchema of
        None \<Rightarrow> (None, ls)
      | Some parsed \<Rightarrow>
          let normalized = map (\<lambda>(i, m). normalizeStoredMessageForLoad (clock i) m) (enumerate 0 parsed);
              trimmed = trimMessages normalized;
              sizeTrimmed = trimMessagesByContentSize trimmed;
              sanitized = sanitizeMessagesOnLoad (translate env) t1 t2 t3 sizeTrimmed
          in (Some sanitized, saveMessages env ls sanitized))"

definition clearPlaygroundData :: "storage \<Rightarrow> storage" where
  "clearPlaygroundData ls = ls(KEY_CONFIG := None, KEY_PARAMETER_ENABLED := None, KEY_MESSAGES := None)"

section \<open>Initial state\<close>

definition DEFAULT_CONFIG :: PlaygroundConfig where
  "DEFAULT_CONFIG = \<lparr>cfg_model = js ''gpt-4o'', cfg_group = js ''default'', cfg_temperature = 7 / 10,
     cfg_top_p = 1, cfg_max_tokens = 4096, cfg_frequency_penalty = 0, cfg_presence_penalty = 0,
     cfg_seed = None, cfg_stream = True\<rparr>"

definition DEFAULT_PARAMETER_ENABLED :: ParameterEnabled where
  "DEFAULT_PARAMETER_ENABLED = \<lparr>on_temperature = True, on_top_p = True, on_max_tokens = False,
     on_frequency_penalty = True, on_presence_penalty = True, on_seed = False\<rparr>"

definition or_default :: "'a option \<Rightarrow> 'a \<Rightarrow> 'a" where
  "or_default a d = (case a of None \<Rightarrow> d | Some x \<Rightarrow> x)"

definition getInitialPlaygroundConfig :: "StorageEnv \<Rightarrow> storage \<Rightarrow> PlaygroundConfig" where
  "getInitialPlaygroundConfig env ls =
     (let c = loadConfig env ls; d = DEFAULT_CONFIG in
      \<lparr>cfg_model = or_default (pc_model c) (cfg_model d), cfg_group = or_default (pc_group c) (cfg_group d),
       cfg_temperature = or_default (pc_temperature c) (cfg_temperature d),
       cfg_top_p = or_default (pc_top_p c) (cfg_top_p d),
       cfg_max_tokens = or_default (pc_max_tokens c) (cfg_max_tokens d),
       cfg_frequency_penalty = or_default (pc_frequency_penalty c) (cfg_frequency_penalty d),
       cfg_presence_penalty = or_default (pc_presence_penalty c) (cfg_presence_penalty d),
       cfg_seed = first_some (pc_seed c) (cfg_seed d),
       cfg_stream = or_default (pc_stream c) (cfg_stream d)\<rparr>)"

definition getInitialParameterEnabled :: "StorageEnv \<Rightarrow> storage \<Rightarrow> ParameterEnabled" where
  "getInitialParameterEnabled env ls =
     (let e = loadParameterEnabled env ls; d = DEFAULT_PARAMETER_ENABLED in
      \<lparr>on_temperature = or_default (pe_temperature e) (on_temperature d),
       on_top_p = or_default (pe_top_p e) (on_top_p d),
       on_max_tokens = or_default (pe_max_tokens e) (on_max_tokens d),
       on_frequency_penalty = or_default (pe_frequency_penalty e) (on_frequency_penalty d),
       on_presence_penalty = or_default (pe_presence_penalty e) (on_presence_penalty d),
       on_seed = or_default (pe_seed e) (on_seed d)\<rparr>)"

definition getInitialMessages ::
  "StorageEnv \<Rightarrow> (nat \<Rightarrow> nat \<Rightarrow> rat) \<Rightarrow> rat \<Rightarrow> rat \<Rightarrow> rat \<Rightarrow> storage \<Rightarrow> Message list" where
  "getInitialMessages env clock t1 t2 t3 ls =
     (case fst (loadMessages env clock t1 t2 t3 ls) of None \<Rightarrow> [] | Some ms \<Rightarrow> ms)"

section \<open>Schemas read what is written\<close>

lemma map_of_filter_distinct:
  "distinct (map fst ps) \<Longrightarrow> map_of (filter P ps) k =
     (case map_of ps k of None \<Rightarrow> None | Some v \<Rightarrow> if P (k, v) then Some v else None)"
proof (induction ps)
  case (Cons p ps)
  then show ?case
    by (cases p) (auto split: option.splits if_splits simp: map_of_eq_None_iff[symmetric] dest: map_of_SomeD)
qed simp

lemma jget_json_object:
  "distinct (map fst ps) \<Longrightarrow> jget (json_object ps) k = (case map_of ps k of None \<Rightarrow> JUndefined | Some v \<Rightarrow> v)"
  by (simp add: json_object_def map_of_filter_distinct split: option.splits)

lemma json_object_plain [simp]: "is_plain_object (json_object ps)"
  by (simp add: json_object_def)

lemma z_reads [simp]:
  "z_string (JStr s) = Some s" "z_number (num q) = Some q" "z_boolean (JBool b) = Some b"
  by (simp_all add: z_string_def z_number_def num_def z_boolean_def)

lemma enum_reads [simp]:
  "messageRoleSchema (role_value r) = Some r" "messageStatusSchema (status_value st) = Some st"
  by (cases r; simp add: messageRoleSchema_def) (cases st; simp add: messageStatusSchema_def)

lemma z_optional_reads: "(\<And>y. z (f y) = Some y \<and> f y \<noteq> JUndefined) \<Longrightarrow> z_optional z (opt f x) = Some x"
  by (cases x) (auto simp: z_optional_def opt_def)

lemma z_nullish_reads:
  "(\<And>y. z (f y) = Some y \<and> f y \<noteq> JUndefined \<and> f y \<noteq> JNull) \<Longrightarrow> z_nullish z (opt f x) = Some x"
  by (cases x) (auto simp: z_nullish_def opt_def)

lemma z_all_reads: "(\<And>x. x \<in> set xs \<Longrightarrow> z (f x) = Some x) \<Longrightarrow> z_all z (map f xs) = Some xs"
  by (induction xs) auto

lemma z_array_reads: "(\<And>x. x \<in> set xs \<Longrightarrow> z (f x) = Some x) \<Longrightarrow> z_array z (JArr (map f xs)) = Some xs"
  by (simp add: z_array_def z_all_reads)

lemma not_undefined [simp]:
  "num q \<noteq> JUndefined" "num q \<noteq> JNull" "status_value st \<noteq> JUndefined" "json_object ps \<noteq> JUndefined"
  by (cases st; simp add: num_def json_object_def)+

lemma version_reads: "messageVersionSchema (version_value v) = Some v"
  by (simp add: messageVersionSchema_def version_value_def jget_json_object)

lemma source_reads: "sourceSchema (source_value s) = Some s"
  by (simp add: sourceSchema_def source_value_def jget_json_object)

lemma reasoning_reads: "reasoningSchema (reasoning_value r) = Some r"
  by (simp add: reasoningSchema_def reasoning_value_def jget_json_object z_optional_reads)

lemma reasoning_value_defined [simp]: "reasoning_value r \<noteq> JUndefined"
  by (simp add: reasoning_value_def)

lemma message_reads: "versions m \<noteq> [] \<Longrightarrow> messageSchema (message_value m) = Some m"
  by (simp add: messageSchema_def message_value_def jget_json_object z_optional_reads z_nullish_reads
      z_array_reads version_reads source_reads reasoning_reads)

lemma messages_read:
  "list_all (\<lambda>m. versions m \<noteq> []) ms \<Longrightarrow> messagesSchema (JArr (map message_value ms)) = Some ms"
  by (simp add: messagesSchema_def z_array_reads message_reads list_all_iff)

lemma config_reads: "playgroundConfigSchema (config_value c) = Some c"
  by (simp add: playgroundConfigSchema_def config_value_def jget_json_object z_optional_reads z_nullish_reads)

lemma enabled_reads: "parameterEnabledSchema (enabled_value e) = Some e"
  by (simp add: parameterEnabledSchema_def enabled_value_def jget_json_object z_optional_reads)

lemma unwrap_envelope [simp]:
  "d \<noteq> JUndefined \<Longrightarrow> unwrapStoredValue (json_object [(js ''version'', num 1), (js ''data'', d)]) = d"
  by (simp add: unwrapStoredValue_def json_object_def)

section \<open>Properties of storage\<close>

text \<open>What the code relies on of \<open>JSON\<close>: a value written is read back as it was.\<close>

definition json_faithful :: "StorageEnv \<Rightarrow> jval \<Rightarrow> bool" where
  "json_faithful env v \<longleftrightarrow> stringify env v \<noteq> [] \<and> parse env (stringify env v) = Some v"

definition envelope :: "jval \<Rightarrow> jval" where
  "envelope d = json_object [(js ''version'', num 1), (js ''data'', d)]"

lemma read_back:
  assumes "json_faithful env (envelope d)" "writeStoredValue env ls k d = Some ls'"
  shows "readStoredValue env ls' k = Inr (Some (envelope d))"
  using assms by (auto simp: readStoredValue_def writeStoredValue_def json_faithful_def envelope_def Let_def
      split: if_splits)

lemma stored_envelope: "d \<noteq> JUndefined \<Longrightarrow> stored_value (Inr (Some (envelope d))) schema = schema d"
  unfolding envelope_def by (simp add: stored_value_def) (simp add: json_object_def)

text \<open>A configuration that was saved is the configuration that is loaded, whatever was stored
  before: every parameter, also the absent ones, and the same for the parameter switches.\<close>

lemma config_roundtrip:
  assumes "json_faithful env (envelope (config_value c))" "json_faithful env (envelope (enabled_value e))"
    and "\<forall>ls k v. fits env ls k v"
  shows "loadConfig env (saveConfig env ls c) = c
    \<and> loadParameterEnabled env (saveParameterEnabled env ls e) = e"
proof (intro conjI)
  have d: "config_value c \<noteq> JUndefined" "enabled_value e \<noteq> JUndefined"
    by (simp_all add: config_value_def enabled_value_def)
  obtain ls1 where w1: "writeStoredValue env ls KEY_CONFIG (config_value c) = Some ls1"
    using assms(3) by (simp add: writeStoredValue_def Let_def)
  obtain ls2 where w2: "writeStoredValue env ls KEY_PARAMETER_ENABLED (enabled_value e) = Some ls2"
    using assms(3) by (simp add: writeStoredValue_def Let_def)
  show "loadConfig env (saveConfig env ls c) = c"
    by (simp add: saveConfig_def config_reads w1 loadConfig_def read_back[OF assms(1) w1] stored_envelope[OF d(1)])
  show "loadParameterEnabled env (saveParameterEnabled env ls e) = e"
    by (simp add: saveParameterEnabled_def enabled_reads w2 loadParameterEnabled_def
        read_back[OF assms(2) w2] stored_envelope[OF d(2)])
qed

lemma trim_size_loop_spec:
  "\<exists>n \<le> length ms. trim_size_loop ms tot res = res @ take n ms
     \<and> (res = [] \<and> ms \<noteq> [] \<longrightarrow> 0 < n)
     \<and> (tot \<le> MAX_LOADED_MESSAGES_CHARS \<longrightarrow>
          tot + sum_list (map getMessageSize (take n ms)) \<le> MAX_LOADED_MESSAGES_CHARS \<or> res = [] \<and> n = 1)
     \<and> (n < length ms \<longrightarrow> tot + sum_list (map getMessageSize (take (Suc n) ms)) > MAX_LOADED_MESSAGES_CHARS)"
proof (induction ms arbitrary: tot res)
  case (Cons m ms)
  show ?case
  proof (cases "res \<noteq> [] \<and> tot + getMessageSize m > MAX_LOADED_MESSAGES_CHARS")
    case True
    then show ?thesis by (intro exI[of _ 0]) auto
  next
    case False
    from Cons[of "tot + getMessageSize m" "res @ [m]"] obtain n where n: "n \<le> length ms"
      "trim_size_loop ms (tot + getMessageSize m) (res @ [m]) = (res @ [m]) @ take n ms"
      "tot + getMessageSize m \<le> MAX_LOADED_MESSAGES_CHARS \<longrightarrow>
         tot + getMessageSize m + sum_list (map getMessageSize (take n ms)) \<le> MAX_LOADED_MESSAGES_CHARS"
      "n < length ms \<longrightarrow> tot + getMessageSize m + sum_list (map getMessageSize (take (Suc n) ms)) > MAX_LOADED_MESSAGES_CHARS"
      by auto
    have big: "n = 0 \<or> tot + getMessageSize m \<le> MAX_LOADED_MESSAGES_CHARS"
    proof (rule ccontr)
      assume "\<not> (n = 0 \<or> tot + getMessageSize m \<le> MAX_LOADED_MESSAGES_CHARS)"
      then obtain m' ms' where ms: "ms = m' # ms'" and "n \<noteq> 0"
        and b: "tot + getMessageSize m > MAX_LOADED_MESSAGES_CHARS" using n(1) by (cases ms) auto
      then have "trim_size_loop ms (tot + getMessageSize m) (res @ [m]) = res @ [m]" by simp
      with n(2) ms \<open>n \<noteq> 0\<close> show False by simp
    qed
    then show ?thesis using n False
      by (intro exI[of _ "Suc n"]) (auto simp: add.assoc)
  qed
qed simp

lemma size_trim_drop:
  "\<exists>n. trimMessagesByContentSize ms = drop n ms
     \<and> (sum_list (map getMessageSize (drop n ms)) \<le> MAX_LOADED_MESSAGES_CHARS \<or> length (drop n ms) = 1)
     \<and> (ms = [] \<or> drop n ms \<noteq> [])
     \<and> (0 < n \<longrightarrow> sum_list (map getMessageSize (drop (n - 1) ms)) > MAX_LOADED_MESSAGES_CHARS)"
proof -
  from trim_size_loop_spec[of "rev ms" 0 "[]"] obtain k where k: "k \<le> length ms"
    "trim_size_loop (rev ms) 0 [] = take k (rev ms)" "ms \<noteq> [] \<longrightarrow> 0 < k"
    "sum_list (map getMessageSize (take k (rev ms))) \<le> MAX_LOADED_MESSAGES_CHARS \<or> k = 1"
    "k < length ms \<longrightarrow> sum_list (map getMessageSize (take (Suc k) (rev ms))) > MAX_LOADED_MESSAGES_CHARS"
    by auto
  have s: "sum_list (map getMessageSize (take j (rev ms))) = sum_list (map getMessageSize (drop (length ms - j) ms))" for j
    by (simp add: take_rev rev_map[symmetric] sum_list_rev)
  have "trimMessagesByContentSize ms = drop (length ms - k) ms"
    by (simp add: trimMessagesByContentSize_def k(2) take_rev)
  moreover have "length ms - k - 1 = length ms - Suc k" by simp
  ultimately show ?thesis using k(1,3-) unfolding s by (intro exI[of _ "length ms - k"]) auto
qed

text \<open>Trimming by size keeps the longest end of the conversation whose texts are at most 120000
  code units, and the last message in any case.\<close>

lemma trim_by_size_longest:
  "\<exists>n. trimMessagesByContentSize ms = drop n ms
     \<and> (sum_list (map getMessageSize (drop n ms)) \<le> MAX_LOADED_MESSAGES_CHARS \<or> length (drop n ms) = 1)
     \<and> (ms = [] \<or> drop n ms \<noteq> [])
     \<and> (0 < n \<longrightarrow> sum_list (map getMessageSize (drop (n - 1) ms)) > MAX_LOADED_MESSAGES_CHARS)"
  by (rule size_trim_drop)

section \<open>Loading a saved conversation\<close>

lemma last_pending_None_iff:
  "last_pending ms n = None \<longleftrightarrow> (\<forall>i < n. \<not> isPendingAssistantMessage (ms ! i))"
  by (induction n) (auto simp: less_Suc_eq)

lemma last_pending_SomeD:
  "last_pending ms n = Some i \<Longrightarrow>
     i < n \<and> isPendingAssistantMessage (ms ! i) \<and> (\<forall>j. i < j \<and> j < n \<longrightarrow> \<not> isPendingAssistantMessage (ms ! j))"
proof (induction n)
  case (Suc n)
  then show ?case by (auto split: if_splits simp: less_Suc_eq)
qed simp

lemma sanitize_settled:
  "list_all (\<lambda>m. \<not> isPendingAssistantMessage m) ms \<Longrightarrow> sanitizeMessagesOnLoad t t1 t2 t3 ms = ms"
  by (simp add: sanitizeMessagesOnLoad_def last_pending_None_iff[THEN iffD2] list_all_length)

lemma truncate_short: "length s \<le> n \<Longrightarrow> truncateText s n = s"
  by (simp add: truncateText_def)

text \<open>A message that loading leaves alone: not waiting for an answer, its texts short.\<close>

definition settled :: "Message \<Rightarrow> bool" where
  "settled m \<longleftrightarrow> versions m \<noteq> [] \<and> \<not> isAssistantMessagePending m
     \<and> list_all (\<lambda>v. length (v_content v) < MIN_PREFIX_COLLAPSE_LENGTH) (versions m)
     \<and> (case reasoning m of None \<Rightarrow> True | Some r \<Rightarrow> length (r_content r) \<le> MAX_LOADED_MESSAGE_CHARS)"

lemma normalize_version_short:
  "length (v_content v) < MIN_PREFIX_COLLAPSE_LENGTH \<Longrightarrow> normalize_version v = v"
  by (simp add: normalize_version_def collapseRepeatedSectionSnapshots_def truncate_short Let_def
      MIN_PREFIX_COLLAPSE_LENGTH_def MAX_LOADED_MESSAGE_CHARS_def)

lemma normalize_settled: "settled m \<Longrightarrow> normalizeStoredMessageForLoad clock m = m"
proof -
  assume m: "settled m"
  then have "map normalize_version (versions m) = versions m"
    by (intro map_idI) (simp add: settled_def list_all_iff normalize_version_short)
  moreover have "normalize_reasoning (reasoning m) = reasoning m"
    using m by (cases "reasoning m") (auto simp: settled_def normalize_reasoning_def truncate_short)
  ultimately show ?thesis using m by (simp add: normalizeStoredMessageForLoad_def settled_def)
qed

lemma normalize_all_settled:
  assumes "list_all settled ms"
  shows "map (\<lambda>(i, m). normalizeStoredMessageForLoad (clock i) m) (enumerate 0 ms) = ms"
proof (rule nth_equalityI)
  fix i assume "i < length (map (\<lambda>(i, m). normalizeStoredMessageForLoad (clock i) m) (enumerate 0 ms))"
  then show "map (\<lambda>(i, m). normalizeStoredMessageForLoad (clock i) m) (enumerate 0 ms) ! i = ms ! i"
    using assms by (simp add: nth_enumerate_eq normalize_settled list_all_length)
qed simp

lemma size_trim_small:
  assumes "sum_list (map getMessageSize ms) \<le> MAX_LOADED_MESSAGES_CHARS"
  shows "trimMessagesByContentSize ms = ms"
proof -
  obtain n where n: "trimMessagesByContentSize ms = drop n ms"
    "0 < n \<longrightarrow> sum_list (map getMessageSize (drop (n - 1) ms)) > MAX_LOADED_MESSAGES_CHARS"
    using size_trim_drop[of ms] by blast
  have "sum_list (map getMessageSize (drop (n - 1) ms)) \<le> sum_list (map getMessageSize ms)"
    by (metis append_take_drop_id le_add2 map_append sum_list_append)
  with n assms have "n = 0" by (cases n) auto
  with n show ?thesis by simp
qed

lemma save_messages_effect:
  assumes "list_all (\<lambda>m. versions m \<noteq> []) ms" "length ms \<le> MAX_STORED_MESSAGES"
  shows "saveMessages env ls ms =
    (case writeStoredValue env ls KEY_MESSAGES (JArr (map message_value ms)) of None \<Rightarrow> ls | Some ls' \<Rightarrow> ls')"
  using assms by (simp add: saveMessages_def trimMessages_def messages_read)

definition stored_text :: "StorageEnv \<Rightarrow> Message list \<Rightarrow> jstr" where
  "stored_text env ms = stringify env (envelope (JArr (map message_value ms)))"

text \<open>C15. A conversation of at most one hundred settled messages, of at most 120000 code units and
  within the storage limit, is loaded as it was saved.\<close>

theorem messages_roundtrip:
  assumes "json_faithful env (envelope (JArr (map message_value ms)))" "\<forall>ls k v. fits env ls k v"
    and "list_all settled ms" "length ms \<le> MAX_STORED_MESSAGES"
    and "sum_list (map getMessageSize ms) \<le> MAX_LOADED_MESSAGES_CHARS"
    and "length (stored_text env ms) \<le> MAX_STORED_MESSAGES_BYTES"
  shows "fst (loadMessages env clock t1 t2 t3 (saveMessages env ls ms)) = Some ms"
proof -
  let ?v = "envelope (JArr (map message_value ms))" and ?ls = "ls(KEY_MESSAGES \<mapsto> stored_text env ms)"
  have "list_all (\<lambda>m. versions m \<noteq> []) ms" using assms(3) by (simp add: list_all_iff settled_def)
  then have s: "saveMessages env ls ms = ?ls" and r: "messagesSchema (JArr (map message_value ms)) = Some ms"
    using assms(2,4) by (simp_all add: save_messages_effect writeStoredValue_def stored_text_def envelope_def
        Let_def messages_read)
  have rd: "readStoredMessagesValue env ?ls = (Inr (Some ?v), ?ls)"
    using assms(1,6) by (simp add: readStoredMessagesValue_def stored_text_def json_faithful_def)
  have "list_all (\<lambda>m. \<not> isPendingAssistantMessage m) ms"
    using assms(3) by (auto simp: list_all_iff settled_def isPendingAssistantMessage_def)
  then show ?thesis
    using assms(3,4,5)
    by (simp add: loadMessages_def s rd stored_envelope r normalize_all_settled trimMessages_def
        size_trim_small sanitize_settled Let_def)
qed

theorem messages_roundtrip_witness:
  "let ms = [createUserMessage (js ''k'') (js ''v'') (js ''hi'') 0];
       v = envelope (JArr (map message_value ms));
       env = \<lparr>parse = (\<lambda>s. if s = [1] then Some v else None), stringify = (\<lambda>_. [1]),
              fits = (\<lambda>ls k v. True), translate = id\<rparr>
   in fst (loadMessages env (\<lambda>i n. 0) 0 0 0 (saveMessages env Map.empty ms)) = Some ms"
proof -
  let ?ms = "[createUserMessage (js ''k'') (js ''v'') (js ''hi'') 0]"
  have "list_all settled ?ms" "length ?ms \<le> MAX_STORED_MESSAGES"
    "sum_list (map getMessageSize ?ms) \<le> MAX_LOADED_MESSAGES_CHARS" by code_simp+
  then show ?thesis unfolding Let_def
    by (intro messages_roundtrip) (simp_all add: json_faithful_def stored_text_def MAX_STORED_MESSAGES_BYTES_def)
qed

text \<open>Saving does not look at the size of what it writes but loading does: a conversation whose text
  is longer than the storage limit is saved, and the next load deletes it and returns nothing.\<close>

lemma oversized_conversation_lost:
  assumes "list_all (\<lambda>m. versions m \<noteq> []) ms" "length ms \<le> MAX_STORED_MESSAGES" "\<forall>ls k v. fits env ls k v"
    and "length (stored_text env ms) > MAX_STORED_MESSAGES_BYTES"
  shows "loadMessages env clock t1 t2 t3 (saveMessages env ls ms) = (None, (saveMessages env ls ms)(KEY_MESSAGES := None))
    \<and> saveMessages env ls ms KEY_MESSAGES = Some (stored_text env ms)"
proof -
  have s: "saveMessages env ls ms = ls(KEY_MESSAGES \<mapsto> stored_text env ms)"
    using assms(1-3) by (simp add: save_messages_effect writeStoredValue_def stored_text_def envelope_def Let_def)
  show ?thesis using assms(4)
    by (auto simp: loadMessages_def s readStoredMessagesValue_def stored_value_def MAX_STORED_MESSAGES_BYTES_def)
qed

text \<open>Repair on loading ends exactly the last message that still waits for an answer: it becomes
  complete or an error with a text, and is no longer pending.  Every other message is left as it
  is, so an earlier one that waits keeps waiting.\<close>

lemma sanitize_repairs_last:
  assumes "i < length ms" "isPendingAssistantMessage (ms ! i)"
    and "\<forall>j < length ms. i < j \<longrightarrow> \<not> isPendingAssistantMessage (ms ! j)"
  shows "let ms' = sanitizeMessagesOnLoad t t1 t2 t3 ms in
     length ms' = length ms \<and> (\<forall>j < length ms. j \<noteq> i \<longrightarrow> ms' ! j = ms ! j)
     \<and> isAssistantMessageFinal (ms' ! i) \<and> isReasoningStreaming (ms' ! i) = Some False
     \<and> (status (ms' ! i) = Some StError \<longrightarrow> getMessageContent (ms' ! i) = t API_REQUEST_ERROR @ js '': '' @ t INTERRUPTED)"
proof -
  have "last_pending ms (length ms) = Some i"
  proof (cases "last_pending ms (length ms)")
    case None
    then show ?thesis using assms(1,2) last_pending_None_iff by blast
  next
    case (Some k)
    with last_pending_SomeD[OF this] assms show ?thesis by (metis linorder_neqE_nat)
  qed
  then show ?thesis
    using assms(1)
    by (auto simp: sanitizeMessagesOnLoad_def Let_def isAssistantMessageFinal_def
        getMessageContent_def getCurrentVersion_def)
qed

end
