(* ===== verification/Playground_Options.thy ===== *)
theory Playground_Options
  imports Playground_Storage
begin

text \<open>
  The controls around the conversation: the model and group options
  (\<open>web/src/features/playground/lib/options/\<close>), the input box (\<open>lib/input/input-control-utils.ts\<close>) and the
  request parameters (\<open>lib/parameters/playground-parameters.ts\<close>).

  \<open>Number.parseFloat\<close> is an argument.  A decimal that \<open>toFixed\<close> and \<open>Number\<close> produce is its exact
  value.
\<close>

section \<open>Groups and models\<close>

record PlaygroundUserGroupInfo =
  info_name :: "jstr option"
  info_desc :: "jstr option"
  info_ratio :: jnum

record GroupOption =
  opt_label :: jstr
  opt_value :: jstr
  opt_ratio :: jnum
  opt_desc :: "jstr option"

record ModelOption =
  model_label :: jstr
  model_value :: jstr

definition getGroupDescription :: "jstr option \<Rightarrow> jstr \<Rightarrow> jstr \<Rightarrow> jstr option" where
  "getGroupDescription description code name =
     (let normalized = map_option trim description in
      if \<not> str_truthy normalized \<or> normalized = Some code \<or> normalized = Some name then None else normalized)"

definition createPlaygroundGroupOptions :: "(jstr \<times> PlaygroundUserGroupInfo) list \<Rightarrow> GroupOption list" where
  "createPlaygroundGroupOptions groups =
     map (\<lambda>(code, info).
       let name = str_or (map_option trim (info_name info)) code in
       \<lparr>opt_label = name, opt_value = code, opt_ratio = info_ratio info,
        opt_desc = getGroupDescription (info_desc info) code name\<rparr>) groups"

definition getModelFallback :: "ModelOption list \<Rightarrow> jstr \<Rightarrow> jstr option" where
  "getModelFallback models currentModel =
     (if list_ex (\<lambda>m. model_value m = currentModel) models \<or> models = [] then None
      else Some (model_value (hd models)))"

definition shouldClearModelForGroup :: "ModelOption list \<Rightarrow> jstr \<Rightarrow> bool" where
  "shouldClearModelForGroup models currentModel =
     (if currentModel = [] then False else \<not> list_ex (\<lambda>m. model_value m = currentModel) models)"

definition getGroupFallback :: "GroupOption list \<Rightarrow> jstr \<Rightarrow> jstr option" where
  "getGroupFallback groups currentGroup =
     (if list_ex (\<lambda>g. opt_value g = currentGroup) groups \<or> groups = [] then None
      else Some (case find (\<lambda>g. opt_value g = js ''default'') groups of
        Some g \<Rightarrow> opt_value g | None \<Rightarrow> opt_value (hd groups)))"

section \<open>Input\<close>

definition getSubmittableInputText :: "jstr option \<Rightarrow> bool \<Rightarrow> jstr option" where
  "getSubmittableInputText text disabled =
     (if disabled \<or> \<not> str_truthy (map_option trim text) then None else text)"

record InputControlState =
  canSubmit :: bool
  isSelectorDisabled :: bool
  shouldShowStop :: bool

definition getInputControlState ::
  "bool \<Rightarrow> GroupOption list \<Rightarrow> bool \<Rightarrow> bool \<Rightarrow> bool \<Rightarrow> ModelOption list \<Rightarrow> jstr \<Rightarrow> InputControlState" where
  "getInputControlState disabled groups hasStopHandler isGenerating isModelLoading models text = \<lparr>
     canSubmit = (\<not> disabled \<and> length models > 0 \<and> length (trim text) > 0),
     isSelectorDisabled = (disabled \<or> isModelLoading \<or> length groups = 0),
     shouldShowStop = (isGenerating \<and> hasStopHandler)\<rparr>"

section \<open>Parameters\<close>

datatype PlaygroundParameterKey =
  PTemperature | PTopP | PFrequencyPenalty | PPresencePenalty | PMaxTokens | PSeed

record PlaygroundParameterControl =
  ctl_key :: PlaygroundParameterKey
  ctl_min :: rat
  ctl_max :: rat
  ctl_step :: rat
  ctl_decimals :: nat

text \<open>The label, the description and the widget of a control are texts for the view and left out;
  \<open>ctl_decimals\<close> is the number of digits of \<open>String(control.step)\<close> after its point.\<close>

definition PLAYGROUND_PARAMETER_CONTROLS :: "PlaygroundParameterControl list" where
  "PLAYGROUND_PARAMETER_CONTROLS =
     [\<lparr>ctl_key = PTemperature, ctl_min = 1 / 10, ctl_max = 1, ctl_step = 1 / 10, ctl_decimals = 1\<rparr>,
      \<lparr>ctl_key = PTopP, ctl_min = 1 / 10, ctl_max = 1, ctl_step = 1 / 10, ctl_decimals = 1\<rparr>,
      \<lparr>ctl_key = PFrequencyPenalty, ctl_min = - 2, ctl_max = 2, ctl_step = 1 / 10, ctl_decimals = 1\<rparr>,
      \<lparr>ctl_key = PPresencePenalty, ctl_min = - 2, ctl_max = 2, ctl_step = 1 / 10, ctl_decimals = 1\<rparr>,
      \<lparr>ctl_key = PMaxTokens, ctl_min = 0, ctl_max = 200000, ctl_step = 1, ctl_decimals = 0\<rparr>,
      \<lparr>ctl_key = PSeed, ctl_min = 0, ctl_max = 2147483647, ctl_step = 1, ctl_decimals = 0\<rparr>]"

datatype InputValue = TextValue jstr | NumberValue jnum

text \<open>\<open>Math.min(max, Math.max(min, x))\<close> for an \<open>x\<close> that is not NaN, \<open>Math.trunc\<close>, and \<open>Number(x.toFixed(d))\<close>:
  the decimal with \<open>d\<close> digits nearest to \<open>x\<close>, the one farther from zero when two are.\<close>

fun clamp :: "rat \<Rightarrow> rat \<Rightarrow> jnum \<Rightarrow> rat" where
  "clamp lo hi PosInf = hi"
| "clamp lo hi NegInf = min hi lo"
| "clamp lo hi (Fin q) = min hi (max lo q)"
| "clamp lo hi NaN = hi"

definition js_trunc :: "rat \<Rightarrow> rat" where
  "js_trunc q = (if q < 0 then of_int \<lceil>q\<rceil> else of_int \<lfloor>q\<rfloor>)"

definition to_fixed :: "nat \<Rightarrow> rat \<Rightarrow> rat" where
  "to_fixed d q = (if q < 0 then - (of_int \<lfloor>- q * 10 ^ d + 1 / 2\<rfloor> / 10 ^ d) else of_int \<lfloor>q * 10 ^ d + 1 / 2\<rfloor> / 10 ^ d)"

definition normalizeParameterNumberValue ::
  "(jstr \<Rightarrow> jnum) \<Rightarrow> PlaygroundParameterKey \<Rightarrow> InputValue \<Rightarrow> rat option" where
  "normalizeParameterNumberValue parseFloat k v =
     (if v = TextValue [] then (if k = PSeed then None else Some 0)
      else let control = find (\<lambda>item. ctl_key item = k) PLAYGROUND_PARAMETER_CONTROLS;
               parsed = (case v of NumberValue n \<Rightarrow> n | TextValue s \<Rightarrow> parseFloat s) in
        case control of
          None \<Rightarrow> (if k = PSeed then None else Some 0)
        | Some c \<Rightarrow>
            if parsed = NaN then (if k = PSeed then None else Some 0)
            else let clamped = clamp (ctl_min c) (ctl_max c) parsed in
              if ctl_step c \<ge> 1 then Some (js_trunc clamped) else Some (to_fixed (ctl_decimals c) clamped))"

section \<open>Lemmas\<close>

lemma control_found: "\<exists>c \<in> set PLAYGROUND_PARAMETER_CONTROLS. find (\<lambda>item. ctl_key item = k) PLAYGROUND_PARAMETER_CONTROLS = Some c"
  by (cases k) (simp_all add: PLAYGROUND_PARAMETER_CONTROLS_def)

lemma clamp_bounds: "lo \<le> hi \<Longrightarrow> lo \<le> clamp lo hi n \<and> clamp lo hi n \<le> hi"
  by (cases n) auto

text \<open>The fallback for a model or a group that is not offered is one that is.\<close>

lemma getModelFallback_offered:
  "getModelFallback models m = Some m' \<Longrightarrow> m' \<in> model_value ` set models \<and> m \<notin> model_value ` set models"
  by (cases models) (auto simp: getModelFallback_def list_ex_iff split: if_splits)

lemma getGroupFallback_offered:
  "getGroupFallback groups g = Some g' \<Longrightarrow> g' \<in> opt_value ` set groups \<and> g \<notin> opt_value ` set groups"
  by (cases groups) (auto simp: getGroupFallback_def list_ex_iff split: if_splits option.splits dest!: find_SomeD)

text \<open>A submitted text is the text typed, and never blank.\<close>

lemma submittable_not_blank: "getSubmittableInputText text d = Some s \<Longrightarrow> text = Some s \<and> trim s \<noteq> [] \<and> \<not> d"
  by (auto simp: getSubmittableInputText_def str_truthy_def split: if_splits)

lemma getGroupDescription_informative:
  "getGroupDescription d code name = Some t \<Longrightarrow> t \<noteq> [] \<and> t \<noteq> code \<and> t \<noteq> name \<and> trim t = t"
  by (auto simp: getGroupDescription_def str_truthy_def Let_def split: if_splits)

end
