(* ===== verification/Playground_Stream.thy ===== *)
theory Playground_Stream
  imports Playground_Messages
begin

text \<open>
  The streaming request of the playground: reading the events of the stream
  (\<open>web/src/features/playground/lib/streaming/stream-utils.ts\<close>, \<open>request-error-utils.ts\<close>) and the
  controller that owns at most one event source (\<open>hooks/use-stream-request.ts\<close>).

  The controller is a state machine.  Its events are the calls of \<open>send\<close>, \<open>stop\<close> and \<open>dispose\<close>, the
  settling of the header promise a \<open>send\<close> awaits, an exception of \<open>stream()\<close>, and the events the source
  object dispatches, in any order and also late.  A call of a callback is an entry of the log
  \<open>calls\<close>, tagged with the generation of its request.  \<open>JSON.parse\<close> is an argument that yields the value
  at the type the source asserts, or \<open>None\<close> when the source throws.
\<close>

section \<open>Reading the stream\<close>

definition CONNECTION_CLOSED :: jstr where "CONNECTION_CLOSED = js ''Connection closed''"
definition PARSE_ERROR :: jstr where "PARSE_ERROR = js ''Error parsing response data''"
definition STREAM_START_ERROR :: jstr where "STREAM_START_ERROR = js ''Error establishing connection''"

type_synonym StreamMessageUpdate = "StreamChunkType \<times> jstr"

record StreamErrorPayload =
  payload_code :: "jstr option"
  payload_message :: "jstr option"

record StreamErrorDetails =
  ed_code :: "jstr option"
  ed_message :: jstr

text \<open>The argument \<open>parse\<close> gives the property \<open>error\<close> of the parsed value.\<close>

definition parseStreamErrorDetails ::
  "(jstr \<Rightarrow> StreamErrorPayload option option) \<Rightarrow> jstr option \<Rightarrow> StreamErrorDetails" where
  "parseStreamErrorDetails parse data =
     (let fallbackMessage = str_or data API_REQUEST_ERROR;
          fallback = \<lparr>ed_code = None, ed_message = fallbackMessage\<rparr> in
      if \<not> str_truthy data then fallback
      else case parse (the data) of
        None \<Rightarrow> fallback
      | Some None \<Rightarrow> fallback
      | Some (Some e) \<Rightarrow>
          \<lparr>ed_code = (if str_truthy (payload_code e) then payload_code e else None),
           ed_message = str_or (payload_message e) fallbackMessage\<rparr>)"

record Delta =
  delta_content :: "jstr option"
  delta_reasoning_content :: "jstr option"

text \<open>A chunk is its \<open>choices\<close>, each with its \<open>delta\<close> if it has one.\<close>

type_synonym ChatCompletionChunk = "Delta option list option"

definition parseStreamMessageUpdates ::
  "(jstr \<Rightarrow> ChatCompletionChunk option) \<Rightarrow> jstr \<Rightarrow> StreamMessageUpdate list option" where
  "parseStreamMessageUpdates parse data =
     map_option (\<lambda>chunk.
       case chunk of
         Some (Some delta # _) \<Rightarrow>
           (if str_truthy (delta_reasoning_content delta)
            then [(ChunkReasoning, the (delta_reasoning_content delta))] else [])
           @ (if str_truthy (delta_content delta) then [(ChunkContent, the (delta_content delta))] else [])
       | _ \<Rightarrow> []) (parse data)"

definition isStreamDoneMessage :: "jstr \<Rightarrow> bool" where
  "isStreamDoneMessage data \<longleftrightarrow> data = js ''[DONE]''"

definition isStreamClosedReadyState :: "nat option \<Rightarrow> bool" where
  "isStreamClosedReadyState readyState \<longleftrightarrow> readyState = Some 2"

definition getStreamReadyStateError :: "nat option \<Rightarrow> nat option \<Rightarrow> jstr option" where
  "getStreamReadyStateError eventReadyState st =
     (case (eventReadyState, st) of
        (Some r, Some code) \<Rightarrow>
          if r \<ge> 2 \<and> code \<noteq> 200 then Some (js ''HTTP '' @ show_nat code @ js '': '' @ CONNECTION_CLOSED) else None
      | _ \<Rightarrow> None)"

record RequestErrorLike =
  re_message :: "jstr option"
  re_data_message :: "jstr option"
  re_data_error_code :: "jstr option"

definition parseRequestErrorDetails :: "RequestErrorLike \<Rightarrow> StreamErrorDetails" where
  "parseRequestErrorDetails e =
     \<lparr>ed_code = (if str_truthy (re_data_error_code e) then re_data_error_code e else None),
      ed_message = str_or (re_data_message e) (str_or (re_message e) API_REQUEST_ERROR)\<rparr>"

section \<open>The controller\<close>

datatype StreamCall = OnUpdate StreamChunkType jstr | OnComplete | OnError jstr "jstr option"

text \<open>
  \<open>source\<close> is the current event source, by number; \<open>opened\<close> gives the generation of the request that
  created a source, \<open>completed\<close> the sources whose closure variable of that name is true, and \<open>closed\<close>
  the sources \<open>close()\<close> was called on.  \<open>awaiting\<close> are the requests whose headers are not there yet.
\<close>

record StreamController =
  generation :: nat
  source :: "nat option"
  awaiting :: "nat list"
  opened :: "nat list"
  completed :: "nat list"
  closed :: "nat list"
  isStreaming :: bool
  calls :: "(nat \<times> StreamCall) list"

definition createStreamRequestController :: StreamController where
  "createStreamRequestController = \<lparr>generation = 0, source = None, awaiting = [], opened = [],
     completed = [], closed = [], isStreaming = False, calls = []\<rparr>"

definition call :: "nat \<Rightarrow> StreamCall \<Rightarrow> StreamController \<Rightarrow> StreamController" where
  "call g c s = s\<lparr>calls := calls s @ [(g, c)]\<rparr>"

definition closeActiveSource :: "nat \<Rightarrow> StreamController \<Rightarrow> StreamController" where
  "closeActiveSource target s =
     (let s = s\<lparr>closed := target # closed s\<rparr> in
      if source s = Some target then s\<lparr>source := None, isStreaming := False\<rparr> else s)"

definition close_source :: "nat option \<Rightarrow> StreamController \<Rightarrow> StreamController" where
  "close_source src s = (case src of None \<Rightarrow> s | Some i \<Rightarrow> s\<lparr>closed := i # closed s\<rparr>)"

text \<open>\<open>send\<close> up to its first \<open>await\<close>.\<close>

definition send :: "StreamController \<Rightarrow> StreamController" where
  "send s =
     (let requestGeneration = generation s + 1; previousSource = source s;
          s = s\<lparr>generation := requestGeneration, source := None\<rparr>
      in (close_source previousSource s)\<lparr>isStreaming := False, awaiting := requestGeneration # awaiting s\<rparr>)"

text \<open>\<open>send\<close> after it: the promise of the headers was rejected, with the message of an \<open>Error\<close> or without,
  or fulfilled; then the new source becomes the current one.\<close>

datatype HeaderResult = HeadersRejected "jstr option" | HeadersReady

definition send_resumed :: "nat \<Rightarrow> HeaderResult \<Rightarrow> StreamController \<Rightarrow> StreamController" where
  "send_resumed requestGeneration result s =
     (let s = s\<lparr>awaiting := filter (\<lambda>g. g \<noteq> requestGeneration) (awaiting s)\<rparr> in
      if generation s \<noteq> requestGeneration then s
      else case result of
        HeadersRejected msg \<Rightarrow>
          call requestGeneration (OnError (case msg of None \<Rightarrow> STREAM_START_ERROR | Some m \<Rightarrow> m) None) s
      | HeadersReady \<Rightarrow>
          s\<lparr>source := Some (length (opened s)), opened := opened s @ [requestGeneration], isStreaming := True\<rparr>)"

definition isCurrent :: "nat \<Rightarrow> StreamController \<Rightarrow> bool" where
  "isCurrent i s \<longleftrightarrow> generation s = opened s ! i \<and> source s = Some i"

definition handleError :: "nat \<Rightarrow> jstr \<Rightarrow> jstr option \<Rightarrow> StreamController \<Rightarrow> StreamController" where
  "handleError i msg code s =
     (if \<not> isCurrent i s \<or> i \<in> set (completed s) then s
      else closeActiveSource i (call (opened s ! i) (OnError msg code) (s\<lparr>completed := i # completed s\<rparr>)))"

definition on_message ::
  "(jstr \<Rightarrow> ChatCompletionChunk option) \<Rightarrow> nat \<Rightarrow> jstr option \<Rightarrow> StreamController \<Rightarrow> StreamController" where
  "on_message parse i event_data s =
     (if \<not> isCurrent i s \<or> i \<in> set (completed s) then s
      else let data = (case event_data of None \<Rightarrow> [] | Some d \<Rightarrow> d) in
        if isStreamDoneMessage data
        then call (opened s ! i) OnComplete (closeActiveSource i (s\<lparr>completed := i # completed s\<rparr>))
        else case parseStreamMessageUpdates parse data of
          None \<Rightarrow> handleError i PARSE_ERROR None s
        | Some updates \<Rightarrow> fold (\<lambda>(type, chunk). call (opened s ! i) (OnUpdate type chunk)) updates s)"

definition on_error ::
  "(jstr \<Rightarrow> StreamErrorPayload option option) \<Rightarrow> nat \<Rightarrow> nat option \<Rightarrow> jstr option \<Rightarrow> StreamController \<Rightarrow> StreamController" where
  "on_error parse i readyState event_data s =
     (if \<not> isCurrent i s \<or> i \<in> set (completed s) then s
      else if \<not> isStreamClosedReadyState readyState
      then let d = parseStreamErrorDetails parse event_data in handleError i (ed_message d) (ed_code d) s
      else s)"

definition on_readystatechange :: "nat \<Rightarrow> nat option \<Rightarrow> nat option \<Rightarrow> StreamController \<Rightarrow> StreamController" where
  "on_readystatechange i event_readyState st s =
     (if \<not> isCurrent i s \<or> i \<in> set (completed s) then s
      else case getStreamReadyStateError event_readyState st of
        None \<Rightarrow> s | Some msg \<Rightarrow> handleError i msg None s)"

definition stream_throws :: "nat \<Rightarrow> StreamController \<Rightarrow> StreamController" where
  "stream_throws i s =
     (if \<not> isCurrent i s \<or> i \<in> set (completed s) then s else handleError i STREAM_START_ERROR None s)"

definition cancel :: "bool \<Rightarrow> StreamController \<Rightarrow> StreamController" where
  "cancel notify s =
     (let activeSource = source s;
          s = close_source activeSource (s\<lparr>generation := generation s + 1, source := None\<rparr>)
      in if notify then s\<lparr>isStreaming := False\<rparr> else s)"

definition stop :: "StreamController \<Rightarrow> StreamController" where "stop = cancel True"
definition dispose :: "StreamController \<Rightarrow> StreamController" where "dispose = cancel False"

section \<open>Runs of the controller\<close>

datatype StreamEvent =
    Send
  | Resume nat HeaderResult
  | MessageEvent nat "jstr option"
  | ErrorEvent nat "nat option" "jstr option"
  | ReadyStateEvent nat "nat option" "nat option"
  | StreamThrows nat
  | Stop
  | Dispose

record StreamParsers =
  parse_chunk :: "jstr \<Rightarrow> ChatCompletionChunk option"
  parse_error :: "jstr \<Rightarrow> StreamErrorPayload option option"

text \<open>A promise settles once, and only sources that were created dispatch events.\<close>

inductive stream_step :: "StreamParsers \<Rightarrow> StreamController \<Rightarrow> StreamEvent \<Rightarrow> StreamController \<Rightarrow> bool"
  for P where
  step_send: "stream_step P s Send (send s)"
| step_resume: "g \<in> set (awaiting s) \<Longrightarrow> stream_step P s (Resume g r) (send_resumed g r s)"
| step_message: "i < length (opened s) \<Longrightarrow> stream_step P s (MessageEvent i d) (on_message (parse_chunk P) i d s)"
| step_error: "i < length (opened s) \<Longrightarrow> stream_step P s (ErrorEvent i rs d) (on_error (parse_error P) i rs d s)"
| step_ready: "i < length (opened s) \<Longrightarrow> stream_step P s (ReadyStateEvent i rs st) (on_readystatechange i rs st s)"
| step_throws: "i < length (opened s) \<Longrightarrow> stream_step P s (StreamThrows i) (stream_throws i s)"
| step_stop: "stream_step P s Stop (stop s)"
| step_dispose: "stream_step P s Dispose (dispose s)"

inductive stream_reachable :: "StreamParsers \<Rightarrow> StreamController \<Rightarrow> bool" for P where
  reach_init: "stream_reachable P createStreamRequestController"
| reach_step: "stream_reachable P s \<Longrightarrow> stream_step P s e s' \<Longrightarrow> stream_reachable P s'"

inductive_cases stream_stepE: "stream_step P s e s'"

section \<open>What a request hears\<close>

fun is_update :: "StreamCall \<Rightarrow> bool" where
  "is_update (OnUpdate ty c) = True"
| "is_update _ = False"

definition trace :: "nat \<Rightarrow> StreamController \<Rightarrow> StreamCall list" where
  "trace g s = map snd (filter (\<lambda>c. fst c = g) (calls s))"

definition open_trace :: "StreamCall list \<Rightarrow> bool" where
  "open_trace = list_all is_update"

definition stream_inv :: "StreamController \<Rightarrow> bool" where
  "stream_inv s \<longleftrightarrow>
     (\<forall>g \<in> set (awaiting s). g \<le> generation s \<and> trace g s = [] \<and> g \<notin> set (opened s))
     \<and> (\<forall>g \<in> set (opened s). g \<le> generation s)
     \<and> (\<forall>g. g > generation s \<longrightarrow> trace g s = [])
     \<and> (\<forall>g. open_trace (butlast (trace g s)))
     \<and> (\<forall>i. source s = Some i \<longrightarrow> i < length (opened s) \<and> opened s ! i = generation s \<and> open_trace (trace (generation s) s)
              \<and> generation s \<notin> set (awaiting s))
     \<and> (\<forall>i < length (opened s). source s \<noteq> Some i \<longrightarrow> i \<in> set (closed s))"

lemma trace_cong: "calls s' = calls s \<Longrightarrow> trace g s' = trace g s"
  by (simp add: trace_def)

lemma trace_call: "trace g (call h c s) = (if g = h then trace g s @ [c] else trace g s)"
  by (simp add: trace_def call_def)

lemma call_fields [simp]:
  "generation (call g c s) = generation s" "source (call g c s) = source s"
  "awaiting (call g c s) = awaiting s" "opened (call g c s) = opened s" "closed (call g c s) = closed s"
  "completed (call g c s) = completed s"
  by (simp_all add: call_def)

lemma open_trace_butlast: "open_trace t \<Longrightarrow> open_trace (butlast (t @ [c]))"
  by simp

lemma open_trace_weaken: "open_trace t \<Longrightarrow> open_trace (butlast t)"
  by (auto simp: open_trace_def list_all_iff dest: in_set_butlastD)

lemma calls_updates:
  "fold (\<lambda>(type, chunk). call g (OnUpdate type chunk)) us s
     = s\<lparr>calls := calls s @ map (\<lambda>(type, chunk). (g, OnUpdate type chunk)) us\<rparr>"
  by (induction us arbitrary: s) (auto simp: call_def)

lemma trace_updates:
  "trace h (s\<lparr>calls := calls s @ map (\<lambda>(type, chunk). (g, OnUpdate type chunk)) us\<rparr>)
     = trace h s @ (if h = g then map (\<lambda>(type, chunk). OnUpdate type chunk) us else [])"
  by (auto simp: trace_def filter_map comp_def case_prod_unfold)

lemma open_updates: "open_trace (map (\<lambda>(type, chunk). OnUpdate type chunk) us)"
  by (auto simp: open_trace_def list_all_iff)

lemma inv_send: "stream_inv s \<Longrightarrow> stream_inv (send s)"
  by (auto simp: stream_inv_def send_def close_source_def Let_def trace_def less_Suc_eq split: option.splits)

lemma inv_cancel: "stream_inv s \<Longrightarrow> stream_inv (cancel b s)"
  by (auto simp: stream_inv_def cancel_def close_source_def Let_def trace_def less_Suc_eq split: option.splits)

text \<open>The end of a request, which both \<open>handleError\<close> and the end marker bring about.\<close>

definition finished :: "nat \<Rightarrow> StreamCall \<Rightarrow> StreamController \<Rightarrow> StreamController" where
  "finished i c s = s\<lparr>completed := i # completed s, closed := i # closed s, source := None, isStreaming := False,
     calls := calls s @ [(generation s, c)]\<rparr>"

lemma handleError_finished:
  "handleError i msg code s =
     (if isCurrent i s \<and> i \<notin> set (completed s) then finished i (OnError msg code) s else s)"
  by (simp add: handleError_def finished_def closeActiveSource_def call_def isCurrent_def Let_def)

lemma done_finished:
  "isCurrent i s \<Longrightarrow>
     call (opened s ! i) OnComplete (closeActiveSource i (s\<lparr>completed := i # completed s\<rparr>)) = finished i OnComplete s"
  by (simp add: finished_def closeActiveSource_def call_def isCurrent_def Let_def)

lemma trace_finished: "trace g (finished i c s) = (if g = generation s then trace g s @ [c] else trace g s)"
  by (simp add: trace_def finished_def)

lemma finished_fields [simp]:
  "generation (finished i c s) = generation s" "source (finished i c s) = None"
  "awaiting (finished i c s) = awaiting s" "opened (finished i c s) = opened s"
  "closed (finished i c s) = i # closed s"
  by (simp_all add: finished_def)

lemma inv_finished:
  assumes "stream_inv s" "isCurrent i s"
  shows "stream_inv (finished i c s)"
proof -
  from assms have t: "open_trace (trace (generation s) s)" "generation s \<notin> set (awaiting s)" "source s = Some i"
    by (auto simp: stream_inv_def isCurrent_def)
  from assms(1) have h: "\<forall>g \<in> set (awaiting s). g \<le> generation s \<and> trace g s = [] \<and> g \<notin> set (opened s)"
    "\<forall>g \<in> set (opened s). g \<le> generation s" "\<forall>g. g > generation s \<longrightarrow> trace g s = []"
    "\<forall>g. open_trace (butlast (trace g s))" "\<forall>i < length (opened s). source s \<noteq> Some i \<longrightarrow> i \<in> set (closed s)"
    unfolding stream_inv_def by blast+
  show ?thesis
    unfolding stream_inv_def trace_finished finished_fields
  proof (intro conjI)
    show "\<forall>g \<in> set (awaiting s). g \<le> generation s \<and> (if g = generation s then trace g s @ [c] else trace g s) = []
        \<and> g \<notin> set (opened s)" using h(1) t(2) by auto
    show "\<forall>g. open_trace (butlast (if g = generation s then trace g s @ [c] else trace g s))"
      using h(4) t(1) by simp
  qed (use h(2,3,5) t(3) in auto)
qed

lemma inv_updates:
  assumes "stream_inv s" "isCurrent i s"
  shows "stream_inv (fold (\<lambda>(type, chunk). call (opened s ! i) (OnUpdate type chunk)) us s)"
proof -
  have t: "open_trace (trace (generation s) s)" "generation s \<notin> set (awaiting s)" "opened s ! i = generation s"
    using assms by (auto simp: stream_inv_def isCurrent_def)
  have o: "open_trace (trace (generation s) s @ map (\<lambda>(type, chunk). OnUpdate type chunk) us)"
    using t open_updates[of us] by (simp add: open_trace_def)
  show ?thesis
    using assms t o open_trace_weaken[OF o] unfolding stream_inv_def calls_updates trace_updates
    by auto
qed

lemma inv_resumed:
  assumes "stream_inv s" "g \<in> set (awaiting s)"
  shows "stream_inv (send_resumed g r s)"
proof (cases "generation s = g")
  case False
  then show ?thesis using assms by (auto simp: stream_inv_def send_resumed_def trace_def Let_def)
next
  case True
  have t: "trace g s = []" "g \<notin> set (opened s)" using assms by (auto simp: stream_inv_def)
  have n: "source s = None" using assms True by (cases "source s") (auto simp: stream_inv_def)
  show ?thesis
  proof (cases r)
    case HeadersReady
    with True assms t n show ?thesis
      by (auto simp: stream_inv_def send_resumed_def trace_def Let_def nth_append less_Suc_eq open_trace_def)
  next
    case (HeadersRejected m)
    with True assms t n show ?thesis
      by (auto simp: stream_inv_def send_resumed_def trace_call Let_def)
         (auto simp: trace_def open_trace_def)
  qed
qed

lemma inv_step: "stream_step P s e s' \<Longrightarrow> stream_inv s \<Longrightarrow> stream_inv s'"
proof (induction rule: stream_step.induct)
  case (step_message i s d)
  then show ?case
    by (auto simp: on_message_def Let_def done_finished handleError_finished
        intro: inv_finished inv_updates split: option.splits)
next
  case (step_error i s rs d)
  then show ?case by (auto simp: on_error_def Let_def handleError_finished intro: inv_finished)
next
  case (step_ready i s rs st)
  then show ?case
    by (auto simp: on_readystatechange_def handleError_finished intro: inv_finished split: option.splits)
qed (auto simp: stop_def dispose_def stream_throws_def handleError_finished
      intro: inv_send inv_cancel inv_resumed inv_finished)

lemma inv_reachable: "stream_reachable P s \<Longrightarrow> stream_inv s"
proof (induction rule: stream_reachable.induct)
  case reach_init
  show ?case by (simp add: stream_inv_def createStreamRequestController_def trace_def open_trace_def)
qed (blast intro: inv_step)

text \<open>C16. In every reachable state of the stream controller each request has heard some updates and then
  at most one completion or error, nothing after it; a current source belongs to the newest
  request, which has not ended; and every other source that was opened has been closed.\<close>

theorem stream_protocol:
  assumes "stream_reachable P s"
  shows "list_all is_update (butlast (trace g s))
    \<and> (source s = Some i \<longrightarrow> i < length (opened s) \<and> opened s ! i = generation s \<and> list_all is_update (trace (generation s) s))
    \<and> (\<forall>i < length (opened s). source s \<noteq> Some i \<longrightarrow> i \<in> set (closed s))"
  using inv_reachable[OF assms] unfolding stream_inv_def open_trace_def by blast

theorem stream_protocol_witness:
  "list_all is_update (butlast (trace 1 (send_resumed 1 (HeadersRejected None) (send createStreamRequestController))))"
proof -
  let ?P = "\<lparr>parse_chunk = \<lambda>_. None, parse_error = \<lambda>_. None\<rparr>" and ?s = "send createStreamRequestController"
  have "stream_reachable ?P ?s" by (rule reach_step[OF reach_init step_send])
  moreover have "1 \<in> set (awaiting ?s)"
    by (simp add: send_def createStreamRequestController_def close_source_def Let_def)
  ultimately have "stream_reachable ?P (send_resumed 1 (HeadersRejected None) ?s)"
    by (rule reach_step[OF _ step_resume])
  from stream_protocol[OF this, of 1] show ?thesis by blast
qed

lemma generation_unchanged:
  "generation (call g c s) = generation s" "generation (handleError i m k s) = generation s"
  "generation (on_message p i d s) = generation s" "generation (on_error q i rs d s) = generation s"
  "generation (on_readystatechange i rs st s) = generation s" "generation (stream_throws i s) = generation s"
  "generation (send_resumed g r s) = generation s"
  by (auto simp: on_message_def on_error_def on_readystatechange_def stream_throws_def send_resumed_def
      handleError_finished done_finished calls_updates Let_def split: option.splits HeaderResult.splits)

lemma older_trace_step:
  "stream_step P s e s' \<Longrightarrow> g < generation s \<Longrightarrow> generation s \<le> generation s' \<and> trace g s' = trace g s"
proof (induction rule: stream_step.induct)
  case (step_message i s d)
  then show ?case
    by (auto simp: generation_unchanged on_message_def Let_def done_finished handleError_finished trace_finished
        calls_updates trace_updates isCurrent_def split: option.splits)
next
  case (step_resume h s r)
  then show ?case
    by (auto simp: generation_unchanged send_resumed_def Let_def trace_call split: HeaderResult.splits)
       (simp_all add: trace_def)
next
  case (step_error i s rs d)
  then show ?case
    by (auto simp: generation_unchanged on_error_def Let_def handleError_finished trace_finished)
next
  case (step_ready i s rs st)
  then show ?case
    by (auto simp: generation_unchanged on_readystatechange_def handleError_finished trace_finished split: option.splits)
next
  case (step_throws i s)
  then show ?case
    by (auto simp: generation_unchanged stream_throws_def handleError_finished trace_finished)
qed (auto simp: send_def stop_def dispose_def cancel_def close_source_def trace_def Let_def split: option.splits)

definition stream_run :: "StreamParsers \<Rightarrow> StreamController \<Rightarrow> StreamController \<Rightarrow> bool" where
  "stream_run P = (\<lambda>s s'. \<exists>e. stream_step P s e s')\<^sup>*\<^sup>*"

lemma older_trace_run:
  assumes "stream_run P s s'" "g < generation s"
  shows "generation s \<le> generation s' \<and> trace g s' = trace g s"
  using assms(1) unfolding stream_run_def
proof (induction rule: rtranclp_induct)
  case (step t u)
  then obtain e where "stream_step P t e u" by blast
  from older_trace_step[OF this, of g] step assms(2) show ?case by auto
qed simp

text \<open>Once the playground is stopped, is left or sends another request, the earlier request is silent:
  whatever happens afterwards, and whatever its source still dispatches, its callbacks are not
  called again.\<close>

lemma superseded_stream_silent:
  assumes "s' = stop s \<or> s' = dispose s \<or> s' = send s" "g \<le> generation s" "stream_run P s' s''"
  shows "trace g s'' = trace g s"
proof -
  have "g < generation s'" "trace g s' = trace g s"
    using assms(1,2) by (auto simp: send_def stop_def dispose_def cancel_def close_source_def trace_def Let_def
        split: option.splits)
  with older_trace_run[OF assms(3)] show ?thesis by metis
qed

end
