(* ===== verification/Playground_Chat.thy ===== *)
theory Playground_Chat
  imports Playground_Conversation Playground_Stream
begin

text \<open>
  The chat handler of the playground (\<open>web/src/features/playground/hooks/use-chat-handler.ts\<close>): it
  numbers requests by generations, collects streamed chunks and hands them to the conversation every
  50 milliseconds, and ends, fails or stops the answer.

  A call of \<open>onMessageUpdate\<close> passes React a function.  React runs it when it renders next, or at once
  when nothing else is waiting; the flag \<open>now\<close> of each such call says which.  The function reads the
  generation counter when it runs, not when it is passed.  The functions are the constructors of
  \<open>MessageUpdate\<close> with the variables they close over.  Requests, stops of the stream and toasts are
  entries of the log \<open>effects\<close>.
\<close>

section \<open>Data\<close>

definition NETWORK_ERROR :: jstr where
  "NETWORK_ERROR = js ''Network connection failed or server not responding''"

definition KNOWN_ERROR_MESSAGES :: "jstr list" where
  "KNOWN_ERROR_MESSAGES = [API_REQUEST_ERROR, NETWORK_ERROR, PARSE_ERROR, STREAM_START_ERROR,
     CONNECTION_CLOSED, INTERRUPTED]"

record PendingStreamChunks =
  pending_generation :: nat
  pending_content :: jstr
  pending_reasoning :: jstr

definition no_chunks :: "nat \<Rightarrow> PendingStreamChunks" where
  "no_chunks g = \<lparr>pending_generation = g, pending_content = [], pending_reasoning = []\<rparr>"

definition mergePendingStreamChunk :: "jstr \<Rightarrow> jstr \<Rightarrow> jstr" where
  "mergePendingStreamChunk currentChunk nextChunk =
     (if currentChunk = [] \<or> \<not> prefix currentChunk nextChunk then currentChunk @ nextChunk else nextChunk)"

datatype MessageUpdate =
    FlushUpdate nat PendingStreamChunks
  | CompleteUpdate nat
  | ErrorUpdate nat jstr "jstr option" jstr
  | ImageUpdate nat jstr
  | ResponseUpdate nat "ChatCompletionChoice list option"
  | StopUpdate nat
  | SetMessages "Message list"
  | RemoveMessage jstr

datatype ChatEffect =
    StreamRequest nat ChatCompletionRequest
  | PlainRequest nat ChatCompletionRequest
  | StopStream
  | Toast jstr

record Chat =
  messages :: "Message list"
  waiting :: "MessageUpdate list"
  requestGeneration :: nat
  pendingStreamChunks :: PendingStreamChunks
  streamFlushTimer :: "nat option"
  isRequesting :: bool
  abortController :: "nat option"
  aborted :: "nat list"
  effects :: "ChatEffect list"

text \<open>What the handler is given: the clock readings of one update, the translation, the case mapping,
  the configuration and the parameter switches.\<close>

record ChatEnv =
  clock :: "nat \<Rightarrow> rat"
  tr :: "jstr \<Rightarrow> jstr"
  lower :: "jstr \<Rightarrow> jstr"
  config :: PlaygroundConfig
  parameterEnabled :: ParameterEnabled

section \<open>Message updates\<close>

definition flush_message :: "(nat \<Rightarrow> rat) \<Rightarrow> PendingStreamChunks \<Rightarrow> Message \<Rightarrow> Message" where
  "flush_message ck chunks message =
     (let m1 = (if pending_reasoning chunks \<noteq> []
                then applyStreamingChunk message ChunkReasoning (pending_reasoning chunks) (ck 0) (ck 1) else message)
      in if pending_content chunks \<noteq> []
         then applyStreamingChunk m1 ChunkContent (pending_content chunks) (ck 2) (ck 3) else m1)"

definition complete_message :: "(nat \<Rightarrow> rat) \<Rightarrow> Message \<Rightarrow> Message" where
  "complete_message ck message = completeAssistantMessage message (ck 0) (ck 1) (ck 2)"

fun run_update :: "(nat \<Rightarrow> rat) \<Rightarrow> nat \<Rightarrow> MessageUpdate \<Rightarrow> Message list \<Rightarrow> Message list" where
  "run_update ck current (FlushUpdate g chunks) prev =
     (if g \<noteq> current then prev else updateLastAssistantMessage prev (flush_message ck chunks))"
| "run_update ck current (CompleteUpdate g) prev =
     (if g \<noteq> current then prev
      else updateLastAssistantMessage prev (\<lambda>m. if isAssistantMessageFinal m then m else complete_message ck m))"
| "run_update ck current (ErrorUpdate g displayError code title) prev =
     (if g \<noteq> current then prev else updateAssistantMessageWithError prev displayError code title (ck 0))"
| "run_update ck current (ImageUpdate g imageContent) prev =
     (if g \<noteq> current then prev
      else updateLastAssistantMessage prev (\<lambda>m. complete_message ck (updateCurrentVersionContent m imageContent)))"
| "run_update ck current (ResponseUpdate g choices) prev =
     (if g \<noteq> current then prev
      else updateLastAssistantMessage prev (\<lambda>m.
        case applyChatCompletionResponse m choices (ck 0) (ck 1) (ck 2) of None \<Rightarrow> m | Some m' \<Rightarrow> m'))"
| "run_update ck current (StopUpdate g) prev =
     (if g \<noteq> current then prev
      else updateLastAssistantMessage prev (\<lambda>m. if isAssistantMessagePending m then complete_message ck m else m))"
| "run_update ck current (SetMessages ms) prev = ms"
| "run_update ck current (RemoveMessage k) prev = removeMessageByKey prev k"

definition onMessageUpdate :: "ChatEnv \<Rightarrow> bool \<Rightarrow> MessageUpdate \<Rightarrow> Chat \<Rightarrow> Chat" where
  "onMessageUpdate env now u s =
     (if now \<and> waiting s = [] then s\<lparr>messages := run_update (clock env) (requestGeneration s) u (messages s)\<rparr>
      else s\<lparr>waiting := waiting s @ [u]\<rparr>)"

definition render :: "ChatEnv \<Rightarrow> Chat \<Rightarrow> Chat" where
  "render env s =
     s\<lparr>messages := fold (run_update (clock env) (requestGeneration s)) (waiting s) (messages s), waiting := []\<rparr>"

section \<open>Chunks\<close>

definition discardPendingStreamUpdates :: "nat \<Rightarrow> Chat \<Rightarrow> Chat" where
  "discardPendingStreamUpdates g s = s\<lparr>streamFlushTimer := None, pendingStreamChunks := no_chunks g\<rparr>"

definition flushStreamUpdates :: "ChatEnv \<Rightarrow> bool \<Rightarrow> nat \<Rightarrow> Chat \<Rightarrow> Chat" where
  "flushStreamUpdates env now g s =
     (if g \<noteq> requestGeneration s then s
      else let s = s\<lparr>streamFlushTimer := None\<rparr>; chunks = pendingStreamChunks s in
        if pending_generation chunks \<noteq> g then s
        else if pending_reasoning chunks = [] \<and> pending_content chunks = [] then s
        else onMessageUpdate env now (FlushUpdate g chunks) (s\<lparr>pendingStreamChunks := no_chunks g\<rparr>))"

definition scheduleStreamFlush :: "nat \<Rightarrow> Chat \<Rightarrow> Chat" where
  "scheduleStreamFlush g s =
     (if g \<noteq> requestGeneration s then s
      else if streamFlushTimer s \<noteq> None then s
      else s\<lparr>streamFlushTimer := Some g\<rparr>)"

text \<open>The timer fires: the browser calls its function if it was not cleared before.\<close>

definition flush_timer_fires :: "ChatEnv \<Rightarrow> bool \<Rightarrow> Chat \<Rightarrow> Chat" where
  "flush_timer_fires env now s =
     (case streamFlushTimer s of None \<Rightarrow> s | Some g \<Rightarrow> flushStreamUpdates env now g s)"

definition unmount :: "Chat \<Rightarrow> Chat" where
  "unmount s = s\<lparr>requestGeneration := requestGeneration s + 1, streamFlushTimer := None,
     aborted := (case abortController s of None \<Rightarrow> aborted s | Some a \<Rightarrow> a # aborted s), abortController := None\<rparr>"

definition ends_with :: "jstr \<Rightarrow> jstr \<Rightarrow> bool" where
  "ends_with s t \<longleftrightarrow> suffix t s"

definition getDisplayError :: "ChatEnv \<Rightarrow> jstr \<Rightarrow> jstr" where
  "getDisplayError env e =
     (if e \<in> set KNOWN_ERROR_MESSAGES then tr env e
      else if ends_with e (js '': '' @ CONNECTION_CLOSED)
      then take (length e - length CONNECTION_CLOSED) e @ tr env CONNECTION_CLOSED
      else e)"

definition handleStreamUpdate :: "nat \<Rightarrow> StreamChunkType \<Rightarrow> jstr \<Rightarrow> Chat \<Rightarrow> Chat" where
  "handleStreamUpdate g type chunk s =
     (if g \<noteq> requestGeneration s then s
      else if pending_generation (pendingStreamChunks s) \<noteq> g then s
      else let p = pendingStreamChunks s;
               p' = (case type of
                 ChunkContent \<Rightarrow> p\<lparr>pending_content := mergePendingStreamChunk (pending_content p) chunk\<rparr>
               | ChunkReasoning \<Rightarrow> p\<lparr>pending_reasoning := mergePendingStreamChunk (pending_reasoning p) chunk\<rparr>)
        in scheduleStreamFlush g (s\<lparr>pendingStreamChunks := p'\<rparr>))"

definition handleStreamComplete :: "ChatEnv \<Rightarrow> bool \<Rightarrow> bool \<Rightarrow> nat \<Rightarrow> Chat \<Rightarrow> Chat" where
  "handleStreamComplete env now now' g s =
     (if g \<noteq> requestGeneration s then s
      else onMessageUpdate env now' (CompleteUpdate g)
             ((flushStreamUpdates env now g s)\<lparr>isRequesting := False\<rparr>))"

definition handleStreamError ::
  "ChatEnv \<Rightarrow> bool \<Rightarrow> bool \<Rightarrow> nat \<Rightarrow> jstr \<Rightarrow> jstr option \<Rightarrow> Chat \<Rightarrow> Chat" where
  "handleStreamError env now now' g e code s =
     (if g \<noteq> requestGeneration s then s
      else let displayError = getDisplayError env e;
               s = (flushStreamUpdates env now g s)\<lparr>isRequesting := False\<rparr>;
               s = s\<lparr>effects := effects s @ [Toast displayError]\<rparr>
        in onMessageUpdate env now' (ErrorUpdate g displayError code (tr env API_REQUEST_ERROR)) s)"

section \<open>Requests\<close>

definition abort_current :: "Chat \<Rightarrow> Chat" where
  "abort_current s = s\<lparr>aborted := (case abortController s of None \<Rightarrow> aborted s | Some a \<Rightarrow> a # aborted s)\<rparr>"

definition sendStreamingChat :: "ChatEnv \<Rightarrow> Message list \<Rightarrow> Chat \<Rightarrow> Chat" where
  "sendStreamingChat env ms s =
     (let g = requestGeneration s + 1;
          s = (abort_current (s\<lparr>requestGeneration := g\<rparr>))\<lparr>abortController := None\<rparr>;
          s = (discardPendingStreamUpdates g s)\<lparr>isRequesting := True\<rparr>;
          payload = buildChatCompletionPayload (lower env) ms (config env) (parameterEnabled env)
      in s\<lparr>effects := effects s @ [StreamRequest g payload]\<rparr>)"

text \<open>\<open>sendNonStreamingChat\<close> up to its \<open>await\<close>.  The abort controller of a request has its generation as
  number.\<close>

definition sendNonStreamingChat :: "ChatEnv \<Rightarrow> Message list \<Rightarrow> Chat \<Rightarrow> Chat" where
  "sendNonStreamingChat env ms s =
     (let payload = buildChatCompletionPayload (lower env) ms (config env) (parameterEnabled env);
          g = requestGeneration s + 1;
          s = s\<lparr>requestGeneration := g, effects := effects s @ [StopStream]\<rparr>;
          s = abort_current (discardPendingStreamUpdates g s)
      in s\<lparr>abortController := Some g, isRequesting := True, effects := effects s @ [PlainRequest g payload]\<rparr>)"

text \<open>What the awaited request gives: a response, with the image text \<open>getImageResponseContent\<close> finds in it
  and its choices, or an error.\<close>

datatype PlainResult = PlainResponse "jstr option" "ChatCompletionChoice list option" | PlainFailure RequestErrorLike

definition plain_finally :: "nat \<Rightarrow> Chat \<Rightarrow> Chat" where
  "plain_finally g s = (if requestGeneration s = g then s\<lparr>abortController := None, isRequesting := False\<rparr> else s)"

definition plain_settled :: "ChatEnv \<Rightarrow> bool \<Rightarrow> bool \<Rightarrow> nat \<Rightarrow> PlainResult \<Rightarrow> Chat \<Rightarrow> Chat" where
  "plain_settled env now now' g result s =
     plain_finally g
       (if g \<in> set (aborted s) \<or> requestGeneration s \<noteq> g then s
        else case result of
          PlainFailure e \<Rightarrow>
            (let d = parseRequestErrorDetails e in handleStreamError env now now' g (ed_message d) (ed_code d) s)
        | PlainResponse imageContent choices \<Rightarrow>
            if str_truthy imageContent then onMessageUpdate env now' (ImageUpdate g (the imageContent)) s
            else if \<not> hasChatCompletionChoice choices then handleStreamError env now now' g API_REQUEST_ERROR None s
            else onMessageUpdate env now' (ResponseUpdate g choices) s)"

definition sendChat :: "ChatEnv \<Rightarrow> Message list \<Rightarrow> Chat \<Rightarrow> Chat" where
  "sendChat env ms s =
     (if cfg_stream (config env) \<and> \<not> isImageGenerationModel (lower env) (cfg_model (config env))
      then sendStreamingChat env ms s else sendNonStreamingChat env ms s)"

definition stopGeneration :: "ChatEnv \<Rightarrow> bool \<Rightarrow> bool \<Rightarrow> Chat \<Rightarrow> Chat" where
  "stopGeneration env now now' s =
     (let stoppedGeneration = requestGeneration s;
          s = flushStreamUpdates env now stoppedGeneration s;
          idleGeneration = stoppedGeneration + 1;
          s = discardPendingStreamUpdates idleGeneration (s\<lparr>requestGeneration := idleGeneration\<rparr>);
          s = (abort_current (s\<lparr>effects := effects s @ [StopStream]\<rparr>))\<lparr>abortController := None, isRequesting := False\<rparr>
      in onMessageUpdate env now' (StopUpdate idleGeneration) s)"

section \<open>The conversation\<close>

text \<open>\<open>hooks/use-playground-conversation.ts\<close>: the handlers read the messages last rendered.\<close>

definition handleSendMessage ::
  "ChatEnv \<Rightarrow> bool \<Rightarrow> jstr \<Rightarrow> jstr \<Rightarrow> jstr \<Rightarrow> jstr \<Rightarrow> rat \<Rightarrow> jstr \<Rightarrow> Chat \<Rightarrow> Chat" where
  "handleSendMessage env now id1 id2 id3 id4 submittedAt text s =
     (let nextMessages = appendUserMessagePair id1 id2 id3 id4 submittedAt (messages s) text
      in sendChat env nextMessages (onMessageUpdate env now (SetMessages nextMessages) s))"

definition handleRegenerateMessage :: "ChatEnv \<Rightarrow> bool \<Rightarrow> jstr \<Rightarrow> jstr \<Rightarrow> rat \<Rightarrow> Message \<Rightarrow> Chat \<Rightarrow> Chat" where
  "handleRegenerateMessage env now id1 id2 submittedAt message s =
     (case createRegeneratedMessages id1 id2 submittedAt (messages s) (key message) of
        None \<Rightarrow> s
      | Some nextMessages \<Rightarrow> sendChat env nextMessages (onMessageUpdate env now (SetMessages nextMessages) s))"

text \<open>\<open>applyEdit\<close>, with the key of the message being edited; the result has the new one.\<close>

definition applyEdit ::
  "ChatEnv \<Rightarrow> bool \<Rightarrow> jstr \<Rightarrow> jstr \<Rightarrow> rat \<Rightarrow> jstr option \<Rightarrow> jstr \<Rightarrow> bool \<Rightarrow> Chat \<Rightarrow> Chat \<times> jstr option" where
  "applyEdit env now id1 id2 submittedAt editingMessageKey newContent shouldSubmit s =
     (if \<not> str_truthy editingMessageKey then (s, editingMessageKey)
      else case applyMessageEdit id1 id2 submittedAt (messages s) (the editingMessageKey) newContent shouldSubmit of
        None \<Rightarrow> (s, editingMessageKey)
      | Some r \<Rightarrow>
          let s = onMessageUpdate env now (SetMessages (edit_messages r)) s
          in (if shouldSend r then sendChat env (edit_messages r) s else s, None))"

definition handleDeleteMessage :: "ChatEnv \<Rightarrow> bool \<Rightarrow> Message \<Rightarrow> Chat \<Rightarrow> Chat" where
  "handleDeleteMessage env now message s = onMessageUpdate env now (RemoveMessage (key message)) s"

text \<open>\<open>hooks/use-message-action-guard.ts\<close>: an action is refused with a warning while a request runs.\<close>

definition guardAction :: "ChatEnv \<Rightarrow> bool \<Rightarrow> (Chat \<Rightarrow> Chat) \<Rightarrow> Chat \<Rightarrow> Chat" where
  "guardAction env isGenerating action s =
     (if isGenerating
      then s\<lparr>effects := effects s @ [Toast (tr env (js ''Please wait for the current generation to complete''))]\<rparr>
      else action s)"

section \<open>Superseded requests\<close>

fun update_generation :: "MessageUpdate \<Rightarrow> nat option" where
  "update_generation (FlushUpdate g p) = Some g"
| "update_generation (CompleteUpdate g) = Some g"
| "update_generation (ErrorUpdate g e c ti) = Some g"
| "update_generation (ImageUpdate g i) = Some g"
| "update_generation (ResponseUpdate g cs) = Some g"
| "update_generation (StopUpdate g) = Some g"
| "update_generation _ = None"

lemma stale_update: "update_generation u = Some g \<Longrightarrow> g \<noteq> current \<Longrightarrow> run_update ck current u prev = prev"
  by (cases u) auto

lemma stale_updates:
  "list_all (\<lambda>u. \<exists>g. update_generation u = Some g \<and> g \<noteq> current) us \<Longrightarrow>
     fold (run_update ck current) us ms = ms"
  by (induction us arbitrary: ms) (auto simp: stale_update)

lemma stale_callbacks:
  assumes "g \<noteq> requestGeneration s"
  shows "handleStreamUpdate g ty chunk s = s" "handleStreamComplete env now now' g s = s"
    "handleStreamError env now now' g e code s = s" "flushStreamUpdates env now g s = s"
    "plain_settled env now now' g result s = s"
  using assms
  by (simp_all add: handleStreamUpdate_def handleStreamComplete_def handleStreamError_def flushStreamUpdates_def
      plain_settled_def plain_finally_def)

text \<open>What can happen while a generation is the current one: callbacks of any request, also of an old one
  that reports late, the flush timer, and a render.\<close>

datatype ChatEvent =
    UpdateEvent nat StreamChunkType jstr
  | CompleteEvent nat bool bool
  | FailEvent nat bool bool jstr "jstr option"
  | SettleEvent nat bool bool PlainResult
  | TimerEvent bool
  | RenderEvent

fun event_generation :: "ChatEvent \<Rightarrow> nat option" where
  "event_generation (UpdateEvent g ty c) = Some g"
| "event_generation (CompleteEvent g a b) = Some g"
| "event_generation (FailEvent g a b e c) = Some g"
| "event_generation (SettleEvent g a b r) = Some g"
| "event_generation _ = None"

fun chat_event :: "ChatEnv \<Rightarrow> ChatEvent \<Rightarrow> Chat \<Rightarrow> Chat" where
  "chat_event env (UpdateEvent g ty c) s = handleStreamUpdate g ty c s"
| "chat_event env (CompleteEvent g a b) s = handleStreamComplete env a b g s"
| "chat_event env (FailEvent g a b e c) s = handleStreamError env a b g e c s"
| "chat_event env (SettleEvent g a b r) s = plain_settled env a b g r s"
| "chat_event env (TimerEvent a) s = flush_timer_fires env a s"
| "chat_event env RenderEvent s = render env s"

lemma chat_event_stale:
  "event_generation e = Some g \<Longrightarrow> g \<noteq> requestGeneration s \<Longrightarrow> chat_event env e s = s"
  by (cases e) (auto simp: stale_callbacks)

lemma onMessageUpdate_generation [simp]: "requestGeneration (onMessageUpdate env now u s) = requestGeneration s"
  by (simp add: onMessageUpdate_def)

lemma flush_generation [simp]: "requestGeneration (flushStreamUpdates env now g s) = requestGeneration s"
  by (simp add: flushStreamUpdates_def Let_def)

lemma error_generation [simp]: "requestGeneration (handleStreamError env now now' g e c s) = requestGeneration s"
  by (simp add: handleStreamError_def Let_def)

lemma chat_event_generation: "requestGeneration (chat_event env e s) = requestGeneration s"
  by (cases e)
    (auto simp: handleStreamUpdate_def scheduleStreamFlush_def handleStreamComplete_def plain_settled_def plain_finally_def
      flush_timer_fires_def render_def Let_def split: option.splits PlainResult.splits StreamChunkType.splits)

text \<open>C17. Nothing a superseded request still does reaches the conversation: a course of events that mixes its
  chunks, its end, its errors and its response into those of the current request ends in the same
  state as the course without them, and an update it has already handed to React changes nothing
  when it runs.\<close>

theorem superseded_request_inert:
  "fold (chat_event env) es s =
     fold (chat_event env) (filter (\<lambda>e. event_generation e \<in> {None, Some (requestGeneration s)}) es) s
   \<and> (update_generation u = Some g \<longrightarrow> g \<noteq> requestGeneration s \<longrightarrow>
        run_update (clock env) (requestGeneration s) u ms = ms)"
proof -
  have "fold (chat_event env) es s =
     fold (chat_event env) (filter (\<lambda>e. event_generation e \<in> {None, Some (requestGeneration s)}) es) s"
  proof (induction es arbitrary: s)
    case (Cons e es)
    from Cons[of "chat_event env e s"] chat_event_generation[of env e s] chat_event_stale[of e _ s env]
    show ?case by (cases "event_generation e") auto
  qed simp
  with stale_update show ?thesis by blast
qed

theorem superseded_request_inert_witness:
  "let s = \<lparr>messages = [], waiting = [], requestGeneration = 2, pendingStreamChunks = no_chunks 2,
            streamFlushTimer = None, isRequesting = True, abortController = None, aborted = [], effects = []\<rparr>;
       env = \<lparr>clock = (\<lambda>_. 1), tr = id, lower = id, config = undefined, parameterEnabled = undefined\<rparr>
   in fold (chat_event env) [UpdateEvent 1 ChunkContent (js ''late''), CompleteEvent 1 True True] s = s
    \<and> run_update (clock env) (requestGeneration s) (CompleteUpdate 1) (messages s) = messages s"
proof -
  let ?s = "\<lparr>messages = [], waiting = [], requestGeneration = 2, pendingStreamChunks = no_chunks 2,
            streamFlushTimer = None, isRequesting = True, abortController = None, aborted = [], effects = []\<rparr>"
  let ?env = "\<lparr>clock = (\<lambda>_. 1), tr = id, lower = id, config = undefined, parameterEnabled = undefined\<rparr>"
  have "(1::nat) \<noteq> requestGeneration ?s" "update_generation (CompleteUpdate 1) = Some 1" by simp_all
  with superseded_request_inert[of ?env "[UpdateEvent 1 ChunkContent (js ''late''), CompleteEvent 1 True True]" ?s "CompleteUpdate 1" 1 "messages ?s"]
  show ?thesis unfolding Let_def by simp
qed

section \<open>Stopping\<close>

lemma update_last_assistant:
  "updateLastAssistantMessage (ms @ [m]) f = ms @ [if msg_from m = RoleAssistant then f m else m]"
  by (simp add: updateLastAssistantMessage_def)

lemma streaming_chunk_fields [simp]:
  "msg_from (applyStreamingChunk m ty c t1 t2) = msg_from m"
  "key (applyStreamingChunk m ty c t1 t2) = key m"
  by (auto simp: applyStreamingChunk_def processStreamingContent_def Let_def split: StreamChunkType.splits)

lemma streaming_chunk_pending:
  "isAssistantMessagePending m \<Longrightarrow> isAssistantMessagePending (applyStreamingChunk m ty c t1 t2)"
  by (auto simp: applyStreamingChunk_def isAssistantMessagePending_def Let_def split: StreamChunkType.splits)

lemma flush_message_fields [simp]:
  "msg_from (flush_message ck p m) = msg_from m" "key (flush_message ck p m) = key m"
  by (simp_all add: flush_message_def Let_def)

lemma flush_message_pending:
  "isAssistantMessagePending m \<Longrightarrow> isAssistantMessagePending (flush_message ck p m)"
  by (simp add: flush_message_def Let_def streaming_chunk_pending)

text \<open>Stopping an answer hands the collected chunks to the conversation and then moves on to a new
  generation.  The chunks arrive only when React runs the first update at once; when it runs both
  at the next render, the first finds the new generation and the chunks are lost.\<close>

lemma stop_and_collected_chunks:
  assumes "messages s = ms @ [m]" "msg_from m = RoleAssistant" "isAssistantMessagePending m" "waiting s = []"
    and "pending_generation (pendingStreamChunks s) = requestGeneration s"
    and "pending_content (pendingStreamChunks s) \<noteq> []"
  shows "messages (render env (stopGeneration env now False s)) =
     ms @ [complete_message (clock env) (if now then flush_message (clock env) (pendingStreamChunks s) m else m)]"
  using assms
  by (simp add: stopGeneration_def flushStreamUpdates_def onMessageUpdate_def render_def abort_current_def
      discardPendingStreamUpdates_def Let_def update_last_assistant flush_message_pending)

section \<open>A request from start to end\<close>

datatype RunEvent = Chunk StreamChunkType jstr | Timer bool | Render

fun run_event :: "ChatEnv \<Rightarrow> nat \<Rightarrow> RunEvent \<Rightarrow> Chat \<Rightarrow> Chat" where
  "run_event env g (Chunk ty c) s = handleStreamUpdate g ty c s"
| "run_event env g (Timer now) s = flush_timer_fires env now s"
| "run_event env g Render s = render env s"

definition answering :: "nat \<Rightarrow> Message list \<Rightarrow> jstr \<Rightarrow> Message list \<Rightarrow> bool" where
  "answering g ms k all \<longleftrightarrow>
     (\<exists>m. all = ms @ [m] \<and> msg_from m = RoleAssistant \<and> isAssistantMessagePending m \<and> key m = k)"

definition run_inv :: "nat \<Rightarrow> Message list \<Rightarrow> jstr \<Rightarrow> Chat \<Rightarrow> bool" where
  "run_inv g ms k s \<longleftrightarrow> requestGeneration s = g \<and> pending_generation (pendingStreamChunks s) = g
     \<and> answering g ms k (messages s) \<and> (\<forall>u \<in> set (waiting s). \<exists>p. u = FlushUpdate g p)"

lemma answering_flush: "answering g ms k all \<Longrightarrow> answering g ms k (run_update ck g (FlushUpdate g p) all)"
  by (auto simp: answering_def update_last_assistant flush_message_pending)

lemma answering_flushes:
  "\<forall>u \<in> set us. \<exists>p. u = FlushUpdate g p \<Longrightarrow> answering g ms k all \<Longrightarrow> answering g ms k (fold (run_update ck g) us all)"
proof (induction us arbitrary: all)
  case (Cons u us)
  then show ?case by (metis answering_flush fold_simps(2) list.set_intros)
qed simp

lemma run_inv_enqueue:
  "run_inv g ms k s \<Longrightarrow> run_inv g ms k (onMessageUpdate env now (FlushUpdate g p) s)"
  by (auto simp: run_inv_def onMessageUpdate_def simp del: run_update.simps intro: answering_flush)

lemma run_inv_flush:
  assumes "run_inv g ms k s"
  shows "run_inv g ms k (flushStreamUpdates env now g s)"
proof -
  have "run_inv g ms k (s\<lparr>streamFlushTimer := None\<rparr>)"
    "run_inv g ms k (s\<lparr>streamFlushTimer := None, pendingStreamChunks := no_chunks g\<rparr>)"
    using assms by (simp_all add: run_inv_def no_chunks_def)
  with assms run_inv_enqueue show ?thesis
    unfolding flushStreamUpdates_def Let_def by (auto simp: run_inv_def[of _ _ _ s])
qed

lemma run_inv_event:
  assumes "run_inv g ms k s"
  shows "run_inv g ms k (run_event env g e s)"
proof (cases e)
  case (Chunk ty c)
  then show ?thesis using assms
    by (auto simp: run_inv_def handleStreamUpdate_def scheduleStreamFlush_def Let_def split: StreamChunkType.splits)
next
  case (Timer now)
  then show ?thesis
  proof (cases "streamFlushTimer s")
    case (Some h)
    show ?thesis
    proof (cases "h = g")
      case True
      with Timer Some show ?thesis using run_inv_flush[OF assms] by (simp add: flush_timer_fires_def)
    next
      case False
      with Timer Some assms show ?thesis by (simp add: flush_timer_fires_def flushStreamUpdates_def run_inv_def)
    qed
  qed (use assms Timer in \<open>simp add: flush_timer_fires_def\<close>)
next
  case Render
  then show ?thesis using assms by (auto simp: run_inv_def render_def intro: answering_flushes)
qed

lemma run_inv_events: "run_inv g ms k s \<Longrightarrow> run_inv g ms k (fold (run_event env g) es s)"
  by (induction es arbitrary: s) (auto intro: run_inv_event)

lemma complete_message_fields [simp]:
  "status (complete_message ck m) = Some StComplete" "key (complete_message ck m) = key m"
  "msg_from (complete_message ck m) = msg_from m"
  by (auto simp: complete_message_def completeAssistantMessage_def finalizeMessage_def Let_def)

section \<open>The text of the answer\<close>

text \<open>The chunks arrive in windows between two flushes.  The chunks of a window are put together first, then the window
  is put to the text shown so far; the bounds of the windows depend on the timer.\<close>

definition assembled :: "jstr list \<Rightarrow> jstr \<Rightarrow> bool" where
  "assembled cs t \<longleftrightarrow> (\<exists>wss. concat wss = cs \<and> t = foldl absorb [] (map (foldl absorb []) wss))"

text \<open>Chunks of which no stretch starts with the text of the stretch before it.\<close>

definition separate :: "jstr list \<Rightarrow> bool" where
  "separate cs \<longleftrightarrow> list_all (\<lambda>i. list_all (\<lambda>j. list_all (\<lambda>k.
     let us = concat (take j (drop i cs)); vs = concat (take k (drop (i + j) cs)) in us = [] \<or> \<not> prefix us vs)
     [0..<Suc (length cs)]) [0..<Suc (length cs)]) [0..<Suc (length cs)]"

lemma separateD:
  assumes "separate (xs @ us @ vs @ ys)" "concat us \<noteq> []"
  shows "\<not> prefix (concat us) (concat vs)"
proof -
  let ?n = "{0..<Suc (length (xs @ us @ vs @ ys))}"
  have "length xs \<in> ?n" "length us \<in> ?n" "length vs \<in> ?n" by simp_all
  with assms(1) have "let us' = concat (take (length us) (drop (length xs) (xs @ us @ vs @ ys)));
      vs' = concat (take (length vs) (drop (length xs + length us) (xs @ us @ vs @ ys))) in us' = [] \<or> \<not> prefix us' vs'"
    unfolding separate_def list_all_iff set_upt by blast
  with assms(2) show ?thesis by (auto simp: Let_def)
qed

lemma absorb_Nil [simp]: "absorb acc [] = acc" "absorb [] c = c"
  by (simp_all add: absorb_def)

lemma windows_snapshots:
  "sorted_wrt prefix (a # concat wss) \<Longrightarrow> list_all (\<lambda>c. c \<noteq> []) (concat wss) \<Longrightarrow>
     foldl absorb a (map (foldl absorb []) wss) = last (a # concat wss)"
proof (induction wss arbitrary: a)
  case (Cons ws wss)
  show ?case
  proof (cases ws)
    case Nil
    then show ?thesis using Cons by simp
  next
    case (Cons c cs)
    then have "foldl absorb [] ws = last ws"
      using absorb_snapshots[of c cs] Cons.prems by (simp add: sorted_wrt_append)
    moreover have "absorb a (last ws) = last ws"
      using Cons.prems Cons by (auto simp: absorb_def sorted_wrt_append)
    moreover have "sorted_wrt prefix (last ws # concat wss)"
      using Cons.prems Cons by (auto simp: sorted_wrt_append)
    ultimately show ?thesis using Cons.IH[of "last ws"] Cons.prems(2) Cons by simp
  qed
qed simp

lemma assembled_snapshots: "assembled cs t \<Longrightarrow> snapshots cs \<Longrightarrow> t = last cs"
  using windows_snapshots[of "[]"] by (auto simp: assembled_def snapshots_def)

lemma assembled_separate:
  assumes "assembled cs t" "separate cs"
  shows "t = concat cs"
proof -
  obtain wss where cs: "cs = concat wss" and t: "t = foldl absorb [] (map (foldl absorb []) wss)"
    using assms(1) by (auto simp: assembled_def)
  have sep: "concat us = [] \<or> \<not> prefix (concat us) (concat vs)" if "concat wss = xs @ us @ vs @ ys" for xs us vs ys
    using separateD assms(2) cs that by metis
  have flat: "concat (map concat xss) = concat (concat xss)" for xss :: "jstr list list" by (induction xss) simp_all
  have window: "foldl absorb [] ws = concat ws" if ws: "ws \<in> set wss" for ws
  proof -
    obtain as bs where "wss = as @ ws # bs" using split_list[OF ws] by blast
    then have "concat wss = concat as @ take i ws @ [ws ! i] @ (drop (Suc i) ws @ concat bs)" if "i < length ws" for i
      using that by (simp add: id_take_nth_drop[symmetric])
    from sep[OF this] show ?thesis using absorb_deltas[of ws "[]"] by simp
  qed
  have "foldl absorb [] (map concat wss) = concat (map concat wss)"
  proof (rule absorb_deltas[where acc = "[]", unfolded append_Nil])
    fix i assume "i < length (map concat wss)"
    then have i: "i < length wss" by simp
    then have "concat wss = [] @ concat (take i wss) @ (wss ! i) @ concat (drop (Suc i) wss)"
      by (metis append_Nil concat.simps(2) concat_append id_take_nth_drop)
    from sep[OF this] i show "concat (take i (map concat wss)) = [] \<or> \<not> prefix (concat (take i (map concat wss))) (map concat wss ! i)"
      by (simp add: take_map flat)
  qed
  then show ?thesis using t window cs by (simp add: flat cong: map_cong)
qed

fun chunks_of :: "StreamChunkType \<Rightarrow> RunEvent list \<Rightarrow> jstr list" where
  "chunks_of ty [] = []"
| "chunks_of ty (Chunk ty' c # es) = (if ty' = ty then c # chunks_of ty es else chunks_of ty es)"
| "chunks_of ty (e # es) = chunks_of ty es"

text \<open>The text of either kind that a message shows and that a set of collected chunks holds.  While a message has an opening
  tag in its content, its reasoning is what the tags hold.\<close>

fun message_text :: "StreamChunkType \<Rightarrow> Message \<Rightarrow> jstr" where
  "message_text ChunkContent m = getMessageContent m"
| "message_text ChunkReasoning m = (case reasoning m of None \<Rightarrow> [] | Some r \<Rightarrow> r_content r)"

fun pending_text :: "StreamChunkType \<Rightarrow> PendingStreamChunks \<Rightarrow> jstr" where
  "pending_text ChunkContent p = pending_content p"
| "pending_text ChunkReasoning p = pending_reasoning p"

fun untagged :: "StreamChunkType \<Rightarrow> Message \<Rightarrow> bool" where
  "untagged ChunkContent m = True"
| "untagged ChunkReasoning m = (\<not> js_includes (getMessageContent m) OPEN_TAG)"

lemma merge_absorb: "mergePendingStreamChunk = absorb"
  by (auto simp: fun_eq_iff mergePendingStreamChunk_def absorb_def)

lemma absorb_extends: "prefix acc (absorb acc c)"
  by (simp add: absorb_def)

lemma includes_prefix: "prefix s t \<Longrightarrow> js_includes s pat \<Longrightarrow> js_includes t pat"
  unfolding js_includes_iff_sublist by (metis prefix_imp_sublist sublist_order.order.trans)

lemma reasoning_chunk:
  assumes "status m \<noteq> Some StError"
  shows "getMessageContent (applyStreamingChunk m ChunkReasoning c t1 t2) = getMessageContent m"
    "message_text ChunkReasoning (applyStreamingChunk m ChunkReasoning c t1 t2) = absorb (message_text ChunkReasoning m) c"
    "status (applyStreamingChunk m ChunkReasoning c t1 t2) \<noteq> Some StError"
  using assms by (auto simp: applyStreamingChunk_def Let_def append_appendable startReasoningTiming_def
      intro!: getMessageContent_cong split: option.splits)

lemma completeReasoningTiming_text [simp]:
  "map_option r_content (reasoning (completeReasoningTiming m t)) = map_option r_content (reasoning m)"
  by (auto simp: completeReasoningTiming_def Let_def split: option.splits)

lemma shown_reasoning: "message_text ChunkReasoning m = (case map_option r_content (reasoning m) of None \<Rightarrow> [] | Some t \<Rightarrow> t)"
  by (simp split: option.split)

lemma content_chunk_reasoning:
  assumes "status m \<noteq> Some StError" "\<not> js_includes (absorb (getMessageContent m) c) OPEN_TAG"
  shows "message_text ChunkReasoning (applyStreamingChunk m ChunkContent c t1 t2) = message_text ChunkReasoning m"
proof -
  have "\<not> js_includes (getMessageContent m) OPEN_TAG" using assms(2) includes_prefix[OF absorb_extends] by blast
  then have "map_option r_content (reasoning (processStreamingContent m (Some (getAppendableChunk (getMessageContent m) c)) t1))
      = map_option r_content (reasoning m)"
    using assms(2) by (simp add: processStreamingContent_def Let_def str_truthy_def append_appendable parseThinkTags_def)
  then have "map_option r_content (reasoning (applyStreamingChunk m ChunkContent c t1 t2)) = map_option r_content (reasoning m)"
    using assms(1) by (simp add: applyStreamingChunk_def Let_def)
  then show ?thesis unfolding shown_reasoning by (simp only:)
qed

lemma flush_text:
  assumes "isAssistantMessagePending m" "untagged ty (flush_message ck p m)"
  shows "untagged ty m" "message_text ty (flush_message ck p m) = absorb (message_text ty m) (pending_text ty p)"
proof -
  have err: "status m \<noteq> Some StError" using assms(1) by (auto simp: isAssistantMessagePending_def)
  define m1 where "m1 = (if pending_reasoning p \<noteq> [] then applyStreamingChunk m ChunkReasoning (pending_reasoning p) (ck 0) (ck 1) else m)"
  have m1: "status m1 \<noteq> Some StError" "getMessageContent m1 = getMessageContent m"
    "message_text ChunkReasoning m1 = absorb (message_text ChunkReasoning m) (pending_reasoning p)"
    using reasoning_chunk[OF err] err by (simp_all add: m1_def del: message_text.simps)
  have f: "flush_message ck p m = (if pending_content p \<noteq> [] then applyStreamingChunk m1 ChunkContent (pending_content p) (ck 2) (ck 3) else m1)"
    by (simp add: flush_message_def m1_def Let_def)
  have c: "getMessageContent (flush_message ck p m) = absorb (getMessageContent m) (pending_content p)"
    using content_chunk_content(1)[OF m1(1)] m1(2) by (simp add: f)
  show "untagged ty m"
    using assms(2) includes_prefix[OF absorb_extends] by (cases ty) (auto simp: c)
  show "message_text ty (flush_message ck p m) = absorb (message_text ty m) (pending_text ty p)"
  proof (cases ty)
    case ChunkReasoning
    then have "\<not> js_includes (absorb (getMessageContent m1) (pending_content p)) OPEN_TAG" using assms(2) by (simp add: c m1(2))
    from content_chunk_reasoning[OF m1(1) this] ChunkReasoning m1(3) show ?thesis by (simp add: f del: message_text.simps)
  qed (simp add: c)
qed

text \<open>How far the chunks received have come: those of the windows \<open>shown\<close> are in the message, those of the windows \<open>queued\<close>
  in updates that React has still to run, and those of the window \<open>open_w\<close> are being collected.\<close>

definition window_texts :: "jstr list list \<Rightarrow> jstr list" where
  "window_texts wss = map (foldl absorb []) wss"

fun update_text :: "StreamChunkType \<Rightarrow> MessageUpdate \<Rightarrow> jstr" where
  "update_text ty (FlushUpdate g p) = pending_text ty p"
| "update_text ty u = []"

definition text_inv :: "StreamChunkType \<Rightarrow> jstr list \<Rightarrow> Chat \<Rightarrow> bool" where
  "text_inv ty cs s \<longleftrightarrow> (\<exists>shown queued open_w. cs = concat shown @ concat queued @ open_w
     \<and> (untagged ty (last (messages s)) \<longrightarrow> message_text ty (last (messages s)) = foldl absorb [] (window_texts shown))
     \<and> map (update_text ty) (waiting s) = window_texts queued
     \<and> pending_text ty (pendingStreamChunks s) = foldl absorb [] open_w)"

lemma answering_last:
  assumes "answering g ms k all"
  obtains m where "all = ms @ [m]" "msg_from m = RoleAssistant" "isAssistantMessagePending m" "last all = m"
  using assms by (auto simp: answering_def)

lemma flushes_text:
  assumes "\<forall>u \<in> set us. \<exists>p. u = FlushUpdate g p" "answering g ms k all"
    and "untagged ty (last (fold (run_update ck g) us all))"
  shows "untagged ty (last all)
    \<and> message_text ty (last (fold (run_update ck g) us all)) = foldl absorb (message_text ty (last all)) (map (update_text ty) us)"
  using assms
proof (induction us arbitrary: all)
  case (Cons u us)
  obtain p where p: "u = FlushUpdate g p" using Cons.prems(1) by auto
  obtain m where m: "all = ms @ [m]" "msg_from m = RoleAssistant" "isAssistantMessagePending m"
    using answering_last[OF Cons.prems(2)] by metis
  have step: "run_update ck g u all = ms @ [flush_message ck p m]" using m by (simp add: p update_last_assistant)
  have "answering g ms k (run_update ck g u all)" unfolding p by (rule answering_flush[OF Cons.prems(2)])
  from Cons.IH[OF _ this] Cons.prems(1,3)
  have ih: "untagged ty (flush_message ck p m)"
    "message_text ty (last (fold (run_update ck g) (u # us) all)) = foldl absorb (message_text ty (flush_message ck p m)) (map (update_text ty) us)"
    by (simp_all add: step)
  from flush_text[OF m(3) ih(1)] ih(2) m(1) p show ?case by simp
qed simp

lemma text_inv_chunk:
  assumes "run_inv g ms k s" "text_inv ty cs s"
  shows "text_inv ty (cs @ chunks_of ty [Chunk ty' c]) (handleStreamUpdate g ty' c s)"
proof -
  obtain shown queued open_w where inv: "cs = concat shown @ concat queued @ open_w"
    "untagged ty (last (messages s)) \<longrightarrow> message_text ty (last (messages s)) = foldl absorb [] (window_texts shown)"
    "map (update_text ty) (waiting s) = window_texts queued" "pending_text ty (pendingStreamChunks s) = foldl absorb [] open_w"
    using assms(2) unfolding text_inv_def by blast
  let ?t = "handleStreamUpdate g ty' c s"
  have t: "messages ?t = messages s" "waiting ?t = waiting s"
    "pending_text ty (pendingStreamChunks ?t) = (if ty' = ty then absorb (pending_text ty (pendingStreamChunks s)) c else pending_text ty (pendingStreamChunks s))"
    using assms(1) by (cases ty; cases ty'; simp add: run_inv_def handleStreamUpdate_def scheduleStreamFlush_def merge_absorb Let_def)+
  show ?thesis unfolding text_inv_def t
    by (rule exI[of _ shown], rule exI[of _ queued], rule exI[of _ "open_w @ chunks_of ty [Chunk ty' c]"]) (use inv in auto)
qed

lemma text_inv_flush:
  assumes "run_inv g ms k s" "text_inv ty cs s"
  shows "text_inv ty cs (flushStreamUpdates env now g s)" "pending_text ty (pendingStreamChunks (flushStreamUpdates env now g s)) = []"
proof -
  obtain shown queued open_w where inv: "cs = concat shown @ concat queued @ open_w"
    "untagged ty (last (messages s)) \<longrightarrow> message_text ty (last (messages s)) = foldl absorb [] (window_texts shown)"
    "map (update_text ty) (waiting s) = window_texts queued" "pending_text ty (pendingStreamChunks s) = foldl absorb [] open_w"
    using assms(2) unfolding text_inv_def by blast
  let ?p = "pendingStreamChunks s"
  have g: "requestGeneration s = g" "pending_generation ?p = g" "answering g ms k (messages s)" using assms(1) by (auto simp: run_inv_def)
  obtain m where m: "messages s = ms @ [m]" "msg_from m = RoleAssistant" "isAssistantMessagePending m" using answering_last[OF g(3)] by metis
  have none: "pending_text ty (no_chunks g) = []" by (cases ty) (simp_all add: no_chunks_def)
  consider (empty) "pending_reasoning ?p = []" "pending_content ?p = []"
    | (now) "pending_reasoning ?p \<noteq> [] \<or> pending_content ?p \<noteq> []" "now" "waiting s = []"
    | (later) "pending_reasoning ?p \<noteq> [] \<or> pending_content ?p \<noteq> []" "\<not> (now \<and> waiting s = [])" by blast
  then have "text_inv ty cs (flushStreamUpdates env now g s) \<and> pending_text ty (pendingStreamChunks (flushStreamUpdates env now g s)) = []"
  proof cases
    case empty
    then have "flushStreamUpdates env now g s = s\<lparr>streamFlushTimer := None\<rparr>" using g by (simp add: flushStreamUpdates_def Let_def)
    moreover have "pending_text ty ?p = []" using empty by (cases ty) simp_all
    ultimately show ?thesis using assms(2) by (simp add: text_inv_def)
  next
    case now
    then have f: "flushStreamUpdates env now g s = s\<lparr>streamFlushTimer := None, pendingStreamChunks := no_chunks g, messages := ms @ [flush_message (clock env) ?p m]\<rparr>"
      using g m by (auto simp: flushStreamUpdates_def onMessageUpdate_def Let_def update_last_assistant)
    have "queued = []" using inv(3) now by (simp add: window_texts_def)
    then show ?thesis unfolding f text_inv_def using inv m now none flush_text[OF m(3), of ty "clock env" ?p]
      by (simp, intro exI[of _ "shown @ [open_w]"] exI[of _ "[]"]) (simp add: window_texts_def)
  next
    case later
    then have f: "flushStreamUpdates env now g s = s\<lparr>streamFlushTimer := None, pendingStreamChunks := no_chunks g, waiting := waiting s @ [FlushUpdate g ?p]\<rparr>"
      using g by (auto simp: flushStreamUpdates_def onMessageUpdate_def Let_def)
    show ?thesis unfolding f text_inv_def using inv none
      by (simp, intro exI[of _ "shown"] exI[of _ "queued @ [open_w]"] exI[of _ "[]"]) (simp add: window_texts_def)
  qed
  then show "text_inv ty cs (flushStreamUpdates env now g s)" "pending_text ty (pendingStreamChunks (flushStreamUpdates env now g s)) = []" by blast+
qed

lemma text_inv_render:
  assumes "run_inv g ms k s" "text_inv ty cs s"
  shows "text_inv ty cs (render env s)"
proof -
  obtain shown queued open_w where inv: "cs = concat shown @ concat queued @ open_w"
    "untagged ty (last (messages s)) \<longrightarrow> message_text ty (last (messages s)) = foldl absorb [] (window_texts shown)"
    "map (update_text ty) (waiting s) = window_texts queued" "pending_text ty (pendingStreamChunks s) = foldl absorb [] open_w"
    using assms(2) unfolding text_inv_def by blast
  have g: "requestGeneration s = g" "answering g ms k (messages s)" "\<forall>u \<in> set (waiting s). \<exists>p. u = FlushUpdate g p"
    using assms(1) by (auto simp: run_inv_def)
  show ?thesis unfolding text_inv_def using inv flushes_text[OF g(3,2), of ty "clock env"]
    by (intro exI[of _ "shown @ queued"] exI[of _ "[]"] exI[of _ open_w]) (auto simp: render_def g(1) window_texts_def)
qed

lemma chunks_of_Cons: "chunks_of ty (e # es) = chunks_of ty [e] @ chunks_of ty es"
  by (cases e) simp_all

lemma text_inv_event:
  assumes "run_inv g ms k s" "text_inv ty cs s"
  shows "text_inv ty (cs @ chunks_of ty [e]) (run_event env g e s)"
proof (cases e)
  case (Timer now)
  have "flushStreamUpdates env now h s = s" if "h \<noteq> g" for h
    using that assms(1) by (simp add: flushStreamUpdates_def run_inv_def)
  then show ?thesis using text_inv_flush(1)[OF assms] assms(2) Timer
    by (cases "streamFlushTimer s"; cases "the (streamFlushTimer s) = g") (simp_all add: flush_timer_fires_def)
qed (use text_inv_chunk[OF assms] text_inv_render[OF assms] in simp_all)

lemma text_inv_events:
  "run_inv g ms k s \<Longrightarrow> text_inv ty cs s \<Longrightarrow> text_inv ty (cs @ chunks_of ty es) (fold (run_event env g) es s)"
proof (induction es arbitrary: s cs)
  case (Cons e es)
  from Cons.IH[OF run_inv_event[OF Cons.prems(1)] text_inv_event[OF Cons.prems]]
  show ?case by (simp add: chunks_of_Cons[of ty e es])
qed simp

text \<open>Once everything collected has been handed over and run, the text shown is assembled from the chunks received.\<close>

lemma text_settled:
  assumes "run_inv g ms k s" "text_inv ty cs s" "pending_text ty (pendingStreamChunks s) = []" "waiting s = []"
    "untagged ty (last (messages s))"
  shows "assembled cs (message_text ty (last (messages s)))"
proof -
  obtain shown queued open_w where "cs = concat shown @ concat queued @ open_w"
    "message_text ty (last (messages s)) = foldl absorb [] (window_texts shown)" "window_texts queued = []" "foldl absorb [] open_w = []"
    using assms(2-5) by (auto simp: text_inv_def)
  then show ?thesis unfolding assembled_def by (intro exI[of _ "shown @ [open_w]"]) (simp add: window_texts_def)
qed

lemma complete_message_texts:
  "getMessageContent (complete_message ck m) =
     (if js_includes (getMessageContent m) OPEN_TAG then visibleContent (parseThinkTags (getMessageContent m)) else getMessageContent m)"
  "\<not> js_includes (getMessageContent m) OPEN_TAG \<Longrightarrow> map_option r_content (reasoning (complete_message ck m))
     = (if message_text ChunkReasoning m = [] then None else Some (message_text ChunkReasoning m))"
proof -
  have timing: "reasoning (completeAssistantTiming n t) = reasoning n" for n t by (simp add: completeAssistantTiming_def Let_def)
  show "getMessageContent (complete_message ck m) =
     (if js_includes (getMessageContent m) OPEN_TAG then visibleContent (parseThinkTags (getMessageContent m)) else getMessageContent m)"
    by (simp add: complete_message_def completeAssistantMessage_def finalizeMessage_def Let_def
        getMessageContent_def[of "completeAssistantTiming _ _"] getCurrentVersion_def[of "completeAssistantTiming _ _"])
  show "map_option r_content (reasoning (complete_message ck m))
     = (if message_text ChunkReasoning m = [] then None else Some (message_text ChunkReasoning m))"
    if "\<not> js_includes (getMessageContent m) OPEN_TAG"
    using that by (cases "reasoning m") (simp_all add: complete_message_def completeAssistantMessage_def finalizeMessage_def Let_def timing str_or_def)
qed

lemma complete_run:
  assumes "run_inv g ms k s"
  obtains m where "messages (render env s) = ms @ [m]" "key m = k"
    "messages (render env (onMessageUpdate env now (CompleteUpdate g) s)) = ms @ [complete_message (clock env) m]"
proof -
  have fin: "\<exists>m. all = ms @ [m] \<and> key m = k \<and> run_update ck g (CompleteUpdate g) all = ms @ [complete_message ck m]"
    if "answering g ms k all" for all ck
    using that by (auto simp: answering_def update_last_assistant isAssistantMessagePending_def isAssistantMessageFinal_def)
  have "answering g ms k (messages (render env s))" using assms by (auto simp: run_inv_def render_def intro: answering_flushes)
  from fin[OF this, of "clock env"] obtain m where m: "messages (render env s) = ms @ [m]" "key m = k"
    "run_update (clock env) g (CompleteUpdate g) (messages (render env s)) = ms @ [complete_message (clock env) m]" by blast
  have "messages (render env (onMessageUpdate env now (CompleteUpdate g) s)) = run_update (clock env) g (CompleteUpdate g) (messages (render env s))"
    using assms by (cases "now \<and> waiting s = []") (auto simp: onMessageUpdate_def render_def run_inv_def simp del: run_update.simps)
  with m that show ?thesis by metis
qed

text \<open>C18. A streamed answer that ends shows what was received: however chunks, flushes and renders interleave, once the
  request completes and React renders, the answer is complete, it is still the message that was created
  for it, no other message has changed, and the request no longer counts as running.  Its text is put together from
  the chunks in the windows of the flushes, less what think tags hold: all of it where the chunks are growing snapshots (then it is the last one),
  or deltas of which no stretch starts with the text of the one before it (then it is their concatenation).  Without a think tag in it
  the reasoning of the message is put together from the reasoning chunks in the same way.\<close>

theorem completed_stream_ends:
  assumes "messages s = ms @ [m]" "msg_from m = RoleAssistant" "isAssistantMessagePending m" "waiting s = []"
    and "requestGeneration s = g" "pendingStreamChunks s = no_chunks g" and "getMessageContent m = []" "reasoning m = None"
    and cs: "cs = chunks_of ChunkContent es" and rs: "rs = chunks_of ChunkReasoning es"
    and s': "s' = render env (handleStreamComplete env now now' g (fold (run_event env g) es s))"
  shows "\<exists>m' t. messages s' = ms @ [m'] \<and> key m' = key m \<and> status m' = Some StComplete \<and> \<not> isRequesting s' \<and> waiting s' = []
     \<and> assembled cs t \<and> (snapshots cs \<longrightarrow> t = last cs) \<and> (separate cs \<longrightarrow> t = concat cs)
     \<and> getMessageContent m' = (if js_includes t OPEN_TAG then visibleContent (parseThinkTags t) else t)
     \<and> (\<not> js_includes t OPEN_TAG \<longrightarrow> (\<exists>r. assembled rs r \<and> (snapshots rs \<longrightarrow> r = last rs) \<and> (separate rs \<longrightarrow> r = concat rs)
          \<and> map_option r_content (reasoning m') = (if r = [] then None else Some r)))"
proof -
  let ?e = "fold (run_event env g) es s"
  let ?t = "(flushStreamUpdates env now g ?e)\<lparr>isRequesting := False\<rparr>"
  have inv: "run_inv g ms (key m) s" using assms by (auto simp: run_inv_def answering_def no_chunks_def)
  have texts: "text_inv ty [] s" for ty
    using assms by (cases ty) (auto simp: text_inv_def window_texts_def no_chunks_def intro!: exI[of _ "[]"])
  have e: "run_inv g ms (key m) ?e" by (rule run_inv_events[OF inv])
  have t: "run_inv g ms (key m) ?t" using run_inv_flush[OF e, of env now] by (simp add: run_inv_def)
  have received: "text_inv ty (chunks_of ty es) ?t" "pending_text ty (pendingStreamChunks ?t) = []" for ty
    using text_inv_flush[OF e text_inv_events[OF inv texts[of ty]]] by (simp_all add: text_inv_def)
  obtain n where n: "messages (render env ?t) = ms @ [n]" "key n = key m"
    "messages (render env (onMessageUpdate env now' (CompleteUpdate g) ?t)) = ms @ [complete_message (clock env) n]"
    using complete_run[OF t] .
  have c: "s' = render env (onMessageUpdate env now' (CompleteUpdate g) ?t)"
    using e by (simp add: s' handleStreamComplete_def run_inv_def)
  have r: "run_inv g ms (key m) (render env ?t)" using run_inv_event[OF t, of env Render] by simp
  have shown: "assembled (chunks_of ty es) (message_text ty n)" if "untagged ty n" for ty
    using text_settled[OF r text_inv_render[OF t received(1)], of ty] received(2)[of ty] n(1) that by (simp add: render_def)
  have rest: "\<not> isRequesting s'" "waiting s' = []" by (simp_all add: c onMessageUpdate_def render_def)
  show ?thesis
  proof (rule exI[of _ "complete_message (clock env) n"], rule exI[of _ "getMessageContent n"], intro conjI impI rest)
    show content: "assembled cs (getMessageContent n)" using shown[of ChunkContent] by (simp add: cs)
    show "getMessageContent n = last cs" if "snapshots cs" by (rule assembled_snapshots[OF content that])
    show "getMessageContent n = concat cs" if "separate cs" by (rule assembled_separate[OF content that])
    assume plain: "\<not> js_includes (getMessageContent n) OPEN_TAG"
    then have "assembled rs (message_text ChunkReasoning n)" using shown[of ChunkReasoning] by (simp add: rs)
    then show "\<exists>r. assembled rs r \<and> (snapshots rs \<longrightarrow> r = last rs) \<and> (separate rs \<longrightarrow> r = concat rs)
        \<and> map_option r_content (reasoning (complete_message (clock env) n)) = (if r = [] then None else Some r)"
      using assembled_snapshots assembled_separate complete_message_texts(2)[OF plain] by blast
  qed (use n c complete_message_texts(1) in simp_all)
qed

theorem completed_stream_ends_witness:
  "\<exists>m'. let m = createLoadingAssistantMessage (js ''a'') (js ''v'') 0;
       env = \<lparr>clock = (\<lambda>_. 1), tr = id, lower = id, config = undefined, parameterEnabled = undefined\<rparr>;
       s = \<lparr>messages = [m], waiting = [], requestGeneration = 1, pendingStreamChunks = no_chunks 1,
            streamFlushTimer = None, isRequesting = True, abortController = None, aborted = [], effects = []\<rparr>;
       s' = render env (handleStreamComplete env False False 1
              (fold (run_event env 1) [Chunk ChunkReasoning (js ''r''), Chunk ChunkContent (js ''h''), Timer True,
                 Chunk ChunkContent (js ''i''), Render] s))
     in messages s' = [m'] \<and> status m' = Some StComplete \<and> getMessageContent m' = js ''hi''
        \<and> map_option r_content (reasoning m') = Some (js ''r'')"
proof -
  let ?m = "createLoadingAssistantMessage (js ''a'') (js ''v'') 0"
  let ?env = "\<lparr>clock = (\<lambda>_. 1), tr = id, lower = id, config = undefined, parameterEnabled = undefined\<rparr>"
  let ?s = "\<lparr>messages = [?m], waiting = [], requestGeneration = 1, pendingStreamChunks = no_chunks 1,
            streamFlushTimer = None, isRequesting = True, abortController = None, aborted = [], effects = []\<rparr>"
  let ?es = "[Chunk ChunkReasoning (js ''r''), Chunk ChunkContent (js ''h''), Timer True, Chunk ChunkContent (js ''i''), Render]"
  have "messages ?s = [] @ [?m]" "msg_from ?m = RoleAssistant" "isAssistantMessagePending ?m" "waiting ?s = []"
    "requestGeneration ?s = 1" "pendingStreamChunks ?s = no_chunks 1" "getMessageContent ?m = []" "reasoning ?m = None"
    "[js ''h'', js ''i''] = chunks_of ChunkContent ?es" "[js ''r''] = chunks_of ChunkReasoning ?es"
    by (simp_all add: createLoadingAssistantMessage_def isAssistantMessagePending_def getMessageContent_def getCurrentVersion_def
        createMessageVersion_def)
  note ends = completed_stream_ends[OF this refl, of ?env False False]
  have sep: "separate [js ''h'', js ''i'']" "separate [js ''r'']" and tag: "\<not> js_includes (js ''hi'') OPEN_TAG" by code_simp+
  have texts: "concat [js ''h'', js ''i''] = js ''hi''" "concat [js ''r''] = js ''r''" "js ''r'' \<noteq> []" by (simp_all flip: js_append)
  show ?thesis unfolding Let_def using ends sep tag unfolding texts by (metis append_Nil texts(3))
qed

end
