(* ===== verification/Keyword_Highlight.thy ===== *)
theory Keyword_Highlight
  imports Range_Merge "HOL-Library.Product_Lexorder"
begin

text \<open>
  Highlighting of matched sensitive words in the security audit
  (\<open>web/src/features/security-audit/matched-keyword-highlight.ts\<close>): the segments of a text, and the
  walk over a parsed Markdown tree that marks them.

  A text is cut into its code points, each a string of one code unit or of a surrogate pair.
  \<open>lower\<close> stands for \<open>String.prototype.toLowerCase\<close> of one such character.
\<close>

section \<open>Characters\<close>

definition is_high :: "code_unit \<Rightarrow> bool" where "is_high c \<longleftrightarrow> 55296 \<le> c \<and> c \<le> 56319"
definition is_low :: "code_unit \<Rightarrow> bool" where "is_low c \<longleftrightarrow> 56320 \<le> c \<and> c \<le> 57343"

text \<open>\<open>[...text]\<close> and \<open>Array.from(text)\<close>.\<close>

fun code_points :: "jstr \<Rightarrow> jstr list" where
  "code_points [] = []"
| "code_points [c] = [[c]]"
| "code_points (c # d # s) =
     (if is_high c \<and> is_low d then [c, d] # code_points s else [c] # code_points (d # s))"

lemma concat_code_points [simp]: "concat (code_points s) = s"
  by (induction s rule: code_points.induct) auto

lemma code_points_eq_Nil [simp]: "code_points s = [] \<longleftrightarrow> s = []"
  by (cases s rule: code_points.cases) auto

definition foldCodePoints :: "(jstr \<Rightarrow> jstr) \<Rightarrow> jstr \<Rightarrow> jstr list" where
  "foldCodePoints lower text = map lower (code_points text)"

definition isASCIISensitiveWordCharacter :: "jstr option \<Rightarrow> bool" where
  "isASCIISensitiveWordCharacter ch =
     (case ch of
        Some [code] \<Rightarrow> (code \<ge> 48 \<and> code \<le> 57) \<or> (code \<ge> 65 \<and> code \<le> 90) \<or> (code \<ge> 97 \<and> code \<le> 122) \<or> code = 95
      | _ \<Rightarrow> False)"

text \<open>\<open>xs[i]\<close>, with \<open>undefined\<close> as \<open>None\<close> out of range.\<close>

definition at_index :: "'a list \<Rightarrow> nat \<Rightarrow> 'a option" where
  "at_index xs i = (if i < length xs then Some (xs ! i) else None)"

definition hasSensitiveKeywordBoundary :: "jstr list \<Rightarrow> jstr list \<Rightarrow> nat \<Rightarrow> bool" where
  "hasSensitiveKeywordBoundary source keyword start =
     (let end = start + length keyword;
          startBoundary = (\<not> isASCIISensitiveWordCharacter (at_index keyword 0) \<or> start = 0
            \<or> \<not> isASCIISensitiveWordCharacter (at_index source (start - 1)));
          endBoundary = (\<not> isASCIISensitiveWordCharacter (at_index keyword (length keyword - 1))
            \<or> end = length source \<or> \<not> isASCIISensitiveWordCharacter (at_index source end))
      in startBoundary \<and> endBoundary)"

section \<open>Keywords\<close>

definition normalizeMatchedKeywords :: "(jstr \<Rightarrow> jstr) \<Rightarrow> jstr list \<Rightarrow> jstr list" where
  "normalizeMatchedKeywords lower keywords =
     dedup_by (\<lambda>keyword. concat (foldCodePoints lower keyword)) (filter (\<lambda>k. k \<noteq> []) (map trim keywords))"

section \<open>Segments\<close>

record TextRange =
  range_start :: nat
  range_end :: nat

record HighlightedTextSegment =
  seg_text :: jstr
  highlighted :: bool

definition matches_at :: "jstr list \<Rightarrow> jstr list \<Rightarrow> nat \<Rightarrow> bool" where
  "matches_at foldedSource foldedKeyword start =
     list_all (\<lambda>offset. foldedSource ! (start + offset) = foldedKeyword ! offset) [0..<length foldedKeyword]"

definition keyword_ranges :: "jstr list \<Rightarrow> jstr list \<Rightarrow> TextRange list" where
  "keyword_ranges foldedSource foldedKeyword =
     (if length foldedKeyword = 0 \<or> length foldedKeyword > length foldedSource then []
      else map (\<lambda>start. \<lparr>range_start = start, range_end = start + length foldedKeyword\<rparr>)
        (filter (\<lambda>start. matches_at foldedSource foldedKeyword start
                       \<and> hasSensitiveKeywordBoundary foldedSource foldedKeyword start)
          [0..<Suc (length foldedSource - length foldedKeyword)]))"

definition merge_text_range :: "TextRange list \<Rightarrow> TextRange \<Rightarrow> TextRange list" where
  "merge_text_range mergedRanges r =
     (if mergedRanges \<noteq> [] \<and> range_start r \<le> range_end (last mergedRanges)
      then butlast mergedRanges
        @ [(last mergedRanges)\<lparr>range_end := max (range_end (last mergedRanges)) (range_end r)\<rparr>]
      else mergedRanges @ [r])"

fun segment_loop :: "jstr list \<Rightarrow> TextRange list \<Rightarrow> nat \<Rightarrow> HighlightedTextSegment list" where
  "segment_loop source [] cursor =
     (if cursor < length source then [\<lparr>seg_text = concat (drop cursor source), highlighted = False\<rparr>] else [])"
| "segment_loop source (r # rs) cursor =
     (if range_start r > cursor
      then [\<lparr>seg_text = concat (drop cursor (take (range_start r) source)), highlighted = False\<rparr>] else [])
     @ \<lparr>seg_text = concat (drop (range_start r) (take (range_end r) source)), highlighted = True\<rparr>
     # segment_loop source rs (range_end r)"

definition buildHighlightedTextSegments ::
  "(jstr \<Rightarrow> jstr) \<Rightarrow> jstr \<Rightarrow> jstr list \<Rightarrow> HighlightedTextSegment list" where
  "buildHighlightedTextSegments lower text keywords =
     (if text = [] then []
      else let source = code_points text; foldedSource = foldCodePoints lower text;
               ranges = concat (map (\<lambda>keyword. keyword_ranges foldedSource (foldCodePoints lower keyword))
                          (normalizeMatchedKeywords lower keywords)) in
        if ranges = [] then [\<lparr>seg_text = text, highlighted = False\<rparr>]
        else let sorted = sort_key (\<lambda>r. (range_start r, - int (range_end r))) ranges;
                 mergedRanges = foldl merge_text_range [] sorted
          in segment_loop source mergedRanges 0)"

section \<open>The tree\<close>

datatype HighlightTreeNode =
  Node (node_type: "jstr option") (node_value: "jstr option") (tagName: "jstr option")
       (properties: "(jstr \<times> bool) list") (children: "HighlightTreeNode list option")

definition segment_node :: "HighlightedTextSegment \<Rightarrow> HighlightTreeNode" where
  "segment_node segment =
     (if highlighted segment
      then Node (Some (js ''element'')) None (Some (js ''mark'')) [(js ''data-audit-keyword-highlight'', True)]
             (Some [Node (Some (js ''text'')) (Some (seg_text segment)) None [] None])
      else Node (Some (js ''text'')) (Some (seg_text segment)) None [] None)"

fun walk :: "(jstr \<Rightarrow> jstr) \<Rightarrow> jstr list \<Rightarrow> HighlightTreeNode \<Rightarrow> HighlightTreeNode" where
  "walk lower normalized (Node ty v tag props None) = Node ty v tag props None"
| "walk lower normalized (Node ty v tag props (Some cs)) =
     Node ty v tag props (Some (concat (map (\<lambda>child.
       if node_type child = Some (js ''text'') \<and> length normalized > 0
       then map segment_node (buildHighlightedTextSegments lower
              (case node_value child of None \<Rightarrow> [] | Some t \<Rightarrow> t) normalized)
       else [walk lower normalized child]) cs)))"

definition createKeywordHighlightPlugin :: "(jstr \<Rightarrow> jstr) \<Rightarrow> jstr list \<Rightarrow> HighlightTreeNode \<Rightarrow> HighlightTreeNode" where
  "createKeywordHighlightPlugin lower keywords tree = walk lower (normalizeMatchedKeywords lower keywords) tree"

section \<open>What is highlighted\<close>

interpretation hl: range_merge range_start range_end "\<lambda>a b. \<lparr>range_start = a, range_end = b\<rparr>" 0 merge_text_range
  by unfold_locales (auto simp: merge_text_range_def)

text \<open>The positions a keyword covers: those of its occurrences, up to case, that do not continue a word.\<close>

definition covers :: "jstr list \<Rightarrow> jstr list \<Rightarrow> nat \<Rightarrow> bool" where
  "covers foldedSource foldedKeyword i \<longleftrightarrow>
     (\<exists>start. start \<le> i \<and> i < start + length foldedKeyword
       \<and> take (length foldedKeyword) (drop start foldedSource) = foldedKeyword
       \<and> hasSensitiveKeywordBoundary foldedSource foldedKeyword start)"

lemma matches_at_take:
  assumes "start + length k \<le> length s"
  shows "matches_at s k start \<longleftrightarrow> take (length k) (drop start s) = k"
proof -
  have "take (length k) (drop start s) = k \<longleftrightarrow> (\<forall>i < length k. s ! (start + i) = k ! i)"
    unfolding list_eq_iff_nth_eq[of _ k] using assms by simp
  then show ?thesis by (auto simp: matches_at_def list_all_iff)
qed

lemma set_keyword_ranges:
  "set (keyword_ranges s k) = (\<lambda>start. \<lparr>range_start = start, range_end = start + length k\<rparr>) `
     {start. 0 < length k \<and> start + length k \<le> length s \<and> take (length k) (drop start s) = k
             \<and> hasSensitiveKeywordBoundary s k start}"
proof (cases "length k = 0 \<or> length k > length s")
  case False
  then have "{start. 0 < length k \<and> start + length k \<le> length s \<and> take (length k) (drop start s) = k
               \<and> hasSensitiveKeywordBoundary s k start}
    = set (filter (\<lambda>start. matches_at s k start \<and> hasSensitiveKeywordBoundary s k start)
        [0..<Suc (length s - length k)])"
    using matches_at_take[of _ k s] by (auto simp del: upt_Suc)
  with False show ?thesis by (simp add: keyword_ranges_def del: upt_Suc)
qed (auto simp: keyword_ranges_def)

lemma keyword_ranges_points: "hl.all_points (keyword_ranges s k) = {i. covers s k i}"
proof (intro set_eqI iffI)
  fix i assume "i \<in> hl.all_points (keyword_ranges s k)"
  then show "i \<in> {i. covers s k i}"
    unfolding hl.all_points_def set_keyword_ranges covers_def by (auto simp: hl.points_def)
next
  fix i assume "i \<in> {i. covers s k i}"
  then obtain start where st: "start \<le> i" "i < start + length k" "take (length k) (drop start s) = k"
    "hasSensitiveKeywordBoundary s k start" by (auto simp: covers_def)
  have "length k \<le> length (drop start s)" using st(3) by (metis length_take min.cobounded1)
  then have "start + length k \<le> length s" using st(1,2) by auto
  with st show "i \<in> hl.all_points (keyword_ranges s k)"
    unfolding hl.all_points_def set_keyword_ranges by (auto simp: hl.points_def intro!: bexI)
qed

lemma keyword_ranges_proper:
  "r \<in> set (keyword_ranges s k) \<Longrightarrow> hl.proper r \<and> range_end r \<le> length s"
  unfolding set_keyword_ranges by (auto simp: hl.proper_def)

definition seg :: "jstr list \<times> bool \<Rightarrow> HighlightedTextSegment" where
  "seg p = \<lparr>seg_text = concat (fst p), highlighted = snd p\<rparr>"

definition flags :: "(jstr list \<times> bool) list \<Rightarrow> bool list" where
  "flags css = concat (map (\<lambda>(cs, h). replicate (length cs) h) css)"

definition good_cut :: "(jstr list \<times> bool) list \<Rightarrow> bool" where
  "good_cut css \<longleftrightarrow> (\<forall>p \<in> set css. fst p \<noteq> []) \<and> distinct_adj (map snd css)"

lemma drop_cut:
  assumes "a \<le> b" "b \<le> c" "c \<le> length s"
  shows "drop a s = drop a (take b s) @ drop b (take c s) @ drop c s"
  using assms by (intro nth_equalityI) (auto simp: nth_append add.commute)

lemma map_constant: "(\<And>x. x \<in> set xs \<Longrightarrow> f x = c) \<Longrightarrow> map f xs = replicate (length xs) c"
  by (induction xs) auto

lemma upt_split: "a \<le> b \<Longrightarrow> b \<le> c \<Longrightarrow> [a..<b] @ [b..<c] = [a..<c]"
  using upt_add_eq_append[of a b "c - b"] by simp

lemma good_cut_mark:
  assumes "b \<noteq> []" "good_cut css" "css = [] \<or> \<not> snd (hd css)"
  shows "good_cut ((b, True) # css)"
  using assms by (auto simp: good_cut_def distinct_adj_Cons hd_map)

lemma good_cut_plain: "a \<noteq> [] \<Longrightarrow> good_cut ((b, True) # css) \<Longrightarrow> good_cut ((a, False) # (b, True) # css)"
  by (simp add: good_cut_def distinct_adj_Cons)

lemma flags_Cons: "flags ((cs, h) # css) = replicate (length cs) h @ flags css"
  by (simp add: flags_def)

lemma flags_split:
  assumes r: "cursor \<le> range_start r" "range_start r < range_end r" "range_end r \<le> n"
    and rs: "\<forall>s \<in> set rs. range_end r < range_start s"
  shows "map (\<lambda>i. i \<in> hl.all_points (r # rs)) [cursor..<n]
      = replicate (range_start r - cursor) False @ replicate (range_end r - range_start r) True
        @ map (\<lambda>i. i \<in> hl.all_points rs) [range_end r..<n]"
proof -
  let ?f = "\<lambda>i. i \<in> hl.all_points (r # rs)"
  have "[cursor..<n] = [cursor..<range_start r] @ [range_start r..<range_end r] @ [range_end r..<n]"
    using r by (simp add: upt_split)
  moreover have "map ?f [cursor..<range_start r] = replicate (length [cursor..<range_start r]) False"
    using r rs by (intro map_constant) (fastforce simp: hl.all_points_def hl.points_def)
  moreover have "map ?f [range_start r..<range_end r] = replicate (length [range_start r..<range_end r]) True"
    by (intro map_constant) (auto simp: hl.points_def)
  moreover have "map ?f [range_end r..<n] = map (\<lambda>i. i \<in> hl.all_points rs) [range_end r..<n]"
    by (auto simp: hl.points_def)
  ultimately show ?thesis by simp
qed

lemma segment_loop_spec:
  assumes "hl.separated rs" "\<forall>r \<in> set rs. cursor \<le> range_start r \<and> range_end r \<le> length source" "cursor \<le> length source"
  shows "\<exists>css. segment_loop source rs cursor = map seg css \<and> concat (map fst css) = drop cursor source
    \<and> flags css = map (\<lambda>i. i \<in> hl.all_points rs) [cursor..<length source] \<and> good_cut css
    \<and> ((\<forall>r \<in> set rs. cursor < range_start r) \<longrightarrow> css = [] \<or> \<not> snd (hd css))"
  using assms
proof (induction rs arbitrary: cursor)
  case Nil
  show ?case
  proof (cases "cursor < length source")
    case True
    then show ?thesis
      by (intro exI[of _ "[(drop cursor source, False)]"])
         (auto simp: seg_def flags_def good_cut_def map_replicate_const)
  next
    case False
    then show ?thesis using Nil by (intro exI[of _ "[]"]) (auto simp: flags_def good_cut_def)
  qed
next
  case (Cons r rs)
  let ?a = "drop cursor (take (range_start r) source)" and ?b = "drop (range_start r) (take (range_end r) source)"
  from Cons.prems have r: "cursor \<le> range_start r" "range_start r < range_end r" "range_end r \<le> length source"
    and rs: "hl.separated rs" "\<forall>s \<in> set rs. range_end r < range_start s \<and> range_end s \<le> length source"
    by (auto simp: hl.separated_Cons hl.proper_def)
  from Cons.IH[of "range_end r"] rs r(3) obtain css where css:
    "segment_loop source rs (range_end r) = map seg css" "concat (map fst css) = drop (range_end r) source"
    "flags css = map (\<lambda>i. i \<in> hl.all_points rs) [range_end r..<length source]" "good_cut css"
    "css = [] \<or> \<not> snd (hd css)" by (auto simp: less_imp_le)
  have cut: "drop cursor source = ?a @ ?b @ drop (range_end r) source"
    using drop_cut[of cursor "range_start r" "range_end r" source] r by simp
  have len: "length ?a = range_start r - cursor" "length ?b = range_end r - range_start r" using r by auto
  have fl: "map (\<lambda>i. i \<in> hl.all_points (r # rs)) [cursor..<length source]
      = replicate (range_start r - cursor) False @ replicate (range_end r - range_start r) True
        @ map (\<lambda>i. i \<in> hl.all_points rs) [range_end r..<length source]"
    by (rule flags_split) (use r rs in auto)
  have nb: "?b \<noteq> []" using r by auto
  have g: "good_cut ((?b, True) # css)" using good_cut_mark[OF nb css(4,5)] .
  show ?case
  proof (cases "cursor < range_start r")
    case True
    with r have na: "?a \<noteq> []" by auto
    show ?thesis
    proof (intro exI[of _ "(?a, False) # (?b, True) # css"] conjI)
      show "flags ((?a, False) # (?b, True) # css) = map (\<lambda>i. i \<in> hl.all_points (r # rs)) [cursor..<length source]"
        unfolding flags_Cons fl css(3) len by (rule refl)
    qed (use True css(1,2) cut good_cut_plain[OF na g] in \<open>simp_all add: seg_def\<close>)
  next
    case False
    with r have e: "cursor = range_start r" by simp
    then have "?a = []" by simp
    show ?thesis
    proof (intro exI[of _ "(?b, True) # css"] conjI)
      show "flags ((?b, True) # css) = map (\<lambda>i. i \<in> hl.all_points (r # rs)) [cursor..<length source]"
        unfolding flags_Cons fl css(3) len using e by simp
      show "concat (map fst ((?b, True) # css)) = drop cursor source" using cut css(2) \<open>?a = []\<close> by simp
    qed (use False css(1) g e in \<open>simp_all add: seg_def\<close>)
  qed
qed

lemma hl_range_end_bound:
  assumes "r \<in> set ms" "hl.separated ms" "hl.all_points ms \<subseteq> {..<n}"
  shows "range_end r \<le> n"
proof -
  have "range_start r < range_end r" using assms(1,2) by (auto simp: hl.separated_def hl.proper_def)
  then have "range_end r - 1 \<in> hl.all_points ms" using assms(1)
    unfolding hl.all_points_def by (intro UN_I[of r]) (auto simp: hl.points_def)
  with assms(3) \<open>range_start r < range_end r\<close> show ?thesis by auto
qed

lemma seg_text_concat:
  assumes "concat (map fst css) = code_points text"
  shows "concat (map seg_text (map seg css)) = text"
proof -
  have "concat (map seg_text (map seg css)) = concat (concat (map fst css))"
    by (induction css) (auto simp: seg_def)
  with assms show ?thesis by simp
qed

definition match_positions :: "(jstr \<Rightarrow> jstr) \<Rightarrow> jstr \<Rightarrow> jstr list \<Rightarrow> nat set" where
  "match_positions lower text keywords =
     {i. \<exists>k \<in> set (normalizeMatchedKeywords lower keywords). covers (foldCodePoints lower text) (foldCodePoints lower k) i}"

lemma all_points_concat: "hl.all_points (concat xss) = \<Union> (hl.all_points ` set xss)"
  by (induction xss) auto

lemma highlight_segments:
  "\<exists>css. buildHighlightedTextSegments lower text keywords = map seg css
     \<and> concat (map fst css) = code_points text \<and> concat (map seg_text (map seg css)) = text
     \<and> good_cut css
     \<and> flags css = map (\<lambda>i. i \<in> match_positions lower text keywords) [0..<length (code_points text)]"
proof -
  let ?s = "code_points text" and ?f = "foldCodePoints lower text"
  let ?rs = "concat (map (\<lambda>k. keyword_ranges ?f (foldCodePoints lower k)) (normalizeMatchedKeywords lower keywords))"
  let ?sorted = "sort_key (\<lambda>r. (range_start r, - int (range_end r))) ?rs"
  let ?m = "foldl merge_text_range [] ?sorted"
  have len: "length ?f = length ?s" by (simp add: foldCodePoints_def)
  have pts: "hl.all_points ?rs = match_positions lower text keywords"
    by (auto simp: all_points_concat keyword_ranges_points match_positions_def)
  have pr: "\<forall>r \<in> set ?sorted. hl.proper r" using keyword_ranges_proper by fastforce
  have so: "sorted_wrt (\<lambda>a b. range_start a \<le> range_start b) ?sorted"
    using sorted_sort_key[of "\<lambda>r. (range_start r, - int (range_end r))" ?rs]
    by (auto simp: sorted_map less_eq_prod_def elim!: sorted_wrt_mono_rel[rotated])
  note m = hl.fold_merge[OF pr so]
  have mp: "hl.all_points ?m = match_positions lower text keywords"
    using m(2) pts by (simp add: hl.all_points_def)
  have bound: "hl.all_points ?m \<subseteq> {..<length ?s}"
    unfolding m(2) using keyword_ranges_proper len by (fastforce simp: hl.all_points_def hl.points_def)
  have ends: "range_end r \<le> length ?s" if "r \<in> set ?m" for r
    using that m(1) bound hl_range_end_bound by blast
  have "\<exists>css. buildHighlightedTextSegments lower text keywords = map seg css \<and> concat (map fst css) = ?s
     \<and> good_cut css \<and> flags css = map (\<lambda>i. i \<in> match_positions lower text keywords) [0..<length ?s]"
  proof (cases "text = [] \<or> ?rs = []")
    case True
    show ?thesis
    proof (cases "text = []")
      case True
      then show ?thesis
        by (intro exI[of _ "[]"]) (simp add: buildHighlightedTextSegments_def flags_def good_cut_def)
    next
      case False
      with True have "?rs = []" by simp
      then have "match_positions lower text keywords = {}" using pts by (metis hl.all_points_simps(1))
      with False \<open>?rs = []\<close> show ?thesis
        by (intro exI[of _ "[(?s, False)]"])
           (simp add: buildHighlightedTextSegments_def seg_def flags_def good_cut_def map_replicate_const Let_def)
    qed
  next
    case False
    with segment_loop_spec[OF m(1), of 0 ?s] ends mp show ?thesis
      by (auto simp: buildHighlightedTextSegments_def Let_def)
  qed
  then show ?thesis using seg_text_concat by blast
qed

text \<open>C19. The segments of a text are a cut of its code points into nonempty pieces, alternately plain and
  highlighted, that put together give the text; and a code point is highlighted exactly when it
  lies in an occurrence, up to case and at word boundaries, of one of the keywords.\<close>

theorem highlight_exact:
  "\<exists>css. buildHighlightedTextSegments lower text keywords = map seg css
     \<and> concat (map fst css) = code_points text \<and> concat (map seg_text (map seg css)) = text
     \<and> good_cut css
     \<and> flags css = map (\<lambda>i. i \<in> match_positions lower text keywords) [0..<length (code_points text)]"
  by (rule highlight_segments)

text \<open>Marking keeps the text of the tree: only the nodes around it change.\<close>

fun tree_text :: "HighlightTreeNode \<Rightarrow> jstr" where
  "tree_text (Node ty v tag props cs) =
     (if ty = Some (js ''text'') then (case v of None \<Rightarrow> [] | Some t \<Rightarrow> t)
      else case cs of None \<Rightarrow> [] | Some ns \<Rightarrow> concat (map tree_text ns))"

lemma tree_text_segment: "tree_text (segment_node s) = seg_text s"
  by (simp add: segment_node_def)

lemma tree_text_segments:
  "concat (map tree_text (map segment_node (buildHighlightedTextSegments lower text ks))) = text"
proof -
  have "concat (map seg_text (buildHighlightedTextSegments lower text ks)) = text"
    using highlight_segments[of lower "text" ks] by auto
  then show ?thesis by (simp add: comp_def tree_text_segment)
qed

lemma walk_keeps_text: "node_type n \<noteq> Some (js ''text'') \<or> ks = [] \<Longrightarrow> tree_text (walk lower ks n) = tree_text n"
proof (induction lower ks n rule: walk.induct)
  case (2 lower ks ty v tag props cs)
  define f where "f = (\<lambda>c. if node_type c = Some (js ''text'') \<and> length ks > 0
       then map segment_node (buildHighlightedTextSegments lower (case node_value c of None \<Rightarrow> [] | Some t \<Rightarrow> t) ks)
       else [walk lower ks c])"
  have c: "concat (map tree_text (f c)) = tree_text c" if "c \<in> set cs" for c
  proof (cases "node_type c = Some (js ''text'') \<and> length ks > 0")
    case True
    then show ?thesis using tree_text_segments by (cases c) (simp add: f_def del: map_map)
  next
    case False
    with 2(1)[OF that] have "tree_text (walk lower ks c) = tree_text c" by auto
    with False show ?thesis unfolding f_def if_not_P[OF False] by simp
  qed
  have "concat (map tree_text (concat (map f ds))) = concat (map tree_text ds)" if "set ds \<subseteq> set cs" for ds
    using that by (induction ds) (simp_all add: c)
  then have "concat (map tree_text (concat (map f cs))) = concat (map tree_text cs)" by blast
  then show ?case unfolding walk.simps f_def[symmetric] by simp
qed simp

end
