(* ===== verification/Model_Mapping.thy ===== *)
theory Model_Mapping
  imports Js_Value
begin

text \<open>
  The models of a channel and their redirections
  (\<open>web/src/features/channels/lib/model-mapping-validation.ts\<close>): the comma separated model list, the
  JSON object that maps a model to the one it is sent to, and the checks of one against the other.

  \<open>JSON.parse\<close> is an argument, \<open>None\<close> where it throws.  A JavaScript set is the list of its elements in
  the order they were added.
\<close>

definition parseModelsString :: "jstr \<Rightarrow> jstr list" where
  "parseModelsString modelsStr =
     (if modelsStr \<noteq> [] then filter (\<lambda>m. m \<noteq> []) (map trim (split_on 44 modelsStr)) else [])"

definition formatModelsArray :: "jstr list \<Rightarrow> jstr" where
  "formatModelsArray models = join [44] (js_unique models)"

definition normalizeModelName :: "jstr \<Rightarrow> jstr" where
  "normalizeModelName model = trim model"

text \<open>A parsed value that is an object and no array: its properties.\<close>

definition mapping_object :: "jval option \<Rightarrow> (jstr \<times> jval) list option" where
  "mapping_object parsed = (case parsed of Some (JObj ps) \<Rightarrow> Some ps | _ \<Rightarrow> None)"

definition extractMappingSourceModels :: "(jstr \<Rightarrow> jval option) \<Rightarrow> jstr \<Rightarrow> jstr list" where
  "extractMappingSourceModels parse modelMapping =
     (let trimmed = trim modelMapping in
      if trimmed = [] then []
      else case mapping_object (parse trimmed) of
        None \<Rightarrow> []
      | Some ps \<Rightarrow> js_unique (filter (\<lambda>k. k \<noteq> []) (map (\<lambda>p. trim (fst p)) ps)))"

definition extractRedirectModels :: "(jstr \<Rightarrow> jval option) \<Rightarrow> jstr \<Rightarrow> jstr list" where
  "extractRedirectModels parse modelMapping =
     (let trimmed = trim modelMapping in
      if trimmed = [] then []
      else case mapping_object (parse trimmed) of
        None \<Rightarrow> []
      | Some ps \<Rightarrow> js_unique (filter (\<lambda>v. v \<noteq> [])
          (map (\<lambda>p. case snd p of JStr v \<Rightarrow> trim v | _ \<Rightarrow> []) ps)))"

definition hasModelConfigChanged :: "jstr list \<Rightarrow> jstr \<Rightarrow> jstr list \<Rightarrow> jstr \<Rightarrow> bool" where
  "hasModelConfigChanged currentModels currentModelMapping initialModels initialModelMapping =
     (if initialModels = [] \<and> initialModelMapping = [] then True
      else if length currentModels \<noteq> length initialModels then True
      else if list_ex (\<lambda>i. currentModels ! i \<noteq> initialModels ! i) [0..<length currentModels] then True
      else trim currentModelMapping \<noteq> trim initialModelMapping)"

definition findMissingModelsInMapping :: "(jstr \<Rightarrow> jval option) \<Rightarrow> jstr \<Rightarrow> jstr list \<Rightarrow> jstr list" where
  "findMissingModelsInMapping parse modelMapping currentModels =
     (if modelMapping = [] \<or> trim modelMapping = [] then []
      else case mapping_object (parse modelMapping) of
        None \<Rightarrow> []
      | Some ps \<Rightarrow>
          let modelSet = map normalizeModelName currentModels
          in js_unique (filter (\<lambda>k. k \<noteq> [] \<and> k \<notin> set modelSet) (map (\<lambda>p. normalizeModelName (fst p)) ps)))"

datatype MappingError = NotAnObject | NotStrings | NotJson

text \<open>\<open>None\<close> is the result \<open>valid: true\<close>.\<close>

definition validateModelMappingJson :: "(jstr \<Rightarrow> jval option) \<Rightarrow> jstr \<Rightarrow> MappingError option" where
  "validateModelMappingJson parse modelMapping =
     (if modelMapping = [] \<or> trim modelMapping = [] then None
      else case parse modelMapping of
        None \<Rightarrow> Some NotJson
      | Some v \<Rightarrow> (case mapping_object (Some v) of
          None \<Rightarrow> Some NotAnObject
        | Some ps \<Rightarrow> if list_ex (\<lambda>p. \<not> is_string (snd p)) ps then Some NotStrings else None))"

definition findExposedTargetModels :: "(jstr \<Rightarrow> jval option) \<Rightarrow> jstr \<Rightarrow> jstr list \<Rightarrow> jstr list" where
  "findExposedTargetModels parse modelMapping currentModels =
     (let redirectModels = extractRedirectModels parse modelMapping in
      if redirectModels = [] then []
      else filter (\<lambda>m. normalizeModelName m \<in> set (map normalizeModelName currentModels)) redirectModels)"

record ModelCategories =
  normalizedCurrentModels :: "jstr list"
  normalizedRedirectModels :: "jstr list"
  classificationSet :: "jstr list"
  redirectOnlySet :: "jstr list"

definition categorizeModelsWithRedirect :: "jstr list \<Rightarrow> jstr list \<Rightarrow> ModelCategories" where
  "categorizeModelsWithRedirect currentModels redirectModels =
     (let cur = js_unique (filter (\<lambda>m. m \<noteq> []) (map normalizeModelName currentModels));
          red = js_unique (filter (\<lambda>m. m \<noteq> []) (map normalizeModelName redirectModels))
      in \<lparr>normalizedCurrentModels = cur, normalizedRedirectModels = red, classificationSet = js_unique (cur @ red),
          redirectOnlySet = js_unique (filter (\<lambda>m. m \<notin> set cur) red)\<rparr>)"

section \<open>Properties\<close>

text \<open>A model name as the list can hold it.\<close>

definition model_name :: "jstr \<Rightarrow> bool" where
  "model_name m \<longleftrightarrow> m \<noteq> [] \<and> trim m = m \<and> 44 \<notin> set m"

lemma parse_models_names: "m \<in> set (parseModelsString s) \<Longrightarrow> model_name m"
  using split_trim_parts[of m 44 s] by (auto simp: parseModelsString_def model_name_def split: if_splits)

lemma parse_format: "list_all model_name ms \<Longrightarrow> parseModelsString (formatModelsArray ms) = js_unique ms"
proof -
  assume "list_all model_name ms"
  then have n: "\<And>m. m \<in> set (js_unique ms) \<Longrightarrow> m \<noteq> [] \<and> trim m = m \<and> 44 \<notin> set m"
    by (simp add: list_all_iff model_name_def)
  moreover have "js_unique ms \<noteq> [] \<Longrightarrow> join [44] (js_unique ms) \<noteq> []"
    using join_nonempty_head n hd_in_set by blast
  ultimately show ?thesis using split_trim_join[of "js_unique ms" 44]
    by (auto simp: parseModelsString_def formatModelsArray_def)
qed

text \<open>The model list of a channel survives the text field: reading any text gives trimmed names without
  a comma, and writing such names and reading them back gives each of them once, in the order of
  their first occurrence; so reading what was written for a text that was read changes nothing.\<close>

lemma models_roundtrip:
  "list_all model_name (parseModelsString s)
   \<and> parseModelsString (formatModelsArray (parseModelsString s)) = js_unique (parseModelsString s)"
proof -
  have "list_all model_name (parseModelsString s)" using parse_models_names by (auto simp: list_all_iff)
  with parse_format show ?thesis by blast
qed

lemma redirect_value:
  "v \<noteq> [] \<Longrightarrow> v = (case x of JStr w \<Rightarrow> trim w | _ \<Rightarrow> []) \<longleftrightarrow> (\<exists>w. x = JStr w \<and> v = trim w)"
  by (cases x) auto

lemma redirect_values:
  "set (filter (\<lambda>v. v \<noteq> []) (map (\<lambda>p. case snd p of JStr v \<Rightarrow> trim v | _ \<Rightarrow> []) ps))
     = {v. v \<noteq> [] \<and> (\<exists>k w. (k, JStr w) \<in> set ps \<and> v = trim w)}"
proof (intro set_eqI iffI)
  fix v assume "v \<in> set (filter (\<lambda>v. v \<noteq> []) (map (\<lambda>p. case snd p of JStr v \<Rightarrow> trim v | _ \<Rightarrow> []) ps))"
  then obtain p where "v \<noteq> []" "p \<in> set ps" "v = (case snd p of JStr w \<Rightarrow> trim w | _ \<Rightarrow> [])" by auto
  then show "v \<in> {v. v \<noteq> [] \<and> (\<exists>k w. (k, JStr w) \<in> set ps \<and> v = trim w)}"
    using redirect_value[of v "snd p"] by (metis (mono_tags, lifting) mem_Collect_eq prod.collapse)
next
  fix v assume "v \<in> {v. v \<noteq> [] \<and> (\<exists>k w. (k, JStr w) \<in> set ps \<and> v = trim w)}"
  then obtain k w where "v \<noteq> []" "(k, JStr w) \<in> set ps" "v = trim w" by blast
  then show "v \<in> set (filter (\<lambda>v. v \<noteq> []) (map (\<lambda>p. case snd p of JStr v \<Rightarrow> trim v | _ \<Rightarrow> []) ps))"
    by (force intro!: image_eqI[of _ _ "(k, JStr w)"])
qed

text \<open>The check of a mapping against the model list reports exactly the models that are redirected but
  not listed, and exactly the listed models a redirection leads to, both up to surrounding white
  space and without repetition; where the mapping is valid nothing is overlooked.\<close>

lemma mapping_check_exact:
  assumes "parse s = Some (JObj ps)" "parse (trim s) = Some (JObj ps)" "trim s \<noteq> []"
  shows "set (findMissingModelsInMapping parse s models)
      = {k. k \<noteq> [] \<and> k \<in> (\<lambda>p. trim (fst p)) ` set ps \<and> k \<notin> trim ` set models}
    \<and> set (findExposedTargetModels parse s models)
      = {v. v \<noteq> [] \<and> (\<exists>k w. (k, JStr w) \<in> set ps \<and> v = trim w) \<and> v \<in> trim ` set models}
    \<and> distinct (findMissingModelsInMapping parse s models) \<and> distinct (findExposedTargetModels parse s models)
    \<and> (validateModelMappingJson parse s = None \<longleftrightarrow> (\<forall>p \<in> set ps. is_string (snd p)))"
proof -
  have ne: "s \<noteq> []" using assms(3) by auto
  have m: "findMissingModelsInMapping parse s models =
      js_unique (filter (\<lambda>k. k \<noteq> [] \<and> k \<notin> set (map trim models)) (map (\<lambda>p. trim (fst p)) ps))"
    using assms ne by (simp add: findMissingModelsInMapping_def mapping_object_def normalizeModelName_def)
  have r: "extractRedirectModels parse s =
      js_unique (filter (\<lambda>v. v \<noteq> []) (map (\<lambda>p. case snd p of JStr v \<Rightarrow> trim v | _ \<Rightarrow> []) ps))"
    using assms by (simp add: extractRedirectModels_def mapping_object_def Let_def)
  have e: "findExposedTargetModels parse s models =
      filter (\<lambda>m. trim m \<in> set (map trim models)) (extractRedirectModels parse s)"
    by (simp add: findExposedTargetModels_def normalizeModelName_def Let_def)
  have "set (findExposedTargetModels parse s models)
      = {v. v \<noteq> [] \<and> (\<exists>k w. (k, JStr w) \<in> set ps \<and> v = trim w) \<and> v \<in> trim ` set models}"
    unfolding e r set_filter[of _ "js_unique _"] set_js_unique redirect_values
    by (auto simp: image_iff) metis
  moreover have "validateModelMappingJson parse s = None \<longleftrightarrow> (\<forall>p \<in> set ps. is_string (snd p))"
    using assms ne by (auto simp: validateModelMappingJson_def mapping_object_def list_ex_iff)
  moreover have "set (findMissingModelsInMapping parse s models)
      = {k. k \<noteq> [] \<and> k \<in> (\<lambda>p. trim (fst p)) ` set ps \<and> k \<notin> trim ` set models}" unfolding m by auto
  moreover have "distinct (findMissingModelsInMapping parse s models)" unfolding m by simp
  moreover have "distinct (findExposedTargetModels parse s models)" unfolding e r by simp
  ultimately show ?thesis by blast
qed

end
