(* ===== verification/Channel_Routes.thy ===== *)
theory Channel_Routes
  imports Js_Value
begin

text \<open>
  The routes of an advanced custom channel, after \<open>features/channels/lib/advanced-custom.ts\<close>: the
  options and templates the console offers, reading and writing a configuration, its normal form,
  and the validation every save runs.

  A configuration is read from a text by \<open>JSON.parse\<close> and cast to its type without a check, so the
  fields of a route are values of any type (\<open>undefined\<close> where absent) and the functions may throw.
  \<open>JSON\<close> and the \<open>URL\<close> class of the browser are arguments.
\<close>

section \<open>Data\<close>

text \<open>The fields of a route and of its authorisation.  Only whether \<open>auth\<close> is truthy and its three
  properties are read, so an absent or falsy one is \<open>None\<close>.\<close>

record AdvancedCustomRouteAuth =
  auth_type :: jval
  auth_name :: jval
  auth_value :: jval

record AdvancedCustomRoute =
  incoming_path :: jval
  upstream_path :: jval
  converter :: jval
  route_models :: jval
  route_auth :: "AdvancedCustomRouteAuth option"

type_synonym AdvancedCustomConfig = "AdvancedCustomRoute list"

record AdvancedCustomConverterOption =
  co_value :: jstr
  co_label :: jstr
  co_triggerLabel :: jstr

record AdvancedCustomIncomingPathOption =
  ipo_value :: jstr
  ipo_label :: jstr

record AdvancedCustomValidationError =
  ve_message :: jstr
  ve_routeIndex :: "nat option"

record AdvancedCustomTemplateOption =
  to_value :: jstr
  to_label :: jstr
  to_config :: AdvancedCustomConfig

record AdvancedCustomConverterDefaults =
  cd_upstream_path :: jstr
  cd_auth :: AdvancedCustomRouteAuth

datatype AdvancedCustomModelRuleKind = ExactRule | RegexRule

section \<open>Options and templates\<close>

definition ADVANCED_CUSTOM_MODEL_LIST_PATH :: jstr where
  "ADVANCED_CUSTOM_MODEL_LIST_PATH = js ''/v1/models''"

definition ADVANCED_CUSTOM_MODEL_LIST_LABEL :: jstr where
  "ADVANCED_CUSTOM_MODEL_LIST_LABEL = js ''OpenAI Models''"

definition ADVANCED_CUSTOM_CONVERTER_OPTIONS :: "AdvancedCustomConverterOption list" where
  "ADVANCED_CUSTOM_CONVERTER_OPTIONS =
    [\<lparr>co_value = js ''none'',
      co_label = js ''Native forwarding'', co_triggerLabel = js ''Native forwarding''\<rparr>,
     \<lparr>co_value = js ''anthropic_messages_to_openai_chat_completions'',
      co_label = js ''Anthropic Messages to OpenAI Chat'', co_triggerLabel = js ''To OpenAI Chat''\<rparr>,
     \<lparr>co_value = js ''openai_chat_completions_to_anthropic_messages'',
      co_label = js ''OpenAI Chat to Anthropic Messages'', co_triggerLabel = js ''To Anthropic Messages''\<rparr>,
     \<lparr>co_value = js ''openai_chat_completions_to_openai_responses'',
      co_label = js ''OpenAI Chat to OpenAI Responses'', co_triggerLabel = js ''To OpenAI Responses''\<rparr>,
     \<lparr>co_value = js ''openai_responses_to_openai_chat_completions'',
      co_label = js ''OpenAI Responses to OpenAI Chat'', co_triggerLabel = js ''To OpenAI Chat''\<rparr>,
     \<lparr>co_value = js ''openai_responses_to_gemini_generate_content'',
      co_label = js ''OpenAI Responses to Gemini Generate Content'', co_triggerLabel = js ''To Gemini Generate Content''\<rparr>,
     \<lparr>co_value = js ''gemini_generate_content_to_openai_chat_completions'',
      co_label = js ''Gemini Generate Content to OpenAI Chat'', co_triggerLabel = js ''To OpenAI Chat''\<rparr>,
     \<lparr>co_value = js ''openai_chat_completions_to_gemini_generate_content'',
      co_label = js ''OpenAI Chat to Gemini Generate Content'', co_triggerLabel = js ''To Gemini Generate Content''\<rparr>]"

definition ADVANCED_CUSTOM_AUTH_MODE_OPTIONS :: "(jstr \<times> jstr) list" where
  "ADVANCED_CUSTOM_AUTH_MODE_OPTIONS =
    [(js ''default'', js ''Default Bearer''), (js ''none'', js ''No Auth''),
     (js ''header'', js ''Header''), (js ''query'', js ''Query'')]"

definition ADVANCED_CUSTOM_INCOMING_PATH_OPTIONS :: "AdvancedCustomIncomingPathOption list" where
  "ADVANCED_CUSTOM_INCOMING_PATH_OPTIONS =
    [\<lparr>ipo_value = js ''/v1/chat/completions'', ipo_label = js ''OpenAI Chat''\<rparr>,
     \<lparr>ipo_value = js ''/v1/responses'', ipo_label = js ''OpenAI Responses''\<rparr>,
     \<lparr>ipo_value = js ''/v1/responses/compact'', ipo_label = js ''OpenAI Responses Compact''\<rparr>,
     \<lparr>ipo_value = js ''/v1/alpha/search'', ipo_label = js ''OpenAI Alpha Search''\<rparr>,
     \<lparr>ipo_value = ADVANCED_CUSTOM_MODEL_LIST_PATH, ipo_label = ADVANCED_CUSTOM_MODEL_LIST_LABEL\<rparr>,
     \<lparr>ipo_value = js ''/v1/embeddings'', ipo_label = js ''OpenAI Embeddings''\<rparr>,
     \<lparr>ipo_value = js ''/v1/images/generations'', ipo_label = js ''OpenAI Image Generations''\<rparr>,
     \<lparr>ipo_value = js ''/v1/images/edits'', ipo_label = js ''OpenAI Image Edits''\<rparr>,
     \<lparr>ipo_value = js ''/v1/completions'', ipo_label = js ''OpenAI Completions''\<rparr>,
     \<lparr>ipo_value = js ''/v1/audio/speech'', ipo_label = js ''OpenAI Audio Speech''\<rparr>,
     \<lparr>ipo_value = js ''/v1/audio/transcriptions'', ipo_label = js ''OpenAI Audio Transcriptions''\<rparr>,
     \<lparr>ipo_value = js ''/v1/audio/translations'', ipo_label = js ''OpenAI Audio Translations''\<rparr>,
     \<lparr>ipo_value = js ''/v1/rerank'', ipo_label = js ''OpenAI Rerank''\<rparr>,
     \<lparr>ipo_value = js ''/v1/realtime'', ipo_label = js ''OpenAI Realtime''\<rparr>,
     \<lparr>ipo_value = js ''/v1/messages'', ipo_label = js ''Claude Messages''\<rparr>,
     \<lparr>ipo_value = js ''/v1beta/models/{model}:generateContent'', ipo_label = js ''Gemini Generate Content''\<rparr>,
     \<lparr>ipo_value = js ''/v1beta/models/{model}:embedContent'', ipo_label = js ''Gemini Embed Content''\<rparr>,
     \<lparr>ipo_value = js ''/v1beta/models/{model}:batchEmbedContents'', ipo_label = js ''Gemini Batch Embed Contents''\<rparr>]"

definition ADVANCED_CUSTOM_ROUTE_SUMMARY_LABELS :: "(jstr \<times> jstr) list" where
  "ADVANCED_CUSTOM_ROUTE_SUMMARY_LABELS =
    [(js ''/v1/chat/completions'', js ''OpenAI Chat''),
     (ADVANCED_CUSTOM_MODEL_LIST_PATH, ADVANCED_CUSTOM_MODEL_LIST_LABEL)]"

definition ADVANCED_CUSTOM_MODEL_REGEX_PREFIX :: jstr where
  "ADVANCED_CUSTOM_MODEL_REGEX_PREFIX = js ''re:''"

definition openAIChatPath :: jstr where
  "openAIChatPath = js ''/v1/chat/completions''"

definition openAIResponsesPath :: jstr where
  "openAIResponsesPath = js ''/v1/responses''"

definition claudeMessagesPath :: jstr where
  "claudeMessagesPath = js ''/v1/messages''"

definition geminiGenerateContentPath :: jstr where
  "geminiGenerateContentPath = js ''/v1beta/models/{model}:generateContent''"

definition bearerHeaderAuth :: AdvancedCustomRouteAuth where
  "bearerHeaderAuth = \<lparr>auth_type = JStr (js ''header''), auth_name = JStr (js ''Authorization''),
     auth_value = JStr (js ''Bearer {api_key}'')\<rparr>"

definition apiKeyHeaderAuth :: AdvancedCustomRouteAuth where
  "apiKeyHeaderAuth = \<lparr>auth_type = JStr (js ''header''), auth_name = JStr (js ''x-api-key''),
     auth_value = JStr (js ''{api_key}'')\<rparr>"

definition geminiQueryAuth :: AdvancedCustomRouteAuth where
  "geminiQueryAuth = \<lparr>auth_type = JStr (js ''query''), auth_name = JStr (js ''key''),
     auth_value = JStr (js ''{api_key}'')\<rparr>"

definition ADVANCED_CUSTOM_TEMPLATE_OPTIONS :: "AdvancedCustomTemplateOption list" where
  "ADVANCED_CUSTOM_TEMPLATE_OPTIONS =
    [\<lparr>to_value = js ''official_openai_chat'', to_label = js ''Official OpenAI Chat'', to_config =
       [\<lparr>incoming_path = JStr (js ''/v1/chat/completions''), upstream_path = JStr (js ''/v1/chat/completions''),
         converter = JStr (js ''none''), route_models = JUndefined, route_auth = Some bearerHeaderAuth\<rparr>]\<rparr>,
     \<lparr>to_value = js ''official_openai_responses'', to_label = js ''Official OpenAI Responses'', to_config =
       [\<lparr>incoming_path = JStr (js ''/v1/responses''), upstream_path = JStr (js ''/v1/responses''),
         converter = JStr (js ''none''), route_models = JUndefined, route_auth = Some bearerHeaderAuth\<rparr>]\<rparr>,
     \<lparr>to_value = js ''official_openai_embeddings'', to_label = js ''Official OpenAI Embeddings'', to_config =
       [\<lparr>incoming_path = JStr (js ''/v1/embeddings''), upstream_path = JStr (js ''/v1/embeddings''),
         converter = JStr (js ''none''), route_models = JUndefined, route_auth = Some bearerHeaderAuth\<rparr>]\<rparr>,
     \<lparr>to_value = js ''official_openai_images'', to_label = js ''Official OpenAI Images'', to_config =
       [\<lparr>incoming_path = JStr (js ''/v1/images/generations''), upstream_path = JStr (js ''/v1/images/generations''),
         converter = JStr (js ''none''), route_models = JUndefined, route_auth = Some bearerHeaderAuth\<rparr>,
        \<lparr>incoming_path = JStr (js ''/v1/images/edits''), upstream_path = JStr (js ''/v1/images/edits''),
         converter = JStr (js ''none''), route_models = JUndefined, route_auth = Some bearerHeaderAuth\<rparr>]\<rparr>,
     \<lparr>to_value = js ''official_claude_messages'', to_label = js ''Official Claude Messages'', to_config =
       [\<lparr>incoming_path = JStr (js ''/v1/messages''), upstream_path = JStr (js ''/v1/messages''),
         converter = JStr (js ''none''), route_models = JUndefined, route_auth = Some apiKeyHeaderAuth\<rparr>]\<rparr>,
     \<lparr>to_value = js ''official_gemini_native'', to_label = js ''Official Gemini Native'', to_config =
       [\<lparr>incoming_path = JStr (js ''/v1beta/models/{model}:generateContent''), upstream_path = JStr (js ''/v1beta/models/{model}:generateContent''),
         converter = JStr (js ''none''), route_models = JUndefined, route_auth = Some geminiQueryAuth\<rparr>,
        \<lparr>incoming_path = JStr (js ''/v1beta/models/{model}:embedContent''), upstream_path = JStr (js ''/v1beta/models/{model}:embedContent''),
         converter = JStr (js ''none''), route_models = JUndefined, route_auth = Some geminiQueryAuth\<rparr>,
        \<lparr>incoming_path = JStr (js ''/v1beta/models/{model}:batchEmbedContents''), upstream_path = JStr (js ''/v1beta/models/{model}:batchEmbedContents''),
         converter = JStr (js ''none''), route_models = JUndefined, route_auth = Some geminiQueryAuth\<rparr>]\<rparr>,
     \<lparr>to_value = js ''official_gemini_from_openai_chat'', to_label = js ''Official Gemini from OpenAI Chat'', to_config =
       [\<lparr>incoming_path = JStr (js ''/v1/chat/completions''), upstream_path = JStr (js ''/v1beta/models/{model}:generateContent''),
         converter = JStr (js ''openai_chat_completions_to_gemini_generate_content''), route_models = JUndefined, route_auth = Some geminiQueryAuth\<rparr>]\<rparr>]"

text \<open>A clone has the value of its original.  The list of templates is not empty, so its head
  exists.\<close>

definition getAdvancedCustomTemplateConfig :: "jstr \<Rightarrow> AdvancedCustomConfig" where
  "getAdvancedCustomTemplateConfig templateKey =
     to_config (case find (\<lambda>option. to_value option = templateKey) ADVANCED_CUSTOM_TEMPLATE_OPTIONS of
       Some template \<Rightarrow> template | None \<Rightarrow> hd ADVANCED_CUSTOM_TEMPLATE_OPTIONS)"

definition createAdvancedCustomRoute :: AdvancedCustomRoute where
  "createAdvancedCustomRoute = \<lparr>incoming_path = JStr openAIChatPath, upstream_path = JStr openAIChatPath,
     converter = JStr (js ''none''), route_models = JUndefined, route_auth = None\<rparr>"

definition createAdvancedCustomConfig :: AdvancedCustomConfig where
  "createAdvancedCustomConfig = [createAdvancedCustomRoute]"

text \<open>The converter is compared by \<open>===\<close>, so it may be any value.\<close>

definition isConverterPathAllowed :: "jstr \<Rightarrow> jval \<Rightarrow> bool" where
  "isConverterPathAllowed incomingPath conv =
     (if conv = JStr (js ''none'') then True
      else if incomingPath = js ''/v1/alpha/search'' then False
      else if conv = JStr (js ''anthropic_messages_to_openai_chat_completions'')
        then incomingPath = js ''/v1/messages''
      else if conv = JStr (js ''openai_chat_completions_to_anthropic_messages'')
           \<or> conv = JStr (js ''openai_chat_completions_to_openai_responses'')
           \<or> conv = JStr (js ''openai_chat_completions_to_gemini_generate_content'')
        then incomingPath = js ''/v1/chat/completions''
      else if conv = JStr (js ''openai_responses_to_openai_chat_completions'')
        then incomingPath = js ''/v1/responses''
      else if conv = JStr (js ''openai_responses_to_gemini_generate_content'')
        then incomingPath = js ''/v1/responses''
      else js_includes incomingPath (js '':generateContent'')
        \<or> js_includes incomingPath (js '':streamGenerateContent''))"

definition isAdvancedCustomConverter :: "jval \<Rightarrow> bool" where
  "isAdvancedCustomConverter v \<longleftrightarrow> (\<exists>option \<in> set ADVANCED_CUSTOM_CONVERTER_OPTIONS. JStr (co_value option) = v)"

definition getAdvancedCustomIncomingPathOptions :: "jval \<Rightarrow> AdvancedCustomIncomingPathOption list" where
  "getAdvancedCustomIncomingPathOptions conv =
     filter (\<lambda>option. isConverterPathAllowed (ipo_value option) conv) ADVANCED_CUSTOM_INCOMING_PATH_OPTIONS"

definition getDefaultAdvancedCustomIncomingPath :: "jval \<Rightarrow> jstr" where
  "getDefaultAdvancedCustomIncomingPath conv =
     (case getAdvancedCustomIncomingPathOptions conv of
        option # _ \<Rightarrow> str_or (Some (ipo_value option)) (js ''/v1/chat/completions'')
      | [] \<Rightarrow> js ''/v1/chat/completions'')"

definition isAdvancedCustomIncomingPathAllowed :: "jstr \<Rightarrow> jval \<Rightarrow> bool" where
  "isAdvancedCustomIncomingPathAllowed incomingPath conv = isConverterPathAllowed incomingPath conv"

definition getAdvancedCustomConverterOptions :: "jstr \<Rightarrow> AdvancedCustomConverterOption list" where
  "getAdvancedCustomConverterOptions incomingPath =
     (let normalizedIncomingPath = trim incomingPath in
      filter (\<lambda>option. co_value option = js ''none''
        \<or> isConverterPathAllowed normalizedIncomingPath (JStr (co_value option))) ADVANCED_CUSTOM_CONVERTER_OPTIONS)"

definition getAdvancedCustomNativeAuth :: "jstr \<Rightarrow> AdvancedCustomRouteAuth" where
  "getAdvancedCustomNativeAuth incomingPath =
     (if incomingPath = claudeMessagesPath then apiKeyHeaderAuth
      else if js_includes incomingPath (js '':generateContent'')
           \<or> js_includes incomingPath (js '':streamGenerateContent'')
           \<or> js_includes incomingPath (js '':embedContent'')
           \<or> js_includes incomingPath (js '':batchEmbedContents'')
        then geminiQueryAuth
      else bearerHeaderAuth)"

definition getAdvancedCustomConverterDefaults :: "jval \<Rightarrow> jstr \<Rightarrow> AdvancedCustomConverterDefaults" where
  "getAdvancedCustomConverterDefaults conv incomingPath =
     (let normalizedIncomingPath = str_or (Some (trim incomingPath)) (getDefaultAdvancedCustomIncomingPath conv) in
      if conv = JStr (js ''none'')
        then \<lparr>cd_upstream_path = normalizedIncomingPath, cd_auth = getAdvancedCustomNativeAuth normalizedIncomingPath\<rparr>
      else if conv = JStr (js ''anthropic_messages_to_openai_chat_completions'')
           \<or> conv = JStr (js ''gemini_generate_content_to_openai_chat_completions'')
           \<or> conv = JStr (js ''openai_responses_to_openai_chat_completions'')
        then \<lparr>cd_upstream_path = openAIChatPath, cd_auth = bearerHeaderAuth\<rparr>
      else if conv = JStr (js ''openai_chat_completions_to_openai_responses'')
        then \<lparr>cd_upstream_path = openAIResponsesPath, cd_auth = bearerHeaderAuth\<rparr>
      else if conv = JStr (js ''openai_chat_completions_to_anthropic_messages'')
        then \<lparr>cd_upstream_path = claudeMessagesPath, cd_auth = apiKeyHeaderAuth\<rparr>
      else if conv = JStr (js ''openai_chat_completions_to_gemini_generate_content'')
           \<or> conv = JStr (js ''openai_responses_to_gemini_generate_content'')
        then \<lparr>cd_upstream_path = geminiGenerateContentPath, cd_auth = geminiQueryAuth\<rparr>
      else \<lparr>cd_upstream_path = str_or (Some normalizedIncomingPath) openAIChatPath,
             cd_auth = getAdvancedCustomNativeAuth normalizedIncomingPath\<rparr>)"

definition getAdvancedCustomUpstreamPathPlaceholder :: "jval \<Rightarrow> jstr \<Rightarrow> jstr" where
  "getAdvancedCustomUpstreamPathPlaceholder conv incomingPath =
     cd_upstream_path (getAdvancedCustomConverterDefaults conv incomingPath)"

definition getAdvancedCustomIncomingPathLabel :: "jstr \<Rightarrow> jstr" where
  "getAdvancedCustomIncomingPathLabel v =
     str_or (map_option ipo_label (find (\<lambda>option. ipo_value option = v) ADVANCED_CUSTOM_INCOMING_PATH_OPTIONS)) v"

section \<open>Normal form\<close>

definition getAdvancedCustomRouteUpstreamPath :: "AdvancedCustomRoute \<Rightarrow> thrown + jstr" where
  "getAdvancedCustomRouteUpstreamPath route = trim_value (js_or (upstream_path route) (JStr []))"

text \<open>\<open>v?.trim()\<close>, with \<open>undefined\<close> taken for the empty text as the sources do.\<close>

definition optional_trim :: "jval \<Rightarrow> thrown + jstr" where
  "optional_trim v = (if nullish v then Inr [] else trim_value v)"

definition normalizeAdvancedCustomRouteModels :: "jval \<Rightarrow> thrown + jstr list" where
  "normalizeAdvancedCustomRouteModels models =
     (case models of
        JArr vs \<Rightarrow> (case map_throw trim_value vs of
            Inl e \<Rightarrow> Inl e | Inr ms \<Rightarrow> Inr (filter (\<lambda>m. m \<noteq> []) ms))
      | _ \<Rightarrow> Inr [])"

definition normalizeAdvancedCustomAuth :: "AdvancedCustomRouteAuth \<Rightarrow> AdvancedCustomRouteAuth" where
  "normalizeAdvancedCustomAuth a = \<lparr>auth_type = auth_type a,
     auth_name = js_or (auth_name a) (JStr []), auth_value = js_or (auth_value a) (JStr [])\<rparr>"

definition normalizeAdvancedCustomRoute :: "AdvancedCustomRoute \<Rightarrow> thrown + AdvancedCustomRoute" where
  "normalizeAdvancedCustomRoute route =
     (case getAdvancedCustomRouteUpstreamPath route of
        Inl e \<Rightarrow> Inl e
      | Inr upstream \<Rightarrow>
          (case normalizeAdvancedCustomRouteModels (route_models route) of
             Inl e \<Rightarrow> Inl e
           | Inr models \<Rightarrow>
               Inr \<lparr>incoming_path = js_or (incoming_path route) (JStr []), upstream_path = JStr upstream,
                 converter = js_or (converter route) (JStr (js ''none'')),
                 route_models = (if models = [] then JUndefined else JArr (map JStr models)),
                 route_auth = map_option normalizeAdvancedCustomAuth (route_auth route)\<rparr>))"

definition normalizeAdvancedCustomConfig :: "AdvancedCustomConfig \<Rightarrow> thrown + AdvancedCustomConfig" where
  "normalizeAdvancedCustomConfig config = map_throw normalizeAdvancedCustomRoute config"

section \<open>Reading and writing\<close>

text \<open>A parsed value seen as a configuration: the properties the functions above read.  Reading a
  property of \<open>null\<close> throws.\<close>

definition read_auth :: "jval \<Rightarrow> AdvancedCustomRouteAuth option" where
  "read_auth v = (if truthy v then Some \<lparr>auth_type = jget v (js ''type''), auth_name = jget v (js ''name''),
     auth_value = jget v (js ''value'')\<rparr> else None)"

definition read_route :: "jval \<Rightarrow> thrown + AdvancedCustomRoute" where
  "read_route v = (if nullish v then Inl TypeError else
     Inr \<lparr>incoming_path = jget v (js ''incoming_path''), upstream_path = jget v (js ''upstream_path''),
       converter = jget v (js ''converter''), route_models = jget v (js ''models''),
       route_auth = read_auth (jget v (js ''auth''))\<rparr>)"

definition read_config :: "jval \<Rightarrow> thrown + AdvancedCustomConfig" where
  "read_config v = (case jget v (js ''advanced_routes'') of JArr vs \<Rightarrow> map_throw read_route vs | _ \<Rightarrow> Inr [])"

text \<open>\<open>json_parse\<close> gives \<open>None\<close> where \<open>JSON.parse\<close> throws.  The whole body stands in a \<open>try\<close>.\<close>

definition parseAdvancedCustomConfig :: "(jstr \<Rightarrow> jval option) \<Rightarrow> jstr option \<Rightarrow> AdvancedCustomConfig option" where
  "parseAdvancedCustomConfig json_parse v =
     (case v of None \<Rightarrow> None
      | Some s \<Rightarrow>
          if trim s = [] then None
          else (case json_parse s of
                  None \<Rightarrow> None
                | Some parsed \<Rightarrow>
                    if \<not> is_object parsed \<or> is_array parsed then None
                    else (case read_config parsed of
                            Inl e \<Rightarrow> None
                          | Inr config \<Rightarrow> (case normalizeAdvancedCustomConfig config of
                              Inl e \<Rightarrow> None | Inr normalized \<Rightarrow> Some normalized))))"

text \<open>The object \<open>JSON.stringify\<close> is given.  It leaves out the properties that are \<open>undefined\<close>.\<close>

definition defined_props :: "(jstr \<times> jval) list \<Rightarrow> (jstr \<times> jval) list" where
  "defined_props ps = filter (\<lambda>(k, v). v \<noteq> JUndefined) ps"

definition auth_object :: "AdvancedCustomRouteAuth \<Rightarrow> jval" where
  "auth_object a = JObj (defined_props [(js ''type'', auth_type a), (js ''name'', auth_name a),
     (js ''value'', auth_value a)])"

definition route_object :: "AdvancedCustomRoute \<Rightarrow> jval" where
  "route_object r = JObj (defined_props [(js ''incoming_path'', incoming_path r), (js ''upstream_path'', upstream_path r),
     (js ''converter'', converter r), (js ''models'', route_models r),
     (js ''auth'', case route_auth r of None \<Rightarrow> JUndefined | Some a \<Rightarrow> auth_object a)])"

definition config_object :: "AdvancedCustomConfig \<Rightarrow> jval" where
  "config_object rs = JObj [(js ''advanced_routes'', JArr (map route_object rs))]"

definition stringifyAdvancedCustomConfig :: "(jval \<Rightarrow> jstr) \<Rightarrow> AdvancedCustomConfig \<Rightarrow> thrown + jstr" where
  "stringifyAdvancedCustomConfig stringify config =
     (case normalizeAdvancedCustomConfig config of
        Inl e \<Rightarrow> Inl e | Inr normalized \<Rightarrow> Inr (stringify (config_object normalized)))"

definition parseAdvancedCustomRouteModels :: "jstr \<Rightarrow> jstr list" where
  "parseAdvancedCustomRouteModels v = js_unique (filter (\<lambda>m. m \<noteq> []) (map trim (split_on 44 v)))"

definition getAdvancedCustomModelRuleKind :: "jstr \<Rightarrow> AdvancedCustomModelRuleKind" where
  "getAdvancedCustomModelRuleKind modelRule =
     (if prefix ADVANCED_CUSTOM_MODEL_REGEX_PREFIX modelRule then RegexRule else ExactRule)"

definition getAdvancedCustomRegexModelPattern :: "jstr \<Rightarrow> jstr" where
  "getAdvancedCustomRegexModelPattern modelRule = drop (length ADVANCED_CUSTOM_MODEL_REGEX_PREFIX) modelRule"

section \<open>Validation\<close>

definition validateRouteAuth :: "AdvancedCustomRouteAuth option \<Rightarrow> thrown + jstr option" where
  "validateRouteAuth auth =
     (case auth of None \<Rightarrow> Inr None
      | Some a \<Rightarrow>
          if auth_type a = JStr (js ''none'') then Inr None
          else if auth_type a \<noteq> JStr (js ''header'') \<and> auth_type a \<noteq> JStr (js ''query'')
            then Inr (Some (js ''Auth type is invalid''))
          else case optional_trim (auth_name a) of
            Inl e \<Rightarrow> Inl e
          | Inr name \<Rightarrow>
              if name = [] then Inr (Some (js ''Auth name is required''))
              else (case optional_trim (auth_value a) of
                Inl e \<Rightarrow> Inl e
              | Inr val \<Rightarrow> if val = [] then Inr (Some (js ''Auth value is required'')) else Inr None))"

text \<open>\<open>new_url\<close> gives the protocol and the host of \<open>new URL(text)\<close>, \<open>None\<close> where it throws.\<close>

type_synonym url_class = "jstr \<Rightarrow> (jstr \<times> jstr) option"

definition isFullHttpURLOrAbsolutePath :: "url_class \<Rightarrow> jstr \<Rightarrow> bool" where
  "isFullHttpURLOrAbsolutePath new_url v =
     (if prefix (js ''/'') v then \<not> prefix (js ''//'') v
      else case new_url v of None \<Rightarrow> False
        | Some (protocol, host) \<Rightarrow> host \<noteq> [] \<and> (protocol = js ''http:'' \<or> protocol = js ''https:''))"

text \<open>What the loop remembers of the routes of one incoming path, and altogether.\<close>

record PathRules =
  catchAllIndex :: "nat option"
  rule_models :: "jstr \<rightharpoonup> nat"

record ValidationState =
  routeModelsByPath :: "jstr \<rightharpoonup> PathRules"
  modelListRouteIndex :: "nat option"

definition path_rules :: "(jstr \<rightharpoonup> PathRules) \<Rightarrow> jstr \<Rightarrow> PathRules" where
  "path_rules m path = (case m path of Some state \<Rightarrow> state | None \<Rightarrow> \<lparr>catchAllIndex = None, rule_models = Map.empty\<rparr>)"

definition route_error :: "nat \<Rightarrow> string \<Rightarrow> AdvancedCustomValidationError" where
  "route_error index message = \<lparr>ve_message = js message, ve_routeIndex = Some index\<rparr>"

fun add_rules :: "nat \<Rightarrow> jstr set \<Rightarrow> jstr list \<Rightarrow> (jstr \<rightharpoonup> nat) \<Rightarrow> AdvancedCustomValidationError + (jstr \<rightharpoonup> nat)" where
  "add_rules index seenInRoute [] known = Inr known"
| "add_rules index seenInRoute (model # models) known =
     (if getAdvancedCustomModelRuleKind model = RegexRule \<and> getAdvancedCustomRegexModelPattern model = []
        then Inl (route_error index ''Model regex cannot be empty'')
      else if model \<in> seenInRoute then Inl (route_error index ''Duplicate model in route models'')
      else if model \<in> dom known
        then Inl (route_error index ''Route models must be unique for the same incoming path'')
      else add_rules index (insert model seenInRoute) models (known(model \<mapsto> index)))"

definition validateAdvancedCustomRouteModels ::
    "nat \<Rightarrow> jstr \<Rightarrow> jstr list \<Rightarrow> (jstr \<rightharpoonup> PathRules) \<Rightarrow> AdvancedCustomValidationError + (jstr \<rightharpoonup> PathRules)" where
  "validateAdvancedCustomRouteModels routeIndex incomingPath models m =
     (let state = path_rules m incomingPath in
      if models = [] then
        (if catchAllIndex state \<noteq> None
           then Inl (route_error routeIndex ''Only one catch-all route is allowed for the same incoming path'')
         else Inr (m(incomingPath \<mapsto> state\<lparr>catchAllIndex := Some routeIndex\<rparr>)))
      else if catchAllIndex state \<noteq> None
        then Inl (route_error routeIndex ''Catch-all route must be last for the same incoming path'')
      else case add_rules routeIndex {} models (rule_models state) of
        Inl e \<Rightarrow> Inl e
      | Inr known \<Rightarrow> Inr (m(incomingPath \<mapsto> state\<lparr>rule_models := known\<rparr>)))"

text \<open>The part of the loop body on the list of models, which a channel may declare once.\<close>

definition validate_model_list ::
    "nat \<Rightarrow> jstr \<Rightarrow> jstr \<Rightarrow> jval \<Rightarrow> jstr list \<Rightarrow> ValidationState \<Rightarrow> AdvancedCustomValidationError + ValidationState" where
  "validate_model_list index incomingPath upstream conv models state =
     (if incomingPath = ADVANCED_CUSTOM_MODEL_LIST_PATH then
        (if modelListRouteIndex state \<noteq> None
           then Inl (route_error index ''Only one OpenAI Models route is allowed'')
         else if models \<noteq> []
           then Inl (route_error index ''OpenAI Models route does not support client model rules'')
         else if conv \<noteq> JStr (js ''none'')
           then Inl (route_error index ''OpenAI Models route must use native forwarding'')
         else if js_includes upstream (js ''{model}'')
           then Inl (route_error index ''OpenAI Models upstream path must not contain {model}'')
         else Inr (state\<lparr>modelListRouteIndex := Some index\<rparr>))
      else Inr state)"

text \<open>The checks that do not depend on the routes before.\<close>

definition validate_target ::
    "url_class \<Rightarrow> nat \<Rightarrow> jstr \<Rightarrow> jstr \<Rightarrow> jval \<Rightarrow> AdvancedCustomRouteAuth option \<Rightarrow> thrown + AdvancedCustomValidationError option" where
  "validate_target new_url index incomingPath upstream conv auth =
     (if upstream = [] then Inr (Some (route_error index ''Upstream path is required''))
      else if \<not> isFullHttpURLOrAbsolutePath new_url upstream
        then Inr (Some (route_error index ''Upstream path must be a full URL or a path starting with /''))
      else if \<not> isAdvancedCustomConverter conv
        then Inr (Some (route_error index ''Converter is not registered''))
      else if \<not> isConverterPathAllowed incomingPath conv
        then Inr (Some (route_error index ''Converter does not match incoming path''))
      else case validateRouteAuth auth of
        Inl e \<Rightarrow> Inl e
      | Inr (Some message) \<Rightarrow> Inr (Some \<lparr>ve_message = message, ve_routeIndex = Some index\<rparr>)
      | Inr None \<Rightarrow> Inr None)"

text \<open>The loop body: the value is thrown, an error returned, or the state for the next route.\<close>

definition validate_route ::
    "url_class \<Rightarrow> nat \<Rightarrow> AdvancedCustomRoute \<Rightarrow> ValidationState \<Rightarrow> thrown + AdvancedCustomValidationError + ValidationState" where
  "validate_route new_url index route state =
     (case optional_trim (incoming_path route) of Inl e \<Rightarrow> Inl e | Inr incomingPath \<Rightarrow>
      case getAdvancedCustomRouteUpstreamPath route of Inl e \<Rightarrow> Inl e | Inr upstream \<Rightarrow>
      let conv = js_or (converter route) (JStr (js ''none'')) in
      case normalizeAdvancedCustomRouteModels (route_models route) of Inl e \<Rightarrow> Inl e | Inr routeModels \<Rightarrow>
      if incomingPath = [] then Inr (Inl (route_error index ''Incoming path is required''))
      else if \<not> prefix (js ''/'') incomingPath then Inr (Inl (route_error index ''Incoming path must start with /''))
      else if js_includes incomingPath (js ''?'') then Inr (Inl (route_error index ''Incoming path must not include query''))
      else case validate_model_list index incomingPath upstream conv routeModels state of
        Inl error \<Rightarrow> Inr (Inl error)
      | Inr state' \<Rightarrow>
          (case validateAdvancedCustomRouteModels index incomingPath routeModels (routeModelsByPath state') of
             Inl error \<Rightarrow> Inr (Inl error)
           | Inr m \<Rightarrow>
               (case validate_target new_url index incomingPath upstream conv (route_auth route) of
                  Inl e \<Rightarrow> Inl e
                | Inr (Some error) \<Rightarrow> Inr (Inl error)
                | Inr None \<Rightarrow> Inr (Inr (state'\<lparr>routeModelsByPath := m\<rparr>)))))"

fun validate_from ::
    "url_class \<Rightarrow> nat \<Rightarrow> AdvancedCustomRoute list \<Rightarrow> ValidationState \<Rightarrow> thrown + AdvancedCustomValidationError option" where
  "validate_from new_url index [] state = Inr None"
| "validate_from new_url index (route # routes) state =
     (case validate_route new_url index route state of
        Inl e \<Rightarrow> Inl e
      | Inr (Inl error) \<Rightarrow> Inr (Some error)
      | Inr (Inr state') \<Rightarrow> validate_from new_url (Suc index) routes state')"

definition validateAdvancedCustomConfig ::
    "url_class \<Rightarrow> AdvancedCustomConfig option \<Rightarrow> thrown + AdvancedCustomValidationError option" where
  "validateAdvancedCustomConfig new_url config =
     (case config of
        None \<Rightarrow> Inr (Some \<lparr>ve_message = js ''Advanced custom configuration is required'', ve_routeIndex = None\<rparr>)
      | Some c \<Rightarrow>
          (case normalizeAdvancedCustomConfig c of
             Inl e \<Rightarrow> Inl e
           | Inr routes \<Rightarrow>
               if routes = [] then Inr (Some \<lparr>ve_message =
                 js ''Advanced custom configuration requires at least one route'', ve_routeIndex = None\<rparr>)
               else validate_from new_url 0 routes \<lparr>routeModelsByPath = Map.empty, modelListRouteIndex = None\<rparr>))"

section \<open>What the forms ask of a configuration\<close>

definition hasValidAdvancedCustomModelListRoute :: "url_class \<Rightarrow> AdvancedCustomConfig option \<Rightarrow> thrown + bool" where
  "hasValidAdvancedCustomModelListRoute new_url config =
     (case config of None \<Rightarrow> Inr False
      | Some c \<Rightarrow>
          (case validateAdvancedCustomConfig new_url config of
             Inl e \<Rightarrow> Inl e
           | Inr (Some error) \<Rightarrow> Inr False
           | Inr None \<Rightarrow>
               (case normalizeAdvancedCustomConfig c of
                  Inl e \<Rightarrow> Inl e
                | Inr routes \<Rightarrow> (case map_throw (\<lambda>route. optional_trim (incoming_path route)) routes of
                    Inl e \<Rightarrow> Inl e
                  | Inr paths \<Rightarrow> Inr (ADVANCED_CUSTOM_MODEL_LIST_PATH \<in> set paths)))))"

definition advancedCustomConfigUsesRelativeUpstreamPath :: "AdvancedCustomConfig option \<Rightarrow> thrown + bool" where
  "advancedCustomConfigUsesRelativeUpstreamPath config =
     (case config of None \<Rightarrow> Inr False
      | Some c \<Rightarrow>
          (case normalizeAdvancedCustomConfig c of
             Inl e \<Rightarrow> Inl e
           | Inr routes \<Rightarrow> (case map_throw getAdvancedCustomRouteUpstreamPath routes of
               Inl e \<Rightarrow> Inl e
             | Inr paths \<Rightarrow> Inr (\<exists>path \<in> set paths. prefix (js ''/'') path))))"

text \<open>A label is a text, or a member every object inherits where the path is the name of one.\<close>

datatype RouteLabel = TextLabel jstr | InheritedLabel jstr

definition getAdvancedCustomRouteSummaryLabel :: "AdvancedCustomRoute \<Rightarrow> thrown + RouteLabel option" where
  "getAdvancedCustomRouteSummaryLabel route =
     (case optional_trim (incoming_path route) of
        Inl e \<Rightarrow> Inl e
      | Inr incomingPath \<Rightarrow>
          Inr (if incomingPath = [] then None
            else case map_of ADVANCED_CUSTOM_ROUTE_SUMMARY_LABELS incomingPath of
              Some label \<Rightarrow> Some (TextLabel label)
            | None \<Rightarrow> if incomingPath \<in> set object_prototype_names then Some (InheritedLabel incomingPath)
                else Some (TextLabel (getAdvancedCustomIncomingPathLabel incomingPath))))"

record AdvancedCustomStats =
  stats_routeCount :: nat
  stats_valid :: bool
  stats_routeTypeLabels :: "RouteLabel list"

definition getAdvancedCustomStats ::
    "(jstr \<Rightarrow> jval option) \<Rightarrow> url_class \<Rightarrow> jstr option \<Rightarrow> thrown + AdvancedCustomStats" where
  "getAdvancedCustomStats json_parse new_url v =
     (case parseAdvancedCustomConfig json_parse v of
        None \<Rightarrow> Inr \<lparr>stats_routeCount = 0, stats_valid = False, stats_routeTypeLabels = []\<rparr>
      | Some config \<Rightarrow>
          (case normalizeAdvancedCustomConfig config of Inl e \<Rightarrow> Inl e | Inr routes \<Rightarrow>
           case map_throw getAdvancedCustomRouteSummaryLabel routes of Inl e \<Rightarrow> Inl e | Inr labels \<Rightarrow>
           case validateAdvancedCustomConfig new_url (Some routes) of Inl e \<Rightarrow> Inl e | Inr error \<Rightarrow>
             Inr \<lparr>stats_routeCount = length routes, stats_valid = (error = None),
               stats_routeTypeLabels = js_unique (List.map_filter (\<lambda>l. l) labels)\<rparr>))"

definition getAdvancedCustomAuthMode :: "AdvancedCustomRoute \<Rightarrow> jval" where
  "getAdvancedCustomAuthMode route =
     (case route_auth route of None \<Rightarrow> JStr (js ''default'') | Some a \<Rightarrow> js_or (auth_type a) (JStr (js ''default'')))"

definition buildAdvancedCustomAuth :: "jval \<Rightarrow> AdvancedCustomRouteAuth option \<Rightarrow> AdvancedCustomRouteAuth option" where
  "buildAdvancedCustomAuth mode previousAuth =
     (let previous = (\<lambda>field fallback. js_or (case previousAuth of None \<Rightarrow> JUndefined | Some a \<Rightarrow> field a) (JStr (js fallback))) in
      if mode = JStr (js ''default'') then None
      else if mode = JStr (js ''none'')
        then Some \<lparr>auth_type = JStr (js ''none''), auth_name = JUndefined, auth_value = JUndefined\<rparr>
      else if mode = JStr (js ''header'')
        then Some \<lparr>auth_type = JStr (js ''header''), auth_name = previous auth_name ''Authorization'',
          auth_value = previous auth_value ''Bearer {api_key}''\<rparr>
      else Some \<lparr>auth_type = JStr (js ''query''), auth_name = previous auth_name ''api_key'',
        auth_value = previous auth_value ''{api_key}''\<rparr>)"

section \<open>The normal form is reached in one step\<close>

lemma js_or_idem [simp]: "js_or (js_or v w) w = js_or v w"
  by (simp add: js_or_def)

lemma normalize_models_elems:
  "normalizeAdvancedCustomRouteModels v = Inr ms \<Longrightarrow> m \<in> set ms \<Longrightarrow> trim m = m \<and> m \<noteq> []"
  by (auto simp: normalizeAdvancedCustomRouteModels_def trim_value_Inr_iff
      dest!: map_throw_in split: jval.splits sum.splits)

lemma normalize_models_fixed:
  assumes "\<And>m. m \<in> set ms \<Longrightarrow> trim m = m \<and> m \<noteq> []"
  shows "normalizeAdvancedCustomRouteModels (JArr (map JStr ms)) = Inr ms"
proof -
  have "map_throw trim_value (map JStr ms) = Inr (map str_of (map JStr ms))"
    using assms by (intro map_throw_total) auto
  also have "map str_of (map JStr ms) = ms" by (simp add: comp_def)
  finally show ?thesis using assms by (simp add: normalizeAdvancedCustomRouteModels_def)
qed

lemma normalize_auth_idem [simp]: "normalizeAdvancedCustomAuth (normalizeAdvancedCustomAuth a) = normalizeAdvancedCustomAuth a"
  by (simp add: normalizeAdvancedCustomAuth_def)

lemma normalize_route_idem:
  assumes "normalizeAdvancedCustomRoute r = Inr r'"
  shows "normalizeAdvancedCustomRoute r' = Inr r'"
proof -
  obtain up ms where up: "getAdvancedCustomRouteUpstreamPath r = Inr up"
    and ms: "normalizeAdvancedCustomRouteModels (route_models r) = Inr ms"
    using assms by (auto simp: normalizeAdvancedCustomRoute_def split: sum.splits)
  have trimmed: "trim up = up"
    using up by (auto simp: getAdvancedCustomRouteUpstreamPath_def trim_value_Inr_iff)
  have models: "normalizeAdvancedCustomRouteModels (if ms = [] then JUndefined else JArr (map JStr ms)) = Inr ms"
    using normalize_models_fixed[OF normalize_models_elems[OF ms]]
    by (simp add: normalizeAdvancedCustomRouteModels_def)
  have r': "r' = \<lparr>incoming_path = js_or (incoming_path r) (JStr []), upstream_path = JStr up,
      converter = js_or (converter r) (JStr (js ''none'')),
      route_models = (if ms = [] then JUndefined else JArr (map JStr ms)),
      route_auth = map_option normalizeAdvancedCustomAuth (route_auth r)\<rparr>"
    using assms up ms by (simp add: normalizeAdvancedCustomRoute_def)
  have up': "getAdvancedCustomRouteUpstreamPath r' = Inr up"
    using trimmed by (cases up) (auto simp: r' getAdvancedCustomRouteUpstreamPath_def js_or_def)
  show ?thesis
    using up' models by (auto simp: normalizeAdvancedCustomRoute_def r' option.map_comp comp_def)
qed

interpretation route_form: normaliser normalizeAdvancedCustomRoute
  by unfold_locales (rule normalize_route_idem)

interpretation config_form: normaliser normalizeAdvancedCustomConfig
  by unfold_locales (auto simp: normalizeAdvancedCustomConfig_def intro: route_form.map_norm_idem)

lemmas normalize_config_idem = config_form.norm_idem

text \<open>What is written is read back: the properties left out are those that read as \<open>undefined\<close>.\<close>

lemma jget_defined_props:
  "distinct (map fst ps) \<Longrightarrow> jget (JObj (defined_props ps)) k = jget (JObj ps) k"
proof (induction ps)
  case (Cons p ps)
  have "map_of (defined_props ps) (fst p) = None"
    using Cons.prems by (force simp: defined_props_def map_of_eq_None_iff)
  then show ?case using Cons
    by (cases p) (auto simp: defined_props_def)
qed (simp add: defined_props_def)

lemma read_auth_object: "read_auth (auth_object a) = Some a"
  unfolding read_auth_def auth_object_def by (subst (1 2 3) jget_defined_props) auto

lemma read_route_object: "read_route (route_object r) = Inr r"
  unfolding read_route_def route_object_def nullish_def
  by (subst (1 2 3 4 5) jget_defined_props) (auto simp: read_auth_object read_auth_def[of JUndefined] split: option.splits)

lemma read_config_object: "read_config (config_object rs) = Inr rs"
  by (simp add: read_config_def config_object_def read_route_object map_throw_Inr_iff list_all2_map1 list_all2_same)

text \<open>The value \<open>JSON\<close> is given for a configuration; a text of an object is not blank.\<close>

definition json_keeps :: "(jstr \<Rightarrow> jval option) \<Rightarrow> (jval \<Rightarrow> jstr) \<Rightarrow> jval \<Rightarrow> bool" where
  "json_keeps json_parse stringify v \<longleftrightarrow> json_parse (stringify v) = Some v \<and> trim (stringify v) \<noteq> []"

lemma parse_stringified:
  assumes norm: "normalizeAdvancedCustomConfig c = Inr c'"
    and json: "json_keeps json_parse stringify (config_object c')"
  shows "stringifyAdvancedCustomConfig stringify c = Inr (stringify (config_object c'))"
    and "parseAdvancedCustomConfig json_parse (Some (stringify (config_object c'))) = Some c'"
proof -
  show "stringifyAdvancedCustomConfig stringify c = Inr (stringify (config_object c'))"
    using norm by (simp add: stringifyAdvancedCustomConfig_def)
  have "is_object (config_object c')" "\<not> is_array (config_object c')" by (simp_all add: config_object_def)
  then show "parseAdvancedCustomConfig json_parse (Some (stringify (config_object c'))) = Some c'"
    using json normalize_config_idem[OF norm]
    by (simp add: parseAdvancedCustomConfig_def json_keeps_def read_config_object)
qed

section \<open>What the validation accepts\<close>

text \<open>The rules as a reader of the documentation would state them: of one route, and of two routes of
  which the first stands before the second.\<close>

definition route_path :: "AdvancedCustomRoute \<Rightarrow> jstr" where
  "route_path r = trim (str_of (incoming_path r))"

definition route_upstream :: "AdvancedCustomRoute \<Rightarrow> jstr" where
  "route_upstream r = trim (str_of (upstream_path r))"

definition route_rules :: "AdvancedCustomRoute \<Rightarrow> jstr list" where
  "route_rules r = (case normalizeAdvancedCustomRouteModels (route_models r) of Inr ms \<Rightarrow> ms | Inl e \<Rightarrow> [])"

definition not_blank :: "jval \<Rightarrow> bool" where
  "not_blank v \<longleftrightarrow> is_string v \<and> trim (str_of v) \<noteq> []"

definition auth_ok :: "AdvancedCustomRouteAuth option \<Rightarrow> bool" where
  "auth_ok auth \<longleftrightarrow> (case auth of None \<Rightarrow> True
     | Some a \<Rightarrow> auth_type a = JStr (js ''none'')
         \<or> (auth_type a = JStr (js ''header'') \<or> auth_type a = JStr (js ''query''))
           \<and> not_blank (auth_name a) \<and> not_blank (auth_value a))"

definition route_ok :: "url_class \<Rightarrow> AdvancedCustomRoute \<Rightarrow> bool" where
  "route_ok new_url r \<longleftrightarrow>
     is_string (incoming_path r) \<and> prefix (js ''/'') (route_path r) \<and> \<not> js_includes (route_path r) (js ''?'')
   \<and> (route_path r = ADVANCED_CUSTOM_MODEL_LIST_PATH \<longrightarrow>
        route_rules r = [] \<and> converter r = JStr (js ''none'') \<and> \<not> js_includes (route_upstream r) (js ''{model}''))
   \<and> distinct (route_rules r) \<and> js ''re:'' \<notin> set (route_rules r)
   \<and> route_upstream r \<noteq> [] \<and> isFullHttpURLOrAbsolutePath new_url (route_upstream r)
   \<and> isAdvancedCustomConverter (converter r) \<and> isConverterPathAllowed (route_path r) (converter r)
   \<and> auth_ok (route_auth r)"

definition exclusive :: "AdvancedCustomRoute \<Rightarrow> AdvancedCustomRoute \<Rightarrow> bool" where
  "exclusive r r' \<longleftrightarrow> (route_path r = route_path r' \<longrightarrow>
     route_rules r \<noteq> [] \<and> set (route_rules r) \<inter> set (route_rules r') = {})"

text \<open>What the state of the loop says of the routes checked so far.\<close>

definition records :: "ValidationState \<Rightarrow> AdvancedCustomRoute list \<Rightarrow> bool" where
  "records st ds \<longleftrightarrow>
     (\<forall>p. (catchAllIndex (path_rules (routeModelsByPath st) p) \<noteq> None \<longleftrightarrow> (\<exists>d \<in> set ds. route_path d = p \<and> route_rules d = []))
        \<and> dom (rule_models (path_rules (routeModelsByPath st) p)) = (\<Union>d \<in> {d \<in> set ds. route_path d = p}. set (route_rules d)))
   \<and> (modelListRouteIndex st \<noteq> None \<longleftrightarrow> (\<exists>d \<in> set ds. route_path d = ADVANCED_CUSTOM_MODEL_LIST_PATH))
   \<and> (\<forall>d \<in> set ds. route_path d = ADVANCED_CUSTOM_MODEL_LIST_PATH \<longrightarrow> route_rules d = [])"

lemma empty_regex_iff:
  "getAdvancedCustomModelRuleKind m = RegexRule \<and> getAdvancedCustomRegexModelPattern m = [] \<longleftrightarrow> m = js ''re:''"
  by (auto simp: getAdvancedCustomModelRuleKind_def getAdvancedCustomRegexModelPattern_def
      ADVANCED_CUSTOM_MODEL_REGEX_PREFIX_def elim: prefixE)

lemma add_rules_Inr_iff:
  "add_rules i seen ms known = Inr known' \<longleftrightarrow>
     js ''re:'' \<notin> set ms \<and> distinct ms \<and> set ms \<inter> (seen \<union> dom known) = {}
     \<and> known' = known ++ (\<lambda>m. if m \<in> set ms then Some i else None)"
proof (induction ms arbitrary: seen known)
  case Nil
  then show ?case by (auto simp: map_add_def)
next
  case (Cons m ms)
  have "known(m \<mapsto> i) ++ (\<lambda>x. if x \<in> set ms then Some i else None)
      = known ++ (\<lambda>x. if x \<in> set (m # ms) then Some i else None)"
    by (auto simp: map_add_def fun_eq_iff)
  then show ?case by (auto simp: Cons.IH empty_regex_iff simp del: fun_upd_apply)
qed

lemma dom_add_rules: "dom (known ++ (\<lambda>m. if m \<in> set ms then Some i else None)) = dom known \<union> set ms"
  by (auto simp: dom_def)

lemma path_rules_upd [simp]: "path_rules (m(p \<mapsto> s)) q = (if q = p then s else path_rules m q)"
  by (simp add: path_rules_def)

lemma validate_models_Inr:
  assumes rec: "records st ds"
  shows "(\<exists>m. validateAdvancedCustomRouteModels i (route_path r) (route_rules r) (routeModelsByPath st) = Inr m)
     \<longleftrightarrow> js ''re:'' \<notin> set (route_rules r) \<and> distinct (route_rules r) \<and> (\<forall>d \<in> set ds. exclusive d r)"
proof -
  let ?s = "path_rules (routeModelsByPath st) (route_path r)"
  have ca: "catchAllIndex ?s \<noteq> None \<longleftrightarrow> (\<exists>d \<in> set ds. route_path d = route_path r \<and> route_rules d = [])"
    and dm: "dom (rule_models ?s) = (\<Union>d \<in> {d \<in> set ds. route_path d = route_path r}. set (route_rules d))"
    using rec unfolding records_def by blast+
  show ?thesis
  proof (cases "route_rules r = []")
    case True
    then show ?thesis using ca by (auto simp: validateAdvancedCustomRouteModels_def Let_def exclusive_def)
  next
    case False
    then have "(\<exists>m. validateAdvancedCustomRouteModels i (route_path r) (route_rules r) (routeModelsByPath st) = Inr m)
        \<longleftrightarrow> catchAllIndex ?s = None \<and> (\<exists>known. add_rules i {} (route_rules r) (rule_models ?s) = Inr known)"
      by (auto simp: validateAdvancedCustomRouteModels_def Let_def split: sum.splits)
    then show ?thesis using ca dm by (auto simp: add_rules_Inr_iff exclusive_def)
  qed
qed

lemma validate_models_state:
  assumes "validateAdvancedCustomRouteModels i p ms m = Inr m'"
  shows "catchAllIndex (path_rules m' q) \<noteq> None \<longleftrightarrow> catchAllIndex (path_rules m q) \<noteq> None \<or> q = p \<and> ms = []"
    and "dom (rule_models (path_rules m' q)) = dom (rule_models (path_rules m q)) \<union> (if q = p then set ms else {})"
  using assms by (auto simp: validateAdvancedCustomRouteModels_def Let_def add_rules_Inr_iff dom_add_rules
      split: if_splits sum.splits)

lemma optional_trim_nonempty: "optional_trim v = Inr s \<Longrightarrow> s \<noteq> [] \<longleftrightarrow> not_blank v"
  by (cases v) (auto simp: optional_trim_def not_blank_def nullish_def)

lemma optional_trim_blank: "not_blank v \<Longrightarrow> optional_trim v = Inr (trim (str_of v))"
  by (cases v) (auto simp: optional_trim_def not_blank_def nullish_def)

lemma validate_auth_iff: "validateRouteAuth auth = Inr None \<longleftrightarrow> auth_ok auth"
proof (cases auth)
  case (Some a)
  show ?thesis
  proof (cases "auth_type a = JStr (js ''header'') \<or> auth_type a = JStr (js ''query'')")
    case True
    then have "validateRouteAuth auth = Inr None \<longleftrightarrow> (\<exists>n v. optional_trim (auth_name a) = Inr n \<and> n \<noteq> []
        \<and> optional_trim (auth_value a) = Inr v \<and> v \<noteq> [])"
      by (auto simp: validateRouteAuth_def Some split: sum.splits if_splits)
    also have "\<dots> \<longleftrightarrow> not_blank (auth_name a) \<and> not_blank (auth_value a)"
      using optional_trim_nonempty optional_trim_blank by (metis not_blank_def)
    also have "\<dots> \<longleftrightarrow> auth_ok auth" using True by (auto simp: auth_ok_def Some)
    finally show ?thesis .
  qed (auto simp: validateRouteAuth_def auth_ok_def Some)
qed (simp add: validateRouteAuth_def auth_ok_def)

lemma validate_target_iff:
  "validate_target new_url i p up conv auth = Inr None \<longleftrightarrow>
     up \<noteq> [] \<and> isFullHttpURLOrAbsolutePath new_url up \<and> isAdvancedCustomConverter conv
     \<and> isConverterPathAllowed p conv \<and> auth_ok auth"
  by (auto simp: validate_target_def simp flip: validate_auth_iff split: sum.splits option.splits)

lemma validate_model_list_iff:
  "validate_model_list i p up conv ms st = Inr st' \<longleftrightarrow>
     (if p = ADVANCED_CUSTOM_MODEL_LIST_PATH
      then modelListRouteIndex st = None \<and> ms = [] \<and> conv = JStr (js ''none'') \<and> \<not> js_includes up (js ''{model}'')
         \<and> st' = st\<lparr>modelListRouteIndex := Some i\<rparr>
      else st' = st)"
  by (auto simp: validate_model_list_def)

text \<open>A route in normal form has a text as its upstream path, a converter that is truthy, and rules.\<close>

lemma normal_route_views:
  assumes "normalizeAdvancedCustomRoute r = Inr r"
  shows "getAdvancedCustomRouteUpstreamPath r = Inr (route_upstream r)"
    and "js_or (converter r) (JStr (js ''none'')) = converter r"
    and "normalizeAdvancedCustomRouteModels (route_models r) = Inr (route_rules r)"
proof -
  obtain up ms where up: "getAdvancedCustomRouteUpstreamPath r = Inr up"
    and ms: "normalizeAdvancedCustomRouteModels (route_models r) = Inr ms"
    and r: "r = \<lparr>incoming_path = js_or (incoming_path r) (JStr []), upstream_path = JStr up,
      converter = js_or (converter r) (JStr (js ''none'')),
      route_models = (if ms = [] then JUndefined else JArr (map JStr ms)),
      route_auth = map_option normalizeAdvancedCustomAuth (route_auth r)\<rparr>"
    using assms by (auto simp: normalizeAdvancedCustomRoute_def split: sum.splits)
  have "upstream_path r = JStr up" by (subst r) simp
  moreover have "trim up = up" using up by (auto simp: getAdvancedCustomRouteUpstreamPath_def trim_value_Inr_iff)
  ultimately show "getAdvancedCustomRouteUpstreamPath r = Inr (route_upstream r)" using up by (simp add: route_upstream_def)
  have "converter r = js_or (converter r) (JStr (js ''none''))" using arg_cong[OF r, of converter] by simp
  then show "js_or (converter r) (JStr (js ''none'')) = converter r" by simp
  show "normalizeAdvancedCustomRouteModels (route_models r) = Inr (route_rules r)" by (simp add: route_rules_def ms)
qed

lemma validate_route_steps:
  assumes norm: "normalizeAdvancedCustomRoute r = Inr r"
  shows "validate_route new_url i r st = Inr (Inr st') \<longleftrightarrow>
     is_string (incoming_path r) \<and> prefix (js ''/'') (route_path r) \<and> \<not> js_includes (route_path r) (js ''?'')
   \<and> (\<exists>st1 m. validate_model_list i (route_path r) (route_upstream r) (converter r) (route_rules r) st = Inr st1
        \<and> validateAdvancedCustomRouteModels i (route_path r) (route_rules r) (routeModelsByPath st1) = Inr m
        \<and> validate_target new_url i (route_path r) (route_upstream r) (converter r) (route_auth r) = Inr None
        \<and> st' = st1\<lparr>routeModelsByPath := m\<rparr>)"
proof -
  have path: "optional_trim (incoming_path r) = Inr p \<and> p \<noteq> [] \<longleftrightarrow> is_string (incoming_path r) \<and> p = route_path r \<and> p \<noteq> []" for p
    by (cases "incoming_path r") (auto simp: optional_trim_def nullish_def route_path_def)
  have "validate_route new_url i r st = Inr (Inr st') \<longleftrightarrow>
     (\<exists>p. (optional_trim (incoming_path r) = Inr p \<and> p \<noteq> []) \<and> prefix (js ''/'') p \<and> \<not> js_includes p (js ''?'')
   \<and> (\<exists>st1 m. validate_model_list i p (route_upstream r) (converter r) (route_rules r) st = Inr st1
        \<and> validateAdvancedCustomRouteModels i p (route_rules r) (routeModelsByPath st1) = Inr m
        \<and> validate_target new_url i p (route_upstream r) (converter r) (route_auth r) = Inr None
        \<and> st' = st1\<lparr>routeModelsByPath := m\<rparr>))"
    unfolding validate_route_def normal_route_views[OF norm] Let_def
    by (auto split: sum.splits option.splits if_splits)
  then show ?thesis unfolding path by (auto simp: js_def)
qed

lemma validate_route_iff:
  assumes norm: "normalizeAdvancedCustomRoute r = Inr r" and rec: "records st ds"
  shows "(\<exists>st'. validate_route new_url i r st = Inr (Inr st')) \<longleftrightarrow> route_ok new_url r \<and> (\<forall>d \<in> set ds. exclusive d r)"
proof -
  let ?p = "route_path r" and ?list = "ADVANCED_CUSTOM_MODEL_LIST_PATH"
  have only: "modelListRouteIndex st = None" if "?p = ?list" "\<forall>d \<in> set ds. exclusive d r"
    using that rec by (auto simp: records_def exclusive_def)
  have "(\<exists>st'. validate_route new_url i r st = Inr (Inr st')) \<longleftrightarrow>
     is_string (incoming_path r) \<and> prefix (js ''/'') ?p \<and> \<not> js_includes ?p (js ''?'')
   \<and> (?p = ?list \<longrightarrow> modelListRouteIndex st = None \<and> route_rules r = [] \<and> converter r = JStr (js ''none'')
        \<and> \<not> js_includes (route_upstream r) (js ''{model}''))
   \<and> (\<exists>m. validateAdvancedCustomRouteModels i ?p (route_rules r) (routeModelsByPath st) = Inr m)
   \<and> validate_target new_url i ?p (route_upstream r) (converter r) (route_auth r) = Inr None"
    unfolding validate_route_steps[OF norm] validate_model_list_iff by (cases "?p = ?list") auto
  then show ?thesis
    unfolding validate_models_Inr[OF rec] validate_target_iff route_ok_def using only by blast
qed

lemma validate_route_records:
  assumes norm: "normalizeAdvancedCustomRoute r = Inr r" and rec: "records st ds"
    and step: "validate_route new_url i r st = Inr (Inr st')"
  shows "records st' (ds @ [r])"
proof -
  let ?p = "route_path r" and ?list = "ADVANCED_CUSTOM_MODEL_LIST_PATH"
  obtain st1 m where st1: "validate_model_list i ?p (route_upstream r) (converter r) (route_rules r) st = Inr st1"
    and m: "validateAdvancedCustomRouteModels i ?p (route_rules r) (routeModelsByPath st1) = Inr m"
    and st': "st' = st1\<lparr>routeModelsByPath := m\<rparr>"
    using step unfolding validate_route_steps[OF norm] by blast
  have same: "routeModelsByPath st1 = routeModelsByPath st"
    and idx: "modelListRouteIndex st' \<noteq> None \<longleftrightarrow> modelListRouteIndex st \<noteq> None \<or> ?p = ?list"
    and empty: "?p = ?list \<longrightarrow> route_rules r = []"
    using st1 st' by (auto simp: validate_model_list_iff split: if_splits)
  have "catchAllIndex (path_rules m q) \<noteq> None \<longleftrightarrow> (\<exists>d \<in> set (ds @ [r]). route_path d = q \<and> route_rules d = [])"
    and "dom (rule_models (path_rules m q)) = (\<Union>d \<in> {d \<in> set (ds @ [r]). route_path d = q}. set (route_rules d))" for q
    using validate_models_state[OF m, of q] rec by (auto simp: records_def same)
  then show ?thesis using rec idx empty by (auto simp: records_def st')
qed

lemma validate_from_iff:
  assumes "\<forall>r \<in> set rs. normalizeAdvancedCustomRoute r = Inr r" "records st ds"
  shows "validate_from new_url i rs st = Inr None \<longleftrightarrow>
     (\<forall>r \<in> set rs. route_ok new_url r) \<and> sorted_wrt exclusive rs \<and> (\<forall>d \<in> set ds. \<forall>r \<in> set rs. exclusive d r)"
  using assms
proof (induction rs arbitrary: i st ds)
  case (Cons r rs)
  have norm: "normalizeAdvancedCustomRoute r = Inr r" using Cons.prems by simp
  show ?case
  proof (cases "\<exists>st'. validate_route new_url i r st = Inr (Inr st')")
    case True
    then obtain st' where st': "validate_route new_url i r st = Inr (Inr st')" by blast
    have "validate_from new_url i (r # rs) st = Inr None \<longleftrightarrow> validate_from new_url (Suc i) rs st' = Inr None"
      by (simp add: st')
    also have "\<dots> \<longleftrightarrow> (\<forall>r \<in> set rs. route_ok new_url r) \<and> sorted_wrt exclusive rs
        \<and> (\<forall>d \<in> set (ds @ [r]). \<forall>r \<in> set rs. exclusive d r)"
      using Cons.prems validate_route_records[OF norm Cons.prems(2) st'] by (intro Cons.IH) auto
    finally show ?thesis using True validate_route_iff[OF norm Cons.prems(2)] by auto
  next
    case False
    then have "validate_from new_url i (r # rs) st \<noteq> Inr None" by (auto split: sum.splits)
    moreover have "\<not> (route_ok new_url r \<and> (\<forall>d \<in> set ds. exclusive d r))"
      using False validate_route_iff[OF norm Cons.prems(2)] by blast
    ultimately show ?thesis by auto
  qed
qed simp

lemma records_start: "records \<lparr>routeModelsByPath = Map.empty, modelListRouteIndex = None\<rparr> []"
  by (simp add: records_def path_rules_def)

lemma normal_routes: "normalizeAdvancedCustomConfig c = Inr rs \<Longrightarrow> r \<in> set rs \<Longrightarrow> normalizeAdvancedCustomRoute r = Inr r"
  by (auto simp: normalizeAdvancedCustomConfig_def intro: route_form.map_norm_elem)

lemma validate_config_iff:
  "validateAdvancedCustomConfig new_url (Some c) = Inr None \<longleftrightarrow>
     (\<exists>rs. normalizeAdvancedCustomConfig c = Inr rs \<and> rs \<noteq> [] \<and> (\<forall>r \<in> set rs. route_ok new_url r) \<and> sorted_wrt exclusive rs)"
proof (cases "normalizeAdvancedCustomConfig c")
  case (Inr rs)
  then show ?thesis
    using validate_from_iff[OF _ records_start, of rs new_url 0] normal_routes[OF Inr]
    by (auto simp: validateAdvancedCustomConfig_def)
qed (simp add: validateAdvancedCustomConfig_def)

section \<open>Properties\<close>

text \<open>Texts without spaces at their ends are trimmed already.\<close>

lemma trim_js [simp]:
  "s \<noteq> [] \<Longrightarrow> \<not> is_space (of_char (hd s)) \<Longrightarrow> \<not> is_space (of_char (last s)) \<Longrightarrow> trim (js s) = js s"
  by (rule trim_fixed) (simp add: js_def hd_map last_map)

lemma js_prefix_iff [simp]: "prefix (js s) (js t) \<longleftrightarrow> prefix s t"
  by (auto simp: js_def prefix_def inj_map_eq_map inj_on_def map_eq_append_conv)

lemma js_includes_js: "js_includes (js s) (js t) \<longleftrightarrow> sublist t s"
proof
  assume "js_includes (js s) (js t)"
  then obtain u v where "js s = u @ js t @ v" by (auto simp: js_includes_iff_sublist sublist_def)
  then obtain a b c where "s = a @ b @ c" "js t = js b" by (auto simp: js_def map_eq_append_conv append_eq_map_conv)
  then show "sublist t s" by (simp add: sublist_appendI)
qed (force simp: js_includes_iff_sublist sublist_def js_append)

text \<open>C24. The validation is exact.  It lets a configuration through if and only if its normal form has a
  route, every route is in order by itself (a path that begins with a slash and has no query, rules
  that differ and no empty regular expression, an upstream path or http address, a registered
  converter that fits the path, complete authorisation, and nothing but native forwarding for the list
  of models), and of two routes with the same path the one before is not a catch-all and has no rule of
  the other.  So an accepted configuration leaves no choice: a rule of a path belongs to one route, and
  a catch-all stands last.\<close>

theorem validation_exact:
  "validateAdvancedCustomConfig new_url (Some c) = Inr None \<longleftrightarrow>
     (\<exists>rs. normalizeAdvancedCustomConfig c = Inr rs \<and> rs \<noteq> []
       \<and> (\<forall>r \<in> set rs. route_ok new_url r) \<and> sorted_wrt exclusive rs)"
  by (rule validate_config_iff)

definition sample_split :: AdvancedCustomConfig where
  "sample_split = [createAdvancedCustomRoute\<lparr>route_models := JArr [JStr (js ''gpt-4o''), JStr (js ''re:^o3'')]\<rparr>,
     createAdvancedCustomRoute]"

lemmas route_eval = route_ok_def exclusive_def route_path_def route_rules_def route_upstream_def auth_ok_def
  normalizeAdvancedCustomRouteModels_def isFullHttpURLOrAbsolutePath_def isAdvancedCustomConverter_def
  isConverterPathAllowed_def js_includes_js sublist_Cons_right is_space_def js_spaces_def

lemmas normal_eval = normalizeAdvancedCustomConfig_def normalizeAdvancedCustomRoute_def
  getAdvancedCustomRouteUpstreamPath_def normalizeAdvancedCustomRouteModels_def normalizeAdvancedCustomAuth_def
  js_or_def is_space_def js_spaces_def

lemma sample_split_normal: "normalizeAdvancedCustomConfig sample_split = Inr sample_split"
  by (simp add: sample_split_def createAdvancedCustomRoute_def openAIChatPath_def normal_eval)
lemmas builtin_eval = route_eval ADVANCED_CUSTOM_CONVERTER_OPTIONS_def ADVANCED_CUSTOM_MODEL_LIST_PATH_def
  openAIChatPath_def openAIResponsesPath_def claudeMessagesPath_def geminiGenerateContentPath_def
  bearerHeaderAuth_def apiKeyHeaderAuth_def geminiQueryAuth_def not_blank_def

lemma route_ok_created: "route_ok new_url createAdvancedCustomRoute"
  by (simp add: createAdvancedCustomRoute_def builtin_eval)

theorem validation_exact_witness:
  "validateAdvancedCustomConfig (\<lambda>_. None) (Some sample_split) = Inr None
   \<and> validateAdvancedCustomConfig (\<lambda>_. None) (Some (rev sample_split)) \<noteq> Inr None"
proof -
  have ok: "\<forall>r \<in> set sample_split. route_ok (\<lambda>_. None) r"
    using route_ok_created by (simp add: sample_split_def createAdvancedCustomRoute_def builtin_eval)
  have paths: "route_path r = openAIChatPath" if "r \<in> set sample_split" for r
    using that by (auto simp: sample_split_def createAdvancedCustomRoute_def builtin_eval)
  have rules: "map route_rules sample_split = [[js ''gpt-4o'', js ''re:^o3''], []]"
    by (simp add: sample_split_def createAdvancedCustomRoute_def builtin_eval)
  have ordered: "sorted_wrt exclusive sample_split" and unordered: "\<not> sorted_wrt exclusive (rev sample_split)"
    using paths rules by (auto simp: sample_split_def exclusive_def)
  have "normalizeAdvancedCustomConfig (rev sample_split) = Inr (rev sample_split)"
    by (simp add: sample_split_def createAdvancedCustomRoute_def openAIChatPath_def normal_eval)
  then have "validateAdvancedCustomConfig (\<lambda>_. None) (Some (rev sample_split)) \<noteq> Inr None"
    using unordered by (subst validation_exact) simp
  moreover have "validateAdvancedCustomConfig (\<lambda>_. None) (Some sample_split) = Inr None"
    unfolding validation_exact using ok ordered sample_split_normal by (auto simp: sample_split_def)
  ultimately show ?thesis by simp
qed

text \<open>C25. Saving keeps the routes.  A configuration that can be brought into its normal form is written as
  that form; the text is read back as it, whatever the configuration was; reading and writing again
  change nothing; and the validation says the same of the configuration and of what is read back.
  \<open>JSON\<close> is only relied on to read back the one object that is written.\<close>

theorem config_text_roundtrip:
  assumes "normalizeAdvancedCustomConfig c = Inr rs" and "json_keeps json_parse stringify (config_object rs)"
  shows "\<exists>text. stringifyAdvancedCustomConfig stringify c = Inr text
     \<and> parseAdvancedCustomConfig json_parse (Some text) = Some rs
     \<and> stringifyAdvancedCustomConfig stringify rs = Inr text
     \<and> validateAdvancedCustomConfig new_url (Some rs) = validateAdvancedCustomConfig new_url (Some c)"
proof (intro exI conjI)
  show "validateAdvancedCustomConfig new_url (Some rs) = validateAdvancedCustomConfig new_url (Some c)"
    using assms(1) normalize_config_idem[OF assms(1)] by (simp add: validateAdvancedCustomConfig_def)
qed (use assms parse_stringified normalize_config_idem in blast)+

theorem config_text_roundtrip_witness:
  "\<exists>text. stringifyAdvancedCustomConfig (\<lambda>v. js ''{}'') sample_split = Inr text
     \<and> parseAdvancedCustomConfig (\<lambda>s. Some (config_object sample_split)) (Some text) = Some sample_split
     \<and> stringifyAdvancedCustomConfig (\<lambda>v. js ''{}'') sample_split = Inr text
     \<and> validateAdvancedCustomConfig (\<lambda>_. None) (Some sample_split) = validateAdvancedCustomConfig (\<lambda>_. None) (Some sample_split)"
  by (rule config_text_roundtrip[OF sample_split_normal])
    (simp add: json_keeps_def is_space_def js_spaces_def)

text \<open>The route with what is filled in for a path and a converter.\<close>

definition default_route :: "jstr \<Rightarrow> jval \<Rightarrow> AdvancedCustomRoute" where
  "default_route path conv = \<lparr>incoming_path = JStr path,
     upstream_path = JStr (cd_upstream_path (getAdvancedCustomConverterDefaults conv path)), converter = conv,
     route_models = JUndefined, route_auth = Some (cd_auth (getAdvancedCustomConverterDefaults conv path))\<rparr>"
lemma accepted_if:
  assumes "rs \<noteq> []" "\<forall>r \<in> set rs. normalizeAdvancedCustomRoute r = Inr r \<and> route_ok new_url r" "sorted_wrt exclusive rs"
  shows "validateAdvancedCustomConfig new_url (Some rs) = Inr None"
  using assms route_form.map_norm_fixed[of rs] unfolding validate_config_iff normalizeAdvancedCustomConfig_def by blast

lemma sample_accepted: "validateAdvancedCustomConfig new_url (Some sample_split) = Inr None"
proof (rule accepted_if)
  show "sample_split \<noteq> []" by (simp add: sample_split_def)
  show "\<forall>r \<in> set sample_split. normalizeAdvancedCustomRoute r = Inr r \<and> route_ok new_url r"
    using normal_routes[OF sample_split_normal] route_ok_created
    by (auto simp: sample_split_def createAdvancedCustomRoute_def builtin_eval)
  show "sorted_wrt exclusive sample_split"
    by (simp add: sample_split_def createAdvancedCustomRoute_def builtin_eval)
qed

lemma templates_in_order:
  "\<forall>template \<in> set ADVANCED_CUSTOM_TEMPLATE_OPTIONS. to_config template \<noteq> []
     \<and> (\<forall>r \<in> set (to_config template). normalizeAdvancedCustomRoute r = Inr r)"
  by (simp add: ADVANCED_CUSTOM_TEMPLATE_OPTIONS_def builtin_eval normal_eval)

lemma templates_ok:
  "\<forall>template \<in> set ADVANCED_CUSTOM_TEMPLATE_OPTIONS. \<forall>r \<in> set (to_config template). route_ok new_url r"
  by (simp add: ADVANCED_CUSTOM_TEMPLATE_OPTIONS_def builtin_eval)

lemma templates_exclusive:
  "\<forall>template \<in> set ADVANCED_CUSTOM_TEMPLATE_OPTIONS. sorted_wrt exclusive (to_config template)"
  by (simp add: ADVANCED_CUSTOM_TEMPLATE_OPTIONS_def builtin_eval)

lemma path_options_plain:
  "\<forall>option \<in> set ADVANCED_CUSTOM_INCOMING_PATH_OPTIONS. trim (ipo_value option) = ipo_value option
     \<and> prefix (js ''/'') (ipo_value option) \<and> \<not> prefix (js ''//'') (ipo_value option)
     \<and> \<not> js_includes (ipo_value option) (js ''?'')"
  by (simp add: ADVANCED_CUSTOM_INCOMING_PATH_OPTIONS_def builtin_eval)

lemma default_upstream:
  assumes "trim path = path" "path \<noteq> []"
  shows "cd_upstream_path (getAdvancedCustomConverterDefaults conv path)
     \<in> {path, openAIChatPath, openAIResponsesPath, claudeMessagesPath, geminiGenerateContentPath}"
    and "cd_upstream_path (getAdvancedCustomConverterDefaults (JStr (js ''none'')) path) = path"
  using assms by (simp_all add: getAdvancedCustomConverterDefaults_def Let_def)

lemma native_auth: "getAdvancedCustomNativeAuth path = bearerHeaderAuth \<or> getAdvancedCustomNativeAuth path = apiKeyHeaderAuth
    \<or> getAdvancedCustomNativeAuth path = geminiQueryAuth"
  by (simp add: getAdvancedCustomNativeAuth_def)

lemma default_auth:
  "cd_auth (getAdvancedCustomConverterDefaults conv path) \<in> {bearerHeaderAuth, apiKeyHeaderAuth, geminiQueryAuth}"
  by (simp add: getAdvancedCustomConverterDefaults_def Let_def native_auth)

lemma builtin_auth:
  assumes "a \<in> {bearerHeaderAuth, apiKeyHeaderAuth, geminiQueryAuth}"
  shows "auth_ok (Some a)" "normalizeAdvancedCustomAuth a = a"
  using assms by (auto simp: builtin_eval normalizeAdvancedCustomAuth_def js_or_def)

lemma builtin_paths:
  assumes "p \<in> {openAIChatPath, openAIResponsesPath, claudeMessagesPath, geminiGenerateContentPath}"
  shows "trim p = p" "prefix (js ''/'') p" "\<not> prefix (js ''//'') p"
  using assms by (auto simp: builtin_eval)

lemma model_list_converter:
  "isConverterPathAllowed ADVANCED_CUSTOM_MODEL_LIST_PATH conv \<Longrightarrow> conv = JStr (js ''none'')"
  by (simp add: builtin_eval split: if_splits)

lemma converter_values: "isAdvancedCustomConverter v \<Longrightarrow> truthy v"
  by (auto simp: isAdvancedCustomConverter_def ADVANCED_CUSTOM_CONVERTER_OPTIONS_def)

lemma default_route_ok:
  assumes path: "trim p = p" "prefix (js ''/'') p" "\<not> prefix (js ''//'') p" "\<not> js_includes p (js ''?'')"
    and conv: "isAdvancedCustomConverter conv" "isConverterPathAllowed p conv"
  shows "normalizeAdvancedCustomRoute (default_route p conv) = Inr (default_route p conv)"
    and "route_ok new_url (default_route p conv)"
proof -
  define up where "up = cd_upstream_path (getAdvancedCustomConverterDefaults conv p)"
  define a where "a = cd_auth (getAdvancedCustomConverterDefaults conv p)"
  have p: "p \<noteq> []" using path(2) by (auto simp: js_def)
  have "up = p \<or> up \<in> {openAIChatPath, openAIResponsesPath, claudeMessagesPath, geminiGenerateContentPath}"
    using default_upstream(1)[OF path(1) p, of conv] unfolding up_def by (simp only: insert_iff)
  then have up: "trim up = up" "prefix (js ''/'') up" "\<not> prefix (js ''//'') up"
    using path builtin_paths[of up] by metis+
  then have ne: "up \<noteq> []" by (auto simp: js_def)
  have a: "auth_ok (Some a)" "normalizeAdvancedCustomAuth a = a"
    using builtin_auth[OF default_auth] unfolding a_def by blast+
  have r: "default_route p conv = \<lparr>incoming_path = JStr p, upstream_path = JStr up, converter = conv,
      route_models = JUndefined, route_auth = Some a\<rparr>"
    by (simp add: default_route_def up_def a_def)
  have list: "conv = JStr (js ''none'') \<and> \<not> js_includes up (js ''{model}'')" if "p = ADVANCED_CUSTOM_MODEL_LIST_PATH"
  proof -
    have "conv = JStr (js ''none'')" using conv(2) that model_list_converter by blast
    then have "up = ADVANCED_CUSTOM_MODEL_LIST_PATH" using default_upstream(2)[OF path(1) p] that by (simp add: up_def)
    then show ?thesis using \<open>conv = _\<close> by (simp add: builtin_eval)
  qed
  show "normalizeAdvancedCustomRoute (default_route p conv) = Inr (default_route p conv)"
    using p ne up(1) a(2) converter_values[OF conv(1)]
    by (simp add: r normalizeAdvancedCustomRoute_def getAdvancedCustomRouteUpstreamPath_def
        normalizeAdvancedCustomRouteModels_def js_or_def)
  show "route_ok new_url (default_route p conv)"
    using path ne up a(1) conv list
    by (simp add: r route_ok_def route_path_def route_rules_def route_upstream_def
        normalizeAdvancedCustomRouteModels_def isFullHttpURLOrAbsolutePath_def)
qed

lemma native_allowed: "isConverterPathAllowed path (JStr (js ''none''))"
  by (simp add: isConverterPathAllowed_def)

lemma offered_converters:
  assumes "option \<in> set (getAdvancedCustomConverterOptions path)"
  shows "isAdvancedCustomConverter (JStr (co_value option))" "isConverterPathAllowed (trim path) (JStr (co_value option))"
  using assms by (auto simp: getAdvancedCustomConverterOptions_def isAdvancedCustomConverter_def native_allowed Let_def)

text \<open>Whatever the console offers is accepted: every template, and for every path of the list and every
  converter offered for it, the route with the upstream path and the authorisation filled in for them.\<close>

lemma offered_routes_accepted:
  "(\<forall>template \<in> set ADVANCED_CUSTOM_TEMPLATE_OPTIONS.
      validateAdvancedCustomConfig new_url (Some (to_config template)) = Inr None)
   \<and> (\<forall>path \<in> set ADVANCED_CUSTOM_INCOMING_PATH_OPTIONS. \<forall>conv \<in> set (getAdvancedCustomConverterOptions (ipo_value path)).
      validateAdvancedCustomConfig new_url (Some [default_route (ipo_value path) (JStr (co_value conv))]) = Inr None)"
proof (intro conjI ballI)
  fix template assume "template \<in> set ADVANCED_CUSTOM_TEMPLATE_OPTIONS"
  then show "validateAdvancedCustomConfig new_url (Some (to_config template)) = Inr None"
    using templates_in_order templates_ok[of new_url] templates_exclusive by (intro accepted_if) auto
next
  fix path conv assume path: "path \<in> set ADVANCED_CUSTOM_INCOMING_PATH_OPTIONS"
    and conv: "conv \<in> set (getAdvancedCustomConverterOptions (ipo_value path))"
  have "normalizeAdvancedCustomRoute (default_route (ipo_value path) (JStr (co_value conv))) = Inr (default_route (ipo_value path) (JStr (co_value conv)))
      \<and> route_ok new_url (default_route (ipo_value path) (JStr (co_value conv)))"
    using default_route_ok[of "ipo_value path" "JStr (co_value conv)"] path_options_plain path
      offered_converters[OF conv] by auto
  then show "validateAdvancedCustomConfig new_url (Some [default_route (ipo_value path) (JStr (co_value conv))]) = Inr None"
    by (intro accepted_if) auto
qed

text \<open>A path that is not a text passes the reading, which promises \<open>null\<close> for what is malformed, and the
  validation and the statistics throw on it.\<close>

lemma numeric_path_throws:
  assumes "json_parse s = Some (JObj [(js ''advanced_routes'', JArr [JObj [(js ''incoming_path'', JNum (Fin 5))]])])" "trim s \<noteq> []"
  shows "\<exists>c. parseAdvancedCustomConfig json_parse (Some s) = Some c \<and> validateAdvancedCustomConfig new_url (Some c) = Inl TypeError
     \<and> getAdvancedCustomStats json_parse new_url (Some s) = Inl TypeError"
  using assms by (simp add: parseAdvancedCustomConfig_def read_config_def read_route_def read_auth_def nullish_def
      normal_eval num_truthy_def validateAdvancedCustomConfig_def validate_route_def optional_trim_def
      getAdvancedCustomStats_def getAdvancedCustomRouteSummaryLabel_def)

end
