(* ===== verification/Route_Editor.thy ===== *)
theory Route_Editor
  imports Channel_Routes "HOL-Library.Multiset"
begin

text \<open>
  The dialog in which the routes of an advanced custom channel are edited, after
  \<open>features/channels/components/dialogs/advanced-custom-editor-dialog.tsx\<close>: its state, what a render
  computes from it, and every handler, in the visual mode and in the text mode.

  A render throws where the functions of \<open>Channel_Routes\<close> do; the handlers are those of a dialog that was
  rendered.  A handler that throws has changed nothing before it does.  Messages are kept by their keys,
  before translation.
\<close>

section \<open>State\<close>

datatype EditMode = VisualMode | JsonMode

record EditorState =
  ed_config :: AdvancedCustomConfig
  ed_keys :: "jval list"
  ed_counter :: nat
  ed_mode :: EditMode
  ed_jsonText :: jstr
  ed_jsonError :: jstr
  ed_templateKey :: jstr
  ed_open :: bool
  ed_saved :: "jstr list"
  ed_toasts :: "jstr list"

text \<open>What the dialog takes from the browser.\<close>

record EditorEnv =
  env_parse :: "jstr \<Rightarrow> jval option"
  env_stringify :: "jval \<Rightarrow> jstr"
  env_url :: url_class

record RouteRow =
  row_route :: AdvancedCustomRoute
  row_index :: nat
  row_key :: jval

type_synonym RouteGroup = "jstr \<times> RouteRow list"

record EditorView =
  view_routes :: "AdvancedCustomRoute list"
  view_rows :: "RouteRow list"
  view_groups :: "RouteGroup list"
  view_error :: "AdvancedCustomValidationError option"

definition getRouteIncomingPath :: "AdvancedCustomRoute \<Rightarrow> thrown + jstr" where
  "getRouteIncomingPath route = trim_value (js_or (incoming_path route) (JStr []))"

text \<open>The path of a route of a rendered dialog, where the function above has not thrown.\<close>

definition path_of :: "AdvancedCustomRoute \<Rightarrow> jstr" where
  "path_of route = (case getRouteIncomingPath route of Inr path \<Rightarrow> path | Inl e \<Rightarrow> [])"

fun js_length :: "jval \<Rightarrow> nat" where
  "js_length (JArr vs) = length vs"
| "js_length (JStr s) = length s"
| "js_length _ = 0"

text \<open>The models of a route are \<open>undefined\<close> or an array.\<close>

definition isCatchAllRoute :: "AdvancedCustomRoute \<Rightarrow> bool" where
  "isCatchAllRoute route \<longleftrightarrow> \<not> truthy (route_models route) \<or> js_length (route_models route) = 0"

text \<open>The map and the list of groups hold the same objects, so a group is found in the list.\<close>

fun push_row :: "jstr \<Rightarrow> RouteRow \<Rightarrow> RouteGroup list \<Rightarrow> RouteGroup list" where
  "push_row path row [] = [(path, [row])]"
| "push_row path row ((p, rows) # groups) =
     (if p = path then (p, rows @ [row]) # groups else (p, rows) # push_row path row groups)"

definition buildRouteGroups :: "RouteRow list \<Rightarrow> RouteGroup list" where
  "buildRouteGroups rows = fold (\<lambda>row groups. push_row (path_of (row_route row)) row groups) rows []"

section \<open>Render\<close>

definition row_keys :: "jval list \<Rightarrow> nat \<Rightarrow> AdvancedCustomRoute \<Rightarrow> jval" where
  "row_keys keys i route =
     js_or (if i < length keys then keys ! i else JUndefined)
       (js_or (incoming_path route) (js_or (upstream_path route)
         (js_or (converter route) (JStr (js ''advanced-custom-route'')))))"

definition route_rows :: "jval list \<Rightarrow> AdvancedCustomRoute list \<Rightarrow> RouteRow list" where
  "route_rows keys routes =
     map (\<lambda>(i, route). \<lparr>row_route = route, row_index = i, row_key = row_keys keys i route\<rparr>) (enumerate 0 routes)"

definition render_editor :: "EditorEnv \<Rightarrow> EditorState \<Rightarrow> thrown + EditorView" where
  "render_editor env st =
     (case normalizeAdvancedCustomConfig (ed_config st) of Inl e \<Rightarrow> Inl e | Inr routes \<Rightarrow>
      case map_throw getRouteIncomingPath routes of Inl e \<Rightarrow> Inl e | Inr paths \<Rightarrow>
      case validateAdvancedCustomConfig (env_url env) (Some routes) of Inl e \<Rightarrow> Inl e | Inr error \<Rightarrow>
        let rows = route_rows (ed_keys st) routes in
        Inr \<lparr>view_routes = routes, view_rows = rows, view_groups = buildRouteGroups rows, view_error = error\<rparr>)"

definition usedIncomingPaths :: "EditorView \<Rightarrow> jstr set" where
  "usedIncomingPaths view = set (map fst (view_groups view))"

definition availableIncomingPathOptions :: "EditorView \<Rightarrow> AdvancedCustomIncomingPathOption list" where
  "availableIncomingPathOptions view =
     filter (\<lambda>option. ipo_value option \<notin> usedIncomingPaths view) ADVANCED_CUSTOM_INCOMING_PATH_OPTIONS"

definition catchAllOrderErrorMessage :: jstr where
  "catchAllOrderErrorMessage = js ''Catch-all route must be last for the same incoming path''"

definition canFixCatchAllOrder :: "EditorView \<Rightarrow> bool" where
  "canFixCatchAllOrder view \<longleftrightarrow> map_option ve_message (view_error view) = Some catchAllOrderErrorMessage"

text \<open>The text of the field in which the rules of a route are typed.\<close>

definition models_input_value :: "AdvancedCustomRoute \<Rightarrow> jstr" where
  "models_input_value route = (case route_models route of JArr vs \<Rightarrow> join (js '', '') (map str_of vs) | _ \<Rightarrow> [])"

section \<open>Handlers of the visual mode\<close>

definition createRouteKey :: "EditorState \<Rightarrow> jval \<times> EditorState" where
  "createRouteKey st = (let n = Suc (ed_counter st) in
     (JStr (js ''advanced-custom-route-'' @ show_nat n), st\<lparr>ed_counter := n\<rparr>))"

fun createRouteKeys :: "nat \<Rightarrow> EditorState \<Rightarrow> jval list \<times> EditorState" where
  "createRouteKeys 0 st = ([], st)"
| "createRouteKeys (Suc n) st =
     (let (key, st1) = createRouteKey st; (keys, st2) = createRouteKeys n st1 in (key # keys, st2))"

text \<open>\<open>setConfig((current) => ...)\<close> over the normal form of the current configuration, which the render
  has computed without throwing.\<close>

definition with_routes :: "(AdvancedCustomRoute list \<Rightarrow> AdvancedCustomRoute list) \<Rightarrow> EditorState \<Rightarrow> EditorState" where
  "with_routes f st = (case normalizeAdvancedCustomConfig (ed_config st) of
     Inl e \<Rightarrow> st | Inr routes \<Rightarrow> st\<lparr>ed_config := f routes\<rparr>)"

definition updateRoute :: "nat \<Rightarrow> (AdvancedCustomRoute \<Rightarrow> AdvancedCustomRoute) \<Rightarrow> EditorState \<Rightarrow> EditorState" where
  "updateRoute index patch st = with_routes (\<lambda>routes. routes[index := patch (routes ! index)]) st"

definition replaceRoutes :: "AdvancedCustomRoute list \<Rightarrow> jval list \<Rightarrow> EditorState \<Rightarrow> EditorState" where
  "replaceRoutes nextRoutes nextRouteKeys st = (with_routes (\<lambda>_. nextRoutes) st)\<lparr>ed_keys := nextRouteKeys\<rparr>"

definition append_route :: "jstr \<Rightarrow> EditorState \<Rightarrow> EditorState" where
  "append_route path st =
     (let st1 = with_routes (\<lambda>routes. routes @ [createAdvancedCustomRoute\<lparr>incoming_path := JStr path, upstream_path := JStr path\<rparr>]) st;
          (key, st2) = createRouteKey st1
      in st2\<lparr>ed_keys := ed_keys st2 @ [key]\<rparr>)"

definition addRoute :: "EditorView \<Rightarrow> jstr \<Rightarrow> EditorState \<Rightarrow> EditorState" where
  "addRoute view incomingPath st =
     (if incomingPath = [] \<or> incomingPath \<in> usedIncomingPaths view then st else append_route incomingPath st)"

definition addRouteForIncomingPath :: "jstr \<Rightarrow> EditorState \<Rightarrow> EditorState" where
  "addRouteForIncomingPath incomingPath st =
     append_route (str_or (Some incomingPath) (js ''/v1/chat/completions'')) st"

definition remove_nth :: "nat \<Rightarrow> 'a list \<Rightarrow> 'a list" where
  "remove_nth i xs = take i xs @ drop (Suc i) xs"

definition removeRoute :: "nat \<Rightarrow> EditorState \<Rightarrow> EditorState" where
  "removeRoute index st = (let st1 = with_routes (remove_nth index) st in st1\<lparr>ed_keys := remove_nth index (ed_keys st1)\<rparr>)"

definition group_route :: "jstr \<Rightarrow> AdvancedCustomRoute \<Rightarrow> AdvancedCustomRoute" where
  "group_route path route =
     (if path = ADVANCED_CUSTOM_MODEL_LIST_PATH
      then route\<lparr>incoming_path := JStr path, upstream_path := JStr ADVANCED_CUSTOM_MODEL_LIST_PATH,
             converter := JStr (js ''none''), route_models := JArr []\<rparr>
      else let conv = js_or (converter route) (JStr (js ''none'')) in
           route\<lparr>incoming_path := JStr path,
             converter := if isAdvancedCustomIncomingPathAllowed path conv then conv else JStr (js ''none'')\<rparr>)"

definition updateGroupIncomingPath :: "EditorView \<Rightarrow> RouteGroup \<Rightarrow> jstr option \<Rightarrow> EditorState \<Rightarrow> EditorState" where
  "updateGroupIncomingPath view group_rows nextIncomingPath st =
     (let path = str_or nextIncomingPath (js ''/v1/chat/completions'');
          indexes = set (map row_index (snd group_rows));
          nextRoutes = map (\<lambda>(i, route). if i \<notin> indexes then route else group_route path route) (enumerate 0 (view_routes view))
      in replaceRoutes nextRoutes (map row_key (view_rows view)) st)"

definition swap_nth :: "nat \<Rightarrow> nat \<Rightarrow> 'a list \<Rightarrow> 'a list" where
  "swap_nth i j xs = xs[i := xs ! j, j := xs ! i]"

definition swapRoutes :: "EditorView \<Rightarrow> nat \<Rightarrow> nat \<Rightarrow> EditorState \<Rightarrow> EditorState" where
  "swapRoutes view fromIndex toIndex st =
     (if fromIndex = toIndex then st
      else replaceRoutes (swap_nth fromIndex toIndex (view_routes view))
             (swap_nth fromIndex toIndex (map row_key (view_rows view))) st)"

text \<open>\<open>Array.prototype.at\<close>, which counts a negative position from the end.\<close>

definition js_at :: "'a list \<Rightarrow> int \<Rightarrow> 'a option" where
  "js_at xs k = (let i = (if k < 0 then k + int (length xs) else k) in
     if 0 \<le> i \<and> i < int (length xs) then Some (xs ! nat i) else None)"

definition same_path_indexes :: "AdvancedCustomRoute list \<Rightarrow> jstr \<Rightarrow> nat list" where
  "same_path_indexes routes path = filter (\<lambda>i. path_of (routes ! i) = path) [0..<length routes]"

text \<open>\<open>indexOf\<close>, -1 where the element is not there.\<close>

definition index_of :: "'a \<Rightarrow> 'a list \<Rightarrow> int" where
  "index_of x xs = (if x \<in> set xs then int (length (takeWhile (\<lambda>y. y \<noteq> x) xs)) else -1)"

definition moveRouteWithinGroup :: "EditorView \<Rightarrow> nat \<Rightarrow> int \<Rightarrow> EditorState \<Rightarrow> EditorState" where
  "moveRouteWithinGroup view index direction st =
     (let routes = view_routes view;
          samePathIndexes = same_path_indexes routes (path_of (routes ! index));
          position = index_of index samePathIndexes
      in case js_at samePathIndexes (position + direction) of
           None \<Rightarrow> st | Some nextIndex \<Rightarrow> swapRoutes view index nextIndex st)"

definition splice_move :: "nat \<Rightarrow> nat \<Rightarrow> 'a list \<Rightarrow> 'a list" where
  "splice_move i j xs = (let rest = remove_nth i xs in take j rest @ [xs ! i] @ drop j rest)"

definition moveRouteToGroupEnd :: "EditorView \<Rightarrow> nat \<Rightarrow> EditorState \<Rightarrow> EditorState" where
  "moveRouteToGroupEnd view index st =
     (let routes = view_routes view;
          samePath = same_path_indexes routes (path_of (routes ! index))
      in if samePath = [] \<or> index = last samePath then st
         else replaceRoutes (splice_move index (last samePath) routes)
                (splice_move index (last samePath) (map row_key (view_rows view))) st)"

text \<open>The rows by path, the catch-alls of a path put behind its other rows, and every place of a path
  given the next row of it.\<close>

definition rows_by_path :: "RouteRow list \<Rightarrow> jstr \<rightharpoonup> RouteRow list" where
  "rows_by_path rows = fold (\<lambda>row m. m(path_of (row_route row) \<mapsto>
     (case m (path_of (row_route row)) of Some rs \<Rightarrow> rs | None \<Rightarrow> []) @ [row])) rows Map.empty"

definition ordered_rows :: "RouteRow list \<Rightarrow> RouteRow list" where
  "ordered_rows rows = filter (\<lambda>row. \<not> isCatchAllRoute (row_route row)) rows
     @ filter (\<lambda>row. isCatchAllRoute (row_route row)) rows"

fun shift_rows :: "(jstr \<rightharpoonup> RouteRow list) \<Rightarrow> RouteRow list \<Rightarrow> RouteRow list" where
  "shift_rows m [] = []"
| "shift_rows m (row # rows) =
     (case m (path_of (row_route row)) of
        Some (first # others) \<Rightarrow> first # shift_rows (m(path_of (row_route row) \<mapsto> others)) rows
      | _ \<Rightarrow> row # shift_rows m rows)"

definition fixed_rows :: "RouteRow list \<Rightarrow> RouteRow list" where
  "fixed_rows rows = shift_rows (map_option ordered_rows \<circ> rows_by_path rows) rows"

definition fixCatchAllOrder :: "EditorView \<Rightarrow> EditorState \<Rightarrow> EditorState" where
  "fixCatchAllOrder view st =
     (let nextRows = fixed_rows (view_rows view) in replaceRoutes (map row_route nextRows) (map row_key nextRows) st)"

section \<open>The fields of a route\<close>

text \<open>\<open>incomingPath\<close> of the editor of a route.\<close>

definition editor_path :: "AdvancedCustomRoute \<Rightarrow> jstr" where
  "editor_path route = str_of (js_or (incoming_path route)
     (JStr (getDefaultAdvancedCustomIncomingPath (js_or (converter route) (JStr (js ''none''))))))"

datatype FieldEvent =
    SetConverter jval
  | SetAuthMode jval
  | SetModelsInput jstr
  | NormalizeModelsInput jstr
  | SetUpstreamPath jstr
  | SetAuthName jstr
  | SetAuthValue jstr

definition setConverter :: "jval \<Rightarrow> AdvancedCustomRoute \<Rightarrow> AdvancedCustomRoute \<Rightarrow> AdvancedCustomRoute" where
  "setConverter nextConverter route =
     (let nextIncomingPath = (if isAdvancedCustomIncomingPathAllowed (editor_path route) nextConverter
            then editor_path route else getDefaultAdvancedCustomIncomingPath nextConverter);
          defaults = getAdvancedCustomConverterDefaults nextConverter nextIncomingPath
      in (\<lambda>r. r\<lparr>converter := nextConverter, incoming_path := JStr nextIncomingPath,
            upstream_path := JStr (cd_upstream_path defaults), route_auth := Some (cd_auth defaults)\<rparr>))"

definition updateAuth :: "(jval \<Rightarrow> AdvancedCustomRouteAuth \<Rightarrow> AdvancedCustomRouteAuth) \<Rightarrow> jstr \<Rightarrow> AdvancedCustomRoute
    \<Rightarrow> (AdvancedCustomRoute \<Rightarrow> AdvancedCustomRoute) option" where
  "updateAuth field v route =
     (case route_auth route of
        None \<Rightarrow> None
      | Some a \<Rightarrow> if auth_type a = JStr (js ''none'') then None
          else Some (\<lambda>r. r\<lparr>route_auth := Some (field (JStr v) \<lparr>auth_type = auth_type a,
            auth_name = js_or (auth_name a) (JStr []), auth_value = js_or (auth_value a) (JStr [])\<rparr>)\<rparr>))"

text \<open>The argument of \<open>onChange\<close> for an event in the editor of a route; \<open>None\<close> where it is not called.\<close>

fun field_patch :: "FieldEvent \<Rightarrow> AdvancedCustomRoute \<Rightarrow> (AdvancedCustomRoute \<Rightarrow> AdvancedCustomRoute) option" where
  "field_patch (SetConverter c) route = Some (setConverter c route)"
| "field_patch (SetAuthMode mode) route = Some (\<lambda>r. r\<lparr>route_auth := buildAdvancedCustomAuth mode (route_auth route)\<rparr>)"
| "field_patch (SetModelsInput v) route =
     Some (\<lambda>r. r\<lparr>route_models := JArr (if v = [] then [] else map JStr (split_on 44 v))\<rparr>)"
| "field_patch (NormalizeModelsInput v) route =
     Some (\<lambda>r. r\<lparr>route_models := JArr (map JStr (parseAdvancedCustomRouteModels v))\<rparr>)"
| "field_patch (SetUpstreamPath v) route = Some (\<lambda>r. r\<lparr>upstream_path := JStr v\<rparr>)"
| "field_patch (SetAuthName v) route = updateAuth (\<lambda>x. auth_name_update (\<lambda>_. x)) v route"
| "field_patch (SetAuthValue v) route = updateAuth (\<lambda>x. auth_value_update (\<lambda>_. x)) v route"

definition edit_field :: "EditorView \<Rightarrow> nat \<Rightarrow> FieldEvent \<Rightarrow> EditorState \<Rightarrow> EditorState" where
  "edit_field view index event st =
     (case field_patch event (view_routes view ! index) of None \<Rightarrow> st | Some patch \<Rightarrow> updateRoute index patch st)"

section \<open>Text mode, templates and saving\<close>

definition parseJsonEditorConfig :: "EditorEnv \<Rightarrow> EditorState \<Rightarrow> thrown + (AdvancedCustomConfig option \<times> EditorState)" where
  "parseJsonEditorConfig env st =
     (case parseAdvancedCustomConfig (env_parse env) (Some (ed_jsonText st)) of
        None \<Rightarrow> Inr (None, st\<lparr>ed_jsonError := js ''Invalid JSON''\<rparr>)
      | Some parsed \<Rightarrow>
          (case validateAdvancedCustomConfig (env_url env) (Some parsed) of
             Inl e \<Rightarrow> Inl e
           | Inr (Some error) \<Rightarrow> Inr (None, st\<lparr>ed_jsonError := ve_message error\<rparr>)
           | Inr None \<Rightarrow> Inr (Some parsed, st\<lparr>ed_jsonError := []\<rparr>)))"

text \<open>A new configuration with a fresh key for each of its routes.\<close>

definition set_config :: "AdvancedCustomConfig \<Rightarrow> EditorState \<Rightarrow> EditorState" where
  "set_config config st = (let (keys, st1) = createRouteKeys (length config) (st\<lparr>ed_config := config\<rparr>)
     in st1\<lparr>ed_keys := keys\<rparr>)"

definition switchToVisualMode :: "EditorEnv \<Rightarrow> EditorState \<Rightarrow> EditorState" where
  "switchToVisualMode env st =
     (case parseJsonEditorConfig env st of
        Inl e \<Rightarrow> st
      | Inr (None, st1) \<Rightarrow> st1
      | Inr (Some parsed, st1) \<Rightarrow>
          (case normalizeAdvancedCustomConfig parsed of
             Inl e \<Rightarrow> st1
           | Inr normalized \<Rightarrow> (set_config normalized st1)\<lparr>ed_mode := VisualMode\<rparr>))"

definition switchToJsonMode :: "EditorEnv \<Rightarrow> EditorView \<Rightarrow> EditorState \<Rightarrow> EditorState" where
  "switchToJsonMode env view st =
     (case stringifyAdvancedCustomConfig (env_stringify env) (view_routes view) of
        Inl e \<Rightarrow> st
      | Inr text \<Rightarrow> st\<lparr>ed_jsonText := text, ed_jsonError := [], ed_mode := JsonMode\<rparr>)"

definition handleJsonChange :: "jstr \<Rightarrow> EditorState \<Rightarrow> EditorState" where
  "handleJsonChange nextValue st = (let st1 = st\<lparr>ed_jsonText := nextValue\<rparr>
     in if ed_jsonError st1 \<noteq> [] then st1\<lparr>ed_jsonError := []\<rparr> else st1)"

datatype TemplateMode = FillTemplate | AppendTemplate

definition base_config :: "EditorEnv \<Rightarrow> EditorView \<Rightarrow> EditorState \<Rightarrow> thrown + (AdvancedCustomConfig option \<times> EditorState)" where
  "base_config env view st =
     (if ed_mode st = JsonMode then parseJsonEditorConfig env st else Inr (Some (view_routes view), st))"

definition use_config :: "EditorEnv \<Rightarrow> AdvancedCustomConfig \<Rightarrow> EditorState \<Rightarrow> EditorState" where
  "use_config env nextConfig st =
     (case normalizeAdvancedCustomConfig nextConfig of
        Inl e \<Rightarrow> st
      | Inr normalized \<Rightarrow>
          (case stringifyAdvancedCustomConfig (env_stringify env) normalized of
             Inl e \<Rightarrow> set_config normalized st
           | Inr text \<Rightarrow> (set_config normalized st)\<lparr>ed_jsonText := text, ed_jsonError := []\<rparr>))"

definition applyTemplate :: "EditorEnv \<Rightarrow> EditorView \<Rightarrow> TemplateMode \<Rightarrow> EditorState \<Rightarrow> EditorState" where
  "applyTemplate env view mode st =
     (let templateConfig = getAdvancedCustomTemplateConfig (ed_templateKey st) in
      case mode of
        FillTemplate \<Rightarrow> use_config env templateConfig st
      | AppendTemplate \<Rightarrow>
          (case base_config env view st of
             Inl e \<Rightarrow> st
           | Inr (None, st1) \<Rightarrow> st1
           | Inr (Some baseConfig, st1) \<Rightarrow>
               (case (normalizeAdvancedCustomConfig baseConfig, normalizeAdvancedCustomConfig templateConfig) of
                  (Inr base, Inr template) \<Rightarrow> use_config env (base @ template) st1
                | _ \<Rightarrow> st1)))"

definition save_text :: "EditorEnv \<Rightarrow> AdvancedCustomConfig \<Rightarrow> EditorState \<Rightarrow> EditorState" where
  "save_text env config st =
     (case stringifyAdvancedCustomConfig (env_stringify env) config of
        Inl e \<Rightarrow> st
      | Inr text \<Rightarrow> st\<lparr>ed_saved := ed_saved st @ [text], ed_open := False\<rparr>)"

definition editor_saveConfig :: "EditorEnv \<Rightarrow> EditorView \<Rightarrow> EditorState \<Rightarrow> EditorState" where
  "editor_saveConfig env view st =
     (if ed_mode st = JsonMode then
        (case parseJsonEditorConfig env st of
           Inl e \<Rightarrow> st
         | Inr (None, st1) \<Rightarrow> st1\<lparr>ed_toasts := ed_toasts st1 @ [js ''Please fix JSON errors before saving'']\<rparr>
         | Inr (Some parsed, st1) \<Rightarrow> save_text env parsed st1)
      else case view_error view of
        Some error \<Rightarrow> st\<lparr>ed_toasts := ed_toasts st @ [ve_message error]\<rparr>
      | None \<Rightarrow> save_text env (view_routes view) st)"

section \<open>The dialog as a machine\<close>

definition open_editor :: "EditorEnv \<Rightarrow> jstr \<Rightarrow> EditorState" where
  "open_editor env v =
     (let config = (case parseAdvancedCustomConfig (env_parse env) (Some v) of
            Some c \<Rightarrow> c | None \<Rightarrow> createAdvancedCustomConfig);
          routes = (case normalizeAdvancedCustomConfig config of Inr rs \<Rightarrow> rs | Inl e \<Rightarrow> [])
      in \<lparr>ed_config = config,
          ed_keys = map (\<lambda>i. JStr (js ''advanced-custom-route-initial-'' @ show_nat i)) [0..<length routes],
          ed_counter = 0, ed_mode = VisualMode,
          ed_jsonText = (case stringifyAdvancedCustomConfig (env_stringify env) config of Inr text \<Rightarrow> text | Inl e \<Rightarrow> []),
          ed_jsonError = [], ed_templateKey = to_value (hd ADVANCED_CUSTOM_TEMPLATE_OPTIONS),
          ed_open = True, ed_saved = [], ed_toasts = []\<rparr>)"

datatype EditorEvent =
    PressVisual
  | PressJson
  | TypeJson jstr
  | PickTemplate "jstr option"
  | PressTemplate TemplateMode
  | PressSave
  | PressCancel
  | PickNewPath jstr
  | PressAddSplit RouteGroup
  | PickGroupPath RouteGroup "jstr option"
  | PressMove nat int
  | PressMoveToEnd nat
  | PressRemove nat
  | PressFixOrder
  | EditField nat FieldEvent

fun handle :: "EditorEnv \<Rightarrow> EditorView \<Rightarrow> EditorEvent \<Rightarrow> EditorState \<Rightarrow> EditorState" where
  "handle env view PressVisual st = switchToVisualMode env st"
| "handle env view PressJson st = switchToJsonMode env view st"
| "handle env view (TypeJson text) st = handleJsonChange text st"
| "handle env view (PickTemplate v) st =
     st\<lparr>ed_templateKey := str_or v (to_value (hd ADVANCED_CUSTOM_TEMPLATE_OPTIONS))\<rparr>"
| "handle env view (PressTemplate mode) st = applyTemplate env view mode st"
| "handle env view PressSave st = editor_saveConfig env view st"
| "handle env view PressCancel st = st\<lparr>ed_open := False\<rparr>"
| "handle env view (PickNewPath path) st = addRoute view path st"
| "handle env view (PressAddSplit g) st = addRouteForIncomingPath (fst g) st"
| "handle env view (PickGroupPath g path) st = updateGroupIncomingPath view g path st"
| "handle env view (PressMove i direction) st = moveRouteWithinGroup view i direction st"
| "handle env view (PressMoveToEnd i) st = moveRouteToGroupEnd view i st"
| "handle env view (PressRemove i) st = removeRoute i st"
| "handle env view PressFixOrder st = fixCatchAllOrder view st"
| "handle env view (EditField i event) st = edit_field view i event st"

definition group_path :: "RouteGroup \<Rightarrow> jstr" where
  "group_path g = str_or (Some (fst g)) (js ''/v1/chat/completions'')"

text \<open>The buttons of a row: its group and its position there.\<close>

definition row_can :: "(nat \<Rightarrow> nat \<Rightarrow> bool) \<Rightarrow> EditorView \<Rightarrow> nat \<Rightarrow> bool" where
  "row_can P view i \<longleftrightarrow> (\<exists>g \<in> set (view_groups view). \<exists>position \<in> set [0..<length (snd g)].
     row_index (snd g ! position) = i \<and> P position (length (snd g)))"

fun field_offered :: "AdvancedCustomRoute \<Rightarrow> FieldEvent \<Rightarrow> bool" where
  "field_offered route (SetConverter c) \<longleftrightarrow>
     (\<exists>option \<in> set (getAdvancedCustomConverterOptions (editor_path route)). c = JStr (co_value option))
   \<and> \<not> (editor_path route = ADVANCED_CUSTOM_MODEL_LIST_PATH \<and> js_or (converter route) (JStr (js ''none'')) = JStr (js ''none''))"
| "field_offered route (SetAuthMode mode) \<longleftrightarrow> (\<exists>option \<in> set ADVANCED_CUSTOM_AUTH_MODE_OPTIONS. mode = JStr (fst option))"
| "field_offered route (SetModelsInput v) \<longleftrightarrow>
     \<not> (editor_path route = ADVANCED_CUSTOM_MODEL_LIST_PATH \<and> parseAdvancedCustomRouteModels (models_input_value route) = [])"
| "field_offered route (NormalizeModelsInput v) \<longleftrightarrow>
     \<not> (editor_path route = ADVANCED_CUSTOM_MODEL_LIST_PATH \<and> parseAdvancedCustomRouteModels (models_input_value route) = [])"
| "field_offered route (SetUpstreamPath v) \<longleftrightarrow> True"
| "field_offered route (SetAuthName v) \<longleftrightarrow>
     getAdvancedCustomAuthMode route = JStr (js ''header'') \<or> getAdvancedCustomAuthMode route = JStr (js ''query'')"
| "field_offered route (SetAuthValue v) \<longleftrightarrow>
     getAdvancedCustomAuthMode route = JStr (js ''header'') \<or> getAdvancedCustomAuthMode route = JStr (js ''query'')"

text \<open>What a rendered dialog lets the user do.  The bar with the modes and the templates is always there.\<close>

fun offered :: "EditorView \<Rightarrow> EditMode \<Rightarrow> EditorEvent \<Rightarrow> bool" where
  "offered view mode PressVisual \<longleftrightarrow> True"
| "offered view mode PressJson \<longleftrightarrow> True"
| "offered view mode (TypeJson text) \<longleftrightarrow> mode = JsonMode"
| "offered view mode (PickTemplate v) \<longleftrightarrow> True"
| "offered view mode (PressTemplate m) \<longleftrightarrow> True"
| "offered view mode PressSave \<longleftrightarrow> True"
| "offered view mode PressCancel \<longleftrightarrow> True"
| "offered view mode (PickNewPath path) \<longleftrightarrow> mode = VisualMode \<and> path \<in> ipo_value ` set (availableIncomingPathOptions view)"
| "offered view mode (PressAddSplit g) \<longleftrightarrow> mode = VisualMode \<and> g \<in> set (view_groups view)
     \<and> group_path g \<noteq> ADVANCED_CUSTOM_MODEL_LIST_PATH"
| "offered view mode (PickGroupPath g path) \<longleftrightarrow> mode = VisualMode \<and> g \<in> set (view_groups view)
     \<and> (case path of None \<Rightarrow> False | Some p \<Rightarrow> p \<in> ipo_value ` set ADVANCED_CUSTOM_INCOMING_PATH_OPTIONS
          \<and> (p = group_path g \<or> p \<notin> usedIncomingPaths view)
          \<and> (p \<noteq> ADVANCED_CUSTOM_MODEL_LIST_PATH \<or> length (snd g) \<le> 1))"
| "offered view mode (PressMove i direction) \<longleftrightarrow> mode = VisualMode
     \<and> row_can (\<lambda>position n. direction = -1 \<and> 0 < position \<or> direction = 1 \<and> position + 1 < n) view i"
| "offered view mode (PressMoveToEnd i) \<longleftrightarrow> mode = VisualMode
     \<and> row_can (\<lambda>position n. position + 1 < n) view i \<and> isCatchAllRoute (view_routes view ! i)"
| "offered view mode (PressRemove i) \<longleftrightarrow> mode = VisualMode \<and> i < length (view_routes view)"
| "offered view mode PressFixOrder \<longleftrightarrow> mode = VisualMode \<and> canFixCatchAllOrder view"
| "offered view mode (EditField i event) \<longleftrightarrow> mode = VisualMode \<and> i < length (view_routes view)
     \<and> field_offered (view_routes view ! i) event"

inductive editor_step :: "EditorEnv \<Rightarrow> EditorEvent \<Rightarrow> EditorState \<Rightarrow> EditorState \<Rightarrow> bool" for env where
  step: "ed_open st \<Longrightarrow> render_editor env st = Inr view \<Longrightarrow> offered view (ed_mode st) ev \<Longrightarrow>
         editor_step env ev st (handle env view ev st)"

inductive editor_run :: "EditorEnv \<Rightarrow> EditorState \<Rightarrow> EditorEvent list \<Rightarrow> EditorState \<Rightarrow> bool" for env where
  run_nil: "editor_run env st [] st"
| run_cons: "editor_step env ev st st1 \<Longrightarrow> editor_run env st1 evs st2 \<Longrightarrow> editor_run env st (ev # evs) st2"

inductive_cases editor_stepE: "editor_step env ev st st'"
inductive_simps editor_run_Nil: "editor_run env st [] st'"
inductive_simps editor_run_Cons: "editor_run env st (ev # evs) st'"

section \<open>Rows, groups and their order\<close>

abbreviation row_path :: "RouteRow \<Rightarrow> jstr" where
  "row_path row \<equiv> path_of (row_route row)"

text \<open>The groups are the paths in the order of their first rows, each with its rows in order.\<close>

lemma push_row_spec:
  "push_row path row (map (\<lambda>p. (p, filter (\<lambda>r. row_path r = p) rows)) ps)
   = map (\<lambda>p. (p, filter (\<lambda>r. row_path r = p) rows @ (if p = path then [row] else []))) ps
     @ (if path \<in> set ps then [] else [(path, [row])])" if "distinct ps"
  using that by (induction ps) (auto intro!: map_cong)

lemma js_unique_snoc: "js_unique (xs @ [x]) = js_unique xs @ (if x \<in> set xs then [] else [x])"
proof -
  have "dedup_seen (\<lambda>x. x) seen (xs @ [x]) = dedup_seen (\<lambda>x. x) seen xs @ (if x \<in> set xs \<union> set seen then [] else [x])" for seen
    by (induction xs arbitrary: seen) auto
  then show ?thesis by simp
qed

lemma buildRouteGroups_spec:
  "buildRouteGroups rows = map (\<lambda>p. (p, filter (\<lambda>r. row_path r = p) rows)) (js_unique (map row_path rows))"
proof (induction rows rule: rev_induct)
  case (snoc row rows)
  have "buildRouteGroups (rows @ [row]) = push_row (row_path row) row
      (map (\<lambda>p. (p, filter (\<lambda>r. row_path r = p) rows)) (js_unique (map row_path rows)))"
    by (simp add: buildRouteGroups_def flip: snoc.IH[unfolded buildRouteGroups_def])
  also have "\<dots> = map (\<lambda>p. (p, filter (\<lambda>r. row_path r = p) (rows @ [row]))) (js_unique (map row_path (rows @ [row])))"
    unfolding push_row_spec[OF distinct_js_unique] map_append list.map js_unique_snoc
    by (auto simp: filter_empty_conv image_iff)
  finally show ?case .
qed (simp add: buildRouteGroups_def)

text \<open>Putting the rows of each path in another order leaves every place to its path.\<close>

definition queue_of :: "(jstr \<rightharpoonup> RouteRow list) \<Rightarrow> jstr \<Rightarrow> RouteRow list" where
  "queue_of m p = (case m p of Some rows \<Rightarrow> rows | None \<Rightarrow> [])"

lemma queue_of_upd [simp]: "queue_of (m(p \<mapsto> rows)) q = (if q = p then rows else queue_of m q)"
  by (simp add: queue_of_def)

lemma shift_rows_spec:
  assumes "\<And>p. length (queue_of m p) = length (filter (\<lambda>r. row_path r = p) rows)"
    and "\<And>p r. r \<in> set (queue_of m p) \<Longrightarrow> row_path r = p"
  shows "map row_path (shift_rows m rows) = map row_path rows
     \<and> (\<forall>p. filter (\<lambda>r. row_path r = p) (shift_rows m rows) = queue_of m p)"
  using assms
proof (induction rows arbitrary: m)
  case Nil
  then show ?case by simp
next
  case (Cons row rows)
  let ?p = "row_path row"
  obtain first others where q: "queue_of m ?p = first # others"
    using Cons.prems(1)[of ?p] by (cases "queue_of m ?p") auto
  then have mp: "m ?p = Some (first # others)" by (simp add: queue_of_def split: option.splits)
  have first: "row_path first = ?p" using Cons.prems(2)[of first ?p] q by simp
  let ?m = "m(?p \<mapsto> others)"
  have "length (queue_of ?m p) = length (filter (\<lambda>r. row_path r = p) rows)" for p
    using Cons.prems(1)[of p] q by (auto split: if_splits)
  moreover have "row_path r = p" if "r \<in> set (queue_of ?m p)" for p r
    using Cons.prems(2)[of r p] that q by (auto split: if_splits)
  ultimately have "map row_path (shift_rows ?m rows) = map row_path rows
      \<and> (\<forall>p. filter (\<lambda>r. row_path r = p) (shift_rows ?m rows) = queue_of ?m p)"
    by (rule Cons.IH)
  then show ?case using first q by (simp add: mp)
qed

lemma rows_by_path_spec: "queue_of (rows_by_path rows) p = filter (\<lambda>r. row_path r = p) rows"
proof (induction rows rule: rev_induct)
  case (snoc row rows)
  then show ?case by (auto simp: rows_by_path_def queue_of_def)
qed (simp add: rows_by_path_def queue_of_def)

lemma queue_of_map: "f [] = [] \<Longrightarrow> queue_of (map_option f \<circ> m) p = f (queue_of m p)"
  by (simp add: queue_of_def split: option.splits)

lemma ordered_rows_mset [simp]: "mset (ordered_rows rows) = mset rows"
  by (simp add: ordered_rows_def)

lemma fixed_rows_spec:
  "map row_path (fixed_rows rows) = map row_path rows
   \<and> (\<forall>p. filter (\<lambda>r. row_path r = p) (fixed_rows rows) = ordered_rows (filter (\<lambda>r. row_path r = p) rows))"
proof -
  let ?m = "map_option ordered_rows \<circ> rows_by_path rows"
  have q: "queue_of ?m p = ordered_rows (filter (\<lambda>r. row_path r = p) rows)" for p
    by (simp add: queue_of_map rows_by_path_spec ordered_rows_def[of "[]"])
  have "length (ordered_rows xs) = length xs" "set (ordered_rows xs) = set xs" for xs
    using ordered_rows_mset[of xs] by (metis size_mset, metis set_mset_mset)
  then show ?thesis
    unfolding fixed_rows_def q[symmetric] by (intro shift_rows_spec) (auto simp: q)
qed

lemma fixed_rows_mset: "mset (fixed_rows rows) = mset rows"
proof (rule multiset_eqI)
  fix x
  have local: "count (mset xs) x = count (mset (filter (\<lambda>r. row_path r = row_path x) xs)) x" for xs by simp
  show "count (mset (fixed_rows rows)) x = count (mset rows) x"
    using fixed_rows_spec[of rows] by (subst (1 2) local) (simp del: mset_filter)
qed

section \<open>Keys\<close>

definition fresh_key :: "nat \<Rightarrow> jval" where
  "fresh_key n = JStr (js ''advanced-custom-route-'' @ show_nat n)"

definition initial_key :: "nat \<Rightarrow> jval" where
  "initial_key i = JStr (js ''advanced-custom-route-initial-'' @ show_nat i)"

definition known_key :: "nat \<Rightarrow> jval \<Rightarrow> bool" where
  "known_key n k \<longleftrightarrow> (\<exists>i. k = initial_key i) \<or> (\<exists>m \<le> n. k = fresh_key m)"

text \<open>Every route has a key of its own, and the counter is past the keys that were handed out.\<close>

definition editor_inv :: "EditorState \<Rightarrow> bool" where
  "editor_inv st \<longleftrightarrow> length (ed_keys st) = length (ed_config st) \<and> distinct (ed_keys st)
     \<and> (\<forall>k \<in> set (ed_keys st). known_key (ed_counter st) k)"

lemma fresh_key_inj [simp]: "fresh_key m = fresh_key n \<longleftrightarrow> m = n"
  by (simp add: fresh_key_def)

lemma initial_key_inj [simp]: "initial_key m = initial_key n \<longleftrightarrow> m = n"
  by (simp add: initial_key_def)

lemma initial_not_fresh [simp]: "initial_key i \<noteq> fresh_key n"
proof
  assume "initial_key i = fresh_key n"
  then have "js ''initial-'' @ show_nat i = show_nat n"
    by (simp add: initial_key_def fresh_key_def js_Cons)
  then have "of_char (CHR ''i'') \<in> set (show_nat n)" by (metis append_Cons js_Cons list.set_intros(1))
  then show False using show_nat_digits[of 105 n] by (simp add: is_digit_def)
qed

lemma known_key_fresh: "known_key n (fresh_key m) \<longleftrightarrow> m \<le> n"
  by (auto simp: known_key_def dest: initial_not_fresh[THEN notE, OF sym])

lemma known_key_mono: "known_key n k \<Longrightarrow> n \<le> m \<Longrightarrow> known_key m k"
  by (auto simp: known_key_def)

lemma known_key_truthy: "known_key n k \<Longrightarrow> truthy k"
  by (auto simp: known_key_def initial_key_def fresh_key_def)

lemma createRouteKeys_spec:
  "createRouteKeys n st = (map fresh_key [Suc (ed_counter st)..<Suc (ed_counter st + n)], st\<lparr>ed_counter := ed_counter st + n\<rparr>)"
proof (induction n arbitrary: st)
  case (Suc n)
  have "[Suc (ed_counter st)..<Suc (ed_counter st + Suc n)]
      = Suc (ed_counter st) # [Suc (Suc (ed_counter st))..<Suc (Suc (ed_counter st) + n)]"
    by (simp add: upt_rec)
  then show ?case by (simp add: Suc.IH createRouteKey_def Let_def fresh_key_def del: upt_Suc)
qed simp

lemma set_config_fields [simp]:
  "ed_config (set_config c st) = c" "ed_keys (set_config c st) = map fresh_key [Suc (ed_counter st)..<Suc (ed_counter st + length c)]"
  "ed_counter (set_config c st) = ed_counter st + length c" "ed_mode (set_config c st) = ed_mode st"
  "ed_jsonText (set_config c st) = ed_jsonText st" "ed_saved (set_config c st) = ed_saved st" "ed_open (set_config c st) = ed_open st"
  by (simp_all add: set_config_def createRouteKeys_spec Let_def del: upt_Suc)

lemma set_config_inv: "editor_inv (set_config c st)"
  by (auto simp: editor_inv_def known_key_fresh distinct_map inj_on_def simp del: upt_Suc)

lemma editor_inv_other_fields [simp]:
  "editor_inv (st\<lparr>ed_mode := m\<rparr>) = editor_inv st" "editor_inv (st\<lparr>ed_jsonText := t\<rparr>) = editor_inv st"
  "editor_inv (st\<lparr>ed_jsonError := t\<rparr>) = editor_inv st" "editor_inv (st\<lparr>ed_templateKey := t\<rparr>) = editor_inv st"
  "editor_inv (st\<lparr>ed_open := b\<rparr>) = editor_inv st" "editor_inv (st\<lparr>ed_saved := ts\<rparr>) = editor_inv st"
  "editor_inv (st\<lparr>ed_toasts := ts\<rparr>) = editor_inv st"
  by (simp_all add: editor_inv_def)

lemma editor_inv_cong:
  "editor_inv st \<Longrightarrow> ed_config st' = ed_config st \<Longrightarrow> ed_keys st' = ed_keys st \<Longrightarrow> ed_counter st' = ed_counter st \<Longrightarrow> editor_inv st'"
  by (simp add: editor_inv_def)

text \<open>What a render says of the state.\<close>

lemma render_Inr:
  assumes "render_editor env st = Inr view"
  shows "normalizeAdvancedCustomConfig (ed_config st) = Inr (view_routes view)"
    and "view_rows view = route_rows (ed_keys st) (view_routes view)"
    and "view_groups view = buildRouteGroups (view_rows view)"
    and "validateAdvancedCustomConfig (env_url env) (Some (view_routes view)) = Inr (view_error view)"
    and "\<exists>paths. map_throw getRouteIncomingPath (view_routes view) = Inr paths"
  using assms by (auto simp: render_editor_def Let_def split: sum.splits)

lemma length_routes:
  "normalizeAdvancedCustomConfig c = Inr rs \<Longrightarrow> length rs = length c"
  by (auto simp: normalizeAdvancedCustomConfig_def dest: map_throw_length)

lemma route_rows_routes [simp]: "map row_route (route_rows keys routes) = routes"
  by (simp add: route_rows_def comp_def case_prod_beta map_snd_enumerate flip: snd_def)

lemma route_rows_index: "i < length routes \<Longrightarrow> row_index (route_rows keys routes ! i) = i"
  by (simp add: route_rows_def nth_enumerate_eq)

lemma length_route_rows [simp]: "length (route_rows keys routes) = length routes"
  by (simp add: route_rows_def)

lemma rendered_keys:
  assumes "editor_inv st" "render_editor env st = Inr view"
  shows "map row_key (view_rows view) = ed_keys st"
proof (rule nth_equalityI)
  have len: "length (view_routes view) = length (ed_keys st)"
    using assms length_routes[OF render_Inr(1)[OF assms(2)]] by (simp add: editor_inv_def)
  then show "length (map row_key (view_rows view)) = length (ed_keys st)" by (simp add: render_Inr(2)[OF assms(2)])
  fix i assume "i < length (map row_key (view_rows view))"
  then have i: "i < length (ed_keys st)" using len by (simp add: render_Inr(2)[OF assms(2)])
  then have "truthy (ed_keys st ! i)" using assms(1) known_key_truthy nth_mem unfolding editor_inv_def by metis
  then show "map row_key (view_rows view) ! i = ed_keys st ! i"
    using i len by (simp add: render_Inr(2)[OF assms(2)] route_rows_def nth_enumerate_eq row_keys_def js_or_def)
qed

section \<open>Every handler keeps a key for every route\<close>

lemma with_routes_Inr:
  "normalizeAdvancedCustomConfig (ed_config st) = Inr routes \<Longrightarrow> with_routes f st = st\<lparr>ed_config := f routes\<rparr>"
  by (simp add: with_routes_def)

lemma replaceRoutes_Inr:
  "normalizeAdvancedCustomConfig (ed_config st) = Inr routes \<Longrightarrow>
   replaceRoutes rs keys st = st\<lparr>ed_config := rs, ed_keys := keys\<rparr>"
  by (simp add: replaceRoutes_def with_routes_def)

lemma replace_inv:
  assumes "editor_inv st" "normalizeAdvancedCustomConfig (ed_config st) = Inr routes"
    and "mset keys = mset (ed_keys st)" "length rs = length (ed_keys st)"
  shows "editor_inv (replaceRoutes rs keys st)"
proof -
  have "set keys = set (ed_keys st)" "distinct keys" "length keys = length (ed_keys st)"
    using assms(1,3) by (metis set_mset_mset, metis editor_inv_def mset_eq_imp_distinct_iff, metis size_mset)
  then show ?thesis using assms by (simp add: editor_inv_def replaceRoutes_Inr)
qed

lemma remove_nth_mset: "i < length xs \<Longrightarrow> mset xs = add_mset (xs ! i) (mset (remove_nth i xs))"
  by (subst id_take_nth_drop[of i xs]) (simp_all add: remove_nth_def)

lemma splice_move_mset: "i < length xs \<Longrightarrow> mset (splice_move i j xs) = mset xs"
proof -
  assume i: "i < length xs"
  have "mset (take j (remove_nth i xs)) + mset (drop j (remove_nth i xs)) = mset (remove_nth i xs)"
    by (metis append_take_drop_id mset_append)
  then show ?thesis using remove_nth_mset[OF i] by (simp add: splice_move_def Let_def)
qed

lemma swap_nth_mset: "i < length xs \<Longrightarrow> j < length xs \<Longrightarrow> mset (swap_nth i j xs) = mset xs"
  using mset_swap[of j xs i] by (simp add: swap_nth_def)

lemma append_route_inv:
  assumes "editor_inv st" "normalizeAdvancedCustomConfig (ed_config st) = Inr routes"
  shows "editor_inv (append_route path st)"
  using assms length_routes[OF assms(2)]
  by (auto simp: editor_inv_def append_route_def with_routes_Inr createRouteKey_def Let_def known_key_fresh
      simp flip: fresh_key_def intro: known_key_mono)

lemma remove_inv:
  assumes "editor_inv st" "normalizeAdvancedCustomConfig (ed_config st) = Inr routes" "i < length routes"
  shows "editor_inv (removeRoute i st)"
proof -
  have "i < length (ed_keys st)" using assms length_routes[OF assms(2)] by (simp add: editor_inv_def)
  then have "mset (ed_keys st) = add_mset (ed_keys st ! i) (mset (remove_nth i (ed_keys st)))" by (rule remove_nth_mset)
  then have "distinct (remove_nth i (ed_keys st))" "set (remove_nth i (ed_keys st)) \<subseteq> set (ed_keys st)"
    using assms(1) by (metis distinct.simps(2) editor_inv_def mset.simps(2) mset_eq_imp_distinct_iff,
      metis set_mset_add_mset_insert set_mset_mset subset_insertI)
  moreover have "length (remove_nth i routes) = length (remove_nth i (ed_keys st))"
    using assms length_routes[OF assms(2)] by (simp add: editor_inv_def remove_nth_def)
  ultimately show ?thesis using assms
    by (auto simp: editor_inv_def removeRoute_def with_routes_Inr Let_def)
qed

lemma edit_field_inv:
  assumes "editor_inv st" "normalizeAdvancedCustomConfig (ed_config st) = Inr routes"
  shows "editor_inv (edit_field view i event st)"
  using assms length_routes[OF assms(2)]
  by (auto simp: editor_inv_def edit_field_def updateRoute_def with_routes_Inr split: option.splits)

lemma parse_editor_state:
  assumes "parseJsonEditorConfig env st = Inr (c, st1)"
  shows "ed_config st1 = ed_config st" "ed_keys st1 = ed_keys st" "ed_counter st1 = ed_counter st" "ed_saved st1 = ed_saved st"
    "ed_mode st1 = ed_mode st" "ed_jsonText st1 = ed_jsonText st"
    "c = Some parsed \<Longrightarrow> parseAdvancedCustomConfig (env_parse env) (Some (ed_jsonText st)) = Some parsed
       \<and> validateAdvancedCustomConfig (env_url env) (Some parsed) = Inr None"
  using assms by (auto simp: parseJsonEditorConfig_def split: option.splits sum.splits)

lemma switchToVisualMode_inv: "editor_inv st \<Longrightarrow> editor_inv (switchToVisualMode env st)"
  by (auto simp: switchToVisualMode_def set_config_inv split: sum.splits option.splits
      intro: editor_inv_cong dest: parse_editor_state)

lemma use_config_inv: "editor_inv st \<Longrightarrow> editor_inv (use_config env c st)"
  by (auto simp: use_config_def set_config_inv split: sum.splits)

lemma base_config_state:
  "base_config env view st = Inr (c, st1) \<Longrightarrow> editor_inv st \<Longrightarrow> editor_inv st1"
  by (auto simp: base_config_def split: if_splits intro: editor_inv_cong dest: parse_editor_state)

lemma applyTemplate_inv: "editor_inv st \<Longrightarrow> editor_inv (applyTemplate env view mode st)"
  by (auto simp: applyTemplate_def Let_def use_config_inv split: TemplateMode.splits sum.splits option.splits
      intro: use_config_inv dest: base_config_state)

lemma editor_saveConfig_state:
  "ed_config (editor_saveConfig env view st) = ed_config st \<and> ed_keys (editor_saveConfig env view st) = ed_keys st
   \<and> ed_counter (editor_saveConfig env view st) = ed_counter st"
  by (auto simp: editor_saveConfig_def save_text_def split: sum.splits option.splits dest: parse_editor_state)

lemma group_rows_index:
  assumes "render_editor env st = Inr view" "g \<in> set (view_groups view)" "row \<in> set (snd g)"
  shows "row_index row < length (view_routes view)"
proof -
  have "row \<in> set (route_rows (ed_keys st) (view_routes view))"
    using assms(2,3) by (auto simp: render_Inr(2,3)[OF assms(1)] buildRouteGroups_spec)
  then obtain i where "i < length (view_routes view)" "row = route_rows (ed_keys st) (view_routes view) ! i"
    by (auto simp: in_set_conv_nth)
  then show ?thesis by (simp add: route_rows_index)
qed

lemma row_can_index:
  assumes "render_editor env st = Inr view" "row_can P view i"
  shows "i < length (view_routes view)"
  using assms(2) group_rows_index[OF assms(1)] by (fastforce simp: row_can_def)

lemma same_path_indexes_less: "i \<in> set (same_path_indexes routes path) \<Longrightarrow> i < length routes"
  by (simp add: same_path_indexes_def)

lemma js_at_mem: "js_at xs k = Some x \<Longrightarrow> x \<in> set xs"
  by (auto simp: js_at_def Let_def split: if_splits)

lemma replace_rendered:
  assumes "editor_inv st" "render_editor env st = Inr view" "mset keys = mset (map row_key (view_rows view))"
    and "length rs = length (view_routes view)"
  shows "editor_inv (replaceRoutes rs keys st)"
  using assms replace_inv[OF assms(1) render_Inr(1)[OF assms(2)]] rendered_keys[OF assms(1,2)]
    length_routes[OF render_Inr(1)[OF assms(2)]] by (simp add: editor_inv_def)

lemma length_moved [simp]: "length (swap_nth i j xs) = length xs"
  by (simp add: swap_nth_def)

lemma length_rendered_rows: "render_editor env st = Inr view \<Longrightarrow> length (view_rows view) = length (view_routes view)"
  by (simp add: render_Inr(2))

lemma swapRoutes_inv:
  assumes "editor_inv st" "render_editor env st = Inr view" "i < length (view_routes view)" "j < length (view_routes view)"
  shows "editor_inv (swapRoutes view i j st)"
  using assms length_rendered_rows[OF assms(2)]
  by (auto simp: swapRoutes_def swap_nth_mset intro!: replace_rendered[OF assms(1,2)])

lemma moveRouteWithinGroup_inv:
  assumes "editor_inv st" "render_editor env st = Inr view" "i < length (view_routes view)"
  shows "editor_inv (moveRouteWithinGroup view i direction st)"
  using assms(1) by (auto simp: moveRouteWithinGroup_def Let_def split: option.splits
      intro!: swapRoutes_inv[OF assms] dest!: js_at_mem same_path_indexes_less)

lemma moveRouteToGroupEnd_inv:
  assumes "editor_inv st" "render_editor env st = Inr view" "i < length (view_routes view)"
  shows "editor_inv (moveRouteToGroupEnd view i st)"
proof -
  have "length (splice_move i j (view_routes view)) = length (view_routes view)" for j
    by (metis assms(3) size_mset splice_move_mset)
  then show ?thesis using assms length_rendered_rows[OF assms(2)]
    by (auto simp: moveRouteToGroupEnd_def Let_def splice_move_mset intro!: replace_rendered[OF assms(1,2)])
qed

lemma fixCatchAllOrder_inv:
  assumes "editor_inv st" "render_editor env st = Inr view"
  shows "editor_inv (fixCatchAllOrder view st)"
proof -
  have "length (fixed_rows (view_rows view)) = length (view_routes view)"
    using fixed_rows_mset length_rendered_rows[OF assms(2)] by (metis size_mset)
  then show ?thesis
    by (auto simp: fixCatchAllOrder_def Let_def fixed_rows_mset intro!: replace_rendered[OF assms])
qed

lemma updateGroupIncomingPath_inv:
  "editor_inv st \<Longrightarrow> render_editor env st = Inr view \<Longrightarrow> editor_inv (updateGroupIncomingPath view g path st)"
  by (auto simp: updateGroupIncomingPath_def Let_def intro!: replace_rendered)

lemma handle_inv:
  assumes inv: "editor_inv st" and view: "render_editor env st = Inr view" and ok: "offered view (ed_mode st) ev"
  shows "editor_inv (handle env view ev st)"
proof (cases ev)
  case PressSave
  then show ?thesis using editor_inv_cong[OF inv] editor_saveConfig_state[of env view st] by simp
next
  case (PressMove i d)
  then show ?thesis using ok by (auto intro: row_can_index[OF view] moveRouteWithinGroup_inv[OF inv view])
next
  case (PressMoveToEnd i)
  then show ?thesis using ok by (auto intro: row_can_index[OF view] moveRouteToGroupEnd_inv[OF inv view])
next
  case PressJson
  then show ?thesis using inv by (auto simp: switchToJsonMode_def split: sum.splits)
qed (use inv ok render_Inr(1)[OF view] in \<open>simp_all add: switchToVisualMode_inv handleJsonChange_def applyTemplate_inv addRoute_def
      append_route_inv addRouteForIncomingPath_def remove_inv edit_field_inv Let_def
      fixCatchAllOrder_inv[OF inv view] updateGroupIncomingPath_inv[OF inv view]\<close>)

text \<open>Configurations that were read are in normal form.\<close>

lemma parsed_normal: "parseAdvancedCustomConfig json_parse v = Some c \<Longrightarrow> normalizeAdvancedCustomConfig c = Inr c"
  by (auto simp: parseAdvancedCustomConfig_def intro: normalize_config_idem split: option.splits if_splits sum.splits)

lemma created_normal: "normalizeAdvancedCustomConfig createAdvancedCustomConfig = Inr createAdvancedCustomConfig"
  by (simp add: createAdvancedCustomConfig_def createAdvancedCustomRoute_def openAIChatPath_def normal_eval)

lemma open_editor_config:
  "ed_config (open_editor env v) = (case parseAdvancedCustomConfig (env_parse env) (Some v) of
     Some c \<Rightarrow> c | None \<Rightarrow> createAdvancedCustomConfig)"
  by (simp add: open_editor_def Let_def)

lemma open_editor_normal:
  "normalizeAdvancedCustomConfig (ed_config (open_editor env v)) = Inr (ed_config (open_editor env v))"
  unfolding open_editor_config using parsed_normal created_normal by (auto split: option.splits)

lemma open_editor_inv: "editor_inv (open_editor env v)"
proof -
  have "ed_keys (open_editor env v) = map initial_key [0..<length (ed_config (open_editor env v))]"
    using open_editor_normal[of env v] by (simp add: open_editor_def Let_def initial_key_def[abs_def])
  then show ?thesis by (auto simp: editor_inv_def distinct_map inj_on_def known_key_def)
qed

lemma editor_step_inv: "editor_step env ev st st' \<Longrightarrow> editor_inv st \<Longrightarrow> editor_inv st'"
  by (erule editor_stepE) (use handle_inv in blast)

lemma editor_run_inv: "editor_run env st evs st' \<Longrightarrow> editor_inv st \<Longrightarrow> editor_inv st'"
  by (induction rule: editor_run.induct) (auto intro: editor_step_inv)

section \<open>The complaint about the order\<close>

lemma order_message_not:
  "add_rules i seen ms known = Inl e \<Longrightarrow> ve_message e \<noteq> catchAllOrderErrorMessage"
  "validate_model_list i p up conv ms state = Inl e \<Longrightarrow> ve_message e \<noteq> catchAllOrderErrorMessage"
  by (induction i seen ms known rule: add_rules.induct)
    (auto simp: route_error_def catchAllOrderErrorMessage_def validate_model_list_def split: if_splits)

lemma auth_message_not: "validateRouteAuth auth = Inr (Some message) \<Longrightarrow> message \<noteq> catchAllOrderErrorMessage"
  by (auto simp: validateRouteAuth_def catchAllOrderErrorMessage_def split: option.splits if_splits sum.splits)

lemma target_message_not:
  "validate_target new_url i p up conv auth = Inr (Some e) \<Longrightarrow> ve_message e \<noteq> catchAllOrderErrorMessage"
  using auth_message_not[of auth]
  by (auto simp: validate_target_def route_error_def catchAllOrderErrorMessage_def split: option.splits if_splits sum.splits)

lemma models_order_message:
  assumes "validateAdvancedCustomRouteModels i p ms m = Inl e" "ve_message e = catchAllOrderErrorMessage"
  shows "ms \<noteq> [] \<and> catchAllIndex (path_rules m p) \<noteq> None"
  using assms order_message_not(1)
  by (auto simp: validateAdvancedCustomRouteModels_def Let_def route_error_def catchAllOrderErrorMessage_def
      split: if_splits sum.splits)

lemma route_order_message:
  assumes norm: "normalizeAdvancedCustomRoute r = Inr r" and rec: "records st ds"
    and err: "validate_route new_url i r st = Inr (Inl e)" "ve_message e = catchAllOrderErrorMessage"
  shows "route_rules r \<noteq> [] \<and> (\<exists>d \<in> set ds. route_path d = route_path r \<and> route_rules d = [])"
proof -
  obtain p where p: "optional_trim (incoming_path r) = Inr p"
    using err(1) by (auto simp: validate_route_def split: sum.splits)
  have path: "p = route_path r"
    using p by (cases "incoming_path r") (auto simp: optional_trim_def nullish_def route_path_def)
  have "\<exists>st1. validate_model_list i p (route_upstream r) (converter r) (route_rules r) st = Inr st1
      \<and> validateAdvancedCustomRouteModels i p (route_rules r) (routeModelsByPath st1) = Inl e"
    using err order_message_not(2) target_message_not
    unfolding validate_route_def normal_route_views[OF norm] Let_def p
    by (auto simp: route_error_def catchAllOrderErrorMessage_def split: sum.splits option.splits if_splits)
  then obtain st1 where "validate_model_list i p (route_upstream r) (converter r) (route_rules r) st = Inr st1"
    and models: "validateAdvancedCustomRouteModels i p (route_rules r) (routeModelsByPath st1) = Inl e" by blast
  then have "routeModelsByPath st1 = routeModelsByPath st" by (auto simp: validate_model_list_iff split: if_splits)
  then show ?thesis using models_order_message[OF models err(2)] rec by (auto simp: records_def path)
qed

lemma from_order_message:
  assumes "\<forall>r \<in> set rs. normalizeAdvancedCustomRoute r = Inr r" "records st ds"
    and "validate_from new_url i rs st = Inr (Some e)" "ve_message e = catchAllOrderErrorMessage"
  shows "\<exists>pre r post. rs = pre @ r # post \<and> route_rules r \<noteq> []
     \<and> (\<exists>d \<in> set (ds @ pre). route_path d = route_path r \<and> route_rules d = [])"
  using assms
proof (induction rs arbitrary: i st ds)
  case (Cons r rs)
  have norm: "normalizeAdvancedCustomRoute r = Inr r" using Cons.prems by simp
  show ?case
  proof (cases "validate_route new_url i r st = Inr (Inl e)")
    case True
    then show ?thesis using route_order_message[OF norm Cons.prems(2) True Cons.prems(4)]
      by (intro exI[of _ "[]"]) auto
  next
    case False
    then obtain st' where st': "validate_route new_url i r st = Inr (Inr st')"
      and rest: "validate_from new_url (Suc i) rs st' = Inr (Some e)"
      using Cons.prems(3) by (auto split: sum.splits)
    obtain pre r' post where "rs = pre @ r' # post" "route_rules r' \<noteq> []"
      and "\<exists>d \<in> set ((ds @ [r]) @ pre). route_path d = route_path r' \<and> route_rules d = []"
      using Cons.IH[OF _ validate_route_records[OF norm Cons.prems(2) st'] rest Cons.prems(4)] Cons.prems(1) by auto
    then show ?thesis by (intro exI[of _ "r # pre"] exI[of _ r'] exI[of _ post]) auto
  qed
qed simp

lemma order_message_means:
  assumes norm: "normalizeAdvancedCustomConfig rs = Inr rs"
    and "validateAdvancedCustomConfig new_url (Some rs) = Inr (Some e)" "ve_message e = catchAllOrderErrorMessage"
  shows "\<not> sorted_wrt (\<lambda>a b. route_path a = route_path b \<longrightarrow> route_rules a = [] \<longrightarrow> route_rules b = []) rs"
proof -
  have "validate_from new_url 0 rs \<lparr>routeModelsByPath = Map.empty, modelListRouteIndex = None\<rparr> = Inr (Some e)"
    using assms by (auto simp: validateAdvancedCustomConfig_def catchAllOrderErrorMessage_def split: if_splits)
  moreover have "\<forall>r \<in> set rs. normalizeAdvancedCustomRoute r = Inr r" using normal_routes[OF norm] by blast
  ultimately obtain pre r post d where "rs = pre @ r # post" "route_rules r \<noteq> []" "d \<in> set pre"
    "route_path d = route_path r" "route_rules d = []"
    using from_order_message[OF _ records_start _ assms(3)] by (metis append_Nil)
  then show ?thesis by (auto simp: sorted_wrt_append)
qed

text \<open>In the normal form the dialog and the validation agree on paths and catch-alls.\<close>

lemma normal_path_of:
  "map_throw getRouteIncomingPath rs = Inr paths \<Longrightarrow> r \<in> set rs \<Longrightarrow> path_of r = route_path r"
proof -
  assume "map_throw getRouteIncomingPath rs = Inr paths" "r \<in> set rs"
  then have "\<exists>p. getRouteIncomingPath r = Inr p"
    by (auto simp: map_throw_Inr_iff list_all2_conv_all_nth in_set_conv_nth)
  then show ?thesis
    by (cases "incoming_path r") (auto simp: path_of_def getRouteIncomingPath_def route_path_def js_or_def split: if_splits)
qed

lemma normal_models:
  assumes norm: "normalizeAdvancedCustomRoute r = Inr r"
  shows "route_models r = (if route_rules r = [] then JUndefined else JArr (map JStr (route_rules r)))"
proof -
  have "\<lparr>incoming_path = js_or (incoming_path r) (JStr []), upstream_path = JStr (route_upstream r), converter = converter r,
      route_models = (if route_rules r = [] then JUndefined else JArr (map JStr (route_rules r))),
      route_auth = map_option normalizeAdvancedCustomAuth (route_auth r)\<rparr> = r"
    using norm by (simp add: normalizeAdvancedCustomRoute_def normal_route_views[OF norm])
  from arg_cong[OF this, of route_models] show ?thesis by simp
qed

lemma normal_catch_all: "normalizeAdvancedCustomRoute r = Inr r \<Longrightarrow> isCatchAllRoute r \<longleftrightarrow> route_rules r = []"
  by (simp add: normal_models isCatchAllRoute_def)

lemma sorted_wrt_all: "(\<And>a b. a \<in> set xs \<Longrightarrow> b \<in> set xs \<Longrightarrow> P a b) \<Longrightarrow> sorted_wrt P xs"
  by (induction xs) auto

lemma sorted_wrt_by:
  "(\<And>p. sorted_wrt P (filter (\<lambda>r. f r = p) xs)) \<Longrightarrow> sorted_wrt (\<lambda>a b. f a = f b \<longrightarrow> P a b) xs"
proof (induction xs)
  case (Cons x xs)
  have "sorted_wrt P (filter (\<lambda>r. f r = p) xs)" for p using Cons.prems[of p] by (auto split: if_splits)
  moreover have "P x b" if "b \<in> set xs" "f x = f b" for b using Cons.prems[of "f x"] that by auto
  ultimately show ?case using Cons.IH by auto
qed simp

lemma ordered_rows_sorted:
  "sorted_wrt (\<lambda>a b. isCatchAllRoute (row_route a) \<longrightarrow> isCatchAllRoute (row_route b)) (ordered_rows rows)"
  unfolding ordered_rows_def sorted_wrt_append by (auto intro!: sorted_wrt_all)

lemma fixed_rows_sorted:
  "sorted_wrt (\<lambda>a b. row_path a = row_path b \<longrightarrow> isCatchAllRoute (row_route a) \<longrightarrow> isCatchAllRoute (row_route b)) (fixed_rows rows)"
  by (rule sorted_wrt_by) (simp add: fixed_rows_spec ordered_rows_sorted)

lemma fixed_rows_filter:
  "filter (\<lambda>r. row_path r = p \<and> isCatchAllRoute (row_route r) = b) (fixed_rows rows)
   = filter (\<lambda>r. row_path r = p \<and> isCatchAllRoute (row_route r) = b) rows"
proof -
  have twice: "filter (\<lambda>r. row_path r = p \<and> isCatchAllRoute (row_route r) = b) xs
      = filter (\<lambda>r. isCatchAllRoute (row_route r) = b) (filter (\<lambda>r. row_path r = p) xs)" for xs
    by (simp add: conj_commute)
  have "filter (\<lambda>r. isCatchAllRoute (row_route r) = b) (ordered_rows xs) = filter (\<lambda>r. isCatchAllRoute (row_route r) = b) xs" for xs
    by (cases b) (simp_all add: ordered_rows_def)
  then show ?thesis unfolding twice using fixed_rows_spec[of rows] by simp
qed

lemma fixed_order_not_reported:
  assumes view: "render_editor env st = Inr view" and config: "ed_config st' = map row_route (fixed_rows (view_rows view))"
    and view': "render_editor env st' = Inr view'"
  shows "\<not> canFixCatchAllOrder view'"
proof
  let ?next = "map row_route (fixed_rows (view_rows view))"
  assume "canFixCatchAllOrder view'"
  then obtain e where e: "view_error view' = Some e" "ve_message e = catchAllOrderErrorMessage"
    by (auto simp: canFixCatchAllOrder_def)
  have "set ?next = set (map row_route (view_rows view))"
    using fixed_rows_mset[of "view_rows view"] by (metis mset_map set_mset_mset)
  then have normal: "normalizeAdvancedCustomRoute r = Inr r" if "r \<in> set ?next" for r
    using that normal_routes[OF render_Inr(1)[OF view]] by (simp add: render_Inr(2)[OF view])
  then have next_normal: "normalizeAdvancedCustomConfig ?next = Inr ?next"
    unfolding normalizeAdvancedCustomConfig_def by (intro route_form.map_norm_fixed)
  then have routes': "view_routes view' = ?next" using render_Inr(1)[OF view'] by (simp add: config)
  obtain paths where paths: "map_throw getRouteIncomingPath ?next = Inr paths" using render_Inr(5)[OF view'] routes' by auto
  have "sorted_wrt (\<lambda>a b. path_of a = path_of b \<longrightarrow> isCatchAllRoute a \<longrightarrow> isCatchAllRoute b) ?next"
    using fixed_rows_sorted[of "view_rows view"] by (simp add: sorted_wrt_map)
  then have "sorted_wrt (\<lambda>a b. route_path a = route_path b \<longrightarrow> route_rules a = [] \<longrightarrow> route_rules b = []) ?next"
    by (rule sorted_wrt_mono_rel[rotated]) (auto simp: normal_path_of[OF paths] normal_catch_all[OF normal])
  then show False using order_message_means[OF next_normal] render_Inr(4)[OF view'] e by (auto simp: routes')
qed

section \<open>Properties\<close>

text \<open>C26. Every row has its own identity.  In every state the dialog reaches from its opening, there are as
  many keys as routes and no key occurs twice, so React never takes the fields of one route for those
  of another; and a rendered row shows the key that belongs to its place.\<close>

theorem editor_rows_identified:
  assumes "editor_run env (open_editor env v) evs st"
  shows "length (ed_keys st) = length (ed_config st) \<and> distinct (ed_keys st)
     \<and> (\<forall>view. render_editor env st = Inr view \<longrightarrow> map row_key (view_rows view) = ed_keys st)"
  using editor_run_inv[OF assms open_editor_inv] rendered_keys by (auto simp: editor_inv_def)

definition sample_editor_env :: "AdvancedCustomConfig \<Rightarrow> EditorEnv" where
  "sample_editor_env c = \<lparr>env_parse = (\<lambda>s. Some (config_object c)), env_stringify = (\<lambda>v. js ''{}''), env_url = (\<lambda>_. None)\<rparr>"

definition sample_state :: "AdvancedCustomConfig \<Rightarrow> EditorState" where
  "sample_state c = open_editor (sample_editor_env c) (js ''{}'')"

lemma sample_kept: "json_keeps (env_parse (sample_editor_env c)) (env_stringify (sample_editor_env c)) (config_object c)"
  by (simp add: json_keeps_def sample_editor_env_def is_space_def js_spaces_def)

lemma sample_parsed:
  "normalizeAdvancedCustomConfig c = Inr c \<Longrightarrow> parseAdvancedCustomConfig (env_parse (sample_editor_env c)) (Some (js ''{}'')) = Some c"
  using parse_stringified(2)[OF _ sample_kept] by (simp add: sample_editor_env_def)

lemma sample_editor_config: "normalizeAdvancedCustomConfig c = Inr c \<Longrightarrow> ed_config (sample_state c) = c"
  by (simp add: sample_state_def open_editor_config sample_parsed)

lemma render_total:
  assumes "normalizeAdvancedCustomConfig (ed_config st) = Inr rs" "\<And>r. r \<in> set rs \<Longrightarrow> is_string (incoming_path r)"
    and "validateAdvancedCustomConfig (env_url env) (Some rs) = Inr error"
  shows "\<exists>view. render_editor env st = Inr view \<and> view_routes view = rs \<and> view_error view = error"
proof -
  have "map_throw getRouteIncomingPath rs = Inr (map (\<lambda>r. trim (str_of (incoming_path r))) rs)"
  proof (rule map_throw_total)
    fix r assume "r \<in> set rs"
    then show "getRouteIncomingPath r = Inr (trim (str_of (incoming_path r)))"
      using assms(2)[of r] by (cases "incoming_path r") (auto simp: getRouteIncomingPath_def js_or_def)
  qed
  then show ?thesis using assms by (auto simp: render_editor_def Let_def)
qed

lemma sample_url [simp]: "env_url (sample_editor_env c) = (\<lambda>_. None)"
  by (simp add: sample_editor_env_def)

lemma sample_strings: "r \<in> set sample_split \<Longrightarrow> is_string (incoming_path r)"
  by (auto simp: sample_split_def createAdvancedCustomRoute_def)

lemma sample_view:
  "\<exists>view. render_editor (sample_editor_env sample_split) (sample_state sample_split) = Inr view \<and> view_routes view = sample_split
     \<and> view_error view = None"
  using sample_split_normal sample_strings sample_accepted by (intro render_total) (auto simp: sample_editor_config)

lemma sample_step:
  assumes "\<And>view. render_editor (sample_editor_env sample_split) (sample_state sample_split) = Inr view \<Longrightarrow> view_routes view = sample_split \<Longrightarrow>
      view_error view = None \<Longrightarrow>
      offered view VisualMode ev \<and> handle (sample_editor_env sample_split) view ev (sample_state sample_split) = st"
  shows "editor_run (sample_editor_env sample_split) (open_editor (sample_editor_env sample_split) (js ''{}'')) [ev] st"
proof -
  obtain view where view: "render_editor (sample_editor_env sample_split) (sample_state sample_split) = Inr view"
    "view_routes view = sample_split" "view_error view = None"
    using sample_view by blast
  have "ed_open (sample_state sample_split)" "ed_mode (sample_state sample_split) = VisualMode"
    by (simp_all add: sample_state_def open_editor_def Let_def)
  then have "editor_step (sample_editor_env sample_split) ev (sample_state sample_split) st"
    using assms[OF view] editor_step.step[OF _ view(1)] by metis
  then show ?thesis by (simp add: editor_run_Cons editor_run_Nil flip: sample_state_def)
qed

theorem editor_rows_identified_witness:
  "length (ed_keys (removeRoute 0 (sample_state sample_split))) = length (ed_config (removeRoute 0 (sample_state sample_split)))
   \<and> distinct (ed_keys (removeRoute 0 (sample_state sample_split)))"
  using editor_rows_identified[OF sample_step[of "PressRemove 0" "removeRoute 0 (sample_state sample_split)"]]
  by (simp add: sample_split_def)

text \<open>C27. Fix order repairs the order and nothing else.  In every state the dialog reaches, it keeps the
  routes with their keys, leaves every place to its path, keeps the order of the routes of a path that
  have rules and of those that have none, and afterwards the validation does not complain of the order
  of a catch-all.\<close>

theorem fix_order_repairs:
  assumes run: "editor_run env (open_editor env v) evs st" and view: "render_editor env st = Inr view"
  shows "mset (zip (ed_keys (fixCatchAllOrder view st)) (ed_config (fixCatchAllOrder view st)))
       = mset (zip (ed_keys st) (view_routes view))
   \<and> map path_of (ed_config (fixCatchAllOrder view st)) = map path_of (view_routes view)
   \<and> (\<forall>p. \<forall>b. filter (\<lambda>r. path_of r = p \<and> isCatchAllRoute r = b) (ed_config (fixCatchAllOrder view st))
            = filter (\<lambda>r. path_of r = p \<and> isCatchAllRoute r = b) (view_routes view))
   \<and> (\<forall>view'. render_editor env (fixCatchAllOrder view st) = Inr view' \<longrightarrow> \<not> canFixCatchAllOrder view')"
proof -
  let ?rows = "view_rows view" and ?st = "fixCatchAllOrder view st"
  have inv: "editor_inv st" by (rule editor_run_inv[OF run open_editor_inv])
  have routes: "map row_route ?rows = view_routes view" by (simp add: render_Inr(2)[OF view])
  have keys: "map row_key ?rows = ed_keys st" by (rule rendered_keys[OF inv view])
  have st: "?st = st\<lparr>ed_config := map row_route (fixed_rows ?rows), ed_keys := map row_key (fixed_rows ?rows)\<rparr>"
    by (simp add: fixCatchAllOrder_def Let_def replaceRoutes_Inr[OF render_Inr(1)[OF view]])
  have zips: "zip (map row_key rows) (map row_route rows) = map (\<lambda>r. (row_key r, row_route r)) rows" for rows
    by (induction rows) auto
  have "mset (zip (ed_keys ?st) (ed_config ?st)) = mset (zip (ed_keys st) (view_routes view))"
    unfolding routes[symmetric] keys[symmetric] by (simp add: st zips fixed_rows_mset)
  moreover have "map path_of (ed_config ?st) = map path_of (view_routes view)"
    unfolding routes[symmetric] using fixed_rows_spec[of ?rows] by (simp add: st comp_def)
  moreover have "filter (\<lambda>r. path_of r = p \<and> isCatchAllRoute r = b) (ed_config ?st)
      = filter (\<lambda>r. path_of r = p \<and> isCatchAllRoute r = b) (view_routes view)" for p b
    unfolding routes[symmetric] st using fixed_rows_filter[of p b ?rows] by (simp add: filter_map comp_def)
  moreover have "\<not> canFixCatchAllOrder view'" if "render_editor env ?st = Inr view'" for view'
    using fixed_order_not_reported[OF view _ that] by (simp add: st)
  ultimately show ?thesis by blast
qed

lemma sample_unordered:
  "validateAdvancedCustomConfig (\<lambda>_. None) (Some (rev sample_split)) = Inr (Some (route_error 1 ''Catch-all route must be last for the same incoming path''))"
proof -
  have "normalizeAdvancedCustomConfig (rev sample_split) = Inr (rev sample_split)"
    by (simp add: sample_split_def createAdvancedCustomRoute_def openAIChatPath_def normal_eval)
  then show ?thesis
    by (simp add: validateAdvancedCustomConfig_def sample_split_def createAdvancedCustomRoute_def validate_route_def optional_trim_def
        nullish_def validate_model_list_def validateAdvancedCustomRouteModels_def validate_target_def validateRouteAuth_def
        path_rules_def Let_def builtin_eval normal_eval)
qed

theorem fix_order_repairs_witness:
  "\<exists>view. render_editor (sample_editor_env (rev sample_split)) (sample_state (rev sample_split)) = Inr view \<and> canFixCatchAllOrder view
     \<and> map path_of (ed_config (fixCatchAllOrder view (sample_state (rev sample_split)))) = map path_of (rev sample_split)
     \<and> mset (zip (ed_keys (fixCatchAllOrder view (sample_state (rev sample_split))))
                  (ed_config (fixCatchAllOrder view (sample_state (rev sample_split)))))
       = mset (zip (ed_keys (sample_state (rev sample_split))) (rev sample_split))"
proof -
  have normal: "normalizeAdvancedCustomConfig (rev sample_split) = Inr (rev sample_split)"
    by (simp add: sample_split_def createAdvancedCustomRoute_def openAIChatPath_def normal_eval)
  obtain view where view: "render_editor (sample_editor_env (rev sample_split)) (sample_state (rev sample_split)) = Inr view"
    "view_routes view = rev sample_split"
    and error: "view_error view = Some (route_error 1 ''Catch-all route must be last for the same incoming path'')"
    using render_total[of "sample_state (rev sample_split)" "rev sample_split" "sample_editor_env (rev sample_split)"]
      normal sample_unordered sample_strings by (auto simp: sample_editor_config[OF normal])
  have "canFixCatchAllOrder view"
    by (simp add: canFixCatchAllOrder_def error route_error_def catchAllOrderErrorMessage_def)
  moreover have "editor_run (sample_editor_env (rev sample_split)) (open_editor (sample_editor_env (rev sample_split)) (js ''{}'')) []
      (sample_state (rev sample_split))"
    by (simp add: sample_state_def editor_run_Nil)
  ultimately show ?thesis using view fix_order_repairs[of "sample_editor_env (rev sample_split)" "js ''{}''" "[]" "sample_state (rev sample_split)" view]
    by metis
qed

text \<open>What is saved: the text of an accepted configuration in normal form, once, and then the dialog is closed.\<close>

definition saved_ok :: "EditorEnv \<Rightarrow> EditorState \<Rightarrow> bool" where
  "saved_ok env st \<longleftrightarrow> ed_saved st = [] \<or> (\<not> ed_open st \<and> (\<exists>c. ed_saved st = [env_stringify env (config_object c)]
     \<and> normalizeAdvancedCustomConfig c = Inr c \<and> validateAdvancedCustomConfig (env_url env) (Some c) = Inr None))"

lemma saved_by_handlers:
  "ed_saved (addRoute view p st) = ed_saved st" "ed_saved (addRouteForIncomingPath p st) = ed_saved st"
  "ed_saved (removeRoute i st) = ed_saved st" "ed_saved (replaceRoutes rs keys st) = ed_saved st"
  "ed_saved (edit_field view i event st) = ed_saved st"
  by (auto simp: addRoute_def addRouteForIncomingPath_def append_route_def removeRoute_def edit_field_def updateRoute_def
      replaceRoutes_def with_routes_def createRouteKey_def Let_def split: sum.splits option.splits)

lemma saved_by_moves:
  "ed_saved (updateGroupIncomingPath view g path st) = ed_saved st" "ed_saved (moveRouteWithinGroup view i d st) = ed_saved st"
  "ed_saved (moveRouteToGroupEnd view i st) = ed_saved st" "ed_saved (fixCatchAllOrder view st) = ed_saved st"
  by (auto simp: updateGroupIncomingPath_def moveRouteWithinGroup_def swapRoutes_def moveRouteToGroupEnd_def
      fixCatchAllOrder_def saved_by_handlers Let_def split: option.splits)

lemma saved_by_texts:
  "ed_saved (switchToVisualMode env st) = ed_saved st" "ed_saved (switchToJsonMode env view st) = ed_saved st"
  "ed_saved (handleJsonChange t st) = ed_saved st" "ed_saved (use_config env c st) = ed_saved st"
  by (auto simp: switchToVisualMode_def switchToJsonMode_def handleJsonChange_def use_config_def Let_def
      split: sum.splits option.splits dest: parse_editor_state)

lemma saved_by_template: "ed_saved (applyTemplate env view mode st) = ed_saved st"
  by (auto simp: applyTemplate_def base_config_def Let_def saved_by_texts split: TemplateMode.splits sum.splits option.splits if_splits
      dest: parse_editor_state)

lemma save_text_ok:
  assumes "ed_saved st = []" "normalizeAdvancedCustomConfig c = Inr c" "validateAdvancedCustomConfig (env_url env) (Some c) = Inr None"
  shows "saved_ok env (save_text env c st)"
  using assms by (auto simp: saved_ok_def save_text_def stringifyAdvancedCustomConfig_def)

lemma editor_saveConfig_ok:
  assumes "ed_saved st = []" "render_editor env st = Inr view"
  shows "saved_ok env (editor_saveConfig env view st)"
proof (cases "ed_mode st = JsonMode")
  case True
  show ?thesis
  proof (cases "parseJsonEditorConfig env st")
    case (Inr r)
    obtain c st1 where r: "parseJsonEditorConfig env st = Inr (c, st1)" using Inr by (cases r) auto
    show ?thesis
    proof (cases c)
      case (Some parsed)
      show ?thesis
        using True r Some parse_editor_state(4)[OF r] parse_editor_state(7)[OF r, of parsed] assms(1) save_text_ok[of st1 parsed env] parsed_normal
        by (auto simp: editor_saveConfig_def)
    qed (use True r parse_editor_state(4)[OF r] assms(1) in \<open>simp add: editor_saveConfig_def saved_ok_def\<close>)
  qed (use True assms(1) in \<open>simp add: editor_saveConfig_def saved_ok_def\<close>)
next
  case False
  then show ?thesis
    using assms(1) save_text_ok[of st "view_routes view" env] normalize_config_idem[OF render_Inr(1)[OF assms(2)]]
      render_Inr(4)[OF assms(2)] by (auto simp: editor_saveConfig_def saved_ok_def split: option.splits)
qed

lemma step_saved_ok: "editor_step env ev st st' \<Longrightarrow> saved_ok env st \<Longrightarrow> saved_ok env st'"
proof (erule editor_stepE)
  fix view assume step: "st' = handle env view ev st" "ed_open st" "render_editor env st = Inr view" and "saved_ok env st"
  then have none: "ed_saved st = []" by (auto simp: saved_ok_def)
  show "saved_ok env st'"
  proof (cases "ev = PressSave")
    case True
    then show ?thesis using step editor_saveConfig_ok[OF none step(3)] by simp
  next
    case False
    then have "ed_saved st' = ed_saved st"
      using step(1) by (cases ev) (simp_all add: saved_by_handlers saved_by_moves saved_by_texts saved_by_template)
    then show ?thesis using none by (simp add: saved_ok_def)
  qed
qed

lemma run_saved_ok: "editor_run env st evs st' \<Longrightarrow> saved_ok env st \<Longrightarrow> saved_ok env st'"
  by (induction rule: editor_run.induct) (auto intro: step_saved_ok)

text \<open>C28. Only accepted routes are saved.  Whatever the user does in the dialog, in either mode, it hands over at
  most one text and is then closed; the text is that of a configuration in normal form which the
  validation accepts, and where \<open>JSON\<close> reads back what it wrote, opening the text again gives that
  configuration.\<close>

theorem saved_routes_accepted:
  assumes "editor_run env (open_editor env v) evs st" and "text \<in> set (ed_saved st)"
  shows "ed_saved st = [text] \<and> \<not> ed_open st
     \<and> (\<exists>c. text = env_stringify env (config_object c) \<and> validateAdvancedCustomConfig (env_url env) (Some c) = Inr None
          \<and> (json_keeps (env_parse env) (env_stringify env) (config_object c) \<longrightarrow>
               ed_config (open_editor env text) = c))"
proof -
  have "saved_ok env st"
    by (rule run_saved_ok[OF assms(1)]) (simp add: saved_ok_def open_editor_def Let_def)
  then obtain c where c: "ed_saved st = [env_stringify env (config_object c)]" "\<not> ed_open st"
    "normalizeAdvancedCustomConfig c = Inr c" "validateAdvancedCustomConfig (env_url env) (Some c) = Inr None"
    using assms(2) by (auto simp: saved_ok_def)
  then show ?thesis using assms(2) parse_stringified(2)[OF c(3)] by (auto simp: open_editor_config)
qed

lemma sample_saved: "render_editor (sample_editor_env sample_split) (sample_state sample_split) = Inr view \<Longrightarrow> view_routes view = sample_split \<Longrightarrow>
    view_error view = None \<Longrightarrow>
    editor_saveConfig (sample_editor_env sample_split) view (sample_state sample_split) = (sample_state sample_split)\<lparr>ed_saved := [js ''{}''], ed_open := False\<rparr>"
  by (simp add: editor_saveConfig_def save_text_def stringifyAdvancedCustomConfig_def sample_split_normal sample_state_def
      open_editor_def Let_def) (simp add: sample_editor_env_def)

theorem saved_routes_accepted_witness:
  "\<exists>st :: EditorState. ed_saved st = [js ''{}''] \<and> \<not> ed_open st
     \<and> (\<exists>c. js ''{}'' = env_stringify (sample_editor_env sample_split) (config_object c)
          \<and> validateAdvancedCustomConfig (env_url (sample_editor_env sample_split)) (Some c) = Inr None)"
proof -
  let ?st = "(sample_state sample_split)\<lparr>ed_saved := [js ''{}''], ed_open := False\<rparr>"
  have run: "editor_run (sample_editor_env sample_split) (open_editor (sample_editor_env sample_split) (js ''{}'')) [PressSave] ?st"
    by (rule sample_step) (simp add: sample_saved)
  have "js ''{}'' \<in> set (ed_saved ?st)" by simp
  from saved_routes_accepted[OF run this] show ?thesis by (intro exI[of _ ?st]) auto
qed

text \<open>What the visual mode edits leaves the text of the other mode as it was.\<close>

fun visual_edit :: "EditorEvent \<Rightarrow> bool" where
  "visual_edit (PickNewPath p) = True"
| "visual_edit (PressAddSplit g) = True"
| "visual_edit (PickGroupPath g p) = True"
| "visual_edit (PressMove i d) = True"
| "visual_edit (PressMoveToEnd i) = True"
| "visual_edit (PressRemove i) = True"
| "visual_edit PressFixOrder = True"
| "visual_edit (EditField i event) = True"
| "visual_edit _ = False"

lemma text_by_handlers:
  "ed_jsonText (addRoute view p st) = ed_jsonText st" "ed_jsonText (addRouteForIncomingPath p st) = ed_jsonText st"
  "ed_jsonText (removeRoute i st) = ed_jsonText st" "ed_jsonText (replaceRoutes rs keys st) = ed_jsonText st"
  "ed_jsonText (edit_field view i event st) = ed_jsonText st"
  by (auto simp: addRoute_def addRouteForIncomingPath_def append_route_def removeRoute_def edit_field_def updateRoute_def
      replaceRoutes_def with_routes_def createRouteKey_def Let_def split: sum.splits option.splits)

lemma text_by_moves:
  "ed_jsonText (updateGroupIncomingPath view g path st) = ed_jsonText st" "ed_jsonText (moveRouteWithinGroup view i d st) = ed_jsonText st"
  "ed_jsonText (moveRouteToGroupEnd view i st) = ed_jsonText st" "ed_jsonText (fixCatchAllOrder view st) = ed_jsonText st"
  by (auto simp: updateGroupIncomingPath_def moveRouteWithinGroup_def swapRoutes_def moveRouteToGroupEnd_def
      fixCatchAllOrder_def text_by_handlers Let_def split: option.splits)

lemma visual_edits_keep_text:
  "editor_run env st evs st' \<Longrightarrow> list_all visual_edit evs \<Longrightarrow> ed_jsonText st' = ed_jsonText st"
proof (induction rule: editor_run.induct)
  case (run_cons ev st st1 evs st2)
  obtain view where "st1 = handle env view ev st" using run_cons.hyps(1) by (auto elim: editor_stepE)
  then have "ed_jsonText st1 = ed_jsonText st"
    using run_cons.prems by (cases ev) (simp_all add: text_by_handlers text_by_moves)
  then show ?case using run_cons by simp
qed simp

text \<open>The button of the visual mode discards the edits.  It is never disabled, and pressing it in the visual
  mode reads the text of the other mode, which the visual edits have not touched: after any edits
  of a dialog opened on an accepted configuration, it brings back the configuration as it was opened.\<close>

lemma visual_button_discards_edits:
  assumes opened: "parseAdvancedCustomConfig (env_parse env) (Some v) = Some c"
      "validateAdvancedCustomConfig (env_url env) (Some c) = Inr None"
      "json_keeps (env_parse env) (env_stringify env) (config_object c)"
    and edits: "editor_run env (open_editor env v) evs st" "list_all visual_edit evs"
    and press: "editor_step env PressVisual st st'"
  shows "ed_config st' = c"
proof -
  have normal: "normalizeAdvancedCustomConfig c = Inr c" by (rule parsed_normal[OF opened(1)])
  have "ed_jsonText (open_editor env v) = env_stringify env (config_object c)"
    using opened(1) normal by (simp add: open_editor_def Let_def stringifyAdvancedCustomConfig_def)
  then have "parseAdvancedCustomConfig (env_parse env) (Some (ed_jsonText st)) = Some c"
    using visual_edits_keep_text[OF edits] parse_stringified(2)[OF normal opened(3)] by simp
  then have "ed_config (switchToVisualMode env st) = c"
    using opened(2) normal by (simp add: switchToVisualMode_def parseJsonEditorConfig_def)
  then show ?thesis using press by (auto elim: editor_stepE)
qed

text \<open>The rules of the field, split at the commas.\<close>

lemma trim_split_space: "map trim (split_on 44 (32 # w)) = map trim (split_on 44 w)"
proof -
  have "trim (32 # p) = trim p" for p by (simp add: trim_def is_space_def js_spaces_def)
  then show ?thesis by (simp split: list.splits)
qed

lemma comma_rules:
  assumes "\<And>m. m \<in> set ms \<Longrightarrow> 44 \<notin> set m \<and> trim m = m \<and> m \<noteq> []"
  shows "filter (\<lambda>m. m \<noteq> []) (map trim (split_on 44 (join (js '', '') ms @ [44]))) = ms"
  using assms
proof (induction "js '', ''" ms rule: join.induct)
  case (3 p q ps)
  have "split_on 44 ((p @ js '', '' @ join (js '', '') (q # ps)) @ [44])
      = p # split_on 44 (32 # join (js '', '') (q # ps) @ [44])"
    using split_on_append[of 44 p "32 # join (js '', '') (q # ps) @ [44]"] 3(2)[of p] by (simp add: js_Cons)
  then show ?case using 3 by (simp add: trim_split_space del: split_on.simps)
qed (auto simp: split_on_append)

lemma map_throw_texts: "map_throw trim_value (map JStr vs) = Inr (map trim vs)"
  by (induction vs) auto

lemma models_shown:
  "normalizeAdvancedCustomRoute r = Inr r \<Longrightarrow> models_input_value r = join (js '', '') (route_rules r)"
  by (simp add: models_input_value_def normal_models comp_def)

text \<open>A comma cannot be typed.  The field of the rules shows their normal form, so a comma typed at the end of
  it leaves the routes as they were, and the next character continues the rule before it; the help
  beside the field says that rules are separated by commas.\<close>

lemma typed_comma_vanishes:
  assumes view: "render_editor env st = Inr view" and i: "i < length (view_routes view)"
    and plain: "\<And>m. m \<in> set (route_rules (view_routes view ! i)) \<Longrightarrow> 44 \<notin> set m"
    and typed: "st' = handle env view (EditField i (SetModelsInput (models_input_value (view_routes view ! i) @ [44]))) st"
  shows "\<exists>view'. render_editor env st' = Inr view' \<and> view_routes view' = view_routes view \<and> view_rows view' = view_rows view"
proof -
  let ?r = "view_routes view ! i" and ?routes = "view_routes view"
  let ?vs = "split_on 44 (models_input_value ?r @ [44])"
  have normal: "normalizeAdvancedCustomRoute r = Inr r" if "r \<in> set ?routes" for r
    using that normal_routes[OF render_Inr(1)[OF view]] by blast
  note r = normal[OF nth_mem[OF i]]
  have rules: "filter (\<lambda>m. m \<noteq> []) (map trim ?vs) = route_rules ?r"
    unfolding models_shown[OF r] using plain normalize_models_elems[OF normal_route_views(3)[OF r]]
    by (intro comma_rules) auto
  have "normalizeAdvancedCustomRouteModels (JArr (map JStr ?vs)) = Inr (route_rules ?r)"
    using rules by (simp add: normalizeAdvancedCustomRouteModels_def map_throw_texts)
  then have same: "normalizeAdvancedCustomRoute (?r\<lparr>route_models := JArr (map JStr ?vs)\<rparr>) = Inr ?r"
    using r normal_route_views[OF r] by (simp add: normalizeAdvancedCustomRoute_def getAdvancedCustomRouteUpstreamPath_def)
  have st': "ed_config st' = ?routes[i := ?r\<lparr>route_models := JArr (map JStr ?vs)\<rparr>]" "ed_keys st' = ed_keys st"
    using typed by (simp_all add: edit_field_def updateRoute_def with_routes_Inr[OF render_Inr(1)[OF view]])
  have "normalizeAdvancedCustomConfig (ed_config st') = Inr ?routes"
    using same i normal[OF nth_mem] by (auto simp: st' normalizeAdvancedCustomConfig_def map_throw_Inr_iff list_all2_conv_all_nth nth_list_update)
  then show ?thesis
    using render_Inr[OF view] by (auto simp: render_editor_def st' Let_def)
qed

lemma sample_removed: "ed_config (removeRoute 0 (sample_state sample_split)) = [createAdvancedCustomRoute]"
  using with_routes_Inr[of "sample_state sample_split"] sample_split_normal
  by (simp add: removeRoute_def sample_editor_config Let_def remove_nth_def sample_split_def)

end
