(* ===== verification/Channel_Form.thy ===== *)
theory Channel_Form
  imports Channel_Routes Access_Control
begin

text \<open>
  The form in which a channel is created and edited, after \<open>features/channels/lib/channel-form.ts\<close> and
  \<open>features/channels/hooks/use-channel-mutate-form.ts\<close>: reading a channel into the form, the checks of its
  schema, the two texts of settings it writes, and what is sent.

  A channel and a request are objects (\<open>jval\<close>).  Most fields of the form are values of any type, because the
  settings of a channel are texts parsed without a check; the functions that write run after the
  schema has established the types, so they read a text by \<open>str_of\<close>.  \<open>JSON\<close>, \<open>String\<close>, \<open>Number\<close>,
  \<open>toLowerCase\<close> and the \<open>URL\<close> class are arguments.  \<open>String\<close> and \<open>Number\<close> are taken to return: a parsed object
  with a \<open>toString\<close> of its own, of which they throw, is outside the model.
\<close>

section \<open>Environment\<close>

record FormEnv =
  fe_parse :: "jstr \<Rightarrow> jval option"
  fe_stringify :: "jval \<Rightarrow> jstr"
  fe_string :: "jval \<Rightarrow> jstr"
  fe_number :: "jval \<Rightarrow> jnum"
  fe_lower :: "jstr \<Rightarrow> jstr"
  fe_url :: "jstr \<Rightarrow> (jstr \<times> jstr \<times> jstr \<times> jstr) option"

text \<open>The last is \<open>new URL\<close>: protocol, host, host name and port.\<close>

definition to_text :: "FormEnv \<Rightarrow> jval \<Rightarrow> jstr" where
  "to_text env v = (case v of JStr s \<Rightarrow> s | _ \<Rightarrow> fe_string env v)"

definition to_number :: "FormEnv \<Rightarrow> jval \<Rightarrow> jnum" where
  "to_number env v = (case v of JNum n \<Rightarrow> n | _ \<Rightarrow> fe_number env v)"

definition form_url :: "FormEnv \<Rightarrow> url_class" where
  "form_url env s = map_option (\<lambda>(protocol, host, hostname, port). (protocol, host)) (fe_url env s)"

text \<open>\<open>v === true\<close> as a value, and \<open>types.has(v)\<close>.\<close>

definition is_true :: "jval \<Rightarrow> jval" where
  "is_true v = JBool (v = JBool True)"

definition has_type :: "rat list \<Rightarrow> jval \<Rightarrow> bool" where
  "has_type types v \<longleftrightarrow> v \<in> set (map (\<lambda>n. JNum (Fin n)) types)"

section \<open>Constants\<close>

definition CHANNEL_TYPE_NEW_API :: rat where "CHANNEL_TYPE_NEW_API = 60"

definition CHANNEL_TYPE_TASK_PLUGIN :: rat where "CHANNEL_TYPE_TASK_PLUGIN = 62"

definition CHANNEL_TYPE_ADVANCED_CUSTOM :: rat where "CHANNEL_TYPE_ADVANCED_CUSTOM = 58"

definition FORCE_RESPONSES_CHANNEL_TYPES :: "rat list" where
  "FORCE_RESPONSES_CHANNEL_TYPES = [1, 3, 48, 57, 59, 60]"

definition MODEL_FETCHABLE_TYPES :: "rat list" where
  "MODEL_FETCHABLE_TYPES = [1, 4, 14, 17, 20, 23, 24, 25, 26, 27, 31, 34, 35, 40, 42, 43, 47, 48, 57, 58, 59, 60]"

definition FIELD_PASSTHROUGH_TYPES :: "rat list" where
  "FIELD_PASSTHROUGH_TYPES = [1, 14, 57, 58, 59, CHANNEL_TYPE_NEW_API]"

definition OPENAI_FIELD_PASSTHROUGH_TYPES :: "rat list" where
  "OPENAI_FIELD_PASSTHROUGH_TYPES = [1, 57, 58, 59, CHANNEL_TYPE_NEW_API]"

definition CLAUDE_FIELD_PASSTHROUGH_TYPES :: "rat list" where
  "CLAUDE_FIELD_PASSTHROUGH_TYPES = [14, 58, 59, CHANNEL_TYPE_NEW_API]"

definition SUPPORTED_PROXY_PROTOCOLS :: "jstr list" where
  "SUPPORTED_PROXY_PROTOCOLS = map js [''http:'', ''https:'', ''socks5:'', ''socks5h:'']"

definition MAX_HTTP2_CONNECTION_SHARDS :: rat where "MAX_HTTP2_CONNECTION_SHARDS = 8"

section \<open>Form values\<close>

text \<open>The columns of a channel, its extra settings (the text \<open>setting\<close>) and its other settings (the text
  \<open>settings\<close>).\<close>

record ChannelBase =
  cb_name :: jval
  cb_type :: jval
  cb_vendor_id :: jval
  cb_base_url :: jval
  cb_key :: jval
  cb_openai_organization :: jval
  cb_models :: jval
  cb_group :: "jstr list"
  cb_group_ids :: jval
  cb_model_mapping :: jval
  cb_priority :: jval
  cb_weight :: jval
  cb_concurrency_limit :: jval
  cb_test_model :: jval
  cb_auto_ban :: jval
  cb_status :: jval
  cb_status_code_mapping :: jval
  cb_tag :: jval
  cb_remark :: jval
  cb_setting :: jval
  cb_param_override :: jval
  cb_header_override :: jval
  cb_settings :: jval
  cb_other :: jval
  cb_multi_key_mode :: jval
  cb_multi_key_type :: jval
  cb_batch_add_set_key_prefix_2_name :: jval
  cb_key_mode :: jval

record ChannelExtra =
  cx_task_plugin_key :: jval
  cx_force_format :: jval
  cx_force_responses :: jval
  cx_thinking_to_content :: jval
  cx_proxy :: jval
  cx_http_protocol :: jval
  cx_http2_connection_shards :: jval
  cx_pass_through_body_enabled :: jval
  cx_system_prompt :: jval
  cx_system_prompt_override :: jval

record ChannelOther =
  cs_is_enterprise_account :: jval
  cs_vertex_key_type :: jval
  cs_azure_responses_version :: jval
  cs_aws_key_type :: jval
  cs_allow_service_tier :: jval
  cs_disable_store :: jval
  cs_allow_safety_identifier :: jval
  cs_allow_include_obfuscation :: jval
  cs_allow_inference_geo :: jval
  cs_allow_speed :: jval
  cs_claude_beta_query :: jval
  cs_claude_code_fingerprint_enabled :: jval
  cs_claude_code_transport_fingerprint_enabled :: jval
  cs_claude_code_version :: jval
  cs_claude_code_entrypoint :: jval
  cs_monitor_enabled :: jval
  cs_monitor_test_interval_minutes :: jval
  cs_monitor_response_time_threshold_seconds :: jval
  cs_monitor_auto_disable_enabled :: jval
  cs_monitor_auto_enable_enabled :: jval
  cs_monitor_disable_threshold :: jval
  cs_monitor_enable_threshold :: jval
  cs_disable_task_polling_sleep :: jval
  cs_upstream_model_update_check_enabled :: jval
  cs_upstream_model_update_auto_sync_enabled :: jval
  cs_upstream_model_update_ignored_models :: jval
  cs_tokenspro_overview_sync_enabled :: jval
  cs_tokenspro_overview_sync_interval_seconds :: jval
  cs_tokenspro_overview_last_success_time :: jval
  cs_tokenspro_overview_last_allowed :: jval
  cs_tokenspro_overview_last_error :: jval
  cs_advanced_custom :: jval

record ChannelFormValues =
  form_base :: ChannelBase
  form_extra :: ChannelExtra
  form_other :: ChannelOther

definition default_extra :: ChannelExtra where
  "default_extra = \<lparr>cx_task_plugin_key = JStr [], cx_force_format = JBool False, cx_force_responses = JBool False,
     cx_thinking_to_content = JBool False, cx_proxy = JStr [], cx_http_protocol = JStr (js ''auto''),
     cx_http2_connection_shards = JNum (Fin 1), cx_pass_through_body_enabled = JBool False,
     cx_system_prompt = JStr [], cx_system_prompt_override = JBool False\<rparr>"

definition default_other :: ChannelOther where
  "default_other = \<lparr>cs_is_enterprise_account = JBool False, cs_vertex_key_type = JStr (js ''json''),
     cs_azure_responses_version = JStr [], cs_aws_key_type = JStr (js ''ak_sk''),
     cs_allow_service_tier = JBool False, cs_disable_store = JBool False,
     cs_allow_safety_identifier = JBool False, cs_allow_include_obfuscation = JBool False,
     cs_allow_inference_geo = JBool False, cs_allow_speed = JBool False,
     cs_claude_beta_query = JBool False, cs_claude_code_fingerprint_enabled = JBool False,
     cs_claude_code_transport_fingerprint_enabled = JBool False, cs_claude_code_version = JStr [],
     cs_claude_code_entrypoint = JStr [], cs_monitor_enabled = JStr (js ''inherit''),
     cs_monitor_test_interval_minutes = JStr [], cs_monitor_response_time_threshold_seconds = JStr [],
     cs_monitor_auto_disable_enabled = JStr (js ''inherit''),
     cs_monitor_auto_enable_enabled = JStr (js ''inherit''), cs_monitor_disable_threshold = JStr [],
     cs_monitor_enable_threshold = JStr [], cs_disable_task_polling_sleep = JBool False,
     cs_upstream_model_update_check_enabled = JBool False,
     cs_upstream_model_update_auto_sync_enabled = JBool False,
     cs_upstream_model_update_ignored_models = JStr [],
     cs_tokenspro_overview_sync_enabled = JBool False,
     cs_tokenspro_overview_sync_interval_seconds = JStr [],
     cs_tokenspro_overview_last_success_time = JNum (Fin 0),
     cs_tokenspro_overview_last_allowed = JNull, cs_tokenspro_overview_last_error = JStr [],
     cs_advanced_custom = JStr []\<rparr>"

definition CHANNEL_FORM_DEFAULT_VALUES :: ChannelFormValues where
  "CHANNEL_FORM_DEFAULT_VALUES = \<lparr>form_base =
     \<lparr>cb_name = JStr [], cb_type = JNum (Fin 1), cb_vendor_id = JUndefined, cb_base_url = JStr [],
      cb_key = JStr [], cb_openai_organization = JStr [], cb_models = JStr [],
      cb_group = [js ''default''], cb_group_ids = JArr [], cb_model_mapping = JStr [],
      cb_priority = JNum (Fin 0), cb_weight = JNum (Fin 0), cb_concurrency_limit = JNum (Fin 0),
      cb_test_model = JStr [], cb_auto_ban = JNum (Fin 1), cb_status = JNum (Fin 1),
      cb_status_code_mapping = JStr [], cb_tag = JStr [], cb_remark = JStr [], cb_setting = JStr [],
      cb_param_override = JStr [], cb_header_override = JStr [], cb_settings = JStr (js ''{}''),
      cb_other = JStr [], cb_multi_key_mode = JStr (js ''single''),
      cb_multi_key_type = JStr (js ''random''), cb_batch_add_set_key_prefix_2_name = JBool False,
      cb_key_mode = JStr (js ''append'')\<rparr>,
     form_extra = default_extra, form_other = default_other\<rparr>"

section \<open>Small readers\<close>

definition normalizeHttpProtocol :: "FormEnv \<Rightarrow> jval \<Rightarrow> jstr" where
  "normalizeHttpProtocol env v =
     (if fe_lower env (trim (to_text env (js_or v (JStr [])))) = js ''http1'' then js ''http1'' else js ''auto'')"

definition normalizeHttp2ConnectionShards :: "FormEnv \<Rightarrow> jval \<Rightarrow> jval" where
  "normalizeHttp2ConnectionShards env v =
     (if nullish v \<or> v = JNum NaN \<or> v = JNum (Fin 0) then JNum (Fin 1)
      else if num_less (to_number env v) (Fin 1) then JNum (Fin 1)
      else if num_less (Fin MAX_HTTP2_CONNECTION_SHARDS) (to_number env v) then JNum (Fin MAX_HTTP2_CONNECTION_SHARDS)
      else v)"

definition booleanOverride :: "jval \<Rightarrow> jval" where
  "booleanOverride v = (if v = JBool True then JStr (js ''enabled'')
     else if v = JBool False then JStr (js ''disabled'') else JStr (js ''inherit''))"

definition numericSetting :: "FormEnv \<Rightarrow> jval \<Rightarrow> jval" where
  "numericSetting env v = (case v of
     JNum n \<Rightarrow> if is_finite n then JStr (fe_string env v) else JStr [] | _ \<Rightarrow> JStr [])"

definition text_or_empty :: "jval \<Rightarrow> jval" where
  "text_or_empty v = (if is_string v then v else JStr [])"

definition parseGroups :: "jstr \<Rightarrow> jstr list" where
  "parseGroups groups = (if groups = [] then [] else filter (\<lambda>g. 0 < length g) (map trim (split_on 44 groups)))"

definition formatGroups :: "jstr list \<Rightarrow> jstr" where
  "formatGroups groups = join (js '','') groups"

definition parseModels :: "jstr \<Rightarrow> jstr list" where
  "parseModels models = (if models = [] then [] else filter (\<lambda>m. 0 < length m) (map trim (split_on 44 models)))"

definition formatModels :: "jstr list \<Rightarrow> jstr" where
  "formatModels models = join (js '','') models"

text \<open>\<open>vs.join(',')\<close> for values of any type.\<close>

definition join_values :: "FormEnv \<Rightarrow> jval list \<Rightarrow> jstr" where
  "join_values env vs = join (js '','') (map (\<lambda>v. if nullish v then [] else to_text env v) vs)"

section \<open>From a channel to the form\<close>

text \<open>The two texts are read in a \<open>try\<close>: where \<open>JSON.parse\<close> throws or gives \<open>null\<close>, the defaults stay.\<close>

definition read_extra_settings :: "FormEnv \<Rightarrow> jval \<Rightarrow> ChannelExtra" where
  "read_extra_settings env setting =
     (if \<not> truthy setting then default_extra
      else case fe_parse env (str_of setting) of
        None \<Rightarrow> default_extra
      | Some parsed \<Rightarrow>
          if nullish parsed then default_extra
          else let protocol = normalizeHttpProtocol env (jget parsed (js ''http_protocol''));
                   shards = normalizeHttp2ConnectionShards env (jget parsed (js ''http2_connection_shards'')) in
            \<lparr>cx_task_plugin_key = text_or_empty (jget parsed (js ''task_plugin_key'')),
             cx_force_format = js_or (jget parsed (js ''force_format'')) (JBool False),
             cx_force_responses = is_true (jget parsed (js ''force_responses'')),
             cx_thinking_to_content = js_or (jget parsed (js ''thinking_to_content'')) (JBool False),
             cx_proxy = js_or (jget parsed (js ''proxy'')) (JStr []),
             cx_http_protocol = JStr protocol,
             cx_http2_connection_shards = (if protocol = js ''http1'' then JNum (Fin 1) else shards),
             cx_pass_through_body_enabled = js_or (jget parsed (js ''pass_through_body_enabled'')) (JBool False),
             cx_system_prompt = js_or (jget parsed (js ''system_prompt'')) (JStr []),
             cx_system_prompt_override = js_or (jget parsed (js ''system_prompt_override'')) (JBool False)\<rparr>)"

text \<open>The routes of the channel, written as their text; it stays empty where that throws.\<close>

definition read_advanced_custom :: "FormEnv \<Rightarrow> jval \<Rightarrow> jval" where
  "read_advanced_custom env v =
     (if \<not> truthy v then JStr []
      else case read_config v of Inl e \<Rightarrow> JStr []
        | Inr config \<Rightarrow> (case stringifyAdvancedCustomConfig (fe_stringify env) config of Inl e \<Rightarrow> JStr [] | Inr text \<Rightarrow> JStr text))"

definition read_other :: "FormEnv \<Rightarrow> jval \<Rightarrow> ChannelOther" where
  "read_other env settings =
     (if \<not> truthy settings then default_other
      else case fe_parse env (str_of settings) of
        None \<Rightarrow> default_other
      | Some parsed \<Rightarrow>
          if nullish parsed then default_other
          else
            \<lparr>cs_is_enterprise_account = is_true (jget parsed (js ''openrouter_enterprise'')),
             cs_vertex_key_type = js_or (jget parsed (js ''vertex_key_type'')) (JStr (js ''json'')),
             cs_azure_responses_version = js_or (jget parsed (js ''azure_responses_version'')) (JStr []),
             cs_aws_key_type = js_or (jget parsed (js ''aws_key_type'')) (JStr (js ''ak_sk'')),
             cs_allow_service_tier = is_true (jget parsed (js ''allow_service_tier'')),
             cs_disable_store = is_true (jget parsed (js ''disable_store'')),
             cs_allow_safety_identifier = is_true (jget parsed (js ''allow_safety_identifier'')),
             cs_allow_include_obfuscation = is_true (jget parsed (js ''allow_include_obfuscation'')),
             cs_allow_inference_geo = is_true (jget parsed (js ''allow_inference_geo'')),
             cs_allow_speed = is_true (jget parsed (js ''allow_speed'')),
             cs_claude_beta_query = is_true (jget parsed (js ''claude_beta_query'')),
             cs_claude_code_fingerprint_enabled = is_true (jget parsed (js ''claude_code_fingerprint_enabled'')),
             cs_claude_code_transport_fingerprint_enabled = is_true (jget parsed (js ''claude_code_transport_fingerprint_enabled'')),
             cs_claude_code_version = text_or_empty (jget parsed (js ''claude_code_version'')),
             cs_claude_code_entrypoint = text_or_empty (jget parsed (js ''claude_code_entrypoint'')),
             cs_monitor_enabled = booleanOverride (jget parsed (js ''monitor_enabled'')),
             cs_monitor_test_interval_minutes = numericSetting env (jget parsed (js ''monitor_test_interval_minutes'')),
             cs_monitor_response_time_threshold_seconds = numericSetting env (jget parsed (js ''monitor_response_time_threshold_seconds'')),
             cs_monitor_auto_disable_enabled = booleanOverride (jget parsed (js ''monitor_auto_disable_enabled'')),
             cs_monitor_auto_enable_enabled = booleanOverride (jget parsed (js ''monitor_auto_enable_enabled'')),
             cs_monitor_disable_threshold = numericSetting env (jget parsed (js ''monitor_disable_threshold'')),
             cs_monitor_enable_threshold = numericSetting env (jget parsed (js ''monitor_enable_threshold'')),
             cs_disable_task_polling_sleep = is_true (jget parsed (js ''disable_task_polling_sleep'')),
             cs_upstream_model_update_check_enabled = is_true (jget parsed (js ''upstream_model_update_check_enabled'')),
             cs_upstream_model_update_auto_sync_enabled = is_true (jget parsed (js ''upstream_model_update_auto_sync_enabled'')),
             cs_upstream_model_update_ignored_models =
               (case jget parsed (js ''upstream_model_update_ignored_models'') of JArr vs \<Rightarrow> JStr (join_values env vs) | _ \<Rightarrow> JStr []),
             cs_tokenspro_overview_sync_enabled = is_true (jget parsed (js ''tokenspro_overview_sync_enabled'')),
             cs_tokenspro_overview_sync_interval_seconds = numericSetting env (jget parsed (js ''tokenspro_overview_sync_interval_seconds'')),
             cs_tokenspro_overview_last_success_time =
               (let n = to_number env (jget parsed (js ''tokenspro_overview_last_success_time'')) in if is_finite n then JNum n else JNum (Fin 0)),
             cs_tokenspro_overview_last_allowed =
               (if is_number (jget parsed (js ''tokenspro_overview_last_allowed'')) then jget parsed (js ''tokenspro_overview_last_allowed'') else JNull),
             cs_tokenspro_overview_last_error = text_or_empty (jget parsed (js ''tokenspro_overview_last_error'')),
             cs_advanced_custom = read_advanced_custom env (jget parsed (js ''advanced_custom''))\<rparr>)"

definition transformChannelToFormDefaults :: "FormEnv \<Rightarrow> jval \<Rightarrow> ChannelFormValues" where
  "transformChannelToFormDefaults env channel =
     (let text = (\<lambda>k. js_or (jget channel (js k)) (JStr [])); number = (\<lambda>k. js_or (jget channel (js k)) (JNum (Fin 0))) in
      \<lparr>form_base = \<lparr>cb_name = text ''name'', cb_type = jget channel (js ''type''),
         cb_vendor_id = js_or (jget channel (js ''vendor_id'')) JUndefined,
         cb_base_url = text ''base_url'', cb_key = JStr [], cb_openai_organization = text ''openai_organization'',
         cb_models = text ''models'',
         cb_group = parseGroups (str_of (js_or (jget channel (js ''group'')) (JStr (js ''default'')))),
         cb_group_ids = js_or (jget channel (js ''group_ids'')) (JArr []),
         cb_model_mapping = text ''model_mapping'', cb_priority = number ''priority'', cb_weight = number ''weight'',
         cb_concurrency_limit = coalesce (jget channel (js ''concurrency_limit'')) (JNum (Fin 0)),
         cb_test_model = text ''test_model'', cb_auto_ban = coalesce (jget channel (js ''auto_ban'')) (JNum (Fin 1)),
         cb_status = jget channel (js ''status''), cb_status_code_mapping = text ''status_code_mapping'',
         cb_tag = text ''tag'', cb_remark = text ''remark'', cb_setting = text ''setting'',
         cb_param_override = text ''param_override'', cb_header_override = text ''header_override'',
         cb_settings = js_or (jget channel (js ''settings'')) (JStr (js ''{}'')), cb_other = text ''other'',
         cb_multi_key_mode = JStr (js ''single''),
         cb_multi_key_type = js_or (jget (jget channel (js ''channel_info'')) (js ''multi_key_mode'')) (JStr (js ''random'')),
         cb_batch_add_set_key_prefix_2_name = JBool False, cb_key_mode = JStr (js ''append'')\<rparr>,
       form_extra = read_extra_settings env (jget channel (js ''setting'')),
       form_other = read_other env (jget channel (js ''settings''))\<rparr>)"

section \<open>The text of the extra settings\<close>

definition setting_object :: "FormEnv \<Rightarrow> ChannelFormValues \<Rightarrow> jval" where
  "setting_object env f =
     (let x = form_extra f; ty = cb_type (form_base f);
          protocol = normalizeHttpProtocol env (cx_http_protocol x);
          shards = (if protocol = js ''http1'' then JNum (Fin 1)
                    else normalizeHttp2ConnectionShards env (cx_http2_connection_shards x)) in
      JObj ([(js ''force_format'', js_or (cx_force_format x) (JBool False)),
        (js ''force_responses'', JBool (has_type FORCE_RESPONSES_CHANNEL_TYPES ty \<and> cx_force_responses x = JBool True)),
        (js ''thinking_to_content'', js_or (cx_thinking_to_content x) (JBool False)),
        (js ''proxy'', JStr (trim (str_of (cx_proxy x)))),
        (js ''pass_through_body_enabled'', js_or (cx_pass_through_body_enabled x) (JBool False)),
        (js ''system_prompt'', js_or (cx_system_prompt x) (JStr [])),
        (js ''system_prompt_override'', js_or (cx_system_prompt_override x) (JBool False))]
       @ (if has_type [CHANNEL_TYPE_TASK_PLUGIN] ty
          then [(js ''task_plugin_key'', JStr (trim (str_of (cx_task_plugin_key x))))] else [])
       @ (if protocol = js ''http1'' then [(js ''http_protocol'', JStr (js ''http1''))]
          else if num_less (Fin 1) (to_number env shards) then [(js ''http2_connection_shards'', shards)] else [])))"

definition buildSettingJSON :: "FormEnv \<Rightarrow> ChannelFormValues \<Rightarrow> jstr" where
  "buildSettingJSON env f = fe_stringify env (setting_object env f)"

section \<open>The text of the other settings\<close>

text \<open>A step of the writer sets a property or deletes it; deleting one that is not there changes nothing,
  so \<open>if ('k' in o) delete o.k\<close> is a deletion.\<close>

type_synonym settings_step = "jstr \<times> jval option"

definition obj_delete :: "jstr \<Rightarrow> (jstr \<times> jval) list \<Rightarrow> (jstr \<times> jval) list" where
  "obj_delete k ps = filter (\<lambda>p. fst p \<noteq> k) ps"

definition apply_step :: "settings_step \<Rightarrow> (jstr \<times> jval) list \<Rightarrow> (jstr \<times> jval) list" where
  "apply_step s ps = (case s of (k, Some v) \<Rightarrow> obj_set k v ps | (k, None) \<Rightarrow> obj_delete k ps)"

definition apply_steps :: "settings_step list \<Rightarrow> (jstr \<times> jval) list \<Rightarrow> (jstr \<times> jval) list" where
  "apply_steps ss ps = fold apply_step ss ps"

definition set_if :: "bool \<Rightarrow> string \<Rightarrow> jval \<Rightarrow> settings_step" where
  "set_if c k v = (js k, if c then Some v else None)"

definition set_text :: "bool \<Rightarrow> string \<Rightarrow> jval \<Rightarrow> settings_step" where
  "set_text c k v = set_if (c \<and> trim (str_of v) \<noteq> []) k (JStr (trim (str_of v)))"

definition set_override :: "string \<Rightarrow> jval \<Rightarrow> settings_step" where
  "set_override k v = (js k, if v = JStr (js ''enabled'') then Some (JBool True)
     else if v = JStr (js ''disabled'') then Some (JBool False) else None)"

definition set_number :: "FormEnv \<Rightarrow> string \<Rightarrow> jval \<Rightarrow> settings_step" where
  "set_number env k v = set_if (trim (str_of v) \<noteq> []) k (JNum (to_number env v))"

definition type_steps :: "ChannelFormValues \<Rightarrow> settings_step list" where
  "type_steps f =
     (let o' = form_other f; ty = cb_type (form_base f); openai = has_type OPENAI_FIELD_PASSTHROUGH_TYPES ty;
          claude = has_type CLAUDE_FIELD_PASSTHROUGH_TYPES ty in
      [set_if (has_type [41] ty) ''vertex_key_type'' (js_or (cs_vertex_key_type o') (JStr (js ''json''))),
       set_if (has_type [3] ty \<and> truthy (cs_azure_responses_version o')) ''azure_responses_version'' (cs_azure_responses_version o'),
       set_if (has_type [20] ty) ''openrouter_enterprise'' (is_true (cs_is_enterprise_account o')),
       set_if (has_type [33] ty) ''aws_key_type'' (js_or (cs_aws_key_type o') (JStr (js ''ak_sk''))),
       set_if (has_type FIELD_PASSTHROUGH_TYPES ty) ''allow_service_tier'' (is_true (cs_allow_service_tier o')),
       set_if openai ''disable_store'' (is_true (cs_disable_store o')),
       set_if openai ''allow_safety_identifier'' (is_true (cs_allow_safety_identifier o')),
       set_if openai ''allow_include_obfuscation'' (is_true (cs_allow_include_obfuscation o')),
       set_if (openai \<or> claude) ''allow_inference_geo'' (is_true (cs_allow_inference_geo o')),
       set_if claude ''allow_speed'' (is_true (cs_allow_speed o')),
       set_if (has_type [14] ty) ''claude_beta_query'' (is_true (cs_claude_beta_query o')),
       set_if claude ''claude_code_fingerprint_enabled'' (is_true (cs_claude_code_fingerprint_enabled o')),
       set_if claude ''claude_code_transport_fingerprint_enabled'' (is_true (cs_claude_code_transport_fingerprint_enabled o')),
       set_text claude ''claude_code_version'' (cs_claude_code_version o'),
       set_text claude ''claude_code_entrypoint'' (cs_claude_code_entrypoint o')])"

definition monitor_steps :: "FormEnv \<Rightarrow> ChannelFormValues \<Rightarrow> settings_step list" where
  "monitor_steps env f =
     (let o' = form_other f in
      [set_override ''monitor_enabled'' (cs_monitor_enabled o'),
       set_override ''monitor_auto_disable_enabled'' (cs_monitor_auto_disable_enabled o'),
       set_override ''monitor_auto_enable_enabled'' (cs_monitor_auto_enable_enabled o'),
       set_number env ''monitor_test_interval_minutes'' (cs_monitor_test_interval_minutes o'),
       set_number env ''monitor_response_time_threshold_seconds'' (cs_monitor_response_time_threshold_seconds o'),
       set_number env ''monitor_disable_threshold'' (cs_monitor_disable_threshold o'),
       set_number env ''monitor_enable_threshold'' (cs_monitor_enable_threshold o'),
       set_if True ''disable_task_polling_sleep'' (is_true (cs_disable_task_polling_sleep o'))])"

text \<open>The settings of the model updates also keep or reset what the server recorded.\<close>

definition ignored_models :: "jval \<Rightarrow> jval" where
  "ignored_models v = JArr (map JStr (js_unique (filter (\<lambda>m. m \<noteq> []) (map trim (split_on 44 (str_of v))))))"

definition update_steps :: "ChannelFormValues \<Rightarrow> (jstr \<times> jval) list \<Rightarrow> settings_step list" where
  "update_steps f ps =
     (let o' = form_other f; check = cs_upstream_model_update_check_enabled o' = JBool True;
          detected = jget (JObj ps) (js ''upstream_model_update_last_detected_models'');
          checked = jget (JObj ps) (js ''upstream_model_update_last_check_time'') in
      if has_type MODEL_FETCHABLE_TYPES (cb_type (form_base f)) then
        [set_if True ''upstream_model_update_check_enabled'' (JBool check),
         set_if True ''upstream_model_update_auto_sync_enabled'' (JBool (check \<and> cs_upstream_model_update_auto_sync_enabled o' = JBool True)),
         set_if True ''upstream_model_update_ignored_models'' (ignored_models (cs_upstream_model_update_ignored_models o')),
         (js ''upstream_model_update_last_detected_models'', Some (if \<not> is_array detected \<or> \<not> check then JArr [] else detected)),
         (js ''upstream_model_update_last_check_time'', Some (if is_number checked then checked else JNum (Fin 0)))]
      else [])"

definition overview_steps :: "FormEnv \<Rightarrow> ChannelFormValues \<Rightarrow> settings_step list" where
  "overview_steps env f =
     (let o' = form_other f; text = cs_tokenspro_overview_sync_interval_seconds o'; n = to_number env text in
      [set_if True ''tokenspro_overview_sync_enabled'' (is_true (cs_tokenspro_overview_sync_enabled o')),
       set_if (trim (str_of text) \<noteq> [] \<and> is_integer n \<and> num_le (Fin 60) n) ''tokenspro_overview_sync_interval_seconds'' (JNum n)])"

definition form_routes :: "FormEnv \<Rightarrow> ChannelFormValues \<Rightarrow> AdvancedCustomConfig option" where
  "form_routes env f = (case cs_advanced_custom (form_other f) of
     JStr s \<Rightarrow> parseAdvancedCustomConfig (fe_parse env) (Some s) | _ \<Rightarrow> None)"

definition route_steps :: "FormEnv \<Rightarrow> ChannelFormValues \<Rightarrow> settings_step list" where
  "route_steps env f =
     (if has_type [CHANNEL_TYPE_ADVANCED_CUSTOM] (cb_type (form_base f))
      then (case form_routes env f of Some config \<Rightarrow> [(js ''advanced_custom'', Some (config_object config))] | None \<Rightarrow> [])
      else [(js ''advanced_custom'', None)])"

text \<open>The settings the form was opened with.\<close>

definition settings_before :: "FormEnv \<Rightarrow> ChannelFormValues \<Rightarrow> (jstr \<times> jval) list" where
  "settings_before env f =
     (let s = str_of (cb_settings (form_base f)) in
      if s = [] \<or> s = js ''{}'' then []
      else case fe_parse env s of None \<Rightarrow> [] | Some parsed \<Rightarrow> props_of parsed)"

definition settings_props :: "FormEnv \<Rightarrow> ChannelFormValues \<Rightarrow> (jstr \<times> jval) list" where
  "settings_props env f =
     (let ps1 = apply_steps (type_steps f @ monitor_steps env f) (settings_before env f);
          ps2 = apply_steps (update_steps f ps1) ps1
      in apply_steps (overview_steps env f @ route_steps env f) ps2)"

definition buildSettingsJSON :: "FormEnv \<Rightarrow> ChannelFormValues \<Rightarrow> jstr" where
  "buildSettingsJSON env f = fe_stringify env (JObj (settings_props env f))"

section \<open>What is sent\<close>

definition normalizeBaseUrl :: "jval \<Rightarrow> jstr" where
  "normalizeBaseUrl v = rev (dropWhile (\<lambda>c. c = 47) (rev (trim (str_of v))))"

definition value_or_null :: "jval \<Rightarrow> jval" where
  "value_or_null v = js_or v JNull"

definition empty_to_null :: "(jstr \<times> jval) list \<Rightarrow> (jstr \<times> jval) list" where
  "empty_to_null ps = map (\<lambda>(k, v). (k, if v = JStr [] then JNull else v)) ps"

text \<open>What both requests share.  The order of the properties of a request, which has no meaning to the server, is not
  kept.\<close>

definition common_payload :: "FormEnv \<Rightarrow> ChannelFormValues \<Rightarrow> (jstr \<times> jval) list" where
  "common_payload env f =
     (let b = form_base f in
      [(js ''name'', cb_name b), (js ''type'', cb_type b), (js ''vendor_id'', value_or_null (cb_vendor_id b)),
       (js ''base_url'', value_or_null (JStr (normalizeBaseUrl (cb_base_url b)))),
       (js ''openai_organization'', value_or_null (cb_openai_organization b)), (js ''models'', cb_models b),
       (js ''group'', JStr (formatGroups (cb_group b))), (js ''group_ids'', cb_group_ids b),
       (js ''model_mapping'', value_or_null (cb_model_mapping b)),
       (js ''concurrency_limit'', coalesce (cb_concurrency_limit b) (JNum (Fin 0))),
       (js ''test_model'', value_or_null (cb_test_model b)), (js ''auto_ban'', coalesce (cb_auto_ban b) (JNum (Fin 1))),
       (js ''status_code_mapping'', value_or_null (cb_status_code_mapping b)), (js ''tag'', value_or_null (cb_tag b)),
       (js ''remark'', js_or (cb_remark b) (JStr [])), (js ''setting'', JStr (buildSettingJSON env f)),
       (js ''param_override'', value_or_null (cb_param_override b)), (js ''header_override'', value_or_null (cb_header_override b)),
       (js ''settings'', JStr (buildSettingsJSON env f)), (js ''other'', js_or (cb_other b) (JStr []))])"

record CreatePayload =
  cp_mode :: jval
  cp_multi_key_mode :: jval
  cp_batch_add_set_key_prefix_2_name :: jval
  cp_channel :: "(jstr \<times> jval) list"

definition transformFormDataToCreatePayload :: "FormEnv \<Rightarrow> ChannelFormValues \<Rightarrow> CreatePayload" where
  "transformFormDataToCreatePayload env f =
     (let b = form_base f; mode = js_or (cb_multi_key_mode b) (JStr (js ''single'')) in
      \<lparr>cp_mode = mode,
       cp_multi_key_mode = (if mode = JStr (js ''multi_to_single'') then cb_multi_key_type b else JUndefined),
       cp_batch_add_set_key_prefix_2_name = (if mode = JStr (js ''batch'') then cb_batch_add_set_key_prefix_2_name b else JUndefined),
       cp_channel = empty_to_null (common_payload env f
         @ [(js ''key'', cb_key b), (js ''priority'', value_or_null (cb_priority b)), (js ''weight'', value_or_null (cb_weight b)),
            (js ''status'', cb_status b)])\<rparr>)"

text \<open>The fields that are sent empty, so that the server clears them.\<close>

definition cleared_fields :: "ChannelFormValues \<Rightarrow> (jstr \<times> jval) list" where
  "cleared_fields f =
     (let b = form_base f; text = (\<lambda>v. js_or v (JStr [])) in
      [(js ''base_url'', JStr (normalizeBaseUrl (cb_base_url b))), (js ''openai_organization'', text (cb_openai_organization b)),
       (js ''test_model'', text (cb_test_model b)), (js ''tag'', text (cb_tag b)), (js ''remark'', text (cb_remark b)),
       (js ''model_mapping'', text (cb_model_mapping b)), (js ''status_code_mapping'', text (cb_status_code_mapping b)),
       (js ''param_override'', text (cb_param_override b)), (js ''header_override'', text (cb_header_override b))])"

definition transformFormDataToUpdatePayload :: "FormEnv \<Rightarrow> ChannelFormValues \<Rightarrow> jval \<Rightarrow> (jstr \<times> jval) list" where
  "transformFormDataToUpdatePayload env f channelId =
     (let b = form_base f;
          payload = [(js ''id'', channelId)] @ common_payload env f
            @ [(js ''priority'', coalesce (cb_priority b) (JNum (Fin 0))), (js ''weight'', coalesce (cb_weight b) (JNum (Fin 0)))]
            @ (if trim (str_of (cb_key b)) \<noteq> [] then [(js ''key'', cb_key b)] else [])
      in fold (\<lambda>(k, v) ps. obj_set k v ps) (cleared_fields f) (empty_to_null payload))"

definition SENSITIVE_UPDATE_FIELDS :: "jstr list" where
  "SENSITIVE_UPDATE_FIELDS = map js [''type'', ''key'', ''base_url'', ''openai_organization'', ''param_override'',
     ''header_override'', ''setting'', ''settings'', ''other'']"

text \<open>The body of the update, by the permission of the user.\<close>

definition channel_update_body :: "FormEnv \<Rightarrow> AuthUser option \<Rightarrow> bool \<Rightarrow> jval \<Rightarrow> ChannelFormValues \<Rightarrow> (jstr \<times> jval) list" where
  "channel_update_body env currentUser isMultiKeyChannel channelId f =
     (let canEditSensitive = hasPermission currentUser (js ''channel'') (js ''sensitive_write'');
          typed_key = trim (str_of (cb_key (form_base f))) \<noteq> [];
          payload1 = transformFormDataToUpdatePayload env f channelId;
          payload2 = (if typed_key then payload1 else obj_delete (js ''key'') payload1);
          payload3 = (if canEditSensitive then payload2 else fold obj_delete SENSITIVE_UPDATE_FIELDS payload2);
          payload4 = (if canEditSensitive \<and> isMultiKeyChannel \<and> typed_key \<and> truthy (cb_key_mode (form_base f))
            then obj_set (js ''key_mode'') (cb_key_mode (form_base f)) payload3 else payload3)
      in if canEditSensitive \<and> isMultiKeyChannel
         then obj_set (js ''multi_key_mode'') (cb_multi_key_type (form_base f)) payload4 else payload4)"

text \<open>The mutation: what is sent, the text of its success or of the error it throws, and the text of the
  failure shown.  An error is a value and whether it is an \<open>Error\<close>.\<close>

datatype channel_request = UpdateChannel jval "(jstr \<times> jval) list" | CreateChannel CreatePayload

definition channel_mutation :: "FormEnv \<Rightarrow> AuthUser option \<Rightarrow> bool \<Rightarrow> jval option \<Rightarrow> bool \<Rightarrow> ChannelFormValues \<Rightarrow> channel_request" where
  "channel_mutation env currentUser isEditing currentRow isMultiKeyChannel f =
     (case (isEditing, currentRow) of
        (True, Some row) \<Rightarrow> UpdateChannel (jget row (js ''id''))
          (channel_update_body env currentUser isMultiKeyChannel (jget row (js ''id'')) f)
      | _ \<Rightarrow> CreateChannel (transformFormDataToCreatePayload env f))"

definition channel_mutation_result :: "FormEnv \<Rightarrow> (jstr \<Rightarrow> jstr) \<Rightarrow> channel_request \<Rightarrow> jval \<Rightarrow> jstr + jstr" where
  "channel_mutation_result env t req response =
     (let failed = (\<lambda>m. to_text env (js_or (jget response (js ''message'')) (JStr (t (js m))))); ok = truthy (jget response (js ''success'')) in
      case req of
        UpdateChannel i body \<Rightarrow> if ok then Inr (js ''Channel updated successfully'') else Inl (failed ''Failed to update channel'')
      | CreateChannel payload \<Rightarrow> if ok then Inr (js ''Channel created successfully'') else Inl (failed ''Failed to create channel''))"

definition is_record :: "jval \<Rightarrow> bool" where
  "is_record v \<longleftrightarrow> is_object v"

definition getErrorMessage :: "bool \<Rightarrow> jval \<Rightarrow> jstr option" where
  "getErrorMessage isError error =
     (let message = jget error (js ''message''); sent = jget (jget (jget error (js ''response'')) (js ''data'')) (js ''message'') in
      if isError \<and> is_string message then Some (str_of message)
      else if \<not> is_record error then None
      else if is_record (jget error (js ''response'')) \<and> is_record (jget (jget error (js ''response'')) (js ''data'')) \<and> is_string sent then Some (str_of sent)
      else if is_string message then Some (str_of message) else None)"

definition channel_failure_text :: "(jstr \<Rightarrow> jstr) \<Rightarrow> bool \<Rightarrow> jval \<Rightarrow> jstr" where
  "channel_failure_text t isError error = str_or (getErrorMessage isError error) (t (js ''Failed to create channel''))"

section \<open>The schema\<close>

text \<open>The refinements of single fields.  A field is a text or absent.\<close>

definition parseOptionalJson :: "FormEnv \<Rightarrow> jval \<Rightarrow> jval option" where
  "parseOptionalJson env v = (if trim (str_of v) = [] then Some JUndefined else fe_parse env (str_of v))"

fun isJsonObjectValue :: "jval \<Rightarrow> bool" where
  "isJsonObjectValue (JObj ps) = True"
| "isJsonObjectValue _ = False"

definition isOptionalJsonObject :: "FormEnv \<Rightarrow> jval \<Rightarrow> bool" where
  "isOptionalJsonObject env v = (case parseOptionalJson env v of
     None \<Rightarrow> False | Some parsed \<Rightarrow> parsed = JUndefined \<or> isJsonObjectValue parsed)"

definition isOptionalModelMapping :: "FormEnv \<Rightarrow> jval \<Rightarrow> bool" where
  "isOptionalModelMapping env v = (case parseOptionalJson env v of
     None \<Rightarrow> False
   | Some parsed \<Rightarrow> if parsed = JUndefined then True
       else isJsonObjectValue parsed \<and> (\<forall>p \<in> set (props_of parsed). is_string (snd p)))"

definition is_status_code :: "jnum \<Rightarrow> bool" where
  "is_status_code n \<longleftrightarrow> is_integer n \<and> num_le (Fin 100) n \<and> num_le n (Fin 599)"

definition isOptionalStatusCodeMapping :: "FormEnv \<Rightarrow> jval \<Rightarrow> bool" where
  "isOptionalStatusCodeMapping env v = (case parseOptionalJson env v of
     None \<Rightarrow> False
   | Some parsed \<Rightarrow> if parsed = JUndefined then True
       else isJsonObjectValue parsed \<and> (\<forall>p \<in> set (props_of parsed).
         is_status_code (to_number env (JStr (fst p))) \<and> is_status_code (to_number env (snd p))))"

definition isCodexCredential :: "FormEnv \<Rightarrow> jval \<Rightarrow> bool" where
  "isCodexCredential env v = (case parseOptionalJson env v of
     None \<Rightarrow> False
   | Some parsed \<Rightarrow> if parsed = JUndefined then True
       else isJsonObjectValue parsed
         \<and> is_string (jget parsed (js ''access_token'')) \<and> 0 < length (trim (str_of (jget parsed (js ''access_token''))))
         \<and> is_string (jget parsed (js ''account_id'')) \<and> 0 < length (trim (str_of (jget parsed (js ''account_id'')))))"

definition isVertexJsonKey :: "FormEnv \<Rightarrow> jval \<Rightarrow> bool" where
  "isVertexJsonKey env v = (case parseOptionalJson env v of
     None \<Rightarrow> False
   | Some parsed \<Rightarrow> if parsed = JUndefined then True
       else case parsed of JArr vs \<Rightarrow> list_all isJsonObjectValue vs | _ \<Rightarrow> isJsonObjectValue parsed)"

definition isOptionalProxyURL :: "FormEnv \<Rightarrow> jval \<Rightarrow> bool" where
  "isOptionalProxyURL env v =
     (let trimmedValue = trim (str_of v) in
      if trimmedValue = [] then True
      else case find_sub (js ''://'') trimmedValue of
        None \<Rightarrow> False
      | Some schemeSeparatorIndex \<Rightarrow>
          if schemeSeparatorIndex = 0 then False
          else let authorityAndSuffix = drop (schemeSeparatorIndex + 3) trimmedValue;
                   suffix = dropWhile (\<lambda>c. c \<notin> set (js ''/?#'')) authorityAndSuffix in
            if suffix \<noteq> [] \<and> suffix \<noteq> js ''/'' then False
            else case fe_url env trimmedValue of
              None \<Rightarrow> False
            | Some (protocol, host, hostname, port) \<Rightarrow>
                protocol \<in> set SUPPORTED_PROXY_PROTOCOLS \<and> hostname \<noteq> [] \<and> port \<noteq> js ''0'')"

definition isOptionalPositiveNumber :: "FormEnv \<Rightarrow> jval \<Rightarrow> bool" where
  "isOptionalPositiveNumber env v \<longleftrightarrow> trim (str_of v) = [] \<or> is_finite (to_number env v) \<and> num_less (Fin 0) (to_number env v)"

definition isOptionalPositiveInteger :: "FormEnv \<Rightarrow> jval \<Rightarrow> bool" where
  "isOptionalPositiveInteger env v \<longleftrightarrow> trim (str_of v) = [] \<or> is_integer (to_number env v) \<and> num_less (Fin 0) (to_number env v)"

definition isOptionalMinIntervalSeconds :: "FormEnv \<Rightarrow> jval \<Rightarrow> bool" where
  "isOptionalMinIntervalSeconds env v \<longleftrightarrow> trim (str_of v) = [] \<or> is_integer (to_number env v) \<and> num_le (Fin 60) (to_number env v)"

type_synonym form_issue = "jstr \<times> jstr"

definition issue_if :: "bool \<Rightarrow> string \<Rightarrow> string \<Rightarrow> form_issue list" where
  "issue_if c path message = (if c then [(js path, js message)] else [])"

definition field_issues :: "FormEnv \<Rightarrow> ChannelFormValues \<Rightarrow> form_issue list" where
  "field_issues env f =
     (let b = form_base f; x = form_extra f; o' = form_other f in
      issue_if (str_of (cb_name b) = []) ''name'' ''Channel name is required''
    @ issue_if (num_less (num_of (cb_type b)) (Fin 0)) ''type'' ''Channel type is required''
    @ issue_if (str_of (cb_models b) = []) ''models'' ''Models are required''
    @ issue_if (cb_group b = []) ''group'' ''Group is required''
    @ issue_if (\<not> isOptionalModelMapping env (cb_model_mapping b)) ''model_mapping'' ''Model mapping must be a JSON object with string values''
    @ issue_if (\<not> isOptionalStatusCodeMapping env (cb_status_code_mapping b)) ''status_code_mapping'' ''Status code mapping must use valid HTTP status codes''
    @ issue_if (255 < length (str_of (cb_remark b))) ''remark'' ''Remark must be less than 255 characters''
    @ issue_if (\<not> isOptionalJsonObject env (cb_setting b)) ''setting'' ''Invalid JSON format''
    @ issue_if (\<not> isOptionalJsonObject env (cb_param_override b)) ''param_override'' ''Invalid JSON format''
    @ issue_if (\<not> isOptionalJsonObject env (cb_header_override b)) ''header_override'' ''Invalid JSON format''
    @ issue_if (\<not> isOptionalJsonObject env (cb_settings b)) ''settings'' ''Invalid JSON format''
    @ issue_if (\<not> isOptionalProxyURL env (cx_proxy x)) ''proxy'' ''Proxy address must use HTTP, HTTPS, SOCKS5, or SOCKS5H and include a valid host''
    @ issue_if (\<not> isOptionalPositiveNumber env (cs_monitor_test_interval_minutes o')) ''monitor_test_interval_minutes'' ''Value must be greater than 0''
    @ issue_if (\<not> isOptionalPositiveNumber env (cs_monitor_response_time_threshold_seconds o')) ''monitor_response_time_threshold_seconds'' ''Value must be greater than 0''
    @ issue_if (\<not> isOptionalPositiveInteger env (cs_monitor_disable_threshold o')) ''monitor_disable_threshold'' ''Value must be a positive integer''
    @ issue_if (\<not> isOptionalPositiveInteger env (cs_monitor_enable_threshold o')) ''monitor_enable_threshold'' ''Value must be a positive integer''
    @ issue_if (\<not> isOptionalMinIntervalSeconds env (cs_tokenspro_overview_sync_interval_seconds o')) ''tokenspro_overview_sync_interval_seconds'' ''Interval must be at least 60 seconds'')"

definition blank :: "jval \<Rightarrow> bool" where
  "blank v \<longleftrightarrow> trim (str_of v) = []"

text \<open>The checks across fields.  Those of the routes may throw.\<close>

definition advanced_issues :: "FormEnv \<Rightarrow> ChannelFormValues \<Rightarrow> thrown + form_issue list" where
  "advanced_issues env f =
     (let config = form_routes env f; b = form_base f in
      case validateAdvancedCustomConfig (form_url env) config of Inl e \<Rightarrow> Inl e | Inr error \<Rightarrow>
      case advancedCustomConfigUsesRelativeUpstreamPath config of Inl e \<Rightarrow> Inl e | Inr relative \<Rightarrow>
      case (if cs_upstream_model_update_check_enabled (form_other f) = JBool True
            then hasValidAdvancedCustomModelListRoute (form_url env) config else Inr True) of Inl e \<Rightarrow> Inl e | Inr listed \<Rightarrow>
        Inr ((case error of None \<Rightarrow> [] | Some e \<Rightarrow> [(js ''advanced_custom'', ve_message e)])
           @ issue_if (relative \<and> blank (cb_base_url b)) ''base_url'' ''Base URL is required when an advanced route uses an upstream path''
           @ issue_if (\<not> listed) ''upstream_model_update_check_enabled'' ''OpenAI Models route is required to enable upstream model checks''))"

definition not_single :: "jval \<Rightarrow> bool" where
  "not_single v \<longleftrightarrow> truthy v \<and> v \<noteq> JStr (js ''single'')"

definition cross_issues :: "FormEnv \<Rightarrow> ChannelFormValues \<Rightarrow> thrown + form_issue list" where
  "cross_issues env f =
     (let b = form_base f; x = form_extra f; o' = form_other f; ty = cb_type b;
          protocol = normalizeHttpProtocol env (cx_http_protocol x);
          shards = to_number env (coalesce (cx_http2_connection_shards x) (JNum (Fin 1))) in
      case (if has_type [CHANNEL_TYPE_ADVANCED_CUSTOM] ty then advanced_issues env f else Inr []) of
        Inl e \<Rightarrow> Inl e
      | Inr advanced \<Rightarrow> Inr (
          issue_if (has_type [3, 8, 36, 45, CHANNEL_TYPE_NEW_API] ty \<and> blank (cb_base_url b)) ''base_url'' ''Base URL is required for this channel type''
        @ issue_if (has_type [CHANNEL_TYPE_TASK_PLUGIN] ty \<and> blank (cx_task_plugin_key x)) ''task_plugin_key'' ''Select a task plugin''
        @ advanced
        @ issue_if (has_type [3, 18, 21, 39, 41, 49] ty \<and> blank (cb_other b)) ''other'' ''This channel type requires additional configuration''
        @ issue_if (has_type [57] ty \<and> not_single (cb_multi_key_mode b)) ''multi_key_mode'' ''Codex channels do not support batch creation''
        @ issue_if (has_type [57] ty \<and> \<not> blank (cb_key b) \<and> \<not> isCodexCredential env (cb_key b)) ''key''
            ''Codex credential must be a JSON object with access_token and account_id''
        @ issue_if (has_type [41] ty \<and> cs_vertex_key_type o' = JStr (js ''json'') \<and> \<not> blank (cb_key b) \<and> \<not> isVertexJsonKey env (cb_key b)) ''key''
            ''Vertex AI service account key must be valid JSON''
        @ issue_if (has_type [41] ty \<and> cs_vertex_key_type o' = JStr (js ''api_key'') \<and> not_single (cb_multi_key_mode b)) ''multi_key_mode''
            ''Vertex AI API Key mode does not support batch creation''
        @ issue_if (num_less shards (Fin 1) \<or> num_less (Fin MAX_HTTP2_CONNECTION_SHARDS) shards) ''http2_connection_shards''
            ''HTTP/2 connection shards must be between 1 and 8''
        @ issue_if (protocol = js ''http1'' \<and> num_less (Fin 1) shards) ''http2_connection_shards''
            ''HTTP/2 connection shards must be 1 when HTTP/1.1 is selected''))"

text \<open>The types the schema asks for.  A schema of the library checks them before the refinements run; what it
  says of a value of the wrong type is the library's text, so only acceptance is modelled.\<close>

definition one_of :: "string list \<Rightarrow> jval \<Rightarrow> bool" where
  "one_of names v \<longleftrightarrow> v \<in> set (map (\<lambda>n. JStr (js n)) names)"

definition is_num :: "jval \<Rightarrow> bool" where
  "is_num v \<longleftrightarrow> is_number v \<and> is_finite (num_of v)"

definition is_int :: "jval \<Rightarrow> bool" where
  "is_int v \<longleftrightarrow> is_number v \<and> is_integer (num_of v)"

definition base_typed :: "ChannelBase \<Rightarrow> bool" where
  "base_typed b \<longleftrightarrow>
     list_all is_string [cb_name b, cb_key b, cb_models b] \<and> list_all is_num [cb_type b, cb_status b]
     \<and> (case cb_group_ids b of JArr vs \<Rightarrow> list_all is_num vs | _ \<Rightarrow> False)
     \<and> list_all (opt_is is_num) [cb_vendor_id b, cb_priority b, cb_weight b, cb_auto_ban b]
     \<and> opt_is (\<lambda>v. is_int v \<and> num_le (Fin 0) (num_of v)) (cb_concurrency_limit b)
     \<and> list_all (opt_is is_string) [cb_base_url b, cb_openai_organization b, cb_model_mapping b, cb_test_model b, cb_status_code_mapping b,
          cb_tag b, cb_remark b, cb_setting b, cb_param_override b, cb_header_override b, cb_settings b, cb_other b]
     \<and> opt_is (one_of [''single'', ''batch'', ''multi_to_single'']) (cb_multi_key_mode b)
     \<and> opt_is (one_of [''random'', ''polling'']) (cb_multi_key_type b)
     \<and> opt_is is_boolean (cb_batch_add_set_key_prefix_2_name b) \<and> opt_is (one_of [''append'', ''replace'']) (cb_key_mode b)"

definition extra_typed :: "ChannelExtra \<Rightarrow> bool" where
  "extra_typed x \<longleftrightarrow>
     list_all (opt_is is_string) [cx_task_plugin_key x, cx_proxy x, cx_system_prompt x]
     \<and> list_all (opt_is is_boolean) [cx_force_format x, cx_force_responses x, cx_thinking_to_content x,
          cx_pass_through_body_enabled x, cx_system_prompt_override x]
     \<and> opt_is (one_of [''auto'', ''http1'']) (cx_http_protocol x) \<and> opt_is is_int (cx_http2_connection_shards x)"

definition other_typed :: "ChannelOther \<Rightarrow> bool" where
  "other_typed o' \<longleftrightarrow>
     list_all (opt_is is_boolean) [cs_is_enterprise_account o', cs_allow_service_tier o', cs_disable_store o', cs_allow_safety_identifier o',
          cs_allow_include_obfuscation o', cs_allow_inference_geo o', cs_allow_speed o', cs_claude_beta_query o',
          cs_claude_code_fingerprint_enabled o', cs_claude_code_transport_fingerprint_enabled o', cs_disable_task_polling_sleep o',
          cs_upstream_model_update_check_enabled o', cs_upstream_model_update_auto_sync_enabled o', cs_tokenspro_overview_sync_enabled o']
     \<and> list_all (opt_is is_string) [cs_azure_responses_version o', cs_claude_code_version o', cs_claude_code_entrypoint o',
          cs_monitor_test_interval_minutes o', cs_monitor_response_time_threshold_seconds o', cs_monitor_disable_threshold o',
          cs_monitor_enable_threshold o', cs_upstream_model_update_ignored_models o', cs_tokenspro_overview_sync_interval_seconds o',
          cs_tokenspro_overview_last_error o', cs_advanced_custom o']
     \<and> list_all (opt_is (one_of [''inherit'', ''enabled'', ''disabled'']))
          [cs_monitor_enabled o', cs_monitor_auto_disable_enabled o', cs_monitor_auto_enable_enabled o']
     \<and> opt_is (one_of [''json'', ''api_key'']) (cs_vertex_key_type o') \<and> opt_is (one_of [''ak_sk'', ''api_key'']) (cs_aws_key_type o')
     \<and> opt_is is_num (cs_tokenspro_overview_last_success_time o')
     \<and> opt_is (\<lambda>v. v = JNull \<or> is_num v) (cs_tokenspro_overview_last_allowed o')"

text \<open>A form is accepted when the types are right and no check adds an issue.\<close>

definition form_accepted :: "FormEnv \<Rightarrow> ChannelFormValues \<Rightarrow> bool" where
  "form_accepted env f \<longleftrightarrow> base_typed (form_base f) \<and> extra_typed (form_extra f) \<and> other_typed (form_other f)
     \<and> field_issues env f = [] \<and> cross_issues env f = Inr []"

definition validateJSON :: "FormEnv \<Rightarrow> jstr \<Rightarrow> bool" where
  "validateJSON env v \<longleftrightarrow> trim v = [] \<or> fe_parse env v \<noteq> None"

definition validateModelMapping :: "FormEnv \<Rightarrow> jstr \<Rightarrow> bool" where
  "validateModelMapping env v \<longleftrightarrow> trim v = [] \<or> validateJSON env v"

section \<open>What the steps leave\<close>

lemma map_of_delete [simp]: "map_of (obj_delete k ps) = (map_of ps)(k := None)"
  by (induction ps) (auto simp: obj_delete_def fun_eq_iff)

lemma map_of_step [simp]: "map_of (apply_step (k, r) ps) = (map_of ps)(k := r)"
  by (cases r) (auto simp: apply_step_def)

lemma apply_steps_append: "apply_steps (ss @ ts) ps = apply_steps ts (apply_steps ss ps)"
  by (simp add: apply_steps_def)

lemma map_of_steps:
  "distinct (map fst ss) \<Longrightarrow> map_of (apply_steps ss ps) k = (case map_of ss k of None \<Rightarrow> map_of ps k | Some r \<Rightarrow> r)"
proof (induction ss arbitrary: ps)
  case (Cons s ss)
  have "map_of ss (fst s) = None" using Cons.prems by (simp add: map_of_eq_None_iff)
  then show ?case using Cons by (cases s) (auto simp: apply_steps_def split: option.splits)
qed (simp add: apply_steps_def)

lemma steps_not: "k \<notin> fst ` set ss \<Longrightarrow> map_of (apply_steps ss ps) k = map_of ps k"
proof (induction ss arbitrary: ps)
  case (Cons s ss)
  then show ?case by (cases s) (auto simp: apply_steps_def)
qed (simp add: apply_steps_def)

lemma obj_set_same: "map_of ps k = Some v \<Longrightarrow> obj_set k v ps = ps"
  by (induction ps) auto

lemma step_same: "map_of ps k = r \<Longrightarrow> apply_step (k, r) ps = ps"
  by (cases r) (auto simp: apply_step_def obj_set_same obj_delete_def map_of_eq_None_iff filter_id_conv)

lemma steps_done: "\<forall>(k, r) \<in> set ss. map_of ps k = r \<Longrightarrow> apply_steps ss ps = ps"
  by (induction ss) (auto simp: apply_steps_def step_same)

text \<open>All steps of a save, and the properties they decide.\<close>

definition first_props :: "FormEnv \<Rightarrow> ChannelFormValues \<Rightarrow> (jstr \<times> jval) list" where
  "first_props env f = apply_steps (type_steps f @ monitor_steps env f) (settings_before env f)"

definition all_steps :: "FormEnv \<Rightarrow> ChannelFormValues \<Rightarrow> settings_step list" where
  "all_steps env f = type_steps f @ monitor_steps env f @ update_steps f (first_props env f) @ overview_steps env f @ route_steps env f"

definition managed_settings :: "jstr list" where
  "managed_settings = map js [''vertex_key_type'', ''azure_responses_version'', ''openrouter_enterprise'', ''aws_key_type'',
     ''allow_service_tier'', ''disable_store'', ''allow_safety_identifier'', ''allow_include_obfuscation'', ''allow_inference_geo'',
     ''allow_speed'', ''claude_beta_query'', ''claude_code_fingerprint_enabled'', ''claude_code_transport_fingerprint_enabled'',
     ''claude_code_version'', ''claude_code_entrypoint'', ''monitor_enabled'', ''monitor_auto_disable_enabled'',
     ''monitor_auto_enable_enabled'', ''monitor_test_interval_minutes'', ''monitor_response_time_threshold_seconds'',
     ''monitor_disable_threshold'', ''monitor_enable_threshold'', ''disable_task_polling_sleep'',
     ''upstream_model_update_check_enabled'', ''upstream_model_update_auto_sync_enabled'', ''upstream_model_update_ignored_models'',
     ''upstream_model_update_last_detected_models'', ''upstream_model_update_last_check_time'',
     ''tokenspro_overview_sync_enabled'', ''tokenspro_overview_sync_interval_seconds'', ''advanced_custom'']"

lemma settings_props_steps: "settings_props env f = apply_steps (all_steps env f) (settings_before env f)"
  by (simp add: settings_props_def all_steps_def first_props_def Let_def apply_steps_append)

lemmas step_defs = set_if_def set_text_def set_override_def set_number_def

lemma distinct_managed: "distinct managed_settings"
  by (simp add: managed_settings_def)

lemma step_keys: "subseq (map fst (all_steps env f)) managed_settings"
proof -
  let ?t = "take 23 managed_settings" and ?u = "take 5 (drop 23 managed_settings)"
    and ?v = "take 2 (drop 28 managed_settings)" and ?w = "drop 30 managed_settings"
  have t: "map fst (type_steps f @ monitor_steps env f) = ?t"
    by (simp add: type_steps_def monitor_steps_def Let_def step_defs managed_settings_def)
  have u: "subseq (map fst (update_steps f (first_props env f))) ?u"
    by (simp add: update_steps_def Let_def step_defs managed_settings_def)
  have v: "map fst (overview_steps env f) = ?v" by (simp add: overview_steps_def Let_def step_defs managed_settings_def)
  have w: "subseq (map fst (route_steps env f)) ?w"
    by (simp add: route_steps_def managed_settings_def split: option.splits)
  have "map fst (all_steps env f) = ?t @ map fst (update_steps f (first_props env f)) @ ?v @ map fst (route_steps env f)"
    unfolding all_steps_def t[symmetric] v[symmetric] by simp
  moreover have "?t @ ?u @ ?v @ ?w = managed_settings" by (simp add: managed_settings_def)
  moreover have "subseq (?t @ map fst (update_steps f (first_props env f)) @ ?v @ map fst (route_steps env f)) (?t @ ?u @ ?v @ ?w)"
    by (intro list_emb_append_mono u w subseq_order.refl)
  ultimately show ?thesis by argo
qed

lemma subseq_set_distinct: "subseq xs ys \<Longrightarrow> set xs \<subseteq> set ys \<and> (distinct ys \<longrightarrow> distinct xs)"
  by (induction rule: list_emb.induct) auto

lemma step_keys_distinct: "distinct (map fst (all_steps env f))"
  using subseq_set_distinct[OF step_keys] distinct_managed by blast

lemma step_result: "(k, r) \<in> set (all_steps env f) \<Longrightarrow> map_of (settings_props env f) k = r"
  using map_of_steps[OF step_keys_distinct] map_of_is_SomeI[OF step_keys_distinct] by (simp add: settings_props_steps)

lemma unmanaged_kept: "k \<notin> set managed_settings \<Longrightarrow> map_of (settings_props env f) k = map_of (settings_before env f) k"
  unfolding settings_props_steps using subseq_set_distinct[OF step_keys[of env f]] by (intro steps_not) auto

section \<open>A saved channel, opened again\<close>

lemma jget_obj: "jget (JObj ps) k = (case map_of ps k of None \<Rightarrow> JUndefined | Some v \<Rightarrow> v)"
  by simp

lemma type_result: "(k, r) \<in> set (type_steps f) \<Longrightarrow> map_of (settings_props env f) k = r"
  by (rule step_result) (simp add: all_steps_def)

lemma monitor_result: "(k, r) \<in> set (monitor_steps env f) \<Longrightarrow> map_of (settings_props env f) k = r"
  by (rule step_result) (simp add: all_steps_def)

lemma overview_result: "(k, r) \<in> set (overview_steps env f) \<Longrightarrow> map_of (settings_props env f) k = r"
  by (rule step_result) (simp add: all_steps_def)

lemma route_result: "(k, r) \<in> set (route_steps env f) \<Longrightarrow> map_of (settings_props env f) k = r"
  by (rule step_result) (simp add: all_steps_def)

lemma update_result: "(k, r) \<in> set (update_steps f (first_props env f)) \<Longrightarrow> map_of (settings_props env f) k = r"
  by (rule step_result) (simp add: all_steps_def)

definition update_keys :: "jstr list" where
  "update_keys = map js [''upstream_model_update_check_enabled'', ''upstream_model_update_auto_sync_enabled'',
     ''upstream_model_update_ignored_models'', ''upstream_model_update_last_detected_models'', ''upstream_model_update_last_check_time'']"

lemma update_keys_disjoint:
  "set update_keys \<inter> (fst ` set (type_steps f) \<union> fst ` set (monitor_steps env f) \<union> fst ` set (overview_steps env f) \<union> fst ` set (route_steps env f)) = {}"
proof -
  have "set update_keys \<inter> fst ` set (type_steps f) = {}" by (simp add: update_keys_def type_steps_def Let_def step_defs)
  moreover have "set update_keys \<inter> fst ` set (monitor_steps env f) = {}" by (simp add: update_keys_def monitor_steps_def Let_def step_defs)
  moreover have "set update_keys \<inter> fst ` set (overview_steps env f) = {}" by (simp add: update_keys_def overview_steps_def Let_def step_defs)
  moreover have "set update_keys \<inter> fst ` set (route_steps env f) = {}"
    by (cases "form_routes env f") (simp_all add: update_keys_def route_steps_def)
  ultimately show ?thesis by (simp only: Int_Un_distrib Un_empty)
qed

lemma not_fetched:
  assumes "\<not> has_type MODEL_FETCHABLE_TYPES (cb_type (form_base f))" "k \<in> set update_keys"
  shows "map_of (settings_props env f) k = map_of (settings_before env f) k"
proof -
  have "update_steps f (first_props env f) = []" using assms(1) by (simp add: update_steps_def Let_def)
  then have "k \<notin> fst ` set (all_steps env f)"
    using assms(2) update_keys_disjoint[of f env] by (auto simp: all_steps_def)
  then show ?thesis unfolding settings_props_steps by (rule steps_not)
qed

text \<open>What the form shows of a saved channel: the settings of its type as they were entered, those of the
  other types at their defaults.\<close>

definition shown_number :: "FormEnv \<Rightarrow> jval \<Rightarrow> jval" where
  "shown_number env v = (if blank v then JStr [] else JStr (fe_string env (JNum (to_number env v))))"

definition shown_override :: "jval \<Rightarrow> jval" where
  "shown_override v = (if v = JStr (js ''enabled'') \<or> v = JStr (js ''disabled'') then v else JStr (js ''inherit''))"

definition shown_flag :: "bool \<Rightarrow> jval \<Rightarrow> jval" where
  "shown_flag c v = JBool (c \<and> v = JBool True)"

definition shown_text :: "bool \<Rightarrow> jval \<Rightarrow> jval" where
  "shown_text c v = (if c then JStr (trim (str_of v)) else JStr [])"

lemma jget_step:
  "(k, r) \<in> set (all_steps env f) \<Longrightarrow> jget (JObj (settings_props env f)) k = (case r of None \<Rightarrow> JUndefined | Some v \<Rightarrow> v)"
  using step_result[of k r env f] by simp

lemma flag_shown:
  "set_if c k (is_true v) \<in> set (all_steps env f) \<Longrightarrow> is_true (jget (JObj (settings_props env f)) (js k)) = shown_flag c v"
  by (auto simp: set_if_def is_true_def shown_flag_def simp del: jget.simps dest!: jget_step split: if_splits)

lemma text_shown:
  "set_text c k v \<in> set (all_steps env f) \<Longrightarrow> text_or_empty (jget (JObj (settings_props env f)) (js k)) = shown_text c v"
  by (auto simp: set_text_def set_if_def text_or_empty_def shown_text_def simp del: jget.simps dest!: jget_step split: if_splits)

lemma override_shown:
  "set_override k v \<in> set (all_steps env f) \<Longrightarrow> booleanOverride (jget (JObj (settings_props env f)) (js k)) = shown_override v"
  by (auto simp: set_override_def booleanOverride_def shown_override_def simp del: jget.simps dest!: jget_step split: if_splits)

lemma number_shown:
  "set_number env k v \<in> set (all_steps env f) \<Longrightarrow> blank v \<or> is_finite (to_number env v) \<Longrightarrow>
   numericSetting env (jget (JObj (settings_props env f)) (js k)) = shown_number env v"
  by (auto simp: set_number_def set_if_def numericSetting_def shown_number_def blank_def simp del: jget.simps dest!: jget_step split: if_splits)

lemma value_shown:
  "set_if c k v \<in> set (all_steps env f) \<Longrightarrow> jget (JObj (settings_props env f)) (js k) = (if c then v else JUndefined)"
  by (auto simp: set_if_def simp del: jget.simps dest!: jget_step split: if_splits)

definition saved_as :: "FormEnv \<Rightarrow> ChannelFormValues \<Rightarrow> jval \<Rightarrow> jval \<Rightarrow> bool" where
  "saved_as env f channelId channel \<longleftrightarrow>
     (\<forall>k \<in> {''type'', ''setting'', ''settings''}. jget channel (js k) = jget (JObj (transformFormDataToUpdatePayload env f channelId)) (js k))"

text \<open>What is relied on of \<open>JSON\<close>: it reads back the objects it wrote, and \<open>{}\<close> as the empty object.\<close>

definition json_keeps_form :: "FormEnv \<Rightarrow> ChannelFormValues \<Rightarrow> bool" where
  "json_keeps_form env f \<longleftrightarrow> fe_parse env (js ''{}'') = Some (JObj [])
     \<and> json_keeps (fe_parse env) (fe_stringify env) (setting_object env f)
     \<and> json_keeps (fe_parse env) (fe_stringify env) (JObj (settings_props env f))
     \<and> (\<forall>c. form_routes env f = Some c \<longrightarrow> json_keeps (fe_parse env) (fe_stringify env) (config_object c))"

lemma payload_columns:
  assumes "is_number (cb_type (form_base f))" "buildSettingJSON env f \<noteq> []" "buildSettingsJSON env f \<noteq> []"
  shows "jget (JObj (transformFormDataToUpdatePayload env f i)) (js ''type'') = cb_type (form_base f)"
    and "jget (JObj (transformFormDataToUpdatePayload env f i)) (js ''setting'') = JStr (buildSettingJSON env f)"
    and "jget (JObj (transformFormDataToUpdatePayload env f i)) (js ''settings'') = JStr (buildSettingsJSON env f)"
proof -
  have "cb_type (form_base f) \<noteq> JStr []" using assms(1) by auto
  then show "jget (JObj (transformFormDataToUpdatePayload env f i)) (js ''type'') = cb_type (form_base f)"
    by (simp add: transformFormDataToUpdatePayload_def Let_def cleared_fields_def empty_to_null_def common_payload_def)
  show "jget (JObj (transformFormDataToUpdatePayload env f i)) (js ''setting'') = JStr (buildSettingJSON env f)"
    using assms(2) by (simp add: transformFormDataToUpdatePayload_def Let_def cleared_fields_def empty_to_null_def common_payload_def)
  show "jget (JObj (transformFormDataToUpdatePayload env f i)) (js ''settings'') = JStr (buildSettingsJSON env f)"
    using assms(3) by (simp add: transformFormDataToUpdatePayload_def Let_def cleared_fields_def empty_to_null_def common_payload_def)
qed

lemma saved_columns:
  assumes "saved_as env f i ch" "json_keeps_form env f" "is_number (cb_type (form_base f))"
  shows "jget ch (js ''type'') = cb_type (form_base f)"
    and "jget ch (js ''setting'') = JStr (buildSettingJSON env f)" and "buildSettingJSON env f \<noteq> []"
    and "jget ch (js ''settings'') = JStr (buildSettingsJSON env f)" and "buildSettingsJSON env f \<noteq> []"
    and "fe_parse env (buildSettingJSON env f) = Some (setting_object env f)"
    and "fe_parse env (buildSettingsJSON env f) = Some (JObj (settings_props env f))"
proof -
  show ne: "buildSettingJSON env f \<noteq> []" "buildSettingsJSON env f \<noteq> []"
    using assms(2) by (auto simp: json_keeps_form_def json_keeps_def buildSettingJSON_def buildSettingsJSON_def)
  show "jget ch (js ''type'') = cb_type (form_base f)" "jget ch (js ''setting'') = JStr (buildSettingJSON env f)"
    "jget ch (js ''settings'') = JStr (buildSettingsJSON env f)"
    using assms(1) payload_columns[OF assms(3) ne] by (auto simp: saved_as_def)
  show "fe_parse env (buildSettingJSON env f) = Some (setting_object env f)"
    "fe_parse env (buildSettingsJSON env f) = Some (JObj (settings_props env f))"
    using assms(2) by (auto simp: json_keeps_form_def json_keeps_def buildSettingJSON_def buildSettingsJSON_def)
qed

text \<open>What an opened channel shows of its settings.  A type without fetched models shows those of the upstream model update from
  the settings the channel had before (\<open>before\<close>), not their defaults.\<close>

definition shown_other :: "FormEnv \<Rightarrow> ChannelFormValues \<Rightarrow> ChannelOther" where
  "shown_other env f =
     (let o' = form_other f; ty = cb_type (form_base f); openai = has_type OPENAI_FIELD_PASSTHROUGH_TYPES ty;
          claude = has_type CLAUDE_FIELD_PASSTHROUGH_TYPES ty; fetched = has_type MODEL_FETCHABLE_TYPES ty;
          before = jget (JObj (settings_before env f)) in
      \<lparr>cs_is_enterprise_account = shown_flag (has_type [20] ty) (cs_is_enterprise_account o'),
       cs_vertex_key_type = (if has_type [41] ty then js_or (cs_vertex_key_type o') (JStr (js ''json'')) else JStr (js ''json'')),
       cs_azure_responses_version = (if has_type [3] ty then js_or (cs_azure_responses_version o') (JStr []) else JStr []),
       cs_aws_key_type = (if has_type [33] ty then js_or (cs_aws_key_type o') (JStr (js ''ak_sk'')) else JStr (js ''ak_sk'')),
       cs_allow_service_tier = shown_flag (has_type FIELD_PASSTHROUGH_TYPES ty) (cs_allow_service_tier o'),
       cs_disable_store = shown_flag openai (cs_disable_store o'),
       cs_allow_safety_identifier = shown_flag openai (cs_allow_safety_identifier o'),
       cs_allow_include_obfuscation = shown_flag openai (cs_allow_include_obfuscation o'),
       cs_allow_inference_geo = shown_flag (openai \<or> claude) (cs_allow_inference_geo o'),
       cs_allow_speed = shown_flag claude (cs_allow_speed o'),
       cs_claude_beta_query = shown_flag (has_type [14] ty) (cs_claude_beta_query o'),
       cs_claude_code_fingerprint_enabled = shown_flag claude (cs_claude_code_fingerprint_enabled o'),
       cs_claude_code_transport_fingerprint_enabled = shown_flag claude (cs_claude_code_transport_fingerprint_enabled o'),
       cs_claude_code_version = shown_text claude (cs_claude_code_version o'),
       cs_claude_code_entrypoint = shown_text claude (cs_claude_code_entrypoint o'),
       cs_monitor_enabled = shown_override (cs_monitor_enabled o'),
       cs_monitor_test_interval_minutes = shown_number env (cs_monitor_test_interval_minutes o'),
       cs_monitor_response_time_threshold_seconds = shown_number env (cs_monitor_response_time_threshold_seconds o'),
       cs_monitor_auto_disable_enabled = shown_override (cs_monitor_auto_disable_enabled o'),
       cs_monitor_auto_enable_enabled = shown_override (cs_monitor_auto_enable_enabled o'),
       cs_monitor_disable_threshold = shown_number env (cs_monitor_disable_threshold o'),
       cs_monitor_enable_threshold = shown_number env (cs_monitor_enable_threshold o'),
       cs_disable_task_polling_sleep = shown_flag True (cs_disable_task_polling_sleep o'),
       cs_upstream_model_update_check_enabled =
         (if fetched then shown_flag True (cs_upstream_model_update_check_enabled o')
          else is_true (before (js ''upstream_model_update_check_enabled''))),
       cs_upstream_model_update_auto_sync_enabled =
         (if fetched then shown_flag (cs_upstream_model_update_check_enabled o' = JBool True) (cs_upstream_model_update_auto_sync_enabled o')
          else is_true (before (js ''upstream_model_update_auto_sync_enabled''))),
       cs_upstream_model_update_ignored_models =
         (if fetched then JStr (join (js '','') (js_unique (filter (\<lambda>m. m \<noteq> []) (map trim (split_on 44 (str_of (cs_upstream_model_update_ignored_models o')))))))
          else case before (js ''upstream_model_update_ignored_models'') of JArr vs \<Rightarrow> JStr (join_values env vs) | _ \<Rightarrow> JStr []),
       cs_tokenspro_overview_sync_enabled = shown_flag True (cs_tokenspro_overview_sync_enabled o'),
       cs_tokenspro_overview_sync_interval_seconds = shown_number env (cs_tokenspro_overview_sync_interval_seconds o'),
       cs_tokenspro_overview_last_success_time =
         (let n = to_number env (before (js ''tokenspro_overview_last_success_time'')) in if is_finite n then JNum n else JNum (Fin 0)),
       cs_tokenspro_overview_last_allowed =
         (if is_number (before (js ''tokenspro_overview_last_allowed'')) then before (js ''tokenspro_overview_last_allowed'') else JNull),
       cs_tokenspro_overview_last_error = text_or_empty (before (js ''tokenspro_overview_last_error'')),
       cs_advanced_custom =
         (if has_type [CHANNEL_TYPE_ADVANCED_CUSTOM] ty
          then (case form_routes env f of Some c \<Rightarrow> JStr (fe_stringify env (config_object c)) | None \<Rightarrow> JStr []) else JStr [])\<rparr>)"

lemma issue_if_Nil [simp]: "issue_if c path message = [] \<longleftrightarrow> \<not> c"
  by (simp add: issue_if_def)

text \<open>What the checks of the schema say of the numbers of an accepted form.\<close>

definition number_fields :: "ChannelFormValues \<Rightarrow> jval list" where
  "number_fields f = (let o' = form_other f in
     [cs_monitor_test_interval_minutes o', cs_monitor_response_time_threshold_seconds o', cs_monitor_disable_threshold o',
      cs_monitor_enable_threshold o', cs_tokenspro_overview_sync_interval_seconds o'])"

lemma is_integer_finite: "is_integer n \<Longrightarrow> is_finite n"
  by (cases n) auto

lemma accepted_numbers:
  assumes "field_issues env f = []"
  shows "\<forall>v \<in> set (number_fields f). blank v \<or> is_finite (to_number env v)"
    and "blank (cs_tokenspro_overview_sync_interval_seconds (form_other f))
      \<or> is_integer (to_number env (cs_tokenspro_overview_sync_interval_seconds (form_other f)))
        \<and> num_le (Fin 60) (to_number env (cs_tokenspro_overview_sync_interval_seconds (form_other f)))"
  using assms by (auto simp: field_issues_def Let_def number_fields_def blank_def isOptionalPositiveNumber_def
      isOptionalPositiveInteger_def isOptionalMinIntervalSeconds_def intro: is_integer_finite)

lemma accepted_routes:
  assumes "cross_issues env f = Inr []" "has_type [CHANNEL_TYPE_ADVANCED_CUSTOM] (cb_type (form_base f))"
  shows "\<exists>c. form_routes env f = Some c \<and> normalizeAdvancedCustomConfig c = Inr c
     \<and> validateAdvancedCustomConfig (form_url env) (Some c) = Inr None"
proof -
  have "advanced_issues env f = Inr []" using assms by (auto simp: cross_issues_def Let_def split: sum.splits)
  then have valid: "validateAdvancedCustomConfig (form_url env) (form_routes env f) = Inr None"
    by (auto simp: advanced_issues_def Let_def split: sum.splits option.splits if_splits)
  then obtain c where c: "form_routes env f = Some c" by (cases "form_routes env f") (auto simp: validateAdvancedCustomConfig_def)
  then have "normalizeAdvancedCustomConfig c = Inr c"
    by (auto simp: form_routes_def parseAdvancedCustomConfig_def intro: normalize_config_idem split: jval.splits option.splits if_splits sum.splits)
  then show ?thesis using c valid by auto
qed

text \<open>The extra settings the form shows.\<close>

definition shown_extra :: "FormEnv \<Rightarrow> ChannelFormValues \<Rightarrow> ChannelExtra" where
  "shown_extra env f =
     (let x = form_extra f; ty = cb_type (form_base f); protocol = normalizeHttpProtocol env (cx_http_protocol x) in
      \<lparr>cx_task_plugin_key = shown_text (has_type [CHANNEL_TYPE_TASK_PLUGIN] ty) (cx_task_plugin_key x),
       cx_force_format = js_or (cx_force_format x) (JBool False),
       cx_force_responses = shown_flag (has_type FORCE_RESPONSES_CHANNEL_TYPES ty) (cx_force_responses x),
       cx_thinking_to_content = js_or (cx_thinking_to_content x) (JBool False),
       cx_proxy = JStr (trim (str_of (cx_proxy x))),
       cx_http_protocol = JStr protocol,
       cx_http2_connection_shards = (if protocol = js ''http1'' then JNum (Fin 1)
         else normalizeHttp2ConnectionShards env (cx_http2_connection_shards x)),
       cx_pass_through_body_enabled = js_or (cx_pass_through_body_enabled x) (JBool False),
       cx_system_prompt = js_or (cx_system_prompt x) (JStr []),
       cx_system_prompt_override = js_or (cx_system_prompt_override x) (JBool False)\<rparr>)"

text \<open>What is relied on of \<open>toLowerCase\<close>, and of \<open>String\<close> and \<open>Number\<close>: a number that was entered is read back
  from its text, which is not blank.\<close>

definition lower_keeps :: "FormEnv \<Rightarrow> bool" where
  "lower_keeps env \<longleftrightarrow> fe_lower env [] = [] \<and> fe_lower env (js ''http1'') = js ''http1''
     \<and> fe_lower env (js ''auto'') = js ''auto''"

definition numbers_keep :: "FormEnv \<Rightarrow> ChannelFormValues \<Rightarrow> bool" where
  "numbers_keep env f \<longleftrightarrow> (\<forall>v \<in> set (number_fields f). blank v \<or>
     \<not> blank (shown_number env v) \<and> to_number env (shown_number env v) = to_number env v)"

lemma js_or_js_or [simp]: "js_or (js_or v w) w = js_or v w"
  by (simp add: js_or_def)

lemma trim_names [simp]: "trim (js ''http1'') = js ''http1''" "trim (js ''auto'') = js ''auto''"
  by (rule trim_no_space; auto simp: jstr_eval is_space_def js_spaces_def)+

lemma protocol_cases: "normalizeHttpProtocol env v = js ''http1'' \<or> normalizeHttpProtocol env v = js ''auto''"
  by (simp add: normalizeHttpProtocol_def)

lemma protocol_kept:
  assumes "lower_keeps env"
  shows "normalizeHttpProtocol env JUndefined = js ''auto''" "normalizeHttpProtocol env (JStr (js ''http1'')) = js ''http1''"
    "normalizeHttpProtocol env (JStr (js ''auto'')) = js ''auto''"
  using assms by (simp_all add: lower_keeps_def normalizeHttpProtocol_def js_or_def to_text_def)

lemma shards_again [simp]:
  "normalizeHttp2ConnectionShards env (normalizeHttp2ConnectionShards env v) = normalizeHttp2ConnectionShards env v"
  by (auto simp: normalizeHttp2ConnectionShards_def nullish_def to_number_def MAX_HTTP2_CONNECTION_SHARDS_def)

lemma shards_kept:
  assumes "extra_typed x"
  shows "let h = normalizeHttp2ConnectionShards env (cx_http2_connection_shards x) in
     normalizeHttp2ConnectionShards env (if num_less (Fin 1) (to_number env h) then h else JUndefined) = h"
proof (cases "cx_http2_connection_shards x")
  case (JNum n)
  then show ?thesis using assms
    by (cases n) (auto simp: extra_typed_def opt_is_def is_int_def normalizeHttp2ConnectionShards_def nullish_def to_number_def MAX_HTTP2_CONNECTION_SHARDS_def Let_def)
qed (use assms in \<open>auto simp: extra_typed_def opt_is_def is_int_def normalizeHttp2ConnectionShards_def nullish_def to_number_def Let_def\<close>)

lemma extra_shown:
  assumes low: "lower_keeps env" and p: "fe_parse env s = Some (setting_object env f)" and s: "s \<noteq> []"
    and typed: "extra_typed (form_extra f)"
  shows "read_extra_settings env (JStr s) = shown_extra env f"
proof -
  let ?o = "setting_object env f" and ?x = "form_extra f" and ?ty = "cb_type (form_base f)"
  let ?n = "normalizeHttpProtocol env (cx_http_protocol ?x)" and ?h = "normalizeHttp2ConnectionShards env (cx_http2_connection_shards ?x)"
  have plain: "jget ?o (js ''force_format'') = js_or (cx_force_format ?x) (JBool False)"
    "jget ?o (js ''force_responses'') = JBool (has_type FORCE_RESPONSES_CHANNEL_TYPES ?ty \<and> cx_force_responses ?x = JBool True)"
    "jget ?o (js ''thinking_to_content'') = js_or (cx_thinking_to_content ?x) (JBool False)"
    "jget ?o (js ''proxy'') = JStr (trim (str_of (cx_proxy ?x)))"
    "jget ?o (js ''pass_through_body_enabled'') = js_or (cx_pass_through_body_enabled ?x) (JBool False)"
    "jget ?o (js ''system_prompt'') = js_or (cx_system_prompt ?x) (JStr [])"
    "jget ?o (js ''system_prompt_override'') = js_or (cx_system_prompt_override ?x) (JBool False)"
    by (simp_all add: setting_object_def Let_def)
  have key: "text_or_empty (jget ?o (js ''task_plugin_key'')) = shown_text (has_type [CHANNEL_TYPE_TASK_PLUGIN] ?ty) (cx_task_plugin_key ?x)"
    by (simp add: setting_object_def Let_def text_or_empty_def shown_text_def)
  have http: "jget ?o (js ''http_protocol'') = (if ?n = js ''http1'' then JStr (js ''http1'') else JUndefined)"
    by (simp add: setting_object_def Let_def)
  have shards: "?n \<noteq> js ''http1'' \<Longrightarrow> normalizeHttp2ConnectionShards env (jget ?o (js ''http2_connection_shards'')) = ?h"
    using shards_kept[OF typed, of env] by (auto simp: setting_object_def Let_def split: if_splits)
  have "normalizeHttpProtocol env (jget ?o (js ''http_protocol'')) = ?n"
    using protocol_cases[of env "cx_http_protocol ?x"] protocol_kept[OF low] by (auto simp: http)
  moreover have "\<not> nullish ?o" by (simp add: setting_object_def Let_def nullish_def)
  ultimately show ?thesis using p s shards
    by (simp add: read_extra_settings_def shown_extra_def Let_def plain key is_true_def shown_flag_def js_or_def del: jget.simps)
qed

lemmas steps_unfold = all_steps_def type_steps_def monitor_steps_def overview_steps_def Let_def

lemma flags_shown:
  fixes env f
  defines "g \<equiv> \<lambda>k. is_true (jget (JObj (settings_props env f)) (js k))" and "s \<equiv> shown_other env f"
  shows "g ''openrouter_enterprise'' = cs_is_enterprise_account s" "g ''allow_service_tier'' = cs_allow_service_tier s"
    "g ''disable_store'' = cs_disable_store s" "g ''allow_safety_identifier'' = cs_allow_safety_identifier s"
    "g ''allow_include_obfuscation'' = cs_allow_include_obfuscation s" "g ''allow_inference_geo'' = cs_allow_inference_geo s"
    "g ''allow_speed'' = cs_allow_speed s" "g ''claude_beta_query'' = cs_claude_beta_query s"
    "g ''claude_code_fingerprint_enabled'' = cs_claude_code_fingerprint_enabled s"
    "g ''claude_code_transport_fingerprint_enabled'' = cs_claude_code_transport_fingerprint_enabled s"
    "g ''disable_task_polling_sleep'' = cs_disable_task_polling_sleep s"
    "g ''tokenspro_overview_sync_enabled'' = cs_tokenspro_overview_sync_enabled s"
  unfolding g_def s_def shown_other_def Let_def ChannelOther.simps
  by (rule flag_shown; simp add: steps_unfold)+

lemma texts_shown:
  fixes env f
  defines "g \<equiv> \<lambda>k. text_or_empty (jget (JObj (settings_props env f)) (js k))" and "s \<equiv> shown_other env f"
  shows "g ''claude_code_version'' = cs_claude_code_version s" "g ''claude_code_entrypoint'' = cs_claude_code_entrypoint s"
  unfolding g_def s_def shown_other_def Let_def ChannelOther.simps
  by (rule text_shown; simp add: steps_unfold)+

lemma overrides_shown:
  fixes env f
  defines "g \<equiv> \<lambda>k. booleanOverride (jget (JObj (settings_props env f)) (js k))" and "s \<equiv> shown_other env f"
  shows "g ''monitor_enabled'' = cs_monitor_enabled s" "g ''monitor_auto_disable_enabled'' = cs_monitor_auto_disable_enabled s"
    "g ''monitor_auto_enable_enabled'' = cs_monitor_auto_enable_enabled s"
  unfolding g_def s_def shown_other_def Let_def ChannelOther.simps
  by (rule override_shown; simp add: steps_unfold)+

lemma numbers_shown:
  fixes env f
  assumes "field_issues env f = []"
  defines "g \<equiv> \<lambda>k. numericSetting env (jget (JObj (settings_props env f)) (js k))" and "s \<equiv> shown_other env f"
  shows "g ''monitor_test_interval_minutes'' = cs_monitor_test_interval_minutes s"
    "g ''monitor_response_time_threshold_seconds'' = cs_monitor_response_time_threshold_seconds s"
    "g ''monitor_disable_threshold'' = cs_monitor_disable_threshold s" "g ''monitor_enable_threshold'' = cs_monitor_enable_threshold s"
  unfolding g_def s_def shown_other_def Let_def ChannelOther.simps
  by (rule number_shown; use accepted_numbers(1)[OF assms(1)] in \<open>simp add: steps_unfold number_fields_def\<close>)+

lemma interval_shown:
  assumes "field_issues env f = []"
  shows "numericSetting env (jget (JObj (settings_props env f)) (js ''tokenspro_overview_sync_interval_seconds''))
     = cs_tokenspro_overview_sync_interval_seconds (shown_other env f)"
proof -
  let ?v = "cs_tokenspro_overview_sync_interval_seconds (form_other f)"
  have "overview_steps env f = [set_if True ''tokenspro_overview_sync_enabled'' (is_true (cs_tokenspro_overview_sync_enabled (form_other f))),
      set_number env ''tokenspro_overview_sync_interval_seconds'' ?v]"
    using accepted_numbers(2)[OF assms] by (auto simp: overview_steps_def Let_def set_number_def blank_def set_if_def)
  then have "set_number env ''tokenspro_overview_sync_interval_seconds'' ?v \<in> set (all_steps env f)" by (simp add: all_steps_def)
  then show ?thesis using accepted_numbers(1)[OF assms]
    by (simp only: number_shown shown_other_def Let_def ChannelOther.simps number_fields_def list.set ball_simps insert_iff simp_thms)
qed

lemma join_texts [simp]: "join_values env (map JStr ms) = join (js '','') ms"
  by (simp add: join_values_def nullish_def to_text_def comp_def)

lemma updates_shown:
  fixes env f
  defines "g \<equiv> \<lambda>k. jget (JObj (settings_props env f)) (js k)" and "s \<equiv> shown_other env f"
  shows "is_true (g ''upstream_model_update_check_enabled'') = cs_upstream_model_update_check_enabled s"
    "is_true (g ''upstream_model_update_auto_sync_enabled'') = cs_upstream_model_update_auto_sync_enabled s"
    "(case g ''upstream_model_update_ignored_models'' of JArr vs \<Rightarrow> JStr (join_values env vs) | _ \<Rightarrow> JStr []) = cs_upstream_model_update_ignored_models s"
proof -
  let ?fetched = "has_type MODEL_FETCHABLE_TYPES (cb_type (form_base f))" and ?o = "form_other f"
  have at: "?fetched \<Longrightarrow> (js k, Some v) \<in> set (update_steps f (first_props env f)) \<Longrightarrow> g k = v" for k v
    by (simp add: g_def update_result)
  have before: "\<not> ?fetched \<Longrightarrow> js k \<in> set update_keys \<Longrightarrow> g k = jget (JObj (settings_before env f)) (js k)" for k
    by (simp add: g_def not_fetched)
  have not: "\<not> ?fetched \<Longrightarrow> g ''upstream_model_update_check_enabled'' = jget (JObj (settings_before env f)) (js ''upstream_model_update_check_enabled'')"
    "\<not> ?fetched \<Longrightarrow> g ''upstream_model_update_auto_sync_enabled'' = jget (JObj (settings_before env f)) (js ''upstream_model_update_auto_sync_enabled'')"
    "\<not> ?fetched \<Longrightarrow> g ''upstream_model_update_ignored_models'' = jget (JObj (settings_before env f)) (js ''upstream_model_update_ignored_models'')"
    by (rule before; simp add: update_keys_def)+
  have yes: "?fetched \<Longrightarrow> g ''upstream_model_update_check_enabled'' = JBool (cs_upstream_model_update_check_enabled ?o = JBool True)"
    "?fetched \<Longrightarrow> g ''upstream_model_update_auto_sync_enabled'' =
       JBool (cs_upstream_model_update_check_enabled ?o = JBool True \<and> cs_upstream_model_update_auto_sync_enabled ?o = JBool True)"
    "?fetched \<Longrightarrow> g ''upstream_model_update_ignored_models'' = ignored_models (cs_upstream_model_update_ignored_models ?o)"
    by (rule at; simp add: update_steps_def Let_def set_if_def)+
  show "is_true (g ''upstream_model_update_check_enabled'') = cs_upstream_model_update_check_enabled s"
    using not(1) yes(1) by (cases ?fetched) (simp_all add: s_def shown_other_def Let_def is_true_def shown_flag_def del: jget.simps)
  show "is_true (g ''upstream_model_update_auto_sync_enabled'') = cs_upstream_model_update_auto_sync_enabled s"
    using not(2) yes(2) by (cases ?fetched) (simp_all add: s_def shown_other_def Let_def is_true_def shown_flag_def del: jget.simps)
  show "(case g ''upstream_model_update_ignored_models'' of JArr vs \<Rightarrow> JStr (join_values env vs) | _ \<Rightarrow> JStr []) = cs_upstream_model_update_ignored_models s"
    using not(3) yes(3) by (cases ?fetched) (simp_all add: s_def shown_other_def Let_def ignored_models_def del: jget.simps)
qed

lemma choices_shown:
  fixes env f
  defines "g \<equiv> \<lambda>k. jget (JObj (settings_props env f)) (js k)" and "s \<equiv> shown_other env f"
  shows "js_or (g ''vertex_key_type'') (JStr (js ''json'')) = cs_vertex_key_type s"
    "js_or (g ''azure_responses_version'') (JStr []) = cs_azure_responses_version s"
    "js_or (g ''aws_key_type'') (JStr (js ''ak_sk'')) = cs_aws_key_type s"
proof -
  let ?o = "form_other f" and ?ty = "cb_type (form_base f)"
  have "g ''vertex_key_type'' = (if has_type [41] ?ty then js_or (cs_vertex_key_type ?o) (JStr (js ''json'')) else JUndefined)"
    "g ''azure_responses_version'' = (if has_type [3] ?ty \<and> truthy (cs_azure_responses_version ?o) then cs_azure_responses_version ?o else JUndefined)"
    "g ''aws_key_type'' = (if has_type [33] ?ty then js_or (cs_aws_key_type ?o) (JStr (js ''ak_sk'')) else JUndefined)"
    unfolding g_def by (rule value_shown; simp add: steps_unfold)+
  then show "js_or (g ''vertex_key_type'') (JStr (js ''json'')) = cs_vertex_key_type s"
    "js_or (g ''azure_responses_version'') (JStr []) = cs_azure_responses_version s"
    "js_or (g ''aws_key_type'') (JStr (js ''ak_sk'')) = cs_aws_key_type s"
    by (simp_all add: s_def shown_other_def Let_def js_or_def)
qed

lemma records_shown:
  fixes env f
  defines "g \<equiv> \<lambda>k. jget (JObj (settings_props env f)) (js k)" and "b \<equiv> \<lambda>k. jget (JObj (settings_before env f)) (js k)"
  shows "g ''tokenspro_overview_last_success_time'' = b ''tokenspro_overview_last_success_time''"
    "g ''tokenspro_overview_last_allowed'' = b ''tokenspro_overview_last_allowed''"
    "g ''tokenspro_overview_last_error'' = b ''tokenspro_overview_last_error''"
  unfolding g_def b_def jget_obj by (subst unmanaged_kept; simp add: managed_settings_def)+

lemma routes_shown:
  assumes "cross_issues env f = Inr []"
  shows "read_advanced_custom env (jget (JObj (settings_props env f)) (js ''advanced_custom'')) = cs_advanced_custom (shown_other env f)"
proof (cases "has_type [CHANNEL_TYPE_ADVANCED_CUSTOM] (cb_type (form_base f))")
  case True
  then obtain c where c: "form_routes env f = Some c" "normalizeAdvancedCustomConfig c = Inr c" using accepted_routes[OF assms] by blast
  have "jget (JObj (settings_props env f)) (js ''advanced_custom'') = config_object c"
    using True c by (simp add: route_result[of "js ''advanced_custom''" "Some (config_object c)"] route_steps_def)
  moreover have "truthy (config_object c)" by (simp add: config_object_def)
  ultimately show ?thesis using True c
    by (simp add: read_advanced_custom_def read_config_object stringifyAdvancedCustomConfig_def shown_other_def Let_def)
next
  case False
  then have "jget (JObj (settings_props env f)) (js ''advanced_custom'') = JUndefined"
    by (simp add: route_result[of "js ''advanced_custom''" None] route_steps_def)
  then show ?thesis using False by (simp add: read_advanced_custom_def shown_other_def Let_def)
qed

lemmas all_shown = flags_shown texts_shown overrides_shown numbers_shown interval_shown updates_shown choices_shown records_shown routes_shown

lemma shown_records:
  "cs_tokenspro_overview_last_success_time (shown_other env f) =
     (let n = to_number env (jget (JObj (settings_before env f)) (js ''tokenspro_overview_last_success_time'')) in if is_finite n then JNum n else JNum (Fin 0))"
  "cs_tokenspro_overview_last_allowed (shown_other env f) =
     (let v = jget (JObj (settings_before env f)) (js ''tokenspro_overview_last_allowed'') in if is_number v then v else JNull)"
  "cs_tokenspro_overview_last_error (shown_other env f) = text_or_empty (jget (JObj (settings_before env f)) (js ''tokenspro_overview_last_error''))"
  by (simp_all add: shown_other_def Let_def del: jget.simps)

lemma other_shown:
  assumes "fe_parse env s = Some (JObj (settings_props env f))" "s \<noteq> []" "field_issues env f = []" "cross_issues env f = Inr []"
  shows "read_other env (JStr s) = shown_other env f"
proof -
  have "\<not> nullish (JObj (settings_props env f))" by (simp add: nullish_def)
  then show ?thesis
    using assms by (simp add: read_other_def all_shown shown_records[unfolded Let_def] Let_def del: jget.simps)
qed

lemma accepted_typed:
  assumes "form_accepted env f"
  shows "is_number (cb_type (form_base f))" "extra_typed (form_extra f)" "field_issues env f = []" "cross_issues env f = Inr []"
  using assms by (auto simp: form_accepted_def base_typed_def is_num_def)

lemma reopened:
  assumes "form_accepted env f" "json_keeps_form env f" "lower_keeps env" "saved_as env f i ch"
  defines "g \<equiv> transformChannelToFormDefaults env ch"
  shows "form_other g = shown_other env f" "form_extra g = shown_extra env f" "cb_type (form_base g) = cb_type (form_base f)"
    "cb_settings (form_base g) = JStr (buildSettingsJSON env f)"
proof -
  note c = saved_columns[OF assms(4,2) accepted_typed(1)[OF assms(1)]]
  show "form_other g = shown_other env f"
    using other_shown[OF c(7,5) accepted_typed(3,4)[OF assms(1)]] c(4) by (simp add: g_def transformChannelToFormDefaults_def Let_def)
  show "form_extra g = shown_extra env f"
    using extra_shown[OF assms(3) c(6,3) accepted_typed(2)[OF assms(1)]] c(2) by (simp add: g_def transformChannelToFormDefaults_def Let_def)
  show "cb_type (form_base g) = cb_type (form_base f)" "cb_settings (form_base g) = JStr (buildSettingsJSON env f)"
    using c(1,4,5) by (simp_all add: g_def transformChannelToFormDefaults_def Let_def js_or_def)
qed

text \<open>The steps of a save from what the form shows are those of the save it was shown for.\<close>

lemma flag_again [simp]: "set_if c k (is_true (shown_flag c v)) = set_if c k (is_true v)"
  by (auto simp: set_if_def is_true_def shown_flag_def)

lemma text_again [simp]: "set_text c k (shown_text c v) = set_text c k v"
  by (auto simp: set_text_def set_if_def shown_text_def)

lemma override_again [simp]: "set_override k (shown_override v) = set_override k v"
  by (auto simp: set_override_def shown_override_def)

lemma number_again: "blank v \<or> \<not> blank (shown_number env v) \<and> to_number env (shown_number env v) = to_number env v \<Longrightarrow>
   set_number env k (shown_number env v) = set_number env k v"
  by (auto simp: set_number_def set_if_def shown_number_def blank_def)

lemma choice_again [simp]:
  "set_if c k (js_or (if c then js_or v w else w) w) = set_if c k (js_or v w)"
  "set_if (c \<and> truthy (if c then js_or v (JStr []) else JStr [])) k (if c then js_or v (JStr []) else JStr []) = set_if (c \<and> truthy v) k v"
  by (auto simp: set_if_def js_or_def)

lemma type_steps_again:
  assumes "form_other g = shown_other env f" "cb_type (form_base g) = cb_type (form_base f)"
  shows "type_steps g = type_steps f"
  unfolding type_steps_def assms by (simp add: shown_other_def Let_def)

lemma monitor_steps_again:
  assumes "form_other g = shown_other env f" "numbers_keep env f"
  shows "monitor_steps env g = monitor_steps env f"
  using assms(2) unfolding monitor_steps_def assms(1)
  by (simp add: shown_other_def Let_def number_again numbers_keep_def number_fields_def)

lemma overview_steps_again:
  assumes "form_other g = shown_other env f" "numbers_keep env f"
  shows "overview_steps env g = overview_steps env f"
  using assms(2) unfolding overview_steps_def assms(1)
  by (auto simp: shown_other_def Let_def numbers_keep_def number_fields_def set_if_def is_true_def shown_flag_def blank_def shown_number_def)

lemma route_steps_again:
  assumes "form_other g = shown_other env f" "cb_type (form_base g) = cb_type (form_base f)" "cross_issues env f = Inr []" "json_keeps_form env f"
  shows "route_steps env g = route_steps env f"
proof (cases "has_type [CHANNEL_TYPE_ADVANCED_CUSTOM] (cb_type (form_base f))")
  case True
  then obtain c where c: "form_routes env f = Some c" "normalizeAdvancedCustomConfig c = Inr c" using accepted_routes[OF assms(3)] by blast
  then have "json_keeps (fe_parse env) (fe_stringify env) (config_object c)" using assms(4) by (simp add: json_keeps_form_def)
  then have "parseAdvancedCustomConfig (fe_parse env) (Some (fe_stringify env (config_object c))) = Some c"
    using parse_stringified(2)[OF c(2)] by blast
  then have "form_routes env g = Some c" using True c by (simp add: form_routes_def assms(1) shown_other_def Let_def)
  then show ?thesis using c assms(2) by (simp add: route_steps_def)
qed (simp add: route_steps_def assms)

lemma ignored_again:
  "ignored_models (JStr (join (js '','') (js_unique (filter (\<lambda>m. m \<noteq> []) (map trim (split_on 44 s)))))) =
   JArr (map JStr (js_unique (filter (\<lambda>m. m \<noteq> []) (map trim (split_on 44 s)))))"
proof -
  let ?ms = "js_unique (filter (\<lambda>m. m \<noteq> []) (map trim (split_on 44 s)))"
  have "js '','' = [44]" by (simp add: jstr_eval)
  moreover have "filter (\<lambda>m. m \<noteq> []) (map trim (split_on 44 (join [44] ?ms))) = ?ms"
    by (rule split_trim_join, rule split_trim_parts[of _ 44 s]) (simp only: set_js_unique)
  ultimately show ?thesis unfolding ignored_models_def str_of.simps by (simp only: js_unique_fixed distinct_js_unique)
qed

lemma update_value: "(k, Some v) \<in> set (update_steps f (first_props env f)) \<Longrightarrow> jget (JObj (settings_props env f)) k = v"
  by (simp add: update_result)

lemma update_steps_again:
  assumes "form_other g = shown_other env f" "cb_type (form_base g) = cb_type (form_base f)"
  shows "update_steps g (settings_props env f) = update_steps f (first_props env f)"
proof (cases "has_type MODEL_FETCHABLE_TYPES (cb_type (form_base f))")
  case True
  let ?p = "jget (JObj (first_props env f))" and ?q = "jget (JObj (settings_props env f))"
  let ?d = "?p (js ''upstream_model_update_last_detected_models'')" and ?t = "?p (js ''upstream_model_update_last_check_time'')"
  let ?check = "cs_upstream_model_update_check_enabled (form_other f) = JBool True"
  have "?q (js ''upstream_model_update_last_detected_models'') = (if \<not> is_array ?d \<or> \<not> ?check then JArr [] else ?d)"
    by (rule update_value) (simp add: update_steps_def Let_def True del: jget.simps)
  moreover have "?q (js ''upstream_model_update_last_check_time'') = (if is_number ?t then ?t else JNum (Fin 0))"
    by (rule update_value) (simp add: update_steps_def Let_def True del: jget.simps)
  moreover have "(cs_upstream_model_update_check_enabled (form_other g) = JBool True) = ?check"
    "(?check \<and> cs_upstream_model_update_auto_sync_enabled (form_other g) = JBool True)
       = (?check \<and> cs_upstream_model_update_auto_sync_enabled (form_other f) = JBool True)"
    "ignored_models (cs_upstream_model_update_ignored_models (form_other g)) = ignored_models (cs_upstream_model_update_ignored_models (form_other f))"
    using True by (auto simp: assms(1) shown_other_def Let_def shown_flag_def ignored_again) (simp add: ignored_models_def)
  ultimately show ?thesis using True by (simp add: update_steps_def Let_def assms(2) del: jget.simps)
qed (simp add: update_steps_def Let_def assms(2))

lemma saved_again:
  assumes "form_accepted env f" "json_keeps_form env f" "lower_keeps env" "numbers_keep env f" "saved_as env f i ch"
  defines "g \<equiv> transformChannelToFormDefaults env ch"
  shows "settings_props env g = settings_props env f" "setting_object env g = setting_object env f"
proof -
  note r = reopened[OF assms(1-3,5), folded g_def]
  let ?ps = "settings_props env f"
  have before: "settings_before env g = ?ps"
    using assms(2) by (auto simp: settings_before_def r(4) json_keeps_form_def json_keeps_def buildSettingsJSON_def Let_def)
  have same: "set ss \<subseteq> set (all_steps env f) \<Longrightarrow> apply_steps ss ?ps = ?ps" for ss
    using step_result[of _ _ env f] by (intro steps_done) auto
  have first: "first_props env g = ?ps"
    unfolding first_props_def before type_steps_again[OF r(1,3)] monitor_steps_again[OF r(1) assms(4)]
    by (rule same) (auto simp: all_steps_def)
  have "all_steps env g = all_steps env f"
    unfolding all_steps_def first type_steps_again[OF r(1,3)] monitor_steps_again[OF r(1) assms(4)] update_steps_again[OF r(1,3)]
      overview_steps_again[OF r(1) assms(4)] route_steps_again[OF r(1,3) accepted_typed(4)[OF assms(1)] assms(2)] ..
  then show "settings_props env g = ?ps" unfolding settings_props_steps[of env g] before by (simp add: same)
  have "normalizeHttpProtocol env (JStr (normalizeHttpProtocol env v)) = normalizeHttpProtocol env v" for v
    using protocol_cases[of env v] protocol_kept[OF assms(3)] by auto
  then show "setting_object env g = setting_object env f"
    by (simp add: setting_object_def r(2,3) shown_extra_def Let_def shown_text_def shown_flag_def)
qed

section \<open>Fields only some may change\<close>

lemma keys_set [simp]: "fst ` set (obj_set k v ps) = insert k (fst ` set ps)"
  by (simp flip: dom_map_of_conv_image_fst)

lemma keys_delete [simp]: "fst ` set (obj_delete k ps) = fst ` set ps - {k}"
  by (auto simp: obj_delete_def)

lemma keys_delete_all: "fst ` set (fold obj_delete ks ps) = fst ` set ps - set ks"
  by (induction ks arbitrary: ps) auto

lemma keys_set_all: "fst ` set (fold (\<lambda>(k, v) ps. obj_set k v ps) us ps) = fst ` set us \<union> fst ` set ps"
proof (induction us arbitrary: ps)
  case (Cons u us)
  then show ?case by (cases u) simp
qed simp

lemma update_payload_keys:
  "fst ` set (transformFormDataToUpdatePayload env f i) =
     insert (js ''id'') (fst ` set (common_payload env f)) \<union> {js ''priority'', js ''weight''}
     \<union> (if blank (cb_key (form_base f)) then {} else {js ''key''})"
proof -
  have empty: "fst ` set (empty_to_null ps) = fst ` set ps" for ps
    by (force simp: empty_to_null_def)
  have sub: "fst ` set (cleared_fields f) \<subseteq> fst ` set (common_payload env f)"
    by (simp add: cleared_fields_def common_payload_def Let_def)
  show ?thesis unfolding transformFormDataToUpdatePayload_def Let_def keys_set_all empty
    using sub by (auto simp: blank_def)
qed

lemma update_body_keys:
  "fst ` set (channel_update_body env u multi i f) =
     (if hasPermission u (js ''channel'') (js ''sensitive_write'')
      then fst ` set (transformFormDataToUpdatePayload env f i)
         \<union> (if multi \<and> \<not> blank (cb_key (form_base f)) \<and> truthy (cb_key_mode (form_base f)) then {js ''key_mode''} else {})
         \<union> (if multi then {js ''multi_key_mode''} else {})
      else fst ` set (transformFormDataToUpdatePayload env f i) - set SENSITIVE_UPDATE_FIELDS)"
proof -
  have "js ''key'' \<notin> fst ` set (common_payload env f)" by (simp add: common_payload_def Let_def)
  then have "blank (cb_key (form_base f)) \<Longrightarrow> js ''key'' \<notin> fst ` set (transformFormDataToUpdatePayload env f i)"
    by (simp add: update_payload_keys)
  then have "blank (cb_key (form_base f)) \<Longrightarrow>
     fst ` set (transformFormDataToUpdatePayload env f i) - {js ''key''} = fst ` set (transformFormDataToUpdatePayload env f i)" by blast
  then show ?thesis
    by (cases "blank (cb_key (form_base f))") (simp_all add: channel_update_body_def Let_def keys_delete_all blank_def)
qed

lemma map_of_delete_all: "k \<notin> set ks \<Longrightarrow> map_of (fold obj_delete ks ps) k = map_of ps k"
  by (induction ks arbitrary: ps) auto

lemma update_body_plain:
  assumes "\<not> hasPermission u (js ''channel'') (js ''sensitive_write'')" "k \<notin> set SENSITIVE_UPDATE_FIELDS"
  shows "map_of (channel_update_body env u multi i f) k = map_of (transformFormDataToUpdatePayload env f i) k"
proof -
  have "k \<noteq> js ''key''" using assms(2) by (auto simp: SENSITIVE_UPDATE_FIELDS_def)
  then show ?thesis using assms by (simp add: channel_update_body_def Let_def map_of_delete_all)
qed

definition PLAIN_UPDATE_FIELDS :: "jstr list" where
  "PLAIN_UPDATE_FIELDS = map js [''id'', ''name'', ''vendor_id'', ''models'', ''group'', ''group_ids'', ''model_mapping'', ''concurrency_limit'',
     ''test_model'', ''auto_ban'', ''status_code_mapping'', ''tag'', ''remark'', ''priority'', ''weight'']"

lemma key_absorbed: "k \<in> S \<Longrightarrow> insert a C \<union> {p, q} \<union> (if b then {} else {k}) - S = insert a (C \<union> {p, q}) - S"
  by auto

lemma plain_update_keys:
  "fst ` set (transformFormDataToUpdatePayload env f i) - set SENSITIVE_UPDATE_FIELDS = set PLAIN_UPDATE_FIELDS"
proof -
  have key: "js ''key'' \<in> set SENSITIVE_UPDATE_FIELDS" by (simp add: SENSITIVE_UPDATE_FIELDS_def)
  let ?ks = "[js ''id''] @ map fst (common_payload env f) @ [js ''priority'', js ''weight'']"
  have "fst ` set (transformFormDataToUpdatePayload env f i) - set SENSITIVE_UPDATE_FIELDS = set ?ks - set SENSITIVE_UPDATE_FIELDS"
    unfolding update_payload_keys key_absorbed[OF key] by simp
  also have "\<dots> = set (filter (\<lambda>k. k \<notin> set SENSITIVE_UPDATE_FIELDS) ?ks)" unfolding set_filter by blast
  also have "filter (\<lambda>k. k \<notin> set SENSITIVE_UPDATE_FIELDS) ?ks = PLAIN_UPDATE_FIELDS"
    by (simp add: SENSITIVE_UPDATE_FIELDS_def PLAIN_UPDATE_FIELDS_def common_payload_def Let_def)
  finally show ?thesis .
qed

section \<open>Properties\<close>

text \<open>Everything \<open>setting\<close> can hold.\<close>

definition EXTRA_SETTINGS :: "jstr list" where
  "EXTRA_SETTINGS = map js [''force_format'', ''force_responses'', ''thinking_to_content'', ''proxy'', ''pass_through_body_enabled'', ''system_prompt'',
     ''system_prompt_override'', ''task_plugin_key'', ''http_protocol'', ''http2_connection_shards'']"

lemma extra_keys: "fst ` set (props_of (setting_object env f)) \<subseteq> set EXTRA_SETTINGS"
  by (cases "has_type [CHANNEL_TYPE_TASK_PLUGIN] (cb_type (form_base f))"; cases "normalizeHttpProtocol env (cx_http_protocol (form_extra f)) = js ''http1''";
      cases "num_less (Fin 1) (to_number env (normalizeHttp2ConnectionShards env (cx_http2_connection_shards (form_extra f))))")
    (simp_all add: setting_object_def Let_def EXTRA_SETTINGS_def)

text \<open>A form, by its type and the text of its routes, and environments, by their \<open>JSON\<close>.\<close>

definition sample_form :: "rat \<Rightarrow> jstr \<Rightarrow> ChannelFormValues" where
  "sample_form ty routes = CHANNEL_FORM_DEFAULT_VALUES
     \<lparr>form_base := (form_base CHANNEL_FORM_DEFAULT_VALUES)\<lparr>cb_name := JStr (js ''a''), cb_type := JNum (Fin ty), cb_models := JStr (js ''m''),
        cb_base_url := JStr (js ''u''), cb_settings := JStr (js ''{w}'')\<rparr>,
      form_extra := default_extra\<lparr>cx_proxy := JStr (js '' ''), cx_http2_connection_shards := JNum (Fin 4)\<rparr>,
      form_other := default_other\<lparr>cs_allow_speed := JBool True, cs_disable_store := JBool True, cs_monitor_enabled := JStr (js ''enabled''),
        cs_monitor_disable_threshold := JStr (js ''5''), cs_upstream_model_update_ignored_models := JStr (js ''b, b''), cs_advanced_custom := JStr routes\<rparr>\<rparr>"

abbreviation claude_form :: ChannelFormValues where "claude_form \<equiv> sample_form 14 []"

definition form_env_of :: "(jstr \<Rightarrow> jval option) \<Rightarrow> (jval \<Rightarrow> jstr) \<Rightarrow> FormEnv" where
  "form_env_of parse stringify = \<lparr>fe_parse = parse, fe_stringify = stringify, fe_string = (\<lambda>v. if v = JNum (Fin 5) then js ''5'' else []),
     fe_number = (\<lambda>v. if v = JStr (js ''5'') then Fin 5 else NaN), fe_lower = (\<lambda>s. s), fe_url = (\<lambda>s. None)\<rparr>"

definition form_parse :: "jstr \<Rightarrow> jval option" where
  "form_parse s = (if s = js ''{}'' then Some (JObj []) else if s = js ''{w}'' then Some (JObj [(js ''responses_websocket_enabled'', JBool True)])
     else if s = js ''{r}'' then Some (config_object sample_split) else None)"

definition form_env0 :: FormEnv where
  "form_env0 = form_env_of form_parse (\<lambda>v. js ''{}'')"

definition form_env :: FormEnv where
  "form_env = form_env_of
     (\<lambda>s. if s = js ''{x}'' then Some (setting_object form_env0 claude_form)
        else if s = js ''{y}'' then Some (JObj (settings_props form_env0 claude_form)) else form_parse s)
     (\<lambda>v. if v = setting_object form_env0 claude_form then js ''{x}'' else js ''{y}'')"

lemmas sample_data = sample_form_def CHANNEL_FORM_DEFAULT_VALUES_def default_extra_def default_other_def

lemma sample_readers:
  "to_text form_env = to_text form_env0" "to_number form_env = to_number form_env0"
  "normalizeHttpProtocol form_env = normalizeHttpProtocol form_env0"
  "normalizeHttp2ConnectionShards form_env = normalizeHttp2ConnectionShards form_env0"
  by (auto simp: fun_eq_iff to_text_def to_number_def normalizeHttpProtocol_def normalizeHttp2ConnectionShards_def form_env_def form_env0_def
      form_env_of_def split: jval.splits)

lemma sample_setting: "setting_object form_env f = setting_object form_env0 f"
  unfolding setting_object_def sample_readers ..

lemma sample_before:
  "settings_before form_env claude_form = [(js ''responses_websocket_enabled'', JBool True)]"
  "settings_before form_env0 claude_form = [(js ''responses_websocket_enabled'', JBool True)]"
  by (simp_all add: settings_before_def form_env_def form_env0_def form_env_of_def form_parse_def sample_data Let_def)

lemma sample_routes: "form_routes env claude_form = None"
  by (simp add: form_routes_def sample_data parseAdvancedCustomConfig_def)

lemma sample_settings: "settings_props form_env claude_form = settings_props form_env0 claude_form"
  unfolding settings_props_def monitor_steps_def overview_steps_def route_steps_def set_number_def sample_readers sample_before sample_routes ..

lemma sample_objects: "setting_object form_env0 claude_form \<noteq> JObj (settings_props form_env0 claude_form)"
proof -
  have "map_of (props_of (setting_object form_env0 claude_form)) (js ''disable_task_polling_sleep'') = None"
    using extra_keys[of form_env0 claude_form] by (auto simp: map_of_eq_None_iff EXTRA_SETTINGS_def)
  moreover have "map_of (settings_props form_env0 claude_form) (js ''disable_task_polling_sleep'') = Some (JBool False)"
    by (rule step_result) (simp add: steps_unfold set_if_def is_true_def sample_data)
  ultimately show ?thesis by auto
qed

lemma sample_written:
  "buildSettingJSON form_env claude_form = js ''{x}''" "buildSettingsJSON form_env claude_form = js ''{y}''"
  using sample_objects by (auto simp: buildSettingJSON_def buildSettingsJSON_def sample_setting sample_settings)
    (simp_all add: form_env_def form_env_of_def)

lemma sample_keeps: "json_keeps_form form_env claude_form"
  using sample_objects
  by (simp add: json_keeps_form_def json_keeps_def sample_setting sample_settings sample_routes)
    (simp add: form_env_def form_env_of_def form_parse_def trim_eq_Nil_iff jstr_eval is_space_def js_spaces_def)

lemma form_texts:
  "trim (js '' '') = []" "trim (js ''5'') = js ''5''" "trim (js ''{w}'') = js ''{w}''" "trim (js ''u'') = js ''u''"
  "map trim (split_on 44 (js ''b, b'')) = [js ''b'', js ''b'']"
proof -
  show "trim (js '' '') = []" by (simp add: trim_eq_Nil_iff jstr_eval is_space_def js_spaces_def)
  show "trim (js ''5'') = js ''5''" "trim (js ''{w}'') = js ''{w}''" "trim (js ''u'') = js ''u''"
    by (rule trim_no_space; auto simp: jstr_eval is_space_def js_spaces_def)+
  show "map trim (split_on 44 (js ''b, b'')) = [js ''b'', js ''b'']" by (simp add: jstr_eval trim_def is_space_def js_spaces_def)
qed

lemma sample_numbers: "to_number (form_env_of p s) (JStr (js ''5'')) = Fin 5" "to_number (form_env_of p s) (JNum n) = n"
  "normalizeHttpProtocol (form_env_of p s) (JStr (js ''auto'')) = js ''auto''"
  by (simp_all add: to_number_def form_env_of_def normalizeHttpProtocol_def js_or_def to_text_def)

lemma sample_lower: "lower_keeps form_env" "numbers_keep form_env (sample_form ty r)"
  by (simp_all add: lower_keeps_def numbers_keep_def form_env_def form_env_of_def sample_data number_fields_def Let_def blank_def shown_number_def to_number_def)

lemma sample_fields:
  assumes "0 \<le> ty" "p (js ''{w}'') = Some (JObj ps)"
  shows "field_issues (form_env_of p s) (sample_form ty r) = []"
proof -
  have "fe_parse (form_env_of p s) (js ''{w}'') = Some (JObj ps)" using assms(2) by (simp add: form_env_of_def)
  then show ?thesis using assms(1)
    by (simp add: field_issues_def sample_data Let_def sample_numbers form_texts issue_if_def isOptionalModelMapping_def
        isOptionalStatusCodeMapping_def isOptionalJsonObject_def parseOptionalJson_def isOptionalProxyURL_def isOptionalPositiveNumber_def
        isOptionalPositiveInteger_def isOptionalMinIntervalSeconds_def num_le_def)
qed

lemma sample_form_accepted:
  assumes "0 \<le> ty" "p (js ''{w}'') = Some (JObj ps)" "ty \<notin> {3, 18, 21, 39, 41, 49, 62}"
    and routes: "ty = 58 \<Longrightarrow> advanced_issues (form_env_of p s) (sample_form ty r) = Inr []"
  shows "form_accepted (form_env_of p s) (sample_form ty r)"
proof -
  have "base_typed (form_base (sample_form ty r))" by (simp add: base_typed_def sample_data opt_is_def one_of_def is_num_def is_int_def num_le_def)
  moreover have "extra_typed (form_extra (sample_form ty r))" by (simp add: extra_typed_def sample_data opt_is_def one_of_def is_int_def)
  moreover have "other_typed (form_other (sample_form ty r))" by (simp add: other_typed_def sample_data opt_is_def one_of_def is_num_def)
  moreover have "cross_issues (form_env_of p s) (sample_form ty r) = Inr []"
  proof -
    have "(if has_type [CHANNEL_TYPE_ADVANCED_CUSTOM] (JNum (Fin ty)) then advanced_issues (form_env_of p s) (sample_form ty r) else Inr []) = Inr []"
      using routes by (auto simp: has_type_def CHANNEL_TYPE_ADVANCED_CUSTOM_def)
    moreover have "cb_type (form_base (sample_form ty r)) = JNum (Fin ty)" by (simp add: sample_data)
    ultimately show ?thesis using assms(3) unfolding cross_issues_def
      by (simp add: Let_def sample_numbers blank_def form_texts) (simp add: sample_data has_type_def CHANNEL_TYPE_TASK_PLUGIN_def
          blank_def form_texts not_single_def coalesce_def nullish_def sample_numbers MAX_HTTP2_CONNECTION_SHARDS_def)
  qed
  ultimately show ?thesis using sample_fields[of ty p ps s r] assms(1,2) by (simp add: form_accepted_def)
qed

lemma sample_accepted_form: "form_accepted form_env claude_form"
  unfolding form_env_def by (rule sample_form_accepted[where ps = "[(js ''responses_websocket_enabled'', JBool True)]"]) (simp_all add: form_parse_def)

text \<open>The channel the server keeps of a saved form.\<close>

definition sample_channel :: jval where
  "sample_channel = JObj (transformFormDataToUpdatePayload form_env claude_form (JNum (Fin 7)))"

lemma form_saved: "saved_as form_env claude_form (JNum (Fin 7)) sample_channel"
  by (simp add: saved_as_def sample_channel_def)

lemmas type_sets = OPENAI_FIELD_PASSTHROUGH_TYPES_def CLAUDE_FIELD_PASSTHROUGH_TYPES_def MODEL_FETCHABLE_TYPES_def FIELD_PASSTHROUGH_TYPES_def
  FORCE_RESPONSES_CHANNEL_TYPES_def CHANNEL_TYPE_NEW_API_def CHANNEL_TYPE_TASK_PLUGIN_def CHANNEL_TYPE_ADVANCED_CUSTOM_def

lemma sample_five: "fe_string form_env (JNum (Fin 5)) = js ''5''" "to_number form_env (JStr (js ''5'')) = Fin 5"
  "normalizeHttpProtocol form_env (JStr (js ''auto'')) = js ''auto''" "to_number form_env (JNum n) = n"
  by (simp_all add: form_env_def sample_numbers) (simp add: form_env_of_def)

lemma sample_shown:
  "cs_allow_speed (shown_other form_env claude_form) = JBool True" "cs_disable_store (shown_other form_env claude_form) = JBool False"
  "cs_monitor_disable_threshold (shown_other form_env claude_form) = JStr (js ''5'')"
  "cs_upstream_model_update_ignored_models (shown_other form_env claude_form) = JStr (js ''b'')"
  "cx_http2_connection_shards (shown_extra form_env claude_form) = JNum (Fin 4)"
  by (simp_all add: shown_other_def shown_extra_def Let_def sample_data has_type_def type_sets shown_flag_def shown_number_def blank_def form_texts
      sample_five normalizeHttp2ConnectionShards_def nullish_def MAX_HTTP2_CONNECTION_SHARDS_def)

text \<open>C29. Opening a saved channel.  The form of a channel that was saved from an accepted form shows, of the
  settings of the channel's type, what was entered: flags and choices as they were, texts trimmed, numbers
  as the text of the number, the ignored models once each, the automatic sync only where the check is on, an empty
  choice or version as its default.  The settings of the other types are shown at their defaults, with one exception: a type
  whose models cannot be fetched shows the three settings of the upstream model update (check, automatic sync, ignored
  models) as the channel had them before, because a save leaves them alone; the recorded values of the overview are shown as
  the server last wrote them.  \<open>JSON\<close> is relied on to read back
  the two objects that are written, \<open>toLowerCase\<close> to keep three words of lower case.\<close>

theorem reopened_form:
  assumes "form_accepted env f" "json_keeps_form env f" "lower_keeps env" "saved_as env f i ch"
  shows "form_other (transformChannelToFormDefaults env ch) = shown_other env f
    \<and> form_extra (transformChannelToFormDefaults env ch) = shown_extra env f
    \<and> cb_type (form_base (transformChannelToFormDefaults env ch)) = cb_type (form_base f)"
  using reopened[OF assms] by blast

theorem reopened_form_witness:
  "(let g = transformChannelToFormDefaults form_env sample_channel in
    cs_allow_speed (form_other g) = JBool True \<and> cs_disable_store (form_other g) = JBool False
    \<and> cs_monitor_disable_threshold (form_other g) = JStr (js ''5'') \<and> cs_upstream_model_update_ignored_models (form_other g) = JStr (js ''b'')
    \<and> cx_http2_connection_shards (form_extra g) = JNum (Fin 4))"
  unfolding Let_def using reopened_form[OF sample_accepted_form sample_keeps sample_lower(1) form_saved] sample_shown by simp

text \<open>C30. Saving again what this form has saved changes nothing.  A channel whose type and settings were written from an
  accepted form, opened and saved without a change, gets the same two texts of settings, also in the order of their
  properties, whatever the type of the channel and the settings it had before.  (The first save of a channel written elsewhere
  may change them: it drops the properties of \<open>setting\<close> the form does not know.)  This also needs that \<open>Number\<close> reads back the numbers that \<open>String\<close> wrote.\<close>

theorem saving_again_same:
  assumes "form_accepted env f" "json_keeps_form env f" "lower_keeps env" "numbers_keep env f" "saved_as env f i ch"
  shows "buildSettingsJSON env (transformChannelToFormDefaults env ch) = buildSettingsJSON env f
    \<and> buildSettingJSON env (transformChannelToFormDefaults env ch) = buildSettingJSON env f"
  using saved_again[OF assms] by (simp add: buildSettingsJSON_def buildSettingJSON_def)

theorem saving_again_same_witness:
  "buildSettingsJSON form_env (transformChannelToFormDefaults form_env sample_channel) = js ''{y}''
    \<and> buildSettingJSON form_env (transformChannelToFormDefaults form_env sample_channel) = js ''{x}''"
  using saving_again_same[OF sample_accepted_form sample_keeps sample_lower form_saved] by (simp add: sample_written)

text \<open>C31. What the form does not know.  A property of \<open>settings\<close> that the form does not manage is left as it was; a
  property of \<open>setting\<close> that it does not manage is not written, so saving removes it from the channel:
  the text is built anew, although its author notes that an unchanged channel keeps equivalent \<open>JSON\<close>.  The
  gateway has such a property, \<open>responses_websocket_enabled\<close>.\<close>

theorem unknown_settings:
  assumes "k \<notin> set managed_settings" "k \<notin> set EXTRA_SETTINGS"
  shows "map_of (settings_props env f) k = map_of (settings_before env f) k \<and> map_of (props_of (setting_object env f)) k = None"
  using unmanaged_kept[OF assms(1)] extra_keys[of env f] assms(2) by (auto simp: map_of_eq_None_iff)

theorem unknown_settings_witness:
  "map_of (settings_props form_env claude_form) (js ''responses_websocket_enabled'') = Some (JBool True)
   \<and> map_of (props_of (setting_object form_env claude_form)) (js ''responses_websocket_enabled'') = None"
  using unknown_settings[of "js ''responses_websocket_enabled''" form_env claude_form]
  by (simp add: managed_settings_def EXTRA_SETTINGS_def sample_before)

text \<open>C32. What may be sent.  The update of a user without the permission to write sensitive fields has exactly the
  fifteen plain fields, each as in the full update: no key, type, address, override or setting, and no
  mode of the keys.\<close>

theorem sensitive_fields_withheld:
  assumes "\<not> hasPermission u (js ''channel'') (js ''sensitive_write'')"
  shows "fst ` set (channel_update_body env u multi i f) = set PLAIN_UPDATE_FIELDS
    \<and> (\<forall>k. map_of (channel_update_body env u multi i f) k =
         (if k \<in> set PLAIN_UPDATE_FIELDS then map_of (transformFormDataToUpdatePayload env f i) k else None))"
proof -
  have keys: "fst ` set (channel_update_body env u multi i f) = set PLAIN_UPDATE_FIELDS"
    using assms by (simp add: update_body_keys plain_update_keys)
  moreover have "k \<in> set PLAIN_UPDATE_FIELDS \<Longrightarrow> k \<notin> set SENSITIVE_UPDATE_FIELDS" for k
    unfolding plain_update_keys[of env f i, symmetric] by blast
  ultimately show ?thesis using update_body_plain[OF assms] by (auto simp: map_of_eq_None_iff)
qed

theorem sensitive_fields_withheld_witness:
  "map_of (channel_update_body form_env None True (JNum (Fin 7)) claude_form) (js ''name'') = Some (JStr (js ''a''))
   \<and> map_of (channel_update_body form_env None True (JNum (Fin 7)) claude_form) (js ''setting'') = None"
proof -
  have "map_of (transformFormDataToUpdatePayload form_env claude_form (JNum (Fin 7))) (js ''name'') = Some (JStr (js ''a''))"
    by (simp add: transformFormDataToUpdatePayload_def Let_def cleared_fields_def empty_to_null_def common_payload_def sample_data)
  moreover have "js ''name'' \<in> set PLAIN_UPDATE_FIELDS" "js ''setting'' \<notin> set PLAIN_UPDATE_FIELDS" by (simp_all add: PLAIN_UPDATE_FIELDS_def)
  ultimately show ?thesis using sensitive_fields_withheld[of None form_env True "JNum (Fin 7)" claude_form] by (simp add: hasPermission_def)
qed

text \<open>C33. The routes of a saved channel.  An accepted form of the type with routes of its own saves a configuration
  that the validation of routes accepts, in its normal form; every other type saves none, whatever the
  channel had before.\<close>

theorem saved_routes_valid:
  assumes "form_accepted env f"
  shows "if has_type [CHANNEL_TYPE_ADVANCED_CUSTOM] (cb_type (form_base f))
    then \<exists>c. map_of (settings_props env f) (js ''advanced_custom'') = Some (config_object c)
       \<and> normalizeAdvancedCustomConfig c = Inr c \<and> validateAdvancedCustomConfig (form_url env) (Some c) = Inr None
    else map_of (settings_props env f) (js ''advanced_custom'') = None"
proof (cases "has_type [CHANNEL_TYPE_ADVANCED_CUSTOM] (cb_type (form_base f))")
  case True
  then obtain c where c: "form_routes env f = Some c" "normalizeAdvancedCustomConfig c = Inr c"
    "validateAdvancedCustomConfig (form_url env) (Some c) = Inr None"
    using accepted_routes[OF accepted_typed(4)[OF assms]] by blast
  then have "map_of (settings_props env f) (js ''advanced_custom'') = Some (config_object c)"
    using True by (intro route_result) (simp add: route_steps_def)
  then show ?thesis using True c by auto
next
  case False
  then have "map_of (settings_props env f) (js ''advanced_custom'') = None" by (intro route_result) (simp add: route_steps_def)
  then show ?thesis using False by simp
qed

lemma sample_route_form: "form_accepted form_env0 (sample_form 58 (js ''{r}''))"
  unfolding form_env0_def
proof (rule sample_form_accepted[where ps = "[(js ''responses_websocket_enabled'', JBool True)]"])
  let ?env = "form_env_of form_parse (\<lambda>v. js ''{}'')" and ?f = "sample_form 58 (js ''{r}'')"
  have "trim (js ''{r}'') \<noteq> []" by (simp add: trim_eq_Nil_iff jstr_eval is_space_def js_spaces_def)
  then have "json_keeps form_parse (\<lambda>v. js ''{r}'') (config_object sample_split)" by (simp add: json_keeps_def form_parse_def)
  then have routes: "form_routes ?env ?f = Some sample_split"
    using parse_stringified(2)[OF sample_split_normal, of form_parse "\<lambda>v. js ''{r}''"] by (simp add: form_routes_def sample_data form_env_of_def)
  obtain b where "advancedCustomConfigUsesRelativeUpstreamPath (Some sample_split) = Inr b"
    by (simp add: advancedCustomConfigUsesRelativeUpstreamPath_def sample_split_normal)
      (simp add: sample_split_def createAdvancedCustomRoute_def openAIChatPath_def normal_eval)
  then show "advanced_issues ?env ?f = Inr []"
    unfolding advanced_issues_def Let_def routes sample_accepted by (simp add: sample_data blank_def form_texts)
qed (simp_all add: form_parse_def)

theorem saved_routes_valid_witness:
  "\<exists>c. map_of (settings_props form_env0 (sample_form 58 (js ''{r}''))) (js ''advanced_custom'') = Some (config_object c)
     \<and> normalizeAdvancedCustomConfig c = Inr c \<and> validateAdvancedCustomConfig (form_url form_env0) (Some c) = Inr None"
  using saved_routes_valid[OF sample_route_form] by (simp add: sample_data has_type_def CHANNEL_TYPE_ADVANCED_CUSTOM_def)

end
