(* ===== verification/Sensitive_Rules.thy ===== *)
theory Sensitive_Rules
  imports Js_Value "HOL-Library.List_Lexorder"
begin

text \<open>
  The editor of the sensitive word rules
  (\<open>web/src/features/system-settings/request-limits/sensitive-rule-config.ts\<close>): what the form holds
  (a draft), what is stored (a rule), and the way from one to the other and back.

  \<open>lower\<close> stands for \<open>String.prototype.toLowerCase\<close>, \<open>to_str\<close> for \<open>String(v)\<close> of a value that is no
  string, \<open>parse_int\<close> for \<open>Number.parseInt(s, 10)\<close>.  They are collected in the record \<open>RuleEnv\<close> with the
  identifiers the calls of \<open>nanoid\<close> yield, by number.  \<open>Array.sort()\<close> orders strings by their code units, which is the
  lexicographic order of the lists.
\<close>

record RuleEnv =
  lower :: "jstr \<Rightarrow> jstr"
  to_str :: "jval \<Rightarrow> jstr"
  parse_int :: "jstr \<Rightarrow> jnum"
  nanoid :: "nat \<Rightarrow> jstr"

definition ACTION_MASK :: jstr where "ACTION_MASK = js ''mask''"
definition ACTION_BLOCK :: jstr where "ACTION_BLOCK = js ''block''"
definition SCOPE_REQUEST :: jstr where "SCOPE_REQUEST = js ''request''"
definition SCOPE_RESPONSE :: jstr where "SCOPE_RESPONSE = js ''response''"
definition SCOPE_BOTH :: jstr where "SCOPE_BOTH = js ''both''"
definition TARGET_CHANNEL_TAGS :: jstr where "TARGET_CHANNEL_TAGS = js ''channel_tags''"
definition TARGET_ROUTES :: jstr where "TARGET_ROUTES = js ''routes''"
definition TARGET_ALL :: jstr where "TARGET_ALL = js ''all''"
definition DEFAULT_REPLACEMENT :: jstr where "DEFAULT_REPLACEMENT = js ''[REDACTED]''"

text \<open>A rule as it is stored; each property of the JSON text may be missing.\<close>

record SensitiveRule =
  rule_id :: "jstr option"
  rule_name :: "jstr option"
  rule_enabled :: "bool option"
  rule_action :: "jstr option"
  rule_scope :: "jstr option"
  rule_replacement :: "jstr option"
  rule_keywords :: "jstr list option"
  group_refs :: "jstr list option"
  target_type :: "jstr option"
  channel_ids :: "jval list option"
  channel_tags :: "jval list option"
  group_codes :: "jval list option"

record SensitiveRuleDraft =
  draft_id :: jstr
  draft_name :: jstr
  draft_enabled :: bool
  draft_action :: jstr
  draft_scope :: "jstr option"
  draft_replacement :: "jstr option"
  keywordsText :: jstr
  groupRefs :: "jstr list"
  targetType :: jstr
  channelIds :: "rat list"
  channelTags :: "jstr list"
  groupCodes :: "jstr list"

section \<open>Normalisation\<close>

fun replace_crlf :: "jstr \<Rightarrow> jstr" where
  "replace_crlf (c # d # s) = (if c = 13 \<and> d = 10 then 10 # replace_crlf s else c # replace_crlf (d # s))"
| "replace_crlf s = s"

definition splitSensitiveKeywords :: "RuleEnv \<Rightarrow> jstr \<Rightarrow> jstr list" where
  "splitSensitiveKeywords env v =
     dedup_by (lower env) (filter (\<lambda>k. k \<noteq> []) (map trim (split_on 10 (replace_crlf v))))"

definition route_id :: "RuleEnv \<Rightarrow> jval \<Rightarrow> jnum" where
  "route_id env rawId = (case rawId of JNum n \<Rightarrow> n | JStr s \<Rightarrow> parse_int env (trim s) | v \<Rightarrow> parse_int env (trim (to_str env v)))"

fun fin_of :: "jnum \<Rightarrow> rat" where
  "fin_of (Fin q) = q"
| "fin_of _ = 0"

definition normalizeSensitiveRouteIds :: "RuleEnv \<Rightarrow> jval list \<Rightarrow> rat list" where
  "normalizeSensitiveRouteIds env ids =
     sort (map fin_of (js_unique (filter (\<lambda>n. is_integer n \<and> num_less (Fin 0) n) (map (route_id env) ids))))"

definition parseSensitiveRuleChannelIds :: "RuleEnv \<Rightarrow> (jstr \<Rightarrow> jval option) \<Rightarrow> jstr option \<Rightarrow> rat list" where
  "parseSensitiveRuleChannelIds env parse raw =
     (if \<not> str_truthy (map_option trim raw) then []
      else case parse (trim (the raw)) of
        Some (JArr vs) \<Rightarrow> normalizeSensitiveRouteIds env vs | _ \<Rightarrow> [])"

definition tag_text :: "RuleEnv \<Rightarrow> jval \<Rightarrow> jstr" where
  "tag_text env v = trim (case v of JUndefined \<Rightarrow> [] | JNull \<Rightarrow> [] | JStr s \<Rightarrow> s | _ \<Rightarrow> to_str env v)"

definition normalizeSensitiveChannelTags :: "RuleEnv \<Rightarrow> jval list \<Rightarrow> jstr list" where
  "normalizeSensitiveChannelTags env tags = sort (js_unique (filter (\<lambda>t. t \<noteq> []) (map (tag_text env) tags)))"

definition normalizeSensitiveGroupCodes :: "RuleEnv \<Rightarrow> jval list \<Rightarrow> jstr list" where
  "normalizeSensitiveGroupCodes env codes =
     sort (js_unique (filter (\<lambda>c. c \<noteq> [] \<and> lower env c \<noteq> js ''auto'') (map (tag_text env) codes)))"

definition normalizeGroupRefs :: "RuleEnv \<Rightarrow> jstr list option \<Rightarrow> jstr list" where
  "normalizeGroupRefs env refs =
     dedup_by (lower env) (filter (\<lambda>r. r \<noteq> []) (map trim (case refs of None \<Rightarrow> [] | Some rs \<Rightarrow> rs)))"

record SensitiveRouteOption =
  route_value :: jstr
  route_label :: jstr

definition missing_options ::
  "SensitiveRouteOption list \<Rightarrow> jstr list \<Rightarrow> (jstr \<Rightarrow> jstr) \<Rightarrow> SensitiveRouteOption list" where
  "missing_options options values label =
     options @ map (\<lambda>v. \<lparr>route_value = v, route_label = label v\<rparr>)
       (filter (\<lambda>v. v \<notin> route_value ` set options) values)"

definition includeMissingSensitiveRouteOptions ::
  "RuleEnv \<Rightarrow> (rat \<Rightarrow> jstr) \<Rightarrow> SensitiveRouteOption list \<Rightarrow> rat list \<Rightarrow> jstr \<Rightarrow> SensitiveRouteOption list" where
  "includeMissingSensitiveRouteOptions env show_num options selectedIds missingLabel =
     missing_options options (map show_num (normalizeSensitiveRouteIds env (map (\<lambda>q. JNum (Fin q)) selectedIds)))
       (\<lambda>v. missingLabel @ js '' #'' @ v)"

definition includeMissingSensitiveGroupOptions ::
  "RuleEnv \<Rightarrow> SensitiveRouteOption list \<Rightarrow> jstr list \<Rightarrow> jstr \<Rightarrow> SensitiveRouteOption list" where
  "includeMissingSensitiveGroupOptions env options selectedCodes missingLabel =
     missing_options options (normalizeSensitiveGroupCodes env (map JStr selectedCodes))
       (\<lambda>v. missingLabel @ js '': '' @ v)"

definition includeMissingSensitiveTagOptions ::
  "RuleEnv \<Rightarrow> SensitiveRouteOption list \<Rightarrow> jstr list \<Rightarrow> jstr \<Rightarrow> SensitiveRouteOption list" where
  "includeMissingSensitiveTagOptions env options selectedTags missingLabel =
     missing_options options (normalizeSensitiveChannelTags env (map JStr selectedTags))
       (\<lambda>v. missingLabel @ js '': '' @ v)"

section \<open>Drafts and rules\<close>

definition createSensitiveRuleDraft :: "RuleEnv \<Rightarrow> nat \<Rightarrow> SensitiveRuleDraft" where
  "createSensitiveRuleDraft env n = \<lparr>draft_id = nanoid env n, draft_name = [], draft_enabled = True,
     draft_action = ACTION_MASK, draft_scope = Some SCOPE_REQUEST, draft_replacement = Some DEFAULT_REPLACEMENT,
     keywordsText = [], groupRefs = [], targetType = TARGET_ROUTES, channelIds = [], channelTags = [], groupCodes = []\<rparr>"

definition known_action :: "jstr option \<Rightarrow> jstr" where
  "known_action a = (if a = Some ACTION_BLOCK then ACTION_BLOCK else ACTION_MASK)"

definition known_scope :: "jstr option \<Rightarrow> jstr" where
  "known_scope sc = (if sc = Some SCOPE_RESPONSE \<or> sc = Some SCOPE_BOTH then the sc else SCOPE_REQUEST)"

definition known_target :: "jstr option \<Rightarrow> jstr" where
  "known_target t = (if t = Some TARGET_CHANNEL_TAGS \<or> t = Some TARGET_ALL then the t else TARGET_ROUTES)"

definition normalizeSensitiveRule :: "RuleEnv \<Rightarrow> nat \<Rightarrow> SensitiveRuleDraft \<Rightarrow> SensitiveRule option" where
  "normalizeSensitiveRule env n rule =
     (let keywords = splitSensitiveKeywords env (keywordsText rule);
          refs = normalizeGroupRefs env (Some (groupRefs rule)) in
      if keywords = [] \<and> refs = [] then None
      else let action = known_action (Some (draft_action rule)); scope = known_scope (draft_scope rule);
               target = known_target (Some (targetType rule));
               fallbackName = (case keywords of k # _ \<Rightarrow> k | [] \<Rightarrow> (case refs of r # _ \<Rightarrow> r | [] \<Rightarrow> []))
        in Some \<lparr>rule_id = Some (str_or (Some (draft_id rule)) (str_or (Some (lower env fallbackName)) (nanoid env n))),
             rule_name = Some (str_or (Some (trim (draft_name rule))) fallbackName),
             rule_enabled = Some (draft_enabled rule), rule_action = Some action, rule_scope = Some scope,
             rule_replacement = (if action = ACTION_MASK
               then Some (str_or (map_option trim (draft_replacement rule)) DEFAULT_REPLACEMENT) else None),
             rule_keywords = Some keywords, group_refs = (if refs \<noteq> [] then Some refs else None),
             target_type = Some target,
             channel_ids = (if target = TARGET_ROUTES
               then Some (map (\<lambda>q. JNum (Fin q)) (normalizeSensitiveRouteIds env (map (\<lambda>q. JNum (Fin q)) (channelIds rule)))) else None),
             channel_tags = (if target = TARGET_CHANNEL_TAGS
               then Some (map JStr (normalizeSensitiveChannelTags env (map JStr (channelTags rule)))) else None),
             group_codes = (if target = TARGET_ROUTES
               then Some (map JStr (normalizeSensitiveGroupCodes env (map JStr (groupCodes rule)))) else None)\<rparr>)"

definition or_empty :: "'a list option \<Rightarrow> 'a list" where
  "or_empty x = (case x of None \<Rightarrow> [] | Some xs \<Rightarrow> xs)"

definition rule_to_draft :: "RuleEnv \<Rightarrow> nat \<Rightarrow> rat list \<Rightarrow> SensitiveRule \<Rightarrow> SensitiveRuleDraft" where
  "rule_to_draft env n legacyChannelIds rule =
     \<lparr>draft_id = str_or (rule_id rule) (nanoid env n),
      draft_name = (case rule_name rule of None \<Rightarrow> [] | Some n \<Rightarrow> n),
      draft_enabled = (case rule_enabled rule of None \<Rightarrow> True | Some e \<Rightarrow> e),
      draft_action = known_action (rule_action rule),
      draft_scope = Some (known_scope (rule_scope rule)),
      draft_replacement = Some (str_or (rule_replacement rule) DEFAULT_REPLACEMENT),
      keywordsText = join [10] (or_empty (rule_keywords rule)),
      groupRefs = normalizeGroupRefs env (group_refs rule),
      targetType = known_target (target_type rule),
      channelIds = normalizeSensitiveRouteIds env
        (if target_type rule = None then map (\<lambda>q. JNum (Fin q)) legacyChannelIds else or_empty (channel_ids rule)),
      channelTags = normalizeSensitiveChannelTags env (or_empty (channel_tags rule)),
      groupCodes = normalizeSensitiveGroupCodes env (or_empty (group_codes rule))\<rparr>"

definition rulesToDrafts :: "RuleEnv \<Rightarrow> SensitiveRule list \<Rightarrow> rat list \<Rightarrow> SensitiveRuleDraft list" where
  "rulesToDrafts env rules legacyChannelIds =
     map (\<lambda>(n, rule). rule_to_draft env n legacyChannelIds rule) (enumerate 0 rules)"

text \<open>\<open>serializeSensitiveRules\<close> up to \<open>JSON.stringify\<close>: the rules of the object it is given.\<close>

definition serializeSensitiveRules :: "RuleEnv \<Rightarrow> SensitiveRuleDraft list \<Rightarrow> SensitiveRule list" where
  "serializeSensitiveRules env rules =
     List.map_filter (\<lambda>(n, rule). normalizeSensitiveRule env n rule) (enumerate 0 rules)"

text \<open>\<open>parse\<close> is \<open>JSON.parse\<close> with the property \<open>rules\<close> of its result, \<open>Some None\<close> where that is no array.\<close>

definition parseSensitiveRulesConfig ::
  "RuleEnv \<Rightarrow> (jstr \<Rightarrow> SensitiveRule list option option) \<Rightarrow> jstr option \<Rightarrow> jstr option \<Rightarrow> rat list \<Rightarrow> SensitiveRuleDraft list" where
  "parseSensitiveRulesConfig env parse raw legacyWords legacyChannelIds =
     (let legacy = (let legacyKeywords = splitSensitiveKeywords env (case legacyWords of None \<Rightarrow> [] | Some w \<Rightarrow> w) in
            if legacyKeywords = [] then []
            else rulesToDrafts env
              [\<lparr>rule_id = Some (js ''legacy-sensitive-words''), rule_name = Some (js ''Legacy sensitive words''),
                rule_enabled = Some True, rule_action = Some ACTION_BLOCK, rule_scope = None,
                rule_replacement = None, rule_keywords = Some legacyKeywords, group_refs = None,
                target_type = None, channel_ids = None, channel_tags = None, group_codes = None\<rparr>] legacyChannelIds)
      in if str_truthy (map_option trim raw) then
           (case parse (trim (the raw)) of
              None \<Rightarrow> []
            | Some (Some rules) \<Rightarrow> rulesToDrafts env rules legacyChannelIds
            | Some None \<Rightarrow> legacy)
         else legacy)"

definition getEmptySensitiveRuleTarget :: "RuleEnv \<Rightarrow> SensitiveRuleDraft \<Rightarrow> jstr option" where
  "getEmptySensitiveRuleTarget env rule =
     (let hasContent = (length (splitSensitiveKeywords env (keywordsText rule)) > 0
            \<or> length (normalizeGroupRefs env (Some (groupRefs rule))) > 0) in
      if \<not> draft_enabled rule \<or> \<not> hasContent then None
      else if targetType rule = TARGET_CHANNEL_TAGS
              \<and> normalizeSensitiveChannelTags env (map JStr (channelTags rule)) = []
      then Some TARGET_CHANNEL_TAGS
      else if targetType rule = TARGET_ROUTES
              \<and> normalizeSensitiveRouteIds env (map (\<lambda>q. JNum (Fin q)) (channelIds rule)) = []
              \<and> normalizeSensitiveGroupCodes env (map JStr (groupCodes rule)) = []
      then Some TARGET_ROUTES else None)"

section \<open>Expansion of the rule cards\<close>

type_synonym SensitiveRuleExpansionState = "(jstr \<times> bool) list"

definition getInitialSensitiveRuleExpansion :: "RuleEnv \<Rightarrow> SensitiveRuleDraft list \<Rightarrow> SensitiveRuleExpansionState" where
  "getInitialSensitiveRuleExpansion env rules =
     fold (\<lambda>rule acc. obj_set (draft_id rule) True acc)
       (filter (\<lambda>rule. getEmptySensitiveRuleTarget env rule \<noteq> None) rules) []"

definition toggleSensitiveRuleExpansion :: "SensitiveRuleExpansionState \<Rightarrow> jstr \<Rightarrow> SensitiveRuleExpansionState" where
  "toggleSensitiveRuleExpansion current ruleId =
     obj_set ruleId (map_of current ruleId \<noteq> Some True) current"

definition expandInvalidSensitiveRule ::
  "RuleEnv \<Rightarrow> SensitiveRuleExpansionState \<Rightarrow> SensitiveRuleDraft \<Rightarrow> SensitiveRuleExpansionState" where
  "expandInvalidSensitiveRule env current rule =
     (if getEmptySensitiveRuleTarget env rule = None \<or> map_of current (draft_id rule) = Some True then current
      else obj_set (draft_id rule) True current)"

definition removeSensitiveRuleExpansion :: "SensitiveRuleExpansionState \<Rightarrow> jstr \<Rightarrow> SensitiveRuleExpansionState" where
  "removeSensitiveRuleExpansion current ruleId =
     (if map_of current ruleId = None then current else filter (\<lambda>p. fst p \<noteq> ruleId) current)"

section \<open>Fixed points of normalisation\<close>

lemma replace_crlf_line:
  "10 \<notin> set k \<Longrightarrow> k = [] \<or> last k \<noteq> 13 \<Longrightarrow> replace_crlf (k @ 10 # s) = k @ replace_crlf (10 # s)"
proof (induction k rule: replace_crlf.induct)
  case (1 c d k)
  then show ?case by (auto split: if_splits)
qed auto

lemma replace_crlf_lf: "replace_crlf (10 # s) = 10 # replace_crlf s"
  by (cases s) auto

lemma replace_crlf_none: "10 \<notin> set k \<Longrightarrow> replace_crlf k = k"
  by (induction k rule: replace_crlf.induct) auto

definition line :: "jstr \<Rightarrow> bool" where
  "line k \<longleftrightarrow> k \<noteq> [] \<and> trim k = k \<and> 10 \<notin> set k"

lemma line_last: "line k \<Longrightarrow> last k \<noteq> 13"
  using trim_last_not_space[of k] by (auto simp: line_def is_space_def js_spaces_def)

lemma replace_crlf_lines: "list_all line ks \<Longrightarrow> replace_crlf (join [10] ks) = join [10] ks"
proof (induction ks)
  case (Cons p ps)
  then have p: "10 \<notin> set p" "p = [] \<or> last p \<noteq> 13" using line_last[of p] by (auto simp: line_def)
  show ?case
  proof (cases ps)
    case (Cons q qs)
    then have "join [10] (p # ps) = p @ 10 # join [10] ps" by simp
    with replace_crlf_line[OF p] Cons.IH Cons.prems show ?thesis by (simp add: replace_crlf_lf)
  qed (use p in \<open>simp add: replace_crlf_none\<close>)
qed simp

lemma split_lines: "list_all line ks \<Longrightarrow> filter (\<lambda>k. k \<noteq> []) (map trim (split_on 10 (replace_crlf (join [10] ks)))) = ks"
proof -
  assume l: "list_all line ks"
  show ?thesis
  proof (cases "ks = []")
    case False
    then have "split_on 10 (join [10] ks) = ks" using l by (intro split_join) (auto simp: list_all_iff line_def)
    moreover have "map trim ks = ks" using l by (intro map_idI) (simp add: list_all_iff line_def)
    moreover have "filter (\<lambda>k. k \<noteq> []) ks = ks" using l by (intro filter_True) (simp add: list_all_iff line_def)
    ultimately show ?thesis using replace_crlf_lines[OF l] by simp
  qed simp
qed

lemma split_keywords_lines: "list_all line (splitSensitiveKeywords env v)"
proof -
  have "line k" if k: "k \<in> set (splitSensitiveKeywords env v)" for k
  proof -
    obtain p where p: "p \<in> set (split_on 10 (replace_crlf v))" "k = trim p" "k \<noteq> []"
      using subsetD[OF set_dedup_subset k[unfolded splitSensitiveKeywords_def]] by auto
    then have "10 \<notin> set k" using split_on_parts[OF p(1)] set_trim_subset[of p] by auto
    with p show ?thesis by (simp add: line_def)
  qed
  then show ?thesis by (simp add: list_all_iff)
qed

lemma split_join_keywords:
  "splitSensitiveKeywords env (join [10] (splitSensitiveKeywords env v)) = splitSensitiveKeywords env v"
  unfolding splitSensitiveKeywords_def[of env "join _ _"] split_lines[OF split_keywords_lines]
  unfolding splitSensitiveKeywords_def by simp

lemma group_refs_trimmed: "r \<in> set (normalizeGroupRefs env refs) \<Longrightarrow> r \<noteq> [] \<and> trim r = r"
  using set_dedup_subset[of "lower env"] by (fastforce simp: normalizeGroupRefs_def)

lemma group_refs_fixed:
  "normalizeGroupRefs env (Some (normalizeGroupRefs env refs)) = normalizeGroupRefs env refs"
proof -
  let ?n = "normalizeGroupRefs env refs"
  have "map trim ?n = ?n" by (intro map_idI) (simp add: group_refs_trimmed)
  moreover have "filter (\<lambda>r. r \<noteq> []) ?n = ?n" by (intro filter_True) (simp add: group_refs_trimmed)
  moreover have "dedup_by (lower env) ?n = ?n" by (simp add: normalizeGroupRefs_def)
  ultimately show ?thesis by (simp add: normalizeGroupRefs_def[of env "Some ?n"])
qed

lemma sort_sort [simp]: "sort (sort xs) = sort xs"
  by (simp add: sorted_sort_id)

lemma tags_fixed:
  "normalizeSensitiveChannelTags env (map JStr (normalizeSensitiveChannelTags env ts)) = normalizeSensitiveChannelTags env ts"
proof -
  let ?n = "normalizeSensitiveChannelTags env ts"
  have t: "t \<noteq> [] \<and> trim t = t" if "t \<in> set ?n" for t
    using that by (auto simp: normalizeSensitiveChannelTags_def tag_text_def)
  have "map (tag_text env) (map JStr ?n) = ?n" using t by (simp add: tag_text_def map_idI)
  moreover have "filter (\<lambda>t. t \<noteq> []) ?n = ?n" using t by (intro filter_True) auto
  moreover have "sort (js_unique ?n) = ?n" by (simp add: normalizeSensitiveChannelTags_def)
  ultimately show ?thesis by (simp only: normalizeSensitiveChannelTags_def[of env "map JStr ?n"])
qed

lemma codes_fixed:
  "normalizeSensitiveGroupCodes env (map JStr (normalizeSensitiveGroupCodes env cs)) = normalizeSensitiveGroupCodes env cs"
proof -
  let ?n = "normalizeSensitiveGroupCodes env cs"
  have t: "t \<noteq> [] \<and> trim t = t \<and> lower env t \<noteq> js ''auto''" if "t \<in> set ?n" for t
    using that by (auto simp: normalizeSensitiveGroupCodes_def tag_text_def)
  have "map (tag_text env) (map JStr ?n) = ?n" using t by (simp add: tag_text_def map_idI)
  moreover have "filter (\<lambda>t. t \<noteq> [] \<and> lower env t \<noteq> js ''auto'') ?n = ?n" using t by (intro filter_True) auto
  moreover have "sort (js_unique ?n) = ?n" by (simp add: normalizeSensitiveGroupCodes_def)
  ultimately show ?thesis by (simp only: normalizeSensitiveGroupCodes_def[of env "map JStr ?n"])
qed

lemma ids_positive:
  "q \<in> set (normalizeSensitiveRouteIds env ids) \<Longrightarrow> is_integer (Fin q) \<and> 0 < q"
proof -
  assume "q \<in> set (normalizeSensitiveRouteIds env ids)"
  then obtain n where "is_integer n" "num_less (Fin 0) n" "q = fin_of n"
    by (auto simp: normalizeSensitiveRouteIds_def)
  then show ?thesis by (cases n) auto
qed

lemma ids_distinct: "distinct (normalizeSensitiveRouteIds env ids)"
proof -
  have "inj_on fin_of {n. is_integer n}" by (rule inj_onI) (auto elim!: is_integer.elims)
  then have "distinct (map fin_of (js_unique (filter (\<lambda>n. is_integer n \<and> num_less (Fin 0) n) (map (route_id env) ids))))"
    by (auto simp: distinct_map intro: inj_on_subset)
  then show ?thesis by (simp add: normalizeSensitiveRouteIds_def)
qed

lemma ids_fixed:
  "normalizeSensitiveRouteIds env (map (\<lambda>q. JNum (Fin q)) (normalizeSensitiveRouteIds env ids)) = normalizeSensitiveRouteIds env ids"
proof -
  let ?n = "normalizeSensitiveRouteIds env ids"
  have "map (route_id env) (map (\<lambda>q. JNum (Fin q)) ?n) = map Fin ?n" by (simp add: route_id_def)
  moreover have "filter (\<lambda>n. is_integer n \<and> num_less (Fin 0) n) (map Fin ?n) = map Fin ?n"
    using ids_positive by (intro filter_True) auto
  moreover have "js_unique (map Fin ?n) = map Fin ?n"
    using ids_distinct by (intro js_unique_fixed) (simp add: distinct_map inj_on_def)
  moreover have "map fin_of (map Fin ?n) = ?n" by (simp add: comp_def)
  moreover have "sort ?n = ?n" by (simp add: normalizeSensitiveRouteIds_def)
  ultimately show ?thesis by (simp only: normalizeSensitiveRouteIds_def[of env "map _ ?n"])
qed

lemmas normal_forms = split_join_keywords group_refs_fixed tags_fixed codes_fixed ids_fixed

lemma known_idem [simp]:
  "known_action (Some (known_action a)) = known_action a"
  "known_scope (Some (known_scope sc)) = known_scope sc"
  "known_target (Some (known_target t)) = known_target t"
  by (auto simp: known_action_def known_scope_def known_target_def ACTION_MASK_def ACTION_BLOCK_def SCOPE_REQUEST_def
      SCOPE_RESPONSE_def SCOPE_BOTH_def TARGET_ROUTES_def TARGET_ALL_def TARGET_CHANNEL_TAGS_def)

lemma str_or_fixed: "a \<noteq> [] \<Longrightarrow> str_or (Some (str_or (Some a) b)) c = a"
  by (cases a) auto

lemma trimmed_default: "trim DEFAULT_REPLACEMENT = DEFAULT_REPLACEMENT" "DEFAULT_REPLACEMENT \<noteq> []"
  by code_simp+

lemma replacement_fixed:
  "str_or (map_option trim (Some (str_or (Some (str_or (map_option trim r) DEFAULT_REPLACEMENT)) DEFAULT_REPLACEMENT)))
     DEFAULT_REPLACEMENT = str_or (map_option trim r) DEFAULT_REPLACEMENT"
  by (cases r; cases "trim (the r) = []") (auto simp: trimmed_default)

section \<open>Storing and loading a rule\<close>

definition fallback_name :: "jstr list \<Rightarrow> jstr list \<Rightarrow> jstr" where
  "fallback_name ks rs = (case ks of k # _ \<Rightarrow> k | [] \<Rightarrow> (case rs of r # _ \<Rightarrow> r | [] \<Rightarrow> []))"

lemma fallback_name_trimmed:
  assumes "splitSensitiveKeywords env v \<noteq> [] \<or> normalizeGroupRefs env refs \<noteq> []"
  shows "trim (fallback_name (splitSensitiveKeywords env v) (normalizeGroupRefs env refs))
           = fallback_name (splitSensitiveKeywords env v) (normalizeGroupRefs env refs)"
proof (cases "splitSensitiveKeywords env v")
  case Nil
  then show ?thesis using assms group_refs_trimmed[of _ env refs]
    by (cases "normalizeGroupRefs env refs") (auto simp: fallback_name_def)
next
  case (Cons k ks)
  with split_keywords_lines[of env v] show ?thesis by (simp add: fallback_name_def line_def)
qed

lemma name_fixed: "trim fb = fb \<Longrightarrow>
  str_or (Some (trim (str_or (Some (trim nm)) fb))) fb = str_or (Some (trim nm)) fb"
  by (cases "trim nm = []") (auto simp: str_or_def)

lemma no_refs [simp]: "normalizeGroupRefs env None = []"
  by (simp add: normalizeGroupRefs_def)

lemma refs_fixed:
  "normalizeGroupRefs env (Some (normalizeGroupRefs env (if normalizeGroupRefs env refs \<noteq> []
      then Some (normalizeGroupRefs env refs) else None))) = normalizeGroupRefs env refs"
  by (auto simp: group_refs_fixed)

text \<open>The rule stored for a draft that has words or references, with identifier \<open>i\<close>.\<close>

definition stored_rule :: "RuleEnv \<Rightarrow> jstr \<Rightarrow> SensitiveRuleDraft \<Rightarrow> SensitiveRule" where
  "stored_rule env i d =
     (let ks = splitSensitiveKeywords env (keywordsText d); rs = normalizeGroupRefs env (Some (groupRefs d));
          t = known_target (Some (targetType d)); a = known_action (Some (draft_action d)) in
      \<lparr>rule_id = Some i, rule_name = Some (str_or (Some (trim (draft_name d))) (fallback_name ks rs)),
       rule_enabled = Some (draft_enabled d), rule_action = Some a, rule_scope = Some (known_scope (draft_scope d)),
       rule_replacement = (if a = ACTION_MASK
         then Some (str_or (map_option trim (draft_replacement d)) DEFAULT_REPLACEMENT) else None),
       rule_keywords = Some ks, group_refs = (if rs \<noteq> [] then Some rs else None), target_type = Some t,
       channel_ids = (if t = TARGET_ROUTES then Some (map (\<lambda>q. JNum (Fin q))
         (normalizeSensitiveRouteIds env (map (\<lambda>q. JNum (Fin q)) (channelIds d)))) else None),
       channel_tags = (if t = TARGET_CHANNEL_TAGS
         then Some (map JStr (normalizeSensitiveChannelTags env (map JStr (channelTags d)))) else None),
       group_codes = (if t = TARGET_ROUTES
         then Some (map JStr (normalizeSensitiveGroupCodes env (map JStr (groupCodes d)))) else None)\<rparr>)"

definition has_content :: "RuleEnv \<Rightarrow> SensitiveRuleDraft \<Rightarrow> bool" where
  "has_content env d \<longleftrightarrow> splitSensitiveKeywords env (keywordsText d) \<noteq> [] \<or> normalizeGroupRefs env (Some (groupRefs d)) \<noteq> []"

definition stored_id :: "RuleEnv \<Rightarrow> nat \<Rightarrow> SensitiveRuleDraft \<Rightarrow> jstr" where
  "stored_id env n d = str_or (Some (draft_id d)) (str_or (Some (lower env (fallback_name
     (splitSensitiveKeywords env (keywordsText d)) (normalizeGroupRefs env (Some (groupRefs d)))))) (nanoid env n))"

lemma normalize_stored:
  "normalizeSensitiveRule env n d = (if has_content env d then Some (stored_rule env (stored_id env n d) d) else None)"
  by (simp add: normalizeSensitiveRule_def has_content_def stored_rule_def stored_id_def Let_def fallback_name_def)

text \<open>The draft made from a stored rule agrees with the first draft in everything that is stored.\<close>

lemma stored_draft_fields:
  fixes env d i l legacy
  defines "d' \<equiv> rule_to_draft env l legacy (stored_rule env i d)"
  shows "splitSensitiveKeywords env (keywordsText d') = splitSensitiveKeywords env (keywordsText d)"
    "normalizeGroupRefs env (Some (groupRefs d')) = normalizeGroupRefs env (Some (groupRefs d))"
    "known_action (Some (draft_action d')) = known_action (Some (draft_action d))"
    "known_scope (draft_scope d') = known_scope (draft_scope d)"
    "known_target (Some (targetType d')) = known_target (Some (targetType d))"
    "draft_enabled d' = draft_enabled d"
  by (simp_all add: d'_def rule_to_draft_def stored_rule_def or_empty_def normal_forms Let_def refs_fixed[simplified])

lemma stored_draft_targets:
  fixes env d i l legacy
  defines "d' \<equiv> rule_to_draft env l legacy (stored_rule env i d)"
  shows "known_target (Some (targetType d)) = TARGET_ROUTES \<Longrightarrow>
      normalizeSensitiveRouteIds env (map (\<lambda>q. JNum (Fin q)) (channelIds d'))
        = normalizeSensitiveRouteIds env (map (\<lambda>q. JNum (Fin q)) (channelIds d))"
    "known_target (Some (targetType d)) = TARGET_ROUTES \<Longrightarrow>
      normalizeSensitiveGroupCodes env (map JStr (groupCodes d')) = normalizeSensitiveGroupCodes env (map JStr (groupCodes d))"
    "known_target (Some (targetType d)) = TARGET_CHANNEL_TAGS \<Longrightarrow>
      normalizeSensitiveChannelTags env (map JStr (channelTags d')) = normalizeSensitiveChannelTags env (map JStr (channelTags d))"
    "known_action (Some (draft_action d)) = ACTION_MASK \<Longrightarrow>
      str_or (map_option trim (draft_replacement d')) DEFAULT_REPLACEMENT
        = str_or (map_option trim (draft_replacement d)) DEFAULT_REPLACEMENT"
  using replacement_fixed[of "draft_replacement d"]
  by (simp_all add: d'_def rule_to_draft_def stored_rule_def or_empty_def normal_forms Let_def)

lemma stored_draft_name:
  assumes "has_content env d"
  shows "str_or (Some (trim (draft_name (rule_to_draft env l legacy (stored_rule env i d)))))
      (fallback_name (splitSensitiveKeywords env (keywordsText d)) (normalizeGroupRefs env (Some (groupRefs d))))
    = str_or (Some (trim (draft_name d)))
      (fallback_name (splitSensitiveKeywords env (keywordsText d)) (normalizeGroupRefs env (Some (groupRefs d))))"
  using assms name_fixed[OF fallback_name_trimmed]
  by (simp add: rule_to_draft_def stored_rule_def Let_def has_content_def)

text \<open>A rule that was saved and is loaded into the form is saved again as it was: its words, references
  and targets, its action, scope and replacement, its name and its identifier, whatever the old
  settings that only rules without a target fall back to.\<close>

lemma saved_rule_survives:
  assumes "normalizeSensitiveRule env n d = Some r" "rule_id r \<noteq> Some []"
  shows "normalizeSensitiveRule env m (rule_to_draft env l legacy r) = Some r"
proof -
  define i where "i = stored_id env n d"
  have c: "has_content env d" and r: "r = stored_rule env i d"
    using assms(1) by (auto simp: normalize_stored i_def split: if_splits)
  define d' where "d' = rule_to_draft env l legacy (stored_rule env i d)"
  note f = stored_draft_fields[of env l legacy i d, folded d'_def] stored_draft_name[OF c, of l legacy i, folded d'_def]
  note t = stored_draft_targets[of d env l legacy i, folded d'_def]
  have "i \<noteq> []" using assms(2) r by (simp add: stored_rule_def Let_def)
  then have "stored_id env m d' = i" by (simp add: d'_def stored_id_def rule_to_draft_def stored_rule_def Let_def)
  moreover have "has_content env d'" using c by (simp add: has_content_def f)
  moreover have "stored_rule env i d' = stored_rule env i d" using t by (simp add: stored_rule_def Let_def f)
  ultimately show ?thesis using r by (simp add: normalize_stored d'_def)
qed

text \<open>The form's test for a missing target is sound and complete on the targets it offers: an enabled
  draft with words or references passes exactly when the rule stored for it applies to something,
  to every route, to a tag, to a channel or to a group.\<close>

lemma empty_target_test:
  assumes "targetType d \<in> {TARGET_ROUTES, TARGET_CHANNEL_TAGS, TARGET_ALL}" "draft_enabled d"
    and "normalizeSensitiveRule env n d = Some r"
  shows "getEmptySensitiveRuleTarget env d = None \<longleftrightarrow>
     target_type r = Some TARGET_ALL \<or> (\<exists>x xs. channel_tags r = Some (x # xs))
     \<or> (\<exists>x xs. channel_ids r = Some (x # xs)) \<or> (\<exists>x xs. group_codes r = Some (x # xs))"
proof -
  have c: "has_content env d" and r: "r = stored_rule env (stored_id env n d) d"
    using assms(3) by (auto simp: normalize_stored split: if_splits)
  have t: "TARGET_ROUTES \<noteq> TARGET_CHANNEL_TAGS" "TARGET_ROUTES \<noteq> TARGET_ALL" "TARGET_CHANNEL_TAGS \<noteq> TARGET_ALL"
    by (simp_all add: TARGET_ROUTES_def TARGET_ALL_def TARGET_CHANNEL_TAGS_def)
  have e: "(\<exists>x xs. map f ys = x # xs) \<longleftrightarrow> ys \<noteq> []" for f and ys :: "'a list" by (cases ys) auto
  have k: "known_target (Some (targetType d)) = targetType d" using assms(1) by (auto simp: known_target_def)
  show ?thesis
    using assms(1,2) c t
    by (auto simp: r stored_rule_def getEmptySensitiveRuleTarget_def has_content_def Let_def k neq_Nil_conv[symmetric]
        map_eq_Cons_conv)
qed

end
