(* ===== verification/Price_Variants.thy ===== *)
theory Price_Variants
  imports Js_Value
begin

text \<open>
  Price variants of a model: the validation of a configuration and its price range in the settings
  (\<open>web/src/lib/model-price-variants.ts\<close>), and the price range of the public price list
  (\<open>web/src/features/pricing/lib/fixed-price.ts\<close>, whose functions of the same name carry the suffix
  \<open>_fixed\<close> here).

  \<open>lower\<close> stands for \<open>String.prototype.toLowerCase\<close>.  Validation reads values of unknown type;
  the price functions read configurations of the declared types.
\<close>

section \<open>Data\<close>

record ModelPriceVariantRule =
  resolution :: "jstr option"
  quality :: "jstr option"
  price :: jnum

record ModelPriceExtraParamRule =
  extra_key :: jstr
  extra_base :: "jnum option"
  unit_price :: jnum

record ModelPriceFormulaConfig =
  formula_enabled :: bool
  expression :: "jstr option"
  variables :: "(jstr \<times> jnum) list option"
  defaults :: "(jstr \<times> jstr) list option"

record ModelPriceVariantConfig =
  resolution_enabled :: bool
  quality_enabled :: bool
  rules :: "ModelPriceVariantRule list option"
  extra_params :: "ModelPriceExtraParamRule list option"
  formula :: "ModelPriceFormulaConfig option"
  inherited :: "bool option"

record ModelPriceVariantRange =
  minimum :: rat
  maximum :: rat
  hasVariants :: bool

section \<open>Normal names\<close>

fun isRecord :: "jval \<Rightarrow> bool" where
  "isRecord (JObj ps) = True"
| "isRecord _ = False"

definition resolution_aliases :: "(jstr \<times> jstr) list" where
  "resolution_aliases = map (\<lambda>(a, b). (js a, js b))
     [(''480'', ''480p''), (''480p'', ''480p''), (''sd'', ''480p''),
      (''720'', ''720p''), (''720p'', ''720p''), (''hd'', ''720p''),
      (''1080'', ''1080p''), (''1080p'', ''1080p''), (''fhd'', ''1080p''), (''full-hd'', ''1080p''), (''full_hd'', ''1080p''),
      (''2k'', ''2k''), (''4k'', ''4k'')]"

definition normalizeModelPriceVariantResolution :: "(jstr \<Rightarrow> jstr) \<Rightarrow> jstr \<Rightarrow> jstr" where
  "normalizeModelPriceVariantResolution lower v =
     (let normalized = lower (trim v) in
      case map_of resolution_aliases normalized of None \<Rightarrow> normalized | Some r \<Rightarrow> r)"

definition normalizeModelPriceVariantQuality :: "(jstr \<Rightarrow> jstr) \<Rightarrow> jstr \<Rightarrow> jstr" where
  "normalizeModelPriceVariantQuality lower v = lower (trim v)"

definition normalizeModelPriceExtraParamKey :: "(jstr \<Rightarrow> jstr) \<Rightarrow> jstr \<Rightarrow> jstr" where
  "normalizeModelPriceExtraParamKey lower v = lower (trim v)"

definition replace_unit :: "code_unit \<Rightarrow> code_unit \<Rightarrow> jstr \<Rightarrow> jstr" where
  "replace_unit a b s = map (\<lambda>c. if c = a then b else c) s"

definition normalizeModelPriceFormulaName :: "(jstr \<Rightarrow> jstr) \<Rightarrow> jstr \<Rightarrow> jstr" where
  "normalizeModelPriceFormulaName lower v = replace_unit 46 95 (replace_unit 45 95 (lower (trim v)))"

definition getModelPriceVariantCombinationKey :: "(jstr \<Rightarrow> jstr) \<Rightarrow> jstr \<Rightarrow> jstr \<Rightarrow> jstr" where
  "getModelPriceVariantCombinationKey lower res qual =
     normalizeModelPriceVariantResolution lower res @ [0] @ normalizeModelPriceVariantQuality lower qual"

definition strip_slashes :: "jstr \<Rightarrow> jstr" where
  "strip_slashes s = rev (dropWhile (\<lambda>c. c = 47) (rev (dropWhile (\<lambda>c. c = 47) s)))"

definition normalizeModelPriceRoute :: "(jstr \<Rightarrow> jstr) \<Rightarrow> jstr \<Rightarrow> jstr" where
  "normalizeModelPriceRoute lower route =
     (let normalized = replace_unit 47 46 (replace_unit 95 46 (strip_slashes (lower (trim route)))) in
      if normalized \<in> set (map js [''edit'', ''edits'', ''image.edits'', ''images.edits'', ''v1.images.edits'',
           ''canvas.v1.images.edits'']) then js ''image.edit'' else normalized)"

section \<open>Validation\<close>

definition is_price :: "jval \<Rightarrow> bool" where
  "is_price v \<longleftrightarrow> (case v of JNum (Fin q) \<Rightarrow> q \<ge> 0 | _ \<Rightarrow> False)"

definition isModelPriceVariantRule :: "jval \<Rightarrow> bool" where
  "isModelPriceVariantRule v \<longleftrightarrow>
     isRecord v \<and> opt_is is_string (jget v (js ''resolution'')) \<and> opt_is is_string (jget v (js ''quality''))
     \<and> is_price (jget v (js ''price''))"

definition isModelPriceExtraParamRule :: "(jstr \<Rightarrow> jstr) \<Rightarrow> jval \<Rightarrow> bool" where
  "isModelPriceExtraParamRule lower v \<longleftrightarrow>
     isRecord v
     \<and> is_string (jget v (js ''key'')) \<and> normalizeModelPriceExtraParamKey lower (str_of (jget v (js ''key''))) \<noteq> []
     \<and> opt_is is_price (jget v (js ''base'')) \<and> is_price (jget v (js ''unit_price''))"

definition is_finite_number :: "jval \<Rightarrow> bool" where
  "is_finite_number v \<longleftrightarrow> is_number v \<and> is_finite (num_of v)"

definition named_values :: "(jstr \<Rightarrow> jstr) \<Rightarrow> (jval \<Rightarrow> bool) \<Rightarrow> jval \<Rightarrow> bool" where
  "named_values lower P v \<longleftrightarrow>
     isRecord v \<and> list_all (\<lambda>(k, x). normalizeModelPriceFormulaName lower k \<noteq> [] \<and> P x) (props_of v)"

definition isModelPriceFormulaConfig :: "(jstr \<Rightarrow> jstr) \<Rightarrow> jval \<Rightarrow> bool" where
  "isModelPriceFormulaConfig lower v \<longleftrightarrow>
     isRecord v \<and> is_boolean (jget v (js ''enabled'')) \<and> opt_is is_string (jget v (js ''expression''))
     \<and> opt_is (named_values lower is_finite_number) (jget v (js ''variables''))
     \<and> opt_is (named_values lower is_string) (jget v (js ''defaults''))
     \<and> \<not> (bool_of (jget v (js ''enabled'')) \<and> trim (str_of (jget v (js ''expression''))) = [])"

definition arr_or_empty :: "jval \<Rightarrow> jval list" where
  "arr_or_empty v = (case v of JArr vs \<Rightarrow> vs | _ \<Rightarrow> [])"

text \<open>\<open>rule.resolution ?? ''\<close> and the like, for a rule that was found well formed.\<close>

definition text_prop :: "jval \<Rightarrow> jstr \<Rightarrow> jstr" where
  "text_prop rule k = str_of (jget rule k)"

definition rule_combination :: "(jstr \<Rightarrow> jstr) \<Rightarrow> bool \<Rightarrow> bool \<Rightarrow> jval \<Rightarrow> jstr \<times> jstr" where
  "rule_combination lower by_resolution by_quality rule =
     (if by_resolution then normalizeModelPriceVariantResolution lower (text_prop rule (js ''resolution'')) else [],
      if by_quality then normalizeModelPriceVariantQuality lower (text_prop rule (js ''quality'')) else [])"

text \<open>The loop over the rules with the set of combinations seen.\<close>

fun combinations_ok :: "(jstr \<Rightarrow> jstr) \<Rightarrow> bool \<Rightarrow> bool \<Rightarrow> jval list \<Rightarrow> jstr list \<Rightarrow> bool" where
  "combinations_ok lower by_r by_q [] seen = True"
| "combinations_ok lower by_r by_q (rule # rs) seen =
     (let (res, qual) = rule_combination lower by_r by_q rule in
      if by_r \<and> res = [] then False
      else if by_q \<and> qual = [] then False
      else if res @ [0] @ qual \<in> set seen then False
      else combinations_ok lower by_r by_q rs ((res @ [0] @ qual) # seen))"

fun extra_keys_ok :: "(jstr \<Rightarrow> jstr) \<Rightarrow> jval list \<Rightarrow> jstr list \<Rightarrow> bool" where
  "extra_keys_ok lower [] seen = True"
| "extra_keys_ok lower (rule # rs) seen =
     (let k = normalizeModelPriceExtraParamKey lower (text_prop rule (js ''key'')) in
      if k \<in> set seen then False else extra_keys_ok lower rs (k # seen))"

definition isModelPriceVariantConfig :: "(jstr \<Rightarrow> jstr) \<Rightarrow> jval \<Rightarrow> bool" where
  "isModelPriceVariantConfig lower v =
     (if \<not> isRecord v then False
      else if \<not> is_boolean (jget v (js ''resolution_enabled'')) then False
      else if \<not> is_boolean (jget v (js ''quality_enabled'')) then False
      else if \<not> opt_is is_boolean (jget v (js ''inherited'')) then False
      else if \<not> opt_is is_array (jget v (js ''rules'')) then False
      else if \<not> opt_is is_array (jget v (js ''extra_params'')) then False
      else if \<not> opt_is (isModelPriceFormulaConfig lower) (jget v (js ''formula'')) then False
      else let rs = arr_or_empty (jget v (js ''rules'')); extraParams = arr_or_empty (jget v (js ''extra_params''));
               by_r = bool_of (jget v (js ''resolution_enabled'')); by_q = bool_of (jget v (js ''quality_enabled'')) in
        if \<not> list_all isModelPriceVariantRule rs then False
        else if \<not> list_all (isModelPriceExtraParamRule lower) extraParams then False
        else if \<not> extra_keys_ok lower extraParams [] then False
        else if \<not> by_r \<and> \<not> by_q then True
        else if rs = [] then False
        else combinations_ok lower by_r by_q rs [])"

definition isModelPriceVariantsMap :: "(jstr \<Rightarrow> jstr) \<Rightarrow> jval \<Rightarrow> bool" where
  "isModelPriceVariantsMap lower v \<longleftrightarrow>
     isRecord v \<and> list_all (\<lambda>(modelName, config). trim modelName \<noteq> [] \<and> isModelPriceVariantConfig lower config) (props_of v)"

definition isModelRoutePriceVariantsMap :: "(jstr \<Rightarrow> jstr) \<Rightarrow> jval \<Rightarrow> bool" where
  "isModelRoutePriceVariantsMap lower v \<longleftrightarrow>
     isRecord v \<and> list_all (\<lambda>(modelName, routes). trim modelName \<noteq> [] \<and> isRecord routes
       \<and> list_all (\<lambda>(route, config). normalizeModelPriceRoute lower route \<noteq> [] \<and> isModelPriceVariantConfig lower config)
           (props_of routes)) (props_of v)"

definition isGrokImagineVideoModel :: "(jstr \<Rightarrow> jstr) \<Rightarrow> jstr \<Rightarrow> bool" where
  "isGrokImagineVideoModel lower modelName \<longleftrightarrow> prefix (js ''grok-imagine-video'') (lower (trim modelName))"

section \<open>Price ranges\<close>

definition getModelPriceVariantRules :: "ModelPriceVariantConfig option \<Rightarrow> ModelPriceVariantRule list" where
  "getModelPriceVariantRules config =
     (case config of None \<Rightarrow> [] | Some c \<Rightarrow> (case rules c of None \<Rightarrow> [] | Some rs \<Rightarrow> rs))"

definition active_formula :: "ModelPriceVariantConfig \<Rightarrow> bool" where
  "active_formula c \<longleftrightarrow> (case formula c of None \<Rightarrow> False
     | Some f \<Rightarrow> formula_enabled f \<and> str_truthy (map_option trim (expression f)))"

definition hasActiveModelPriceVariants :: "ModelPriceVariantConfig option \<Rightarrow> bool" where
  "hasActiveModelPriceVariants config =
     (case config of
        None \<Rightarrow> False
      | Some c \<Rightarrow> ((resolution_enabled c \<or> quality_enabled c) \<and> length (getModelPriceVariantRules config) > 0)
                 \<or> active_formula c)"

definition cloneModelPriceVariantConfig :: "ModelPriceVariantConfig \<Rightarrow> bool option \<Rightarrow> ModelPriceVariantConfig" where
  "cloneModelPriceVariantConfig c inh = \<lparr>resolution_enabled = resolution_enabled c, quality_enabled = quality_enabled c,
     rules = map_option (map (\<lambda>r. r)) (rules c), extra_params = map_option (map (\<lambda>r. r)) (extra_params c),
     formula = map_option (\<lambda>f. \<lparr>formula_enabled = formula_enabled f, expression = expression f,
       variables = variables f, defaults = defaults f\<rparr>) (formula c),
     inherited = inh\<rparr>"

definition base_price :: "jnum option \<Rightarrow> rat" where
  "base_price b = (case b of Some (Fin q) \<Rightarrow> max q 0 | _ \<Rightarrow> 0)"

definition valid_price :: "ModelPriceVariantRule \<Rightarrow> bool" where
  "valid_price r \<longleftrightarrow> is_finite (price r) \<and> num_le (Fin 0) (price r)"

fun finite_value :: "jnum \<Rightarrow> rat" where
  "finite_value (Fin q) = q"
| "finite_value _ = 0"

definition list_min :: "rat list \<Rightarrow> rat" where "list_min xs = fold min (tl xs) (hd xs)"
definition list_max :: "rat list \<Rightarrow> rat" where "list_max xs = fold max (tl xs) (hd xs)"

definition getModelPriceVariantRange :: "jnum option \<Rightarrow> ModelPriceVariantConfig option \<Rightarrow> ModelPriceVariantRange" where
  "getModelPriceVariantRange basePrice config =
     (let rs = (if hasActiveModelPriceVariants config then filter valid_price (getModelPriceVariantRules config) else []);
          prices = base_price basePrice # map (\<lambda>r. finite_value (price r)) rs
      in \<lparr>minimum = list_min prices, maximum = list_max prices, hasVariants = (length rs > 0)\<rparr>)"

section \<open>The public price list\<close>

definition getModelPriceVariantRules_fixed :: "ModelPriceVariantConfig option \<Rightarrow> ModelPriceVariantRule list" where
  "getModelPriceVariantRules_fixed config =
     filter valid_price (case config of None \<Rightarrow> [] | Some c \<Rightarrow> (case rules c of None \<Rightarrow> [] | Some rs \<Rightarrow> rs))"

definition hasActiveModelPriceVariants_fixed :: "ModelPriceVariantConfig option \<Rightarrow> bool" where
  "hasActiveModelPriceVariants_fixed config =
     (case config of
        None \<Rightarrow> False
      | Some c \<Rightarrow> (resolution_enabled c \<or> quality_enabled c) \<and> length (getModelPriceVariantRules_fixed config) > 0)"

definition rule_prices :: "ModelPriceVariantConfig option \<Rightarrow> rat list" where
  "rule_prices config = map (\<lambda>r. finite_value (price r)) (getModelPriceVariantRules_fixed config)"

definition getFixedPriceRange ::
  "jnum option \<Rightarrow> ModelPriceVariantConfig option \<Rightarrow> (jstr \<times> ModelPriceVariantConfig) list \<Rightarrow> ModelPriceVariantRange" where
  "getFixedPriceRange basePrice variants routeVariants =
     (let prices = [base_price basePrice]; has = False;
          (prices, has) = (if hasActiveModelPriceVariants_fixed variants then (prices @ rule_prices variants, True) else (prices, has));
          (prices, has) = foldl (\<lambda>(ps, h) (route, config).
            if \<not> hasActiveModelPriceVariants_fixed (Some config) then (ps, h) else (ps @ rule_prices (Some config), True))
            (prices, has) routeVariants
      in \<lparr>minimum = list_min prices, maximum = list_max prices, hasVariants = has\<rparr>)"

section \<open>Properties\<close>

lemma combinations_ok_spec:
  "combinations_ok lower r q rs seen \<Longrightarrow>
     distinct (map (rule_combination lower r q) rs)
     \<and> (\<forall>x \<in> set rs. case rule_combination lower r q x of (a, b) \<Rightarrow>
          (r \<longrightarrow> a \<noteq> []) \<and> (q \<longrightarrow> b \<noteq> []) \<and> a @ [0] @ b \<notin> set seen)"
proof (induction rs arbitrary: seen)
  case (Cons x xs)
  obtain a b where x: "rule_combination lower r q x = (a, b)" by (cases "rule_combination lower r q x")
  with Cons.prems have c: "r \<longrightarrow> a \<noteq> []" "q \<longrightarrow> b \<noteq> []" "a @ [0] @ b \<notin> set seen"
    "combinations_ok lower r q xs ((a @ [0] @ b) # seen)"
    by (auto simp: Let_def split: if_splits)
  from Cons.IH[OF c(4)] have ih: "distinct (map (rule_combination lower r q) xs)"
    "\<forall>y \<in> set xs. case rule_combination lower r q y of (a', b') \<Rightarrow>
       (r \<longrightarrow> a' \<noteq> []) \<and> (q \<longrightarrow> b' \<noteq> []) \<and> a' @ [0] @ b' \<notin> set ((a @ [0] @ b) # seen)" by auto
  then have "(a, b) \<notin> rule_combination lower r q ` set xs" by force
  with ih c x show ?case by (auto split: prod.splits)
qed simp

lemma list_min_le: "x \<in> set xs \<Longrightarrow> list_min xs \<le> x"
  by (cases xs) (auto simp: list_min_def Min.set_eq_fold[symmetric])

lemma list_max_ge: "x \<in> set xs \<Longrightarrow> x \<le> list_max xs"
  by (cases xs) (auto simp: list_max_def Max.set_eq_fold[symmetric])

text \<open>A validated configuration prices by an unambiguous table: with resolution or quality enabled it
  has rules, no two rules have the same resolution and quality up to aliases and case, a dimension
  that is enabled is named in every rule, and every price is a finite number that is not negative.\<close>

lemma validated_config_unambiguous:
  assumes "isModelPriceVariantConfig lower v"
    and "r = bool_of (jget v (js ''resolution_enabled''))" "q = bool_of (jget v (js ''quality_enabled''))" "r \<or> q"
    and "rs = arr_or_empty (jget v (js ''rules''))"
  shows "rs \<noteq> [] \<and> distinct (map (rule_combination lower r q) rs)
    \<and> (\<forall>x \<in> set rs. (r \<longrightarrow> normalizeModelPriceVariantResolution lower (text_prop x (js ''resolution'')) \<noteq> [])
        \<and> (q \<longrightarrow> normalizeModelPriceVariantQuality lower (text_prop x (js ''quality'')) \<noteq> [])
        \<and> (\<exists>p \<ge> 0. jget x (js ''price'') = JNum (Fin p)))"
proof -
  have c: "rs \<noteq> []" "list_all isModelPriceVariantRule rs" "combinations_ok lower r q rs []"
    using assms by (auto simp: isModelPriceVariantConfig_def Let_def split: if_splits)
  have p: "\<exists>p \<ge> 0. jget x (js ''price'') = JNum (Fin p)" if "x \<in> set rs" for x
  proof -
    have "is_price (jget x (js ''price''))" using c(2) that by (auto simp: list_all_iff isModelPriceVariantRule_def)
    then show ?thesis by (auto simp: is_price_def split: jval.splits jnum.splits)
  qed
  from combinations_ok_spec[OF c(3)] c(1) p show ?thesis by (auto simp: rule_combination_def)
qed

text \<open>The settings and the public price list show the same price range for a configuration whose price
  formula is not active, and the range holds the base price and every price of an active rule.\<close>

lemma price_ranges_agree:
  assumes "\<not> active_formula c"
  shows "getModelPriceVariantRange b (Some c) = getFixedPriceRange b (Some c) []
    \<and> minimum (getModelPriceVariantRange b (Some c)) \<le> base_price b
    \<and> base_price b \<le> maximum (getModelPriceVariantRange b (Some c))
    \<and> (\<forall>rule \<in> set (getModelPriceVariantRules (Some c)). resolution_enabled c \<or> quality_enabled c \<longrightarrow> valid_price rule \<longrightarrow>
         minimum (getModelPriceVariantRange b (Some c)) \<le> finite_value (price rule)
         \<and> finite_value (price rule) \<le> maximum (getModelPriceVariantRange b (Some c)))"
proof (intro conjI ballI impI)
  let ?rs = "if hasActiveModelPriceVariants (Some c) then filter valid_price (getModelPriceVariantRules (Some c)) else []"
  let ?ps = "base_price b # map (\<lambda>r. finite_value (price r)) ?rs"
  have r: "getModelPriceVariantRange b (Some c) = \<lparr>minimum = list_min ?ps, maximum = list_max ?ps, hasVariants = (length ?rs > 0)\<rparr>"
    by (simp add: getModelPriceVariantRange_def Let_def)
  have f: "filter valid_price (getModelPriceVariantRules (Some c)) = getModelPriceVariantRules_fixed (Some c)"
    by (simp add: getModelPriceVariantRules_def getModelPriceVariantRules_fixed_def)
  have a: "hasActiveModelPriceVariants_fixed (Some c) \<longleftrightarrow> ?rs \<noteq> []"
    using assms f by (auto simp: hasActiveModelPriceVariants_def hasActiveModelPriceVariants_fixed_def)
  show "getModelPriceVariantRange b (Some c) = getFixedPriceRange b (Some c) []"
    unfolding r using a f by (auto simp: getFixedPriceRange_def rule_prices_def Let_def)
  show "minimum (getModelPriceVariantRange b (Some c)) \<le> base_price b"
    "base_price b \<le> maximum (getModelPriceVariantRange b (Some c))"
    unfolding r using list_min_le[of "base_price b" ?ps] list_max_ge[of "base_price b" ?ps] by simp_all
  fix rule assume "rule \<in> set (getModelPriceVariantRules (Some c))" "resolution_enabled c \<or> quality_enabled c" "valid_price rule"
  then have "finite_value (price rule) \<in> set ?ps" by (auto simp: hasActiveModelPriceVariants_def)
  then show "minimum (getModelPriceVariantRange b (Some c)) \<le> finite_value (price rule)"
    "finite_value (price rule) \<le> maximum (getModelPriceVariantRange b (Some c))"
    unfolding r using list_min_le list_max_ge by simp_all
qed

text \<open>With an active formula they differ: the settings then count the rules of dimensions that are
  switched off.\<close>

lemma formula_counts_inactive_rules:
  "let c = \<lparr>resolution_enabled = False, quality_enabled = False,
       rules = Some [\<lparr>resolution = None, quality = None, price = Fin 5\<rparr>], extra_params = None,
       formula = Some \<lparr>formula_enabled = True, expression = Some (js ''x''), variables = None, defaults = None\<rparr>,
       inherited = None\<rparr>
   in maximum (getModelPriceVariantRange (Some (Fin 1)) (Some c)) = 5 \<and> maximum (getFixedPriceRange (Some (Fin 1)) (Some c) []) = 1"
  by code_simp

end
