(* ===== verification/Js_Collections.thy ===== *)
theory Js_Collections
  imports Js_Value "HOL-Library.Multiset"
begin

text \<open>
  Arrays and maps as the larger computations of the console use them: \<open>Array.prototype.sort\<close> with a
  comparator, and the \<open>Map\<close> into which a loop adds up what it finds under each key.

  A \<open>Map\<close> is the list of its entries in insertion order.  The locale \<open>tally\<close> is the contract of such
  a loop; the programs that add up under keys interpret it.
\<close>

section \<open>Sorting with a comparator\<close>

text \<open>A comparator returns a number; negative or zero keeps the order.  The sort is stable.\<close>

type_synonym 'a comparator = "'a \<Rightarrow> 'a \<Rightarrow> rat"

text \<open>\<open>a || b\<close> on the results of two comparisons.\<close>

definition cmp_or :: "rat \<Rightarrow> rat \<Rightarrow> rat" where
  "cmp_or a b = (if a \<noteq> 0 then a else b)"

fun sort_insert :: "'a comparator \<Rightarrow> 'a \<Rightarrow> 'a list \<Rightarrow> 'a list" where
  "sort_insert cmp x [] = [x]"
| "sort_insert cmp x (y # ys) = (if cmp x y \<le> 0 then x # y # ys else y # sort_insert cmp x ys)"

definition js_sort :: "'a comparator \<Rightarrow> 'a list \<Rightarrow> 'a list" where
  "js_sort cmp xs = foldr (sort_insert cmp) xs []"

lemma mset_sort_insert: "mset (sort_insert cmp x xs) = add_mset x (mset xs)"
  by (induction xs) auto

lemma mset_js_sort [simp]: "mset (js_sort cmp xs) = mset xs"
  by (induction xs) (simp_all add: js_sort_def mset_sort_insert)

lemma set_js_sort [simp]: "set (js_sort cmp xs) = set xs"
  by (metis mset_js_sort set_mset_mset)

lemma length_js_sort [simp]: "length (js_sort cmp xs) = length xs"
  by (metis mset_js_sort size_mset)

lemma distinct_map_js_sort [simp]: "distinct (map f (js_sort cmp xs)) \<longleftrightarrow> distinct (map f xs)"
  by (metis mset_eq_imp_distinct_iff mset_js_sort mset_map)

lemma sum_list_js_sort [simp]:
  "sum_list (map f (js_sort cmp xs)) = sum_list (map (f :: 'a \<Rightarrow> 'b :: comm_monoid_add) xs)"
  by (metis mset_js_sort mset_map sum_mset_sum_list)

lemma mset_filter_js_sort: "mset (filter P (js_sort cmp xs)) = mset (filter P xs)"
  by simp

lemma sum_list_filter_js_sort [simp]:
  "sum_list (map f (filter P (js_sort cmp xs))) = sum_list (map (f :: 'a \<Rightarrow> 'b :: comm_monoid_add) (filter P xs))"
  by (metis mset_filter_js_sort mset_map sum_mset_sum_list)

text \<open>A map that the comparator does not see commutes with the sort.\<close>

lemma js_sort_map:
  assumes "\<And>a b. cmp (f a) (f b) = cmp' a b"
  shows "js_sort cmp (map f xs) = map f (js_sort cmp' xs)"
proof (induction xs)
  case (Cons x xs)
  have "sort_insert cmp (f x) (map f ys) = map f (sort_insert cmp' x ys)" for ys
    by (induction ys) (simp_all add: assms)
  with Cons show ?case by (simp add: js_sort_def)
qed (simp add: js_sort_def)

text \<open>A consistent comparator: exchanging the arguments turns the sign, and the order is transitive.
  Then the result is in order.\<close>

definition consistent_cmp :: "'a comparator \<Rightarrow> bool" where
  "consistent_cmp cmp \<longleftrightarrow> (\<forall>a b. sgn (cmp b a) = - sgn (cmp a b))
     \<and> (\<forall>a b c. cmp a b \<le> 0 \<longrightarrow> cmp b c \<le> 0 \<longrightarrow> cmp a c \<le> 0)"

lemma consistent_sgn: "consistent_cmp cmp \<Longrightarrow> sgn (cmp b a) = - sgn (cmp a b)"
  unfolding consistent_cmp_def by blast

lemma consistent_flip:
  assumes "consistent_cmp cmp"
  shows "0 < cmp a b \<longleftrightarrow> cmp b a < 0" "cmp a b = 0 \<longleftrightarrow> cmp b a = 0"
  using consistent_sgn[OF assms, of b a] by (auto simp: sgn_if split: if_splits)

lemma consistent_trans: "consistent_cmp cmp \<Longrightarrow> cmp a b \<le> 0 \<Longrightarrow> cmp b c \<le> 0 \<Longrightarrow> cmp a c \<le> 0"
  unfolding consistent_cmp_def by blast

lemma consistent_total: "consistent_cmp cmp \<Longrightarrow> cmp a b \<le> 0 \<or> cmp b a \<le> 0"
  using consistent_flip(1)[of cmp a b] by (metis linorder_not_le order_less_imp_le)

lemma consistent_cmp_or:
  assumes "consistent_cmp c" "consistent_cmp d"
  shows "consistent_cmp (\<lambda>a b. cmp_or (c a b) (d a b))"
proof -
  have "cmp_or (c x z) (d x z) \<le> 0" if "cmp_or (c x y) (d x y) \<le> 0" "cmp_or (c y z) (d y z) \<le> 0" for x y z
  proof -
    have le: "c x y \<le> 0" "c y z \<le> 0" using that by (auto simp: cmp_or_def split: if_splits)
    have "c x z \<le> 0" by (rule consistent_trans[OF assms(1) le])
    moreover have "d x z \<le> 0" if z: "c x z = 0"
    proof -
      have zx: "c z x \<le> 0" using z consistent_flip(2)[OF assms(1)] by (metis order_refl)
      have "c y x \<le> 0" "c z y \<le> 0"
        using consistent_trans[OF assms(1) le(2) zx] consistent_trans[OF assms(1) zx le(1)] by auto
      then have xy: "c x y = 0" and yz: "c y z = 0"
        using le consistent_flip(1)[OF assms(1), of y x] consistent_flip(1)[OF assms(1), of z y] by linarith+
      have "d x y \<le> 0" "d y z \<le> 0"
        using \<open>cmp_or (c x y) (d x y) \<le> 0\<close> \<open>cmp_or (c y z) (d y z) \<le> 0\<close> by (simp_all add: cmp_or_def xy yz)
      then show ?thesis by (rule consistent_trans[OF assms(2)])
    qed
    ultimately show ?thesis by (auto simp: cmp_or_def)
  qed
  moreover have "sgn (cmp_or (c b a) (d b a)) = - sgn (cmp_or (c a b) (d a b))" for a b
    using consistent_flip(2)[OF assms(1), of a b] consistent_sgn[OF assms(1), of b a] consistent_sgn[OF assms(2), of b a]
    by (simp add: cmp_or_def)
  ultimately show ?thesis unfolding consistent_cmp_def by blast
qed

lemma consistent_by: "consistent_cmp c \<Longrightarrow> consistent_cmp (\<lambda>a b. c (f a) (f b))"
  unfolding consistent_cmp_def by blast

lemma consistent_descending: "consistent_cmp (\<lambda>a b. f b - (f a :: rat))"
  unfolding consistent_cmp_def by (intro conjI allI impI) (auto simp: sgn_if)

lemma set_sort_insert [simp]: "set (sort_insert cmp x xs) = insert x (set xs)"
  by (induction xs) auto

lemma sorted_sort_insert:
  assumes cmp: "consistent_cmp cmp" and sorted: "sorted_wrt (\<lambda>a b. cmp a b \<le> 0) xs"
  shows "sorted_wrt (\<lambda>a b. cmp a b \<le> 0) (sort_insert cmp x xs)"
  using sorted
proof (induction xs)
  case (Cons y ys)
  have "cmp y x \<le> 0" if "\<not> cmp x y \<le> 0" using consistent_total[OF cmp, of x y] that by blast
  moreover have "cmp x z \<le> 0" if "cmp x y \<le> 0" "cmp y z \<le> 0" for z
    using consistent_trans[OF cmp] that by blast
  ultimately show ?case using Cons by auto
qed simp

lemma sorted_js_sort: "consistent_cmp cmp \<Longrightarrow> sorted_wrt (\<lambda>a b. cmp a b \<le> 0) (js_sort cmp xs)"
  by (induction xs) (simp_all add: js_sort_def sorted_sort_insert)

section \<open>Maps filled by a loop\<close>

text \<open>\<open>const v = map.get(k) ?? init; ... map.set(k, f(v))\<close>.\<close>

definition upsert :: "'k \<Rightarrow> 'v \<Rightarrow> ('v \<Rightarrow> 'v) \<Rightarrow> ('k \<times> 'v) list \<Rightarrow> ('k \<times> 'v) list" where
  "upsert k init f m = obj_set k (f (case map_of m k of None \<Rightarrow> init | Some v \<Rightarrow> v)) m"

definition upsert_all ::
  "('a \<Rightarrow> 'k) \<Rightarrow> ('a \<Rightarrow> 'v) \<Rightarrow> ('a \<Rightarrow> 'v \<Rightarrow> 'v) \<Rightarrow> 'a list \<Rightarrow> ('k \<times> 'v) list" where
  "upsert_all key init add xs = fold (\<lambda>x. upsert (key x) (init x) (add x)) xs []"

lemma keys_obj_set:
  "map fst (obj_set k v m) = map fst m @ (if k \<in> set (map fst m) then [] else [k])"
  by (induction m) force+

lemma distinct_obj_set [simp]: "distinct (map fst m) \<Longrightarrow> distinct (map fst (obj_set k v m))"
  by (simp add: keys_obj_set)

lemma distinct_upsert: "distinct (map fst m) \<Longrightarrow> distinct (map fst (upsert k i f m))"
  by (simp add: upsert_def)

lemma map_of_upsert:
  "map_of (upsert k i f m) k' =
     (if k' = k then Some (f (case map_of m k of None \<Rightarrow> i | Some v \<Rightarrow> v)) else map_of m k')"
  by (simp add: upsert_def)

lemma upsert_all_snoc:
  "upsert_all key init add (xs @ [x]) = upsert (key x) (init x) (add x) (upsert_all key init add xs)"
  by (simp add: upsert_all_def)

lemma upsert_all_Nil [simp]: "upsert_all key init add [] = []"
  by (simp add: upsert_all_def)

lemma distinct_upsert_all: "distinct (map fst (upsert_all key init add xs))"
  by (induction xs rule: rev_induct) (simp_all add: upsert_all_snoc distinct_upsert)

lemma keys_upsert_all: "fst ` set (upsert_all key init add xs) = key ` set xs"
proof (induction xs rule: rev_induct)
  case (snoc x xs)
  have "set (map fst (upsert_all key init add (xs @ [x]))) = insert (key x) (fst ` set (upsert_all key init add xs))"
    by (auto simp: upsert_all_snoc upsert_def keys_obj_set split: if_splits)
  with snoc show ?case by simp
qed simp

lemma map_of_upsert_all:
  "map_of (upsert_all key init add xs) k =
     (case filter (\<lambda>x. key x = k) xs of [] \<Rightarrow> None | y # ys \<Rightarrow> Some (fold add (y # ys) (init y)))"
  by (induction xs rule: rev_induct) (auto simp: upsert_all_snoc map_of_upsert split: list.splits)

lemma upsert_all_map:
  assumes "\<And>x. key' (h x) = key x" "\<And>x. init' (h x) = g (init x)" "\<And>x v. add' (h x) (g v) = g (add x v)"
  shows "upsert_all key' init' add' (map h xs) = map (\<lambda>(k, v). (k, g v)) (upsert_all key init add xs)"
proof (induction xs rule: rev_induct)
  case (snoc x xs)
  have set: "obj_set k (g v) (map (\<lambda>(k, v). (k, g v)) m) = map (\<lambda>(k, v). (k, g v)) (obj_set k v m)" for k v m
    by (induction m) auto
  have get: "map_of (map (\<lambda>(k, v). (k, g v)) m) k = map_option g (map_of m k)" for m k
    by (induction m) auto
  show ?case unfolding map_append list.map upsert_all_snoc snoc upsert_def assms(1) get
    by (simp add: assms set[symmetric] split: option.split)
qed simp

lemma upsert_all_entry:
  assumes "(k, v) \<in> set (upsert_all key init add xs)"
  obtains y ys where "filter (\<lambda>x. key x = k) xs = y # ys" "v = fold add (y # ys) (init y)"
    "y \<in> set xs" "key y = k"
proof -
  have "map_of (upsert_all key init add xs) k = Some v"
    using assms distinct_upsert_all by (metis map_of_eq_Some_iff)
  then obtain y ys where f: "filter (\<lambda>x. key x = k) xs = y # ys" "v = fold add (y # ys) (init y)"
    by (auto simp: map_of_upsert_all split: list.splits)
  then have "y \<in> set xs \<and> key y = k" by (auto dest!: arg_cong[of "filter _ xs" _ set])
  with f that show ?thesis by blast
qed

text \<open>What a step keeps of an entry is what the first element under the key gave it.\<close>

lemma upsert_all_attr:
  assumes keep: "\<And>x v. a (add x v) = a v" and e: "(k, v) \<in> set (upsert_all key init add xs)"
  shows "\<exists>y \<in> set xs. key y = k \<and> a v = a (init y)"
proof -
  obtain y ys where y: "v = fold add (y # ys) (init y)" "y \<in> set xs" "key y = k"
    using upsert_all_entry[OF e] by metis
  have "a (fold add zs w) = a w" for zs w by (induction zs arbitrary: w) (auto simp: keep)
  with y show ?thesis by blast
qed

section \<open>Adding up under keys\<close>

text \<open>Sums over the entries of a list with distinct keys.\<close>

lemma sum_list_filter_if:
  "sum_list (map f (filter P xs)) = (\<Sum>x\<leftarrow>xs. if P x then f x else (0 :: 'b :: comm_monoid_add))"
  by (induction xs) auto

lemma sum_list_swap:
  "(\<Sum>x\<leftarrow>xs. \<Sum>y\<leftarrow>ys. f x y) = (\<Sum>y\<leftarrow>ys. \<Sum>x\<leftarrow>xs. (f x y :: 'b :: comm_monoid_add))"
  by (induction xs) (simp_all add: sum_list_addf)

lemma sum_list_one_key:
  "distinct (map fst m) \<Longrightarrow> k \<in> fst ` set m \<Longrightarrow>
     (\<Sum>e\<leftarrow>m. if fst e = k then c else 0) = (c :: 'b :: comm_monoid_add)"
proof (induction m)
  case (Cons e m)
  have zero: "(\<Sum>e\<leftarrow>m. if fst e = k then c else 0) = 0" if "k \<notin> fst ` set m" for m :: "('a \<times> 'd) list"
    using that by (induction m) auto
  from Cons show ?case by (cases "fst e = k") (auto simp: zero)
qed simp

locale tally =
  fixes init :: "'a \<Rightarrow> 'v"
    and add :: "'a \<Rightarrow> 'v \<Rightarrow> 'v"
    and wt :: "'a \<Rightarrow> 'n :: comm_monoid_add"
    and val :: "'v \<Rightarrow> 'n"
  assumes val_init: "val (init x) = 0"
    and val_add: "val (add x v) = val v + wt x"
begin

lemma val_fold: "val (fold add xs v) = val v + (\<Sum>x\<leftarrow>xs. wt x)"
  by (induction xs arbitrary: v) (simp_all add: val_add add.assoc)

lemma entry_sum:
  assumes "(k, v) \<in> set (upsert_all key init add xs)"
  shows "val v = (\<Sum>x\<leftarrow>filter (\<lambda>x. key x = k) xs. wt x)"
proof -
  obtain y ys where "filter (\<lambda>x. key x = k) xs = y # ys" "v = fold add (y # ys) (init y)"
    using upsert_all_entry[OF assms] by metis
  then show ?thesis by (simp add: val_fold val_add val_init)
qed

text \<open>Adding up the entries whose keys satisfy a predicate adds up the elements with such keys.\<close>

lemma selected_sum:
  "(\<Sum>e\<leftarrow>filter (\<lambda>e. P (fst e)) (upsert_all key init add xs). val (snd e)) = (\<Sum>x\<leftarrow>filter (\<lambda>x. P (key x)) xs. wt x)"
proof -
  let ?m = "upsert_all key init add xs"
  have if_zero: "(\<Sum>x\<leftarrow>xs. if a = key x then if P (key x) then wt x else 0 else 0) = 0" if "\<not> P a" for a
    using that by (induction xs) auto
  have "(\<Sum>e\<leftarrow>filter (\<lambda>e. P (fst e)) ?m. val (snd e))
      = (\<Sum>e\<leftarrow>?m. if P (fst e) then \<Sum>x\<leftarrow>xs. if key x = fst e then wt x else 0 else 0)"
    unfolding sum_list_filter_if
    by (intro arg_cong[where f = sum_list] map_cong refl) (auto simp: entry_sum sum_list_filter_if)
  also have "\<dots> = (\<Sum>e\<leftarrow>?m. \<Sum>x\<leftarrow>xs. if fst e = key x then if P (key x) then wt x else 0 else 0)"
    by (intro arg_cong[where f = sum_list] map_cong refl) (auto intro!: arg_cong[where f = sum_list] simp: if_zero)
  also have "\<dots> = (\<Sum>x\<leftarrow>xs. \<Sum>e\<leftarrow>?m. if fst e = key x then if P (key x) then wt x else 0 else 0)"
    by (rule sum_list_swap)
  also have "\<dots> = (\<Sum>x\<leftarrow>xs. if P (key x) then wt x else 0)"
    by (intro arg_cong[where f = sum_list] map_cong refl sum_list_one_key)
      (auto simp: distinct_upsert_all keys_upsert_all)
  finally show ?thesis by (simp add: sum_list_filter_if)
qed

lemma total_sum: "(\<Sum>e\<leftarrow>upsert_all key init add xs. val (snd e)) = (\<Sum>x\<leftarrow>xs. wt x)"
  using selected_sum[of "\<lambda>_. True" key xs] by simp

end

end
