(* ===== verification/Flow_Path.thy ===== *)
theory Flow_Path
  imports Js_Collections
begin

text \<open>
  The rows of the dashboard's flow chart and the paths they become
  (\<open>web/src/features/dashboard/lib/flow.ts\<close>, first half): the node a row has at each stage, the stages
  a role sees, and the selections by user and by node.

  The browser gives the text of a number, the collation \<open>localeCompare\<close>, the chart library's colours,
  \<open>toFixed\<close> and the number format; they are the record \<open>FlowEnv\<close>.  Quotas and counts are added as
  rationals.
\<close>

section \<open>Data\<close>

datatype FlowMetric = MetricQuota | MetricTokens | MetricRequests
datatype FlowOverflowMode = Aggregate | HideOverflow
datatype FlowRole = FlowUser | FlowAdmin | FlowRoot
datatype FlowNodeKind = KUser | KNode | KToken | KGroup | KModel | KChannel

record FlowQuotaDataItem =
  row_user_id :: "jnum option"
  row_username :: "jstr option"
  row_node_name :: "jstr option"
  row_use_group :: "jstr option"
  row_token_id :: "jnum option"
  row_token_name :: "jstr option"
  row_channel_id :: "jnum option"
  row_channel_name :: "jstr option"
  row_model_name :: "jstr option"
  row_token_used :: "jnum option"
  row_count :: "jnum option"
  row_quota :: "jnum option"

record FlowMetrics =
  fm_quota :: rat
  fm_tokens :: rat
  fm_requests :: rat

record FlowPathNode =
  pn_id :: jstr
  pn_label :: jstr
  pn_kind :: FlowNodeKind

record FlowNodeFilter =
  nf_kind :: FlowNodeKind
  nf_id :: jstr

record FlowLinkSelection =
  sel_source :: jstr
  sel_target :: jstr

record FlowEnv =
  number_text :: "rat \<Rightarrow> jstr"
  localeCompare :: "jstr comparator"
  chartColors :: "nat \<Rightarrow> jstr list"
  toFixed2 :: "rat \<Rightarrow> jstr"
  formatNumber :: "rat \<Rightarrow> jstr"

type_synonym FlowPathContext = "(rat \<Rightarrow> jstr) option"

section \<open>Metrics\<close>

definition flowNumber :: "jnum option \<Rightarrow> rat" where
  "flowNumber value = (case value of Some (Fin q) \<Rightarrow> q | _ \<Rightarrow> 0)"

definition rowMetrics :: "FlowQuotaDataItem \<Rightarrow> FlowMetrics" where
  "rowMetrics row = \<lparr>fm_quota = flowNumber (row_quota row), fm_tokens = flowNumber (row_token_used row),
     fm_requests = flowNumber (row_count row)\<rparr>"

fun metricValue :: "FlowMetrics \<Rightarrow> FlowMetric \<Rightarrow> rat" where
  "metricValue m MetricRequests = fm_requests m"
| "metricValue m MetricTokens = fm_tokens m"
| "metricValue m MetricQuota = fm_quota m"

definition row_value :: "FlowMetric \<Rightarrow> FlowQuotaDataItem \<Rightarrow> rat" where
  "row_value metric row = metricValue (rowMetrics row) metric"

section \<open>Nodes\<close>

text \<open>The node builders; \<open>a || b\<close> on optional texts is \<open>str_or\<close>.\<close>

definition userNode :: "FlowEnv \<Rightarrow> FlowQuotaDataItem \<Rightarrow> FlowPathNode" where
  "userNode env row =
     (let userID = flowNumber (row_user_id row) in
      \<lparr>pn_id = js ''user:'' @ (if 0 < userID then number_text env userID else str_or (row_username row) (js ''unknown'')),
       pn_label = str_or (row_username row)
         (if 0 < userID then js ''user-'' @ number_text env userID else js ''Unknown User''),
       pn_kind = KUser\<rparr>)"

definition nodeNameNode :: "FlowQuotaDataItem \<Rightarrow> FlowPathNode" where
  "nodeNameNode row =
     (let nodeName = str_or (row_node_name row) (js ''default-node'') in
      \<lparr>pn_id = js ''node:'' @ nodeName, pn_label = nodeName, pn_kind = KNode\<rparr>)"

definition deletedTokenLabel :: "FlowEnv \<Rightarrow> rat \<Rightarrow> FlowPathContext \<Rightarrow> jstr" where
  "deletedTokenLabel env tokenID ctx =
     (if tokenID \<le> 0 then js ''Unknown Token''
      else case ctx of Some f \<Rightarrow> f tokenID | None \<Rightarrow> js ''token-'' @ number_text env tokenID)"

definition tokenNode :: "FlowEnv \<Rightarrow> FlowPathContext \<Rightarrow> FlowQuotaDataItem \<Rightarrow> FlowPathNode" where
  "tokenNode env ctx row =
     (let tokenID = flowNumber (row_token_id row) in
      \<lparr>pn_id = js ''token:'' @ (if 0 < tokenID then number_text env tokenID else str_or (row_token_name row) (js ''unknown'')),
       pn_label = str_or (row_token_name row) (deletedTokenLabel env tokenID ctx),
       pn_kind = KToken\<rparr>)"

definition groupNode :: "FlowQuotaDataItem \<Rightarrow> FlowPathNode" where
  "groupNode row =
     (let useGroup = str_or (row_use_group row) (js ''unknown'') in
      \<lparr>pn_id = js ''group:'' @ useGroup, pn_label = useGroup, pn_kind = KGroup\<rparr>)"

definition modelNode :: "FlowQuotaDataItem \<Rightarrow> FlowPathNode" where
  "modelNode row =
     \<lparr>pn_id = js ''model:'' @ str_or (row_model_name row) (js ''unknown''),
      pn_label = str_or (row_model_name row) (js ''Unknown Model''), pn_kind = KModel\<rparr>"

definition channelNode :: "FlowEnv \<Rightarrow> FlowQuotaDataItem \<Rightarrow> FlowPathNode" where
  "channelNode env row =
     (let channelID = flowNumber (row_channel_id row) in
      \<lparr>pn_id = js ''channel:'' @
         (if 0 < channelID then number_text env channelID else str_or (row_channel_name row) (js ''unknown'')),
       pn_label = str_or (row_channel_name row)
         (if 0 < channelID then js ''channel-'' @ number_text env channelID else js ''Unknown''),
       pn_kind = KChannel\<rparr>)"

fun nodeBuilder :: "FlowEnv \<Rightarrow> FlowPathContext \<Rightarrow> FlowNodeKind \<Rightarrow> FlowQuotaDataItem \<Rightarrow> FlowPathNode" where
  "nodeBuilder env ctx KUser row = userNode env row"
| "nodeBuilder env ctx KNode row = nodeNameNode row"
| "nodeBuilder env ctx KToken row = tokenNode env ctx row"
| "nodeBuilder env ctx KGroup row = groupNode row"
| "nodeBuilder env ctx KModel row = modelNode row"
| "nodeBuilder env ctx KChannel row = channelNode env row"

section \<open>Stages\<close>

fun getFlowStages :: "FlowRole \<Rightarrow> FlowNodeKind list" where
  "getFlowStages FlowRoot = [KUser, KNode, KToken, KGroup, KModel, KChannel]"
| "getFlowStages FlowAdmin = [KUser, KGroup, KModel, KChannel]"
| "getFlowStages FlowUser = [KToken, KGroup, KModel]"

definition MIN_FLOW_STAGES :: nat where
  "MIN_FLOW_STAGES = 2"

definition resolveVisibleStages :: "FlowRole \<Rightarrow> FlowNodeKind list option \<Rightarrow> FlowNodeKind list" where
  "resolveVisibleStages role visibleStages =
     (let stages = getFlowStages role in
      case visibleStages of None \<Rightarrow> stages
      | Some vs \<Rightarrow>
          let filtered = filter (\<lambda>stage. stage \<in> set vs) stages in
          if MIN_FLOW_STAGES \<le> length filtered then filtered else stages)"

definition flowPathForStages ::
  "FlowEnv \<Rightarrow> FlowPathContext \<Rightarrow> FlowNodeKind list \<Rightarrow> FlowQuotaDataItem \<Rightarrow> FlowPathNode list" where
  "flowPathForStages env ctx stages row = map (\<lambda>stage. nodeBuilder env ctx stage row) stages"

section \<open>Selections\<close>

definition filterRows :: "FlowEnv \<Rightarrow> jstr list option \<Rightarrow> FlowQuotaDataItem list \<Rightarrow> FlowQuotaDataItem list" where
  "filterRows env selectedUsers rows =
     (let selected = (case selectedUsers of None \<Rightarrow> [] | Some us \<Rightarrow> us) in
      if selected = [] then rows else filter (\<lambda>row. pn_id (userNode env row) \<in> set selected) rows)"

text \<open>A \<open>Map\<close> from kinds to sets of ids; the sets are lists in which only membership is read.\<close>

type_synonym kind_ids = "(FlowNodeKind \<times> jstr list) list"

definition add_id :: "jstr \<Rightarrow> jstr list \<Rightarrow> jstr list" where
  "add_id i ids = (if i \<in> set ids then ids else ids @ [i])"

definition normalizeSelectedNodeFilters ::
  "FlowNodeFilter list option \<Rightarrow> FlowNodeKind list \<Rightarrow> kind_ids" where
  "normalizeSelectedNodeFilters selectedNodes stages =
     upsert_all nf_kind (\<lambda>_. []) (\<lambda>f. add_id (nf_id f))
       (filter (\<lambda>f. nf_kind f \<in> set stages) (case selectedNodes of None \<Rightarrow> [] | Some fs \<Rightarrow> fs))"

definition pathMatchesNodeFilters :: "FlowPathNode list \<Rightarrow> kind_ids \<Rightarrow> bool" where
  "pathMatchesNodeFilters path filters =
     (if filters = [] then True
      else let pathNodesByKind = upsert_all pn_kind (\<lambda>_. []) (\<lambda>n. add_id (pn_id n)) path in
        list_all (\<lambda>(kind, selectedIds).
          case map_of pathNodesByKind kind of None \<Rightarrow> False
          | Some pathIds \<Rightarrow> list_ex (\<lambda>i. i \<in> set pathIds) selectedIds) filters)"

definition filterRowsByNodes ::
  "FlowEnv \<Rightarrow> FlowPathContext \<Rightarrow> FlowNodeFilter list option \<Rightarrow> FlowNodeKind list
     \<Rightarrow> FlowQuotaDataItem list \<Rightarrow> FlowQuotaDataItem list" where
  "filterRowsByNodes env ctx selectedNodes stages rows =
     (let filters = normalizeSelectedNodeFilters selectedNodes stages in
      if filters = [] then rows
      else filter (\<lambda>row. pathMatchesNodeFilters (flowPathForStages env ctx stages row) filters) rows)"

definition selectedNodeFiltersExceptKind ::
  "FlowNodeFilter list option \<Rightarrow> FlowNodeKind \<Rightarrow> FlowNodeFilter list option" where
  "selectedNodeFiltersExceptKind selectedNodes kind =
     (let filtered = filter (\<lambda>f. nf_kind f \<noteq> kind) (case selectedNodes of None \<Rightarrow> [] | Some fs \<Rightarrow> fs) in
      if filtered = [] then None else Some filtered)"

section \<open>Facts on nodes and stages\<close>

fun kind_text :: "FlowNodeKind \<Rightarrow> jstr" where
  "kind_text KUser = js ''user''"
| "kind_text KNode = js ''node''"
| "kind_text KToken = js ''token''"
| "kind_text KGroup = js ''group''"
| "kind_text KModel = js ''model''"
| "kind_text KChannel = js ''channel''"

text \<open>A node carries its kind in its id, so ids of different kinds differ.\<close>

definition id_of_kind :: "FlowNodeKind \<Rightarrow> jstr \<Rightarrow> bool" where
  "id_of_kind k i \<longleftrightarrow> prefix (kind_text k @ js '':'') i"

lemma kind_text_no_colon: "58 \<notin> set (kind_text k)"
  by (cases k) (simp_all add: js_def)

lemma kind_text_inject [simp]: "kind_text k = kind_text k' \<longleftrightarrow> k = k'"
  by (cases k; cases k') simp_all

lemma id_of_kind_unique: "id_of_kind k i \<Longrightarrow> id_of_kind k' i \<Longrightarrow> k = k'"
proof -
  assume a: "id_of_kind k i" "id_of_kind k' i"
  have colon: "js '':'' = [58]" by (simp add: js_def)
  from a obtain s s' where "kind_text k @ 58 # s = kind_text k' @ 58 # s'"
    by (auto simp: id_of_kind_def colon prefix_def)
  then show "k = k'" using append_sep_inj kind_text_no_colon by (metis kind_text_inject)
qed

lemma nodeBuilder_kind [simp]: "pn_kind (nodeBuilder env ctx k row) = k"
  by (cases k) (simp_all add: userNode_def nodeNameNode_def tokenNode_def groupNode_def modelNode_def
      channelNode_def Let_def)

lemma js_colon_split: "js (s @ '':'') @ x = js s @ js '':'' @ x"
  by (simp add: js_append)

lemma nodeBuilder_id: "id_of_kind k (pn_id (nodeBuilder env ctx k row))"
  using js_colon_split[of "''user''"] js_colon_split[of "''node''"] js_colon_split[of "''token''"]
    js_colon_split[of "''group''"] js_colon_split[of "''model''"] js_colon_split[of "''channel''"]
  by (cases k) (simp_all add: id_of_kind_def userNode_def nodeNameNode_def tokenNode_def groupNode_def
      modelNode_def channelNode_def Let_def)

lemma id_of_kind_nonempty: "id_of_kind k i \<Longrightarrow> i \<noteq> []"
  by (auto simp: id_of_kind_def)

lemma getFlowStages_distinct: "distinct (getFlowStages role)"
  by (cases role) simp_all

lemma getFlowStages_length: "2 \<le> length (getFlowStages role)"
  by (cases role) simp_all

lemma stages_distinct: "distinct (resolveVisibleStages role vs)"
  by (auto simp: resolveVisibleStages_def Let_def getFlowStages_distinct split: option.split)

lemma stages_length: "2 \<le> length (resolveVisibleStages role vs)"
  by (auto simp: resolveVisibleStages_def MIN_FLOW_STAGES_def Let_def getFlowStages_length split: option.split)

lemma path_kinds [simp]: "map pn_kind (flowPathForStages env ctx stages row) = stages"
  by (simp add: flowPathForStages_def comp_def)

lemma path_ids: "n \<in> set (flowPathForStages env ctx stages row) \<Longrightarrow> id_of_kind (pn_kind n) (pn_id n)"
  by (auto simp: flowPathForStages_def nodeBuilder_id)

section \<open>Facts on selections\<close>

lemma set_add_id [simp]: "set (add_id i ids) = insert i (set ids)"
  by (auto simp: add_id_def)

lemma set_fold_add_id: "set (fold (\<lambda>x. add_id (f x)) xs ids) = f ` set xs \<union> set ids"
  by (induction xs arbitrary: ids) auto

lemma map_of_grouped_ids:
  "map_of (upsert_all k (\<lambda>_. []) (\<lambda>x. add_id (f x)) xs) kind = None \<longleftrightarrow> (\<forall>x \<in> set xs. k x \<noteq> kind)"
  "map_of (upsert_all k (\<lambda>_. []) (\<lambda>x. add_id (f x)) xs) kind = Some ids
     \<Longrightarrow> set ids = f ` {x \<in> set xs. k x = kind}"
proof -
  let ?F = "filter (\<lambda>x. k x = kind) xs"
  have s: "set ?F = {x \<in> set xs. k x = kind}" by simp
  show "map_of (upsert_all k (\<lambda>_. []) (\<lambda>x. add_id (f x)) xs) kind = None \<longleftrightarrow> (\<forall>x \<in> set xs. k x \<noteq> kind)"
    by (auto simp: map_of_eq_None_iff keys_upsert_all)
  assume "map_of (upsert_all k (\<lambda>_. []) (\<lambda>x. add_id (f x)) xs) kind = Some ids"
  then have "ids = fold (\<lambda>x. add_id (f x)) ?F []" by (auto simp: map_of_upsert_all split: list.splits)
  then show "set ids = f ` {x \<in> set xs. k x = kind}" by (simp only: set_fold_add_id s) simp
qed

text \<open>A path matches when, of every kind that is filtered, one of the selected nodes is on it.\<close>

lemma pathMatches_iff:
  "pathMatchesNodeFilters path (normalizeSelectedNodeFilters sel stages) \<longleftrightarrow>
     (\<forall>f \<in> set (case sel of None \<Rightarrow> [] | Some fs \<Rightarrow> fs). nf_kind f \<in> set stages \<longrightarrow>
        (\<exists>n \<in> set path. \<exists>g \<in> set (case sel of None \<Rightarrow> [] | Some fs \<Rightarrow> fs).
           nf_kind g = nf_kind f \<and> pn_kind n = nf_kind f \<and> pn_id n = nf_id g))"
  (is "?L \<longleftrightarrow> ?R")
proof -
  let ?fs = "filter (\<lambda>f. nf_kind f \<in> set stages) (case sel of None \<Rightarrow> [] | Some fs \<Rightarrow> fs)"
  let ?m = "normalizeSelectedNodeFilters sel stages"
  let ?p = "upsert_all pn_kind (\<lambda>_. []) (\<lambda>n. add_id (pn_id n)) path"
  have m: "?m = upsert_all nf_kind (\<lambda>_. []) (\<lambda>f. add_id (nf_id f)) ?fs"
    by (simp add: normalizeSelectedNodeFilters_def)
  have entry: "(k, ids) \<in> set ?m \<longleftrightarrow> map_of ?m k = Some ids" for k ids
    unfolding m by (simp add: distinct_upsert_all)
  have ok: "(case map_of ?p k of None \<Rightarrow> False | Some pathIds \<Rightarrow> list_ex (\<lambda>i. i \<in> set pathIds) ids)
      \<longleftrightarrow> (\<exists>n \<in> set path. pn_kind n = k \<and> pn_id n \<in> set ids)" for k ids
    using map_of_grouped_ids[where k = pn_kind and f = pn_id and xs = path and kind = k]
    by (cases "map_of ?p k") (auto simp: list_ex_iff)
  have "?L \<longleftrightarrow> (\<forall>(k, ids) \<in> set ?m. \<exists>n \<in> set path. pn_kind n = k \<and> pn_id n \<in> set ids)"
    by (cases "?m = []") (auto simp: pathMatchesNodeFilters_def Let_def list_all_iff ok)
  also have "\<dots> \<longleftrightarrow> (\<forall>k ids. map_of ?m k = Some ids \<longrightarrow> (\<exists>n \<in> set path. pn_kind n = k \<and> pn_id n \<in> set ids))"
    by (fastforce simp: entry[symmetric])
  also have "\<dots> \<longleftrightarrow> (\<forall>f \<in> set ?fs. \<exists>n \<in> set path. pn_kind n = nf_kind f
      \<and> pn_id n \<in> nf_id ` {g \<in> set ?fs. nf_kind g = nf_kind f})" (is "?A \<longleftrightarrow> ?B")
  proof
    assume a: ?A
    show ?B
    proof
      fix f assume f: "f \<in> set ?fs"
      then obtain ids where i: "map_of ?m (nf_kind f) = Some ids"
        unfolding m using map_of_grouped_ids(1)[of nf_kind nf_id ?fs "nf_kind f"] by fastforce
      then have s: "set ids = nf_id ` {g \<in> set ?fs. nf_kind g = nf_kind f}"
        unfolding m by (rule map_of_grouped_ids(2))
      show "\<exists>n \<in> set path. pn_kind n = nf_kind f \<and> pn_id n \<in> nf_id ` {g \<in> set ?fs. nf_kind g = nf_kind f}"
        using a[rule_format, OF i] unfolding s .
    qed
  next
    assume b: ?B
    show ?A
    proof (intro allI impI)
      fix k ids assume i: "map_of ?m k = Some ids"
      then have s: "set ids = nf_id ` {g \<in> set ?fs. nf_kind g = k}" unfolding m by (rule map_of_grouped_ids(2))
      obtain f where "f \<in> set ?fs" "nf_kind f = k"
        using i map_of_grouped_ids(1)[of nf_kind nf_id ?fs k] unfolding m by fastforce
      with b[rule_format, of f] show "\<exists>n \<in> set path. pn_kind n = k \<and> pn_id n \<in> set ids" by (simp only: s)
    qed
  qed
  also have "\<dots> \<longleftrightarrow> ?R" by (auto 4 4)
  finally show ?thesis .
qed

lemma filterRowsByNodes_eq:
  "filterRowsByNodes env ctx sel stages rows =
     filter (\<lambda>row. pathMatchesNodeFilters (flowPathForStages env ctx stages row)
       (normalizeSelectedNodeFilters sel stages)) rows"
  by (simp add: filterRowsByNodes_def pathMatchesNodeFilters_def Let_def)

end
