(* ===== verification/Flow_Graph.thy ===== *)
theory Flow_Graph
  imports Flow_Path
begin

text \<open>
  The flow graph of the dashboard (\<open>web/src/features/dashboard/lib/flow.ts\<close>, \<open>buildFlowGraph\<close> and what
  it calls): the limit on the nodes of a stage, the nodes and links with their sums, masking,
  highlighting, shares and colours.
\<close>

section \<open>Data\<close>

record DashboardFlowNode =
  fn_id :: jstr
  fn_label :: jstr
  fn_kind :: FlowNodeKind
  fn_value :: rat
  fn_requests :: rat
  fn_quota :: rat
  fn_tokens :: rat
  fn_color :: jstr
  fn_colorKey :: jstr
  fn_highlighted :: "bool option"
  fn_dimmed :: "bool option"

record DashboardFlowLink =
  fl_source :: jstr
  fl_target :: jstr
  fl_value :: rat
  fl_requests :: rat
  fl_quota :: rat
  fl_tokens :: rat
  fl_sourceLabel :: jstr
  fl_targetLabel :: jstr
  fl_color :: jstr
  fl_linkColor :: jstr
  fl_linkAlpha :: rat
  fl_hoverColor :: jstr
  fl_colorKey :: jstr
  fl_share :: rat
  fl_highlighted :: "bool option"
  fl_dimmed :: "bool option"

record DashboardFlowGraph =
  graph_nodes :: "DashboardFlowNode list"
  graph_links :: "DashboardFlowLink list"

record PreparedFlowPath =
  prep_path :: "FlowPathNode list"
  prep_metrics :: FlowMetrics

record FlowGraphOptions =
  topNodeLimit :: "jnum option"
  overflowMode :: "FlowOverflowMode option"
  otherNodeLabel :: "(FlowNodeKind \<Rightarrow> jstr) option"
  activeNode :: "FlowNodeFilter option"
  activeLink :: "FlowLinkSelection option"
  maskSensitive :: bool

section \<open>Colours\<close>

definition DEFAULT_FLOW_CHART_COLOR :: jstr where
  "DEFAULT_FLOW_CHART_COLOR = js ''#1664FF''"

definition colorAt :: "FlowEnv \<Rightarrow> nat \<Rightarrow> jstr list option \<Rightarrow> jstr" where
  "colorAt env index palette =
     (let colors = (case palette of Some (c # cs) \<Rightarrow> c # cs | _ \<Rightarrow> chartColors env (index + 1)) in
      if colors = [] then DEFAULT_FLOW_CHART_COLOR else colors ! (index mod length colors))"

definition colorPalette :: "FlowEnv \<Rightarrow> nat \<Rightarrow> jstr list option \<Rightarrow> jstr list" where
  "colorPalette env colorCount palette =
     (case palette of Some (c # cs) \<Rightarrow> c # cs
      | _ \<Rightarrow> if chartColors env colorCount = [] then [DEFAULT_FLOW_CHART_COLOR] else chartColors env colorCount)"

fun hex_digit :: "code_unit \<Rightarrow> nat option" where
  "hex_digit c = (if is_digit c then Some (c - 48) else if 97 \<le> c \<and> c \<le> 102 then Some (c - 87)
     else if 65 \<le> c \<and> c \<le> 70 then Some (c - 55) else None)"

definition alphaColor :: "FlowEnv \<Rightarrow> jstr \<Rightarrow> rat \<Rightarrow> jstr \<times> rat" where
  "alphaColor env color alpha =
     (let normalized = trim color;
          hex = (if prefix (js ''#'') normalized then tl normalized else normalized) in
      if length hex \<noteq> 6 \<or> list_ex (\<lambda>c. hex_digit c = None) hex then (normalized, alpha)
      else let v = foldl (\<lambda>a c. 16 * a + the (hex_digit c)) 0 hex;
               red = v div 65536 mod 256; green = v div 256 mod 256; blue = v mod 256 in
        (js ''rgba('' @ show_nat red @ js '', '' @ show_nat green @ js '', '' @ show_nat blue @ js '', ''
           @ toFixed2 env alpha @ js '')'', 1))"

definition stableColorMap :: "FlowEnv \<Rightarrow> jstr list \<Rightarrow> jstr list option \<Rightarrow> (jstr \<times> jstr) list" where
  "stableColorMap env keys palette =
     (let uniqueKeys = js_unique keys; colors = colorPalette env (length uniqueKeys) palette in
      map (\<lambda>(index, key). (key, colorAt env index (Some colors))) (enumerate 0 uniqueKeys))"

section \<open>The limit on the nodes of a stage\<close>

definition normalizeTopNodeLimit :: "jnum option \<Rightarrow> nat option" where
  "normalizeTopNodeLimit limit =
     (case limit of Some (Fin q) \<Rightarrow> if 0 < \<lfloor>q\<rfloor> then Some (nat \<lfloor>q\<rfloor>) else None | _ \<Rightarrow> None)"

definition otherFlowNodeId :: "FlowNodeKind \<Rightarrow> jstr" where
  "otherFlowNodeId kind = kind_text kind @ js '':__other__''"

definition all_kinds :: "FlowNodeKind list" where
  "all_kinds = [KUser, KNode, KToken, KGroup, KModel, KChannel]"

definition OTHER_FLOW_NODE_ID_SET :: "jstr list" where
  "OTHER_FLOW_NODE_ID_SET = map otherFlowNodeId all_kinds"

fun defaultOtherLabel :: "FlowNodeKind \<Rightarrow> jstr" where
  "defaultOtherLabel KUser = js ''Other users''"
| "defaultOtherLabel KNode = js ''Other nodes''"
| "defaultOtherLabel KToken = js ''Other tokens''"
| "defaultOtherLabel KGroup = js ''Other groups''"
| "defaultOtherLabel KModel = js ''Other models''"
| "defaultOtherLabel KChannel = js ''Other channels''"

definition otherFlowNode :: "FlowNodeKind \<Rightarrow> (FlowNodeKind \<Rightarrow> jstr) option \<Rightarrow> FlowPathNode" where
  "otherFlowNode kind labeler =
     \<lparr>pn_id = otherFlowNodeId kind,
      pn_label = (case labeler of Some f \<Rightarrow> f kind | None \<Rightarrow> defaultOtherLabel kind), pn_kind = kind\<rparr>"

text \<open>The ranking of one stage: the nodes of that kind on the paths of the rows, with the sums of
  the metric.  The source fills the maps of all stages in one pass over the rows.\<close>

definition stage_totals ::
  "FlowEnv \<Rightarrow> FlowPathContext \<Rightarrow> FlowMetric \<Rightarrow> FlowNodeKind list \<Rightarrow> FlowQuotaDataItem list \<Rightarrow> FlowNodeKind
     \<Rightarrow> (jstr \<times> FlowPathNode \<times> rat) list" where
  "stage_totals env ctx metric stages rows kind =
     upsert_all (\<lambda>(n, v). pn_id n) (\<lambda>(n, v). (n, 0)) (\<lambda>(n, v) (m, t). (m, t + v))
       (filter (\<lambda>(n, v). pn_kind n = kind)
         (concat (map (\<lambda>row. map (\<lambda>n. (n, row_value metric row)) (flowPathForStages env ctx stages row)) rows)))"

definition byRank :: "FlowEnv \<Rightarrow> (FlowPathNode \<times> rat) comparator" where
  "byRank env a b = cmp_or (snd b - snd a)
     (cmp_or (localeCompare env (pn_label (fst a)) (pn_label (fst b)))
        (localeCompare env (pn_id (fst a)) (pn_id (fst b))))"

definition buildTopNodeSets ::
  "FlowEnv \<Rightarrow> FlowPathContext \<Rightarrow> FlowMetric \<Rightarrow> FlowNodeKind list \<Rightarrow> nat option \<Rightarrow> FlowQuotaDataItem list
     \<Rightarrow> kind_ids option" where
  "buildTopNodeSets env ctx metric stages limit rows =
     (case limit of None \<Rightarrow> None
      | Some k \<Rightarrow> Some (map (\<lambda>kind. (kind,
          map (\<lambda>rank. pn_id (fst rank))
            (take k (js_sort (byRank env) (map snd (stage_totals env ctx metric stages rows kind)))))) stages))"

definition isTopFlowNode :: "kind_ids \<Rightarrow> FlowPathNode \<Rightarrow> bool" where
  "isTopFlowNode topNodeSets node =
     (case map_of topNodeSets (pn_kind node) of None \<Rightarrow> True | Some ids \<Rightarrow> pn_id node \<in> set ids)"

definition applyTopNodeLimit ::
  "kind_ids option \<Rightarrow> FlowOverflowMode \<Rightarrow> (FlowNodeKind \<Rightarrow> jstr) option \<Rightarrow> FlowPathNode list
     \<Rightarrow> FlowPathNode list option" where
  "applyTopNodeLimit topNodeSets mode labeler path =
     (case topNodeSets of None \<Rightarrow> Some path
      | Some sets \<Rightarrow>
          if list_all (isTopFlowNode sets) path then Some path
          else if mode = HideOverflow then None
          else Some (map (\<lambda>node. if isTopFlowNode sets node then node else otherFlowNode (pn_kind node) labeler) path))"

definition preparedPaths ::
  "FlowEnv \<Rightarrow> FlowPathContext \<Rightarrow> FlowMetric \<Rightarrow> FlowNodeKind list \<Rightarrow> FlowGraphOptions \<Rightarrow> FlowQuotaDataItem list
     \<Rightarrow> PreparedFlowPath list" where
  "preparedPaths env ctx metric stages options rows =
     (let topNodeSets = buildTopNodeSets env ctx metric stages (normalizeTopNodeLimit (topNodeLimit options)) rows;
          mode = (case overflowMode options of None \<Rightarrow> Aggregate | Some m \<Rightarrow> m) in
      List.map_filter (\<lambda>row. map_option (\<lambda>path. \<lparr>prep_path = path, prep_metrics = rowMetrics row\<rparr>)
        (applyTopNodeLimit topNodeSets mode (otherNodeLabel options) (flowPathForStages env ctx stages row))) rows)"

section \<open>Nodes and links\<close>

text \<open>An occurrence of a node, or of a link, on a path: with the path's metrics, its colour and the
  id of its first node.\<close>

type_synonym 'a occurrence = "'a \<times> FlowMetrics \<times> jstr \<times> jstr"

fun new_node :: "FlowPathNode occurrence \<Rightarrow> DashboardFlowNode" where
  "new_node (n, m, color, colorKey) = \<lparr>fn_id = pn_id n, fn_label = pn_label n, fn_kind = pn_kind n, fn_value = 0,
     fn_requests = 0, fn_quota = 0, fn_tokens = 0, fn_color = color, fn_colorKey = colorKey,
     fn_highlighted = None, fn_dimmed = None\<rparr>"

fun grow_node :: "FlowMetric \<Rightarrow> FlowPathNode occurrence \<Rightarrow> DashboardFlowNode \<Rightarrow> DashboardFlowNode" where
  "grow_node metric (n, m, color, colorKey) previous = previous\<lparr>
     fn_value := fn_value previous + metricValue m metric,
     fn_requests := fn_requests previous + fm_requests m,
     fn_quota := fn_quota previous + fm_quota m,
     fn_tokens := fn_tokens previous + fm_tokens m\<rparr>"

fun node_key :: "FlowPathNode occurrence \<Rightarrow> jstr" where
  "node_key (n, m, color, colorKey) = pn_id n"

definition addNode ::
  "FlowMetric \<Rightarrow> FlowPathNode occurrence \<Rightarrow> (jstr \<times> DashboardFlowNode) list \<Rightarrow> (jstr \<times> DashboardFlowNode) list" where
  "addNode metric x = upsert (node_key x) (new_node x) (grow_node metric x)"

definition pathLinkKey :: "jstr \<Rightarrow> jstr \<Rightarrow> jstr" where
  "pathLinkKey s t = s @ 0 # t"

fun link_key :: "(FlowPathNode \<times> FlowPathNode) occurrence \<Rightarrow> jstr" where
  "link_key ((s, t), m, color, colorKey) = pathLinkKey (pn_id s) (pn_id t)"

fun new_link :: "(FlowPathNode \<times> FlowPathNode) occurrence \<Rightarrow> DashboardFlowLink" where
  "new_link ((s, t), m, color, colorKey) = \<lparr>fl_source = pn_id s, fl_target = pn_id t, fl_value = 0, fl_requests = 0,
     fl_quota = 0, fl_tokens = 0, fl_sourceLabel = pn_label s, fl_targetLabel = pn_label t, fl_color = color,
     fl_linkColor = color, fl_linkAlpha = 1, fl_hoverColor = color, fl_colorKey = colorKey, fl_share = 0,
     fl_highlighted = None, fl_dimmed = None\<rparr>"

fun grow_link ::
  "FlowMetric \<Rightarrow> (FlowPathNode \<times> FlowPathNode) occurrence \<Rightarrow> DashboardFlowLink \<Rightarrow> DashboardFlowLink" where
  "grow_link metric (e, m, color, colorKey) previous = previous\<lparr>
     fl_value := fl_value previous + metricValue m metric,
     fl_requests := fl_requests previous + fm_requests m,
     fl_quota := fl_quota previous + fm_quota m,
     fl_tokens := fl_tokens previous + fm_tokens m\<rparr>"

definition addLink ::
  "FlowMetric \<Rightarrow> (FlowPathNode \<times> FlowPathNode) occurrence \<Rightarrow> (jstr \<times> DashboardFlowLink) list
     \<Rightarrow> (jstr \<times> DashboardFlowLink) list" where
  "addLink metric x = upsert (link_key x) (new_link x) (grow_link metric x)"

text \<open>The two loops over a prepared path; a path without a first node is skipped.\<close>

definition path_edges :: "'a list \<Rightarrow> ('a \<times> 'a) list" where
  "path_edges p = zip p (tl p)"

definition path_occurrences ::
  "(FlowPathNode list \<Rightarrow> 'a list) \<Rightarrow> (jstr \<Rightarrow> jstr) \<Rightarrow> PreparedFlowPath list \<Rightarrow> 'a occurrence list" where
  "path_occurrences parts color ps =
     concat (map (\<lambda>p. case prep_path p of [] \<Rightarrow> []
       | r # rest \<Rightarrow> map (\<lambda>x. (x, prep_metrics p, color (pn_id r), pn_id r)) (parts (prep_path p))) ps)"

section \<open>Masking and highlighting\<close>

definition SENSITIVE_FLOW_KINDS :: "FlowNodeKind list" where
  "SENSITIVE_FLOW_KINDS = [KUser, KNode, KToken, KGroup, KChannel]"

definition FLOW_MASK_TEXT :: jstr where
  "FLOW_MASK_TEXT = [8226, 8226, 8226, 8226]"

definition maskFlowLabel :: "jstr \<Rightarrow> jstr" where
  "maskFlowLabel label = (if label = [] then label else FLOW_MASK_TEXT)"

definition node_masked :: "DashboardFlowNode \<Rightarrow> bool" where
  "node_masked n \<longleftrightarrow> fn_kind n \<in> set SENSITIVE_FLOW_KINDS \<and> fn_id n \<notin> set OTHER_FLOW_NODE_ID_SET"

definition maskFlowGraphLabels ::
  "DashboardFlowNode list \<Rightarrow> DashboardFlowLink list \<Rightarrow> DashboardFlowNode list \<times> DashboardFlowLink list" where
  "maskFlowGraphLabels nodes links =
     (let maskedById = map (\<lambda>n. (fn_id n, maskFlowLabel (fn_label n))) (filter node_masked nodes) in
      (map (\<lambda>n. if node_masked n then n\<lparr>fn_label := maskFlowLabel (fn_label n)\<rparr> else n) nodes,
       map (\<lambda>l. l\<lparr>fl_sourceLabel := (case map_of maskedById (fl_source l) of None \<Rightarrow> fl_sourceLabel l | Some t \<Rightarrow> t),
                   fl_targetLabel := (case map_of maskedById (fl_target l) of None \<Rightarrow> fl_targetLabel l | Some t \<Rightarrow> t)\<rparr>)
         links))"

definition pathContainsFlowNode :: "FlowPathNode list \<Rightarrow> FlowNodeFilter \<Rightarrow> bool" where
  "pathContainsFlowNode path f \<longleftrightarrow> list_ex (\<lambda>n. pn_kind n = nf_kind f \<and> pn_id n = nf_id f) path"

definition pathContainsFlowLink :: "FlowPathNode list \<Rightarrow> FlowLinkSelection \<Rightarrow> bool" where
  "pathContainsFlowLink path l \<longleftrightarrow> list_ex (\<lambda>(s, t). pn_id s = sel_source l \<and> pn_id t = sel_target l) (path_edges path)"

definition matchesPath :: "FlowNodeFilter option \<Rightarrow> FlowLinkSelection option \<Rightarrow> FlowPathNode list \<Rightarrow> bool" where
  "matchesPath aNode aLink path =
     (case aLink of Some l \<Rightarrow> pathContainsFlowLink path l
      | None \<Rightarrow> (case aNode of Some f \<Rightarrow> pathContainsFlowNode path f | None \<Rightarrow> False))"

definition buildFlowHighlightSets ::
  "PreparedFlowPath list \<Rightarrow> FlowNodeFilter option \<Rightarrow> FlowLinkSelection option \<Rightarrow> FlowNodeKind list
     \<Rightarrow> (jstr list \<times> jstr list) option" where
  "buildFlowHighlightSets ps aNode aLink stages =
     (let nodeActive = (case aNode of None \<Rightarrow> False | Some f \<Rightarrow> nf_kind f \<in> set stages) in
      if \<not> nodeActive \<and> aLink = None then None
      else let matched = filter (\<lambda>p. matchesPath aNode aLink (prep_path p)) ps;
               nodes = concat (map (\<lambda>p. map pn_id (prep_path p)) matched);
               links = concat (map (\<lambda>p. map (\<lambda>(s, t). pathLinkKey (pn_id s) (pn_id t)) (path_edges (prep_path p))) matched) in
        if nodes = [] then None else Some (nodes, links))"

definition applyFlowHighlights ::
  "(jstr list \<times> jstr list) option \<Rightarrow> DashboardFlowNode list \<Rightarrow> DashboardFlowLink list
     \<Rightarrow> DashboardFlowNode list \<times> DashboardFlowLink list" where
  "applyFlowHighlights highlightSets nodes links =
     (case highlightSets of None \<Rightarrow> (nodes, links)
      | Some (hn, hl) \<Rightarrow>
          (map (\<lambda>n. n\<lparr>fn_highlighted := Some (fn_id n \<in> set hn), fn_dimmed := Some (fn_id n \<notin> set hn)\<rparr>) nodes,
           map (\<lambda>l. l\<lparr>fl_highlighted := Some (pathLinkKey (fl_source l) (fl_target l) \<in> set hl),
                       fl_dimmed := Some (pathLinkKey (fl_source l) (fl_target l) \<notin> set hl)\<rparr>) links))"

section \<open>Display order, shares and link colours\<close>

definition byValueThenLabel :: "FlowEnv \<Rightarrow> DashboardFlowNode comparator" where
  "byValueThenLabel env a b = cmp_or (fn_value b - fn_value a) (localeCompare env (fn_label a) (fn_label b))"

definition bySourceThenTarget :: "FlowEnv \<Rightarrow> DashboardFlowLink comparator" where
  "bySourceThenTarget env a b =
     cmp_or (localeCompare env (fl_source a) (fl_source b)) (localeCompare env (fl_target a) (fl_target b))"

definition linkStableKey :: "DashboardFlowLink \<Rightarrow> jstr" where
  "linkStableKey l = pathLinkKey (fl_source l) (fl_target l)"

definition byValueThenKey :: "FlowEnv \<Rightarrow> DashboardFlowLink comparator" where
  "byValueThenKey env a b = cmp_or (fl_value b - fl_value a) (localeCompare env (linkStableKey a) (linkStableKey b))"

definition assignShares :: "jstr list \<Rightarrow> DashboardFlowLink list \<Rightarrow> DashboardFlowLink list" where
  "assignShares firstStepSources links =
     (let total = (\<Sum>l\<leftarrow>filter (\<lambda>l. fl_source l \<in> set firstStepSources) links. fl_value l) in
      map (\<lambda>l. l\<lparr>fl_share := (if 0 < total then fl_value l / total else 0)\<rparr>) links)"

text \<open>The colours of the links of one source, by their rank; a link is found by its key.\<close>

definition source_colors :: "FlowEnv \<Rightarrow> DashboardFlowLink list \<Rightarrow> (jstr \<times> jstr \<times> rat) list" where
  "source_colors env sourceLinks =
     (let sortedLinks = js_sort (byValueThenKey env) sourceLinks;
          denominator = max (length sortedLinks - 1) 1 in
      map (\<lambda>(index, l). (linkStableKey l, alphaColor env (fl_color l)
          (if length sortedLinks = 1 then 34 / 100 else 24 / 100 + (of_nat index / of_nat denominator) * (2 / 10))))
        (enumerate 0 sortedLinks))"

definition assignLinkDisplayColors :: "FlowEnv \<Rightarrow> DashboardFlowLink list \<Rightarrow> DashboardFlowLink list" where
  "assignLinkDisplayColors env links =
     (let linksBySource = upsert_all fl_source (\<lambda>_. []) (\<lambda>l ls. ls @ [l]) links;
          display = concat (map (\<lambda>(s, ls). source_colors env ls) linksBySource) in
      map (\<lambda>l. case map_of display (linkStableKey l) of None \<Rightarrow> l
        | Some (c, a) \<Rightarrow> l\<lparr>fl_linkColor := c, fl_linkAlpha := a, fl_hoverColor := fl_color l\<rparr>) links)"

section \<open>The graph\<close>

definition path_roots :: "PreparedFlowPath list \<Rightarrow> jstr list" where
  "path_roots ps = filter (\<lambda>i. i \<noteq> []) (List.map_filter (\<lambda>p. case prep_path p of [] \<Rightarrow> None | n # ns \<Rightarrow> Some (pn_id n)) ps)"

definition path_color :: "FlowEnv \<Rightarrow> jstr list option \<Rightarrow> PreparedFlowPath list \<Rightarrow> jstr \<Rightarrow> jstr" where
  "path_color env palette ps r =
     (let colors = stableColorMap env (js_sort (localeCompare env) (path_roots ps)) palette in
      case map_of colors r of Some c \<Rightarrow> c | None \<Rightarrow> colorAt env 0 palette)"

definition buildFlowGraph ::
  "FlowEnv \<Rightarrow> FlowMetric \<Rightarrow> FlowRole \<Rightarrow> jstr list option \<Rightarrow> FlowNodeKind list option \<Rightarrow> FlowPathContext
     \<Rightarrow> FlowGraphOptions \<Rightarrow> FlowQuotaDataItem list \<Rightarrow> DashboardFlowGraph" where
  "buildFlowGraph env metric role palette visibleStages ctx options rows =
     (let stages = resolveVisibleStages role visibleStages;
          ps = preparedPaths env ctx metric stages options rows;
          color = path_color env palette ps;
          nodes = map snd (fold (addNode metric) (path_occurrences id color ps) []);
          links = map snd (fold (addLink metric) (path_occurrences path_edges color ps) []);
          (nodes, links) = (if maskSensitive options then maskFlowGraphLabels nodes links else (nodes, links));
          (nodes, links) = applyFlowHighlights
            (buildFlowHighlightSets ps (activeNode options) (activeLink options) stages) nodes links;
          flowLinks = assignShares (path_roots ps) (js_sort (bySourceThenTarget env) links)
      in \<lparr>graph_nodes = js_sort (byValueThenLabel env) nodes, graph_links = assignLinkDisplayColors env flowLinks\<rparr>)"

end
