(* ===== verification/Flow_Conservation.thy ===== *)
theory Flow_Conservation
  imports Flow_Graph
begin

text \<open>
  What the flow graph says of the rows.  The abstract flow of a list of weighted paths gives every
  node and every pair of nodes the sum of the weights of the paths through it; the graph that
  \<open>buildFlowGraph\<close> assembles in its maps is shown to be that flow.  Conservation at the inner nodes
  and the shares of a column follow.
\<close>

section \<open>The four sums\<close>

datatype FlowField = FieldValue | FieldQuota | FieldTokens | FieldRequests

fun metrics_field :: "FlowMetric \<Rightarrow> FlowField \<Rightarrow> FlowMetrics \<Rightarrow> rat" where
  "metrics_field metric FieldValue m = metricValue m metric"
| "metrics_field metric FieldQuota m = fm_quota m"
| "metrics_field metric FieldTokens m = fm_tokens m"
| "metrics_field metric FieldRequests m = fm_requests m"

fun node_field :: "FlowField \<Rightarrow> DashboardFlowNode \<Rightarrow> rat" where
  "node_field FieldValue n = fn_value n"
| "node_field FieldQuota n = fn_quota n"
| "node_field FieldTokens n = fn_tokens n"
| "node_field FieldRequests n = fn_requests n"

fun link_field :: "FlowField \<Rightarrow> DashboardFlowLink \<Rightarrow> rat" where
  "link_field FieldValue l = fl_value l"
| "link_field FieldQuota l = fl_quota l"
| "link_field FieldTokens l = fl_tokens l"
| "link_field FieldRequests l = fl_requests l"

definition occ_weight :: "FlowMetric \<Rightarrow> FlowField \<Rightarrow> 'a occurrence \<Rightarrow> rat" where
  "occ_weight metric f x = metrics_field metric f (fst (snd x))"

interpretation node_sum: tally new_node "grow_node metric" "occ_weight metric f" "node_field f" for metric f
proof
  show "node_field f (new_node x) = 0" for x by (cases x; cases f) simp_all
  show "node_field f (grow_node metric x v) = node_field f v + occ_weight metric f x" for x v
    by (cases x; cases f) (simp_all add: occ_weight_def)
qed

interpretation link_sum: tally new_link "grow_link metric" "occ_weight metric f" "link_field f" for metric f
proof
  show "link_field f (new_link x) = 0" for x by (cases x rule: new_link.cases; cases f) simp_all
  show "link_field f (grow_link metric x v) = link_field f v + occ_weight metric f x" for x v
    by (cases x; cases f) (simp_all add: occ_weight_def)
qed

text \<open>The flow of a list of paths.\<close>

definition spec_node :: "FlowMetric \<Rightarrow> FlowField \<Rightarrow> PreparedFlowPath list \<Rightarrow> (jstr \<Rightarrow> bool) \<Rightarrow> rat" where
  "spec_node metric f ps P =
     (\<Sum>p\<leftarrow>ps. \<Sum>n\<leftarrow>filter (\<lambda>n. P (pn_id n)) (prep_path p). metrics_field metric f (prep_metrics p))"

definition spec_link :: "FlowMetric \<Rightarrow> FlowField \<Rightarrow> PreparedFlowPath list \<Rightarrow> (jstr \<Rightarrow> jstr \<Rightarrow> bool) \<Rightarrow> rat" where
  "spec_link metric f ps P =
     (\<Sum>p\<leftarrow>ps. \<Sum>e\<leftarrow>filter (\<lambda>e. P (pn_id (fst e)) (pn_id (snd e))) (path_edges (prep_path p)).
        metrics_field metric f (prep_metrics p))"

definition nodes_sum :: "FlowField \<Rightarrow> (jstr \<Rightarrow> bool) \<Rightarrow> DashboardFlowNode list \<Rightarrow> rat" where
  "nodes_sum f P ns = (\<Sum>n\<leftarrow>filter (\<lambda>n. P (fn_id n)) ns. node_field f n)"

definition links_sum :: "FlowField \<Rightarrow> (jstr \<Rightarrow> jstr \<Rightarrow> bool) \<Rightarrow> DashboardFlowLink list \<Rightarrow> rat" where
  "links_sum f P ls = (\<Sum>l\<leftarrow>filter (\<lambda>l. P (fl_source l) (fl_target l)) ls. link_field f l)"

section \<open>The maps hold the flow\<close>

definition raw_nodes :: "FlowMetric \<Rightarrow> (jstr \<Rightarrow> jstr) \<Rightarrow> PreparedFlowPath list \<Rightarrow> DashboardFlowNode list" where
  "raw_nodes metric color ps = map snd (fold (addNode metric) (path_occurrences id color ps) [])"

definition raw_links :: "FlowMetric \<Rightarrow> (jstr \<Rightarrow> jstr) \<Rightarrow> PreparedFlowPath list \<Rightarrow> DashboardFlowLink list" where
  "raw_links metric color ps = map snd (fold (addLink metric) (path_occurrences path_edges color ps) [])"

lemma raw_nodes_tally:
  "raw_nodes metric color ps = map snd (upsert_all node_key new_node (grow_node metric) (path_occurrences id color ps))"
  by (simp add: raw_nodes_def upsert_all_def addNode_def[abs_def])

lemma raw_links_tally:
  "raw_links metric color ps = map snd (upsert_all link_key new_link (grow_link metric) (path_occurrences path_edges color ps))"
  by (simp add: raw_links_def upsert_all_def addLink_def[abs_def])

lemma occurrences_sum:
  assumes "parts [] = []"
  shows "(\<Sum>x\<leftarrow>filter (\<lambda>x. P (fst x)) (path_occurrences parts color ps). occ_weight metric f x)
    = (\<Sum>p\<leftarrow>ps. \<Sum>y\<leftarrow>filter P (parts (prep_path p)). metrics_field metric f (prep_metrics p))"
proof (induction ps)
  case (Cons p ps)
  have "(\<Sum>x\<leftarrow>filter (\<lambda>x. P (fst x)) (map (\<lambda>x. (x, m, c)) ys). occ_weight metric f x)
      = (\<Sum>y\<leftarrow>filter P ys. metrics_field metric f m)" for ys m c
    by (induction ys) (simp_all add: occ_weight_def)
  with Cons assms show ?case by (cases "prep_path p") (simp_all add: path_occurrences_def)
qed (simp add: path_occurrences_def)

lemma map_fst_occurrences:
  "parts [] = [] \<Longrightarrow> map fst (path_occurrences parts color ps) = concat (map (\<lambda>p. parts (prep_path p)) ps)"
  by (induction ps) (auto simp: path_occurrences_def comp_def split: list.split)

lemma occurrence_part:
  "x \<in> set (path_occurrences parts color ps) \<Longrightarrow> \<exists>p \<in> set ps. fst x \<in> set (parts (prep_path p))"
  by (auto simp: path_occurrences_def split: list.splits)

lemma node_key_fst: "node_key x = pn_id (fst x)"
  by (cases x) simp

lemma link_key_fst: "link_key x = pathLinkKey (pn_id (fst (fst x))) (pn_id (snd (fst x)))"
  by (cases x rule: link_key.cases) simp

lemma node_entry_id:
  "e \<in> set (upsert_all node_key new_node (grow_node metric) xs) \<Longrightarrow> fn_id (snd e) = fst e"
  using upsert_all_attr[where a = fn_id and add = "grow_node metric" and key = node_key and init = new_node
      and k = "fst e" and v = "snd e" and xs = xs]
  by (force simp: split_paired_all)

lemma raw_nodes_sum: "nodes_sum f P (raw_nodes metric color ps) = spec_node metric f ps P"
proof -
  let ?m = "upsert_all node_key new_node (grow_node metric) (path_occurrences id color ps)"
  have "nodes_sum f P (raw_nodes metric color ps) = (\<Sum>e\<leftarrow>filter (\<lambda>e. P (fn_id (snd e))) ?m. node_field f (snd e))"
    by (simp add: nodes_sum_def raw_nodes_tally filter_map comp_def)
  also have "filter (\<lambda>e. P (fn_id (snd e))) ?m = filter (\<lambda>e. P (fst e)) ?m"
    by (intro filter_cong refl) (simp add: node_entry_id)
  finally show ?thesis
    using node_sum.selected_sum[of f P node_key metric "path_occurrences id color ps"]
      occurrences_sum[of id metric f "\<lambda>n. P (pn_id n)" color ps]
    by (simp add: spec_node_def node_key_fst)
qed

text \<open>The key of a link is readable where the ids hold no NUL.\<close>

definition nul_free_paths :: "PreparedFlowPath list \<Rightarrow> bool" where
  "nul_free_paths ps \<longleftrightarrow> (\<forall>p \<in> set ps. \<forall>n \<in> set (prep_path p). 0 \<notin> set (pn_id n))"

definition key_ends :: "jstr \<Rightarrow> jstr \<times> jstr" where
  "key_ends k = (takeWhile (\<lambda>c. c \<noteq> 0) k, tl (dropWhile (\<lambda>c. c \<noteq> 0) k))"

lemma key_ends_pathLinkKey [simp]: "0 \<notin> set s \<Longrightarrow> key_ends (pathLinkKey s t) = (s, t)"
  by (induction s) (auto simp: key_ends_def pathLinkKey_def)

lemma path_edges_nodes: "(s, t) \<in> set (path_edges p) \<Longrightarrow> s \<in> set p \<and> t \<in> set p"
  by (cases p) (auto simp: path_edges_def dest: set_zip_leftD set_zip_rightD)

lemma occurrence_key_ends:
  assumes "nul_free_paths ps" "x \<in> set (path_occurrences path_edges color ps)"
  shows "key_ends (link_key x) = (pn_id (fst (fst x)), pn_id (snd (fst x)))"
proof -
  obtain p where p: "p \<in> set ps" "fst x \<in> set (path_edges (prep_path p))" using occurrence_part[OF assms(2)] by blast
  then have "fst (fst x) \<in> set (prep_path p)" by (metis path_edges_nodes prod.collapse)
  with p assms(1) show ?thesis by (auto simp: nul_free_paths_def link_key_fst)
qed

lemma link_entry_ends:
  assumes "nul_free_paths ps"
    and e: "e \<in> set (upsert_all link_key new_link (grow_link metric) (path_occurrences path_edges color ps))"
  shows "(fl_source (snd e), fl_target (snd e)) = key_ends (fst e)"
proof -
  have keep: "(fl_source (grow_link metric x v), fl_target (grow_link metric x v)) = (fl_source v, fl_target v)" for x v
    by (cases x) simp
  have "(fst e, snd e) \<in> set (upsert_all link_key new_link (grow_link metric) (path_occurrences path_edges color ps))"
    using e by simp
  from upsert_all_attr[where a = "\<lambda>l. (fl_source l, fl_target l)", OF keep this]
  obtain x where x: "x \<in> set (path_occurrences path_edges color ps)" "link_key x = fst e"
    "(fl_source (snd e), fl_target (snd e)) = (fl_source (new_link x), fl_target (new_link x))" by blast
  have "(fl_source (new_link x), fl_target (new_link x)) = (pn_id (fst (fst x)), pn_id (snd (fst x)))"
    by (cases x rule: new_link.cases) simp
  with x show ?thesis using occurrence_key_ends[OF assms(1) x(1)] by simp
qed

lemma raw_links_sum:
  assumes "nul_free_paths ps"
  shows "links_sum f P (raw_links metric color ps) = spec_link metric f ps P"
proof -
  let ?xs = "path_occurrences path_edges color ps"
  let ?m = "upsert_all link_key new_link (grow_link metric) ?xs"
  have "links_sum f P (raw_links metric color ps)
      = (\<Sum>e\<leftarrow>filter (\<lambda>e. P (fl_source (snd e)) (fl_target (snd e))) ?m. link_field f (snd e))"
    by (simp add: links_sum_def raw_links_tally filter_map comp_def)
  also have "filter (\<lambda>e. P (fl_source (snd e)) (fl_target (snd e))) ?m = filter (\<lambda>e. case_prod P (key_ends (fst e))) ?m"
    by (intro filter_cong refl) (metis link_entry_ends[OF assms] case_prod_conv)
  also have "(\<Sum>e\<leftarrow>filter (\<lambda>e. case_prod P (key_ends (fst e))) ?m. link_field f (snd e))
      = (\<Sum>x\<leftarrow>filter (\<lambda>x. case_prod P (key_ends (link_key x))) ?xs. occ_weight metric f x)"
    by (rule link_sum.selected_sum)
  also have "filter (\<lambda>x. case_prod P (key_ends (link_key x))) ?xs
      = filter (\<lambda>x. P (pn_id (fst (fst x))) (pn_id (snd (fst x)))) ?xs"
    by (intro filter_cong refl) (simp add: occurrence_key_ends[OF assms])
  also have "(\<Sum>x\<leftarrow>\<dots>. occ_weight metric f x) = spec_link metric f ps P"
    using occurrences_sum[of path_edges metric f "\<lambda>e. P (pn_id (fst e)) (pn_id (snd e))" color ps]
    by (simp add: spec_link_def path_edges_def)
  finally show ?thesis .
qed

section \<open>Masking, highlighting, sorting and colouring keep the flow\<close>

definition node_view :: "DashboardFlowNode \<Rightarrow> jstr \<times> FlowNodeKind \<times> (FlowField \<Rightarrow> rat)" where
  "node_view n = (fn_id n, fn_kind n, \<lambda>f. node_field f n)"

definition link_view :: "DashboardFlowLink \<Rightarrow> jstr \<times> jstr \<times> (FlowField \<Rightarrow> rat)" where
  "link_view l = (fl_source l, fl_target l, \<lambda>f. link_field f l)"

lemma node_view_updates [simp]:
  "node_view (n\<lparr>fn_label := t\<rparr>) = node_view n"
  "node_view (n\<lparr>fn_highlighted := a, fn_dimmed := b\<rparr>) = node_view n"
proof -
  have "node_field f (n\<lparr>fn_label := t\<rparr>) = node_field f n"
    "node_field f (n\<lparr>fn_highlighted := a, fn_dimmed := b\<rparr>) = node_field f n" for f by (cases f; simp)+
  then show "node_view (n\<lparr>fn_label := t\<rparr>) = node_view n"
    "node_view (n\<lparr>fn_highlighted := a, fn_dimmed := b\<rparr>) = node_view n" by (simp_all add: node_view_def)
qed

lemma link_view_updates [simp]:
  "link_view (l\<lparr>fl_sourceLabel := t, fl_targetLabel := t'\<rparr>) = link_view l"
  "link_view (l\<lparr>fl_highlighted := a, fl_dimmed := b\<rparr>) = link_view l"
  "link_view (l\<lparr>fl_share := q\<rparr>) = link_view l"
  "link_view (l\<lparr>fl_linkColor := c, fl_linkAlpha := x, fl_hoverColor := h\<rparr>) = link_view l"
proof -
  have "link_field f (l\<lparr>fl_sourceLabel := t, fl_targetLabel := t'\<rparr>) = link_field f l"
    "link_field f (l\<lparr>fl_highlighted := a, fl_dimmed := b\<rparr>) = link_field f l"
    "link_field f (l\<lparr>fl_share := q\<rparr>) = link_field f l"
    "link_field f (l\<lparr>fl_linkColor := c, fl_linkAlpha := x, fl_hoverColor := h\<rparr>) = link_field f l" for f
    by (cases f; simp)+
  then show "link_view (l\<lparr>fl_sourceLabel := t, fl_targetLabel := t'\<rparr>) = link_view l"
    "link_view (l\<lparr>fl_highlighted := a, fl_dimmed := b\<rparr>) = link_view l"
    "link_view (l\<lparr>fl_share := q\<rparr>) = link_view l"
    "link_view (l\<lparr>fl_linkColor := c, fl_linkAlpha := x, fl_hoverColor := h\<rparr>) = link_view l"
    by (simp_all add: link_view_def)
qed

lemma mask_views:
  "map node_view (fst (maskFlowGraphLabels ns ls)) = map node_view ns"
  "map link_view (snd (maskFlowGraphLabels ns ls)) = map link_view ls"
  by (simp_all add: maskFlowGraphLabels_def Let_def comp_def if_distrib cong: if_cong)

lemma highlight_views:
  "map node_view (fst (applyFlowHighlights h ns ls)) = map node_view ns"
  "map link_view (snd (applyFlowHighlights h ns ls)) = map link_view ls"
  by (auto simp: applyFlowHighlights_def split: option.split)

lemma share_views: "map link_view (assignShares rs ls) = map link_view ls"
  by (simp add: assignShares_def Let_def comp_def)

lemma color_views: "map link_view (assignLinkDisplayColors env ls) = map link_view ls"
  by (auto simp: assignLinkDisplayColors_def Let_def comp_def split: option.split)

lemma graph_views:
  assumes ps_def: "ps = preparedPaths env ctx metric (resolveVisibleStages role vs) options rows"
    and g_def: "g = buildFlowGraph env metric role palette vs ctx options rows"
  shows "mset (map node_view (graph_nodes g)) = mset (map node_view (raw_nodes metric (path_color env palette ps) ps))"
    and "mset (map link_view (graph_links g)) = mset (map link_view (raw_links metric (path_color env palette ps) ps))"
proof -
  let ?c = "path_color env palette ps"
  let ?m = "if maskSensitive options then maskFlowGraphLabels (raw_nodes metric ?c ps) (raw_links metric ?c ps)
      else (raw_nodes metric ?c ps, raw_links metric ?c ps)"
  let ?h = "applyFlowHighlights (buildFlowHighlightSets ps (activeNode options) (activeLink options)
      (resolveVisibleStages role vs)) (fst ?m) (snd ?m)"
  have g: "graph_nodes g = js_sort (byValueThenLabel env) (fst ?h)"
    "graph_links g = assignLinkDisplayColors env (assignShares (path_roots ps) (js_sort (bySourceThenTarget env) (snd ?h)))"
    unfolding g_def ps_def buildFlowGraph_def raw_nodes_def raw_links_def Let_def
    by (simp_all add: split_beta)
  have m: "map node_view (fst ?m) = map node_view (raw_nodes metric ?c ps)"
    "map link_view (snd ?m) = map link_view (raw_links metric ?c ps)"
    by (simp_all add: mask_views)
  show "mset (map node_view (graph_nodes g)) = mset (map node_view (raw_nodes metric ?c ps))"
    unfolding g m(1)[symmetric] by (metis highlight_views(1) mset_js_sort mset_map)
  show "mset (map link_view (graph_links g)) = mset (map link_view (raw_links metric ?c ps))"
    unfolding g color_views share_views m(2)[symmetric]
    by (metis highlight_views(2) mset_js_sort mset_map)
qed

lemma nodes_sum_view:
  "nodes_sum f P ns = (\<Sum>v\<leftarrow>map node_view ns. if P (fst v) then snd (snd v) f else 0)"
  by (simp add: nodes_sum_def sum_list_filter_if node_view_def comp_def cong: if_cong)

lemma links_sum_view:
  "links_sum f P ls = (\<Sum>v\<leftarrow>map link_view ls. if P (fst v) (fst (snd v)) then snd (snd v) f else 0)"
  by (simp add: links_sum_def sum_list_filter_if link_view_def comp_def cong: if_cong)

lemma sum_list_mset_eq: "mset xs = mset ys \<Longrightarrow> (\<Sum>x\<leftarrow>xs. h x) = (\<Sum>x\<leftarrow>ys. (h x :: 'b :: comm_monoid_add))"
  by (metis mset_map sum_mset_sum_list)

lemma graph_nodes_sum:
  "nodes_sum f P (graph_nodes (buildFlowGraph env metric role palette vs ctx options rows))
   = spec_node metric f (preparedPaths env ctx metric (resolveVisibleStages role vs) options rows) P"
  unfolding raw_nodes_sum[symmetric, where color = "path_color env palette
      (preparedPaths env ctx metric (resolveVisibleStages role vs) options rows)"] nodes_sum_view
  by (rule sum_list_mset_eq) (rule graph_views[OF refl refl])

lemma graph_links_sum:
  assumes "nul_free_paths (preparedPaths env ctx metric (resolveVisibleStages role vs) options rows)"
  shows "links_sum f P (graph_links (buildFlowGraph env metric role palette vs ctx options rows))
   = spec_link metric f (preparedPaths env ctx metric (resolveVisibleStages role vs) options rows) P"
  unfolding raw_links_sum[OF assms, symmetric, where color = "path_color env palette
      (preparedPaths env ctx metric (resolveVisibleStages role vs) options rows)"] links_sum_view
  by (rule sum_list_mset_eq) (rule graph_views[OF refl refl])

section \<open>The prepared paths\<close>

definition staged_path :: "FlowNodeKind list \<Rightarrow> FlowPathNode list \<Rightarrow> bool" where
  "staged_path stages p \<longleftrightarrow> map pn_kind p = stages \<and> (\<forall>n \<in> set p. id_of_kind (pn_kind n) (pn_id n))"

lemma otherFlowNodeId_kind: "id_of_kind k (otherFlowNodeId k)"
proof -
  have "js '':__other__'' = js '':'' @ js ''__other__''" by (simp flip: js_append)
  then show ?thesis by (simp add: id_of_kind_def otherFlowNodeId_def)
qed

lemma applyTopNodeLimit_staged:
  assumes "staged_path stages p" "applyTopNodeLimit sets mode labeler p = Some q"
  shows "staged_path stages q"
proof -
  let ?h = "\<lambda>T node. if isTopFlowNode T node then node else otherFlowNode (pn_kind node) labeler"
  have "pn_kind (?h T n) = pn_kind n" for T n by (simp add: otherFlowNode_def)
  then have "staged_path stages (map (?h T) p)" for T
    using assms(1) by (auto simp: staged_path_def comp_def otherFlowNode_def otherFlowNodeId_kind)
  with assms show ?thesis by (auto simp: applyTopNodeLimit_def split: option.splits if_splits)
qed

lemma flowPath_staged: "staged_path stages (flowPathForStages env ctx stages row)"
  by (simp add: staged_path_def path_ids)

lemma set_preparedPaths:
  "p \<in> set (preparedPaths env ctx metric stages options rows) \<longleftrightarrow>
     (\<exists>row \<in> set rows. \<exists>q. p = \<lparr>prep_path = q, prep_metrics = rowMetrics row\<rparr> \<and>
       applyTopNodeLimit (buildTopNodeSets env ctx metric stages (normalizeTopNodeLimit (topNodeLimit options)) rows)
         (case overflowMode options of None \<Rightarrow> Aggregate | Some m \<Rightarrow> m) (otherNodeLabel options)
         (flowPathForStages env ctx stages row) = Some q)"
  by (auto simp: preparedPaths_def Let_def List.map_filter_def image_iff)

lemma prepared_staged:
  "p \<in> set (preparedPaths env ctx metric stages options rows) \<Longrightarrow> staged_path stages (prep_path p)"
  by (auto simp: set_preparedPaths dest: applyTopNodeLimit_staged[OF flowPath_staged])

definition nul_free_rows :: "FlowEnv \<Rightarrow> FlowPathContext \<Rightarrow> FlowNodeKind list \<Rightarrow> FlowQuotaDataItem list \<Rightarrow> bool" where
  "nul_free_rows env ctx stages rows \<longleftrightarrow>
     (\<forall>row \<in> set rows. \<forall>n \<in> set (flowPathForStages env ctx stages row). 0 \<notin> set (pn_id n))"

lemma other_nul_free: "0 \<notin> set (otherFlowNodeId k)"
  by (cases k) (simp_all add: otherFlowNodeId_def js_def)

lemma applyTopNodeLimit_nul_free:
  assumes "\<forall>n \<in> set p. 0 \<notin> set (pn_id n)" "applyTopNodeLimit sets mode labeler p = Some q" "n \<in> set q"
  shows "0 \<notin> set (pn_id n)"
  using assms by (auto simp: applyTopNodeLimit_def otherFlowNode_def other_nul_free split: option.splits if_splits)

lemma prepared_nul_free:
  "nul_free_rows env ctx stages rows \<Longrightarrow> nul_free_paths (preparedPaths env ctx metric stages options rows)"
  unfolding nul_free_paths_def nul_free_rows_def
  by (clarsimp simp: set_preparedPaths) (blast dest: applyTopNodeLimit_nul_free)

section \<open>Refinement\<close>

lemma nodes_sum_own:
  "distinct (map fn_id ns) \<Longrightarrow> n \<in> set ns \<Longrightarrow> nodes_sum f (\<lambda>j. j = fn_id n) ns = node_field f n"
proof (induction ns)
  case (Cons m ns)
  have "nodes_sum f (\<lambda>j. j = i) ns = 0" if "i \<notin> fn_id ` set ns" for i
    using that by (induction ns) (auto simp: nodes_sum_def)
  with Cons show ?case by (auto simp: nodes_sum_def)
qed simp

lemma raw_node_ids:
  "distinct (map fn_id (raw_nodes metric color ps))"
  "fn_id ` set (raw_nodes metric color ps) = {pn_id n |n p. p \<in> set ps \<and> n \<in> set (prep_path p)}"
proof -
  let ?xs = "path_occurrences id color ps"
  let ?m = "upsert_all node_key new_node (grow_node metric) ?xs"
  have ids: "map fn_id (raw_nodes metric color ps) = map fst ?m"
    by (auto simp: raw_nodes_tally node_entry_id)
  then show "distinct (map fn_id (raw_nodes metric color ps))" by (simp add: distinct_upsert_all)
  have "fn_id ` set (raw_nodes metric color ps) = node_key ` set ?xs"
    using arg_cong[OF ids, of set] by (simp add: keys_upsert_all)
  also have "\<dots> = pn_id ` fst ` set ?xs" by (auto simp: node_key_fst)
  also have "fst ` set ?xs = {n. \<exists>p \<in> set ps. n \<in> set (prep_path p)}"
    using arg_cong[OF map_fst_occurrences[of id color ps], of set] by auto
  finally show "fn_id ` set (raw_nodes metric color ps) = {pn_id n |n p. p \<in> set ps \<and> n \<in> set (prep_path p)}" by auto
qed

lemma graph_node_ids:
  assumes "g = buildFlowGraph env metric role palette vs ctx options rows"
    and "ps = preparedPaths env ctx metric (resolveVisibleStages role vs) options rows"
  shows "distinct (map fn_id (graph_nodes g))"
    and "fn_id ` set (graph_nodes g) = {pn_id n |n p. p \<in> set ps \<and> n \<in> set (prep_path p)}"
proof -
  let ?r = "raw_nodes metric (path_color env palette ps) ps"
  have "image_mset fst (mset (map node_view (graph_nodes g))) = image_mset fst (mset (map node_view ?r))"
    using graph_views(1)[OF assms(2,1)] by simp
  then have m: "mset (map fn_id (graph_nodes g)) = mset (map fn_id ?r)"
    by (simp add: node_view_def image_mset.compositionality comp_def)
  show "distinct (map fn_id (graph_nodes g))"
    using mset_eq_imp_distinct_iff[OF m] raw_node_ids(1) by blast
  show "fn_id ` set (graph_nodes g) = {pn_id n |n p. p \<in> set ps \<and> n \<in> set (prep_path p)}"
    using mset_eq_setD[OF m] raw_node_ids(2)[of metric "path_color env palette ps" ps] by simp
qed

text \<open>The abstraction of a graph: what it says of every node and of every pair of nodes.\<close>

definition abs_flow :: "FlowField \<Rightarrow> DashboardFlowGraph \<Rightarrow> (jstr \<Rightarrow> rat) \<times> (jstr \<Rightarrow> jstr \<Rightarrow> rat)" where
  "abs_flow f g = (\<lambda>i. nodes_sum f (\<lambda>j. j = i) (graph_nodes g),
     \<lambda>s t. links_sum f (\<lambda>s' t'. s' = s \<and> t' = t) (graph_links g))"

definition path_flow ::
  "FlowMetric \<Rightarrow> FlowField \<Rightarrow> PreparedFlowPath list \<Rightarrow> (jstr \<Rightarrow> rat) \<times> (jstr \<Rightarrow> jstr \<Rightarrow> rat)" where
  "path_flow metric f ps =
     (\<lambda>i. \<Sum>p\<leftarrow>ps. \<Sum>n\<leftarrow>filter (\<lambda>n. pn_id n = i) (prep_path p). metrics_field metric f (prep_metrics p),
      \<lambda>s t. \<Sum>p\<leftarrow>ps. \<Sum>e\<leftarrow>filter (\<lambda>e. pn_id (fst e) = s \<and> pn_id (snd e) = t) (zip (prep_path p) (tl (prep_path p))).
        metrics_field metric f (prep_metrics p))"

text \<open>C20. The graph is the flow of its paths: each node and each link carries exactly the quota, the
  tokens, the requests and the value of the rows whose paths run through it, every node on a path
  is shown and each once, whatever is masked, highlighted, sorted and coloured.\<close>

theorem graph_refines_flow:
  assumes "nul_free_rows env ctx (resolveVisibleStages role vs) rows"
  shows "abs_flow f (buildFlowGraph env metric role palette vs ctx options rows)
      = path_flow metric f (preparedPaths env ctx metric (resolveVisibleStages role vs) options rows)
    \<and> distinct (map fn_id (graph_nodes (buildFlowGraph env metric role palette vs ctx options rows)))
    \<and> fn_id ` set (graph_nodes (buildFlowGraph env metric role palette vs ctx options rows))
      = {pn_id n |n p. p \<in> set (preparedPaths env ctx metric (resolveVisibleStages role vs) options rows)
           \<and> n \<in> set (prep_path p)}"
  using graph_node_ids[OF refl refl] graph_links_sum[OF prepared_nul_free[OF assms]]
  by (simp add: abs_flow_def path_flow_def graph_nodes_sum spec_node_def spec_link_def path_edges_def)

section \<open>Conservation\<close>

lemma map_snd_edges: "map snd (path_edges p) = tl p"
  by (simp add: path_edges_def map_snd_zip_take)

lemma map_fst_edges: "map fst (path_edges p) = butlast p"
  by (cases p) (simp_all add: path_edges_def butlast_conv_take map_fst_zip_take)

lemma sum_edges:
  "(\<Sum>e\<leftarrow>filter (\<lambda>e. P (fst e)) (path_edges p). c) = (\<Sum>n\<leftarrow>filter P (butlast p). (c :: rat))"
  "(\<Sum>e\<leftarrow>filter (\<lambda>e. P (snd e)) (path_edges p). c) = (\<Sum>n\<leftarrow>filter P (tl p). (c :: rat))"
proof -
  have const: "(\<Sum>x\<leftarrow>xs. c) = of_nat (length xs) * c" for xs :: "'b list"
    by (induction xs) (simp_all add: algebra_simps)
  have const': "(\<Sum>x\<leftarrow>xs. c) = of_nat (length xs) * c" for xs :: "'a list"
    by (induction xs) (simp_all add: algebra_simps)
  have "length (filter (\<lambda>e. P (fst e)) (path_edges p)) = length (filter P (butlast p))"
    "length (filter (\<lambda>e. P (snd e)) (path_edges p)) = length (filter P (tl p))"
    by (simp_all add: map_fst_edges[symmetric] map_snd_edges[symmetric] filter_map comp_def)
  then show "(\<Sum>e\<leftarrow>filter (\<lambda>e. P (fst e)) (path_edges p). c) = (\<Sum>n\<leftarrow>filter P (butlast p). (c :: rat))"
    "(\<Sum>e\<leftarrow>filter (\<lambda>e. P (snd e)) (path_edges p). c) = (\<Sum>n\<leftarrow>filter P (tl p). (c :: rat))"
    by (simp_all add: sum_list_const_mult const const' sum_list_triv)
qed

lemma staged_hd_kind: "staged_path stages p \<Longrightarrow> p \<noteq> [] \<Longrightarrow> pn_kind (hd p) = hd stages \<and> pn_kind (last p) = last stages"
  by (auto simp: staged_path_def hd_map last_map)

lemma staged_filter_end:
  assumes "staged_path stages p" "\<And>i. P i \<Longrightarrow> id_of_kind k i"
  shows "k \<noteq> hd stages \<Longrightarrow> filter (\<lambda>n. P (pn_id n)) (tl p) = filter (\<lambda>n. P (pn_id n)) p"
    and "k \<noteq> last stages \<Longrightarrow> filter (\<lambda>n. P (pn_id n)) (butlast p) = filter (\<lambda>n. P (pn_id n)) p"
proof -
  have only: "pn_kind n = k" if "n \<in> set p" "P (pn_id n)" for n
    using that assms id_of_kind_unique by (fastforce simp: staged_path_def)
  show "filter (\<lambda>n. P (pn_id n)) (tl p) = filter (\<lambda>n. P (pn_id n)) p" if "k \<noteq> hd stages"
    using that only staged_hd_kind[OF assms(1)] by (cases p) auto
  show "filter (\<lambda>n. P (pn_id n)) (butlast p) = filter (\<lambda>n. P (pn_id n)) p" if k: "k \<noteq> last stages"
  proof (cases "p = []")
    case False
    have "\<not> P (pn_id (last p))" using k only[of "last p"] staged_hd_kind[OF assms(1) False] False by auto
    then have "filter (\<lambda>n. P (pn_id n)) (butlast p @ [last p]) = filter (\<lambda>n. P (pn_id n)) (butlast p)"
      by (simp del: append_butlast_last_id)
    with False show ?thesis by simp
  qed simp
qed

lemma spec_conserved:
  assumes "\<And>p. p \<in> set ps \<Longrightarrow> staged_path stages (prep_path p)" "\<And>i. P i \<Longrightarrow> id_of_kind k i"
  shows "k \<noteq> hd stages \<Longrightarrow> spec_link metric f ps (\<lambda>s t. P t) = spec_node metric f ps P"
    and "k \<noteq> last stages \<Longrightarrow> spec_link metric f ps (\<lambda>s t. P s) = spec_node metric f ps P"
  using staged_filter_end[OF assms(1), of _ P k] assms(2)
  by (auto simp: spec_link_def spec_node_def sum_edges[where P = "\<lambda>n. P (pn_id n)"] intro!: arg_cong[where f = sum_list])

section \<open>Shares\<close>

lemma sum_list_divide: "(\<Sum>x\<leftarrow>xs. h x / (c :: rat)) = (\<Sum>x\<leftarrow>xs. h x) / c"
  by (induction xs) (simp_all add: add_divide_distrib)

lemma distinct_butlast_last: "distinct xs \<Longrightarrow> xs \<noteq> [] \<Longrightarrow> last xs \<notin> set (butlast xs)"
  by (induction xs) auto

definition shown_total :: "FlowMetric \<Rightarrow> PreparedFlowPath list \<Rightarrow> rat" where
  "shown_total metric ps = (\<Sum>p\<leftarrow>ps. metricValue (prep_metrics p) metric)"

lemma color_share: "map (\<lambda>l. (fl_value l, fl_share l)) (assignLinkDisplayColors env ls) = map (\<lambda>l. (fl_value l, fl_share l)) ls"
  by (auto simp: assignLinkDisplayColors_def Let_def comp_def split: option.split)

lemma share_value:
  assumes "l \<in> set (assignLinkDisplayColors env (assignShares rs ls))"
  shows "fl_share l = (let total = links_sum FieldValue (\<lambda>s t. s \<in> set rs) ls in if 0 < total then fl_value l / total else 0)"
proof -
  have "(fl_value l, fl_share l) \<in> set (map (\<lambda>l. (fl_value l, fl_share l)) (assignLinkDisplayColors env (assignShares rs ls)))"
    using assms by simp
  then have "(fl_value l, fl_share l) \<in> set (map (\<lambda>l. (fl_value l, fl_share l)) (assignShares rs ls))"
    by (simp only: color_share)
  then show ?thesis by (auto simp: assignShares_def links_sum_def Let_def)
qed

lemma graph_share:
  assumes "g = buildFlowGraph env metric role palette vs ctx options rows"
    and "ps = preparedPaths env ctx metric (resolveVisibleStages role vs) options rows"
    and "l \<in> set (graph_links g)"
  shows "fl_share l = (let total = links_sum FieldValue (\<lambda>s t. s \<in> set (path_roots ps)) (graph_links g)
     in if 0 < total then fl_value l / total else 0)"
proof -
  obtain ls where g: "graph_links g = assignLinkDisplayColors env (assignShares (path_roots ps) ls)"
    unfolding assms(1) buildFlowGraph_def Let_def assms(2)[symmetric] by (simp add: split_beta)
  have "links_sum FieldValue P (graph_links g) = links_sum FieldValue P ls" for P
    unfolding g links_sum_view color_views share_views ..
  then show ?thesis using share_value[of l env "path_roots ps" ls] assms(3) by (simp add: g)
qed

text \<open>Every path has one node and, before the last column, one link in each column.\<close>

lemma staged_column:
  assumes "staged_path stages p" "distinct stages" "k \<in> set stages"
  shows "length (filter (\<lambda>n. id_of_kind k (pn_id n)) p) = 1"
proof -
  have "filter (\<lambda>n. id_of_kind k (pn_id n)) p = filter (\<lambda>n. pn_kind n = k) p"
    using assms(1) id_of_kind_unique by (intro filter_cong refl) (auto simp: staged_path_def)
  moreover have "length (filter (\<lambda>n. pn_kind n = k) p) = length (filter (\<lambda>x. x = k) stages)"
    using assms(1) by (auto simp: staged_path_def filter_map comp_def)
  moreover have "length (filter (\<lambda>x. x = k) ks) = 1" if "distinct ks" "k \<in> set ks" for ks
    using that by (induction ks) (auto simp: filter_empty_conv)
  ultimately show ?thesis using assms(2,3) by simp
qed

lemma spec_column_field:
  assumes "\<And>p. p \<in> set ps \<Longrightarrow> staged_path stages (prep_path p)" "distinct stages" "k \<in> set stages"
  shows "spec_node metric f ps (id_of_kind k) = (\<Sum>p\<leftarrow>ps. metrics_field metric f (prep_metrics p))"
proof -
  have "(\<Sum>n\<leftarrow>filter (\<lambda>n. id_of_kind k (pn_id n)) (prep_path p). metrics_field metric f (prep_metrics p))
      = metrics_field metric f (prep_metrics p)" if "p \<in> set ps" for p
    using staged_column[OF assms(1)[OF that] assms(2,3)] by (auto simp: length_Suc_conv)
  then show ?thesis by (auto simp: spec_node_def intro!: arg_cong[where f = sum_list])
qed

lemma spec_column:
  assumes "\<And>p. p \<in> set ps \<Longrightarrow> staged_path stages (prep_path p)" "distinct stages" "k \<in> set stages"
  shows "spec_node metric FieldValue ps (id_of_kind k) = shown_total metric ps"
  using spec_column_field[OF assms, where f = FieldValue] by (simp add: shown_total_def)

lemma path_root_kind:
  assumes "\<And>p. p \<in> set ps \<Longrightarrow> staged_path stages (prep_path p)" "i \<in> set (path_roots ps)"
  shows "id_of_kind (hd stages) i"
proof -
  obtain p n ns where p: "p \<in> set ps" "prep_path p = n # ns" "i = pn_id n"
    using assms(2) by (auto simp: path_roots_def List.map_filter_def split: list.splits)
  then show ?thesis using assms(1)[OF p(1)] by (auto simp: staged_path_def)
qed

lemma root_of_link:
  assumes "\<And>p. p \<in> set ps \<Longrightarrow> staged_path stages (prep_path p)" and d: "distinct stages"
  shows "spec_link metric f ps (\<lambda>s t. s \<in> set (path_roots ps)) = spec_link metric f ps (\<lambda>s t. id_of_kind (hd stages) s)"
proof -
  have "pn_id (fst e) \<in> set (path_roots ps) \<longleftrightarrow> id_of_kind (hd stages) (pn_id (fst e))"
    if p: "p \<in> set ps" and e: "e \<in> set (path_edges (prep_path p))" for p e
  proof
    show "pn_id (fst e) \<in> set (path_roots ps) \<Longrightarrow> id_of_kind (hd stages) (pn_id (fst e))"
      by (rule path_root_kind[OF assms(1)])
  next
    assume k: "id_of_kind (hd stages) (pn_id (fst e))"
    obtain n ns where pp: "prep_path p = n # ns" using e by (cases "prep_path p") (auto simp: path_edges_def)
    have st: "staged_path stages (n # ns)" using assms(1)[OF p] pp by simp
    have "fst e \<in> set (n # ns)" using e path_edges_nodes[of "fst e" "snd e" "n # ns"] pp by simp
    moreover have "pn_kind (fst e) = pn_kind n"
      using k st calculation id_of_kind_unique by (fastforce simp: staged_path_def)
    ultimately have "fst e = n" using st d by (auto simp: staged_path_def) (metis imageI)
    moreover have "pn_id n \<noteq> []" using st id_of_kind_nonempty by (auto simp: staged_path_def)
    ultimately show "pn_id (fst e) \<in> set (path_roots ps)"
      using p pp by (force simp: path_roots_def List.map_filter_def)
  qed
  then show ?thesis unfolding spec_link_def
    by (intro arg_cong[where f = sum_list] map_cong refl filter_cong) simp
qed

lemma map_filter_total: "(\<And>x. x \<in> set xs \<Longrightarrow> h x \<noteq> None) \<Longrightarrow> List.map_filter h xs = map (\<lambda>x. the (h x)) xs"
  by (induction xs) (auto simp: List.map_filter_simps split: option.splits)

lemma aggregate_keeps_fields:
  assumes "overflowMode options \<noteq> Some HideOverflow"
  shows "(\<Sum>p\<leftarrow>preparedPaths env ctx metric stages options rows. metrics_field metric f (prep_metrics p))
     = (\<Sum>row\<leftarrow>rows. metrics_field metric f (rowMetrics row))"
proof -
  have some: "\<exists>q. applyTopNodeLimit T Aggregate lab p = Some q" for T lab p
    by (auto simp: applyTopNodeLimit_def split: option.split)
  have mode: "(case overflowMode options of None \<Rightarrow> Aggregate | Some m \<Rightarrow> m) = Aggregate"
    using assms by (cases "overflowMode options"; cases "the (overflowMode options)") auto
  let ?q = "\<lambda>row. applyTopNodeLimit (buildTopNodeSets env ctx metric stages (normalizeTopNodeLimit (topNodeLimit options)) rows)
      Aggregate (otherNodeLabel options) (flowPathForStages env ctx stages row)"
  have "preparedPaths env ctx metric stages options rows
      = map (\<lambda>row. \<lparr>prep_path = the (?q row), prep_metrics = rowMetrics row\<rparr>) rows"
    unfolding preparedPaths_def Let_def mode
    by (subst map_filter_total) (use some in \<open>auto simp: option.map_sel intro!: option.map_sel\<close>)
  then show ?thesis by (simp add: comp_def)
qed

lemma aggregate_keeps_all:
  assumes "overflowMode options \<noteq> Some HideOverflow"
  shows "shown_total metric (preparedPaths env ctx metric stages options rows) = (\<Sum>row\<leftarrow>rows. row_value metric row)"
  using aggregate_keeps_fields[OF assms, where f = FieldValue] by (simp add: shown_total_def row_value_def)

lemma node_conserved:
  assumes "nul_free_rows env ctx (resolveVisibleStages role vs) rows"
    and "n \<in> set (graph_nodes (buildFlowGraph env metric role palette vs ctx options rows))"
  shows "(\<not> id_of_kind (hd (resolveVisibleStages role vs)) (fn_id n) \<longrightarrow>
      (\<Sum>l\<leftarrow>filter (\<lambda>l. fl_target l = fn_id n) (graph_links (buildFlowGraph env metric role palette vs ctx options rows)).
         link_field f l) = node_field f n)
    \<and> (\<not> id_of_kind (last (resolveVisibleStages role vs)) (fn_id n) \<longrightarrow>
      (\<Sum>l\<leftarrow>filter (\<lambda>l. fl_source l = fn_id n) (graph_links (buildFlowGraph env metric role palette vs ctx options rows)).
         link_field f l) = node_field f n)"
proof -
  let ?g = "buildFlowGraph env metric role palette vs ctx options rows"
  let ?ps = "preparedPaths env ctx metric (resolveVisibleStages role vs) options rows"
  have dist: "distinct (map fn_id (graph_nodes ?g))" by (rule graph_node_ids[OF refl refl])
  have own: "nodes_sum f (\<lambda>j. j = fn_id n) (graph_nodes ?g) = node_field f n"
    by (rule nodes_sum_own[OF dist assms(2)])
  have "fn_id n \<in> {pn_id n |n p. p \<in> set ?ps \<and> n \<in> set (prep_path p)}"
    using assms(2) graph_node_ids(2)[OF refl refl] by blast
  then obtain p q where pq: "p \<in> set ?ps" "q \<in> set (prep_path p)" "fn_id n = pn_id q" by blast
  define k where "k = pn_kind q"
  have k: "id_of_kind k (fn_id n)"
    using prepared_staged[OF pq(1)] pq(2,3) by (simp add: staged_path_def k_def)
  have links: "links_sum f P (graph_links ?g) = spec_link metric f ?ps P" for P
    by (rule graph_links_sum[OF prepared_nul_free[OF assms(1)]])
  have kinds: "id_of_kind k i" if "i = fn_id n" for i using k that by simp
  note staged = prepared_staged[of _ env ctx metric "resolveVisibleStages role vs" options rows]
  have node: "spec_node metric f ?ps (\<lambda>j. j = fn_id n) = node_field f n"
    using own unfolding graph_nodes_sum .
  have into: "links_sum f (\<lambda>s t. t = fn_id n) (graph_links ?g) = node_field f n"
    if "\<not> id_of_kind (hd (resolveVisibleStages role vs)) (fn_id n)"
    unfolding links node[symmetric] by (rule spec_conserved(1)[OF staged kinds]) (use that k in auto)
  have out: "links_sum f (\<lambda>s t. s = fn_id n) (graph_links ?g) = node_field f n"
    if "\<not> id_of_kind (last (resolveVisibleStages role vs)) (fn_id n)"
    unfolding links node[symmetric] by (rule spec_conserved(2)[OF staged kinds]) (use that k in auto)
  show ?thesis using into out by (simp add: links_sum_def)
qed

lemma column_total:
  assumes "k \<in> set (resolveVisibleStages role vs)"
  shows "(\<Sum>n\<leftarrow>filter (\<lambda>n. id_of_kind k (fn_id n)) (graph_nodes (buildFlowGraph env metric role palette vs ctx options rows)). node_field f n)
     = (\<Sum>p\<leftarrow>preparedPaths env ctx metric (resolveVisibleStages role vs) options rows. metrics_field metric f (prep_metrics p))"
  using graph_nodes_sum[where P = "id_of_kind k"] spec_column_field[OF prepared_staged stages_distinct assms]
  unfolding nodes_sum_def by simp

text \<open>C21. The flow is conserved, for the value and for the quota, the tokens and the requests alike: what arrives at a
  node that is not in the first column over its links is what the node shows, and what leaves a node that is
  not in the last column is too; the nodes of every column together show the total of the paths that are
  drawn, which is the total of all rows unless overflowing paths are hidden.\<close>

theorem flow_conserved:
  assumes g: "g = buildFlowGraph env metric role palette vs ctx options rows" and st: "st = resolveVisibleStages role vs"
    and ps: "ps = preparedPaths env ctx metric st options rows" and nul: "nul_free_rows env ctx st rows"
  shows "(\<forall>n \<in> set (graph_nodes g).
      (\<not> id_of_kind (hd st) (fn_id n) \<longrightarrow> (\<Sum>l\<leftarrow>filter (\<lambda>l. fl_target l = fn_id n) (graph_links g). link_field f l) = node_field f n)
      \<and> (\<not> id_of_kind (last st) (fn_id n) \<longrightarrow> (\<Sum>l\<leftarrow>filter (\<lambda>l. fl_source l = fn_id n) (graph_links g). link_field f l) = node_field f n))
    \<and> (\<forall>k \<in> set st. (\<Sum>n\<leftarrow>filter (\<lambda>n. id_of_kind k (fn_id n)) (graph_nodes g). node_field f n) = (\<Sum>p\<leftarrow>ps. metrics_field metric f (prep_metrics p)))
    \<and> (overflowMode options \<noteq> Some HideOverflow \<longrightarrow>
         (\<Sum>p\<leftarrow>ps. metrics_field metric f (prep_metrics p)) = (\<Sum>row\<leftarrow>rows. metrics_field metric f (rowMetrics row)))"
proof (intro conjI ballI)
  fix k assume "k \<in> set st"
  then show "(\<Sum>n\<leftarrow>filter (\<lambda>n. id_of_kind k (fn_id n)) (graph_nodes g). node_field f n) = (\<Sum>p\<leftarrow>ps. metrics_field metric f (prep_metrics p))"
    unfolding g ps st by (rule column_total)
next
  show "overflowMode options \<noteq> Some HideOverflow \<longrightarrow>
      (\<Sum>p\<leftarrow>ps. metrics_field metric f (prep_metrics p)) = (\<Sum>row\<leftarrow>rows. metrics_field metric f (rowMetrics row))"
    unfolding ps using aggregate_keeps_fields by blast
qed (use node_conserved[OF nul[unfolded st], where f = f and metric = metric and options = options and palette = palette] in \<open>auto simp: g st\<close>)

text \<open>The shares say what they seem to: whenever anything flows, the share of a link is its part of
  the whole that is shown, the shares between any two neighbouring columns add up to one, and
  unless overflowing paths are hidden that whole is the total of all rows.\<close>

lemma column_shares_sum_to_one:
  assumes nul: "nul_free_rows env ctx (resolveVisibleStages role vs) rows"
    and g: "g = buildFlowGraph env metric role palette vs ctx options rows"
    and ps: "ps = preparedPaths env ctx metric (resolveVisibleStages role vs) options rows"
    and pos: "0 < shown_total metric ps"
    and k: "k \<in> set (butlast (resolveVisibleStages role vs))"
  shows "(\<forall>l \<in> set (graph_links g). fl_share l = fl_value l / shown_total metric ps)
    \<and> (\<Sum>l\<leftarrow>filter (\<lambda>l. id_of_kind k (fl_source l)) (graph_links g). fl_share l) = 1
    \<and> (overflowMode options \<noteq> Some HideOverflow \<longrightarrow> shown_total metric ps = (\<Sum>row\<leftarrow>rows. row_value metric row))"
proof -
  let ?st = "resolveVisibleStages role vs"
  note d = stages_distinct[of role vs]
  have staged: "\<And>p. p \<in> set ps \<Longrightarrow> staged_path ?st (prep_path p)" unfolding ps by (rule prepared_staged)
  have ne: "?st \<noteq> []" using stages_length[of role vs] by auto
  have two: "hd ?st \<noteq> last ?st"
    using d stages_length[of role vs] by (cases ?st; cases "tl ?st") auto
  have links: "links_sum FieldValue P (graph_links g) = spec_link metric FieldValue ps P" for P
    unfolding g ps by (rule graph_links_sum[OF prepared_nul_free[OF nul]])
  have col: "spec_link metric FieldValue ps (\<lambda>s t. id_of_kind j s) = shown_total metric ps"
    if "j \<in> set ?st" "j \<noteq> last ?st" for j
    using spec_conserved(2)[OF staged, where P = "id_of_kind j" and k = j] spec_column[OF staged d that(1)] that(2) by simp
  have total: "links_sum FieldValue (\<lambda>s t. s \<in> set (path_roots ps)) (graph_links g) = shown_total metric ps"
    using col[of "hd ?st"] ne two root_of_link[OF staged d, where metric = metric and f = FieldValue] by (simp add: links)
  have share: "fl_share l = fl_value l / shown_total metric ps" if "l \<in> set (graph_links g)" for l
    using graph_share[OF g ps that] pos by (simp add: total Let_def)
  have kl: "k \<in> set ?st" "k \<noteq> last ?st"
    using k d ne by (auto dest: in_set_butlastD simp: distinct_butlast_last)
  have "(\<Sum>l\<leftarrow>filter (\<lambda>l. id_of_kind k (fl_source l)) (graph_links g). fl_share l)
      = (\<Sum>l\<leftarrow>filter (\<lambda>l. id_of_kind k (fl_source l)) (graph_links g). fl_value l / shown_total metric ps)"
    using share by (intro arg_cong[where f = sum_list] map_cong refl) simp
  also have "\<dots> = links_sum FieldValue (\<lambda>s t. id_of_kind k s) (graph_links g) / shown_total metric ps"
    by (simp add: links_sum_def sum_list_divide)
  also have "\<dots> = 1" using col[OF kl] pos by (simp add: links)
  finally show ?thesis using share aggregate_keeps_all[of options metric env ctx ?st rows] by (simp add: ps)
qed

section \<open>Sample rows\<close>

definition sample_flow_env :: FlowEnv where
  "sample_flow_env = \<lparr>number_text = (\<lambda>q. show_nat (nat \<lfloor>q\<rfloor>)), localeCompare = (\<lambda>a b. 0), chartColors = (\<lambda>_. []),
     toFixed2 = (\<lambda>_. []), formatNumber = (\<lambda>_. [])\<rparr>"

definition sample_row :: "jstr \<Rightarrow> rat \<Rightarrow> FlowQuotaDataItem" where
  "sample_row model quota = \<lparr>row_user_id = None, row_username = None, row_node_name = None, row_use_group = Some (js ''vip''),
     row_token_id = None, row_token_name = Some (js ''k1''), row_channel_id = None, row_channel_name = None,
     row_model_name = Some model, row_token_used = None, row_count = Some (Fin 1), row_quota = Some (Fin quota)\<rparr>"

definition sample_options :: FlowGraphOptions where
  "sample_options = \<lparr>topNodeLimit = None, overflowMode = None, otherNodeLabel = None, activeNode = None,
     activeLink = None, maskSensitive = False\<rparr>"

definition sample_rows :: "FlowQuotaDataItem list" where
  "sample_rows = [sample_row (js ''m1'') 3, sample_row (js ''m2'') 5]"

lemma sample_nul_free: "nul_free_rows sample_flow_env None (resolveVisibleStages FlowUser None) sample_rows"
  by (auto simp: nul_free_rows_def sample_rows_def sample_row_def flowPathForStages_def resolveVisibleStages_def
      tokenNode_def groupNode_def modelNode_def flowNumber_def js_def Let_def)

lemma sample_prepared:
  "preparedPaths sample_flow_env None MetricQuota (resolveVisibleStages FlowUser None) sample_options sample_rows
   = map (\<lambda>row. \<lparr>prep_path = flowPathForStages sample_flow_env None (resolveVisibleStages FlowUser None) row,
        prep_metrics = rowMetrics row\<rparr>) sample_rows"
  by (simp add: preparedPaths_def sample_options_def sample_rows_def buildTopNodeSets_def normalizeTopNodeLimit_def
      applyTopNodeLimit_def List.map_filter_simps)

theorem graph_refines_flow_witness:
  "nul_free_rows sample_flow_env None (resolveVisibleStages FlowUser None) sample_rows
   \<and> abs_flow FieldQuota (buildFlowGraph sample_flow_env MetricQuota FlowUser None None None sample_options sample_rows)
     = path_flow MetricQuota FieldQuota
         (preparedPaths sample_flow_env None MetricQuota (resolveVisibleStages FlowUser None) sample_options sample_rows)"
  using sample_nul_free graph_refines_flow[OF sample_nul_free] by blast

lemma sample_node:
  "\<exists>n \<in> set (graph_nodes (buildFlowGraph sample_flow_env MetricQuota FlowUser None None None sample_options sample_rows)).
     fn_id n = js ''group:vip''"
proof -
  let ?g = "buildFlowGraph sample_flow_env MetricQuota FlowUser None None None sample_options sample_rows"
  let ?p = "\<lambda>row. \<lparr>prep_path = flowPathForStages sample_flow_env None (resolveVisibleStages FlowUser None) row,
      prep_metrics = rowMetrics row\<rparr>"
  let ?r = "sample_row (js ''m1'') 3"
  have "groupNode ?r \<in> set (prep_path (?p ?r))" "?r \<in> set sample_rows"
    by (simp_all add: flowPathForStages_def resolveVisibleStages_def sample_rows_def)
  moreover have "pn_id (groupNode ?r) = js ''group:vip''"
    by (simp add: groupNode_def sample_row_def Let_def flip: js_append)
  ultimately have "js ''group:vip'' \<in> fn_id ` set (graph_nodes ?g)"
    unfolding graph_node_ids(2)[OF refl refl] sample_prepared by force
  then show ?thesis by auto
qed

theorem flow_conserved_witness:
  "(\<exists>n \<in> set (graph_nodes (buildFlowGraph sample_flow_env MetricQuota FlowUser None None None sample_options sample_rows)).
     (\<Sum>l\<leftarrow>filter (\<lambda>l. fl_target l = js ''group:vip'')
        (graph_links (buildFlowGraph sample_flow_env MetricQuota FlowUser None None None sample_options sample_rows)).
        link_field FieldQuota l) = node_field FieldQuota n)
   \<and> (\<Sum>n\<leftarrow>filter (\<lambda>n. id_of_kind KModel (fn_id n))
        (graph_nodes (buildFlowGraph sample_flow_env MetricQuota FlowUser None None None sample_options sample_rows)). node_field FieldTokens n)
     = (\<Sum>row\<leftarrow>sample_rows. fm_tokens (rowMetrics row))"
proof -
  obtain n where n: "n \<in> set (graph_nodes (buildFlowGraph sample_flow_env MetricQuota FlowUser None None None sample_options sample_rows))"
    "fn_id n = js ''group:vip''" using sample_node by blast
  note q = flow_conserved[OF refl refl refl sample_nul_free, where f = FieldQuota and metric = MetricQuota and options = sample_options and palette = None]
  note t = flow_conserved[OF refl refl refl sample_nul_free, where f = FieldTokens and metric = MetricQuota and options = sample_options and palette = None]
  have "\<not> id_of_kind (hd (resolveVisibleStages FlowUser None)) (fn_id n)"
    using n(2) by (simp add: resolveVisibleStages_def id_of_kind_def js_def)
  with conjunct1[OF q] n have "(\<Sum>l\<leftarrow>filter (\<lambda>l. fl_target l = js ''group:vip'')
      (graph_links (buildFlowGraph sample_flow_env MetricQuota FlowUser None None None sample_options sample_rows)). link_field FieldQuota l)
      = node_field FieldQuota n" by metis
  moreover have "KModel \<in> set (resolveVisibleStages FlowUser None)" "overflowMode sample_options \<noteq> Some HideOverflow"
    by (simp_all add: resolveVisibleStages_def sample_options_def)
  ultimately show ?thesis using conjunct2[OF t] n(1) by (intro conjI bexI[of _ n]) simp_all
qed

end
