(* ===== verification/Flow_Display.thy ===== *)
theory Flow_Display
  imports Flow_Conservation
begin

text \<open>
  What surrounds the flow graph in \<open>flow.ts\<close> and \<open>flow-selection.ts\<close>: the summary, the filter options,
  the whole of \<open>buildDashboardFlowData\<close>, the data handed to the chart and read back from its events,
  and the state of the display.  The theorems concern what the user sees: which nodes a limit keeps,
  what masking hides, what a selection highlights, and that the number shown beside a filter option
  is the total that choosing it gives.
\<close>

section \<open>Summary and filter options\<close>

definition buildSummary :: "FlowQuotaDataItem list \<Rightarrow> FlowMetrics" where
  "buildSummary rows = foldl (\<lambda>summary row. let m = rowMetrics row in
     \<lparr>fm_quota = fm_quota summary + fm_quota m, fm_tokens = fm_tokens summary + fm_tokens m,
      fm_requests = fm_requests summary + fm_requests m\<rparr>) \<lparr>fm_quota = 0, fm_tokens = 0, fm_requests = 0\<rparr> rows"

record FlowUserFilterOption =
  uo_value :: jstr
  uo_label :: jstr
  uo_valueLabel :: jstr
  uo_valueRaw :: rat
  uo_color :: jstr

record FlowNodeFilterOption =
  no_kind :: FlowNodeKind
  no_value :: jstr
  no_label :: jstr
  no_valueLabel :: jstr
  no_valueRaw :: rat
  no_color :: jstr

text \<open>\<open>!row.user_id && !row.username\<close>: rows without a user are not offered.\<close>

definition row_has_user :: "FlowQuotaDataItem \<Rightarrow> bool" where
  "row_has_user row \<longleftrightarrow> (case row_user_id row of None \<Rightarrow> False | Some n \<Rightarrow> num_truthy n) \<or> str_truthy (row_username row)"

definition buildUserFilterOptions ::
  "FlowEnv \<Rightarrow> FlowMetric \<Rightarrow> jstr list option \<Rightarrow> FlowQuotaDataItem list \<Rightarrow> FlowUserFilterOption list" where
  "buildUserFilterOptions env metric palette rows =
     (let colors = stableColorMap env (js_sort (localeCompare env) (map (\<lambda>row. pn_id (userNode env row)) rows)) palette;
          users = upsert_all (\<lambda>row. pn_id (userNode env row))
            (\<lambda>row. (pn_label (userNode env row), 0,
               case map_of colors (pn_id (userNode env row)) of Some c \<Rightarrow> c | None \<Rightarrow> colorAt env 0 palette))
            (\<lambda>row (label, v, color). (label, v + row_value metric row, color)) (filter row_has_user rows)
      in js_sort (\<lambda>a b. cmp_or (uo_valueRaw b - uo_valueRaw a) (localeCompare env (uo_label a) (uo_label b)))
           (map (\<lambda>(i, label, v, color). \<lparr>uo_value = i, uo_label = label, uo_valueLabel = formatNumber env v,
              uo_valueRaw = v, uo_color = color\<rparr>) users))"

definition nodeFilterKey :: "FlowNodeKind \<Rightarrow> jstr \<Rightarrow> jstr" where
  "nodeFilterKey kind i = kind_text kind @ 0 # i"

text \<open>The nodes of one stage with their sums over the rows the other filters leave.\<close>

definition option_totals ::
  "FlowEnv \<Rightarrow> FlowPathContext \<Rightarrow> FlowMetric \<Rightarrow> FlowNodeFilter list option \<Rightarrow> FlowNodeKind list \<Rightarrow> FlowQuotaDataItem list
     \<Rightarrow> FlowNodeKind \<Rightarrow> (FlowPathNode \<times> rat) list" where
  "option_totals env ctx metric selectedNodes stages rows stage =
     map snd (upsert_all (\<lambda>row. nodeFilterKey (pn_kind (nodeBuilder env ctx stage row)) (pn_id (nodeBuilder env ctx stage row)))
       (\<lambda>row. (nodeBuilder env ctx stage row, 0)) (\<lambda>row (node, v). (node, v + row_value metric row))
       (filterRowsByNodes env ctx (selectedNodeFiltersExceptKind selectedNodes stage) stages rows))"

definition stage_index :: "FlowNodeKind list \<Rightarrow> FlowNodeKind \<Rightarrow> rat" where
  "stage_index stages kind = of_nat (length (takeWhile (\<lambda>s. s \<noteq> kind) stages))"

definition byStageThenValue :: "FlowEnv \<Rightarrow> FlowNodeKind list \<Rightarrow> FlowNodeFilterOption comparator" where
  "byStageThenValue env stages a b =
     cmp_or (stage_index stages (no_kind a) - stage_index stages (no_kind b))
       (cmp_or (no_valueRaw b - no_valueRaw a)
          (cmp_or (localeCompare env (no_label a) (no_label b)) (localeCompare env (no_value a) (no_value b))))"

definition buildNodeFilterOptions ::
  "FlowEnv \<Rightarrow> FlowMetric \<Rightarrow> FlowRole \<Rightarrow> FlowNodeKind list option \<Rightarrow> jstr list option \<Rightarrow> FlowPathContext
     \<Rightarrow> FlowNodeFilter list option \<Rightarrow> FlowQuotaDataItem list \<Rightarrow> FlowNodeFilterOption list" where
  "buildNodeFilterOptions env metric role visibleStages palette ctx selectedNodes rows =
     (let stages = resolveVisibleStages role visibleStages;
          colorIds = js_unique (concat (map (\<lambda>row. map pn_id (flowPathForStages env ctx stages row)) rows));
          colors = stableColorMap env (js_sort (localeCompare env) colorIds) palette
      in js_sort (byStageThenValue env stages)
           (concat (map (\<lambda>stage. map (\<lambda>(node, v). \<lparr>no_kind = pn_kind node, no_value = pn_id node, no_label = pn_label node,
               no_valueLabel = formatNumber env v, no_valueRaw = v,
               no_color = (case map_of colors (pn_id node) of Some c \<Rightarrow> c | None \<Rightarrow> colorAt env 0 palette)\<rparr>)
             (option_totals env ctx metric selectedNodes stages rows stage)) stages)))"

record FlowFilterOptions =
  fo_users :: "FlowUserFilterOption list"
  fo_nodes :: "FlowNodeFilterOption list"

definition buildFlowFilterOptions ::
  "FlowEnv \<Rightarrow> FlowMetric \<Rightarrow> jstr list option \<Rightarrow> FlowRole \<Rightarrow> FlowNodeKind list option \<Rightarrow> FlowNodeFilter list option
     \<Rightarrow> FlowQuotaDataItem list \<Rightarrow> FlowFilterOptions" where
  "buildFlowFilterOptions env metric palette role visibleStages selectedNodes rows =
     \<lparr>fo_users = buildUserFilterOptions env metric palette rows,
      fo_nodes = buildNodeFilterOptions env metric role visibleStages palette None selectedNodes rows\<rparr>"

record FlowBuildOptions =
  opt_role :: "FlowRole option"
  opt_selectedUsers :: "jstr list option"
  opt_selectedNodes :: "FlowNodeFilter list option"
  opt_colorPalette :: "jstr list option"
  opt_visibleStages :: "FlowNodeKind list option"
  opt_deletedTokenLabel :: FlowPathContext
  opt_graph :: FlowGraphOptions

record ProcessedFlowData =
  pd_summary :: FlowMetrics
  pd_flow :: DashboardFlowGraph
  pd_filterOptions :: FlowFilterOptions

definition buildDashboardFlowData ::
  "FlowEnv \<Rightarrow> FlowMetric \<Rightarrow> FlowBuildOptions \<Rightarrow> FlowQuotaDataItem list \<Rightarrow> ProcessedFlowData" where
  "buildDashboardFlowData env metric options rows =
     (let role = (case opt_role options of None \<Rightarrow> FlowUser | Some r \<Rightarrow> r);
          palette = opt_colorPalette options; ctx = opt_deletedTokenLabel options;
          stages = resolveVisibleStages role (opt_visibleStages options);
          userFilteredRows = filterRows env (opt_selectedUsers options) rows;
          filteredRows = filterRowsByNodes env ctx (opt_selectedNodes options) stages userFilteredRows
      in \<lparr>pd_summary = buildSummary filteredRows,
          pd_flow = buildFlowGraph env metric role palette (opt_visibleStages options) ctx (opt_graph options) filteredRows,
          pd_filterOptions =
            \<lparr>fo_users = buildUserFilterOptions env metric palette rows,
             fo_nodes = buildNodeFilterOptions env metric role (opt_visibleStages options) palette ctx
               (opt_selectedNodes options) userFilteredRows\<rparr>\<rparr>)"

section \<open>The chart's data and events\<close>

text \<open>\<open>toNumber\<close> is the conversion \<open>Number(v)\<close> of the language.\<close>

definition numberValue :: "(jval \<Rightarrow> jnum) \<Rightarrow> jval \<Rightarrow> rat" where
  "numberValue toNumber v = (case toNumber v of Fin q \<Rightarrow> q | _ \<Rightarrow> 0)"

definition kind_of_text :: "jstr \<Rightarrow> FlowNodeKind option" where
  "kind_of_text s = find (\<lambda>k. kind_text k = s) all_kinds"

definition recordValue :: "jval \<Rightarrow> jval option" where
  "recordValue v = (if is_object v then Some v else None)"

definition array_at :: "jval list \<Rightarrow> rat \<Rightarrow> jval" where
  "array_at vs q = (if of_int \<lfloor>q\<rfloor> = q \<and> 0 \<le> q \<and> nat \<lfloor>q\<rfloor> < length vs then vs ! nat \<lfloor>q\<rfloor> else JUndefined)"

definition sankeyDatumSource :: "(jval \<Rightarrow> jnum) \<Rightarrow> jval \<Rightarrow> jval" where
  "sankeyDatumSource toNumber datum =
     (case jget datum (js ''datum'') of
        JArr vs \<Rightarrow> (case recordValue (array_at vs (numberValue toNumber (jget datum (js ''depth'')))) of
            Some v \<Rightarrow> v
          | None \<Rightarrow> (case recordValue (array_at vs 0) of Some v \<Rightarrow> v | None \<Rightarrow> datum))
      | nested \<Rightarrow> (case recordValue nested of Some v \<Rightarrow> v | None \<Rightarrow> datum))"

definition sankeyDatumValue :: "(jval \<Rightarrow> jnum) \<Rightarrow> jval \<Rightarrow> jstr \<Rightarrow> jval" where
  "sankeyDatumValue toNumber datum key =
     (if jget datum key \<noteq> JUndefined then jget datum key else jget (sankeyDatumSource toNumber datum) key)"

definition flowSankeyDatumValue :: "(jval \<Rightarrow> jnum) \<Rightarrow> jval \<Rightarrow> jstr \<Rightarrow> jval" where
  "flowSankeyDatumValue toNumber datum key =
     (case recordValue datum of None \<Rightarrow> JUndefined | Some r \<Rightarrow> sankeyDatumValue toNumber r key)"

definition isSankeyLinkDatum :: "(jval \<Rightarrow> jnum) \<Rightarrow> jval \<Rightarrow> bool" where
  "isSankeyLinkDatum toNumber datum \<longleftrightarrow> sankeyDatumValue toNumber datum (js ''source'') \<noteq> JUndefined
     \<and> sankeyDatumValue toNumber datum (js ''target'') \<noteq> JUndefined"

definition flowNodeFilterFromSankeyDatum ::
  "(jval \<Rightarrow> jnum) \<Rightarrow> (jnum \<Rightarrow> jstr) \<Rightarrow> jval \<Rightarrow> FlowNodeFilter option" where
  "flowNodeFilterFromSankeyDatum toNumber numText datum =
     (if \<not> is_object datum \<or> isSankeyLinkDatum toNumber datum then None
      else case (flowSankeyDatumValue toNumber datum (js ''key''), flowSankeyDatumValue toNumber datum (js ''kind'')) of
        (i, JStr k) \<Rightarrow> (case kind_of_text k of None \<Rightarrow> None
          | Some kind \<Rightarrow> (case i of JStr s \<Rightarrow> Some \<lparr>nf_kind = kind, nf_id = s\<rparr>
              | JNum n \<Rightarrow> Some \<lparr>nf_kind = kind, nf_id = numText n\<rparr> | _ \<Rightarrow> None))
      | _ \<Rightarrow> None)"

definition opt_bool :: "bool option \<Rightarrow> jval" where
  "opt_bool b = (case b of None \<Rightarrow> JUndefined | Some x \<Rightarrow> JBool x)"

text \<open>The data objects of \<open>buildFlowSankeySpec\<close>.\<close>

definition sankey_node :: "DashboardFlowNode \<Rightarrow> jval" where
  "sankey_node n = JObj [(js ''key'', JStr (fn_id n)), (js ''name'', JStr (fn_label n)), (js ''rawLabel'', JStr (fn_label n)),
     (js ''kind'', JStr (kind_text (fn_kind n))), (js ''value'', JNum (Fin (fn_value n))),
     (js ''requests'', JNum (Fin (fn_requests n))), (js ''quota'', JNum (Fin (fn_quota n))),
     (js ''tokens'', JNum (Fin (fn_tokens n))), (js ''color'', JStr (fn_color n)), (js ''colorKey'', JStr (fn_colorKey n)),
     (js ''highlighted'', opt_bool (fn_highlighted n)), (js ''dimmed'', opt_bool (fn_dimmed n))]"

text \<open>\<open>Number(flag)\<close>: \<open>undefined\<close> gives NaN, and a comparison with NaN falls through to the next
  criterion, as a difference that is not a number is falsy.\<close>

definition flag_diff :: "bool option \<Rightarrow> bool option \<Rightarrow> rat" where
  "flag_diff a b = (case (a, b) of (Some x, Some y) \<Rightarrow> of_bool x - of_bool y | _ \<Rightarrow> 0)"

definition byLinkDrawPriority :: "FlowEnv \<Rightarrow> DashboardFlowLink comparator" where
  "byLinkDrawPriority env a b =
     cmp_or (flag_diff (fl_dimmed a) (fl_dimmed b))
       (cmp_or (flag_diff (fl_highlighted b) (fl_highlighted a))
          (cmp_or (fl_value b - fl_value a) (localeCompare env (linkStableKey a) (linkStableKey b))))"

definition link_zIndex :: "nat \<Rightarrow> DashboardFlowLink \<Rightarrow> nat" where
  "link_zIndex index l =
     (if fl_highlighted l = Some True then 1000000 + index
      else if fl_dimmed l = Some True then index else 100000 + index)"

definition sankey_links :: "FlowEnv \<Rightarrow> DashboardFlowGraph \<Rightarrow> (DashboardFlowLink \<times> nat) list" where
  "sankey_links env flow =
     map (\<lambda>(index, l). (l, link_zIndex index l))
       (enumerate 0 (js_sort (byLinkDrawPriority env) (filter (\<lambda>l. 0 < fl_value l) (graph_links flow))))"

section \<open>The state of the display\<close>

datatype FlowDisplayState = DisplayLoading | DisplayError | DisplayEmpty | DisplayChart

definition flowDisplayState :: "bool \<Rightarrow> bool \<Rightarrow> nat \<Rightarrow> bool \<Rightarrow> FlowDisplayState" where
  "flowDisplayState isLoading isError linkCount themeReady =
     (if isLoading then DisplayLoading else if isError then DisplayError else if linkCount = 0 then DisplayEmpty
      else if \<not> themeReady then DisplayLoading else DisplayChart)"

record FlowResponse =
  flow_success :: bool
  flow_data :: "FlowQuotaDataItem list option"
  flow_message :: "jstr option"

definition requireSuccessfulFlowRows :: "FlowResponse \<Rightarrow> jstr \<Rightarrow> jstr + FlowQuotaDataItem list" where
  "requireSuccessfulFlowRows response fallbackMessage =
     (if \<not> flow_success response then Inl (str_or (flow_message response) fallbackMessage)
      else Inr (case flow_data response of None \<Rightarrow> [] | Some rows \<Rightarrow> rows))"

definition compactFlowSelectionLabel :: "nat \<Rightarrow> jstr" where
  "compactFlowSelectionLabel n = (if 0 < n then show_nat n else js ''*'')"

definition visibleFlowUsers :: "FlowUserFilterOption list \<Rightarrow> jstr list \<Rightarrow> FlowUserFilterOption list" where
  "visibleFlowUsers users selectedUsers =
     (if selectedUsers = [] then users else filter (\<lambda>u. uo_value u \<in> set selectedUsers) users)"

section \<open>Filter options\<close>

interpretation option_sum: tally "\<lambda>row. (nodeBuilder env ctx stage row, 0)"
    "\<lambda>row (node, v). (node, v + row_value metric row)" "row_value metric" snd for env ctx stage metric
  by unfold_locales (auto simp: split_beta)

lemma buildSummary_value: "metricValue (buildSummary rows) metric = (\<Sum>row\<leftarrow>rows. row_value metric row)"
proof -
  let ?f = "\<lambda>summary row. let m = rowMetrics row in
     \<lparr>fm_quota = fm_quota summary + fm_quota m, fm_tokens = fm_tokens summary + fm_tokens m,
      fm_requests = fm_requests summary + fm_requests m\<rparr>"
  have "metricValue (foldl ?f s rows) metric = metricValue s metric + (\<Sum>row\<leftarrow>rows. row_value metric row)" for s
    by (induction rows arbitrary: s) (cases metric; simp add: row_value_def Let_def)+
  then show ?thesis by (cases metric) (simp_all add: buildSummary_def)
qed

lemma except_kind_list:
  "(case selectedNodeFiltersExceptKind sel k of None \<Rightarrow> [] | Some fs \<Rightarrow> fs)
   = filter (\<lambda>f. nf_kind f \<noteq> k) (case sel of None \<Rightarrow> [] | Some fs \<Rightarrow> fs)"
  by (simp add: selectedNodeFiltersExceptKind_def Let_def)

text \<open>Adding one node of a kind to the filters of the other kinds keeps, of the rows they leave, those
  with that node.\<close>

lemma choice_ball:
  assumes "k \<in> set stages" "\<forall>f \<in> set fs. nf_kind f \<noteq> k" and c: "c = \<lparr>nf_kind = k, nf_id = i\<rparr>"
    and hit_def: "hit = (\<lambda>hs f. \<exists>n \<in> set (flowPathForStages env ctx stages row). \<exists>g \<in> set hs.
      nf_kind g = nf_kind f \<and> pn_kind n = nf_kind f \<and> pn_id n = nf_id g)"
  shows "(\<forall>f \<in> set (fs @ [c]). nf_kind f \<in> set stages \<longrightarrow> hit (fs @ [c]) f)
    \<longleftrightarrow> (\<forall>f \<in> set fs. nf_kind f \<in> set stages \<longrightarrow> hit fs f) \<and> pn_id (nodeBuilder env ctx k row) = i"
proof -
  have own: "hit (fs @ [c]) c \<longleftrightarrow> pn_id (nodeBuilder env ctx k row) = i"
    using assms(1,2) by (auto simp: hit_def c flowPathForStages_def)
  have "hit (fs @ [c]) f \<longleftrightarrow> hit fs f" if "f \<in> set fs" for f
    using that assms(2) by (auto simp: hit_def c)
  then have "(\<forall>f \<in> set fs. nf_kind f \<in> set stages \<longrightarrow> hit (fs @ [c]) f) \<longleftrightarrow> (\<forall>f \<in> set fs. nf_kind f \<in> set stages \<longrightarrow> hit fs f)"
    by blast
  moreover have "nf_kind c \<in> set stages" using assms(1) c by simp
  ultimately show ?thesis unfolding set_append ball_Un using own by simp
qed

lemma filter_with_choice:
  assumes "k \<in> set stages"
    and sel': "sel' = Some (filter (\<lambda>f. nf_kind f \<noteq> k) (case sel of None \<Rightarrow> [] | Some fs \<Rightarrow> fs) @ [\<lparr>nf_kind = k, nf_id = i\<rparr>])"
  shows "filterRowsByNodes env ctx sel' stages rows
    = filter (\<lambda>row. pn_id (nodeBuilder env ctx k row) = i)
        (filterRowsByNodes env ctx (selectedNodeFiltersExceptKind sel k) stages rows)"
proof -
  define fs where "fs = filter (\<lambda>f. nf_kind f \<noteq> k) (case sel of None \<Rightarrow> [] | Some fs \<Rightarrow> fs)"
  have "\<forall>f \<in> set fs. nf_kind f \<noteq> k" by (simp add: fs_def)
  from choice_ball[OF assms(1) this refl refl, where env = env and ctx = ctx and i = i]
  have "pathMatchesNodeFilters (flowPathForStages env ctx stages row) (normalizeSelectedNodeFilters sel' stages)
      \<longleftrightarrow> pathMatchesNodeFilters (flowPathForStages env ctx stages row)
            (normalizeSelectedNodeFilters (selectedNodeFiltersExceptKind sel k) stages)
          \<and> pn_id (nodeBuilder env ctx k row) = i" for row
    unfolding pathMatches_iff except_kind_list fs_def[symmetric] sel' option.case .
  then show ?thesis by (simp add: filterRowsByNodes_eq conj_commute)
qed

lemma option_totals_entry:
  assumes "(node, v) \<in> set (option_totals env ctx metric sel stages rows stage)"
  shows "pn_kind node = stage"
    and "v = (\<Sum>row\<leftarrow>filter (\<lambda>row. pn_id (nodeBuilder env ctx stage row) = pn_id node)
       (filterRowsByNodes env ctx (selectedNodeFiltersExceptKind sel stage) stages rows). row_value metric row)"
proof -
  let ?rows = "filterRowsByNodes env ctx (selectedNodeFiltersExceptKind sel stage) stages rows"
  let ?key = "\<lambda>row. nodeFilterKey (pn_kind (nodeBuilder env ctx stage row)) (pn_id (nodeBuilder env ctx stage row))"
  let ?init = "\<lambda>row. (nodeBuilder env ctx stage row, 0 :: rat)"
  let ?add = "\<lambda>row (node, v). (node, v + row_value metric row)"
  obtain key where e: "(key, (node, v)) \<in> set (upsert_all ?key ?init ?add ?rows)"
    using assms by (auto simp: option_totals_def)
  have keep: "fst (?add x w) = fst w" for x w by (cases w) simp
  obtain y where y: "?key y = key" "node = nodeBuilder env ctx stage y"
    using upsert_all_attr[where a = fst, OF keep e] by auto
  then show "pn_kind node = stage" by simp
  have "v = (\<Sum>row\<leftarrow>filter (\<lambda>row. ?key row = key) ?rows. row_value metric row)"
    using option_sum.entry_sum[OF e] by simp
  moreover have "?key row = key \<longleftrightarrow> pn_id (nodeBuilder env ctx stage row) = pn_id node" for row
    using y by (auto simp: nodeFilterKey_def)
  ultimately show "v = (\<Sum>row\<leftarrow>filter (\<lambda>row. pn_id (nodeBuilder env ctx stage row) = pn_id node) ?rows. row_value metric row)"
    by simp
qed

lemma node_options_entry:
  assumes "opt \<in> set (buildNodeFilterOptions env metric role vs palette ctx sel rows)"
  obtains node where "no_kind opt \<in> set (resolveVisibleStages role vs)" "pn_id node = no_value opt"
    "(node, no_valueRaw opt) \<in> set (option_totals env ctx metric sel (resolveVisibleStages role vs) rows (no_kind opt))"
proof -
  obtain stage node v where e: "stage \<in> set (resolveVisibleStages role vs)"
    "(node, v) \<in> set (option_totals env ctx metric sel (resolveVisibleStages role vs) rows stage)"
    "no_kind opt = pn_kind node" "no_value opt = pn_id node" "no_valueRaw opt = v"
    using assms by (auto simp: buildNodeFilterOptions_def Let_def)
  then show ?thesis using option_totals_entry(1)[OF e(2)] by (intro that[of node]) simp_all
qed

text \<open>The number beside a filter option is what choosing it shows: selecting just that node of its
  kind, with the filters of the other kinds as they are, gives a summary whose value in the chosen
  metric is the number the option carries.\<close>

lemma option_value_is_choice_total:
  assumes "opt \<in> set (fo_nodes (pd_filterOptions (buildDashboardFlowData env metric options rows)))"
  shows "metricValue (pd_summary (buildDashboardFlowData env metric
      (options\<lparr>opt_selectedNodes := Some (filter (\<lambda>f. nf_kind f \<noteq> no_kind opt)
         (case opt_selectedNodes options of None \<Rightarrow> [] | Some fs \<Rightarrow> fs) @ [\<lparr>nf_kind = no_kind opt, nf_id = no_value opt\<rparr>])\<rparr>)
      rows)) metric = no_valueRaw opt"
proof -
  let ?role = "case opt_role options of None \<Rightarrow> FlowUser | Some r \<Rightarrow> r"
  let ?st = "resolveVisibleStages ?role (opt_visibleStages options)"
  let ?ctx = "opt_deletedTokenLabel options"
  let ?rows = "filterRows env (opt_selectedUsers options) rows"
  have o: "opt \<in> set (buildNodeFilterOptions env metric ?role (opt_visibleStages options) (opt_colorPalette options) ?ctx
      (opt_selectedNodes options) ?rows)"
    using assms by (simp add: buildDashboardFlowData_def Let_def)
  obtain node where n: "no_kind opt \<in> set ?st" "pn_id node = no_value opt"
    "(node, no_valueRaw opt) \<in> set (option_totals env ?ctx metric (opt_selectedNodes options) ?st ?rows (no_kind opt))"
    using node_options_entry[OF o] .
  have "no_valueRaw opt = (\<Sum>row\<leftarrow>filter (\<lambda>row. pn_id (nodeBuilder env ?ctx (no_kind opt) row) = no_value opt)
      (filterRowsByNodes env ?ctx (selectedNodeFiltersExceptKind (opt_selectedNodes options) (no_kind opt)) ?st ?rows). row_value metric row)"
    using option_totals_entry(2)[OF n(3)] n(2) by simp
  also have "\<dots> = metricValue (buildSummary (filterRowsByNodes env ?ctx
      (Some (filter (\<lambda>f. nf_kind f \<noteq> no_kind opt) (case opt_selectedNodes options of None \<Rightarrow> [] | Some fs \<Rightarrow> fs)
         @ [\<lparr>nf_kind = no_kind opt, nf_id = no_value opt\<rparr>])) ?st ?rows)) metric"
    by (simp add: buildSummary_value filter_with_choice[OF n(1) refl])
  finally show ?thesis by (simp add: buildDashboardFlowData_def Let_def)
qed

lemma raw_node_kind:
  assumes "n \<in> set (raw_nodes metric color (preparedPaths env ctx metric stages options rows))"
  shows "id_of_kind (fn_kind n) (fn_id n)"
proof -
  let ?xs = "path_occurrences id color (preparedPaths env ctx metric stages options rows)"
  have keep: "(fn_id (grow_node metric x v), fn_kind (grow_node metric x v)) = (fn_id v, fn_kind v)" for x v
    by (cases x) simp
  obtain i where e: "(i, n) \<in> set (upsert_all node_key new_node (grow_node metric) ?xs)"
    using assms by (auto simp: raw_nodes_tally)
  obtain x where x: "x \<in> set ?xs" "(fn_id n, fn_kind n) = (fn_id (new_node x), fn_kind (new_node x))"
    using upsert_all_attr[where a = "\<lambda>n. (fn_id n, fn_kind n)", OF keep e] by auto
  obtain p where "p \<in> set (preparedPaths env ctx metric stages options rows)" "fst x \<in> set (prep_path p)"
    using occurrence_part[OF x(1)] by auto
  then show ?thesis using prepared_staged x(2) by (cases x) (fastforce simp: staged_path_def)
qed

section \<open>Masking\<close>

definition masked_text :: "jstr \<Rightarrow> bool" where
  "masked_text t \<longleftrightarrow> t = [] \<or> t = FLOW_MASK_TEXT"

text \<open>What a masked graph may show for a node of a sensitive kind: the mask; and at the id of the node that collects
  the overflow also that node's label, or the name \<open>__other__\<close> of a user, node, token, group or channel
  of this very name, whose id is the same.\<close>

definition hidden_label :: "FlowGraphOptions \<Rightarrow> FlowNodeKind \<Rightarrow> jstr \<Rightarrow> jstr \<Rightarrow> bool" where
  "hidden_label options k i t \<longleftrightarrow> masked_text t
     \<or> i = otherFlowNodeId k \<and> (t = pn_label (otherFlowNode k (otherNodeLabel options)) \<or> t = js ''__other__'')"

text \<open>Nodes and links without the labels that masking may change.\<close>

definition blank_node :: "DashboardFlowNode \<Rightarrow> DashboardFlowNode" where
  "blank_node n = (if fn_kind n = KModel then n else n\<lparr>fn_label := []\<rparr>)"

definition blank_link :: "DashboardFlowLink \<Rightarrow> DashboardFlowLink" where
  "blank_link l = l\<lparr>fl_sourceLabel := [], fl_targetLabel := []\<rparr>"

lemma blank_fields [simp]:
  "fn_id (blank_node n) = fn_id n" "fn_value (blank_node n) = fn_value n"
  "fl_source (blank_link l) = fl_source l" "fl_target (blank_link l) = fl_target l" "fl_value (blank_link l) = fl_value l"
  "fl_color (blank_link l) = fl_color l" "linkStableKey (blank_link l) = linkStableKey l"
  by (simp_all add: blank_node_def blank_link_def linkStableKey_def)

lemma blank_comp [simp]: "fl_source \<circ> blank_link = fl_source" "linkStableKey \<circ> blank_link = linkStableKey"
  by (simp_all add: fun_eq_iff)

text \<open>No later step reads those labels, so each commutes with blanking them.\<close>

lemma blank_mask:
  "map blank_node (fst (maskFlowGraphLabels ns ls)) = map blank_node ns"
  "map blank_link (snd (maskFlowGraphLabels ns ls)) = map blank_link ls"
  by (auto simp: maskFlowGraphLabels_def Let_def blank_node_def blank_link_def node_masked_def SENSITIVE_FLOW_KINDS_def)

lemma blank_highlights:
  "map blank_node (fst (applyFlowHighlights h ns ls)) = fst (applyFlowHighlights h (map blank_node ns) (map blank_link ls))"
  "map blank_link (snd (applyFlowHighlights h ns ls)) = snd (applyFlowHighlights h (map blank_node ns) (map blank_link ls))"
  by (auto simp: applyFlowHighlights_def blank_node_def blank_link_def split: option.split)

lemma blank_shares: "map blank_link (assignShares rs ls) = assignShares rs (map blank_link ls)"
proof -
  have "(\<Sum>l\<leftarrow>filter (\<lambda>l. fl_source l \<in> set rs) (map blank_link ls). fl_value l) = (\<Sum>l\<leftarrow>filter (\<lambda>l. fl_source l \<in> set rs) ls. fl_value l)"
    by (simp add: filter_map comp_def)
  then show ?thesis unfolding assignShares_def Let_def by (simp add: comp_def blank_link_def)
qed

lemma blank_source_colors: "source_colors env (map blank_link ls) = source_colors env ls"
proof -
  have sort: "js_sort (byValueThenKey env) (map blank_link ls) = map blank_link (js_sort (byValueThenKey env) ls)"
    by (rule js_sort_map) (simp add: byValueThenKey_def)
  have "enumerate i (map f xs) = map (\<lambda>(j, x). (j, f x)) (enumerate i xs)" for i xs and f :: "DashboardFlowLink \<Rightarrow> DashboardFlowLink"
    by (induction xs arbitrary: i) simp_all
  then show ?thesis unfolding source_colors_def Let_def sort by (simp add: comp_def split_beta)
qed

lemma blank_by_source:
  "upsert_all fl_source (\<lambda>_. []) (\<lambda>l ls. ls @ [l]) (map blank_link ks)
   = map (\<lambda>(s, ls). (s, map blank_link ls)) (upsert_all fl_source (\<lambda>_. []) (\<lambda>l ls. ls @ [l]) ks)"
  by (rule upsert_all_map) simp_all

lemma blank_colors: "map blank_link (assignLinkDisplayColors env ls) = assignLinkDisplayColors env (map blank_link ls)"
proof -
  have colors: "concat (map (\<lambda>(s, ls). source_colors env ls) (map (\<lambda>(s, ls). (s, map blank_link ls)) m))
      = concat (map (\<lambda>(s, ls). source_colors env ls) m)" for m
    by (induction m) (auto simp: blank_source_colors)
  show ?thesis unfolding assignLinkDisplayColors_def Let_def blank_by_source colors
    by (simp add: comp_def) (simp add: blank_link_def split: option.split)
qed

lemma blank_graph:
  assumes g: "g = buildFlowGraph env metric role palette vs ctx options rows"
    and u: "u = buildFlowGraph env metric role palette vs ctx (options\<lparr>maskSensitive := False\<rparr>) rows"
  shows "mset (map blank_node (graph_nodes g)) = mset (map blank_node (graph_nodes u))"
    "map blank_link (graph_links g) = map blank_link (graph_links u)"
proof -
  let ?ps = "preparedPaths env ctx metric (resolveVisibleStages role vs) options rows"
  have same: "preparedPaths env ctx metric (resolveVisibleStages role vs) (options\<lparr>maskSensitive := False\<rparr>) rows = ?ps"
    by (simp add: preparedPaths_def)
  let ?ns = "raw_nodes metric (path_color env palette ?ps) ?ps"
  let ?ls = "raw_links metric (path_color env palette ?ps) ?ps"
  let ?m = "if maskSensitive options then maskFlowGraphLabels ?ns ?ls else (?ns, ?ls)"
  let ?H = "applyFlowHighlights (buildFlowHighlightSets ?ps (activeNode options) (activeLink options) (resolveVisibleStages role vs))"
  let ?fin = "\<lambda>ls. assignLinkDisplayColors env (assignShares (path_roots ?ps) (js_sort (bySourceThenTarget env) ls))"
  have graphs: "graph_nodes g = js_sort (byValueThenLabel env) (fst (?H (fst ?m) (snd ?m)))"
    "graph_links g = ?fin (snd (?H (fst ?m) (snd ?m)))"
    "graph_nodes u = js_sort (byValueThenLabel env) (fst (?H ?ns ?ls))" "graph_links u = ?fin (snd (?H ?ns ?ls))"
    unfolding g u buildFlowGraph_def raw_nodes_def raw_links_def Let_def same by (simp_all add: split_beta)
  have m: "map blank_node (fst ?m) = map blank_node ?ns" "map blank_link (snd ?m) = map blank_link ?ls"
    by (simp_all add: blank_mask)
  have mset: "mset (map blank_node (js_sort c ns)) = mset (map blank_node ns)" for c ns by simp
  show "mset (map blank_node (graph_nodes g)) = mset (map blank_node (graph_nodes u))"
    unfolding graphs mset blank_highlights m ..
  have sort: "map blank_link (js_sort (bySourceThenTarget env) ls) = js_sort (bySourceThenTarget env) (map blank_link ls)" for ls
    by (rule js_sort_map[symmetric]) (simp add: bySourceThenTarget_def)
  show "map blank_link (graph_links g) = map blank_link (graph_links u)"
    unfolding graphs blank_colors blank_shares sort blank_highlights m ..
qed

text \<open>A node of a prepared path is one of a row or collects the overflow of its kind.\<close>

lemma prepared_node:
  assumes "p \<in> set (preparedPaths env ctx metric stages options rows)" "n \<in> set (prep_path p)"
  shows "(\<exists>row \<in> set rows. n = nodeBuilder env ctx (pn_kind n) row) \<or> n = otherFlowNode (pn_kind n) (otherNodeLabel options)"
proof -
  obtain row q where row: "row \<in> set rows" "q = prep_path p" "applyTopNodeLimit (buildTopNodeSets env ctx metric stages
      (normalizeTopNodeLimit (topNodeLimit options)) rows) (case overflowMode options of None \<Rightarrow> Aggregate | Some m \<Rightarrow> m)
      (otherNodeLabel options) (flowPathForStages env ctx stages row) = Some q"
    using assms(1) by (auto simp: set_preparedPaths)
  have "n \<in> set q" using assms(2) row(2) by simp
  with row(3) have "n \<in> set (flowPathForStages env ctx stages row) \<or> (\<exists>k. n = otherFlowNode k (otherNodeLabel options))"
    by (auto simp: applyTopNodeLimit_def split: option.splits if_splits)
  moreover have "pn_kind (otherFlowNode k l) = k" for k l by (simp add: otherFlowNode_def)
  ultimately show ?thesis using row(1) by (auto simp: flowPathForStages_def)
qed

lemma builder_at_other_id:
  assumes "\<And>q. number_text env q \<noteq> js ''__other__''" "k \<noteq> KModel" "pn_id (nodeBuilder env ctx k row) = otherFlowNodeId k"
  shows "pn_label (nodeBuilder env ctx k row) = js ''__other__''"
proof -
  have id: "otherFlowNodeId k = kind_text k @ js '':'' @ js ''__other__''" by (simp add: otherFlowNodeId_def flip: js_append)
  have un: "js ''unknown'' \<noteq> js ''__other__''" by simp
  have or: "str_or t d' = js ''__other__''" if "str_or t d = js ''__other__''" "d \<noteq> js ''__other__''" for t d d'
    using that by (auto simp: str_or_def split: option.splits if_splits)
  have pre: "js ''user:'' = js ''user'' @ js '':''" "js ''node:'' = js ''node'' @ js '':''" "js ''token:'' = js ''token'' @ js '':''"
    "js ''group:'' = js ''group'' @ js '':''" "js ''channel:'' = js ''channel'' @ js '':''" by (simp_all flip: js_append)
  show ?thesis using assms(2,3) unfolding id
    by (cases k) (auto simp: userNode_def nodeNameNode_def tokenNode_def groupNode_def channelNode_def Let_def pre assms(1) un
        split: if_splits dest: or)
qed

lemma shown_label:
  assumes num: "\<And>q. number_text env q \<noteq> js ''__other__''" and p: "p \<in> set (preparedPaths env ctx metric stages options rows)"
    and n: "n \<in> set (prep_path p)" "pn_id n = otherFlowNodeId k" "k \<noteq> KModel"
  shows "hidden_label options k (pn_id n) (pn_label n)"
proof -
  have "id_of_kind (pn_kind n) (pn_id n)" using prepared_staged[OF p] n(1) by (simp add: staged_path_def)
  then have k: "pn_kind n = k" using n(2) id_of_kind_unique otherFlowNodeId_kind by metis
  show ?thesis using prepared_node[OF p n(1)] builder_at_other_id[OF num n(3)] n(2) unfolding k
    by (auto simp: hidden_label_def)
qed

text \<open>The nodes and links of the maps show the texts of the path nodes they were made of.\<close>

lemma raw_node_source:
  assumes "n \<in> set (raw_nodes metric color ps)"
  shows "\<exists>p \<in> set ps. \<exists>q \<in> set (prep_path p). fn_id n = pn_id q \<and> fn_kind n = pn_kind q \<and> fn_label n = pn_label q"
proof -
  let ?a = "\<lambda>n. (fn_id n, fn_kind n, fn_label n)"
  have keep: "?a (grow_node metric x v) = ?a v" for x v by (cases x) simp
  obtain i where e: "(i, n) \<in> set (upsert_all node_key new_node (grow_node metric) (path_occurrences id color ps))"
    using assms by (auto simp: raw_nodes_tally)
  obtain x where x: "x \<in> set (path_occurrences id color ps)" "?a n = ?a (new_node x)"
    using upsert_all_attr[where a = ?a, OF keep e] by auto
  have "fn_id n = pn_id (fst x) \<and> fn_kind n = pn_kind (fst x) \<and> fn_label n = pn_label (fst x)" using x(2) by (cases x) simp
  then show ?thesis using occurrence_part[OF x(1)] by auto
qed

lemma raw_link_ends:
  assumes "l \<in> set (raw_links metric color ps)"
  shows "\<exists>p \<in> set ps. \<exists>a \<in> set (prep_path p). \<exists>b \<in> set (prep_path p). fl_source l = pn_id a \<and> fl_sourceLabel l = pn_label a
    \<and> fl_target l = pn_id b \<and> fl_targetLabel l = pn_label b"
proof -
  let ?a = "\<lambda>l. (fl_source l, fl_sourceLabel l, fl_target l, fl_targetLabel l)"
  have keep: "?a (grow_link metric x v) = ?a v" for x v by (cases x) simp
  obtain i where e: "(i, l) \<in> set (upsert_all link_key new_link (grow_link metric) (path_occurrences path_edges color ps))"
    using assms by (auto simp: raw_links_tally)
  obtain x where x: "x \<in> set (path_occurrences path_edges color ps)" "?a l = ?a (new_link x)"
    using upsert_all_attr[where a = ?a, OF keep e] by auto
  obtain p where p: "p \<in> set ps" "fst x \<in> set (path_edges (prep_path p))" using occurrence_part[OF x(1)] by auto
  then have "fst (fst x) \<in> set (prep_path p)" "snd (fst x) \<in> set (prep_path p)" by (metis path_edges_nodes prod.collapse)+
  with p(1) x(2) show ?thesis by (cases x rule: new_link.cases) force
qed

lemma maskFlowLabel_masked: "masked_text (maskFlowLabel t)"
  by (simp add: masked_text_def maskFlowLabel_def)

lemma raw_node_unmasked:
  assumes "n \<in> set (raw_nodes metric color (preparedPaths env ctx metric stages options rows))" "fn_kind n \<noteq> KModel" "\<not> node_masked n"
  shows "fn_id n = otherFlowNodeId (fn_kind n)"
proof -
  obtain k where "fn_id n = otherFlowNodeId k"
    using assms(2,3) by (cases "fn_kind n") (auto simp: node_masked_def SENSITIVE_FLOW_KINDS_def OTHER_FLOW_NODE_ID_SET_def)
  then show ?thesis using raw_node_kind[OF assms(1)] id_of_kind_unique otherFlowNodeId_kind by metis
qed

lemma masked_nodes_hidden:
  assumes num: "\<And>q. number_text env q \<noteq> js ''__other__''"
    and ns: "ns = raw_nodes metric color (preparedPaths env ctx metric stages options rows)"
    and n: "n \<in> set (fst (maskFlowGraphLabels ns ls))" "fn_kind n \<noteq> KModel"
  shows "hidden_label options (fn_kind n) (fn_id n) (fn_label n)"
proof -
  obtain m where m: "m \<in> set ns" "n = (if node_masked m then m\<lparr>fn_label := maskFlowLabel (fn_label m)\<rparr> else m)"
    using n(1) by (auto simp: maskFlowGraphLabels_def Let_def)
  show ?thesis
  proof (cases "node_masked m")
    case True
    then show ?thesis using m(2) by (simp add: hidden_label_def maskFlowLabel_masked)
  next
    case False
    then have id: "fn_id m = otherFlowNodeId (fn_kind m)" using raw_node_unmasked m n(2) unfolding ns by simp
    obtain p q where "p \<in> set (preparedPaths env ctx metric stages options rows)" "q \<in> set (prep_path p)"
      "fn_id m = pn_id q" "fn_label m = pn_label q" using raw_node_source m(1) unfolding ns by blast
    then show ?thesis using shown_label[OF num, of p ctx metric stages options rows q "fn_kind m"] id n(2) m(2) False by simp
  qed
qed

lemma masked_links_hidden:
  assumes num: "\<And>q. number_text env q \<noteq> js ''__other__''"
    and ns: "ns = raw_nodes metric color (preparedPaths env ctx metric stages options rows)"
    and ls: "ls = raw_links metric color (preparedPaths env ctx metric stages options rows)"
    and l: "l \<in> set (snd (maskFlowGraphLabels ns ls))" and n: "n \<in> set ns" "fn_kind n \<noteq> KModel"
  shows "(fl_source l = fn_id n \<longrightarrow> hidden_label options (fn_kind n) (fn_id n) (fl_sourceLabel l))
    \<and> (fl_target l = fn_id n \<longrightarrow> hidden_label options (fn_kind n) (fn_id n) (fl_targetLabel l))"
proof -
  let ?m = "map (\<lambda>n. (fn_id n, maskFlowLabel (fn_label n))) (filter node_masked ns)"
  let ?t = "\<lambda>i t. case map_of ?m i of None \<Rightarrow> t | Some t \<Rightarrow> t"
  obtain r where r: "r \<in> set ls" "fl_source l = fl_source r" "fl_target l = fl_target r"
    "fl_sourceLabel l = ?t (fl_source r) (fl_sourceLabel r)" "fl_targetLabel l = ?t (fl_target r) (fl_targetLabel r)"
    using l by (auto simp: maskFlowGraphLabels_def Let_def)
  obtain p a b where p: "p \<in> set (preparedPaths env ctx metric stages options rows)" "a \<in> set (prep_path p)" "b \<in> set (prep_path p)"
    "fl_source r = pn_id a" "fl_sourceLabel r = pn_label a" "fl_target r = pn_id b" "fl_targetLabel r = pn_label b"
    using raw_link_ends r(1) unfolding ls by blast
  have own: "hidden_label options (fn_kind n) (fn_id n) (?t (fn_id n) (pn_label q))" if q: "q \<in> set (prep_path p)" "pn_id q = fn_id n" for q
  proof (cases "map_of ?m (fn_id n)")
    case None
    then have "\<not> node_masked n" using n(1) by (auto simp: map_of_eq_None_iff image_iff)
    then have "fn_id n = otherFlowNodeId (fn_kind n)" using raw_node_unmasked n unfolding ns by blast
    then show ?thesis using None shown_label[OF num p(1) q(1), of "fn_kind n"] q(2) n(2) by simp
  next
    case (Some t)
    then have "masked_text t" using map_of_SomeD[OF Some] maskFlowLabel_masked by auto
    then show ?thesis using Some by (simp add: hidden_label_def)
  qed
  have labels: "fl_sourceLabel l = ?t (pn_id a) (pn_label a)" "fl_targetLabel l = ?t (pn_id b) (pn_label b)"
    using r(4,5) unfolding p(4-7) .
  show ?thesis unfolding r(2,3) p(4,6) labels
  proof (intro conjI impI)
    show "hidden_label options (fn_kind n) (fn_id n) (?t (pn_id a) (pn_label a))" if "pn_id a = fn_id n"
      using own[OF p(2) that] unfolding that .
    show "hidden_label options (fn_kind n) (fn_id n) (?t (pn_id b) (pn_label b))" if "pn_id b = fn_id n"
      using own[OF p(3) that] unfolding that .
  qed
qed

definition node_text :: "DashboardFlowNode \<Rightarrow> jstr \<times> FlowNodeKind \<times> jstr" where
  "node_text n = (fn_id n, fn_kind n, fn_label n)"

definition link_text :: "DashboardFlowLink \<Rightarrow> jstr \<times> jstr \<times> jstr \<times> jstr" where
  "link_text l = (fl_source l, fl_target l, fl_sourceLabel l, fl_targetLabel l)"

lemma later_texts:
  "map node_text (fst (applyFlowHighlights h ns ls)) = map node_text ns"
  "map link_text (snd (applyFlowHighlights h ns ls)) = map link_text ls"
  "map link_text (assignLinkDisplayColors env (assignShares rs ks)) = map link_text ks"
  by (auto simp: applyFlowHighlights_def assignLinkDisplayColors_def assignShares_def Let_def comp_def node_text_def
      link_text_def split: option.split)

lemma masked_graph_texts:
  assumes "maskSensitive options" and g: "g = buildFlowGraph env metric role palette vs ctx options rows"
    and ps: "ps = preparedPaths env ctx metric (resolveVisibleStages role vs) options rows"
  obtains ns ls where "ns = raw_nodes metric (path_color env palette ps) ps" "ls = raw_links metric (path_color env palette ps) ps"
    "mset (map node_text (graph_nodes g)) = mset (map node_text (fst (maskFlowGraphLabels ns ls)))"
    "mset (map link_text (graph_links g)) = mset (map link_text (snd (maskFlowGraphLabels ns ls)))"
proof -
  let ?ns = "raw_nodes metric (path_color env palette ps) ps"
  let ?ls = "raw_links metric (path_color env palette ps) ps"
  let ?m = "maskFlowGraphLabels ?ns ?ls"
  let ?h = "applyFlowHighlights (buildFlowHighlightSets ps (activeNode options) (activeLink options)
      (resolveVisibleStages role vs)) (fst ?m) (snd ?m)"
  have graph: "graph_nodes g = js_sort (byValueThenLabel env) (fst ?h)"
    "graph_links g = assignLinkDisplayColors env (assignShares (path_roots ps) (js_sort (bySourceThenTarget env) (snd ?h)))"
    using assms(1) unfolding g ps buildFlowGraph_def raw_nodes_def raw_links_def Let_def by (simp_all add: split_beta)
  show ?thesis
  proof (rule that[OF refl refl])
    show "mset (map node_text (graph_nodes g)) = mset (map node_text (fst ?m))"
      unfolding graph by (metis later_texts(1) mset_js_sort mset_map)
    show "mset (map link_text (graph_links g)) = mset (map link_text (snd ?m))"
      unfolding graph later_texts(3) by (metis later_texts(2) mset_js_sort mset_map)
  qed
qed


section \<open>Highlighting\<close>

definition link_flags :: "DashboardFlowLink \<Rightarrow> jstr \<times> jstr \<times> bool option \<times> bool option" where
  "link_flags l = (fl_source l, fl_target l, fl_highlighted l, fl_dimmed l)"

lemma later_flags: "map link_flags (assignLinkDisplayColors env (assignShares rs ls)) = map link_flags ls"
  by (auto simp: assignLinkDisplayColors_def assignShares_def Let_def comp_def link_flags_def split: option.split)

lemma graph_highlights:
  assumes g: "g = buildFlowGraph env metric role palette vs ctx options rows"
    and ps: "ps = preparedPaths env ctx metric (resolveVisibleStages role vs) options rows"
  obtains ns ls where
    "set (graph_nodes g) = set (fst (applyFlowHighlights
       (buildFlowHighlightSets ps (activeNode options) (activeLink options) (resolveVisibleStages role vs)) ns ls))"
    "link_flags ` set (graph_links g) = link_flags ` set (snd (applyFlowHighlights
       (buildFlowHighlightSets ps (activeNode options) (activeLink options) (resolveVisibleStages role vs)) ns ls))"
    "\<forall>n \<in> set ns. fn_highlighted n = None \<and> fn_dimmed n = None"
    "\<forall>l \<in> set ls. fl_highlighted l = None \<and> fl_dimmed l = None"
proof -
  let ?c = "path_color env palette ps"
  let ?m = "if maskSensitive options then maskFlowGraphLabels (raw_nodes metric ?c ps) (raw_links metric ?c ps)
      else (raw_nodes metric ?c ps, raw_links metric ?c ps)"
  let ?h = "applyFlowHighlights (buildFlowHighlightSets ps (activeNode options) (activeLink options)
      (resolveVisibleStages role vs)) (fst ?m) (snd ?m)"
  have graph: "graph_nodes g = js_sort (byValueThenLabel env) (fst ?h)"
    "graph_links g = assignLinkDisplayColors env (assignShares (path_roots ps) (js_sort (bySourceThenTarget env) (snd ?h)))"
    unfolding g ps buildFlowGraph_def raw_nodes_def raw_links_def Let_def by (simp_all add: split_beta)
  have kn: "(fn_highlighted (grow_node metric x v), fn_dimmed (grow_node metric x v)) = (fn_highlighted v, fn_dimmed v)"
    and kl: "(fl_highlighted (grow_link metric y w), fl_dimmed (grow_link metric y w)) = (fl_highlighted w, fl_dimmed w)" for x v y w
    by (cases x; simp) (cases y; simp)
  have newn: "fn_highlighted (new_node x) = None \<and> fn_dimmed (new_node x) = None"
    and newl: "fl_highlighted (new_link y) = None \<and> fl_dimmed (new_link y) = None" for x y
    by (cases x; simp) (cases y rule: new_link.cases; simp)
  have rawn: "fn_highlighted n = None \<and> fn_dimmed n = None" if n: "n \<in> set (raw_nodes metric ?c ps)" for n
  proof -
    obtain i where "(i, n) \<in> set (upsert_all node_key new_node (grow_node metric) (path_occurrences id ?c ps))"
      using n by (auto simp: raw_nodes_tally)
    from upsert_all_attr[where a = "\<lambda>n. (fn_highlighted n, fn_dimmed n)", OF kn this] newn show ?thesis by auto
  qed
  have rawl: "fl_highlighted l = None \<and> fl_dimmed l = None" if l: "l \<in> set (raw_links metric ?c ps)" for l
  proof -
    obtain i where "(i, l) \<in> set (upsert_all link_key new_link (grow_link metric) (path_occurrences path_edges ?c ps))"
      using l by (auto simp: raw_links_tally)
    from upsert_all_attr[where a = "\<lambda>l. (fl_highlighted l, fl_dimmed l)", OF kl this] newl show ?thesis by auto
  qed
  show ?thesis
  proof (rule that[of "fst ?m" "snd ?m"])
    show "set (graph_nodes g) = set (fst ?h)" by (simp add: graph)
    have "set (map link_flags (graph_links g)) = set (map link_flags (js_sort (bySourceThenTarget env) (snd ?h)))"
      unfolding graph later_flags ..
    then show "link_flags ` set (graph_links g) = link_flags ` set (snd ?h)" by simp
    show "\<forall>n \<in> set (fst ?m). fn_highlighted n = None \<and> fn_dimmed n = None"
      "\<forall>l \<in> set (snd ?m). fl_highlighted l = None \<and> fl_dimmed l = None"
      using rawn rawl by (auto simp: maskFlowGraphLabels_def Let_def split: if_splits)
  qed
qed

text \<open>The paths a selection lights up.\<close>

definition selected_paths :: "FlowGraphOptions \<Rightarrow> PreparedFlowPath list \<Rightarrow> PreparedFlowPath list" where
  "selected_paths options ps = filter (\<lambda>p. matchesPath (activeNode options) (activeLink options) (prep_path p)) ps"

definition selection_active :: "FlowGraphOptions \<Rightarrow> FlowNodeKind list \<Rightarrow> bool" where
  "selection_active options stages \<longleftrightarrow> activeLink options \<noteq> None
     \<or> (\<exists>f. activeNode options = Some f \<and> nf_kind f \<in> set stages)"

lemma highlight_sets:
  "buildFlowHighlightSets ps (activeNode options) (activeLink options) stages =
     (if \<not> selection_active options stages \<or> (\<forall>p \<in> set (selected_paths options ps). prep_path p = []) then None
      else Some (concat (map (\<lambda>p. map pn_id (prep_path p)) (selected_paths options ps)),
        concat (map (\<lambda>p. map (\<lambda>(s, t). pathLinkKey (pn_id s) (pn_id t)) (path_edges (prep_path p))) (selected_paths options ps))))"
proof -
  have "(case activeNode options of None \<Rightarrow> False | Some f \<Rightarrow> nf_kind f \<in> set stages) \<or> activeLink options \<noteq> None
      \<longleftrightarrow> selection_active options stages"
    by (auto simp: selection_active_def split: option.splits)
  then show ?thesis
    by (auto simp: buildFlowHighlightSets_def selected_paths_def[symmetric] Let_def)
qed

lemma graph_link_source:
  assumes nul: "nul_free_rows env ctx (resolveVisibleStages role vs) rows"
    and g: "g = buildFlowGraph env metric role palette vs ctx options rows" and l: "l \<in> set (graph_links g)"
  shows "0 \<notin> set (fl_source l)"
proof -
  let ?ps = "preparedPaths env ctx metric (resolveVisibleStages role vs) options rows"
  let ?r = "raw_links metric (path_color env palette ?ps) ?ps"
  have "set (map link_view (graph_links g)) = set (map link_view ?r)"
    by (rule mset_eq_setD[OF graph_views(2)[OF refl g]])
  then have "link_view l \<in> link_view ` set ?r" using l by (metis image_eqI list.set_map)
  then obtain r where r: "r \<in> set ?r" "link_view r = link_view l" by auto
  then obtain i where i: "(i, r) \<in> set (upsert_all link_key new_link (grow_link metric)
      (path_occurrences path_edges (path_color env palette ?ps) ?ps))"
    by (auto simp: raw_links_tally)
  have "fl_source r = takeWhile (\<lambda>c. c \<noteq> 0) i"
    using link_entry_ends[OF prepared_nul_free[OF nul] i] by (simp add: key_ends_def)
  moreover have "0 \<notin> set (takeWhile (\<lambda>c. c \<noteq> 0) i)" by (auto dest: set_takeWhileD)
  moreover have "fl_source l = fl_source r" using r(2) by (simp add: link_view_def)
  ultimately show ?thesis by simp
qed

text \<open>A selection in the chart lights up whole paths: when a link, or a node of a visible column, is
  selected and some path runs through it, exactly the nodes on such paths are highlighted and all
  others are dimmed, and the same holds for the links of these paths; when no path runs through
  it, or nothing is selected, no node and no link is marked.\<close>

lemma selection_lights_paths:
  assumes nul: "nul_free_rows env ctx (resolveVisibleStages role vs) rows"
    and g: "g = buildFlowGraph env metric role palette vs ctx options rows"
    and ps: "ps = preparedPaths env ctx metric (resolveVisibleStages role vs) options rows"
  shows "if selection_active options (resolveVisibleStages role vs) \<and> selected_paths options ps \<noteq> []
    then (\<forall>n \<in> set (graph_nodes g). \<exists>lit. fn_highlighted n = Some lit \<and> fn_dimmed n = Some (\<not> lit)
           \<and> (lit \<longleftrightarrow> (\<exists>p \<in> set (selected_paths options ps). \<exists>q \<in> set (prep_path p). pn_id q = fn_id n)))
       \<and> (\<forall>l \<in> set (graph_links g). \<exists>lit. fl_highlighted l = Some lit \<and> fl_dimmed l = Some (\<not> lit)
           \<and> (lit \<longleftrightarrow> (\<exists>p \<in> set (selected_paths options ps). \<exists>(s, t) \<in> set (path_edges (prep_path p)).
                pn_id s = fl_source l \<and> pn_id t = fl_target l)))
    else (\<forall>n \<in> set (graph_nodes g). fn_highlighted n = None \<and> fn_dimmed n = None)
       \<and> (\<forall>l \<in> set (graph_links g). fl_highlighted l = None \<and> fl_dimmed l = None)"
proof -
  let ?st = "resolveVisibleStages role vs" and ?sel = "selected_paths options ps"
  let ?hn = "concat (map (\<lambda>p. map pn_id (prep_path p)) ?sel)"
  let ?hl = "concat (map (\<lambda>p. map (\<lambda>(s, t). pathLinkKey (pn_id s) (pn_id t)) (path_edges (prep_path p))) ?sel)"
  let ?sets = "buildFlowHighlightSets ps (activeNode options) (activeLink options) ?st"
  obtain ns ls where
    nodes: "set (graph_nodes g) = set (fst (applyFlowHighlights ?sets ns ls))" and
    links: "link_flags ` set (graph_links g) = link_flags ` set (snd (applyFlowHighlights ?sets ns ls))" and
    fresh: "\<forall>n \<in> set ns. fn_highlighted n = None \<and> fn_dimmed n = None" "\<forall>l \<in> set ls. fl_highlighted l = None \<and> fl_dimmed l = None"
    using graph_highlights[OF g ps] .
  have nonempty: "prep_path p \<noteq> []" if "p \<in> set ?sel" for p
    using that prepared_staged[of p env ctx metric ?st options rows] stages_length[of role vs]
    by (auto simp: selected_paths_def ps staged_path_def)
  have sets: "?sets = (if selection_active options ?st \<and> ?sel \<noteq> [] then Some (?hn, ?hl) else None)"
    unfolding highlight_sets using nonempty by (cases ?sel) auto
  have in_hn: "i \<in> set ?hn \<longleftrightarrow> (\<exists>p \<in> set ?sel. \<exists>q \<in> set (prep_path p). pn_id q = i)" for i by auto
  note link_in = graph_link_source[OF nul g]
  have in_hl: "pathLinkKey (fl_source l) (fl_target l) \<in> set ?hl \<longleftrightarrow> (\<exists>p \<in> set ?sel. \<exists>(s, t) \<in> set (path_edges (prep_path p)).
      pn_id s = fl_source l \<and> pn_id t = fl_target l)" if l: "l \<in> set (graph_links g)" for l
  proof -
    have "pathLinkKey (fl_source l) (fl_target l) = pathLinkKey (pn_id s) (pn_id t) \<longleftrightarrow> pn_id s = fl_source l \<and> pn_id t = fl_target l"
      if "p \<in> set ?sel" "(s, t) \<in> set (path_edges (prep_path p))" for p s t
    proof -
      have "0 \<notin> set (pn_id s)"
        using that prepared_nul_free[OF nul] path_edges_nodes[OF that(2)] by (auto simp: selected_paths_def ps nul_free_paths_def)
      then show ?thesis using link_in[OF l] key_ends_pathLinkKey by (metis prod.inject)
    qed
    then show ?thesis by (force simp: image_iff)
  qed
  show ?thesis
  proof (cases "selection_active options ?st \<and> ?sel \<noteq> []")
    case True
    then have s: "?sets = Some (?hn, ?hl)" using sets by simp
    have n: "fn_highlighted n = Some (fn_id n \<in> set ?hn) \<and> fn_dimmed n = Some (fn_id n \<notin> set ?hn)" if "n \<in> set (graph_nodes g)" for n
      using that unfolding nodes s by (auto simp: applyFlowHighlights_def)
    have l: "fl_highlighted l = Some (pathLinkKey (fl_source l) (fl_target l) \<in> set ?hl)
        \<and> fl_dimmed l = Some (pathLinkKey (fl_source l) (fl_target l) \<notin> set ?hl)" if l: "l \<in> set (graph_links g)" for l
    proof -
      have "link_flags l \<in> link_flags ` set (snd (applyFlowHighlights ?sets ns ls))" using l links by blast
      then show ?thesis unfolding s by (auto simp: applyFlowHighlights_def link_flags_def)
    qed
    show ?thesis unfolding if_P[OF True]
    proof (intro conjI ballI)
      fix n assume "n \<in> set (graph_nodes g)"
      then show "\<exists>lit. fn_highlighted n = Some lit \<and> fn_dimmed n = Some (\<not> lit)
          \<and> (lit \<longleftrightarrow> (\<exists>p \<in> set ?sel. \<exists>q \<in> set (prep_path p). pn_id q = fn_id n))"
        using n in_hn[of "fn_id n"] by (intro exI[of _ "fn_id n \<in> set ?hn"]) (simp only:)
    next
      fix k assume k: "k \<in> set (graph_links g)"
      show "\<exists>lit. fl_highlighted k = Some lit \<and> fl_dimmed k = Some (\<not> lit)
          \<and> (lit \<longleftrightarrow> (\<exists>p \<in> set ?sel. \<exists>(s, t) \<in> set (path_edges (prep_path p)). pn_id s = fl_source k \<and> pn_id t = fl_target k))"
        using l[OF k] in_hl[OF k] by (intro exI[of _ "pathLinkKey (fl_source k) (fl_target k) \<in> set ?hl"]) (simp only:)
    qed
  next
    case False
    then have s: "?sets = None" using sets by simp
    have l: "fl_highlighted l = None \<and> fl_dimmed l = None" if l: "l \<in> set (graph_links g)" for l
    proof -
      have "link_flags l \<in> link_flags ` set (snd (applyFlowHighlights ?sets ns ls))" using l links by blast
      then show ?thesis unfolding s using fresh(2) by (auto simp: applyFlowHighlights_def link_flags_def)
    qed
    show ?thesis using False nodes fresh(1) l unfolding s by (auto simp: applyFlowHighlights_def)
  qed
qed

section \<open>The limit\<close>

definition node_total :: "FlowEnv \<Rightarrow> FlowPathContext \<Rightarrow> FlowMetric \<Rightarrow> FlowQuotaDataItem list \<Rightarrow> FlowNodeKind \<Rightarrow> jstr \<Rightarrow> rat" where
  "node_total env ctx metric rows k i =
     (\<Sum>row\<leftarrow>filter (\<lambda>row. pn_id (nodeBuilder env ctx k row) = i) rows. row_value metric row)"

interpretation rank_sum: tally "\<lambda>(n, v). (n, 0)" "\<lambda>(n, v) (m, t). (m, t + v)" snd snd
  by unfold_locales (auto simp: split_beta)

lemma stage_occurrences:
  assumes "distinct stages" "k \<in> set stages"
  shows "filter (\<lambda>(n, v). pn_kind n = k)
      (concat (map (\<lambda>row. map (\<lambda>n. (n, h row)) (flowPathForStages env ctx stages row)) rows))
    = map (\<lambda>row. (nodeBuilder env ctx k row, h row)) rows"
proof (induction rows)
  case (Cons row rows)
  have "filter (\<lambda>n. pn_kind n = k) (map (\<lambda>stage. nodeBuilder env ctx stage row) ss) = (if k \<in> set ss then [nodeBuilder env ctx k row] else [])"
    if "distinct ss" for ss using that by (induction ss) auto
  with assms have "filter (\<lambda>n. pn_kind n = k) (flowPathForStages env ctx stages row) = [nodeBuilder env ctx k row]"
    by (simp add: flowPathForStages_def)
  then have "filter (\<lambda>(n, v). pn_kind n = k) (map (\<lambda>n. (n, h row)) (flowPathForStages env ctx stages row)) = [(nodeBuilder env ctx k row, h row)]"
    by (simp add: filter_map comp_def)
  with Cons show ?case by simp
qed simp

lemma stage_totals_entry:
  assumes "distinct stages" "k \<in> set stages" "(i, node, v) \<in> set (stage_totals env ctx metric stages rows k)"
  shows "pn_id node = i" "v = node_total env ctx metric rows k i"
proof -
  let ?xs = "map (\<lambda>row. (nodeBuilder env ctx k row, row_value metric row)) rows"
  have e: "(i, node, v) \<in> set (upsert_all (\<lambda>(n, v). pn_id n) (\<lambda>(n, v). (n, 0)) (\<lambda>(n, v) (m, t). (m, t + v)) ?xs)"
    using assms(3) unfolding stage_totals_def stage_occurrences[OF assms(1,2)] .
  have keep: "fst ((\<lambda>(n, v) (m, t). (m, t + v)) x w) = fst w" for x w by (cases x; cases w) simp
  show "pn_id node = i" using upsert_all_attr[where a = fst, OF keep e] by auto
  show "v = node_total env ctx metric rows k i"
    using rank_sum.entry_sum[OF e] by (simp add: node_total_def filter_map comp_def)
qed

definition top_ids :: "FlowEnv \<Rightarrow> FlowPathContext \<Rightarrow> FlowMetric \<Rightarrow> FlowNodeKind list \<Rightarrow> nat \<Rightarrow> FlowQuotaDataItem list \<Rightarrow> FlowNodeKind \<Rightarrow> jstr list" where
  "top_ids env ctx metric stages cap rows k =
     map (\<lambda>rank. pn_id (fst rank)) (take cap (js_sort (byRank env) (map snd (stage_totals env ctx metric stages rows k))))"

lemma isTop_iff:
  assumes "buildTopNodeSets env ctx metric stages (Some cap) rows = Some sets" "pn_kind n \<in> set stages"
  shows "isTopFlowNode sets n \<longleftrightarrow> pn_id n \<in> set (top_ids env ctx metric stages cap rows (pn_kind n))"
proof -
  have lookup: "map_of (map (\<lambda>kind. (kind, F kind)) ss) k = (if k \<in> set ss then Some (F k) else None)"
    for F :: "FlowNodeKind \<Rightarrow> jstr list" and ss k
    by (induction ss) auto
  have "sets = map (\<lambda>kind. (kind, top_ids env ctx metric stages cap rows kind)) stages"
    using assms(1) by (simp add: buildTopNodeSets_def top_ids_def)
  then show ?thesis using assms(2) by (simp add: isTopFlowNode_def lookup)
qed

lemma byRank_consistent: "consistent_cmp (localeCompare env) \<Longrightarrow> consistent_cmp (byRank env)"
  unfolding byRank_def[abs_def]
  by (intro consistent_cmp_or consistent_descending) (rule consistent_by, assumption)+

lemma top_ids_greatest:
  assumes cmp: "consistent_cmp (localeCompare env)" and st: "distinct stages" "k \<in> set stages"
    and i: "i \<in> set (top_ids env ctx metric stages cap rows k)"
    and j: "j \<in> (\<lambda>row. pn_id (nodeBuilder env ctx k row)) ` set rows" "j \<notin> set (top_ids env ctx metric stages cap rows k)"
  shows "node_total env ctx metric rows k j \<le> node_total env ctx metric rows k i"
proof -
  let ?t = "stage_totals env ctx metric stages rows k"
  let ?s = "js_sort (byRank env) (map snd ?t)"
  have rank: "snd r = node_total env ctx metric rows k (pn_id (fst r))" if "r \<in> set ?s" for r
    using that stage_totals_entry[OF st] by (auto simp: image_iff)
  obtain a where a: "a \<in> set (take cap ?s)" "pn_id (fst a) = i" using i by (auto simp: top_ids_def)
  have "j \<in> fst ` set ?t"
    unfolding stage_totals_def stage_occurrences[OF st] keys_upsert_all using j(1) by (auto simp: image_image)
  then obtain b where b: "b \<in> set ?s" "pn_id (fst b) = j" using stage_totals_entry(1)[OF st] by (force simp: image_iff)
  have "b \<in> set (drop cap ?s)"
  proof (rule ccontr)
    assume "b \<notin> set (drop cap ?s)"
    then have "b \<in> set (take cap ?s)" using b(1) by (metis Un_iff append_take_drop_id set_append)
    then show False using j(2) b(2) by (auto simp: top_ids_def)
  qed
  moreover have "sorted_wrt (\<lambda>a b. byRank env a b \<le> 0) (take cap ?s @ drop cap ?s)"
    unfolding append_take_drop_id by (rule sorted_js_sort[OF byRank_consistent[OF cmp]])
  ultimately have "byRank env a b \<le> 0" using a(1) unfolding sorted_wrt_append by blast
  then have "snd b \<le> snd a" by (auto simp: byRank_def cmp_or_def split: if_splits)
  moreover have "a \<in> set ?s" using a(1) by (rule in_set_takeD)
  ultimately show ?thesis using rank[of a] rank[OF b(1)] a(2) b(2) by simp
qed

text \<open>The ids of a kind on the prepared paths: kept nodes, or the node that collects the others.\<close>

lemma shown_id_cases:
  assumes cap: "normalizeTopNodeLimit (topNodeLimit options) = Some cap" and k: "k \<in> set stages"
    and p: "p \<in> set (preparedPaths env ctx metric stages options rows)" and n: "n \<in> set (prep_path p)" "id_of_kind k (pn_id n)"
  shows "pn_id n \<in> set (top_ids env ctx metric stages cap rows k) \<or> pn_id n = otherFlowNodeId k"
proof -
  obtain sets where sets: "buildTopNodeSets env ctx metric stages (Some cap) rows = Some sets"
    by (simp add: buildTopNodeSets_def)
  have st: "staged_path stages (prep_path p)" by (rule prepared_staged[OF p])
  have kind: "pn_kind n = k" using st n id_of_kind_unique by (auto simp: staged_path_def)
  obtain row mode where "applyTopNodeLimit (Some sets) mode (otherNodeLabel options) (flowPathForStages env ctx stages row) = Some (prep_path p)"
    using p sets cap by (auto simp: set_preparedPaths)
  then have "list_all (isTopFlowNode sets) (prep_path p) \<or> prep_path p = map (\<lambda>node. if isTopFlowNode sets node then node
      else otherFlowNode (pn_kind node) (otherNodeLabel options)) (flowPathForStages env ctx stages row)"
    by (auto simp: applyTopNodeLimit_def split: if_splits)
  then have "isTopFlowNode sets n \<or> (\<exists>k'. n = otherFlowNode k' (otherNodeLabel options))"
    using n(1) by (auto simp: list_all_iff)
  then show ?thesis
    using isTop_iff[OF sets, of n] kind k by (auto simp: otherFlowNode_def)
qed

lemma top_id_shown:
  assumes cap: "normalizeTopNodeLimit (topNodeLimit options) = Some cap" and k: "k \<in> set stages"
    and mode: "overflowMode options \<noteq> Some HideOverflow"
    and row: "row \<in> set rows" and top: "pn_id (nodeBuilder env ctx k row) \<in> set (top_ids env ctx metric stages cap rows k)"
  shows "\<exists>p \<in> set (preparedPaths env ctx metric stages options rows). nodeBuilder env ctx k row \<in> set (prep_path p)"
proof -
  obtain sets where sets: "buildTopNodeSets env ctx metric stages (Some cap) rows = Some sets"
    by (simp add: buildTopNodeSets_def)
  let ?n = "nodeBuilder env ctx k row"
  have m: "(case overflowMode options of None \<Rightarrow> Aggregate | Some m \<Rightarrow> m) = Aggregate"
    using mode by (cases "overflowMode options"; cases "the (overflowMode options)") auto
  have "isTopFlowNode sets ?n" using isTop_iff[OF sets, of ?n] k top by simp
  moreover have "?n \<in> set (flowPathForStages env ctx stages row)" using k by (auto simp: flowPathForStages_def)
  ultimately have "\<exists>q. applyTopNodeLimit (Some sets) Aggregate (otherNodeLabel options) (flowPathForStages env ctx stages row) = Some q \<and> ?n \<in> set q"
    by (auto simp: applyTopNodeLimit_def)
  then obtain q where "applyTopNodeLimit (Some sets) Aggregate (otherNodeLabel options) (flowPathForStages env ctx stages row) = Some q" "?n \<in> set q"
    by blast
  then show ?thesis using row cap sets m by (intro bexI[of _ "\<lparr>prep_path = q, prep_metrics = rowMetrics row\<rparr>"]) (auto simp: set_preparedPaths)
qed

text \<open>C23. A limit keeps the greatest: with a limit on the nodes of a column, at most that many nodes of a
  kind are shown beside the one that collects the rest, and, unless overflowing paths are hidden,
  a node that is shown has at least the total of every node of its kind that is not.\<close>

theorem limit_keeps_greatest:
  assumes cap: "normalizeTopNodeLimit (topNodeLimit options) = Some cap"
    and cmp: "consistent_cmp (localeCompare env)" and k: "k \<in> set (resolveVisibleStages role vs)"
    and g: "g = buildFlowGraph env metric role palette vs ctx options rows"
  shows "card {i \<in> fn_id ` set (graph_nodes g). id_of_kind k i} \<le> cap + 1
    \<and> (overflowMode options \<noteq> Some HideOverflow \<longrightarrow>
        (\<forall>i \<in> fn_id ` set (graph_nodes g). \<forall>j \<in> (\<lambda>row. pn_id (nodeBuilder env ctx k row)) ` set rows.
           id_of_kind k i \<and> i \<noteq> otherFlowNodeId k \<and> j \<notin> fn_id ` set (graph_nodes g)
           \<longrightarrow> node_total env ctx metric rows k j \<le> node_total env ctx metric rows k i))"
proof -
  let ?st = "resolveVisibleStages role vs"
  let ?ps = "preparedPaths env ctx metric ?st options rows"
  let ?top = "top_ids env ctx metric ?st cap rows k"
  have ids: "fn_id ` set (graph_nodes g) = {pn_id n |n p. p \<in> set ?ps \<and> n \<in> set (prep_path p)}"
    by (rule graph_node_ids(2)[OF g refl])
  have shown: "i \<in> set ?top \<or> i = otherFlowNodeId k" if "i \<in> fn_id ` set (graph_nodes g)" "id_of_kind k i" for i
    using that shown_id_cases[OF cap k] unfolding ids by blast
  have "card {i \<in> fn_id ` set (graph_nodes g). id_of_kind k i} \<le> card (insert (otherFlowNodeId k) (set ?top))"
    using shown by (intro card_mono) auto
  also have "\<dots> \<le> Suc (card (set ?top))" by (rule card_insert_le_m1) simp_all
  also have "\<dots> \<le> Suc (length ?top)" by (simp add: card_length)
  also have "\<dots> \<le> cap + 1" by (simp add: top_ids_def)
  finally have "card {i \<in> fn_id ` set (graph_nodes g). id_of_kind k i} \<le> cap + 1" .
  moreover have "node_total env ctx metric rows k j \<le> node_total env ctx metric rows k i"
    if mode: "overflowMode options \<noteq> Some HideOverflow" and i: "i \<in> fn_id ` set (graph_nodes g)" "id_of_kind k i" "i \<noteq> otherFlowNodeId k"
      and j: "j \<in> (\<lambda>row. pn_id (nodeBuilder env ctx k row)) ` set rows" "j \<notin> fn_id ` set (graph_nodes g)" for i j
  proof (rule top_ids_greatest[OF cmp stages_distinct k _ j(1)])
    show "i \<in> set ?top" using shown[OF i(1,2)] i(3) by blast
    show "j \<notin> set ?top" using j top_id_shown[OF cap k mode] unfolding ids by blast
  qed
  ultimately show ?thesis by blast
qed

section \<open>From the graph to the chart and back\<close>

lemma kind_of_text [simp]: "kind_of_text (kind_text k) = Some k"
  by (cases k) (simp_all add: kind_of_text_def all_kinds_def)

text \<open>A click on a node selects it: the data object the chart is given for a node is read back, by
  itself or wrapped by the chart at any depth, as the filter with that node's kind and id.\<close>

lemma clicked_node_is_selected:
  "flowNodeFilterFromSankeyDatum toNumber numText (sankey_node n) = Some \<lparr>nf_kind = fn_kind n, nf_id = fn_id n\<rparr>
   \<and> flowNodeFilterFromSankeyDatum toNumber numText (JObj [(js ''datum'', sankey_node n)]) = Some \<lparr>nf_kind = fn_kind n, nf_id = fn_id n\<rparr>
   \<and> flowNodeFilterFromSankeyDatum toNumber numText
        (JObj [(js ''depth'', JNum d), (js ''datum'', JArr (replicate (Suc m) (sankey_node n)))]) = Some \<lparr>nf_kind = fn_kind n, nf_id = fn_id n\<rparr>"
proof -
  have obj: "is_object (sankey_node n)" by (simp add: sankey_node_def)
  have get: "jget (sankey_node n) (js ''source'') = JUndefined" "jget (sankey_node n) (js ''datum'') = JUndefined"
    "jget (sankey_node n) (js ''key'') = JStr (fn_id n)" "jget (sankey_node n) (js ''kind'') = JStr (kind_text (fn_kind n))"
    by (simp_all add: sankey_node_def)
  have at: "array_at (replicate (Suc m) (sankey_node n)) q = sankey_node n \<or> array_at (replicate (Suc m) (sankey_node n)) q = JUndefined" for q
    by (auto simp: array_at_def simp del: replicate.simps)
  have at0: "array_at (replicate (Suc m) (sankey_node n)) 0 = sankey_node n" by (simp add: array_at_def)
  have one: "sankeyDatumSource toNumber (JObj [(js ''datum'', sankey_node n)]) = sankey_node n"
    by (simp add: sankeyDatumSource_def sankey_node_def recordValue_def)
  have many: "sankeyDatumSource toNumber (JObj [(js ''depth'', JNum d), (js ''datum'', JArr (replicate (Suc m) (sankey_node n)))]) = sankey_node n"
    using at[of "numberValue toNumber (JNum d)"] at0
    by (auto simp: sankeyDatumSource_def recordValue_def obj simp del: replicate.simps)
  have own: "sankeyDatumSource toNumber (sankey_node n) = sankey_node n"
    by (simp add: sankeyDatumSource_def get recordValue_def)
  show ?thesis
    by (simp add: flowNodeFilterFromSankeyDatum_def flowSankeyDatumValue_def isSankeyLinkDatum_def recordValue_def obj
        sankeyDatumValue_def own one many get del: replicate.simps)
qed

section \<open>Witnesses\<close>

definition sample_build :: FlowBuildOptions where
  "sample_build = \<lparr>opt_role = None, opt_selectedUsers = None, opt_selectedNodes = None, opt_colorPalette = None,
     opt_visibleStages = None, opt_deletedTokenLabel = None, opt_graph = sample_options\<rparr>"


theorem limit_keeps_greatest_witness:
  "let opts = sample_options\<lparr>topNodeLimit := Some (Fin 1)\<rparr>
   in card {i \<in> fn_id ` set (graph_nodes (buildFlowGraph sample_flow_env MetricQuota FlowUser None None None opts sample_rows)).
        id_of_kind KModel i} \<le> 2"
proof -
  let ?o = "sample_options\<lparr>topNodeLimit := Some (Fin 1)\<rparr>"
  have cap: "normalizeTopNodeLimit (topNodeLimit ?o) = Some 1" by (simp add: normalizeTopNodeLimit_def)
  have cmp: "consistent_cmp (localeCompare sample_flow_env)" by (simp add: consistent_cmp_def sample_flow_env_def)
  have k: "KModel \<in> set (resolveVisibleStages FlowUser None)" by (simp add: resolveVisibleStages_def)
  have "(1 :: nat) + 1 = 2" by simp
  then show ?thesis
    using limit_keeps_greatest[OF cap cmp k refl, where metric = MetricQuota and palette = None and ctx = None and rows = sample_rows] unfolding Let_def by (simp only:)
qed

end
