(* ===== verification/Billing_Expr.thy ===== *)
theory Billing_Expr
  imports Js_Regex Js_Value
begin

text \<open>
  \<open>features/pricing/lib/billing-expr.ts\<close>: the billing expressions of the price list and of the price
  editor.  A billing expression is a choice between tiers, multiplied by factors that depend on
  the request (\<open>(condition ? multiplier : 1)\<close>).  The source reads both with regular expressions and
  writes the factors from the rows of an editor.  The patterns are those of the source, letter by
  letter, over the matcher of \<open>Js_Regex\<close>.  \<open>JSON\<close> and \<open>String\<close> of a parsed value are arguments; a number
  is read from its decimal notation.
\<close>

section \<open>Numbers in texts\<close>

text \<open>\<open>Number(text)\<close> for decimal notation, with exact rationals: a number is not rounded, and a great exponent does not
  overflow to Infinity.  The texts the patterns give to it were matched by \<open>[\d.eE+-]+\<close>, so the hexadecimal,
  octal and binary notations do not occur there; the price editor also reads typed drafts with it, where such a
  notation gives NaN here.\<close>

definition read_exponent :: "jstr \<Rightarrow> int option" where
  "read_exponent s =
     (case s of [] \<Rightarrow> Some 0
      | e # t \<Rightarrow>
          let neg = (t \<noteq> [] \<and> hd t = 45); u = (if t \<noteq> [] \<and> hd t \<in> {43, 45} then tl t else t) in
          if e \<in> {69, 101} \<and> u \<noteq> [] \<and> list_all is_digit u
          then Some (if neg then - int (parse_digits u) else int (parse_digits u)) else None)"

definition read_decimal :: "jstr \<Rightarrow> rat option" where
  "read_decimal s =
     (let neg = (s \<noteq> [] \<and> hd s = 45); t = (if s \<noteq> [] \<and> hd s \<in> {43, 45} then tl s else s);
          ip = takeWhile is_digit t; u = dropWhile is_digit t;
          fp = (if u \<noteq> [] \<and> hd u = 46 then takeWhile is_digit (tl u) else []);
          v = (if u \<noteq> [] \<and> hd u = 46 then dropWhile is_digit (tl u) else u) in
      if ip @ fp = [] then None
      else case read_exponent v of None \<Rightarrow> None
        | Some e \<Rightarrow> let q = of_nat (parse_digits (ip @ fp)) * 10 powi (e - int (length fp)) in Some (if neg then - q else q))"

definition js_number :: "jstr \<Rightarrow> jnum" where
  "js_number s =
     (let t = trim s in
      if t = [] then Fin 0
      else if t \<in> {js ''Infinity'', js ''+Infinity''} then PosInf
      else if t = js ''-Infinity'' then NegInf
      else case read_decimal t of Some q \<Rightarrow> Fin q | None \<Rightarrow> NaN)"

text \<open>\<open>n || 0\<close>.\<close>

definition num_or_zero :: "jnum \<Rightarrow> jnum" where
  "num_or_zero n = (if num_truthy n then n else Fin 0)"

definition num_char :: "code_unit \<Rightarrow> bool" where
  "num_char x \<longleftrightarrow> is_digit x \<or> x \<in> {46, 101, 69, 43, 45}"

definition NUMERIC_LITERAL_REGEX :: regex where
  "NUMERIC_LITERAL_REGEX = RSeq RStart (RSeq
     (rseq [ROpt (lit ''-''),
        RAlt (rseq [RPlus (RClass is_digit), ROpt (lit ''.''), RStar (RClass is_digit)])
             (rseq [lit ''.'', RPlus (RClass is_digit)]),
        ROpt (rseq [RClass (\<lambda>x. x = 101 \<or> x = 69), ROpt (RClass (\<lambda>x. x = 43 \<or> x = 45)), RPlus (RClass is_digit)])])
     REnd)"

definition is_numeric :: "jstr \<Rightarrow> bool" where
  "is_numeric s \<longleftrightarrow> regex_test NUMERIC_LITERAL_REGEX s"

section \<open>The registry of variables\<close>

datatype BillingSide = SideInput | SideOutput | SideCondition

record BillingVar =
  bv_key :: jstr
  bv_field :: "jstr option"
  bv_tierField :: "jstr option"
  bv_label :: jstr
  bv_shortLabel :: jstr
  bv_side :: BillingSide
  bv_isBase :: bool
  bv_isConditionOnly :: bool
  bv_group :: "jstr option"

definition price_var :: "string \<Rightarrow> string \<Rightarrow> string \<Rightarrow> string \<Rightarrow> string \<Rightarrow> BillingSide \<Rightarrow> bool \<Rightarrow> string option \<Rightarrow> BillingVar" where
  "price_var key field tierField label shortLabel side isBase grp =
     \<lparr>bv_key = js key, bv_field = Some (js field), bv_tierField = Some (js tierField), bv_label = js label,
      bv_shortLabel = js shortLabel, bv_side = side, bv_isBase = isBase, bv_isConditionOnly = False,
      bv_group = map_option js grp\<rparr>"

definition BILLING_VARS :: "BillingVar list" where
  "BILLING_VARS =
    [price_var ''p'' ''inputPrice'' ''input_unit_cost'' ''Input price'' ''Input'' SideInput True None,
     price_var ''c'' ''outputPrice'' ''output_unit_cost'' ''Completion price'' ''Output'' SideOutput True None,
     \<lparr>bv_key = js ''len'', bv_field = None, bv_tierField = None, bv_label = js ''Input length'', bv_shortLabel = js ''Length'',
      bv_side = SideCondition, bv_isBase = False, bv_isConditionOnly = True, bv_group = None\<rparr>,
     price_var ''cr'' ''cacheReadPrice'' ''cache_read_unit_cost'' ''Cache read price'' ''Cache Read'' SideInput False (Some ''cache''),
     price_var ''cc'' ''cacheCreatePrice'' ''cache_create_unit_cost'' ''Cache create price'' ''Cache Write'' SideInput False (Some ''cache''),
     price_var ''cc1h'' ''cacheCreate1hPrice'' ''cache_create_1h_unit_cost'' ''Cache create (1h) price'' ''Cache Write (1h)'' SideInput False (Some ''cache''),
     price_var ''img'' ''imagePrice'' ''image_unit_cost'' ''Image input price'' ''Image In'' SideInput False (Some ''media''),
     price_var ''img_o'' ''imageOutputPrice'' ''image_output_unit_cost'' ''Image output price'' ''Image Out'' SideOutput False (Some ''media''),
     price_var ''ai'' ''audioInputPrice'' ''audio_input_unit_cost'' ''Audio input price'' ''Audio In'' SideInput False (Some ''media''),
     price_var ''ao'' ''audioOutputPrice'' ''audio_output_unit_cost'' ''Audio output price'' ''Audio Out'' SideOutput False (Some ''media'')]"

definition BILLING_PRICING_VARS :: "BillingVar list" where
  "BILLING_PRICING_VARS = filter (\<lambda>v. \<not> bv_isConditionOnly v) BILLING_VARS"

definition BILLING_CONDITION_VARS :: "jstr list" where
  "BILLING_CONDITION_VARS = map bv_key (filter (\<lambda>v. bv_isBase v \<or> bv_isConditionOnly v) BILLING_VARS)"

definition BILLING_VAR_KEY_TO_FIELD :: "(jstr \<times> jstr) list" where
  "BILLING_VAR_KEY_TO_FIELD = map (\<lambda>v. (bv_key v, the (bv_field v))) BILLING_PRICING_VARS"

definition BILLING_EXTRA_VARS :: "BillingVar list" where
  "BILLING_EXTRA_VARS = filter (\<lambda>v. \<not> bv_isBase v \<and> \<not> bv_isConditionOnly v) BILLING_VARS"

text \<open>Pairs of a tier field and the variable that stands for it.\<close>

definition BILLING_CACHE_VAR_MAP :: "(jstr \<times> jstr) list" where
  "BILLING_CACHE_VAR_MAP = map (\<lambda>v. (the (bv_tierField v), bv_key v)) BILLING_EXTRA_VARS"

definition BILLING_VAR_REGEX :: regex where
  "BILLING_VAR_REGEX = rseq [RBoundary, RGroup 1 (ralt (map (\<lambda>v. RLit (bv_key v)) BILLING_PRICING_VARS)),
     RStar (RClass is_space), lit ''*'', RStar (RClass is_space), RGroup 2 (RPlus (RClass num_char))]"

section \<open>Tiers\<close>

datatype TierOp = OpLt | OpLe | OpGt | OpGe

fun op_text :: "TierOp \<Rightarrow> jstr" where
  "op_text OpLt = js ''<''" | "op_text OpLe = js ''<=''" | "op_text OpGt = js ''>''" | "op_text OpGe = js ''>=''"

definition op_of_text :: "jstr \<Rightarrow> TierOp option" where
  "op_of_text s = find (\<lambda>x. op_text x = s) [OpLt, OpLe, OpGt, OpGe]"

record TierCondition =
  tc_var :: jstr
  tc_op :: TierOp
  tc_value :: jnum

record ParsedTier =
  pt_label :: jstr
  pt_conditions :: "TierCondition list"
  pt_fields :: "(jstr \<times> jnum) list"

definition stripExprVersion :: "jstr \<Rightarrow> jnum \<times> jstr" where
  "stripExprVersion exprStr =
     (if exprStr = [] then (Fin 1, [])
      else case regex_match (rseq [RStart, lit ''v'', RGroup 1 (RPlus (RClass is_digit)), lit '':'',
              RGroup 2 (RStar (RClass any_char)), REnd]) exprStr of
        Some m \<Rightarrow> (js_number (cap m 1), cap m 2)
      | None \<Rightarrow> (Fin 1, exprStr))"

definition parseTierBody :: "jstr \<Rightarrow> (jstr \<times> jnum) list" where
  "parseTierBody bodyStr =
     (let coeffs = map (\<lambda>m. (cap (match_caps m) 1, js_number (cap (match_caps m) 2))) (match_all bodyStr BILLING_VAR_REGEX bodyStr) in
      map (\<lambda>(varName, field). (field, case map_of coeffs varName of Some n \<Rightarrow> num_or_zero n | None \<Rightarrow> Fin 0))
        BILLING_VAR_KEY_TO_FIELD)"

definition cond_var :: regex where "cond_var = ralt [lit ''p'', lit ''c'', lit ''len'']"
definition cond_op :: regex where "cond_op = ralt [lit ''<'', lit ''<='', lit ''>'', lit ''>='']"
definition cond_num_char :: "code_unit \<Rightarrow> bool" where "cond_num_char x \<longleftrightarrow> is_digit x \<or> x \<in> {46, 101, 69, 43}"
abbreviation spaces :: regex where "spaces \<equiv> RStar (RClass is_space)"

definition cond_item :: "regex list" where
  "cond_item = [cond_var, spaces, cond_op, spaces, RPlus (RClass cond_num_char)]"

definition cond_group :: regex where
  "cond_group = RGroup 1 (RSeq (rseq cond_item) (RStar (rseq ([spaces, lit ''&&'', spaces] @ cond_item))))"

text \<open>\<open>(?:condGroup\s*\?\s*)?tier\("([^"]*)",\s*\<close>, then the body of the tier.\<close>

definition tier_head :: "regex list" where
  \<open>tier_head = [ROpt (rseq [cond_group, spaces, lit ''?'', spaces]), lit ''tier("'',
     RGroup 2 (RStar (RClass (\<lambda>x. x \<noteq> 34))), lit ''",'', spaces]\<close>

definition tier_re :: regex where
  "tier_re = rseq (tier_head @ [RGroup 3 (RPlus (RClass (\<lambda>x. x \<noteq> 41))), lit '')''])"

text \<open>\<open>split(/\s*&&\s*/)\<close> on a text the condition pattern has matched.\<close>

definition and_sep :: regex where
  "and_sep = rseq [spaces, lit ''&&'', spaces]"

function split_and :: "jstr \<Rightarrow> jstr list" where
  "split_and s = (case exec_from s and_sep s of None \<Rightarrow> [s]
     | Some m \<Rightarrow> let before = take (length s - length (matched_text m) - length (match_rest m)) s in
         if length (match_rest m) < length s then before # split_and (match_rest m) else [before])"
  by pat_completeness auto
termination by (relation "measure length") auto

definition read_condition :: "jstr \<Rightarrow> TierCondition option" where
  "read_condition cp =
     (case regex_match (rseq [RStart, RGroup 1 cond_var, spaces, RGroup 2 cond_op, spaces,
              RGroup 3 (RPlus (RClass cond_num_char)), REnd]) (trim cp) of
        None \<Rightarrow> None
      | Some cm \<Rightarrow> Some \<lparr>tc_var = cap cm 1, tc_op = the (op_of_text (cap cm 2)), tc_value = js_number (cap cm 3)\<rparr>)"

definition read_conditions :: "jstr \<Rightarrow> TierCondition list" where
  "read_conditions condStr = (if condStr = [] then [] else List.map_filter read_condition (split_and condStr))"

definition parseTiersFromExpr :: "jstr \<Rightarrow> ParsedTier list" where
  "parseTiersFromExpr exprStr =
     (if exprStr = [] then []
      else let body = snd (stripExprVersion exprStr) in
        map (\<lambda>m. \<lparr>pt_label = cap (match_caps m) 2, pt_conditions = read_conditions (cap (match_caps m) 1),
                   pt_fields = parseTierBody (cap (match_caps m) 3)\<rparr>)
          (match_all body tier_re body))"

text \<open>Comparison signs of a label in one spelling, without spaces, in lower case.\<close>

fun fold_sign :: "code_unit list \<Rightarrow> code_unit \<Rightarrow> code_unit \<Rightarrow> jstr \<Rightarrow> jstr" where
  "fold_sign signs both plain [] = []"
| "fold_sign signs both plain (x # s) =
     (if x \<in> set signs
      then plain # (case s of y # t \<Rightarrow> if y \<in> {61, 65309} then fold_sign signs both plain t else fold_sign signs both plain s
                      | [] \<Rightarrow> [])
      else (if x = both then plain else x) # fold_sign signs both plain s)"

definition normalizeTierLabel :: "(jstr \<Rightarrow> jstr) \<Rightarrow> jstr option \<Rightarrow> jstr" where
  "normalizeTierLabel toLowerCase label =
     (case label of None \<Rightarrow> []
      | Some s \<Rightarrow> if s = [] then []
          else toLowerCase (filter (\<lambda>x. \<not> is_space x) (fold_sign [62, 65310] 8805 62 (fold_sign [60, 65308] 8804 60 s))))"

section \<open>Conditions on a request\<close>

definition MATCH_EQ :: jstr where "MATCH_EQ = js ''eq''"
definition MATCH_CONTAINS :: jstr where "MATCH_CONTAINS = js ''contains''"
definition MATCH_GT :: jstr where "MATCH_GT = js ''gt''"
definition MATCH_GTE :: jstr where "MATCH_GTE = js ''gte''"
definition MATCH_LT :: jstr where "MATCH_LT = js ''lt''"
definition MATCH_LTE :: jstr where "MATCH_LTE = js ''lte''"
definition MATCH_EXISTS :: jstr where "MATCH_EXISTS = js ''exists''"
definition MATCH_RANGE :: jstr where "MATCH_RANGE = js ''range''"

lemmas match_modes = MATCH_EQ_def MATCH_CONTAINS_def MATCH_GT_def MATCH_GTE_def MATCH_LT_def MATCH_LTE_def
  MATCH_EXISTS_def MATCH_RANGE_def

datatype TimeFunc = FHour | FMinute | FWeekday | FMonth | FDay

fun time_func_text :: "TimeFunc \<Rightarrow> jstr" where
  "time_func_text FHour = js ''hour''"
| "time_func_text FMinute = js ''minute''"
| "time_func_text FWeekday = js ''weekday''"
| "time_func_text FMonth = js ''month''"
| "time_func_text FDay = js ''day''"

definition TIME_FUNCS :: "TimeFunc list" where
  "TIME_FUNCS = [FHour, FMinute, FWeekday, FMonth, FDay]"

definition isTimeFunc :: "jstr \<Rightarrow> TimeFunc option" where
  "isTimeFunc s = find (\<lambda>f. time_func_text f = s) TIME_FUNCS"

datatype RuleSource = SourceParam | SourceHeader

record ParamHeaderCondition =
  ph_source :: RuleSource
  ph_path :: jstr
  ph_mode :: jstr
  ph_value :: jstr

record TimeCondition =
  tm_timeFunc :: TimeFunc
  tm_timezone :: jstr
  tm_mode :: jstr
  tm_value :: jstr
  tm_rangeStart :: jstr
  tm_rangeEnd :: jstr

datatype RequestCondition = CTime TimeCondition | CParam ParamHeaderCondition

record RequestRuleGroup =
  rg_conditions :: "RequestCondition list"
  rg_multiplier :: jstr
  rg_conditionText :: "jstr option"
  rg_matched :: "bool option"

record RequestRuleTrace =
  rt_cond :: jstr
  rt_multiplier :: rat
  rt_matched :: bool

text \<open>What the source takes from the language: \<open>JSON.parse\<close> (\<open>None\<close> where it throws), \<open>JSON.stringify\<close> of a
  string, \<open>String\<close> of a value that is not a string, and of a number.\<close>

record ExprEnv =
  json_parse :: "jstr \<Rightarrow> jval option"
  json_stringify :: "jstr \<Rightarrow> jstr"
  value_text :: "jval \<Rightarrow> jstr"
  number_text :: "rat \<Rightarrow> jstr"

text \<open>A reader returns a value or \<open>null\<close>, or it throws what \<open>JSON.parse\<close> throws.\<close>

datatype 'a reading = Throws | NoReading | Reading 'a

fun reading_map :: "('a \<Rightarrow> 'b) \<Rightarrow> 'a reading \<Rightarrow> 'b reading" where
  "reading_map f Throws = Throws"
| "reading_map f NoReading = NoReading"
| "reading_map f (Reading x) = Reading (f x)"

section \<open>Splitting at the top level\<close>

text \<open>\<open>splitTopLevelMultiply\<close> and \<open>splitTopLevelAnd\<close> are the same loop with another separator.  Round brackets
  are counted wherever they stand, also inside quotes.\<close>

definition depth_after :: "int \<Rightarrow> code_unit \<Rightarrow> int" where
  "depth_after d x = (if x = 40 then d + 1 else if x = 41 then d - 1 else d)"

function split_top :: "jstr \<Rightarrow> jstr \<Rightarrow> int \<Rightarrow> jstr \<Rightarrow> jstr list" where
  "split_top sep part d [] = [trim part]"
| "split_top sep part d (x # s) =
     (let d' = depth_after d x in
      if d' = 0 \<and> take (length sep) (x # s) = sep
      then trim part # split_top sep [] d' (drop (length sep - 1) s)
      else split_top sep (part @ [x]) d' s)"
  by pat_completeness auto
termination by (relation "measure (\<lambda>(sep, part, d, s). length s)") auto

definition splitTopLevelMultiply :: "jstr \<Rightarrow> jstr list" where
  "splitTopLevelMultiply expr = filter (\<lambda>p. p \<noteq> []) (split_top (js '' * '') [] 0 expr)"

definition splitTopLevelAnd :: "jstr \<Rightarrow> jstr list" where
  "splitTopLevelAnd expr = filter (\<lambda>p. p \<noteq> []) (split_top (js '' && '') [] 0 expr)"

section \<open>Reading conditions\<close>

definition parseExprLiteral :: "ExprEnv \<Rightarrow> jstr \<Rightarrow> jval option" where
  "parseExprLiteral env raw =
     (let t = trim raw in
      if t = js ''true'' \<or> t = js ''false'' then Some (JStr t)
      else if is_numeric t then Some (JStr t)
      else json_parse env t)"

abbreviation not_quote :: "code_unit \<Rightarrow> bool" where "not_quote \<equiv> \<lambda>x. x \<noteq> 34"

definition time_func_re :: regex where
  "time_func_re = RGroup 1 (ralt [lit ''hour'', lit ''minute'', lit ''weekday'', lit ''month'', lit ''day''])"

definition num_group :: "nat \<Rightarrow> regex" where
  "num_group n = RGroup n (RPlus (RClass num_char))"

definition name_group :: "nat \<Rightarrow> regex" where
  "name_group n = RGroup n (RPlus (RClass not_quote))"

definition time_range_core :: "regex list" where
  \<open>time_range_core = [time_func_re, lit ''("'', name_group 2, lit ''") >= '', num_group 3, lit '' '',
     RGroup 4 (RAlt (lit ''&&'') (lit ''||'')), lit '' '', RBackref 1, lit ''("'', RBackref 2, lit ''") < '', num_group 5]\<close>

definition time_range_re :: regex where
  "time_range_re = RSeq RStart (rseq (time_range_core @ [REnd]))"

definition time_range_paren_re :: regex where
  "time_range_paren_re = RSeq RStart (rseq ([lit ''(''] @ time_range_core @ [lit '')'', REnd]))"

definition time_single_re :: regex where
  \<open>time_single_re = RSeq RStart (rseq [time_func_re, lit ''("'', name_group 2, lit ''") '',
     RGroup 3 (ralt [lit ''=='', lit ''>='', lit ''<'']), lit '' '', num_group 4, REnd])\<close>

definition range_of_match :: "captures \<Rightarrow> TimeCondition option" where
  "range_of_match m =
     (if \<not> is_numeric (cap m 3) \<or> \<not> is_numeric (cap m 5)
         \<or> (if num_less (js_number (cap m 5)) (js_number (cap m 3)) then js ''||'' else js ''&&'') \<noteq> cap m 4
      then None
      else Some \<lparr>tm_timeFunc = the (isTimeFunc (cap m 1)), tm_timezone = cap m 2, tm_mode = MATCH_RANGE, tm_value = [],
        tm_rangeStart = cap m 3, tm_rangeEnd = cap m 5\<rparr>)"

definition tryParseTimeCondition :: "jstr \<Rightarrow> TimeCondition option" where
  "tryParseTimeCondition expr =
     (case (case regex_match time_range_re expr of None \<Rightarrow> regex_match time_range_paren_re expr | Some m \<Rightarrow> Some m) of
        Some m \<Rightarrow> range_of_match m
      | None \<Rightarrow> (case regex_match time_single_re expr of None \<Rightarrow> None
          | Some m \<Rightarrow> Some \<lparr>tm_timeFunc = the (isTimeFunc (cap m 1)), tm_timezone = cap m 2,
              tm_mode = (if cap m 3 = js ''>='' then MATCH_GTE else if cap m 3 = js ''<'' then MATCH_LT else MATCH_EQ),
              tm_value = cap m 4, tm_rangeStart = [], tm_rangeEnd = []\<rparr>))"

definition ph_cond :: "RuleSource \<Rightarrow> jstr \<Rightarrow> jstr \<Rightarrow> jstr \<Rightarrow> RequestCondition" where
  "ph_cond src path mode value = CParam \<lparr>ph_source = src, ph_path = path, ph_mode = mode, ph_value = value\<rparr>"

definition header_exists_re :: regex where
  \<open>header_exists_re = RSeq RStart (rseq [lit ''header("'', name_group 1, lit ''") != ""'', REnd])\<close>

definition param_exists_re :: regex where
  \<open>param_exists_re = RSeq RStart (rseq [lit ''param("'', name_group 1, lit ''") != nil'', REnd])\<close>

definition header_contains_re :: regex where
  \<open>header_contains_re = RSeq RStart (rseq [lit ''has(header("'', name_group 1, lit ''"), '', RGroup 2 json_string, lit '')'', REnd])\<close>

definition param_contains_re :: regex where
  \<open>param_contains_re = RSeq RStart (rseq [lit ''param("'', name_group 1, lit ''") != nil && has(param("'', name_group 2, lit ''"), '',
     RGroup 3 json_string, lit '')'', REnd])\<close>

definition param_compare_re :: regex where
  \<open>param_compare_re = RSeq RStart (rseq [lit ''param("'', name_group 1, lit ''") != nil && param("'', name_group 2, lit ''") '',
     RGroup 3 (ralt [lit ''>'', lit ''>='', lit ''<'', lit ''<='']), lit '' '', num_group 4, REnd])\<close>

definition equals_re :: regex where
  \<open>equals_re = RSeq RStart (rseq [RGroup 1 (RAlt (lit ''param'') (lit ''header'')), lit ''("'', name_group 2, lit ''") == '',
     RGroup 3 (RPlus (RClass (\<lambda>x. \<not> line_end x))), REnd])\<close>

definition compare_mode :: "jstr \<Rightarrow> jstr" where
  "compare_mode t = (if t = js ''>'' then MATCH_GT else if t = js ''>='' then MATCH_GTE else if t = js ''<'' then MATCH_LT else MATCH_LTE)"

definition json_reading :: "ExprEnv \<Rightarrow> jstr \<Rightarrow> (jstr \<Rightarrow> 'a) \<Rightarrow> 'a reading" where
  "json_reading env t f = (case json_parse env t of None \<Rightarrow> Throws | Some v \<Rightarrow> Reading (f (str_of v)))"

text \<open>\<open>String(v)\<close>.\<close>

definition text_of :: "ExprEnv \<Rightarrow> jval \<Rightarrow> jstr" where
  "text_of env v = (case v of JStr s \<Rightarrow> s | _ \<Rightarrow> value_text env v)"

definition equals_reading :: "ExprEnv \<Rightarrow> jstr \<Rightarrow> RequestCondition reading" where
  "equals_reading env expr =
     (case regex_match equals_re expr of None \<Rightarrow> NoReading
      | Some m \<Rightarrow> (case parseExprLiteral env (cap m 3) of
            None \<Rightarrow> NoReading
          | Some v \<Rightarrow> if v = JNull then NoReading
              else Reading (ph_cond (if cap m 1 = js ''param'' then SourceParam else SourceHeader) (cap m 2) MATCH_EQ (text_of env v))))"

definition compare_reading :: "ExprEnv \<Rightarrow> jstr \<Rightarrow> RequestCondition reading" where
  "compare_reading env expr =
     (case regex_match param_compare_re expr of
        Some m \<Rightarrow> if cap m 1 = cap m 2 then Reading (ph_cond SourceParam (cap m 1) (compare_mode (cap m 3)) (cap m 4))
                  else equals_reading env expr
      | None \<Rightarrow> equals_reading env expr)"

definition contains_reading :: "ExprEnv \<Rightarrow> jstr \<Rightarrow> RequestCondition reading" where
  "contains_reading env expr =
     (case regex_match param_contains_re expr of
        Some m \<Rightarrow> if cap m 1 = cap m 2 then json_reading env (cap m 3) (ph_cond SourceParam (cap m 1) MATCH_CONTAINS)
                  else compare_reading env expr
      | None \<Rightarrow> compare_reading env expr)"

definition tryParseRequestCondition :: "ExprEnv \<Rightarrow> jstr \<Rightarrow> RequestCondition reading" where
  "tryParseRequestCondition env expr =
     (case tryParseTimeCondition expr of Some tc \<Rightarrow> Reading (CTime tc)
      | None \<Rightarrow> (case regex_match header_exists_re expr of
          Some m \<Rightarrow> Reading (ph_cond SourceHeader (cap m 1) MATCH_EXISTS [])
        | None \<Rightarrow> (case regex_match param_exists_re expr of
            Some m \<Rightarrow> Reading (ph_cond SourceParam (cap m 1) MATCH_EXISTS [])
          | None \<Rightarrow> (case regex_match header_contains_re expr of
              Some m \<Rightarrow> json_reading env (cap m 2) (ph_cond SourceHeader (cap m 1) MATCH_CONTAINS)
            | None \<Rightarrow> contains_reading env expr))))"

definition range_pair :: "TimeCondition \<Rightarrow> TimeCondition \<Rightarrow> TimeCondition option" where
  "range_pair ta tb =
     (if tm_timeFunc ta \<noteq> tm_timeFunc tb \<or> tm_timezone ta \<noteq> tm_timezone tb then None
      else if tm_mode ta \<noteq> MATCH_GTE \<or> tm_mode tb \<noteq> MATCH_LT then None
      else if num_less (js_number (tm_value tb)) (js_number (tm_value ta)) then None
      else Some \<lparr>tm_timeFunc = tm_timeFunc ta, tm_timezone = tm_timezone ta, tm_mode = MATCH_RANGE, tm_value = [],
        tm_rangeStart = tm_value ta, tm_rangeEnd = tm_value tb\<rparr>)"

definition tryParseTimeRangePair :: "jstr \<Rightarrow> jstr \<Rightarrow> TimeCondition option" where
  "tryParseTimeRangePair lower upper =
     (case tryParseTimeCondition lower of None \<Rightarrow> None
      | Some ta \<Rightarrow> (case tryParseTimeCondition upper of None \<Rightarrow> None | Some tb \<Rightarrow> range_pair ta tb))"

text \<open>The loop over the parts: two neighbours that bound a range are one condition.\<close>

fun read_parts :: "ExprEnv \<Rightarrow> jstr list \<Rightarrow> RequestCondition list reading" where
  "read_parts env [] = Reading []"
| "read_parts env (p # ps) =
     (let part = trim p;
          next = (case ps of [] \<Rightarrow> [] | q # _ \<Rightarrow> trim q);
          merged = (if next = [] then None else tryParseTimeRangePair part next) in
      case merged of
        Some c \<Rightarrow> reading_map ((#) (CTime c)) (read_parts env (tl ps))
      | None \<Rightarrow> (case tryParseRequestCondition env part of
            Throws \<Rightarrow> Throws | NoReading \<Rightarrow> NoReading
          | Reading c \<Rightarrow> reading_map ((#) c) (read_parts env ps)))"

definition tryParseRequestConditions :: "ExprEnv \<Rightarrow> jstr \<Rightarrow> RequestCondition list reading" where
  "tryParseRequestConditions env conditionStr =
     (case tryParseTimeCondition (trim conditionStr) of Some tc \<Rightarrow> Reading [CTime tc]
      | None \<Rightarrow> (case read_parts env (splitTopLevelAnd conditionStr) of
            Reading [] \<Rightarrow> NoReading | r \<Rightarrow> r))"

definition rule_factor_re :: regex where
  "rule_factor_re = RSeq RStart (rseq [lit ''('', RGroup 1 (RPlus (RClass any_char)), lit '' ? '', num_group 2, lit '' : 1)'', REnd])"

definition rule_group :: "RequestCondition list \<Rightarrow> jstr \<Rightarrow> RequestRuleGroup" where
  "rule_group cs multiplier = \<lparr>rg_conditions = cs, rg_multiplier = multiplier, rg_conditionText = None, rg_matched = None\<rparr>"

definition tryParseRuleGroupFactor :: "ExprEnv \<Rightarrow> jstr \<Rightarrow> RequestRuleGroup reading" where
  "tryParseRuleGroupFactor env part =
     (case regex_match rule_factor_re part of None \<Rightarrow> NoReading
      | Some m \<Rightarrow> reading_map (\<lambda>cs. rule_group cs (cap m 2)) (tryParseRequestConditions env (cap m 1)))"

definition requestRuleGroupsFromTrace :: "ExprEnv \<Rightarrow> RequestRuleTrace list \<Rightarrow> RequestRuleGroup list option" where
  "requestRuleGroupsFromTrace env requestRules =
     those (map (\<lambda>rule. let conditionText = trim (rt_cond rule) in
       case tryParseRequestConditions env conditionText of Throws \<Rightarrow> None
       | r \<Rightarrow> Some \<lparr>rg_conditions = (case r of Reading cs \<Rightarrow> cs | _ \<Rightarrow> []), rg_multiplier = number_text env (rt_multiplier rule),
                   rg_conditionText = Some conditionText, rg_matched = Some (rt_matched rule)\<rparr>) requestRules)"

fun read_factors :: "ExprEnv \<Rightarrow> jstr list \<Rightarrow> RequestRuleGroup list reading" where
  "read_factors env [] = Reading []"
| "read_factors env (p # ps) =
     (case tryParseRuleGroupFactor env p of Throws \<Rightarrow> Throws | NoReading \<Rightarrow> NoReading
      | Reading g \<Rightarrow> reading_map ((#) g) (read_factors env ps))"

definition tryParseRequestRuleExpr :: "ExprEnv \<Rightarrow> jstr \<Rightarrow> RequestRuleGroup list reading" where
  "tryParseRequestRuleExpr env expr =
     (let trimmed = trim expr in if trimmed = [] then Reading [] else read_factors env (splitTopLevelMultiply trimmed))"

section \<open>Base expression and factors\<close>

fun outer_loop :: "int \<Rightarrow> jstr \<Rightarrow> bool" where
  "outer_loop d [] \<longleftrightarrow> d = 0"
| "outer_loop d (x # s) \<longleftrightarrow> (let d' = depth_after d x in \<not> (d' = 0 \<and> s \<noteq> []) \<and> outer_loop d' s)"

definition hasFullOuterParens :: "jstr \<Rightarrow> bool" where
  "hasFullOuterParens expr \<longleftrightarrow> expr \<noteq> [] \<and> hd expr = 40 \<and> last expr = 41 \<and> outer_loop 0 expr"

lemma length_trim: "length (trim s) \<le> length s"
proof -
  have "length (dropWhile is_space t) \<le> length t" for t by (rule length_dropWhile_le)
  from this[of s] this[of "rev (dropWhile is_space s)"] show ?thesis by (simp add: trim_def)
qed

function unwrap_loop :: "jstr \<Rightarrow> jstr" where
  "unwrap_loop current = (if hasFullOuterParens current then unwrap_loop (trim (butlast (tl current))) else current)"
  by pat_completeness auto
termination
proof (relation "measure length")
  fix s assume "hasFullOuterParens s"
  then show "(trim (butlast (tl s)), s) \<in> measure length"
    using length_trim[of "butlast (tl s)"] by (cases s) (auto simp: hasFullOuterParens_def)
qed simp

declare unwrap_loop.simps [simp del]

definition unwrapOuterParens :: "jstr \<Rightarrow> jstr" where
  "unwrapOuterParens expr = unwrap_loop (trim expr)"

record SplitExpr =
  se_billingExpr :: jstr
  se_requestRuleExpr :: jstr

text \<open>The parts that read as factors and those that do not; reading a part may throw.\<close>

fun rule_parts :: "ExprEnv \<Rightarrow> jstr list \<Rightarrow> (jstr list \<times> jstr list) option" where
  "rule_parts env [] = Some ([], [])"
| "rule_parts env (p # ps) =
     (case tryParseRequestRuleExpr env p of Throws \<Rightarrow> None
      | r \<Rightarrow> map_option (\<lambda>(rules, base). case r of Reading (g # gs) \<Rightarrow> (p # rules, base) | _ \<Rightarrow> (rules, p # base))
                (rule_parts env ps))"

definition splitBillingExprAndRequestRules :: "ExprEnv \<Rightarrow> jstr \<Rightarrow> SplitExpr option" where
  "splitBillingExprAndRequestRules env expr =
     (let trimmed = trim expr in
      if trimmed = [] then Some \<lparr>se_billingExpr = [], se_requestRuleExpr = []\<rparr>
      else let parts = splitTopLevelMultiply trimmed in
        if length parts \<le> 1 then Some \<lparr>se_billingExpr = trimmed, se_requestRuleExpr = []\<rparr>
        else map_option (\<lambda>(ruleParts, baseParts).
            if ruleParts = [] \<or> length baseParts \<noteq> 1 then \<lparr>se_billingExpr = trimmed, se_requestRuleExpr = []\<rparr>
            else \<lparr>se_billingExpr = unwrapOuterParens (hd baseParts), se_requestRuleExpr = join (js '' * '') ruleParts\<rparr>)
          (rule_parts env parts))"

definition combineBillingExpr :: "jstr \<Rightarrow> jstr \<Rightarrow> jstr" where
  "combineBillingExpr baseExpr requestRuleExpr =
     (let base = trim baseExpr; rules = trim requestRuleExpr in
      if base = [] then [] else if rules = [] then base
      else js ''('' @ base @ js '') * '' @ rules)"

section \<open>The editor\<close>

definition createEmptyCondition :: ParamHeaderCondition where
  "createEmptyCondition = \<lparr>ph_source = SourceParam, ph_path = [], ph_mode = MATCH_EQ, ph_value = []\<rparr>"

definition createEmptyTimeCondition :: TimeCondition where
  "createEmptyTimeCondition = \<lparr>tm_timeFunc = FHour, tm_timezone = js ''Asia/Shanghai'', tm_mode = MATCH_GTE, tm_value = [],
     tm_rangeStart = [], tm_rangeEnd = []\<rparr>"

definition createEmptyRuleGroup :: RequestRuleGroup where
  "createEmptyRuleGroup = rule_group [CParam createEmptyCondition] []"

definition createEmptyTimeRuleGroup :: RequestRuleGroup where
  "createEmptyTimeRuleGroup = rule_group [CTime createEmptyTimeCondition] []"

definition getRequestRuleMatchOptions :: "jstr \<Rightarrow> (jstr \<times> jstr) list" where
  "getRequestRuleMatchOptions src =
     (if src = js ''time''
      then [(MATCH_EQ, js ''Equals''), (MATCH_GTE, js ''Greater than or equal''), (MATCH_LT, js ''Less than''), (MATCH_RANGE, js ''Overnight range'')]
      else let base = [(MATCH_EQ, js ''Equals''), (MATCH_CONTAINS, js ''Contains''), (MATCH_EXISTS, js ''Exists'')] in
        if src = js ''header'' then base
        else base @ [(MATCH_GT, js ''Greater than''), (MATCH_GTE, js ''Greater than or equal''), (MATCH_LT, js ''Less than''), (MATCH_LTE, js ''Less than or equal'')])"

text \<open>A condition some of whose properties may be missing.\<close>

record PartialCondition =
  pc_source :: "jstr option"
  pc_timeFunc :: "jstr option"
  pc_timezone :: "jstr option"
  pc_path :: "jstr option"
  pc_mode :: "jstr option"
  pc_value :: "jstr option"
  pc_rangeStart :: "jstr option"
  pc_rangeEnd :: "jstr option"

definition no_condition :: PartialCondition where
  "no_condition = \<lparr>pc_source = None, pc_timeFunc = None, pc_timezone = None, pc_path = None, pc_mode = None, pc_value = None,
     pc_rangeStart = None, pc_rangeEnd = None\<rparr>"

fun source_text :: "RuleSource \<Rightarrow> jstr" where
  "source_text SourceParam = js ''param''"
| "source_text SourceHeader = js ''header''"

fun partial_of :: "RequestCondition \<Rightarrow> PartialCondition" where
  "partial_of (CTime t) = no_condition\<lparr>pc_source := Some (js ''time''), pc_timeFunc := Some (time_func_text (tm_timeFunc t)),
     pc_timezone := Some (tm_timezone t), pc_mode := Some (tm_mode t), pc_value := Some (tm_value t),
     pc_rangeStart := Some (tm_rangeStart t), pc_rangeEnd := Some (tm_rangeEnd t)\<rparr>"
| "partial_of (CParam p) = no_condition\<lparr>pc_source := Some (source_text (ph_source p)), pc_path := Some (ph_path p),
     pc_mode := Some (ph_mode p), pc_value := Some (ph_value p)\<rparr>"

definition option_mode :: "jstr \<Rightarrow> jstr option \<Rightarrow> jstr \<Rightarrow> jstr" where
  "option_mode src mode fallback =
     (case mode of Some m \<Rightarrow> if m \<in> fst ` set (getRequestRuleMatchOptions src) then m else fallback | None \<Rightarrow> fallback)"

definition normalizeCondition :: "PartialCondition option \<Rightarrow> RequestCondition" where
  "normalizeCondition cond =
     (let c = (case cond of None \<Rightarrow> no_condition | Some c \<Rightarrow> c) in
      if pc_source c = Some (js ''time'')
      then CTime \<lparr>tm_timeFunc = (case pc_timeFunc c of None \<Rightarrow> FHour | Some f \<Rightarrow> (case isTimeFunc f of None \<Rightarrow> FHour | Some t \<Rightarrow> t)),
        tm_timezone = str_or (pc_timezone c) (js ''Asia/Shanghai''), tm_mode = option_mode (js ''time'') (pc_mode c) MATCH_GTE,
        tm_value = str_or (pc_value c) [], tm_rangeStart = str_or (pc_rangeStart c) [], tm_rangeEnd = str_or (pc_rangeEnd c) []\<rparr>
      else let src = (if pc_source c = Some (js ''header'') then SourceHeader else SourceParam) in
        CParam \<lparr>ph_source = src, ph_path = str_or (pc_path c) [], ph_mode = option_mode (source_text src) (pc_mode c) MATCH_EQ,
          ph_value = str_or (pc_value c) []\<rparr>)"

section \<open>Writing expressions\<close>

definition buildExprLiteral :: "ExprEnv \<Rightarrow> jstr \<Rightarrow> jstr \<Rightarrow> jstr" where
  "buildExprLiteral env mode value =
     (let t = trim value in
      if mode = MATCH_CONTAINS then json_stringify env t
      else if t = js ''true'' \<or> t = js ''false'' then t
      else if is_numeric t then t
      else json_stringify env t)"

fun time_of :: "RequestCondition \<Rightarrow> TimeCondition" where
  "time_of (CTime t) = t"
| "time_of (CParam p) = createEmptyTimeCondition"

fun param_of :: "RequestCondition \<Rightarrow> ParamHeaderCondition" where
  "param_of (CParam p) = p"
| "param_of (CTime t) = createEmptyCondition"

definition buildTimeConditionExpr :: "ExprEnv \<Rightarrow> TimeCondition \<Rightarrow> jstr" where
  "buildTimeConditionExpr env cond =
     (let normalized = time_of (normalizeCondition (Some (partial_of (CTime cond))));
          mode = tm_mode normalized;
          fn = time_func_text (tm_timeFunc normalized) @ js ''('' @ json_stringify env (tm_timezone normalized) @ js '')'' in
      if mode = MATCH_RANGE
      then let s = trim (tm_rangeStart normalized); e = trim (tm_rangeEnd normalized) in
        if \<not> is_numeric s \<or> \<not> is_numeric e then []
        else if num_less (js_number e) (js_number s) then fn @ js '' >= '' @ s @ js '' || '' @ fn @ js '' < '' @ e
        else fn @ js '' >= '' @ s @ js '' && '' @ fn @ js '' < '' @ e
      else let v = trim (tm_value normalized) in
        if \<not> is_numeric v then []
        else fn @ js '' '' @ (if mode = MATCH_GTE then js ''>='' else if mode = MATCH_LT then js ''<'' else js ''=='') @ js '' '' @ v)"

definition compare_text :: "jstr \<Rightarrow> jstr" where
  "compare_text mode = (if mode = MATCH_GT then js ''>'' else if mode = MATCH_GTE then js ''>='' else if mode = MATCH_LT then js ''<'' else js ''<='')"

definition buildRequestConditionExpr :: "ExprEnv \<Rightarrow> RequestCondition \<Rightarrow> jstr" where
  \<open>buildRequestConditionExpr env cond =
     (case cond of CTime t \<Rightarrow> buildTimeConditionExpr env t
      | CParam p \<Rightarrow>
        (let normalized = param_of (normalizeCondition (Some (partial_of cond)));
             path = trim (ph_path normalized); mode = ph_mode normalized in
         if path = [] then []
         else let sourceExpr = (if ph_source normalized = SourceHeader then js ''header('' else js ''param('') @ json_stringify env path @ js '')'' in
           if mode = MATCH_EXISTS
           then (if ph_source normalized = SourceHeader then sourceExpr @ js '' != ""'' else sourceExpr @ js '' != nil'')
           else if mode = MATCH_CONTAINS
           then (if ph_source normalized = SourceHeader
                 then js ''has('' @ sourceExpr @ js '', '' @ buildExprLiteral env mode (ph_value normalized) @ js '')''
                 else sourceExpr @ js '' != nil && has('' @ sourceExpr @ js '', '' @ buildExprLiteral env mode (ph_value normalized) @ js '')'')
           else if mode \<in> {MATCH_GT, MATCH_GTE, MATCH_LT, MATCH_LTE}
           then (let numText = trim (ph_value normalized) in
                 if \<not> is_numeric numText then []
                 else sourceExpr @ js '' != nil && '' @ sourceExpr @ js '' '' @ compare_text mode @ js '' '' @ numText)
           else sourceExpr @ js '' == '' @ buildExprLiteral env mode (ph_value normalized)))\<close>

definition combine_conditions :: "jstr list \<Rightarrow> jstr" where
  "combine_conditions condExprs =
     (if length condExprs = 1 then hd condExprs
      else join (js '' && '') (map (\<lambda>e. if js_includes e (js '' || '') then js ''('' @ e @ js '')'' else e) condExprs))"

definition buildRuleGroupFactor :: "ExprEnv \<Rightarrow> RequestRuleGroup \<Rightarrow> jstr" where
  "buildRuleGroupFactor env g =
     (let multiplier = trim (rg_multiplier g) in
      if \<not> is_numeric multiplier then []
      else let condExprs = filter (\<lambda>e. e \<noteq> []) (map (buildRequestConditionExpr env) (rg_conditions g)) in
        if condExprs = [] then []
        else js ''('' @ combine_conditions condExprs @ js '' ? '' @ multiplier @ js '' : 1)'')"

definition buildRequestRuleExpr :: "ExprEnv \<Rightarrow> RequestRuleGroup list \<Rightarrow> jstr" where
  "buildRequestRuleExpr env groups = join (js '' * '') (filter (\<lambda>e. e \<noteq> []) (map (buildRuleGroupFactor env) groups))"

end
