(* ===== verification/Billing_Texts.thy ===== *)
theory Billing_Texts
  imports Billing_Expr
begin

text \<open>
  The texts of request rules.  The splitters of the source are shown to undo joining for parts in
  which the separator does not occur at the top level (locale \<open>top_splitter\<close>, interpreted for both
  splitters); each pattern is shown to recognise the texts written for it and no other; the
  conjuncts a row of the editor is written as are shown to be such parts.
\<close>

section \<open>Splitting at the top level\<close>

abbreviation nesting :: "int \<Rightarrow> jstr \<Rightarrow> int" where
  "nesting d s \<equiv> foldl depth_after d s"

fun clear_of :: "code_unit \<Rightarrow> int \<Rightarrow> jstr \<Rightarrow> bool" where
  "clear_of k d [] \<longleftrightarrow> True"
| "clear_of k d (x # s) \<longleftrightarrow> (depth_after d x = 0 \<longrightarrow> x \<noteq> k) \<and> clear_of k (depth_after d x) s"

lemma clear_of_append [simp]: "clear_of k d (s @ t) \<longleftrightarrow> clear_of k d s \<and> clear_of k (nesting d s) t"
  by (induction s arbitrary: d) auto

abbreviation bracket_free :: "jstr \<Rightarrow> bool" where
  "bracket_free s \<equiv> 40 \<notin> set s \<and> 41 \<notin> set s"

lemma nesting_bracket_free [simp]: "bracket_free s \<Longrightarrow> nesting d s = d"
  by (induction s arbitrary: d) (auto simp: depth_after_def)

lemma clear_bracket_free: "bracket_free s \<Longrightarrow> d \<noteq> 0 \<or> k \<notin> set s \<Longrightarrow> clear_of k d s"
  by (induction s arbitrary: d) (auto simp: depth_after_def)

locale top_splitter =
  fixes sep rest :: jstr and k :: code_unit
  assumes shape: "sep = 32 # k # rest" and not_special: "k \<noteq> 32" "k \<noteq> 40" "k \<noteq> 41"
begin

lemma no_split_here:
  assumes "depth_after d x = 0" "clear_of k d (x # p)"
  shows "take (length sep) (x # p @ sep @ q) \<noteq> sep" "take (length sep) (x # p) \<noteq> sep"
proof -
  have "depth_after 0 k = 0" using not_special by (simp add: depth_after_def)
  with assms show "take (length sep) (x # p @ sep @ q) \<noteq> sep" "take (length sep) (x # p) \<noteq> sep"
    using not_special(1) by (cases p; auto simp: shape)+
qed

lemma split_top_sep:
  "clear_of k d p \<Longrightarrow> nesting d p = 0 \<Longrightarrow> split_top sep part d (p @ sep @ q) = trim (part @ p) # split_top sep [] 0 q"
proof (induction p arbitrary: part d)
  case Nil
  have "depth_after 0 32 = 0" by (simp add: depth_after_def)
  with Nil show ?case by (simp add: shape)
next
  case (Cons x p)
  then show ?case using no_split_here(1)[of d x p q] by (auto simp: Let_def)
qed

lemma split_top_last: "clear_of k d p \<Longrightarrow> split_top sep part d p = [trim (part @ p)]"
proof (induction p arbitrary: part d)
  case (Cons x p)
  then show ?case using no_split_here(2)[of d x p] by (auto simp: Let_def)
qed simp

text \<open>A part that survives: not empty, trimmed, with balanced brackets and without the separator at the
  top level.\<close>

definition part_ok :: "jstr \<Rightarrow> bool" where
  "part_ok p \<longleftrightarrow> p \<noteq> [] \<and> trim p = p \<and> nesting 0 p = 0 \<and> clear_of k 0 p"

lemma split_top_join: "ps \<noteq> [] \<Longrightarrow> list_all part_ok ps \<Longrightarrow> split_top sep [] 0 (join sep ps) = ps"
proof (induction ps rule: induct_list012)
  case (2 p)
  then show ?case by (simp add: split_top_last part_ok_def)
next
  case (3 p q ps)
  then show ?case using split_top_sep[of 0 p "[]" "join sep (q # ps)"] by (simp add: part_ok_def)
qed simp

end

interpretation and_split: top_splitter "js '' && ''" "[38, 32]" 38
  by unfold_locales (simp_all add: jstr_eval)

interpretation multiply_split: top_splitter "js '' * ''" "[32]" 42
  by unfold_locales (simp_all add: jstr_eval)

lemma filter_nonempty_parts: "list_all (\<lambda>p. p \<noteq> []) ps \<Longrightarrow> filter (\<lambda>p. p \<noteq> []) ps = ps"
  by (simp add: list_all_iff)

lemma splitTopLevelAnd_join:
  "ps \<noteq> [] \<Longrightarrow> list_all and_split.part_ok ps \<Longrightarrow> splitTopLevelAnd (join (js '' && '') ps) = ps"
  by (simp add: splitTopLevelAnd_def and_split.split_top_join) (simp add: list_all_iff and_split.part_ok_def)

lemma splitTopLevelMultiply_join:
  "ps \<noteq> [] \<Longrightarrow> list_all multiply_split.part_ok ps \<Longrightarrow> splitTopLevelMultiply (join (js '' * '') ps) = ps"
  by (simp add: splitTopLevelMultiply_def multiply_split.split_top_join) (simp add: list_all_iff multiply_split.part_ok_def)

section \<open>Steps of the patterns on written texts\<close>

lemma numeric_chars: "is_numeric s \<Longrightarrow> list_all num_char s"
  unfolding is_numeric_def NUMERIC_LITERAL_REGEX_def
  by (erule anchored_test_chars) (auto simp: lit_def jstr_eval num_char_def)

lemma numeric_nonempty: "is_numeric s \<Longrightarrow> s \<noteq> []"
  unfolding is_numeric_def NUMERIC_LITERAL_REGEX_def
  by (erule anchored_test_nonempty) (simp add: lit_def jstr_eval after_prefix_def)

lemma num_char_plain: "num_char x \<Longrightarrow> \<not> is_space x \<and> x \<noteq> 34 \<and> x \<noteq> 40 \<and> x \<noteq> 41 \<and> x \<noteq> 38 \<and> x \<noteq> 42 \<and> x \<noteq> 124 \<and> x \<noteq> 92"
  by (auto simp: num_char_def is_digit_def is_space_def js_spaces_def)

lemma numeric_set: "is_numeric s \<Longrightarrow> x \<in> set s \<Longrightarrow> num_char x"
  using numeric_chars by (auto simp: list_all_iff)

lemma numeric_plain:
  assumes "is_numeric s"
  shows "trim s = s" "34 \<notin> set s" "bracket_free s" "38 \<notin> set s" "42 \<notin> set s" "124 \<notin> set s" "92 \<notin> set s"
  using numeric_set[OF assms] num_char_plain by (auto intro: trim_no_space)

named_theorems regex_step \<open>one step of a pattern on a written text\<close>

lemma step_lit [regex_step]:
  "run inp (RSeq (RLit l) r) (s, c) = (if take (length l) s = l then run inp r (drop (length l) s, c) else [])"
  by (simp add: after_prefix_def)

lemma step_name [regex_step]:
  assumes "m \<noteq> []" "34 \<notin> set m"
  shows "run inp (RSeq (name_group n) (RSeq (RLit (34 # l)) r)) (m @ 34 # u, c) = run inp (RSeq (RLit (34 # l)) r) (34 # u, c(n \<mapsto> m))"
  unfolding name_group_def using assms by (intro cap_plus regex_fail) (auto simp: list_all_iff)

lemma step_num [regex_step]:
  assumes "is_numeric v" "\<not> num_char x" "stops num_char u"
  shows "run inp (RSeq (num_group n) (RSeq (RLit (x # l)) r)) (v @ u, c) = run inp (RSeq (RLit (x # l)) r) (u, c(n \<mapsto> v))"
  unfolding num_group_def using assms numeric_chars numeric_nonempty by (intro cap_plus regex_fail) auto

lemma step_num_end [regex_step]:
  assumes "is_numeric v" "stops num_char u"
  shows "run inp (RSeq (num_group n) REnd) (v @ u, c) = run inp REnd (u, c(n \<mapsto> v))"
  unfolding num_group_def using assms numeric_chars numeric_nonempty by (intro cap_plus regex_fail) auto

lemma step_alt_group [regex_step]:
  "run inp (RSeq (RGroup n (RAlt a b)) r) st = run inp (RSeq (RGroup n a) r) st @ run inp (RSeq (RGroup n b) r) st"
  by simp

lemma step_lit_group [regex_step]:
  "run inp (RSeq (RGroup n (RLit l)) r) (s, c) = (if take (length l) s = l then run inp r (drop (length l) s, c(n \<mapsto> l)) else [])"
proof -
  have "take (length s - (length s - length l)) s = l" if "take (length l) s = l"
    using that by (metis diff_diff_cancel length_take min.cobounded1)
  then show ?thesis by (simp add: after_prefix_def)
qed

lemma step_time_func [regex_step]:
  "run inp (RSeq time_func_re r) (time_func_text f @ s, c) = run inp r (s, c(1 \<mapsto> time_func_text f))"
  by (cases f) (simp_all add: time_func_re_def lit_def jstr_eval after_prefix_def)

lemma step_time_func_other [regex_step]:
  "x \<notin> {104, 109, 119, 100} \<Longrightarrow> run inp (RSeq time_func_re r) (x # s, c) = []"
  by (simp add: time_func_re_def lit_def jstr_eval after_prefix_def)

lemma step_backref [regex_step]:
  "c n = Some l \<Longrightarrow> run inp (RSeq (RBackref n) r) (l @ s, c) = run inp r (s, c)"
  by simp

lemma not_num_space [simp]: "\<not> num_char 32" "\<not> num_char 41" "\<not> num_char 58"
  by (simp_all add: num_char_def is_digit_def)

lemma isTimeFunc_text [simp]: "isTimeFunc (time_func_text f) = Some f"
  by (cases f) (simp_all add: isTimeFunc_def TIME_FUNCS_def)

lemma cap_simps [simp]: "cap (c(n \<mapsto> t)) n = t" "n \<noteq> k \<Longrightarrow> cap (c(k \<mapsto> t)) n = cap c n"
  by (simp_all add: cap_def)

section \<open>Time conditions\<close>

definition time_call :: "TimeFunc \<Rightarrow> jstr \<Rightarrow> jstr" where
  "time_call f tz = time_func_text f @ 40 # 34 # tz @ [34, 41]"

definition time_atom :: "TimeFunc \<Rightarrow> jstr \<Rightarrow> jstr \<Rightarrow> jstr \<Rightarrow> jstr" where
  "time_atom f tz opr v = time_call f tz @ 32 # opr @ 32 # v"

definition time_ops :: "jstr set" where
  "time_ops = {js ''=='', js ''>='', js ''<''}"

lemmas pattern_text = lit_def jstr_eval

lemma single_match:
  assumes "tz \<noteq> []" "34 \<notin> set tz" "is_numeric v" "opr \<in> time_ops"
  shows "regex_match time_single_re (time_atom f tz opr v)
    = Some (Map.empty(1 \<mapsto> time_func_text f, 2 \<mapsto> tz, 3 \<mapsto> opr, 4 \<mapsto> v))"
proof -
  have end_num: "run inp (RSeq (num_group n) REnd) (v, c) = [([], c(n \<mapsto> v))]" for inp n c
    using step_num_end[OF assms(3), of "[]" inp n c] by simp
  from assms(4) show ?thesis unfolding time_single_re_def
    by (intro regex_match_hit[where st = "([], Map.empty(1 \<mapsto> time_func_text f, 2 \<mapsto> tz, 3 \<mapsto> opr, 4 \<mapsto> v))" and sts = "[]", THEN trans])
      (auto simp: time_ops_def time_atom_def time_call_def pattern_text regex_step assms(1,2) end_num after_prefix_def
        simp del: run.simps(3))
qed

lemma range_miss_single:
  assumes "tz \<noteq> []" "34 \<notin> set tz" "is_numeric v" "opr \<in> time_ops"
  shows "regex_match time_range_re (time_atom f tz opr v) = None" "regex_match time_range_paren_re (time_atom f tz opr v) = None"
proof -
  have num: "run inp (RSeq (num_group n) (RSeq (RLit (32 # l)) r)) (v, c) = []" for inp n l r c
    using step_num[OF assms(3), of 32 "[]" inp n l r c] by (simp add: step_lit del: run.simps(3))
  show "regex_match time_range_re (time_atom f tz opr v) = None"
    unfolding time_range_re_def using assms(4)
    by (intro regex_match_miss)
      (auto simp: time_range_core_def time_ops_def time_atom_def time_call_def pattern_text regex_step assms(1,2) num simp del: run.simps(3))
  show "regex_match time_range_paren_re (time_atom f tz opr v) = None"
    unfolding time_range_paren_re_def
    by (intro regex_match_miss, cases f)
      (simp_all add: time_range_core_def time_atom_def time_call_def pattern_text regex_step del: run.simps(3))
qed

definition op_mode :: "jstr \<Rightarrow> jstr" where
  "op_mode opr = (if opr = js ''>='' then MATCH_GTE else if opr = js ''<'' then MATCH_LT else MATCH_EQ)"

definition single_cond :: "TimeFunc \<Rightarrow> jstr \<Rightarrow> jstr \<Rightarrow> jstr \<Rightarrow> TimeCondition" where
  "single_cond f tz mode v = \<lparr>tm_timeFunc = f, tm_timezone = tz, tm_mode = mode, tm_value = v, tm_rangeStart = [], tm_rangeEnd = []\<rparr>"

definition range_cond :: "TimeFunc \<Rightarrow> jstr \<Rightarrow> jstr \<Rightarrow> jstr \<Rightarrow> TimeCondition" where
  "range_cond f tz s e = \<lparr>tm_timeFunc = f, tm_timezone = tz, tm_mode = MATCH_RANGE, tm_value = [], tm_rangeStart = s, tm_rangeEnd = e\<rparr>"

lemma read_time_atom:
  assumes "tz \<noteq> []" "34 \<notin> set tz" "is_numeric v" "opr \<in> time_ops"
  shows "tryParseTimeCondition (time_atom f tz opr v) = Some (single_cond f tz (op_mode opr) v)"
  by (simp add: tryParseTimeCondition_def range_miss_single[OF assms] single_match[OF assms] single_cond_def op_mode_def)

definition range_text :: "TimeFunc \<Rightarrow> jstr \<Rightarrow> jstr \<Rightarrow> jstr \<Rightarrow> jstr \<Rightarrow> jstr" where
  "range_text f tz s junctor e = time_atom f tz (js ''>='') s @ 32 # junctor @ 32 # time_atom f tz (js ''<'') e"

definition range_junctor :: "jstr \<Rightarrow> jstr \<Rightarrow> jstr" where
  "range_junctor s e = (if num_less (js_number e) (js_number s) then js ''||'' else js ''&&'')"

lemma range_run:
  assumes "tz \<noteq> []" "34 \<notin> set tz" "is_numeric s" "is_numeric e" "junctor \<in> {js ''&&'', js ''||''}"
    and r: "r = REnd \<or> (\<exists>x l r'. r = RSeq (RLit (x # l)) r' \<and> \<not> num_char x)" and u: "stops num_char u"
  shows "run inp (rseq (time_range_core @ [r])) (range_text f tz s junctor e @ u, c)
    = run inp r (u, c(1 \<mapsto> time_func_text f, 2 \<mapsto> tz, 3 \<mapsto> s, 4 \<mapsto> junctor, 5 \<mapsto> e))"
proof -
  have last: "run inp (RSeq (num_group n) r) (e @ u, c) = run inp r (u, c(n \<mapsto> e))" for n c
    using r u step_num[OF assms(4)] step_num_end[OF assms(4)] by auto
  have first: "run inp (RSeq (num_group n) (RSeq (RLit [32]) r')) (s @ 32 # t, c) = run inp r' (t, c(n \<mapsto> s))" for n t r' c
    using step_num[OF assms(3), of 32 "32 # t" inp n "[]" r' c] by (simp add: step_lit del: run.simps(3))
  have two: "run inp (RSeq (RBackref 2) r') (tz @ t, c) = run inp r' (t, c)" if "c 2 = Some tz" for r' t c
    using that by (rule step_backref)
  from assms(5) show ?thesis
    by (elim insertE emptyE)
      (simp_all add: time_range_core_def range_text_def time_atom_def time_call_def pattern_text regex_step assms(1,2) last first two
        del: run.simps(3))
qed

lemma range_match:
  assumes "tz \<noteq> []" "34 \<notin> set tz" "is_numeric s" "is_numeric e" "junctor \<in> {js ''&&'', js ''||''}"
  shows "regex_match time_range_re (range_text f tz s junctor e)
      = Some (Map.empty(1 \<mapsto> time_func_text f, 2 \<mapsto> tz, 3 \<mapsto> s, 4 \<mapsto> junctor, 5 \<mapsto> e))"
    and "regex_match time_range_paren_re (40 # range_text f tz s junctor e @ [41])
      = Some (Map.empty(1 \<mapsto> time_func_text f, 2 \<mapsto> tz, 3 \<mapsto> s, 4 \<mapsto> junctor, 5 \<mapsto> e))"
    and "regex_match time_range_re (40 # range_text f tz s junctor e @ [41]) = None"
proof -
  show "regex_match time_range_re (range_text f tz s junctor e)
      = Some (Map.empty(1 \<mapsto> time_func_text f, 2 \<mapsto> tz, 3 \<mapsto> s, 4 \<mapsto> junctor, 5 \<mapsto> e))"
    unfolding time_range_re_def
    using range_run[OF assms, where r = REnd and u = "[]" and c = Map.empty and f = f] by (subst regex_match_hit) auto
  show "regex_match time_range_re (40 # range_text f tz s junctor e @ [41]) = None"
    unfolding time_range_re_def
    by (intro regex_match_miss) (simp add: time_range_core_def regex_step del: run.simps(3))
  have core: "rseq ([lit ''(''] @ time_range_core @ [lit '')'', REnd]) = RSeq (lit ''('') (rseq (time_range_core @ [RSeq (lit '')'') REnd]))"
    by (simp add: time_range_core_def)
  have "run inp (rseq (time_range_core @ [RSeq (RLit [41]) REnd])) (range_text f tz s junctor e @ [41], Map.empty)
      = [([], Map.empty(1 \<mapsto> time_func_text f, 2 \<mapsto> tz, 3 \<mapsto> s, 4 \<mapsto> junctor, 5 \<mapsto> e))]" for inp
    by (subst range_run[OF assms]) (auto simp: step_lit simp del: run.simps(3))
  then have "run inp (rseq ([lit ''(''] @ time_range_core @ [lit '')'', REnd])) (40 # range_text f tz s junctor e @ [41], Map.empty)
      = [([], Map.empty(1 \<mapsto> time_func_text f, 2 \<mapsto> tz, 3 \<mapsto> s, 4 \<mapsto> junctor, 5 \<mapsto> e))]" for inp
    unfolding core by (simp add: pattern_text step_lit del: run.simps(3))
  from regex_match_hit[OF this]
  show "regex_match time_range_paren_re (40 # range_text f tz s junctor e @ [41])
      = Some (Map.empty(1 \<mapsto> time_func_text f, 2 \<mapsto> tz, 3 \<mapsto> s, 4 \<mapsto> junctor, 5 \<mapsto> e))"
    unfolding time_range_paren_re_def by simp
qed

lemma read_range:
  assumes "tz \<noteq> []" "34 \<notin> set tz" "is_numeric s" "is_numeric e"
  shows "tryParseTimeCondition (range_text f tz s (range_junctor s e) e) = Some (range_cond f tz s e)"
    and "tryParseTimeCondition (40 # range_text f tz s (range_junctor s e) e @ [41]) = Some (range_cond f tz s e)"
    and "junctor \<in> {js ''&&'', js ''||''} \<Longrightarrow> junctor \<noteq> range_junctor s e \<Longrightarrow> tryParseTimeCondition (range_text f tz s junctor e) = None"
proof -
  have j: "range_junctor s e \<in> {js ''&&'', js ''||''}" by (simp add: range_junctor_def)
  have hit: "range_of_match (Map.empty(1 \<mapsto> time_func_text f, 2 \<mapsto> tz, 3 \<mapsto> s, 4 \<mapsto> range_junctor s e, 5 \<mapsto> e)) = Some (range_cond f tz s e)"
    using assms(3,4) by (simp add: range_of_match_def range_cond_def range_junctor_def)
  show "tryParseTimeCondition (range_text f tz s (range_junctor s e) e) = Some (range_cond f tz s e)"
    "tryParseTimeCondition (40 # range_text f tz s (range_junctor s e) e @ [41]) = Some (range_cond f tz s e)"
    using hit by (simp_all add: tryParseTimeCondition_def range_match[OF assms j])
  show "tryParseTimeCondition (range_text f tz s junctor e) = None"
    if "junctor \<in> {js ''&&'', js ''||''}" "junctor \<noteq> range_junctor s e"
    using that(2) by (auto simp: tryParseTimeCondition_def range_match[OF assms that(1)] range_of_match_def range_junctor_def)
qed

section \<open>Conditions on parameters and headers\<close>

declare run.simps(3) [simp del]

lemma step_time_func_h: "y \<noteq> 111 \<Longrightarrow> run inp (RSeq time_func_re r) (104 # y # s, c) = []"
  by (simp add: time_func_re_def pattern_text after_prefix_def run.simps(3))

lemma not_time:
  assumes "s = 112 # t \<or> s = 104 # y # t \<and> y \<noteq> 111"
  shows "tryParseTimeCondition s = None"
proof -
  have none: "run inp (RSeq time_func_re r) (s, c) = []" for inp r c
    using assms by (auto simp: step_time_func_other step_time_func_h)
  have "run inp (RSeq (RLit [40]) r) (s, c) = []" for inp r c using assms by (auto simp: step_lit)
  then have "regex_match time_range_re s = None" "regex_match time_range_paren_re s = None" "regex_match time_single_re s = None"
    unfolding time_range_re_def time_range_paren_re_def time_single_re_def time_range_core_def
    by (intro regex_match_miss; simp add: none pattern_text)+
  then show ?thesis by (simp add: tryParseTimeCondition_def)
qed

definition source_call :: "RuleSource \<Rightarrow> jstr \<Rightarrow> jstr" where
  "source_call src path = source_text src @ 40 # 34 # path @ [34, 41]"

lemmas source_text_eval = source_call_def source_text.simps

lemma not_time_source: "tryParseTimeCondition (source_call src path @ u) = None"
proof (cases src)
  case SourceParam
  then show ?thesis by (intro not_time[of _ "tl (source_call src path @ u)" 101]) (simp add: source_text_eval pattern_text)
next
  case SourceHeader
  then show ?thesis by (intro not_time[of _ "tl (tl (source_call src path @ u))" 101]) (simp add: source_text_eval pattern_text)
qed

lemma not_time_has: "tryParseTimeCondition (js ''has('' @ u) = None"
  by (rule not_time[of _ _ 97]) (simp add: pattern_text)

abbreviation name_ok :: "jstr \<Rightarrow> bool" where
  "name_ok t \<equiv> t \<noteq> [] \<and> 34 \<notin> set t"

lemma read_exists:
  assumes "name_ok path"
  shows "tryParseRequestCondition env (source_call SourceHeader path @ [32, 33, 61, 32, 34, 34]) = Reading (ph_cond SourceHeader path MATCH_EXISTS [])"
    and "tryParseRequestCondition env (source_call SourceParam path @ [32, 33, 61, 32, 110, 105, 108]) = Reading (ph_cond SourceParam path MATCH_EXISTS [])"
proof -
  have "regex_match header_exists_re (source_call SourceHeader path @ [32, 33, 61, 32, 34, 34]) = Some [1 \<mapsto> path]"
    unfolding header_exists_re_def using assms
    by (simp add: regex_match_anchored source_text_eval pattern_text regex_step)
  then show "tryParseRequestCondition env (source_call SourceHeader path @ [32, 33, 61, 32, 34, 34]) = Reading (ph_cond SourceHeader path MATCH_EXISTS [])"
    by (simp add: tryParseRequestCondition_def not_time_source cap_def)
  have "regex_match header_exists_re (source_call SourceParam path @ [32, 33, 61, 32, 110, 105, 108]) = None"
    unfolding header_exists_re_def by (simp add: regex_match_anchored source_text_eval pattern_text regex_step)
  moreover have "regex_match param_exists_re (source_call SourceParam path @ [32, 33, 61, 32, 110, 105, 108]) = Some [1 \<mapsto> path]"
    unfolding param_exists_re_def using assms
    by (simp add: regex_match_anchored source_text_eval pattern_text regex_step)
  ultimately show "tryParseRequestCondition env (source_call SourceParam path @ [32, 33, 61, 32, 110, 105, 108]) = Reading (ph_cond SourceParam path MATCH_EXISTS [])"
    by (simp add: tryParseRequestCondition_def not_time_source cap_def)
qed

text \<open>A text \<open>source("path") == literal\<close> reaches the last pattern.\<close>

lemma read_equals:
  assumes "name_ok path"
  shows "tryParseRequestCondition env (source_call src path @ 32 # 61 # 61 # 32 # t) = equals_reading env (source_call src path @ 32 # 61 # 61 # 32 # t)"
proof -
  let ?s = "source_call src path @ 32 # 61 # 61 # 32 # t"
  have "regex_match header_exists_re ?s = None" "regex_match param_exists_re ?s = None" "regex_match header_contains_re ?s = None"
    "regex_match param_contains_re ?s = None" "regex_match param_compare_re ?s = None"
    unfolding header_exists_re_def param_exists_re_def header_contains_re_def param_contains_re_def param_compare_re_def using assms
    by (cases src; simp add: regex_match_anchored source_text_eval pattern_text regex_step)+
  then show ?thesis
    by (simp add: tryParseRequestCondition_def not_time_source contains_reading_def compare_reading_def)
qed

lemma equals_match:
  assumes "name_ok path" "t \<noteq> []" "list_all (\<lambda>x. \<not> line_end x) t"
  shows "regex_match equals_re (source_call src path @ 32 # 61 # 61 # 32 # t) = Some [1 \<mapsto> source_text src, 2 \<mapsto> path, 3 \<mapsto> t]"
proof -
  have "run inp (RSeq (RGroup 3 (RPlus (RClass (\<lambda>x. \<not> line_end x)))) REnd) (t, c) = [([], c(3 \<mapsto> t))]" for inp c
    using cap_plus[OF assms(3,2), of "[]" REnd inp 3 c] by (simp add: fails_on_end)
  then show ?thesis unfolding equals_re_def using assms(1)
    by (cases src) (simp_all add: regex_match_anchored source_text_eval pattern_text regex_step)
qed

lemma header_contains_match:
  assumes "name_ok path" "list_all plain_char v"
  defines "s \<equiv> js ''has('' @ source_call SourceHeader path @ 44 # 32 # 34 # v @ [34, 41]"
  shows "regex_match header_contains_re s = Some [1 \<mapsto> path, 2 \<mapsto> 34 # v @ [34]]"
    "regex_match header_exists_re s = None" "regex_match param_exists_re s = None"
proof -
  have "run inp (RSeq (RGroup 2 json_string) r) (34 # v @ [34, 41], c) = run inp r ([41], c(2 \<mapsto> 34 # v @ [34]))" for inp r c
    using cap_json_string[OF assms(2), of "[41]"] by simp
  then show "regex_match header_contains_re s = Some [1 \<mapsto> path, 2 \<mapsto> 34 # v @ [34]]"
    unfolding header_contains_re_def s_def using assms(1)
    by (simp add: regex_match_anchored source_text_eval pattern_text regex_step)
  show "regex_match header_exists_re s = None" "regex_match param_exists_re s = None"
    unfolding header_exists_re_def param_exists_re_def s_def
    by (simp_all add: regex_match_anchored source_text_eval pattern_text regex_step)
qed

lemma read_header_contains:
  assumes "name_ok path" "list_all plain_char v"
  shows "tryParseRequestCondition env (js ''has('' @ source_call SourceHeader path @ 44 # 32 # 34 # v @ [34, 41])
    = (case json_parse env (34 # v @ [34]) of None \<Rightarrow> Throws | Some x \<Rightarrow> Reading (ph_cond SourceHeader path MATCH_CONTAINS (str_of x)))"
  using header_contains_match[OF assms] by (simp add: tryParseRequestCondition_def not_time_has json_reading_def)

text \<open>What is left of a condition on a parameter when it is cut at \<open>&&\<close>: no pattern recognises it.\<close>

lemma read_has_param: "tryParseRequestCondition env (js ''has('' @ source_call SourceParam path @ u) = NoReading"
proof -
  let ?s = "js ''has('' @ source_call SourceParam path @ u"
  have "regex_match header_exists_re ?s = None" "regex_match param_exists_re ?s = None" "regex_match header_contains_re ?s = None"
    "regex_match param_contains_re ?s = None" "regex_match param_compare_re ?s = None" "regex_match equals_re ?s = None"
    unfolding header_exists_re_def param_exists_re_def header_contains_re_def param_contains_re_def param_compare_re_def equals_re_def
    by (simp_all add: regex_match_anchored source_text_eval pattern_text regex_step)
  then show ?thesis
    by (simp add: tryParseRequestCondition_def not_time_has contains_reading_def compare_reading_def equals_reading_def)
qed

lemma read_param_compare:
  assumes "name_ok path" "x \<in> {60, 62}"
  shows "tryParseRequestCondition env (source_call SourceParam path @ 32 # x # u) = NoReading"
proof -
  let ?s = "source_call SourceParam path @ 32 # x # u"
  have "regex_match header_exists_re ?s = None" "regex_match param_exists_re ?s = None" "regex_match header_contains_re ?s = None"
    "regex_match param_contains_re ?s = None" "regex_match param_compare_re ?s = None" "regex_match equals_re ?s = None"
    unfolding header_exists_re_def param_exists_re_def header_contains_re_def param_contains_re_def param_compare_re_def equals_re_def
    using assms by (auto simp: regex_match_anchored source_text_eval pattern_text regex_step)
  then show ?thesis
    by (simp add: tryParseRequestCondition_def not_time_source contains_reading_def compare_reading_def equals_reading_def)
qed

section \<open>Rows of the editor\<close>

text \<open>Texts that \<open>JSON.stringify\<close> only puts in quotes; in names and literals no brackets and no bar, which
  the splitters and the writer look for wherever they stand.\<close>

definition plain_text :: "jstr \<Rightarrow> bool" where
  "plain_text t \<longleftrightarrow> list_all (\<lambda>x. 32 \<le> x \<and> x \<noteq> 34 \<and> x \<noteq> 92 \<and> \<not> (55296 \<le> x \<and> x \<le> 57343)) t"

definition text_ok :: "jstr \<Rightarrow> bool" where
  "text_ok t \<longleftrightarrow> plain_text t \<and> bracket_free t \<and> 124 \<notin> set t"

definition json_quotes :: "ExprEnv \<Rightarrow> bool" where
  "json_quotes env \<longleftrightarrow> (\<forall>t. plain_text t \<longrightarrow> json_stringify env t = 34 # t @ [34] \<and> json_parse env (34 # t @ [34]) = Some (JStr t))"

definition bare_literal :: "jstr \<Rightarrow> bool" where
  "bare_literal v \<longleftrightarrow> v = js ''true'' \<or> v = js ''false'' \<or> is_numeric v"

definition literal_ok :: "jstr \<Rightarrow> bool" where
  "literal_ok v \<longleftrightarrow> bare_literal v \<or> trim v = v \<and> text_ok v \<and> 38 \<notin> set v \<and> list_all (\<lambda>x. \<not> line_end x) v"

abbreviation compare_modes :: "jstr set" where
  "compare_modes \<equiv> {MATCH_GT, MATCH_GTE, MATCH_LT, MATCH_LTE}"

fun written :: "RequestCondition \<Rightarrow> bool" where
  "written (CTime t) \<longleftrightarrow> tm_timezone t \<noteq> [] \<and> text_ok (tm_timezone t) \<and>
     (if tm_mode t = MATCH_RANGE then is_numeric (tm_rangeStart t) \<and> is_numeric (tm_rangeEnd t) \<and> tm_value t = []
      else tm_mode t \<in> {MATCH_EQ, MATCH_GTE, MATCH_LT} \<and> is_numeric (tm_value t) \<and> tm_rangeStart t = [] \<and> tm_rangeEnd t = [])"
| "written (CParam p) \<longleftrightarrow> ph_path p \<noteq> [] \<and> trim (ph_path p) = ph_path p \<and> text_ok (ph_path p) \<and>
     (ph_mode p = MATCH_EXISTS \<and> ph_value p = [] \<or> ph_mode p = MATCH_EQ \<and> literal_ok (ph_value p)
      \<or> ph_mode p = MATCH_CONTAINS \<and> trim (ph_value p) = ph_value p \<and> text_ok (ph_value p)
      \<or> ph_source p = SourceParam \<and> ph_mode p \<in> compare_modes \<and> is_numeric (ph_value p))"

text \<open>The conditions on a parameter that are written as two conjuncts.\<close>

fun blocked :: "RequestCondition \<Rightarrow> bool" where
  "blocked (CTime t) = False"
| "blocked (CParam p) \<longleftrightarrow> ph_source p = SourceParam \<and> ph_mode p \<in> {MATCH_CONTAINS, MATCH_GT, MATCH_GTE, MATCH_LT, MATCH_LTE}"

lemma text_ok_facts:
  assumes "text_ok t"
  shows "34 \<notin> set t" "92 \<notin> set t" "bracket_free t" "124 \<notin> set t" "list_all plain_char t"
  using assms by (auto simp: text_ok_def plain_text_def list_all_iff)

lemma json_quotesD:
  assumes "json_quotes env" "text_ok t"
  shows "json_stringify env t = 34 # t @ [34]" "json_parse env (34 # t @ [34]) = Some (JStr t)"
  using assms by (auto simp: json_quotes_def text_ok_def)

lemma normalize_written: "written c \<Longrightarrow> normalizeCondition (Some (partial_of c)) = c"
proof (cases c)
  case (CTime t)
  assume "written c"
  then show ?thesis using CTime
    by (cases t) (auto simp: normalizeCondition_def Let_def no_condition_def option_mode_def getRequestRuleMatchOptions_def str_or_def match_modes split: if_splits)
next
  case (CParam p)
  assume "written c"
  then show ?thesis using CParam
    by (cases p; cases "ph_source p")
      (auto simp: normalizeCondition_def Let_def no_condition_def option_mode_def getRequestRuleMatchOptions_def str_or_def match_modes split: if_splits)
qed

text \<open>The conjuncts of a condition as they stand beside others.\<close>

definition literal_text :: "jstr \<Rightarrow> jstr" where
  "literal_text v = (if bare_literal v then v else 34 # v @ [34])"

definition exists_text :: "RuleSource \<Rightarrow> jstr \<Rightarrow> jstr" where
  "exists_text src path = source_call src path @ (if src = SourceHeader then [32, 33, 61, 32, 34, 34] else [32, 33, 61, 32, 110, 105, 108])"

definition has_text :: "RuleSource \<Rightarrow> jstr \<Rightarrow> jstr \<Rightarrow> jstr" where
  "has_text src path v = js ''has('' @ source_call src path @ 44 # 32 # 34 # v @ [34, 41]"

definition mode_op :: "jstr \<Rightarrow> jstr" where
  "mode_op mode = (if mode = MATCH_GTE then js ''>='' else if mode = MATCH_LT then js ''<'' else js ''=='')"

fun pieces :: "RequestCondition \<Rightarrow> jstr list" where
  "pieces (CTime t) =
     (let f = tm_timeFunc t; tz = tm_timezone t; s = tm_rangeStart t; e = tm_rangeEnd t in
      if tm_mode t = MATCH_RANGE
      then (if range_junctor s e = js ''&&'' then [time_atom f tz (js ''>='') s, time_atom f tz (js ''<'') e]
            else [40 # range_text f tz s (range_junctor s e) e @ [41]])
      else [time_atom f tz (mode_op (tm_mode t)) (tm_value t)])"
| "pieces (CParam p) =
     (let src = ph_source p; path = ph_path p; mode = ph_mode p in
      if mode = MATCH_EXISTS then [exists_text src path]
      else if mode = MATCH_CONTAINS
      then (if src = SourceHeader then [has_text src path (ph_value p)] else [exists_text src path, has_text src path (ph_value p)])
      else if mode \<in> compare_modes
      then [exists_text src path, source_call src path @ 32 # compare_text mode @ 32 # ph_value p]
      else [source_call src path @ 32 # 61 # 61 # 32 # literal_text (ph_value p)])"

fun overnight :: "RequestCondition \<Rightarrow> bool" where
  "overnight (CTime t) \<longleftrightarrow> tm_mode t = MATCH_RANGE \<and> range_junctor (tm_rangeStart t) (tm_rangeEnd t) = js ''||''"
| "overnight (CParam p) = False"

section \<open>Balanced texts\<close>

fun stays :: "int \<Rightarrow> jstr \<Rightarrow> bool" where
  "stays d [] \<longleftrightarrow> True"
| "stays d (x # s) \<longleftrightarrow> 0 \<le> depth_after d x \<and> stays (depth_after d x) s"

definition balanced :: "jstr \<Rightarrow> bool" where
  "balanced s \<longleftrightarrow> stays 0 s \<and> nesting 0 s = 0"

lemma depth_after_shift: "depth_after (d + k) x = depth_after d x + k"
  by (simp add: depth_after_def)

lemma nesting_shift: "nesting (d + k) s = nesting d s + k"
  by (induction s arbitrary: d) (simp_all add: depth_after_shift)

lemma stays_shift: "stays d s \<Longrightarrow> 0 \<le> k \<Longrightarrow> stays (d + k) s"
  by (induction s arbitrary: d) (simp_all add: depth_after_shift)

lemma stays_append [simp]: "stays d (s @ t) \<longleftrightarrow> stays d s \<and> stays (nesting d s) t"
  by (induction s arbitrary: d) auto

lemma stays_bracket_free: "bracket_free s \<Longrightarrow> 0 \<le> d \<Longrightarrow> stays d s"
  by (induction s arbitrary: d) (auto simp: depth_after_def)

lemma clear_deep: "stays d s \<Longrightarrow> clear_of k (d + 1) s"
  by (induction s arbitrary: d) (auto simp: depth_after_shift)

lemma balanced_Nil [simp]: "balanced []"
  by (simp add: balanced_def)

lemma balanced_bracket_free: "bracket_free s \<Longrightarrow> balanced s"
  by (simp add: balanced_def stays_bracket_free)

lemma balanced_append: "balanced s \<Longrightarrow> balanced t \<Longrightarrow> balanced (s @ t)"
  by (simp add: balanced_def)

lemma balanced_nest: "balanced s \<Longrightarrow> nesting d s = d"
  using nesting_shift[of 0 d s] by (simp add: balanced_def)

lemma balanced_brackets: "balanced s \<Longrightarrow> balanced (40 # s @ [41])"
  using stays_shift[of 0 s 1] balanced_nest[of s 1] by (simp add: balanced_def depth_after_def)

lemma clear_brackets: "balanced s \<Longrightarrow> k \<notin> {40, 41} \<Longrightarrow> clear_of k 0 (40 # s @ [41])"
  using clear_deep[of 0 s k] balanced_nest[of s 1] by (simp add: balanced_def depth_after_def)

lemma balanced_join: "balanced sep \<Longrightarrow> list_all balanced ps \<Longrightarrow> balanced (join sep ps)"
  by (induction ps rule: induct_list012) (simp_all add: balanced_append)

text \<open>A text that is balanced, has no \<open>&\<close> outside brackets and is trimmed.\<close>

definition piece_ok :: "jstr \<Rightarrow> bool" where
  "piece_ok p \<longleftrightarrow> and_split.part_ok p \<and> balanced p"

lemma piece_okI:
  "p \<noteq> [] \<Longrightarrow> \<not> is_space (hd p) \<Longrightarrow> \<not> is_space (last p) \<Longrightarrow> balanced p \<Longrightarrow> clear_of 38 0 p \<Longrightarrow> piece_ok p"
  by (simp add: piece_ok_def and_split.part_ok_def balanced_def trim_fixed)

lemma call_facts:
  assumes "bracket_free f" "38 \<notin> set f" "bracket_free t"
  shows "balanced (f @ 40 # 34 # t @ [34, 41])" "clear_of 38 0 (f @ 40 # 34 # t @ [34, 41])"
proof -
  have "balanced (34 # t @ [34])" using assms(3) by (intro balanced_bracket_free) auto
  then have b: "balanced (40 # (34 # t @ [34]) @ [41])" "clear_of 38 0 (40 # (34 # t @ [34]) @ [41])"
    by (rule balanced_brackets, rule clear_brackets) simp
  show "balanced (f @ 40 # 34 # t @ [34, 41])"
    using balanced_append[OF balanced_bracket_free[OF assms(1)] b(1)] by simp
  show "clear_of 38 0 (f @ 40 # 34 # t @ [34, 41])"
    using b(2) clear_bracket_free[of f 0 38] assms by simp
qed

lemma call_extend:
  assumes "balanced a" "clear_of 38 0 a" "bracket_free u" "38 \<notin> set u"
  shows "balanced (a @ u)" "clear_of 38 0 (a @ u)"
  using assms clear_bracket_free[of u 0 38] by (simp_all add: balanced_append balanced_bracket_free balanced_nest)

lemma time_func_chars: "bracket_free (time_func_text f)" "38 \<notin> set (time_func_text f)" "34 \<notin> set (time_func_text f)" "124 \<notin> set (time_func_text f)"
  "\<exists>x t. time_func_text f = x # t \<and> \<not> is_space x"
  by (cases f; simp add: jstr_eval is_space_def js_spaces_def)+

lemma source_chars: "bracket_free (source_text src)" "38 \<notin> set (source_text src)" "124 \<notin> set (source_text src)"
  "\<exists>x t. source_text src = x # t \<and> \<not> is_space x"
  by (cases src; simp add: jstr_eval is_space_def js_spaces_def)+

lemmas time_call_facts = call_facts[OF time_func_chars(1,2), folded time_call_def]
lemmas source_call_facts = call_facts[OF source_chars(1,2), folded source_call_def]

lemma call_head: "hd (time_call f tz @ u) = hd (time_func_text f)" "hd (source_call src path @ u) = hd (source_text src)"
  "time_call f tz \<noteq> []" "source_call src path \<noteq> []"
  using time_func_chars(5)[of f] source_chars(4)[of src] by (auto simp: time_call_def source_call_def)

lemma call_head_not_space: "\<not> is_space (hd (time_func_text f))" "\<not> is_space (hd (source_text src))"
  using time_func_chars(5)[of f] source_chars(4)[of src] by auto

lemma numeric_last: "is_numeric v \<Longrightarrow> \<not> is_space (last v)"
  using numeric_set[of v "last v"] numeric_nonempty num_char_plain by (metis last_in_set)

lemma time_atom_ok:
  assumes "bracket_free tz" "is_numeric v" "opr \<in> time_ops"
  shows "piece_ok (time_atom f tz opr v)"
proof -
  have "bracket_free (32 # opr @ 32 # v)" "38 \<notin> set (32 # opr @ 32 # v)"
    using assms(2,3) numeric_plain[OF assms(2)] by (auto simp: time_ops_def jstr_eval)
  from call_extend[OF time_call_facts this] assms(1)
  have "balanced (time_atom f tz opr v)" "clear_of 38 0 (time_atom f tz opr v)" by (simp_all add: time_atom_def)
  then show ?thesis
    using numeric_nonempty[OF assms(2)] numeric_last[OF assms(2)]
    by (intro piece_okI) (simp_all add: time_atom_def call_head call_head_not_space)
qed

lemma source_piece_ok:
  assumes "bracket_free path" "bracket_free u" "38 \<notin> set u" "u \<noteq> []" "\<not> is_space (last u)"
  shows "piece_ok (source_call src path @ u)"
  using call_extend[OF source_call_facts[OF assms(1)] assms(2,3)] assms(4,5)
  by (intro piece_okI) (simp_all add: call_head call_head_not_space)

lemma exists_piece_ok: "bracket_free path \<Longrightarrow> piece_ok (exists_text src path)"
  by (simp add: exists_text_def) (intro conjI impI; intro source_piece_ok; simp add: is_space_def js_spaces_def)

lemma has_piece_ok:
  assumes "bracket_free path" "bracket_free v"
  shows "piece_ok (has_text src path v)"
proof -
  let ?in = "source_call src path @ 44 # 32 # 34 # v @ [34]"
  have "balanced ?in" using source_call_facts(1)[OF assms(1), of src] assms(2)
    by (intro balanced_append) (simp_all add: balanced_bracket_free)
  then have "balanced (40 # ?in @ [41])" "clear_of 38 0 (40 # ?in @ [41])"
    by (rule balanced_brackets, rule clear_brackets) simp
  moreover have "has_text src path v = [104, 97, 115] @ 40 # ?in @ [41]" by (simp add: has_text_def jstr_eval)
  moreover have "balanced ([104, 97, 115] @ 40 # ?in @ [41])"
    using calculation(1) by (intro balanced_append) (simp_all add: balanced_bracket_free)
  ultimately show ?thesis
    by (intro piece_okI) (simp_all add: depth_after_def is_space_def js_spaces_def)
qed

lemma literal_text_facts:
  assumes "literal_ok v"
  shows "bracket_free (literal_text v)" "38 \<notin> set (literal_text v)" "124 \<notin> set (literal_text v)"
    "literal_text v \<noteq> []" "\<not> is_space (last (literal_text v))"
proof -
  have "bracket_free (literal_text v) \<and> 38 \<notin> set (literal_text v) \<and> 124 \<notin> set (literal_text v)
      \<and> literal_text v \<noteq> [] \<and> \<not> is_space (last (literal_text v))"
  proof (cases "is_numeric v")
    case True
    then show ?thesis using numeric_plain[OF True] numeric_nonempty[OF True] numeric_last[OF True]
      by (simp add: literal_text_def bare_literal_def)
  next
    case False
    with assms show ?thesis
      by (auto simp: literal_ok_def literal_text_def bare_literal_def jstr_eval is_space_def js_spaces_def text_ok_def)
  qed
  then show "bracket_free (literal_text v)" "38 \<notin> set (literal_text v)" "124 \<notin> set (literal_text v)"
    "literal_text v \<noteq> []" "\<not> is_space (last (literal_text v))" by simp_all
qed

lemma compare_text_chars: "bracket_free (compare_text m)" "38 \<notin> set (compare_text m)" "124 \<notin> set (compare_text m)"
  "\<exists>x t. compare_text m = x # t \<and> x \<in> {60, 62}"
  by (auto simp: compare_text_def jstr_eval)

lemma mode_op_in [simp]: "mode_op m \<in> time_ops" "js ''>='' \<in> time_ops" "js ''<'' \<in> time_ops"
  by (simp_all add: mode_op_def time_ops_def)

lemma balanced_range:
  assumes "bracket_free tz" "is_numeric s" "is_numeric e"
  shows "balanced (range_text f tz s (range_junctor s e) e)"
proof -
  have "balanced (time_atom f tz (js ''>='') s)" "balanced (time_atom f tz (js ''<'') e)"
    using time_atom_ok assms by (auto simp: piece_ok_def)
  moreover have "bracket_free (32 # range_junctor s e @ [32])" by (simp add: range_junctor_def jstr_eval)
  ultimately have "balanced (time_atom f tz (js ''>='') s @ (32 # range_junctor s e @ [32]) @ time_atom f tz (js ''<'') e)"
    by (metis balanced_append balanced_bracket_free)
  then show ?thesis by (simp add: range_text_def)
qed

lemma range_piece_ok:
  assumes "bracket_free tz" "is_numeric s" "is_numeric e"
  shows "piece_ok (40 # range_text f tz s (range_junctor s e) e @ [41])"
  using balanced_range[OF assms]
  by (intro piece_okI balanced_brackets clear_brackets) (simp_all add: is_space_def js_spaces_def)

lemma pieces_ok:
  assumes "written c"
  shows "list_all piece_ok (pieces c)" "pieces c \<noteq> []"
proof -
  show "pieces c \<noteq> []" by (cases c) (simp_all add: Let_def)
  show "list_all piece_ok (pieces c)"
  proof (cases c)
    case (CTime t)
    with assms have tz: "bracket_free (tm_timezone t)" by (auto dest: text_ok_facts)
    show ?thesis using assms CTime time_atom_ok[OF tz] range_piece_ok[OF tz] by (auto simp: Let_def split: if_splits)
  next
    case (CParam p)
    with assms have path: "bracket_free (ph_path p)" by (auto dest: text_ok_facts)
    have eq: "piece_ok (source_call src (ph_path p) @ 32 # 61 # 61 # 32 # literal_text v)" if "literal_ok v" for src v
      using source_piece_ok[OF path, of "32 # 61 # 61 # 32 # literal_text v"] literal_text_facts[OF that] by simp
    have cmp: "piece_ok (source_call src (ph_path p) @ 32 # compare_text m @ 32 # v)" if "is_numeric v" for src m v
      using source_piece_ok[OF path, of "32 # compare_text m @ 32 # v"] numeric_plain[OF that] numeric_nonempty[OF that]
        numeric_last[OF that] compare_text_chars[of m] by simp
    show ?thesis using assms CParam path exists_piece_ok[OF path] has_piece_ok[OF path] eq cmp
      by (auto simp: Let_def match_modes text_ok_def split: if_splits)
  qed
qed

end
