(* ===== verification/Billing_Rules.thy ===== *)
theory Billing_Rules
  imports Billing_Texts
begin

text \<open>
  What the reader of request rules makes of the text the writer produces, from the conjuncts of a
  condition up to whole billing expressions: the round trips between the rows of the editor and
  expressions, between a base expression with rules and its two parts, and the rows for which they fail.
\<close>

section \<open>What is written\<close>

definition alone :: "RequestCondition \<Rightarrow> jstr" where
  "alone c = (case c of CTime t \<Rightarrow>
       if overnight c then range_text (tm_timeFunc t) (tm_timezone t) (tm_rangeStart t) (js ''||'') (tm_rangeEnd t)
       else join (js '' && '') (pieces c)
     | CParam p \<Rightarrow> join (js '' && '') (pieces c))"

lemma mode_neq [simp]:
  "MATCH_EQ \<noteq> MATCH_CONTAINS" "MATCH_EQ \<noteq> MATCH_GT" "MATCH_EQ \<noteq> MATCH_GTE" "MATCH_EQ \<noteq> MATCH_LT" "MATCH_EQ \<noteq> MATCH_LTE" "MATCH_EQ \<noteq> MATCH_EXISTS" "MATCH_EQ \<noteq> MATCH_RANGE"
  "MATCH_CONTAINS \<noteq> MATCH_EQ" "MATCH_CONTAINS \<noteq> MATCH_GT" "MATCH_CONTAINS \<noteq> MATCH_GTE" "MATCH_CONTAINS \<noteq> MATCH_LT" "MATCH_CONTAINS \<noteq> MATCH_LTE" "MATCH_CONTAINS \<noteq> MATCH_EXISTS" "MATCH_CONTAINS \<noteq> MATCH_RANGE"
  "MATCH_GT \<noteq> MATCH_EQ" "MATCH_GT \<noteq> MATCH_CONTAINS" "MATCH_GT \<noteq> MATCH_GTE" "MATCH_GT \<noteq> MATCH_LT" "MATCH_GT \<noteq> MATCH_LTE" "MATCH_GT \<noteq> MATCH_EXISTS" "MATCH_GT \<noteq> MATCH_RANGE"
  "MATCH_GTE \<noteq> MATCH_EQ" "MATCH_GTE \<noteq> MATCH_CONTAINS" "MATCH_GTE \<noteq> MATCH_GT" "MATCH_GTE \<noteq> MATCH_LT" "MATCH_GTE \<noteq> MATCH_LTE" "MATCH_GTE \<noteq> MATCH_EXISTS" "MATCH_GTE \<noteq> MATCH_RANGE"
  "MATCH_LT \<noteq> MATCH_EQ" "MATCH_LT \<noteq> MATCH_CONTAINS" "MATCH_LT \<noteq> MATCH_GT" "MATCH_LT \<noteq> MATCH_GTE" "MATCH_LT \<noteq> MATCH_LTE" "MATCH_LT \<noteq> MATCH_EXISTS" "MATCH_LT \<noteq> MATCH_RANGE"
  "MATCH_LTE \<noteq> MATCH_EQ" "MATCH_LTE \<noteq> MATCH_CONTAINS" "MATCH_LTE \<noteq> MATCH_GT" "MATCH_LTE \<noteq> MATCH_GTE" "MATCH_LTE \<noteq> MATCH_LT" "MATCH_LTE \<noteq> MATCH_EXISTS" "MATCH_LTE \<noteq> MATCH_RANGE"
  "MATCH_EXISTS \<noteq> MATCH_EQ" "MATCH_EXISTS \<noteq> MATCH_CONTAINS" "MATCH_EXISTS \<noteq> MATCH_GT" "MATCH_EXISTS \<noteq> MATCH_GTE" "MATCH_EXISTS \<noteq> MATCH_LT" "MATCH_EXISTS \<noteq> MATCH_LTE" "MATCH_EXISTS \<noteq> MATCH_RANGE"
  "MATCH_RANGE \<noteq> MATCH_EQ" "MATCH_RANGE \<noteq> MATCH_CONTAINS" "MATCH_RANGE \<noteq> MATCH_GT" "MATCH_RANGE \<noteq> MATCH_GTE" "MATCH_RANGE \<noteq> MATCH_LT" "MATCH_RANGE \<noteq> MATCH_LTE" "MATCH_RANGE \<noteq> MATCH_EXISTS"
  by (simp_all add: match_modes)

lemma trim_words [simp]: "trim (js ''true'') = js ''true''" "trim (js ''false'') = js ''false''"
  by (rule trim_no_space, auto simp: jstr_eval is_space_def js_spaces_def)+

lemma build_time:
  assumes q: "json_quotes env" and w: "written (CTime t)"
  shows "buildTimeConditionExpr env t = alone (CTime t)"
proof -
  let ?f = "tm_timeFunc t" and ?tz = "tm_timezone t"
  have norm: "time_of (normalizeCondition (Some (partial_of (CTime t)))) = t" using normalize_written[OF w] by simp
  have call: "time_func_text ?f @ js ''('' @ json_stringify env ?tz @ js '')'' = time_call ?f ?tz"
    using json_quotesD(1)[OF q, of ?tz] w by (simp add: time_call_def jstr_eval)
  show ?thesis
  proof (cases "tm_mode t = MATCH_RANGE")
    case True
    with w have n: "is_numeric (tm_rangeStart t)" "is_numeric (tm_rangeEnd t)" by auto
    show ?thesis unfolding buildTimeConditionExpr_def norm Let_def call
      using True n by (simp add: numeric_plain alone_def range_junctor_def range_text_def time_atom_def Let_def) (simp add: jstr_eval)
  next
    case False
    with w have n: "is_numeric (tm_value t)" by auto
    show ?thesis unfolding buildTimeConditionExpr_def norm Let_def call
      using False n by (simp add: numeric_plain alone_def time_atom_def mode_op_def Let_def) (simp add: jstr_eval)
  qed
qed

lemma build_literal:
  assumes q: "json_quotes env"
  shows "literal_ok v \<Longrightarrow> buildExprLiteral env MATCH_EQ v = literal_text v"
    and "trim v = v \<Longrightarrow> text_ok v \<Longrightarrow> buildExprLiteral env MATCH_CONTAINS v = 34 # v @ [34]"
proof -
  show "buildExprLiteral env MATCH_CONTAINS v = 34 # v @ [34]" if "trim v = v" "text_ok v"
    using that json_quotesD(1)[OF q] by (simp add: buildExprLiteral_def)
  assume v: "literal_ok v"
  then have t: "trim v = v"
    by (auto simp: literal_ok_def bare_literal_def numeric_plain)
  show "buildExprLiteral env MATCH_EQ v = literal_text v"
    using v json_quotesD(1)[OF q, of v]
    by (auto simp: buildExprLiteral_def literal_text_def literal_ok_def bare_literal_def t)
qed

lemma build_param:
  assumes q: "json_quotes env" and w: "written (CParam p)"
  shows "buildRequestConditionExpr env (CParam p) = alone (CParam p)"
proof -
  have norm: "param_of (normalizeCondition (Some (partial_of (CParam p)))) = p" using normalize_written[OF w] by simp
  have path: "trim (ph_path p) = ph_path p" "ph_path p \<noteq> []" "text_ok (ph_path p)" using w by auto
  have call: "(if ph_source p = SourceHeader then js ''header('' else js ''param('') @ json_stringify env (ph_path p) @ js '')''
      = source_call (ph_source p) (ph_path p)"
    using json_quotesD(1)[OF q path(3)] by (cases "ph_source p") (simp_all add: source_call_def jstr_eval)
  consider "ph_mode p = MATCH_EXISTS" | "ph_mode p = MATCH_CONTAINS" "trim (ph_value p) = ph_value p" "text_ok (ph_value p)"
    | "ph_mode p \<in> compare_modes" "ph_source p = SourceParam" "is_numeric (ph_value p)" | "ph_mode p = MATCH_EQ" "literal_ok (ph_value p)"
    using w by auto
  then show ?thesis
  proof cases
    case 1
    then show ?thesis unfolding buildRequestConditionExpr_def RequestCondition.case norm Let_def path(1) call
      using path(2) by (simp add: alone_def exists_text_def) (simp add: jstr_eval)
  next
    case 2
    then show ?thesis unfolding buildRequestConditionExpr_def RequestCondition.case norm Let_def path(1) call
      using path(2) by (cases "ph_source p") (simp_all add: alone_def exists_text_def has_text_def Let_def build_literal[OF q], simp_all add: jstr_eval)
  next
    case 3
    then have "ph_mode p \<noteq> MATCH_EXISTS" "ph_mode p \<noteq> MATCH_CONTAINS" by auto
    with 3 show ?thesis unfolding buildRequestConditionExpr_def RequestCondition.case norm Let_def path(1) call
      using path(2) numeric_plain(1)[OF 3(3)] by (simp add: alone_def exists_text_def Let_def) (simp add: jstr_eval)
  next
    case 4
    then show ?thesis unfolding buildRequestConditionExpr_def RequestCondition.case norm Let_def path(1) call
      using path(2) build_literal(1)[OF q] by (simp add: alone_def Let_def) (simp add: jstr_eval)
  qed
qed

lemma build_written:
  assumes "json_quotes env" "written c"
  shows "buildRequestConditionExpr env c = alone c"
proof (cases c)
  case (CTime t)
  with assms show ?thesis using build_time by (simp add: buildRequestConditionExpr_def)
next
  case (CParam p)
  with assms show ?thesis using build_param by simp
qed

lemma bar_free_call: "124 \<notin> set t \<Longrightarrow> 124 \<notin> set (time_call f t)" "124 \<notin> set t \<Longrightarrow> 124 \<notin> set (source_call src t)"
  using time_func_chars(4) source_chars(3) by (auto simp: time_call_def source_call_def)

lemma set_join_subset: "x \<in> set (join sep ps) \<Longrightarrow> x \<in> set sep \<or> (\<exists>p \<in> set ps. x \<in> set p)"
  using set_join[of sep ps] by auto

lemma bar_free_pieces:
  assumes "written c" "\<not> overnight c" "p \<in> set (pieces c)"
  shows "124 \<notin> set p"
proof (cases c)
  case (CTime t)
  have bar: "124 \<notin> set (time_call f (tm_timezone t))" for f using assms(1) CTime by (auto intro!: bar_free_call dest: text_ok_facts)
  have j: "range_junctor (tm_rangeStart t) (tm_rangeEnd t) = js ''&&''" if "tm_mode t = MATCH_RANGE"
    using assms(2) CTime that by (auto simp: range_junctor_def split: if_splits)
  show ?thesis using assms(1,3) CTime bar numeric_plain(6) j
    by (auto simp: Let_def time_atom_def mode_op_def jstr_eval split: if_splits)
next
  case (CParam p')
  then have call: "124 \<notin> set (source_call src (ph_path p'))" for src using assms(1) by (auto intro!: bar_free_call dest: text_ok_facts)
  show ?thesis using assms(1,3) CParam call numeric_plain(6) literal_text_facts(3) compare_text_chars(3)
    by (auto simp: Let_def exists_text_def has_text_def jstr_eval text_ok_def split: if_splits)
qed

lemma range_includes: "js_includes (range_text f tz s (js ''||'') e) (js '' || '')"
  unfolding js_includes_iff_sublist range_text_def
  unfolding sublist_def
  by (intro exI[of _ "time_atom f tz (js ''>='') s"] exI[of _ "time_atom f tz (js ''<'') e"]) (simp add: jstr_eval)

lemma alone_bracketed:
  assumes "written c"
  shows "(if js_includes (alone c) (js '' || '') then js ''('' @ alone c @ js '')'' else alone c) = join (js '' && '') (pieces c)"
proof (cases "overnight c")
  case True
  then obtain t where c: "c = CTime t" by (cases c) auto
  with True show ?thesis using range_includes by (auto simp: alone_def Let_def jstr_eval)
next
  case False
  then have a: "alone c = join (js '' && '') (pieces c)" by (cases c) (simp_all add: alone_def)
  have "124 \<notin> set (join (js '' && '') (pieces c))"
    using bar_free_pieces[OF assms False] by (auto dest!: set_join_subset simp: jstr_eval)
  moreover have "124 \<in> set (js '' || '')" by (simp add: jstr_eval)
  ultimately have "\<not> js_includes (alone c) (js '' || '')"
    unfolding a js_includes_iff_sublist using set_mono_sublist by blast
  with a show ?thesis by simp
qed

lemma join_append: "ps \<noteq> [] \<Longrightarrow> qs \<noteq> [] \<Longrightarrow> join sep (ps @ qs) = join sep ps @ sep @ join sep qs"
  by (induction ps rule: induct_list012) (auto simp: join_Cons_Cons)

lemma join_concat: "list_all (\<lambda>ps. ps \<noteq> []) pss \<Longrightarrow> join sep (map (join sep) pss) = join sep (concat pss)"
proof (induction pss rule: induct_list012)
  case (3 p q pss)
  then show ?case using join_append[of p "concat (q # pss)" sep] by simp
qed simp_all

abbreviation all_pieces :: "RequestCondition list \<Rightarrow> jstr list" where
  "all_pieces cs \<equiv> concat (map pieces cs)"

lemma all_pieces_ok:
  assumes "list_all written cs"
  shows "list_all piece_ok (all_pieces cs)" "cs \<noteq> [] \<Longrightarrow> all_pieces cs \<noteq> []"
  using assms pieces_ok by (auto simp: list_all_iff neq_Nil_conv)

lemma combine_pieces:
  assumes "json_quotes env" "list_all written cs" "cs \<noteq> []"
  shows "combine_conditions (map (buildRequestConditionExpr env) cs)
    = (if length cs = 1 then alone (hd cs) else join (js '' && '') (all_pieces cs))"
proof -
  have b: "map (buildRequestConditionExpr env) cs = map alone cs"
    using assms(1,2) build_written by (auto simp: list_all_iff)
  have "join (js '' && '') (map (\<lambda>e. if js_includes e (js '' || '') then js ''('' @ e @ js '')'' else e) (map alone cs))
      = join (js '' && '') (map (join (js '' && '')) (map pieces cs))"
    using assms(2) alone_bracketed by (intro arg_cong[where f = "join (js '' && '')"]) (auto simp: list_all_iff)
  also have "\<dots> = join (js '' && '') (all_pieces cs)"
    using assms(2) pieces_ok by (intro join_concat) (auto simp: list_all_iff)
  finally show ?thesis unfolding combine_conditions_def b using assms(3) by (simp add: hd_map)
qed

section \<open>What is read\<close>

fun fuse :: "RequestCondition list \<Rightarrow> RequestCondition list" where
  "fuse (CTime a # CTime b # cs) =
     (case range_pair a b of Some r \<Rightarrow> CTime r # fuse cs | None \<Rightarrow> CTime a # fuse (CTime b # cs))"
| "fuse (c # cs) = c # fuse cs"
| "fuse [] = []"

lemmas fuse_induct = fuse.induct [case_names Pair Param Single Other Nil]

fun same_day :: "TimeCondition \<Rightarrow> bool" where
  "same_day t \<longleftrightarrow> tm_mode t = MATCH_RANGE \<and> range_junctor (tm_rangeStart t) (tm_rangeEnd t) = js ''&&''"

fun head_time :: "RequestCondition \<Rightarrow> TimeCondition option" where
  "head_time (CTime t) = Some (if same_day t then single_cond (tm_timeFunc t) (tm_timezone t) MATCH_GTE (tm_rangeStart t) else t)"
| "head_time (CParam p) = None"

lemma op_mode_op: "m \<in> {MATCH_EQ, MATCH_GTE, MATCH_LT} \<Longrightarrow> op_mode (mode_op m) = m"
  by (auto simp: op_mode_def mode_op_def)

lemma read_head:
  assumes "written c"
  shows "tryParseTimeCondition (hd (pieces c)) = head_time c"
proof (cases c)
  case (CTime t)
  have tz: "tm_timezone t \<noteq> []" "34 \<notin> set (tm_timezone t)" using assms CTime by (auto dest: text_ok_facts)
  consider (day) "same_day t" "is_numeric (tm_rangeStart t)"
    | (night) "tm_mode t = MATCH_RANGE" "\<not> same_day t" "is_numeric (tm_rangeStart t)" "is_numeric (tm_rangeEnd t)" "tm_value t = []"
    | (one) "tm_mode t \<in> {MATCH_EQ, MATCH_GTE, MATCH_LT}" "is_numeric (tm_value t)" "tm_rangeStart t = []" "tm_rangeEnd t = []"
    using assms CTime by (auto split: if_splits)
  then show ?thesis
  proof cases
    case day
    then show ?thesis using CTime read_time_atom[OF tz day(2), of "js ''>=''"] by (simp add: Let_def op_mode_def)
  next
    case night
    then have "range_cond (tm_timeFunc t) (tm_timezone t) (tm_rangeStart t) (tm_rangeEnd t) = t" by (cases t) (simp add: range_cond_def)
    then show ?thesis using CTime night(1,2) read_range(2)[OF tz night(3,4)] by (simp add: Let_def)
  next
    case one
    then have "single_cond (tm_timeFunc t) (tm_timezone t) (tm_mode t) (tm_value t) = t" by (cases t) (simp add: single_cond_def)
    moreover have "tm_mode t \<noteq> MATCH_RANGE" using one(1) by auto
    ultimately show ?thesis using CTime one read_time_atom[OF tz one(2), of "mode_op (tm_mode t)"] by (simp add: Let_def op_mode_op)
  qed
next
  case (CParam p)
  have "\<exists>src u. hd (pieces c) = source_call src (ph_path p) @ u \<or> hd (pieces c) = js ''has('' @ u"
    using CParam by (auto simp: Let_def exists_text_def has_text_def)
  then show ?thesis using CParam not_time_source not_time_has by auto
qed

lemma read_literal:
  assumes q: "json_quotes env" and v: "literal_ok v" and path: "name_ok path"
  shows "tryParseRequestCondition env (source_call src path @ 32 # 61 # 61 # 32 # literal_text v) = Reading (ph_cond src path MATCH_EQ v)"
proof -
  have "\<not> line_end x" if "num_char x" for x using that by (auto simp: num_char_def is_digit_def line_end_def)
  then have num: "list_all (\<lambda>x. \<not> line_end x) v" if "is_numeric v" using numeric_chars[OF that] by (auto simp: list_all_iff)
  have "\<not> line_end 34" by (simp add: line_end_def)
  moreover have "list_all (\<lambda>x. \<not> line_end x) (js ''true'')" "list_all (\<lambda>x. \<not> line_end x) (js ''false'')" by (simp_all add: jstr_eval line_end_def)
  ultimately have "list_all (\<lambda>x. \<not> line_end x) (literal_text v)"
    using v num by (auto simp: literal_text_def literal_ok_def bare_literal_def)
  from equals_match[OF path literal_text_facts(4)[OF v] this]
  have m: "regex_match equals_re (source_call src path @ 32 # 61 # 61 # 32 # literal_text v) = Some [1 \<mapsto> source_text src, 2 \<mapsto> path, 3 \<mapsto> literal_text v]" .
  have parsed: "parseExprLiteral env (literal_text v) = Some (JStr v)"
  proof (cases "bare_literal v")
    case True
    then show ?thesis by (auto simp: parseExprLiteral_def literal_text_def bare_literal_def numeric_plain)
  next
    case False
    have "trim (34 # v @ [34]) = 34 # v @ [34]" by (rule trim_fixed) (simp add: is_space_def js_spaces_def)
    moreover have "\<not> is_numeric (34 # v @ [34])" using numeric_plain(2) by fastforce
    moreover have "34 # v @ [34] \<noteq> js ''true''" "34 # v @ [34] \<noteq> js ''false''" by (simp_all add: jstr_eval)
    ultimately show ?thesis using False v json_quotesD(2)[OF q, of v]
      by (simp add: parseExprLiteral_def literal_text_def literal_ok_def)
  qed
  show ?thesis unfolding read_equals[OF path] equals_reading_def using m parsed
    by (cases src) (simp_all add: text_of_def)
qed

lemma read_one:
  assumes q: "json_quotes env" and w: "written c" and "\<not> blocked c" "\<And>t. c = CTime t \<Longrightarrow> \<not> same_day t"
  shows "tryParseRequestCondition env (hd (pieces c)) = Reading c" "length (pieces c) = 1"
proof -
  have src: "x = SourceParam \<or> x = SourceHeader" for x by (cases x) auto
  show "length (pieces c) = 1" using assms(2-4) src by (cases c) (auto simp: Let_def range_junctor_def)
  show "tryParseRequestCondition env (hd (pieces c)) = Reading c"
  proof (cases c)
    case (CTime t)
    then have "tryParseTimeCondition (hd (pieces c)) = Some t" using read_head[OF w] assms(4)[OF CTime] by (simp del: same_day.simps pieces.simps)
    then show ?thesis using CTime by (simp add: tryParseRequestCondition_def del: pieces.simps)
  next
    case (CParam p)
    then have path: "name_ok (ph_path p)" using w by (auto dest: text_ok_facts)
    consider "ph_mode p = MATCH_EXISTS" "ph_value p = []" | "ph_mode p = MATCH_EQ" "literal_ok (ph_value p)"
      | "ph_mode p = MATCH_CONTAINS" "ph_source p = SourceHeader" "text_ok (ph_value p)"
      using w assms(3) CParam by (cases "ph_source p") auto
    then show ?thesis
    proof cases
      case 1
      then show ?thesis using CParam read_exists[OF path] by (cases p; cases "ph_source p") (auto simp: Let_def exists_text_def ph_cond_def)
    next
      case 2
      then show ?thesis using CParam read_literal[OF q _ path] by (cases p) (auto simp: Let_def ph_cond_def)
    next
      case 3
      then show ?thesis using CParam read_header_contains[OF path text_ok_facts(5)[OF 3(3)]] json_quotesD(2)[OF q 3(3)]
        by (cases p) (auto simp: Let_def ph_cond_def has_text_def)
    qed
  qed
qed

lemma read_parts_plain:
  assumes "trim p = p" "qs = [] \<or> trim (hd qs) = hd qs \<and> tryParseTimeRangePair p (hd qs) = None"
  shows "read_parts env (p # qs) = (case tryParseRequestCondition env p of Throws \<Rightarrow> Throws | NoReading \<Rightarrow> NoReading
    | Reading c \<Rightarrow> reading_map ((#) c) (read_parts env qs))"
  using assms by (cases qs) (auto simp: Let_def split: reading.split)

lemma read_parts_pair:
  assumes "trim p = p" "trim q = q" "q \<noteq> []" "tryParseTimeRangePair p q = Some c"
  shows "read_parts env (p # q # qs) = reading_map ((#) (CTime c)) (read_parts env qs)"
  using assms by (simp add: Let_def)

lemma piece_trim: "piece_ok p \<Longrightarrow> trim p = p \<and> p \<noteq> []"
  by (simp add: piece_ok_def and_split.part_ok_def)

lemma time_pair_heads:
  assumes "written c" "written d"
  shows "tryParseTimeRangePair (hd (pieces c)) (hd (pieces d))
    = (case head_time c of None \<Rightarrow> None | Some ta \<Rightarrow> (case head_time d of None \<Rightarrow> None | Some tb \<Rightarrow> range_pair ta tb))"
  unfolding tryParseTimeRangePair_def read_head[OF assms(1)] read_head[OF assms(2)] ..

lemma not_time_pair: "tryParseTimeCondition p = None \<Longrightarrow> tryParseTimeRangePair p q = None"
  by (simp add: tryParseTimeRangePair_def)

text \<open>The reader on the conjuncts of one condition and what follows, when nothing is merged across.\<close>

lemma read_cond:
  assumes q: "json_quotes env" and w: "written c" and ok: "list_all piece_ok qs"
    and apart: "\<And>t. c = CTime t \<Longrightarrow> \<not> same_day t \<Longrightarrow> qs = [] \<or> tryParseTimeRangePair (hd (pieces c)) (hd qs) = None"
  shows "read_parts env (pieces c @ qs) = (if blocked c then NoReading else reading_map ((#) c) (read_parts env qs))"
proof -
  have trims: "qs = [] \<or> trim (hd qs) = hd qs" using ok piece_trim by (cases qs) auto
  have mine: "\<forall>p \<in> set (pieces c). trim p = p \<and> p \<noteq> []" using pieces_ok(1)[OF w] piece_trim by (auto simp: list_all_iff)
  show ?thesis
  proof (cases "\<exists>t. c = CTime t \<and> same_day t")
    case True
    then obtain t where c: "c = CTime t" "same_day t" by blast
    let ?f = "tm_timeFunc t" and ?tz = "tm_timezone t" and ?s = "tm_rangeStart t" and ?e = "tm_rangeEnd t"
    have n: "?tz \<noteq> []" "34 \<notin> set ?tz" "is_numeric ?s" "is_numeric ?e" "tm_value t = []"
      using w c by (auto dest: text_ok_facts)
    have "\<not> num_less (js_number ?e) (js_number ?s)" using c by (auto simp: range_junctor_def split: if_splits)
    then have "tryParseTimeRangePair (time_atom ?f ?tz (js ''>='') ?s) (time_atom ?f ?tz (js ''<'') ?e) = Some t"
      using c n(5) unfolding tryParseTimeRangePair_def read_time_atom[OF n(1,2,3) mode_op_in(2)] read_time_atom[OF n(1,2,4) mode_op_in(3)]
      by (cases t) (simp add: op_mode_def range_pair_def single_cond_def)
    moreover have p: "pieces c = [time_atom ?f ?tz (js ''>='') ?s, time_atom ?f ?tz (js ''<'') ?e]" using c by (simp add: Let_def)
    ultimately show ?thesis using mine c(1) by (simp add: read_parts_pair del: read_parts.simps(2))
  next
    case False
    show ?thesis
    proof (cases "blocked c")
      case True
      then obtain p where c: "c = CParam p" by (cases c) auto
      have path: "name_ok (ph_path p)" using w c by (auto dest: text_ok_facts)
      obtain y where p: "pieces c = [exists_text SourceParam (ph_path p), y]" and y: "tryParseTimeCondition y = None"
        "tryParseRequestCondition env y = NoReading"
      proof (cases "ph_mode p = MATCH_CONTAINS")
        case True
        with c \<open>blocked c\<close> show ?thesis
          by (intro that[of "has_text SourceParam (ph_path p) (ph_value p)"])
            (simp_all add: Let_def has_text_def read_has_param not_time_has)
      next
        case False
        then have m: "ph_mode p \<in> compare_modes" "ph_mode p \<noteq> MATCH_EXISTS" "ph_source p = SourceParam" using c \<open>blocked c\<close> by auto
        obtain x u where x: "compare_text (ph_mode p) = x # u" "x \<in> {60, 62}" using compare_text_chars(4) by blast
        show ?thesis using c m False x read_param_compare[OF path x(2)]
          by (intro that[of "source_call SourceParam (ph_path p) @ 32 # compare_text (ph_mode p) @ 32 # ph_value p"])
            (simp_all add: Let_def not_time_source)
      qed
      have "tryParseTimeCondition (exists_text SourceParam (ph_path p)) = None" by (simp add: exists_text_def not_time_source)
      moreover have "tryParseRequestCondition env (exists_text SourceParam (ph_path p)) = Reading (ph_cond SourceParam (ph_path p) MATCH_EXISTS [])"
        using read_exists(2)[OF path] by (simp add: exists_text_def)
      moreover have "read_parts env (y # qs) = NoReading"
        using mine p y trims by (subst read_parts_plain) (auto simp: not_time_pair)
      ultimately show ?thesis using True mine p by (simp add: read_parts_plain not_time_pair del: read_parts.simps(2))
    next
      case blocked: False
      have one: "tryParseRequestCondition env (hd (pieces c)) = Reading c" "length (pieces c) = 1"
        using read_one[OF q w blocked] False by auto
      then obtain x where x: "pieces c = [x]" by (auto simp: length_Suc_conv)
      have "qs = [] \<or> tryParseTimeRangePair x (hd qs) = None"
      proof (cases c)
        case (CTime t)
        then show ?thesis using apart[OF CTime] False x by simp
      next
        case (CParam p)
        then show ?thesis using read_head[OF w] x by (simp add: not_time_pair)
      qed
      with one x mine trims blocked show ?thesis using read_parts_plain[of x qs env] by auto
    qed
  qed
qed

lemma range_pair_head:
  "\<not> same_day a \<Longrightarrow> range_pair a (the (head_time (CTime b))) = range_pair a b"
  by (simp add: range_pair_def single_cond_def)

lemma range_pair_modes: "range_pair a b = Some r \<Longrightarrow> tm_mode a = MATCH_GTE \<and> tm_mode b = MATCH_LT"
  by (simp add: range_pair_def split: if_splits)

lemma reading_map_if: "reading_map f (if b then NoReading else Reading x) = (if b then NoReading else Reading (f x))"
  by simp

lemma read_all:
  assumes q: "json_quotes env"
  shows "list_all written cs \<Longrightarrow> read_parts env (all_pieces cs) = (if list_ex blocked cs then NoReading else Reading (fuse cs))"
proof (induction cs rule: fuse_induct)
  case (Pair a b cs)
  have w: "written (CTime a)" "written (CTime b)" "list_all written (CTime b # cs)" "list_all written cs" using Pair by auto
  have qs: "all_pieces (CTime b # cs) \<noteq> []" "hd (all_pieces (CTime b # cs)) = hd (pieces (CTime b))"
    using pieces_ok(2)[OF w(2)] by (simp_all del: pieces.simps)
  show ?case
  proof (cases "range_pair a b")
    case None
    have "read_parts env (pieces (CTime a) @ all_pieces (CTime b # cs)) = reading_map ((#) (CTime a)) (read_parts env (all_pieces (CTime b # cs)))"
    proof (subst read_cond[OF q w(1) all_pieces_ok(1)[OF w(3)]])
      fix t assume t: "CTime a = CTime t" "\<not> same_day t"
      have "tryParseTimeRangePair (hd (pieces (CTime a))) (hd (pieces (CTime b))) = range_pair a (the (head_time (CTime b)))"
        unfolding time_pair_heads[OF w(1,2)] using t by (simp del: same_day.simps)
      then show "all_pieces (CTime b # cs) = [] \<or> tryParseTimeRangePair (hd (pieces (CTime a))) (hd (all_pieces (CTime b # cs))) = None"
        using t None range_pair_head[of a b] unfolding qs(2) by simp
    qed simp
    with Pair(1)[OF None w(3)] None show ?thesis by (simp add: reading_map_if del: pieces.simps)
  next
    case (Some r)
    from range_pair_modes[OF this] have m: "tm_mode a = MATCH_GTE" "tm_mode b = MATCH_LT" by auto
    then have heads: "head_time (CTime a) = Some a" "head_time (CTime b) = Some b" by simp_all
    obtain x y where xy: "pieces (CTime a) = [x]" "pieces (CTime b) = [y]" using m by (simp add: Let_def)
    have "tryParseTimeRangePair x y = Some r" using time_pair_heads[OF w(1,2)] heads Some xy by simp
    moreover have "trim x = x" "trim y = y" "y \<noteq> []" using pieces_ok(1)[OF w(1)] pieces_ok(1)[OF w(2)] xy piece_trim by auto
    ultimately have "read_parts env (all_pieces (CTime a # CTime b # cs)) = reading_map ((#) (CTime r)) (read_parts env (all_pieces cs))"
      using xy by (simp add: read_parts_pair del: pieces.simps read_parts.simps(2))
    with Pair(2)[OF Some w(4)] Some show ?thesis by (simp add: reading_map_if)
  qed
next
  case (Param p cs)
  then have w: "written (CParam p)" "list_all written cs" by auto
  have "read_parts env (pieces (CParam p) @ all_pieces cs) = (if blocked (CParam p) then NoReading else reading_map ((#) (CParam p)) (read_parts env (all_pieces cs)))"
    by (rule read_cond[OF q w(1) all_pieces_ok(1)[OF w(2)]]) simp
  with Param(1)[OF w(2)] show ?case by (simp add: reading_map_if del: pieces.simps blocked.simps)
next
  case (Single c)
  then have w: "written c" by auto
  have "read_parts env (pieces c @ []) = (if blocked c then NoReading else reading_map ((#) c) (read_parts env []))"
    by (rule read_cond[OF q w]) simp_all
  then show ?case by simp
next
  case (Other c p cs)
  then have w: "written c" "written (CParam p)" "list_all written (CParam p # cs)" by auto
  have hd: "hd (all_pieces (CParam p # cs)) = hd (pieces (CParam p))" using pieces_ok(2)[OF w(2)] by (simp del: pieces.simps)
  have none: "tryParseTimeRangePair (hd (pieces c)) (hd (pieces (CParam p))) = None"
    unfolding time_pair_heads[OF w(1,2)] by (simp split: option.split)
  have "read_parts env (pieces c @ all_pieces (CParam p # cs)) = (if blocked c then NoReading else reading_map ((#) c) (read_parts env (all_pieces (CParam p # cs))))"
    using none unfolding hd[symmetric] by (intro read_cond[OF q w(1) all_pieces_ok(1)[OF w(3)]]) blast
  with Other(1)[OF w(3)] show ?case by (simp add: reading_map_if del: pieces.simps blocked.simps)
qed simp

section \<open>A condition as a whole\<close>

lemma hd_join: "ps \<noteq> [] \<Longrightarrow> hd ps \<noteq> [] \<Longrightarrow> hd (join sep ps) = hd (hd ps)"
  by (induction ps rule: induct_list012) auto

lemma last_join: "ps \<noteq> [] \<Longrightarrow> last ps \<noteq> [] \<Longrightarrow> last (join sep ps) = last (last ps)"
proof (induction ps rule: induct_list012)
  case (3 p q ps)
  have "x \<in> set (q # ps) \<Longrightarrow> x \<noteq> [] \<Longrightarrow> join sep (q # ps) \<noteq> []" for x
    by (induction ps arbitrary: q) auto
  then have "join sep (q # ps) \<noteq> []" using 3(4) by (metis last.simps last_in_set list.distinct(1))
  with 3 show ?case by simp
qed simp_all

lemma trim_join:
  assumes "ps \<noteq> []" "list_all (\<lambda>p. trim p = p \<and> p \<noteq> []) ps"
  shows "trim (join sep ps) = join sep ps"
proof -
  have t: "trim (hd ps) = hd ps" "hd ps \<noteq> []" "trim (last ps) = last ps" "last ps \<noteq> []"
    using assms by (auto simp: list_all_iff)
  then have "\<not> is_space (hd (hd ps))" "\<not> is_space (last (last ps))"
    using trim_hd_not_space[of "hd ps"] trim_last_not_space[of "last ps"] by auto
  then show ?thesis using assms(1) t by (intro trim_fixed) (simp add: hd_join last_join)
qed

lemma step_backref_any:
  "c n = Some l \<Longrightarrow> run inp (RSeq (RBackref n) r) (s, c) = (if take (length l) s = l then run inp r (drop (length l) s, c) else [])"
  by (simp add: run.simps(3) after_prefix_def)

lemma num_group_end:
  "run inp (RSeq (num_group n) REnd) (s, c) = (if s \<noteq> [] \<and> list_all num_char s then [([], c(n \<mapsto> s))] else [])"
proof (cases "s \<noteq> [] \<and> list_all num_char s")
  case True
  then show ?thesis using cap_plus[of num_char s "[]" REnd inp n c] by (simp add: num_group_def fails_on_end)
next
  case False
  have c: "chars_in num_char (num_group n)" by (simp add: num_group_def)
  have "run inp REnd t = []" if "t \<in> set (run inp (num_group n) (s, c))" for t
  proof -
    from run_consumes[OF c that] have "fst t = [] \<Longrightarrow> list_all num_char s" by auto
    moreover have "s \<noteq> []" using that by (auto simp: num_group_def run.simps(3))
    ultimately show ?thesis using False by auto
  qed
  then show ?thesis using False by (auto simp: run.simps(3))
qed

lemma take_eq_split: "take (length l) s = l \<Longrightarrow> s = l @ drop (length l) s"
  by (metis append_take_drop_id)

lemma range_tail:
  assumes "c 1 = Some f" "c 2 = Some tz"
    and "run inp (rseq [RBackref 1, RLit [40, 34], RBackref 2, RLit [34, 41, 32, 60, 32], num_group 5, REnd]) (u, c) = st # sts"
  obtains v where "u = f @ 40 # 34 # tz @ 34 # 41 # 32 # 60 # 32 # v" "snd st = c(5 \<mapsto> v)"
proof -
  from assms have 1: "take (length f) u = f" by (auto simp: step_backref_any split: if_splits)
  define u1 where "u1 = drop (length f) u"
  from assms 1 have 2: "take 2 u1 = [40, 34]" by (auto simp: step_backref_any step_lit u1_def numeral_2_eq_2 split: if_splits)
  define u2 where "u2 = drop 2 u1"
  from assms 1 2 have 3: "take (length tz) u2 = tz"
    by (auto simp: step_backref_any step_lit u1_def u2_def numeral_2_eq_2 split: if_splits)
  define u3 where "u3 = drop (length tz) u2"
  from assms 1 2 3 have 4: "take 5 u3 = [34, 41, 32, 60, 32]" "run inp (RSeq (num_group 5) REnd) (drop 5 u3, c) = st # sts"
    by (auto simp: step_backref_any step_lit u1_def u2_def u3_def numeral_2_eq_2 eval_nat_numeral split: if_splits)
  have "u = f @ u1" "u1 = [40, 34] @ u2" "u2 = tz @ u3" "u3 = [34, 41, 32, 60, 32] @ drop 5 u3"
    using 1 2 3 4(1) unfolding u1_def u2_def u3_def by (metis append_take_drop_id)+
  then have "u = f @ 40 # 34 # tz @ 34 # 41 # 32 # 60 # 32 # drop 5 u3" by simp
  moreover have "snd st = c(5 \<mapsto> drop 5 u3)" using 4(2) by (auto simp: num_group_end split: if_splits)
  ultimately show thesis by (rule that)
qed

lemma range_before_tail:
  assumes "tz \<noteq> []" "34 \<notin> set tz" "is_numeric v"
  shows "run inp (rseq (time_range_core @ [REnd])) (time_atom f tz (js ''>='') v @ 32 # 38 # 38 # 32 # u, Map.empty)
    = run inp (rseq [RBackref 1, RLit [40, 34], RBackref 2, RLit [34, 41, 32, 60, 32], num_group 5, REnd])
        (u, Map.empty(1 \<mapsto> time_func_text f, 2 \<mapsto> tz, 3 \<mapsto> v, 4 \<mapsto> [38, 38]))"
proof -
  have first: "run inp (RSeq (num_group n) (RSeq (RLit [32]) r')) (v @ 32 # t, c) = run inp r' (t, c(n \<mapsto> v))" for n t r' c
    using step_num[OF assms(3), of 32 "32 # t" inp n "[]" r' c] by (simp add: step_lit)
  show ?thesis
    by (simp add: time_range_core_def time_atom_def time_call_def pattern_text step_lit step_name step_time_func step_alt_group
        step_lit_group assms(1,2) first)
qed

lemma time_then:
  assumes tz: "tz \<noteq> []" "34 \<notin> set tz" "bracket_free tz" and v: "is_numeric v" and opr: "opr \<in> time_ops"
    and ok: "list_all piece_ok (q # qs)"
    and hit: "tryParseTimeCondition (time_atom f tz opr v @ js '' && '' @ join (js '' && '') (q # qs)) = Some tc"
  obtains w where "opr = js ''>=''" "qs = []" "q = time_atom f tz (js ''<'') w" "is_numeric w" "tc = range_cond f tz v w"
    "\<not> num_less (js_number w) (js_number v)"
proof -
  let ?u = "join (js '' && '') (q # qs)"
  let ?s = "time_atom f tz opr v @ js '' && '' @ ?u"
  have num: "run inp (RSeq (num_group n) REnd) (v @ 32 # t, c) = []" for inp n t c
    using step_num_end[OF v, of "32 # t" inp n c] by simp
  have single: "regex_match time_single_re ?s = None"
    unfolding time_single_re_def using opr
    by (intro regex_match_miss)
      (auto simp: time_ops_def time_atom_def time_call_def pattern_text regex_step tz(1,2) num)
  have paren: "regex_match time_range_paren_re ?s = None"
    unfolding time_range_paren_re_def
    by (intro regex_match_miss, cases f) (simp_all add: time_range_core_def time_atom_def time_call_def pattern_text regex_step)
  obtain m where m: "regex_match time_range_re ?s = Some m" "range_of_match m = Some tc"
    using hit single paren by (auto simp: tryParseTimeCondition_def split: option.splits)
  have ge: "opr = js ''>=''"
  proof (rule ccontr)
    assume "opr \<noteq> js ''>=''"
    then have "regex_match time_range_re ?s = None"
      unfolding time_range_re_def using opr
      by (intro regex_match_miss) (auto simp: time_range_core_def time_ops_def time_atom_def time_call_def pattern_text regex_step tz(1,2))
    with m show False by simp
  qed
  let ?c = "Map.empty(1 \<mapsto> time_func_text f, 2 \<mapsto> tz, 3 \<mapsto> v, 4 \<mapsto> [38, 38]) :: captures"
  obtain st sts where st: "run ?s (rseq [RBackref 1, RLit [40, 34], RBackref 2, RLit [34, 41, 32, 60, 32], num_group 5, REnd]) (?u, ?c) = st # sts"
    "snd st = m"
    using m(1) range_before_tail[OF tz(1,2) v, of ?s f ?u] unfolding time_range_re_def regex_match_anchored ge
    by (auto simp: jstr_eval split: list.splits)
  have cs: "?c 1 = Some (time_func_text f)" "?c 2 = Some tz" by simp_all
  obtain w where w: "?u = time_func_text f @ 40 # 34 # tz @ 34 # 41 # 32 # 60 # 32 # w" "snd st = ?c(5 \<mapsto> w)"
    using range_tail[OF cs st(1)] by blast
  then have atom: "?u = time_atom f tz (js ''<'') w" by (simp add: time_atom_def time_call_def jstr_eval)
  have mc: "m = ?c(5 \<mapsto> w)" using st(2) w(2) by simp
  have r: "is_numeric w" "\<not> num_less (js_number w) (js_number v)" "tc = range_cond f tz v w"
    using m(2) unfolding mc by (auto simp: range_of_match_def range_cond_def jstr_eval split: if_splits)
  have "splitTopLevelAnd (join (js '' && '') [time_atom f tz (js ''<'') w]) = [time_atom f tz (js ''<'') w]"
    using time_atom_ok[OF tz(3) r(1) mode_op_in(3)] by (intro splitTopLevelAnd_join) (simp_all add: piece_ok_def)
  moreover have "splitTopLevelAnd ?u = q # qs" using ok by (intro splitTopLevelAnd_join) (auto simp: piece_ok_def list_all_iff)
  ultimately have "q # qs = [time_atom f tz (js ''<'') w]" unfolding atom by simp
  with ge r show thesis using that by simp
qed

lemma overnight_then:
  assumes "tz \<noteq> []" "34 \<notin> set tz" "is_numeric s" "is_numeric e"
  shows "tryParseTimeCondition (40 # range_text f tz s (range_junctor s e) e @ 41 # 32 # u) = None"
proof -
  let ?s = "40 # range_text f tz s (range_junctor s e) e @ 41 # 32 # u"
  have j: "range_junctor s e \<in> {js ''&&'', js ''||''}" by (simp add: range_junctor_def)
  have "regex_match time_range_re ?s = None" "regex_match time_single_re ?s = None"
    unfolding time_range_re_def time_single_re_def time_range_core_def by (intro regex_match_miss; simp add: step_time_func_other)+
  moreover have "regex_match time_range_paren_re ?s = None"
  proof -
    have core: "rseq ([lit ''(''] @ time_range_core @ [lit '')'', REnd]) = RSeq (lit ''('') (rseq (time_range_core @ [RSeq (lit '')'') REnd]))"
      by (simp add: time_range_core_def)
    have "run inp (rseq (time_range_core @ [RSeq (RLit [41]) REnd])) (range_text f tz s (range_junctor s e) e @ 41 # 32 # u, Map.empty) = []" for inp
      by (subst range_run[OF assms j]) (auto simp: step_lit)
    then show ?thesis unfolding time_range_paren_re_def core by (intro regex_match_miss) (simp add: pattern_text step_lit)
  qed
  ultimately show ?thesis by (simp add: tryParseTimeCondition_def)
qed

definition group_text :: "RequestCondition list \<Rightarrow> jstr" where
  "group_text cs = (if length cs = 1 then alone (hd cs) else join (js '' && '') (all_pieces cs))"

lemma same_day_text: "same_day t \<Longrightarrow> alone (CTime t)
    = range_text (tm_timeFunc t) (tm_timezone t) (tm_rangeStart t) (range_junctor (tm_rangeStart t) (tm_rangeEnd t)) (tm_rangeEnd t)"
  by (auto simp: alone_def range_text_def Let_def jstr_eval)

lemma whole_one:
  assumes "written (CTime t)"
  shows "tryParseTimeCondition (alone (CTime t)) = Some t"
proof -
  have tz: "tm_timezone t \<noteq> []" "34 \<notin> set (tm_timezone t)" using assms by (auto dest: text_ok_facts)
  show ?thesis
  proof (cases "tm_mode t = MATCH_RANGE")
    case True
    then have n: "is_numeric (tm_rangeStart t)" "is_numeric (tm_rangeEnd t)" "tm_value t = []" using assms by auto
    let ?r = "range_text (tm_timeFunc t) (tm_timezone t) (tm_rangeStart t) (range_junctor (tm_rangeStart t) (tm_rangeEnd t)) (tm_rangeEnd t)"
    have "alone (CTime t) = ?r"
    proof (cases "same_day t")
      case False
      with True have "range_junctor (tm_rangeStart t) (tm_rangeEnd t) = js ''||''" by (auto simp: range_junctor_def split: if_splits)
      with True show ?thesis by (simp add: alone_def)
    qed (rule same_day_text)
    moreover have "range_cond (tm_timeFunc t) (tm_timezone t) (tm_rangeStart t) (tm_rangeEnd t) = t"
      using True n(3) by (cases t) (simp add: range_cond_def)
    ultimately show ?thesis using read_range(1)[OF tz n(1,2)] by simp
  next
    case False
    then have "alone (CTime t) = hd (pieces (CTime t))" by (simp add: alone_def Let_def)
    then show ?thesis using read_head[OF assms] False by simp
  qed
qed

lemma param_not_time: "tryParseTimeCondition (join (js '' && '') (pieces (CParam p) @ ps)) = None"
proof -
  have "\<exists>src u. hd (pieces (CParam p)) = source_call src (ph_path p) @ u \<or> hd (pieces (CParam p)) = js ''has('' @ u"
    by (auto simp: Let_def exists_text_def has_text_def)
  moreover have "\<exists>u. join (js '' && '') (pieces (CParam p) @ ps) = hd (pieces (CParam p)) @ u"
  proof (cases "pieces (CParam p) @ ps")
    case (Cons x xs)
    then have "x = hd (pieces (CParam p))" by (cases "pieces (CParam p)") (auto simp: Let_def split: if_splits)
    with Cons show ?thesis by (cases xs) auto
  qed (auto simp: Let_def split: if_splits)
  ultimately show ?thesis using not_time_source not_time_has by (metis append_assoc)
qed

text \<open>Where the whole text reads as a time condition, it is the one the conjuncts fuse to.\<close>

lemma whole_time:
  assumes ws: "list_all written cs" "cs \<noteq> []" and hit: "tryParseTimeCondition (group_text cs) = Some tc"
  shows "\<not> list_ex blocked cs \<and> fuse cs = [CTime tc]"
proof (cases cs)
  case (Cons c ds)
  show ?thesis
  proof (cases c)
    case (CParam p)
    have "group_text cs = join (js '' && '') (pieces (CParam p) @ all_pieces ds)"
      using Cons CParam by (cases ds) (simp_all add: group_text_def alone_def del: pieces.simps)
    then show ?thesis using hit param_not_time by simp
  next
    case (CTime a)
    show ?thesis
    proof (cases ds)
      case Nil
      then show ?thesis using whole_one[of a] hit ws Cons CTime by (simp add: group_text_def del: written.simps)
    next
      case (Cons d es)
      have w: "written (CTime a)" "written d" "list_all written ds" using ws \<open>cs = c # ds\<close> CTime Cons by auto
      obtain x xs where x: "all_pieces ds = x # xs" using all_pieces_ok(2)[OF w(3)] Cons by (cases "all_pieces ds") auto
      have ok: "list_all piece_ok (x # xs)" using all_pieces_ok(1)[OF w(3)] x by simp
      have shape: "group_text cs = join (js '' && '') (pieces (CTime a) @ x # xs)"
        using \<open>cs = c # ds\<close> CTime Cons x by (simp add: group_text_def del: pieces.simps)
      have tz: "tm_timezone a \<noteq> []" "34 \<notin> set (tm_timezone a)" "bracket_free (tm_timezone a)" using w(1) by (auto dest: text_ok_facts)
      let ?f = "tm_timeFunc a" and ?tz = "tm_timezone a"
      consider (day) "same_day a" "is_numeric (tm_rangeStart a)" "is_numeric (tm_rangeEnd a)"
        | (night) "tm_mode a = MATCH_RANGE" "\<not> same_day a" "is_numeric (tm_rangeStart a)" "is_numeric (tm_rangeEnd a)"
        | (one) "tm_mode a \<in> {MATCH_EQ, MATCH_GTE, MATCH_LT}" "is_numeric (tm_value a)" "tm_rangeStart a = []" "tm_rangeEnd a = []"
        using w(1) by (auto split: if_splits)
      then show ?thesis
      proof cases
        case day
        let ?b = "time_atom ?f ?tz (js ''<'') (tm_rangeEnd a)"
        have "group_text cs = time_atom ?f ?tz (js ''>='') (tm_rangeStart a) @ js '' && '' @ join (js '' && '') (?b # x # xs)"
          unfolding shape using day by (simp add: Let_def)
        moreover have "list_all piece_ok (?b # x # xs)" using ok time_atom_ok[OF tz(3) day(3)] by simp
        ultimately show ?thesis using time_then[OF tz day(2) mode_op_in(2), where q = ?b and qs = "x # xs" and tc = tc and f = ?f] hit by auto
      next
        case night
        have "group_text cs = 40 # range_text ?f ?tz (tm_rangeStart a) (range_junctor (tm_rangeStart a) (tm_rangeEnd a)) (tm_rangeEnd a)
            @ 41 # 32 # tl (js '' && '') @ join (js '' && '') (x # xs)"
          unfolding shape using night by (simp add: Let_def jstr_eval)
        then show ?thesis using overnight_then[OF tz(1,2) night(3,4)] hit by simp
      next
        case one
        then have "tm_mode a \<noteq> MATCH_RANGE" by auto
        then have "group_text cs = time_atom ?f ?tz (mode_op (tm_mode a)) (tm_value a) @ js '' && '' @ join (js '' && '') (x # xs)"
          unfolding shape by (simp add: Let_def)
        with hit obtain v where v: "mode_op (tm_mode a) = js ''>=''" "xs = []" "x = time_atom ?f ?tz (js ''<'') v" "is_numeric v"
          "tc = range_cond ?f ?tz (tm_value a) v" "\<not> num_less (js_number v) (js_number (tm_value a))"
          using time_then[OF tz one(2) mode_op_in(1) ok, where tc = tc and f = ?f] by metis
        have "pieces d @ all_pieces es = [x]" using x Cons v(2) by simp
        then have d: "pieces d = [x]" "all_pieces es = []" using pieces_ok(2)[OF w(2)] by (auto simp: append_eq_Cons_conv)
        have es: "es = []" using d(2) w(3) pieces_ok(2) Cons by (cases es) auto
        have head: "head_time d = Some (single_cond ?f ?tz MATCH_LT v)"
          using read_head[OF w(2)] read_time_atom[OF tz(1,2) v(4) mode_op_in(3)] d(1) v(3) by (simp add: op_mode_def)
        then obtain b where b: "d = CTime b" "b = single_cond ?f ?tz MATCH_LT v" by (cases d) (auto simp: single_cond_def split: if_splits)
        have "tm_mode a = MATCH_GTE" using v(1) one(1) by (auto simp: mode_op_def split: if_splits)
        then have "range_pair a b = Some tc" using b(2) v(5,6) by (simp add: range_pair_def single_cond_def range_cond_def)
        then show ?thesis using \<open>cs = c # ds\<close> CTime Cons es b(1) by simp
      qed
    qed
  qed
qed (use ws in simp)

lemma group_text_join:
  assumes "cs \<noteq> []" "\<And>c. cs = [c] \<Longrightarrow> \<not> overnight c"
  shows "group_text cs = join (js '' && '') (all_pieces cs)"
proof (cases "length cs = 1")
  case True
  then obtain c where c: "cs = [c]" by (auto simp: length_Suc_conv)
  with assms(2)[OF c] show ?thesis by (cases c) (simp_all add: group_text_def alone_def del: pieces.simps overnight.simps)
qed (simp add: group_text_def)

lemma overnight_text:
  assumes "written c" "overnight c"
  obtains t where "c = CTime t" "is_numeric (tm_rangeStart t)" "is_numeric (tm_rangeEnd t)" "bracket_free (tm_timezone t)"
    "alone c = range_text (tm_timeFunc t) (tm_timezone t) (tm_rangeStart t) (range_junctor (tm_rangeStart t) (tm_rangeEnd t)) (tm_rangeEnd t)"
proof (cases c)
  case (CTime t)
  then show ?thesis using assms that[of t] by (auto simp: alone_def dest: text_ok_facts)
qed (use assms in simp)

lemma group_text_facts:
  assumes "list_all written cs" "cs \<noteq> []"
  shows "trim (group_text cs) = group_text cs" "balanced (group_text cs)" "group_text cs \<noteq> []"
proof -
  have "trim (group_text cs) = group_text cs \<and> balanced (group_text cs) \<and> group_text cs \<noteq> []"
  proof (cases "\<exists>c. cs = [c] \<and> overnight c")
    case True
    then obtain c where c: "cs = [c]" "overnight c" "written c" using assms by auto
    obtain t where t: "c = CTime t" "is_numeric (tm_rangeStart t)" "is_numeric (tm_rangeEnd t)" "bracket_free (tm_timezone t)"
      "alone c = range_text (tm_timeFunc t) (tm_timezone t) (tm_rangeStart t) (range_junctor (tm_rangeStart t) (tm_rangeEnd t)) (tm_rangeEnd t)"
      using overnight_text[OF c(3,2)] by blast
    have "trim (alone c) = alone c \<and> alone c \<noteq> []"
      unfolding t(5) using numeric_nonempty[OF t(3)] numeric_last[OF t(3)]
      by (auto intro!: trim_fixed simp: range_text_def time_atom_def call_head call_head_not_space)
    then show ?thesis using c(1) t(5) balanced_range[OF t(4,2,3)] by (simp add: group_text_def)
  next
    case False
    then have g: "group_text cs = join (js '' && '') (all_pieces cs)" using assms(2) by (intro group_text_join) auto
    have ok: "list_all piece_ok (all_pieces cs)" "all_pieces cs \<noteq> []" using all_pieces_ok[OF assms(1)] assms(2) by auto
    have trims: "list_all (\<lambda>p. trim p = p \<and> p \<noteq> []) (all_pieces cs)" using ok(1) piece_trim by (auto simp: list_all_iff)
    then have "hd (all_pieces cs) \<noteq> []" using ok(2) by (cases "all_pieces cs") auto
    moreover have "balanced (join (js '' && '') (all_pieces cs))"
      using ok(1) by (intro balanced_join balanced_bracket_free) (auto simp: piece_ok_def list_all_iff jstr_eval)
    ultimately show ?thesis unfolding g using trim_join[OF ok(2) trims] join_nonempty_head[OF ok(2)] by blast
  qed
  then show "trim (group_text cs) = group_text cs" "balanced (group_text cs)" "group_text cs \<noteq> []" by blast+
qed

lemma fuse_nonempty: "cs \<noteq> [] \<Longrightarrow> fuse cs \<noteq> []"
  by (cases cs rule: fuse.cases) (auto split: option.splits)

lemma conditions_read:
  assumes q: "json_quotes env" and ws: "list_all written cs" "cs \<noteq> []"
  shows "tryParseRequestConditions env (group_text cs) = (if list_ex blocked cs then NoReading else Reading (fuse cs))"
proof (cases "tryParseTimeCondition (group_text cs)")
  case None
  have "\<not> overnight c" if "cs = [c]" for c
    using None ws that whole_one by (cases c) (auto simp: group_text_def simp del: written.simps)
  then have g: "group_text cs = join (js '' && '') (all_pieces cs)" by (rule group_text_join[OF ws(2)])
  have "splitTopLevelAnd (group_text cs) = all_pieces cs"
    unfolding g using all_pieces_ok[OF ws(1)] ws(2) by (intro splitTopLevelAnd_join) (auto simp: piece_ok_def list_all_iff)
  then show ?thesis using None read_all[OF q ws(1)] group_text_facts(1)[OF ws] fuse_nonempty[OF ws(2)]
    by (auto simp: tryParseRequestConditions_def split: list.splits)
next
  case (Some tc)
  then show ?thesis using whole_time[OF ws Some] group_text_facts(1)[OF ws] by (simp add: tryParseRequestConditions_def)
qed

section \<open>Factors and expressions\<close>

definition factor_text :: "RequestRuleGroup \<Rightarrow> jstr" where
  "factor_text g = 40 # (group_text (rg_conditions g) @ 32 # 63 # 32 # rg_multiplier g @ [32, 58, 32, 49]) @ [41]"

definition group_ok :: "RequestRuleGroup \<Rightarrow> bool" where
  "group_ok g \<longleftrightarrow> is_numeric (rg_multiplier g) \<and> rg_conditions g \<noteq> [] \<and> list_all written (rg_conditions g)
     \<and> rg_conditionText g = None \<and> rg_matched g = None"

abbreviation unreadable_group :: "RequestRuleGroup \<Rightarrow> bool" where
  "unreadable_group g \<equiv> list_ex blocked (rg_conditions g)"

definition fuse_group :: "RequestRuleGroup \<Rightarrow> RequestRuleGroup" where
  "fuse_group g = rule_group (fuse (rg_conditions g)) (rg_multiplier g)"

lemma factor_match:
  assumes "is_numeric v" "m \<noteq> []"
  shows "regex_match rule_factor_re (40 # m @ 32 # 63 # 32 # v @ [32, 58, 32, 49, 41]) = Some [1 \<mapsto> m, 2 \<mapsto> v]"
proof -
  let ?u = "32 # 63 # 32 # v @ [32, 58, 32, 49, 41]"
  let ?r = "rseq [lit '' ? '', num_group 2, lit '' : 1)'', REnd]"
  have free: "63 \<notin> set (32 # v @ [32, 58, 32, 49, 41])" using numeric_set[OF assms(1), of 63] by (auto simp: num_char_def is_digit_def)
  have miss: "run inp ?r (w, d) = []" if "strict_suffix w ?u" for inp w d
  proof -
    have "take 3 w \<noteq> [32, 63, 32]"
    proof
      assume "take 3 w = [32, 63, 32]"
      then obtain w' where w: "w = 32 # 63 # 32 # w'" by (cases w; cases "tl w"; cases "tl (tl w)") auto
      with that have "suffix (32 # 63 # 32 # w') (63 # 32 # v @ [32, 58, 32, 49, 41])" by (auto simp: strict_suffix_def suffix_Cons)
      then have "suffix (32 # 63 # 32 # w') (32 # v @ [32, 58, 32, 49, 41])" by (auto simp: suffix_Cons)
      then have "63 \<in> set (32 # v @ [32, 58, 32, 49, 41])" using set_mono_suffix by fastforce
      with free show False by blast
    qed
    then show ?thesis by (simp add: pattern_text step_lit eval_nat_numeral)
  qed
  have hit: "run inp ?r (?u, c) = [([], c(2 \<mapsto> v))]" for inp c
    using step_num[OF assms(1), of 32 "[32, 58, 32, 49, 41]" inp 2 "[58, 32, 49, 41]" REnd c] by (simp add: pattern_text step_lit)
  let ?s = "40 # m @ ?u"
  obtain more where "run ?s (RSeq (RGroup 1 (RPlus (RClass any_char))) ?r) (m @ ?u, Map.empty) = run ?s ?r (?u, [1 \<mapsto> m]) @ more"
    using greedy_cap[OF assms(2), of ?u ?s ?r 1 Map.empty] miss by blast
  then have "run ?s (rseq [lit ''('', RGroup 1 (RPlus (RClass any_char)), lit '' ? '', num_group 2, lit '' : 1)'', REnd]) (?s, Map.empty)
      = ([], [1 \<mapsto> m, 2 \<mapsto> v]) # more" using hit by (simp add: step_lit pattern_text)
  from regex_match_hit[OF this] show ?thesis by (simp add: rule_factor_re_def)
qed

lemma factor_read:
  assumes "json_quotes env" "group_ok g"
  shows "tryParseRuleGroupFactor env (factor_text g) = (if unreadable_group g then NoReading else Reading (fuse_group g))"
proof -
  have ws: "list_all written (rg_conditions g)" "rg_conditions g \<noteq> []" "is_numeric (rg_multiplier g)" using assms(2) by (auto simp: group_ok_def)
  have "regex_match rule_factor_re (factor_text g) = Some [1 \<mapsto> group_text (rg_conditions g), 2 \<mapsto> rg_multiplier g]"
    using factor_match[OF ws(3) group_text_facts(3)[OF ws(1,2)]] by (simp add: factor_text_def)
  then show ?thesis using conditions_read[OF assms(1) ws(1,2)] by (simp add: tryParseRuleGroupFactor_def fuse_group_def)
qed

lemma factor_part_ok:
  assumes "group_ok g"
  shows "multiply_split.part_ok (factor_text g)"
proof -
  have ws: "list_all written (rg_conditions g)" "rg_conditions g \<noteq> []" "is_numeric (rg_multiplier g)" using assms by (auto simp: group_ok_def)
  let ?in = "group_text (rg_conditions g) @ 32 # 63 # 32 # rg_multiplier g @ [32, 58, 32, 49]"
  have "balanced ?in" using group_text_facts(2)[OF ws(1,2)] numeric_plain(3)[OF ws(3)]
    by (intro balanced_append) (simp_all add: balanced_bracket_free)
  then have "balanced (factor_text g)" "clear_of 42 0 (factor_text g)"
    unfolding factor_text_def by (rule balanced_brackets, rule clear_brackets) simp
  moreover have "trim (factor_text g) = factor_text g" by (rule trim_fixed) (simp add: factor_text_def is_space_def js_spaces_def)
  ultimately show ?thesis by (simp add: multiply_split.part_ok_def balanced_def factor_text_def)
qed

lemma alone_nonempty: "written c \<Longrightarrow> alone c \<noteq> []"
  using group_text_facts(3)[of "[c]"] by (simp add: group_text_def)

lemma build_factor:
  assumes "json_quotes env" "group_ok g"
  shows "buildRuleGroupFactor env g = factor_text g"
proof -
  let ?cs = "rg_conditions g"
  have ws: "list_all written ?cs" "?cs \<noteq> []" "is_numeric (rg_multiplier g)" using assms(2) by (auto simp: group_ok_def)
  have "buildRequestConditionExpr env c \<noteq> []" if "c \<in> set ?cs" for c
    using that ws(1) build_written[OF assms(1)] alone_nonempty by (auto simp: list_all_iff)
  then have "filter (\<lambda>e. e \<noteq> []) (map (buildRequestConditionExpr env) ?cs) = map (buildRequestConditionExpr env) ?cs" by simp
  moreover have "combine_conditions (map (buildRequestConditionExpr env) ?cs) = group_text ?cs"
    using combine_pieces[OF assms(1) ws(1,2)] by (simp add: group_text_def)
  ultimately show ?thesis using ws by (simp add: buildRuleGroupFactor_def numeric_plain factor_text_def jstr_eval)
qed

lemma build_factors:
  assumes "json_quotes env" "list_all group_ok gs"
  shows "buildRequestRuleExpr env gs = join (js '' * '') (map factor_text gs)"
proof -
  have "map (buildRuleGroupFactor env) gs = map factor_text gs" using assms build_factor by (auto simp: list_all_iff)
  moreover have "filter (\<lambda>e. e \<noteq> []) (map factor_text gs) = map factor_text gs" by (simp add: factor_text_def)
  ultimately show ?thesis unfolding buildRequestRuleExpr_def by metis
qed

lemma factors_parts:
  assumes "list_all group_ok gs" "gs \<noteq> []"
  shows "splitTopLevelMultiply (join (js '' * '') (map factor_text gs)) = map factor_text gs"
    and "trim (join (js '' * '') (map factor_text gs)) = join (js '' * '') (map factor_text gs)"
    and "join (js '' * '') (map factor_text gs) \<noteq> []"
proof -
  have ok: "list_all multiply_split.part_ok (map factor_text gs)" "map factor_text gs \<noteq> []"
    using assms factor_part_ok by (auto simp: list_all_iff)
  then show "splitTopLevelMultiply (join (js '' * '') (map factor_text gs)) = map factor_text gs" by (intro splitTopLevelMultiply_join)
  show "trim (join (js '' * '') (map factor_text gs)) = join (js '' * '') (map factor_text gs)"
    using ok by (intro trim_join) (auto simp: list_all_iff multiply_split.part_ok_def)
  show "join (js '' * '') (map factor_text gs) \<noteq> []"
    using assms(2) by (intro join_nonempty_head) (simp_all add: hd_map factor_text_def)
qed

lemma read_factors_all:
  assumes "json_quotes env"
  shows "list_all group_ok gs \<Longrightarrow>
    read_factors env (map factor_text gs) = (if list_ex unreadable_group gs then NoReading else Reading (map fuse_group gs))"
  by (induction gs) (auto simp: factor_read[OF assms])

lemma rules_read:
  assumes "json_quotes env" "list_all group_ok gs"
  shows "tryParseRequestRuleExpr env (buildRequestRuleExpr env gs)
    = (if list_ex unreadable_group gs then NoReading else Reading (map fuse_group gs))"
proof (cases "gs = []")
  case False
  then show ?thesis
    using factors_parts[OF assms(2) False] read_factors_all[OF assms] by (simp add: tryParseRequestRuleExpr_def build_factors[OF assms] Let_def)
qed (simp add: buildRequestRuleExpr_def tryParseRequestRuleExpr_def Let_def)

section \<open>Fusing keeps the text\<close>

lemma range_pair_written:
  assumes "written (CTime a)" "written (CTime b)" "range_pair a b = Some r"
  shows "written (CTime r)" "pieces (CTime r) = pieces (CTime a) @ pieces (CTime b)"
  using assms by (auto simp: range_pair_def Let_def range_junctor_def mode_op_def split: if_splits)

lemma fuse_keeps:
  "list_all written cs \<Longrightarrow> list_all written (fuse cs) \<and> all_pieces (fuse cs) = all_pieces cs"
proof (induction cs rule: fuse.induct)
  case (1 a b cs)
  then have w: "written (CTime a)" "written (CTime b)" "list_all written (CTime b # cs)" "list_all written cs"
    by (simp_all del: written.simps)
  show ?case
  proof (cases "range_pair a b")
    case None
    with 1(1)[OF None w(3)] w(1) show ?thesis by (simp del: written.simps pieces.simps)
  next
    case (Some r)
    with 1(2)[OF Some w(4)] range_pair_written[OF w(1,2) Some] show ?thesis by (simp del: written.simps pieces.simps)
  qed
qed (simp_all del: written.simps pieces.simps)

lemma fuse_one:
  assumes "list_all written cs" "fuse cs = [c]" "overnight c"
  shows "cs = [c]"
proof (cases cs rule: fuse.cases)
  case (1 a b ds)
  with assms have "range_pair a b = Some (time_of c)" "c = CTime (time_of c)" by (auto split: option.splits simp: fuse_nonempty)
  then show ?thesis using assms(3) by (cases c) (auto simp: range_pair_def range_junctor_def split: if_splits)
qed (use assms fuse_nonempty in auto)

lemma fuse_group_text:
  assumes "list_all written cs" "cs \<noteq> []"
  shows "group_text (fuse cs) = group_text cs"
proof (cases "\<exists>c. cs = [c] \<and> overnight c")
  case True
  then show ?thesis by auto
next
  case False
  then have "group_text cs = join (js '' && '') (all_pieces cs)" using assms(2) by (intro group_text_join) auto
  moreover have "group_text (fuse cs) = join (js '' && '') (all_pieces (fuse cs))"
    using False fuse_one[OF assms(1)] fuse_nonempty[OF assms(2)] by (intro group_text_join) auto
  ultimately show ?thesis using fuse_keeps[OF assms(1)] by simp
qed

lemma fuse_group_facts:
  assumes "group_ok g"
  shows "group_ok (fuse_group g)" "factor_text (fuse_group g) = factor_text g"
  using assms fuse_keeps[of "rg_conditions g"] fuse_nonempty fuse_group_text
  by (auto simp: group_ok_def fuse_group_def rule_group_def factor_text_def)

definition unpaired :: "RequestCondition list \<Rightarrow> bool" where
  "unpaired cs \<longleftrightarrow> successively (\<lambda>c d. \<forall>a b. c = CTime a \<and> d = CTime b \<longrightarrow> range_pair a b = None) cs"

lemma fuse_unpaired: "unpaired cs \<Longrightarrow> fuse cs = cs"
  unfolding unpaired_def by (induction cs rule: fuse.induct) (auto simp: successively_Cons)

section \<open>The round trips\<close>


section \<open>Base expression and rules together\<close>

lemma run_suffix: "t \<in> set (run inp r st) \<Longrightarrow> suffix (fst t) (fst st)"
proof -
  have "chars_in any_char r" by (induction r) (simp_all add: list_all_iff)
  then show "t \<in> set (run inp r st) \<Longrightarrow> suffix (fst t) (fst st)" using run_consumes by (fastforce simp: suffix_def)
qed

lemma ends_with_literal:
  "run inp (rseq (rs @ [RLit l, REnd])) st \<noteq> [] \<Longrightarrow> suffix l (fst st)"
proof (induction rs arbitrary: st)
  case Nil
  then show ?case by (cases st) (auto simp: step_lit suffix_def split: if_splits dest!: take_eq_split)
next
  case (Cons r rs)
  then obtain t where t: "t \<in> set (run inp r st)" "run inp (rseq (rs @ [RLit l, REnd])) t \<noteq> []"
    by (cases rs) (auto simp: run.simps(3))
  then show ?case using Cons.IH[OF t(2)] run_suffix[OF t(1)] suffix_order.trans by blast
qed

definition base_ok :: "jstr \<Rightarrow> bool" where
  "base_ok base \<longleftrightarrow> base \<noteq> [] \<and> trim base = base \<and> balanced base \<and> \<not> suffix (js '' : 1'') base"

lemma base_not_factor:
  assumes "base_ok base"
  shows "tryParseRuleGroupFactor env (40 # base @ [41]) = NoReading"
proof -
  have "run inp (rseq [lit ''('', RGroup 1 (RPlus (RClass any_char)), lit '' ? '', num_group 2, lit '' : 1)'', REnd]) (40 # base @ [41], Map.empty) = []" for inp
  proof (rule ccontr)
    assume "\<not> ?thesis"
    then have "suffix (js '' : 1)'') (40 # base @ [41])"
      using ends_with_literal[where rs = "[lit ''('', RGroup 1 (RPlus (RClass any_char)), lit '' ? '', num_group 2]" and l = "js '' : 1)''" and inp = inp and st = "(40 # base @ [41], Map.empty)"]
      by (simp add: lit_def)
    then obtain zs where "(40 # base) @ [41] = (zs @ [32, 58, 32, 49]) @ [41]" by (auto simp: jstr_eval suffix_def)
    then have "suffix [32, 58, 32, 49] (40 # base)" unfolding append1_eq_conv by (auto simp: suffix_def)
    then show False using assms by (auto simp: base_ok_def jstr_eval suffix_Cons)
  qed
  then show ?thesis by (simp add: tryParseRuleGroupFactor_def rule_factor_re_def regex_match_anchored)
qed

lemma base_part_ok: "base_ok base \<Longrightarrow> multiply_split.part_ok (40 # base @ [41])"
  using balanced_brackets[of base] clear_brackets[of base 42] trim_fixed[of "40 # base @ [41]"]
  by (simp add: base_ok_def multiply_split.part_ok_def is_space_def js_spaces_def) (simp add: balanced_def)

lemma outer_inside: "stays d s \<Longrightarrow> nesting d s = 0 \<Longrightarrow> outer_loop (d + 1) (s @ [41])"
  by (induction s arbitrary: d) (auto simp: depth_after_shift Let_def, simp add: depth_after_def)

lemma unwrap_brackets:
  assumes "base_ok base"
  shows "unwrapOuterParens (40 # base @ [41]) = unwrapOuterParens base"
proof -
  have t: "trim (40 # base @ [41]) = 40 # base @ [41]" by (rule trim_fixed) (simp add: is_space_def js_spaces_def)
  have "outer_loop 1 (base @ [41])" using outer_inside[of 0 base] assms by (simp add: base_ok_def balanced_def)
  then have "hasFullOuterParens (40 # base @ [41])" by (simp add: hasFullOuterParens_def depth_after_def)
  then show ?thesis using assms unfolding unwrapOuterParens_def t
    by (subst unwrap_loop.simps) (simp add: base_ok_def butlast_append)
qed

lemma part_read:
  assumes "multiply_split.part_ok p"
  shows "tryParseRequestRuleExpr env p = reading_map (\<lambda>g. [g]) (tryParseRuleGroupFactor env p)"
proof -
  have "splitTopLevelMultiply (join (js '' * '') [p]) = [p]" using assms by (intro splitTopLevelMultiply_join) simp_all
  then show ?thesis using assms
    by (cases "tryParseRuleGroupFactor env p") (simp_all add: tryParseRequestRuleExpr_def multiply_split.part_ok_def Let_def)
qed

lemma rule_parts_factors:
  assumes "json_quotes env"
  shows "list_all group_ok gs \<Longrightarrow> rule_parts env (map factor_text gs)
    = Some (map factor_text (filter (\<lambda>g. \<not> unreadable_group g) gs), map factor_text (filter unreadable_group gs))"
  by (induction gs) (auto simp: part_read[OF factor_part_ok] factor_read[OF assms])

lemma split_combined:
  assumes q: "json_quotes env" and ok: "list_all group_ok gs" "gs \<noteq> []" and base: "base_ok base"
  shows "splitBillingExprAndRequestRules env (combineBillingExpr base (buildRequestRuleExpr env gs))
    = Some (if list_ex unreadable_group gs
        then \<lparr>se_billingExpr = combineBillingExpr base (buildRequestRuleExpr env gs), se_requestRuleExpr = []\<rparr>
        else \<lparr>se_billingExpr = unwrapOuterParens base, se_requestRuleExpr = buildRequestRuleExpr env gs\<rparr>)"
proof -
  let ?ps = "(40 # base @ [41]) # map factor_text gs"
  have parts_ok: "list_all multiply_split.part_ok ?ps" using ok(1) factor_part_ok base_part_ok[OF base] by (auto simp: list_all_iff)
  have whole: "combineBillingExpr base (buildRequestRuleExpr env gs) = join (js '' * '') ?ps"
    using factors_parts[OF ok] base build_factors[OF q ok(1)] ok(2)
    by (cases gs) (simp_all add: combineBillingExpr_def base_ok_def Let_def jstr_eval)
  have "trim (join (js '' * '') ?ps) = join (js '' * '') ?ps"
    using parts_ok by (intro trim_join) (auto simp: list_all_iff multiply_split.part_ok_def)
  moreover have "join (js '' * '') ?ps \<noteq> []" by (intro join_nonempty_head) simp_all
  moreover have "splitTopLevelMultiply (join (js '' * '') ?ps) = ?ps" using parts_ok by (intro splitTopLevelMultiply_join) simp_all
  moreover have "rule_parts env ?ps = Some (map factor_text (filter (\<lambda>g. \<not> unreadable_group g) gs),
      (40 # base @ [41]) # map factor_text (filter unreadable_group gs))"
    using rule_parts_factors[OF q ok(1)] part_read[OF base_part_ok[OF base]] base_not_factor[OF base] by simp
  moreover have "filter unreadable_group gs \<noteq> []" if "list_ex unreadable_group gs" using that by (auto simp: list_ex_iff filter_empty_conv)
  moreover have "filter (\<lambda>g. \<not> unreadable_group g) gs = gs" "filter unreadable_group gs = []" if "\<not> list_ex unreadable_group gs"
    using that by (auto simp: list_ex_iff filter_id_conv filter_empty_conv)
  ultimately show ?thesis using ok(2) unwrap_brackets[OF base] build_factors[OF q ok(1)] whole
    by (cases "list_ex unreadable_group gs") (auto simp: splitBillingExprAndRequestRules_def Let_def)
qed

text \<open>A billing expression comes apart as it was put together: the base expression, with its outer
  brackets removed, and the request rules.  The base has balanced brackets and does not end like
  a factor.\<close>

lemma combined_expression_splits:
  assumes "json_quotes env" "list_all group_ok gs" "gs \<noteq> []" "base_ok base" "\<not> list_ex unreadable_group gs"
  shows "splitBillingExprAndRequestRules env (combineBillingExpr base (buildRequestRuleExpr env gs))
      = Some \<lparr>se_billingExpr = unwrapOuterParens base, se_requestRuleExpr = buildRequestRuleExpr env gs\<rparr>
    \<and> (\<not> hasFullOuterParens base \<longrightarrow> unwrapOuterParens base = base)"
  using split_combined[OF assms(1-4)] assms(4,5) unwrap_loop.simps[of base] by (simp add: unwrapOuterParens_def base_ok_def)

text \<open>Conditions that compare a parameter or search in it are not read back: the writer joins their two
  conjuncts by the separator the reader splits at.  An expression with such a row is refused by
  the reader of rules, and when a billing expression with it is split no rules are found and the
  whole text is taken for the base.\<close>

lemma parameter_conditions_lost:
  assumes "json_quotes env" "list_all group_ok gs" "base_ok base"
    and "g \<in> set gs" "CParam p \<in> set (rg_conditions g)" "ph_source p = SourceParam"
    and "ph_mode p \<in> {MATCH_CONTAINS, MATCH_GT, MATCH_GTE, MATCH_LT, MATCH_LTE}"
  shows "tryParseRequestRuleExpr env (buildRequestRuleExpr env gs) = NoReading
    \<and> splitBillingExprAndRequestRules env (combineBillingExpr base (buildRequestRuleExpr env gs))
      = Some \<lparr>se_billingExpr = combineBillingExpr base (buildRequestRuleExpr env gs), se_requestRuleExpr = []\<rparr>"
proof -
  have "list_ex unreadable_group gs" using assms(4-7) by (auto simp: list_ex_iff intro!: bexI[of _ g] bexI[of _ "CParam p"])
  moreover have "gs \<noteq> []" using assms(4) by auto
  ultimately show ?thesis using rules_read[OF assms(1,2)] split_combined[OF assms(1,2) _ assms(3)] by simp
qed

section \<open>Two defects\<close>

text \<open>A quoted text that is not valid JSON makes the reader throw.\<close>

lemma bad_literal_throws:
  assumes "name_ok path" "list_all plain_char v" "json_parse env (34 # v @ [34]) = None"
  shows "tryParseRequestCondition env (js ''has('' @ source_call SourceHeader path @ 44 # 32 # 34 # v @ [34, 41]) = Throws"
  using read_header_contains[OF assms(1,2)] assms(3) by simp

text \<open>Without spaces the first price swallows the plus sign and is lost.\<close>

lemma price_lost_without_spaces:
  "map_of (parseTierBody (js ''p*3+c*4'')) (js ''inputPrice'') = Some (Fin 0)
   \<and> map_of (parseTierBody (js ''p * 3 + c * 4'')) (js ''inputPrice'') = Some (Fin 3)"
  by code_simp

section \<open>Witnesses\<close>

definition sample_expr_env :: ExprEnv where
  "sample_expr_env = \<lparr>json_parse = (\<lambda>t. Some (JStr (butlast (tl t)))), json_stringify = (\<lambda>t. 34 # t @ [34]),
     value_text = (\<lambda>_. []), number_text = (\<lambda>_. [])\<rparr>"

lemma sample_quotes: "json_quotes sample_expr_env"
  by (simp add: json_quotes_def sample_expr_env_def butlast_append)

definition sample_rules :: "RequestRuleGroup list" where
  "sample_rules =
     [rule_group [ph_cond SourceParam (js ''service_tier'') MATCH_EQ (js ''fast''), CTime (range_cond FHour (js ''UTC'') (js ''9'') (js ''12''))] (js ''2''),
      rule_group [CTime (range_cond FHour (js ''UTC'') (js ''21'') (js ''6'')), ph_cond SourceHeader (js ''x-plan'') MATCH_CONTAINS (js ''pro'')] (js ''0.5'')]"

definition sample_blocked :: RequestRuleGroup where
  "sample_blocked = rule_group [ph_cond SourceParam (js ''n'') MATCH_GT (js ''5'')] (js ''2'')"

lemma sample_numerics: "list_all is_numeric [js ''9'', js ''12'', js ''21'', js ''6'', js ''2'', js ''0.5'', js ''5'']"
  by code_simp

lemma sample_trims: "list_all (\<lambda>t. trim t = t) [js ''service_tier'', js ''x-plan'', js ''fast'', js ''pro'', js ''n'']"
  by code_simp

lemma sample_texts: "list_all text_ok [js ''service_tier'', js ''x-plan'', js ''fast'', js ''pro'', js ''n'', js ''UTC'']"
  by (simp add: text_ok_def plain_text_def jstr_eval)

lemma sample_literal: "literal_ok (js ''fast'')"
  using sample_trims sample_texts by (simp add: literal_ok_def jstr_eval line_end_def)

lemma sample_rules_ok: "list_all group_ok sample_rules" "\<not> list_ex unreadable_group sample_rules" "group_ok sample_blocked"
  using sample_numerics sample_trims sample_texts sample_literal
  by (simp_all add: sample_rules_def sample_blocked_def group_ok_def rule_group_def ph_cond_def range_cond_def)

lemma sample_base: "base_ok (js ''p * 2 + c * 4'')"
proof -
  have "trim (js ''p * 2 + c * 4'') = js ''p * 2 + c * 4''" by code_simp
  then show ?thesis by (simp add: base_ok_def balanced_bracket_free jstr_eval suffix_def)
qed

lemma sample_blocked_unreadable: "unreadable_group sample_blocked"
  by (simp add: sample_blocked_def rule_group_def ph_cond_def)


end
