(* ===== verification/Tier_Expr.thy ===== *)
theory Tier_Expr
  imports Billing_Expr
begin

text \<open>
  \<open>features/pricing/lib/tier-expr.ts\<close>: the tiers of the visual price editor, the expression written for
  them and the way back.  A number is printed by an argument.  \<open>evalExprLocally\<close> evaluates an expression
  with \<open>new Function\<close>, that is, by the JavaScript engine, and is not modelled.
\<close>

section \<open>Tiers\<close>

datatype CacheMode = CacheTimed | CacheGeneric

datatype CondValue = CondNumber jnum | CondText jstr

record TierConditionInput =
  ci_var :: jstr
  ci_op :: TierOp
  ci_value :: CondValue

text \<open>The costs of the extra variables are kept under their field names.\<close>

record VisualTier =
  vt_label :: jstr
  vt_conditions :: "TierConditionInput list"
  vt_input :: jnum
  vt_output :: jnum
  vt_cache_mode :: CacheMode
  vt_extra :: "jstr \<Rightarrow> jnum"

record PartialTier =
  pv_label :: "jstr option"
  pv_conditions :: "TierConditionInput list option"
  pv_input :: "jnum option"
  pv_output :: "jnum option"
  pv_cache_mode :: "CacheMode option"
  pv_extra :: "jstr \<Rightarrow> jnum option"

text \<open>\<open>Number(undefined)\<close> is \<open>NaN\<close>.\<close>

definition opt_number :: "jnum option \<Rightarrow> jnum" where
  "opt_number n = (case n of None \<Rightarrow> NaN | Some x \<Rightarrow> x)"

definition getTierCacheMode :: "PartialTier \<Rightarrow> CacheMode" where
  "getTierCacheMode tier =
     (case pv_cache_mode tier of Some m \<Rightarrow> m
      | None \<Rightarrow> if num_less (Fin 0) (opt_number (pv_extra tier (js ''cache_create_1h_unit_cost''))) then CacheTimed else CacheGeneric)"

text \<open>The properties the tier has replace the defaults that stand before it; the extra costs stand after it.\<close>

definition normalizeVisualTier :: "PartialTier \<Rightarrow> VisualTier" where
  "normalizeVisualTier tier =
     \<lparr>vt_label = (case pv_label tier of Some l \<Rightarrow> l | None \<Rightarrow> []),
      vt_conditions = (case pv_conditions tier of Some cs \<Rightarrow> cs | None \<Rightarrow> []),
      vt_input = (case pv_input tier of Some n \<Rightarrow> n | None \<Rightarrow> Fin 0),
      vt_output = (case pv_output tier of Some n \<Rightarrow> n | None \<Rightarrow> Fin 0),
      vt_cache_mode = getTierCacheMode tier,
      vt_extra = (\<lambda>f. if f \<in> set (map fst BILLING_CACHE_VAR_MAP) then num_or_zero (opt_number (pv_extra tier f)) else Fin 0)\<rparr>"

definition partial_tier :: "VisualTier \<Rightarrow> PartialTier" where
  "partial_tier t = \<lparr>pv_label = Some (vt_label t), pv_conditions = Some (vt_conditions t), pv_input = Some (vt_input t),
     pv_output = Some (vt_output t), pv_cache_mode = Some (vt_cache_mode t), pv_extra = (\<lambda>f. Some (vt_extra t f))\<rparr>"

definition createDefaultVisualConfig :: "VisualTier list" where
  "createDefaultVisualConfig =
     [normalizeVisualTier \<lparr>pv_label = Some (js ''base''), pv_conditions = Some [], pv_input = Some (Fin 0), pv_output = Some (Fin 0),
        pv_cache_mode = Some CacheGeneric, pv_extra = (\<lambda>_. None)\<rparr>]"

definition normalizeVisualConfig :: "VisualTier list option \<Rightarrow> VisualTier list" where
  "normalizeVisualConfig config =
     (case config of None \<Rightarrow> createDefaultVisualConfig
      | Some tiers \<Rightarrow> if tiers = [] then createDefaultVisualConfig else map (\<lambda>t. normalizeVisualTier (partial_tier t)) tiers)"

section \<open>Writing\<close>

fun cond_value_text :: "(jnum \<Rightarrow> jstr) \<Rightarrow> CondValue \<Rightarrow> jstr" where
  "cond_value_text numText (CondNumber n) = numText n"
| "cond_value_text numText (CondText t) = t"

definition buildConditionStr :: "(jnum \<Rightarrow> jstr) \<Rightarrow> TierConditionInput list \<Rightarrow> jstr" where
  "buildConditionStr numText conditions =
     join (js '' && '') (map (\<lambda>c. ci_var c @ js '' '' @ op_text (ci_op c) @ js '' '' @ cond_value_text numText (ci_value c))
       (filter (\<lambda>c. ci_var c \<noteq> [] \<and> ci_value c \<noteq> CondText []) conditions))"

definition buildTierBodyExpr :: "(jnum \<Rightarrow> jstr) \<Rightarrow> VisualTier \<Rightarrow> jstr" where
  "buildTierBodyExpr numText tier =
     join (js '' + '')
       ([js ''p * '' @ numText (num_or_zero (vt_input tier)), js ''c * '' @ numText (num_or_zero (vt_output tier))]
        @ List.map_filter (\<lambda>(field, exprVar).
            let v = num_or_zero (vt_extra tier field) in if v = Fin 0 then None else Some (exprVar @ js '' * '' @ numText v))
          BILLING_CACHE_VAR_MAP)"

definition tier_call :: "(jnum \<Rightarrow> jstr) \<Rightarrow> jstr \<Rightarrow> VisualTier \<Rightarrow> jstr" where
  \<open>tier_call numText label tier = js ''tier("'' @ label @ js ''", '' @ buildTierBodyExpr numText tier @ js '')''\<close>

definition tier_part :: "(jnum \<Rightarrow> jstr) \<Rightarrow> nat \<Rightarrow> nat \<times> VisualTier \<Rightarrow> jstr" where
  "tier_part numText n it =
     (case it of (i, tier) \<Rightarrow>
       let label = (if vt_label tier = [] then js ''tier_'' @ show_nat (i + 1) else vt_label tier);
           body = tier_call numText label tier;
           cond = buildConditionStr numText (vt_conditions tier) in
       if i + 1 < n \<and> cond \<noteq> [] then cond @ js '' ? '' @ body else body)"

definition generateExprFromVisualConfig :: "(jnum \<Rightarrow> jstr) \<Rightarrow> VisualTier list \<Rightarrow> jstr" where
  "generateExprFromVisualConfig numText tiers =
     (case tiers of [] \<Rightarrow> js ''p * 0 + c * 0''
      | [tier] \<Rightarrow>
          (let body = tier_call numText (if vt_label tier = [] then js ''default'' else vt_label tier) tier;
               cond = buildConditionStr numText (vt_conditions tier) in
           if cond \<noteq> [] then cond @ js '' ? '' @ body @ js '' : p * 0 + c * 0'' else body)
      | _ \<Rightarrow> join (js '' : '') (map (tier_part numText (length tiers)) (enumerate 0 tiers)))"

section \<open>Reading\<close>

definition cost_group :: "nat \<Rightarrow> regex" where
  "cost_group n = RGroup n (RPlus (RClass num_char))"

text \<open>The patterns of the optional extra costs; their captures are numbered from \<open>n\<close> on.\<close>

fun opt_costs :: "nat \<Rightarrow> jstr list \<Rightarrow> regex list" where
  "opt_costs n [] = []"
| "opt_costs n (v # vs) =
     ROpt (rseq [spaces, lit ''+'', spaces, RLit v, spaces, lit ''*'', spaces, cost_group n]) # opt_costs (n + 1) vs"

definition body_pat :: "nat \<Rightarrow> regex list" where
  "body_pat n = [lit ''p'', spaces, lit ''*'', spaces, cost_group n, spaces, lit ''+'', spaces, lit ''c'', spaces, lit ''*'', spaces,
     cost_group (n + 1)] @ opt_costs (n + 2) (map snd BILLING_CACHE_VAR_MAP)"

definition single_re :: regex where
  \<open>single_re = rseq ([RStart, lit ''tier("'', RGroup 1 (RStar (RClass (\<lambda>x. x \<noteq> 34))), lit ''",'', spaces] @ body_pat 2 @ [lit '')'', REnd])\<close>

definition visual_tier_re :: regex where
  "visual_tier_re = rseq (tier_head @ body_pat 3 @ [lit '')''])"

text \<open>The tier of a match whose label, costs and extra costs are captured from \<open>n\<close> on.\<close>

definition matched_tier :: "captures \<Rightarrow> nat \<Rightarrow> TierConditionInput list \<Rightarrow> PartialTier" where
  "matched_tier m n conditions =
     \<lparr>pv_label = Some (cap m n), pv_conditions = Some conditions, pv_input = Some (js_number (cap m (n + 1))),
      pv_output = Some (js_number (cap m (n + 2))), pv_cache_mode = None,
      pv_extra = (\<lambda>f. case find (\<lambda>(i, fv). fst fv = f) (enumerate 0 BILLING_CACHE_VAR_MAP) of
         None \<Rightarrow> None | Some (i, _) \<Rightarrow> map_option js_number (m (n + 3 + i)))\<rparr>"

definition condition_input :: "TierCondition \<Rightarrow> TierConditionInput" where
  "condition_input c = \<lparr>ci_var = tc_var c, ci_op = tc_op c, ci_value = CondNumber (tc_value c)\<rparr>"

definition without_spaces :: "jstr \<Rightarrow> jstr" where
  "without_spaces s = filter (\<lambda>x. \<not> is_space x) s"

definition strip_version :: "jstr \<Rightarrow> jstr" where
  "strip_version s =
     (case regex_match (rseq [RStart, lit ''v'', RPlus (RClass is_digit), lit '':'', RGroup 1 (RStar (RClass any_char)), REnd]) s of
        Some m \<Rightarrow> cap m 1 | None \<Rightarrow> s)"

definition tryParseVisualConfig :: "(jnum \<Rightarrow> jstr) \<Rightarrow> jstr \<Rightarrow> VisualTier list option" where
  "tryParseVisualConfig numText exprStr =
     (if exprStr = [] then None
      else let body = strip_version exprStr in
        case regex_match single_re body of
          Some simple \<Rightarrow> Some (normalizeVisualConfig (Some [normalizeVisualTier (matched_tier simple 1 [])]))
        | None \<Rightarrow>
            let tiers = map (\<lambda>m. normalizeVisualTier (matched_tier (match_caps m) 2
                  (map condition_input (read_conditions (cap (match_caps m) 1))))) (match_all body visual_tier_re body) in
            if tiers = [] then None
            else let cfg = normalizeVisualConfig (Some tiers) in
              if without_spaces (generateExprFromVisualConfig numText cfg) \<noteq> without_spaces body then None else Some cfg)"

definition ESTIMATOR_VARS :: "(jstr \<times> jstr) list" where
  "ESTIMATOR_VARS = [(js ''cr'', js ''cacheReadTokens''), (js ''cc'', js ''cacheCreateTokens''), (js ''cc1h'', js ''cacheCreate1hTokens''),
     (js ''img'', js ''imageTokens''), (js ''img_o'', js ''imageOutputTokens''), (js ''ai'', js ''audioInputTokens''), (js ''ao'', js ''audioOutputTokens'')]"

definition exprUsesExtraVars :: "jstr \<Rightarrow> bool" where
  "exprUsesExtraVars exprStr \<longleftrightarrow>
     exprStr \<noteq> [] \<and> regex_test (rseq [RBoundary, RGroup 1 (ralt (map (\<lambda>(v, _). RLit v) ESTIMATOR_VARS)), RBoundary]) exprStr"

end
