(* ===== verification/Tier_Texts.thy ===== *)
theory Tier_Texts
  imports Tier_Expr
begin

text \<open>
  The texts the price editor writes, as its own patterns read them: the costs of a tier, its conditions and
  the calls that carry them.  Each lemma computes the first way in which a pattern matches a written
  text (\<open>leads\<close>), with the captures it leaves.
\<close>

declare run.simps [simp del]

lemma space_codes [simp]: "is_space 32" "\<not> is_space 34" "\<not> is_space 38" "\<not> is_space 40" "\<not> is_space 41" "\<not> is_space 42"
  "\<not> is_space 43" "\<not> is_space 58" "\<not> is_space 60" "\<not> is_space 61" "\<not> is_space 62" "\<not> is_space 63" "\<not> is_space 99"
  "\<not> is_space 108" "\<not> is_space 112" "\<not> is_space 116" "\<not> num_char 32" "\<not> num_char 41"
  by (simp_all add: is_space_def js_spaces_def num_char_def is_digit_def)

section \<open>Steps of a pattern\<close>

lemma lead_lit: "leads inp r (s, c) st \<Longrightarrow> leads inp (RSeq (RLit l) r) (l @ s, c) st"
  by (rule leads_seq[OF leads_lit])

lemma lead_char: "leads inp r (s, c) st \<Longrightarrow> leads inp (RSeq (RLit [x]) r) (x # s, c) st"
  using lead_lit[of inp r s c st "[x]"] by simp

lemma lead_space: "stops is_space u \<Longrightarrow> leads inp r (u, c) st \<Longrightarrow> leads inp (RSeq spaces r) (32 # u, c) st"
  using leads_seq[OF leads_star_class[of is_space "[32]" u]] by simp

lemma lead_no_space: "stops is_space u \<Longrightarrow> leads inp r (u, c) st \<Longrightarrow> leads inp (RSeq spaces r) (u, c) st"
  using leads_seq[OF leads_star_class[of is_space "[]" u]] by simp

lemma lead_cost:
  "list_all num_char t \<Longrightarrow> t \<noteq> [] \<Longrightarrow> stops num_char u \<Longrightarrow> leads inp r (u, c(n \<mapsto> t)) st \<Longrightarrow> leads inp (RSeq (cost_group n) r) (t @ u, c) st"
  unfolding cost_group_def by (rule leads_seq[OF leads_group[OF leads_plus_class]])

lemma lead_cost_end:
  "list_all num_char t \<Longrightarrow> t \<noteq> [] \<Longrightarrow> stops num_char u \<Longrightarrow> leads inp (cost_group n) (t @ u, c) (u, c(n \<mapsto> t))"
  unfolding cost_group_def by (rule leads_group[OF leads_plus_class])

lemmas lead_steps = lead_char lead_space lead_no_space lead_cost lead_lit

lemma miss_char: "run inp (RSeq (RLit [x]) r) (y # s, c) = (if x = y then run inp r (s, c) else [])"
  by (simp add: run.simps after_prefix_def)

lemma miss_space:
  assumes "stops is_space u" "fails_on is_space r"
  shows "run inp (RSeq spaces r) (32 # u, c) = run inp r (u, c)" "run inp (RSeq spaces r) (u, c) = run inp r (u, c)"
  using skip_star[OF _ assms, of "[32]" inp c] skip_star[OF _ assms, of "[]" inp c] by simp_all

lemma fails_space_lit: "l \<noteq> [] \<Longrightarrow> \<not> is_space (hd l) \<Longrightarrow> fails_on is_space (RSeq (RLit l) r)"
  by (intro regex_fail) auto

lemma digit_not_space: "num_char x \<Longrightarrow> \<not> is_space x"
  by (auto simp: num_char_def is_space_def js_spaces_def is_digit_def)

lemma cost_hd: "list_all num_char t \<Longrightarrow> t \<noteq> [] \<Longrightarrow> \<not> is_space (hd t)"
  by (cases t) (auto simp: digit_not_space)

lemma stops_cost: "list_all num_char t \<Longrightarrow> t \<noteq> [] \<Longrightarrow> stops is_space (t @ u)"
  by (cases t) (auto simp: digit_not_space)

section \<open>The costs of a tier\<close>

text \<open>The variables of the extra costs, each with the text of its cost or with none.\<close>

type_synonym cost_item = "jstr \<times> jstr option"

fun cost_text :: "cost_item \<Rightarrow> jstr" where
  "cost_text (v, None) = []"
| "cost_text (v, Some t) = js '' + '' @ v @ js '' * '' @ t"

fun cost_caps :: "nat \<Rightarrow> cost_item list \<Rightarrow> captures \<Rightarrow> captures" where
  "cost_caps n [] c = c"
| "cost_caps n ((v, t) # xs) c = cost_caps (n + 1) xs (case t of None \<Rightarrow> c | Some w \<Rightarrow> c(n \<mapsto> w))"

definition is_cost :: "jstr \<Rightarrow> bool" where
  "is_cost t \<longleftrightarrow> t \<noteq> [] \<and> list_all num_char t"

definition var_name :: "jstr \<Rightarrow> bool" where
  "var_name v \<longleftrightarrow> v \<noteq> [] \<and> list_all is_word v"

definition items_ok :: "cost_item list \<Rightarrow> bool" where
  "items_ok xs \<longleftrightarrow> distinct (map fst xs) \<and> list_all (\<lambda>(v, t). var_name v \<and> (case t of None \<Rightarrow> True | Some w \<Rightarrow> is_cost w)) xs"

definition costs_text :: "cost_item list \<Rightarrow> jstr" where
  "costs_text xs = concat (map cost_text xs)"

abbreviation cost_pat :: "nat \<Rightarrow> jstr \<Rightarrow> regex" where
  "cost_pat n v \<equiv> rseq [spaces, lit ''+'', spaces, RLit v, spaces, lit ''*'', spaces, cost_group n]"

lemma word_not_space: "is_word x \<Longrightarrow> \<not> is_space x"
  by (auto simp: is_word_def is_space_def js_spaces_def is_digit_def)

lemma word_not_star: "is_word x \<Longrightarrow> x \<noteq> 42"
  by (auto simp: is_word_def is_digit_def)

lemma var_name_stops: "var_name v \<Longrightarrow> stops is_space (v @ u)"
  by (cases v) (auto simp: var_name_def word_not_space)

lemma leads_cost_pat:
  assumes "var_name v" "is_cost t" "stops num_char u"
  shows "leads inp (cost_pat n v) (cost_text (v, Some t) @ u, c) (u, c(n \<mapsto> t))"
  using assms
  by (auto simp: lit_def jstr_eval is_cost_def var_name_stops cost_hd intro!: lead_char lead_space lead_lit lead_cost_end)

text \<open>A variable's pattern does not match another variable.\<close>

lemma other_name:
  assumes "var_name v" "var_name w" "v \<noteq> w"
  shows "run inp (rseq [RLit v, spaces, lit ''*'', spaces, cost_group n]) (w @ 32 # 42 # u, c) = []"
proof (cases "take (length v) (w @ 32 # 42 # u) = v")
  case True
  have "length v \<le> length w"
  proof (rule ccontr)
    assume "\<not> length v \<le> length w"
    then have "32 \<in> set (take (length v) (w @ 32 # 42 # u))" by (cases "length v - length w") auto
    with True assms(1) have "is_word 32" by (simp add: var_name_def list_all_iff)
    then show False by (simp add: is_word_def is_digit_def)
  qed
  with True assms(3) obtain x r where w: "w = v @ x # r" by (metis append_take_drop_id append_Nil2 neq_Nil_conv take_append diff_is_0_eq take0)
  have "is_word x" using assms(2) w by (simp add: var_name_def)
  then have "run inp (RSeq spaces (RSeq (lit ''*'') (RSeq spaces (cost_group n)))) (x # r @ 32 # 42 # u, c) = []"
    using miss_space(2)[of "x # r @ 32 # 42 # u" "RSeq (RLit [42]) (RSeq spaces (cost_group n))" inp c]
    by (auto simp: lit_def word_not_space fails_space_lit jstr_eval miss_char dest: word_not_star)
  then show ?thesis using w by simp
qed (simp add: run.simps after_prefix_def)

lemma miss_cost:
  assumes "var_name v" "v \<notin> fst ` set xs" "items_ok xs"
  shows "run inp (cost_pat n v) (costs_text xs @ 41 # u, c) = []"
  using assms
proof (induction xs)
  case Nil
  then show ?case using miss_space(2)[of "41 # u"]
    by (simp add: costs_text_def lit_def fails_space_lit jstr_eval miss_char)
next
  case (Cons x xs)
  obtain w t where x: "x = (w, t)" by (cases x)
  show ?case
  proof (cases t)
    case None
    then show ?thesis using Cons x by (simp add: costs_text_def items_ok_def)
  next
    case (Some s)
    have w: "var_name w" "v \<noteq> w" using Cons x by (auto simp: items_ok_def)
    have f: "fails_on is_space (RSeq (RLit v) r)" for r using Cons(2) by (intro fails_space_lit) (auto simp: var_name_def word_not_space list_all_iff)
    show ?thesis using x Some other_name[OF Cons(2) w(1,2)] miss_space(1)[OF var_name_stops[OF w(1)] f]
      by (simp add: costs_text_def lit_def fails_space_lit jstr_eval miss_char miss_space(1))
  qed
qed

lemma costs_stop: "stops num_char (costs_text xs @ 41 # u)"
proof (induction xs)
  case (Cons x xs)
  then show ?case by (cases x rule: cost_text.cases) (simp_all add: costs_text_def jstr_eval)
qed (simp add: costs_text_def)

lemma leads_costs:
  "items_ok xs \<Longrightarrow> leads inp r (41 # u, cost_caps n xs c) st \<Longrightarrow>
     leads inp (rseq (opt_costs n (map fst xs) @ [r])) (costs_text xs @ 41 # u, c) st"
proof (induction xs arbitrary: n c)
  case Nil
  then show ?case by (simp add: costs_text_def)
next
  case (Cons x xs)
  obtain v t where x: "x = (v, t)" by (cases x)
  have ok: "var_name v" "v \<notin> fst ` set xs" "items_ok xs" using Cons x by (auto simp: items_ok_def)
  obtain q qs where q: "opt_costs (n + 1) (map fst xs) @ [r] = q # qs" by (cases "opt_costs (n + 1) (map fst xs)") auto
  have eq: "rseq (opt_costs n (map fst (x # xs)) @ [r]) = RSeq (ROpt (cost_pat n v)) (rseq (opt_costs (n + 1) (map fst xs) @ [r]))"
    using x q by simp
  show ?case
  proof (cases t)
    case None
    have "leads inp (ROpt (cost_pat n v)) (costs_text xs @ 41 # u, c) (costs_text xs @ 41 # u, c)"
      by (intro leads_opt_skip miss_cost ok)
    then show ?thesis unfolding eq using Cons x None ok(3) by (auto intro: leads_seq simp: costs_text_def)
  next
    case (Some w)
    have "is_cost w" using Cons x Some by (simp add: items_ok_def)
    then have "leads inp (ROpt (cost_pat n v)) (costs_text (x # xs) @ 41 # u, c) (costs_text xs @ 41 # u, c(n \<mapsto> w))"
      using leads_cost_pat[OF ok(1) _ costs_stop, of w inp n xs u c] x Some
      by (intro leads_opt) (simp_all add: costs_text_def jstr_eval)
    then show ?thesis unfolding eq using Cons x Some ok(3) by (auto intro: leads_seq)
  qed
qed

lemma cost_caps_at:
  "cost_caps n xs c k = (if n \<le> k \<and> k < n + length xs \<and> snd (xs ! (k - n)) \<noteq> None then snd (xs ! (k - n)) else c k)"
proof (induction xs arbitrary: n c)
  case (Cons x xs)
  obtain v t where x: "x = (v, t)" by (cases x)
  show ?case by (auto simp: x Cons nth_Cons' split: option.split)
qed auto

section \<open>The body of a tier\<close>

definition body_text :: "jstr \<Rightarrow> jstr \<Rightarrow> cost_item list \<Rightarrow> jstr" where
  "body_text i t xs = js ''p * '' @ i @ js '' + c * '' @ t @ costs_text xs"

definition body_ok :: "jstr \<Rightarrow> jstr \<Rightarrow> cost_item list \<Rightarrow> bool" where
  "body_ok i t xs \<longleftrightarrow> is_cost i \<and> is_cost t \<and> items_ok xs \<and> map fst xs = map snd BILLING_CACHE_VAR_MAP"

lemma leads_body:
  assumes "body_ok i t xs" "leads inp r (41 # u, cost_caps (n + 2) xs (c(n \<mapsto> i, n + 1 \<mapsto> t))) st"
  shows "leads inp (rseq (body_pat n @ [r])) (body_text i t xs @ 41 # u, c) st"
proof -
  let ?vs = "map fst xs"
  have ok: "is_cost i" "is_cost t" "items_ok xs" "map snd BILLING_CACHE_VAR_MAP = ?vs" using assms(1) by (simp_all add: body_ok_def)
  obtain q qs where q: "opt_costs (n + 2) ?vs @ [r] = q # qs" by (cases "opt_costs (n + 2) ?vs") auto
  have tail: "leads inp (rseq (q # qs)) (costs_text xs @ 41 # u, c(n \<mapsto> i, n + 1 \<mapsto> t)) st"
    using leads_costs[OF ok(3) assms(2)] q by simp
  show ?thesis unfolding body_pat_def ok(4) append_assoc q using ok(1,2) tail
    by (auto simp: lit_def jstr_eval body_text_def is_cost_def cost_hd costs_stop intro!: lead_char lead_space lead_cost)
qed

section \<open>Conditions\<close>

text \<open>A condition as the editor writes it: a variable, a comparison and the text of a number.\<close>

type_synonym cond_item_text = "jstr \<times> TierOp \<times> jstr"

fun cond_text :: "cond_item_text \<Rightarrow> jstr" where
  "cond_text (v, q, t) = v @ 32 # op_text q @ 32 # t"

fun cond_ok :: "cond_item_text \<Rightarrow> bool" where
  "cond_ok (v, q, t) \<longleftrightarrow> v \<in> {js ''p'', js ''c'', js ''len''} \<and> t \<noteq> [] \<and> list_all cond_num_char t"

lemma cond_num_codes [simp]: "\<not> cond_num_char 32" "\<not> cond_num_char 61" "\<not> cond_num_char 38"
  by (simp_all add: cond_num_char_def is_digit_def)

lemma cond_num_not_space: "cond_num_char x \<Longrightarrow> \<not> is_space x"
  by (rule digit_not_space) (auto simp: cond_num_char_def num_char_def)

lemma cond_num_hd: "list_all cond_num_char t \<Longrightarrow> t \<noteq> [] \<Longrightarrow> \<not> is_space (hd t)"
  by (cases t) (auto simp: cond_num_not_space)

lemma run_cond_var: "v \<in> {js ''p'', js ''c'', js ''len''} \<Longrightarrow> run inp cond_var (v @ 32 # s, c) = [(32 # s, c)]"
  by (auto simp: cond_var_def lit_def jstr_eval run.simps after_prefix_def)

lemma run_cond_op:
  "run inp cond_op (op_text q @ 32 # s, c) = (if q = OpLe \<or> q = OpGe then [(61 # 32 # s, c)] else []) @ [(32 # s, c)]"
  by (cases q) (simp_all add: cond_op_def lit_def jstr_eval run.simps after_prefix_def)

lemma op_text_hd: "\<not> is_space (hd (op_text q))" "op_text q \<noteq> []"
  by (cases q; simp add: jstr_eval)+

lemma fails_space_class: "(\<And>x. P x \<Longrightarrow> \<not> is_space x) \<Longrightarrow> fails_on is_space (RSeq (RClass P) r)"
  by (intro regex_fail) auto

lemma lead_cond_op:
  assumes "leads inp (RSeq spaces r) (32 # s, c) st" "fails_on (\<lambda>x. x = 61) r" "fails_on is_space r"
  shows "leads inp (RSeq cond_op (RSeq spaces r)) (op_text q @ 32 # s, c) st"
    "leads inp (RSeq spaces r) (32 # s, c(n \<mapsto> op_text q)) st' \<Longrightarrow>
      leads inp (RSeq (RGroup n cond_op) (RSeq spaces r)) (op_text q @ 32 # s, c) st'"
proof -
  have *: "run inp (RSeq spaces r) (61 # 32 # s, d) = []" for d
    using miss_space(2)[OF _ assms(3), of "61 # 32 # s"] fails_onD[OF assms(2)] by simp
  show "leads inp (RSeq cond_op (RSeq spaces r)) (op_text q @ 32 # s, c) st"
    by (rule leads_seq_late[OF run_cond_op _ assms(1)]) (auto simp: * split: if_splits)
  have "run inp (RGroup n cond_op) (op_text q @ 32 # s, c)
      = (if q = OpLe \<or> q = OpGe then [(61 # 32 # s, c(n \<mapsto> [hd (op_text q)]))] else []) @ [(32 # s, c(n \<mapsto> op_text q))]"
    unfolding run.simps(7) run_cond_op by (cases q) (simp_all add: jstr_eval)
  then show "leads inp (RSeq spaces r) (32 # s, c(n \<mapsto> op_text q)) st' \<Longrightarrow>
      leads inp (RSeq (RGroup n cond_op) (RSeq spaces r)) (op_text q @ 32 # s, c) st'"
    by (rule leads_seq_late) (auto simp: * split: if_splits)
qed

lemma cond_num_fails: "fails_on (\<lambda>x. x = 61) (RPlus (RClass cond_num_char))" "fails_on is_space (RPlus (RClass cond_num_char))"
  "fails_on (\<lambda>x. x = 61) (RSeq (RGroup n (RPlus (RClass cond_num_char))) r)"
  "fails_on is_space (RSeq (RGroup n (RPlus (RClass cond_num_char))) r)"
  by (intro regex_fail; auto simp: cond_num_not_space)+

lemma leads_cond_item:
  assumes "cond_ok x" "stops cond_num_char u"
  shows "leads inp (rseq cond_item) (cond_text x @ u, c) (u, c)"
proof -
  obtain v q t where x: "x = (v, q, t)" by (cases x)
  have t: "t \<noteq> []" "list_all cond_num_char t" using assms x by auto
  have "leads inp (RSeq spaces (RPlus (RClass cond_num_char))) (32 # t @ u, c) (u, c)"
    using t assms(2) by (intro lead_space leads_plus_class) (simp_all add: cond_num_hd)
  from lead_cond_op(1)[OF this cond_num_fails(1,2)]
  have "leads inp (RSeq spaces (RSeq cond_op (RSeq spaces (RPlus (RClass cond_num_char))))) (32 # op_text q @ 32 # t @ u, c) (u, c)"
    by (intro lead_space) (simp_all add: op_text_hd)
  moreover have "leads inp cond_var (v @ 32 # op_text q @ 32 # t @ u, c) (32 # op_text q @ 32 # t @ u, c)"
    using assms(1) x by (intro leadsI[OF run_cond_var]) simp
  ultimately show ?thesis unfolding cond_item_def x by (simp add: leads_seq)
qed

lemma read_condition_text:
  assumes "cond_ok (v, q, t)"
  shows "read_condition (cond_text (v, q, t)) = Some \<lparr>tc_var = v, tc_op = q, tc_value = js_number t\<rparr>"
proof -
  let ?s = "cond_text (v, q, t)"
  have t: "t \<noteq> []" "list_all cond_num_char t" using assms by auto
  have "leads ?s (RSeq spaces (RSeq (RGroup 3 (RPlus (RClass cond_num_char))) REnd)) (32 # t @ [], c) ([], c(3 \<mapsto> t))" for c
    using t leads_end[of ?s "c(3 \<mapsto> t)"] by (intro lead_space leads_seq[OF leads_group[OF leads_plus_class]]) (simp_all add: cond_num_hd stops_def)
  from lead_cond_op(2)[OF this cond_num_fails(3,4) this]
  have a: "leads ?s (RSeq spaces (RSeq (RGroup 2 cond_op) (RSeq spaces (RSeq (RGroup 3 (RPlus (RClass cond_num_char))) REnd))))
      (32 # op_text q @ 32 # t, c) ([], c(2 \<mapsto> op_text q, 3 \<mapsto> t))" for c
    by (intro lead_space) (simp_all add: op_text_hd)
  have "leads ?s (RGroup 1 cond_var) (v @ 32 # op_text q @ 32 # t, Map.empty) (32 # op_text q @ 32 # t, [1 \<mapsto> v])"
    using assms by (intro leads_group leadsI[OF run_cond_var]) simp
  from regex_match_leads[OF leads_seq[OF this a, folded cond_text.simps]]
  have m: "regex_match (rseq [RStart, RGroup 1 cond_var, spaces, RGroup 2 cond_op, spaces, RGroup 3 (RPlus (RClass cond_num_char)), REnd]) ?s
      = Some [1 \<mapsto> v, 2 \<mapsto> op_text q, 3 \<mapsto> t]" by simp
  have "trim ?s = ?s" using assms by (intro trim_fixed) (auto simp: jstr_eval list_all_iff cond_num_not_space)
  moreover have "op_of_text (op_text q) = Some q" by (cases q) (simp_all add: op_of_text_def)
  ultimately show ?thesis using m by (simp add: read_condition_def cap_def)
qed

section \<open>Splitting the conditions\<close>

text \<open>The conditions are separated where the source looks for \<open>\s*&&\s*\<close>: no condition contains an ampersand or ends
  with white space.\<close>

definition conds_text :: "cond_item_text list \<Rightarrow> jstr" where
  "conds_text cs = join (js '' && '') (map cond_text cs)"

lemma conds_text_Cons: "conds_text (x # y # cs) = cond_text x @ js '' && '' @ conds_text (y # cs)"
  by (simp add: conds_text_def)

lemma and_sep_here:
  assumes "stops is_space u"
  shows "match_at inp and_sep (js '' && '' @ u) = Some \<lparr>matched_text = js '' && '', match_rest = u, match_caps = Map.empty\<rparr>"
proof (rule match_at_leads)
  have "leads inp spaces (32 # u, Map.empty) (u, Map.empty)" using leads_star_class[of is_space "[32]" u] assms by simp
  from lead_space[OF _ lead_lit[OF this, of "[38, 38]"]]
  show "leads inp and_sep (js '' && '' @ u, Map.empty) (u, Map.empty)" by (simp add: and_sep_def lit_def jstr_eval)
qed

lemma and_sep_run: "run inp and_sep (s, c) = run inp (RSeq (RLit [38, 38]) spaces) (dropWhile is_space s, c)"
proof -
  have "list_all is_space (takeWhile is_space s)" by (auto simp: list_all_iff dest: set_takeWhileD)
  moreover have "stops is_space (dropWhile is_space s)" unfolding stops_def using hd_dropWhile by blast
  ultimately show ?thesis
    using skip_star[of is_space "takeWhile is_space s" "dropWhile is_space s" "RSeq (RLit [38, 38]) spaces" inp c]
    by (simp add: and_sep_def lit_def jstr_eval fails_space_lit)
qed

lemma and_sep_miss:
  assumes "stops (\<lambda>x. x = 38) (dropWhile is_space s)"
  shows "match_at inp and_sep s = None"
proof -
  have "run inp and_sep (s, Map.empty) = []" unfolding and_sep_run using assms
    by (cases "dropWhile is_space s") (auto simp: run.simps after_prefix_def simp del: dropWhile_eq_Nil_conv)
  then show ?thesis by (simp add: match_at_def)
qed

lemma and_sep_not_here:
  assumes "w \<noteq> []" "38 \<notin> set w" "\<not> is_space (last w)"
  shows "match_at inp and_sep (w @ u) = None"
proof (rule and_sep_miss)
  have "last w \<in> set w" using assms(1) by simp
  then have "dropWhile is_space (w @ u) = dropWhile is_space w @ u" "dropWhile is_space w \<noteq> []"
    using assms(3) by (auto simp: dropWhile_append dropWhile_eq_Nil_conv)
  moreover have "hd (dropWhile is_space w) \<in> set w" using calculation(2) by (meson hd_in_set set_dropWhileD)
  ultimately show "stops (\<lambda>x. x = 38) (dropWhile is_space (w @ u))" using assms(2) by auto
qed

lemma and_sep_none: "38 \<notin> set w \<Longrightarrow> exec_from inp and_sep w = None"
proof (induction w)
  case Nil
  show ?case by (simp add: and_sep_miss)
next
  case (Cons x w)
  have "38 \<notin> set (dropWhile is_space (x # w))" using Cons(2) set_dropWhileD by fastforce
  then have "stops (\<lambda>x. x = 38) (dropWhile is_space (x # w))" by (cases "dropWhile is_space (x # w)") auto
  then show ?case using Cons by (simp add: and_sep_miss del: dropWhile.simps)
qed

lemma cond_text_facts:
  assumes "cond_ok x"
  shows "cond_text x \<noteq> []" "38 \<notin> set (cond_text x)" "\<not> is_space (last (cond_text x))" "\<not> is_space (hd (cond_text x))"
    "hd (cond_text x) \<in> {112, 99, 108}"
proof -
  obtain v q t where x: "x = (v, q, t)" by (cases x)
  have "38 \<notin> set t" using assms x by (auto simp: list_all_iff cond_num_char_def is_digit_def)
  then show "cond_text x \<noteq> []" "38 \<notin> set (cond_text x)" "\<not> is_space (last (cond_text x))" "\<not> is_space (hd (cond_text x))"
    "hd (cond_text x) \<in> {112, 99, 108}"
    using assms x by (cases q; auto simp: jstr_eval list_all_iff cond_num_not_space)+
qed

lemma conds_text_hd: "list_all cond_ok cs \<Longrightarrow> cs \<noteq> [] \<Longrightarrow> conds_text cs \<noteq> [] \<and> hd (conds_text cs) \<in> {112, 99, 108}"
  using cond_text_facts[of "hd cs"] by (cases cs; cases "tl cs") (auto simp: conds_text_def)

lemma split_and_conds: "list_all cond_ok cs \<Longrightarrow> cs \<noteq> [] \<Longrightarrow> split_and (conds_text cs) = map cond_text cs"
proof (induction cs rule: induct_list012)
  case (2 x)
  then show ?case using and_sep_none[OF cond_text_facts(2)] by (subst split_and.simps) (simp add: conds_text_def)
next
  case (3 x y cs)
  let ?u = "conds_text (y # cs)" and ?s = "conds_text (x # y # cs)"
  have "stops is_space ?u" using conds_text_hd[of "y # cs"] 3(3) by (auto simp: stops_def)
  from and_sep_here[OF this] have here: "exec_from ?s and_sep (js '' && '' @ ?u) = Some \<lparr>matched_text = js '' && '', match_rest = ?u, match_caps = Map.empty\<rparr>"
    by (intro exec_from_here) auto
  have "exec_from ?s and_sep (cond_text x @ js '' && '' @ ?u) = exec_from ?s and_sep (js '' && '' @ ?u)"
    by (rule exec_from_skip, rule and_sep_not_here) (use cond_text_facts[of x] 3(3) in \<open>auto\<close>)
  then have "exec_from ?s and_sep ?s = Some \<lparr>matched_text = js '' && '', match_rest = ?u, match_caps = Map.empty\<rparr>"
    using here by (simp only: conds_text_Cons)
  moreover have "split_and ?u = map cond_text (y # cs)" using 3 by simp
  ultimately show ?case by (subst split_and.simps) (simp add: conds_text_Cons jstr_eval)
qed simp

definition read_cond_item :: "cond_item_text \<Rightarrow> TierCondition" where
  "read_cond_item x = (case x of (v, q, t) \<Rightarrow> \<lparr>tc_var = v, tc_op = q, tc_value = js_number t\<rparr>)"

lemma read_conditions_text: "list_all cond_ok cs \<Longrightarrow> read_conditions (conds_text cs) = map read_cond_item cs"
proof (cases "cs = []")
  case False
  assume ok: "list_all cond_ok cs"
  have "read_condition (cond_text x) = Some (read_cond_item x)" if "x \<in> set cs" for x
    using ok that read_condition_text by (cases x) (auto simp: list_all_iff read_cond_item_def simp del: cond_ok.simps cond_text.simps)
  then have "List.map_filter read_condition (map cond_text cs) = map read_cond_item cs"
    by (induction cs) (auto simp: List.map_filter_def)
  then show ?thesis using split_and_conds[OF ok False] conds_text_hd[OF ok False] by (simp add: read_conditions_def)
qed (simp add: read_conditions_def conds_text_def)

section \<open>The call of a tier\<close>

lemma leads_more_conds:
  "list_all cond_ok cs \<Longrightarrow> leads inp (RStar (rseq ([spaces, lit ''&&'', spaces] @ cond_item)))
     (concat (map (\<lambda>x. js '' && '' @ cond_text x) cs) @ 32 # 63 # u, c) (32 # 63 # u, c)"
proof (induction cs)
  case Nil
  have "run inp (RSeq spaces (RSeq (RLit [38, 38]) r)) (32 # 63 # u, c) = []" for r
    using miss_space(1)[of "63 # u" "RSeq (RLit [38, 38]) r"] by (simp add: fails_space_lit run.simps(3) run.simps(1) after_prefix_def)
  then show ?case by (simp add: leads_star_stop lit_def jstr_eval cond_item_def)
next
  case (Cons x cs)
  let ?u = "concat (map (\<lambda>x. js '' && '' @ cond_text x) cs) @ 32 # 63 # u"
  have "stops cond_num_char ?u" by (cases cs) (simp_all add: jstr_eval)
  then have "leads inp (rseq cond_item) (cond_text x @ ?u, c) (?u, c)" using Cons(2) by (intro leads_cond_item) simp_all
  from lead_space[OF _ lead_lit[OF lead_space[OF _ this], of "[38, 38]"]] cond_text_facts[of x] Cons(2)
  have "leads inp (rseq ([spaces, lit ''&&'', spaces] @ cond_item)) (js '' && '' @ cond_text x @ ?u, c) (?u, c)"
    by (simp add: lit_def jstr_eval cond_item_def)
  from leads_star_step[OF this _ Cons.IH] Cons(2) show ?case by (simp add: jstr_eval)
qed

lemma conds_text_concat: "conds_text (x # cs) = cond_text x @ concat (map (\<lambda>x. js '' && '' @ cond_text x) cs)"
  by (induction cs arbitrary: x) (simp_all add: conds_text_def)

lemma leads_cond_group:
  assumes "list_all cond_ok cs" "cs \<noteq> []"
  shows "leads inp cond_group (conds_text cs @ 32 # 63 # u, c) (32 # 63 # u, c(1 \<mapsto> conds_text cs))"
proof -
  obtain x xs where cs: "cs = x # xs" using assms(2) by (cases cs) auto
  let ?u = "concat (map (\<lambda>x. js '' && '' @ cond_text x) xs) @ 32 # 63 # u"
  have "stops cond_num_char ?u" by (cases xs) (simp_all add: jstr_eval)
  then have "leads inp (rseq cond_item) (cond_text x @ ?u, c) (?u, c)" using assms cs by (intro leads_cond_item) simp_all
  from leads_seq[OF this leads_more_conds] assms(1) cs
  show ?thesis unfolding cond_group_def by (intro leads_group) (simp add: conds_text_concat)
qed

text \<open>A tier of a written expression: its conditions, its label and its body.\<close>

definition call_text :: "jstr \<Rightarrow> jstr \<Rightarrow> jstr" where
  \<open>call_text label body = js ''tier("'' @ label @ js ''", '' @ body @ [41]\<close>

definition guarded_text :: "cond_item_text list \<Rightarrow> jstr \<Rightarrow> jstr" where
  "guarded_text cs call = (if cs = [] then call else conds_text cs @ js '' ? '' @ call)"

definition guard_caps :: "cond_item_text list \<Rightarrow> captures" where
  "guard_caps cs = (if cs = [] then Map.empty else [1 \<mapsto> conds_text cs])"

abbreviation head_pat :: regex where
  "head_pat \<equiv> ROpt (rseq [cond_group, spaces, lit ''?'', spaces])"

lemma cond_group_fails: "(\<And>x. P x \<Longrightarrow> x \<notin> {112, 99, 108}) \<Longrightarrow> fails_on P (RSeq cond_group r)"
  unfolding cond_group_def cond_item_def cond_var_def rseq.simps ralt.simps lit_def by (intro regex_fail) (auto simp: jstr_eval)

lemma leads_head:
  assumes "list_all cond_ok cs"
  shows "leads inp head_pat (guarded_text cs (call_text label body @ u), Map.empty) (call_text label body @ u, guard_caps cs)"
proof (cases "cs = []")
  case True
  have "run inp (rseq [cond_group, spaces, lit ''?'', spaces]) (116 # s, Map.empty) = []" for s
    using fails_onD[OF cond_group_fails, of "\<lambda>x. x = 116"] by simp
  then have "leads inp head_pat (116 # s, Map.empty) (116 # s, Map.empty)" for s by (rule leads_opt_skip)
  then show ?thesis using True by (simp add: guarded_text_def guard_caps_def call_text_def jstr_eval)
next
  case False
  let ?v = "call_text label body @ u"
  have st: "stops is_space ?v" by (simp add: call_text_def jstr_eval)
  then have "leads inp spaces (32 # ?v, c) (?v, c)" for c using leads_star_class[of is_space "[32]" ?v] by simp
  from leads_seq[OF leads_cond_group[OF assms False] lead_space[OF _ lead_char[OF this]]]
  have "leads inp (rseq [cond_group, spaces, lit ''?'', spaces]) (conds_text cs @ 32 # 63 # 32 # ?v, Map.empty) (?v, [1 \<mapsto> conds_text cs])"
    by (simp add: lit_def jstr_eval)
  then show ?thesis using False by (auto simp: guarded_text_def guard_caps_def jstr_eval intro: leads_opt)
qed

lemma lead_call:
  assumes "34 \<notin> set label" "stops is_space (body @ 41 # u)" "leads inp r (body @ 41 # u, c(n \<mapsto> label)) st"
  shows \<open>leads inp (RSeq (lit ''tier("'') (RSeq (RGroup n (RStar (RClass (\<lambda>x. x \<noteq> 34)))) (RSeq (lit ''",'') (RSeq spaces r))))
    (call_text label body @ u, c) st\<close>
proof -
  have a: \<open>js ''", '' = js ''",'' @ [32]\<close> by (simp add: jstr_eval)
  let ?u = "body @ 41 # u"
  have "list_all (\<lambda>x. x \<noteq> 34) label" using assms(1) by (auto simp: list_all_iff)
  then have "leads inp (RGroup n (RStar (RClass (\<lambda>x. x \<noteq> 34)))) (label @ 34 # 44 # 32 # ?u, c) (34 # 44 # 32 # ?u, c(n \<mapsto> label))"
    by (intro leads_group leads_star_class) simp_all
  moreover have "leads inp (RSeq (RLit [34, 44]) (RSeq spaces r)) ([34, 44] @ 32 # ?u, c(n \<mapsto> label)) st"
    using assms by (intro lead_lit lead_space)
  ultimately have "leads inp (RSeq (RGroup n (RStar (RClass (\<lambda>x. x \<noteq> 34)))) (RSeq (RLit [34, 44]) (RSeq spaces r)))
      (label @ 34 # 44 # 32 # ?u, c) st" by (auto intro: leads_seq)
  from lead_lit[OF this, of "[116, 105, 101, 114, 40, 34]"] show ?thesis unfolding lit_def a call_text_def by (simp add: jstr_eval)
qed

type_synonym tier_parts = "cond_item_text list \<times> jstr \<times> jstr \<times> jstr \<times> cost_item list"

fun tier_text :: "tier_parts \<Rightarrow> jstr" where
  "tier_text (cs, label, i, t, xs) = guarded_text cs (call_text label (body_text i t xs))"

fun tier_ok :: "tier_parts \<Rightarrow> bool" where
  "tier_ok (cs, label, i, t, xs) \<longleftrightarrow> list_all cond_ok cs \<and> 34 \<notin> set label \<and> body_ok i t xs"

lemma guarded_text_append: "guarded_text cs call @ u = guarded_text cs (call @ u)"
  by (simp add: guarded_text_def)

lemma leads_close: "leads inp (lit '')'') (41 # u, c) (u, c)"
  using leads_lit[of inp "[41]" u c] by (simp add: lit_def jstr_eval)

lemma body_text_hd: "stops is_space (body_text i t xs @ u)"
  by (simp add: body_text_def jstr_eval)

lemma body_pat_Cons: obtains q qs where "body_pat n @ [r] = q # qs" "body_pat n @ [r, r'] = q # qs @ [r']"
  by (simp add: body_pat_def)

text \<open>The pattern of the editor captures the conditions, the label and every cost.\<close>

fun visual_caps :: "tier_parts \<Rightarrow> captures" where
  "visual_caps (cs, label, i, t, xs) = cost_caps 5 xs ((guard_caps cs)(2 \<mapsto> label, 3 \<mapsto> i, 4 \<mapsto> t))"

lemma leads_visual_tier:
  assumes "tier_ok (cs, label, i, t, xs)"
  shows "leads inp visual_tier_re (tier_text (cs, label, i, t, xs) @ u, Map.empty) (u, visual_caps (cs, label, i, t, xs))"
proof -
  have ok: "list_all cond_ok cs" "34 \<notin> set label" "body_ok i t xs" using assms by auto
  let ?r = "rseq (body_pat 3 @ [lit '')''])"
  have "leads inp ?r (body_text i t xs @ 41 # u, (guard_caps cs)(2 \<mapsto> label)) (u, visual_caps (cs, label, i, t, xs))"
    using leads_body[OF ok(3) leads_close, where inp = inp and n = 3 and c = "(guard_caps cs)(2 \<mapsto> label)" and u = u] by simp
  from leads_seq[OF leads_head[OF ok(1)] lead_call[OF ok(2) body_text_hd this]]
  show ?thesis unfolding visual_tier_re_def tier_head_def
    by (cases rule: body_pat_Cons[of 3 "lit '')''"]) (simp add: guarded_text_append call_text_def)
qed

text \<open>The pattern of the price list captures the body as a whole.\<close>

fun price_caps :: "tier_parts \<Rightarrow> captures" where
  "price_caps (cs, label, i, t, xs) = (guard_caps cs)(2 \<mapsto> label, 3 \<mapsto> body_text i t xs)"

lemma cost_closed: "k \<in> {40, 41} \<Longrightarrow> is_cost t \<Longrightarrow> k \<notin> set t" "k \<in> {40, 41} \<Longrightarrow> var_name t \<Longrightarrow> k \<notin> set t"
  by (auto simp: is_cost_def var_name_def list_all_iff is_word_def is_digit_def num_char_def)

lemma costs_closed: "k \<in> {40, 41} \<Longrightarrow> items_ok xs \<Longrightarrow> k \<notin> set (costs_text xs)"
proof (induction xs)
  case (Cons x xs)
  then show ?case
    by (cases x rule: cost_text.cases) (auto simp: costs_text_def items_ok_def jstr_eval cost_closed)
qed (simp add: costs_text_def)

text \<open>A body contains no brackets.\<close>

lemma body_text_closed: "k \<in> {40, 41} \<Longrightarrow> body_ok i t xs \<Longrightarrow> k \<notin> set (body_text i t xs)"
  by (auto simp: body_ok_def body_text_def jstr_eval cost_closed costs_closed)

lemma leads_price_tier:
  assumes "tier_ok (cs, label, i, t, xs)"
  shows "leads inp tier_re (tier_text (cs, label, i, t, xs) @ u, Map.empty) (u, price_caps (cs, label, i, t, xs))"
proof -
  have ok: "list_all cond_ok cs" "34 \<notin> set label" "body_ok i t xs" using assms by auto
  let ?b = "body_text i t xs" and ?c = "(guard_caps cs)(2 \<mapsto> label)"
  have "leads inp (RGroup 3 (RPlus (RClass (\<lambda>x. x \<noteq> 41)))) (?b @ 41 # u, ?c) (41 # u, ?c(3 \<mapsto> ?b))"
    using body_text_closed[OF _ ok(3), of 41] by (intro leads_group leads_plus_class) (auto simp: list_all_iff body_text_def jstr_eval)
  from leads_seq[OF leads_head[OF ok(1)] lead_call[OF ok(2) body_text_hd leads_seq[OF this leads_close]]]
  show ?thesis unfolding tier_re_def tier_head_def by (simp add: guarded_text_append call_text_def)
qed

section \<open>All tiers of an expression\<close>

text \<open>What the price list and the editor have in common: a pattern that begins with optional conditions and the
  name \<open>tier\<close>, and that matches a written tier as a whole.  Such a pattern finds the tiers of an expression
  one after the other and nothing else.\<close>

lemma no_cond_in_product:
  assumes "x \<in> {112, 99}"
  shows "run inp (rseq [cond_group, spaces, lit ''?'', spaces]) (x # 32 # 42 # s, c) = []"
proof -
  have v: "run inp cond_var (x # 32 # 42 # s, c) = [(32 # 42 # s, c)]"
    using assms run_cond_var[of "[x]" inp "42 # s" c] by (auto simp: jstr_eval)
  have "run inp (RSeq spaces (RSeq cond_op r)) (32 # 42 # s, c) = run inp (RSeq cond_op r) (42 # s, c)" for r
    by (intro miss_space(1)) (auto simp: cond_op_def lit_def jstr_eval intro!: regex_fail)
  then have "run inp (rseq cond_item) (x # 32 # 42 # s, c) = []"
    using v by (simp add: cond_item_def run.simps(3)[of _ cond_var]) (simp add: cond_op_def lit_def jstr_eval run.simps(1,3,4) after_prefix_def)
  then show ?thesis by (simp add: cond_group_def run.simps(3,7))
qed

locale tier_pattern =
  fixes re r :: regex and caps :: "tier_parts \<Rightarrow> captures"
  assumes shape: \<open>re = RSeq head_pat (RSeq (lit ''tier("'') r)\<close>
    and hit: "tier_ok w \<Longrightarrow> leads inp re (tier_text w @ u, Map.empty) (u, caps w)"
begin

lemma miss:
  assumes "run inp (rseq [cond_group, spaces, lit ''?'', spaces]) (s, c) = []" "s = [] \<or> hd s \<noteq> 116"
  shows "run inp re (s, c) = []"
proof -
  have "run inp head_pat (s, c) = [(s, c)]" using assms(1) by (simp add: run.simps(6))
  then show ?thesis unfolding shape using assms(2) by (cases s) (simp_all add: run.simps(1,3) lit_def jstr_eval after_prefix_def)
qed

lemma no_tier_at:
  assumes "s = [] \<or> hd s \<notin> {112, 99, 108, 116}"
  shows "match_at inp re s = None"
proof -
  have "run inp (rseq [cond_group, spaces, lit ''?'', spaces]) (s, Map.empty) = []"
  proof (cases s)
    case Nil
    then show ?thesis by (simp add: run.simps cond_group_def cond_item_def cond_var_def lit_def jstr_eval after_prefix_def)
  next
    case (Cons x t)
    then show ?thesis using assms fails_onD[OF cond_group_fails, of "\<lambda>y. y = x"] by auto
  qed
  from miss[OF this] assms show ?thesis by (auto simp: match_at_def)
qed

lemma found: "tier_ok w \<Longrightarrow> exec_from inp re (tier_text w @ u) = Some \<lparr>matched_text = tier_text w, match_rest = u, match_caps = caps w\<rparr>"
  by (intro exec_from_here match_at_leads hit)

lemma found_later: "exec_from inp re (js '' : '' @ u) = exec_from inp re u"
proof (rule exec_from_skip, rule no_tier_at)
  fix v w assume "js '' : '' = v @ w" "w \<noteq> []"
  then have "hd w \<in> set (js '' : '')" by (metis Un_iff hd_in_set set_append)
  then have "hd w \<in> {32, 58}" by (auto simp: jstr_eval)
  then show "w @ u = [] \<or> hd (w @ u) \<notin> {112, 99, 108, 116}" using \<open>w \<noteq> []\<close> by auto
qed

lemma tier_text_long: "tier_text w \<noteq> []"
  by (cases w) (auto simp: guarded_text_def call_text_def jstr_eval)

lemma match_all_tier:
  assumes "tier_ok w"
  shows "match_all inp re (tier_text w @ u) = \<lparr>matched_text = tier_text w, match_rest = u, match_caps = caps w\<rparr> # match_all inp re u"
    "match_all inp re (js '' : '' @ tier_text w @ u) = \<lparr>matched_text = tier_text w, match_rest = u, match_caps = caps w\<rparr> # match_all inp re u"
  using match_all_hit[OF found[OF assms]] match_all_hit[OF found_later[THEN trans, OF found[OF assms]]] tier_text_long[of w] by auto

lemma no_tier_in_product: "x \<in> {112, 99} \<Longrightarrow> match_at inp re (x # 32 # 42 # s) = None"
  using miss[OF no_cond_in_product[of x inp s Map.empty]] by (auto simp: match_at_def)

lemma no_tier_in_default: "match_all inp re (js '' : p * 0 + c * 0'') = []"
  by (intro match_all_miss) (simp add: jstr_eval no_tier_at no_tier_in_product)

lemma match_all_end: "match_all inp re [] = []"
  by (intro match_all_miss) (simp add: no_tier_at)

text \<open>The captures of the tiers of a written choice.\<close>

lemma tiers_found:
  "list_all tier_ok ws \<Longrightarrow> ws \<noteq> [] \<Longrightarrow> match_all inp re u = [] \<Longrightarrow>
     map match_caps (match_all inp re (join (js '' : '') (map tier_text ws) @ u)) = map caps ws"
proof (induction ws rule: induct_list012)
  case (3 v w ws)
  have "map match_caps (match_all inp re (js '' : '' @ join (js '' : '') (map tier_text (w # ws)) @ u)) = map caps (w # ws)"
  proof (cases ws)
    case Nil
    then show ?thesis using 3 match_all_tier(2)[of w inp u] by simp
  next
    case (Cons x xs)
    then show ?thesis using 3 match_all_tier[of w inp] by simp
  qed
  then show ?case using 3 match_all_tier(1)[of v inp] by simp
qed (simp_all add: match_all_tier)

end

lemma tier_re_shape:
  \<open>visual_tier_re = RSeq head_pat (RSeq (lit ''tier("'') (RSeq (RGroup 2 (RStar (RClass (\<lambda>x. x \<noteq> 34)))) (RSeq (lit ''",'') (RSeq spaces (rseq (body_pat 3 @ [lit '')'']))))))\<close>
  unfolding visual_tier_re_def tier_head_def by (cases rule: body_pat_Cons[of 3 "lit '')''"]) simp

interpretation editor: tier_pattern visual_tier_re
  \<open>RSeq (RGroup 2 (RStar (RClass (\<lambda>x. x \<noteq> 34)))) (RSeq (lit ''",'') (RSeq spaces (rseq (body_pat 3 @ [lit '')'']))))\<close> visual_caps
proof
  show "tier_ok w \<Longrightarrow> leads inp visual_tier_re (tier_text w @ u, Map.empty) (u, visual_caps w)" for w inp u
    by (cases w) (simp only: leads_visual_tier)
qed (rule tier_re_shape)

interpretation price_list: tier_pattern tier_re
  \<open>RSeq (RGroup 2 (RStar (RClass (\<lambda>x. x \<noteq> 34)))) (RSeq (lit ''",'') (RSeq spaces (RSeq (RGroup 3 (RPlus (RClass (\<lambda>x. x \<noteq> 41)))) (lit '')''))))\<close> price_caps
proof
  show "tier_ok w \<Longrightarrow> leads inp tier_re (tier_text w @ u, Map.empty) (u, price_caps w)" for w inp u
    by (cases w) (simp only: leads_price_tier)
qed (simp add: tier_re_def tier_head_def)

section \<open>An expression that is one tier\<close>

lemma rseq_pair: "xs \<noteq> [] \<Longrightarrow> rseq (xs @ [a, b]) = rseq (xs @ [RSeq a b])"
proof (induction xs rule: induct_list012)
  case (3 x y xs)
  then show ?case by simp
qed simp_all

lemma concat_map_concat: "concat (map f (concat xss)) = concat (map (\<lambda>xs. concat (map f xs)) xss)"
  by (induction xss) simp_all

lemma run_rseq_append: "xs \<noteq> [] \<Longrightarrow> ys \<noteq> [] \<Longrightarrow> run inp (rseq (xs @ ys)) st = concat (map (run inp (rseq ys)) (run inp (rseq xs) st))"
proof (induction xs arbitrary: st rule: induct_list012)
  case (2 x)
  then show ?case by (cases ys) (simp_all add: run.simps(3))
next
  case (3 x y xs)
  have "run inp (rseq ((x # y # xs) @ ys)) st = concat (map (run inp (rseq ((y # xs) @ ys))) (run inp x st))"
    by (simp add: run.simps(3))
  also have "\<dots> = concat (map (\<lambda>t. concat (map (run inp (rseq ys)) (run inp (rseq (y # xs)) t))) (run inp x st))"
    using 3(2)[OF _ 3(4)] by (intro arg_cong[where f = concat] map_cong) simp_all
  also have "\<dots> = concat (map (run inp (rseq ys)) (run inp (rseq (x # y # xs)) st))"
    by (simp add: run.simps(3) concat_map_concat comp_def)
  finally show ?case .
qed simp

lemma single_re_shape:
  \<open>single_re = RSeq RStart (RSeq (lit ''tier("'') (RSeq (RGroup 1 (RStar (RClass (\<lambda>x. x \<noteq> 34)))) (RSeq (lit ''",'')
     (RSeq spaces (rseq (body_pat 2 @ [RSeq (lit '')'') REnd]))))))\<close>
proof -
  have "body_pat 2 \<noteq> []" by (simp add: body_pat_def)
  moreover obtain q qs where "body_pat 2 @ [lit '')'', REnd] = q # qs" by (simp add: body_pat_def)
  ultimately show ?thesis using rseq_pair[of "body_pat 2" "lit '')''" REnd] by (simp add: single_re_def)
qed

fun single_caps :: "tier_parts \<Rightarrow> captures" where
  "single_caps (cs, label, i, t, xs) = cost_caps 4 xs [1 \<mapsto> label, 2 \<mapsto> i, 3 \<mapsto> t]"

lemma single_hit:
  assumes "tier_ok ([], label, i, t, xs)"
  shows "regex_match single_re (tier_text ([], label, i, t, xs)) = Some (single_caps ([], label, i, t, xs))"
proof -
  have ok: "34 \<notin> set label" "body_ok i t xs" using assms by auto
  let ?s = "tier_text ([], label, i, t, xs)" and ?c = "single_caps ([], label, i, t, xs)"
  have "leads ?s (rseq (body_pat 2 @ [RSeq (lit '')'') REnd])) (body_text i t xs @ 41 # [], [1 \<mapsto> label]) ([], ?c)"
    by (rule leads_body[OF ok(2)]) (use leads_seq[OF leads_close leads_end, of ?s ?c] in simp)
  from lead_call[OF ok(1) body_text_hd this]
  show ?thesis unfolding single_re_shape by (intro regex_match_leads) (simp add: guarded_text_def)
qed

lemma after_call:
  assumes "34 \<notin> set label"
  shows \<open>run inp (RSeq (lit ''tier("'') (RSeq (RGroup n (RStar (RClass (\<lambda>x. x \<noteq> 34)))) (RSeq (lit ''",'') r))) (call_text label body @ u, c)
    = run inp r (32 # body @ 41 # u, c(n \<mapsto> label))\<close>
proof -
  have lab: "list_all (\<lambda>x. x \<noteq> 34) label" using assms by (auto simp: list_all_iff)
  have "fails_on (\<lambda>x. x \<noteq> 34) (RSeq (RLit [34, 44]) r)" by (intro regex_fail) auto
  from cap_star[OF lab _ this, of "34 # 44 # 32 # body @ 41 # u" inp n c]
  show ?thesis using run_lit_hit[of inp "[116, 105, 101, 114, 40, 34]"] run_lit_hit[of inp "[34, 44]"]
    by (simp add: lit_def jstr_eval call_text_def)
qed

lemma body_pat_chars: "chars_in (\<lambda>x. x \<noteq> 41) (rseq (spaces # body_pat 2))"
  by (auto simp: body_pat_def BILLING_CACHE_VAR_MAP_def BILLING_EXTRA_VARS_def BILLING_VARS_def price_var_def cost_group_def lit_def
      jstr_eval num_char_def is_digit_def is_space_def js_spaces_def)

lemma closes_early:
  assumes "41 \<notin> set b" "z \<noteq> []" "chars_in (\<lambda>x. x \<noteq> 41) r"
  shows "concat (map (run inp (RSeq (RLit [41]) REnd)) (run inp r (b @ 41 # z, c))) = []"
proof -
  have "run inp (RSeq (RLit [41]) REnd) t = []" if t: "t \<in> set (run inp r (b @ 41 # z, c))" for t
  proof (cases "fst t = [] \<or> hd (fst t) \<noteq> 41")
    case True
    then show ?thesis by (cases t; cases "fst t") (auto simp: run.simps(1,3) after_prefix_def)
  next
    case False
    then obtain y d where y: "t = (41 # y, d)" by (cases t; cases "fst t") auto
    obtain m where m: "b @ 41 # z = m @ 41 # y" "list_all (\<lambda>x. x \<noteq> 41) m" using run_consumes[OF assms(3) t] y by auto
    then have "41 \<notin> set m" by (auto simp: list_all_iff)
    with m(1) assms(1) have "y = z" by (auto dest: append_sep_inj[rotated 2])
    then show ?thesis using y assms(2) by (simp add: run.simps(1,3,10) after_prefix_def)
  qed
  then show ?thesis by (simp add: concat_eq_Nil_conv)
qed

lemma single_miss_tail:
  assumes "34 \<notin> set label" "41 \<notin> set b" "z \<noteq> []"
  shows "regex_match single_re (call_text label b @ z) = None"
proof -
  let ?s = "call_text label b @ z"
  have q: "rseq (spaces # body_pat 2 @ [RSeq (RLit [41]) REnd]) = RSeq spaces (rseq (body_pat 2 @ [RSeq (RLit [41]) REnd]))"
    by (simp add: body_pat_def)
  have "run ?s (RSeq spaces (rseq (body_pat 2 @ [RSeq (RLit [41]) REnd]))) (32 # b @ 41 # z, [1 \<mapsto> label]) = []"
    unfolding q[symmetric] using run_rseq_append[of "spaces # body_pat 2" "[RSeq (RLit [41]) REnd]" ?s]
      closes_early[OF _ assms(3) body_pat_chars, of "32 # b"] assms(2) by simp
  then show ?thesis unfolding single_re_shape
    by (intro regex_match_miss) (simp add: after_call[OF assms(1)], simp add: lit_def jstr_eval)
qed

lemma single_miss_guard: "s \<noteq> [] \<Longrightarrow> hd s \<noteq> 116 \<Longrightarrow> regex_match single_re s = None"
  unfolding single_re_shape by (intro regex_match_miss, cases s) (simp_all add: run.simps(1,3) lit_def jstr_eval after_prefix_def)

lemma no_version: "s = [] \<or> hd s \<noteq> 118 \<Longrightarrow> strip_version s = s" "s = [] \<or> hd s \<noteq> 118 \<Longrightarrow> snd (stripExprVersion s) = s"
proof -
  have *: "regex_match (RSeq RStart (RSeq (RLit [118]) r)) s = None" if "s = [] \<or> hd s \<noteq> 118" for r
    using that by (intro regex_match_miss, cases s) (auto simp: run.simps(1,3) after_prefix_def)
  show "s = [] \<or> hd s \<noteq> 118 \<Longrightarrow> strip_version s = s" "s = [] \<or> hd s \<noteq> 118 \<Longrightarrow> snd (stripExprVersion s) = s"
    by (auto simp: strip_version_def stripExprVersion_def * lit_def jstr_eval)
qed

end
