(* ===== verification/Tier_Roundtrip.thy ===== *)
theory Tier_Roundtrip
  imports Tier_Texts
begin

text \<open>
  The price editor reads back what it writes.  \<open>read_back\<close> says what becomes of a configuration: a tier
  without a label gets the one that was written for it, the conditions of the last of several tiers are
  dropped, costs that are no numbers count as 0 and the cache mode follows from the costs.
\<close>

section \<open>What is written for a tier\<close>

definition kept_conditions :: "VisualTier \<Rightarrow> TierConditionInput list" where
  "kept_conditions t = filter (\<lambda>c. ci_var c \<noteq> [] \<and> ci_value c \<noteq> CondText []) (vt_conditions t)"

definition cond_parts :: "(jnum \<Rightarrow> jstr) \<Rightarrow> TierConditionInput \<Rightarrow> cond_item_text" where
  "cond_parts numText c = (ci_var c, ci_op c, cond_value_text numText (ci_value c))"

definition cost_items :: "(jnum \<Rightarrow> jstr) \<Rightarrow> VisualTier \<Rightarrow> cost_item list" where
  "cost_items numText t = map (\<lambda>(f, v). (v, if num_or_zero (vt_extra t f) = Fin 0 then None else Some (numText (num_or_zero (vt_extra t f)))))
     BILLING_CACHE_VAR_MAP"

definition written_label :: "nat \<Rightarrow> nat \<times> VisualTier \<Rightarrow> jstr" where
  "written_label n it = (case it of (i, t) \<Rightarrow>
     if vt_label t \<noteq> [] then vt_label t else if n = 1 then js ''default'' else js ''tier_'' @ show_nat (i + 1))"

definition written_conditions :: "nat \<Rightarrow> nat \<times> VisualTier \<Rightarrow> TierConditionInput list" where
  "written_conditions n it = (case it of (i, t) \<Rightarrow> if n = 1 \<or> i + 1 < n then kept_conditions t else [])"

definition tier_parts :: "(jnum \<Rightarrow> jstr) \<Rightarrow> nat \<Rightarrow> nat \<times> VisualTier \<Rightarrow> tier_parts" where
  "tier_parts numText n it =
     (map (cond_parts numText) (written_conditions n it), written_label n it, numText (num_or_zero (vt_input (snd it))),
      numText (num_or_zero (vt_output (snd it))), cost_items numText (snd it))"

lemma join_concat_map: "join sep (x # ws) = x @ concat (map (\<lambda>w. sep @ w) ws)"
  by (induction ws arbitrary: x) simp_all

lemma buildTierBodyExpr_text:
  "buildTierBodyExpr numText t = body_text (numText (num_or_zero (vt_input t))) (numText (num_or_zero (vt_output t))) (cost_items numText t)"
proof -
  have "concat (map (\<lambda>w. js '' + '' @ w) (List.map_filter (\<lambda>(field, exprVar).
      let v = num_or_zero (vt_extra t field) in if v = Fin 0 then None else Some (exprVar @ js '' * '' @ numText v)) m))
    = concat (map cost_text (map (\<lambda>(f, v). (v, if num_or_zero (vt_extra t f) = Fin 0 then None else Some (numText (num_or_zero (vt_extra t f))))) m))" for m
    by (induction m) (auto simp: List.map_filter_simps Let_def split: if_splits)
  then show ?thesis unfolding buildTierBodyExpr_def append_Cons append_Nil join_concat_map
    by (simp add: body_text_def costs_text_def cost_items_def) (simp add: jstr_eval)
qed

lemma buildConditionStr_text: "buildConditionStr numText (vt_conditions t) = conds_text (map (cond_parts numText) (kept_conditions t))"
  by (simp add: buildConditionStr_def conds_text_def kept_conditions_def cond_parts_def comp_def jstr_eval)

lemma cond_text_nonempty: "cond_text x \<noteq> []"
  by (cases x) auto

lemma conds_text_eq_Nil: "conds_text cs = [] \<longleftrightarrow> cs = []"
  by (cases cs) (simp_all add: conds_text_concat cond_text_nonempty, simp add: conds_text_def)

lemma tier_call_text: "tier_call numText l t = call_text l (body_text (numText (num_or_zero (vt_input t))) (numText (num_or_zero (vt_output t))) (cost_items numText t))"
  by (simp add: tier_call_def call_text_def buildTierBodyExpr_text jstr_eval)

definition written_tiers :: "(jnum \<Rightarrow> jstr) \<Rightarrow> VisualTier list \<Rightarrow> tier_parts list" where
  "written_tiers numText tiers = map (tier_parts numText (length tiers)) (enumerate 0 tiers)"

definition written_tail :: "VisualTier list \<Rightarrow> jstr" where
  "written_tail tiers = (if length tiers = 1 \<and> kept_conditions (hd tiers) \<noteq> [] then js '' : p * 0 + c * 0'' else [])"

lemma generate_text:
  assumes "tiers \<noteq> []"
  shows "generateExprFromVisualConfig numText tiers = join (js '' : '') (map tier_text (written_tiers numText tiers)) @ written_tail tiers"
proof -
  have part: "tier_part numText n it = tier_text (tier_parts numText n it)" if "n \<noteq> 1" for n it
    using that by (cases it) (auto simp: tier_part_def tier_parts_def tier_call_text buildConditionStr_text conds_text_eq_Nil guarded_text_def
        written_label_def written_conditions_def Let_def)
  obtain t ts where t: "tiers = t # ts" using assms by (cases tiers) auto
  show ?thesis
  proof (cases ts)
    case Nil
    then show ?thesis using t by (auto simp: generateExprFromVisualConfig_def written_tiers_def written_tail_def tier_parts_def tier_call_text
        buildConditionStr_text conds_text_eq_Nil guarded_text_def written_label_def written_conditions_def Let_def)
  next
    case (Cons u us)
    then have "map (tier_part numText (length tiers)) (enumerate 0 tiers) = map tier_text (written_tiers numText tiers)"
      using t by (simp only: written_tiers_def map_map comp_def) (simp add: part)
    then show ?thesis using t Cons by (simp add: generateExprFromVisualConfig_def written_tail_def del: enumerate_simps)
  qed
qed

section \<open>What is read back\<close>

text \<open>A number the editor can write: its text consists of characters of a number and reads as the number.\<close>

definition readable :: "(jnum \<Rightarrow> jstr) \<Rightarrow> jnum \<Rightarrow> bool" where
  "readable numText n \<longleftrightarrow> is_cost (numText n) \<and> js_number (numText n) = n"

definition condition_readable :: "(jnum \<Rightarrow> jstr) \<Rightarrow> TierConditionInput \<Rightarrow> bool" where
  "condition_readable numText c \<longleftrightarrow> cond_ok (cond_parts numText c) \<and>
     numText (js_number (cond_value_text numText (ci_value c))) = cond_value_text numText (ci_value c)"

definition tier_readable :: "(jnum \<Rightarrow> jstr) \<Rightarrow> VisualTier \<Rightarrow> bool" where
  "tier_readable numText t \<longleftrightarrow> 34 \<notin> set (vt_label t) \<and> readable numText (num_or_zero (vt_input t)) \<and> readable numText (num_or_zero (vt_output t))
     \<and> list_all (\<lambda>(f, v). num_or_zero (vt_extra t f) = Fin 0 \<or> readable numText (num_or_zero (vt_extra t f))) BILLING_CACHE_VAR_MAP
     \<and> list_all (condition_readable numText) (kept_conditions t)"

definition read_back_condition :: "(jnum \<Rightarrow> jstr) \<Rightarrow> TierConditionInput \<Rightarrow> TierConditionInput" where
  "read_back_condition numText c = c\<lparr>ci_value := CondNumber (js_number (cond_value_text numText (ci_value c)))\<rparr>"

definition plain_extra :: "VisualTier \<Rightarrow> jstr \<Rightarrow> jnum" where
  "plain_extra t f = (if f \<in> set (map fst BILLING_CACHE_VAR_MAP) then num_or_zero (vt_extra t f) else Fin 0)"

definition read_back_tier :: "(jnum \<Rightarrow> jstr) \<Rightarrow> nat \<Rightarrow> nat \<times> VisualTier \<Rightarrow> VisualTier" where
  "read_back_tier numText n it =
     \<lparr>vt_label = written_label n it, vt_conditions = map (read_back_condition numText) (written_conditions n it),
      vt_input = num_or_zero (vt_input (snd it)), vt_output = num_or_zero (vt_output (snd it)),
      vt_cache_mode = (if num_less (Fin 0) (plain_extra (snd it) (js ''cache_create_1h_unit_cost'')) then CacheTimed else CacheGeneric),
      vt_extra = plain_extra (snd it)\<rparr>"

definition read_back :: "(jnum \<Rightarrow> jstr) \<Rightarrow> VisualTier list \<Rightarrow> VisualTier list" where
  "read_back numText tiers = map (read_back_tier numText (length tiers)) (enumerate 0 tiers)"

lemma plain_extra_in: "(f, v) \<in> set BILLING_CACHE_VAR_MAP \<Longrightarrow> plain_extra t f = num_or_zero (vt_extra t f)"
  by (force simp: plain_extra_def)

lemma cache_vars_ok: "distinct (map snd BILLING_CACHE_VAR_MAP)" "list_all var_name (map snd BILLING_CACHE_VAR_MAP)"
  "distinct (map fst BILLING_CACHE_VAR_MAP)"
  by (simp_all add: BILLING_CACHE_VAR_MAP_def BILLING_EXTRA_VARS_def BILLING_VARS_def price_var_def var_name_def is_word_def jstr_eval is_digit_def)

lemma map_fst_cost_items: "map fst (cost_items numText t) = map snd BILLING_CACHE_VAR_MAP"
  by (simp add: cost_items_def comp_def case_prod_beta)

lemma tier_parts_ok:
  assumes "tier_readable numText (snd it)" "n \<noteq> 0"
  shows "tier_ok (tier_parts numText n it)"
proof -
  obtain i t where it: "it = (i, t)" by (cases it)
  have "34 \<notin> set (show_nat k)" for k using show_nat_digits[of 34 k] by (auto simp: is_digit_def)
  then have "34 \<notin> set (written_label n it)" using assms it by (auto simp: written_label_def tier_readable_def jstr_eval)
  moreover have "items_ok (cost_items numText t)"
    unfolding items_ok_def map_fst_cost_items using cache_vars_ok(1,2) assms(1) it
    by (auto simp: cost_items_def list_all_iff tier_readable_def readable_def)
  moreover have "list_all cond_ok (map (cond_parts numText) (written_conditions n it))"
    using assms it by (auto simp: written_conditions_def tier_readable_def condition_readable_def list_all_iff)
  ultimately show ?thesis using assms it by (auto simp: tier_parts_def body_ok_def map_fst_cost_items tier_readable_def readable_def)
qed

lemma num_or_zero_idem [simp]: "num_or_zero (num_or_zero n) = num_or_zero n"
  by (simp add: num_or_zero_def)

lemma num_or_zero_NaN [simp]: "num_or_zero NaN = Fin 0" "num_or_zero (Fin 0) = Fin 0"
  by (simp_all add: num_or_zero_def num_truthy_def)


text \<open>The extra cost of a field is the capture of its variable.\<close>

lemma find_enumerate:
  "distinct (map fst m) \<Longrightarrow> i < length m \<Longrightarrow> find (\<lambda>(j, fv). fst fv = fst (m ! i)) (enumerate k m) = Some (k + i, m ! i)"
proof (induction m arbitrary: k i)
  case (Cons x m)
  show ?case
  proof (cases i)
    case (Suc j)
    then have "fst x \<noteq> fst (m ! j)" using Cons(2,3) by (auto simp: image_iff)
    then show ?thesis using Cons Suc by simp
  qed simp
qed simp

lemma find_enumerate_None: "f \<notin> fst ` set m \<Longrightarrow> find (\<lambda>(j, fv). fst fv = f) (enumerate k m) = None"
  by (induction m arbitrary: k) auto

lemma read_extra:
  assumes "tier_readable numText t" "\<And>i. i < length BILLING_CACHE_VAR_MAP \<Longrightarrow> m (n + 3 + i) = snd (cost_items numText t ! i)"
  shows "num_or_zero (opt_number (pv_extra (matched_tier m n cs) f)) = plain_extra t f"
proof (cases "f \<in> fst ` set BILLING_CACHE_VAR_MAP")
  case True
  then obtain i where i: "i < length BILLING_CACHE_VAR_MAP" "f = fst (BILLING_CACHE_VAR_MAP ! i)" by (auto simp: in_set_conv_nth)
  obtain v where v: "BILLING_CACHE_VAR_MAP ! i = (f, v)" using i(2) by (cases "BILLING_CACHE_VAR_MAP ! i") auto
  have "pv_extra (matched_tier m n cs) f = map_option js_number (m (n + 3 + i))"
    using find_enumerate[OF cache_vars_ok(3) i(1), of 0] i(2) by (simp add: matched_tier_def)
  moreover have "num_or_zero (vt_extra t f) = Fin 0 \<or> readable numText (num_or_zero (vt_extra t f))"
    using assms(1) nth_mem[OF i(1)] v by (auto simp: tier_readable_def list_all_iff)
  ultimately show ?thesis using assms(2)[OF i(1)] i(1) v True by (auto simp: cost_items_def opt_number_def plain_extra_def readable_def)
next
  case False
  then show ?thesis using find_enumerate_None[OF False, of 0] by (auto simp: matched_tier_def opt_number_def plain_extra_def)
qed

lemma length_cost_items [simp]: "length (cost_items numText t) = length BILLING_CACHE_VAR_MAP"
  by (simp add: cost_items_def)

lemma read_cache_mode:
  assumes "num_or_zero (opt_number (pv_extra tier (js ''cache_create_1h_unit_cost''))) = n" "pv_cache_mode tier = None"
  shows "getTierCacheMode tier = (if num_less (Fin 0) n then CacheTimed else CacheGeneric)"
  using assms by (auto simp: getTierCacheMode_def num_or_zero_def num_truthy_def split: if_splits)

lemma normalize_matched:
  assumes "tier_readable numText (snd it)" "cap m k = written_label n it" "cap m (k + 1) = numText (num_or_zero (vt_input (snd it)))"
    "cap m (k + 2) = numText (num_or_zero (vt_output (snd it)))"
    "\<And>i. i < length BILLING_CACHE_VAR_MAP \<Longrightarrow> m (k + 3 + i) = snd (cost_items numText (snd it) ! i)"
    "cs = map (read_back_condition numText) (written_conditions n it)"
  shows "normalizeVisualTier (matched_tier m k cs) = read_back_tier numText n it"
proof -
  have x: "num_or_zero (opt_number (pv_extra (matched_tier m k cs) f)) = plain_extra (snd it) f" for f
    by (rule read_extra[OF assms(1,5)])
  have "js_number (numText (num_or_zero (vt_input (snd it)))) = num_or_zero (vt_input (snd it))"
    "js_number (numText (num_or_zero (vt_output (snd it)))) = num_or_zero (vt_output (snd it))"
    using assms(1) by (auto simp: tier_readable_def readable_def)
  moreover have "(\<lambda>f. if f \<in> set (map fst BILLING_CACHE_VAR_MAP) then num_or_zero (opt_number (pv_extra (matched_tier m k cs) f)) else Fin 0) = plain_extra (snd it)"
    unfolding x by (simp add: plain_extra_def fun_eq_iff)
  moreover have "getTierCacheMode (matched_tier m k cs)
      = (if num_less (Fin 0) (plain_extra (snd it) (js ''cache_create_1h_unit_cost'')) then CacheTimed else CacheGeneric)"
    by (rule read_cache_mode[OF x]) (simp add: matched_tier_def)
  ultimately show ?thesis unfolding normalizeVisualTier_def read_back_tier_def using assms(2,3,4,6) by (simp add: matched_tier_def)
qed

lemma normalize_read_back: "normalizeVisualTier (partial_tier (read_back_tier numText n it)) = read_back_tier numText n it"
  by (auto simp: normalizeVisualTier_def partial_tier_def read_back_tier_def getTierCacheMode_def opt_number_def plain_extra_def fun_eq_iff)

lemma read_back_conditions:
  assumes "list_all (condition_readable numText) cs"
  shows "map condition_input (read_conditions (conds_text (map (cond_parts numText) cs))) = map (read_back_condition numText) cs"
proof -
  have "list_all cond_ok (map (cond_parts numText) cs)" using assms by (auto simp: list_all_iff condition_readable_def)
  from read_conditions_text[OF this] show ?thesis
    by (simp add: condition_input_def read_cond_item_def cond_parts_def read_back_condition_def)
qed

section \<open>The editor reads back what it writes\<close>

lemma visual_caps_at:
  fixes numText n it
  defines "m \<equiv> visual_caps (tier_parts numText n it)"
  shows "cap m 1 = conds_text (map (cond_parts numText) (written_conditions n it))" "cap m 2 = written_label n it"
    "cap m (2 + 1) = numText (num_or_zero (vt_input (snd it)))" "cap m (2 + 2) = numText (num_or_zero (vt_output (snd it)))"
    "i < length BILLING_CACHE_VAR_MAP \<Longrightarrow> m (2 + 3 + i) = snd (cost_items numText (snd it) ! i)"
  by (auto simp: m_def tier_parts_def cap_def cost_caps_at guard_caps_def conds_text_def)

lemma single_caps_at:
  fixes numText n it
  defines "m \<equiv> single_caps (tier_parts numText n it)"
  shows "cap m 1 = written_label n it" "cap m (1 + 1) = numText (num_or_zero (vt_input (snd it)))"
    "cap m (1 + 2) = numText (num_or_zero (vt_output (snd it)))"
    "i < length BILLING_CACHE_VAR_MAP \<Longrightarrow> m (1 + 3 + i) = snd (cost_items numText (snd it) ! i)"
  by (auto simp: m_def tier_parts_def cap_def cost_caps_at)

lemma in_enumerate: "it \<in> set (enumerate k xs) \<Longrightarrow> snd it \<in> set xs"
  by (metis in_set_zip enumerate_eq_zip prod.collapse nth_mem)

lemma enumerate_readable: "list_all (tier_readable numText) tiers \<Longrightarrow> it \<in> set (enumerate 0 tiers) \<Longrightarrow> tier_readable numText (snd it)"
  using in_enumerate[of it 0 tiers] by (auto simp: list_all_iff)

lemma written_ok:
  assumes "tiers \<noteq> []" "list_all (tier_readable numText) tiers"
  shows "list_all tier_ok (written_tiers numText tiers)" "written_tiers numText tiers \<noteq> []"
  using assms enumerate_readable[OF assms(2)] by (auto simp: written_tiers_def list_all_iff tier_parts_ok) (metis length_0_conv length_enumerate)

lemma tail_no_tier: "match_all inp visual_tier_re (written_tail tiers) = []" "match_all inp tier_re (written_tail tiers) = []"
  by (simp_all add: written_tail_def editor.no_tier_in_default editor.match_all_end price_list.no_tier_in_default price_list.match_all_end)

lemma read_all_tiers:
  assumes "tiers \<noteq> []" "list_all (tier_readable numText) tiers"
  shows "map (\<lambda>m. normalizeVisualTier (matched_tier (match_caps m) 2 (map condition_input (read_conditions (cap (match_caps m) 1)))))
    (match_all inp visual_tier_re (generateExprFromVisualConfig numText tiers)) = read_back numText tiers"
proof -
  have "normalizeVisualTier (matched_tier (visual_caps (tier_parts numText n it)) 2
      (map condition_input (read_conditions (cap (visual_caps (tier_parts numText n it)) 1)))) = read_back_tier numText n it"
    if "it \<in> set (enumerate 0 tiers)" for n it
  proof (rule normalize_matched[OF enumerate_readable[OF assms(2) that] visual_caps_at(2-5)])
    have "list_all (condition_readable numText) (written_conditions n it)"
      using enumerate_readable[OF assms(2) that] by (cases it) (auto simp: written_conditions_def tier_readable_def)
    from read_back_conditions[OF this]
    show "map condition_input (read_conditions (cap (visual_caps (tier_parts numText n it)) 1)) = map (read_back_condition numText) (written_conditions n it)"
      unfolding visual_caps_at(1) .
  qed
  then have "map (\<lambda>c. normalizeVisualTier (matched_tier c 2 (map condition_input (read_conditions (cap c 1))))) (map visual_caps (written_tiers numText tiers))
      = read_back numText tiers"
    unfolding written_tiers_def read_back_def map_map by (intro map_cong) simp_all
  then show ?thesis
    unfolding editor.tiers_found[OF written_ok[OF assms] tail_no_tier(1), symmetric, of inp tiers] generate_text[OF assms(1)] by (simp add: comp_def)
qed

lemma normalize_config_read_back: "tiers \<noteq> [] \<Longrightarrow> normalizeVisualConfig (Some (read_back numText tiers)) = read_back numText tiers"
  by (cases tiers) (simp_all add: normalizeVisualConfig_def read_back_def normalize_read_back)

lemma parts_read_back:
  assumes "tier_readable numText (snd it)" "n \<noteq> 0"
  shows "tier_parts numText n (fst it, read_back_tier numText n it) = tier_parts numText n it"
proof -
  obtain i t where it: "it = (i, t)" by (cases it)
  have l: "written_label n it \<noteq> []" by (simp add: it written_label_def)
  have "kept_conditions (read_back_tier numText n it) = map (read_back_condition numText) (written_conditions n it)"
    using assms it by (auto simp: kept_conditions_def read_back_tier_def read_back_condition_def written_conditions_def filter_map comp_def)
  moreover have "cond_parts numText (read_back_condition numText c) = cond_parts numText c" if "c \<in> set (kept_conditions t)" for c
    using that assms(1) it by (auto simp: cond_parts_def read_back_condition_def tier_readable_def list_all_iff condition_readable_def)
  moreover have "cost_items numText (read_back_tier numText n it) = cost_items numText t"
    unfolding cost_items_def by (intro map_cong) (auto simp: read_back_tier_def plain_extra_in it)
  ultimately show ?thesis using l unfolding tier_parts_def
    by (auto simp: it written_label_def written_conditions_def read_back_tier_def)
qed

lemma written_read_back:
  assumes "list_all (tier_readable numText) tiers"
  shows "written_tiers numText (read_back numText tiers) = written_tiers numText tiers"
proof -
  have "enumerate 0 (read_back numText tiers) = map (\<lambda>it. (fst it, read_back_tier numText (length tiers) it)) (enumerate 0 tiers)"
    by (simp add: read_back_def list_eq_iff_nth_eq nth_enumerate_eq)
  moreover have "length tiers \<noteq> 0" if "it \<in> set (enumerate 0 tiers)" for it using that by (cases tiers) auto
  ultimately show ?thesis using parts_read_back[OF enumerate_readable[OF assms]] by (simp add: written_tiers_def read_back_def)
qed

lemma generate_read_back:
  assumes "tiers \<noteq> []" "list_all (tier_readable numText) tiers"
  shows "generateExprFromVisualConfig numText (read_back numText tiers) = generateExprFromVisualConfig numText tiers"
proof -
  have ne: "read_back numText tiers \<noteq> []" using assms(1) by (cases tiers) (simp_all add: read_back_def)
  have "written_tail (read_back numText tiers) = written_tail tiers"
  proof (cases "length tiers = 1")
    case True
    then obtain t where "tiers = [t]" by (cases tiers) auto
    then show ?thesis by (auto simp: written_tail_def read_back_def read_back_tier_def kept_conditions_def written_conditions_def
        read_back_condition_def filter_empty_conv)
  qed (simp add: written_tail_def read_back_def)
  then show ?thesis by (simp add: generate_text[OF ne] generate_text[OF assms(1)] written_read_back[OF assms(2)])
qed

text \<open>The written expression is never taken for a single tier unless it is one.\<close>

lemma generate_hd:
  assumes "tiers \<noteq> []" "list_all (tier_readable numText) tiers"
  shows "generateExprFromVisualConfig numText tiers \<noteq> []" "hd (generateExprFromVisualConfig numText tiers) \<noteq> 118"
proof -
  obtain w ws where w: "written_tiers numText tiers = w # ws" "tier_ok w" using written_ok[OF assms] by (cases "written_tiers numText tiers") auto
  obtain cs l i t xs where p: "w = (cs, l, i, t, xs)" by (cases w)
  have "tier_text w \<noteq> [] \<and> hd (tier_text w) \<noteq> 118"
    using conds_text_hd[of cs] w(2) p by (auto simp: guarded_text_def call_text_def jstr_eval)
  then show "generateExprFromVisualConfig numText tiers \<noteq> []" "hd (generateExprFromVisualConfig numText tiers) \<noteq> 118"
    by (auto simp: generate_text[OF assms(1)] w(1) join_concat_map)
qed

lemma single_miss:
  assumes "tiers \<noteq> []" "list_all (tier_readable numText) tiers" "length tiers \<noteq> 1 \<or> kept_conditions (hd tiers) \<noteq> []"
  shows "regex_match single_re (generateExprFromVisualConfig numText tiers) = None"
proof -
  obtain w ws where w: "written_tiers numText tiers = w # ws" "tier_ok w" using written_ok[OF assms(1,2)] by (cases "written_tiers numText tiers") auto
  obtain cs l i t xs where p: "w = (cs, l, i, t, xs)" by (cases w)
  have g: "generateExprFromVisualConfig numText tiers = tier_text w @ concat (map (\<lambda>v. js '' : '' @ v) (map tier_text ws)) @ written_tail tiers"
    by (simp add: generate_text[OF assms(1)] w(1) join_concat_map)
  show ?thesis
  proof (cases "cs = []")
    case True
    have "concat (map (\<lambda>v. js '' : '' @ v) (map tier_text ws)) @ written_tail tiers \<noteq> []"
    proof (cases ws)
      case Nil
      then have "length tiers = 1" using w(1) by (metis length_Cons length_map length_enumerate list.size(3) written_tiers_def One_nat_def)
      then show ?thesis using assms(3) by (simp add: written_tail_def)
    qed simp
    then show ?thesis unfolding g using w(2) p True single_miss_tail[of l "body_text i t xs"] by (simp add: guarded_text_def body_text_closed)
  next
    case False
    then show ?thesis unfolding g using w(2) p conds_text_hd[of cs] by (intro single_miss_guard) (auto simp: guarded_text_def)
  qed
qed

lemma read_single:
  assumes "tier_readable numText t" "kept_conditions t = []"
  shows "tryParseVisualConfig numText (generateExprFromVisualConfig numText [t]) = Some (read_back numText [t])"
proof -
  let ?w = "tier_parts numText 1 (0, t)"
  have g: "generateExprFromVisualConfig numText [t] = tier_text ?w"
    using assms(2) by (simp add: generate_text written_tiers_def written_tail_def)
  have ok: "tier_ok ?w" using tier_parts_ok[of numText "(0, t)"] assms(1) by simp
  have c: "written_conditions 1 (0, t) = []" using assms(2) by (simp add: written_conditions_def)
  have hit: "regex_match single_re (tier_text ?w) = Some (single_caps ?w)"
    using ok single_hit unfolding tier_parts_def c by simp
  have "normalizeVisualTier (matched_tier (single_caps ?w) 1 []) = read_back_tier numText 1 (0, t)"
    by (rule normalize_matched[OF _ single_caps_at]) (simp_all add: assms c[simplified])
  then show ?thesis using generate_hd[of "[t]" numText] assms(1) hit normalize_config_read_back[of "[t]" numText]
    by (simp add: tryParseVisualConfig_def g no_version Let_def read_back_def)
qed

lemma visual_config_readable:
  assumes "tiers \<noteq> []" "list_all (tier_readable numText) tiers"
  shows "tryParseVisualConfig numText (generateExprFromVisualConfig numText tiers) = Some (read_back numText tiers)
    \<and> generateExprFromVisualConfig numText (read_back numText tiers) = generateExprFromVisualConfig numText tiers"
proof (cases "length tiers = 1 \<and> kept_conditions (hd tiers) = []")
  case True
  then obtain t where "tiers = [t]" by (cases tiers) auto
  then show ?thesis using True assms read_single generate_read_back[OF assms] by simp
next
  case False
  then have "regex_match single_re (generateExprFromVisualConfig numText tiers) = None" using assms by (intro single_miss) auto
  moreover have "read_back numText tiers \<noteq> []" using assms(1) by (cases tiers) (simp_all add: read_back_def)
  ultimately show ?thesis using generate_hd[OF assms] read_all_tiers[OF assms] generate_read_back[OF assms] normalize_config_read_back[OF assms(1)]
    by (simp add: tryParseVisualConfig_def no_version Let_def)
qed

text \<open>C36. The price editor reads back what it writes: for tiers whose costs are printed as numbers that read as
  themselves, whose labels contain no quotation mark and whose conditions compare \<open>p\<close>, \<open>c\<close> or \<open>len\<close> with a
  number in its own spelling, parsing the written expression succeeds and gives \<open>read_back\<close>: every tier in
  order with its costs and its conditions, a default label where there was none, without the
  conditions of the last of several tiers; and writing that configuration again gives the same expression.\<close>

theorem visual_config_roundtrip:
  assumes "tiers \<noteq> []" "list_all (tier_readable numText) tiers"
  shows "tryParseVisualConfig numText (generateExprFromVisualConfig numText tiers) = Some (read_back numText tiers)
    \<and> generateExprFromVisualConfig numText (read_back numText tiers) = generateExprFromVisualConfig numText tiers"
  by (rule visual_config_readable[OF assms])

section \<open>Sample configuration\<close>

definition sample_number :: "jnum \<Rightarrow> jstr" where
  "sample_number n = (case n of Fin q \<Rightarrow> show_nat (nat \<lfloor>q\<rfloor>) | _ \<Rightarrow> js ''NaN'')"

definition sample_tiers :: "VisualTier list" where
  "sample_tiers =
    [\<lparr>vt_label = js ''short'', vt_conditions = [\<lparr>ci_var = js ''len'', ci_op = OpLe, ci_value = CondText (js ''200'')\<rparr>,
        \<lparr>ci_var = js ''c'', ci_op = OpLt, ci_value = CondNumber (Fin 9)\<rparr>], vt_input = Fin 3, vt_output = Fin 15, vt_cache_mode = CacheTimed,
      vt_extra = (\<lambda>f. if f = js ''cache_create_unit_cost'' then Fin 4 else Fin 0)\<rparr>,
     \<lparr>vt_label = [], vt_conditions = [\<lparr>ci_var = js ''p'', ci_op = OpGt, ci_value = CondNumber (Fin 7)\<rparr>], vt_input = Fin 6, vt_output = NaN,
      vt_cache_mode = CacheGeneric, vt_extra = (\<lambda>f. if f = js ''cache_create_1h_unit_cost'' then Fin 8 else Fin 0)\<rparr>]"

lemma sample_tiers_readable: "list_all (tier_readable sample_number) sample_tiers"
  by code_simp

theorem visual_config_roundtrip_witness:
  "tryParseVisualConfig sample_number (generateExprFromVisualConfig sample_number sample_tiers) = Some (read_back sample_number sample_tiers)"
  using visual_config_roundtrip[OF _ sample_tiers_readable] by (simp add: sample_tiers_def)

end
