(* ===== verification/Tier_Prices.thy ===== *)
theory Tier_Prices
  imports Tier_Roundtrip
begin

text \<open>
  The price list shows the prices the editor has written.  The two components read an expression with
  different patterns: the editor captures every cost of a tier in one match, the price list takes the
  body of a tier as a whole and looks for products of a variable and a number in it.
\<close>

section \<open>Products in the body of a tier\<close>

type_synonym product = "jstr \<times> jstr"

fun product_text :: "product \<Rightarrow> jstr" where
  "product_text (v, w) = v @ 32 # 42 # 32 # w"

definition price_keys :: "jstr list" where
  "price_keys = map bv_key BILLING_PRICING_VARS"

definition product_ok :: "product \<Rightarrow> bool" where
  "product_ok x \<longleftrightarrow> fst x \<in> set price_keys \<and> is_cost (snd x)"

definition products_text :: "product list \<Rightarrow> jstr" where
  "products_text xs = join (js '' + '') (map product_text xs)"

lemma price_keys_ok: "distinct price_keys" "list_all var_name price_keys"
  by (simp_all add: price_keys_def BILLING_PRICING_VARS_def BILLING_VARS_def price_var_def var_name_def is_word_def jstr_eval is_digit_def)

lemma run_ralt_lits:
  "run inp (ralt (map RLit vs)) (s, c) = map (\<lambda>v. (drop (length v) s, c)) (filter (\<lambda>v. take (length v) s = v) vs)"
  by (induction vs rule: induct_list012) (auto simp: run.simps after_prefix_def split: list.split)

text \<open>Of the variables that the text begins with, only the one that is written is followed by a product sign.\<close>

lemma prefix_name:
  assumes "var_name v" "var_name w" "v \<noteq> w" "take (length v) (w @ 32 # u) = v"
  obtains x y where "drop (length v) (w @ 32 # u) = x # y" "is_word x"
proof -
  have "length v < length w"
  proof (rule ccontr)
    assume "\<not> length v < length w"
    moreover have "length v \<noteq> length w" using assms(3,4) by auto
    ultimately have "32 \<in> set (take (length v) (w @ 32 # u))" by (cases "length v - length w") auto
    with assms(1,4) have "is_word 32" by (simp add: var_name_def list_all_iff)
    then show False by (simp add: is_word_def is_digit_def)
  qed
  then have "drop (length v) (w @ 32 # u) = w ! length v # drop (Suc (length v)) w @ 32 # u" by (simp add: Cons_nth_drop_Suc)
  moreover have "is_word (w ! length v)" using assms(2) \<open>length v < length w\<close> by (auto simp: var_name_def list_all_iff)
  ultimately show thesis by (rule that)
qed

lemma leads_name:
  assumes "v \<in> set vs" "list_all var_name vs" "leads inp (RSeq spaces (RSeq (RLit [42]) r)) (32 # u, c(1 \<mapsto> v)) st"
  shows "leads inp (RSeq (RGroup 1 (ralt (map RLit vs))) (RSeq spaces (RSeq (RLit [42]) r))) (v @ 32 # u, c) st"
proof -
  let ?s = "v @ 32 # u" and ?hits = "filter (\<lambda>w. take (length w) (v @ 32 # u) = w)"
  let ?st = "\<lambda>w. (drop (length w) ?s, c(1 \<mapsto> take (length ?s - length (drop (length w) ?s)) ?s))"
  obtain ws zs where vs: "vs = ws @ v # zs" "v \<notin> set ws" using assms(1) by (meson split_list_first)
  have "run inp (RGroup 1 (ralt (map RLit vs))) (?s, c) = map ?st (?hits ws) @ (32 # u, c(1 \<mapsto> v)) # map ?st (?hits zs)"
    unfolding run.simps(7) fst_conv run_ralt_lits by (simp add: vs(1))
  moreover have "run inp (RSeq spaces (RSeq (RLit [42]) r)) t = []" if "t \<in> set (map ?st (?hits ws))" for t
  proof -
    from that obtain w where w: "w \<in> set ws" "take (length w) ?s = w" "t = ?st w" by auto
    have "var_name w" "var_name v" "w \<noteq> v" using assms(2) vs w(1) by (auto simp: list_all_iff)
    from prefix_name[OF this w(2)] obtain x y where xy: "drop (length w) ?s = x # y" "is_word x" .
    have "run inp (RSeq spaces (RSeq (RLit [42]) r)) (x # y, d) = run inp (RSeq (RLit [42]) r) (x # y, d)" for d
      using xy(2) by (intro miss_space(2)) (auto simp: word_not_space fails_space_lit)
    then show ?thesis using xy word_not_star[OF xy(2)] unfolding w(3) by (simp add: miss_char)
  qed
  ultimately show ?thesis using assms(3) by (rule leads_seq_late)
qed

lemma regex_shape: "BILLING_VAR_REGEX = RSeq RBoundary (RSeq (RGroup 1 (ralt (map RLit price_keys)))
    (RSeq spaces (RSeq (RLit [42]) (RSeq spaces (cost_group 2)))))"
  by (simp add: BILLING_VAR_REGEX_def price_keys_def comp_def cost_group_def lit_def jstr_eval)

definition at_word_start :: "jstr \<Rightarrow> bool" where
  "at_word_start before \<longleftrightarrow> before = [] \<or> \<not> is_word (last before)"

lemma boundary_here: "at_word_start before \<Longrightarrow> is_word x \<Longrightarrow> run (before @ x # s) RBoundary (x # s, c) = [(x # s, c)]"
  by (cases before rule: rev_cases) (auto simp: run.simps at_boundary_def at_word_start_def)

lemma leads_product:
  assumes "product_ok x" "stops num_char u" "at_word_start before" "inp = before @ product_text x @ u"
  shows "leads inp BILLING_VAR_REGEX (product_text x @ u, Map.empty) (u, [1 \<mapsto> fst x, 2 \<mapsto> snd x])"
proof -
  obtain v w where x: "x = (v, w)" by (cases x)
  have ok: "v \<in> set price_keys" "w \<noteq> []" "list_all num_char w" "var_name v"
    using assms(1) price_keys_ok(2) x by (auto simp: product_ok_def is_cost_def list_all_iff)
  have "leads inp (RSeq spaces (RSeq (RLit [42]) (RSeq spaces (cost_group 2)))) (32 # 42 # 32 # w @ u, [1 \<mapsto> v]) (u, [1 \<mapsto> v, 2 \<mapsto> w])"
    using ok assms(2) by (intro lead_space lead_char lead_cost_end) (simp_all add: cost_hd)
  from leads_name[OF ok(1) price_keys_ok(2) this]
  have "leads inp (RSeq (RGroup 1 (ralt (map RLit price_keys))) (RSeq spaces (RSeq (RLit [42]) (RSeq spaces (cost_group 2)))))
      (product_text x @ u, Map.empty) (u, [1 \<mapsto> v, 2 \<mapsto> w])" by (simp add: x)
  moreover have "leads inp RBoundary (product_text x @ u, Map.empty) (product_text x @ u, Map.empty)"
  proof -
    obtain y z where y: "v = y # z" "is_word y" using ok(4) by (cases v) (auto simp: var_name_def)
    then show ?thesis using boundary_here[OF assms(3), of y "z @ 32 # 42 # 32 # w @ u"] assms(4) x by (auto intro: leadsI)
  qed
  ultimately show ?thesis unfolding regex_shape x by (auto intro: leads_seq)
qed

lemma no_product_at: "s = [] \<or> \<not> is_word (hd s) \<Longrightarrow> match_at inp BILLING_VAR_REGEX s = None"
proof -
  assume s: "s = [] \<or> \<not> is_word (hd s)"
  have "take (length v) s \<noteq> v" if "v \<in> set price_keys" for v
  proof -
    have "var_name v" using that price_keys_ok(2) by (simp add: list_all_iff)
    then obtain y z where "v = y # z" "is_word y" by (cases v) (auto simp: var_name_def)
    then show ?thesis using s by (cases s) auto
  qed
  then have "filter (\<lambda>v. take (length v) s = v) price_keys = []" by (simp add: filter_empty_conv)
  then have "run inp BILLING_VAR_REGEX (s, Map.empty) = []" unfolding regex_shape
    by (simp add: run.simps(3,7,11) run_ralt_lits)
  then show ?thesis by (simp add: match_at_def)
qed

definition product_caps :: "product \<Rightarrow> captures" where
  "product_caps x = [1 \<mapsto> fst x, 2 \<mapsto> snd x]"

abbreviation product_match :: "product \<Rightarrow> jstr \<Rightarrow> rmatch" where
  "product_match x u \<equiv> \<lparr>matched_text = product_text x, match_rest = u, match_caps = product_caps x\<rparr>"

definition more_products :: "product list \<Rightarrow> jstr" where
  "more_products xs = (if xs = [] then [] else js '' + '' @ products_text xs)"

lemma products_text_Cons: "products_text (x # xs) = product_text x @ more_products xs"
  by (cases xs) (simp_all add: products_text_def more_products_def)

lemma product_found:
  assumes "product_ok x" "at_word_start before" "inp = before @ products_text (x # xs)"
  shows "exec_from inp BILLING_VAR_REGEX (products_text (x # xs)) = Some (product_match x (more_products xs))"
  unfolding products_text_Cons product_caps_def
proof (intro exec_from_here match_at_leads leads_product[OF assms(1) _ assms(2)])
  show "stops num_char (more_products xs)" by (simp add: more_products_def jstr_eval)
qed (use assms(3) products_text_Cons in simp)

lemma product_text_long: "length (more_products xs) < length (products_text (x # xs))"
  by (cases x) (simp add: products_text_Cons)

lemma product_found_later: "exec_from inp BILLING_VAR_REGEX (js '' + '' @ s) = exec_from inp BILLING_VAR_REGEX s"
  by (simp add: jstr_eval no_product_at is_word_def is_digit_def)

lemma match_products:
  "list_all product_ok xs \<Longrightarrow> at_word_start before \<Longrightarrow> inp = before @ products_text xs \<Longrightarrow>
     map match_caps (match_all inp BILLING_VAR_REGEX (products_text xs)) = map product_caps xs"
proof (induction xs arbitrary: before)
  case Nil
  then show ?case by (simp add: products_text_def match_all_miss no_product_at)
next
  case (Cons x xs)
  have hit: "match_all inp BILLING_VAR_REGEX (products_text (x # xs)) = product_match x (more_products xs) # match_all inp BILLING_VAR_REGEX (more_products xs)"
    using match_all_hit[OF product_found[of x before inp xs]] Cons(2-4) product_text_long by simp
  show ?case
  proof (cases xs)
    case Nil
    then show ?thesis using hit by (simp add: match_all_miss no_product_at more_products_def)
  next
    case (Cons y ys)
    let ?before = "before @ product_text x @ js '' + ''"
    have inp: "inp = ?before @ products_text xs" using Cons.prems(3) \<open>xs = y # ys\<close> by (simp add: products_text_Cons[of x] more_products_def)
    have w: "at_word_start ?before" by (simp add: at_word_start_def jstr_eval is_word_def is_digit_def)
    have found: "exec_from inp BILLING_VAR_REGEX (products_text xs) = Some (product_match y (more_products ys))"
      using product_found[OF _ w] inp Cons.prems(1) \<open>xs = y # ys\<close> by simp
    have "match_all inp BILLING_VAR_REGEX (more_products xs) = match_all inp BILLING_VAR_REGEX (products_text xs)"
      using match_all_hit[OF found] match_all_hit[OF product_found_later[THEN trans, OF found]] product_text_long[of ys y] \<open>xs = y # ys\<close>
      by (simp add: more_products_def)
    then show ?thesis using hit Cons.IH[OF _ w inp] Cons.prems(1) by simp
  qed
qed

section \<open>The prices of a tier\<close>

definition tier_products :: "jstr \<Rightarrow> jstr \<Rightarrow> cost_item list \<Rightarrow> product list" where
  "tier_products i t xs = (js ''p'', i) # (js ''c'', t) # List.map_filter (\<lambda>(v, w). map_option (Pair v) w) xs"

lemma body_text_products: "body_text i t xs = products_text (tier_products i t xs)"
proof -
  have "costs_text xs = concat (map (\<lambda>w. js '' + '' @ w) (map product_text (List.map_filter (\<lambda>(v, w). map_option (Pair v) w) xs)))"
    by (induction xs rule: list.induct) (auto simp: costs_text_def List.map_filter_simps jstr_eval split: option.split)
  then show ?thesis by (simp add: tier_products_def products_text_def join_concat_map body_text_def) (simp add: jstr_eval)
qed

lemma tier_products_ok: "body_ok i t xs \<Longrightarrow> list_all product_ok (tier_products i t xs)"
proof -
  assume ok: "body_ok i t xs"
  have "product_ok (v, w)" if "(v, Some w) \<in> set xs" for v w
  proof -
    have "v \<in> set (map snd BILLING_CACHE_VAR_MAP)" using ok that unfolding body_ok_def by (metis fst_conv list.set_map rev_image_eqI)
    then have "v \<in> set price_keys" by (auto simp: BILLING_CACHE_VAR_MAP_def BILLING_EXTRA_VARS_def price_keys_def BILLING_PRICING_VARS_def)
    then show ?thesis using ok that by (auto simp: product_ok_def body_ok_def items_ok_def list_all_iff)
  qed
  moreover have "js ''p'' \<in> set price_keys" "js ''c'' \<in> set price_keys"
    by (simp_all add: price_keys_def BILLING_PRICING_VARS_def BILLING_VARS_def price_var_def)
  ultimately show ?thesis using ok by (auto simp: tier_products_def product_ok_def body_ok_def list_all_iff List.map_filter_def)
qed

lemma parseTierBody_text:
  assumes "body_ok i t xs"
  shows "parseTierBody (body_text i t xs) = map (\<lambda>(v, f). (f, case map_of (tier_products i t xs) v of Some w \<Rightarrow> num_or_zero (js_number w) | None \<Rightarrow> Fin 0)) BILLING_VAR_KEY_TO_FIELD"
proof -
  let ?ps = "tier_products i t xs" and ?s = "body_text i t xs"
  have "map match_caps (match_all ?s BILLING_VAR_REGEX ?s) = map product_caps ?ps"
    using match_products[OF tier_products_ok[OF assms], of "[]" ?s] by (simp add: body_text_products at_word_start_def)
  then have "map (\<lambda>m. (cap (match_caps m) 1, js_number (cap (match_caps m) 2))) (match_all ?s BILLING_VAR_REGEX ?s) = map (\<lambda>c. (cap c 1, js_number (cap c 2))) (map product_caps ?ps)"
    by (metis (no_types, lifting) list.map_comp comp_apply map_eq_conv)
  also have "\<dots> = map (\<lambda>(v, w). (v, js_number w)) ?ps" by (auto simp: product_caps_def cap_def)
  finally have "map_of (map (\<lambda>m. (cap (match_caps m) 1, js_number (cap (match_caps m) 2))) (match_all ?s BILLING_VAR_REGEX ?s)) v = map_option js_number (map_of ?ps v)" for v
    by (simp add: map_of_map)
  then show ?thesis unfolding parseTierBody_def Let_def by (auto split: option.split)
qed

text \<open>What the price list shows of a tier.\<close>

definition shown_fields :: "VisualTier \<Rightarrow> (jstr \<times> jnum) list" where
  "shown_fields t = (js ''inputPrice'', num_or_zero (vt_input t)) # (js ''outputPrice'', num_or_zero (vt_output t)) #
     map (\<lambda>v. (the (bv_field v), num_or_zero (vt_extra t (the (bv_tierField v))))) BILLING_EXTRA_VARS"

definition shown_condition :: "(jnum \<Rightarrow> jstr) \<Rightarrow> TierConditionInput \<Rightarrow> TierCondition" where
  "shown_condition numText c = \<lparr>tc_var = ci_var c, tc_op = ci_op c, tc_value = js_number (cond_value_text numText (ci_value c))\<rparr>"

definition shown_tier :: "(jnum \<Rightarrow> jstr) \<Rightarrow> nat \<Rightarrow> nat \<times> VisualTier \<Rightarrow> ParsedTier" where
  "shown_tier numText n it = \<lparr>pt_label = written_label n it, pt_conditions = map (shown_condition numText) (written_conditions n it),
     pt_fields = shown_fields (snd it)\<rparr>"

lemma map_of_taken: "distinct (map fst xs) \<Longrightarrow> (v, w) \<in> set xs \<Longrightarrow> map_of (List.map_filter (\<lambda>(v, w). map_option (Pair v) w) xs) v = w"
proof (induction xs)
  case (Cons x xs)
  have "map_of (List.map_filter (\<lambda>(v, w). map_option (Pair v) w) xs) v = None" if "v \<notin> fst ` set xs"
    using that by (force simp: map_of_eq_None_iff List.map_filter_def)
  moreover have "v \<notin> fst ` set xs" if "fst x = v" using that Cons(2) by auto
  ultimately show ?case using Cons by (cases x) (force simp: List.map_filter_simps split: option.split)
qed simp

lemma extra_vars: "bv_key v \<noteq> js ''p'' \<and> bv_key v \<noteq> js ''c'' \<and> (the (bv_tierField v), bv_key v) \<in> set BILLING_CACHE_VAR_MAP" if "v \<in> set BILLING_EXTRA_VARS"
proof -
  have "(the (bv_tierField v), bv_key v) \<in> set BILLING_CACHE_VAR_MAP" using that by (simp add: BILLING_CACHE_VAR_MAP_def)
  moreover have "list_all (\<lambda>v. bv_key v \<noteq> js ''p'' \<and> bv_key v \<noteq> js ''c'') BILLING_EXTRA_VARS"
    by (simp add: BILLING_EXTRA_VARS_def BILLING_VARS_def price_var_def)
  ultimately show ?thesis using that by (auto simp: list_all_iff)
qed

lemma key_fields: "BILLING_VAR_KEY_TO_FIELD
    = (js ''p'', js ''inputPrice'') # (js ''c'', js ''outputPrice'') # map (\<lambda>v. (bv_key v, the (bv_field v))) BILLING_EXTRA_VARS"
  by (simp add: BILLING_VAR_KEY_TO_FIELD_def BILLING_PRICING_VARS_def BILLING_EXTRA_VARS_def BILLING_VARS_def price_var_def)

lemma shown_price:
  assumes "tier_readable numText t" "v \<in> set BILLING_EXTRA_VARS"
  shows "(case map_of (tier_products i u (cost_items numText t)) (bv_key v) of Some w \<Rightarrow> num_or_zero (js_number w) | None \<Rightarrow> Fin 0)
    = num_or_zero (vt_extra t (the (bv_tierField v)))"
proof -
  let ?n = "num_or_zero (vt_extra t (the (bv_tierField v)))"
  note v = extra_vars[OF assms(2)]
  have "distinct (map fst (cost_items numText t))" unfolding map_fst_cost_items by (rule cache_vars_ok)
  moreover have "(bv_key v, if ?n = Fin 0 then None else Some (numText ?n)) \<in> set (cost_items numText t)"
    unfolding cost_items_def using v by (force intro: rev_image_eqI)
  ultimately have "map_of (tier_products i u (cost_items numText t)) (bv_key v) = (if ?n = Fin 0 then None else Some (numText ?n))"
    using v by (simp add: tier_products_def map_of_taken)
  moreover have "?n = Fin 0 \<or> js_number (numText ?n) = ?n"
    using assms(1) v by (auto simp: tier_readable_def list_all_iff readable_def)
  ultimately show ?thesis by auto
qed

lemma shown_body:
  assumes "tier_readable numText t" "body_ok i u (cost_items numText t)" "i = numText (num_or_zero (vt_input t))" "u = numText (num_or_zero (vt_output t))"
  shows "parseTierBody (body_text i u (cost_items numText t)) = shown_fields t"
proof -
  let ?ps = "tier_products i u (cost_items numText t)"
  have "js ''c'' \<noteq> js ''p''" by simp
  then have "map_of ?ps (js ''p'') = Some i" "map_of ?ps (js ''c'') = Some u" by (simp_all add: tier_products_def)
  moreover have "num_or_zero (js_number i) = num_or_zero (vt_input t)" "num_or_zero (js_number u) = num_or_zero (vt_output t)"
    using assms by (simp_all add: tier_readable_def readable_def)
  ultimately show ?thesis unfolding parseTierBody_text[OF assms(2)] key_fields shown_fields_def using shown_price[OF assms(1)] by simp
qed

text \<open>C37. The price list shows what the editor has written: for tiers the editor can read back, the tiers read
  by the price list are those of the editor in the same order, with the same labels, the same conditions
  and, for each of the nine prices, the cost of the editor, 0 where it has none.\<close>

theorem price_list_shows_editor_prices:
  assumes "tiers \<noteq> []" "list_all (tier_readable numText) tiers"
  shows "parseTiersFromExpr (generateExprFromVisualConfig numText tiers) = map (shown_tier numText (length tiers)) (enumerate 0 tiers)"
proof -
  let ?e = "generateExprFromVisualConfig numText tiers" and ?n = "length tiers"
  let ?read = "\<lambda>c. \<lparr>pt_label = cap c 2, pt_conditions = read_conditions (cap c 1), pt_fields = parseTierBody (cap c 3)\<rparr>"
  have "?read (price_caps (tier_parts numText ?n it)) = shown_tier numText ?n it" if it: "it \<in> set (enumerate 0 tiers)" for it
  proof -
    note r = enumerate_readable[OF assms(2) it]
    have b: "body_ok (numText (num_or_zero (vt_input (snd it)))) (numText (num_or_zero (vt_output (snd it)))) (cost_items numText (snd it))"
      using tier_parts_ok[OF r, of ?n] assms(1) by (simp add: tier_parts_def)
    have "list_all (condition_readable numText) (written_conditions ?n it)"
      using r by (cases it) (auto simp: written_conditions_def tier_readable_def)
    then have "list_all cond_ok (map (cond_parts numText) (written_conditions ?n it))" by (auto simp: list_all_iff condition_readable_def)
    from read_conditions_text[OF this] show ?thesis using shown_body[OF r b]
      by (auto simp: tier_parts_def shown_tier_def cap_def guard_caps_def conds_text_def read_cond_item_def cond_parts_def shown_condition_def)
  qed
  then have "map ?read (map price_caps (written_tiers numText tiers)) = map (shown_tier numText ?n) (enumerate 0 tiers)"
    unfolding written_tiers_def map_map by (intro map_cong) simp_all
  moreover have "map price_caps (written_tiers numText tiers) = map match_caps (match_all ?e tier_re ?e)"
    unfolding generate_text[OF assms(1)] using price_list.tiers_found[OF written_ok[OF assms] tail_no_tier(2)] by simp
  ultimately show ?thesis using generate_hd[OF assms] by (simp add: parseTiersFromExpr_def no_version Let_def comp_def)
qed

theorem price_list_shows_editor_prices_witness:
  "parseTiersFromExpr (generateExprFromVisualConfig sample_number sample_tiers) 
    = map (shown_tier sample_number (length sample_tiers)) (enumerate 0 sample_tiers)"
  by (rule price_list_shows_editor_prices[OF _ sample_tiers_readable]) (simp add: sample_tiers_def)

end
