(* ===== verification/Tier_Editor.thy ===== *)
theory Tier_Editor
  imports Tier_Roundtrip Billing_Rules "HOL-Library.Monad_Syntax"
begin

text \<open>
  \<open>features/system-settings/models/tiered-pricing-editor.tsx\<close>: the editor of tiered prices.  It has a visual mode,
  with a list of tiers and a list of request rules, and a mode for the expression as a text.  The sheet
  around it keeps the two expressions and passes them back with the name of the model.  A handler is a
  function on the state; \<open>None\<close> is an exception thrown by \<open>JSON.parse\<close>.  \<open>commit\<close> runs the effects of a
  rendering in the order in which React runs them: all of them see the values of that rendering, and
  what they set is visible in the next one.
\<close>

section \<open>Drafts of numbers and keys of rows\<close>

definition unitCostToPrice :: "jnum \<Rightarrow> jnum" where "unitCostToPrice uc = num_or_zero uc"
definition priceToUnitCost :: "jnum \<Rightarrow> jnum" where "priceToUnitCost price = num_or_zero price"

definition formatNumberDraft :: "(jnum \<Rightarrow> jstr) \<Rightarrow> CondValue \<Rightarrow> jstr" where
  "formatNumberDraft numText v =
     (case v of CondText t \<Rightarrow> t | CondNumber n \<Rightarrow> if is_finite n then numText n else js ''0'')"

definition parseNumberDraft :: "jstr \<Rightarrow> jnum" where
  "parseNumberDraft v = (if trim v = [] then Fin 0 else let n = js_number v in if is_finite n then n else Fin 0)"

definition isZeroDraft :: "jstr \<Rightarrow> bool" where
  "isZeroDraft v \<longleftrightarrow> trim v \<noteq> [] \<and> parseNumberDraft v = Fin 0"

text \<open>The keys that identify the rows of a list while it is edited.\<close>

record DraftKeys =
  dk_keys :: "jstr list"
  dk_next :: nat

definition draft_key :: "jstr \<Rightarrow> nat \<Rightarrow> jstr" where
  "draft_key pre n = pre @ js ''-'' @ show_nat n"

definition draft_init :: "jstr \<Rightarrow> nat \<Rightarrow> DraftKeys" where
  "draft_init pre n = \<lparr>dk_keys = map (draft_key pre) [0..<n], dk_next = n\<rparr>"

definition draft_render :: "jstr \<Rightarrow> nat \<Rightarrow> DraftKeys \<Rightarrow> DraftKeys" where
  "draft_render pre n k =
     (if length (dk_keys k) \<noteq> n
      then let added = n - length (dk_keys k) in
        \<lparr>dk_keys = take n (dk_keys k) @ map (\<lambda>i. draft_key pre (dk_next k + i)) [0..<added], dk_next = dk_next k + added\<rparr>
      else k)"

text \<open>\<open>xs.filter((_, i) => i !== index)\<close>.\<close>

definition remove_index :: "nat \<Rightarrow> 'a list \<Rightarrow> 'a list" where
  "remove_index i xs = map snd (filter (\<lambda>(j, _). j \<noteq> i) (enumerate 0 xs))"

definition draft_removeKey :: "nat \<Rightarrow> DraftKeys \<Rightarrow> DraftKeys" where
  "draft_removeKey i k = k\<lparr>dk_keys := remove_index i (dk_keys k)\<rparr>"

section \<open>The list of tiers\<close>

definition default_condition :: "jstr \<Rightarrow> TierConditionInput" where
  "default_condition v = \<lparr>ci_var = v, ci_op = OpLt, ci_value = CondNumber (Fin 200000)\<rparr>"

text \<open>A card of a tier: it changes a condition, removes one, changes a price and the cache mode.\<close>

definition handleConditionChange :: "nat \<Rightarrow> TierConditionInput \<Rightarrow> VisualTier \<Rightarrow> VisualTier" where
  "handleConditionChange i nxt tier = tier\<lparr>vt_conditions := (vt_conditions tier)[i := nxt]\<rparr>"

definition handleConditionRemove :: "nat \<Rightarrow> VisualTier \<Rightarrow> VisualTier" where
  "handleConditionRemove i tier = tier\<lparr>vt_conditions := remove_index i (vt_conditions tier)\<rparr>"

datatype PriceField = InputCost | OutputCost | ExtraCost jstr

definition handlePriceChange :: "PriceField \<Rightarrow> jnum \<Rightarrow> VisualTier \<Rightarrow> VisualTier" where
  "handlePriceChange field v tier =
     (case field of InputCost \<Rightarrow> tier\<lparr>vt_input := v\<rparr> | OutputCost \<Rightarrow> tier\<lparr>vt_output := v\<rparr>
      | ExtraCost f \<Rightarrow> tier\<lparr>vt_extra := (vt_extra tier)(f := v)\<rparr>)"

definition handleCacheModeChange :: "CacheMode \<Rightarrow> VisualTier \<Rightarrow> VisualTier" where
  "handleCacheModeChange mode tier =
     tier\<lparr>vt_cache_mode := mode, vt_extra := (vt_extra tier)(js ''cache_create_1h_unit_cost'' :=
       (if mode = CacheTimed then vt_extra tier (js ''cache_create_1h_unit_cost'') else Fin 0))\<rparr>"

text \<open>The list of cards.  \<open>config\<close> is normalised whenever the list is shown.\<close>

definition renormalize :: "VisualTier \<Rightarrow> VisualTier" where
  "renormalize t = normalizeVisualTier (partial_tier t)"

definition handleTierChange :: "nat \<Rightarrow> VisualTier \<Rightarrow> VisualTier list \<Rightarrow> VisualTier list" where
  "handleTierChange i nxt tiers = tiers[i := renormalize nxt]"

definition handleAddTier :: "VisualTier list \<Rightarrow> VisualTier list" where
  "handleAddTier tiers =
     (let lastIndex = length tiers - 1;
          ts = (if tiers \<noteq> [] \<and> vt_conditions (tiers ! lastIndex) = []
                then tiers[lastIndex := renormalize ((tiers ! lastIndex)\<lparr>vt_conditions := [default_condition (js ''len'')]\<rparr>)] else tiers) in
      ts @ [normalizeVisualTier \<lparr>pv_label = Some (js ''tier_'' @ show_nat (length ts + 1)), pv_conditions = Some [], pv_input = Some (Fin 0),
              pv_output = Some (Fin 0), pv_cache_mode = None, pv_extra = (\<lambda>_. None)\<rparr>])"

definition handleRemoveTier :: "nat \<Rightarrow> VisualTier list \<Rightarrow> VisualTier list" where
  "handleRemoveTier i tiers = (let ts = remove_index i tiers in if ts \<noteq> [] then ts else tiers)"

definition handleAddCondition :: "nat \<Rightarrow> VisualTier list \<Rightarrow> VisualTier list" where
  "handleAddCondition i tiers =
     (let tier = tiers ! i in
      if 2 \<le> length (vt_conditions tier) then tiers
      else let nextVar = (if js ''len'' \<in> set (map ci_var (vt_conditions tier)) then js ''c'' else js ''len'') in
        tiers[i := tier\<lparr>vt_conditions := vt_conditions tier @ [default_condition nextVar]\<rparr>])"

section \<open>The rows of a request rule\<close>

definition handleSourceChange :: "jstr \<Rightarrow> RequestCondition \<Rightarrow> RequestCondition" where
  "handleSourceChange src condition =
     (if src = js ''time'' then CTime createEmptyTimeCondition
      else if src = js ''header'' then CParam (createEmptyCondition\<lparr>ph_source := SourceHeader\<rparr>)
      else if src = js ''param'' then CParam (createEmptyCondition\<lparr>ph_source := SourceParam\<rparr>)
      else condition)"

definition handleMatchModeChange :: "jstr \<Rightarrow> RequestCondition \<Rightarrow> RequestCondition" where
  "handleMatchModeChange mode condition =
     (case condition of CTime t \<Rightarrow> CTime (t\<lparr>tm_mode := mode\<rparr>) | CParam p \<Rightarrow> CParam (p\<lparr>ph_mode := mode\<rparr>))"

definition handleRuleConditionChange :: "nat \<Rightarrow> RequestCondition \<Rightarrow> RequestRuleGroup \<Rightarrow> RequestRuleGroup" where
  "handleRuleConditionChange i nxt g = g\<lparr>rg_conditions := (rg_conditions g)[i := nxt]\<rparr>"

definition handleAddRuleCondition :: "bool \<Rightarrow> RequestRuleGroup \<Rightarrow> RequestRuleGroup" where
  "handleAddRuleCondition timeMode g =
     g\<lparr>rg_conditions := rg_conditions g @ [if timeMode then CTime createEmptyTimeCondition else CParam createEmptyCondition]\<rparr>"

definition handleRemoveRuleCondition :: "nat \<Rightarrow> RequestRuleGroup \<Rightarrow> RequestRuleGroup" where
  "handleRemoveRuleCondition i g = g\<lparr>rg_conditions := remove_index i (rg_conditions g)\<rparr>"

section \<open>The editor\<close>

datatype EditorMode = VisualMode | RawMode

text \<open>The state of the editor, and the properties the sheet keeps for it: the name of the model and the two
  expressions.  \<open>te_init\<close> is the name for which the editor was initialised.\<close>

record TieredPricingEditor =
  te_mode :: EditorMode
  te_config :: "VisualTier list option"
  te_raw :: jstr
  te_groups :: "RequestRuleGroup list"
  te_init :: "jstr option"
  te_modelName :: jstr
  te_expr :: jstr
  te_rules :: jstr

text \<open>\<open>tryParseRequestRuleExpr(e) || []\<close>.\<close>

definition parsed_groups :: "ExprEnv \<Rightarrow> jstr \<Rightarrow> RequestRuleGroup list option" where
  "parsed_groups env e = (case tryParseRequestRuleExpr env e of Throws \<Rightarrow> None | NoReading \<Rightarrow> Some [] | Reading gs \<Rightarrow> Some gs)"

definition canUseVisualRules :: "ExprEnv \<Rightarrow> TieredPricingEditor \<Rightarrow> bool option" where
  "canUseVisualRules env s =
     (if te_rules s = [] then Some True
      else case tryParseRequestRuleExpr env (te_rules s) of Throws \<Rightarrow> None | NoReading \<Rightarrow> Some False | Reading _ \<Rightarrow> Some True)"

definition rawParts :: "ExprEnv \<Rightarrow> TieredPricingEditor \<Rightarrow> SplitExpr option" where
  "rawParts env s = do {
     visual \<leftarrow> canUseVisualRules env s;
     if \<not> visual \<and> te_raw s = combineBillingExpr (te_expr s) (te_rules s)
     then Some \<lparr>se_billingExpr = te_expr s, se_requestRuleExpr = te_rules s\<rparr>
     else splitBillingExprAndRequestRules env (te_raw s) }"

definition config_expr :: "(jnum \<Rightarrow> jstr) \<Rightarrow> VisualTier list option \<Rightarrow> jstr" where
  "config_expr numText config = generateExprFromVisualConfig numText (case config of None \<Rightarrow> [] | Some tiers \<Rightarrow> tiers)"

definition effectiveExpr :: "(jnum \<Rightarrow> jstr) \<Rightarrow> ExprEnv \<Rightarrow> TieredPricingEditor \<Rightarrow> jstr option" where
  "effectiveExpr numText env s = do {
     parts \<leftarrow> rawParts env s;
     Some (if te_mode s = VisualMode then config_expr numText (te_config s) else se_billingExpr parts) }"

text \<open>The first rendering of the editor, and a change of what the sheet passes.\<close>

definition mount_editor :: "(jnum \<Rightarrow> jstr) \<Rightarrow> ExprEnv \<Rightarrow> jstr \<Rightarrow> jstr \<Rightarrow> jstr \<Rightarrow> TieredPricingEditor option" where
  "mount_editor numText env name expr rules = do {
     groups \<leftarrow> parsed_groups env rules;
     Some \<lparr>te_mode = VisualMode, te_config = tryParseVisualConfig numText expr, te_raw = combineBillingExpr expr rules,
       te_groups = groups, te_init = None, te_modelName = name, te_expr = expr, te_rules = rules\<rparr> }"

definition receive_props :: "jstr \<Rightarrow> jstr \<Rightarrow> jstr \<Rightarrow> TieredPricingEditor \<Rightarrow> TieredPricingEditor" where
  "receive_props name expr rules s = s\<lparr>te_modelName := name, te_expr := expr, te_rules := rules\<rparr>"

text \<open>The effects.  \<open>s\<close> is the rendering they belong to, \<open>t\<close> what was set so far.\<close>

definition init_effect :: "(jnum \<Rightarrow> jstr) \<Rightarrow> ExprEnv \<Rightarrow> TieredPricingEditor \<Rightarrow> TieredPricingEditor \<Rightarrow> TieredPricingEditor option" where
  "init_effect numText env s t =
     (if te_init s = Some (te_modelName s) then Some t
      else do {
        groups \<leftarrow> parsed_groups env (te_rules s);
        let t = t\<lparr>te_init := Some (te_modelName s), te_raw := combineBillingExpr (te_expr s) (te_rules s), te_groups := groups\<rparr>;
        Some (case tryParseVisualConfig numText (te_expr s) of
            Some config \<Rightarrow> t\<lparr>te_config := Some config, te_mode := VisualMode\<rparr>
          | None \<Rightarrow> if te_expr s \<noteq> [] then t\<lparr>te_config := None, te_mode := RawMode\<rparr>
              else t\<lparr>te_config := Some createDefaultVisualConfig\<rparr>) })"

definition expr_effect :: "(jnum \<Rightarrow> jstr) \<Rightarrow> ExprEnv \<Rightarrow> TieredPricingEditor \<Rightarrow> TieredPricingEditor \<Rightarrow> TieredPricingEditor option" where
  "expr_effect numText env s t = do {
     e \<leftarrow> effectiveExpr numText env s;
     Some (if e \<noteq> te_expr s then t\<lparr>te_expr := e\<rparr> else t) }"

definition rules_effect :: "ExprEnv \<Rightarrow> TieredPricingEditor \<Rightarrow> TieredPricingEditor \<Rightarrow> TieredPricingEditor option" where
  "rules_effect env s t = do {
     visual \<leftarrow> canUseVisualRules env s;
     Some (if te_mode s \<noteq> VisualMode \<or> \<not> visual then t
           else let ruleExpr = buildRequestRuleExpr env (te_groups s) in
             if ruleExpr \<noteq> te_rules s then t\<lparr>te_rules := ruleExpr\<rparr> else t) }"

text \<open>The effects of a rendering.  All of them run each time: an effect React skips because its dependencies are unchanged
  would set what is set already.\<close>

definition commit :: "(jnum \<Rightarrow> jstr) \<Rightarrow> ExprEnv \<Rightarrow> TieredPricingEditor \<Rightarrow> TieredPricingEditor option" where
  "commit numText env s = do {
     t \<leftarrow> init_effect numText env s s;
     t \<leftarrow> expr_effect numText env s t;
     rules_effect env s t }"

text \<open>Renderings follow one another until the effects change nothing.\<close>

primrec commits :: "nat \<Rightarrow> (jnum \<Rightarrow> jstr) \<Rightarrow> ExprEnv \<Rightarrow> TieredPricingEditor \<Rightarrow> TieredPricingEditor option" where
  "commits 0 numText env s = Some s"
| "commits (Suc n) numText env s = commit numText env s \<bind> commits n numText env"

definition settled :: "(jnum \<Rightarrow> jstr) \<Rightarrow> ExprEnv \<Rightarrow> TieredPricingEditor \<Rightarrow> bool" where
  "settled numText env s \<longleftrightarrow> commit numText env s = Some s"

text \<open>The handlers of the editor.\<close>

definition handleVisualChange :: "VisualTier list \<Rightarrow> TieredPricingEditor \<Rightarrow> TieredPricingEditor" where
  "handleVisualChange nxt s = s\<lparr>te_config := Some nxt\<rparr>"

definition handleRawChange :: "ExprEnv \<Rightarrow> jstr \<Rightarrow> TieredPricingEditor \<Rightarrow> TieredPricingEditor option" where
  "handleRawChange env v s = do {
     parts \<leftarrow> splitBillingExprAndRequestRules env v;
     Some (s\<lparr>te_raw := v, te_rules := se_requestRuleExpr parts\<rparr>) }"

definition handleModeChange :: "(jnum \<Rightarrow> jstr) \<Rightarrow> ExprEnv \<Rightarrow> EditorMode \<Rightarrow> TieredPricingEditor \<Rightarrow> TieredPricingEditor option" where
  "handleModeChange numText env nxt s =
     (case nxt of
        VisualMode \<Rightarrow> do {
          parts \<leftarrow> rawParts env s;
          groups \<leftarrow> parsed_groups env (se_requestRuleExpr parts);
          Some (s\<lparr>te_config := Some (case tryParseVisualConfig numText (se_billingExpr parts) of Some c \<Rightarrow> c | None \<Rightarrow> createDefaultVisualConfig),
                  te_groups := groups, te_rules := se_requestRuleExpr parts, te_mode := VisualMode\<rparr>) }
      | RawMode \<Rightarrow> do {
          visual \<leftarrow> canUseVisualRules env s;
          let expr = config_expr numText (te_config s);
          let ruleExpr = (if visual then buildRequestRuleExpr env (te_groups s) else te_rules s);
          let raw = combineBillingExpr expr ruleExpr;
          Some (s\<lparr>te_raw := (if raw \<noteq> [] then raw else expr), te_mode := RawMode\<rparr>) })"

record Preset =
  ps_key :: jstr
  ps_label :: jstr
  ps_expr :: jstr
  ps_requestRules :: "RequestRuleGroup list"

definition applyPreset :: "(jnum \<Rightarrow> jstr) \<Rightarrow> ExprEnv \<Rightarrow> Preset \<Rightarrow> TieredPricingEditor \<Rightarrow> TieredPricingEditor" where
  "applyPreset numText env preset s =
     (let ruleExpr = buildRequestRuleExpr env (ps_requestRules preset);
          combined = combineBillingExpr (ps_expr preset) ruleExpr;
          t = s\<lparr>te_raw := (if combined \<noteq> [] then combined else ps_expr preset), te_groups := ps_requestRules preset, te_rules := ruleExpr\<rparr> in
      case tryParseVisualConfig numText (ps_expr preset) of
        Some config \<Rightarrow> t\<lparr>te_config := Some config, te_mode := VisualMode\<rparr>
      | None \<Rightarrow> t\<lparr>te_mode := RawMode, te_config := None\<rparr>)"

definition handleRuleGroupsChange :: "RequestRuleGroup list \<Rightarrow> TieredPricingEditor \<Rightarrow> TieredPricingEditor" where
  "handleRuleGroupsChange nxt s = s\<lparr>te_groups := nxt\<rparr>"

end
