(* ===== verification/Tier_Switch.thy ===== *)
theory Tier_Switch
  imports Tier_Editor
begin

text \<open>
  Switching between the two modes of the price editor, and between models.  The expression the editor writes has
  balanced brackets, so it is found again when it is combined with request rules and split; with the round trips
  of tiers and rules, the visual mode comes back as it was left.
\<close>

section \<open>Written expressions as parts of a product\<close>

lemma balanced_call:
  assumes "bracket_free label" "body_ok i t xs"
  shows "balanced (call_text label (body_text i t xs))" "clear_of 42 0 (call_text label (body_text i t xs))"
proof -
  have "bracket_free (body_text i t xs)" using body_text_closed[OF _ assms(2)] by blast
  then have in_free: "bracket_free (34 # label @ js ''\", '' @ body_text i t xs)" using assms(1) by (auto simp: jstr_eval)
  have e: "call_text label (body_text i t xs) = js ''tier'' @ 40 # (34 # label @ js ''\", '' @ body_text i t xs) @ [41]"
    by (simp add: call_text_def jstr_eval)
  show "balanced (call_text label (body_text i t xs))" unfolding e
    by (intro balanced_append balanced_brackets balanced_bracket_free[OF in_free]) (simp add: balanced_bracket_free jstr_eval)
  have "clear_of 42 0 (40 # (34 # label @ js ''\", '' @ body_text i t xs) @ [41])"
    by (intro clear_brackets balanced_bracket_free[OF in_free]) simp
  moreover have "clear_of 42 0 (js ''tier'')" "nesting 0 (js ''tier'') = 0" by (simp_all add: jstr_eval depth_after_def)
  ultimately show "clear_of 42 0 (call_text label (body_text i t xs))" unfolding e clear_of_append by simp
qed

lemma cond_text_free: "cond_ok x \<Longrightarrow> k \<in> {40, 41, 42} \<Longrightarrow> k \<notin> set (cond_text x)"
proof -
  assume ok: "cond_ok x" "k \<in> {40, 41, 42}"
  obtain v q t where x: "x = (v, q, t)" by (cases x)
  have "k \<notin> set t" using ok x by (auto simp: list_all_iff cond_num_char_def is_digit_def)
  moreover have "k \<notin> set (op_text q)" using ok(2) by (cases q) (auto simp: jstr_eval)
  moreover have "k \<notin> set v" using ok x by (auto simp: jstr_eval)
  ultimately show ?thesis using x ok(2) by auto
qed

lemma conds_text_free: "list_all cond_ok cs \<Longrightarrow> k \<in> {40, 41, 42} \<Longrightarrow> k \<notin> set (conds_text cs)"
  by (induction cs rule: induct_list012) (auto simp: conds_text_def cond_text_free jstr_eval)

fun plain_label :: "tier_parts \<Rightarrow> bool" where
  "plain_label (cs, label, i, t, xs) \<longleftrightarrow> bracket_free label"

lemma written_tier_part:
  assumes "tier_ok w" "plain_label w"
  shows "balanced (tier_text w)" "clear_of 42 0 (tier_text w)" "last (tier_text w) = 41" "tier_text w \<noteq> []"
    "\<not> is_space (hd (tier_text w))" "hd (tier_text w) \<noteq> 40"
proof -
  obtain cs l i t xs where w: "w = (cs, l, i, t, xs)" by (cases w)
  let ?call = "call_text l (body_text i t xs)"
  have ok: "list_all cond_ok cs" "bracket_free l" "body_ok i t xs" using assms w by auto
  note call = balanced_call[OF ok(2,3)]
  have f: "bracket_free (conds_text cs @ js '' ? '')" "42 \<notin> set (conds_text cs @ js '' ? '')"
    using conds_text_free[OF ok(1)] by (auto simp: jstr_eval)
  have e: "tier_text w = (if cs = [] then ?call else (conds_text cs @ js '' ? '') @ ?call)" by (simp add: w guarded_text_def)
  show "balanced (tier_text w)" unfolding e using call(1) balanced_append[OF balanced_bracket_free[OF f(1)]] by simp
  show "clear_of 42 0 (tier_text w)" unfolding e using call(2) clear_bracket_free[OF f(1), of 0 42] f(2) nesting_bracket_free[OF f(1)] by simp
  show "last (tier_text w) = 41" "tier_text w \<noteq> []" "\<not> is_space (hd (tier_text w))" "hd (tier_text w) \<noteq> 40"
    using conds_text_hd[OF ok(1)] by (auto simp: e call_text_def jstr_eval)
qed

lemma clear_join: "clear_of k 0 sep \<Longrightarrow> balanced sep \<Longrightarrow> list_all (\<lambda>p. clear_of k 0 p \<and> balanced p) ps \<Longrightarrow> clear_of k 0 (join sep ps)"
  by (induction ps rule: induct_list012) (simp_all add: balanced_def)

lemma tiers_part:
  assumes "ws \<noteq> []" "list_all tier_ok ws" "list_all plain_label ws"
  defines "e \<equiv> join (js '' : '') (map tier_text ws)"
  shows "balanced e" "clear_of 42 0 e" "last e = 41" "e \<noteq> []" "\<not> is_space (hd e)" "hd e \<noteq> 40"
proof -
  have w: "balanced (tier_text w)" "clear_of 42 0 (tier_text w)" if "w \<in> set ws" for w
    using that assms(2,3) by (auto simp: list_all_iff intro: written_tier_part)
  have sep: "clear_of 42 0 (js '' : '')" "balanced (js '' : '')" by (simp_all add: jstr_eval depth_after_def balanced_bracket_free)
  show "balanced e" unfolding e_def using w by (intro balanced_join sep) (auto simp: list_all_iff)
  show "clear_of 42 0 e" unfolding e_def using w by (intro clear_join sep) (auto simp: list_all_iff)
  obtain v vs where v: "ws = v # vs" using assms(1) by (cases ws) auto
  note hd = written_tier_part(4-6)[of v]
  show "e \<noteq> []" "\<not> is_space (hd e)" "hd e \<noteq> 40" using hd assms(2,3) v by (auto simp: e_def join_concat_map)
  have "last (tier_text (last ws)) = 41" "tier_text (last ws) \<noteq> []"
    using assms(1-3) written_tier_part(3,4)[of "last ws"] by (auto simp: list_all_iff)
  then show "last e = 41" unfolding e_def using assms(1) last_join[of "map tier_text ws"] by (simp add: last_map)
qed

definition plain_labels :: "VisualTier list \<Rightarrow> bool" where
  "plain_labels tiers \<longleftrightarrow> list_all (\<lambda>t. bracket_free (vt_label t)) tiers"

lemma written_plain: "plain_labels tiers \<Longrightarrow> list_all plain_label (written_tiers numText tiers)"
proof -
  assume p: "plain_labels tiers"
  have "bracket_free (written_label n it)" if "it \<in> set (enumerate 0 tiers)" for n it
  proof -
    have "k \<notin> set (show_nat m)" if "k \<in> {40, 41}" for k m using show_nat_digits[of k m] that by (auto simp: is_digit_def)
    moreover have "bracket_free (vt_label (snd it))" using p in_enumerate[OF that] by (simp add: plain_labels_def list_all_iff)
    ultimately show ?thesis by (cases it) (auto simp: written_label_def jstr_eval)
  qed
  then show ?thesis by (auto simp: written_tiers_def list_all_iff tier_parts_def)
qed

lemma generate_base_ok:
  assumes "tiers \<noteq> []" "list_all (tier_readable numText) tiers" "plain_labels tiers"
  shows "base_ok (generateExprFromVisualConfig numText tiers)" "hd (generateExprFromVisualConfig numText tiers) \<noteq> 40"
proof -
  let ?e = "join (js '' : '') (map tier_text (written_tiers numText tiers))" and ?t = "written_tail tiers"
  note e = tiers_part[OF written_ok(2)[OF assms(1,2)] written_ok(1)[OF assms(1,2)] written_plain[OF assms(3)]]
  have last: "last (?e @ ?t) \<in> {41, 48}" "?t = [] \<or> last ?t = 48" using e(3) by (auto simp: written_tail_def jstr_eval)
  have "\<not> suffix (js '' : 1'') (?e @ ?t)"
  proof
    assume "suffix (js '' : 1'') (?e @ ?t)"
    then have "last (?e @ ?t) = 49" by (auto simp: suffix_def jstr_eval)
    with last(1) show False by simp
  qed
  moreover have "balanced (?e @ ?t)" by (intro balanced_append e) (simp add: written_tail_def balanced_bracket_free jstr_eval)
  moreover have "\<not> is_space (last (?e @ ?t))" using last(1) by (elim insertE) (simp_all add: is_space_def js_spaces_def)
  then have "trim (?e @ ?t) = ?e @ ?t" using e(4,5) by (intro trim_fixed) simp
  ultimately show "base_ok (generateExprFromVisualConfig numText tiers)" using e(4) by (simp add: base_ok_def generate_text[OF assms(1)])
  show "hd (generateExprFromVisualConfig numText tiers) \<noteq> 40" using e(4,6) by (simp add: generate_text[OF assms(1)])
qed

lemma no_bracket_no_rule: "multiply_split.part_ok p \<Longrightarrow> hd p \<noteq> 40 \<Longrightarrow> tryParseRequestRuleExpr env p = NoReading"
proof -
  assume p: "multiply_split.part_ok p" "hd p \<noteq> 40"
  then obtain x s where x: "p = x # s" "x \<noteq> 40" by (cases p) (auto simp: multiply_split.part_ok_def)
  have "regex_match rule_factor_re p = None" unfolding rule_factor_re_def x(1) rseq.simps
    by (intro regex_match_miss) (use x(2) in \<open>simp add: lit_def jstr_eval miss_char\<close>)
  then show ?thesis using part_read[OF p(1)] by (simp add: tryParseRuleGroupFactor_def)
qed

lemma no_rules_in_parts: "list_all (\<lambda>p. multiply_split.part_ok p \<and> hd p \<noteq> 40) ps \<Longrightarrow> rule_parts env ps = Some ([], ps)"
  by (induction ps) (auto simp: no_bracket_no_rule)

lemma split_without_rules:
  assumes "tiers \<noteq> []" "list_all (tier_readable numText) tiers" "plain_labels tiers"
  defines "b \<equiv> generateExprFromVisualConfig numText tiers"
  shows "splitBillingExprAndRequestRules env b = Some \<lparr>se_billingExpr = b, se_requestRuleExpr = []\<rparr>"
proof -
  let ?e = "join (js '' : '') (map tier_text (written_tiers numText tiers))"
  note e = tiers_part[OF written_ok(2)[OF assms(1,2)] written_ok(1)[OF assms(1,2)] written_plain[OF assms(3)]]
  have b: "trim b = b" "b \<noteq> []" using generate_base_ok(1)[OF assms(1-3)] by (simp_all add: b_def base_ok_def)
  obtain ps where ps: "b = join (js '' * '') ps" "ps \<noteq> []" "list_all (\<lambda>p. multiply_split.part_ok p \<and> hd p \<noteq> 40) ps"
  proof (cases "written_tail tiers = []")
    case True
    have "trim ?e = ?e" using e(3,4,5) by (intro trim_fixed) (simp add: is_space_def js_spaces_def)
    then show thesis using True e generate_text[OF assms(1), of numText] by (intro that[of "[?e]"]) (simp_all add: b_def multiply_split.part_ok_def balanced_def)
  next
    case False
    let ?a = "?e @ js '' : p''"
    have "trim ?a = ?a" using e(4,5) by (intro trim_fixed) (simp add: is_space_def js_spaces_def jstr_eval)
    moreover have "nesting 0 ?a = 0" "clear_of 42 0 ?a" using e(1,2) by (simp_all add: balanced_def jstr_eval depth_after_def)
    moreover have "trim (js ''0 + c'') = js ''0 + c''" "trim (js ''0'') = js ''0''" by code_simp+
    ultimately have l: "list_all (\<lambda>p. multiply_split.part_ok p \<and> hd p \<noteq> 40) [?a, js ''0 + c'', js ''0'']"
      using e(4,6) by (simp add: multiply_split.part_ok_def) (simp add: jstr_eval depth_after_def)
    have j: "b = join (js '' * '') [?a, js ''0 + c'', js ''0'']"
      using False generate_text[OF assms(1), of numText] by (simp add: b_def written_tail_def split: if_splits) (simp add: jstr_eval)
    show thesis by (rule that[OF j _ l]) simp
  qed
  have "splitTopLevelMultiply b = ps" unfolding ps(1) using ps(2,3) by (intro splitTopLevelMultiply_join) (auto simp: list_all_iff)
  then show ?thesis using b no_rules_in_parts[OF ps(3), of env] by (auto simp: splitBillingExprAndRequestRules_def Let_def)
qed

section \<open>From the visual mode to the text and back\<close>

text \<open>The combined expression of written tiers and readable rules comes apart as it was put together.\<close>

definition rules_ok :: "RequestRuleGroup list \<Rightarrow> bool" where
  "rules_ok gs \<longleftrightarrow> list_all group_ok gs \<and> \<not> list_ex unreadable_group gs"

lemma split_written:
  assumes "tiers \<noteq> []" "list_all (tier_readable numText) tiers" "plain_labels tiers" "json_quotes env" "rules_ok gs"
  defines "b \<equiv> generateExprFromVisualConfig numText tiers" and "r \<equiv> buildRequestRuleExpr env gs"
  shows "splitBillingExprAndRequestRules env (combineBillingExpr b r) = Some \<lparr>se_billingExpr = b, se_requestRuleExpr = r\<rparr>"
    "combineBillingExpr b r \<noteq> []"
proof -
  note ok = generate_base_ok[OF assms(1-3)]
  have b: "trim b = b" "b \<noteq> []" using ok(1) by (simp_all add: b_def base_ok_def)
  then have u: "unwrapOuterParens b = b"
    using ok(2) unwrap_loop.simps[of b] by (simp add: unwrapOuterParens_def hasFullOuterParens_def b_def)
  show "splitBillingExprAndRequestRules env (combineBillingExpr b r) = Some \<lparr>se_billingExpr = b, se_requestRuleExpr = r\<rparr>"
  proof (cases "gs = []")
    case True
    then have "r = []" "combineBillingExpr b r = b" using b by (simp_all add: r_def buildRequestRuleExpr_def combineBillingExpr_def Let_def)
    then show ?thesis using split_without_rules[OF assms(1-3)] by (simp add: b_def)
  next
    case False
    then show ?thesis using split_combined[OF assms(4) _ False ok(1)] assms(5) u by (simp add: rules_ok_def b_def r_def)
  qed
  show "combineBillingExpr b r \<noteq> []" using b by (simp add: combineBillingExpr_def Let_def)
qed

lemma rules_are_visual:
  assumes "json_quotes env" "rules_ok gs" "te_rules s = buildRequestRuleExpr env gs"
  shows "canUseVisualRules env s = Some True" "parsed_groups env (te_rules s) = Some (map fuse_group gs)"
  using rules_read[OF assms(1), of gs] assms(2,3) by (simp_all add: canUseVisualRules_def parsed_groups_def rules_ok_def)

lemma build_fused: "json_quotes env \<Longrightarrow> rules_ok gs \<Longrightarrow> buildRequestRuleExpr env (map fuse_group gs) = buildRequestRuleExpr env gs"
proof -
  assume q: "json_quotes env" "rules_ok gs"
  then have "list_all group_ok gs" "list_all group_ok (map fuse_group gs)" "map factor_text (map fuse_group gs) = map factor_text gs"
    using fuse_group_facts by (auto simp: rules_ok_def list_all_iff)
  then show ?thesis using build_factors[OF q(1)] by metis
qed

text \<open>The visual mode with written tiers and rules, synchronised with the sheet.\<close>

definition in_visual :: "(jnum \<Rightarrow> jstr) \<Rightarrow> ExprEnv \<Rightarrow> VisualTier list \<Rightarrow> RequestRuleGroup list \<Rightarrow> TieredPricingEditor \<Rightarrow> bool" where
  "in_visual numText env tiers gs s \<longleftrightarrow> te_mode s = VisualMode \<and> te_config s = Some tiers \<and> te_groups s = gs \<and> te_init s = Some (te_modelName s)
     \<and> te_expr s = generateExprFromVisualConfig numText tiers \<and> te_rules s = buildRequestRuleExpr env gs"

text \<open>C38. Leaving the visual mode and coming back keeps the prices: from a synchronised visual mode, switching to the
  expression shows an expression whose parts are the two expressions of the sheet, and switching back shows the
  tiers and rules as they are read back; the two expressions of the sheet never change, and the effects have
  nothing to do in either mode.\<close>

theorem mode_switch_keeps_prices:
  assumes "in_visual numText env tiers gs s" "tiers \<noteq> []" "list_all (tier_readable numText) tiers" "plain_labels tiers"
    "json_quotes env" "rules_ok gs"
  shows "\<exists>r v. handleModeChange numText env RawMode s = Some r \<and> settled numText env r
    \<and> te_expr r = te_expr s \<and> te_rules r = te_rules s
    \<and> handleModeChange numText env VisualMode r = Some v \<and> settled numText env v
    \<and> in_visual numText env (read_back numText tiers) (map fuse_group gs) v
    \<and> te_expr v = te_expr s \<and> te_rules v = te_rules s"
proof -
  let ?b = "generateExprFromVisualConfig numText tiers" and ?rules = "buildRequestRuleExpr env gs"
  have s: "te_mode s = VisualMode" "te_config s = Some tiers" "te_groups s = gs" "te_init s = Some (te_modelName s)" "te_expr s = ?b" "te_rules s = ?rules"
    using assms(1) by (simp_all add: in_visual_def)
  note split = split_written[OF assms(2-6)]
  define r where "r = s\<lparr>te_raw := combineBillingExpr ?b ?rules, te_mode := RawMode\<rparr>"
  define v where "v = r\<lparr>te_config := Some (read_back numText tiers), te_groups := map fuse_group gs, te_rules := ?rules, te_mode := VisualMode\<rparr>"
  have vis: "canUseVisualRules env t = Some True" if "te_rules t = ?rules" for t by (rule rules_are_visual(1)[OF assms(5,6) that])
  have read: "tryParseVisualConfig numText ?b = Some (read_back numText tiers)" "generateExprFromVisualConfig numText (read_back numText tiers) = ?b"
    using visual_config_readable[OF assms(2,3)] by simp_all
  have parts: "rawParts env t = Some \<lparr>se_billingExpr = ?b, se_requestRuleExpr = ?rules\<rparr>" if "te_raw t = combineBillingExpr ?b ?rules" "te_rules t = ?rules" for t
    using that vis[OF that(2)] split(1) by (simp add: rawParts_def)
  have "handleModeChange numText env RawMode s = Some r"
    using s vis[OF s(6)] split(2) by (simp add: handleModeChange_def config_expr_def r_def Let_def)
  moreover have "settled numText env r"
    using s parts[of r] vis[of r] by (simp add: settled_def commit_def init_effect_def expr_effect_def rules_effect_def effectiveExpr_def r_def)
  moreover have "handleModeChange numText env VisualMode r = Some v"
    using s parts[of r] read(1) rules_are_visual(2)[OF assms(5,6), of s] by (simp add: handleModeChange_def r_def v_def)
  moreover have "settled numText env v"
    using s parts[of v] vis[of v] read(2) build_fused[OF assms(5,6)]
    by (simp add: settled_def commit_def init_effect_def expr_effect_def rules_effect_def effectiveExpr_def config_expr_def r_def v_def)
  moreover have "in_visual numText env (read_back numText tiers) (map fuse_group gs) v"
    using s read(2) build_fused[OF assms(5,6)] by (simp add: in_visual_def r_def v_def)
  ultimately show ?thesis using s by (intro exI[of _ r] exI[of _ v]) (simp add: r_def v_def)
qed

section \<open>Another model\<close>

lemma commit_initialised:
  assumes "te_init s = Some (te_modelName s)" "rawParts env s = Some parts" "canUseVisualRules env s = Some True"
  shows "commit numText env s = Some (s\<lparr>
      te_expr := (if te_mode s = VisualMode then config_expr numText (te_config s) else se_billingExpr parts),
      te_rules := (if te_mode s = VisualMode then buildRequestRuleExpr env (te_groups s) else te_rules s)\<rparr>)"
  using assms by (auto simp: commit_def init_effect_def expr_effect_def rules_effect_def effectiveExpr_def Let_def)

text \<open>The first rendering after the change: the effects initialise the editor for the new model and publish
  the expressions of the old one.\<close>

lemma commit_other_model:
  assumes "in_visual numText env tiers gs s" "splitBillingExprAndRequestRules env (te_raw s) = Some parts" "name \<noteq> te_modelName s"
    "json_quotes env" "rules_ok gs'" "rules = buildRequestRuleExpr env gs'" "expr \<noteq> []"
  defines "t \<equiv> s\<lparr>te_modelName := name, te_init := Some name, te_raw := combineBillingExpr expr rules, te_groups := map fuse_group gs'\<rparr>"
  shows "commit numText env (receive_props name expr rules s) = Some (case tryParseVisualConfig numText expr of
      Some config \<Rightarrow> t\<lparr>te_config := Some config\<rparr> | None \<Rightarrow> t\<lparr>te_config := None, te_mode := RawMode\<rparr>)"
proof -
  let ?s = "receive_props name expr rules s"
  have s: "te_mode s = VisualMode" "te_config s = Some tiers" "te_groups s = gs" "te_init s = Some (te_modelName s)"
    "te_expr s = generateExprFromVisualConfig numText tiers" "te_rules s = buildRequestRuleExpr env gs"
    using assms(1) by (simp_all add: in_visual_def)
  have r: "te_rules ?s = buildRequestRuleExpr env gs'" using assms(6) by (simp add: receive_props_def)
  note vis = rules_are_visual[OF assms(4,5) r]
  have raw: "rawParts env ?s = Some parts" using vis(1) assms(2) by (simp add: rawParts_def receive_props_def)
  have "init_effect numText env ?s ?s = Some (case tryParseVisualConfig numText expr of
      Some config \<Rightarrow> t\<lparr>te_config := Some config, te_expr := expr, te_rules := rules\<rparr>
    | None \<Rightarrow> t\<lparr>te_config := None, te_mode := RawMode, te_expr := expr, te_rules := rules\<rparr>)"
    using assms(3,7) vis(2) s by (auto simp: init_effect_def receive_props_def t_def Let_def split: option.split)
  then show ?thesis using s raw vis(1)
    by (auto simp: commit_def expr_effect_def rules_effect_def effectiveExpr_def config_expr_def receive_props_def Let_def t_def split: option.split)
qed

text \<open>Opening another model that has a visual expression: whatever model was open before, after two renderings the
  editor shows the tiers and rules of the new model, and the sheet has its two expressions.\<close>

lemma other_visual_model_opens:
  assumes "in_visual numText env tiers gs s" "splitBillingExprAndRequestRules env (te_raw s) = Some parts" "name \<noteq> te_modelName s"
    "json_quotes env" "rules_ok gs" "rules_ok gs'" "tiers' \<noteq> []" "list_all (tier_readable numText) tiers'" "plain_labels tiers'"
  shows "\<exists>u. commits 2 numText env (receive_props name (generateExprFromVisualConfig numText tiers') (buildRequestRuleExpr env gs') s) = Some u
    \<and> settled numText env u \<and> in_visual numText env (read_back numText tiers') (map fuse_group gs') u \<and> te_modelName u = name
    \<and> te_expr u = generateExprFromVisualConfig numText tiers' \<and> te_rules u = buildRequestRuleExpr env gs'"
proof -
  let ?e = "generateExprFromVisualConfig numText tiers'" and ?r = "buildRequestRuleExpr env gs'"
  note read = visual_config_readable[OF assms(7,8)]
  have fused: "buildRequestRuleExpr env (map fuse_group gs') = ?r" by (rule build_fused[OF assms(4,6)])
  define t where "t = s\<lparr>te_modelName := name, te_init := Some name, te_raw := combineBillingExpr ?e ?r, te_groups := map fuse_group gs',
    te_config := Some (read_back numText tiers')\<rparr>"
  define u where "u = t\<lparr>te_expr := ?e, te_rules := ?r\<rparr>"
  have mode: "te_mode s = VisualMode" "te_rules s = buildRequestRuleExpr env gs" using assms(1) by (simp_all add: in_visual_def)
  have first: "commit numText env (receive_props name ?e ?r s) = Some t"
    using commit_other_model[OF assms(1-4,6) refl generate_hd(1)[OF assms(7,8)]] read by (simp add: t_def)
  have vt: "canUseVisualRules env t = Some True" using mode(2) by (intro rules_are_visual(1)[OF assms(4,5)]) (simp add: t_def)
  have vu: "canUseVisualRules env u = Some True" by (intro rules_are_visual(1)[OF assms(4,6)]) (simp add: u_def)
  have parts: "rawParts env x = Some \<lparr>se_billingExpr = ?e, se_requestRuleExpr = ?r\<rparr>"
    if "te_raw x = combineBillingExpr ?e ?r" "canUseVisualRules env x = Some True" for x
    using that split_written(1)[OF assms(7-9,4,6)] by (simp add: rawParts_def)
  have second: "commit numText env t = Some u"
    using commit_initialised[OF _ parts[OF _ vt] vt] mode read fused by (simp add: t_def u_def config_expr_def)
  have "commit numText env u = Some u"
    using commit_initialised[OF _ parts[OF _ vu] vu] mode read fused by (simp add: t_def u_def config_expr_def)
  then have "settled numText env u" by (simp add: settled_def)
  moreover have "commits 2 numText env (receive_props name ?e ?r s) = Some u" using first second by (simp add: numeral_2_eq_2)
  moreover have "in_visual numText env (read_back numText tiers') (map fuse_group gs') u"
    using mode(1) read fused by (simp add: in_visual_def u_def t_def)
  ultimately show ?thesis by (intro exI[of _ u]) (simp add: u_def t_def)
qed

text \<open>C39. Opening another model whose expression the visual mode cannot show gives it the request rules of the model
  that was open before: the first rendering publishes the old rules for the new model, and in the text mode
  nothing puts the rules of the new model back.\<close>

theorem other_model_inherits_rules:
  assumes "in_visual numText env tiers gs s" "splitBillingExprAndRequestRules env (te_raw s) = Some parts" "name \<noteq> te_modelName s"
    "json_quotes env" "rules_ok gs" "rules_ok gs'" "expr \<noteq> []" "tryParseVisualConfig numText expr = None"
    "splitBillingExprAndRequestRules env (combineBillingExpr expr (buildRequestRuleExpr env gs'))
      = Some \<lparr>se_billingExpr = expr, se_requestRuleExpr = buildRequestRuleExpr env gs'\<rparr>"
  shows "\<exists>u. commits 2 numText env (receive_props name expr (buildRequestRuleExpr env gs') s) = Some u
    \<and> settled numText env u \<and> te_mode u = RawMode \<and> te_modelName u = name \<and> te_expr u = expr
    \<and> te_rules u = buildRequestRuleExpr env gs"
proof -
  let ?r = "buildRequestRuleExpr env gs'"
  define t where "t = s\<lparr>te_modelName := name, te_init := Some name, te_raw := combineBillingExpr expr ?r, te_groups := map fuse_group gs',
    te_config := None, te_mode := RawMode\<rparr>"
  define u where "u = t\<lparr>te_expr := expr\<rparr>"
  have rules: "te_rules s = buildRequestRuleExpr env gs" using assms(1) by (simp add: in_visual_def)
  have first: "commit numText env (receive_props name expr ?r s) = Some t"
    using commit_other_model[OF assms(1-4,6) refl assms(7)] assms(8) by (simp add: t_def)
  have vis: "canUseVisualRules env x = Some True" if "te_rules x = te_rules s" for x
    using that rules by (intro rules_are_visual(1)[OF assms(4,5)]) simp
  have parts: "rawParts env x = Some \<lparr>se_billingExpr = expr, se_requestRuleExpr = ?r\<rparr>"
    if "te_raw x = combineBillingExpr expr ?r" "te_rules x = te_rules s" for x
    using that(1) vis[OF that(2)] assms(9) by (simp add: rawParts_def)
  have "commit numText env t = Some u" "commit numText env u = Some u"
    using commit_initialised[OF _ parts vis, of t] commit_initialised[OF _ parts vis, of u] by (simp_all add: t_def u_def)
  then show ?thesis using first rules by (intro exI[of _ u]) (simp add: settled_def numeral_2_eq_2 u_def t_def)
qed

text \<open>Coming back to the visual mode with an expression that mode cannot show replaces it by the default tier,
  and the next rendering gives the sheet an expression whose prices are all 0.\<close>

lemma unreadable_expression_replaced:
  assumes "te_mode s = RawMode" "te_init s = Some (te_modelName s)" "rawParts env s = Some parts" "tryParseVisualConfig numText (se_billingExpr parts) = None"
    "parsed_groups env (se_requestRuleExpr parts) = Some gs" "handleModeChange numText env VisualMode s = Some v"
    "rawParts env v = Some parts'" "canUseVisualRules env v = Some True"
  shows "\<exists>u. commit numText env v = Some u \<and> te_expr u = generateExprFromVisualConfig numText createDefaultVisualConfig"
proof -
  have "v = s\<lparr>te_config := Some createDefaultVisualConfig, te_groups := gs, te_rules := se_requestRuleExpr parts, te_mode := VisualMode\<rparr>"
    using assms(3-6) by (simp add: handleModeChange_def)
  then show ?thesis using commit_initialised[OF _ assms(7,8), of numText] assms(2) by (simp add: config_expr_def)
qed

section \<open>Samples\<close>

definition sample_editor :: TieredPricingEditor where
  "sample_editor = \<lparr>te_mode = VisualMode, te_config = Some sample_tiers, te_raw = js ''p'', te_groups = sample_rules,
     te_init = Some (js ''alpha''), te_modelName = js ''alpha'', te_expr = generateExprFromVisualConfig sample_number sample_tiers,
     te_rules = buildRequestRuleExpr sample_expr_env sample_rules\<rparr>"

lemma sample_editor_visual: "in_visual sample_number sample_expr_env sample_tiers sample_rules sample_editor"
  by (simp add: in_visual_def sample_editor_def)

lemma sample_facts: "sample_tiers \<noteq> []" "plain_labels sample_tiers" "rules_ok sample_rules" "rules_ok []"
  using sample_rules_ok by (simp_all add: sample_tiers_def plain_labels_def jstr_eval rules_ok_def)

lemma plain_text_splits: "splitTopLevelMultiply b = [b] \<Longrightarrow> trim b = b \<Longrightarrow> b \<noteq> [] \<Longrightarrow>
    splitBillingExprAndRequestRules env b = Some \<lparr>se_billingExpr = b, se_requestRuleExpr = []\<rparr>"
  by (simp add: splitBillingExprAndRequestRules_def Let_def)

lemma sample_raw: "splitBillingExprAndRequestRules sample_expr_env (te_raw sample_editor) = Some \<lparr>se_billingExpr = js ''p'', se_requestRuleExpr = []\<rparr>"
proof -
  have "splitTopLevelMultiply (js ''p'') = [js ''p'']" "trim (js ''p'') = js ''p''" by code_simp+
  then show ?thesis by (simp add: sample_editor_def plain_text_splits)
qed

theorem mode_switch_keeps_prices_witness:
  "\<exists>r v. handleModeChange sample_number sample_expr_env RawMode sample_editor = Some r \<and> handleModeChange sample_number sample_expr_env VisualMode r = Some v
    \<and> te_config v = Some (read_back sample_number sample_tiers) \<and> te_expr v = te_expr sample_editor \<and> te_rules v = te_rules sample_editor"
  using mode_switch_keeps_prices[OF sample_editor_visual sample_facts(1) sample_tiers_readable sample_facts(2) sample_quotes sample_facts(3)]
  by (auto simp: in_visual_def)

theorem other_model_inherits_rules_witness:
  "\<exists>u. commits 2 sample_number sample_expr_env (receive_props (js ''beta'') (js ''max(p, c)'') (buildRequestRuleExpr sample_expr_env []) sample_editor) = Some u
    \<and> te_modelName u = js ''beta'' \<and> te_expr u = js ''max(p, c)'' \<and> te_rules u = buildRequestRuleExpr sample_expr_env sample_rules
    \<and> te_rules u \<noteq> buildRequestRuleExpr sample_expr_env []"
proof -
  let ?e = "js ''max(p, c)''"
  have "js ''beta'' \<noteq> te_modelName sample_editor" by (simp add: sample_editor_def)
  note base = other_model_inherits_rules[OF sample_editor_visual sample_raw this sample_quotes sample_facts(3,4), of ?e]
  have "splitTopLevelMultiply ?e = [?e]" "trim ?e = ?e" "tryParseVisualConfig sample_number ?e = None" by code_simp+
  moreover from this have "splitBillingExprAndRequestRules sample_expr_env (combineBillingExpr ?e (buildRequestRuleExpr sample_expr_env []))
      = Some \<lparr>se_billingExpr = ?e, se_requestRuleExpr = buildRequestRuleExpr sample_expr_env []\<rparr>"
    by (simp add: combineBillingExpr_def buildRequestRuleExpr_def Let_def plain_text_splits)
  moreover have "buildRequestRuleExpr sample_expr_env sample_rules \<noteq> buildRequestRuleExpr sample_expr_env []"
  proof
    assume "buildRequestRuleExpr sample_expr_env sample_rules = buildRequestRuleExpr sample_expr_env []"
    then have "map fuse_group sample_rules = []"
      using rules_read[OF sample_quotes, of sample_rules] rules_read[OF sample_quotes, of "[]"] sample_facts(3) by (simp add: rules_ok_def)
    then show False by (simp add: sample_rules_def)
  qed
  ultimately show ?thesis using base by auto
qed

end
