(* ===== verification/Tier_Cards.thy ===== *)
theory Tier_Cards
  imports Tier_Editor
begin

text \<open>
  The list of tiers in the visual mode: every handler keeps the configuration well typed, that is, not empty, with
  finite costs, at most two conditions per tier and only conditions the source's types allow; and the keys of the
  rows stay with their rows.
\<close>

section \<open>Well-typed configurations\<close>

definition cond_typed :: "TierConditionInput \<Rightarrow> bool" where
  "cond_typed c \<longleftrightarrow> ci_var c \<in> {js ''p'', js ''c'', js ''len''} \<and> (case ci_value c of CondNumber n \<Rightarrow> is_finite n | CondText _ \<Rightarrow> False)"

definition tier_typed :: "VisualTier \<Rightarrow> bool" where
  "tier_typed t \<longleftrightarrow> is_finite (vt_input t) \<and> is_finite (vt_output t) \<and> list_all (\<lambda>(f, _). is_finite (vt_extra t f)) BILLING_CACHE_VAR_MAP
     \<and> list_all cond_typed (vt_conditions t) \<and> length (vt_conditions t) \<le> 2"

definition config_typed :: "VisualTier list \<Rightarrow> bool" where
  "config_typed tiers \<longleftrightarrow> tiers \<noteq> [] \<and> list_all tier_typed tiers"

text \<open>What the user does on a card, and in the list of cards.  A price arrives as the text of its field.  A changed condition
  arrives as the condition built from its fields, taken to hold a finite number; how its draft is read is not part of it.\<close>

datatype CardEdit = SetLabel jstr | SetCondition nat TierConditionInput | DropCondition nat | SetPrice PriceField jstr | SetCacheMode CacheMode

fun apply_card :: "CardEdit \<Rightarrow> VisualTier \<Rightarrow> VisualTier" where
  "apply_card (SetLabel l) t = t\<lparr>vt_label := l\<rparr>"
| "apply_card (SetCondition i c) t = handleConditionChange i c t"
| "apply_card (DropCondition i) t = handleConditionRemove i t"
| "apply_card (SetPrice f draft) t = handlePriceChange f (priceToUnitCost (parseNumberDraft draft)) t"
| "apply_card (SetCacheMode m) t = handleCacheModeChange m t"

fun card_allowed :: "CardEdit \<Rightarrow> bool" where
  "card_allowed (SetCondition i c) \<longleftrightarrow> cond_typed c"
| "card_allowed (SetPrice (ExtraCost f) draft) \<longleftrightarrow> f \<in> set (map fst BILLING_CACHE_VAR_MAP)"
| "card_allowed _ \<longleftrightarrow> True"

inductive config_step :: "VisualTier list \<Rightarrow> VisualTier list \<Rightarrow> bool" where
  Edit: "i < length tiers \<Longrightarrow> card_allowed e \<Longrightarrow> config_step tiers (handleTierChange i (apply_card e (tiers ! i)) tiers)"
| Add: "config_step tiers (handleAddTier tiers)"
| Remove: "config_step tiers (handleRemoveTier i tiers)"
| Condition: "i < length tiers \<Longrightarrow> config_step tiers (handleAddCondition i tiers)"
| Show: "config_step tiers (normalizeVisualConfig (Some tiers))"

inductive_cases config_stepE: "config_step tiers u"

lemma is_finite_or_zero [simp]: "is_finite n \<Longrightarrow> is_finite (num_or_zero n)"
  by (simp add: num_or_zero_def)

lemma parsed_draft_finite [simp]: "is_finite (parseNumberDraft v)"
  by (simp add: parseNumberDraft_def Let_def)

lemma remove_index_alt: "remove_index i xs = take i xs @ drop (Suc i) xs"
proof -
  have "map snd (filter (\<lambda>(j, _). j \<noteq> k + i) (enumerate k xs)) = take i xs @ drop (Suc i) xs" for k
  proof (induction xs arbitrary: k i)
    case (Cons x xs)
    have all: "filter (\<lambda>(j, _). j \<noteq> k) (enumerate (Suc k) xs) = enumerate (Suc k) xs" for k
      by (intro filter_True) (auto simp: in_set_enumerate_eq)
    show ?case
    proof (cases i)
      case 0
      then show ?thesis by (simp add: all)
    next
      case (Suc j)
      then show ?thesis using Cons[where k = "Suc k" and i = j] by simp
    qed
  qed simp
  from this[of 0] show ?thesis by (simp add: remove_index_def)
qed

lemma set_remove_index: "set (remove_index i xs) \<subseteq> set xs"
  by (auto simp: remove_index_alt dest: in_set_takeD in_set_dropD)

lemma length_remove_index: "length (remove_index i xs) \<le> length xs"
  by (simp add: remove_index_alt)

lemma typed_extra: "tier_typed t \<Longrightarrow> f \<in> set (map fst BILLING_CACHE_VAR_MAP) \<Longrightarrow> is_finite (vt_extra t f)"
  by (auto simp: tier_typed_def list_all_iff)

lemma typed_renormalize: "tier_typed t \<Longrightarrow> tier_typed (renormalize t)"
proof -
  assume t: "tier_typed t"
  have "list_all (\<lambda>(f, _). is_finite (vt_extra (renormalize t) f)) BILLING_CACHE_VAR_MAP"
    using typed_extra[OF t] by (auto simp: renormalize_def normalizeVisualTier_def partial_tier_def opt_number_def list_all_iff)
  moreover have "vt_input (renormalize t) = vt_input t" "vt_output (renormalize t) = vt_output t" "vt_conditions (renormalize t) = vt_conditions t"
    by (simp_all add: renormalize_def normalizeVisualTier_def partial_tier_def)
  ultimately show ?thesis using t by (simp add: tier_typed_def)
qed

lemma typed_card:
  assumes "card_allowed e" "tier_typed t"
  shows "tier_typed (apply_card e t)"
proof (cases e)
  case (SetPrice f draft)
  then show ?thesis using assms by (cases f) (auto simp: tier_typed_def handlePriceChange_def priceToUnitCost_def list_all_iff)
next
  case (DropCondition i)
  then show ?thesis using assms set_remove_index[of i "vt_conditions t"] length_remove_index[of i "vt_conditions t"]
    by (auto simp: tier_typed_def handleConditionRemove_def list_all_iff)
next
  case (SetCondition i c)
  then show ?thesis using assms set_update_subset_insert[of "vt_conditions t" i c] by (auto simp: tier_typed_def handleConditionChange_def list_all_iff)
qed (use assms in \<open>auto simp: tier_typed_def handleCacheModeChange_def list_all_iff\<close>)

lemma typed_update: "list_all P xs \<Longrightarrow> P x \<Longrightarrow> list_all P (xs[i := x])"
  using set_update_subset_insert[of xs i x] by (auto simp: list_all_iff)

lemma typed_default_condition: "v \<in> {js ''p'', js ''c'', js ''len''} \<Longrightarrow> cond_typed (default_condition v)"
  by (simp add: cond_typed_def default_condition_def)

lemma typed_new_tier: "tier_typed (normalizeVisualTier \<lparr>pv_label = Some l, pv_conditions = Some [], pv_input = Some (Fin 0),
    pv_output = Some (Fin 0), pv_cache_mode = m, pv_extra = (\<lambda>_. None)\<rparr>)"
  by (simp add: tier_typed_def normalizeVisualTier_def opt_number_def list_all_iff case_prod_beta)

lemma typed_add_tier: "config_typed tiers \<Longrightarrow> config_typed (handleAddTier tiers)"
proof -
  assume c: "config_typed tiers"
  let ?t = "tiers ! (length tiers - 1)"
  have "tier_typed ?t" using c by (simp add: config_typed_def list_all_length)
  then have "tier_typed (renormalize (?t\<lparr>vt_conditions := [default_condition (js ''len'')]\<rparr>))"
    by (intro typed_renormalize) (simp add: tier_typed_def typed_default_condition)
  then show ?thesis using c by (auto simp: config_typed_def handleAddTier_def Let_def typed_update typed_new_tier)
qed

lemma typed_add_condition: "config_typed tiers \<Longrightarrow> i < length tiers \<Longrightarrow> config_typed (handleAddCondition i tiers)"
proof -
  assume c: "config_typed tiers" "i < length tiers"
  let ?t = "tiers ! i"
  have "tier_typed ?t" using c by (simp add: config_typed_def list_all_length)
  then have "tier_typed (?t\<lparr>vt_conditions := vt_conditions ?t @ [default_condition v]\<rparr>)"
    if "\<not> 2 \<le> length (vt_conditions ?t)" "v \<in> {js ''p'', js ''c'', js ''len''}" for v
    using that by (simp add: tier_typed_def typed_default_condition)
  then show ?thesis using c by (auto simp: config_typed_def handleAddCondition_def Let_def typed_update)
qed

lemma config_step_typed: "config_step tiers u \<Longrightarrow> config_typed tiers \<Longrightarrow> config_typed u"
proof (induction rule: config_step.induct)
  case (Edit i tiers e)
  then have "tier_typed (tiers ! i)" by (simp add: config_typed_def list_all_length)
  with Edit show ?case by (simp add: config_typed_def handleTierChange_def typed_update typed_renormalize typed_card)
next
  case (Remove tiers i)
  then show ?case using set_remove_index[of i tiers] by (auto simp: config_typed_def handleRemoveTier_def Let_def list_all_iff)
next
  case (Show tiers)
  then show ?case by (auto simp: config_typed_def normalizeVisualConfig_def list_all_iff simp flip: renormalize_def intro: typed_renormalize)
qed (simp_all add: typed_add_tier typed_add_condition)

text \<open>C40. The list of tiers stays well typed: after any sequence of edits on a well-typed configuration there is a tier,
  every cost is a finite number whatever texts were typed into the fields, every condition compares one of the
  three variables with a finite number, and no tier has more than two conditions.\<close>

theorem edited_config_typed:
  assumes "config_step\<^sup>*\<^sup>* tiers u" "config_typed tiers"
  shows "config_typed u"
  using assms(1) by (induction rule: rtranclp_induct) (auto intro: config_step_typed assms(2))

lemma default_config_typed: "config_typed createDefaultVisualConfig"
  by (simp add: createDefaultVisualConfig_def config_typed_def typed_new_tier)

theorem edited_config_typed_witness:
  "config_typed (handleTierChange 0 (apply_card (SetPrice InputCost (js ''1e999x'')) (createDefaultVisualConfig ! 0)) createDefaultVisualConfig)"
proof -
  have "config_step createDefaultVisualConfig
      (handleTierChange 0 (apply_card (SetPrice InputCost (js ''1e999x'')) (createDefaultVisualConfig ! 0)) createDefaultVisualConfig)"
    by (rule config_step.Edit) (simp_all add: createDefaultVisualConfig_def)
  from edited_config_typed[OF r_into_rtranclp[of config_step, OF this] default_config_typed] show ?thesis .
qed

text \<open>A new tier leaves no tier before it without conditions; but the conditions of a tier that is not the last one
  can be removed, and then the expression has a colon without a question mark.\<close>

definition guarded :: "VisualTier list \<Rightarrow> bool" where
  "guarded tiers \<longleftrightarrow> list_all (\<lambda>t. vt_conditions t \<noteq> []) (butlast tiers)"

lemma add_tier_guarded: "guarded tiers \<Longrightarrow> guarded (handleAddTier tiers)"
proof -
  assume g: "guarded tiers"
  have r: "vt_conditions (renormalize t) = vt_conditions t" for t by (simp add: renormalize_def normalizeVisualTier_def partial_tier_def)
  show ?thesis
  proof (cases tiers rule: rev_cases)
    case (snoc ts t)
    then show ?thesis using g by (auto simp: guarded_def handleAddTier_def Let_def nth_append list_all_iff r butlast_append)
  qed (simp add: guarded_def handleAddTier_def Let_def)
qed

lemma colon_without_question_mark:
  \<open>generateExprFromVisualConfig (\<lambda>n. js ''0'')
     (let tiers = handleAddTier createDefaultVisualConfig in handleTierChange 0 (apply_card (DropCondition 0) (tiers ! 0)) tiers)
   = js ''tier("base", p * 0 + c * 0) : tier("tier_2", p * 0 + c * 0)''\<close>
  by code_simp

section \<open>The keys of the rows\<close>

definition draft_inv :: "jstr \<Rightarrow> DraftKeys \<Rightarrow> bool" where
  "draft_inv pre k \<longleftrightarrow> distinct (dk_keys k) \<and> set (dk_keys k) \<subseteq> draft_key pre ` {..<dk_next k}"

lemma draft_key_inj: "draft_key pre m = draft_key pre n \<longleftrightarrow> m = n"
  by (simp add: draft_key_def show_nat_inject)

lemma draft_init_inv: "draft_inv pre (draft_init pre n)"
  by (auto simp: draft_inv_def draft_init_def distinct_map inj_on_def draft_key_inj)

lemma draft_render_inv:
  assumes "draft_inv pre k"
  shows "draft_inv pre (draft_render pre n k)"
proof -
  have k: "distinct (dk_keys k)" "set (dk_keys k) \<subseteq> draft_key pre ` {..<dk_next k}" using assms by (simp_all add: draft_inv_def)
  have "set (take n (dk_keys k)) \<inter> set (map (\<lambda>i. draft_key pre (dk_next k + i)) [0..<m]) = {}" for m
    using k(2) by (fastforce simp: draft_key_inj dest: in_set_takeD)
  moreover have "distinct (map (\<lambda>i. draft_key pre (dk_next k + i)) [0..<m])" for m
    by (simp add: distinct_map inj_on_def draft_key_inj)
  moreover have "set (take n (dk_keys k)) \<subseteq> draft_key pre ` {..<dk_next k + m}" for m
    using k(2) by (fastforce dest: in_set_takeD)
  ultimately show ?thesis using assms k(1) by (auto simp: draft_inv_def draft_render_def Let_def)
qed

lemma draft_remove_inv: "draft_inv pre k \<Longrightarrow> draft_inv pre (draft_removeKey i k)"
  using set_remove_index[of i "dk_keys k"]
  by (auto simp: draft_inv_def draft_removeKey_def remove_index_alt set_take_disj_set_drop_if_distinct)

lemma length_draft_render: "length (dk_keys (draft_render pre n k)) = n"
  by (auto simp: draft_render_def Let_def)

text \<open>The keys of the rows stay with their rows: removing a row removes its key and no other, appended rows get keys that
  no row had, and no two rows share a key.\<close>

lemma row_keys_follow_rows:
  assumes "draft_inv pre k" "length (dk_keys k) = length rows" "i < length rows"
  shows "draft_inv pre (draft_render pre (length (remove_index i rows)) (draft_removeKey i k))
    \<and> zip (dk_keys (draft_render pre (length (remove_index i rows)) (draft_removeKey i k))) (remove_index i rows) = remove_index i (zip (dk_keys k) rows)
    \<and> draft_inv pre (draft_render pre (length (rows @ new)) k)
    \<and> take (length rows) (zip (dk_keys (draft_render pre (length (rows @ new)) k)) (rows @ new)) = zip (dk_keys k) rows
    \<and> length (dk_keys (draft_render pre (length (rows @ new)) k)) = length (rows @ new)"
proof -
  have "dk_keys (draft_render pre (length (remove_index i rows)) (draft_removeKey i k)) = remove_index i (dk_keys k)"
    using assms(2) by (simp add: draft_render_def draft_removeKey_def remove_index_alt)
  moreover have "zip (remove_index i (dk_keys k)) (remove_index i rows) = remove_index i (zip (dk_keys k) rows)"
    using assms(2) by (simp add: remove_index_alt zip_append take_zip drop_zip)
  moreover have "take (length rows) (dk_keys (draft_render pre (length (rows @ new)) k)) = dk_keys k"
    using assms(2) by (auto simp: draft_render_def Let_def)
  ultimately show ?thesis
    using draft_render_inv[OF draft_remove_inv[OF assms(1)]] draft_render_inv[OF assms(1)] by (simp add: length_draft_render take_zip)
qed

end
