(* ===== verification/Spec2Isabelle.thy ===== *)
theory Spec2Isabelle
  imports Status_Rules Http_Client Oauth_Bind Login_Codes Access_Control Playground_Options Playground_Chat Keyword_Highlight
    Model_Mapping Route_Editor Channel_Form Sensitive_Rules Price_Variants Flow_Display Billing_Rules Tier_Prices Tier_Switch Tier_Cards
begin

text \<open>
  \<^bold>\<open>The program.\<close>  The repository is an API gateway with a web console.  The console
  (\<open>web/src\<close>, TypeScript and React) is the subject of this development; the gateway itself is written
  in Go and is not.  The console keeps a login session shared by the tabs of a browser, offers a
  playground in which a user talks to a model over a streamed request, and holds the forms in which
  an administrator configures channels, rules and prices.  The theories model the parts of the
  console that decide something: the session and its refresh protocol, the playground from the key
  press to the stored conversation, and the parsers, normalisers and checks behind the forms.

  \<^bold>\<open>Conventions.\<close>  A JavaScript string is a list of UTF-16 code units (\<open>Js_Prelude\<close>), a value of
  unknown type is a \<open>jval\<close> (\<open>Js_Value\<close>).  A TypeScript interface is a record, a union a datatype, an
  optional property an \<open>option\<close>.  A number is a rational, with the infinities and NaN where they can
  occur; the modelled code compares, counts and adds numbers and does not depend on rounding.  State
  is passed explicitly; asynchronous code is cut at its awaits, and what may happen in between is a
  step of a relation or an argument.  Readings of the clock, fresh identifiers, translations,
  \<open>JSON.parse\<close> and \<open>JSON.stringify\<close>, \<open>toLowerCase\<close>, timers, browser locks, axios and i18next are
  arguments.  What a theorem assumes of them is among its premises.

  \<^bold>\<open>Libraries.\<close>
  \<^item> \<open>Js_Prelude\<close>: strings, trimming, splitting, searching, sets of seen keys.
  \<^item> \<open>Js_Value\<close>: numbers, values, objects, run-time tests, code that may throw, and the locale \<open>normaliser\<close>,
    the contract of a function that brings a value into its normal form; interpreted by the routes and
    the configurations of \<open>Channel_Routes\<close>.
  \<^item> \<open>Range_Merge\<close>: the locale \<open>range_merge\<close>, the contract of a left-to-right range merger;
    interpreted by \<open>Status_Rules\<close> and \<open>Keyword_Highlight\<close>.
  \<^item> \<open>Js_Collections\<close>: comparators and stable sorting, insertion-ordered maps with update or insert,
    and the locale \<open>tally\<close>, the contract of a map whose entries collect sums; interpreted by the
    nodes, the links, the rankings and the filter options of the flow graph.
  \<^item> \<open>Js_Regex\<close>: regular expressions with ordered backtracking, captures and back references, and the
    rules that compute the match of a pattern on a written text.

  \<^bold>\<open>Session.\<close>
  \<^item> \<open>Auth_Sync\<close> (\<open>lib/auth-session-sync.ts\<close>): the events tabs exchange.  A published event is
    delivered within a minute and never to its own tab.
  \<^item> \<open>Auth_Session\<close> (\<open>stores/auth-store.ts\<close>, \<open>lib/auth-session.ts\<close>): the store, the operations on it,
    and the refresh runner over its record of callbacks.  The runner retries after 80, 200 and 500
    milliseconds and again when another tab has refreshed; a run terminates because each round
    uses up a delay or its one synchronisation.
  \<^item> \<open>Auth_Refresh\<close>: the locales \<open>refresh_runtime\<close> and \<open>runtime_invariant\<close>, what the runner promises
    for any callbacks that keep the contract: a refresh overtaken by a newer session change writes
    nothing, at most eight requests are sent.
  \<^item> \<open>Auth_World\<close>: the whole tab, its environment and its reachable states; interpretations of both
    locales; the credentials are present or absent together, the outcome of a refresh matches the
    store, a sign-out reaches the other tabs, a browser lock that is refused is not handled.
  \<^item> \<open>Http_Client\<close> (\<open>lib/http-client.ts\<close>, \<open>lib/server-error-message.ts\<close>): the interceptors over the
    tab of \<open>Auth_World\<close>, and the sharing of GET requests.  A request settles after at most one
    refresh and one retry, the retry carries the refreshed token, a second refusal signs the tab
    out, and a GET is shared only within its login session.  A script of two answers is enough
    because a retried request is not retried again.
  \<^item> \<open>Auth_Entry\<close> (\<open>features/auth/lib/auth-redirect.ts\<close>, \<open>storage.ts\<close>, \<open>use-auth-redirect.ts\<close>, the sign-in and
    callback routes): a tab with its storages, the session of \<open>Auth_Session\<close> and the places it is sent to.
    A sign-in leads to a safe place; a target on another site is kept and reached once, except through
    OAuth, where it is left behind.
  \<^item> \<open>Oauth_Bind\<close> (\<open>oauth-callback-mode.ts\<close>, \<open>oauth-bind-window.ts\<close>, \<open>account-bindings-tab.tsx\<close>,
    \<open>routes/oauth/$provider.tsx\<close>): the profile tab and its popups as a step relation with foreign messages;
    an invariant gives the agreement of every exchange with its binding, only the pending binding hears
    messages, a waiting popup ends, and a binding can be completed from every state.
  \<^item> \<open>Login_Codes\<close> (\<open>validation.ts\<close>, \<open>otp-form.tsx\<close>, \<open>telegram-login.ts\<close>, \<open>lib/legacy-route.ts\<close>): codes and what
    the form of the second factor sends, providers, and the redirection of former addresses, which ends
    after one step.
  \<^item> \<open>Access_Control\<close> (\<open>lib/admin-permissions.ts\<close>, \<open>lib/roles.ts\<close>, \<open>features/keys/lib/group-selection.ts\<close>):
    permission matrices and group selections.

  \<^bold>\<open>Playground\<close> (\<open>features/playground\<close>).
  \<^item> \<open>Playground_Messages\<close> (\<open>lib/message\<close>): messages, think tags, streamed text and its end.  The tag
    parser is shown equal to a division of the text stated without positions.
  \<^item> \<open>Playground_Conversation\<close>: sending, regenerating, editing, the request payload, display states.
  \<^item> \<open>Playground_Storage\<close> (\<open>lib/storage\<close>): schemas, limits (100 messages, 40000 and 120000 code units,
    a text of 1048576), repair on loading; round trips and where they end.
  \<^item> \<open>Playground_Options\<close>: model and group options, input state, parameters.
  \<^item> \<open>Playground_Stream\<close> (\<open>hooks/use-stream-request.ts\<close>, \<open>lib/streaming\<close>): the stream controller as a step
    relation; its invariant gives the protocol a request hears and that no source is leaked.
  \<^item> \<open>Playground_Chat\<close> (\<open>hooks/use-chat-handler.ts\<close>): generations, collected chunks, React's update
    queue; superseded requests are inert, a completed stream leaves a complete answer whose text is put
    together from the chunks received.

  \<^bold>\<open>Forms.\<close>
  \<^item> \<open>Status_Rules\<close> (\<open>lib/http-status-code-rules.ts\<close>): parsing and normal form of status code rules.
  \<^item> \<open>Keyword_Highlight\<close> (\<open>features/security-audit/matched-keyword-highlight.ts\<close>): which code points are
    highlighted, and that marking keeps the text.
  \<^item> \<open>Model_Mapping\<close> (\<open>features/channels/lib/model-mapping-validation.ts\<close>): model lists and redirections.
  \<^item> \<open>Channel_Routes\<close> (\<open>features/channels/lib/advanced-custom.ts\<close>): the routes of advanced custom channels.  A
    configuration comes from a text and is cast without a check, so its fields are values of any type
    and every function may throw.  The validation accepts exactly the lists of routes that are in order
    and leave no choice, texts are read back in their normal form, and whatever the console offers is
    accepted.
  \<^item> \<open>Route_Editor\<close> (\<open>features/channels/components/dialogs/advanced-custom-editor-dialog.tsx\<close>): the dialog for these
    routes as a step relation over its handlers.  Every row keeps its own key, the order of the
    catch-alls is repaired without touching anything else, only accepted routes are saved; and two
    faults: the button of the visual mode discards the edits, and a comma cannot be typed.
  \<^item> \<open>Channel_Form\<close> (\<open>features/channels/lib/channel-form.ts\<close>, \<open>hooks/use-channel-mutate-form.ts\<close>): the schema of the channel
    form, reading a channel into it, and what is sent.  The settings are written by a list of steps over
    the properties the channel had; each step is read off the saved channel, which gives what an opened
    channel shows and that saving again what the form has saved changes nothing.  A user without the permission sends
    no sensitive field; the type with routes saves an accepted configuration.
  \<^item> \<open>Sensitive_Rules\<close> (\<open>features/system-settings/request-limits/sensitive-rule-config.ts\<close>): rules, drafts
    and the way back.
  \<^item> \<open>Price_Variants\<close> (\<open>lib/model-price-variants.ts\<close>, \<open>features/pricing/lib/fixed-price.ts\<close>): validation of
    price variants, and the two routines for a price range compared.

  \<^bold>\<open>Dashboard\<close> (\<open>features/dashboard/lib/flow.ts\<close>, \<open>flow-selection.ts\<close>).
  \<^item> \<open>Flow_Path\<close>: usage rows, the path of a row through the visible columns, the filters on rows.
  \<^item> \<open>Flow_Graph\<close>: the limit per column, the collection of paths into nodes and links, masking,
    highlighting, order, shares and colours.
  \<^item> \<open>Flow_Conservation\<close>: the graph refines the flow of its paths; what enters a node leaves it, and every
    column carries the total; the shares between two columns sum to one.
  \<^item> \<open>Flow_Display\<close>: summary, filter options, the data given to the chart and the reading of a click.
    The number beside an option is the total after choosing it, masking hides the sensitive labels (but not
    that of an item named as the overflow node) and changes nothing else, a selection lights up whole paths, the limit keeps the greatest nodes.

  \<^bold>\<open>Prices\<close> (\<open>features/pricing/lib\<close>).
  \<^item> \<open>Billing_Expr\<close> (\<open>billing-expr.ts\<close>): billing expressions, their readers with the patterns of the
    source over the matcher of \<open>Js_Regex\<close>, and the writers of the editor.
  \<^item> \<open>Billing_Texts\<close>: the locale \<open>top_splitter\<close>, interpreted for the two splitters at the top level; what
    each pattern makes of the written texts.
  \<^item> \<open>Billing_Rules\<close>: the round trips between the rows of the editor, expressions and combined
    expressions; an expression with a comparison of a parameter is refused as a whole.
  \<^item> \<open>Tier_Expr\<close> (\<open>tier-expr.ts\<close>): the tiers of the visual editor, the expression written for them and its
    reader.
  \<^item> \<open>Tier_Texts\<close>: what the patterns make of a written tier; the locale \<open>tier_pattern\<close>, a pattern that finds
    the tiers of an expression one after the other, interpreted for the editor and for the price list.
  \<^item> \<open>Tier_Roundtrip\<close>: the editor reads back what it writes.
  \<^item> \<open>Tier_Prices\<close>: the price list shows the prices the editor has written.
  \<^item> \<open>Tier_Editor\<close> (\<open>system-settings/models/tiered-pricing-editor.tsx\<close>): the state of the price editor, its handlers and
    its effects, which see the values of the rendering they belong to.
  \<^item> \<open>Tier_Switch\<close>: switching between the visual mode and the text keeps the prices; opening another model, with
    the case in which it inherits the rules of the model open before.
  \<^item> \<open>Tier_Cards\<close>: the list of tiers stays well typed, and the keys of the rows stay with their rows.

  \<^bold>\<open>This theory\<close> composes the route editor with the channel form, as the drawer of a channel
  (\<open>channel-mutate-drawer.tsx\<close>) does: what the dialog hands over is what the form saves.

  \<^bold>\<open>Not modelled.\<close>  React components, styling, routing, charts, translations and generated files hold no
  logic of the kind stated here.  Of the sign-in, passkeys and the consent to legal terms are left out.  The dynamic
  prices of the price list are number formatting over the tiers of \<open>Billing_Expr\<close>, and the page state hook of the
  playground passes the operations of \<open>Playground_Storage\<close> and \<open>Playground_Options\<close> to React; neither is
  modelled.  Of the channel drawer only its use of the route editor is.
\<close>

section \<open>The route editor of the channel form\<close>

text \<open>The drawer opens the dialog on the routes of the form and takes over what it hands back.\<close>

definition drawer_editor_env :: "FormEnv \<Rightarrow> EditorEnv" where
  "drawer_editor_env env = \<lparr>env_parse = fe_parse env, env_stringify = fe_stringify env, env_url = form_url env\<rparr>"

definition drawer_editor :: "FormEnv \<Rightarrow> ChannelFormValues \<Rightarrow> EditorState" where
  "drawer_editor env f = open_editor (drawer_editor_env env) (str_of (js_or (cs_advanced_custom (form_other f)) (JStr [])))"

definition drawer_save_routes :: "jstr \<Rightarrow> ChannelFormValues \<Rightarrow> ChannelFormValues" where
  "drawer_save_routes nextValue f = f\<lparr>form_other := (form_other f)\<lparr>cs_advanced_custom := JStr nextValue\<rparr>\<rparr>"

text \<open>C34. From the dialog to the server.  Whatever the user does in the dialog the drawer opens, the text it hands over is
  that of a configuration the validation accepts; put into the form, where \<open>JSON\<close> reads back what it
  wrote, it passes the validation of the routes (whether a base URL is needed is not part of it) and is saved as this
  configuration, whatever the other fields and the former settings are.\<close>

theorem edited_routes_saved:
  assumes "editor_run (drawer_editor_env env) (drawer_editor env f) evs st" and "text \<in> set (ed_saved st)"
    and "has_type [CHANNEL_TYPE_ADVANCED_CUSTOM] (cb_type (form_base f))"
  shows "\<exists>c. text = fe_stringify env (config_object c) \<and> validateAdvancedCustomConfig (form_url env) (Some c) = Inr None
     \<and> (json_keeps (fe_parse env) (fe_stringify env) (config_object c) \<longrightarrow>
          validateAdvancedCustomConfig (form_url env) (form_routes env (drawer_save_routes text f)) = Inr None
          \<and> map_of (settings_props env (drawer_save_routes text f)) (js ''advanced_custom'') = Some (config_object c))"
proof -
  let ?e = "drawer_editor_env env"
  have "saved_ok ?e st"
    by (rule run_saved_ok[OF assms(1)]) (simp add: saved_ok_def drawer_editor_def open_editor_def Let_def)
  then obtain c where c: "ed_saved st = [env_stringify ?e (config_object c)]" "normalizeAdvancedCustomConfig c = Inr c"
    "validateAdvancedCustomConfig (env_url ?e) (Some c) = Inr None"
    using assms(2) by (auto simp: saved_ok_def)
  then have handed: "text = fe_stringify env (config_object c)" using assms(2) by (simp add: drawer_editor_env_def)
  have "form_routes env (drawer_save_routes text f) = Some c" if "json_keeps (fe_parse env) (fe_stringify env) (config_object c)"
    using parse_stringified(2)[OF c(2) that] by (simp add: form_routes_def drawer_save_routes_def handed)
  moreover have "cb_type (form_base (drawer_save_routes text f)) = cb_type (form_base f)" by (simp add: drawer_save_routes_def)
  ultimately show ?thesis using c(3) handed assms(3) route_result[of "js ''advanced_custom''" "Some (config_object c)" env "drawer_save_routes text f"]
    by (intro exI[of _ c]) (auto simp: drawer_editor_env_def route_steps_def)
qed

definition drawer_env :: FormEnv where
  "drawer_env = form_env_of (\<lambda>s. Some (config_object sample_split)) (\<lambda>v. js ''{}'')"

lemma drawer_env_sample: "drawer_editor_env drawer_env = sample_editor_env sample_split"
  by (simp add: drawer_editor_env_def drawer_env_def form_env_of_def sample_editor_env_def form_url_def fun_eq_iff)

theorem edited_routes_saved_witness:
  "\<exists>c. js ''{}'' = fe_stringify drawer_env (config_object c) \<and> validateAdvancedCustomConfig (form_url drawer_env) (Some c) = Inr None"
proof -
  let ?f = "sample_form 58 (js ''{}'')" and ?st = "(sample_state sample_split)\<lparr>ed_saved := [js ''{}''], ed_open := False\<rparr>"
  have "drawer_editor drawer_env ?f = open_editor (sample_editor_env sample_split) (js ''{}'')"
    by (simp add: drawer_editor_def drawer_env_sample sample_data js_or_def)
  moreover have "editor_run (sample_editor_env sample_split) (open_editor (sample_editor_env sample_split) (js ''{}'')) [PressSave] ?st"
    by (rule sample_step) (simp add: sample_saved)
  ultimately have run: "editor_run (drawer_editor_env drawer_env) (drawer_editor drawer_env ?f) [PressSave] ?st"
    by (simp add: drawer_env_sample)
  have "js ''{}'' \<in> set (ed_saved ?st)" "has_type [CHANNEL_TYPE_ADVANCED_CUSTOM] (cb_type (form_base ?f))"
    by (simp_all add: sample_data has_type_def CHANNEL_TYPE_ADVANCED_CUSTOM_def)
  from edited_routes_saved[OF run this] show ?thesis by blast
qed

end
